(* ===== verification/Prelude.thy ===== *)
theory Prelude
  imports Main "HOL-Library.Word" "HOL-Library.Multiset" "HOL-Library.List_Lexorder" "HOL-Library.Char_ord"
begin

text \<open>
  What every component of the development shares: the machine types of the Go sources,
  Go errors as values, results as sums, little-endian encodings
  (\<open>encoding/binary\<close>), hexadecimal strings (\<open>encoding/hex\<close>), and the
  generic lemmas on lists and words that carry the component proofs.
\<close>

section \<open>Machine types\<close>

type_synonym byte = "8 word"
type_synonym u8 = "8 word"
type_synonym u16 = "16 word"
type_synonym u32 = "32 word"
type_synonym u64 = "64 word"
type_synonym bytes = "byte list"

named_theorems nat_of_word \<open>readings of word arithmetic as natural numbers\<close>
named_theorems result_simps \<open>inversions of result-valued control flow\<close>

section \<open>Go errors\<close>

text \<open>
  An error is the message template of \<open>errors.New\<close> or \<open>fmt.Errorf\<close> with its
  arguments, or one of the sentinel values the code compares with. An argument
  \<open>FE e\<close> is a wrapped error (the verb \<open>%w\<close>).
\<close>

datatype go_error =
    Msg string
  | Errorf string "fmt_arg list"
  | EOF
  | ErrUnexpectedEOF
  | ErrShortWrite
  | ErrNoProgress
  | Canceled
  | DeadlineExceeded
  | ErrVerification
  | External nat
and fmt_arg =
    FN nat
  | FS string
  | FE go_error

text \<open>\<open>errors.Is\<close>: the error itself or one it wraps.\<close>

fun errors_is :: "go_error \<Rightarrow> go_error \<Rightarrow> bool"
and args_is :: "fmt_arg list \<Rightarrow> go_error \<Rightarrow> bool" where
  "errors_is (Errorf f as) t = (Errorf f as = t \<or> args_is as t)"
| "errors_is e t = (e = t)"
| "args_is [] t = False"
| "args_is (FE e # as) t = (errors_is e t \<or> args_is as t)"
| "args_is (a # as) t = args_is as t"

type_synonym 'a res = "go_error + 'a"

text \<open>\<open>bindE\<close> is the ubiquitous \<open>if err != nil { return err }\<close>.\<close>

definition bindE :: "'a res \<Rightarrow> ('a \<Rightarrow> 'b res) \<Rightarrow> 'b res" where
  "bindE m f = (case m of Inl e \<Rightarrow> Inl e | Inr x \<Rightarrow> f x)"

text \<open>\<open>mapE\<close> replaces or wraps the error on the way out.\<close>

definition mapE :: "(go_error \<Rightarrow> go_error) \<Rightarrow> 'a res \<Rightarrow> 'a res" where
  "mapE g m = (case m of Inl e \<Rightarrow> Inl (g e) | Inr x \<Rightarrow> Inr x)"

definition check :: "bool \<Rightarrow> go_error \<Rightarrow> unit res" where
  "check ok e = (if ok then Inr () else Inl e)"

definition is_ok :: "'a res \<Rightarrow> bool" where
  "is_ok r = (case r of Inl _ \<Rightarrow> False | Inr _ \<Rightarrow> True)"

lemma bindE_Inr [simp]: "bindE (Inr x) f = f x"
  by (simp add: bindE_def)

lemma bindE_Inl [simp]: "bindE (Inl e) f = Inl e"
  by (simp add: bindE_def)

lemma bindE_eq_Inr [result_simps]:
  "bindE m f = Inr y \<longleftrightarrow> (\<exists>x. m = Inr x \<and> f x = Inr y)"
  by (cases m) auto

lemma mapE_Inr [simp]: "mapE g (Inr x) = Inr x"
  by (simp add: mapE_def)

lemma mapE_Inl [simp]: "mapE g (Inl e) = Inl (g e)"
  by (simp add: mapE_def)

lemma mapE_eq_Inr [result_simps]: "mapE g m = Inr x \<longleftrightarrow> m = Inr x"
  by (cases m) auto

lemma check_eq_Inr [result_simps]: "check ok e = Inr u \<longleftrightarrow> ok"
  by (simp add: check_def)

lemma if_Inl_eq_Inr [result_simps]:
  "(if c then Inl e else r) = Inr x \<longleftrightarrow> \<not> c \<and> r = Inr x"
  by simp

lemma case_sum_eq_Inr [result_simps]:
  "(case m of Inl e \<Rightarrow> Inl (h e) | Inr x \<Rightarrow> f x) = Inr y \<longleftrightarrow> (\<exists>x. m = Inr x \<and> f x = Inr y)"
  by (cases m) auto

lemma is_ok_simps [simp]: "is_ok (Inr x)" "\<not> is_ok (Inl e)"
  by (simp_all add: is_ok_def)

lemma is_ok_iff: "is_ok r \<longleftrightarrow> (\<exists>x. r = Inr x)"
  by (cases r) auto

section \<open>Lists\<close>

text \<open>The Go slice expression \<open>bs[i:j]\<close>.\<close>

definition slice :: "'a list \<Rightarrow> nat \<Rightarrow> nat \<Rightarrow> 'a list" where
  "slice xs i j = take (j - i) (drop i xs)"

lemma length_slice [simp]: "j \<le> length xs \<Longrightarrow> length (slice xs i j) = j - i"
  by (simp add: slice_def)

lemma nth_slice [simp]: "k < j - i \<Longrightarrow> j \<le> length xs \<Longrightarrow> slice xs i j ! k = xs ! (i + k)"
  by (simp add: slice_def)

lemma slice_append: "i \<le> j \<Longrightarrow> j \<le> k \<Longrightarrow> slice xs i j @ slice xs j k = slice xs i k"
proof -
  assume "i \<le> j" "j \<le> k"
  then have "slice xs j k = take (k - j) (drop (j - i) (drop i xs))"
    by (simp add: slice_def)
  moreover have "k - i = (j - i) + (k - j)" using \<open>i \<le> j\<close> \<open>j \<le> k\<close> by simp
  ultimately show ?thesis by (simp only: slice_def take_add)
qed

lemma slice_full [simp]: "slice xs 0 (length xs) = xs"
  by (simp add: slice_def)

lemma sum_list_bound:
  "(\<And>x. x \<in> set xs \<Longrightarrow> f x \<le> g x) \<Longrightarrow> sum_list (map f xs) \<le> (sum_list (map g xs) :: nat)"
  by (rule sum_list_mono)

section \<open>Sorting (sort.Slice)\<close>

text \<open>
  \<open>sort.Slice\<close> sorts by a \<open>less\<close> function; its contract is that \<open>less\<close> is a strict
  weak order, the locale \<open>less_order\<close>. Where the order is total on the elements, as for
  every use in the sources, the result does not depend on the sorting algorithm.
\<close>

fun insert_by :: "('a \<Rightarrow> 'a \<Rightarrow> bool) \<Rightarrow> 'a \<Rightarrow> 'a list \<Rightarrow> 'a list" where
  "insert_by lt x [] = [x]"
| "insert_by lt x (y # ys) = (if lt y x then y # insert_by lt x ys else x # y # ys)"

fun sort_by :: "('a \<Rightarrow> 'a \<Rightarrow> bool) \<Rightarrow> 'a list \<Rightarrow> 'a list" where
  "sort_by lt [] = []"
| "sort_by lt (x # xs) = insert_by lt x (sort_by lt xs)"

lemma mset_insert_by [simp]: "mset (insert_by lt x ys) = add_mset x (mset ys)"
  by (induction ys) auto

lemma mset_sort_by [simp]: "mset (sort_by lt xs) = mset xs"
  by (induction xs) auto

lemma set_sort_by [simp]: "set (sort_by lt xs) = set xs"
  by (metis mset_sort_by set_mset_mset)

lemma length_sort_by [simp]: "length (sort_by lt xs) = length xs"
  by (metis mset_sort_by size_mset)

locale less_order =
  fixes lt :: "'a \<Rightarrow> 'a \<Rightarrow> bool"
  assumes asym: "lt a b \<Longrightarrow> \<not> lt b a"
    and cotrans: "lt a c \<Longrightarrow> lt a b \<or> lt b c"
begin

lemma not_less_trans: "\<not> lt b a \<Longrightarrow> \<not> lt c b \<Longrightarrow> \<not> lt c a"
  using cotrans by blast

lemma sorted_insert_by:
  "sorted_wrt (\<lambda>a b. \<not> lt b a) ys \<Longrightarrow> sorted_wrt (\<lambda>a b. \<not> lt b a) (insert_by lt x ys)"
proof (induction ys)
  case Nil
  then show ?case by simp
next
  case (Cons y ys)
  have "set (insert_by lt x ys) = insert x (set ys)"
    by (metis mset_insert_by set_mset_add_mset_insert set_mset_mset)
  with Cons show ?case by (auto dest: asym not_less_trans)
qed

lemma sorted_sort_by: "sorted_wrt (\<lambda>a b. \<not> lt b a) (sort_by lt xs)"
  by (induction xs) (auto intro: sorted_insert_by)

lemma sort_by_sorted_id:
  "sorted_wrt lt xs \<Longrightarrow> sort_by lt xs = xs"
proof (induction xs)
  case (Cons x xs)
  then show ?case by (cases xs) (auto dest: asym)
qed simp

end

text \<open>
  The \<open>less\<close> functions of the sources compare one key after the other.
\<close>

lemma less_order_key: "less_order (\<lambda>a b. k a < (k b :: 'k::linorder))"
  by unfold_locales auto

lemma less_order_lex:
  assumes "less_order lt"
  shows "less_order (\<lambda>a b. if k a \<noteq> k b then k a < (k b :: 'k::linorder) else lt a b)"
proof -
  from assms have a: "\<And>a b. lt a b \<Longrightarrow> \<not> lt b a"
    and c: "\<And>a b c. lt a c \<Longrightarrow> lt a b \<or> lt b c"
    by (auto simp: less_order_def)
  show ?thesis
    by unfold_locales (use a c in \<open>fastforce split: if_splits\<close>)+
qed

section \<open>Statements about unordered pairs of a list\<close>

lemma pair_subset_add_mset:
  "{#x, y#} \<subseteq># add_mset a M \<longleftrightarrow> (x = a \<and> y \<in># M) \<or> (y = a \<and> x \<in># M) \<or> {#x, y#} \<subseteq># M"
  (is "?l = ?r")
proof (cases "x = a \<or> y = a")
  case True
  then show ?thesis
  proof
    assume x: "x = a"
    show ?thesis
    proof (cases "y = a")
      case True
      with x show ?thesis by (auto simp: insert_subset_eq_iff)
    next
      case False
      with x show ?thesis by (auto simp: insert_subset_eq_iff dest: in_diffD)
    qed
  next
    assume y: "y = a"
    have c: "{#x, y#} = {#y, x#}" by (rule add_mset_commute)
    show ?thesis
    proof (cases "x = a")
      case True
      with y show ?thesis by (auto simp: insert_subset_eq_iff)
    next
      case False
      with y show ?thesis unfolding c by (auto simp: insert_subset_eq_iff dest: in_diffD)
    qed
  qed
next
  case False
  then show ?thesis by (auto simp: insert_subset_eq_iff)
qed

lemma sorted_wrt_symmetric:
  assumes "\<And>x y. P x y \<Longrightarrow> P y x"
  shows "sorted_wrt P xs \<longleftrightarrow> (\<forall>x y. {#x, y#} \<subseteq># mset xs \<longrightarrow> P x y)"
proof (induction xs)
  case Nil
  then show ?case by simp
next
  case (Cons a xs)
  then show ?case by (auto simp: pair_subset_add_mset dest: assms)
qed

lemma sorted_wrt_perm:
  assumes "\<And>x y. P x y \<Longrightarrow> P y x" and "mset xs = mset ys"
  shows "sorted_wrt P xs = sorted_wrt P ys"
  using sorted_wrt_symmetric [of P, OF assms(1)] assms(2) by metis

section \<open>Words read as natural numbers\<close>

lemma unat_less_pow: "unat (x :: 'a::len word) < 2 ^ LENGTH('a)"
  by (rule unsigned_less)

lemma unat_lt_64: "unat (x :: u64) < 18446744073709551616"
  using unat_less_pow [of x] by simp

lemma unat_lt_32: "unat (x :: u32) < 4294967296"
  using unat_less_pow [of x] by simp

lemma unat_lt_8: "unat (x :: byte) < 256"
  using unat_less_pow [of x] by simp

lemma unat_le_32: "unat (x :: u32) \<le> 4294967295"
  using unat_lt_32 [of x] by linarith

text \<open>\<open>uint64(x)\<close> of a 32-bit or 16-bit value.\<close>

definition u64_of :: "'a::len word \<Rightarrow> u64" where
  "u64_of x = ucast x"

lemma unat_u64_of_32 [simp, nat_of_word]: "unat (u64_of (x :: u32)) = unat x"
  by (simp add: u64_of_def unsigned_ucast_eq take_bit_nat_eq_self order.strict_trans2 [OF unsigned_less])

lemma unat_u64_of_16 [simp, nat_of_word]: "unat (u64_of (x :: u16)) = unat x"
  by (simp add: u64_of_def unsigned_ucast_eq take_bit_nat_eq_self order.strict_trans2 [OF unsigned_less])

lemma unat_u64_of_8 [simp, nat_of_word]: "unat (u64_of (x :: u8)) = unat x"
  by (simp add: u64_of_def unsigned_ucast_eq take_bit_nat_eq_self order.strict_trans2 [OF unsigned_less])

lemma u64_of_eq_0 [simp]: "u64_of (x :: u32) = 0 \<longleftrightarrow> x = 0"
  by (metis unat_u64_of_32 unat_eq_zero)

lemma unat_plus_64: "unat x + unat y < 2 ^ 64 \<Longrightarrow> unat (x + y :: u64) = unat x + unat y"
  by (simp add: unat_word_ariths)

lemma unat_mult_64: "unat x * unat y < 2 ^ 64 \<Longrightarrow> unat (x * y :: u64) = unat x * unat y"
  by (simp add: unat_word_ariths)

lemma unat_minus_64: "y \<le> x \<Longrightarrow> unat (x - y :: u64) = unat x - unat y"
  by (simp add: unat_sub)

lemma unat_div_64 [nat_of_word]: "unat (x div y :: u64) = unat x div unat y"
  by (simp add: unat_div)

lemma unat_mod_64 [nat_of_word]: "unat (x mod y :: u64) = unat x mod unat y"
  by (simp add: unat_mod)

lemma word_le_unat [nat_of_word]: "x \<le> y \<longleftrightarrow> unat x \<le> unat (y :: 'a::len word)"
  by (rule word_le_nat_alt)

lemma word_less_unat [nat_of_word]: "x < y \<longleftrightarrow> unat x < unat (y :: 'a::len word)"
  by (rule word_less_nat_alt)

lemma word_eq_unat: "x = y \<longleftrightarrow> unat x = unat (y :: 'a::len word)"
  by (rule word_unat_eq_iff)

lemma unat_of_nat_64: "n < 2 ^ 64 \<Longrightarrow> unat (of_nat n :: u64) = n"
  by (simp add: unat_of_nat take_bit_nat_eq_self)

lemma unat_of_nat_32: "n < 2 ^ 32 \<Longrightarrow> unat (of_nat n :: u32) = n"
  by (simp add: unat_of_nat take_bit_nat_eq_self)

lemma sint_small: "unat (x :: u64) < 2 ^ 63 \<Longrightarrow> sint x = int (unat x)"
proof -
  assume a: "unat x < 2 ^ 63"
  have u: "uint x = int (unat x)" by (simp only: uint_nat)
  have "int (unat x) < 2 ^ 63" using a by (metis of_nat_less_iff of_nat_numeral of_nat_power)
  moreover have "- (2 ^ 63) \<le> int (unat x)" by (rule order.trans [of _ 0]) simp_all
  ultimately have "signed_take_bit 63 (int (unat x)) = int (unat x)"
    by (intro signed_take_bit_int_eq_self)
  moreover have "sint x = signed_take_bit (LENGTH(64) - Suc 0) (uint x)" by (rule sint_uint)
  moreover have "LENGTH(64) - Suc 0 = 63" by simp
  ultimately show ?thesis by (simp only: u)
qed

lemma take_drop_split:
  "m \<le> n \<Longrightarrow> take m (drop k xs) @ take (n - m) (drop (k + m) xs) = take n (drop k xs)"
  by (metis add.commute drop_drop le_add_diff_inverse take_add)

section \<open>Little-endian integers (encoding/binary)\<close>

fun le_word :: "bytes \<Rightarrow> 'a::len word" where
  "le_word [] = 0"
| "le_word (b # bs) = ucast b + 256 * le_word bs"

fun word_le :: "nat \<Rightarrow> 'a::len word \<Rightarrow> bytes" where
  "word_le 0 w = []"
| "word_le (Suc k) w = ucast w # word_le k (w div 256)"

definition get_u16 :: "bytes \<Rightarrow> u16" where "get_u16 bs = le_word (take 2 bs)"
definition get_u32 :: "bytes \<Rightarrow> u32" where "get_u32 bs = le_word (take 4 bs)"
definition get_u64 :: "bytes \<Rightarrow> u64" where "get_u64 bs = le_word (take 8 bs)"
definition put_u16 :: "u16 \<Rightarrow> bytes" where "put_u16 x = word_le 2 x"
definition put_u32 :: "u32 \<Rightarrow> bytes" where "put_u32 x = word_le 4 x"
definition put_u64 :: "u64 \<Rightarrow> bytes" where "put_u64 x = word_le 8 x"

lemma length_word_le [simp]: "length (word_le k w) = k"
  by (induction k arbitrary: w) auto

lemma unat_256: "8 < LENGTH('a) \<Longrightarrow> unat (256 :: 'a::len word) = 256"
proof -
  assume "8 < LENGTH('a)"
  then have "(2::nat) ^ 8 < 2 ^ LENGTH('a)" by (intro power_strict_increasing) auto
  then show ?thesis by (simp add: unat_numeral take_bit_nat_eq_self)
qed

lemma ucast_byte_mod:
  assumes "8 < LENGTH('a)"
  shows "ucast (ucast (w :: 'a::len word) :: byte) = w mod 256"
proof -
  have m: "unat (w mod 256) = unat w mod 256"
    using unat_mod [of w 256] unat_256 [OF assms] by metis
  have "unat w mod 256 < 2 ^ LENGTH('a)"
    using unat_less_pow [of w] by (meson le_less_trans mod_less_eq_dividend)
  then have "unat (ucast (ucast w :: byte) :: 'a word) = unat w mod 256"
    by (simp add: m unsigned_ucast_eq take_bit_eq_mod)
  with m show ?thesis by (metis word_unat_eq_iff)
qed

lemma le_word_word_le:
  "8 < LENGTH('a) \<Longrightarrow> unat (w :: 'a::len word) < 256 ^ k \<Longrightarrow> le_word (word_le k w) = w"
proof (induction k arbitrary: w)
  case 0
  then show ?case by (simp add: word_unat_eq_iff)
next
  case (Suc k)
  have "unat (w div 256) = unat w div 256"
    by (simp only: unat_div unat_256 [OF Suc.prems(1)])
  with Suc.prems(2) have "unat (w div 256) < 256 ^ k"
    by (simp add: less_mult_imp_div_less mult.commute)
  then have "le_word (word_le k (w div 256)) = w div 256"
    using Suc by blast
  moreover have "w mod 256 + 256 * (w div 256) = w"
    by (metis add.commute mult.commute div_mult_mod_eq)
  ultimately show ?case by (simp add: ucast_byte_mod [OF Suc.prems(1)])
qed

lemma put_lengths [simp]:
  "length (put_u16 a) = 2" "length (put_u32 b) = 4" "length (put_u64 c) = 8"
  by (simp_all add: put_u16_def put_u32_def put_u64_def)

lemma get_put_u16 [simp]: "get_u16 (put_u16 x) = x"
  using unat_less_pow [of x] by (simp add: get_u16_def put_u16_def le_word_word_le)

lemma get_put_u32 [simp]: "get_u32 (put_u32 x) = x"
  using unat_less_pow [of x] by (simp add: get_u32_def put_u32_def le_word_word_le)

lemma get_put_u64 [simp]: "get_u64 (put_u64 x) = x"
  using unat_less_pow [of x] by (simp add: get_u64_def put_u64_def le_word_word_le)

lemma put_inj [simp]:
  "put_u16 a = put_u16 a' \<longleftrightarrow> a = a'"
  "put_u32 b = put_u32 b' \<longleftrightarrow> b = b'"
  "put_u64 c = put_u64 c' \<longleftrightarrow> c = c'"
  by (metis get_put_u16, metis get_put_u32, metis get_put_u64)

section \<open>Hexadecimal strings (encoding/hex)\<close>

definition hex_digit :: "nat \<Rightarrow> char" where
  "hex_digit n = (if n < 10 then char_of (48 + n) else char_of (87 + n))"

definition hex_byte :: "byte \<Rightarrow> string" where
  "hex_byte b = [hex_digit (unat b div 16), hex_digit (unat b mod 16)]"

definition hex_encode :: "bytes \<Rightarrow> string" where
  "hex_encode bs = concat (map hex_byte bs)"

lemma length_hex_encode [simp]: "length (hex_encode bs) = 2 * length bs"
  by (induction bs) (simp_all add: hex_encode_def hex_byte_def)

lemma hex_digit_inj: "m < 16 \<Longrightarrow> n < 16 \<Longrightarrow> hex_digit m = hex_digit n \<longleftrightarrow> m = n"
  by (auto simp: hex_digit_def split: if_splits dest!: arg_cong [of "char_of _" _ "of_char :: char \<Rightarrow> nat"])

lemma hex_byte_inj: "hex_byte a = hex_byte b \<longleftrightarrow> a = b"
proof
  assume "hex_byte a = hex_byte b"
  then have "unat a div 16 = unat b div 16" "unat a mod 16 = unat b mod 16"
    using unat_lt_8 [of a] unat_lt_8 [of b]
    by (simp_all add: hex_byte_def hex_digit_inj)
  then have "unat a = unat b" by (metis div_mult_mod_eq)
  then show "a = b" by (simp add: word_unat_eq_iff)
qed simp

lemma hex_encode_inj: "hex_encode a = hex_encode b \<longleftrightarrow> a = b"
proof
  show "hex_encode a = hex_encode b \<Longrightarrow> a = b"
  proof (induction a arbitrary: b)
    case Nil
    then show ?case by (cases b) (simp_all add: hex_encode_def hex_byte_def)
  next
    case (Cons x xs)
    then obtain y ys where "b = y # ys"
      by (cases b) (simp_all add: hex_encode_def hex_byte_def)
    with Cons.prems have "hex_byte x = hex_byte y \<and> hex_encode xs = hex_encode ys"
      by (simp add: hex_encode_def hex_byte_def)
    with Cons.IH \<open>b = y # ys\<close> show ?case by (simp add: hex_byte_inj)
  qed
qed simp

section \<open>Strings\<close>

definition string_bytes :: "string \<Rightarrow> bytes" where
  "string_bytes s = map (\<lambda>c. of_nat (of_char c :: nat)) s"

definition bytes_string :: "bytes \<Rightarrow> string" where
  "bytes_string bs = map (\<lambda>b. char_of (unat b)) bs"

lemma bytes_string_bytes [simp]: "string_bytes (bytes_string bs) = bs"
proof -
  have "of_nat (of_char (char_of (unat b) :: char) :: nat) = b" for b :: byte
    using unat_lt_8 [of b] by simp
  then show ?thesis by (induction bs) (simp_all add: string_bytes_def bytes_string_def)
qed

lemma string_bytes_string [simp]: "bytes_string (string_bytes s) = s"
proof -
  have "char_of (unat (of_nat (of_char c) :: byte)) = c" for c :: char
  proof -
    have "unat (of_nat (of_char c) :: byte) = of_char c mod 256"
      by (simp add: unat_of_nat take_bit_eq_mod)
    then show ?thesis by simp
  qed
  then show ?thesis by (induction s) (simp_all add: string_bytes_def bytes_string_def)
qed

lemma length_bytes_string [simp]: "length (bytes_string bs) = length bs"
  by (simp add: bytes_string_def)

lemma length_string_bytes [simp]: "length (string_bytes s) = length s"
  by (simp add: string_bytes_def)

text \<open>
  \<open>strings.TrimSpace\<close>: the UTF-8 encodings of the code points \<open>unicode.IsSpace\<close>
  accepts are removed from both ends. A string is its list of bytes.
\<close>

definition utf8 :: "nat list \<Rightarrow> string" where
  "utf8 bs = map char_of bs"

definition space_runes :: "string list" where
  "space_runes = map utf8
     ([[9], [10], [11], [12], [13], [32], [194, 133], [194, 160], [225, 154, 128]]
      @ map (\<lambda>k. [226, 128, 128 + k]) [0 ..< 11]
      @ [[226, 128, 168], [226, 128, 169], [226, 128, 175], [226, 129, 159], [227, 128, 128]])"

definition strip_one :: "string list \<Rightarrow> string \<Rightarrow> string option" where
  "strip_one ps s =
     (case find (\<lambda>p. take (length p) s = p) ps of
        None \<Rightarrow> None
      | Some p \<Rightarrow> Some (drop (length p) s))"

fun strip_many :: "string list \<Rightarrow> nat \<Rightarrow> string \<Rightarrow> string" where
  "strip_many ps 0 s = s"
| "strip_many ps (Suc n) s =
     (case strip_one ps s of None \<Rightarrow> s | Some s' \<Rightarrow> strip_many ps n s')"

definition trim_space :: "string \<Rightarrow> string" where
  "trim_space s =
     (let l = strip_many space_runes (length s) s
      in rev (strip_many (map rev space_runes) (length l) (rev l)))"

lemma space_rune_heads:
  "p \<in> set space_runes \<Longrightarrow> p \<noteq> [] \<and> (of_char (hd p) < (33::nat) \<or> 126 < (of_char (hd p) :: nat))
     \<and> (of_char (last p) < (33::nat) \<or> 126 < (of_char (last p) :: nat))"
proof -
  have "list_all (\<lambda>p. p \<noteq> [] \<and> (of_char (hd p) < (33::nat) \<or> 126 < (of_char (hd p) :: nat))
     \<and> (of_char (last p) < (33::nat) \<or> 126 < (of_char (last p) :: nat))) space_runes"
    by code_simp
  then show "p \<in> set space_runes \<Longrightarrow> ?thesis" by (simp add: list_all_iff)
qed

lemma strip_many_id:
  "s \<noteq> [] \<Longrightarrow> \<forall>p \<in> set ps. p \<noteq> [] \<and> hd p \<noteq> hd s \<Longrightarrow> strip_many ps n s = s"
proof -
  assume "s \<noteq> []" and h: "\<forall>p \<in> set ps. p \<noteq> [] \<and> hd p \<noteq> hd s"
  have "find (\<lambda>p. take (length p) s = p) ps = None"
    unfolding find_None_iff
  proof (intro notI)
    assume "\<exists>p. p \<in> set ps \<and> take (length p) s = p"
    then obtain p where "p \<in> set ps" "take (length p) s = p" by blast
    with h \<open>s \<noteq> []\<close> show False by (metis hd_take length_greater_0_conv)
  qed
  then show ?thesis by (cases n) (simp_all add: strip_one_def)
qed

text \<open>A string that begins and ends with a visible ASCII character has nothing to trim.\<close>

lemma trim_space_id:
  assumes "s \<noteq> []" "33 \<le> (of_char (hd s) :: nat)" "(of_char (hd s) :: nat) \<le> 126"
    "33 \<le> (of_char (last s) :: nat)" "(of_char (last s) :: nat) \<le> 126"
  shows "trim_space s = s"
proof -
  have a: "strip_many space_runes n s = s" for n
    by (rule strip_many_id) (use assms space_rune_heads in fastforce)+
  have "strip_many (map rev space_runes) n (rev s) = rev s" for n
    by (rule strip_many_id) (use assms space_rune_heads in \<open>fastforce simp: hd_rev\<close>)+
  with a show ?thesis by (simp add: trim_space_def Let_def)
qed
definition has_prefix :: "string \<Rightarrow> string \<Rightarrow> bool" where
  "has_prefix s p = (take (length p) s = p)"

text \<open>\<open>strconv.Itoa\<close> and the verb \<open>%d\<close> on unsigned values.\<close>

fun digits_rev :: "nat \<Rightarrow> nat \<Rightarrow> string" where
  "digits_rev 0 n = []"
| "digits_rev (Suc fuel) n =
     (if n < 10 then [hex_digit n]
      else hex_digit (n mod 10) # digits_rev fuel (n div 10))"

definition decimal :: "u64 \<Rightarrow> string" where
  "decimal x = rev (digits_rev 20 (unat x))"

section \<open>Loops that stop at the first error\<close>

text \<open>A \<open>for ... range\<close> loop that appends a result per element or returns an error.\<close>

fun traverse :: "('a \<Rightarrow> 'b res) \<Rightarrow> 'a list \<Rightarrow> 'b list res" where
  "traverse f [] = Inr []"
| "traverse f (x # xs) = bindE (f x) (\<lambda>y. bindE (traverse f xs) (\<lambda>ys. Inr (y # ys)))"

lemma traverse_Inr: "traverse f xs = Inr ys \<longleftrightarrow> list_all2 (\<lambda>x y. f x = Inr y) xs ys"
proof (induction xs arbitrary: ys)
  case Nil
  then show ?case by auto
next
  case (Cons x xs)
  then show ?case by (cases ys) (auto simp: result_simps)
qed

lemma traverse_ok: "(\<And>x. x \<in> set xs \<Longrightarrow> f x = Inr (g x)) \<Longrightarrow> traverse f xs = Inr (map g xs)"
  by (induction xs) auto

lemma traverse_Inr_map: "traverse f xs = Inr ys \<Longrightarrow> (\<And>x y. f x = Inr y \<Longrightarrow> y = g x) \<Longrightarrow> ys = map g xs"
  unfolding traverse_Inr by (induction xs ys rule: list_all2_induct) auto

section \<open>Paths (path/filepath)\<close>

text \<open>
  \<open>filepath.Clean\<close> of a rooted path: empty and \<open>.\<close> elements are dropped and \<open>..\<close> removes the
  element before it, if there is one.
\<close>

fun split_path :: "string \<Rightarrow> string list" where
  "split_path [] = [[]]"
| "split_path (c # cs) =
     (if c = CHR ''/'' then [] # split_path cs
      else case split_path cs of [] \<Rightarrow> [[c]] | p # ps \<Rightarrow> (c # p) # ps)"

fun clean_elements :: "string list \<Rightarrow> string list \<Rightarrow> string list" where
  "clean_elements acc [] = rev acc"
| "clean_elements acc (p # ps) =
     (if p = [] \<or> p = ''.'' then clean_elements acc ps
      else if p = ''..'' then clean_elements (tl acc) ps
      else clean_elements (p # acc) ps)"

fun join_path :: "string list \<Rightarrow> string" where
  "join_path [] = []"
| "join_path [p] = p"
| "join_path (p # ps) = p @ ''/'' @ join_path ps"

definition clean_rooted :: "string \<Rightarrow> string" where
  "clean_rooted p = ''/'' @ join_path (clean_elements [] (split_path p))"

definition is_abs :: "string \<Rightarrow> bool" where
  "is_abs p = has_prefix p ''/''"

text \<open>\<open>filepath.Clean\<close> of any path; a leading \<open>..\<close> of a relative path stays.\<close>

fun clean_relative :: "string list \<Rightarrow> string list \<Rightarrow> string list" where
  "clean_relative acc [] = rev acc"
| "clean_relative acc (p # ps) =
     (if p = [] \<or> p = ''.'' then clean_relative acc ps
      else if p = ''..'' \<and> acc \<noteq> [] \<and> hd acc \<noteq> ''..'' then clean_relative (tl acc) ps
      else clean_relative (p # acc) ps)"

definition clean_path :: "string \<Rightarrow> string" where
  "clean_path p =
     (if is_abs p then clean_rooted p
      else case clean_relative [] (split_path p) of [] \<Rightarrow> ''.'' | es \<Rightarrow> join_path es)"

text \<open>\<open>filepath.Base\<close>: the last element, without trailing slashes.\<close>

definition base_name :: "string \<Rightarrow> string" where
  "base_name p =
     (if p = [] then ''.''
      else case filter (\<lambda>e. e \<noteq> []) (split_path p) of [] \<Rightarrow> ''/'' | es \<Rightarrow> last es)"

section \<open>Numbers as text (strconv)\<close>

definition digit_value :: "char \<Rightarrow> nat option" where
  "digit_value c = (let n = of_char c in if 48 \<le> n \<and> n \<le> 57 then Some (n - 48) else None)"

text \<open>\<open>strconv.ParseUint(s, 10, 64)\<close>; \<open>whole\<close> is the text the error quotes.\<close>

fun parse_digits :: "string \<Rightarrow> nat \<Rightarrow> string \<Rightarrow> u64 res" where
  "parse_digits whole n [] = Inr (of_nat n)"
| "parse_digits whole n (c # cs) =
     (case digit_value c of
        None \<Rightarrow> Inl (Errorf ''strconv.ParseUint: parsing %q: invalid syntax'' [FS whole])
      | Some d \<Rightarrow>
          if 2 ^ 64 \<le> n * 10 + d
          then Inl (Errorf ''strconv.ParseUint: parsing %q: value out of range'' [FS whole])
          else parse_digits whole (n * 10 + d) cs)"

definition parse_uint64 :: "string \<Rightarrow> u64 res" where
  "parse_uint64 s =
     (if s = [] then Inl (Errorf ''strconv.ParseUint: parsing %q: invalid syntax'' [FS s])
      else parse_digits s 0 s)"

lemma digit_value_hex_digit: "d < 10 \<Longrightarrow> digit_value (hex_digit d) = Some d"
  by (auto simp: digit_value_def hex_digit_def Let_def)

lemma parse_digits_rev:
  "n < 10 ^ fuel \<Longrightarrow> n < 2 ^ 64 \<Longrightarrow>
     parse_digits whole 0 (rev (digits_rev fuel n) @ rest) = parse_digits whole n rest"
proof (induction fuel arbitrary: n rest)
  case (Suc fuel)
  show ?case
  proof (cases "n < 10")
    case True
    then show ?thesis by (simp add: digit_value_hex_digit)
  next
    case False
    have s: "n div 10 < 10 ^ fuel" "n div 10 < 2 ^ 64" using Suc.prems by auto
    have m: "n div 10 * 10 + n mod 10 = n" by simp
    have "parse_digits whole 0 (rev (digits_rev (Suc fuel) n) @ rest)
        = parse_digits whole (n div 10) (hex_digit (n mod 10) # rest)"
      using False Suc.IH [OF s] by simp
    also have "\<dots> = parse_digits whole n rest"
      using Suc.prems(2) m by (simp add: digit_value_hex_digit del: div_mult_mod_eq)
    finally show ?thesis .
  qed
qed simp

lemma parse_decimal: "parse_uint64 (decimal x) = Inr x"
proof -
  have "unat x < 10 ^ 20" using unat_lt_64 [of x] by simp
  then have "parse_digits (decimal x) 0 (decimal x) = Inr x"
    using parse_digits_rev [of "unat x" 20 "decimal x" "[]"] unat_lt_64 [of x] by (simp add: decimal_def)
  moreover have "digits_rev (Suc k) m \<noteq> []" for k m by simp
  from this [of 19 "unat x"] have "decimal x \<noteq> []" by (simp add: decimal_def del: digits_rev.simps)
  ultimately show ?thesis by (simp add: parse_uint64_def)
qed

lemma decimal_inj: "decimal x = decimal y \<longleftrightarrow> x = y"
  by (metis parse_decimal sum.inject(2))

lemma digit_code: "d < 10 \<Longrightarrow> (of_char (hex_digit d) :: nat) = 48 + d"
  by (simp add: hex_digit_def)

lemma digits_rev_chars: "c \<in> set (digits_rev k n) \<Longrightarrow> 48 \<le> (of_char c :: nat) \<and> (of_char c :: nat) \<le> 57"
proof (induction k arbitrary: n)
  case (Suc k)
  then show ?case by (cases "n < 10") (auto simp: digit_code)
qed simp

lemma decimal_codes: "c \<in> set (decimal x) \<Longrightarrow> 48 \<le> (of_char c :: nat) \<and> (of_char c :: nat) \<le> 57"
  using digits_rev_chars [of c 20 "unat x"] by (simp add: decimal_def)

lemma digits_length: "length (digits_rev k n) \<le> k"
  by (induction k n rule: digits_rev.induct) auto

lemma decimal_nonempty: "decimal x \<noteq> []"
  by (metis parse_decimal parse_uint64_def sum.distinct(1))

section \<open>Calls into the environment\<close>

text \<open>
  A call that may change the outside world takes the world and returns it: \<open>'w\<close> is whatever
  state the operating system keeps. \<open>try_call\<close> is \<open>if err := f(); err != nil { return err }\<close>.
\<close>

type_synonym ('w, 'a) act = "'w \<Rightarrow> 'a res \<times> 'w"
type_synonym 'w poll = "'w \<Rightarrow> go_error option \<times> 'w"

text \<open>
  A read at an offset into a buffer of the given length returns the bytes it put there and an
  error; a write returns the number of bytes it wrote and an error (\<open>io.ReaderAt\<close>,
  \<open>io.WriterAt\<close>). A nil function is \<open>None\<close>.
\<close>

type_synonym 'w read_at = "nat \<Rightarrow> u64 \<Rightarrow> 'w \<Rightarrow> (bytes \<times> go_error option) \<times> 'w"
type_synonym 'w write_at = "bytes \<Rightarrow> u64 \<Rightarrow> 'w \<Rightarrow> (nat \<times> go_error option) \<times> 'w"

text \<open>
  Where nothing writes while the code reads, a reader is a function from an offset and a buffer
  length to the bytes and the error.
\<close>

type_synonym reader_at = "int \<Rightarrow> nat \<Rightarrow> bytes \<times> go_error option"

section \<open>Media\<close>

text \<open>A medium is a function from addresses to bytes. \<open>segment\<close> is a part of it.\<close>

definition segment :: "(u64 \<Rightarrow> byte) \<Rightarrow> u64 \<Rightarrow> nat \<Rightarrow> nat \<Rightarrow> bytes" where
  "segment f off a b = map (\<lambda>i. f (off + of_nat i)) [a..<b]"

lemma length_segment [simp]: "length (segment f off a b) = b - a"
  by (simp add: segment_def)

lemma segment_empty [simp]: "b \<le> a \<Longrightarrow> segment f off a b = []"
  by (simp add: segment_def)

lemma segment_append: "a \<le> b \<Longrightarrow> b \<le> c \<Longrightarrow> segment f off a b @ segment f off b c = segment f off a c"
  using upt_add_eq_append [of a b "c - b"] by (simp add: segment_def flip: map_append)

text \<open>The medium after a write.\<close>

definition stored :: "bytes \<Rightarrow> nat \<Rightarrow> (u64 \<Rightarrow> byte) \<Rightarrow> u64 \<Rightarrow> byte" where
  "stored buf lo c = (\<lambda>a. if lo \<le> unat a \<and> unat a < lo + length buf then buf ! (unat a - lo) else c a)"

lemma segment_stored_same:
  assumes "unat off + length buf \<le> 2 ^ 64"
  shows "segment (stored buf (unat off) c) off 0 (length buf) = buf"
proof (rule nth_equalityI)
  fix i assume "i < length (segment (stored buf (unat off) c) off 0 (length buf))"
  then have i: "i < length buf" by simp
  with assms have "unat (off + of_nat i) = unat off + i" by (simp add: unat_plus_64 unat_of_nat_64)
  with i show "segment (stored buf (unat off) c) off 0 (length buf) ! i = buf ! i"
    by (simp add: segment_def stored_def)
qed simp

lemma segment_stored_other:
  assumes "unat off + n \<le> 2 ^ 64" "unat off + n \<le> lo \<or> lo + length buf \<le> unat off"
  shows "segment (stored buf lo c) off 0 n = segment c off 0 n"
proof (rule nth_equalityI)
  fix i assume "i < length (segment (stored buf lo c) off 0 n)"
  then have i: "i < n" by simp
  with assms(1) have "unat (off + of_nat i) = unat off + i" by (simp add: unat_plus_64 unat_of_nat_64)
  with i assms(2) show "segment (stored buf lo c) off 0 n ! i = segment c off 0 n ! i"
    by (auto simp: segment_def stored_def)
qed simp

definition ret_act :: "'a \<Rightarrow> ('w, 'a) act" where
  "ret_act x w = (Inr x, w)"

definition pure_act :: "'a res \<Rightarrow> ('w, 'a) act" where
  "pure_act r w = (r, w)"

definition bind_act :: "('w, 'a) act \<Rightarrow> ('a \<Rightarrow> ('w, 'b) act) \<Rightarrow> ('w, 'b) act" where
  "bind_act m f w = (case m w of (Inl e, w1) \<Rightarrow> (Inl e, w1) | (Inr x, w1) \<Rightarrow> f x w1)"

definition wrap_act :: "(go_error \<Rightarrow> go_error) \<Rightarrow> ('w, 'a) act \<Rightarrow> ('w, 'a) act" where
  "wrap_act g m w = (case m w of (r, w1) \<Rightarrow> (mapE g r, w1))"

definition try_call :: "'w poll \<Rightarrow> ('w, unit) act" where
  "try_call f w = (case f w of (Some e, w1) \<Rightarrow> (Inl e, w1) | (None, w1) \<Rightarrow> (Inr (), w1))"

lemma bind_act_Inr [result_simps]:
  "bind_act m f w = (Inr y, w2) \<longleftrightarrow> (\<exists>x w1. m w = (Inr x, w1) \<and> f x w1 = (Inr y, w2))"
  by (auto simp: bind_act_def split: prod.splits sum.splits)

lemma wrap_act_Inr [result_simps]: "wrap_act g m w = (Inr y, w2) \<longleftrightarrow> m w = (Inr y, w2)"
  by (auto simp: wrap_act_def mapE_eq_Inr split: prod.splits)

lemma try_call_Inr [result_simps]: "try_call f w = (Inr u, w2) \<longleftrightarrow> f w = (None, w2)"
  by (auto simp: try_call_def split: prod.splits option.splits)

lemma pure_act_Inr [result_simps]: "pure_act r w = (Inr y, w2) \<longleftrightarrow> r = Inr y \<and> w2 = w"
  by (auto simp: pure_act_def)

lemma ret_act_Inr [result_simps]: "ret_act x w = (Inr y, w2) \<longleftrightarrow> x = y \<and> w2 = w"
  by (auto simp: ret_act_def)

text \<open>A call keeps a property of the world on every outcome.\<close>

definition act_keeps :: "('w \<Rightarrow> 'v) \<Rightarrow> ('w \<Rightarrow> 'a \<times> 'w) \<Rightarrow> bool" where
  "act_keeps v m \<longleftrightarrow> (\<forall>w. v (snd (m w)) = v w)"

lemma act_keepsD: "act_keeps v m \<Longrightarrow> m w = (r, w1) \<Longrightarrow> v w1 = v w"
  by (metis act_keeps_def snd_conv)

lemma act_keeps_pure [intro, simp]: "act_keeps v (pure_act r)" "act_keeps v (ret_act x)"
  by (simp_all add: act_keeps_def pure_act_def ret_act_def)

lemma act_keeps_bind [intro]:
  "act_keeps v m \<Longrightarrow> (\<And>x. act_keeps v (f x)) \<Longrightarrow> act_keeps v (bind_act m f)"
  by (simp add: act_keeps_def bind_act_def split: prod.splits sum.splits) (metis snd_conv)

lemma act_keeps_wrap [intro]: "act_keeps v m \<Longrightarrow> act_keeps v (wrap_act g m)"
  by (simp add: act_keeps_def wrap_act_def split: prod.splits) (metis snd_conv)

lemma act_keeps_try [intro]: "act_keeps v f \<Longrightarrow> act_keeps v (try_call f)"
  by (simp add: act_keeps_def try_call_def split: prod.splits option.splits) (metis snd_conv)

end
