(* ===== verification/Sha256.thy ===== *)
theory Sha256
  imports Prelude
begin

text \<open>
  The standard library's \<open>crypto/sha256\<close>, which every plan, piece of evidence and
  content comparison of the program is built on, as a computable function on byte lists.
  The code feeds digests incrementally (\<open>digest.Write\<close>); a digest state is the list of
  bytes written so far and \<open>digest.Sum(nil)\<close> is \<open>sha256\<close> of it.
\<close>

unbundle bit_operations_syntax

definition sha_k :: "u32 list" where
  "sha_k =
  [1116352408, 1899447441, 3049323471, 3921009573, 961987163, 1508970993,
   2453635748, 2870763221, 3624381080, 310598401, 607225278, 1426881987,
   1925078388, 2162078206, 2614888103, 3248222580, 3835390401, 4022224774,
   264347078, 604807628, 770255983, 1249150122, 1555081692, 1996064986,
   2554220882, 2821834349, 2952996808, 3210313671, 3336571891, 3584528711,
   113926993, 338241895, 666307205, 773529912, 1294757372, 1396182291,
   1695183700, 1986661051, 2177026350, 2456956037, 2730485921, 2820302411,
   3259730800, 3345764771, 3516065817, 3600352804, 4094571909, 275423344,
   430227734, 506948616, 659060556, 883997877, 958139571, 1322822218,
   1537002063, 1747873779, 1955562222, 2024104815, 2227730452, 2361852424,
   2428436474, 2756734187, 3204031479, 3329325298]"

definition sha_init :: "u32 list" where
  "sha_init = [0x6a09e667, 0xbb67ae85, 0x3c6ef372, 0xa54ff53a, 0x510e527f, 0x9b05688c, 0x1f83d9ab, 0x5be0cd19]"

definition rotr :: "nat \<Rightarrow> u32 \<Rightarrow> u32" where
  "rotr n x = (drop_bit n x) OR (push_bit (32 - n) x)"

definition sha_ch :: "u32 \<Rightarrow> u32 \<Rightarrow> u32 \<Rightarrow> u32" where
  "sha_ch e f g = (e AND f) XOR (NOT e AND g)"

definition sha_maj :: "u32 \<Rightarrow> u32 \<Rightarrow> u32 \<Rightarrow> u32" where
  "sha_maj a b c = (a AND b) XOR (a AND c) XOR (b AND c)"

definition big_sigma0 :: "u32 \<Rightarrow> u32" where
  "big_sigma0 x = rotr 2 x XOR rotr 13 x XOR rotr 22 x"

definition big_sigma1 :: "u32 \<Rightarrow> u32" where
  "big_sigma1 x = rotr 6 x XOR rotr 11 x XOR rotr 25 x"

definition small_sigma0 :: "u32 \<Rightarrow> u32" where
  "small_sigma0 x = rotr 7 x XOR rotr 18 x XOR drop_bit 3 x"

definition small_sigma1 :: "u32 \<Rightarrow> u32" where
  "small_sigma1 x = rotr 17 x XOR rotr 19 x XOR drop_bit 10 x"

text \<open>Big-endian words, and the padding to a multiple of 64 bytes.\<close>

definition be_word :: "bytes \<Rightarrow> u32" where
  "be_word bs = le_word (rev bs)"

definition word_be :: "u32 \<Rightarrow> bytes" where
  "word_be w = rev (put_u32 w)"

definition sha_pad :: "bytes \<Rightarrow> bytes" where
  "sha_pad bs = bs @ [0x80] @ replicate ((119 - length bs mod 64) mod 64) 0
     @ rev (put_u64 (8 * of_nat (length bs)))"

fun chunks_of :: "nat \<Rightarrow> nat \<Rightarrow> 'a list \<Rightarrow> 'a list list" where
  "chunks_of n 0 xs = []"
| "chunks_of n (Suc k) xs = take n xs # chunks_of n k (drop n xs)"

text \<open>
  The message schedule holds the last sixteen words, oldest first; a round uses the oldest
  and appends the next one.
\<close>

definition schedule_next :: "u32 list \<Rightarrow> u32" where
  "schedule_next w = small_sigma1 (w ! 14) + w ! 9 + small_sigma0 (w ! 1) + w ! 0"

fun sha_round :: "u32 \<Rightarrow> u32 \<Rightarrow> u32 list \<Rightarrow> u32 list" where
  "sha_round k w [a, b, c, d, e, f, g, h] =
     (let t1 = h + big_sigma1 e + sha_ch e f g + k + w;
          t2 = big_sigma0 a + sha_maj a b c
      in [t1 + t2, a, b, c, d + t1, e, f, g])"
| "sha_round k w st = st"

fun sha_rounds :: "u32 list \<Rightarrow> u32 list \<Rightarrow> u32 list \<Rightarrow> u32 list" where
  "sha_rounds [] w st = st"
| "sha_rounds (k # ks) w st =
     sha_rounds ks (tl w @ [schedule_next w]) (sha_round k (hd w) st)"

definition sha_block :: "bytes \<Rightarrow> u32 list \<Rightarrow> u32 list" where
  "sha_block blk st =
     map2 (+) st (sha_rounds sha_k (map be_word (chunks_of 4 16 blk)) st)"

definition sha256 :: "bytes \<Rightarrow> bytes" where
  "sha256 bs =
     (let p = sha_pad bs
      in concat (map word_be (fold sha_block (chunks_of 64 (length p div 64) p) sha_init)))"

definition sha256_hex :: "bytes \<Rightarrow> string" where
  "sha256_hex bs = hex_encode (sha256 bs)"

lemma length_sha_round: "length st = 8 \<Longrightarrow> length (sha_round k w st) = 8"
  by (cases "(k, w, st)" rule: sha_round.cases) (auto simp: Let_def)

lemma length_sha_rounds: "length st = 8 \<Longrightarrow> length (sha_rounds ks w st) = 8"
  by (induction ks arbitrary: w st) (auto simp: length_sha_round)

lemma length_fold_sha_block: "length st = 8 \<Longrightarrow> length (fold sha_block bs st) = 8"
  by (induction bs arbitrary: st) (auto simp: sha_block_def length_sha_rounds)

lemma length_concat_word_be: "length (concat (map word_be ws)) = 4 * length ws"
  by (induction ws) (auto simp: word_be_def)

lemma length_sha256 [simp]: "length (sha256 bs) = 32"
  by (simp add: sha256_def Let_def length_concat_word_be length_fold_sha_block sha_init_def)

lemma length_sha256_hex [simp]: "length (sha256_hex bs) = 64"
  by (simp add: sha256_hex_def)

lemma sha256_hex_eq: "sha256_hex a = sha256_hex b \<longleftrightarrow> sha256 a = sha256 b"
  by (simp add: sha256_hex_def hex_encode_inj)

section \<open>Decoding\<close>

text \<open>\<open>hex.DecodeString\<close>; None is its error.\<close>

definition hex_value :: "char \<Rightarrow> nat option" where
  "hex_value c =
     (let n = of_char c in
      if 48 \<le> n \<and> n \<le> 57 then Some (n - 48)
      else if 97 \<le> n \<and> n \<le> 102 then Some (n - 87)
      else if 65 \<le> n \<and> n \<le> 70 then Some (n - 55)
      else None)"

fun hex_decode :: "string \<Rightarrow> bytes option" where
  "hex_decode [] = Some []"
| "hex_decode [c] = None"
| "hex_decode (c # d # cs) =
     (case (hex_value c, hex_value d, hex_decode cs) of
        (Some h, Some l, Some bs) \<Rightarrow> Some (of_nat (16 * h + l) # bs)
      | _ \<Rightarrow> None)"

lemma hex_value_digit: "n < 16 \<Longrightarrow> hex_value (hex_digit n) = Some n"
  by (auto simp: hex_value_def hex_digit_def Let_def)

lemma hex_decode_encode: "hex_decode (hex_encode bs) = Some bs"
proof (induction bs)
  case (Cons b bs)
  have "of_nat (16 * (unat b div 16) + unat b mod 16) = b" by simp
  then show ?case using Cons unat_lt_8 [of b]
    by (simp add: hex_encode_def hex_byte_def hex_value_digit)
qed (simp add: hex_encode_def)

end
