(* ===== verification/FfuInspect.thy ===== *)
theory FfuInspect
  imports Sha256
begin

text \<open>
  \<open>internal/ffu/inspect.go\<close>: the read-only structural inspection of an FFU image. The
  record fields carry the Go field names, prefixed by the struct they belong to. An
  \<open>io.ReaderAt\<close> is a parameter, the function from an offset and a buffer length to the
  bytes it delivered and its error; a nil interface is \<open>None\<close>.
\<close>

text \<open>\<open>ReadAt\<close> of a regular file with the given contents (\<open>os.File\<close>, \<open>bytes.Reader\<close>).\<close>

definition file_reader :: "bytes \<Rightarrow> reader_at" where
  "file_reader contents off n =
     (let d = take n (drop (nat off) contents)
      in (d, if length d < n then Some EOF else None))"

section \<open>Checked arithmetic\<close>

definition maxUint64 :: u64 where "maxUint64 = 0xFFFFFFFFFFFFFFFF"

definition checkedAdd :: "u64 \<Rightarrow> u64 \<Rightarrow> u64 res" where
  "checkedAdd left right =
     (let result = left + right
      in if result < left then Inl (Msg ''unsigned addition overflow'') else Inr result)"

definition checkedMul :: "u64 \<Rightarrow> u64 \<Rightarrow> u64 res" where
  "checkedMul left right =
     (if left \<noteq> 0 \<and> maxUint64 div left < right
      then Inl (Msg ''unsigned multiplication overflow'')
      else Inr (left * right))"

definition alignUp :: "u64 \<Rightarrow> u64 \<Rightarrow> u64 res" where
  "alignUp value alignment =
     (if alignment = 0 then Inl (Msg ''zero alignment'')
      else let remainder = value mod alignment
           in if remainder = 0 then Inr value
              else checkedAdd value (alignment - remainder))"

definition isPowerOfTwo :: "u64 \<Rightarrow> bool" where
  "isPowerOfTwo value = (value \<noteq> 0 \<and> and value (value - 1) = 0)"

definition payloadBlockEnd :: "u32 \<Rightarrow> u32 \<Rightarrow> u64 res" where
  "payloadBlockEnd index cnt = checkedAdd (u64_of index) (u64_of cnt)"

section \<open>Headers\<close>

definition securityHeaderBytes :: nat where "securityHeaderBytes = 32"
definition imageHeaderBytes :: nat where "imageHeaderBytes = 24"
definition storeCommonHeaderBytes :: nat where "storeCommonHeaderBytes = 248"
definition maxChunkBytes :: u64 where "maxChunkBytes = 0x40000000"
definition maxBlockBytes :: u64 where "maxBlockBytes = 0x40000000"
definition maxReaderAt :: u64 where "maxReaderAt = 0x7FFFFFFFFFFFFFFF"

record SecurityHeader =
  sec_HeaderSize :: u32
  sec_Signature :: string
  sec_ChunkSizeKB :: u32
  sec_ChunkSizeBytes :: u64
  sec_AlgorithmID :: u32
  sec_CatalogSize :: u32
  sec_HashTableSize :: u32

record ImageHeader =
  img_HeaderSize :: u32
  img_Signature :: string
  img_ManifestLength :: u32
  img_ChunkSizeKB :: u32

record StoreHeader =
  st_CommonHeaderSize :: u32
  st_UpdateType :: u32
  st_MajorVersion :: u16
  st_MinorVersion :: u16
  st_FullFlashMajorVersion :: u16
  st_FullFlashMinorVersion :: u16
  st_PlatformID :: string
  st_BlockSizeBytes :: u32
  st_WriteDescriptorCount :: u32
  st_WriteDescriptorLength :: u32
  st_ValidateDescriptorCount :: u32
  st_ValidateDescriptorLength :: u32
  st_InitialTableBlockIndex :: u32
  st_InitialTableBlockCount :: u32
  st_InitialTableBlockEnd :: u64
  st_FlashOnlyTableBlockIndex :: u32
  st_FlashOnlyTableBlockCount :: u32
  st_FlashOnlyTableBlockEnd :: u64
  st_FinalTableBlockIndex :: u32
  st_FinalTableBlockCount :: u32
  st_FinalTableBlockEnd :: u64

record Inspection =
  insp_Schema :: nat
  insp_FileSize :: u64
  insp_SecurityHeaderOffset :: u64
  insp_CatalogOffset :: u64
  insp_HashTableOffset :: u64
  insp_ImageHeaderOffset :: u64
  insp_ManifestOffset :: u64
  insp_StoreHeaderOffset :: u64
  insp_StoreCommonEndOffset :: u64
  insp_MinimumDescriptorBytes :: u64
  insp_BytesAfterStoreCommon :: u64
  insp_Security :: SecurityHeader
  insp_Image :: ImageHeader
  insp_Store :: StoreHeader
  insp_IntegrityMetadataPresent :: bool
  insp_DescriptorLayoutResolved :: bool
  insp_PayloadLayoutResolved :: bool
  insp_RestorationSupported :: bool
  insp_Limitations :: "string list"

text \<open>The bytes before the first NUL, trimmed.\<close>

definition trimPlatformID :: "bytes \<Rightarrow> string" where
  "trimPlatformID raw = trim_space (bytes_string (takeWhile (\<lambda>b. b \<noteq> 0) raw))"

definition readRegion :: "reader_at \<Rightarrow> u64 \<Rightarrow> u64 \<Rightarrow> nat \<Rightarrow> string \<Rightarrow> bytes res" where
  "readRegion reader fsize offset len label =
     (if fsize < offset \<or> fsize - offset < of_nat len
      then Inl (Errorf ''truncated FFU %s at offset %d'' [FS label, FN (unat offset)])
      else case reader (sint offset) len of (buffer, err) \<Rightarrow>
        (case err of
           Some e \<Rightarrow>
             if \<not> errors_is e EOF then Inl (Errorf ''read FFU %s: %w'' [FS label, FE e])
             else if length buffer \<noteq> len
             then Inl (Errorf ''truncated FFU %s at offset %d'' [FS label, FN (unat offset)])
             else Inr buffer
         | None \<Rightarrow>
             if length buffer \<noteq> len
             then Inl (Errorf ''truncated FFU %s at offset %d'' [FS label, FN (unat offset)])
             else Inr buffer))"

definition security_header_of :: "bytes \<Rightarrow> SecurityHeader" where
  "security_header_of b =
     \<lparr> sec_HeaderSize = get_u32 (slice b 0 4),
       sec_Signature = bytes_string (slice b 4 16),
       sec_ChunkSizeKB = get_u32 (slice b 16 20),
       sec_ChunkSizeBytes = 0,
       sec_AlgorithmID = get_u32 (slice b 20 24),
       sec_CatalogSize = get_u32 (slice b 24 28),
       sec_HashTableSize = get_u32 (slice b 28 32) \<rparr>"

definition image_header_of :: "bytes \<Rightarrow> ImageHeader" where
  "image_header_of b =
     \<lparr> img_HeaderSize = get_u32 (slice b 0 4),
       img_Signature = bytes_string (slice b 4 16),
       img_ManifestLength = get_u32 (slice b 16 20),
       img_ChunkSizeKB = get_u32 (slice b 20 24) \<rparr>"

definition store_header_of :: "bytes \<Rightarrow> StoreHeader" where
  "store_header_of b =
     \<lparr> st_CommonHeaderSize = of_nat storeCommonHeaderBytes,
       st_UpdateType = get_u32 (slice b 0 4),
       st_MajorVersion = get_u16 (slice b 4 6),
       st_MinorVersion = get_u16 (slice b 6 8),
       st_FullFlashMajorVersion = get_u16 (slice b 8 10),
       st_FullFlashMinorVersion = get_u16 (slice b 10 12),
       st_PlatformID = trimPlatformID (slice b 12 204),
       st_BlockSizeBytes = get_u32 (slice b 204 208),
       st_WriteDescriptorCount = get_u32 (slice b 208 212),
       st_WriteDescriptorLength = get_u32 (slice b 212 216),
       st_ValidateDescriptorCount = get_u32 (slice b 216 220),
       st_ValidateDescriptorLength = get_u32 (slice b 220 224),
       st_InitialTableBlockIndex = get_u32 (slice b 224 228),
       st_InitialTableBlockCount = get_u32 (slice b 228 232),
       st_InitialTableBlockEnd = 0,
       st_FlashOnlyTableBlockIndex = get_u32 (slice b 232 236),
       st_FlashOnlyTableBlockCount = get_u32 (slice b 236 240),
       st_FlashOnlyTableBlockEnd = 0,
       st_FinalTableBlockIndex = get_u32 (slice b 240 244),
       st_FinalTableBlockCount = get_u32 (slice b 244 248),
       st_FinalTableBlockEnd = 0 \<rparr>"

section \<open>Inspect\<close>

text \<open>The security-header block of \<open>Inspect\<close>: the header with its chunk size in bytes.\<close>

definition inspect_security :: "reader_at \<Rightarrow> u64 \<Rightarrow> SecurityHeader res" where
  "inspect_security reader fsize =
     bindE (readRegion reader fsize 0 securityHeaderBytes ''security header'') (\<lambda>b.
     let security = security_header_of b
     in if sec_HeaderSize security \<noteq> of_nat securityHeaderBytes
     then Inl (Errorf ''unsupported FFU security header size %d''
                 [FN (unat (sec_HeaderSize security))])
     else if sec_Signature security \<noteq> ''SignedImage ''
     then Inl (Errorf ''invalid FFU security signature %q'' [FS (sec_Signature security)])
     else case checkedMul (u64_of (sec_ChunkSizeKB security)) 1024 of
       Inl _ \<Rightarrow> Inl (Errorf ''invalid FFU chunk size %d KiB''
                         [FN (unat (sec_ChunkSizeKB security))])
     | Inr chunkBytes \<Rightarrow>
         if chunkBytes = 0 \<or> maxChunkBytes < chunkBytes \<or> \<not> isPowerOfTwo chunkBytes
         then Inl (Errorf ''invalid FFU chunk size %d KiB''
                     [FN (unat (sec_ChunkSizeKB security))])
         else if sec_CatalogSize security = 0 \<or> sec_HashTableSize security = 0
         then Inl (Msg ''FFU security catalog and hash table must both be present'')
         else Inr (security\<lparr>sec_ChunkSizeBytes := chunkBytes\<rparr>))"

text \<open>The image-header block: the header and the store offset after the manifest.\<close>

definition inspect_image ::
  "reader_at \<Rightarrow> u64 \<Rightarrow> SecurityHeader \<Rightarrow> u64 \<Rightarrow> (ImageHeader \<times> u64 \<times> u64) res" where
  "inspect_image reader fsize security imageOffset =
     bindE (readRegion reader fsize imageOffset imageHeaderBytes ''image header'') (\<lambda>b.
     let image = image_header_of b
     in if img_HeaderSize image \<noteq> of_nat imageHeaderBytes
     then Inl (Errorf ''unsupported FFU image header size %d''
                 [FN (unat (img_HeaderSize image))])
     else if img_Signature image \<noteq> ''ImageFlash  ''
     then Inl (Errorf ''invalid FFU image signature %q'' [FS (img_Signature image)])
     else if img_ManifestLength image = 0
     then Inl (Msg ''FFU manifest is empty'')
     else if img_ChunkSizeKB image \<noteq> sec_ChunkSizeKB security
     then Inl (Errorf ''FFU chunk-size mismatch: security=%d KiB image=%d KiB''
                 [FN (unat (sec_ChunkSizeKB security)), FN (unat (img_ChunkSizeKB image))])
     else
       bindE (mapE (\<lambda>_. Msg ''FFU manifest offset overflows'')
                (checkedAdd imageOffset (of_nat imageHeaderBytes))) (\<lambda>manifestOffset.
       bindE (mapE (\<lambda>_. Msg ''FFU manifest boundary overflows'')
                (checkedAdd manifestOffset (u64_of (img_ManifestLength image)))) (\<lambda>manifestEnd.
       bindE (mapE (\<lambda>e. Errorf ''align FFU store header: %w'' [FE e])
                (alignUp manifestEnd (sec_ChunkSizeBytes security))) (\<lambda>storeOffset.
       Inr (image, manifestOffset, storeOffset)))))"

text \<open>The store-header block with its table ranges and descriptor sizes.\<close>

definition store_table_ends :: "StoreHeader \<Rightarrow> StoreHeader res" where
  "store_table_ends store =
     bindE (mapE (\<lambda>e. Errorf ''FFU initial-table payload range: %w'' [FE e])
       (payloadBlockEnd (st_InitialTableBlockIndex store) (st_InitialTableBlockCount store)))
       (\<lambda>initialEnd.
     bindE (mapE (\<lambda>e. Errorf ''FFU flash-only-table payload range: %w'' [FE e])
       (payloadBlockEnd (st_FlashOnlyTableBlockIndex store) (st_FlashOnlyTableBlockCount store)))
       (\<lambda>flashOnlyEnd.
     bindE (mapE (\<lambda>e. Errorf ''FFU final-table payload range: %w'' [FE e])
       (payloadBlockEnd (st_FinalTableBlockIndex store) (st_FinalTableBlockCount store)))
       (\<lambda>finalEnd.
     Inr (store\<lparr>st_InitialTableBlockEnd := initialEnd,
                st_FlashOnlyTableBlockEnd := flashOnlyEnd,
                st_FinalTableBlockEnd := finalEnd\<rparr>))))"

definition check_store :: "StoreHeader \<Rightarrow> unit res" where
  "check_store store =
     (let blockBytes = u64_of (st_BlockSizeBytes store)
      in if blockBytes = 0 \<or> maxBlockBytes < blockBytes \<or> blockBytes mod 512 \<noteq> 0
            \<or> \<not> isPowerOfTwo blockBytes
      then Inl (Errorf ''invalid FFU block size %d bytes''
                  [FN (unat (st_BlockSizeBytes store))])
      else if st_WriteDescriptorCount store = 0 \<or> st_WriteDescriptorLength store = 0
      then Inl (Msg ''FFU contains no write descriptors'')
      else case checkedMul (u64_of (st_WriteDescriptorCount store)) 16 of
        Inl _ \<Rightarrow> Inl (Errorf ''FFU write descriptor table is too short for %d entries''
                          [FN (unat (st_WriteDescriptorCount store))])
      | Inr minimumWriteLength \<Rightarrow>
          if u64_of (st_WriteDescriptorLength store) < minimumWriteLength
          then Inl (Errorf ''FFU write descriptor table is too short for %d entries''
                      [FN (unat (st_WriteDescriptorCount store))])
          else if (st_ValidateDescriptorCount store = 0)
                    \<noteq> (st_ValidateDescriptorLength store = 0)
          then Inl (Msg ''FFU validation descriptor count/length are inconsistent'')
          else Inr ())"

definition inspectionLimitations :: "string list" where
  "inspectionLimitations =
    [''only the 248-byte common store prefix is parsed'',
     ''variable store extensions and descriptor-table offsets are not yet resolved'',
     ''write and validation descriptor semantics are not yet parsed'',
     ''payload GPT table ranges are recorded but cannot be bounded until total payload blocks are parsed'',
     ''the security catalog and chunk hash table are located but not yet authenticated'',
     ''payload location, compression, and sparse destination mapping are unresolved'',
     ''split SFU and optimized FFU resize semantics are unsupported'',
     ''no target device can be written by this package'']"

definition Inspect :: "reader_at option \<Rightarrow> u64 \<Rightarrow> Inspection res" where
  "Inspect reader_opt fsize =
     (case reader_opt of None \<Rightarrow> Inl (Msg ''FFU reader is nil'') | Some reader \<Rightarrow>
      if fsize = 0 then Inl (Msg ''FFU image is empty'')
      else if maxReaderAt < fsize
      then Inl (Msg ''FFU image is too large for ReaderAt offsets'')
      else
      bindE (inspect_security reader fsize) (\<lambda>security.
      let catalogOffset = of_nat securityHeaderBytes in
      bindE (mapE (\<lambda>_. Msg ''FFU catalog boundary overflows'')
               (checkedAdd catalogOffset (u64_of (sec_CatalogSize security)))) (\<lambda>hashTableOffset.
      bindE (mapE (\<lambda>_. Msg ''FFU hash-table boundary overflows'')
               (checkedAdd hashTableOffset (u64_of (sec_HashTableSize security)))) (\<lambda>securityEnd.
      bindE (mapE (\<lambda>e. Errorf ''align FFU image header: %w'' [FE e])
               (alignUp securityEnd (sec_ChunkSizeBytes security))) (\<lambda>imageOffset.
      bindE (inspect_image reader fsize security imageOffset)
        (\<lambda>(image, manifestOffset, storeOffset).
      bindE (readRegion reader fsize storeOffset storeCommonHeaderBytes ''common store header'')
        (\<lambda>storeBytes.
      bindE (store_table_ends (store_header_of storeBytes)) (\<lambda>store.
      bindE (check_store store) (\<lambda>_.
      bindE (mapE (\<lambda>_. Msg ''FFU common store-header boundary overflows'')
               (checkedAdd storeOffset (of_nat storeCommonHeaderBytes))) (\<lambda>storeCommonEnd.
      bindE (mapE (\<lambda>_. Msg ''FFU descriptor lengths overflow'')
               (checkedAdd (u64_of (st_ValidateDescriptorLength store))
                           (u64_of (st_WriteDescriptorLength store)))) (\<lambda>minimumDescriptorBytes.
      if fsize - storeCommonEnd < minimumDescriptorBytes
      then Inl (Msg ''FFU is too short to contain its declared descriptor tables after the common store header'')
      else Inr
        \<lparr> insp_Schema = 3,
          insp_FileSize = fsize,
          insp_SecurityHeaderOffset = 0,
          insp_CatalogOffset = catalogOffset,
          insp_HashTableOffset = hashTableOffset,
          insp_ImageHeaderOffset = imageOffset,
          insp_ManifestOffset = manifestOffset,
          insp_StoreHeaderOffset = storeOffset,
          insp_StoreCommonEndOffset = storeCommonEnd,
          insp_MinimumDescriptorBytes = minimumDescriptorBytes,
          insp_BytesAfterStoreCommon = fsize - storeCommonEnd,
          insp_Security = security,
          insp_Image = image,
          insp_Store = store,
          insp_IntegrityMetadataPresent = True,
          insp_DescriptorLayoutResolved = False,
          insp_PayloadLayoutResolved = False,
          insp_RestorationSupported = False,
          insp_Limitations = inspectionLimitations \<rparr>)))))))))))"

section \<open>Correctness\<close>

lemma checkedAdd_Inr:
  "checkedAdd a b = Inr c \<longleftrightarrow> unat a + unat b < 2 ^ 64 \<and> c = a + b"
proof -
  have u: "unat (a + b) = (unat a + unat b) mod 2 ^ 64" by (simp add: unat_word_ariths)
  have "a + b < a \<longleftrightarrow> \<not> unat a + unat b < 2 ^ 64"
  proof (cases "unat a + unat b < 2 ^ 64")
    case True
    then show ?thesis by (simp add: word_less_unat u)
  next
    case False
    then have "(unat a + unat b) mod 2 ^ 64 = (unat a + unat b - 2 ^ 64) mod 2 ^ 64"
      by (intro le_mod_geq) simp
    also have "\<dots> = unat a + unat b - 2 ^ 64"
      using unat_lt_64 [of a] unat_lt_64 [of b] by (intro mod_less) simp
    finally show ?thesis
      using False unat_lt_64 [of b] by (simp add: word_less_unat u)
  qed
  then show ?thesis by (auto simp: checkedAdd_def Let_def)
qed

lemma checkedMul_Inr:
  "checkedMul a b = Inr c \<longleftrightarrow> unat a * unat b < 2 ^ 64 \<and> c = a * b"
proof -
  have m: "unat maxUint64 = 2 ^ 64 - 1" by (simp add: maxUint64_def)
  have "a \<noteq> 0 \<and> maxUint64 div a < b \<longleftrightarrow> \<not> unat a * unat b < 2 ^ 64"
  proof (cases "a = 0")
    case False
    then have pos: "0 < unat a" by (simp add: unat_gt_0)
    have "unat a * unat b < 2 ^ 64 \<longleftrightarrow> unat b * unat a \<le> 2 ^ 64 - 1"
      by (auto simp: mult.commute)
    also have "\<dots> \<longleftrightarrow> unat b \<le> (2 ^ 64 - 1) div unat a"
      using pos by (rule less_eq_div_iff_mult_less_eq [symmetric])
    finally show ?thesis using False
      by (simp add: word_less_unat unat_div m not_less not_le)
  qed simp
  then show ?thesis by (auto simp: checkedMul_def)
qed

lemma round_up_nat:
  fixes v a :: nat
  assumes "0 < a" "0 < v mod a"
  shows "v + (a - v mod a) = a * Suc (v div a)"
proof -
  have "v mod a \<le> a" using assms(1) by (simp add: less_imp_le)
  moreover have "v = a * (v div a) + v mod a" by simp
  ultimately have "v + (a - v mod a) = a * (v div a) + a" by linarith
  then show ?thesis by simp
qed

lemma alignUp_Inr:
  "alignUp v a = Inr r \<longleftrightarrow>
     a \<noteq> 0 \<and> (if unat v mod unat a = 0 then r = v
       else unat a * Suc (unat v div unat a) < 2 ^ 64 \<and> unat r = unat a * Suc (unat v div unat a))"
proof (cases "a = 0 \<or> v mod a = 0")
  case True
  then consider "a = 0" | "a \<noteq> 0" "v mod a = 0" "unat v mod unat a = 0"
    by (metis unat_mod unat_0)
  then show ?thesis
  proof cases
    case 1
    then show ?thesis by (simp add: alignUp_def)
  next
    case 2
    then show ?thesis by (auto simp: alignUp_def Let_def 2(2,3))
  qed
next
  case False
  then have a0: "a \<noteq> 0" and v0: "v mod a \<noteq> 0" by auto
  then have nz: "0 < unat v mod unat a" by (metis unat_mod unat_gt_0)
  have le: "v mod a \<le> a"
    using a0 by (simp add: word_le_unat unat_mod less_imp_le unat_gt_0)
  have u: "unat v + unat (a - v mod a) = unat a * Suc (unat v div unat a)"
    using round_up_nat [OF _ nz] le a0 by (simp add: unat_sub unat_mod unat_gt_0)
  have "alignUp v a = Inr r \<longleftrightarrow>
      unat v + unat (a - v mod a) < 2 ^ 64 \<and> r = v + (a - v mod a)"
    using a0 v0 by (simp add: alignUp_def Let_def checkedAdd_Inr)
  also have "\<dots> \<longleftrightarrow> unat v + unat (a - v mod a) < 2 ^ 64
      \<and> unat r = unat v + unat (a - v mod a)"
    by (auto simp: unat_plus_64 word_eq_unat)
  finally show ?thesis using a0 nz by (simp only: u) simp
qed

lemma alignUp_bounds:
  assumes "alignUp v a = Inr r"
  shows "a \<noteq> 0 \<and> unat v \<le> unat r \<and> unat r < unat v + unat a \<and> unat a dvd unat r"
proof (cases "unat v mod unat a = 0")
  case True
  with assms show ?thesis by (auto simp: alignUp_Inr unat_gt_0)
next
  case False
  with assms have "a \<noteq> 0" and r: "unat r = unat v + (unat a - unat v mod unat a)"
    using round_up_nat [of "unat a" "unat v"] by (auto simp: alignUp_Inr unat_gt_0)
  moreover have "unat v mod unat a < unat a" using \<open>a \<noteq> 0\<close> by (simp add: unat_gt_0)
  moreover have "unat a dvd unat r" using False assms by (simp add: alignUp_Inr)
  ultimately show ?thesis using False by (intro conjI) auto
qed

lemma checkedAdd_unat: "checkedAdd a b = Inr c \<Longrightarrow> unat c = unat a + unat b"
  by (auto simp: checkedAdd_Inr unat_plus_64)

lemma checkedMul_unat: "checkedMul a b = Inr c \<Longrightarrow> unat c = unat a * unat b"
  by (auto simp: checkedMul_Inr unat_mult_64)

lemma readRegion_Inr:
  assumes "readRegion reader fsize off len label = Inr b" and "len < 2 ^ 64"
  shows "unat off + len \<le> unat fsize \<and> length b = len \<and> b = fst (reader (sint off) len)"
proof -
  obtain d e where r: "reader (sint off) len = (d, e)" by fastforce
  from assms(1) have "off \<le> fsize" "of_nat len \<le> fsize - off"
    by (auto simp: readRegion_def not_less split: if_splits)
  then have "len \<le> unat fsize - unat off" "unat off \<le> unat fsize"
    using assms(2) by (simp_all add: word_le_unat unat_of_nat_64 unat_sub)
  then have "unat off + len \<le> unat fsize" by linarith
  moreover from assms(1) r have "length b = len \<and> b = d"
    by (auto simp: readRegion_def split: if_splits option.splits)
  ultimately show ?thesis using r by auto
qed

text \<open>What a successful inspection has established about its offsets.\<close>

definition inspection_sound :: "u64 \<Rightarrow> Inspection \<Rightarrow> bool" where
  "inspection_sound fsize i \<longleftrightarrow>
     (let sec = insp_Security i; img = insp_Image i; st = insp_Store i;
          chunk = unat (sec_ChunkSizeBytes sec)
      in insp_FileSize i = fsize
       \<and> unat fsize < 2 ^ 63
       \<and> 0 < chunk \<and> chunk \<le> 2 ^ 30 \<and> chunk = 1024 * unat (sec_ChunkSizeKB sec)
       \<and> 0 < unat (sec_CatalogSize sec) \<and> 0 < unat (sec_HashTableSize sec)
       \<and> unat (insp_CatalogOffset i) = 32
       \<and> unat (insp_HashTableOffset i) = 32 + unat (sec_CatalogSize sec)
       \<and> unat (insp_HashTableOffset i) + unat (sec_HashTableSize sec) \<le> unat (insp_ImageHeaderOffset i)
       \<and> unat (insp_ImageHeaderOffset i) < unat (insp_HashTableOffset i) + unat (sec_HashTableSize sec) + chunk
       \<and> chunk dvd unat (insp_ImageHeaderOffset i)
       \<and> unat (insp_ManifestOffset i) = unat (insp_ImageHeaderOffset i) + 24
       \<and> unat (insp_ManifestOffset i) + unat (img_ManifestLength img) \<le> unat (insp_StoreHeaderOffset i)
       \<and> unat (insp_StoreHeaderOffset i) < unat (insp_ManifestOffset i) + unat (img_ManifestLength img) + chunk
       \<and> chunk dvd unat (insp_StoreHeaderOffset i)
       \<and> unat (insp_StoreCommonEndOffset i) = unat (insp_StoreHeaderOffset i) + 248
       \<and> unat (insp_MinimumDescriptorBytes i)
           = unat (st_ValidateDescriptorLength st) + unat (st_WriteDescriptorLength st)
       \<and> unat (insp_StoreCommonEndOffset i) + unat (insp_MinimumDescriptorBytes i) \<le> unat fsize
       \<and> unat (insp_BytesAfterStoreCommon i) = unat fsize - unat (insp_StoreCommonEndOffset i)
       \<and> 0 < unat (st_BlockSizeBytes st) \<and> unat (st_BlockSizeBytes st) \<le> 2 ^ 30
       \<and> 512 dvd unat (st_BlockSizeBytes st)
       \<and> 0 < unat (st_WriteDescriptorCount st)
       \<and> 16 * unat (st_WriteDescriptorCount st) \<le> unat (st_WriteDescriptorLength st)
       \<and> (st_ValidateDescriptorCount st = 0 \<longleftrightarrow> st_ValidateDescriptorLength st = 0))"

lemma inspect_security_Inr:
  assumes "inspect_security reader fsize = Inr s"
  shows "0 < unat (sec_ChunkSizeBytes s) \<and> unat (sec_ChunkSizeBytes s) \<le> 2 ^ 30
    \<and> unat (sec_ChunkSizeBytes s) = 1024 * unat (sec_ChunkSizeKB s)
    \<and> isPowerOfTwo (sec_ChunkSizeBytes s)
    \<and> 0 < unat (sec_CatalogSize s) \<and> 0 < unat (sec_HashTableSize s)"
  using assms
  by (auto simp: inspect_security_def result_simps Let_def maxChunkBytes_def word_le_unat
      not_less unat_gt_0 mult.commute split: if_splits dest!: checkedMul_unat)

lemma inspect_image_Inr:
  assumes "inspect_image reader fsize sec off = Inr (img, mo, so)"
  shows "unat off + 24 \<le> unat fsize \<and> unat mo = unat off + 24
    \<and> alignUp (mo + u64_of (img_ManifestLength img)) (sec_ChunkSizeBytes sec) = Inr so
    \<and> unat mo + unat (img_ManifestLength img) < 2 ^ 64"
  using assms
  by (auto simp: inspect_image_def result_simps Let_def imageHeaderBytes_def checkedAdd_Inr
      unat_plus_64 split: if_splits dest!: readRegion_Inr)

lemma store_table_ends_fields:
  assumes "store_table_ends s = Inr t"
  shows "st_BlockSizeBytes t = st_BlockSizeBytes s
    \<and> unat (st_InitialTableBlockEnd t)
        = unat (st_InitialTableBlockIndex t) + unat (st_InitialTableBlockCount t)
    \<and> unat (st_FlashOnlyTableBlockEnd t)
        = unat (st_FlashOnlyTableBlockIndex t) + unat (st_FlashOnlyTableBlockCount t)
    \<and> unat (st_FinalTableBlockEnd t)
        = unat (st_FinalTableBlockIndex t) + unat (st_FinalTableBlockCount t)"
  using assms
  by (auto simp: store_table_ends_def result_simps payloadBlockEnd_def dest!: checkedAdd_unat)

lemma check_store_Inr:
  assumes "check_store s = Inr u"
  shows "0 < unat (st_BlockSizeBytes s) \<and> unat (st_BlockSizeBytes s) \<le> 2 ^ 30
    \<and> 512 dvd unat (st_BlockSizeBytes s)
    \<and> isPowerOfTwo (u64_of (st_BlockSizeBytes s))
    \<and> 0 < unat (st_WriteDescriptorCount s)
    \<and> 16 * unat (st_WriteDescriptorCount s) \<le> unat (st_WriteDescriptorLength s)
    \<and> (st_ValidateDescriptorCount s = 0 \<longleftrightarrow> st_ValidateDescriptorLength s = 0)"
proof -
  have "512 dvd unat x" if "(x :: u64) mod 512 = 0" for x
  proof -
    have "unat x mod unat (512 :: u64) = 0" using that by (metis unat_mod unat_0)
    then show ?thesis by (simp add: mod_eq_0_iff_dvd)
  qed
  from this [of "u64_of (st_BlockSizeBytes s)"] assms show ?thesis
    by (auto simp: check_store_def result_simps Let_def maxBlockBytes_def word_le_unat
      not_less unat_gt_0 mult.commute split: if_splits dest!: checkedMul_unat)
qed

lemma Inspect_success:
  assumes "Inspect reader fsize = Inr i"
  shows "inspection_sound fsize i"
proof -
  from assms obtain r sec ho se io img mo so sb st sce md where
    le: "fsize \<le> maxReaderAt" and
    sec: "inspect_security r fsize = Inr sec" and
    ho: "checkedAdd (of_nat securityHeaderBytes) (u64_of (sec_CatalogSize sec)) = Inr ho" and
    se: "checkedAdd ho (u64_of (sec_HashTableSize sec)) = Inr se" and
    io: "alignUp se (sec_ChunkSizeBytes sec) = Inr io" and
    img: "inspect_image r fsize sec io = Inr (img, mo, so)" and
    sb: "readRegion r fsize so storeCommonHeaderBytes ''common store header'' = Inr sb" and
    st: "store_table_ends (store_header_of sb) = Inr st" and
    cs: "check_store st = Inr ()" and
    sce: "checkedAdd so (of_nat storeCommonHeaderBytes) = Inr sce" and
    md: "checkedAdd (u64_of (st_ValidateDescriptorLength st))
           (u64_of (st_WriteDescriptorLength st)) = Inr md" and
    fit: "\<not> fsize - sce < md" and
    i: "i = \<lparr> insp_Schema = 3, insp_FileSize = fsize, insp_SecurityHeaderOffset = 0,
          insp_CatalogOffset = of_nat securityHeaderBytes, insp_HashTableOffset = ho,
          insp_ImageHeaderOffset = io, insp_ManifestOffset = mo, insp_StoreHeaderOffset = so,
          insp_StoreCommonEndOffset = sce, insp_MinimumDescriptorBytes = md,
          insp_BytesAfterStoreCommon = fsize - sce, insp_Security = sec, insp_Image = img,
          insp_Store = st, insp_IntegrityMetadataPresent = True,
          insp_DescriptorLayoutResolved = False, insp_PayloadLayoutResolved = False,
          insp_RestorationSupported = False, insp_Limitations = inspectionLimitations \<rparr>"
    by (auto simp: Inspect_def result_simps Let_def not_less split: option.splits)
  note S = inspect_security_Inr [OF sec] and C = check_store_Inr [OF cs]
  note A = alignUp_bounds [OF io]
  note I = inspect_image_Inr [OF img]
  have B: "unat (mo + u64_of (img_ManifestLength img)) = unat mo + unat (img_ManifestLength img)"
    using I by (simp add: unat_plus_64)
  note A2 = alignUp_bounds [OF I [THEN conjunct2, THEN conjunct2, THEN conjunct1], unfolded B]
  have R: "unat so + 248 \<le> unat fsize"
    using readRegion_Inr [OF sb] by (simp add: storeCommonHeaderBytes_def)
  have sz: "unat fsize < 2 ^ 63"
    using le by (simp add: word_le_unat maxReaderAt_def)
  have sce': "unat sce = unat so + 248" and ho': "unat ho = 32 + unat (sec_CatalogSize sec)"
    and se': "unat se = unat ho + unat (sec_HashTableSize sec)"
    and md': "unat md = unat (st_ValidateDescriptorLength st) + unat (st_WriteDescriptorLength st)"
    using sce ho se md
    by (auto dest!: checkedAdd_unat simp: storeCommonHeaderBytes_def securityHeaderBytes_def)
  have left: "unat (fsize - sce) = unat fsize - unat sce"
    using R sce' by (simp add: unat_minus_64 word_le_unat)
  then have "unat sce + unat md \<le> unat fsize"
    using fit R sce' by (simp add: word_less_unat)
  then show ?thesis
    using S C A A2 I sz sce' ho' se' md' left
    by (simp add: inspection_sound_def Let_def i securityHeaderBytes_def)
qed

text \<open>
  C23: every offset a successful inspection reports is exact as a natural number (no 64-bit
  wrap): the catalog, hash table and manifest follow what precedes them at once, the image header and
  the store header are at the first multiple of the chunk size there is behind the hash table and
  behind the manifest, and the declared descriptor tables fit between the common store header and
  the end of the file.
\<close>

theorem inspect_sound:
  assumes "Inspect reader fsize = Inr i"
  shows "inspection_sound fsize i"
  using assms by (rule Inspect_success)

lemma alignUp_least:
  assumes "alignUp v a = Inr r" and "unat a dvd m" and "unat v \<le> m"
  shows "unat r \<le> m"
proof (rule ccontr)
  assume "\<not> unat r \<le> m"
  moreover have "unat a dvd unat r" "unat r < unat v + unat a"
    using alignUp_bounds [OF assms(1)] by auto
  ultimately have "unat r \<ge> m + unat a"
    using assms(2) by (metis dvd_imp_le dvd_minus_self dvd_diff_nat le_diff_conv2 less_imp_le not_le zero_less_diff add.commute)
  with \<open>unat r < unat v + unat a\<close> assms(3) show False by simp
qed
end
