(* ===== verification/FfuPlan.thy ===== *)
theory FfuPlan
  imports FfuInspect
begin

text \<open>
  \<open>internal/ffu/plan_v1.go\<close>: the descriptor plan of a single-store version 1.0 image. The
  validation and write descriptors are parsed into records, the write descriptors are laid
  out over the sequential payload, and overlaps between destinations of the same anchor are
  reported. A \<open>for index := 0; index < count\<close> loop is a recursion over the list of the
  indices still to visit.
\<close>

section \<open>Data\<close>

definition maxPlanDescriptorCount :: u32 where "maxPlanDescriptorCount = 0x40000"
definition maxPlanLocationCount :: u64 where "maxPlanLocationCount = 0x100000"
definition maxPlanTableBytes :: u64 where "maxPlanTableBytes = 0x10000000"
definition diskAccessBegin :: u32 where "diskAccessBegin = 0"
definition diskAccessEnd :: u32 where "diskAccessEnd = 2"

record PayloadTableRange =
  ptr_BlockIndex :: u32
  ptr_BlockCount :: u32
  ptr_BlockEnd :: u64

record ValidationDescriptor =
  vd_Index :: u32
  vd_TableOffset :: u64
  vd_SectorIndex :: u32
  vd_SectorOffset :: u32
  vd_ByteCount :: u32
  vd_CompareDataOffset :: u64
  vd_CompareDataSHA256 :: string

record DiskLocation =
  loc_Index :: u32
  loc_AccessMethod :: u32
  loc_Anchor :: string
  loc_BlockIndex :: u32
  loc_BlockEnd :: u64

record WriteDescriptor =
  wd_Index :: u32
  wd_TableOffset :: u64
  wd_LocationCount :: u32
  wd_BlockCount :: u32
  wd_PayloadOffset :: u64
  wd_PayloadLength :: u64
  wd_Locations :: "DiskLocation list"

record DestinationOverlap =
  ov_Anchor :: string
  ov_FirstDescriptorIndex :: u32
  ov_FirstLocationIndex :: u32
  ov_SecondDescriptorIndex :: u32
  ov_SecondLocationIndex :: u32
  ov_OverlapStartBlock :: u64
  ov_OverlapEndBlock :: u64

record blockInterval =
  bi_anchor :: string
  bi_start :: u64
  bi_end :: u64
  bi_descriptorIndex :: u32
  bi_locationIndex :: u32

record DescriptorPlan =
  dp_Schema :: nat
  dp_StoreMajorVersion :: u16
  dp_StoreMinorVersion :: u16
  dp_SourceFileSize :: u64
  dp_ChunkSizeBytes :: u64
  dp_BlockSizeBytes :: u64
  dp_ValidationDescriptorOffset :: u64
  dp_WriteDescriptorOffset :: u64
  dp_WriteDescriptorEnd :: u64
  dp_PayloadOffset :: u64
  dp_PayloadLength :: u64
  dp_PayloadEnd :: u64
  dp_PayloadFileBytes :: u64
  dp_TrailingFileBytes :: u64
  dp_TotalPayloadBlocks :: u64
  dp_BeginningExtentBlocks :: u64
  dp_EndingExtentBlocks :: u64
  dp_MinimumTargetBlocks :: u64
  dp_MinimumTargetBytes :: u64
  dp_InitialTable :: PayloadTableRange
  dp_FlashOnlyTable :: PayloadTableRange
  dp_FinalTable :: PayloadTableRange
  dp_ValidationDescriptors :: "ValidationDescriptor list"
  dp_WriteDescriptors :: "WriteDescriptor list"
  dp_DestinationOverlaps :: "DestinationOverlap list"
  dp_HasDestinationOverlap :: bool
  dp_TargetSizeBindingRequired :: bool
  dp_IntegrityAuthenticated :: bool
  dp_ExecutionSupported :: bool
  dp_PlanSHA256 :: string
  dp_Limitations :: "string list"

section \<open>Hashing a region of the source\<close>

text \<open>
  \<open>io.Copy\<close> from an \<open>io.SectionReader\<close>: reads of at most \<open>buf\<close> bytes until the section
  is exhausted or a read fails. \<open>io.ReaderAt\<close> returns an error whenever it delivers fewer
  bytes than asked for, so a read that delivers nothing and no error does not occur.
\<close>

function copy_section :: "reader_at \<Rightarrow> nat \<Rightarrow> int \<Rightarrow> nat \<Rightarrow> bytes \<times> go_error option" where
  "copy_section reader buf off rem =
     (if rem = 0 then ([], None)
      else case reader off (min buf rem) of (d, e) \<Rightarrow>
        (case e of
           Some err \<Rightarrow> (d, if err = EOF then None else Some err)
         | None \<Rightarrow>
             if d = [] then ([], Some ErrNoProgress)
             else case copy_section reader buf (off + int (length d)) (rem - length d) of
               (ds, e') \<Rightarrow> (d @ ds, e')))"
  by pat_completeness auto
termination
  by (relation "measure (\<lambda>(reader, buf, off, rem). rem)") auto

declare copy_section.simps [simp del]

definition ioCopyBuffer :: nat where "ioCopyBuffer = 32 * 1024"

definition hash_section :: "reader_at \<Rightarrow> nat \<Rightarrow> u64 \<Rightarrow> u64 \<Rightarrow> string res" where
  "hash_section reader buf off len =
     (case copy_section reader buf (sint off) (unat len) of (d, e) \<Rightarrow>
        (case e of
           Some err \<Rightarrow> Inl err
         | None \<Rightarrow>
             if length d \<noteq> unat len
             then Inl (Errorf ''read %d of %d bytes'' [FN (length d), FN (unat len)])
             else Inr (sha256_hex d)))"

definition hashRegion :: "reader_at \<Rightarrow> u64 \<Rightarrow> u64 \<Rightarrow> string res" where
  "hashRegion reader offset len = hash_section reader ioCopyBuffer offset len"

section \<open>Validation descriptors\<close>

fun parse_validation_loop ::
  "reader_at \<Rightarrow> u64 \<Rightarrow> u64 \<Rightarrow> nat list \<Rightarrow> u64 \<Rightarrow> (ValidationDescriptor list \<times> u64) res" where
  "parse_validation_loop reader fsize fin [] cursor = Inr ([], cursor)"
| "parse_validation_loop reader fsize fin (index # rest) cursor =
     bindE (readRegion reader fsize cursor 12 (''validation descriptor '' @ decimal (of_nat index)))
       (\<lambda>header.
     let byteCount = get_u32 (slice header 8 12) in
     if byteCount = 0
     then Inl (Errorf ''FFU validation descriptor %d has zero comparison bytes'' [FN index])
     else
     bindE (mapE (\<lambda>_. Errorf ''FFU validation descriptor %d data offset overflows'' [FN index])
       (checkedAdd cursor 12)) (\<lambda>compareOffset.
     case checkedAdd compareOffset (u64_of byteCount) of
       Inl _ \<Rightarrow> Inl (Errorf ''FFU validation descriptor %d exceeds declared table boundary'' [FN index])
     | Inr next' \<Rightarrow>
       if fin < next'
       then Inl (Errorf ''FFU validation descriptor %d exceeds declared table boundary'' [FN index])
       else
       bindE (mapE (\<lambda>e. Errorf ''hash FFU validation descriptor %d: %w'' [FN index, FE e])
         (hashRegion reader compareOffset (u64_of byteCount))) (\<lambda>digest.
       bindE (parse_validation_loop reader fsize fin rest next') (\<lambda>(result, cursor').
       Inr (\<lparr> vd_Index = of_nat index,
              vd_TableOffset = cursor,
              vd_SectorIndex = get_u32 (slice header 0 4),
              vd_SectorOffset = get_u32 (slice header 4 8),
              vd_ByteCount = byteCount,
              vd_CompareDataOffset = compareOffset,
              vd_CompareDataSHA256 = digest \<rparr> # result, cursor')))))"

definition parseValidationDescriptors ::
  "reader_at \<Rightarrow> u64 \<Rightarrow> u64 \<Rightarrow> u64 \<Rightarrow> u32 \<Rightarrow> ValidationDescriptor list res" where
  "parseValidationDescriptors reader fsize start fin cnt =
     bindE (parse_validation_loop reader fsize fin [0 ..< unat cnt] start) (\<lambda>(result, cursor).
     if cursor \<noteq> fin
     then Inl (Errorf ''FFU validation descriptor table has %d unconsumed bytes''
                 [FN (unat (fin - cursor))])
     else Inr result)"

section \<open>Write descriptors\<close>

text \<open>The inner loop over the locations of one descriptor.\<close>

fun parse_locations ::
  "reader_at \<Rightarrow> u64 \<Rightarrow> nat \<Rightarrow> u64 \<Rightarrow> u32 \<Rightarrow> nat list \<Rightarrow> u64 \<Rightarrow> u64
     \<Rightarrow> (DiskLocation list \<times> blockInterval list \<times> u64 \<times> u64) res" where
  "parse_locations reader fsize index locationsOffset blockCount [] beginningBlocks endingBlocks =
     Inr ([], [], beginningBlocks, endingBlocks)"
| "parse_locations reader fsize index locationsOffset blockCount (locationIndex # rest)
     beginningBlocks endingBlocks =
     bindE (mapE (\<lambda>_. Errorf ''FFU write descriptor %d location %d offset overflows''
                        [FN index, FN locationIndex])
       (checkedAdd locationsOffset (of_nat locationIndex * 8))) (\<lambda>offset.
     bindE (readRegion reader fsize offset 8
              (''write descriptor '' @ decimal (of_nat index) @ '' location ''
                 @ decimal (of_nat locationIndex))) (\<lambda>locationBytes.
     let accessMethod = get_u32 (slice locationBytes 0 4);
         blockIndex = get_u32 (slice locationBytes 4 8) in
     bindE (mapE (\<lambda>_. Errorf ''FFU write descriptor %d location %d block range overflows''
                        [FN index, FN locationIndex])
       (checkedAdd (u64_of blockIndex) (u64_of blockCount))) (\<lambda>blockEnd.
     if accessMethod \<noteq> diskAccessBegin \<and> accessMethod \<noteq> diskAccessEnd
     then Inl (Errorf ''FFU write descriptor %d location %d uses unsupported disk access method %d''
                 [FN index, FN locationIndex, FN (unat accessMethod)])
     else
     let anchor = (if accessMethod = diskAccessBegin then ''begin'' else ''end'');
         beginningBlocks' = (if accessMethod = diskAccessBegin \<and> beginningBlocks < blockEnd
                             then blockEnd else beginningBlocks);
         endingBlocks' = (if accessMethod = diskAccessEnd \<and> endingBlocks < blockEnd
                          then blockEnd else endingBlocks) in
     bindE (parse_locations reader fsize index locationsOffset blockCount rest
              beginningBlocks' endingBlocks') (\<lambda>(locations, intervals, b, e).
     Inr (\<lparr> loc_Index = of_nat locationIndex, loc_AccessMethod = accessMethod,
            loc_Anchor = anchor, loc_BlockIndex = blockIndex, loc_BlockEnd = blockEnd \<rparr>
            # locations,
          \<lparr> bi_anchor = anchor, bi_start = u64_of blockIndex, bi_end = blockEnd,
            bi_descriptorIndex = of_nat index, bi_locationIndex = of_nat locationIndex \<rparr>
            # intervals, b, e)))))"

text \<open>The running variables of \<open>parseWriteDescriptors\<close>.\<close>

record write_state =
  ws_cursor :: u64
  ws_payloadCursor :: u64
  ws_totalBlocks :: u64
  ws_beginningBlocks :: u64
  ws_endingBlocks :: u64
  ws_totalLocations :: u64

text \<open>One turn of the outer loop: a descriptor, its intervals and the next state.\<close>

definition parse_write_descriptor ::
  "reader_at \<Rightarrow> u64 \<Rightarrow> u64 \<Rightarrow> u64 \<Rightarrow> nat \<Rightarrow> write_state
     \<Rightarrow> (WriteDescriptor \<times> blockInterval list \<times> write_state) res" where
  "parse_write_descriptor reader fsize fin blockSize index s =
     bindE (readRegion reader fsize (ws_cursor s) 8 (''write descriptor '' @ decimal (of_nat index)))
       (\<lambda>header.
     let locationCount = get_u32 (slice header 0 4);
         blockCount = get_u32 (slice header 4 8) in
     if locationCount = 0 \<or> blockCount = 0
     then Inl (Errorf ''FFU write descriptor %d has zero locations or blocks'' [FN index])
     else
     case checkedAdd (ws_totalLocations s) (u64_of locationCount) of
       Inl _ \<Rightarrow> Inl (Errorf ''FFU location count exceeds read-only planning limit %d''
                         [FN (unat maxPlanLocationCount)])
     | Inr totalLocations \<Rightarrow>
     if maxPlanLocationCount < totalLocations
     then Inl (Errorf ''FFU location count exceeds read-only planning limit %d''
                 [FN (unat maxPlanLocationCount)])
     else
     bindE (mapE (\<lambda>_. Errorf ''FFU write descriptor %d location length overflows'' [FN index])
       (checkedMul (u64_of locationCount) 8)) (\<lambda>locationsBytes.
     bindE (mapE (\<lambda>_. Errorf ''FFU write descriptor %d location offset overflows'' [FN index])
       (checkedAdd (ws_cursor s) 8)) (\<lambda>locationsOffset.
     case checkedAdd locationsOffset locationsBytes of
       Inl _ \<Rightarrow> Inl (Errorf ''FFU write descriptor %d exceeds declared table boundary'' [FN index])
     | Inr next' \<Rightarrow>
     if fin < next'
     then Inl (Errorf ''FFU write descriptor %d exceeds declared table boundary'' [FN index])
     else
     bindE (mapE (\<lambda>_. Errorf ''FFU write descriptor %d payload length overflows'' [FN index])
       (checkedMul (u64_of blockCount) blockSize)) (\<lambda>payloadLength.
     bindE (mapE (\<lambda>_. Errorf ''FFU write descriptor %d payload boundary overflows'' [FN index])
       (checkedAdd (ws_payloadCursor s) payloadLength)) (\<lambda>payloadNext.
     bindE (parse_locations reader fsize index locationsOffset blockCount
              [0 ..< unat locationCount] (ws_beginningBlocks s) (ws_endingBlocks s))
       (\<lambda>(locations, intervals, beginningBlocks, endingBlocks).
     bindE (mapE (\<lambda>_. Msg ''FFU total payload block count overflows'')
       (checkedAdd (ws_totalBlocks s) (u64_of blockCount))) (\<lambda>totalBlocks.
     Inr (\<lparr> wd_Index = of_nat index,
            wd_TableOffset = ws_cursor s,
            wd_LocationCount = locationCount,
            wd_BlockCount = blockCount,
            wd_PayloadOffset = ws_payloadCursor s,
            wd_PayloadLength = payloadLength,
            wd_Locations = locations \<rparr>,
          intervals,
          \<lparr> ws_cursor = next', ws_payloadCursor = payloadNext, ws_totalBlocks = totalBlocks,
            ws_beginningBlocks = beginningBlocks, ws_endingBlocks = endingBlocks,
            ws_totalLocations = totalLocations \<rparr>))))))))"

fun parse_write_loop ::
  "reader_at \<Rightarrow> u64 \<Rightarrow> u64 \<Rightarrow> u64 \<Rightarrow> nat list \<Rightarrow> write_state
     \<Rightarrow> (WriteDescriptor list \<times> blockInterval list \<times> write_state) res" where
  "parse_write_loop reader fsize fin blockSize [] s = Inr ([], [], s)"
| "parse_write_loop reader fsize fin blockSize (index # rest) s =
     bindE (parse_write_descriptor reader fsize fin blockSize index s) (\<lambda>(d, ivs, s').
     bindE (parse_write_loop reader fsize fin blockSize rest s') (\<lambda>(ds, ivs', s2).
     Inr (d # ds, ivs @ ivs', s2)))"

definition parseWriteDescriptors ::
  "reader_at \<Rightarrow> u64 \<Rightarrow> u64 \<Rightarrow> u64 \<Rightarrow> u64 \<Rightarrow> u32 \<Rightarrow> u64
     \<Rightarrow> (WriteDescriptor list \<times> u64 \<times> u64 \<times> u64 \<times> blockInterval list) res" where
  "parseWriteDescriptors reader fsize start fin payloadOffset cnt blockSize =
     bindE (parse_write_loop reader fsize fin blockSize [0 ..< unat cnt]
              \<lparr> ws_cursor = start, ws_payloadCursor = payloadOffset, ws_totalBlocks = 0,
                ws_beginningBlocks = 0, ws_endingBlocks = 0, ws_totalLocations = 0 \<rparr>)
       (\<lambda>(result, intervals, s).
     if ws_cursor s \<noteq> fin
     then Inl (Errorf ''FFU write descriptor table has %d unconsumed bytes''
                 [FN (unat (fin - ws_cursor s))])
     else Inr (result, ws_totalBlocks s, ws_beginningBlocks s, ws_endingBlocks s, intervals))"

section \<open>Same-anchor overlaps\<close>

definition interval_less :: "blockInterval \<Rightarrow> blockInterval \<Rightarrow> bool" where
  "interval_less l r =
     (if bi_anchor l \<noteq> bi_anchor r then bi_anchor l < bi_anchor r
      else if bi_start l \<noteq> bi_start r then bi_start l < bi_start r
      else if bi_end l \<noteq> bi_end r then bi_end l < bi_end r
      else if bi_descriptorIndex l \<noteq> bi_descriptorIndex r
      then bi_descriptorIndex l < bi_descriptorIndex r
      else bi_locationIndex l < bi_locationIndex r)"

definition overlap_of :: "blockInterval \<Rightarrow> blockInterval \<Rightarrow> DestinationOverlap" where
  "overlap_of active current =
     \<lparr> ov_Anchor = bi_anchor current,
       ov_FirstDescriptorIndex = bi_descriptorIndex active,
       ov_FirstLocationIndex = bi_locationIndex active,
       ov_SecondDescriptorIndex = bi_descriptorIndex current,
       ov_SecondLocationIndex = bi_locationIndex current,
       ov_OverlapStartBlock = bi_start current,
       ov_OverlapEndBlock = (if bi_end active < bi_end current then bi_end active
                             else bi_end current) \<rparr>"

text \<open>The sweep over the sorted intervals; \<open>None\<close> is \<open>haveActive = false\<close>.\<close>

fun sweep_overlaps :: "blockInterval option \<Rightarrow> blockInterval list \<Rightarrow> DestinationOverlap list" where
  "sweep_overlaps active [] = []"
| "sweep_overlaps None (current # rest) = sweep_overlaps (Some current) rest"
| "sweep_overlaps (Some active) (current # rest) =
     (if bi_anchor current \<noteq> bi_anchor active \<or> bi_end active \<le> bi_start current
      then sweep_overlaps (Some current) rest
      else overlap_of active current #
        sweep_overlaps (Some (if bi_end active < bi_end current then current else active)) rest)"

definition detectSameAnchorOverlaps :: "blockInterval list \<Rightarrow> DestinationOverlap list" where
  "detectSameAnchorOverlaps intervals = sweep_overlaps None (sort_by interval_less intervals)"

section \<open>The plan digest\<close>

definition writeDigestUint64 :: "u64 \<Rightarrow> bytes" where
  "writeDigestUint64 v = put_u64 v"

definition writeDigestString :: "string \<Rightarrow> bytes" where
  "writeDigestString s = writeDigestUint64 (of_nat (length s)) @ string_bytes s"

definition writeDigestRange :: "PayloadTableRange \<Rightarrow> bytes" where
  "writeDigestRange v =
     writeDigestUint64 (u64_of (ptr_BlockIndex v)) @ writeDigestUint64 (u64_of (ptr_BlockCount v))
     @ writeDigestUint64 (ptr_BlockEnd v)"

definition digest_validation :: "ValidationDescriptor \<Rightarrow> bytes" where
  "digest_validation v =
     writeDigestUint64 (u64_of (vd_Index v)) @ writeDigestUint64 (vd_TableOffset v)
     @ writeDigestUint64 (u64_of (vd_SectorIndex v)) @ writeDigestUint64 (u64_of (vd_SectorOffset v))
     @ writeDigestUint64 (u64_of (vd_ByteCount v)) @ writeDigestUint64 (vd_CompareDataOffset v)
     @ writeDigestString (vd_CompareDataSHA256 v)"

definition digest_location :: "DiskLocation \<Rightarrow> bytes" where
  "digest_location l =
     writeDigestUint64 (u64_of (loc_Index l)) @ writeDigestUint64 (u64_of (loc_AccessMethod l))
     @ writeDigestUint64 (u64_of (loc_BlockIndex l)) @ writeDigestUint64 (loc_BlockEnd l)"

definition digest_write :: "WriteDescriptor \<Rightarrow> bytes" where
  "digest_write d =
     writeDigestUint64 (u64_of (wd_Index d)) @ writeDigestUint64 (wd_TableOffset d)
     @ writeDigestUint64 (u64_of (wd_LocationCount d)) @ writeDigestUint64 (u64_of (wd_BlockCount d))
     @ writeDigestUint64 (wd_PayloadOffset d) @ writeDigestUint64 (wd_PayloadLength d)
     @ concat (map digest_location (wd_Locations d))"

definition digest_overlap :: "DestinationOverlap \<Rightarrow> bytes" where
  "digest_overlap v =
     writeDigestString (ov_Anchor v)
     @ writeDigestUint64 (u64_of (ov_FirstDescriptorIndex v))
     @ writeDigestUint64 (u64_of (ov_FirstLocationIndex v))
     @ writeDigestUint64 (u64_of (ov_SecondDescriptorIndex v))
     @ writeDigestUint64 (u64_of (ov_SecondLocationIndex v))
     @ writeDigestUint64 (ov_OverlapStartBlock v) @ writeDigestUint64 (ov_OverlapEndBlock v)"

definition descriptor_plan_preimage :: "DescriptorPlan \<Rightarrow> bytes" where
  "descriptor_plan_preimage p =
     concat (map writeDigestUint64
       [of_nat (dp_Schema p), u64_of (dp_StoreMajorVersion p), u64_of (dp_StoreMinorVersion p),
        dp_SourceFileSize p, dp_ChunkSizeBytes p, dp_BlockSizeBytes p,
        dp_ValidationDescriptorOffset p, dp_WriteDescriptorOffset p, dp_WriteDescriptorEnd p,
        dp_PayloadOffset p, dp_PayloadLength p, dp_PayloadEnd p, dp_PayloadFileBytes p,
        dp_TrailingFileBytes p, dp_TotalPayloadBlocks p, dp_BeginningExtentBlocks p,
        dp_EndingExtentBlocks p, dp_MinimumTargetBlocks p, dp_MinimumTargetBytes p])
     @ writeDigestRange (dp_InitialTable p) @ writeDigestRange (dp_FlashOnlyTable p)
     @ writeDigestRange (dp_FinalTable p)
     @ writeDigestUint64 (of_nat (length (dp_ValidationDescriptors p)))
     @ concat (map digest_validation (dp_ValidationDescriptors p))
     @ writeDigestUint64 (of_nat (length (dp_WriteDescriptors p)))
     @ concat (map digest_write (dp_WriteDescriptors p))
     @ writeDigestUint64 (of_nat (length (dp_DestinationOverlaps p)))
     @ concat (map digest_overlap (dp_DestinationOverlaps p))"

definition descriptorPlanDigest :: "DescriptorPlan \<Rightarrow> string" where
  "descriptorPlanDigest p = sha256_hex (descriptor_plan_preimage p)"

section \<open>PlanSingleStoreV1\<close>

definition payloadRange :: "u32 \<Rightarrow> u32 \<Rightarrow> u64 \<Rightarrow> PayloadTableRange" where
  "payloadRange index cnt e = \<lparr> ptr_BlockIndex = index, ptr_BlockCount = cnt, ptr_BlockEnd = e \<rparr>"

definition check_table :: "u64 \<Rightarrow> string \<Rightarrow> PayloadTableRange \<Rightarrow> unit res" where
  "check_table totalBlocks name t =
     (if ptr_BlockCount t \<noteq> 0 \<and> totalBlocks < ptr_BlockEnd t
      then Inl (Errorf ''FFU %s GPT table payload range [%d,%d) exceeds %d payload blocks''
             [FS name, FN (unat (ptr_BlockIndex t)), FN (unat (ptr_BlockEnd t)),
              FN (unat totalBlocks)])
      else Inr ())"

definition descriptorPlanLimitations :: "string list" where
  "descriptorPlanLimitations =
    [''only store-header version 1.0 is resolved'',
     ''the signed catalog and chunk hash table are not yet authenticated'',
     ''end-anchored locations require an identity-bound target size'',
     ''cross-anchor destination overlap requires target-specific validation'',
     ''trailing file bytes are reported but not interpreted'',
     ''no target executor exists and no device can be written'']"

definition PlanSingleStoreV1 :: "reader_at option \<Rightarrow> u64 \<Rightarrow> (Inspection \<times> DescriptorPlan) res" where
  "PlanSingleStoreV1 reader_opt fsize =
     bindE (Inspect reader_opt fsize) (\<lambda>inspection.
     let store = insp_Store inspection; reader = the reader_opt in
     if st_MajorVersion store \<noteq> 1 \<or> st_MinorVersion store \<noteq> 0
     then Inl (Errorf ''unsupported FFU store-header version %d.%d: single-store planning requires 1.0''
                 [FN (unat (st_MajorVersion store)), FN (unat (st_MinorVersion store))])
     else if maxPlanDescriptorCount < st_WriteDescriptorCount store
             \<or> maxPlanDescriptorCount < st_ValidateDescriptorCount store
     then Inl (Errorf ''FFU descriptor count exceeds read-only planning limit %d''
                 [FN (unat maxPlanDescriptorCount)])
     else if maxPlanTableBytes < u64_of (st_WriteDescriptorLength store)
             \<or> maxPlanTableBytes < u64_of (st_ValidateDescriptorLength store)
     then Inl (Errorf ''FFU descriptor table exceeds read-only planning limit %d bytes''
                 [FN (unat maxPlanTableBytes)])
     else
     let validationOffset = insp_StoreCommonEndOffset inspection in
     bindE (mapE (\<lambda>_. Msg ''FFU validation descriptor boundary overflows'')
       (checkedAdd validationOffset (u64_of (st_ValidateDescriptorLength store)))) (\<lambda>writeOffset.
     bindE (mapE (\<lambda>_. Msg ''FFU write descriptor boundary overflows'')
       (checkedAdd writeOffset (u64_of (st_WriteDescriptorLength store)))) (\<lambda>writeEnd.
     bindE (mapE (\<lambda>e. Errorf ''align FFU payload: %w'' [FE e])
       (alignUp writeEnd (sec_ChunkSizeBytes (insp_Security inspection)))) (\<lambda>payloadOffset.
     if fsize < payloadOffset
     then Inl (Errorf ''FFU payload starts at %d beyond file size %d''
                 [FN (unat payloadOffset), FN (unat fsize)])
     else
     bindE (parseValidationDescriptors reader fsize validationOffset writeOffset
              (st_ValidateDescriptorCount store)) (\<lambda>validations.
     bindE (parseWriteDescriptors reader fsize writeOffset writeEnd payloadOffset
              (st_WriteDescriptorCount store) (u64_of (st_BlockSizeBytes store)))
       (\<lambda>(writes, totalBlocks, beginningBlocks, endingBlocks, intervals).
     bindE (mapE (\<lambda>_. Msg ''FFU payload length overflows'')
       (checkedMul totalBlocks (u64_of (st_BlockSizeBytes store)))) (\<lambda>payloadLength.
     bindE (mapE (\<lambda>_. Msg ''FFU payload end overflows'')
       (checkedAdd payloadOffset payloadLength)) (\<lambda>payloadEnd.
     if fsize < payloadEnd
     then Inl (Errorf ''FFU payload requires end byte %d beyond file size %d''
                 [FN (unat payloadEnd), FN (unat fsize)])
     else
     bindE (mapE (\<lambda>_. Msg ''FFU minimum target block count overflows'')
       (checkedAdd beginningBlocks endingBlocks)) (\<lambda>minimumTargetBlocks.
     bindE (mapE (\<lambda>_. Msg ''FFU minimum target byte count overflows'')
       (checkedMul minimumTargetBlocks (u64_of (st_BlockSizeBytes store)))) (\<lambda>minimumTargetBytes.
     let initial = payloadRange (st_InitialTableBlockIndex store) (st_InitialTableBlockCount store)
                     (st_InitialTableBlockEnd store);
         flashOnly = payloadRange (st_FlashOnlyTableBlockIndex store)
                       (st_FlashOnlyTableBlockCount store) (st_FlashOnlyTableBlockEnd store);
         final = payloadRange (st_FinalTableBlockIndex store) (st_FinalTableBlockCount store)
                   (st_FinalTableBlockEnd store) in
     bindE (check_table totalBlocks ''initial'' initial) (\<lambda>_.
     bindE (check_table totalBlocks ''flash-only'' flashOnly) (\<lambda>_.
     bindE (check_table totalBlocks ''final'' final) (\<lambda>_.
     let overlaps = detectSameAnchorOverlaps intervals;
         plan = \<lparr> dp_Schema = 1,
           dp_StoreMajorVersion = st_MajorVersion store,
           dp_StoreMinorVersion = st_MinorVersion store,
           dp_SourceFileSize = fsize,
           dp_ChunkSizeBytes = sec_ChunkSizeBytes (insp_Security inspection),
           dp_BlockSizeBytes = u64_of (st_BlockSizeBytes store),
           dp_ValidationDescriptorOffset = validationOffset,
           dp_WriteDescriptorOffset = writeOffset,
           dp_WriteDescriptorEnd = writeEnd,
           dp_PayloadOffset = payloadOffset,
           dp_PayloadLength = payloadLength,
           dp_PayloadEnd = payloadEnd,
           dp_PayloadFileBytes = fsize - payloadOffset,
           dp_TrailingFileBytes = fsize - payloadEnd,
           dp_TotalPayloadBlocks = totalBlocks,
           dp_BeginningExtentBlocks = beginningBlocks,
           dp_EndingExtentBlocks = endingBlocks,
           dp_MinimumTargetBlocks = minimumTargetBlocks,
           dp_MinimumTargetBytes = minimumTargetBytes,
           dp_InitialTable = initial,
           dp_FlashOnlyTable = flashOnly,
           dp_FinalTable = final,
           dp_ValidationDescriptors = validations,
           dp_WriteDescriptors = writes,
           dp_DestinationOverlaps = overlaps,
           dp_HasDestinationOverlap = (overlaps \<noteq> []),
           dp_TargetSizeBindingRequired = True,
           dp_IntegrityAuthenticated = False,
           dp_ExecutionSupported = False,
           dp_PlanSHA256 = [],
           dp_Limitations = descriptorPlanLimitations \<rparr>
     in Inr (inspection, plan\<lparr>dp_PlanSHA256 := descriptorPlanDigest plan\<rparr>))))))))))))))"

section \<open>Correctness\<close>

subsection \<open>Overlap detection\<close>

interpretation intervals: less_order interval_less
  unfolding interval_less_def [abs_def]
  by (intro less_order_lex less_order_key)

definition same_anchor_disjoint :: "blockInterval \<Rightarrow> blockInterval \<Rightarrow> bool" where
  "same_anchor_disjoint a b \<longleftrightarrow>
     bi_anchor a \<noteq> bi_anchor b \<or> bi_end a \<le> bi_start b \<or> bi_end b \<le> bi_start a"

definition interval_before :: "blockInterval \<Rightarrow> blockInterval \<Rightarrow> bool" where
  "interval_before a b \<longleftrightarrow> bi_anchor b \<noteq> bi_anchor a \<or> bi_end a \<le> bi_start b"

lemma same_anchor_disjoint_sym: "same_anchor_disjoint a b \<Longrightarrow> same_anchor_disjoint b a"
  by (auto simp: same_anchor_disjoint_def)

lemma sweep_overlaps_empty_iff:
  "sweep_overlaps (Some a) xs = [] \<longleftrightarrow> successively interval_before (a # xs)"
  by (induction xs arbitrary: a) (auto simp: interval_before_def)

lemma not_interval_less_key:
  "\<not> interval_less b a \<Longrightarrow>
     bi_anchor a < bi_anchor b \<or> (bi_anchor a = bi_anchor b \<and> bi_start a \<le> bi_start b)"
  by (auto simp: interval_less_def not_less split: if_splits)

text \<open>
  On a sorted list of non-empty intervals, the sweep compares neighbours only, which is
  enough: "before" is transitive along the order.
\<close>

lemma successively_before_iff:
  assumes "sorted_wrt (\<lambda>a b. \<not> interval_less b a) xs" and "\<forall>a \<in> set xs. bi_start a < bi_end a"
  shows "successively interval_before xs \<longleftrightarrow> sorted_wrt same_anchor_disjoint xs"
  using assms
proof (induction xs)
  case Nil
  then show ?case by simp
next
  case (Cons a xs)
  have key: "bi_anchor a < bi_anchor b \<or> (bi_anchor a = bi_anchor b \<and> bi_start a \<le> bi_start b)"
    if "b \<in> set xs" for b
  proof (rule not_interval_less_key)
    show "\<not> interval_less b a" using Cons.prems(1) that by simp
  qed
  have flat: "same_anchor_disjoint a b \<longleftrightarrow> interval_before a b" if "b \<in> set xs" for b
    using key [OF that] Cons.prems(2) that
    by (auto simp: same_anchor_disjoint_def interval_before_def)
  show ?case
  proof (cases xs)
    case Nil
    then show ?thesis by simp
  next
    case (Cons b ys)
    have step: "interval_before a c" if "interval_before a b" "c \<in> set ys" for c
    proof -
      have "\<not> interval_less c b" using Cons.prems(1) Cons that(2) by simp
      from not_interval_less_key [OF this] key [of b] that(1) Cons show ?thesis
        by (auto simp: interval_before_def)
    qed
    have "successively interval_before (a # xs) \<longleftrightarrow>
        interval_before a b \<and> sorted_wrt same_anchor_disjoint xs"
      using Cons Cons.IH Cons.prems by simp
    also have "\<dots> \<longleftrightarrow> (\<forall>c \<in> set xs. same_anchor_disjoint a c) \<and> sorted_wrt same_anchor_disjoint xs"
      using flat step Cons by auto
    finally show ?thesis by simp
  qed
qed

lemma sweep_None: "sweep_overlaps None xs = [] \<longleftrightarrow> successively interval_before xs"
  by (cases xs) (simp_all add: sweep_overlaps_empty_iff)

text \<open>
  C25: for non-empty block intervals, the report is empty exactly when no two of the
  intervals with the same anchor share a block: the sorted sweep misses no overlap.
\<close>

theorem detect_overlaps_complete:
  assumes "\<forall>a \<in> set ivs. bi_start a < bi_end a"
  shows "detectSameAnchorOverlaps ivs = [] \<longleftrightarrow>
    (\<forall>a b. {#a, b#} \<subseteq># mset ivs \<longrightarrow> same_anchor_disjoint a b)"
proof -
  let ?s = "sort_by interval_less ivs"
  have "detectSameAnchorOverlaps ivs = [] \<longleftrightarrow> sorted_wrt same_anchor_disjoint ?s"
    unfolding detectSameAnchorOverlaps_def sweep_None
    using assms by (intro successively_before_iff intervals.sorted_sort_by) simp
  also have "\<dots> \<longleftrightarrow> (\<forall>a b. {#a, b#} \<subseteq># mset ?s \<longrightarrow> same_anchor_disjoint a b)"
    by (rule sorted_wrt_symmetric) (rule same_anchor_disjoint_sym)
  finally show ?thesis by simp
qed

lemma sweep_overlaps_sound:
  assumes "ov \<in> set (sweep_overlaps act xs)"
    and "sorted_wrt (\<lambda>a b. \<not> interval_less b a) (case act of None \<Rightarrow> xs | Some a \<Rightarrow> a # xs)"
  shows "\<exists>a b. {#a, b#} \<subseteq># mset (case act of None \<Rightarrow> xs | Some a \<Rightarrow> a # xs)
    \<and> ov = overlap_of a b \<and> bi_anchor a = bi_anchor b
    \<and> bi_start a \<le> bi_start b \<and> bi_start b < bi_end a"
  using assms
proof (induction act xs rule: sweep_overlaps.induct)
  case (3 active current rest)
  let ?sep = "bi_anchor current \<noteq> bi_anchor active \<or> bi_end active \<le> bi_start current"
  have "\<not> interval_less current active" using "3.prems"(2) by simp
  note key = not_interval_less_key [OF this]
  have sub1: "sorted_wrt (\<lambda>a b. \<not> interval_less b a) (current # rest)"
    and sub2: "sorted_wrt (\<lambda>a b. \<not> interval_less b a) (active # rest)"
    using "3.prems"(2) by simp_all
  have m1: "mset (current # rest) \<subseteq># mset (active # current # rest)"
    and m2: "mset (active # rest) \<subseteq># mset (active # current # rest)"
    by (simp_all add: add_mset_commute)
  show ?case
  proof (cases ?sep)
    case True
    with "3.IH"(1) "3.prems"(1) sub1 obtain a b where
      "{#a, b#} \<subseteq># mset (current # rest)" "ov = overlap_of a b" "bi_anchor a = bi_anchor b"
      "bi_start a \<le> bi_start b" "bi_start b < bi_end a" by auto
    with m1 show ?thesis by (metis option.simps(5) subset_mset.order_trans)
  next
    case False
    consider "ov = overlap_of active current"
      | "ov \<in> set (sweep_overlaps (Some (if bi_end active < bi_end current then current else active)) rest)"
      using "3.prems"(1) False by auto
    then show ?thesis
    proof cases
      case 1
      have "{#active, current#} \<subseteq># mset (active # current # rest)" by simp
      with 1 False key show ?thesis
        by (intro exI [of _ active] exI [of _ current]) (auto simp: not_le)
    next
      case 2
      let ?n = "if bi_end active < bi_end current then current else active"
      have "sorted_wrt (\<lambda>a b. \<not> interval_less b a)
          (case Some ?n of None \<Rightarrow> rest | Some a \<Rightarrow> a # rest)"
        using sub1 sub2 by (cases "bi_end active < bi_end current") simp_all
      from "3.IH"(2) [OF False 2 this] obtain a b where
        ab: "{#a, b#} \<subseteq># mset (?n # rest)" "ov = overlap_of a b" "bi_anchor a = bi_anchor b"
        "bi_start a \<le> bi_start b" "bi_start b < bi_end a" unfolding option.case by blast
      have "mset (?n # rest) \<subseteq># mset (active # current # rest)"
        using m1 m2 by (cases "bi_end active < bi_end current") simp_all
      with ab(1) have "{#a, b#} \<subseteq># mset (active # current # rest)"
        by (rule subset_mset.order_trans)
      with ab(2-) show ?thesis unfolding option.case by blast
    qed
  qed
qed auto

text \<open>
  Every reported overlap is real: it names two of the intervals, of one anchor, whose
  common block range starts where the second one does.
\<close>

theorem detect_overlaps_sound:
  assumes "ov \<in> set (detectSameAnchorOverlaps ivs)"
  shows "\<exists>a b. {#a, b#} \<subseteq># mset ivs \<and> ov = overlap_of a b \<and> bi_anchor a = bi_anchor b
    \<and> bi_start a \<le> bi_start b \<and> bi_start b < bi_end a"
  using sweep_overlaps_sound [of ov None "sort_by interval_less ivs"] assms
    intervals.sorted_sort_by [of ivs]
  by (simp add: detectSameAnchorOverlaps_def)

subsection \<open>The layout the write descriptors describe\<close>

text \<open>The payload ranges of the descriptors follow each other without gap from one byte to another.\<close>

fun payload_chain :: "nat \<Rightarrow> WriteDescriptor list \<Rightarrow> nat \<Rightarrow> bool" where
  "payload_chain a [] b = (a = b)"
| "payload_chain a (d # ds) b =
     (unat (wd_PayloadOffset d) = a \<and> payload_chain (a + unat (wd_PayloadLength d)) ds b)"

fun table_chain :: "nat \<Rightarrow> WriteDescriptor list \<Rightarrow> nat \<Rightarrow> bool" where
  "table_chain a [] b = (a = b)"
| "table_chain a (d # ds) b =
     (unat (wd_TableOffset d) = a \<and> table_chain (a + 8 + 8 * unat (wd_LocationCount d)) ds b)"

definition location_sound :: "u32 \<Rightarrow> u64 \<Rightarrow> u64 \<Rightarrow> DiskLocation \<Rightarrow> bool" where
  "location_sound blockCount beg fin l \<longleftrightarrow>
     unat (loc_BlockEnd l) = unat (loc_BlockIndex l) + unat blockCount
   \<and> (loc_AccessMethod l = diskAccessBegin \<and> loc_Anchor l = ''begin'' \<and> loc_BlockEnd l \<le> beg
      \<or> loc_AccessMethod l = diskAccessEnd \<and> loc_Anchor l = ''end'' \<and> loc_BlockEnd l \<le> fin)"

definition descriptor_sound :: "u64 \<Rightarrow> u64 \<Rightarrow> u64 \<Rightarrow> WriteDescriptor \<Rightarrow> bool" where
  "descriptor_sound bs beg fin d \<longleftrightarrow>
     0 < unat (wd_BlockCount d) \<and> 0 < unat (wd_LocationCount d)
   \<and> unat (wd_PayloadLength d) = unat (wd_BlockCount d) * unat bs
   \<and> length (wd_Locations d) = unat (wd_LocationCount d)
   \<and> (\<forall>l \<in> set (wd_Locations d). location_sound (wd_BlockCount d) beg fin l)"

definition intervals_of :: "WriteDescriptor \<Rightarrow> blockInterval list" where
  "intervals_of d = map (\<lambda>l. \<lparr> bi_anchor = loc_Anchor l, bi_start = u64_of (loc_BlockIndex l),
     bi_end = loc_BlockEnd l, bi_descriptorIndex = wd_Index d,
     bi_locationIndex = loc_Index l \<rparr>) (wd_Locations d)"

lemma location_sound_mono:
  "location_sound c beg fin l \<Longrightarrow> beg \<le> beg' \<Longrightarrow> fin \<le> fin' \<Longrightarrow> location_sound c beg' fin' l"
  by (auto simp: location_sound_def)

lemma descriptor_sound_mono:
  "descriptor_sound bs beg fin d \<Longrightarrow> beg \<le> beg' \<Longrightarrow> fin \<le> fin' \<Longrightarrow> descriptor_sound bs beg' fin' d"
  by (auto simp: descriptor_sound_def intro: location_sound_mono)

lemma diskAccess_neq [simp]: "diskAccessBegin \<noteq> diskAccessEnd" "diskAccessEnd \<noteq> diskAccessBegin"
  by (simp_all add: diskAccessBegin_def diskAccessEnd_def)

lemma parse_locations_Inr:
  assumes "parse_locations reader fsize index off c is beg fin = Inr (ls, ivs, beg', fin')"
  shows "length ls = length is \<and> beg \<le> beg' \<and> fin \<le> fin'
    \<and> (\<forall>l \<in> set ls. location_sound c beg' fin' l)
    \<and> map loc_Index ls = map of_nat is
    \<and> ivs = map (\<lambda>l. \<lparr> bi_anchor = loc_Anchor l, bi_start = u64_of (loc_BlockIndex l),
        bi_end = loc_BlockEnd l, bi_descriptorIndex = of_nat index,
        bi_locationIndex = loc_Index l \<rparr>) ls"
  using assms
proof (induction "is" arbitrary: beg fin ls ivs)
  case Nil
  then show ?case by simp
next
  case (Cons k ks)
  from Cons.prems obtain b am bi be beg1 fin1 ls1 ivs1 anchor where
    be: "checkedAdd (u64_of bi) (u64_of c) = Inr be" and
    am: "am = diskAccessBegin \<or> am = diskAccessEnd" and
    anchor: "anchor = (if am = diskAccessBegin then ''begin'' else ''end'')" and
    beg1: "beg1 = (if am = diskAccessBegin \<and> beg < be then be else beg)" and
    fin1: "fin1 = (if am = diskAccessEnd \<and> fin < be then be else fin)" and
    rec: "parse_locations reader fsize index off c ks beg1 fin1 = Inr (ls1, ivs1, beg', fin')" and
    ls: "ls = \<lparr> loc_Index = of_nat k, loc_AccessMethod = am, loc_Anchor = anchor,
       loc_BlockIndex = bi, loc_BlockEnd = be \<rparr> # ls1" and
    ivs: "ivs = \<lparr> bi_anchor = anchor, bi_start = u64_of bi, bi_end = be,
       bi_descriptorIndex = of_nat index, bi_locationIndex = of_nat k \<rparr> # ivs1"
    by (auto simp: result_simps Let_def)
  note IH = Cons.IH [OF rec]
  have "beg \<le> beg1" "fin \<le> fin1" by (auto simp: beg1 fin1)
  moreover have "unat be = unat bi + unat c" using checkedAdd_unat [OF be] by simp
  moreover have "am = diskAccessBegin \<longrightarrow> be \<le> beg1" "am = diskAccessEnd \<longrightarrow> be \<le> fin1"
    by (auto simp: beg1 fin1)
  ultimately show ?case using IH am
    by (auto simp: ls ivs anchor location_sound_def)
qed

lemma parse_write_descriptor_Inr:
  assumes "parse_write_descriptor reader fsize fin bs index s = Inr (d, ivs, s')"
  shows "descriptor_sound bs (ws_beginningBlocks s') (ws_endingBlocks s') d
    \<and> ivs = intervals_of d \<and> wd_Index d = of_nat index
    \<and> map loc_Index (wd_Locations d) = map of_nat [0 ..< unat (wd_LocationCount d)]
    \<and> ws_beginningBlocks s \<le> ws_beginningBlocks s' \<and> ws_endingBlocks s \<le> ws_endingBlocks s'
    \<and> wd_PayloadOffset d = ws_payloadCursor s \<and> wd_TableOffset d = ws_cursor s
    \<and> unat (ws_payloadCursor s') = unat (ws_payloadCursor s) + unat (wd_PayloadLength d)
    \<and> unat (ws_cursor s') = unat (ws_cursor s) + 8 + 8 * unat (wd_LocationCount d)
    \<and> unat (ws_totalBlocks s') = unat (ws_totalBlocks s) + unat (wd_BlockCount d)
    \<and> ws_cursor s' \<le> fin"
proof -
  from assms obtain lc bc tl lb lo nx pl pn ls b e tb where
    nz: "lc \<noteq> 0" "bc \<noteq> 0" and
    lb: "checkedMul (u64_of lc) 8 = Inr lb" and lo: "checkedAdd (ws_cursor s) 8 = Inr lo" and
    nx: "checkedAdd lo lb = Inr nx" "\<not> fin < nx" and
    pl: "checkedMul (u64_of bc) bs = Inr pl" and
    pn: "checkedAdd (ws_payloadCursor s) pl = Inr pn" and
    ls: "parse_locations reader fsize index lo bc [0 ..< unat lc] (ws_beginningBlocks s)
           (ws_endingBlocks s) = Inr (ls, ivs, b, e)" and
    tb: "checkedAdd (ws_totalBlocks s) (u64_of bc) = Inr tb" and
    d: "d = \<lparr> wd_Index = of_nat index, wd_TableOffset = ws_cursor s, wd_LocationCount = lc,
            wd_BlockCount = bc, wd_PayloadOffset = ws_payloadCursor s, wd_PayloadLength = pl,
            wd_Locations = ls \<rparr>" and
    s': "s' = \<lparr> ws_cursor = nx, ws_payloadCursor = pn, ws_totalBlocks = tb,
            ws_beginningBlocks = b, ws_endingBlocks = e, ws_totalLocations = tl \<rparr>"
    by (auto simp: parse_write_descriptor_def result_simps Let_def)
  note L = parse_locations_Inr [OF ls]
  have "unat nx = unat (ws_cursor s) + 8 + 8 * unat lc"
    using checkedAdd_unat [OF nx(1)] checkedAdd_unat [OF lo] checkedMul_unat [OF lb] by simp
  then show ?thesis
    using L nz nx(2) checkedMul_unat [OF pl] checkedAdd_unat [OF pn] checkedAdd_unat [OF tb]
    by (simp add: d s' descriptor_sound_def intervals_of_def unat_gt_0 not_less)
qed

lemma parse_write_loop_Inr:
  assumes "parse_write_loop reader fsize fin bs is s = Inr (ds, ivs, s')"
  shows "payload_chain (unat (ws_payloadCursor s)) ds (unat (ws_payloadCursor s'))
    \<and> table_chain (unat (ws_cursor s)) ds (unat (ws_cursor s'))
    \<and> unat (ws_totalBlocks s') = unat (ws_totalBlocks s) + sum_list (map (\<lambda>d. unat (wd_BlockCount d)) ds)
    \<and> ws_beginningBlocks s \<le> ws_beginningBlocks s' \<and> ws_endingBlocks s \<le> ws_endingBlocks s'
    \<and> (\<forall>d \<in> set ds. descriptor_sound bs (ws_beginningBlocks s') (ws_endingBlocks s') d)
    \<and> ivs = concat (map intervals_of ds) \<and> map wd_Index ds = map of_nat is
    \<and> (\<forall>d \<in> set ds. map loc_Index (wd_Locations d) = map of_nat [0 ..< unat (wd_LocationCount d)])"
  using assms
proof (induction "is" arbitrary: s ds ivs)
  case Nil
  then show ?case by simp
next
  case (Cons k ks)
  from Cons.prems obtain d ivs1 s1 ds1 ivs2 where
    d: "parse_write_descriptor reader fsize fin bs k s = Inr (d, ivs1, s1)" and
    r: "parse_write_loop reader fsize fin bs ks s1 = Inr (ds1, ivs2, s')" and
    e: "ds = d # ds1" "ivs = ivs1 @ ivs2"
    by (auto simp: result_simps)
  note D = parse_write_descriptor_Inr [OF d] and R = Cons.IH [OF r]
  have "descriptor_sound bs (ws_beginningBlocks s') (ws_endingBlocks s') d"
    using D R by (blast intro: descriptor_sound_mono)
  then show ?case using D R by (auto simp: e)
qed

lemma payload_chain_length:
  "payload_chain a ds b \<Longrightarrow> b = a + sum_list (map (\<lambda>d. unat (wd_PayloadLength d)) ds)"
  by (induction ds arbitrary: a) fastforce+

text \<open>Every byte of the payload belongs to exactly one descriptor.\<close>

definition payload_range :: "WriteDescriptor \<Rightarrow> nat set" where
  "payload_range d = {unat (wd_PayloadOffset d) ..< unat (wd_PayloadOffset d) + unat (wd_PayloadLength d)}"

lemma payload_chain_covers:
  "payload_chain a ds b \<Longrightarrow> (\<Union>d \<in> set ds. payload_range d) = {a ..< b}"
proof (induction ds arbitrary: a)
  case (Cons d ds)
  then have "(\<Union>d \<in> set ds. payload_range d) = {a + unat (wd_PayloadLength d) ..< b}" by simp
  moreover have "a + unat (wd_PayloadLength d) \<le> b"
    using Cons.prems payload_chain_length [of "a + unat (wd_PayloadLength d)" ds b] by simp
  ultimately show ?case using Cons.prems by (auto simp: payload_range_def)
qed simp

lemma payload_chain_disjoint:
  "payload_chain a ds b \<Longrightarrow> sorted_wrt (\<lambda>d e. payload_range d \<inter> payload_range e = {}) ds"
proof (induction ds arbitrary: a)
  case (Cons d ds)
  then have c: "payload_chain (a + unat (wd_PayloadLength d)) ds b" by simp
  have "payload_range d \<inter> payload_range e = {}" if "e \<in> set ds" for e
  proof -
    have "payload_range e \<subseteq> {a + unat (wd_PayloadLength d) ..< b}"
      using payload_chain_covers [OF c] that by blast
    then show ?thesis using Cons.prems by (auto simp: payload_range_def)
  qed
  then show ?case using Cons.IH [OF c] by simp
qed simp

text \<open>The whole plan.\<close>

definition plan_sound :: "DescriptorPlan \<Rightarrow> bool" where
  "plan_sound p \<longleftrightarrow>
     payload_chain (unat (dp_PayloadOffset p)) (dp_WriteDescriptors p) (unat (dp_PayloadEnd p))
   \<and> table_chain (unat (dp_WriteDescriptorOffset p)) (dp_WriteDescriptors p)
       (unat (dp_WriteDescriptorEnd p))
   \<and> unat (dp_WriteDescriptorEnd p) \<le> unat (dp_PayloadOffset p)
   \<and> unat (dp_ChunkSizeBytes p) dvd unat (dp_PayloadOffset p)
   \<and> unat (dp_PayloadEnd p) \<le> unat (dp_SourceFileSize p)
   \<and> unat (dp_PayloadLength p) = unat (dp_TotalPayloadBlocks p) * unat (dp_BlockSizeBytes p)
   \<and> unat (dp_TotalPayloadBlocks p) = sum_list (map (\<lambda>d. unat (wd_BlockCount d)) (dp_WriteDescriptors p))
   \<and> unat (dp_MinimumTargetBytes p)
       = (unat (dp_BeginningExtentBlocks p) + unat (dp_EndingExtentBlocks p)) * unat (dp_BlockSizeBytes p)
   \<and> (\<forall>d \<in> set (dp_WriteDescriptors p).
        descriptor_sound (dp_BlockSizeBytes p) (dp_BeginningExtentBlocks p) (dp_EndingExtentBlocks p) d)
   \<and> dp_DestinationOverlaps p = detectSameAnchorOverlaps (concat (map intervals_of (dp_WriteDescriptors p)))
   \<and> dp_HasDestinationOverlap p = (dp_DestinationOverlaps p \<noteq> [])
   \<and> dp_PlanSHA256 p = descriptorPlanDigest p"

lemma digest_ignores_sha [simp]:
  "descriptorPlanDigest (p\<lparr>dp_PlanSHA256 := h\<rparr>) = descriptorPlanDigest p"
  by (simp add: descriptorPlanDigest_def descriptor_plan_preimage_def)

lemma check_table_Inr [result_simps]:
  "check_table tb n t = Inr u \<longleftrightarrow> \<not> (ptr_BlockCount t \<noteq> 0 \<and> tb < ptr_BlockEnd t)"
  by (simp add: check_table_def)

lemma PlanSingleStoreV1_success:
  assumes "PlanSingleStoreV1 reader fsize = Inr (i, p)"
  shows "plan_sound p"
proof -
  let ?store = "insp_Store i"
  have h: "dp_PlanSHA256 p = descriptorPlanDigest p"
    using assms by (auto simp: PlanSingleStoreV1_def result_simps Let_def
        descriptorPlanDigest_def descriptor_plan_preimage_def)
  from assms obtain writeOffset writeEnd po vs ds tb bb eb ivs pl pe mtb mtB where
    we: "checkedAdd writeOffset (u64_of (st_WriteDescriptorLength ?store)) = Inr writeEnd" and
    po: "alignUp writeEnd (sec_ChunkSizeBytes (insp_Security i)) = Inr po" and
    ws: "parseWriteDescriptors (the reader) fsize writeOffset writeEnd po
           (st_WriteDescriptorCount ?store) (u64_of (st_BlockSizeBytes ?store))
           = Inr (ds, tb, bb, eb, ivs)" and
    pl: "checkedMul tb (u64_of (st_BlockSizeBytes ?store)) = Inr pl" and
    pe: "checkedAdd po pl = Inr pe" "\<not> fsize < pe" and
    mt: "checkedAdd bb eb = Inr mtb" "checkedMul mtb (u64_of (st_BlockSizeBytes ?store)) = Inr mtB" and
    fields: "dp_PayloadOffset p = po" "dp_WriteDescriptors p = ds" "dp_PayloadEnd p = pe"
      "dp_WriteDescriptorOffset p = writeOffset" "dp_WriteDescriptorEnd p = writeEnd"
      "dp_ChunkSizeBytes p = sec_ChunkSizeBytes (insp_Security i)" "dp_SourceFileSize p = fsize"
      "dp_PayloadLength p = pl" "dp_TotalPayloadBlocks p = tb"
      "dp_BlockSizeBytes p = u64_of (st_BlockSizeBytes ?store)"
      "dp_MinimumTargetBytes p = mtB" "dp_BeginningExtentBlocks p = bb"
      "dp_EndingExtentBlocks p = eb" "dp_DestinationOverlaps p = detectSameAnchorOverlaps ivs"
      "dp_HasDestinationOverlap p = (detectSameAnchorOverlaps ivs \<noteq> [])"
    by (auto simp: PlanSingleStoreV1_def result_simps Let_def)
  from ws obtain s where
    loop: "parse_write_loop (the reader) fsize writeEnd (u64_of (st_BlockSizeBytes ?store))
        [0 ..< unat (st_WriteDescriptorCount ?store)]
        \<lparr> ws_cursor = writeOffset, ws_payloadCursor = po, ws_totalBlocks = 0,
          ws_beginningBlocks = 0, ws_endingBlocks = 0, ws_totalLocations = 0 \<rparr> = Inr (ds, ivs, s)" and
    s: "ws_cursor s = writeEnd" "tb = ws_totalBlocks s" "bb = ws_beginningBlocks s"
       "eb = ws_endingBlocks s"
    by (auto simp: parseWriteDescriptors_def result_simps)
  note L = parse_write_loop_Inr [OF loop, simplified]
  have tot: "unat tb = sum_list (map (\<lambda>d. unat (wd_BlockCount d)) ds)" using L s by simp
  have "unat (ws_payloadCursor s)
      = unat po + sum_list (map (\<lambda>d. unat (wd_PayloadLength d)) ds)"
    using L payload_chain_length by blast
  also have "map (\<lambda>d. unat (wd_PayloadLength d)) ds
      = map (\<lambda>d. unat (wd_BlockCount d) * unat (st_BlockSizeBytes ?store)) ds"
    using L by (simp add: descriptor_sound_def)
  also have "sum_list \<dots> = unat tb * unat (st_BlockSizeBytes ?store)"
    by (simp add: tot sum_list_mult_const)
  also have "unat po + \<dots> = unat pe"
    using checkedAdd_unat [OF pe(1)] checkedMul_unat [OF pl] by simp
  finally have cur: "unat (ws_payloadCursor s) = unat pe" .
  show ?thesis
    using L s cur tot h alignUp_bounds [OF po] pe(2) checkedMul_unat [OF pl]
      checkedAdd_unat [OF mt(1)] checkedMul_unat [OF mt(2)]
    by (simp add: plan_sound_def fields not_less word_le_unat)
qed

text \<open>
  C24: a successful plan lays the write descriptors gaplessly over the payload, inside the
  file, consumes the descriptor table exactly, accounts for every block, bounds every
  location by the begin and end extents, reports the overlaps of exactly the locations it
  lists, and carries its own digest.
\<close>

theorem plan_v1_sound:
  assumes "PlanSingleStoreV1 reader fsize = Inr (i, p)"
  shows "plan_sound p"
  using assms by (rule PlanSingleStoreV1_success)

section \<open>A concrete image\<close>

text \<open>
  A 3584-byte image with 1 KiB chunks, a one-byte catalog, three hash entries, one write
  descriptor with one location, and one 512-byte payload block at 3072. It witnesses that
  the hypotheses of the properties can hold.
\<close>

definition sample_security :: bytes where
  "sample_security = put_u32 32 @ string_bytes ''SignedImage '' @ put_u32 1 @ put_u32 0x800c
     @ put_u32 1 @ put_u32 96"

definition sample_image_header :: bytes where
  "sample_image_header = put_u32 24 @ string_bytes ''ImageFlash  '' @ put_u32 1 @ put_u32 1"

definition sample_store :: bytes where
  "sample_store = put_u32 0 @ put_u16 1 @ put_u16 0 @ put_u16 2 @ put_u16 0 @ replicate 192 0
     @ put_u32 512 @ put_u32 1 @ put_u32 16 @ put_u32 0 @ put_u32 0
     @ put_u32 0 @ put_u32 0 @ put_u32 0 @ put_u32 0 @ put_u32 0 @ put_u32 1"

definition sample_descriptors :: bytes where
  "sample_descriptors = put_u32 1 @ put_u32 1 @ put_u32 0 @ put_u32 5"

definition sample_ffu :: bytes where
  "sample_ffu = sample_security @ replicate 992 0 @ sample_image_header @ replicate 1000 7
     @ sample_store @ sample_descriptors @ replicate 760 0 @ replicate 512 9"

lemmas sample_lens = sample_security_def sample_image_header_def sample_store_def sample_descriptors_def

lemma sample_lengths: "length sample_security = 32" "length sample_image_header = 24" "length sample_store = 248"
  "length sample_descriptors = 16"
  by (simp_all add: sample_lens)

lemma sample_regions:
  "file_reader sample_ffu 0 32 = (sample_security, None)"
  "file_reader sample_ffu 1024 24 = (sample_image_header, None)"
  "file_reader sample_ffu 2048 248 = (sample_store, None)"
  "file_reader sample_ffu 2296 8 = (take 8 sample_descriptors, None)"
  "file_reader sample_ffu 2304 8 = (drop 8 sample_descriptors, None)"
  by (simp_all add: file_reader_def sample_ffu_def sample_lengths Let_def)

lemma sample_security_header: "security_header_of sample_security = \<lparr> sec_HeaderSize = 32, sec_Signature = ''SignedImage '',
   sec_ChunkSizeKB = 1, sec_ChunkSizeBytes = 0, sec_AlgorithmID = 0x800c, sec_CatalogSize = 1,
   sec_HashTableSize = 96 \<rparr>"
  by (simp add: security_header_of_def slice_def sample_security_def)
lemma sample_image_header_fields: "image_header_of sample_image_header = \<lparr> img_HeaderSize = 24, img_Signature = ''ImageFlash  '',
   img_ManifestLength = 1, img_ChunkSizeKB = 1 \<rparr>"
  by (simp add: image_header_of_def slice_def sample_image_header_def)
lemma sample_store_header: "store_header_of sample_store = \<lparr> st_CommonHeaderSize = 248, st_UpdateType = 0, st_MajorVersion = 1,
  st_MinorVersion = 0, st_FullFlashMajorVersion = 2, st_FullFlashMinorVersion = 0, st_PlatformID = [],
  st_BlockSizeBytes = 512, st_WriteDescriptorCount = 1, st_WriteDescriptorLength = 16,
  st_ValidateDescriptorCount = 0, st_ValidateDescriptorLength = 0, 
  st_InitialTableBlockIndex = 0, st_InitialTableBlockCount = 0, st_InitialTableBlockEnd = 0,
  st_FlashOnlyTableBlockIndex = 0, st_FlashOnlyTableBlockCount = 0, st_FlashOnlyTableBlockEnd = 0,
  st_FinalTableBlockIndex = 0, st_FinalTableBlockCount = 1, st_FinalTableBlockEnd = 0 \<rparr>"
  by (simp add: store_header_of_def slice_def sample_store_def trimPlatformID_def takeWhile_replicate
    bytes_string_def trim_space_def storeCommonHeaderBytes_def)

lemma inspect_of_regions:
  assumes "r 0 32 = (sample_security, None)" "r 1024 24 = (sample_image_header, None)"
    "r 2048 248 = (sample_store, None)"
  shows "\<exists>i. Inspect (Some r) 3584 = Inr i
    \<and> insp_Store i = (store_header_of sample_store)\<lparr>st_FinalTableBlockEnd := 1\<rparr>
    \<and> insp_StoreCommonEndOffset i = 2296 \<and> insp_CatalogOffset i = 32
    \<and> insp_HashTableOffset i = 33 \<and> insp_ImageHeaderOffset i = 1024
    \<and> insp_Security i = (security_header_of sample_security)\<lparr>sec_ChunkSizeBytes := 1024\<rparr>"
  by (simp add: Inspect_def maxReaderAt_def inspect_security_def readRegion_def securityHeaderBytes_def
    assms sample_lengths sample_security_header sample_image_header_fields sample_store_header Let_def checkedMul_def checkedAdd_def maxUint64_def maxChunkBytes_def isPowerOfTwo_def
    alignUp_def inspect_image_def imageHeaderBytes_def storeCommonHeaderBytes_def u64_of_def
    store_table_ends_def payloadBlockEnd_def check_store_def maxBlockBytes_def)

lemmas sample_inspect = inspect_of_regions [OF sample_regions(1-3)]

theorem inspect_sound_witness:
  "\<exists>i. Inspect (Some (file_reader sample_ffu)) 3584 = Inr i \<and> inspection_sound 3584 i"
  using sample_inspect inspect_sound by blast

lemma sample_plan:
  "\<exists>i p. PlanSingleStoreV1 (Some (file_reader sample_ffu)) 3584 = Inr (i, p)"
proof -
  from sample_inspect obtain i where i: "Inspect (Some (file_reader sample_ffu)) 3584 = Inr i"
    "insp_Store i = (store_header_of sample_store)\<lparr>st_FinalTableBlockEnd := 1\<rparr>"
    "insp_StoreCommonEndOffset i = 2296" "sec_ChunkSizeBytes (insp_Security i) = 1024" by auto
  have one: "[0 ..< unat (1 :: u32)] = [0]" by simp
  show ?thesis
    by (simp add: PlanSingleStoreV1_def i sample_store_header Let_def maxPlanDescriptorCount_def
        maxPlanTableBytes_def u64_of_def checkedAdd_def alignUp_def parseValidationDescriptors_def
        parseWriteDescriptors_def parse_write_descriptor_def readRegion_def sample_regions
        sample_lengths sample_descriptors_def slice_def maxPlanLocationCount_def checkedMul_def
        maxUint64_def one diskAccessBegin_def check_table_def payloadRange_def)
qed

theorem plan_v1_sound_witness:
  "\<exists>i p. PlanSingleStoreV1 (Some (file_reader sample_ffu)) 3584 = Inr (i, p) \<and> plan_sound p"
  using sample_plan plan_v1_sound by blast

text \<open>Three intervals, of which the first two share blocks 4 to 5.\<close>

definition sample_intervals :: "blockInterval list" where
  "sample_intervals =
    [\<lparr> bi_anchor = ''begin'', bi_start = 4, bi_end = 9, bi_descriptorIndex = 1, bi_locationIndex = 0 \<rparr>,
     \<lparr> bi_anchor = ''begin'', bi_start = 0, bi_end = 6, bi_descriptorIndex = 0, bi_locationIndex = 0 \<rparr>,
     \<lparr> bi_anchor = ''end'', bi_start = 0, bi_end = 6, bi_descriptorIndex = 0, bi_locationIndex = 1 \<rparr>]"

lemma sample_intervals_detected:
  "detectSameAnchorOverlaps sample_intervals =
    [overlap_of (sample_intervals ! 1) (sample_intervals ! 0)]"
  by (simp add: sample_intervals_def detectSameAnchorOverlaps_def interval_less_def)

theorem detect_overlaps_complete_witness:
  "\<not> (\<forall>a b. {#a, b#} \<subseteq># mset sample_intervals \<longrightarrow> same_anchor_disjoint a b)"
proof -
  have "\<forall>a \<in> set sample_intervals. bi_start a < bi_end a" by (simp add: sample_intervals_def)
  from detect_overlaps_complete [OF this] sample_intervals_detected show ?thesis by simp
qed

theorem detect_overlaps_sound_witness:
  "\<exists>a b. {#a, b#} \<subseteq># mset sample_intervals
    \<and> overlap_of (sample_intervals ! 1) (sample_intervals ! 0) = overlap_of a b
    \<and> bi_start b < bi_end a"
  using detect_overlaps_sound [of "overlap_of (sample_intervals ! 1) (sample_intervals ! 0)"
      sample_intervals] sample_intervals_detected by auto

end
