(* ===== verification/FfuVerify.thy ===== *)
theory FfuVerify
  imports FfuPlan
begin

text \<open>
  \<open>internal/ffu/hash_table.go\<close> and \<open>internal/ffu/content_verify.go\<close>: the hash-table plan, the
  comparison of every chunk of the image with its table entry, and the plan that binds both.

  Time is explicit here, because the code polls its context and rereads the source: a clock
  is threaded through the calls, every \<open>ctx.Err()\<close> and every \<open>ReadAt\<close> takes one tick, the
  context answers \<open>ctx t\<close> and the source is \<open>src t\<close> at tick \<open>t\<close>. A call of \<open>Inspect\<close> or
  \<open>PlanSingleStoreV1\<close> sees the source of one tick.
\<close>

type_synonym ctx_poll = "nat \<Rightarrow> go_error option"
type_synonym source = "nat \<Rightarrow> reader_at"

section \<open>Data\<close>

definition ffuAlgorithmSHA256 :: u32 where "ffuAlgorithmSHA256 = 0x0000800c"
definition ffuHashReadBufferBytes :: nat where "ffuHashReadBufferBytes = 64 * 1024"
definition sha256Size :: u64 where "sha256Size = 32"

record HashTablePlan =
  hp_Schema :: nat
  hp_SourceFileSize :: u64
  hp_AlgorithmID :: u32
  hp_Algorithm :: string
  hp_DigestSizeBytes :: u32
  hp_CatalogOffset :: u64
  hp_CatalogLength :: u64
  hp_CatalogSHA256 :: string
  hp_HashTableOffset :: u64
  hp_HashTableLength :: u64
  hp_HashTableSHA256 :: string
  hp_HashEntryCount :: u64
  hp_HashTableShapeValidated :: bool
  hp_CatalogAuthenticationAttempted :: bool
  hp_HashTableCatalogAuthenticated :: bool
  hp_ContentVerificationAttempted :: bool
  hp_ContentMatchesHashTable :: bool
  hp_PlanSHA256 :: string
  hp_Limitations :: "string list"

record ContentVerification =
  cv_Schema :: nat
  cv_SourceFileSize :: u64
  cv_AlgorithmID :: u32
  cv_Algorithm :: string
  cv_DigestSizeBytes :: u32
  cv_HashTableOffset :: u64
  cv_HashTableLength :: u64
  cv_HashTableSHA256 :: string
  cv_HashEntryCount :: u64
  cv_CoverageOffset :: u64
  cv_CoverageLength :: u64
  cv_CoverageEnd :: u64
  cv_ChunkSizeBytes :: u64
  cv_ExpectedChunkCount :: u64
  cv_VerifiedChunkCount :: u64
  cv_FinalChunkDataBytes :: u64
  cv_FinalChunkZeroPaddingBytes :: u64
  cv_ContentVerificationAttempted :: bool
  cv_ContentMatchesHashTable :: bool
  cv_MismatchPresent :: bool
  cv_MismatchEntryIndex :: u64
  cv_MismatchSourceOffset :: u64
  cv_MismatchExpectedSHA256 :: string
  cv_MismatchActualSHA256 :: string
  cv_HashTableCatalogAuthenticated :: bool
  cv_IntegrityAuthenticated :: bool
  cv_VerificationSHA256 :: string
  cv_Limitations :: "string list"

record IntegrityDescriptorPlan =
  ip_Schema :: nat
  ip_SourceFileSize :: u64
  ip_DescriptorPlanSHA256 :: string
  ip_HashTablePlanSHA256 :: string
  ip_ContentVerificationSHA256 :: string
  ip_HashTableSHA256 :: string
  ip_HashEntryCount :: u64
  ip_CoverageOffset :: u64
  ip_CoverageLength :: u64
  ip_CoverageEnd :: u64
  ip_ChunkSizeBytes :: u64
  ip_VerifiedChunkCount :: u64
  ip_FinalChunkZeroPaddingBytes :: u64
  ip_ContentVerificationAttempted :: bool
  ip_ContentMatchesHashTable :: bool
  ip_HashTableCatalogAuthenticated :: bool
  ip_IntegrityAuthenticated :: bool
  ip_TargetSizeBindingRequired :: bool
  ip_ExecutionSupported :: bool
  ip_PlanSHA256 :: string
  ip_Limitations :: "string list"

section \<open>Reading under a context\<close>

text \<open>\<open>io.CopyBuffer\<close> stops without an error at \<open>io.EOF\<close>.\<close>

definition eof_none :: "go_error \<Rightarrow> go_error option" where
  "eof_none e = (if e = EOF then None else Some e)"

text \<open>
  \<open>io.CopyBuffer\<close> from an \<open>ffuContextReader\<close> over a section of the source: the context is
  polled before every read, the one that meets the end of the section included, and again
  after every read without an error.
\<close>

function ctx_copy ::
  "ctx_poll \<Rightarrow> source \<Rightarrow> nat \<Rightarrow> int \<Rightarrow> nat \<Rightarrow> nat \<Rightarrow> bytes \<times> go_error option \<times> nat" where
  "ctx_copy ctx src buf off rem t =
     (case ctx t of
        Some e \<Rightarrow> ([], eof_none e, t + 1)
      | None \<Rightarrow>
          if rem = 0 then ([], None, t + 1)
          else case src (t + 1) off (min buf rem) of (d, e) \<Rightarrow>
            (case e of
               Some err \<Rightarrow> (d, eof_none err, t + 2)
             | None \<Rightarrow>
                 (case ctx (t + 2) of
                    Some c \<Rightarrow> (d, eof_none c, t + 3)
                  | None \<Rightarrow>
                      if d = [] then ([], Some ErrNoProgress, t + 3)
                      else case ctx_copy ctx src buf (off + int (length d)) (rem - length d) (t + 3) of
                        (ds, e', t') \<Rightarrow> (d @ ds, e', t'))))"
  by pat_completeness auto
termination
  by (relation "measure (\<lambda>(ctx, src, buf, off, rem, t). rem)") auto

declare ctx_copy.simps [simp del]

definition hashFFURegion ::
  "ctx_poll \<Rightarrow> source \<Rightarrow> u64 \<Rightarrow> u64 \<Rightarrow> nat \<Rightarrow> (string \<times> nat) res" where
  "hashFFURegion ctx src offset len t =
     (case ctx_copy ctx src ffuHashReadBufferBytes (sint offset) (unat len) t of (d, e, t') \<Rightarrow>
        (case e of
           Some err \<Rightarrow> Inl err
         | None \<Rightarrow>
             if length d \<noteq> unat len
             then Inl (Errorf ''read %d of %d bytes'' [FN (length d), FN (unat len)])
             else Inr (sha256_hex d, t')))"

text \<open>The zero padding of the last chunk, in blocks of the buffer, polling each time.\<close>

function pad_zeros :: "ctx_poll \<Rightarrow> nat \<Rightarrow> nat \<Rightarrow> (bytes \<times> nat) res" where
  "pad_zeros ctx padding t =
     (if padding = 0 then Inr ([], t)
      else case ctx t of
        Some e \<Rightarrow> Inl e
      | None \<Rightarrow>
          let writeLength = min ffuHashReadBufferBytes padding in
          bindE (pad_zeros ctx (padding - writeLength) (t + 1)) (\<lambda>(zs, t').
          Inr (replicate writeLength 0 @ zs, t')))"
  by pat_completeness auto
termination
  by (relation "measure (\<lambda>(ctx, padding, t). padding)") (auto simp: ffuHashReadBufferBytes_def)

declare pad_zeros.simps [simp del]

definition hashFFUContentChunk ::
  "ctx_poll \<Rightarrow> source \<Rightarrow> u64 \<Rightarrow> u64 \<Rightarrow> u64 \<Rightarrow> nat \<Rightarrow> (bytes \<times> nat) res" where
  "hashFFUContentChunk ctx src offset dataLength chunkSize t =
     (if dataLength = 0 \<or> chunkSize < dataLength
      then Inl (Errorf ''invalid FFU content chunk data length %d for chunk size %d''
                  [FN (unat dataLength), FN (unat chunkSize)])
      else case ctx_copy ctx src ffuHashReadBufferBytes (sint offset) (unat dataLength) t of
        (d, e, t') \<Rightarrow>
        (case e of
           Some err \<Rightarrow> Inl err
         | None \<Rightarrow>
             if length d \<noteq> unat dataLength
             then Inl (Errorf ''read %d of %d chunk bytes'' [FN (length d), FN (unat dataLength)])
             else
             bindE (pad_zeros ctx (unat (chunkSize - dataLength)) t') (\<lambda>(zs, t2).
             Inr (sha256 (d @ zs), t2))))"

definition readExactFFUAt :: "reader_at \<Rightarrow> u64 \<Rightarrow> nat \<Rightarrow> string \<Rightarrow> bytes res" where
  "readExactFFUAt reader offset len label =
     (case reader (sint offset) len of (d, e) \<Rightarrow>
        if e \<noteq> None \<and> \<not> errors_is (the e) EOF
        then Inl (Errorf ''read FFU %s: %w'' [FS label, FE (the e)])
        else if length d \<noteq> len
        then Inl (Errorf ''truncated FFU %s at offset %d'' [FS label, FN (unat offset)])
        else Inr d)"

section \<open>The hash-table plan\<close>

definition writeHashPlanUint64 :: "u64 \<Rightarrow> bytes" where
  "writeHashPlanUint64 v = put_u64 v"

definition writeHashPlanString :: "string \<Rightarrow> bytes" where
  "writeHashPlanString v = writeHashPlanUint64 (of_nat (length v)) @ string_bytes v"

definition writeHashPlanBool :: "bool \<Rightarrow> bytes" where
  "writeHashPlanBool v = (if v then writeHashPlanUint64 1 else writeHashPlanUint64 0)"

definition hashTablePlanDigest :: "HashTablePlan \<Rightarrow> string" where
  "hashTablePlanDigest p = sha256_hex (
     writeHashPlanUint64 (of_nat (hp_Schema p)) @ writeHashPlanUint64 (hp_SourceFileSize p)
     @ writeHashPlanUint64 (u64_of (hp_AlgorithmID p)) @ writeHashPlanString (hp_Algorithm p)
     @ writeHashPlanUint64 (u64_of (hp_DigestSizeBytes p))
     @ writeHashPlanUint64 (hp_CatalogOffset p) @ writeHashPlanUint64 (hp_CatalogLength p)
     @ writeHashPlanString (hp_CatalogSHA256 p)
     @ writeHashPlanUint64 (hp_HashTableOffset p) @ writeHashPlanUint64 (hp_HashTableLength p)
     @ writeHashPlanString (hp_HashTableSHA256 p) @ writeHashPlanUint64 (hp_HashEntryCount p)
     @ writeHashPlanBool (hp_HashTableShapeValidated p)
     @ writeHashPlanBool (hp_CatalogAuthenticationAttempted p)
     @ writeHashPlanBool (hp_HashTableCatalogAuthenticated p)
     @ writeHashPlanBool (hp_ContentVerificationAttempted p)
     @ writeHashPlanBool (hp_ContentMatchesHashTable p))"

definition validateHashMetadataRegion :: "u64 \<Rightarrow> u64 \<Rightarrow> u64 \<Rightarrow> string \<Rightarrow> unit res" where
  "validateHashMetadataRegion fsize offset len label =
     (let bad = Inl (Errorf ''FFU %s range at offset %d with length %d exceeds source size %d''
                       [FS label, FN (unat offset), FN (unat len), FN (unat fsize)])
      in case checkedAdd offset len of
           Inl _ \<Rightarrow> bad
         | Inr fin \<Rightarrow> if len = 0 \<or> fsize < offset \<or> fsize < fin then bad else Inr ())"

definition hashPlanLimitations :: "string list" where
  "hashPlanLimitations =
    [''the catalog digest is recorded but its CMS/PKCS#7 signature and trust chain are not authenticated'',
     ''hash entries are counted but are not compared with source chunks'',
     ''the first covered byte, chunk padding, final partial chunk, metadata coverage and trailing-byte rules remain unresolved'',
     ''no target is accepted and no regular-file, loop-device or physical-device executor exists'']"

definition PlanHashTable ::
  "ctx_poll option \<Rightarrow> source option \<Rightarrow> u64 \<Rightarrow> nat \<Rightarrow> (Inspection \<times> HashTablePlan \<times> nat) res" where
  "PlanHashTable ctx_opt src_opt fsize t =
     (case ctx_opt of None \<Rightarrow> Inl (Msg ''FFU hash-table context is nil'') | Some ctx \<Rightarrow>
      (case ctx t of Some e \<Rightarrow> Inl e | None \<Rightarrow>
      bindE (Inspect (map_option (\<lambda>src. src (t + 1)) src_opt) fsize) (\<lambda>inspection.
      let security = insp_Security inspection; src = the src_opt in
      if sec_AlgorithmID security \<noteq> ffuAlgorithmSHA256
      then Inl (Errorf ''unsupported FFU hash algorithm 0x%08x: only CALG_SHA_256 (0x%08x) is accepted''
                  [FN (unat (sec_AlgorithmID security)), FN (unat ffuAlgorithmSHA256)])
      else
      let digestSize = sha256Size; hashTableLength = u64_of (sec_HashTableSize security) in
      if hashTableLength = 0 \<or> hashTableLength mod digestSize \<noteq> 0
      then Inl (Errorf ''FFU hash table length %d is not a non-zero multiple of SHA-256 digest size %d''
                  [FN (unat hashTableLength), FN (unat digestSize)])
      else
      let hashEntryCount = hashTableLength div digestSize in
      if hashEntryCount = 0 then Inl (Msg ''FFU hash table contains no entries'')
      else
      let catalogLength = u64_of (sec_CatalogSize security) in
      bindE (validateHashMetadataRegion fsize (insp_CatalogOffset inspection) catalogLength ''catalog'')
        (\<lambda>_.
      bindE (validateHashMetadataRegion fsize (insp_HashTableOffset inspection) hashTableLength
               ''hash table'') (\<lambda>_.
      if checkedAdd (insp_CatalogOffset inspection) catalogLength
           \<noteq> Inr (insp_HashTableOffset inspection)
      then Inl (Msg ''FFU catalog and hash-table boundaries are inconsistent'')
      else
      bindE (mapE (\<lambda>e. Errorf ''hash FFU catalog: %w'' [FE e])
        (hashFFURegion ctx src (insp_CatalogOffset inspection) catalogLength (t + 2)))
        (\<lambda>(catalogDigest, t2).
      bindE (mapE (\<lambda>e. Errorf ''hash FFU hash table: %w'' [FE e])
        (hashFFURegion ctx src (insp_HashTableOffset inspection) hashTableLength t2))
        (\<lambda>(hashTableDigest, t3).
      let plan = \<lparr> hp_Schema = 1,
            hp_SourceFileSize = fsize,
            hp_AlgorithmID = sec_AlgorithmID security,
            hp_Algorithm = ''SHA-256'',
            hp_DigestSizeBytes = 32,
            hp_CatalogOffset = insp_CatalogOffset inspection,
            hp_CatalogLength = catalogLength,
            hp_CatalogSHA256 = catalogDigest,
            hp_HashTableOffset = insp_HashTableOffset inspection,
            hp_HashTableLength = hashTableLength,
            hp_HashTableSHA256 = hashTableDigest,
            hp_HashEntryCount = hashEntryCount,
            hp_HashTableShapeValidated = True,
            hp_CatalogAuthenticationAttempted = False,
            hp_HashTableCatalogAuthenticated = False,
            hp_ContentVerificationAttempted = False,
            hp_ContentMatchesHashTable = False,
            hp_PlanSHA256 = [],
            hp_Limitations = hashPlanLimitations \<rparr>
      in Inr (inspection, plan\<lparr>hp_PlanSHA256 := hashTablePlanDigest plan\<rparr>, t3))))))))"

section \<open>Content verification\<close>

definition writeContentUint64 :: "u64 \<Rightarrow> bytes" where
  "writeContentUint64 v = put_u64 v"

definition writeContentString :: "string \<Rightarrow> bytes" where
  "writeContentString v = writeContentUint64 (of_nat (length v)) @ string_bytes v"

definition writeContentBool :: "bool \<Rightarrow> bytes" where
  "writeContentBool v = (if v then writeContentUint64 1 else writeContentUint64 0)"

definition contentVerificationDigest :: "ContentVerification \<Rightarrow> string" where
  "contentVerificationDigest v = sha256_hex (
     writeContentUint64 (of_nat (cv_Schema v)) @ writeContentUint64 (cv_SourceFileSize v)
     @ writeContentUint64 (u64_of (cv_AlgorithmID v)) @ writeContentString (cv_Algorithm v)
     @ writeContentUint64 (u64_of (cv_DigestSizeBytes v))
     @ writeContentUint64 (cv_HashTableOffset v) @ writeContentUint64 (cv_HashTableLength v)
     @ writeContentString (cv_HashTableSHA256 v) @ writeContentUint64 (cv_HashEntryCount v)
     @ writeContentUint64 (cv_CoverageOffset v) @ writeContentUint64 (cv_CoverageLength v)
     @ writeContentUint64 (cv_CoverageEnd v) @ writeContentUint64 (cv_ChunkSizeBytes v)
     @ writeContentUint64 (cv_ExpectedChunkCount v) @ writeContentUint64 (cv_VerifiedChunkCount v)
     @ writeContentUint64 (cv_FinalChunkDataBytes v)
     @ writeContentUint64 (cv_FinalChunkZeroPaddingBytes v)
     @ writeContentBool (cv_ContentVerificationAttempted v)
     @ writeContentBool (cv_ContentMatchesHashTable v)
     @ writeContentBool (cv_MismatchPresent v)
     @ writeContentUint64 (cv_MismatchEntryIndex v) @ writeContentUint64 (cv_MismatchSourceOffset v)
     @ writeContentString (cv_MismatchExpectedSHA256 v)
     @ writeContentString (cv_MismatchActualSHA256 v)
     @ writeContentBool (cv_HashTableCatalogAuthenticated v)
     @ writeContentBool (cv_IntegrityAuthenticated v))"

text \<open>
  A failure may return the partial verification beside its error; \<open>None\<close> where the code
  returns the zero value.
\<close>

type_synonym 'a verify_res = "(go_error \<times> ContentVerification option) + 'a"

definition sign_verification :: "ContentVerification \<Rightarrow> ContentVerification" where
  "sign_verification v = v\<lparr>cv_VerificationSHA256 := contentVerificationDigest v\<rparr>"

text \<open>The loop over the chunks still to compare.\<close>

fun verify_chunks ::
  "ctx_poll \<Rightarrow> source \<Rightarrow> u64 \<Rightarrow> u64 \<Rightarrow> u64 \<Rightarrow> u64 \<Rightarrow> nat list \<Rightarrow> nat \<Rightarrow> ContentVerification
     \<Rightarrow> (ContentVerification \<times> nat) verify_res" where
  "verify_chunks ctx src fsize coverageOffset chunkSize tableOffset [] t v = Inr (v, t)"
| "verify_chunks ctx src fsize coverageOffset chunkSize tableOffset (index # rest) t v =
     (case ctx t of Some e \<Rightarrow> Inl (e, Some (sign_verification v)) | None \<Rightarrow>
     (case checkedMul (of_nat index) chunkSize of
       Inl _ \<Rightarrow> Inl (Msg ''FFU content chunk offset overflows'', Some v)
     | Inr chunkDelta \<Rightarrow>
     (case checkedAdd coverageOffset chunkDelta of
       Inl _ \<Rightarrow> Inl (Msg ''FFU content source offset overflows'', Some v)
     | Inr sourceOffset \<Rightarrow>
     let remaining = fsize - sourceOffset;
         dataLength = (if remaining < chunkSize then remaining else chunkSize) in
     (case hashFFUContentChunk ctx src sourceOffset dataLength chunkSize (t + 1) of
       Inl e \<Rightarrow> Inl (Errorf ''hash FFU content chunk %d at source offset %d: %w''
                       [FN index, FN (unat sourceOffset), FE e], Some (sign_verification v))
     | Inr (actualDigest, t1) \<Rightarrow>
     (case checkedMul (of_nat index) sha256Size of
       Inl _ \<Rightarrow> Inl (Msg ''FFU hash-table entry offset overflows'', Some v)
     | Inr tableDelta \<Rightarrow>
     (case checkedAdd tableOffset tableDelta of
       Inl _ \<Rightarrow> Inl (Msg ''FFU hash-table entry offset overflows'', Some v)
     | Inr entryOffset \<Rightarrow>
     (case readExactFFUAt (src t1) entryOffset 32
             (''hash-table entry '' @ decimal (of_nat index)) of
       Inl e \<Rightarrow> Inl (e, Some (sign_verification v))
     | Inr expectedDigest \<Rightarrow>
         if actualDigest \<noteq> expectedDigest
         then Inl (Errorf ''FFU content chunk %d at source offset %d does not match its hash-table entry''
                     [FN index, FN (unat sourceOffset)],
                   Some (sign_verification (v\<lparr>cv_MismatchPresent := True,
                     cv_MismatchEntryIndex := of_nat index,
                     cv_MismatchSourceOffset := sourceOffset,
                     cv_MismatchExpectedSHA256 := hex_encode expectedDigest,
                     cv_MismatchActualSHA256 := hex_encode actualDigest\<rparr>)))
         else verify_chunks ctx src fsize coverageOffset chunkSize tableOffset rest (t1 + 1)
                (v\<lparr>cv_VerifiedChunkCount := cv_VerifiedChunkCount v + 1\<rparr>))))))))"

definition contentLimitations :: "string list" where
  "contentLimitations =
    [''matching content proves consistency only with the embedded hash table'',
     ''the catalog CMS/PKCS#7 signature and trust chain are not authenticated'',
     ''no target is accepted and no regular-file, loop-device or physical-device executor exists'']"

text \<open>The number of chunks and the data bytes of the last one.\<close>

definition chunk_geometry :: "u64 \<Rightarrow> u64 \<Rightarrow> u64 \<times> u64" where
  "chunk_geometry coverageLength chunkSize =
     (let finalDataBytes = coverageLength mod chunkSize
      in if finalDataBytes \<noteq> 0 then (coverageLength div chunkSize + 1, finalDataBytes)
         else (coverageLength div chunkSize, chunkSize))"

definition new_verification ::
  "Inspection \<Rightarrow> HashTablePlan \<Rightarrow> u64 \<Rightarrow> ContentVerification" where
  "new_verification inspection hashPlan fsize =
     (let coverageOffset = insp_ImageHeaderOffset inspection;
          chunkSize = sec_ChunkSizeBytes (insp_Security inspection);
          coverageLength = fsize - coverageOffset;
          (expectedChunks, finalDataBytes) = chunk_geometry coverageLength chunkSize
      in \<lparr> cv_Schema = 1,
           cv_SourceFileSize = fsize,
           cv_AlgorithmID = sec_AlgorithmID (insp_Security inspection),
           cv_Algorithm = ''SHA-256'',
           cv_DigestSizeBytes = 32,
           cv_HashTableOffset = hp_HashTableOffset hashPlan,
           cv_HashTableLength = hp_HashTableLength hashPlan,
           cv_HashTableSHA256 = hp_HashTableSHA256 hashPlan,
           cv_HashEntryCount = hp_HashEntryCount hashPlan,
           cv_CoverageOffset = coverageOffset,
           cv_CoverageLength = coverageLength,
           cv_CoverageEnd = fsize,
           cv_ChunkSizeBytes = chunkSize,
           cv_ExpectedChunkCount = expectedChunks,
           cv_VerifiedChunkCount = 0,
           cv_FinalChunkDataBytes = finalDataBytes,
           cv_FinalChunkZeroPaddingBytes = chunkSize - finalDataBytes,
           cv_ContentVerificationAttempted = False,
           cv_ContentMatchesHashTable = False,
           cv_MismatchPresent = False,
           cv_MismatchEntryIndex = 0,
           cv_MismatchSourceOffset = 0,
           cv_MismatchExpectedSHA256 = [],
           cv_MismatchActualSHA256 = [],
           cv_HashTableCatalogAuthenticated = hp_HashTableCatalogAuthenticated hashPlan,
           cv_IntegrityAuthenticated = False,
           cv_VerificationSHA256 = [],
           cv_Limitations = contentLimitations \<rparr>)"

definition VerifyHashTableContent ::
  "ctx_poll option \<Rightarrow> source option \<Rightarrow> u64 \<Rightarrow> nat
     \<Rightarrow> (Inspection \<times> HashTablePlan \<times> ContentVerification) verify_res" where
  "VerifyHashTableContent ctx_opt src_opt fsize t =
     (case ctx_opt of
        None \<Rightarrow> Inl (Msg ''FFU content-verification context is nil'', None)
      | Some ctx \<Rightarrow>
     (case PlanHashTable ctx_opt src_opt fsize t of Inl e \<Rightarrow> Inl (e, None)
      | Inr (inspection, hashPlan, t1) \<Rightarrow>
     (case ctx t1 of Some e \<Rightarrow> Inl (e, None) | None \<Rightarrow>
     let coverageOffset = insp_ImageHeaderOffset inspection;
         chunkSize = sec_ChunkSizeBytes (insp_Security inspection);
         src = the src_opt in
     if fsize \<le> coverageOffset
     then Inl (Errorf ''FFU content coverage starts at %d outside source size %d''
                 [FN (unat coverageOffset), FN (unat fsize)], None)
     else if chunkSize = 0
     then Inl (Msg ''FFU content verification has zero chunk size'', None)
     else
     let expectedChunks = fst (chunk_geometry (fsize - coverageOffset) chunkSize) in
     if expectedChunks = 0
     then Inl (Msg ''FFU content coverage contains no chunks'', None)
     else
     let verification = new_verification inspection hashPlan fsize in
     if hp_HashEntryCount hashPlan \<noteq> expectedChunks
     then Inl (Errorf ''FFU hash table has %d entries but source coverage requires exactly %d chunks''
                 [FN (unat (hp_HashEntryCount hashPlan)), FN (unat expectedChunks)],
               Some (sign_verification verification))
     else
     (case verify_chunks ctx src fsize coverageOffset chunkSize (hp_HashTableOffset hashPlan)
             [0 ..< unat expectedChunks] (t1 + 1)
             (verification\<lparr>cv_ContentVerificationAttempted := True\<rparr>) of
       Inl r \<Rightarrow> Inl r
     | Inr (v, t2) \<Rightarrow>
     (case hashFFURegion ctx src (hp_HashTableOffset hashPlan) (hp_HashTableLength hashPlan) t2 of
       Inl e \<Rightarrow> Inl (Errorf ''rehash FFU hash table after content verification: %w'' [FE e],
                     Some (sign_verification v))
     | Inr (finalHashTableDigest, _) \<Rightarrow>
         if finalHashTableDigest \<noteq> hp_HashTableSHA256 hashPlan
         then Inl (Msg ''FFU hash table changed while source content was being verified'',
                   Some (sign_verification v))
         else Inr (inspection, hashPlan, sign_verification
                (v\<lparr>cv_ContentMatchesHashTable := True,
                   cv_IntegrityAuthenticated := cv_HashTableCatalogAuthenticated v\<rparr>)))))))"

section \<open>The verified plan\<close>

definition integrityDescriptorPlanDigest :: "IntegrityDescriptorPlan \<Rightarrow> string" where
  "integrityDescriptorPlanDigest p = sha256_hex (
     writeContentUint64 (of_nat (ip_Schema p)) @ writeContentUint64 (ip_SourceFileSize p)
     @ writeContentString (ip_DescriptorPlanSHA256 p) @ writeContentString (ip_HashTablePlanSHA256 p)
     @ writeContentString (ip_ContentVerificationSHA256 p) @ writeContentString (ip_HashTableSHA256 p)
     @ writeContentUint64 (ip_HashEntryCount p) @ writeContentUint64 (ip_CoverageOffset p)
     @ writeContentUint64 (ip_CoverageLength p) @ writeContentUint64 (ip_CoverageEnd p)
     @ writeContentUint64 (ip_ChunkSizeBytes p) @ writeContentUint64 (ip_VerifiedChunkCount p)
     @ writeContentUint64 (ip_FinalChunkZeroPaddingBytes p)
     @ writeContentBool (ip_ContentVerificationAttempted p)
     @ writeContentBool (ip_ContentMatchesHashTable p)
     @ writeContentBool (ip_HashTableCatalogAuthenticated p)
     @ writeContentBool (ip_IntegrityAuthenticated p)
     @ writeContentBool (ip_TargetSizeBindingRequired p)
     @ writeContentBool (ip_ExecutionSupported p))"

definition integrityPlanLimitations :: "string list" where
  "integrityPlanLimitations =
    [''the descriptor map and source chunks are bound to an unauthenticated embedded hash table'',
     ''publisher authenticity remains false until an explicit catalog trust-root policy succeeds'',
     ''target identity, capacity, end-relative resolution, validation checks, writes, flush and readback are not implemented'']"

definition PlanVerifiedSingleStoreV1 ::
  "ctx_poll option \<Rightarrow> source option \<Rightarrow> u64 \<Rightarrow> nat
     \<Rightarrow> (Inspection \<times> DescriptorPlan \<times> HashTablePlan \<times> ContentVerification
          \<times> IntegrityDescriptorPlan) verify_res" where
  "PlanVerifiedSingleStoreV1 ctx_opt src_opt fsize t =
     (case PlanSingleStoreV1 (map_option (\<lambda>src. src t) src_opt) fsize of
       Inl e \<Rightarrow> Inl (e, None)
     | Inr (descriptorInspection, descriptorPlan) \<Rightarrow>
     (case VerifyHashTableContent ctx_opt src_opt fsize (t + 1) of
       Inl r \<Rightarrow> Inl r
     | Inr (hashInspection, hashPlan, verification) \<Rightarrow>
     if insp_ImageHeaderOffset descriptorInspection \<noteq> insp_ImageHeaderOffset hashInspection
        \<or> dp_SourceFileSize descriptorPlan \<noteq> cv_SourceFileSize verification
        \<or> dp_ChunkSizeBytes descriptorPlan \<noteq> cv_ChunkSizeBytes verification
     then Inl (Msg ''FFU descriptor and content-verification plans disagree on source geometry'',
               Some verification)
     else
     let plan = \<lparr> ip_Schema = 1,
           ip_SourceFileSize = fsize,
           ip_DescriptorPlanSHA256 = dp_PlanSHA256 descriptorPlan,
           ip_HashTablePlanSHA256 = hp_PlanSHA256 hashPlan,
           ip_ContentVerificationSHA256 = cv_VerificationSHA256 verification,
           ip_HashTableSHA256 = cv_HashTableSHA256 verification,
           ip_HashEntryCount = cv_HashEntryCount verification,
           ip_CoverageOffset = cv_CoverageOffset verification,
           ip_CoverageLength = cv_CoverageLength verification,
           ip_CoverageEnd = cv_CoverageEnd verification,
           ip_ChunkSizeBytes = cv_ChunkSizeBytes verification,
           ip_VerifiedChunkCount = cv_VerifiedChunkCount verification,
           ip_FinalChunkZeroPaddingBytes = cv_FinalChunkZeroPaddingBytes verification,
           ip_ContentVerificationAttempted = cv_ContentVerificationAttempted verification,
           ip_ContentMatchesHashTable = cv_ContentMatchesHashTable verification,
           ip_HashTableCatalogAuthenticated = cv_HashTableCatalogAuthenticated verification,
           ip_IntegrityAuthenticated = cv_IntegrityAuthenticated verification,
           ip_TargetSizeBindingRequired = dp_TargetSizeBindingRequired descriptorPlan,
           ip_ExecutionSupported = False,
           ip_PlanSHA256 = [],
           ip_Limitations = integrityPlanLimitations \<rparr>
     in Inr (hashInspection, descriptorPlan, hashPlan, verification,
             plan\<lparr>ip_PlanSHA256 := integrityDescriptorPlanDigest plan\<rparr>)))"

section \<open>Correctness\<close>

text \<open>
  The contract of a stable source: at every tick it delivers the bytes of the same contents,
  with \<open>io.EOF\<close> at most on a read that ends at the end of the contents, as \<open>io.ReaderAt\<close>
  allows.
\<close>

locale source_file =
  fixes src :: source and contents :: bytes
  assumes read_data: "nat off + n \<le> length contents \<Longrightarrow> 0 \<le> off \<Longrightarrow>
      fst (src t off n) = take n (drop (nat off) contents)"
    and read_err: "nat off + n \<le> length contents \<Longrightarrow> 0 \<le> off \<Longrightarrow>
      snd (src t off n) = None \<or> snd (src t off n) = Some EOF \<and> nat off + n = length contents"
begin

lemma copy_prefix:
  assumes "ctx_copy ctx src buf off rem t = (d, e, t')" "0 \<le> off" "nat off + rem \<le> length contents"
  shows "length d \<le> rem \<and> d = take (length d) (drop (nat off) contents)"
  using assms
proof (induction rem arbitrary: off t d e t' rule: less_induct)
  case (less rem)
  show ?case
  proof (cases "ctx t \<noteq> None \<or> rem = 0")
    case True
    then show ?thesis using less.prems(1)
      unfolding ctx_copy.simps [of ctx src buf off rem t] by (auto split: option.splits if_splits)
  next
    case False
    obtain x y where r: "src (t + 1) off (min buf rem) = (x, y)" by fastforce
    have x: "x = take (min buf rem) (drop (nat off) contents)"
      using read_data [of off "min buf rem" "t + 1"] r less.prems by auto
    then have lx: "length x = min buf rem" using less.prems by simp
    show ?thesis
    proof (cases "y = None \<and> ctx (t + 2) = None \<and> x \<noteq> []")
      case stop: False
      then have "d = x \<or> d = []"
        using less.prems(1) False
        unfolding ctx_copy.simps [of ctx src buf off rem t] r
        by (auto simp del: One_nat_def add_2_eq_Suc' split: if_splits option.splits)
      then show ?thesis using x lx by auto
    next
      case go: True
      obtain ds e2 t2 where c: "ctx_copy ctx src buf (off + int (length x)) (rem - length x) (t + 3)
          = (ds, e2, t2)" by (metis prod_cases3)
      have d: "d = x @ ds"
        using less.prems(1) False go
        unfolding ctx_copy.simps [of ctx src buf off rem t] r
        by (simp add: c)
      have "length ds \<le> rem - length x
          \<and> ds = take (length ds) (drop (nat (off + int (length x))) contents)"
      proof (rule less.IH [OF _ c])
        have "0 < length x" using go by simp
        then show "rem - length x < rem" using False by linarith
        show "nat (off + int (length x)) + (rem - length x) \<le> length contents"
          using less.prems lx by (simp add: nat_add_distrib)
      qed (use less.prems in simp)
      moreover have "nat (off + int (length x)) = nat off + length x"
        using less.prems(2) by (simp add: nat_add_distrib)
      moreover have "x = take (length x) (drop (nat off) contents)" using x lx by simp
      moreover have "length x \<le> rem" using lx by simp
      ultimately show ?thesis
        unfolding d using take_drop_split [of "length x" "length x + length ds" "nat off" contents]
        by (metis add_diff_cancel_left' le_add1 le_diff_conv2 length_append add.commute)
    qed
  qed
qed

lemma copy_all:
  assumes "\<And>t. ctx t = None" "0 < buf" "0 \<le> off" "nat off + rem \<le> length contents"
  shows "\<exists>t'. ctx_copy ctx src buf off rem t = (take rem (drop (nat off) contents), None, t')"
  using assms(3,4)
proof (induction rem arbitrary: off t rule: less_induct)
  case (less rem)
  show ?case
  proof (cases "rem = 0")
    case True
    then show ?thesis unfolding ctx_copy.simps [of ctx src buf off rem t] by (simp add: assms(1))
  next
    case False
    obtain x y where r: "src (t + 1) off (min buf rem) = (x, y)" by fastforce
    have x: "x = take (min buf rem) (drop (nat off) contents)"
      using read_data [of off "min buf rem" "t + 1"] r less.prems by auto
    then have lx: "length x = min buf rem" using less.prems by simp
    have y: "y = None \<or> y = Some EOF \<and> nat off + min buf rem = length contents"
      using read_err [of off "min buf rem" "t + 1"] r less.prems by auto
    show ?thesis
    proof (cases y)
      case None
      obtain t2 where c: "ctx_copy ctx src buf (off + int (length x)) (rem - length x) (t + 3)
          = (take (rem - length x) (drop (nat (off + int (length x))) contents), None, t2)"
        using less.IH [of "rem - length x" "off + int (length x)" "t + 3"] less.prems lx False assms(2)
        by (auto simp: nat_add_distrib)
      have "x \<noteq> []" using lx False assms(2) by auto
      moreover have "x @ take (rem - length x) (drop (nat (off + int (length x))) contents)
          = take rem (drop (nat off) contents)"
        using less.prems(1) lx x take_drop_split [of "length x" rem "nat off" contents]
        by (simp add: nat_add_distrib)
      ultimately show ?thesis
        unfolding ctx_copy.simps [of ctx src buf off rem t] r None using c
        by (simp add: assms(1) False)
    next
      case (Some err)
      then have "err = EOF" "min buf rem = rem" using y less.prems by auto
      then show ?thesis
        unfolding ctx_copy.simps [of ctx src buf off rem t] r Some
        by (simp add: assms(1) False eof_none_def x)
    qed
  qed
qed
end

lemma pad_zeros_Inr: "pad_zeros ctx n t = Inr (zs, t') \<Longrightarrow> zs = replicate n 0"
proof (induction ctx n t arbitrary: zs t' rule: pad_zeros.induct)
  case (1 ctx n t)
  show ?case
  proof (cases "n = 0")
    case False
    let ?w = "min ffuHashReadBufferBytes n"
    from 1(2) False have c: "ctx t = None"
      unfolding pad_zeros.simps [of ctx n t] by (auto split: option.splits)
    with 1(2) False obtain y where y: "pad_zeros ctx (n - ?w) (t + 1) = Inr (y, t')" "zs = replicate ?w 0 @ y"
      unfolding pad_zeros.simps [of ctx n t] by (auto simp: Let_def result_simps)
    from 1(1) [OF False c refl y(1)] y(2) show ?thesis by (simp add: replicate_add [symmetric])
  qed (use 1(2) in \<open>simp add: pad_zeros.simps [of ctx 0]\<close>)
qed

lemma pad_zeros_ok: "(\<forall>t. ctx t = None) \<Longrightarrow> \<exists>t'. pad_zeros ctx n t = Inr (replicate n 0, t')"
proof (induction ctx n t rule: pad_zeros.induct)
  case (1 ctx n t)
  show ?case
  proof (cases "n = 0")
    case False
    let ?w = "min ffuHashReadBufferBytes n"
    have c: "ctx t = None" using 1(2) by blast
    from 1(1) [OF False c refl 1(2)] obtain t' where
      "pad_zeros ctx (n - ?w) (t + 1) = Inr (replicate (n - ?w) 0, t')" by blast
    then show ?thesis using False c unfolding pad_zeros.simps [of ctx n t]
      by (simp add: Let_def replicate_add [symmetric])
  qed (simp add: pad_zeros.simps [of ctx 0])
qed

definition chunk_bytes :: "bytes \<Rightarrow> nat \<Rightarrow> nat \<Rightarrow> nat \<Rightarrow> bytes" where
  "chunk_bytes contents off chunk k =
     (let d = take chunk (drop (off + k * chunk) contents) in d @ replicate (chunk - length d) 0)"

definition table_entry :: "bytes \<Rightarrow> nat \<Rightarrow> nat \<Rightarrow> bytes" where
  "table_entry contents off k = take 32 (drop (off + 32 * k) contents)"

definition chunk_matches :: "bytes \<Rightarrow> nat \<Rightarrow> nat \<Rightarrow> nat \<Rightarrow> nat \<Rightarrow> bool" where
  "chunk_matches contents off chunk table k \<longleftrightarrow>
     sha256 (chunk_bytes contents off chunk k) = table_entry contents table k"

text \<open>What the code returns for the first chunk that differs.\<close>

definition mismatch_of ::
  "bytes \<Rightarrow> u64 \<Rightarrow> u64 \<Rightarrow> u64 \<Rightarrow> nat \<Rightarrow> ContentVerification \<Rightarrow> go_error \<times> ContentVerification option" where
  "mismatch_of contents off chunk table k v =
     (Errorf ''FFU content chunk %d at source offset %d does not match its hash-table entry''
        [FN k, FN (unat off + k * unat chunk)],
      Some (sign_verification
        (v\<lparr>cv_MismatchPresent := True, cv_MismatchEntryIndex := of_nat k,
           cv_MismatchSourceOffset := off + of_nat k * chunk,
           cv_MismatchExpectedSHA256 := hex_encode (table_entry contents (unat table) k),
           cv_MismatchActualSHA256 := hex_encode (sha256 (chunk_bytes contents (unat off) (unat chunk) k))\<rparr>)))"

context source_file
begin

lemma chunk_digest_Inr:
  assumes h: "hashFFUContentChunk ctx src so dl chunk t = Inr (dg, t')"
    and len: "length contents < 2 ^ 63" "unat so + unat dl \<le> length contents"
    and so: "unat so = off + k * unat chunk"
    and dl: "unat dl = min (unat chunk) (length contents - unat so)"
  shows "dg = sha256 (chunk_bytes contents off (unat chunk) k)"
proof -
  have si: "sint so = int (unat so)" using len by (intro sint_small) simp
  obtain d t1 zs t2 where c: "ctx_copy ctx src ffuHashReadBufferBytes (sint so) (unat dl) t = (d, None, t1)"
    and ld: "length d = unat dl" and z: "pad_zeros ctx (unat (chunk - dl)) t1 = Inr (zs, t2)"
    and dg: "dg = sha256 (d @ zs)" and le: "dl \<le> chunk"
    using h by (auto simp: hashFFUContentChunk_def result_simps not_less split: prod.splits option.splits if_splits)
  have "d = take (unat dl) (drop (unat so) contents)"
    using copy_prefix [OF c] len ld by (simp add: si)
  also have "\<dots> = take (unat chunk) (drop (unat so) contents)"
    using dl by (metis length_drop min.commute take_all_iff min.cobounded1 nle_le take_take)
  finally have "d = take (unat chunk) (drop (unat so) contents)" .
  moreover have "zs = replicate (unat chunk - length d) 0"
    using pad_zeros_Inr [OF z] le ld by (simp add: unat_minus_64)
  ultimately show ?thesis by (simp add: dg chunk_bytes_def so Let_def)
qed

lemma chunk_digest_ok:
  assumes nc: "\<forall>t. ctx t = None"
    and len: "length contents < 2 ^ 63" "unat so + unat dl \<le> length contents"
    and so: "unat so = off + k * unat chunk"
    and dl: "unat dl = min (unat chunk) (length contents - unat so)" "dl \<noteq> 0"
  shows "\<exists>t'. hashFFUContentChunk ctx src so dl chunk t
     = Inr (sha256 (chunk_bytes contents off (unat chunk) k), t')"
proof -
  have si: "sint so = int (unat so)" using len by (intro sint_small) simp
  have "0 < ffuHashReadBufferBytes" by (simp add: ffuHashReadBufferBytes_def)
  then obtain t1 where c: "ctx_copy ctx src ffuHashReadBufferBytes (sint so) (unat dl) t
      = (take (unat dl) (drop (unat so) contents), None, t1)"
    using copy_all [of ctx ffuHashReadBufferBytes "sint so" "unat dl" t] nc len by (auto simp: si)
  obtain t2 zs where "pad_zeros ctx (unat (chunk - dl)) t1 = Inr (zs, t2)"
    using pad_zeros_ok [OF nc, of "unat (chunk - dl)" t1] by auto
  moreover have "dl \<le> chunk" using dl by (simp add: word_le_unat)
  ultimately have "\<exists>dg t'. hashFFUContentChunk ctx src so dl chunk t = Inr (dg, t')"
    using c dl len by (simp add: hashFFUContentChunk_def not_less)
  then show ?thesis using chunk_digest_Inr [OF _ len so dl(1)] by blast
qed

lemma entry_read:
  assumes "length contents < 2 ^ 63" "unat eo + 32 \<le> length contents"
  shows "readExactFFUAt (src t) eo 32 label = Inr (take 32 (drop (unat eo) contents))"
proof -
  have si: "sint eo = int (unat eo)" using assms by (intro sint_small) simp
  obtain d e where r: "src t (sint eo) 32 = (d, e)" by fastforce
  from read_data [of "sint eo" 32 t] read_err [of "sint eo" 32 t] assms r si
  show ?thesis by (auto simp: readExactFFUAt_def)
qed

text \<open>The geometry under which the loop over the chunks is total.\<close>

definition loop_geometry :: "u64 \<Rightarrow> u64 \<Rightarrow> u64 \<Rightarrow> u64 \<Rightarrow> nat \<Rightarrow> bool" where
  "loop_geometry fsize off chunk table n \<longleftrightarrow>
     length contents = unat fsize \<and> unat fsize < 2 ^ 63 \<and> chunk \<noteq> 0
     \<and> (\<forall>k<n. unat off + k * unat chunk < unat fsize) \<and> unat table + 32 * n \<le> unat fsize"

lemma chunk_step:
  assumes g: "loop_geometry fsize off chunk table n" and k: "k < n"
  obtains so where "checkedMul (of_nat k) chunk = Inr (of_nat k * chunk)"
    "checkedAdd off (of_nat k * chunk) = Inr so" "unat so = unat off + k * unat chunk"
    "unat so < unat fsize"
    "unat (if fsize - so < chunk then fsize - so else chunk) = min (unat chunk) (unat fsize - unat so)"
    "checkedMul (of_nat k) sha256Size = Inr (of_nat k * 32)"
    "checkedAdd table (of_nat k * 32) = Inr (table + of_nat k * 32)"
    "unat (table + of_nat k * 32) = unat table + 32 * k"
proof -
  have lt: "unat off + k * unat chunk < unat fsize" "unat fsize < 2 ^ 63"
    and tb: "unat table + 32 * n \<le> unat fsize" and c: "0 < unat chunk"
    using g k by (auto simp: loop_geometry_def unat_gt_0)
  have "k * 1 \<le> k * unat chunk" using c by (intro mult_le_mono2) simp
  then have "k \<le> k * unat chunk" by (simp only: mult_1_right)
  moreover define x where "x = k * unat chunk"
  ultimately have "k \<le> x" by simp
  then have k64: "k < 2 ^ 64" using lt unfolding x_def [symmetric] by simp
  have uk: "unat (of_nat k :: u64) = k" using k64 by (simp add: unat_of_nat_64)
  have m: "checkedMul (of_nat k) chunk = Inr (of_nat k * chunk)"
    using lt by (simp add: checkedMul_Inr uk)
  have um: "unat (of_nat k * chunk) = k * unat chunk"
    using checkedMul_unat [OF m] by (simp add: uk)
  define so where "so = off + of_nat k * chunk"
  have a: "checkedAdd off (of_nat k * chunk) = Inr so"
    using lt by (simp add: checkedAdd_Inr um so_def)
  have uso: "unat so = unat off + k * unat chunk"
    using checkedAdd_unat [OF a] by (simp add: um)
  have m2: "checkedMul (of_nat k) sha256Size = Inr (of_nat k * 32)"
    using tb k lt by (simp add: checkedMul_Inr uk sha256Size_def)
  have um2: "unat (of_nat k * 32 :: u64) = k * 32"
    using checkedMul_unat [OF m2] by (simp add: uk sha256Size_def)
  have a2: "checkedAdd table (of_nat k * 32) = Inr (table + of_nat k * 32)"
    using tb k lt by (simp add: checkedAdd_Inr um2)
  have rem: "unat (fsize - so) = unat fsize - unat so"
    using lt uso by (intro unat_minus_64) (simp add: word_le_unat)
  have dl: "unat (if fsize - so < chunk then fsize - so else chunk) = min (unat chunk) (unat fsize - unat so)"
    using rem by (auto simp: word_less_unat)
  show ?thesis
    using that [OF m a uso _ dl m2 a2] lt uso checkedAdd_unat [OF a2] um2 by simp
qed

lemma verify_chunks_Inr:
  assumes "loop_geometry fsize off chunk table n"
    and "verify_chunks ctx src fsize off chunk table ks t v = Inr (v', t')" and "\<forall>k \<in> set ks. k < n"
  shows "(\<forall>k \<in> set ks. chunk_matches contents (unat off) (unat chunk) (unat table) k)
    \<and> v' = v\<lparr>cv_VerifiedChunkCount := cv_VerifiedChunkCount v + of_nat (length ks)\<rparr>"
  using assms(2,3)
proof (induction ks arbitrary: t v)
  case Nil
  then show ?case by simp
next
  case (Cons k ks)
  have g: "length contents = unat fsize" "unat fsize < 2 ^ 63" "unat table + 32 * n \<le> unat fsize"
    using assms(1) by (auto simp: loop_geometry_def)
  from Cons.prems(2) have "k < n" by simp
  from chunk_step [OF assms(1) this] obtain so where s:
    "checkedMul (of_nat k) chunk = Inr (of_nat k * chunk)"
    "checkedAdd off (of_nat k * chunk) = Inr so" "unat so = unat off + k * unat chunk"
    "unat so < unat fsize"
    "unat (if fsize - so < chunk then fsize - so else chunk) = min (unat chunk) (unat fsize - unat so)"
    "checkedMul (of_nat k) sha256Size = Inr (of_nat k * 32)"
    "checkedAdd table (of_nat k * 32) = Inr (table + of_nat k * 32)"
    "unat (table + of_nat k * 32) = unat table + 32 * k" by metis
  have er: "readExactFFUAt (src t) (table + of_nat k * 32) 32 l = Inr (table_entry contents (unat table) k)" for t l
    using entry_read [of "table + of_nat k * 32" t l] s g \<open>k < n\<close> by (simp add: table_entry_def)
  let ?dl = "if fsize - so < chunk then fsize - so else chunk"
  from Cons.prems(1) have c: "ctx t = None" by (auto split: option.splits)
  obtain dg t1 where h: "hashFFUContentChunk ctx src so ?dl chunk (t + 1) = Inr (dg, t1)"
    using Cons.prems(1) by (auto simp: c s Let_def split: sum.splits)
  have dg: "dg = sha256 (chunk_bytes contents (unat off) (unat chunk) k)"
    using chunk_digest_Inr [OF h _ _ s(3)] s g by simp
  have m: "dg = table_entry contents (unat table) k"
   and r: "verify_chunks ctx src fsize off chunk table ks (t1 + 1)
         (v\<lparr>cv_VerifiedChunkCount := cv_VerifiedChunkCount v + 1\<rparr>) = Inr (v', t')"
    using Cons.prems(1) h by (auto simp: c s Let_def er split: if_splits)
  from Cons.IH [OF r] Cons.prems(2) m dg show ?case by (simp add: chunk_matches_def ac_simps)
qed


lemma verify_chunks_step:
  assumes nc: "\<forall>t. ctx t = None" and lg: "loop_geometry fsize off chunk table n" and kn: "k < n"
  shows "\<exists>t'. verify_chunks ctx src fsize off chunk table (k # ks) t v =
    (if chunk_matches contents (unat off) (unat chunk) (unat table) k
     then verify_chunks ctx src fsize off chunk table ks t'
            (v\<lparr>cv_VerifiedChunkCount := cv_VerifiedChunkCount v + 1\<rparr>)
     else Inl (mismatch_of contents off chunk table k v))"
proof -
  have g: "length contents = unat fsize" "unat fsize < 2 ^ 63" "unat table + 32 * n \<le> unat fsize" "chunk \<noteq> 0"
    using lg by (auto simp: loop_geometry_def)
  from chunk_step [OF lg kn] obtain so where s:
    "checkedMul (of_nat k) chunk = Inr (of_nat k * chunk)"
    "checkedAdd off (of_nat k * chunk) = Inr so" "unat so = unat off + k * unat chunk"
    "unat so < unat fsize"
    "unat (if fsize - so < chunk then fsize - so else chunk) = min (unat chunk) (unat fsize - unat so)"
    "checkedMul (of_nat k) sha256Size = Inr (of_nat k * 32)"
    "checkedAdd table (of_nat k * 32) = Inr (table + of_nat k * 32)"
    "unat (table + of_nat k * 32) = unat table + 32 * k" by metis
  have er: "readExactFFUAt (src t) (table + of_nat k * 32) 32 l = Inr (table_entry contents (unat table) k)" for t l
    using entry_read [of "table + of_nat k * 32" t l] s g kn by (simp add: table_entry_def)
  define dl where "dl = (if fsize - so < chunk then fsize - so else chunk)"
  have "0 < unat dl" using s g by (simp add: dl_def unat_gt_0)
  then have "dl \<noteq> 0" by (simp add: unat_gt_0)
  moreover have "unat so + unat dl \<le> length contents" using s(4,5) g(1) by (simp add: dl_def)
  ultimately obtain t1 where h: "hashFFUContentChunk ctx src so dl chunk (t + 1)
      = Inr (sha256 (chunk_bytes contents (unat off) (unat chunk) k), t1)"
    using chunk_digest_ok [OF nc _ _ s(3), of dl "t + 1"] s(5) g(1,2) by (auto simp: dl_def)
  have so: "so = off + of_nat k * chunk" using s(2) by (simp add: checkedAdd_Inr)
  have c: "ctx t = None" using nc by blast
  show ?thesis
    using h er s(3)
    by (intro exI [of _ "t1 + 1"])
      (simp add: c s(1,2,6,7) Let_def dl_def [symmetric] chunk_matches_def mismatch_of_def so [symmetric])
qed

lemma verify_chunks_all:
  assumes nc: "\<forall>t. ctx t = None" and lg: "loop_geometry fsize off chunk table n" and "a \<le> m" "m \<le> n"
    and "\<forall>k \<in> {a ..< m}. chunk_matches contents (unat off) (unat chunk) (unat table) k"
  shows "\<exists>t'. verify_chunks ctx src fsize off chunk table ([a ..< m] @ ks) t v =
     verify_chunks ctx src fsize off chunk table ks t'
       (v\<lparr>cv_VerifiedChunkCount := cv_VerifiedChunkCount v + of_nat (m - a)\<rparr>)"
  using assms(3,5)
proof (induction "m - a" arbitrary: a t v)
  case 0
  then show ?case by (intro exI [of _ t]) simp
next
  case (Suc d)
  then have a: "[a ..< m] = a # [Suc a ..< m]" "a < m" by (simp_all add: upt_conv_Cons)
  then have "a < n" using assms(4) by simp
  from verify_chunks_step [OF nc lg this] a Suc.prems obtain t1 where
    "verify_chunks ctx src fsize off chunk table ([a ..< m] @ ks) t v =
       verify_chunks ctx src fsize off chunk table ([Suc a ..< m] @ ks) t1
            (v\<lparr>cv_VerifiedChunkCount := cv_VerifiedChunkCount v + 1\<rparr>)"
    by (metis append_Cons atLeastLessThan_iff order.refl)
  moreover have "\<exists>t2. verify_chunks ctx src fsize off chunk table ([Suc a ..< m] @ ks) t1
            (v\<lparr>cv_VerifiedChunkCount := cv_VerifiedChunkCount v + 1\<rparr>) =
        verify_chunks ctx src fsize off chunk table ks t2
          (v\<lparr>cv_VerifiedChunkCount := cv_VerifiedChunkCount v + of_nat (m - a)\<rparr>)"
  proof -
    have "(1 :: u64) + of_nat (m - Suc a) = of_nat (m - a)"
      using a(2) by (metis Suc_diff_Suc of_nat_Suc add.commute)
    then show ?thesis
      using Suc.hyps(1) [of "Suc a" t1 "v\<lparr>cv_VerifiedChunkCount := cv_VerifiedChunkCount v + 1\<rparr>"]
        Suc.hyps(2) Suc.prems a(2) by (simp add: add.assoc)
  qed
  ultimately show ?case by simp
qed
end

lemma chunk_geometry_unat:
  assumes "chunk_geometry cl chunk = (n, f)" and "chunk \<noteq> 0" "cl \<noteq> 0"
  shows "unat cl = (unat n - 1) * unat chunk + unat f" "0 < unat n"
    "0 < unat f" "unat f \<le> unat chunk"
proof -
  have c: "0 < unat chunk" "0 < unat cl" using assms by (simp_all add: unat_gt_0)
  have z: "cl mod chunk = 0 \<longleftrightarrow> unat cl mod unat chunk = 0"
    by (metis unat_eq_zero unat_mod_64)
  have "unat cl = (unat n - 1) * unat chunk + unat f \<and> 0 < unat n \<and> 0 < unat f \<and> unat f \<le> unat chunk"
  proof (cases "cl mod chunk = 0")
    case True
    then have e: "n = cl div chunk" "f = chunk" using assms(1) by (auto simp: chunk_geometry_def Let_def)
    have q: "unat n = unat cl div unat chunk" by (simp add: e unat_div_64)
    have m: "unat cl = unat n * unat chunk"
      using True by (metis z q dvd_div_mult_self mod_0_imp_dvd)
    then have n: "0 < unat n" using c by (cases "unat n") auto
    then obtain k where k: "unat n = Suc k" by (cases "unat n") auto
    from m have "unat cl = k * unat chunk + unat f" unfolding k e(2) by simp
    then show ?thesis using n c unfolding k e(2) by auto
  next
    case False
    then have e: "n = cl div chunk + 1" "f = cl mod chunk" using assms(1) by (auto simp: chunk_geometry_def Let_def)
    have "unat chunk \<noteq> 1" using False z by auto
    then have "2 \<le> unat chunk" using c by linarith
    then have "unat cl div unat chunk \<le> unat cl div 2" by (rule div_le_mono2 [rotated]) simp
    then have "unat (cl div chunk) + unat (1 :: u64) < 2 ^ 64"
      using unat_lt_64 [of cl] by (simp add: unat_div_64)
    then have q: "unat n = unat cl div unat chunk + 1"
      using unat_plus_64 [of "cl div chunk" 1] by (simp add: e unat_div_64)
    have "0 < unat cl mod unat chunk" using False z by simp
    then show ?thesis using q c by (simp add: e unat_mod_64 less_imp_le)
  qed
  then show "unat cl = (unat n - 1) * unat chunk + unat f" "0 < unat n"
    "0 < unat f" "unat f \<le> unat chunk" by auto
qed

context source_file
begin

lemma hash_region_Inr:
  assumes "hashFFURegion ctx src off len t = Inr (h, t')"
    and "unat off + unat len \<le> length contents" "length contents < 2 ^ 63"
  shows "h = sha256_hex (slice contents (unat off) (unat off + unat len))"
proof -
  have si: "sint off = int (unat off)" using assms by (intro sint_small) simp
  obtain d where c: "ctx_copy ctx src ffuHashReadBufferBytes (sint off) (unat len) t = (d, None, t')"
    and d: "length d = unat len" "h = sha256_hex d"
    using assms(1) by (auto simp: hashFFURegion_def split: prod.splits option.splits if_splits)
  from copy_prefix [OF c] assms d show ?thesis by (simp add: si slice_def)
qed

lemma hash_region_ok:
  assumes "\<forall>t. ctx t = None"
    and "unat off + unat len \<le> length contents" "length contents < 2 ^ 63"
  shows "\<exists>t'. hashFFURegion ctx src off len t
    = Inr (sha256_hex (slice contents (unat off) (unat off + unat len)), t')"
proof -
  have si: "sint off = int (unat off)" using assms by (intro sint_small) simp
  have "0 < ffuHashReadBufferBytes" by (simp add: ffuHashReadBufferBytes_def)
  then show ?thesis
    using copy_all [of ctx ffuHashReadBufferBytes "sint off" "unat len" t] assms
    by (auto simp: si hashFFURegion_def slice_def)
qed

end

lemma PlanHashTable_Inr:
  assumes "PlanHashTable (Some ctx) (Some src) fsize t = Inr (i, hp, t')"
  shows "inspection_sound fsize i"
    and "hp_HashTableOffset hp = insp_HashTableOffset i"
    and "unat (hp_HashTableLength hp) = unat (sec_HashTableSize (insp_Security i))"
    and "32 * unat (hp_HashEntryCount hp) = unat (sec_HashTableSize (insp_Security i))"
    and "\<not> hp_HashTableCatalogAuthenticated hp"
    and "hp_PlanSHA256 hp = hashTablePlanDigest hp"
    and "sec_AlgorithmID (insp_Security i) = ffuAlgorithmSHA256"
    and "\<exists>t2 t3. hashFFURegion ctx src (hp_HashTableOffset hp) (hp_HashTableLength hp) t2
           = Inr (hp_HashTableSHA256 hp, t3)"
proof -
  let ?len = "u64_of (sec_HashTableSize (insp_Security i))"
  obtain u where "Inspect (Some (src u)) fsize = Inr i"
    using assms by (auto simp: PlanHashTable_def result_simps Let_def split: option.splits)
  then obtain r where i: "Inspect r fsize = Inr i" by blast
  from assms show "sec_AlgorithmID (insp_Security i) = ffuAlgorithmSHA256"
    and hto: "hp_HashTableOffset hp = insp_HashTableOffset i"
    and "\<not> hp_HashTableCatalogAuthenticated hp"
    by (auto simp: PlanHashTable_def result_simps Let_def split: option.splits)
  from assms have md: "?len mod sha256Size = 0" and ec: "hp_HashEntryCount hp = ?len div sha256Size"
    and hl: "hp_HashTableLength hp = ?len"
    by (auto simp: PlanHashTable_def result_simps Let_def split: option.splits del: mod_0_imp_dvd)
  from md have "unat (?len mod sha256Size) = 0" by simp
  then have "unat ?len mod 32 = 0" "unat (hp_HashEntryCount hp) = unat ?len div 32"
    by (simp_all add: unat_mod_64 ec unat_div_64 sha256Size_def del: unat_eq_zero)
  then show "32 * unat (hp_HashEntryCount hp) = unat (sec_HashTableSize (insp_Security i))"
    by (simp add: mult_div_mod_eq [symmetric] minus_mod_eq_mult_div [symmetric])
  show "unat (hp_HashTableLength hp) = unat (sec_HashTableSize (insp_Security i))" by (simp add: hl)
  show "\<exists>t2 t3. hashFFURegion ctx src (hp_HashTableOffset hp) (hp_HashTableLength hp) t2
           = Inr (hp_HashTableSHA256 hp, t3)"
  proof -
    from assms obtain t2 where
      "hashFFURegion ctx src (insp_HashTableOffset i) ?len t2 = Inr (hp_HashTableSHA256 hp, t')"
      by (auto simp: PlanHashTable_def result_simps Let_def split: option.splits)
    then show ?thesis unfolding hl hto by blast
  qed
  show "hp_PlanSHA256 hp = hashTablePlanDigest hp"
    using assms by (auto simp: PlanHashTable_def result_simps Let_def hashTablePlanDigest_def split: option.splits)
  show "inspection_sound fsize i"
   using i by (rule Inspect_success)
qed

text \<open>What a completed verification of the image \<open>contents\<close> has established.\<close>

definition chunk_count :: "u64 \<Rightarrow> Inspection \<Rightarrow> u64" where
  "chunk_count fsize i =
     fst (chunk_geometry (fsize - insp_ImageHeaderOffset i) (sec_ChunkSizeBytes (insp_Security i)))"

definition image_chunk_matches :: "bytes \<Rightarrow> Inspection \<Rightarrow> nat \<Rightarrow> bool" where
  "image_chunk_matches contents i k =
     chunk_matches contents (unat (insp_ImageHeaderOffset i))
       (unat (sec_ChunkSizeBytes (insp_Security i))) (unat (insp_HashTableOffset i)) k"

definition verification_sound :: "bytes \<Rightarrow> Inspection \<Rightarrow> HashTablePlan \<Rightarrow> ContentVerification \<Rightarrow> bool" where
  "verification_sound contents i hp v \<longleftrightarrow>
     (let off = unat (insp_ImageHeaderOffset i); chunk = unat (sec_ChunkSizeBytes (insp_Security i));
          n = unat (cv_ExpectedChunkCount v)
      in 32 * n = unat (sec_HashTableSize (insp_Security i))
       \<and> off + (n - 1) * chunk < length contents \<and> length contents \<le> off + n * chunk
       \<and> (\<forall>k < n. image_chunk_matches contents i k)
       \<and> cv_HashTableSHA256 v = sha256_hex (slice contents (unat (insp_HashTableOffset i))
            (unat (insp_HashTableOffset i) + 32 * n))
       \<and> cv_VerifiedChunkCount v = cv_ExpectedChunkCount v
       \<and> cv_ContentMatchesHashTable v \<and> \<not> cv_MismatchPresent v
       \<and> \<not> cv_IntegrityAuthenticated v
       \<and> cv_VerificationSHA256 v = contentVerificationDigest v
       \<and> hp_PlanSHA256 hp = hashTablePlanDigest hp)"

context source_file
begin

lemma image_geometry:
  assumes i: "inspection_sound fsize i" and len: "length contents = unat fsize"
    and n: "32 * unat (chunk_count fsize i) = unat (sec_HashTableSize (insp_Security i))"
  shows "insp_ImageHeaderOffset i < fsize" "sec_ChunkSizeBytes (insp_Security i) \<noteq> 0"
    and "loop_geometry fsize (insp_ImageHeaderOffset i) (sec_ChunkSizeBytes (insp_Security i))
           (insp_HashTableOffset i) (unat (chunk_count fsize i))"
    and "unat (insp_ImageHeaderOffset i)
           + (unat (chunk_count fsize i) - 1) * unat (sec_ChunkSizeBytes (insp_Security i)) < unat fsize"
    and "unat fsize \<le> unat (insp_ImageHeaderOffset i)
           + unat (chunk_count fsize i) * unat (sec_ChunkSizeBytes (insp_Security i))"
    and "0 < unat (chunk_count fsize i)"
proof -
  let ?off = "insp_ImageHeaderOffset i" and ?c = "sec_ChunkSizeBytes (insp_Security i)"
  show lt: "?off < fsize" and c: "?c \<noteq> 0"
    using i by (auto simp: inspection_sound_def Let_def word_less_unat unat_gt_0)
  obtain m f where g: "chunk_geometry (fsize - ?off) ?c = (m, f)" by fastforce
  have "fsize - ?off \<noteq> 0" using lt by auto
  note G = chunk_geometry_unat [OF g c this]
  have m: "chunk_count fsize i = m" by (simp add: chunk_count_def g)
  have d: "unat (fsize - ?off) = unat fsize - unat ?off" using lt by (simp add: unat_minus_64 less_imp_le)
  have lt': "unat ?off < unat fsize" using lt by (simp add: word_less_unat)
  show "unat ?off + (unat (chunk_count fsize i) - 1) * unat ?c < unat fsize"
    using G d lt' by (simp add: m)
  then have "unat ?off + k * unat ?c < unat fsize" if "k < unat m" for k
  proof -
    have "k * unat ?c \<le> (unat m - 1) * unat ?c" using that by (intro mult_le_mono1) simp
    with \<open>unat ?off + (unat (chunk_count fsize i) - 1) * unat ?c < unat fsize\<close> show ?thesis
      unfolding m by linarith
  qed
  then show "loop_geometry fsize ?off ?c (insp_HashTableOffset i) (unat (chunk_count fsize i))"
    using i len c n lt' by (auto simp: loop_geometry_def inspection_sound_def Let_def m)
  obtain q where q: "unat m = Suc q" using G(2) by (cases "unat m") auto
  have "unat fsize \<le> unat ?off + q * unat ?c + unat ?c" using G d lt' by (simp add: q)
  then show "unat fsize \<le> unat ?off + unat (chunk_count fsize i) * unat ?c"
    by (simp add: m q)
  show "0 < unat (chunk_count fsize i)" using G by (simp add: m)
qed

lemma verify_content_sound_src:
  assumes len: "length contents = unat fsize"
    and v: "VerifyHashTableContent (Some ctx) (Some src) fsize t = Inr (i, hp, v)"
  shows "verification_sound contents i hp v"
proof -
  let ?off = "insp_ImageHeaderOffset i" and ?c = "sec_ChunkSizeBytes (insp_Security i)"
    and ?v0 = "(new_verification i hp fsize)\<lparr>cv_ContentVerificationAttempted := True\<rparr>"
  from v obtain t1 t2 t3 v1 where
    hp: "PlanHashTable (Some ctx) (Some src) fsize t = Inr (i, hp, t1)" and
    n: "hp_HashEntryCount hp = chunk_count fsize i" and
    loop: "verify_chunks ctx src fsize ?off ?c (hp_HashTableOffset hp)
       [0 ..< unat (chunk_count fsize i)] (t1 + 1) ?v0 = Inr (v1, t2)" and
    re: "hashFFURegion ctx src (hp_HashTableOffset hp) (hp_HashTableLength hp) t2 = Inr (hp_HashTableSHA256 hp, t3)" and
    ve: "v = sign_verification (v1\<lparr>cv_ContentMatchesHashTable := True,
                   cv_IntegrityAuthenticated := cv_HashTableCatalogAuthenticated v1\<rparr>)"
    unfolding VerifyHashTableContent_def chunk_count_def
    by (auto simp: Let_def split: sum.splits option.splits if_splits)
  note P = PlanHashTable_Inr [OF hp]
  have "32 * unat (chunk_count fsize i) = unat (sec_HashTableSize (insp_Security i))"
    using P(4) n by simp
  note G = image_geometry [OF P(1) len this]
  have L: "\<forall>k < unat (chunk_count fsize i). image_chunk_matches contents i k"
    and v1: "v1 = ?v0\<lparr>cv_VerifiedChunkCount := chunk_count fsize i\<rparr>"
    using verify_chunks_Inr [OF G(3) loop [unfolded P(2)]]
    by (auto simp: image_chunk_matches_def new_verification_def Let_def split: prod.splits)
  have hs: "hp_HashTableSHA256 hp = sha256_hex (slice contents (unat (insp_HashTableOffset i))
      (unat (insp_HashTableOffset i) + 32 * unat (chunk_count fsize i)))"
    using hash_region_Inr [OF re] P(1-4) len n
    by (simp add: inspection_sound_def Let_def)
  have e: "cv_ExpectedChunkCount v = chunk_count fsize i"
    by (simp add: ve v1 sign_verification_def new_verification_def chunk_count_def Let_def split: prod.splits)
  have s: "cv_VerificationSHA256 v = contentVerificationDigest v"
    by (simp add: ve sign_verification_def contentVerificationDigest_def)
  have o: "cv_HashTableSHA256 v = hp_HashTableSHA256 hp" "cv_VerifiedChunkCount v = chunk_count fsize i"
    "cv_ContentMatchesHashTable v" "\<not> cv_MismatchPresent v" "\<not> cv_IntegrityAuthenticated v"
    using P(5) by (simp_all add: ve v1 sign_verification_def new_verification_def Let_def split: prod.splits)
  show ?thesis
    using P(4,6) n G(4,5) len L hs e s o by (simp add: verification_sound_def Let_def)
qed
end

context source_file
begin

text \<open>The result of a verification that is never cancelled, on every branch.\<close>

lemma verify_content_decides_src:
  assumes len: "length contents = unat fsize" and nc: "\<forall>t. ctx t = None"
    and hp: "PlanHashTable (Some ctx) (Some src) fsize t = Inr (i, hp, t1)"
  defines "v0 \<equiv> new_verification i hp fsize"
  shows "VerifyHashTableContent (Some ctx) (Some src) fsize t =
    (if hp_HashEntryCount hp \<noteq> chunk_count fsize i
     then Inl (Errorf ''FFU hash table has %d entries but source coverage requires exactly %d chunks''
                 [FN (unat (hp_HashEntryCount hp)), FN (unat (chunk_count fsize i))],
               Some (sign_verification v0))
     else case find (\<lambda>k. \<not> image_chunk_matches contents i k) [0 ..< unat (chunk_count fsize i)] of
       Some k \<Rightarrow> Inl (mismatch_of contents (insp_ImageHeaderOffset i)
                  (sec_ChunkSizeBytes (insp_Security i)) (insp_HashTableOffset i) k
                  (v0\<lparr>cv_ContentVerificationAttempted := True, cv_VerifiedChunkCount := of_nat k\<rparr>))
     | None \<Rightarrow> Inr (i, hp, sign_verification
                  (v0\<lparr>cv_ContentVerificationAttempted := True,
                      cv_VerifiedChunkCount := chunk_count fsize i,
                      cv_ContentMatchesHashTable := True,
                      cv_IntegrityAuthenticated := False\<rparr>)))"
proof -
  let ?off = "insp_ImageHeaderOffset i" and ?c = "sec_ChunkSizeBytes (insp_Security i)"
  let ?n = "chunk_count fsize i"
  let ?v1 = "v0\<lparr>cv_ContentVerificationAttempted := True\<rparr>"
  note P = PlanHashTable_Inr [OF hp]
  have pos: "?off < fsize" "?c \<noteq> 0" 
    using P(1) by (auto simp: inspection_sound_def Let_def word_less_unat unat_gt_0)
  obtain m f where g: "chunk_geometry (fsize - ?off) ?c = (m, f)" by fastforce
  have "fsize - ?off \<noteq> 0" using pos by auto
  note G0 = chunk_geometry_unat [OF g pos(2) this]
  have le: "\<not> fsize \<le> ?off" using pos by simp
  have n0: "?n \<noteq> 0" using G0(2) by (auto simp: chunk_count_def g)
  have nc1: "ctx u = None" for u using nc by blast
  have z: "cv_VerifiedChunkCount v0 = 0" "cv_HashTableCatalogAuthenticated v0 = False" 
      "cv_IntegrityAuthenticated v0 = False"
    using P(5) by (simp_all add: v0_def new_verification_def Let_def split: prod.splits)
  let ?loop = "verify_chunks ctx src fsize ?off ?c (hp_HashTableOffset hp) [0 ..< unat ?n] (t1 + 1) ?v1"
  have start: "VerifyHashTableContent (Some ctx) (Some src) fsize t =
    (if hp_HashEntryCount hp \<noteq> ?n
     then Inl (Errorf ''FFU hash table has %d entries but source coverage requires exactly %d chunks''
                 [FN (unat (hp_HashEntryCount hp)), FN (unat ?n)], Some (sign_verification v0))
     else (case ?loop of Inl r \<Rightarrow> Inl r
     | Inr (v, t2) \<Rightarrow>
     (case hashFFURegion ctx src (hp_HashTableOffset hp) (hp_HashTableLength hp) t2 of
       Inl e \<Rightarrow> Inl (Errorf ''rehash FFU hash table after content verification: %w'' [FE e],
                     Some (sign_verification v))
     | Inr (finalHashTableDigest, _) \<Rightarrow>
         if finalHashTableDigest \<noteq> hp_HashTableSHA256 hp
         then Inl (Msg ''FFU hash table changed while source content was being verified'',
                   Some (sign_verification v))
         else Inr (i, hp, sign_verification
                (v\<lparr>cv_ContentMatchesHashTable := True,
                   cv_IntegrityAuthenticated := cv_HashTableCatalogAuthenticated v\<rparr>)))))"
    using n0 unfolding VerifyHashTableContent_def chunk_count_def v0_def
    by (simp add: hp nc1 Let_def le pos(2))
  show ?thesis
  proof (cases "hp_HashEntryCount hp = ?n")
    case False
    then show ?thesis by (simp add: start)
  next
    case True
    then have "32 * unat ?n = unat (sec_HashTableSize (insp_Security i))" using P(4) by simp
    note G = image_geometry [OF P(1) len this]
    note all = verify_chunks_all [OF nc G(3), of 0]
    show ?thesis
    proof (cases "find (\<lambda>k. \<not> image_chunk_matches contents i k) [0 ..< unat ?n]")
      case None
      then have "\<forall>k \<in> {0 ..< unat ?n}. chunk_matches contents (unat ?off) (unat ?c) (unat (insp_HashTableOffset i)) k"
        by (auto simp: find_None_iff image_chunk_matches_def)
      from all [OF _ _ this, of "[]" "t1 + 1" ?v1] obtain t2 where
        l: "?loop = Inr (?v1\<lparr>cv_VerifiedChunkCount := ?n\<rparr>, t2)" by (auto simp: P(2) z)
      obtain t3 where "hashFFURegion ctx src (hp_HashTableOffset hp) (hp_HashTableLength hp) t2
         = Inr (hp_HashTableSHA256 hp, t3)"
      proof -
        have b: "unat (hp_HashTableOffset hp) + unat (hp_HashTableLength hp) \<le> length contents"
          "length contents < 2 ^ 63"
          using P(1-3) len by (simp_all add: inspection_sound_def Let_def)
        from P(8) hash_region_Inr [OF _ b] hash_region_ok [OF nc b, of t2] that show ?thesis by metis
      qed
      then show ?thesis using True None l z by (simp add: start)
    next
      case (Some k)
      then have k: "k < unat ?n" "\<not> image_chunk_matches contents i k" "\<forall>j < k. image_chunk_matches contents i j"
        by (auto simp: find_Some_iff)
      then have "\<forall>j \<in> {0 ..< k}. chunk_matches contents (unat ?off) (unat ?c) (unat (insp_HashTableOffset i)) j"
        by (simp add: image_chunk_matches_def)
      from all [OF _ _ this, of "k # [Suc k ..< unat ?n]" "t1 + 1" ?v1] k obtain t2 where
        "verify_chunks ctx src fsize ?off ?c (insp_HashTableOffset i) ([0 ..< k] @ k # [Suc k ..< unat ?n]) (t1 + 1) ?v1
         = verify_chunks ctx src fsize ?off ?c (insp_HashTableOffset i) (k # [Suc k ..< unat ?n]) t2
            (?v1\<lparr>cv_VerifiedChunkCount := of_nat k\<rparr>)" by (auto simp: z)
      moreover have "[0 ..< k] @ k # [Suc k ..< unat ?n] = [0 ..< unat ?n]"
        using k(1) upt_add_eq_append [of 0 k "unat ?n - k"] by (simp add: upt_conv_Cons)
      ultimately have "?loop = Inl (mismatch_of contents ?off ?c (insp_HashTableOffset i) k
          (?v1\<lparr>cv_VerifiedChunkCount := of_nat k\<rparr>))"
        using verify_chunks_step [OF nc G(3) k(1)] k(2) by (simp add: image_chunk_matches_def P(2))
      then show ?thesis using True Some by (simp add: start)
    qed
  qed
qed
end

interpretation stable_file: source_file "\<lambda>_. file_reader contents" contents for contents
  by unfold_locales (auto simp: file_reader_def Let_def)

text \<open>
  C26: when the verification of a stable source succeeds, the table has exactly one entry for
  each chunk from the image header to the end of the file, every chunk (the last one padded
  with zeros) hashes to its entry, the report counts all of them, and it still does not call
  the content authenticated.
\<close>

theorem verify_content_sound:
  assumes "source_file src contents" and "length contents = unat fsize"
    and "VerifyHashTableContent (Some ctx) (Some src) fsize t = Inr (i, hp, v)"
  shows "verification_sound contents i hp v"
  using assms by (rule source_file.verify_content_sound_src)

text \<open>
  On a stable source and without cancellation the verification decides every case: a
  table of the wrong length is refused, the first chunk that differs from its entry is
  reported with both digests and the number of chunks verified before it, and otherwise the
  content is reported as matching.
\<close>

theorem verify_content_decides:
  assumes "source_file src contents" and "length contents = unat fsize" and "\<forall>t. ctx t = None"
    and "PlanHashTable (Some ctx) (Some src) fsize t = Inr (i, hp, t1)"
  shows "VerifyHashTableContent (Some ctx) (Some src) fsize t =
    (if hp_HashEntryCount hp \<noteq> chunk_count fsize i
     then Inl (Errorf ''FFU hash table has %d entries but source coverage requires exactly %d chunks''
                 [FN (unat (hp_HashEntryCount hp)), FN (unat (chunk_count fsize i))],
               Some (sign_verification (new_verification i hp fsize)))
     else case find (\<lambda>k. \<not> image_chunk_matches contents i k) [0 ..< unat (chunk_count fsize i)] of
       Some k \<Rightarrow> Inl (mismatch_of contents (insp_ImageHeaderOffset i)
                  (sec_ChunkSizeBytes (insp_Security i)) (insp_HashTableOffset i) k
                  ((new_verification i hp fsize)\<lparr>cv_ContentVerificationAttempted := True,
                     cv_VerifiedChunkCount := of_nat k\<rparr>))
     | None \<Rightarrow> Inr (i, hp, sign_verification
                  ((new_verification i hp fsize)\<lparr>cv_ContentVerificationAttempted := True,
                      cv_VerifiedChunkCount := chunk_count fsize i,
                      cv_ContentMatchesHashTable := True,
                      cv_IntegrityAuthenticated := False\<rparr>)))"
  using assms by (rule source_file.verify_content_decides_src)

section \<open>A concrete verified image\<close>

text \<open>The image of \<open>FfuPlan\<close> with the table its chunks require.\<close>

definition sample_table :: bytes where
  "sample_table = sha256 (chunk_bytes sample_ffu 1024 1024 0)
     @ sha256 (chunk_bytes sample_ffu 1024 1024 1) @ sha256 (chunk_bytes sample_ffu 1024 1024 2)"

definition sample_signed :: bytes where
  "sample_signed = sample_security @ [0] @ sample_table @ replicate 895 0 @ drop 1024 sample_ffu"

lemma length_sample_ffu: "length sample_ffu = 3584"
  by (simp add: sample_ffu_def sample_lengths)

lemma length_sample_table: "length sample_table = 96"
  by (simp add: sample_table_def)

lemma length_sample_signed: "length sample_signed = 3584"
  by (simp add: sample_signed_def sample_lengths length_sample_ffu length_sample_table)

lemma drop_sample_signed: "1024 \<le> n \<Longrightarrow> drop n sample_signed = drop n sample_ffu"
proof -
  assume "1024 \<le> n"
  then obtain k where n: "n = k + 1024" by (metis le_Suc_ex add.commute)
  have "length (sample_security @ [0] @ sample_table @ replicate 895 0) = 1024"
    by (simp add: sample_lengths length_sample_table)
  then have "drop 1024 sample_signed = drop 1024 sample_ffu"
    unfolding sample_signed_def by (metis append.assoc append_eq_conv_conj)
  then show ?thesis unfolding n by (metis drop_drop)
qed

lemma sample_signed_regions:
  "file_reader sample_signed 0 32 = (sample_security, None)"
  "file_reader sample_signed 1024 24 = (sample_image_header, None)"
  "file_reader sample_signed 2048 248 = (sample_store, None)"
  using sample_regions(2,3)
  by (simp_all add: file_reader_def drop_sample_signed)
    (simp_all add: sample_signed_def sample_lengths)

lemma sample_signed_chunks: "k < 3 \<Longrightarrow> chunk_matches sample_signed 1024 1024 33 k"
proof -
  assume "k < 3"
  then consider "k = 0" | "k = 1" | "k = 2" by linarith
  moreover have "chunk_bytes sample_signed 1024 1024 k = chunk_bytes sample_ffu 1024 1024 k"
    by (simp add: chunk_bytes_def drop_sample_signed)
  moreover have "table_entry sample_signed 33 k = take 32 (drop (32 * k) (sample_table @ replicate 895 0 @ drop 1024 sample_ffu))"
    by (simp add: table_entry_def sample_signed_def sample_lengths)
  ultimately show ?thesis
    by cases (simp_all add: chunk_matches_def sample_table_def)
qed

lemma sample_signed_plan:
  "\<exists>i hp t. PlanHashTable (Some (\<lambda>_. None)) (Some (\<lambda>_. file_reader sample_signed)) 3584 0 = Inr (i, hp, t)
    \<and> hp_HashEntryCount hp = 3
    \<and> insp_ImageHeaderOffset i = 1024 \<and> insp_HashTableOffset i = 33
    \<and> sec_ChunkSizeBytes (insp_Security i) = 1024"
proof -
  from inspect_of_regions [OF sample_signed_regions] obtain i where
    i: "Inspect (Some (file_reader sample_signed)) 3584 = Inr i" "insp_CatalogOffset i = 32"
    "insp_HashTableOffset i = 33" "insp_ImageHeaderOffset i = 1024"
    "insp_Security i = (security_header_of sample_security)\<lparr>sec_ChunkSizeBytes := 1024\<rparr>" by blast
  have "\<forall>t :: nat. (\<lambda>_. None :: go_error option) t = None" by simp
  note h = stable_file.hash_region_ok [OF this, where contents = sample_signed, simplified]
  obtain t1 d1 where h1: "hashFFURegion (\<lambda>_. None) (\<lambda>_. file_reader sample_signed) 32 1 2 = Inr (d1, t1)"
    using h [of 32 1 2] by (auto simp: length_sample_signed)
  obtain t2 d2 where h2: "hashFFURegion (\<lambda>_. None) (\<lambda>_. file_reader sample_signed) 33 96 t1 = Inr (d2, t2)"
    using h [of 33 96 t1] by (auto simp: length_sample_signed)
  show ?thesis
    using h2 by (simp add: h1 [unfolded numeral_2_eq_2] PlanHashTable_def i sample_security_header ffuAlgorithmSHA256_def u64_of_def sha256Size_def
        validateHashMetadataRegion_def checkedAdd_def Let_def)
qed

lemma sample_signed_count:
  "insp_ImageHeaderOffset i = 1024 \<Longrightarrow> sec_ChunkSizeBytes (insp_Security i) = 1024
    \<Longrightarrow> chunk_count 3584 i = 3"
  by (simp add: chunk_count_def chunk_geometry_def Let_def)

theorem verify_content_decides_witness:
  "\<exists>i hp v. VerifyHashTableContent (Some (\<lambda>_. None)) (Some (\<lambda>_. file_reader sample_signed)) 3584 0
     = Inr (i, hp, v) \<and> cv_VerifiedChunkCount v = 3"
proof -
  from sample_signed_plan obtain i hp t where
    p: "PlanHashTable (Some (\<lambda>_. None)) (Some (\<lambda>_. file_reader sample_signed)) 3584 0 = Inr (i, hp, t)"
    and e: "hp_HashEntryCount hp = 3" "insp_ImageHeaderOffset i = 1024" "insp_HashTableOffset i = 33"
      "sec_ChunkSizeBytes (insp_Security i) = 1024" by blast
  have "find (\<lambda>k. \<not> image_chunk_matches sample_signed i k) [0 ..< unat (3 :: u64)] = None"
    by (auto simp: find_None_iff image_chunk_matches_def e sample_signed_chunks)
  then show ?thesis
    using verify_content_decides [OF stable_file.source_file_axioms _ _ p] e(1) sample_signed_count [OF e(2,4)]
    by (simp add: length_sample_signed sign_verification_def)
qed

lemma sample_signed_verified:
  "\<exists>i hp v. VerifyHashTableContent (Some (\<lambda>_. None)) (Some (\<lambda>_. file_reader sample_signed)) 3584 0
     = Inr (i, hp, v)"
proof -
  from sample_signed_plan obtain i hp t where
    p: "PlanHashTable (Some (\<lambda>_. None)) (Some (\<lambda>_. file_reader sample_signed)) 3584 0 = Inr (i, hp, t)"
    and e: "hp_HashEntryCount hp = 3" "insp_ImageHeaderOffset i = 1024" "insp_HashTableOffset i = 33"
      "sec_ChunkSizeBytes (insp_Security i) = 1024" by blast
  have "find (\<lambda>k. \<not> image_chunk_matches sample_signed i k) [0 ..< unat (3 :: u64)] = None"
    by (auto simp: find_None_iff image_chunk_matches_def e sample_signed_chunks)
  then show ?thesis
    using stable_file.verify_content_decides_src [OF _ _ p] e(1) sample_signed_count [OF e(2,4)]
    by (simp add: length_sample_signed)
qed

theorem verify_content_sound_witness:
  "\<exists>i hp v. VerifyHashTableContent (Some (\<lambda>_. None)) (Some (\<lambda>_. file_reader sample_signed)) 3584 0
     = Inr (i, hp, v) \<and> verification_sound sample_signed i hp v"
proof -
  from sample_signed_verified obtain i hp v where
    v: "VerifyHashTableContent (Some (\<lambda>_. None)) (Some (\<lambda>_. file_reader sample_signed)) 3584 0
      = Inr (i, hp, v)" by blast
  from verify_content_sound [OF stable_file.source_file_axioms _ v] v show ?thesis
    by (auto simp: length_sample_signed)
qed

end
