(* ===== verification/Extents.thy ===== *)
theory Extents
  imports Prelude
begin

text \<open>
  The layout contract shared by every component that places extents on a target: extents
  with a start and a stop, laid out one after the other. Its clients are the FFU write
  extents, the partitions of a table, the clusters of a FAT volume and the regions of a device
  qualification.
\<close>

locale extent_layout =
  fixes start stop :: "'a \<Rightarrow> nat" and ok :: "'a \<Rightarrow> bool"
  assumes nonempty: "ok x \<Longrightarrow> start x < stop x"
begin

text \<open>Comparing neighbours is enough.\<close>

lemma chain_sorted:
  "\<forall>x \<in> set xs. ok x \<Longrightarrow> successively (\<lambda>a b. stop a \<le> start b) xs
     \<Longrightarrow> sorted_wrt (\<lambda>a b. stop a \<le> start b) xs"
proof (induction xs)
  case (Cons a xs)
  then have s: "sorted_wrt (\<lambda>a b. stop a \<le> start b) xs" by (cases xs) auto
  have "stop a \<le> start b" if "b \<in> set xs" for b
  proof (cases xs)
    case (Cons c cs)
    then have "stop a \<le> start c" using Cons.prems by simp
    moreover have "b = c \<or> stop c \<le> start b" using s that Cons by auto
    moreover have "start c < stop c" using Cons.prems Cons nonempty by simp
    ultimately show ?thesis by auto
  qed (use that in simp)
  with s show ?case by simp
qed simp

lemma sorted_chain:
  "sorted_wrt (\<lambda>a b. stop a \<le> start b) xs \<Longrightarrow> successively (\<lambda>a b. stop a \<le> start b) xs"
  by (induction xs rule: induct_list012) auto

text \<open>Extents laid out in order never share a position.\<close>

lemma disjoint:
  "sorted_wrt (\<lambda>a b. stop a \<le> start b) xs \<Longrightarrow> i < length xs \<Longrightarrow> j < length xs \<Longrightarrow> i \<noteq> j
     \<Longrightarrow> {start (xs ! i) ..< stop (xs ! i)} \<inter> {start (xs ! j) ..< stop (xs ! j)} = {}"
proof -
  assume s: "sorted_wrt (\<lambda>a b. stop a \<le> start b) xs" and "i < length xs" "j < length xs" "i \<noteq> j"
  then consider "stop (xs ! i) \<le> start (xs ! j)" | "stop (xs ! j) \<le> start (xs ! i)"
    by (metis linorder_neqE_nat sorted_wrt_nth_less)
  then show ?thesis by cases auto
qed

text \<open>Their total length is bounded by the room they are laid out in.\<close>

lemma total_le:
  "sorted_wrt (\<lambda>a b. stop a \<le> start b) xs
     \<Longrightarrow> \<forall>x \<in> set xs. ok x \<and> lo \<le> start x \<and> stop x \<le> hi
     \<Longrightarrow> sum_list (map (\<lambda>x. stop x - start x) xs) \<le> hi - lo"
proof (induction xs arbitrary: lo)
  case (Cons a xs)
  then have "sum_list (map (\<lambda>x. stop x - start x) xs) \<le> hi - stop a"
    by (intro Cons.IH) auto
  moreover have "lo \<le> start a" "start a < stop a" "stop a \<le> hi" using Cons.prems nonempty by auto
  ultimately show ?case by simp
qed simp

text \<open>Sorting by start and then comparing neighbours decides pairwise disjointness.\<close>

lemma sorted_iff_disjoint:
  assumes "\<forall>x \<in> set xs. ok x" and "sorted_wrt (\<lambda>a b. start a \<le> start b) xs"
  shows "sorted_wrt (\<lambda>a b. stop a \<le> start b) xs
    \<longleftrightarrow> sorted_wrt (\<lambda>a b. stop a \<le> start b \<or> stop b \<le> start a) xs"
  using assms
proof (induction xs)
  case (Cons a xs)
  have "stop a \<le> start b \<longleftrightarrow> stop a \<le> start b \<or> stop b \<le> start a" if "b \<in> set xs" for b
    using Cons.prems that nonempty [of b] by fastforce
  with Cons show ?case by auto
qed simp

end

end
