(* ===== verification/PathText.thy ===== *)
theory PathText
  imports Prelude
begin

text \<open>
  What \<open>strings.TrimSpace\<close> and \<open>filepath.Clean\<close> do to a rooted path, described without their algorithms: a text
  between white space, and a path as the elements between its slashes, walked one after the other.
\<close>

section \<open>Texts between white space\<close>

definition trims_to :: "string \<Rightarrow> string \<Rightarrow> bool" where
  "trims_to s c \<longleftrightarrow>
     (\<exists>pre post. s = concat pre @ c @ concat post \<and> set pre \<subseteq> set space_runes \<and> set post \<subseteq> set space_runes)
     \<and> (\<forall>r \<in> set space_runes. \<not> has_prefix c r \<and> \<not> has_prefix (rev c) (rev r))"

definition prefix_free :: "string list \<Rightarrow> bool" where
  "prefix_free ps \<longleftrightarrow> (\<forall>p \<in> set ps. \<forall>q \<in> set ps. p \<noteq> [] \<and> (has_prefix p q \<longrightarrow> p = q))"

lemma has_prefix_append: "has_prefix s p \<longleftrightarrow> (\<exists>t. s = p @ t)"
  by (metis append_eq_conv_conj has_prefix_def append_take_drop_id)

lemma strip_one_None: "strip_one ps s = None \<longleftrightarrow> (\<forall>p \<in> set ps. \<not> has_prefix s p)"
proof -
  have "strip_one ps s = None \<longleftrightarrow> find (\<lambda>p. take (length p) s = p) ps = None"
    by (simp add: strip_one_def split: option.splits)
  then show ?thesis by (auto simp: find_None_iff has_prefix_def)
qed

lemma strip_one_SomeD: "strip_one ps s = Some t \<Longrightarrow> \<exists>p \<in> set ps. s = p @ t"
  by (auto simp: strip_one_def find_Some_iff split: option.splits) (metis append_take_drop_id nth_mem)

lemma strip_one_prefix:
  assumes "prefix_free ps" "p \<in> set ps"
  shows "strip_one ps (p @ t) = Some t"
proof -
  have "strip_one ps (p @ t) \<noteq> None" using assms(2) by (auto simp: strip_one_None has_prefix_append)
  then obtain u where u: "strip_one ps (p @ t) = Some u" by blast
  then obtain q where q: "q \<in> set ps" "p @ t = q @ u" using strip_one_SomeD by blast
  then have "has_prefix p q \<or> has_prefix q p" by (auto simp: has_prefix_append append_eq_append_conv2)
  then have "p = q" using assms q(1) by (auto simp: prefix_free_def)
  with q(2) u show ?thesis by simp
qed

lemma strip_many_parts: "\<exists>qs. set qs \<subseteq> set ps \<and> s = concat qs @ strip_many ps n s"
proof (induction n arbitrary: s)
  case (Suc n)
  show ?case
  proof (cases "strip_one ps s")
    case None
    then show ?thesis by (intro exI [of _ "[]"]) simp
  next
    case (Some t)
    then obtain p where p: "p \<in> set ps" "s = p @ t" using strip_one_SomeD by blast
    obtain qs where "set qs \<subseteq> set ps" "t = concat qs @ strip_many ps n t" using Suc.IH by blast
    then show ?thesis using p Some by (intro exI [of _ "p # qs"]) simp
  qed
qed (intro exI [of _ "[]"], simp)

lemma strip_many_stops:
  assumes "prefix_free ps" "length s \<le> n" "p \<in> set ps"
  shows "\<not> has_prefix (strip_many ps n s) p"
  using assms(2)
proof (induction n arbitrary: s)
  case 0
  have "p \<noteq> []" using assms(1,3) by (auto simp: prefix_free_def)
  with 0 show ?case by (simp add: has_prefix_def)
next
  case (Suc n)
  show ?case
  proof (cases "strip_one ps s")
    case None
    then have "strip_many ps (Suc n) s = s" by simp
    with None assms(3) strip_one_None [of ps s] show ?thesis by simp
  next
    case (Some t)
    then obtain q where "q \<in> set ps" "s = q @ t" using strip_one_SomeD by blast
    moreover from this have "q \<noteq> []" using assms(1) by (simp add: prefix_free_def)
    ultimately have "length t < length s" by simp
    then have "length t \<le> n" using Suc.prems by linarith
    with Suc.IH Some show ?thesis by simp
  qed
qed

lemma strip_many_concat:
  assumes "prefix_free ps" "\<forall>p \<in> set ps. \<not> has_prefix r p" "set qs \<subseteq> set ps" "length (concat qs) \<le> n"
  shows "strip_many ps n (concat qs @ r) = r"
  using assms(3,4)
proof (induction qs arbitrary: n)
  case Nil
  have "strip_one ps r = None" using assms(2) by (simp add: strip_one_None)
  then show ?case by (cases n) simp_all
next
  case (Cons q qs)
  have "q \<noteq> []" using assms(1) Cons.prems(1) by (auto simp: prefix_free_def)
  then obtain m where m: "n = Suc m" "length (concat qs) \<le> m" using Cons.prems(2) by (cases n; cases q) auto
  have "strip_one ps (q @ concat qs @ r) = Some (concat qs @ r)"
    using Cons.prems(1) by (intro strip_one_prefix [OF assms(1)]) simp
  with Cons.IH [of m] Cons.prems(1) m show ?case by simp
qed

lemma prefix_free_code [code]:
  "prefix_free ps \<longleftrightarrow> list_all (\<lambda>p. list_all (\<lambda>q. p \<noteq> [] \<and> (has_prefix p q \<longrightarrow> p = q)) ps) ps"
  by (simp add: prefix_free_def list_all_iff)

lemma runes_prefix_free: "prefix_free space_runes" "prefix_free (map rev space_runes)"
  by code_simp+

lemma runes_no_slash: "r \<in> set space_runes \<Longrightarrow> r \<noteq> [] \<and> hd r \<noteq> CHR ''/''"
proof -
  have "list_all (\<lambda>r. r \<noteq> [] \<and> hd r \<noteq> CHR ''/'') space_runes" by code_simp
  then show "r \<in> set space_runes \<Longrightarrow> r \<noteq> [] \<and> hd r \<noteq> CHR ''/''" by (simp only: list_all_iff) blast
qed

lemma concat_reversed: "rev (concat ps) = concat (map rev (rev ps))"
  by (induction ps) simp_all

lemma trim_space_trims: "trims_to s (trim_space s)"
proof -
  define l where "l = strip_many space_runes (length s) s"
  define c where "c = trim_space s"
  have rc: "rev c = strip_many (map rev space_runes) (length l) (rev l)"
    by (simp add: c_def l_def trim_space_def Let_def)
  obtain qs where qs: "set qs \<subseteq> set space_runes" "s = concat qs @ l"
    using strip_many_parts unfolding l_def by blast
  obtain ts where ts: "set ts \<subseteq> set (map rev space_runes)" "rev l = concat ts @ rev c"
    using strip_many_parts unfolding rc by blast
  from ts(2) have "l = c @ rev (concat ts)" by (metis rev_append rev_rev_ident)
  then have l: "l = c @ concat (map rev (rev ts))" by (simp only: concat_reversed)
  have "set (map rev (rev ts)) \<subseteq> set space_runes" using ts(1) by auto
  then have "\<exists>pre post. s = concat pre @ c @ concat post \<and> set pre \<subseteq> set space_runes \<and> set post \<subseteq> set space_runes"
    using qs l by blast
  moreover have "\<not> has_prefix c r \<and> \<not> has_prefix (rev c) (rev r)" if r: "r \<in> set space_runes" for r
  proof -
    have "\<not> has_prefix l r" unfolding l_def by (rule strip_many_stops [OF runes_prefix_free(1) order_refl r])
    then have "\<not> has_prefix c r" by (auto simp: l has_prefix_append)
    moreover have "rev r \<in> set (map rev space_runes)" using r by simp
    then have "\<not> has_prefix (rev c) (rev r)"
      unfolding rc by (rule strip_many_stops [OF runes_prefix_free(2), rotated]) simp
    ultimately show ?thesis ..
  qed
  ultimately show ?thesis unfolding trims_to_def c_def by blast
qed

lemma trims_to_rooted:
  assumes "trims_to s c" "is_abs c"
  shows "trim_space s = c"
proof -
  obtain pre post where s: "s = concat pre @ c @ concat post" "set pre \<subseteq> set space_runes" "set post \<subseteq> set space_runes"
    and n: "\<And>r. r \<in> set space_runes \<Longrightarrow> \<not> has_prefix (rev c) (rev r)"
    using assms(1) unfolding trims_to_def by blast
  have c: "c \<noteq> []" "hd c = CHR ''/''" using assms(2) by (cases c; simp add: is_abs_def has_prefix_def)+
  have "\<not> has_prefix (c @ concat post) r" if "r \<in> set space_runes" for r
    using runes_no_slash [OF that] c by (cases r; cases c) (auto simp: has_prefix_append)
  then have l: "strip_many space_runes (length s) s = c @ concat post"
    unfolding s(1) by (intro strip_many_concat [OF runes_prefix_free(1)]) (use s(2) in auto)
  have e: "rev (c @ concat post) = concat (map rev (rev post)) @ rev c" by (simp only: rev_append concat_reversed)
  have "strip_many (map rev space_runes) (length (c @ concat post)) (rev (c @ concat post)) = rev c"
    unfolding e
  proof (rule strip_many_concat [OF runes_prefix_free(2)])
    show "\<forall>p \<in> set (map rev space_runes). \<not> has_prefix (rev c) p" using n by auto
    show "set (map rev (rev post)) \<subseteq> set (map rev space_runes)" using s(3) by auto
    have "length (concat (map rev (rev post))) = length (rev (concat post))" by (simp only: concat_reversed)
    then show "length (concat (map rev (rev post))) \<le> length (c @ concat post)" by simp
  qed
  then show ?thesis unfolding trim_space_def l Let_def by simp
qed

section \<open>Rooted paths\<close>

text \<open>A path as its elements, and the directory a walk over them ends in.\<close>

definition slashed :: "string list \<Rightarrow> string" where "slashed es = concat (map ((#) (CHR ''/'')) es)"

definition slash_free :: "string list \<Rightarrow> bool" where "slash_free es \<longleftrightarrow> (\<forall>e \<in> set es. CHR ''/'' \<notin> set e)"

definition enter :: "string list \<Rightarrow> string \<Rightarrow> string list" where
  "enter dir e = (if e = [] \<or> e = ''.'' then dir else if e = ''..'' then butlast dir else dir @ [e])"

definition resolves :: "string \<Rightarrow> string list \<Rightarrow> bool" where
  "resolves p dir \<longleftrightarrow> (\<exists>es. es \<noteq> [] \<and> p = slashed es \<and> slash_free es \<and> dir = foldl enter [] es)"

lemma slashed_simps [simp]: "slashed [] = []" "slashed (e # es) = CHR ''/'' # e @ slashed es"
    "slashed (as @ bs) = slashed as @ slashed bs"
  by (simp_all add: slashed_def)

lemma slash_free_simps [simp]: "slash_free []" "slash_free (e # es) \<longleftrightarrow> CHR ''/'' \<notin> set e \<and> slash_free es"
    "slash_free (as @ bs) \<longleftrightarrow> slash_free as \<and> slash_free bs"
  by (auto simp: slash_free_def)

lemma split_slashed: "CHR ''/'' \<notin> set e \<Longrightarrow> slash_free es \<Longrightarrow> split_path (e @ slashed es) = e # es"
proof (induction es arbitrary: e)
  case Nil
  then show ?case by (induction e) auto
next
  case (Cons f fs)
  from Cons.prems(1) show ?case
  proof (induction e)
    case Nil
    then show ?case using Cons by simp
  next
    case (Cons c cs)
    then show ?case by auto
  qed
qed

lemma split_parts: "\<exists>e es. split_path s = e # es \<and> s = e @ slashed es \<and> slash_free (e # es)"
proof (induction s)
  case (Cons c s)
  then obtain e es where "split_path s = e # es" "s = e @ slashed es" "slash_free (e # es)" by blast
  then show ?case by (cases "c = CHR ''/''") auto
qed simp

lemma slashed_inj: "slash_free as \<Longrightarrow> slash_free bs \<Longrightarrow> slashed as = slashed bs \<longleftrightarrow> as = bs"
  by (metis append_Nil empty_iff empty_set list.inject split_slashed)

lemma clean_elements_walk: "clean_elements acc es = foldl enter (rev acc) es"
  by (induction acc es rule: clean_elements.induct) (auto simp: enter_def butlast_rev)

lemma join_slashed: "es \<noteq> [] \<Longrightarrow> ''/'' @ join_path es = slashed es"
  by (induction es rule: join_path.induct) simp_all

lemma enter_elements: "CHR ''/'' \<notin> set e \<Longrightarrow> slash_free dir \<Longrightarrow> slash_free (enter dir e)"
  by (auto simp: enter_def slash_free_def dest: in_set_butlastD)

lemma walk_elements: "slash_free es \<Longrightarrow> slash_free dir \<Longrightarrow> slash_free (foldl enter dir es)"
  by (induction es arbitrary: dir) (simp_all add: enter_elements)

lemma resolves_clean:
  assumes "resolves p dir"
  shows "is_abs p" "clean_path p = ''/'' @ join_path dir" "slash_free dir"
proof -
  obtain es where es: "es \<noteq> []" "p = slashed es" "slash_free es" "dir = foldl enter [] es"
    using assms by (auto simp: resolves_def)
  have s: "split_path p = [] # es" using split_slashed [of "[]" es] es by simp
  show a: "is_abs p" using es(1,2) by (cases es) (simp_all add: is_abs_def has_prefix_def)
  show "clean_path p = ''/'' @ join_path dir"
    using a by (simp add: clean_path_def clean_rooted_def s clean_elements_walk es(4) enter_def [of "[]" "[]"])
  show "slash_free dir" using walk_elements [OF es(3)] by (simp add: es(4))
qed

lemma rooted_resolves: "is_abs p \<Longrightarrow> \<exists>dir. resolves p dir"
proof -
  assume a: "is_abs p"
  obtain e es where "p = e @ slashed es" "slash_free (e # es)" using split_parts by blast
  moreover from this a have "e = []" by (cases e) (auto simp: is_abs_def has_prefix_def)
  moreover from this a calculation have "es \<noteq> []" by (cases es) (auto simp: is_abs_def has_prefix_def)
  ultimately show ?thesis by (auto simp: resolves_def)
qed

lemma clean_relative_elements:
  "slash_free acc \<and> [] \<notin> set acc \<Longrightarrow> slash_free ps
   \<Longrightarrow> slash_free (clean_relative acc ps) \<and> [] \<notin> set (clean_relative acc ps)"
proof (induction acc ps rule: clean_relative.induct)
  case (1 acc)
  then show ?case by (auto simp: slash_free_def)
next
  case (2 acc p ps)
  have "slash_free (tl acc) \<and> [] \<notin> set (tl acc)" using "2.prems"(1) by (cases acc) auto
  with 2 show ?case by auto
qed

lemma relative_clean: "\<not> is_abs p \<Longrightarrow> \<not> is_abs (clean_path p)"
proof -
  assume r: "\<not> is_abs p"
  have "slash_free (split_path p)" using split_parts [of p] by auto
  then have e: "slash_free (clean_relative [] (split_path p))" "[] \<notin> set (clean_relative [] (split_path p))"
    using clean_relative_elements [of "[]" "split_path p"] by auto
  show ?thesis
  proof (cases "clean_relative [] (split_path p)")
    case Nil
    with r show ?thesis by (simp add: clean_path_def is_abs_def has_prefix_def)
  next
    case (Cons f fs)
    with e obtain c cs where f: "f = c # cs" "c \<noteq> CHR ''/''" by (cases f) auto
    with r Cons show ?thesis by (cases fs) (simp_all add: clean_path_def is_abs_def has_prefix_def)
  qed
qed

text \<open>A cleaned path is a root or lies below it exactly when its elements begin with those of the root.\<close>

lemma below_root:
  assumes "slash_free dir" "slash_free root" "root \<noteq> []" "[] \<notin> set root"
  shows "''/'' @ join_path dir = slashed root \<or> has_prefix (''/'' @ join_path dir) (slashed root @ ''/'')
    \<longleftrightarrow> take (length root) dir = root"
proof -
  define ds where "ds = (if dir = [] then [[]] else dir)"
  have ds: "''/'' @ join_path dir = slashed ds" "slash_free ds"
    using join_slashed assms(1) by (simp_all add: ds_def)
  have t: "take (length root) dir = root \<longleftrightarrow> (\<exists>x. ds = root @ x)"
  proof (cases "dir = []")
    case True
    then show ?thesis using assms(3,4) by (cases root) (auto simp: ds_def)
  next
    case False
    then show ?thesis by (metis append_eq_conv_conj append_take_drop_id ds_def)
  qed
  have "has_prefix (slashed ds) (slashed root @ ''/'') \<longleftrightarrow> (\<exists>e es. ds = root @ e # es)"
  proof
    assume "has_prefix (slashed ds) (slashed root @ ''/'')"
    then obtain t where t: "slashed ds = slashed root @ ''/'' @ t" by (auto simp: has_prefix_append)
    obtain e es where "t = e @ slashed es" "slash_free (e # es)" using split_parts by blast
    with t have "slashed ds = slashed (root @ e # es)" "slash_free (root @ e # es)" using assms(2) by simp_all
    with ds(2) show "\<exists>e es. ds = root @ e # es" by (metis slashed_inj)
  qed (auto simp: has_prefix_append)
  moreover have "slashed ds = slashed root \<longleftrightarrow> ds = root" by (rule slashed_inj [OF ds(2) assms(2)])
  ultimately show ?thesis unfolding ds(1) t by (metis append_Nil2 list.exhaust)
qed

end
