(* ===== verification/Target.thy ===== *)
theory Target
  imports Sha256 PathText
begin

text \<open>
  The target device and the policy that decides whether it may be erased:
  \<open>internal/device/device.go\<close> (the normalised \<open>lsblk\<close> tree, its search and identity) and
  \<open>internal/safety/safety_linux.go\<close> (the destructive target policy, revalidation, the check of
  the open descriptor and the order of unmounting). Running \<open>lsblk\<close> and \<open>findmnt\<close> and the
  \<open>stat\<close> and \<open>ioctl\<close> system calls are parameters; an error they return is passed on.
\<close>

section \<open>Block devices (device.go)\<close>

record DeviceInfo =
  dev_Name :: string
  dev_Path :: string
  dev_Type :: string
  dev_Size :: u64
  dev_Model :: string
  dev_Vendor :: string
  dev_Transport :: string
  dev_Removable :: bool
  dev_ReadOnly :: bool
  dev_Hotplug :: bool
  dev_ParentName :: string
  dev_MajorMinor :: string
  dev_Serial :: string
  dev_WWN :: string
  dev_DiskSequence :: string
  dev_LogicalSectorSize :: u64
  dev_PhysicalSectorSize :: u64
  dev_Identity :: string
  dev_Mountpoints :: "string list"

datatype BlockDevice = BlockDevice (bd_info: DeviceInfo) (bd_Children: "BlockDevice list")

abbreviation bd_Path :: "BlockDevice \<Rightarrow> string" where "bd_Path d \<equiv> dev_Path (bd_info d)"
abbreviation bd_Mountpoints :: "BlockDevice \<Rightarrow> string list" where
  "bd_Mountpoints d \<equiv> dev_Mountpoints (bd_info d)"

definition WholeDisks :: "BlockDevice list \<Rightarrow> BlockDevice list" where
  "WholeDisks devices = filter (\<lambda>d. dev_Type (bd_info d) = ''disk'') devices"

fun Flatten :: "BlockDevice \<Rightarrow> BlockDevice list" where
  "Flatten (BlockDevice i cs) = BlockDevice i cs # concat (map Flatten cs)"

definition MountedDescendants :: "BlockDevice \<Rightarrow> BlockDevice list" where
  "MountedDescendants d = filter (\<lambda>n. 0 < length (bd_Mountpoints n)) (Flatten d)"

definition IsNormalRemovableTarget :: "BlockDevice \<Rightarrow> bool" where
  "IsNormalRemovableTarget d \<longleftrightarrow> dev_Removable (bd_info d) \<or> dev_Transport (bd_info d) = ''usb''"

definition format_bool :: "bool \<Rightarrow> string" where
  "format_bool b = (if b then ''true'' else ''false'')"

text \<open>\<open>strings.Join(fields, "\x00")\<close>.\<close>

definition NUL :: char where "NUL = CHR 0x00"

fun join_nul :: "string list \<Rightarrow> string" where
  "join_nul [] = []"
| "join_nul [f] = f"
| "join_nul (f # fs) = f @ NUL # join_nul fs"

definition identity_fields :: "BlockDevice \<Rightarrow> string list" where
  "identity_fields d =
     (let i = bd_info d in
      [dev_Path i, dev_Type i, decimal (dev_Size i), dev_MajorMinor i, dev_Serial i, dev_WWN i,
       dev_DiskSequence i, dev_Vendor i, dev_Model i, dev_Transport i,
       format_bool (dev_Removable i), format_bool (dev_ReadOnly i)])"

definition IdentityToken :: "BlockDevice \<Rightarrow> string" where
  "IdentityToken d = sha256_hex (string_bytes (join_nul (identity_fields d)))"

text \<open>The first hit of a search loop over the children.\<close>

fun first_some :: "'a option list \<Rightarrow> 'a option" where
  "first_some [] = None"
| "first_some (None # xs) = first_some xs"
| "first_some (Some x # xs) = Some x"

fun findRecursive :: "BlockDevice \<Rightarrow> string \<Rightarrow> BlockDevice option" where
  "findRecursive (BlockDevice i cs) path =
     (if dev_Path i = path then Some (BlockDevice i cs)
      else first_some (map (\<lambda>c. findRecursive c path) cs))"

text \<open>\<open>Find\<close> searches the devices \<open>List\<close> reports; \<open>listing\<close> is the outcome of \<open>List\<close>.\<close>

definition Find :: "BlockDevice list res \<Rightarrow> string \<Rightarrow> BlockDevice res" where
  "Find listing path =
     bindE listing (\<lambda>devices.
     case first_some (map (\<lambda>d. findRecursive d path) devices) of
       Some d \<Rightarrow> Inr d
     | None \<Rightarrow> Inl (Errorf ''device %q was not reported by lsblk'' [FS path]))"

section \<open>The destructive target policy (safety_linux.go)\<close>

definition removable_roots :: "string list" where
  "removable_roots = [''/media'', ''/run/media'', ''/mnt'']"

definition protectedMountpoint :: "string \<Rightarrow> bool" where
  "protectedMountpoint path \<longleftrightarrow>
     \<not> is_abs path
     \<or> \<not> list_ex (\<lambda>root. path = root \<or> has_prefix path (root @ ''/'')) removable_roots"

definition check_mountpoint :: "string \<Rightarrow> string \<Rightarrow> string \<Rightarrow> unit res" where
  "check_mountpoint devPath nodePath mountpoint =
     (let clean = clean_path (trim_space mountpoint) in
      check (\<not> (clean = ''[SWAP]'' \<or> protectedMountpoint clean))
        (Errorf ''refusing %s because %s is used by the running system at %s''
           [FS devPath, FS nodePath, FS mountpoint]))"

definition ValidateNoProtectedMounts :: "BlockDevice \<Rightarrow> unit res" where
  "ValidateNoProtectedMounts d =
     bindE
       (traverse (\<lambda>n. traverse (check_mountpoint (bd_Path d) (bd_Path n)) (bd_Mountpoints n)) (Flatten d))
       (\<lambda>_. Inr ())"

definition ValidateTargetMetadata :: "string \<Rightarrow> BlockDevice \<Rightarrow> bool \<Rightarrow> unit res" where
  "ValidateTargetMetadata path d allowFixed =
     (let i = bd_info d in
      if dev_Path i \<noteq> path
      then Inl (Errorf ''device metadata path mismatch: selected=%s reported=%s'' [FS path, FS (dev_Path i)])
      else if dev_Type i \<noteq> ''disk''
      then Inl (Errorf ''refusing partition or non-disk target %s (lsblk type %q); select the whole disk''
                  [FS path, FS (dev_Type i)])
      else if dev_ReadOnly i then Inl (Errorf ''target %s is read-only'' [FS path])
      else if dev_Size i = 0
      then Inl (Errorf ''target %s reported an invalid zero-byte size'' [FS path])
      else
      bindE (ValidateNoProtectedMounts d) (\<lambda>_.
      if \<not> allowFixed \<and> \<not> IsNormalRemovableTarget d
      then Inl (Errorf ''target %s is not marked removable or USB; fixed and internal MMC/eMMC disks are hidden unless --allow-fixed is explicitly supplied''
                  [FS path])
      else Inr ()))"

definition shortIdentity :: "string \<Rightarrow> string" where
  "shortIdentity value = (if length value \<le> 12 then value else take 12 value)"

definition ValidateExpectedIdentity :: "BlockDevice \<Rightarrow> string \<Rightarrow> unit res" where
  "ValidateExpectedIdentity d expected =
     (if expected = [] then Inr ()
      else let actual = IdentityToken d in
        check (actual = expected)
          (Errorf ''the selected drive changed after confirmation; refusing to continue (expected identity %s, now %s)''
             [FS (shortIdentity expected), FS (shortIdentity actual)]))"

text \<open>
  \<open>os.Stat\<close> of a path, as far as it is used: whether the file is a block device, and its
  \<open>Rdev\<close>.
\<close>

type_synonym stat_block = "string \<Rightarrow> (bool \<times> u64) res"

definition ErrNotBlockDevice :: go_error where
  "ErrNotBlockDevice = Msg ''target is not a block device''"

definition KernelDeviceID :: "stat_block \<Rightarrow> string \<Rightarrow> u64 res" where
  "KernelDeviceID stat path =
     bindE (mapE (\<lambda>e. Errorf ''stat target: %w'' [FE e]) (stat path)) (\<lambda>(block, rdev).
     if block then Inr rdev else Inl ErrNotBlockDevice)"

definition contains :: "string list \<Rightarrow> string \<Rightarrow> bool" where
  "contains items target \<longleftrightarrow> list_ex (\<lambda>i. i = target) items"

text \<open>\<open>root_disks\<close> is the outcome of \<open>BackingDisksForPath("/")\<close>.\<close>

definition ValidateTarget ::
  "stat_block \<Rightarrow> string list res \<Rightarrow> string \<Rightarrow> BlockDevice \<Rightarrow> bool \<Rightarrow> unit res" where
  "ValidateTarget stat root_disks path d allowFixed =
     bindE (ValidateTargetMetadata path d allowFixed) (\<lambda>_.
     bindE (KernelDeviceID stat path) (\<lambda>_.
     bindE (mapE (\<lambda>e. Errorf ''cannot safely identify the running root disk: %w'' [FE e]) root_disks)
       (\<lambda>disks.
     check (\<not> contains disks (base_name path))
       (Errorf ''refusing to overwrite a disk that backs the running root filesystem: %s'' [FS path]))))"

definition RevalidateTarget ::
  "BlockDevice list res \<Rightarrow> stat_block \<Rightarrow> string list res \<Rightarrow> string \<Rightarrow> string \<Rightarrow> bool
     \<Rightarrow> (BlockDevice \<times> u64) res" where
  "RevalidateTarget listing stat root_disks path expectedIdentity allowFixed =
     bindE (Find listing path) (\<lambda>d.
     bindE (ValidateExpectedIdentity d expectedIdentity) (\<lambda>_.
     bindE (ValidateTarget stat root_disks path d allowFixed) (\<lambda>_.
     bindE (KernelDeviceID stat path) (\<lambda>kernelID. Inr (d, kernelID)))))"

definition RevalidateOpenBoundTarget ::
  "BlockDevice list res \<Rightarrow> stat_block \<Rightarrow> string list res \<Rightarrow> string \<Rightarrow> u64 \<Rightarrow> bool
     \<Rightarrow> (BlockDevice \<times> u64) res" where
  "RevalidateOpenBoundTarget listing stat root_disks path expectedKernelID allowFixed =
     bindE (Find listing path) (\<lambda>d.
     bindE (ValidateTarget stat root_disks path d allowFixed) (\<lambda>_.
     bindE (KernelDeviceID stat path) (\<lambda>kernelID.
     if expectedKernelID \<noteq> 0 \<and> kernelID \<noteq> expectedKernelID
     then Inl (Msg ''the selected kernel device changed after confirmation'')
     else Inr (d, kernelID))))"

text \<open>\<open>fstat\<close> of the open descriptor and the \<open>BLKGETSIZE64\<close> ioctl are parameters.\<close>

definition VerifyOpenDevice :: "(bool \<times> u64) res \<Rightarrow> u64 res \<Rightarrow> u64 \<Rightarrow> u64 \<Rightarrow> unit res" where
  "VerifyOpenDevice fstat ioctl_size expectedID expectedSize =
     (if expectedID = 0 then Inr ()
      else
      bindE (mapE (\<lambda>e. Errorf ''stat open target: %w'' [FE e]) fstat) (\<lambda>(block, rdev).
      if \<not> block then Inl ErrNotBlockDevice
      else if rdev \<noteq> expectedID
      then Inl (Msg ''the kernel device behind the selected path changed; refusing to write'')
      else
      bindE (mapE (\<lambda>e. Errorf ''the selected block device is no longer responding: %w'' [FE e]) ioctl_size)
        (\<lambda>n.
      if n = 0 then Inl (Msg ''the selected block device now reports zero capacity'')
      else if 0 < expectedSize \<and> n \<noteq> expectedSize
      then Inl (Errorf ''the selected block device capacity changed from %d to %d bytes''
                  [FN (unat expectedSize), FN (unat n)])
      else Inr ())))"

text \<open>
  \<open>file\<close> is \<open>None\<close> for a nil file, otherwise the outcome of \<open>fstat\<close>: whether the file is
  regular, and the device it lives on.
\<close>

definition check_component :: "stat_block \<Rightarrow> string \<Rightarrow> u64 \<Rightarrow> BlockDevice \<Rightarrow> unit res" where
  "check_component stat targetPath fileDevice n =
     (if bd_Path n = [] then Inr ()
      else
      bindE (mapE (\<lambda>e. Errorf ''stat target component %s: %w'' [FS (bd_Path n), FE e]) (stat (bd_Path n)))
        (\<lambda>(block, rdev).
      if \<not> block then Inl (Errorf ''target component %s is no longer a block device'' [FS (bd_Path n)])
      else if rdev = fileDevice
      then Inl (Errorf ''the selected image is open from the target disk %s; move it to another disk''
                  [FS targetPath])
      else Inr ()))"

definition EnsureOpenFileNotOnTarget ::
  "stat_block \<Rightarrow> (bool \<times> u64) res option \<Rightarrow> BlockDevice \<Rightarrow> unit res" where
  "EnsureOpenFileNotOnTarget stat file d =
     (case file of None \<Rightarrow> Inl (Msg ''image file is nil'') | Some fstat \<Rightarrow>
      bindE (mapE (\<lambda>e. Errorf ''stat open image: %w'' [FE e]) fstat) (\<lambda>(regular, fileDevice).
      if \<not> regular then Inl (Msg ''image is no longer a regular file'')
      else bindE (traverse (check_component stat (bd_Path d) fileDevice) (Flatten d)) (\<lambda>_. Inr ())))"

text \<open>Unmounting goes through the mount points, deepest first; \<open>umount\<close> is the command.\<close>

definition mountDepth :: "string \<Rightarrow> nat" where
  "mountDepth path =
     (let clean = clean_path path in
      if clean = ''/'' then 0 else length (filter (\<lambda>c. c = CHR ''/'') clean))"

definition unmount_order :: "BlockDevice \<Rightarrow> string list" where
  "unmount_order d =
     sort_by (\<lambda>a b. mountDepth b < mountDepth a)
       (concat (map bd_Mountpoints (MountedDescendants d)))"

fun unmount_each :: "(string \<Rightarrow> ('w, unit) act) \<Rightarrow> string list \<Rightarrow> ('w, unit) act" where
  "unmount_each umount [] = ret_act ()"
| "unmount_each umount (m # ms) =
     bind_act (wrap_act (\<lambda>e. Errorf ''unmount %s: %w'' [FS m, FE e]) (umount m))
       (\<lambda>_. unmount_each umount ms)"

definition UnmountDescendants :: "(string \<Rightarrow> ('w, unit) act) \<Rightarrow> BlockDevice \<Rightarrow> ('w, unit) act" where
  "UnmountDescendants umount d = unmount_each umount (unmount_order d)"

definition EnsureNoMountedDescendants :: "BlockDevice list res \<Rightarrow> string \<Rightarrow> unit res" where
  "EnsureNoMountedDescendants listing path =
     bindE (Find listing path) (\<lambda>d.
     case MountedDescendants d of
       [] \<Rightarrow> Inr ()
     | mounted \<Rightarrow>
         Inl (Errorf ''target was mounted again before writing: %s''
           (concat (map (\<lambda>n. concat (map (\<lambda>m. [FS (bd_Path n), FS m]) (bd_Mountpoints n))) mounted))))"

section \<open>Correctness\<close>

subsection \<open>Searching the device tree\<close>

lemma first_some_find: "first_some (map (\<lambda>c. find P (f c)) cs) = find P (concat (map f cs))"
proof (induction cs)
  case (Cons c cs)
  have a: "find P (xs @ ys) = (case find P xs of None \<Rightarrow> find P ys | Some x \<Rightarrow> Some x)" for xs ys
    by (induction xs) auto
  show ?case by (cases "find P (f c)") (simp_all add: a Cons)
qed simp

lemma find_recursive_flatten:
  "findRecursive d path = find (\<lambda>n. bd_Path n = path) (Flatten d)"
proof (induction d)
  case (BlockDevice i cs)
  have "map (\<lambda>c. findRecursive c path) cs = map (\<lambda>c. find (\<lambda>n. bd_Path n = path) (Flatten c)) cs"
    using BlockDevice by simp
  then have "first_some (map (\<lambda>c. findRecursive c path) cs) = find (\<lambda>n. bd_Path n = path) (concat (map Flatten cs))"
    by (simp only: first_some_find)
  then show ?case by simp
qed

lemma Find_Inr:
  "Find (Inr ds) path = Inr d \<longleftrightarrow> find (\<lambda>n. bd_Path n = path) (concat (map Flatten ds)) = Some d"
  by (auto simp: Find_def find_recursive_flatten first_some_find split: option.splits)

text \<open>
  Looking a path up in the device tree finds the first node of the flattened tree with that
  path, and fails exactly when no reported device or partition has it.
\<close>

theorem find_is_flat_search:
  "(Find (Inr ds) path = Inr d \<longleftrightarrow> find (\<lambda>n. bd_Path n = path) (concat (map Flatten ds)) = Some d)
   \<and> (is_ok (Find (Inr ds) path) \<longleftrightarrow> (\<exists>r \<in> set ds. \<exists>n \<in> set (Flatten r). bd_Path n = path))"
proof -
  have "is_ok (Find (Inr ds) path) \<longleftrightarrow> find (\<lambda>n. bd_Path n = path) (concat (map Flatten ds)) \<noteq> None"
    unfolding is_ok_iff Find_Inr by auto
  also have "\<dots> \<longleftrightarrow> (\<exists>r \<in> set ds. \<exists>n \<in> set (Flatten r). bd_Path n = path)"
    by (auto simp: find_None_iff)
  finally show ?thesis by (simp only: Find_Inr)
qed

subsection \<open>The target policy\<close>

definition removable_mount :: "string \<Rightarrow> bool" where
  "removable_mount p \<longleftrightarrow> (\<exists>root \<in> set removable_roots. p = root \<or> has_prefix p (root @ ''/''))"

lemma protected_iff: "protectedMountpoint p \<longleftrightarrow> \<not> removable_mount p"
proof -
  have "removable_mount p \<Longrightarrow> is_abs p"
    by (cases p) (auto simp: removable_mount_def removable_roots_def is_abs_def has_prefix_def)
  then show ?thesis by (auto simp: protectedMountpoint_def removable_mount_def list_ex_iff)
qed

lemma traverse_check: "is_ok (traverse f xs) \<longleftrightarrow> (\<forall>x \<in> set xs. is_ok (f x))"
proof (induction xs)
  case (Cons x xs)
  then show ?case by (cases "f x"; cases "traverse f xs") auto
qed simp

lemma is_ok_bind_unit: "bindE m (\<lambda>_. Inr ()) = Inr () \<longleftrightarrow> is_ok m"
  by (cases m) auto

lemma check_mountpoint_ok:
  "is_ok (check_mountpoint a b m) \<longleftrightarrow> removable_mount (clean_path (trim_space m))"
  by (auto simp: check_mountpoint_def check_def Let_def protected_iff removable_mount_def removable_roots_def
      has_prefix_def)

lemma no_protected_iff:
  "ValidateNoProtectedMounts d = Inr () \<longleftrightarrow>
     (\<forall>n \<in> set (Flatten d). \<forall>m \<in> set (bd_Mountpoints n). removable_mount (clean_path (trim_space m)))"
  by (simp add: ValidateNoProtectedMounts_def is_ok_bind_unit traverse_check check_mountpoint_ok)

lemma metadata_iff:
  "ValidateTargetMetadata path d allowFixed = Inr () \<longleftrightarrow>
     bd_Path d = path \<and> dev_Type (bd_info d) = ''disk'' \<and> \<not> dev_ReadOnly (bd_info d)
   \<and> dev_Size (bd_info d) \<noteq> 0
   \<and> (\<forall>n \<in> set (Flatten d). \<forall>m \<in> set (bd_Mountpoints n). removable_mount (clean_path (trim_space m)))
   \<and> (allowFixed \<or> dev_Removable (bd_info d) \<or> dev_Transport (bd_info d) = ''usb'')"
  by (auto simp: ValidateTargetMetadata_def Let_def bindE_eq_Inr no_protected_iff IsNormalRemovableTarget_def)

text \<open>The nodes of a device: itself, and the nodes of its children.\<close>

inductive device_node :: "BlockDevice \<Rightarrow> BlockDevice \<Rightarrow> bool" where
  itself: "device_node d d"
| beneath: "c \<in> set (bd_Children d) \<Longrightarrow> device_node c n \<Longrightarrow> device_node d n"

lemma Flatten_nodes: "n \<in> set (Flatten d) \<longleftrightarrow> device_node d n"
proof
  show "n \<in> set (Flatten d) \<Longrightarrow> device_node d n"
    by (induction d) (auto intro: device_node.intros)
  show "device_node d n \<Longrightarrow> n \<in> set (Flatten d)"
  proof (induction rule: device_node.induct)
    case (itself d)
    show ?case by (cases d) simp
  next
    case (beneath c d n)
    then show ?case by (cases d) auto
  qed
qed

text \<open>
  A mount point on removable media: between white space, a rooted path that leads, element by element, into
  \<open>/media\<close>, \<open>/run/media\<close> or \<open>/mnt\<close>.
\<close>

definition removable_place :: "string list \<Rightarrow> bool" where
  "removable_place dir \<longleftrightarrow> list_ex (\<lambda>root. take (length root) dir = root) [[''media''], [''run'', ''media''], [''mnt'']]"

definition mounted_removably :: "string \<Rightarrow> bool" where
  "mounted_removably m \<longleftrightarrow> (\<exists>p dir. trims_to m p \<and> resolves p dir \<and> removable_place dir)"

lemma removable_mount_place:
  assumes "resolves p dir"
  shows "removable_mount (clean_path p) \<longleftrightarrow> removable_place dir"
proof -
  have r: "removable_roots = map slashed [[''media''], [''run'', ''media''], [''mnt'']]" by (simp add: removable_roots_def)
  note b = below_root [OF resolves_clean(3) [OF assms]]
  show ?thesis
    unfolding removable_mount_def r resolves_clean(2) [OF assms] removable_place_def
    using b [of "[''media'']"] b [of "[''run'', ''media'']"] b [of "[''mnt'']"] by auto
qed

lemma removable_mount_trimmed: "removable_mount (clean_path (trim_space m)) \<longleftrightarrow> mounted_removably m"
proof
  assume r: "removable_mount (clean_path (trim_space m))"
  then have "is_abs (clean_path (trim_space m))" using protected_iff [of "clean_path (trim_space m)"] by (auto simp: protectedMountpoint_def)
  then have "is_abs (trim_space m)" using relative_clean by blast
  then obtain dir where "resolves (trim_space m) dir" using rooted_resolves by blast
  with r removable_mount_place trim_space_trims show "mounted_removably m" unfolding mounted_removably_def by blast
next
  assume "mounted_removably m"
  then obtain p dir where p: "trims_to m p" "resolves p dir" "removable_place dir" unfolding mounted_removably_def by blast
  then have "trim_space m = p" using trims_to_rooted resolves_clean(1) by blast
  with p(2,3) show "removable_mount (clean_path (trim_space m))" by (simp add: removable_mount_place)
qed

lemma metadata_policy:
  "ValidateTargetMetadata path d allowFixed = Inr () \<longleftrightarrow>
     bd_Path d = path \<and> dev_Type (bd_info d) = ''disk'' \<and> \<not> dev_ReadOnly (bd_info d)
   \<and> dev_Size (bd_info d) \<noteq> 0
   \<and> (\<forall>n m. device_node d n \<and> m \<in> set (bd_Mountpoints n) \<longrightarrow> mounted_removably m)
   \<and> (allowFixed \<or> dev_Removable (bd_info d) \<or> dev_Transport (bd_info d) = ''usb'')"
  unfolding metadata_iff removable_mount_trimmed Ball_def Flatten_nodes by blast

text \<open>
  C29: The metadata policy accepts exactly the whole, writable, non-empty disks with the selected path that are
  removable or USB, unless fixed disks are allowed, and of which no node, however deep below the
  disk, is mounted outside \<open>/media\<close>, \<open>/run/media\<close> and \<open>/mnt\<close>: every mount point, without the white
  space around it, is a rooted path whose elements lead there one after the other, \<open>..\<close> going back.
\<close>

theorem target_policy_exact:
  "ValidateTargetMetadata path d allowFixed = Inr () \<longleftrightarrow>
     bd_Path d = path \<and> dev_Type (bd_info d) = ''disk'' \<and> \<not> dev_ReadOnly (bd_info d)
   \<and> dev_Size (bd_info d) \<noteq> 0
   \<and> (\<forall>n m. device_node d n \<and> m \<in> set (bd_Mountpoints n) \<longrightarrow> mounted_removably m)
   \<and> (allowFixed \<or> dev_Removable (bd_info d) \<or> dev_Transport (bd_info d) = ''usb'')"
  by (rule metadata_policy)

subsection \<open>Revalidation\<close>

lemma kernel_id_Inr: "KernelDeviceID stat path = Inr k \<longleftrightarrow> stat path = Inr (True, k)"
  by (auto simp: KernelDeviceID_def result_simps split: prod.splits)

lemma contains_iff: "contains xs x \<longleftrightarrow> x \<in> set xs"
  by (auto simp: contains_def list_ex_iff)

lemma validate_target_iff:
  "ValidateTarget stat root path d fx = Inr () \<longleftrightarrow>
     ValidateTargetMetadata path d fx = Inr () \<and> (\<exists>k. stat path = Inr (True, k))
     \<and> (\<exists>disks. root = Inr disks \<and> base_name path \<notin> set disks)"
  by (auto simp: ValidateTarget_def bindE_eq_Inr mapE_eq_Inr check_eq_Inr kernel_id_Inr contains_iff)

lemma revalidate_open_iff:
  "RevalidateOpenBoundTarget (Inr ds) stat root path kid fx = Inr (d, k) \<longleftrightarrow>
     find (\<lambda>n. bd_Path n = path) (concat (map Flatten ds)) = Some d
     \<and> ValidateTarget stat root path d fx = Inr () \<and> stat path = Inr (True, k) \<and> (kid \<noteq> 0 \<longrightarrow> k = kid)"
  by (auto simp: RevalidateOpenBoundTarget_def bindE_eq_Inr Find_Inr kernel_id_Inr split: if_splits)

text \<open>
  A bound target that passes revalidation without the fixed-disk override is, in the fresh
  device list, a whole writable disk at the same path that is removable or USB, has no
  protected mount, does not back the running root file system, and is still the kernel block
  device that was bound.
\<close>

theorem revalidated_target_safe:
  assumes "RevalidateOpenBoundTarget (Inr ds) stat (Inr rootDisks) path kid False = Inr (d, k)"
  shows "(\<exists>r \<in> set ds. d \<in> set (Flatten r)) \<and> bd_Path d = path \<and> dev_Type (bd_info d) = ''disk''
    \<and> \<not> dev_ReadOnly (bd_info d)
    \<and> (dev_Removable (bd_info d) \<or> dev_Transport (bd_info d) = ''usb'')
    \<and> (\<forall>n \<in> set (Flatten d). \<forall>m \<in> set (bd_Mountpoints n). removable_mount (clean_path (trim_space m)))
    \<and> base_name path \<notin> set rootDisks \<and> stat path = Inr (True, k) \<and> (kid \<noteq> 0 \<longrightarrow> k = kid)"
proof -
  from assms have f: "find (\<lambda>n. bd_Path n = path) (concat (map Flatten ds)) = Some d"
    and v: "ValidateTargetMetadata path d False = Inr ()" "base_name path \<notin> set rootDisks"
      "stat path = Inr (True, k)" "kid \<noteq> 0 \<longrightarrow> k = kid"
    by (auto simp: revalidate_open_iff validate_target_iff)
  from f have "d \<in> set (concat (map Flatten ds))" by (metis find_Some_iff nth_mem)
  with v show ?thesis by (auto simp: metadata_iff)
qed

lemma source_outside_iff:
  "EnsureOpenFileNotOnTarget stat (Some (Inr (True, fdev))) d = Inr () \<longleftrightarrow>
     (\<forall>n \<in> set (Flatten d). bd_Path n \<noteq> [] \<longrightarrow> (\<exists>rdev. stat (bd_Path n) = Inr (True, rdev) \<and> rdev \<noteq> fdev))"
proof -
  have "is_ok (check_component stat t fdev n) \<longleftrightarrow>
      (bd_Path n \<noteq> [] \<longrightarrow> (\<exists>rdev. stat (bd_Path n) = Inr (True, rdev) \<and> rdev \<noteq> fdev))" for t n
    by (cases "stat (bd_Path n)") (auto simp: check_component_def split: if_splits)
  then show ?thesis by (simp add: EnsureOpenFileNotOnTarget_def is_ok_bind_unit traverse_check)
qed

text \<open>
  The source check passes exactly when no component of the target disk, partitions
  included, is the block device the open image lives on; a component that is not a block device
  any more refuses the target.
\<close>

theorem source_never_on_target:
  "EnsureOpenFileNotOnTarget stat (Some (Inr (True, fdev))) d = Inr () \<longleftrightarrow>
     (\<forall>n \<in> set (Flatten d). bd_Path n \<noteq> [] \<longrightarrow> (\<exists>rdev. stat (bd_Path n) = Inr (True, rdev) \<and> rdev \<noteq> fdev))"
  by (rule source_outside_iff)

subsection \<open>Unmounting\<close>

interpretation unmount: less_order "\<lambda>a b. mountDepth b < mountDepth a"
  by unfold_locales auto

definition below :: "string \<Rightarrow> string \<Rightarrow> bool" where
  "below outer inner \<longleftrightarrow>
     (let o1 = clean_path outer; i1 = clean_path inner in
      i1 \<noteq> o1 \<and> has_prefix i1 (if o1 = ''/'' then ''/'' else o1 @ ''/''))"

lemma has_prefix_iff: "has_prefix s p \<longleftrightarrow> (\<exists>r. s = p @ r)"
  by (metis append_eq_conv_conj has_prefix_def append_take_drop_id)

lemma clean_relative_nonempty:
  "\<forall>e \<in> set acc. e \<noteq> [] \<Longrightarrow> \<forall>e \<in> set (clean_relative acc ps). e \<noteq> []"
proof (induction acc ps rule: clean_relative.induct)
  case (2 acc p ps)
  have t: "\<forall>e \<in> set (tl acc). e \<noteq> []" using "2.prems" by (cases acc) auto
  consider "p = [] \<or> p = ''.''" | "\<not> (p = [] \<or> p = ''.'')" "p = ''..'' \<and> acc \<noteq> [] \<and> hd acc \<noteq> ''..''"
    | "\<not> (p = [] \<or> p = ''.'')" "\<not> (p = ''..'' \<and> acc \<noteq> [] \<and> hd acc \<noteq> ''..'')" by blast
  then show ?case
  proof cases
    case 1
    then have "clean_relative acc (p # ps) = clean_relative acc ps" by simp
    with "2.IH"(1) [OF 1 "2.prems"] show ?thesis by (simp only:)
  next
    case 2
    then have "clean_relative acc (p # ps) = clean_relative (tl acc) ps" by simp
    with "2.IH"(2) [OF 2 t] show ?thesis by (simp only:)
  next
    case 3
    then have "\<forall>e \<in> set (p # acc). e \<noteq> []" using "2.prems" by simp
    moreover have "clean_relative acc (p # ps) = clean_relative (p # acc) ps" using 3 by auto
    ultimately show ?thesis using "2.IH"(3) [OF 3] by (simp only:)
  qed
qed simp

lemma clean_path_nonempty: "clean_path p \<noteq> []"
proof (cases "clean_relative [] (split_path p)")
  case (Cons e es)
  then have "e \<noteq> []" using clean_relative_nonempty [of "[]" "split_path p"] by simp
  then have "join_path (e # es) \<noteq> []" by (cases es) auto
  then show ?thesis using Cons by (simp add: clean_path_def clean_rooted_def)
qed (simp add: clean_path_def clean_rooted_def)

lemma below_deeper: "below outer inner \<Longrightarrow> mountDepth outer < mountDepth inner"
proof -
  assume b: "below outer inner"
  let ?o = "clean_path outer" and ?i = "clean_path inner"
  let ?c = "\<lambda>s. length (filter (\<lambda>c. c = CHR ''/'') s)"
  show ?thesis
  proof (cases "?o = ''/''")
    case True
    with b have "?i \<noteq> ''/''" "take 1 ?i = ''/''" by (auto simp: below_def Let_def has_prefix_def)
    then have "0 < ?c ?i" by (cases ?i) auto
    with True \<open>?i \<noteq> ''/''\<close> show ?thesis by (simp add: mountDepth_def Let_def)
  next
    case False
    with b obtain r where r: "?i = ?o @ ''/'' @ r"
      unfolding below_def Let_def has_prefix_iff by (simp only: if_False append.assoc) blast
    then have "?c ?o < ?c ?i" by simp
    moreover have "?i \<noteq> ''/''" using r clean_path_nonempty [of outer] by (cases ?o) auto
    ultimately show ?thesis using False by (simp add: mountDepth_def Let_def)
  qed
qed

text \<open>
  Unmounting visits every mount point of the disk and its partitions exactly once, and never
  before one that lies below it.
\<close>

theorem unmount_deepest_first:
  "mset (unmount_order d) = (\<Sum>n \<in># mset (Flatten d). mset (bd_Mountpoints n))
   \<and> sorted_wrt (\<lambda>a b. \<not> below a b) (unmount_order d)"
proof
  have "mset (concat (map bd_Mountpoints (filter (\<lambda>n. 0 < length (bd_Mountpoints n)) ns)))
      = (\<Sum>n \<in># mset ns. mset (bd_Mountpoints n))" for ns
    by (induction ns) auto
  then show "mset (unmount_order d) = (\<Sum>n \<in># mset (Flatten d). mset (bd_Mountpoints n))"
    by (simp add: unmount_order_def MountedDescendants_def)
  have "sorted_wrt (\<lambda>a b. \<not> mountDepth a < mountDepth b) (unmount_order d)"
    unfolding unmount_order_def by (rule unmount.sorted_sort_by)
  then show "sorted_wrt (\<lambda>a b. \<not> below a b) (unmount_order d)"
    by (rule sorted_wrt_mono_rel [rotated]) (auto dest: below_deeper)
qed

subsection \<open>Identity tokens\<close>

text \<open>
  Printing a 64-bit number in decimal and parsing it back gives the same number, so sizes
  shown, hashed into identities and read from sysfs cannot be confused.
\<close>

theorem decimal_roundtrip: "parse_uint64 (decimal x) = Inr x"
  by (rule parse_decimal)

lemma digits_no_nul: "NUL \<notin> set (digits_rev k n)"
proof (induction k arbitrary: n)
  case (Suc k)
  have "NUL \<noteq> hex_digit d" if "d < 10" for d
  proof
    assume "NUL = hex_digit d"
    then have "(of_char (hex_digit d) :: nat) = of_char NUL" by (simp only:)
    with that show False by (simp add: hex_digit_def NUL_def)
  qed
  then show ?case using Suc by auto
qed simp

lemma decimal_no_nul: "NUL \<notin> set (decimal x)"
  by (simp add: decimal_def digits_no_nul)

definition nul_free :: "string list \<Rightarrow> bool" where
  "nul_free fs \<longleftrightarrow> (\<forall>f \<in> set fs. NUL \<notin> set f)"

lemma append_nul_eq:
  "NUL \<notin> set a \<Longrightarrow> NUL \<notin> set b \<Longrightarrow> a @ NUL # x = b @ NUL # y \<Longrightarrow> a = b \<and> x = y"
proof (induction a arbitrary: b)
  case Nil
  then show ?case by (cases b) auto
next
  case (Cons c a)
  then show ?case by (cases b) auto
qed

lemma join_nul_inj:
  "nul_free xs \<Longrightarrow> nul_free ys \<Longrightarrow> length xs = length ys \<Longrightarrow> join_nul xs = join_nul ys \<Longrightarrow> xs = ys"
proof (induction xs arbitrary: ys rule: join_nul.induct)
  case (2 f)
  then show ?case by (cases ys rule: join_nul.cases) auto
next
  case (3 f g gs)
  then obtain f' g' gs' where ys: "ys = f' # g' # gs'" by (cases ys rule: join_nul.cases) auto
  have "f = f' \<and> join_nul (g # gs) = join_nul (g' # gs')"
    using 3 by (intro append_nul_eq) (auto simp: ys nul_free_def)
  then show ?case using "3.IH" [of "g' # gs'"] "3.prems" by (auto simp: ys nul_free_def)
qed simp

lemma string_bytes_inj: "string_bytes a = string_bytes b \<longleftrightarrow> a = b"
  by (metis string_bytes_string)

text \<open>
  Two device snapshots with NUL-free fields that have the same identity token agree on path,
  type, size, device number, serial, WWN, disk sequence, vendor, model, transport and both
  flags, unless their two preimages are a SHA-256 collision: the separator makes the preimage
  unambiguous.
\<close>

theorem identity_token_binds:
  assumes "IdentityToken a = IdentityToken b"
    and "nul_free (identity_fields a)" and "nul_free (identity_fields b)"
    and "sha256 (string_bytes (join_nul (identity_fields a)))
       = sha256 (string_bytes (join_nul (identity_fields b)))
     \<Longrightarrow> join_nul (identity_fields a) = join_nul (identity_fields b)"
  shows "bd_Path a = bd_Path b \<and> dev_Type (bd_info a) = dev_Type (bd_info b)
    \<and> dev_Size (bd_info a) = dev_Size (bd_info b) \<and> dev_MajorMinor (bd_info a) = dev_MajorMinor (bd_info b)
    \<and> dev_Serial (bd_info a) = dev_Serial (bd_info b) \<and> dev_WWN (bd_info a) = dev_WWN (bd_info b)
    \<and> dev_DiskSequence (bd_info a) = dev_DiskSequence (bd_info b)
    \<and> dev_Vendor (bd_info a) = dev_Vendor (bd_info b) \<and> dev_Model (bd_info a) = dev_Model (bd_info b)
    \<and> dev_Transport (bd_info a) = dev_Transport (bd_info b)
    \<and> dev_Removable (bd_info a) = dev_Removable (bd_info b)
    \<and> dev_ReadOnly (bd_info a) = dev_ReadOnly (bd_info b)"
proof -
  have "join_nul (identity_fields a) = join_nul (identity_fields b)"
    using assms(1,4) by (simp add: IdentityToken_def sha256_hex_def hex_encode_inj)
  then have "identity_fields a = identity_fields b"
    using assms(2,3) by (intro join_nul_inj) (simp_all add: identity_fields_def Let_def)
  then show ?thesis
    by (auto simp: identity_fields_def Let_def decimal_inj format_bool_def split: if_splits)
qed

section \<open>Concrete devices\<close>

definition sample_disk :: BlockDevice where
  "sample_disk = BlockDevice
     \<lparr> dev_Name = ''sdb'', dev_Path = ''/dev/sdb'', dev_Type = ''disk'', dev_Size = 262144,
       dev_Model = ''Stick'', dev_Vendor = ''Acme'', dev_Transport = ''usb'', dev_Removable = True,
       dev_ReadOnly = False, dev_Hotplug = True, dev_ParentName = [], dev_MajorMinor = ''8:16'',
       dev_Serial = ''S1'', dev_WWN = [], dev_DiskSequence = ''7'', dev_LogicalSectorSize = 512,
       dev_PhysicalSectorSize = 512, dev_Identity = [], dev_Mountpoints = [] \<rparr> []"

definition sample_stat :: stat_block where
  "sample_stat path = (if path = ''/dev/sdb'' then Inr (True, 2064) else Inl (External 2))"

theorem revalidated_target_safe_witness:
  "RevalidateOpenBoundTarget (Inr [sample_disk]) sample_stat (Inr [''nvme0n1'']) ''/dev/sdb'' 2064 False
     = Inr (sample_disk, 2064) \<and> base_name ''/dev/sdb'' \<notin> set [''nvme0n1'']"
proof -
  have r: "RevalidateOpenBoundTarget (Inr [sample_disk]) sample_stat (Inr [''nvme0n1'']) ''/dev/sdb'' 2064 False
     = Inr (sample_disk, 2064)"
    by (simp add: revalidate_open_iff validate_target_iff metadata_iff sample_disk_def sample_stat_def base_name_def)
  from revalidated_target_safe [OF r] r show ?thesis by simp
qed

text \<open>The stick with a partition that is mounted on a path with detours and a line end.\<close>

definition sample_partition :: "string \<Rightarrow> BlockDevice" where
  "sample_partition m = BlockDevice ((bd_info sample_disk)\<lparr> dev_Path := ''/dev/sdb1'', dev_Type := ''part'', dev_Mountpoints := [m] \<rparr>) []"

definition mounted_disk :: "string \<Rightarrow> BlockDevice" where
  "mounted_disk m = BlockDevice (bd_info sample_disk) [sample_partition m]"

lemma mounted_disk_nodes: "device_node (mounted_disk m) n \<longleftrightarrow> n = mounted_disk m \<or> n = sample_partition m"
  unfolding Flatten_nodes [symmetric] by (auto simp: mounted_disk_def sample_partition_def)

lemma sample_mountpoint: "mounted_removably (''/mnt/../run//media/u'' @ [CHR 0x0A])"
proof -
  let ?p = "''/mnt/../run//media/u''"
  have "list_all (\<lambda>r. \<not> has_prefix ?p r \<and> \<not> has_prefix (rev ?p) (rev r)) space_runes" by code_simp
  moreover have "list_all (\<lambda>r. r \<in> set space_runes) [[CHR 0x0A]]" by code_simp
  ultimately have "trims_to (?p @ [CHR 0x0A]) ?p"
    unfolding trims_to_def list_all_iff by (intro conjI exI [of _ "[]"] exI [of _ "[[CHR 0x0A]]"]) simp_all
  moreover have "?p = slashed [''mnt'', ''..'', ''run'', [], ''media'', ''u'']" by simp
  then have "resolves ?p (foldl enter [] [''mnt'', ''..'', ''run'', [], ''media'', ''u''])"
    unfolding resolves_def by (intro exI [of _ "[''mnt'', ''..'', ''run'', [], ''media'', ''u'']"]) simp
  moreover have "removable_place (foldl enter [] [''mnt'', ''..'', ''run'', [], ''media'', ''u''])" by code_simp
  ultimately show ?thesis unfolding mounted_removably_def by blast
qed

lemma not_removable: "\<not> mounted_removably ''/mnt/../boot''"
proof -
  have "trim_space ''/mnt/../boot'' = ''/mnt/../boot''" by (rule trim_space_id) simp_all
  then have "\<not> removable_mount (clean_path (trim_space ''/mnt/../boot''))" 
    by (simp add: removable_mount_def removable_roots_def clean_path_def clean_rooted_def is_abs_def has_prefix_def)
  then show ?thesis by (simp add: removable_mount_trimmed)
qed

theorem target_policy_exact_witness:
  "ValidateTargetMetadata ''/dev/sdb'' (mounted_disk (''/mnt/../run//media/u'' @ [CHR 0x0A])) False = Inr ()
   \<and> ValidateTargetMetadata ''/dev/sdb'' (mounted_disk ''/mnt/../boot'') False \<noteq> Inr ()"
  unfolding target_policy_exact mounted_disk_nodes
  using sample_mountpoint not_removable by (auto simp: mounted_disk_def sample_partition_def sample_disk_def)

theorem source_never_on_target_witness:
  "EnsureOpenFileNotOnTarget sample_stat (Some (Inr (True, 66306))) sample_disk = Inr ()"
  unfolding source_never_on_target by (simp add: sample_disk_def sample_stat_def)

theorem identity_token_binds_witness:
  "dev_Serial (bd_info sample_disk) = ''S1''"
proof -
  have n: "nul_free (identity_fields sample_disk)"
    using decimal_no_nul [of 262144]
    by (simp add: nul_free_def identity_fields_def sample_disk_def format_bool_def NUL_def)
  from identity_token_binds [of sample_disk sample_disk, OF refl n n] show ?thesis by (simp add: sample_disk_def)
qed

end
