(* ===== verification/FfuRestore.thy ===== *)
theory FfuRestore
  imports FfuVerify Extents Target
begin

text \<open>
  \<open>internal/ffu/restore_target_plan_linux.go\<close> and \<open>restore_full_flash_validation_linux.go\<close>: the
  plan that binds an authenticated image to one target, and the decision that the image is a
  complete full-flash image. The outcome of \<open>AuthenticateSingleStoreV1Integrity\<close>, whose
  catalog and signature checks are not modelled, is a parameter.
\<close>

section \<open>Data\<close>

record AuthenticatedIntegrityPlan =
  ai_Schema :: nat
  ai_SourceFileSize :: u64
  ai_DescriptorPlanSHA256 :: string
  ai_HashTablePlanSHA256 :: string
  ai_CatalogAuthenticationPlanSHA256 :: string
  ai_ContentVerificationSHA256 :: string
  ai_CatalogSHA256 :: string
  ai_HashTableSHA256 :: string
  ai_HashEntryCount :: u64
  ai_CoverageOffset :: u64
  ai_CoverageLength :: u64
  ai_CoverageEnd :: u64
  ai_ChunkSizeBytes :: u64
  ai_VerifiedChunkCount :: u64
  ai_FinalChunkZeroPaddingBytes :: u64
  ai_HashTableCatalogAuthenticated :: bool
  ai_ContentMatchesHashTable :: bool
  ai_IntegrityAuthenticated :: bool
  ai_RevocationChecked :: bool
  ai_TimestampVerified :: bool
  ai_TargetSizeBindingRequired :: bool
  ai_ExecutionSupported :: bool
  ai_PlanSHA256 :: string
  ai_Limitations :: "string list"

record RestoreTargetRequest =
  rq_DevicePath :: string
  rq_ExpectedTargetIdentity :: string
  rq_TargetSizeBytes :: u64
  rq_LogicalSectorSizeBytes :: u64
  rq_PhysicalSectorSizeBytes :: u64

record ResolvedWriteExtent =
  ex_DescriptorIndex :: u32
  ex_LocationIndex :: u32
  ex_Anchor :: string
  ex_TargetStartBlock :: u64
  ex_TargetEndBlock :: u64
  ex_TargetOffset :: u64
  ex_TargetLength :: u64
  ex_PayloadOffset :: u64
  ex_PayloadLength :: u64

record RestoreTargetPlan =
  rt_Schema :: nat
  rt_Mode :: string
  rt_Destructive :: bool
  rt_SourceFileSize :: u64
  rt_AuthenticatedIntegrityPlanSHA256 :: string
  rt_DescriptorPlanSHA256 :: string
  rt_CatalogSHA256 :: string
  rt_HashTableSHA256 :: string
  rt_DevicePath :: string
  rt_ExpectedTargetIdentity :: string
  rt_TargetSizeBytes :: u64
  rt_LogicalSectorSizeBytes :: u64
  rt_PhysicalSectorSizeBytes :: u64
  rt_StoreBlockSizeBytes :: u64
  rt_TargetBlockCount :: u64
  rt_MinimumTargetBytes :: u64
  rt_WriteExtentCount :: u64
  rt_MutationBytes :: u64
  rt_ResolvedWriteExtents :: "ResolvedWriteExtent list"
  rt_ValidationDescriptorCount :: u64
  rt_SourceIntegrityAuthenticated :: bool
  rt_TargetIdentityBound :: bool
  rt_TargetGeometryBound :: bool
  rt_DestinationMapResolved :: bool
  rt_DestinationOverlap :: bool
  rt_ValidationChecksRequired :: bool
  rt_ValidationChecksResolved :: bool
  rt_ConfirmationRequired :: bool
  rt_ExecutionSupported :: bool
  rt_PlanSHA256 :: string
  rt_Warnings :: "string list"
  rt_Limitations :: "string list"

section \<open>The target request\<close>

definition validFFUTargetSectorSize :: "u64 \<Rightarrow> bool" where
  "validFFUTargetSectorSize v \<longleftrightarrow> 512 \<le> v \<and> v \<le> 65536 \<and> and v (v - 1) = 0"

definition validateRestoreTargetRequest :: "RestoreTargetRequest \<Rightarrow> RestoreTargetRequest res" where
  "validateRestoreTargetRequest request =
     (let path = trim_space (rq_DevicePath request);
          identity = trim_space (rq_ExpectedTargetIdentity request);
          logical = rq_LogicalSectorSizeBytes request;
          physical = rq_PhysicalSectorSizeBytes request
      in if \<not> is_abs path \<or> \<not> has_prefix path ''/dev/'' \<or> clean_rooted path \<noteq> path
            \<or> path \<noteq> rq_DevicePath request
      then Inl (Errorf ''FFU target path must be a canonical absolute path beneath /dev, not %q''
                  [FS (rq_DevicePath request)])
      else if identity = [] \<or> identity \<noteq> rq_ExpectedTargetIdentity request \<or> 4096 < length identity
      then Inl (Msg ''FFU expected target identity must be non-empty, canonical, and bounded'')
      else if rq_TargetSizeBytes request = 0
      then Inl (Msg ''FFU target size is zero'')
      else if \<not> validFFUTargetSectorSize logical \<or> \<not> validFFUTargetSectorSize physical
              \<or> physical < logical \<or> physical mod logical \<noteq> 0
      then Inl (Msg ''FFU target sector geometry is invalid'')
      else if rq_TargetSizeBytes request mod logical \<noteq> 0
              \<or> rq_TargetSizeBytes request mod physical \<noteq> 0
      then Inl (Msg ''FFU target size is not aligned to target sector geometry'')
      else Inr request)"

section \<open>Resolving the destinations\<close>

text \<open>The body of the inner loop: one location of one write descriptor.\<close>

definition resolve_location ::
  "u64 \<Rightarrow> u64 \<Rightarrow> WriteDescriptor \<Rightarrow> DiskLocation \<Rightarrow> ResolvedWriteExtent res" where
  "resolve_location blockSize targetBlocks w l =
     (let loc = [FN (unat (wd_Index w)), FN (unat (loc_Index l))] in
      bindE
        (if loc_Anchor l = ''begin'' then Inr (u64_of (loc_BlockIndex l))
         else if loc_Anchor l = ''end'' then
           (if targetBlocks < loc_BlockEnd l
            then Inl (Errorf ''FFU end-relative destination %d:%d exceeds target block count %d''
                        (loc @ [FN (unat targetBlocks)]))
            else Inr (targetBlocks - loc_BlockEnd l))
         else Inl (Errorf ''FFU write descriptor %d location %d has unsupported anchor %q''
                     (loc @ [FS (loc_Anchor l)]))) (\<lambda>start.
      let beyond = Inl (Errorf ''FFU destination %d:%d exceeds target block count %d''
                          (loc @ [FN (unat targetBlocks)])) in
      case checkedAdd start (u64_of (wd_BlockCount w)) of Inl _ \<Rightarrow> beyond | Inr fin \<Rightarrow>
      if targetBlocks < fin then beyond
      else
      bindE (mapE (\<lambda>_. Errorf ''FFU destination %d:%d byte offset overflows'' loc)
        (checkedMul start blockSize)) (\<lambda>offset.
      case checkedMul (u64_of (wd_BlockCount w)) blockSize of
        Inl _ \<Rightarrow> Inl (Errorf ''FFU destination %d:%d byte length is inconsistent'' loc)
      | Inr len \<Rightarrow>
          if len \<noteq> wd_PayloadLength w
          then Inl (Errorf ''FFU destination %d:%d byte length is inconsistent'' loc)
          else Inr \<lparr> ex_DescriptorIndex = wd_Index w,
                     ex_LocationIndex = loc_Index l,
                     ex_Anchor = loc_Anchor l,
                     ex_TargetStartBlock = start,
                     ex_TargetEndBlock = fin,
                     ex_TargetOffset = offset,
                     ex_TargetLength = len,
                     ex_PayloadOffset = wd_PayloadOffset w,
                     ex_PayloadLength = wd_PayloadLength w \<rparr>)))"

definition resolve_write ::
  "u64 \<Rightarrow> u64 \<Rightarrow> WriteDescriptor \<Rightarrow> ResolvedWriteExtent list res" where
  "resolve_write blockSize targetBlocks w =
     (let bad = Inl (Errorf ''FFU write descriptor %d has inconsistent payload geometry''
                       [FN (unat (wd_Index w))]) in
      case checkedMul (u64_of (wd_BlockCount w)) blockSize of Inl _ \<Rightarrow> bad
      | Inr expectedPayloadLength \<Rightarrow>
          if wd_BlockCount w = 0 \<or> wd_PayloadLength w = 0
             \<or> wd_PayloadLength w \<noteq> expectedPayloadLength then bad
          else traverse (resolve_location blockSize targetBlocks w) (wd_Locations w))"

definition extent_less :: "ResolvedWriteExtent \<Rightarrow> ResolvedWriteExtent \<Rightarrow> bool" where
  "extent_less l r =
     (if ex_TargetStartBlock l \<noteq> ex_TargetStartBlock r
      then ex_TargetStartBlock l < ex_TargetStartBlock r
      else if ex_TargetEndBlock l \<noteq> ex_TargetEndBlock r
      then ex_TargetEndBlock l < ex_TargetEndBlock r
      else if ex_DescriptorIndex l \<noteq> ex_DescriptorIndex r
      then ex_DescriptorIndex l < ex_DescriptorIndex r
      else ex_LocationIndex l < ex_LocationIndex r)"

text \<open>
  The loop that accounts for the bytes and refuses neighbours that overlap; \<open>prev\<close> is the
  extent before, \<open>None\<close> at index 0.
\<close>

fun account_extents ::
  "ResolvedWriteExtent option \<Rightarrow> ResolvedWriteExtent list \<Rightarrow> u64 \<Rightarrow> u64 res" where
  "account_extents prev [] mutationBytes = Inr mutationBytes"
| "account_extents prev (e # es) mutationBytes =
     (if prev \<noteq> None \<and> ex_TargetStartBlock e < ex_TargetEndBlock (the prev)
      then Inl (Errorf ''FFU target-specific destination overlap between %d:%d and %d:%d''
                  [FN (unat (ex_DescriptorIndex (the prev))), FN (unat (ex_LocationIndex (the prev))),
                   FN (unat (ex_DescriptorIndex e)), FN (unat (ex_LocationIndex e))])
      else bindE (mapE (\<lambda>_. Msg ''FFU target mutation byte count overflows'')
             (checkedAdd mutationBytes (ex_TargetLength e)))
             (account_extents (Some e) es))"

definition resolveRestoreWriteExtents ::
  "DescriptorPlan \<Rightarrow> u64 \<Rightarrow> (ResolvedWriteExtent list \<times> u64) res" where
  "resolveRestoreWriteExtents descriptor targetBlocks =
     bindE (traverse (resolve_write (dp_BlockSizeBytes descriptor) targetBlocks)
              (dp_WriteDescriptors descriptor)) (\<lambda>groups.
     let extents = sort_by extent_less (concat groups) in
     bindE (account_extents None extents 0) (\<lambda>mutationBytes.
     Inr (extents, mutationBytes)))"

section \<open>The target plan\<close>

definition writeSignatureUint64 :: "u64 \<Rightarrow> bytes" where
  "writeSignatureUint64 v = put_u64 v"

definition writeSignatureString :: "string \<Rightarrow> bytes" where
  "writeSignatureString v = writeSignatureUint64 (of_nat (length v)) @ string_bytes v"

definition writeSignatureBool :: "bool \<Rightarrow> bytes" where
  "writeSignatureBool v = (if v then writeSignatureUint64 1 else writeSignatureUint64 0)"

definition writeRestoreUint64 :: "u64 \<Rightarrow> bytes" where
  "writeRestoreUint64 v = writeSignatureUint64 v"

definition writeRestoreString :: "string \<Rightarrow> bytes" where
  "writeRestoreString v = writeSignatureString v"

definition writeRestoreBool :: "bool \<Rightarrow> bytes" where
  "writeRestoreBool v = writeSignatureBool v"

definition digest_extent :: "ResolvedWriteExtent \<Rightarrow> bytes" where
  "digest_extent e =
     writeRestoreUint64 (u64_of (ex_DescriptorIndex e)) @ writeRestoreUint64 (u64_of (ex_LocationIndex e))
     @ writeRestoreString (ex_Anchor e) @ writeRestoreUint64 (ex_TargetStartBlock e)
     @ writeRestoreUint64 (ex_TargetEndBlock e) @ writeRestoreUint64 (ex_TargetOffset e)
     @ writeRestoreUint64 (ex_TargetLength e) @ writeRestoreUint64 (ex_PayloadOffset e)
     @ writeRestoreUint64 (ex_PayloadLength e)"

definition restore_target_plan_preimage :: "RestoreTargetPlan \<Rightarrow> bytes" where
  "restore_target_plan_preimage p =
     writeRestoreUint64 (of_nat (rt_Schema p)) @ writeRestoreString (rt_Mode p)
     @ writeRestoreBool (rt_Destructive p) @ writeRestoreUint64 (rt_SourceFileSize p)
     @ writeRestoreString (rt_AuthenticatedIntegrityPlanSHA256 p)
     @ writeRestoreString (rt_DescriptorPlanSHA256 p) @ writeRestoreString (rt_CatalogSHA256 p)
     @ writeRestoreString (rt_HashTableSHA256 p) @ writeRestoreString (rt_DevicePath p)
     @ writeRestoreString (rt_ExpectedTargetIdentity p) @ writeRestoreUint64 (rt_TargetSizeBytes p)
     @ writeRestoreUint64 (rt_LogicalSectorSizeBytes p)
     @ writeRestoreUint64 (rt_PhysicalSectorSizeBytes p)
     @ writeRestoreUint64 (rt_StoreBlockSizeBytes p) @ writeRestoreUint64 (rt_TargetBlockCount p)
     @ writeRestoreUint64 (rt_MinimumTargetBytes p) @ writeRestoreUint64 (rt_WriteExtentCount p)
     @ writeRestoreUint64 (rt_MutationBytes p)
     @ concat (map digest_extent (rt_ResolvedWriteExtents p))
     @ writeRestoreUint64 (rt_ValidationDescriptorCount p)
     @ writeRestoreBool (rt_SourceIntegrityAuthenticated p)
     @ writeRestoreBool (rt_TargetIdentityBound p) @ writeRestoreBool (rt_TargetGeometryBound p)
     @ writeRestoreBool (rt_DestinationMapResolved p) @ writeRestoreBool (rt_DestinationOverlap p)
     @ writeRestoreBool (rt_ValidationChecksRequired p)
     @ writeRestoreBool (rt_ValidationChecksResolved p)
     @ writeRestoreBool (rt_ConfirmationRequired p) @ writeRestoreBool (rt_ExecutionSupported p)
     @ concat (map writeRestoreString (rt_Warnings p))
     @ concat (map writeRestoreString (rt_Limitations p))"

definition restoreTargetPlanDigest :: "RestoreTargetPlan \<Rightarrow> string" where
  "restoreTargetPlanDigest p = sha256_hex (restore_target_plan_preimage p)"

definition restoreTargetWarnings :: "string list" where
  "restoreTargetWarnings =
    [''Restoring an FFU is destructive and can overwrite partition tables and data on the complete selected target.'',
     ''The exact target identity, capacity, and sector geometry must be rediscovered and match immediately before any future write.'',
     ''FFU validation descriptors are not yet resolved or executed, so this plan cannot authorize restoration.'',
     ''Software authentication and restoration cannot prove that the resulting device will boot or that the complete device is healthy.'']"

definition restoreTargetLimitations :: "string list" where
  "restoreTargetLimitations =
    [''the plan is bound to caller-discovered target facts but opens no device'',
     ''a privileged provider must independently rediscover and revalidate identity, size, sector geometry, source evidence, and the complete plan'',
     ''target-side validation descriptor semantics, cancellation, write ordering, flush, readback, and changed-media reporting remain unresolved'',
     ''software planning and verification cannot prove physical bootability or whole-device health'']"

definition equalRestoreStrings :: "string list \<Rightarrow> string list \<Rightarrow> bool" where
  "equalRestoreStrings left right =
     (length left = length right \<and> list_all (\<lambda>(a, b). a = b) (zip left right))"

text \<open>The loop of the validator over the extents, with their index.\<close>

fun validate_extents ::
  "RestoreTargetPlan \<Rightarrow> nat \<Rightarrow> ResolvedWriteExtent option \<Rightarrow> ResolvedWriteExtent list \<Rightarrow> u64
     \<Rightarrow> u64 res" where
  "validate_extents plan index prev [] mutationBytes = Inr mutationBytes"
| "validate_extents plan index prev (e # es) mutationBytes =
     (if (ex_Anchor e \<noteq> ''begin'' \<and> ex_Anchor e \<noteq> ''end'')
         \<or> ex_TargetEndBlock e \<le> ex_TargetStartBlock e
         \<or> rt_TargetBlockCount plan < ex_TargetEndBlock e
         \<or> checkedMul (ex_TargetStartBlock e) (rt_StoreBlockSizeBytes plan)
             \<noteq> Inr (ex_TargetOffset e)
         \<or> checkedMul (ex_TargetEndBlock e - ex_TargetStartBlock e) (rt_StoreBlockSizeBytes plan)
             \<noteq> Inr (ex_TargetLength e)
         \<or> ex_PayloadLength e \<noteq> ex_TargetLength e
         \<or> (case checkedAdd (ex_PayloadOffset e) (ex_PayloadLength e) of
              Inl _ \<Rightarrow> True | Inr payloadEnd \<Rightarrow> rt_SourceFileSize plan < payloadEnd)
      then Inl (Errorf ''FFU restore target-plan extent %d is inconsistent'' [FN index])
      else if prev \<noteq> None \<and> ex_TargetStartBlock e < ex_TargetEndBlock (the prev)
      then Inl (Msg ''FFU restore target-plan contains overlapping extents'')
      else bindE (mapE (\<lambda>_. Msg ''FFU restore target-plan mutation accounting overflows'')
             (checkedAdd mutationBytes (ex_TargetLength e)))
             (validate_extents plan (Suc index) (Some e) es))"

definition restore_request :: "RestoreTargetPlan \<Rightarrow> RestoreTargetRequest" where
  "restore_request plan =
     \<lparr> rq_DevicePath = rt_DevicePath plan,
       rq_ExpectedTargetIdentity = rt_ExpectedTargetIdentity plan,
       rq_TargetSizeBytes = rt_TargetSizeBytes plan,
       rq_LogicalSectorSizeBytes = rt_LogicalSectorSizeBytes plan,
       rq_PhysicalSectorSizeBytes = rt_PhysicalSectorSizeBytes plan \<rparr>"

definition validateRestoreTargetPlan :: "RestoreTargetPlan \<Rightarrow> unit res" where
  "validateRestoreTargetPlan plan =
     (if rt_Schema plan \<noteq> 1 \<or> rt_Mode plan \<noteq> ''ffu-restore'' \<or> \<not> rt_Destructive plan
         \<or> \<not> rt_SourceIntegrityAuthenticated plan \<or> \<not> rt_TargetIdentityBound plan
         \<or> \<not> rt_TargetGeometryBound plan \<or> \<not> rt_DestinationMapResolved plan
         \<or> rt_DestinationOverlap plan \<or> \<not> rt_ConfirmationRequired plan
         \<or> rt_ExecutionSupported plan \<or> rt_ValidationChecksResolved plan
      then Inl (Msg ''invalid FFU restore target-plan envelope'')
      else
      bindE (validateRestoreTargetRequest (restore_request plan)) (\<lambda>_.
      if rt_StoreBlockSizeBytes plan = 0
         \<or> rt_TargetSizeBytes plan mod rt_StoreBlockSizeBytes plan \<noteq> 0
         \<or> rt_TargetBlockCount plan \<noteq> rt_TargetSizeBytes plan div rt_StoreBlockSizeBytes plan
         \<or> rt_TargetSizeBytes plan < rt_MinimumTargetBytes plan
         \<or> rt_WriteExtentCount plan \<noteq> of_nat (length (rt_ResolvedWriteExtents plan))
         \<or> rt_ValidationChecksRequired plan \<noteq> (rt_ValidationDescriptorCount plan \<noteq> 0)
      then Inl (Msg ''FFU restore target-plan geometry or accounting is inconsistent'')
      else if rt_StoreBlockSizeBytes plan mod rt_LogicalSectorSizeBytes plan \<noteq> 0
              \<or> rt_StoreBlockSizeBytes plan mod rt_PhysicalSectorSizeBytes plan \<noteq> 0
      then Inl (Msg ''FFU restore target-plan sector binding is inconsistent'')
      else
      bindE (validate_extents plan 0 None (rt_ResolvedWriteExtents plan) 0) (\<lambda>mutationBytes.
      if mutationBytes \<noteq> rt_MutationBytes plan \<or> rt_TargetSizeBytes plan < mutationBytes
         \<or> rt_PlanSHA256 plan \<noteq> restoreTargetPlanDigest plan
         \<or> \<not> equalRestoreStrings (rt_Warnings plan) restoreTargetWarnings
         \<or> \<not> equalRestoreStrings (rt_Limitations plan) restoreTargetLimitations
      then Inl (Msg ''FFU restore target-plan evidence, warnings, or limitations were altered'')
      else Inr ())))"

text \<open>
  The outcome of \<open>AuthenticateSingleStoreV1Integrity\<close>, as far as the callers here use it.
\<close>

type_synonym integrity_outcome =
  "(Inspection \<times> DescriptorPlan \<times> AuthenticatedIntegrityPlan \<times> nat) res"

definition new_target_plan ::
  "u64 \<Rightarrow> AuthenticatedIntegrityPlan \<Rightarrow> DescriptorPlan \<Rightarrow> RestoreTargetRequest \<Rightarrow> u64
     \<Rightarrow> ResolvedWriteExtent list \<Rightarrow> u64 \<Rightarrow> RestoreTargetPlan" where
  "new_target_plan sourceSize integrity descriptor request targetBlocks extents mutationBytes =
     \<lparr> rt_Schema = 1,
       rt_Mode = ''ffu-restore'',
       rt_Destructive = True,
       rt_SourceFileSize = sourceSize,
       rt_AuthenticatedIntegrityPlanSHA256 = ai_PlanSHA256 integrity,
       rt_DescriptorPlanSHA256 = dp_PlanSHA256 descriptor,
       rt_CatalogSHA256 = ai_CatalogSHA256 integrity,
       rt_HashTableSHA256 = ai_HashTableSHA256 integrity,
       rt_DevicePath = rq_DevicePath request,
       rt_ExpectedTargetIdentity = rq_ExpectedTargetIdentity request,
       rt_TargetSizeBytes = rq_TargetSizeBytes request,
       rt_LogicalSectorSizeBytes = rq_LogicalSectorSizeBytes request,
       rt_PhysicalSectorSizeBytes = rq_PhysicalSectorSizeBytes request,
       rt_StoreBlockSizeBytes = dp_BlockSizeBytes descriptor,
       rt_TargetBlockCount = targetBlocks,
       rt_MinimumTargetBytes = dp_MinimumTargetBytes descriptor,
       rt_WriteExtentCount = of_nat (length extents),
       rt_MutationBytes = mutationBytes,
       rt_ResolvedWriteExtents = extents,
       rt_ValidationDescriptorCount = of_nat (length (dp_ValidationDescriptors descriptor)),
       rt_SourceIntegrityAuthenticated = True,
       rt_TargetIdentityBound = True,
       rt_TargetGeometryBound = True,
       rt_DestinationMapResolved = True,
       rt_DestinationOverlap = False,
       rt_ValidationChecksRequired = (length (dp_ValidationDescriptors descriptor) \<noteq> 0),
       rt_ValidationChecksResolved = False,
       rt_ConfirmationRequired = True,
       rt_ExecutionSupported = False,
       rt_PlanSHA256 = [],
       rt_Warnings = restoreTargetWarnings,
       rt_Limitations = restoreTargetLimitations \<rparr>"

text \<open>
  \<open>outcome\<close> stands for the call of \<open>AuthenticateSingleStoreV1Integrity\<close>, which starts at the
  clock after the first poll and ends at the clock it returns.
\<close>

definition BindAuthenticatedSingleStoreV1Target ::
  "ctx_poll option \<Rightarrow> integrity_outcome \<Rightarrow> u64 \<Rightarrow> RestoreTargetRequest \<Rightarrow> nat
     \<Rightarrow> (Inspection \<times> DescriptorPlan \<times> AuthenticatedIntegrityPlan \<times> RestoreTargetPlan \<times> nat) res" where
  "BindAuthenticatedSingleStoreV1Target ctx_opt outcome sourceSize request t =
     (case ctx_opt of None \<Rightarrow> Inl (Msg ''FFU target-plan context is nil'') | Some ctx \<Rightarrow>
      (case ctx t of Some e \<Rightarrow> Inl e | None \<Rightarrow>
      bindE (validateRestoreTargetRequest request) (\<lambda>canonicalRequest.
      bindE outcome (\<lambda>(inspection, descriptor, integrityPlan, t1).
      case ctx t1 of Some e \<Rightarrow> Inl e | None \<Rightarrow>
      if \<not> ai_IntegrityAuthenticated integrityPlan
         \<or> \<not> ai_HashTableCatalogAuthenticated integrityPlan
         \<or> \<not> ai_ContentMatchesHashTable integrityPlan
      then Inl (Msg ''FFU target planning requires complete authenticated source integrity'')
      else if dp_HasDestinationOverlap descriptor
      then Inl (Msg ''FFU target planning refuses same-anchor destination overlap'')
      else if dp_BlockSizeBytes descriptor = 0
              \<or> rq_TargetSizeBytes canonicalRequest < dp_MinimumTargetBytes descriptor
      then Inl (Errorf ''FFU target size %d is smaller than required minimum %d''
                  [FN (unat (rq_TargetSizeBytes canonicalRequest)),
                   FN (unat (dp_MinimumTargetBytes descriptor))])
      else if rq_TargetSizeBytes canonicalRequest mod dp_BlockSizeBytes descriptor \<noteq> 0
      then Inl (Errorf ''FFU target size %d is not aligned to store block size %d''
                  [FN (unat (rq_TargetSizeBytes canonicalRequest)),
                   FN (unat (dp_BlockSizeBytes descriptor))])
      else if dp_BlockSizeBytes descriptor mod rq_LogicalSectorSizeBytes canonicalRequest \<noteq> 0
              \<or> dp_BlockSizeBytes descriptor mod rq_PhysicalSectorSizeBytes canonicalRequest \<noteq> 0
      then Inl (Msg ''FFU store block size is incompatible with target sector geometry'')
      else
      let targetBlocks = rq_TargetSizeBytes canonicalRequest div dp_BlockSizeBytes descriptor in
      bindE (resolveRestoreWriteExtents descriptor targetBlocks) (\<lambda>(extents, mutationBytes).
      let plan = new_target_plan sourceSize integrityPlan descriptor canonicalRequest targetBlocks
                   extents mutationBytes;
          plan = plan\<lparr>rt_PlanSHA256 := restoreTargetPlanDigest plan\<rparr> in
      bindE (validateRestoreTargetPlan plan) (\<lambda>_.
      Inr (inspection, descriptor, integrityPlan, plan, t1 + 1)))))))"

definition confirmation_phrase :: "string \<Rightarrow> u64 \<Rightarrow> string" where
  "confirmation_phrase path targetBytes =
     ''RESTORE AUTHENTICATED FFU TO '' @ path @ '' SIZE '' @ decimal targetBytes @ '' BYTES''"

definition RestoreTargetConfirmationPhrase :: "RestoreTargetPlan \<Rightarrow> string res" where
  "RestoreTargetConfirmationPhrase plan =
     bindE (validateRestoreTargetPlan plan) (\<lambda>_.
     Inr (confirmation_phrase (rt_DevicePath plan) (rt_TargetSizeBytes plan)))"

section \<open>The full-flash decision\<close>

definition fullFlashUpdateType :: u32 where "fullFlashUpdateType = 0"

record FullFlashValidationPlan =
  fv_Schema :: nat
  fv_Mode :: string
  fv_Destructive :: bool
  fv_SourceFileSize :: u64
  fv_RestoreTargetPlanSHA256 :: string
  fv_AuthenticatedIntegrityPlanSHA256 :: string
  fv_DescriptorPlanSHA256 :: string
  fv_CatalogSHA256 :: string
  fv_HashTableSHA256 :: string
  fv_DevicePath :: string
  fv_ExpectedTargetIdentity :: string
  fv_TargetSizeBytes :: u64
  fv_LogicalSectorSizeBytes :: u64
  fv_PhysicalSectorSizeBytes :: u64
  fv_StoreBlockSizeBytes :: u64
  fv_TargetBlockCount :: u64
  fv_MutationBytes :: u64
  fv_StoreUpdateType :: u32
  fv_ValidationDescriptorCount :: u64
  fv_FullFlashUpdateConfirmed :: bool
  fv_ValidationDescriptorsAbsent :: bool
  fv_ValidationChecksResolved :: bool
  fv_ConfirmationRequired :: bool
  fv_ConfirmationPhrase :: string
  fv_ExecutionSupported :: bool
  fv_PlanSHA256 :: string
  fv_Warnings :: "string list"
  fv_Limitations :: "string list"

text \<open>\<open>strings.ToLower\<close> changes only ASCII letters of a hexadecimal candidate.\<close>

definition is_upper :: "char \<Rightarrow> bool" where
  "is_upper c = (65 \<le> (of_char c :: nat) \<and> (of_char c :: nat) \<le> 90)"

text \<open>
  A string that decodes has only hexadecimal digits, for which \<open>value != ToLower(value)\<close>
  says that it has an upper-case letter.
\<close>

definition validFullFlashPlanSHA256 :: "string \<Rightarrow> bool" where
  "validFullFlashPlanSHA256 v =
     (length v = 64 \<and> \<not> list_ex is_upper v
      \<and> (case hex_decode v of None \<Rightarrow> False | Some bs \<Rightarrow> length bs = 32))"

definition writeFullFlashUint64 :: "u64 \<Rightarrow> bytes" where
  "writeFullFlashUint64 v = writeRestoreUint64 v"

definition writeFullFlashString :: "string \<Rightarrow> bytes" where
  "writeFullFlashString v = writeRestoreString v"

definition writeFullFlashBool :: "bool \<Rightarrow> bytes" where
  "writeFullFlashBool v = writeRestoreBool v"

definition full_flash_validation_preimage :: "FullFlashValidationPlan \<Rightarrow> bytes" where
  "full_flash_validation_preimage p =
     writeFullFlashUint64 (of_nat (fv_Schema p)) @ writeFullFlashString (fv_Mode p)
     @ writeFullFlashBool (fv_Destructive p) @ writeFullFlashUint64 (fv_SourceFileSize p)
     @ writeFullFlashString (fv_RestoreTargetPlanSHA256 p)
     @ writeFullFlashString (fv_AuthenticatedIntegrityPlanSHA256 p)
     @ writeFullFlashString (fv_DescriptorPlanSHA256 p)
     @ writeFullFlashString (fv_CatalogSHA256 p) @ writeFullFlashString (fv_HashTableSHA256 p)
     @ writeFullFlashString (fv_DevicePath p) @ writeFullFlashString (fv_ExpectedTargetIdentity p)
     @ writeFullFlashUint64 (fv_TargetSizeBytes p)
     @ writeFullFlashUint64 (fv_LogicalSectorSizeBytes p)
     @ writeFullFlashUint64 (fv_PhysicalSectorSizeBytes p)
     @ writeFullFlashUint64 (fv_StoreBlockSizeBytes p)
     @ writeFullFlashUint64 (fv_TargetBlockCount p) @ writeFullFlashUint64 (fv_MutationBytes p)
     @ writeFullFlashUint64 (u64_of (fv_StoreUpdateType p))
     @ writeFullFlashUint64 (fv_ValidationDescriptorCount p)
     @ writeFullFlashBool (fv_FullFlashUpdateConfirmed p)
     @ writeFullFlashBool (fv_ValidationDescriptorsAbsent p)
     @ writeFullFlashBool (fv_ValidationChecksResolved p)
     @ writeFullFlashBool (fv_ConfirmationRequired p)
     @ writeFullFlashString (fv_ConfirmationPhrase p)
     @ writeFullFlashBool (fv_ExecutionSupported p)
     @ concat (map writeFullFlashString (fv_Warnings p))
     @ concat (map writeFullFlashString (fv_Limitations p))"

definition fullFlashValidationPlanDigest :: "FullFlashValidationPlan \<Rightarrow> string" where
  "fullFlashValidationPlanDigest p = sha256_hex (full_flash_validation_preimage p)"

definition fullFlashValidationWarnings :: "string list" where
  "fullFlashValidationWarnings =
    [''Restoring a full-flash FFU is destructive and can replace partition tables and data across the selected target.'',
     ''The exact source evidence and target identity, capacity, and sector geometry must be revalidated immediately before any future write.'',
     ''Partial FFU updates and every image containing validation descriptors are unsupported and must not be approximated as full restoration.'',
     ''Software authentication and restoration cannot prove that the resulting device will boot or that the complete device is healthy.'']"

definition fullFlashValidationLimitations :: "string list" where
  "fullFlashValidationLimitations =
    [''this plan resolves only update type 0 with zero validation descriptors'',
     ''the plan opens no target and performs no validation read or mutation'',
     ''mounted-target, running-system-disk, authorization, cancellation, write ordering, flush, readback, and changed-media policy remain outside this boundary'',
     ''execution remains disabled until a separately reviewed privileged provider is qualified'']"

definition validateFullFlashValidationPlan :: "FullFlashValidationPlan \<Rightarrow> unit res" where
  "validateFullFlashValidationPlan plan =
     (if fv_Schema plan \<noteq> 1 \<or> fv_Mode plan \<noteq> ''ffu-full-flash-restore''
         \<or> \<not> fv_Destructive plan \<or> \<not> fv_FullFlashUpdateConfirmed plan
         \<or> \<not> fv_ValidationDescriptorsAbsent plan \<or> \<not> fv_ValidationChecksResolved plan
         \<or> \<not> fv_ConfirmationRequired plan \<or> fv_ExecutionSupported plan
      then Inl (Msg ''invalid FFU full-flash validation-plan envelope'')
      else
      bindE (validateRestoreTargetRequest
        \<lparr> rq_DevicePath = fv_DevicePath plan,
          rq_ExpectedTargetIdentity = fv_ExpectedTargetIdentity plan,
          rq_TargetSizeBytes = fv_TargetSizeBytes plan,
          rq_LogicalSectorSizeBytes = fv_LogicalSectorSizeBytes plan,
          rq_PhysicalSectorSizeBytes = fv_PhysicalSectorSizeBytes plan \<rparr>) (\<lambda>_.
      if fv_SourceFileSize plan = 0 \<or> fv_StoreUpdateType plan \<noteq> fullFlashUpdateType
         \<or> fv_ValidationDescriptorCount plan \<noteq> 0 \<or> fv_StoreBlockSizeBytes plan = 0
         \<or> fv_TargetSizeBytes plan mod fv_StoreBlockSizeBytes plan \<noteq> 0
         \<or> fv_TargetBlockCount plan \<noteq> fv_TargetSizeBytes plan div fv_StoreBlockSizeBytes plan
         \<or> fv_MutationBytes plan = 0 \<or> fv_TargetSizeBytes plan < fv_MutationBytes plan
      then Inl (Msg ''FFU full-flash validation-plan geometry or update classification is inconsistent'')
      else if fv_StoreBlockSizeBytes plan mod fv_LogicalSectorSizeBytes plan \<noteq> 0
              \<or> fv_StoreBlockSizeBytes plan mod fv_PhysicalSectorSizeBytes plan \<noteq> 0
      then Inl (Msg ''FFU full-flash validation-plan sector binding is inconsistent'')
      else if \<not> list_all validFullFlashPlanSHA256
                [fv_RestoreTargetPlanSHA256 plan, fv_AuthenticatedIntegrityPlanSHA256 plan,
                 fv_DescriptorPlanSHA256 plan, fv_CatalogSHA256 plan, fv_HashTableSHA256 plan]
      then Inl (Msg ''FFU full-flash validation-plan contains an invalid SHA-256 evidence identifier'')
      else if fv_ConfirmationPhrase plan
                \<noteq> confirmation_phrase (fv_DevicePath plan) (fv_TargetSizeBytes plan)
      then Inl (Msg ''FFU full-flash validation-plan confirmation phrase was altered'')
      else if \<not> equalRestoreStrings (fv_Warnings plan) fullFlashValidationWarnings
              \<or> \<not> equalRestoreStrings (fv_Limitations plan) fullFlashValidationLimitations
              \<or> fv_PlanSHA256 plan \<noteq> fullFlashValidationPlanDigest plan
      then Inl (Msg ''FFU full-flash validation-plan evidence, warnings, or limitations were altered'')
      else Inr ()))"

definition FullFlashValidationConfirmationPhrase :: "FullFlashValidationPlan \<Rightarrow> string res" where
  "FullFlashValidationConfirmationPhrase plan =
     bindE (validateFullFlashValidationPlan plan) (\<lambda>_. Inr (fv_ConfirmationPhrase plan))"

definition new_full_flash_plan ::
  "u64 \<Rightarrow> Inspection \<Rightarrow> DescriptorPlan \<Rightarrow> AuthenticatedIntegrityPlan \<Rightarrow> RestoreTargetPlan \<Rightarrow> string
     \<Rightarrow> FullFlashValidationPlan" where
  "new_full_flash_plan sourceSize inspection descriptor integrity target phrase =
     \<lparr> fv_Schema = 1,
       fv_Mode = ''ffu-full-flash-restore'',
       fv_Destructive = True,
       fv_SourceFileSize = sourceSize,
       fv_RestoreTargetPlanSHA256 = rt_PlanSHA256 target,
       fv_AuthenticatedIntegrityPlanSHA256 = ai_PlanSHA256 integrity,
       fv_DescriptorPlanSHA256 = dp_PlanSHA256 descriptor,
       fv_CatalogSHA256 = ai_CatalogSHA256 integrity,
       fv_HashTableSHA256 = ai_HashTableSHA256 integrity,
       fv_DevicePath = rt_DevicePath target,
       fv_ExpectedTargetIdentity = rt_ExpectedTargetIdentity target,
       fv_TargetSizeBytes = rt_TargetSizeBytes target,
       fv_LogicalSectorSizeBytes = rt_LogicalSectorSizeBytes target,
       fv_PhysicalSectorSizeBytes = rt_PhysicalSectorSizeBytes target,
       fv_StoreBlockSizeBytes = rt_StoreBlockSizeBytes target,
       fv_TargetBlockCount = rt_TargetBlockCount target,
       fv_MutationBytes = rt_MutationBytes target,
       fv_StoreUpdateType = st_UpdateType (insp_Store inspection),
       fv_ValidationDescriptorCount = 0,
       fv_FullFlashUpdateConfirmed = True,
       fv_ValidationDescriptorsAbsent = True,
       fv_ValidationChecksResolved = True,
       fv_ConfirmationRequired = True,
       fv_ConfirmationPhrase = phrase,
       fv_ExecutionSupported = False,
       fv_PlanSHA256 = [],
       fv_Warnings = fullFlashValidationWarnings,
       fv_Limitations = fullFlashValidationLimitations \<rparr>"

definition ResolveAuthenticatedSingleStoreV1FullFlash ::
  "ctx_poll option \<Rightarrow> integrity_outcome \<Rightarrow> u64 \<Rightarrow> RestoreTargetRequest \<Rightarrow> nat
     \<Rightarrow> (RestoreTargetPlan \<times> FullFlashValidationPlan) res" where
  "ResolveAuthenticatedSingleStoreV1FullFlash ctx_opt outcome sourceSize request t =
     (case ctx_opt of None \<Rightarrow> Inl (Msg ''FFU full-flash validation context is nil'') | Some ctx \<Rightarrow>
      (case ctx t of Some e \<Rightarrow> Inl e | None \<Rightarrow>
      bindE (BindAuthenticatedSingleStoreV1Target ctx_opt outcome sourceSize request (t + 1))
        (\<lambda>(inspection, descriptor, integrity, target, t1).
      case ctx t1 of Some e \<Rightarrow> Inl e | None \<Rightarrow>
      bindE (mapE (\<lambda>e. Errorf ''validate prerequisite FFU target plan: %w'' [FE e])
        (validateRestoreTargetPlan target)) (\<lambda>_.
      let store = insp_Store inspection in
      if st_UpdateType store = 1
      then Inl (Msg ''partial FFU update type 1 is unsupported: the initial restore provider accepts complete full-flash images only'')
      else if st_UpdateType store \<noteq> fullFlashUpdateType
      then Inl (Errorf ''unsupported FFU update type %d: the initial restore provider accepts full-flash type 0 only''
                  [FN (unat (st_UpdateType store))])
      else if st_ValidateDescriptorCount store \<noteq> 0 \<or> st_ValidateDescriptorLength store \<noteq> 0
              \<or> dp_ValidationDescriptors descriptor \<noteq> []
              \<or> rt_ValidationDescriptorCount target \<noteq> 0 \<or> rt_ValidationChecksRequired target
      then Inl (Msg ''full-flash FFU contains validation descriptors reserved for partial updates'')
      else if rt_ValidationChecksResolved target
      then Inl (Msg ''prerequisite FFU target plan crossed the full-flash validation boundary'')
      else
      bindE (RestoreTargetConfirmationPhrase target) (\<lambda>phrase.
      let plan = new_full_flash_plan sourceSize inspection descriptor integrity target phrase;
          plan = plan\<lparr>fv_PlanSHA256 := fullFlashValidationPlanDigest plan\<rparr> in
      bindE (validateFullFlashValidationPlan plan) (\<lambda>_.
      Inr (target, plan)))))))"

section \<open>Correctness\<close>

subsection \<open>Resolved extents\<close>

interpretation extent_order: less_order extent_less
  unfolding extent_less_def [abs_def] by (intro less_order_lex less_order_key)

abbreviation ex_start :: "ResolvedWriteExtent \<Rightarrow> nat" where "ex_start e \<equiv> unat (ex_TargetStartBlock e)"
abbreviation ex_stop :: "ResolvedWriteExtent \<Rightarrow> nat" where "ex_stop e \<equiv> unat (ex_TargetEndBlock e)"

interpretation extents: extent_layout ex_start ex_stop "\<lambda>e. ex_TargetStartBlock e < ex_TargetEndBlock e"
  by unfold_locales (simp add: word_less_unat)

text \<open>Where a location lies on a target of \<open>tb\<close> blocks, and the extent it declares.\<close>

definition dest_start :: "u64 \<Rightarrow> DiskLocation \<Rightarrow> u64" where
  "dest_start tb l = (if loc_Anchor l = ''begin'' then u64_of (loc_BlockIndex l) else tb - loc_BlockEnd l)"

definition extent_of :: "u64 \<Rightarrow> u64 \<Rightarrow> WriteDescriptor \<Rightarrow> DiskLocation \<Rightarrow> ResolvedWriteExtent" where
  "extent_of bs tb w l =
     \<lparr> ex_DescriptorIndex = wd_Index w, ex_LocationIndex = loc_Index l, ex_Anchor = loc_Anchor l,
       ex_TargetStartBlock = dest_start tb l,
       ex_TargetEndBlock = dest_start tb l + u64_of (wd_BlockCount w),
       ex_TargetOffset = dest_start tb l * bs, ex_TargetLength = u64_of (wd_BlockCount w) * bs,
       ex_PayloadOffset = wd_PayloadOffset w, ex_PayloadLength = wd_PayloadLength w \<rparr>"

definition declared_extents :: "DescriptorPlan \<Rightarrow> u64 \<Rightarrow> ResolvedWriteExtent list" where
  "declared_extents d tb =
     concat (map (\<lambda>w. map (extent_of (dp_BlockSizeBytes d) tb w) (wd_Locations w)) (dp_WriteDescriptors d))"

definition dest_in_range :: "u64 \<Rightarrow> WriteDescriptor \<Rightarrow> DiskLocation \<Rightarrow> bool" where
  "dest_in_range tb w l \<longleftrightarrow>
     (loc_Anchor l = ''begin'' \<or> loc_Anchor l = ''end'' \<and> loc_BlockEnd l \<le> tb)
     \<and> unat (dest_start tb l) + unat (wd_BlockCount w) \<le> unat tb"

lemma resolve_location_Inr_iff:
  assumes "unat tb * unat bs < 2 ^ 64" and pl: "u64_of (wd_BlockCount w) * bs = wd_PayloadLength w"
    and c: "unat (wd_BlockCount w) * unat bs < 2 ^ 64"
  shows "resolve_location bs tb w l = Inr e \<longleftrightarrow> dest_in_range tb w l \<and> e = extent_of bs tb w l"
proof -
  let ?s = "dest_start tb l" and ?n = "u64_of (wd_BlockCount w)"
  have m: "checkedMul ?n bs = Inr (?n * bs)" using c by (simp add: checkedMul_Inr)
  have a: "(\<exists>fin. checkedAdd ?s ?n = Inr fin \<and> fin \<le> tb \<and> P fin)
      \<longleftrightarrow> unat ?s + unat (wd_BlockCount w) \<le> unat tb \<and> P (?s + ?n)" for P
    using unat_lt_64 [of tb] by (auto simp: checkedAdd_Inr word_le_unat unat_plus_64)
  have o: "(\<exists>off. checkedMul ?s bs = Inr off \<and> P off) \<longleftrightarrow> P (?s * bs)"
    if "unat ?s + unat (wd_BlockCount w) \<le> unat tb" for P
  proof -
    have "unat ?s * unat bs \<le> unat tb * unat bs" using that by (intro mult_le_mono1) simp
    with assms(1) have "unat ?s * unat bs < 2 ^ 64" by (rule le_less_trans [rotated])
    then show ?thesis by (auto simp: checkedMul_Inr)
  qed
  have "resolve_location bs tb w l = Inr e \<longleftrightarrow>
     (loc_Anchor l = ''begin'' \<or> loc_Anchor l = ''end'' \<and> loc_BlockEnd l \<le> tb)
     \<and> (\<exists>fin. checkedAdd ?s ?n = Inr fin \<and> fin \<le> tb
         \<and> (\<exists>off. checkedMul ?s bs = Inr off \<and>
             e = (extent_of bs tb w l)\<lparr>ex_TargetEndBlock := fin, ex_TargetOffset := off\<rparr>))"
    by (auto simp: resolve_location_def Let_def result_simps m pl dest_start_def extent_of_def not_less
        split: sum.splits if_splits)
  then show ?thesis
    unfolding a using o by (auto simp: dest_in_range_def extent_of_def)
qed

definition payload_consistent :: "DescriptorPlan \<Rightarrow> bool" where
  "payload_consistent d \<longleftrightarrow> (\<forall>w \<in> set (dp_WriteDescriptors d).
     wd_BlockCount w \<noteq> 0 \<and> wd_PayloadLength w \<noteq> 0
     \<and> checkedMul (u64_of (wd_BlockCount w)) (dp_BlockSizeBytes d) = Inr (wd_PayloadLength w))"

lemma resolve_write_Inr_iff:
  assumes "unat tb * unat bs < 2 ^ 64"
  shows "resolve_write bs tb w = Inr es \<longleftrightarrow>
    wd_BlockCount w \<noteq> 0 \<and> wd_PayloadLength w \<noteq> 0
    \<and> checkedMul (u64_of (wd_BlockCount w)) bs = Inr (wd_PayloadLength w)
    \<and> (\<forall>l \<in> set (wd_Locations w). dest_in_range tb w l) \<and> es = map (extent_of bs tb w) (wd_Locations w)"
proof (cases "checkedMul (u64_of (wd_BlockCount w)) bs = Inr (wd_PayloadLength w)")
  case True
  then have "u64_of (wd_BlockCount w) * bs = wd_PayloadLength w" "unat (wd_BlockCount w) * unat bs < 2 ^ 64"
    by (auto simp: checkedMul_Inr)
  note L = resolve_location_Inr_iff [OF assms this]
  have "list_all2 (\<lambda>l e. dest_in_range tb w l \<and> e = extent_of bs tb w l) ls es
     \<longleftrightarrow> (\<forall>l \<in> set ls. dest_in_range tb w l) \<and> es = map (extent_of bs tb w) ls" for ls
    by (induction ls arbitrary: es) (auto simp: list_all2_Cons1)
  then show ?thesis using True by (auto simp: resolve_write_def Let_def traverse_Inr L)
next
  case False
  then show ?thesis by (auto simp: resolve_write_def Let_def split: sum.splits if_splits)
qed

lemma resolve_writes_Inr_iff:
  assumes "unat tb * unat (dp_BlockSizeBytes d) < 2 ^ 64"
  shows "traverse (resolve_write (dp_BlockSizeBytes d) tb) (dp_WriteDescriptors d) = Inr gs \<longleftrightarrow>
     payload_consistent d
     \<and> (\<forall>w \<in> set (dp_WriteDescriptors d). \<forall>l \<in> set (wd_Locations w). dest_in_range tb w l)
     \<and> gs = map (\<lambda>w. map (extent_of (dp_BlockSizeBytes d) tb w) (wd_Locations w)) (dp_WriteDescriptors d)"
proof -
  let ?bs = "dp_BlockSizeBytes d"
  have "list_all2 (\<lambda>w es. resolve_write ?bs tb w = Inr es) ws gs \<longleftrightarrow>
     (\<forall>w \<in> set ws. wd_BlockCount w \<noteq> 0 \<and> wd_PayloadLength w \<noteq> 0
        \<and> checkedMul (u64_of (wd_BlockCount w)) ?bs = Inr (wd_PayloadLength w)
        \<and> (\<forall>l \<in> set (wd_Locations w). dest_in_range tb w l))
     \<and> gs = map (\<lambda>w. map (extent_of ?bs tb w) (wd_Locations w)) ws" for ws
    by (induction ws arbitrary: gs) (auto simp: list_all2_Cons1 resolve_write_Inr_iff [OF assms])
  then show ?thesis by (auto simp: traverse_Inr payload_consistent_def)
qed

text \<open>The accounting loop.\<close>

definition exts_total :: "ResolvedWriteExtent list \<Rightarrow> nat" where
  "exts_total es = sum_list (map (\<lambda>e. unat (ex_TargetLength e)) es)"

lemma account_extents_Inr_iff:
  "account_extents prev es m = Inr m' \<longleftrightarrow>
     successively (\<lambda>a b. ex_stop a \<le> ex_start b) (case prev of None \<Rightarrow> es | Some p \<Rightarrow> p # es)
     \<and> unat m + exts_total es < 2 ^ 64 \<and> unat m' = unat m + exts_total es"
proof (induction prev es m arbitrary: m' rule: account_extents.induct)
  case (1 prev m)
  then show ?case using unat_lt_64 [of m] by (auto simp: exts_total_def word_eq_unat split: option.splits)
next
  case (2 prev e es m)
  have step: "account_extents prev (e # es) m = Inr m' \<longleftrightarrow>
      (prev = None \<or> ex_stop (the prev) \<le> ex_start e)
      \<and> (\<exists>m1. checkedAdd m (ex_TargetLength e) = Inr m1 \<and> account_extents (Some e) es m1 = Inr m')"
    by (auto simp: result_simps not_less word_less_unat)
  have chain: "successively (\<lambda>a b. ex_stop a \<le> ex_start b) (case prev of None \<Rightarrow> e # es | Some p \<Rightarrow> p # e # es)
     \<longleftrightarrow> (prev = None \<or> ex_stop (the prev) \<le> ex_start e)
        \<and> successively (\<lambda>a b. ex_stop a \<le> ex_start b) (e # es)"
    by (cases prev) auto
  show ?case
  proof (cases "prev = None \<or> ex_stop (the prev) \<le> ex_start e")
    case True
    then have g: "\<not> (prev \<noteq> None \<and> ex_TargetStartBlock e < ex_TargetEndBlock (the prev))"
      by (auto simp: word_less_unat)
    note IH = 2 [OF g, simplified]
    show ?thesis unfolding step chain IH
      using True
      by (auto simp: checkedAdd_Inr unat_plus_64 exts_total_def add.assoc)
  next
    case False
    then show ?thesis unfolding step chain by blast
  qed
qed

lemma extent_of_nat:
  assumes "unat tb * unat bs < 2 ^ 64" and "dest_in_range tb w l"
    and "checkedMul (u64_of (wd_BlockCount w)) bs = Inr (wd_PayloadLength w)" and "wd_BlockCount w \<noteq> 0"
  defines "e \<equiv> extent_of bs tb w l"
  shows "ex_stop e = ex_start e + unat (wd_BlockCount w)" "ex_TargetStartBlock e < ex_TargetEndBlock e"
    "ex_stop e \<le> unat tb" "unat (ex_TargetOffset e) = ex_start e * unat bs"
    "unat (ex_TargetLength e) = (ex_stop e - ex_start e) * unat bs"
    "ex_PayloadLength e = ex_TargetLength e" "ex_Anchor e = ''begin'' \<or> ex_Anchor e = ''end''"
proof -
  have r: "unat (dest_start tb l) + unat (wd_BlockCount w) \<le> unat tb"
    using assms(2) by (simp add: dest_in_range_def)
  then show stop: "ex_stop e = ex_start e + unat (wd_BlockCount w)"
    using unat_lt_64 [of tb] by (simp add: e_def extent_of_def unat_plus_64)
  moreover have pos: "0 < unat (wd_BlockCount w)" using assms(4) by (simp add: unat_gt_0)
  ultimately show "ex_TargetStartBlock e < ex_TargetEndBlock e" by (simp add: word_less_unat)
  show "ex_stop e \<le> unat tb" using stop r by (simp add: e_def extent_of_def)
  have "unat (dest_start tb l) * unat bs \<le> unat tb * unat bs" using r by (intro mult_le_mono1) simp
  with assms(1) have "unat (dest_start tb l) * unat bs < 2 ^ 64" by (rule le_less_trans [rotated])
  then show "unat (ex_TargetOffset e) = ex_start e * unat bs"
    by (simp add: e_def extent_of_def unat_mult_64)
  have "unat (ex_TargetLength e) = unat (wd_BlockCount w) * unat bs"
    using assms(3) by (auto simp: e_def extent_of_def checkedMul_Inr unat_mult_64)
  then show "unat (ex_TargetLength e) = (ex_stop e - ex_start e) * unat bs" by (simp add: stop)
  show "ex_PayloadLength e = ex_TargetLength e"
    using assms(3) by (simp add: e_def extent_of_def checkedMul_Inr)
  show "ex_Anchor e = ''begin'' \<or> ex_Anchor e = ''end''"
    using assms(2) by (auto simp: e_def extent_of_def dest_in_range_def)
qed

definition all_in_range :: "DescriptorPlan \<Rightarrow> u64 \<Rightarrow> bool" where
  "all_in_range d tb \<longleftrightarrow>
     (\<forall>w \<in> set (dp_WriteDescriptors d). \<forall>l \<in> set (wd_Locations w). dest_in_range tb w l)"

text \<open>The extents of a target: ordered, disjoint, inside the target, with exact byte ranges.\<close>

definition extents_sound :: "u64 \<Rightarrow> u64 \<Rightarrow> ResolvedWriteExtent list \<Rightarrow> bool" where
  "extents_sound bs tb es \<longleftrightarrow>
     sorted_wrt (\<lambda>a b. ex_stop a \<le> ex_start b) es
     \<and> (\<forall>e \<in> set es. ex_start e < ex_stop e \<and> ex_stop e \<le> unat tb
          \<and> unat (ex_TargetOffset e) = ex_start e * unat bs
          \<and> unat (ex_TargetLength e) = (ex_stop e - ex_start e) * unat bs
          \<and> ex_PayloadLength e = ex_TargetLength e
          \<and> (ex_Anchor e = ''begin'' \<or> ex_Anchor e = ''end''))"

lemma declared_extent_facts:
  assumes "unat tb * unat (dp_BlockSizeBytes d) < 2 ^ 64" "payload_consistent d" "all_in_range d tb"
    and "e \<in> set (declared_extents d tb)"
  shows "ex_start e < ex_stop e \<and> ex_stop e \<le> unat tb
          \<and> unat (ex_TargetOffset e) = ex_start e * unat (dp_BlockSizeBytes d)
          \<and> unat (ex_TargetLength e) = (ex_stop e - ex_start e) * unat (dp_BlockSizeBytes d)
          \<and> ex_PayloadLength e = ex_TargetLength e
          \<and> (ex_Anchor e = ''begin'' \<or> ex_Anchor e = ''end'')"
proof -
  from assms(4) obtain w l where w: "w \<in> set (dp_WriteDescriptors d)" "l \<in> set (wd_Locations w)"
    "e = extent_of (dp_BlockSizeBytes d) tb w l" by (auto simp: declared_extents_def)
  with assms(2,3) have "dest_in_range tb w l"
    "checkedMul (u64_of (wd_BlockCount w)) (dp_BlockSizeBytes d) = Inr (wd_PayloadLength w)" "wd_BlockCount w \<noteq> 0"
    by (auto simp: payload_consistent_def all_in_range_def)
  from extent_of_nat [OF assms(1) this] show ?thesis by (simp add: w(3) word_less_unat)
qed

lemma extents_total_le:
  assumes "extents_sound bs tb es"
  shows "exts_total es \<le> unat tb * unat bs"
proof -
  have "exts_total es = sum_list (map (\<lambda>e. (ex_stop e - ex_start e) * unat bs) es)"
    unfolding exts_total_def using assms by (intro arg_cong [of _ _ sum_list] map_cong) (auto simp: extents_sound_def)
  also have "\<dots> = sum_list (map (\<lambda>e. ex_stop e - ex_start e) es) * unat bs"
    by (rule sum_list_mult_const)
  also have "\<dots> \<le> (unat tb - 0) * unat bs"
    using assms by (intro mult_le_mono1 extents.total_le) (auto simp: extents_sound_def word_less_unat)
  finally show ?thesis by simp
qed

lemma extent_less_start: "\<not> extent_less b a \<Longrightarrow> ex_start a \<le> ex_start b"
  by (auto simp: extent_less_def word_less_unat word_eq_unat split: if_splits)

lemma resolve_extents_iff:
  assumes "unat tb * unat (dp_BlockSizeBytes d) < 2 ^ 64"
  shows "resolveRestoreWriteExtents d tb = Inr (es, m) \<longleftrightarrow>
     payload_consistent d \<and> all_in_range d tb
     \<and> es = sort_by extent_less (declared_extents d tb)
     \<and> extents_sound (dp_BlockSizeBytes d) tb es \<and> unat m = exts_total es"
proof -
  let ?es = "sort_by extent_less (declared_extents d tb)"
  have r: "resolveRestoreWriteExtents d tb = Inr (es, m) \<longleftrightarrow>
     payload_consistent d \<and> all_in_range d tb \<and> es = ?es \<and> account_extents None ?es 0 = Inr m"
    unfolding resolveRestoreWriteExtents_def
    by (auto simp: bindE_eq_Inr resolve_writes_Inr_iff [OF assms] all_in_range_def declared_extents_def Let_def)
  have "account_extents None ?es 0 = Inr m \<longleftrightarrow>
      extents_sound (dp_BlockSizeBytes d) tb ?es \<and> unat m = exts_total ?es"
    if "payload_consistent d" "all_in_range d tb"
  proof -
    note F = declared_extent_facts [OF assms that]
    have "sorted_wrt (\<lambda>a b. ex_stop a \<le> ex_start b) ?es \<longleftrightarrow> extents_sound (dp_BlockSizeBytes d) tb ?es"
      using F by (auto simp: extents_sound_def)
    moreover have "successively (\<lambda>a b. ex_stop a \<le> ex_start b) ?es
       \<longleftrightarrow> sorted_wrt (\<lambda>a b. ex_stop a \<le> ex_start b) ?es"
      using extents.chain_sorted [of ?es] extents.sorted_chain [of ?es] F by (auto simp: word_less_unat)
    moreover have "exts_total ?es < 2 ^ 64" if "extents_sound (dp_BlockSizeBytes d) tb ?es"
      using extents_total_le [OF that] assms by (rule le_less_trans)
    ultimately show ?thesis by (auto simp: account_extents_Inr_iff)
  qed
  with r show ?thesis by auto
qed

definition extents_disjoint :: "ResolvedWriteExtent \<Rightarrow> ResolvedWriteExtent \<Rightarrow> bool" where
  "extents_disjoint a b \<longleftrightarrow> ex_stop a \<le> ex_start b \<or> ex_stop b \<le> ex_start a"

text \<open>
  On a target whose bytes fit 64 bits, resolving the destinations succeeds exactly when
  every descriptor has a consistent payload, every location lies on the target, and no two
  declared destinations share a block, whichever ends of the target they are anchored to.
\<close>

theorem resolve_extents_complete:
  assumes "unat tb * unat (dp_BlockSizeBytes d) < 2 ^ 64"
  shows "is_ok (resolveRestoreWriteExtents d tb) \<longleftrightarrow>
     payload_consistent d \<and> all_in_range d tb
     \<and> (\<forall>a b. {#a, b#} \<subseteq># mset (declared_extents d tb) \<longrightarrow> extents_disjoint a b)"
proof -
  let ?D = "declared_extents d tb" let ?es = "sort_by extent_less ?D"
  have "is_ok (resolveRestoreWriteExtents d tb) \<longleftrightarrow> payload_consistent d \<and> all_in_range d tb
     \<and> extents_sound (dp_BlockSizeBytes d) tb ?es"
  proof -
    have "\<exists>m :: u64. unat m = exts_total ?es" if "extents_sound (dp_BlockSizeBytes d) tb ?es"
      using extents_total_le [OF that] assms by (intro exI [of _ "of_nat (exts_total ?es)"]) (simp add: unat_of_nat_64)
    then show ?thesis
      unfolding is_ok_iff split_paired_Ex resolve_extents_iff [OF assms] by auto
  qed
  moreover have "extents_sound (dp_BlockSizeBytes d) tb ?es \<longleftrightarrow> sorted_wrt extents_disjoint ?es"
    if "payload_consistent d" "all_in_range d tb"
  proof -
    note F = declared_extent_facts [OF assms that]
    have "sorted_wrt (\<lambda>a b. ex_start a \<le> ex_start b) ?es"
      using extent_order.sorted_sort_by by (rule sorted_wrt_mono_rel [rotated]) (rule extent_less_start)
    from extents.sorted_iff_disjoint [OF _ this] F show ?thesis
      by (auto simp: extents_sound_def extents_disjoint_def [abs_def] word_less_unat)
  qed
  moreover have "sorted_wrt extents_disjoint ?es \<longleftrightarrow>
      (\<forall>a b. {#a, b#} \<subseteq># mset ?D \<longrightarrow> extents_disjoint a b)"
    by (subst sorted_wrt_symmetric) (auto simp: extents_disjoint_def)
  ultimately show ?thesis by auto
qed

subsection \<open>The bound plan\<close>

lemma equalRestoreStrings_eq [simp]: "equalRestoreStrings l r \<longleftrightarrow> l = r"
  by (auto simp: equalRestoreStrings_def list_all_iff list_eq_iff_zip_eq)

lemma target_digest_ignores_sha [simp]:
  "restoreTargetPlanDigest (p\<lparr>rt_PlanSHA256 := h\<rparr>) = restoreTargetPlanDigest p"
  by (simp add: restoreTargetPlanDigest_def restore_target_plan_preimage_def)

lemma validateRestoreTargetRequest_Inr:
  "validateRestoreTargetRequest r = Inr r' \<Longrightarrow> r' = r \<and> rq_TargetSizeBytes r \<noteq> 0
     \<and> 512 \<le> unat (rq_LogicalSectorSizeBytes r)
     \<and> rq_LogicalSectorSizeBytes r \<noteq> 0 \<and> rq_PhysicalSectorSizeBytes r \<noteq> 0
     \<and> has_prefix (rq_DevicePath r) ''/dev/'' \<and> clean_rooted (rq_DevicePath r) = rq_DevicePath r
     \<and> rq_ExpectedTargetIdentity r \<noteq> []"
  by (auto simp: validateRestoreTargetRequest_def Let_def validFFUTargetSectorSize_def word_le_unat
      split: if_splits)

text \<open>The per-extent checks of the validator.\<close>

definition extent_checks :: "RestoreTargetPlan \<Rightarrow> ResolvedWriteExtent \<Rightarrow> bool" where
  "extent_checks plan e \<longleftrightarrow>
     (ex_Anchor e = ''begin'' \<or> ex_Anchor e = ''end'')
     \<and> ex_TargetStartBlock e < ex_TargetEndBlock e \<and> ex_TargetEndBlock e \<le> rt_TargetBlockCount plan
     \<and> checkedMul (ex_TargetStartBlock e) (rt_StoreBlockSizeBytes plan) = Inr (ex_TargetOffset e)
     \<and> checkedMul (ex_TargetEndBlock e - ex_TargetStartBlock e) (rt_StoreBlockSizeBytes plan)
         = Inr (ex_TargetLength e)
     \<and> ex_PayloadLength e = ex_TargetLength e
     \<and> unat (ex_PayloadOffset e) + unat (ex_PayloadLength e) \<le> unat (rt_SourceFileSize plan)"

lemma payload_end_check:
  "(case checkedAdd a b of Inl _ \<Rightarrow> True | Inr pe \<Rightarrow> s < pe) \<longleftrightarrow> \<not> unat a + unat b \<le> unat s"
proof (cases "unat a + unat b < 2 ^ 64")
  case True
  then have "checkedAdd a b = Inr (a + b)" by (simp add: checkedAdd_Inr)
  then show ?thesis using True by (simp add: word_less_unat unat_plus_64 not_le)
next
  case False
  then obtain e where "checkedAdd a b = Inl e" by (cases "checkedAdd a b") (auto simp: checkedAdd_Inr)
  moreover have "\<not> unat a + unat b \<le> unat s" using False unat_lt_64 [of s] by simp
  ultimately show ?thesis by simp
qed

lemma validate_extents_step:
  "validate_extents plan k prev (e # es) m = Inr m' \<longleftrightarrow>
     extent_checks plan e \<and> (prev = None \<or> \<not> ex_TargetStartBlock e < ex_TargetEndBlock (the prev))
     \<and> (\<exists>m1. checkedAdd m (ex_TargetLength e) = Inr m1
          \<and> validate_extents plan (Suc k) (Some e) es m1 = Inr m')"
  unfolding extent_checks_def validate_extents.simps payload_end_check
  by (auto simp: result_simps not_le not_less)

declare validate_extents.simps(2) [simp del]

lemma validate_extents_iff:
  "validate_extents plan k prev es m = Inr m' \<longleftrightarrow>
     (\<forall>e \<in> set es. extent_checks plan e) \<and> account_extents prev es m = Inr m'"
proof (induction es arbitrary: k prev m)
  case (Cons e es)
  show ?case unfolding validate_extents_step Cons.IH by (auto simp: result_simps)
qed simp

lemma extents_sound_checked:
  assumes "extents_sound bs tb es" "unat tb * unat bs < 2 ^ 64" and e: "e \<in> set es"
  shows "checkedMul (ex_TargetStartBlock e) bs = Inr (ex_TargetOffset e)"
    "checkedMul (ex_TargetEndBlock e - ex_TargetStartBlock e) bs = Inr (ex_TargetLength e)"
proof -
  have f: "ex_start e < ex_stop e" "ex_stop e \<le> unat tb" "unat (ex_TargetOffset e) = ex_start e * unat bs"
    "unat (ex_TargetLength e) = (ex_stop e - ex_start e) * unat bs"
    using assms by (auto simp: extents_sound_def)
  have lt: "k * unat bs < 2 ^ 64" if "k \<le> unat tb" for k
  proof -
    have "k * unat bs \<le> unat tb * unat bs" using that by (intro mult_le_mono1)
    then show ?thesis using assms(2) by (rule le_less_trans)
  qed
  have d: "unat (ex_TargetEndBlock e - ex_TargetStartBlock e) = ex_stop e - ex_start e"
    using f by (simp add: unat_minus_64 word_le_unat)
  show "checkedMul (ex_TargetStartBlock e) bs = Inr (ex_TargetOffset e)"
    using f lt [of "ex_start e"] by (simp add: checkedMul_Inr word_eq_unat unat_mult_64)
  show "checkedMul (ex_TargetEndBlock e - ex_TargetStartBlock e) bs = Inr (ex_TargetLength e)"
    using f lt [of "ex_stop e - ex_start e"] d by (simp add: checkedMul_Inr word_eq_unat unat_mult_64)
qed

text \<open>The target geometry a bound plan establishes.\<close>

definition target_plan_sound :: "RestoreTargetPlan \<Rightarrow> bool" where
  "target_plan_sound p \<longleftrightarrow>
     unat (rt_TargetSizeBytes p) = unat (rt_TargetBlockCount p) * unat (rt_StoreBlockSizeBytes p)
   \<and> rt_StoreBlockSizeBytes p \<noteq> 0 \<and> rt_MinimumTargetBytes p \<le> rt_TargetSizeBytes p
   \<and> extents_sound (rt_StoreBlockSizeBytes p) (rt_TargetBlockCount p) (rt_ResolvedWriteExtents p)
   \<and> (\<forall>e \<in> set (rt_ResolvedWriteExtents p).
        unat (ex_PayloadOffset e) + unat (ex_PayloadLength e) \<le> unat (rt_SourceFileSize p))
   \<and> unat (rt_MutationBytes p) = exts_total (rt_ResolvedWriteExtents p)
   \<and> rt_MutationBytes p \<le> rt_TargetSizeBytes p
   \<and> has_prefix (rt_DevicePath p) ''/dev/'' \<and> clean_rooted (rt_DevicePath p) = rt_DevicePath p
   \<and> rt_ExpectedTargetIdentity p \<noteq> []
   \<and> rt_ConfirmationRequired p \<and> \<not> rt_ExecutionSupported p
   \<and> rt_PlanSHA256 p = restoreTargetPlanDigest p"

lemma word_blocks:
  assumes "x mod bs = 0" and "bs \<noteq> (0 :: u64)" and "tb = x div bs"
  shows "unat x = unat tb * unat bs"
proof -
  have "unat x mod unat bs = 0" using assms(1) by (metis unat_mod_64 unat_0)
  then show ?thesis by (metis assms(3) unat_div_64 dvd_div_mult_self mod_0_imp_dvd)
qed

lemma extent_checks_nat:
  assumes "extent_checks plan e"
  shows "ex_start e < ex_stop e \<and> ex_stop e \<le> unat (rt_TargetBlockCount plan)
     \<and> unat (ex_TargetOffset e) = ex_start e * unat (rt_StoreBlockSizeBytes plan)
     \<and> unat (ex_TargetLength e) = (ex_stop e - ex_start e) * unat (rt_StoreBlockSizeBytes plan)"
proof -
  have "unat (ex_TargetEndBlock e - ex_TargetStartBlock e) = ex_stop e - ex_start e"
    using assms by (simp add: extent_checks_def unat_minus_64 less_imp_le)
  then show ?thesis
    using assms by (auto simp: extent_checks_def word_less_unat word_le_unat dest!: checkedMul_unat)
qed

lemma validate_target_plan_sound:
  assumes "validateRestoreTargetPlan p = Inr u"
  shows "target_plan_sound p"
proof -
  from assms obtain r where
    rq: "validateRestoreTargetRequest (restore_request p) = Inr r" and
    geo: "rt_StoreBlockSizeBytes p \<noteq> 0" "rt_TargetSizeBytes p mod rt_StoreBlockSizeBytes p = 0"
      "rt_TargetBlockCount p = rt_TargetSizeBytes p div rt_StoreBlockSizeBytes p"
      "\<not> rt_TargetSizeBytes p < rt_MinimumTargetBytes p" and
    ve: "validate_extents p 0 None (rt_ResolvedWriteExtents p) 0 = Inr (rt_MutationBytes p)" and
    fin: "\<not> rt_TargetSizeBytes p < rt_MutationBytes p" "rt_PlanSHA256 p = restoreTargetPlanDigest p"
      "rt_ConfirmationRequired p" "\<not> rt_ExecutionSupported p"
    by (auto simp: validateRestoreTargetPlan_def result_simps del: mod_0_imp_dvd)
  have V: "\<forall>e \<in> set (rt_ResolvedWriteExtents p). extent_checks p e"
    and acc: "account_extents None (rt_ResolvedWriteExtents p) 0 = Inr (rt_MutationBytes p)"
    using ve by (simp_all add: validate_extents_iff)
  note A = account_extents_Inr_iff [THEN iffD1, OF acc]
  have "sorted_wrt (\<lambda>a b. ex_stop a \<le> ex_start b) (rt_ResolvedWriteExtents p)"
    using A V by (intro extents.chain_sorted) (auto simp: extent_checks_def)
  then have "extents_sound (rt_StoreBlockSizeBytes p) (rt_TargetBlockCount p) (rt_ResolvedWriteExtents p)"
    using V extent_checks_nat [of p] by (auto simp: extents_sound_def extent_checks_def)
  moreover have "\<forall>e \<in> set (rt_ResolvedWriteExtents p).
      unat (ex_PayloadOffset e) + unat (ex_PayloadLength e) \<le> unat (rt_SourceFileSize p)"
    using V unfolding extent_checks_def by blast
  ultimately show ?thesis
    using A word_blocks [OF geo(2,1,3)] geo fin validateRestoreTargetRequest_Inr [OF rq]
    by (simp add: target_plan_sound_def restore_request_def not_less)
qed

lemma bind_target_Inr:
  assumes "BindAuthenticatedSingleStoreV1Target (Some ctx) outcome ss rq t = Inr (i, d, ai, p, t')"
  obtains t1 es m where "outcome = Inr (i, d, ai, t1)" "ai_IntegrityAuthenticated ai"
    "ai_HashTableCatalogAuthenticated ai" "ai_ContentMatchesHashTable ai"
    "validateRestoreTargetRequest rq = Inr rq" "\<not> dp_HasDestinationOverlap d"
    "dp_BlockSizeBytes d \<noteq> 0" "rq_TargetSizeBytes rq mod dp_BlockSizeBytes d = 0"
    "resolveRestoreWriteExtents d (rq_TargetSizeBytes rq div dp_BlockSizeBytes d) = Inr (es, m)"
    "rt_ResolvedWriteExtents p = es" "rt_MutationBytes p = m"
    "rt_TargetBlockCount p = rq_TargetSizeBytes rq div dp_BlockSizeBytes d"
    "rt_StoreBlockSizeBytes p = dp_BlockSizeBytes d" "rt_TargetSizeBytes p = rq_TargetSizeBytes rq"
    "rt_DevicePath p = rq_DevicePath rq" "rt_ExpectedTargetIdentity p = rq_ExpectedTargetIdentity rq"
    "validateRestoreTargetPlan p = Inr ()" "t' = t1 + 1"
proof -
  have q: "validateRestoreTargetRequest rq = Inr x \<Longrightarrow> x = rq" for x
    using validateRestoreTargetRequest_Inr by blast
  show thesis
    using assms that
    by (auto simp: BindAuthenticatedSingleStoreV1Target_def result_simps Let_def new_target_plan_def
        split: option.splits dest: q del: mod_0_imp_dvd)
qed

text \<open>
  C27: a bound target plan lists exactly the declared destinations of the image, sorted and
  pairwise disjoint, each inside the target with its exact byte range and a payload inside the
  source file; its mutation bytes are their sum and fit the target, and it rests on
  authenticated integrity and never permits execution by itself.
\<close>

theorem bind_target_sound:
  assumes "BindAuthenticatedSingleStoreV1Target (Some ctx) outcome sourceSize request t = Inr (i, d, ai, p, t')"
  shows "target_plan_sound p \<and> ai_IntegrityAuthenticated ai
    \<and> rt_TargetSizeBytes p = rq_TargetSizeBytes request
    \<and> rt_DevicePath p = rq_DevicePath request
    \<and> mset (rt_ResolvedWriteExtents p) = mset (declared_extents d (rt_TargetBlockCount p))"
proof -
  from bind_target_Inr [OF assms] obtain t1 es m where B:
    "ai_IntegrityAuthenticated ai" "dp_BlockSizeBytes d \<noteq> 0" "rq_TargetSizeBytes request mod dp_BlockSizeBytes d = 0"
    "resolveRestoreWriteExtents d (rq_TargetSizeBytes request div dp_BlockSizeBytes d) = Inr (es, m)"
    "rt_ResolvedWriteExtents p = es" "rt_TargetBlockCount p = rq_TargetSizeBytes request div dp_BlockSizeBytes d"
    "rt_TargetSizeBytes p = rq_TargetSizeBytes request" "rt_DevicePath p = rq_DevicePath request"
    "validateRestoreTargetPlan p = Inr ()" by metis
  have "unat (rq_TargetSizeBytes request) = unat (rt_TargetBlockCount p) * unat (dp_BlockSizeBytes d)"
    using word_blocks [OF B(3,2,6)] .
  then have "unat (rt_TargetBlockCount p) * unat (dp_BlockSizeBytes d) < 2 ^ 64"
    using unat_lt_64 [of "rq_TargetSizeBytes request"] by simp
  from resolve_extents_iff [OF this, THEN iffD1, OF B(4) [folded B(6)]] B(5)
  have "mset (rt_ResolvedWriteExtents p) = mset (declared_extents d (rt_TargetBlockCount p))" by simp
  then show ?thesis using validate_target_plan_sound [OF B(9)] B by simp
qed

lemma full_digest_ignores_sha [simp]:
  "fullFlashValidationPlanDigest (p\<lparr>fv_PlanSHA256 := h\<rparr>) = fullFlashValidationPlanDigest p"
  by (simp add: fullFlashValidationPlanDigest_def full_flash_validation_preimage_def)

text \<open>The plan passes its own validation whenever the guards before it hold.\<close>

definition bind_guards :: "AuthenticatedIntegrityPlan \<Rightarrow> DescriptorPlan \<Rightarrow> RestoreTargetRequest \<Rightarrow> bool" where
  "bind_guards ai d rq \<longleftrightarrow>
     ai_IntegrityAuthenticated ai \<and> ai_HashTableCatalogAuthenticated ai \<and> ai_ContentMatchesHashTable ai
   \<and> \<not> dp_HasDestinationOverlap d \<and> dp_BlockSizeBytes d \<noteq> 0
   \<and> dp_MinimumTargetBytes d \<le> rq_TargetSizeBytes rq
   \<and> rq_TargetSizeBytes rq mod dp_BlockSizeBytes d = 0
   \<and> dp_BlockSizeBytes d mod rq_LogicalSectorSizeBytes rq = 0
   \<and> dp_BlockSizeBytes d mod rq_PhysicalSectorSizeBytes rq = 0"

lemma payload_in_file:
  assumes "plan_sound d" "w \<in> set (dp_WriteDescriptors d)"
  shows "unat (wd_PayloadOffset w) + unat (wd_PayloadLength w) \<le> unat (dp_SourceFileSize d)"
proof -
  have c: "payload_chain (unat (dp_PayloadOffset d)) (dp_WriteDescriptors d) (unat (dp_PayloadEnd d))"
    and e: "unat (dp_PayloadEnd d) \<le> unat (dp_SourceFileSize d)"
    using assms(1) by (auto simp: plan_sound_def)
  have "payload_chain a ds b \<Longrightarrow> w \<in> set ds \<Longrightarrow> unat (wd_PayloadOffset w) + unat (wd_PayloadLength w) \<le> b" for a ds b
  proof (induction ds arbitrary: a)
    case (Cons x ds)
    then have r: "payload_chain (a + unat (wd_PayloadLength x)) ds b" "unat (wd_PayloadOffset x) = a" by auto
    show ?case
    proof (cases "w = x")
      case True
      then show ?thesis using payload_chain_length [OF r(1)] r(2) by simp
    next
      case False
      then show ?thesis using Cons r by auto
    qed
  qed simp
  from this [OF c assms(2)] e show ?thesis by simp
qed

lemma bind_self_valid:
  assumes "\<forall>t. ctx t = None" and "plan_sound d" and "dp_SourceFileSize d = sourceSize"
    and "length (dp_ValidationDescriptors d) < 2 ^ 64"
    and "outcome = Inr (i, d, ai, t1)"
  shows "is_ok (BindAuthenticatedSingleStoreV1Target (Some ctx) outcome sourceSize request t) \<longleftrightarrow>
     is_ok (validateRestoreTargetRequest request) \<and> bind_guards ai d request
     \<and> is_ok (resolveRestoreWriteExtents d (rq_TargetSizeBytes request div dp_BlockSizeBytes d))"
    (is "?l \<longleftrightarrow> ?r")
proof
  assume ?l
  then obtain x where x: "BindAuthenticatedSingleStoreV1Target (Some ctx) outcome sourceSize request t = Inr x"
    by (auto simp: is_ok_iff)
  then obtain rq where rq: "validateRestoreTargetRequest request = Inr rq"
    by (auto simp: BindAuthenticatedSingleStoreV1Target_def result_simps split: option.splits)
  then have "rq = request" using validateRestoreTargetRequest_Inr by blast
  with rq have rq: "validateRestoreTargetRequest request = Inr request" by simp
  from x have "bind_guards ai d request
     \<and> is_ok (resolveRestoreWriteExtents d (rq_TargetSizeBytes request div dp_BlockSizeBytes d))"
    unfolding BindAuthenticatedSingleStoreV1Target_def assms(5)
    by (simp add: rq assms(1) Let_def if_Inl_eq_Inr bindE_eq_Inr)
      (auto simp: bind_guards_def not_less)
  with rq show ?r by simp
next
  assume r: ?r
  let ?bs = "dp_BlockSizeBytes d" let ?tb = "rq_TargetSizeBytes request div ?bs"
  from r have rq: "validateRestoreTargetRequest request = Inr request"
    unfolding is_ok_iff using validateRestoreTargetRequest_Inr by blast
  from r obtain es m where res: "resolveRestoreWriteExtents d ?tb = Inr (es, m)"
    by (auto simp: is_ok_iff)
  have G: "bind_guards ai d request" using r by simp
  then have sz: "unat (rq_TargetSizeBytes request) = unat ?tb * unat ?bs"
    by (intro word_blocks) (auto simp: bind_guards_def del: mod_0_imp_dvd)
  then have lt: "unat ?tb * unat ?bs < 2 ^ 64"
    using unat_lt_64 [of "rq_TargetSizeBytes request"] by simp
  have S: "extents_sound ?bs ?tb es" "unat m = exts_total es" "es = sort_by extent_less (declared_extents d ?tb)"
    using resolve_extents_iff [OF lt, THEN iffD1, OF res] by blast+
  define p where "p = new_target_plan sourceSize ai d request ?tb es m"
  define p' where "p' = p\<lparr>rt_PlanSHA256 := restoreTargetPlanDigest p\<rparr>"
  have f: "rt_StoreBlockSizeBytes p' = ?bs" "rt_TargetBlockCount p' = ?tb" "rt_SourceFileSize p' = sourceSize"
      "rt_ResolvedWriteExtents p' = es" "rt_MutationBytes p' = m"
    by (simp_all add: p'_def p_def new_target_plan_def)
  have "validate_extents p' 0 None es 0 = Inr m"
  proof -
    have "extent_checks p' e" if e: "e \<in> set es" for e
    proof -
      obtain w l where w: "w \<in> set (dp_WriteDescriptors d)" "e = extent_of ?bs ?tb w l"
        using e by (auto simp: S(3) declared_extents_def)
      have "unat (ex_PayloadOffset e) + unat (ex_PayloadLength e) \<le> unat sourceSize"
        using payload_in_file [OF assms(2) w(1)] assms(3) by (simp add: w(2) extent_of_def)
      then show ?thesis
        using S(1) e extents_sound_checked [OF S(1) lt e]
        unfolding extent_checks_def f by (auto simp: extents_sound_def word_le_unat word_less_unat)
    qed
    moreover have "account_extents None es 0 = Inr m"
      using res by (auto simp: resolveRestoreWriteExtents_def result_simps Let_def)
    ultimately show ?thesis by (simp add: validate_extents_iff)
  qed
  moreover have "m \<le> rq_TargetSizeBytes request"
    using extents_total_le [OF S(1)] S(2) sz by (simp add: word_le_unat)
  moreover have "of_nat (length (dp_ValidationDescriptors d)) = (0 :: u64) \<longleftrightarrow> dp_ValidationDescriptors d = []"
    using assms(4) by (auto simp: word_eq_unat unat_of_nat_64)
  moreover have "restore_request p' = request"
    by (simp add: restore_request_def p'_def p_def new_target_plan_def)
  moreover have "rt_PlanSHA256 p' = restoreTargetPlanDigest p'" by (simp add: p'_def)
  moreover have "rt_Schema p' = 1" "rt_Mode p' = ''ffu-restore''" "rt_Destructive p'"
    "rt_SourceIntegrityAuthenticated p'" "rt_TargetIdentityBound p'" "rt_TargetGeometryBound p'"
    "rt_DestinationMapResolved p'" "\<not> rt_DestinationOverlap p'" "rt_ConfirmationRequired p'"
    "\<not> rt_ExecutionSupported p'" "\<not> rt_ValidationChecksResolved p'"
    "rt_Warnings p' = restoreTargetWarnings" "rt_Limitations p' = restoreTargetLimitations"
    "rt_TargetSizeBytes p' = rq_TargetSizeBytes request"
    "rt_LogicalSectorSizeBytes p' = rq_LogicalSectorSizeBytes request"
    "rt_PhysicalSectorSizeBytes p' = rq_PhysicalSectorSizeBytes request"
    "rt_MinimumTargetBytes p' = dp_MinimumTargetBytes d"
    "rt_WriteExtentCount p' = of_nat (length es)"
    "rt_ValidationChecksRequired p' \<longleftrightarrow> dp_ValidationDescriptors d \<noteq> []"
    "rt_ValidationDescriptorCount p' = of_nat (length (dp_ValidationDescriptors d))"
    by (simp_all add: p'_def p_def new_target_plan_def)
  ultimately have "validateRestoreTargetPlan p' = Inr ()"
    using G rq by (simp add: validateRestoreTargetPlan_def f bind_guards_def not_le not_less)
  then have "BindAuthenticatedSingleStoreV1Target (Some ctx) outcome sourceSize request t = Inr (i, d, ai, p', t1 + 1)"
    using G assms(1) rq res
    by (simp add: BindAuthenticatedSingleStoreV1Target_def assms(5) bind_guards_def Let_def p'_def p_def not_less)
  then show ?l by simp
qed

text \<open>
  For a sound descriptor plan the final self-validation of the bound plan is redundant:
  binding succeeds exactly when the request is valid, the guards on integrity and geometry
  hold, and the destinations resolve. So a plan the code builds is never refused by the
  validator every later stage runs on it.
\<close>

theorem bind_target_self_valid:
  assumes "\<forall>t. ctx t = None" and "plan_sound d" and "dp_SourceFileSize d = sourceSize"
    and "length (dp_ValidationDescriptors d) < 2 ^ 64"
    and "outcome = Inr (i, d, ai, t1)"
  shows "is_ok (BindAuthenticatedSingleStoreV1Target (Some ctx) outcome sourceSize request t) \<longleftrightarrow>
     is_ok (validateRestoreTargetRequest request) \<and> bind_guards ai d request
     \<and> is_ok (resolveRestoreWriteExtents d (rq_TargetSizeBytes request div dp_BlockSizeBytes d))"
  using assms by (rule bind_self_valid)

text \<open>
  The full-flash decision accepts only update type 0 without validation descriptors, on a
  sound target plan whose digest it binds, with something to write, and it fixes the
  confirmation phrase to the device path and size of the request.
\<close>

theorem full_flash_gate:
  assumes "ResolveAuthenticatedSingleStoreV1FullFlash (Some ctx) (Inr (i, d, ai, t1)) sourceSize request t
     = Inr (target, full)"
  shows "target_plan_sound target \<and> st_UpdateType (insp_Store i) = 0
    \<and> dp_ValidationDescriptors d = [] \<and> st_ValidateDescriptorCount (insp_Store i) = 0
    \<and> fv_RestoreTargetPlanSHA256 full = restoreTargetPlanDigest target
    \<and> fv_MutationBytes full = rt_MutationBytes target \<and> fv_MutationBytes full \<noteq> 0
    \<and> fv_ConfirmationPhrase full = confirmation_phrase (rq_DevicePath request) (rq_TargetSizeBytes request)
    \<and> \<not> fv_ExecutionSupported full
    \<and> fv_PlanSHA256 full = fullFlashValidationPlanDigest full"
proof -
  let ?B = "BindAuthenticatedSingleStoreV1Target (Some ctx) (Inr (i, d, ai, t1)) sourceSize request (t + 1)"
  from assms obtain d' i' ai' t2 phrase where
    B: "?B = Inr (i', d', ai', target, t2)" and
    g: "st_UpdateType (insp_Store i') = fullFlashUpdateType" "dp_ValidationDescriptors d' = []"
      "st_ValidateDescriptorCount (insp_Store i') = 0" and
    ph: "RestoreTargetConfirmationPhrase target = Inr phrase" and
    v: "validateFullFlashValidationPlan full = Inr ()" and
    f: "full = (new_full_flash_plan sourceSize i' d' ai' target phrase)\<lparr>fv_PlanSHA256 :=
          fullFlashValidationPlanDigest (new_full_flash_plan sourceSize i' d' ai' target phrase)\<rparr>"
    by (auto simp: ResolveAuthenticatedSingleStoreV1FullFlash_def result_simps Let_def split: option.splits)
  from B have e: "i' = i" "d' = d"
    by (auto simp: BindAuthenticatedSingleStoreV1Target_def result_simps Let_def split: option.splits)
  from bind_target_Inr [OF B] have T: "validateRestoreTargetPlan target = Inr ()"
    "rt_TargetSizeBytes target = rq_TargetSizeBytes request" "rt_DevicePath target = rq_DevicePath request"
    by metis+
  have "fv_PlanSHA256 full = fullFlashValidationPlanDigest full" "fv_MutationBytes full \<noteq> 0"
    using v by (auto simp: validateFullFlashValidationPlan_def result_simps)
  then show ?thesis
    using validate_target_plan_sound [OF T(1)] g T ph
    by (simp add: f e new_full_flash_plan_def target_plan_sound_def fullFlashUpdateType_def
        RestoreTargetConfirmationPhrase_def unat_gt_0)
qed

section \<open>A concrete target\<close>

text \<open>A target of 512 blocks of 512 bytes for the sample image, addressed from both ends.\<close>

definition sample_location :: "nat \<Rightarrow> string \<Rightarrow> u32 \<Rightarrow> DiskLocation" where
  "sample_location k anchor b =
     \<lparr> loc_Index = of_nat k, loc_AccessMethod = (if anchor = ''begin'' then 0 else 2),
       loc_Anchor = anchor, loc_BlockIndex = b, loc_BlockEnd = u64_of b + 2 \<rparr>"

definition sample_write :: WriteDescriptor where
  "sample_write = \<lparr> wd_Index = 0, wd_TableOffset = 0, wd_LocationCount = 2, wd_BlockCount = 2,
     wd_PayloadOffset = 3072, wd_PayloadLength = 1024,
     wd_Locations = [sample_location 0 ''begin'' 5, sample_location 1 ''end'' 0] \<rparr>"

definition empty_range :: PayloadTableRange where
  "empty_range = \<lparr> ptr_BlockIndex = 0, ptr_BlockCount = 0, ptr_BlockEnd = 0 \<rparr>"

definition sample_base :: DescriptorPlan where
  "sample_base = \<lparr> dp_Schema = 1, dp_StoreMajorVersion = 1, dp_StoreMinorVersion = 0,
     dp_SourceFileSize = 4096, dp_ChunkSizeBytes = 1024, dp_BlockSizeBytes = 512,
     dp_ValidationDescriptorOffset = 0, dp_WriteDescriptorOffset = 0, dp_WriteDescriptorEnd = 24,
     dp_PayloadOffset = 3072, dp_PayloadLength = 1024, dp_PayloadEnd = 4096,
     dp_PayloadFileBytes = 1024, dp_TrailingFileBytes = 0, dp_TotalPayloadBlocks = 2,
     dp_BeginningExtentBlocks = 7, dp_EndingExtentBlocks = 2, dp_MinimumTargetBlocks = 9,
     dp_MinimumTargetBytes = 4608, dp_InitialTable = empty_range, dp_FlashOnlyTable = empty_range,
     dp_FinalTable = \<lparr> ptr_BlockIndex = 0, ptr_BlockCount = 2, ptr_BlockEnd = 2 \<rparr>,
     dp_ValidationDescriptors = [], dp_WriteDescriptors = [sample_write],
     dp_DestinationOverlaps = [], dp_HasDestinationOverlap = False,
     dp_TargetSizeBindingRequired = True, dp_IntegrityAuthenticated = False,
     dp_ExecutionSupported = False, dp_PlanSHA256 = [], dp_Limitations = descriptorPlanLimitations \<rparr>"

definition sample_descriptor_plan :: DescriptorPlan where
  "sample_descriptor_plan = sample_base\<lparr>dp_PlanSHA256 := descriptorPlanDigest sample_base\<rparr>"

lemma sample_plan_sound: "plan_sound sample_descriptor_plan"
proof -
  have d: "dp_PlanSHA256 sample_descriptor_plan = descriptorPlanDigest sample_descriptor_plan"
    by (simp add: sample_descriptor_plan_def)
  show ?thesis
    unfolding plan_sound_def
    by (intro conjI d; simp add: sample_descriptor_plan_def sample_base_def sample_write_def
        sample_location_def descriptor_sound_def location_sound_def intervals_of_def
        detectSameAnchorOverlaps_def interval_less_def u64_of_def
        diskAccessBegin_def diskAccessEnd_def)
qed

definition sample_integrity :: AuthenticatedIntegrityPlan where
  "sample_integrity = \<lparr> ai_Schema = 1, ai_SourceFileSize = 4096, ai_DescriptorPlanSHA256 = [],
     ai_HashTablePlanSHA256 = [], ai_CatalogAuthenticationPlanSHA256 = [],
     ai_ContentVerificationSHA256 = [], ai_CatalogSHA256 = sha256_hex [], ai_HashTableSHA256 = sha256_hex [],
     ai_HashEntryCount = 3, ai_CoverageOffset = 1024, ai_CoverageLength = 3072, ai_CoverageEnd = 4096,
     ai_ChunkSizeBytes = 1024, ai_VerifiedChunkCount = 3, ai_FinalChunkZeroPaddingBytes = 0,
     ai_HashTableCatalogAuthenticated = True, ai_ContentMatchesHashTable = True,
     ai_IntegrityAuthenticated = True, ai_RevocationChecked = False, ai_TimestampVerified = False,
     ai_TargetSizeBindingRequired = True, ai_ExecutionSupported = False,
     ai_PlanSHA256 = sha256_hex [], ai_Limitations = [] \<rparr>"

definition sample_request :: RestoreTargetRequest where
  "sample_request = \<lparr> rq_DevicePath = ''/dev/sdb'', rq_ExpectedTargetIdentity = IdentityToken sample_disk,
     rq_TargetSizeBytes = 262144, rq_LogicalSectorSizeBytes = 512, rq_PhysicalSectorSizeBytes = 512 \<rparr>"

lemma hex_encode_codes: "c \<in> set (hex_encode bs) \<Longrightarrow> 33 \<le> (of_char c :: nat) \<and> (of_char c :: nat) \<le> 126"
proof (induction bs)
  case (Cons b bs)
  have "33 \<le> (of_char (hex_digit n) :: nat) \<and> (of_char (hex_digit n) :: nat) \<le> 126" if "n < 16" for n
    using that by (auto simp: hex_digit_def)
  then show ?case using Cons unat_lt_8 [of b] by (auto simp: hex_encode_def hex_byte_def)
qed (simp add: hex_encode_def)

lemma identity_token_simps [simp]:
  "length (IdentityToken d) = 64" "IdentityToken d \<noteq> []" "trim_space (IdentityToken d) = IdentityToken d"
proof -
  show l: "length (IdentityToken d) = 64" by (simp add: IdentityToken_def)
  then show n: "IdentityToken d \<noteq> []" by auto
  show "trim_space (IdentityToken d) = IdentityToken d"
    using hex_encode_codes [OF hd_in_set] hex_encode_codes [OF last_in_set] n
    by (intro trim_space_id) (simp_all add: IdentityToken_def sha256_hex_def)
qed

lemma sample_request_ok: "validateRestoreTargetRequest sample_request = Inr sample_request"
  by (simp add: sample_request_def validateRestoreTargetRequest_def Let_def validFFUTargetSectorSize_def
    trim_space_id is_abs_def has_prefix_def clean_rooted_def)

lemma hex_digit_lower: "n < 16 \<Longrightarrow> \<not> is_upper (hex_digit n)"
  by (auto simp: is_upper_def hex_digit_def)

lemma sha256_hex_valid: "validFullFlashPlanSHA256 (sha256_hex x)"
proof -
  have "\<not> list_ex is_upper (hex_encode bs)" for bs
  proof (induction bs)
    case (Cons b bs)
    then show ?case using unat_lt_8 [of b] by (simp add: hex_encode_def hex_byte_def hex_digit_lower)
  qed (simp add: hex_encode_def)
  then show ?thesis
    by (simp add: validFullFlashPlanSHA256_def sha256_hex_def hex_decode_encode)
qed

lemma digests_valid [simp]:
  "validFullFlashPlanSHA256 (restoreTargetPlanDigest p)"
  "validFullFlashPlanSHA256 (descriptorPlanDigest d)"
  "validFullFlashPlanSHA256 (fullFlashValidationPlanDigest f)"
  by (simp_all add: restoreTargetPlanDigest_def descriptorPlanDigest_def
      fullFlashValidationPlanDigest_def sha256_hex_valid)

definition sample_extents :: "ResolvedWriteExtent list" where
  "sample_extents = [extent_of 512 512 sample_write (sample_location 0 ''begin'' 5),
     extent_of 512 512 sample_write (sample_location 1 ''end'' 0)]"

lemma sample_resolved: "resolveRestoreWriteExtents sample_descriptor_plan 512 = Inr (sample_extents, 2048)"
  by (simp add: resolveRestoreWriteExtents_def sample_descriptor_plan_def sample_base_def sample_write_def
     sample_location_def sample_extents_def extent_of_def dest_start_def resolve_write_def resolve_location_def
     Let_def checkedMul_def checkedAdd_def maxUint64_def u64_of_def extent_less_def)

theorem resolve_extents_complete_witness:
  "extents_disjoint (sample_extents ! 0) (sample_extents ! 1)"
proof -
  have "unat (512 :: u64) * unat (dp_BlockSizeBytes sample_descriptor_plan) < 2 ^ 64"
    by (simp add: sample_descriptor_plan_def sample_base_def)
  from resolve_extents_complete [OF this] sample_resolved
  have d: "\<forall>a b. {#a, b#} \<subseteq># mset (declared_extents sample_descriptor_plan 512) \<longrightarrow> extents_disjoint a b" by simp
  have "declared_extents sample_descriptor_plan 512 = sample_extents"
    by (simp add: declared_extents_def sample_descriptor_plan_def sample_base_def sample_write_def sample_extents_def)
  then have "{#sample_extents ! 0, sample_extents ! 1#} \<subseteq># mset (declared_extents sample_descriptor_plan 512)"
    by (simp add: sample_extents_def)
  with d show ?thesis by blast
qed

lemma sample_fields [simp]:
  "dp_BlockSizeBytes sample_descriptor_plan = 512" "dp_SourceFileSize sample_descriptor_plan = 4096"
  "dp_ValidationDescriptors sample_descriptor_plan = []"
  "rq_TargetSizeBytes sample_request div 512 = 512"
  by (simp_all add: sample_descriptor_plan_def sample_base_def sample_request_def)

lemma sample_guards: "bind_guards sample_integrity sample_descriptor_plan sample_request"
  by (simp add: bind_guards_def sample_integrity_def sample_descriptor_plan_def sample_base_def sample_request_def)

lemma sample_bound:
  "is_ok (BindAuthenticatedSingleStoreV1Target (Some (\<lambda>_. None)) (Inr (i, sample_descriptor_plan, sample_integrity, 1))
     4096 sample_request t)"
  by (rule bind_self_valid [where d = sample_descriptor_plan and ai = sample_integrity
        and i = i, THEN iffD2]) (simp_all add: sample_plan_sound sample_request_ok sample_guards sample_resolved)

theorem bind_target_self_valid_witness:
  "\<forall>i. is_ok (BindAuthenticatedSingleStoreV1Target (Some (\<lambda>_. None)) (Inr (i, sample_descriptor_plan, sample_integrity, 1))
     4096 sample_request 0)"
  by (rule allI, rule bind_target_self_valid [where d = sample_descriptor_plan and ai = sample_integrity,
        THEN iffD2]) (simp_all add: sample_plan_sound sample_request_ok sample_guards sample_resolved)

theorem bind_target_sound_witness:
  "\<exists>i d ai p t. BindAuthenticatedSingleStoreV1Target (Some (\<lambda>_. None))
     (Inr (i, sample_descriptor_plan, sample_integrity, 1)) 4096 sample_request 0 = Inr (i, d, ai, p, t)
     \<and> target_plan_sound p"
proof -
  obtain i d ai p t where b: "BindAuthenticatedSingleStoreV1Target (Some (\<lambda>_. None))
     (Inr (i, sample_descriptor_plan, sample_integrity, 1)) 4096 sample_request 0 = Inr (i, d, ai, p, t)"
    using sample_bound [of undefined 0] bind_target_Inr unfolding is_ok_iff by (metis prod_cases5 prod.inject sum.inject(2))
  from bind_target_sound [OF b] b show ?thesis by blast
qed

lemma sample_full_flash:
  "\<exists>i target full. ResolveAuthenticatedSingleStoreV1FullFlash (Some (\<lambda>_. None))
     (Inr (i, sample_descriptor_plan, sample_integrity, 1)) 4096 sample_request 0 = Inr (target, full)"
proof -
  from sample_inspect obtain i :: Inspection where "insp_Store i = (store_header_of sample_store)\<lparr>st_FinalTableBlockEnd := 1\<rparr>"
    by (elim exE conjE)
  then have i: "st_UpdateType (insp_Store i) = 0" "st_ValidateDescriptorCount (insp_Store i) = 0"
    "st_ValidateDescriptorLength (insp_Store i) = 0" by (simp_all add: sample_store_header)
  let ?o = "Inr (i, sample_descriptor_plan, sample_integrity, 1)"
  obtain i' d ai p t where b: "BindAuthenticatedSingleStoreV1Target (Some (\<lambda>_. None)) ?o 4096 sample_request 1
      = Inr (i', d, ai, p, t)"
    using sample_bound [of i 1] unfolding is_ok_iff by (metis prod_cases5)
  have e: "i' = i" "d = sample_descriptor_plan" "ai = sample_integrity"
    and pe: "p = (new_target_plan 4096 sample_integrity sample_descriptor_plan sample_request 512 sample_extents 2048)
       \<lparr>rt_PlanSHA256 := restoreTargetPlanDigest (new_target_plan 4096 sample_integrity
          sample_descriptor_plan sample_request 512 sample_extents 2048)\<rparr>"
    using b by (auto simp: BindAuthenticatedSingleStoreV1Target_def sample_request_ok result_simps Let_def
        sample_resolved)
  have v: "validateRestoreTargetPlan p = Inr ()" using bind_target_Inr [OF b] by metis
  have r: "\<lparr> rq_DevicePath = ''/dev/sdb'', rq_ExpectedTargetIdentity = IdentityToken sample_disk,
     rq_TargetSizeBytes = 262144, rq_LogicalSectorSizeBytes = 512, rq_PhysicalSectorSizeBytes = 512 \<rparr> = sample_request"
    by (simp add: sample_request_def)
  have f: "rt_DevicePath p = ''/dev/sdb''" "rt_ExpectedTargetIdentity p = IdentityToken sample_disk"
    "rt_TargetSizeBytes p = 262144" "rt_LogicalSectorSizeBytes p = 512" "rt_PhysicalSectorSizeBytes p = 512"
    "rt_StoreBlockSizeBytes p = 512" "rt_TargetBlockCount p = 512" "rt_MutationBytes p = 2048"
    "rt_ValidationDescriptorCount p = 0" "\<not> rt_ValidationChecksRequired p" "\<not> rt_ValidationChecksResolved p"
    by (simp_all add: pe new_target_plan_def sample_request_def sample_descriptor_plan_def sample_base_def)
  have h: "validFullFlashPlanSHA256 (rt_PlanSHA256 p)" "validFullFlashPlanSHA256 (dp_PlanSHA256 sample_descriptor_plan)"
    "validFullFlashPlanSHA256 (ai_PlanSHA256 sample_integrity)" "validFullFlashPlanSHA256 (ai_CatalogSHA256 sample_integrity)"
    "validFullFlashPlanSHA256 (ai_HashTableSHA256 sample_integrity)" "dp_ValidationDescriptors sample_descriptor_plan = []"
    by (simp_all add: pe sample_descriptor_plan_def sample_integrity_def sha256_hex_valid sample_base_def)
  define full where "full = new_full_flash_plan 4096 i sample_descriptor_plan sample_integrity p
     (confirmation_phrase ''/dev/sdb'' 262144)"
  have "validateFullFlashValidationPlan (full\<lparr>fv_PlanSHA256 := fullFlashValidationPlanDigest full\<rparr>) = Inr ()"
    by (simp add: validateFullFlashValidationPlan_def full_digest_ignores_sha)
       (simp add: full_def new_full_flash_plan_def f h r sample_request_ok i fullFlashUpdateType_def)
  then show ?thesis
    using b [unfolded e] by (intro exI [of _ i]) (simp add: ResolveAuthenticatedSingleStoreV1FullFlash_def v f h i
      fullFlashUpdateType_def RestoreTargetConfirmationPhrase_def Let_def full_def)
qed

theorem full_flash_gate_witness:
  "\<exists>i target full. ResolveAuthenticatedSingleStoreV1FullFlash (Some (\<lambda>_. None))
     (Inr (i, sample_descriptor_plan, sample_integrity, 1)) 4096 sample_request 0 = Inr (target, full)
     \<and> fv_MutationBytes full \<noteq> 0"
  using sample_full_flash full_flash_gate by (elim exE) blast

end
