(* ===== verification/FfuOrder.thy ===== *)
theory FfuOrder
  imports FfuRestore
begin

text \<open>
  \<open>internal/ffu/restore_write_order_linux.go\<close>: the single-phase write order. The Go map from
  extent identities to extents is an association list here; a \<open>for\<close> loop is a recursion
  over the list it ranges over, with its index.
\<close>

section \<open>Data\<close>

record OrderedFullFlashWriteOperation =
  op_Sequence :: u64
  op_DescriptorIndex :: u32
  op_LocationIndex :: u32
  op_Anchor :: string
  op_TargetStartBlock :: u64
  op_TargetEndBlock :: u64
  op_TargetOffset :: u64
  op_TargetLength :: u64
  op_PayloadOffset :: u64
  op_PayloadLength :: u64

record FullFlashWriteOrderPlan =
  wo_Schema :: nat
  wo_Mode :: string
  wo_Destructive :: bool
  wo_DescriptorPlanSHA256 :: string
  wo_RestoreTargetPlanSHA256 :: string
  wo_FullFlashValidationPlanSHA256 :: string
  wo_AuthenticatedIntegrityPlanSHA256 :: string
  wo_CatalogSHA256 :: string
  wo_HashTableSHA256 :: string
  wo_SourceFileSize :: u64
  wo_DevicePath :: string
  wo_ExpectedTargetIdentity :: string
  wo_TargetSizeBytes :: u64
  wo_StoreBlockSizeBytes :: u64
  wo_TargetBlockCount :: u64
  wo_PayloadOffset :: u64
  wo_PayloadLength :: u64
  wo_PayloadEnd :: u64
  wo_TotalPayloadBlocks :: u64
  wo_InitialTable :: PayloadTableRange
  wo_FlashOnlyTable :: PayloadTableRange
  wo_FinalTable :: PayloadTableRange
  wo_WriteDescriptorCount :: u64
  wo_OperationCount :: u64
  wo_MutationBytes :: u64
  wo_SinglePhasePayloadProfile :: bool
  wo_SpecialGPTPhasesAbsent :: bool
  wo_FinalTableCoversPayload :: bool
  wo_DeclaredDescriptorOrderPreserved :: bool
  wo_ConfirmationPhrase :: string
  wo_ConfirmationStillRequired :: bool
  wo_MutationPermitted :: bool
  wo_ExecutionSupported :: bool
  wo_Operations :: "OrderedFullFlashWriteOperation list"
  wo_PlanSHA256 :: string
  wo_Warnings :: "string list"
  wo_Limitations :: "string list"

type_synonym fullFlashWriteExtentKey = "u32 \<times> u32"

section \<open>Digest and evidence\<close>

definition writeFullFlashWriteOrderUint64 :: "u64 \<Rightarrow> bytes" where
  "writeFullFlashWriteOrderUint64 v = writeRestoreUint64 v"

definition writeFullFlashWriteOrderString :: "string \<Rightarrow> bytes" where
  "writeFullFlashWriteOrderString v = writeRestoreString v"

definition writeFullFlashWriteOrderBool :: "bool \<Rightarrow> bytes" where
  "writeFullFlashWriteOrderBool v = writeRestoreBool v"

definition writeFullFlashWriteOrderPayloadRange :: "PayloadTableRange \<Rightarrow> bytes" where
  "writeFullFlashWriteOrderPayloadRange v =
     writeFullFlashWriteOrderUint64 (u64_of (ptr_BlockIndex v))
     @ writeFullFlashWriteOrderUint64 (u64_of (ptr_BlockCount v))
     @ writeFullFlashWriteOrderUint64 (ptr_BlockEnd v)"

definition digest_operation :: "OrderedFullFlashWriteOperation \<Rightarrow> bytes" where
  "digest_operation o1 =
     writeFullFlashWriteOrderUint64 (op_Sequence o1)
     @ writeFullFlashWriteOrderUint64 (u64_of (op_DescriptorIndex o1))
     @ writeFullFlashWriteOrderUint64 (u64_of (op_LocationIndex o1))
     @ writeFullFlashWriteOrderString (op_Anchor o1)
     @ writeFullFlashWriteOrderUint64 (op_TargetStartBlock o1)
     @ writeFullFlashWriteOrderUint64 (op_TargetEndBlock o1)
     @ writeFullFlashWriteOrderUint64 (op_TargetOffset o1)
     @ writeFullFlashWriteOrderUint64 (op_TargetLength o1)
     @ writeFullFlashWriteOrderUint64 (op_PayloadOffset o1)
     @ writeFullFlashWriteOrderUint64 (op_PayloadLength o1)"

definition write_order_preimage :: "FullFlashWriteOrderPlan \<Rightarrow> bytes" where
  "write_order_preimage p =
     writeFullFlashWriteOrderUint64 (of_nat (wo_Schema p)) @ writeFullFlashWriteOrderString (wo_Mode p)
     @ writeFullFlashWriteOrderBool (wo_Destructive p)
     @ concat (map writeFullFlashWriteOrderString
         [wo_DescriptorPlanSHA256 p, wo_RestoreTargetPlanSHA256 p,
          wo_FullFlashValidationPlanSHA256 p, wo_AuthenticatedIntegrityPlanSHA256 p,
          wo_CatalogSHA256 p, wo_HashTableSHA256 p])
     @ writeFullFlashWriteOrderUint64 (wo_SourceFileSize p)
     @ writeFullFlashWriteOrderString (wo_DevicePath p)
     @ writeFullFlashWriteOrderString (wo_ExpectedTargetIdentity p)
     @ concat (map writeFullFlashWriteOrderUint64
         [wo_TargetSizeBytes p, wo_StoreBlockSizeBytes p, wo_TargetBlockCount p,
          wo_PayloadOffset p, wo_PayloadLength p, wo_PayloadEnd p, wo_TotalPayloadBlocks p])
     @ writeFullFlashWriteOrderPayloadRange (wo_InitialTable p)
     @ writeFullFlashWriteOrderPayloadRange (wo_FlashOnlyTable p)
     @ writeFullFlashWriteOrderPayloadRange (wo_FinalTable p)
     @ concat (map writeFullFlashWriteOrderUint64
         [wo_WriteDescriptorCount p, wo_OperationCount p, wo_MutationBytes p])
     @ concat (map writeFullFlashWriteOrderBool
         [wo_SinglePhasePayloadProfile p, wo_SpecialGPTPhasesAbsent p,
          wo_FinalTableCoversPayload p, wo_DeclaredDescriptorOrderPreserved p])
     @ writeFullFlashWriteOrderString (wo_ConfirmationPhrase p)
     @ concat (map writeFullFlashWriteOrderBool
         [wo_ConfirmationStillRequired p, wo_MutationPermitted p, wo_ExecutionSupported p])
     @ concat (map digest_operation (wo_Operations p))
     @ concat (map writeFullFlashWriteOrderString (wo_Warnings p))
     @ concat (map writeFullFlashWriteOrderString (wo_Limitations p))"

definition fullFlashWriteOrderPlanDigest :: "FullFlashWriteOrderPlan \<Rightarrow> string" where
  "fullFlashWriteOrderPlanDigest p = sha256_hex (write_order_preimage p)"

definition fullFlashWriteOrderWarnings :: "string list" where
  "fullFlashWriteOrderWarnings =
    [''This plan describes destructive writes but deliberately grants no permission to perform them.'',
     ''Only the unambiguous single-phase profile with no initial or flash-only GPT payload range is accepted.'',
     ''The authenticated source lease, exclusive target session, and exact destructive confirmation must remain healthy through any future authorization and execution.'',
     ''Software restoration cannot prove physical bootability or complete device health.'']"

definition fullFlashWriteOrderLimitations :: "string list" where
  "fullFlashWriteOrderLimitations =
    [''staged-GPT and mobile-style FFU profiles remain refused rather than assigned inferred ordering semantics'',
     ''the plan exposes no source or target descriptor and performs no read, write, seek, sync, ioctl, unmount, or privilege operation'',
     ''cancellation result states, first-mutation authorization, flush, readback, changed-media handling, and provider qualification remain separate gates'',
     ''mutation_permitted and execution_supported remain false'']"

definition emptyCanonicalPayloadTableRange :: "PayloadTableRange \<Rightarrow> bool" where
  "emptyCanonicalPayloadTableRange v \<longleftrightarrow>
     ptr_BlockIndex v = 0 \<and> ptr_BlockCount v = 0 \<and> ptr_BlockEnd v = 0"

section \<open>The validator\<close>

fun validate_operations ::
  "FullFlashWriteOrderPlan \<Rightarrow> nat \<Rightarrow> OrderedFullFlashWriteOperation list \<Rightarrow> u64 \<Rightarrow> u64 res" where
  "validate_operations plan index [] mutationBytes = Inr mutationBytes"
| "validate_operations plan index (op # ops) mutationBytes =
     (if op_Sequence op \<noteq> of_nat index
         \<or> (ucast (wo_WriteDescriptorCount plan) :: u32) \<le> op_DescriptorIndex op
         \<or> (op_Anchor op \<noteq> ''begin'' \<and> op_Anchor op \<noteq> ''end'')
         \<or> op_TargetEndBlock op \<le> op_TargetStartBlock op
         \<or> wo_TargetBlockCount plan < op_TargetEndBlock op
         \<or> checkedMul (op_TargetStartBlock op) (wo_StoreBlockSizeBytes plan)
             \<noteq> Inr (op_TargetOffset op)
         \<or> checkedMul (op_TargetEndBlock op - op_TargetStartBlock op) (wo_StoreBlockSizeBytes plan)
             \<noteq> Inr (op_TargetLength op)
         \<or> op_PayloadLength op \<noteq> op_TargetLength op
         \<or> op_PayloadOffset op < wo_PayloadOffset plan
         \<or> (case checkedAdd (op_PayloadOffset op) (op_PayloadLength op) of
              Inl _ \<Rightarrow> True | Inr payloadEnd \<Rightarrow> wo_PayloadEnd plan < payloadEnd)
      then Inl (Errorf ''FFU single-phase write-order operation %d is inconsistent'' [FN index])
      else bindE (mapE (\<lambda>_. Msg ''FFU single-phase write-order mutation accounting overflows'')
             (checkedAdd mutationBytes (op_TargetLength op)))
             (validate_operations plan (Suc index) ops))"

definition validateFullFlashWriteOrderPlan :: "FullFlashWriteOrderPlan \<Rightarrow> unit res" where
  "validateFullFlashWriteOrderPlan plan =
     (if wo_Schema plan \<noteq> 1 \<or> wo_Mode plan \<noteq> ''ffu-single-phase-write-order''
         \<or> \<not> wo_Destructive plan \<or> \<not> wo_SinglePhasePayloadProfile plan
         \<or> \<not> wo_SpecialGPTPhasesAbsent plan \<or> \<not> wo_FinalTableCoversPayload plan
         \<or> \<not> wo_DeclaredDescriptorOrderPreserved plan \<or> \<not> wo_ConfirmationStillRequired plan
         \<or> wo_MutationPermitted plan \<or> wo_ExecutionSupported plan
      then Inl (Msg ''invalid FFU single-phase write-order envelope'')
      else if \<not> list_all validFullFlashPlanSHA256
                [wo_DescriptorPlanSHA256 plan, wo_RestoreTargetPlanSHA256 plan,
                 wo_FullFlashValidationPlanSHA256 plan, wo_AuthenticatedIntegrityPlanSHA256 plan,
                 wo_CatalogSHA256 plan, wo_HashTableSHA256 plan]
      then Inl (Msg ''FFU single-phase write-order plan contains an invalid SHA-256 evidence identifier'')
      else if wo_SourceFileSize plan = 0 \<or> wo_TargetSizeBytes plan = 0
              \<or> wo_StoreBlockSizeBytes plan = 0
              \<or> wo_TargetBlockCount plan \<noteq> wo_TargetSizeBytes plan div wo_StoreBlockSizeBytes plan
              \<or> wo_TargetSizeBytes plan mod wo_StoreBlockSizeBytes plan \<noteq> 0
      then Inl (Msg ''FFU single-phase write-order target geometry is inconsistent'')
      else if \<not> emptyCanonicalPayloadTableRange (wo_InitialTable plan)
              \<or> \<not> emptyCanonicalPayloadTableRange (wo_FlashOnlyTable plan)
              \<or> wo_TotalPayloadBlocks plan = 0
              \<or> ptr_BlockIndex (wo_FinalTable plan) \<noteq> 0
              \<or> ptr_BlockEnd (wo_FinalTable plan) \<noteq> wo_TotalPayloadBlocks plan
              \<or> u64_of (ptr_BlockCount (wo_FinalTable plan)) \<noteq> wo_TotalPayloadBlocks plan
      then Inl (Msg ''FFU single-phase write-order table profile is inconsistent'')
      else if checkedMul (wo_TotalPayloadBlocks plan) (wo_StoreBlockSizeBytes plan)
                \<noteq> Inr (wo_PayloadLength plan)
              \<or> checkedAdd (wo_PayloadOffset plan) (wo_PayloadLength plan) \<noteq> Inr (wo_PayloadEnd plan)
              \<or> wo_SourceFileSize plan < wo_PayloadEnd plan
              \<or> wo_WriteDescriptorCount plan = 0
              \<or> wo_OperationCount plan \<noteq> of_nat (length (wo_Operations plan))
              \<or> wo_MutationBytes plan = 0 \<or> wo_TargetSizeBytes plan < wo_MutationBytes plan
      then Inl (Msg ''FFU single-phase write-order payload or operation accounting is inconsistent'')
      else
      bindE (validate_operations plan 0 (wo_Operations plan) 0) (\<lambda>mutationBytes.
      if wo_DevicePath plan = [] \<or> wo_ExpectedTargetIdentity plan = []
         \<or> wo_ConfirmationPhrase plan
             \<noteq> confirmation_phrase (wo_DevicePath plan) (wo_TargetSizeBytes plan)
         \<or> mutationBytes \<noteq> wo_MutationBytes plan
         \<or> \<not> equalRestoreStrings (wo_Warnings plan) fullFlashWriteOrderWarnings
         \<or> \<not> equalRestoreStrings (wo_Limitations plan) fullFlashWriteOrderLimitations
         \<or> wo_PlanSHA256 plan \<noteq> fullFlashWriteOrderPlanDigest plan
      then Inl (Msg ''FFU single-phase write-order evidence, confirmation, warnings, or limitations were altered'')
      else Inr ()))"

section \<open>Planning the order\<close>

text \<open>The extents of the target plan by identity; a duplicate is refused.\<close>

fun index_extents ::
  "ResolvedWriteExtent list \<Rightarrow> (fullFlashWriteExtentKey \<times> ResolvedWriteExtent) list
     \<Rightarrow> (fullFlashWriteExtentKey \<times> ResolvedWriteExtent) list res" where
  "index_extents [] m = Inr m"
| "index_extents (e # es) m =
     (if map_of m (ex_DescriptorIndex e, ex_LocationIndex e) \<noteq> None
      then Inl (Errorf ''FFU target plan contains duplicate extent identity %d:%d''
                  [FN (unat (ex_DescriptorIndex e)), FN (unat (ex_LocationIndex e))])
      else index_extents es (((ex_DescriptorIndex e, ex_LocationIndex e), e) # m))"

record order_state =
  os_extents :: "(fullFlashWriteExtentKey \<times> ResolvedWriteExtent) list"
  os_sequence :: u64
  os_mutationBytes :: u64

definition order_location ::
  "u64 \<Rightarrow> u64 \<Rightarrow> nat \<Rightarrow> WriteDescriptor \<Rightarrow> nat \<Rightarrow> DiskLocation \<Rightarrow> order_state
     \<Rightarrow> (OrderedFullFlashWriteOperation \<times> order_state) res" where
  "order_location blockSize targetBlocks descriptorIndex w locationIndex l s =
     (let at = [FN descriptorIndex, FN locationIndex];
          ident = [FN (unat (wd_Index w)), FN (unat (loc_Index l))];
          beyond = Inl (Errorf ''FFU write descriptor %d location %d exceeds the target'' at) in
      if loc_Index l \<noteq> of_nat locationIndex
         \<or> loc_BlockEnd l \<noteq> u64_of (loc_BlockIndex l) + u64_of (wd_BlockCount w)
      then Inl (Errorf ''FFU write descriptor %d location %d declaration is inconsistent'' at)
      else
      bindE
        (if loc_Anchor l = ''begin'' then
           (if loc_AccessMethod l \<noteq> diskAccessBegin
            then Inl (Errorf ''FFU write descriptor %d location %d begin anchor has the wrong access method'' at)
            else Inr (u64_of (loc_BlockIndex l)))
         else if loc_Anchor l = ''end'' then
           (if loc_AccessMethod l \<noteq> diskAccessEnd \<or> targetBlocks < loc_BlockEnd l
            then Inl (Errorf ''FFU write descriptor %d location %d end anchor is inconsistent with the target'' at)
            else Inr (targetBlocks - loc_BlockEnd l))
         else Inl (Errorf ''FFU write descriptor %d location %d has unsupported anchor %q''
                     (at @ [FS (loc_Anchor l)]))) (\<lambda>targetStart.
      case checkedAdd targetStart (u64_of (wd_BlockCount w)) of Inl _ \<Rightarrow> beyond | Inr targetEnd \<Rightarrow>
      (case checkedMul targetStart blockSize of Inl _ \<Rightarrow> beyond | Inr targetOffset \<Rightarrow>
      if targetBlocks < targetEnd then beyond
      else
      (case map_of (os_extents s) (wd_Index w, loc_Index l) of
        None \<Rightarrow> Inl (Errorf ''FFU target plan is missing declared extent %d:%d'' ident)
      | Some e \<Rightarrow>
          if ex_Anchor e \<noteq> loc_Anchor l \<or> ex_TargetStartBlock e \<noteq> targetStart
             \<or> ex_TargetEndBlock e \<noteq> targetEnd \<or> ex_TargetOffset e \<noteq> targetOffset
             \<or> ex_TargetLength e \<noteq> wd_PayloadLength w \<or> ex_PayloadOffset e \<noteq> wd_PayloadOffset w
             \<or> ex_PayloadLength e \<noteq> wd_PayloadLength w
          then Inl (Errorf ''FFU target extent %d:%d disagrees with the declared descriptor'' ident)
          else
          bindE (mapE (\<lambda>_. Msg ''FFU ordered mutation accounting overflows'')
            (checkedAdd (os_mutationBytes s) (wd_PayloadLength w))) (\<lambda>mutationBytes.
          Inr (\<lparr> op_Sequence = os_sequence s,
                 op_DescriptorIndex = wd_Index w,
                 op_LocationIndex = loc_Index l,
                 op_Anchor = loc_Anchor l,
                 op_TargetStartBlock = targetStart,
                 op_TargetEndBlock = targetEnd,
                 op_TargetOffset = targetOffset,
                 op_TargetLength = wd_PayloadLength w,
                 op_PayloadOffset = wd_PayloadOffset w,
                 op_PayloadLength = wd_PayloadLength w \<rparr>,
               \<lparr> os_extents = filter (\<lambda>(k, _). k \<noteq> (wd_Index w, loc_Index l)) (os_extents s),
                 os_sequence = os_sequence s + 1,
                 os_mutationBytes = mutationBytes \<rparr>))))))"

fun order_locations ::
  "u64 \<Rightarrow> u64 \<Rightarrow> nat \<Rightarrow> WriteDescriptor \<Rightarrow> nat \<Rightarrow> DiskLocation list \<Rightarrow> order_state
     \<Rightarrow> (OrderedFullFlashWriteOperation list \<times> order_state) res" where
  "order_locations blockSize targetBlocks descriptorIndex w locationIndex [] s = Inr ([], s)"
| "order_locations blockSize targetBlocks descriptorIndex w locationIndex (l # ls) s =
     bindE (order_location blockSize targetBlocks descriptorIndex w locationIndex l s) (\<lambda>(op, s').
     bindE (order_locations blockSize targetBlocks descriptorIndex w (Suc locationIndex) ls s')
       (\<lambda>(ops, s2). Inr (op # ops, s2)))"

fun order_writes ::
  "u64 \<Rightarrow> u64 \<Rightarrow> u64 \<Rightarrow> nat \<Rightarrow> WriteDescriptor list \<Rightarrow> u64 \<Rightarrow> u64 \<Rightarrow> order_state
     \<Rightarrow> (OrderedFullFlashWriteOperation list \<times> u64 \<times> u64 \<times> order_state) res" where
  "order_writes blockSize targetBlocks payloadEnd descriptorIndex [] payloadCursor totalBlocks s =
     Inr ([], payloadCursor, totalBlocks, s)"
| "order_writes blockSize targetBlocks payloadEnd descriptorIndex (w # ws) payloadCursor totalBlocks s =
     (let at = [FN descriptorIndex] in
      if wd_Index w \<noteq> of_nat descriptorIndex \<or> wd_LocationCount w = 0
         \<or> wd_LocationCount w \<noteq> of_nat (length (wd_Locations w)) \<or> wd_BlockCount w = 0
      then Inl (Errorf ''FFU write descriptor %d declaration order or counts are inconsistent'' at)
      else if checkedMul (u64_of (wd_BlockCount w)) blockSize \<noteq> Inr (wd_PayloadLength w)
              \<or> wd_PayloadOffset w \<noteq> payloadCursor
      then Inl (Errorf ''FFU write descriptor %d payload order is inconsistent'' at)
      else
      case checkedAdd payloadCursor (wd_PayloadLength w) of
        Inl _ \<Rightarrow> Inl (Errorf ''FFU write descriptor %d payload boundary is inconsistent'' at)
      | Inr payloadCursor' \<Rightarrow>
      if payloadEnd < payloadCursor'
      then Inl (Errorf ''FFU write descriptor %d payload boundary is inconsistent'' at)
      else
      bindE (mapE (\<lambda>_. Msg ''FFU write descriptor block accounting overflows'')
        (checkedAdd totalBlocks (u64_of (wd_BlockCount w)))) (\<lambda>totalBlocks'.
      bindE (order_locations blockSize targetBlocks descriptorIndex w 0 (wd_Locations w) s)
        (\<lambda>(ops, s').
      bindE (order_writes blockSize targetBlocks payloadEnd (Suc descriptorIndex) ws
               payloadCursor' totalBlocks' s') (\<lambda>(ops', c, t, s2).
      Inr (ops @ ops', c, t, s2)))))"

text \<open>The checks that correlate the three plans, in the order of the code.\<close>

definition order_prerequisites ::
  "DescriptorPlan \<Rightarrow> RestoreTargetPlan \<Rightarrow> FullFlashValidationPlan \<Rightarrow> unit res" where
  "order_prerequisites d t f =
     bindE (mapE (\<lambda>e. Errorf ''validate prerequisite FFU target plan: %w'' [FE e])
       (validateRestoreTargetPlan t)) (\<lambda>_.
     bindE (mapE (\<lambda>e. Errorf ''validate prerequisite FFU full-flash plan: %w'' [FE e])
       (validateFullFlashValidationPlan f)) (\<lambda>_.
     if dp_Schema d \<noteq> 1 \<or> dp_StoreMajorVersion d \<noteq> 1 \<or> dp_StoreMinorVersion d \<noteq> 0
        \<or> dp_SourceFileSize d = 0 \<or> dp_BlockSizeBytes d = 0 \<or> dp_ExecutionSupported d
        \<or> dp_IntegrityAuthenticated d \<or> dp_HasDestinationOverlap d
     then Inl (Msg ''FFU write-order planning requires the unchanged non-executable single-store-v1 descriptor plan'')
     else if dp_PlanSHA256 d \<noteq> descriptorPlanDigest d
     then Inl (Msg ''FFU descriptor-plan evidence was altered'')
     else if dp_PlanSHA256 d \<noteq> rt_DescriptorPlanSHA256 t \<or> dp_PlanSHA256 d \<noteq> fv_DescriptorPlanSHA256 f
             \<or> rt_PlanSHA256 t \<noteq> fv_RestoreTargetPlanSHA256 f
     then Inl (Msg ''FFU write-order prerequisites disagree on descriptor or target-plan identity'')
     else if rt_AuthenticatedIntegrityPlanSHA256 t \<noteq> fv_AuthenticatedIntegrityPlanSHA256 f
             \<or> rt_CatalogSHA256 t \<noteq> fv_CatalogSHA256 f \<or> rt_HashTableSHA256 t \<noteq> fv_HashTableSHA256 f
     then Inl (Msg ''FFU write-order prerequisites disagree on authenticated source evidence'')
     else if dp_SourceFileSize d \<noteq> rt_SourceFileSize t \<or> dp_SourceFileSize d \<noteq> fv_SourceFileSize f
             \<or> dp_BlockSizeBytes d \<noteq> rt_StoreBlockSizeBytes t
             \<or> dp_BlockSizeBytes d \<noteq> fv_StoreBlockSizeBytes f
     then Inl (Msg ''FFU write-order prerequisites disagree on source or block geometry'')
     else if rt_DevicePath t \<noteq> fv_DevicePath f \<or> rt_ExpectedTargetIdentity t \<noteq> fv_ExpectedTargetIdentity f
             \<or> rt_TargetSizeBytes t \<noteq> fv_TargetSizeBytes f \<or> rt_TargetBlockCount t \<noteq> fv_TargetBlockCount f
             \<or> rt_MutationBytes t \<noteq> fv_MutationBytes f
     then Inl (Msg ''FFU write-order prerequisites disagree on exact target facts'')
     else if dp_ValidationDescriptors d \<noteq> [] \<or> rt_ValidationDescriptorCount t \<noteq> 0
             \<or> fv_ValidationDescriptorCount f \<noteq> 0 \<or> rt_ValidationChecksRequired t
             \<or> \<not> fv_ValidationChecksResolved f
     then Inl (Msg ''FFU write-order planning requires the resolved full-flash profile with no validation descriptors'')
     else if \<not> emptyCanonicalPayloadTableRange (dp_InitialTable d)
             \<or> \<not> emptyCanonicalPayloadTableRange (dp_FlashOnlyTable d)
     then Inl (Msg ''FFU staged GPT payload ranges are unsupported: initial and flash-only ranges must both be absent'')
     else if dp_TotalPayloadBlocks d = 0 \<or> ptr_BlockIndex (dp_FinalTable d) \<noteq> 0
             \<or> ptr_BlockEnd (dp_FinalTable d) \<noteq> dp_TotalPayloadBlocks d
             \<or> u64_of (ptr_BlockCount (dp_FinalTable d)) \<noteq> dp_TotalPayloadBlocks d
     then Inl (Msg ''FFU single-phase profile requires the final table range to cover the complete sequential payload'')
     else if dp_PayloadLength d = 0
             \<or> checkedMul (dp_TotalPayloadBlocks d) (dp_BlockSizeBytes d) \<noteq> Inr (dp_PayloadLength d)
     then Inl (Msg ''FFU descriptor payload block accounting is inconsistent'')
     else if checkedAdd (dp_PayloadOffset d) (dp_PayloadLength d) \<noteq> Inr (dp_PayloadEnd d)
             \<or> dp_SourceFileSize d < dp_PayloadEnd d
             \<or> dp_PayloadFileBytes d \<noteq> dp_SourceFileSize d - dp_PayloadOffset d
             \<or> dp_TrailingFileBytes d \<noteq> dp_SourceFileSize d - dp_PayloadEnd d
     then Inl (Msg ''FFU descriptor payload byte geometry is inconsistent'')
     else if dp_WriteDescriptors d = []
     then Inl (Msg ''FFU single-phase profile contains no write descriptors'')
     else Inr ()))"

definition new_write_order ::
  "DescriptorPlan \<Rightarrow> RestoreTargetPlan \<Rightarrow> FullFlashValidationPlan
     \<Rightarrow> OrderedFullFlashWriteOperation list \<Rightarrow> u64 \<Rightarrow> FullFlashWriteOrderPlan" where
  "new_write_order d t f ops mutationBytes =
     \<lparr> wo_Schema = 1,
       wo_Mode = ''ffu-single-phase-write-order'',
       wo_Destructive = True,
       wo_DescriptorPlanSHA256 = dp_PlanSHA256 d,
       wo_RestoreTargetPlanSHA256 = rt_PlanSHA256 t,
       wo_FullFlashValidationPlanSHA256 = fv_PlanSHA256 f,
       wo_AuthenticatedIntegrityPlanSHA256 = fv_AuthenticatedIntegrityPlanSHA256 f,
       wo_CatalogSHA256 = fv_CatalogSHA256 f,
       wo_HashTableSHA256 = fv_HashTableSHA256 f,
       wo_SourceFileSize = dp_SourceFileSize d,
       wo_DevicePath = rt_DevicePath t,
       wo_ExpectedTargetIdentity = rt_ExpectedTargetIdentity t,
       wo_TargetSizeBytes = rt_TargetSizeBytes t,
       wo_StoreBlockSizeBytes = dp_BlockSizeBytes d,
       wo_TargetBlockCount = rt_TargetBlockCount t,
       wo_PayloadOffset = dp_PayloadOffset d,
       wo_PayloadLength = dp_PayloadLength d,
       wo_PayloadEnd = dp_PayloadEnd d,
       wo_TotalPayloadBlocks = dp_TotalPayloadBlocks d,
       wo_InitialTable = dp_InitialTable d,
       wo_FlashOnlyTable = dp_FlashOnlyTable d,
       wo_FinalTable = dp_FinalTable d,
       wo_WriteDescriptorCount = of_nat (length (dp_WriteDescriptors d)),
       wo_OperationCount = of_nat (length ops),
       wo_MutationBytes = mutationBytes,
       wo_SinglePhasePayloadProfile = True,
       wo_SpecialGPTPhasesAbsent = True,
       wo_FinalTableCoversPayload = True,
       wo_DeclaredDescriptorOrderPreserved = True,
       wo_ConfirmationPhrase = fv_ConfirmationPhrase f,
       wo_ConfirmationStillRequired = True,
       wo_MutationPermitted = False,
       wo_ExecutionSupported = False,
       wo_Operations = ops,
       wo_PlanSHA256 = [],
       wo_Warnings = fullFlashWriteOrderWarnings,
       wo_Limitations = fullFlashWriteOrderLimitations \<rparr>"

definition PlanSinglePhaseFullFlashWriteOrder ::
  "DescriptorPlan \<Rightarrow> RestoreTargetPlan \<Rightarrow> FullFlashValidationPlan \<Rightarrow> FullFlashWriteOrderPlan res" where
  "PlanSinglePhaseFullFlashWriteOrder d t f =
     bindE (order_prerequisites d t f) (\<lambda>_.
     bindE (index_extents (rt_ResolvedWriteExtents t) []) (\<lambda>extents.
     bindE (order_writes (dp_BlockSizeBytes d) (rt_TargetBlockCount t) (dp_PayloadEnd d) 0
              (dp_WriteDescriptors d) (dp_PayloadOffset d) 0
              \<lparr> os_extents = extents, os_sequence = 0, os_mutationBytes = 0 \<rparr>)
       (\<lambda>(operations, payloadCursor, totalBlocks, s).
     if os_extents s \<noteq> []
     then Inl (Msg ''FFU target plan contains extents not declared by the descriptor plan'')
     else if payloadCursor \<noteq> dp_PayloadEnd d \<or> totalBlocks \<noteq> dp_TotalPayloadBlocks d
             \<or> os_mutationBytes s \<noteq> rt_MutationBytes t
             \<or> of_nat (length operations) \<noteq> rt_WriteExtentCount t
     then Inl (Msg ''FFU ordered descriptor, payload, or mutation accounting is inconsistent'')
     else
     let plan = new_write_order d t f operations (os_mutationBytes s);
         plan = plan\<lparr>wo_PlanSHA256 := fullFlashWriteOrderPlanDigest plan\<rparr> in
     bindE (validateFullFlashWriteOrderPlan plan) (\<lambda>_. Inr plan))))"

section \<open>Correctness\<close>

definition op_extent :: "OrderedFullFlashWriteOperation \<Rightarrow> ResolvedWriteExtent" where
  "op_extent op =
     \<lparr> ex_DescriptorIndex = op_DescriptorIndex op, ex_LocationIndex = op_LocationIndex op,
       ex_Anchor = op_Anchor op, ex_TargetStartBlock = op_TargetStartBlock op,
       ex_TargetEndBlock = op_TargetEndBlock op, ex_TargetOffset = op_TargetOffset op,
       ex_TargetLength = op_TargetLength op, ex_PayloadOffset = op_PayloadOffset op,
       ex_PayloadLength = op_PayloadLength op \<rparr>"

definition op_key :: "OrderedFullFlashWriteOperation \<Rightarrow> fullFlashWriteExtentKey" where
  "op_key op = (op_DescriptorIndex op, op_LocationIndex op)"

definition keyed :: "(fullFlashWriteExtentKey \<times> ResolvedWriteExtent) list \<Rightarrow> bool" where
  "keyed m \<longleftrightarrow> distinct (map fst m) \<and> (\<forall>(k, e) \<in> set m. k = (ex_DescriptorIndex e, ex_LocationIndex e))"

lemma index_extents_Inr:
  assumes "index_extents es m = Inr m'" and "keyed m"
  shows "keyed m' \<and> mset (map snd m') = mset es + mset (map snd m)"
  using assms
proof (induction es arbitrary: m)
  case (Cons e es)
  let ?k = "(ex_DescriptorIndex e, ex_LocationIndex e)"
  from Cons.prems have n: "?k \<notin> fst ` set m" and r: "index_extents es ((?k, e) # m) = Inr m'"
    by (auto simp: result_simps map_of_eq_None_iff)
  have "keyed ((?k, e) # m)" using Cons.prems(2) n by (auto simp: keyed_def)
  from Cons.IH [OF r this] show ?case by simp
qed simp

lemma remove_key:
  assumes "keyed m" "map_of m k = Some e"
  shows "keyed (filter (\<lambda>(k', _). k' \<noteq> k) m)"
    and "mset (map snd m) = add_mset e (mset (map snd (filter (\<lambda>(k', _). k' \<noteq> k) m)))"
proof -
  show "keyed (filter (\<lambda>(k', _). k' \<noteq> k) m)"
    using assms(1) by (auto simp: keyed_def distinct_map_filter)
  have "distinct (map fst m) \<Longrightarrow> map_of m k = Some e \<Longrightarrow>
     mset (map snd m) = add_mset e (mset (map snd (filter (\<lambda>(k', _). k' \<noteq> k) m)))"
  proof (induction m)
    case (Cons p m)
    show ?case
    proof (cases "fst p = k")
      case True
      then have "filter (\<lambda>(k', _). k' \<noteq> k) m = m"
        using Cons.prems(1) by (intro filter_True) (auto simp: image_iff)
      then show ?thesis using True Cons.prems by (cases p) auto
    next
      case False
      then show ?thesis using Cons by (cases p) auto
    qed
  qed simp
  then show "mset (map snd m) = add_mset e (mset (map snd (filter (\<lambda>(k', _). k' \<noteq> k) m)))"
    using assms by (simp add: keyed_def)
qed

lemma order_location_Inr:
  assumes "order_location bs tb di w li l s = Inr (op, s')" and "keyed (os_extents s)"
  shows "keyed (os_extents s')
    \<and> mset (map snd (os_extents s)) = add_mset (op_extent op) (mset (map snd (os_extents s')))
    \<and> op_Sequence op = os_sequence s \<and> os_sequence s' = os_sequence s + 1
    \<and> op_key op = (wd_Index w, loc_Index l)
    \<and> unat (os_mutationBytes s') = unat (os_mutationBytes s) + unat (op_TargetLength op)
    \<and> op_PayloadOffset op = wd_PayloadOffset w \<and> op_PayloadLength op = wd_PayloadLength w"
proof -
  from assms(1) obtain e start fin toff m where
    e: "map_of (os_extents s) (wd_Index w, loc_Index l) = Some e" and
    agree: "ex_Anchor e = loc_Anchor l" "ex_TargetStartBlock e = start" "ex_TargetEndBlock e = fin"
      "ex_TargetOffset e = toff" "ex_TargetLength e = wd_PayloadLength w"
      "ex_PayloadOffset e = wd_PayloadOffset w" "ex_PayloadLength e = wd_PayloadLength w" and
    m: "checkedAdd (os_mutationBytes s) (wd_PayloadLength w) = Inr m" and
    op: "op = \<lparr> op_Sequence = os_sequence s, op_DescriptorIndex = wd_Index w, op_LocationIndex = loc_Index l,
      op_Anchor = loc_Anchor l, op_TargetStartBlock = start, op_TargetEndBlock = fin,
      op_TargetOffset = toff, op_TargetLength = wd_PayloadLength w,
      op_PayloadOffset = wd_PayloadOffset w, op_PayloadLength = wd_PayloadLength w \<rparr>" and
    s': "s' = \<lparr> os_extents = filter (\<lambda>(k, _). k \<noteq> (wd_Index w, loc_Index l)) (os_extents s),
      os_sequence = os_sequence s + 1, os_mutationBytes = m \<rparr>"
    by (auto simp: order_location_def Let_def result_simps split: sum.splits option.splits if_splits)
  have "((wd_Index w, loc_Index l), e) \<in> set (os_extents s)" using e by (rule map_of_SomeD)
  then have "ex_DescriptorIndex e = wd_Index w" "ex_LocationIndex e = loc_Index l"
    using assms(2) by (auto simp: keyed_def)
  then have "op_extent op = e" using agree by (simp add: op_extent_def op)
  then show ?thesis
    using remove_key [OF assms(2) e] checkedAdd_unat [OF m] by (simp add: op s' op_key_def)
qed

definition ops_total :: "OrderedFullFlashWriteOperation list \<Rightarrow> nat" where
  "ops_total ops = sum_list (map (\<lambda>o1. unat (op_TargetLength o1)) ops)"

lemma order_locations_Inr:
  assumes "order_locations bs tb di w li ls s = Inr (ops, s')" and "keyed (os_extents s)"
  shows "keyed (os_extents s')
    \<and> mset (map snd (os_extents s)) = mset (map op_extent ops) + mset (map snd (os_extents s'))
    \<and> map op_Sequence ops = map (\<lambda>k. os_sequence s + of_nat k) [0 ..< length ops]
    \<and> os_sequence s' = os_sequence s + of_nat (length ops)
    \<and> map op_key ops = map (\<lambda>l. (wd_Index w, loc_Index l)) ls
    \<and> unat (os_mutationBytes s') = unat (os_mutationBytes s) + ops_total ops
    \<and> (\<forall>op \<in> set ops. op_PayloadOffset op = wd_PayloadOffset w \<and> op_PayloadLength op = wd_PayloadLength w)"
  using assms
proof (induction ls arbitrary: li s ops)
  case Nil
  then show ?case by (simp add: ops_total_def)
next
  case (Cons l ls)
  from Cons.prems(1) obtain op s1 ops1 where
    o: "order_location bs tb di w li l s = Inr (op, s1)" and
    r: "order_locations bs tb di w (Suc li) ls s1 = Inr (ops1, s')" and e: "ops = op # ops1"
    by (auto simp: result_simps)
  note L = order_location_Inr [OF o Cons.prems(2)]
  note R = Cons.IH [OF r L [THEN conjunct1]]
  have "map op_Sequence ops = map (\<lambda>k. os_sequence s + of_nat k) [0 ..< length ops]"
    using L R by (simp add: e map_upt_Suc add.assoc del: upt_Suc)
  then show ?case using L R by (auto simp: e ops_total_def)
qed

text \<open>The payloads of consecutive descriptors tile the payload range.\<close>

fun payload_tiles :: "nat \<Rightarrow> WriteDescriptor list \<Rightarrow> nat \<Rightarrow> bool" where
  "payload_tiles c [] e \<longleftrightarrow> c = e"
| "payload_tiles c (w # ws) e \<longleftrightarrow>
     unat (wd_PayloadOffset w) = c \<and> payload_tiles (c + unat (wd_PayloadLength w)) ws e"

definition declared_keys :: "WriteDescriptor list \<Rightarrow> fullFlashWriteExtentKey list" where
  "declared_keys ws = concat (map (\<lambda>w. map (\<lambda>l. (wd_Index w, loc_Index l)) (wd_Locations w)) ws)"

lemma order_writes_Inr:
  assumes "order_writes bs tb pe di ws c tot s = Inr (ops, c', tot', s')" and "keyed (os_extents s)"
  shows "keyed (os_extents s')
    \<and> mset (map snd (os_extents s)) = mset (map op_extent ops) + mset (map snd (os_extents s'))
    \<and> map op_Sequence ops = map (\<lambda>k. os_sequence s + of_nat k) [0 ..< length ops]
    \<and> map op_key ops = declared_keys ws
    \<and> unat (os_mutationBytes s') = unat (os_mutationBytes s) + ops_total ops
    \<and> payload_tiles (unat c) ws (unat c')"
  using assms
proof (induction ws arbitrary: di c tot s ops)
  case Nil
  then show ?case by (simp add: ops_total_def declared_keys_def)
next
  case (Cons w ws)
  from Cons.prems(1) obtain c1 t1 ops1 s1 ops2 where
    off: "wd_PayloadOffset w = c" and c1: "checkedAdd c (wd_PayloadLength w) = Inr c1" and
    o: "order_locations bs tb di w 0 (wd_Locations w) s = Inr (ops1, s1)" and
    r: "order_writes bs tb pe (Suc di) ws c1 t1 s1 = Inr (ops2, c', tot', s')" and e: "ops = ops1 @ ops2"
    by (auto simp: Let_def result_simps split: sum.splits if_splits)
  note L = order_locations_Inr [OF o Cons.prems(2)]
  note R = Cons.IH [OF r L [THEN conjunct1]]
  have u: "[length ops1 ..< length ops1 + length ops2] = map (\<lambda>k. length ops1 + k) [0 ..< length ops2]"
    using map_add_upt [of "length ops1" "length ops2"] by (simp add: add.commute)
  have "map op_Sequence ops1 @ map op_Sequence ops2
     = map (\<lambda>k. os_sequence s + of_nat k) ([0 ..< length ops1] @ [length ops1 ..< length ops1 + length ops2])"
    using L R by (simp add: u add.assoc comp_def)
  then have "map op_Sequence ops = map (\<lambda>k. os_sequence s + of_nat k) [0 ..< length ops]"
    by (simp add: e upt_add_eq_append [of 0, simplified])
  then show ?case using L R checkedAdd_unat [OF c1]
    by (simp add: e off ops_total_def declared_keys_def add.assoc)
qed


lemma validate_operations_Inr:
  assumes "validate_operations plan k ops m = Inr m'" and "op \<in> set ops"
  shows "unat (op_TargetStartBlock op) < unat (op_TargetEndBlock op)
    \<and> unat (op_TargetEndBlock op) \<le> unat (wo_TargetBlockCount plan)
    \<and> unat (op_TargetOffset op) = unat (op_TargetStartBlock op) * unat (wo_StoreBlockSizeBytes plan)
    \<and> unat (op_TargetLength op)
        = (unat (op_TargetEndBlock op) - unat (op_TargetStartBlock op)) * unat (wo_StoreBlockSizeBytes plan)
    \<and> op_PayloadLength op = op_TargetLength op
    \<and> unat (wo_PayloadOffset plan) \<le> unat (op_PayloadOffset op)
    \<and> unat (op_PayloadOffset op) + unat (op_PayloadLength op) \<le> unat (wo_PayloadEnd plan)"
  using assms
proof (induction ops arbitrary: k m)
  case (Cons o1 ops)
  show ?case
  proof (cases "op = o1")
    case True
    have d: "op_TargetStartBlock o1 \<le> op_TargetEndBlock o1" using Cons.prems(1) by (auto simp: result_simps)
    then show ?thesis using Cons.prems(1) True
      by (auto simp: result_simps word_less_unat word_le_unat not_le not_less unat_minus_64
          split: sum.splits dest!: checkedMul_unat checkedAdd_unat)
  next
    case False
    then have m: "op \<in> set ops" using Cons.prems(2) by simp
    from Cons.prems(1) obtain m1 where "validate_operations plan (Suc k) ops m1 = Inr m'"
      by (auto simp: result_simps)
    from Cons.IH [OF this m] show ?thesis .
  qed
qed simp

text \<open>What an accepted plan promises of its operations, in bytes.\<close>

definition op_disjoint :: "OrderedFullFlashWriteOperation \<Rightarrow> OrderedFullFlashWriteOperation \<Rightarrow> bool" where
  "op_disjoint a b \<longleftrightarrow>
     unat (op_TargetOffset a) + unat (op_TargetLength a) \<le> unat (op_TargetOffset b)
   \<or> unat (op_TargetOffset b) + unat (op_TargetLength b) \<le> unat (op_TargetOffset a)"

definition op_in_bounds :: "FullFlashWriteOrderPlan \<Rightarrow> OrderedFullFlashWriteOperation \<Rightarrow> bool" where
  "op_in_bounds p op \<longleftrightarrow>
     op_PayloadLength op = op_TargetLength op \<and> 0 < unat (op_TargetLength op)
   \<and> unat (op_TargetOffset op) + unat (op_TargetLength op) \<le> unat (wo_TargetSizeBytes p)
   \<and> unat (wo_PayloadOffset p) \<le> unat (op_PayloadOffset op)
   \<and> unat (op_PayloadOffset op) + unat (op_PayloadLength op) \<le> unat (wo_PayloadEnd p)
   \<and> unat (op_PayloadOffset op) + unat (op_PayloadLength op) \<le> unat (wo_SourceFileSize p)"

lemma validate_write_order_Inr:
  assumes "validateFullFlashWriteOrderPlan p = Inr u"
  shows "(\<forall>op \<in> set (wo_Operations p). op_in_bounds p op)
    \<and> wo_PlanSHA256 p = fullFlashWriteOrderPlanDigest p
    \<and> \<not> wo_MutationPermitted p \<and> \<not> wo_ExecutionSupported p"
proof -
  from assms obtain m where
    v: "validate_operations p 0 (wo_Operations p) 0 = Inr m" and
    geo: "wo_StoreBlockSizeBytes p \<noteq> 0" "wo_TargetSizeBytes p mod wo_StoreBlockSizeBytes p = 0"
      "wo_TargetBlockCount p = wo_TargetSizeBytes p div wo_StoreBlockSizeBytes p" and
    e: "\<not> wo_SourceFileSize p < wo_PayloadEnd p" and
    fin: "wo_PlanSHA256 p = fullFlashWriteOrderPlanDigest p" "\<not> wo_MutationPermitted p"
      "\<not> wo_ExecutionSupported p"
    by (auto simp: validateFullFlashWriteOrderPlan_def result_simps del: mod_0_imp_dvd)
  have "op_in_bounds p op" if "op \<in> set (wo_Operations p)" for op
  proof -
    note V = validate_operations_Inr [OF v that]
    let ?bs = "unat (wo_StoreBlockSizeBytes p)"
    let ?s = "unat (op_TargetStartBlock op)" and ?e = "unat (op_TargetEndBlock op)"
    have "unat (op_TargetOffset op) + unat (op_TargetLength op) = ?e * ?bs"
      using V by (metis add_mult_distrib le_add_diff_inverse less_imp_le)
    also have "\<dots> \<le> unat (wo_TargetBlockCount p) * ?bs" using V by (intro mult_le_mono1) simp
    also have "\<dots> = unat (wo_TargetSizeBytes p)" using word_blocks [OF geo(2,1,3)] by simp
    finally have "unat (op_TargetOffset op) + unat (op_TargetLength op) \<le> unat (wo_TargetSizeBytes p)" .
    moreover have "0 < ?bs" using geo(1) by (simp add: unat_gt_0)
    ultimately show ?thesis using V e by (auto simp: op_in_bounds_def word_less_unat)
  qed
  with fin show ?thesis by blast
qed

lemma extents_disjoint_ops:
  assumes "extents_sound bs tb es" and "mset (map op_extent ops) = mset es"
  shows "sorted_wrt op_disjoint ops"
proof -
  have s: "sorted_wrt (\<lambda>a b. ex_stop a \<le> ex_start b) es"
    and f: "\<forall>e \<in> set es. ex_start e \<le> ex_stop e \<and> unat (ex_TargetOffset e) = ex_start e * unat bs
      \<and> unat (ex_TargetLength e) = (ex_stop e - ex_start e) * unat bs"
    using assms(1) by (auto simp: extents_sound_def)
  let ?P = "\<lambda>a b. ex_stop a \<le> ex_start b \<or> ex_stop b \<le> ex_start a"
  have "sorted_wrt ?P es" using s by (rule sorted_wrt_mono_rel [rotated]) blast
  then have "sorted_wrt ?P (map op_extent ops)"
    using sorted_wrt_perm [of ?P, OF _ assms(2)] by blast
  then have "sorted_wrt (\<lambda>a b. ?P (op_extent a) (op_extent b)) ops" by (simp add: sorted_wrt_map)
  then show ?thesis
  proof (rule sorted_wrt_mono_rel [rotated])
    fix a b assume m: "a \<in> set ops" "b \<in> set ops" and p: "?P (op_extent a) (op_extent b)"
    have "op_extent a \<in> set es" "op_extent b \<in> set es"
      using m assms(2) by (metis image_eqI set_map set_mset_mset)+
    then have g: "unat (op_TargetOffset x) + unat (op_TargetLength x) = ex_stop (op_extent x) * unat bs
       \<and> unat (op_TargetOffset x) = ex_start (op_extent x) * unat bs" if "x = a \<or> x = b" for x
      using f that by (auto simp: op_extent_def add_mult_distrib [symmetric])
    from p show "op_disjoint a b"
      using g [of a] g [of b] by (auto simp: op_disjoint_def intro: mult_le_mono1)
  qed
qed
lemma plan_write_order_Inr:
  assumes "PlanSinglePhaseFullFlashWriteOrder d t f = Inr p"
  obtains ops m c tot s where "validateRestoreTargetPlan t = Inr ()" "keyed m"
    "mset (map snd m) = mset (rt_ResolvedWriteExtents t)"
    "order_writes (dp_BlockSizeBytes d) (rt_TargetBlockCount t) (dp_PayloadEnd d) 0 (dp_WriteDescriptors d)
       (dp_PayloadOffset d) 0 \<lparr> os_extents = m, os_sequence = 0, os_mutationBytes = 0 \<rparr> = Inr (ops, c, tot, s)"
    "os_extents s = []" "c = dp_PayloadEnd d" "os_mutationBytes s = rt_MutationBytes t"
    "p = (new_write_order d t f ops (os_mutationBytes s))\<lparr>wo_PlanSHA256 :=
       fullFlashWriteOrderPlanDigest (new_write_order d t f ops (os_mutationBytes s))\<rparr>"
    "validateFullFlashWriteOrderPlan p = Inr ()"
proof -
  have k0: "keyed []" by (simp add: keyed_def)
  from assms obtain m ops c tot s where
    pre: "order_prerequisites d t f = Inr ()" and
    m: "index_extents (rt_ResolvedWriteExtents t) [] = Inr m" and
    w: "order_writes (dp_BlockSizeBytes d) (rt_TargetBlockCount t) (dp_PayloadEnd d) 0 (dp_WriteDescriptors d)
       (dp_PayloadOffset d) 0 \<lparr> os_extents = m, os_sequence = 0, os_mutationBytes = 0 \<rparr> = Inr (ops, c, tot, s)" and
    r: "os_extents s = []" "c = dp_PayloadEnd d" "os_mutationBytes s = rt_MutationBytes t"
      "p = (new_write_order d t f ops (os_mutationBytes s))\<lparr>wo_PlanSHA256 :=
         fullFlashWriteOrderPlanDigest (new_write_order d t f ops (os_mutationBytes s))\<rparr>"
      "validateFullFlashWriteOrderPlan p = Inr ()"
    unfolding PlanSinglePhaseFullFlashWriteOrder_def by (auto simp: result_simps Let_def)
  have "validateRestoreTargetPlan t = Inr ()" using pre by (simp add: order_prerequisites_def result_simps)
  moreover note index_extents_Inr [OF m k0]
  ultimately show thesis using that [OF _ _ _ w r] by simp
qed

lemma write_order_facts:
  assumes "PlanSinglePhaseFullFlashWriteOrder d t f = Inr p"
  shows "mset (map op_extent (wo_Operations p)) = mset (rt_ResolvedWriteExtents t)
    \<and> map op_Sequence (wo_Operations p) = map of_nat [0 ..< length (wo_Operations p)]
    \<and> map op_key (wo_Operations p) = declared_keys (dp_WriteDescriptors d)
    \<and> payload_tiles (unat (wo_PayloadOffset p)) (dp_WriteDescriptors d) (unat (wo_PayloadEnd p))
    \<and> sorted_wrt op_disjoint (wo_Operations p)
    \<and> (\<forall>op \<in> set (wo_Operations p). op_in_bounds p op)
    \<and> unat (wo_MutationBytes p) = ops_total (wo_Operations p)
    \<and> \<not> wo_MutationPermitted p \<and> \<not> wo_ExecutionSupported p"
proof -
  obtain ops m c tot s where
    t: "validateRestoreTargetPlan t = Inr ()" and k: "keyed m"
      "mset (map snd m) = mset (rt_ResolvedWriteExtents t)" and
    w: "order_writes (dp_BlockSizeBytes d) (rt_TargetBlockCount t) (dp_PayloadEnd d) 0 (dp_WriteDescriptors d)
       (dp_PayloadOffset d) 0 \<lparr> os_extents = m, os_sequence = 0, os_mutationBytes = 0 \<rparr> = Inr (ops, c, tot, s)" and
    r: "os_extents s = []" "c = dp_PayloadEnd d" and
    p: "p = (new_write_order d t f ops (os_mutationBytes s))\<lparr>wo_PlanSHA256 :=
         fullFlashWriteOrderPlanDigest (new_write_order d t f ops (os_mutationBytes s))\<rparr>" and
    v: "validateFullFlashWriteOrderPlan p = Inr ()" by (rule plan_write_order_Inr [OF assms])
  have o: "wo_Operations p = ops" "wo_MutationBytes p = os_mutationBytes s"
    "wo_PayloadOffset p = dp_PayloadOffset d" "wo_PayloadEnd p = dp_PayloadEnd d"
    by (simp_all add: p new_write_order_def)
  note W = order_writes_Inr [OF w, simplified, OF k(1)]
  have ms: "mset (map op_extent ops) = mset (rt_ResolvedWriteExtents t)" using W k(2) r by simp
  have "sorted_wrt op_disjoint ops"
    by (rule extents_disjoint_ops [where bs = "rt_StoreBlockSizeBytes t" and tb = "rt_TargetBlockCount t", OF _ ms])
       (use validate_target_plan_sound [OF t] in \<open>simp add: target_plan_sound_def\<close>)
  then show ?thesis using W ms r o validate_write_order_Inr [OF v] by simp
qed

text \<open>
  C28: an accepted write order performs every resolved extent of the target plan exactly once,
  numbered from 0 in the declared descriptor order; no two operations touch the same target
  byte, every operation stays inside the target, the payload range and the source file, the
  payloads of the descriptors tile the payload range without gap, and the plan itself grants no
  permission.
\<close>

theorem write_order_sound:
  assumes "PlanSinglePhaseFullFlashWriteOrder d t f = Inr p"
  shows "mset (map op_extent (wo_Operations p)) = mset (rt_ResolvedWriteExtents t)
    \<and> map op_Sequence (wo_Operations p) = map of_nat [0 ..< length (wo_Operations p)]
    \<and> map op_key (wo_Operations p) = declared_keys (dp_WriteDescriptors d)
    \<and> payload_tiles (unat (wo_PayloadOffset p)) (dp_WriteDescriptors d) (unat (wo_PayloadEnd p))
    \<and> sorted_wrt op_disjoint (wo_Operations p)
    \<and> (\<forall>op \<in> set (wo_Operations p). op_in_bounds p op)
    \<and> unat (wo_MutationBytes p) = ops_total (wo_Operations p)
    \<and> \<not> wo_MutationPermitted p \<and> \<not> wo_ExecutionSupported p"
  by (rule write_order_facts [OF assms])

section \<open>A concrete write order\<close>

definition sample_target_base :: RestoreTargetPlan where
  "sample_target_base = new_target_plan 4096 sample_integrity sample_descriptor_plan sample_request 512 sample_extents 2048"

definition sample_target :: RestoreTargetPlan where
  "sample_target = sample_target_base\<lparr>rt_PlanSHA256 := restoreTargetPlanDigest sample_target_base\<rparr>"

definition sample_full_base :: "Inspection \<Rightarrow> FullFlashValidationPlan" where
  "sample_full_base i = new_full_flash_plan 4096 i sample_descriptor_plan sample_integrity sample_target
     (confirmation_phrase ''/dev/sdb'' 262144)"

definition sample_full :: "Inspection \<Rightarrow> FullFlashValidationPlan" where
  "sample_full i = (sample_full_base i)\<lparr>fv_PlanSHA256 := fullFlashValidationPlanDigest (sample_full_base i)\<rparr>"

lemma sample_target_valid: "validateRestoreTargetPlan sample_target = Inr ()"
proof -
  let ?o = "Inr (i, sample_descriptor_plan, sample_integrity, 1)"
  obtain i' d ai p t where b: "BindAuthenticatedSingleStoreV1Target (Some (\<lambda>_. None))
     (Inr (undefined, sample_descriptor_plan, sample_integrity, 1)) 4096 sample_request 1 = Inr (i', d, ai, p, t)"
    using sample_bound [of undefined 1] unfolding is_ok_iff by (metis prod_cases5)
  then have "p = sample_target"
    by (auto simp: BindAuthenticatedSingleStoreV1Target_def sample_request_ok result_simps Let_def
        sample_resolved sample_target_def sample_target_base_def)
  then show ?thesis using bind_target_Inr [OF b] by metis
qed

lemma sample_target_fields [simp]:
  "rt_DevicePath sample_target = ''/dev/sdb''" "rt_ExpectedTargetIdentity sample_target = IdentityToken sample_disk"
  "rt_TargetSizeBytes sample_target = 262144" "rt_LogicalSectorSizeBytes sample_target = 512"
  "rt_PhysicalSectorSizeBytes sample_target = 512" "rt_StoreBlockSizeBytes sample_target = 512"
  "rt_TargetBlockCount sample_target = 512" "rt_MutationBytes sample_target = 2048"
  "rt_ValidationDescriptorCount sample_target = 0" "\<not> rt_ValidationChecksRequired sample_target"
  "\<not> rt_ValidationChecksResolved sample_target" "rt_SourceFileSize sample_target = 4096"
  "rt_WriteExtentCount sample_target = 2" "rt_ResolvedWriteExtents sample_target = sample_extents"
  "rt_DescriptorPlanSHA256 sample_target = dp_PlanSHA256 sample_descriptor_plan"
  "rt_AuthenticatedIntegrityPlanSHA256 sample_target = sha256_hex []"
  "rt_CatalogSHA256 sample_target = sha256_hex []" "rt_HashTableSHA256 sample_target = sha256_hex []"
  by (simp_all add: sample_target_def sample_target_base_def new_target_plan_def sample_request_def
      sample_descriptor_plan_def sample_base_def sample_integrity_def sample_extents_def)

lemma sample_plan_digest [simp]:
  "validFullFlashPlanSHA256 (dp_PlanSHA256 sample_descriptor_plan)"
  "validFullFlashPlanSHA256 (rt_PlanSHA256 sample_target)"
  by (simp_all add: sample_descriptor_plan_def sample_target_def)

lemma sample_full_valid:
  assumes z: "st_UpdateType (insp_Store i) = 0"
  shows "validateFullFlashValidationPlan (sample_full i) = Inr ()"
proof -
  have r: "\<lparr> rq_DevicePath = ''/dev/sdb'', rq_ExpectedTargetIdentity = IdentityToken sample_disk,
     rq_TargetSizeBytes = 262144, rq_LogicalSectorSizeBytes = 512, rq_PhysicalSectorSizeBytes = 512 \<rparr> = sample_request"
    by (simp add: sample_request_def)
  show ?thesis
    unfolding sample_full_def
    by (simp add: validateFullFlashValidationPlan_def full_digest_ignores_sha)
       (simp add: sample_full_base_def new_full_flash_plan_def r z sample_request_ok fullFlashUpdateType_def
         sample_integrity_def sha256_hex_valid)
qed

definition sample_operation :: "u64 \<Rightarrow> ResolvedWriteExtent \<Rightarrow> OrderedFullFlashWriteOperation" where
  "sample_operation k e = \<lparr> op_Sequence = k, op_DescriptorIndex = ex_DescriptorIndex e,
     op_LocationIndex = ex_LocationIndex e, op_Anchor = ex_Anchor e,
     op_TargetStartBlock = ex_TargetStartBlock e, op_TargetEndBlock = ex_TargetEndBlock e,
     op_TargetOffset = ex_TargetOffset e, op_TargetLength = ex_TargetLength e,
     op_PayloadOffset = ex_PayloadOffset e, op_PayloadLength = ex_PayloadLength e \<rparr>"

definition sample_operations :: "OrderedFullFlashWriteOperation list" where
  "sample_operations = [sample_operation 0 (sample_extents ! 0), sample_operation 1 (sample_extents ! 1)]"

definition sample_order :: "Inspection \<Rightarrow> FullFlashWriteOrderPlan" where
  "sample_order i =
     (let p = new_write_order sample_descriptor_plan sample_target (sample_full i) sample_operations 2048
      in p\<lparr>wo_PlanSHA256 := fullFlashWriteOrderPlanDigest p\<rparr>)"

lemma write_order_digest_ignores_sha [simp]:
  "fullFlashWriteOrderPlanDigest (p\<lparr>wo_PlanSHA256 := x\<rparr>) = fullFlashWriteOrderPlanDigest p"
  by (simp add: fullFlashWriteOrderPlanDigest_def write_order_preimage_def)

lemma sample_plan_fields [simp]:
  "dp_Schema sample_descriptor_plan = 1" "dp_StoreMajorVersion sample_descriptor_plan = 1"
  "dp_StoreMinorVersion sample_descriptor_plan = 0" "\<not> dp_ExecutionSupported sample_descriptor_plan"
  "\<not> dp_IntegrityAuthenticated sample_descriptor_plan" "\<not> dp_HasDestinationOverlap sample_descriptor_plan"
  "dp_InitialTable sample_descriptor_plan = empty_range" "dp_FlashOnlyTable sample_descriptor_plan = empty_range"
  "dp_FinalTable sample_descriptor_plan = \<lparr> ptr_BlockIndex = 0, ptr_BlockCount = 2, ptr_BlockEnd = 2 \<rparr>"
  "dp_TotalPayloadBlocks sample_descriptor_plan = 2" "dp_PayloadLength sample_descriptor_plan = 1024"
  "dp_PayloadOffset sample_descriptor_plan = 3072" "dp_PayloadEnd sample_descriptor_plan = 4096"
  "dp_PayloadFileBytes sample_descriptor_plan = 1024" "dp_TrailingFileBytes sample_descriptor_plan = 0"
  "dp_WriteDescriptors sample_descriptor_plan = [sample_write]"
  by (simp_all add: sample_descriptor_plan_def sample_base_def)

lemma sample_full_fields [simp]:
  "fv_DescriptorPlanSHA256 (sample_full i) = dp_PlanSHA256 sample_descriptor_plan"
  "fv_RestoreTargetPlanSHA256 (sample_full i) = rt_PlanSHA256 sample_target"
  "fv_AuthenticatedIntegrityPlanSHA256 (sample_full i) = sha256_hex []"
  "fv_CatalogSHA256 (sample_full i) = sha256_hex []" "fv_HashTableSHA256 (sample_full i) = sha256_hex []"
  "fv_SourceFileSize (sample_full i) = 4096" "fv_StoreBlockSizeBytes (sample_full i) = 512"
  "fv_DevicePath (sample_full i) = ''/dev/sdb''" "fv_ExpectedTargetIdentity (sample_full i) = IdentityToken sample_disk"
  "fv_TargetSizeBytes (sample_full i) = 262144" "fv_TargetBlockCount (sample_full i) = 512"
  "fv_MutationBytes (sample_full i) = 2048" "fv_ValidationDescriptorCount (sample_full i) = 0"
  "fv_ValidationChecksResolved (sample_full i)"
  "fv_ConfirmationPhrase (sample_full i) = confirmation_phrase ''/dev/sdb'' 262144"
  by (simp_all add: sample_full_def sample_full_base_def new_full_flash_plan_def sample_integrity_def)

lemma sample_full_digest [simp]: "validFullFlashPlanSHA256 (fv_PlanSHA256 (sample_full i))"
  by (simp add: sample_full_def)

lemma sample_plan_own_digest: "dp_PlanSHA256 sample_descriptor_plan = descriptorPlanDigest sample_descriptor_plan"
  by (simp add: sample_descriptor_plan_def)

lemma sample_prerequisites:
  assumes "st_UpdateType (insp_Store i) = 0"
  shows "order_prerequisites sample_descriptor_plan sample_target (sample_full i) = Inr ()"
  unfolding order_prerequisites_def sample_target_valid sample_full_valid [OF assms]
  using sample_plan_own_digest
  by (simp add: emptyCanonicalPayloadTableRange_def empty_range_def checkedMul_def checkedAdd_def
      maxUint64_def u64_of_def)

lemma sample_order_fields [simp]:
  "wo_Operations (sample_order i) = sample_operations" "wo_MutationBytes (sample_order i) = 2048"
  by (simp_all add: sample_order_def new_write_order_def Let_def)

lemma sample_order_valid: "validateFullFlashWriteOrderPlan (sample_order i) = Inr ()"
proof -
  have "wo_PlanSHA256 (sample_order i) = fullFlashWriteOrderPlanDigest (sample_order i)"
    by (simp add: sample_order_def Let_def)
  moreover have v: "validate_operations (sample_order i) 0 sample_operations 0 = Inr 2048"
    by (simp add: sample_order_def new_write_order_def Let_def sample_operations_def sample_operation_def
        sample_extents_def extent_of_def dest_start_def sample_write_def sample_location_def
        checkedMul_def checkedAdd_def maxUint64_def u64_of_def)
  ultimately show ?thesis
    unfolding validateFullFlashWriteOrderPlan_def sample_order_fields v
    by (simp add: sample_order_def new_write_order_def Let_def sha256_hex_valid
        emptyCanonicalPayloadTableRange_def empty_range_def checkedMul_def checkedAdd_def maxUint64_def u64_of_def
        sample_operations_def)
qed

lemma sample_writes:
  "index_extents sample_extents [] = Inr m \<Longrightarrow>
   \<exists>s. order_writes 512 512 4096 0 [sample_write] 3072 0
     \<lparr> os_extents = m, os_sequence = 0, os_mutationBytes = 0 \<rparr> = Inr (sample_operations, 4096, 2, s)
     \<and> os_extents s = [] \<and> os_mutationBytes s = 2048"
  by (auto simp: sample_extents_def sample_write_def extent_of_def dest_start_def sample_location_def
      order_location_def Let_def checkedMul_def checkedAdd_def maxUint64_def u64_of_def diskAccessBegin_def
      diskAccessEnd_def sample_operations_def sample_operation_def)

lemma sample_order_planned:
  assumes "st_UpdateType (insp_Store i) = 0"
  shows "PlanSinglePhaseFullFlashWriteOrder sample_descriptor_plan sample_target (sample_full i) = Inr (sample_order i)"
proof -
  obtain m where m: "index_extents sample_extents [] = Inr m"
    by (simp add: sample_extents_def extent_of_def sample_location_def)
  obtain s where s: "order_writes 512 512 4096 0 [sample_write] 3072 0
     \<lparr> os_extents = m, os_sequence = 0, os_mutationBytes = 0 \<rparr> = Inr (sample_operations, 4096, 2, s)"
     "os_extents s = []" "os_mutationBytes s = 2048" using sample_writes [OF m] by blast
  have "of_nat (length sample_operations) = (2 :: u64)" by (simp add: sample_operations_def)
  then show ?thesis
    using sample_order_valid [of i]
    by (simp add: PlanSinglePhaseFullFlashWriteOrder_def sample_prerequisites [OF assms] m s Let_def sample_order_def
      del: order_writes.simps)
qed

lemma sample_order_exists:
  "\<exists>i. PlanSinglePhaseFullFlashWriteOrder sample_descriptor_plan sample_target (sample_full i) = Inr (sample_order i)"
proof -
  from sample_inspect obtain i :: Inspection where "insp_Store i = (store_header_of sample_store)\<lparr>st_FinalTableBlockEnd := 1\<rparr>"
    by (elim exE conjE)
  then have "st_UpdateType (insp_Store i) = 0" by (simp add: sample_store_header)
  then show ?thesis using sample_order_planned by blast
qed

theorem write_order_sound_witness:
  "\<exists>t f p. PlanSinglePhaseFullFlashWriteOrder sample_descriptor_plan t f = Inr p
     \<and> sorted_wrt op_disjoint (wo_Operations p) \<and> unat (wo_MutationBytes p) = 2048"
proof -
  obtain i where "PlanSinglePhaseFullFlashWriteOrder sample_descriptor_plan sample_target (sample_full i)
      = Inr (sample_order i)" using sample_order_exists by blast
  from write_order_sound [OF this] this show ?thesis by fastforce
qed

end
