(* ===== verification/SourceFile.thy ===== *)
theory SourceFile
  imports Target
begin

text \<open>
  \<open>internal/sourcefile\<close>: the kernel identity that pins a selected image file
  (\<open>sourcefile_linux.go\<close>) and its decimal form for the privilege boundary
  (\<open>identity_text.go\<close>). A Go \<open>int64\<close> is a 64-bit word read with \<open>sint\<close>; \<open>fstat\<close> is a
  parameter.
\<close>

type_synonym i64 = "64 word"

record Identity =
  id_Device :: u64
  id_Inode :: u64
  id_Size :: i64
  id_ModifiedNS :: i64
  id_ChangedNS :: i64

definition zero_identity :: Identity where
  "zero_identity = \<lparr> id_Device = 0, id_Inode = 0, id_Size = 0, id_ModifiedNS = 0, id_ChangedNS = 0 \<rparr>"

section \<open>Identity of an open file\<close>

text \<open>The fields of \<open>os.FileInfo\<close> and \<open>syscall.Stat_t\<close> the code reads.\<close>

record FileStat =
  fs_Regular :: bool
  fs_Size :: i64
  fs_Dev :: u64
  fs_Ino :: u64
  fs_MtimSec :: i64
  fs_MtimNsec :: i64
  fs_CtimSec :: i64
  fs_CtimNsec :: i64

text \<open>A file is \<open>None\<close> when it is nil, otherwise the outcome of its \<open>fstat\<close>.\<close>

type_synonym open_file = "FileStat res option"

definition IdentityOf :: "open_file \<Rightarrow> Identity res" where
  "IdentityOf file =
     (case file of None \<Rightarrow> Inl (Msg ''image file is nil'') | Some fstat \<Rightarrow>
      bindE (mapE (\<lambda>e. Errorf ''stat open image: %w'' [FE e]) fstat) (\<lambda>st.
      if \<not> fs_Regular st \<or> sint (fs_Size st) \<le> 0
      then Inl (Msg ''image must be a non-empty regular file'')
      else Inr \<lparr> id_Device = fs_Dev st, id_Inode = fs_Ino st, id_Size = fs_Size st,
                 id_ModifiedNS = fs_MtimSec st * 1000000000 + fs_MtimNsec st,
                 id_ChangedNS = fs_CtimSec st * 1000000000 + fs_CtimNsec st \<rparr>))"

definition source_changed :: go_error where
  "source_changed = Msg ''the selected image file changed after confirmation; choose the image again''"

definition Verify :: "open_file \<Rightarrow> Identity \<Rightarrow> unit res" where
  "Verify file expected =
     (if expected = zero_identity then bindE (IdentityOf file) (\<lambda>_. Inr ())
      else bindE (IdentityOf file) (\<lambda>actual. check (actual = expected) source_changed))"

definition VerifyPinned :: "open_file \<Rightarrow> Identity \<Rightarrow> unit res" where
  "VerifyPinned file expected =
     (if expected = zero_identity then bindE (IdentityOf file) (\<lambda>_. Inr ())
      else bindE (IdentityOf file) (\<lambda>actual.
        check (id_Device actual = id_Device expected \<and> id_Inode actual = id_Inode expected
            \<and> id_Size actual = id_Size expected \<and> id_ModifiedNS actual = id_ModifiedNS expected)
          source_changed))"

section \<open>The decimal form\<close>

text \<open>The verb \<open>%d\<close> on an \<open>int64\<close>.\<close>

definition format_int :: "i64 \<Rightarrow> string" where
  "format_int x = (if sint x < 0 then CHR ''-'' # decimal (- x) else decimal x)"

definition FormatIdentity :: "Identity \<Rightarrow> string res" where
  "FormatIdentity i =
     (if id_Device i = 0 \<or> id_Inode i = 0 \<or> sint (id_Size i) \<le> 0
         \<or> sint (id_ModifiedNS i) < 0 \<or> sint (id_ChangedNS i) < 0
      then Inl (Msg ''source identity is incomplete'')
      else Inr (decimal (id_Device i) @ '':'' @ decimal (id_Inode i) @ '':'' @ format_int (id_Size i)
             @ '':'' @ format_int (id_ModifiedNS i) @ '':'' @ format_int (id_ChangedNS i)))"

text \<open>\<open>strings.Split(s, ":")\<close>.\<close>

fun split_colon :: "string \<Rightarrow> string list" where
  "split_colon [] = [[]]"
| "split_colon (c # cs) =
     (if c = CHR '':'' then [] # split_colon cs
      else case split_colon cs of [] \<Rightarrow> [[c]] | p # ps \<Rightarrow> (c # p) # ps)"

text \<open>\<open>strconv.ParseInt(s, 10, 64)\<close>.\<close>

definition parse_int64 :: "string \<Rightarrow> i64 res" where
  "parse_int64 s =
     (let bad = Errorf ''strconv.ParseInt: parsing %q: invalid syntax'' [FS s];
          range = Errorf ''strconv.ParseInt: parsing %q: value out of range'' [FS s] in
      case s of [] \<Rightarrow> Inl bad
      | c # cs \<Rightarrow>
        (let neg = (c = CHR ''-''); rest = (if c = CHR ''-'' \<or> c = CHR ''+'' then cs else s) in
         case parse_uint64 rest of
           Inl (Errorf f as) \<Rightarrow>
             Inl (if f = ''strconv.ParseUint: parsing %q: invalid syntax'' then bad else range)
         | Inl e \<Rightarrow> Inl e
         | Inr un \<Rightarrow>
             if \<not> neg \<and> 2 ^ 63 \<le> un \<or> neg \<and> 2 ^ 63 < un then Inl range
             else Inr (if neg then - un else un)))"

definition ParseIdentity :: "string \<Rightarrow> Identity res" where
  "ParseIdentity value =
     (case split_colon (trim_space value) of
        [p0, p1, p2, p3, p4] \<Rightarrow>
          bindE (mapE (\<lambda>e. Errorf ''parse source device identity: %w'' [FE e]) (parse_uint64 p0)) (\<lambda>device.
          bindE (mapE (\<lambda>e. Errorf ''parse source inode identity: %w'' [FE e]) (parse_uint64 p1)) (\<lambda>inode.
          bindE (mapE (\<lambda>e. Errorf ''parse source size identity: %w'' [FE e]) (parse_int64 p2)) (\<lambda>sz.
          bindE (mapE (\<lambda>e. Errorf ''parse source modification identity: %w'' [FE e]) (parse_int64 p3)) (\<lambda>modified.
          bindE (mapE (\<lambda>e. Errorf ''parse source change identity: %w'' [FE e]) (parse_int64 p4)) (\<lambda>changed.
          let identity = \<lparr> id_Device = device, id_Inode = inode, id_Size = sz,
                           id_ModifiedNS = modified, id_ChangedNS = changed \<rparr> in
          bindE (FormatIdentity identity) (\<lambda>_. Inr identity))))))
      | _ \<Rightarrow> Inl (Msg ''source identity must contain five decimal fields''))"

section \<open>Correctness\<close>

lemma decimal_chars: "c \<in> set (decimal x) \<Longrightarrow> \<exists>d < 10. c = hex_digit d"
proof -
  have "c \<in> set (digits_rev k n) \<Longrightarrow> \<exists>d < 10. c = hex_digit d" for k n
  proof (induction k arbitrary: n)
    case (Suc k)
    show ?case
    proof (cases "n < 10")
      case True
      then show ?thesis using Suc.prems by auto
    next
      case False
      then have "c = hex_digit (n mod 10) \<or> c \<in> set (digits_rev k (n div 10))" using Suc.prems by simp
      then show ?thesis
      proof
        assume "c = hex_digit (n mod 10)"
        moreover have "n mod 10 < 10" by simp
        ultimately show ?thesis by blast
      qed (rule Suc.IH)
    qed
  qed simp
  then show "c \<in> set (decimal x) \<Longrightarrow> ?thesis" by (simp add: decimal_def)
qed

lemma decimal_code:
  "c \<in> set (decimal x) \<Longrightarrow> 48 \<le> (of_char c :: nat) \<and> (of_char c :: nat) \<le> 57"
  by (auto simp: hex_digit_def dest!: decimal_chars)

lemma split_colon_free: "CHR '':'' \<notin> set a \<Longrightarrow> split_colon a = [a]"
  by (induction a) auto

lemma split_colon_append:
  "CHR '':'' \<notin> set a \<Longrightarrow> split_colon (a @ CHR '':'' # b) = a # split_colon b"
  by (induction a) auto

lemma decimal_no_colon: "CHR '':'' \<notin> set (decimal x)"
  using decimal_code [of "CHR '':''" x] by auto

lemma parse_int_decimal: "0 \<le> sint x \<Longrightarrow> parse_int64 (decimal x) = Inr x"
proof -
  assume s: "0 \<le> sint x"
  obtain c cs where d: "decimal x = c # cs" using decimal_nonempty by (cases "decimal x") auto
  then have "c \<noteq> CHR ''-''" "c \<noteq> CHR ''+''" using decimal_code [of c x] by auto
  moreover have "\<not> (2 :: u64) ^ 63 \<le> x"
  proof
    assume "2 ^ 63 \<le> x"
    then have "2 ^ 63 \<le> unat x" using word_le_unat [of "2 ^ 63" x] by simp
    then have "unat x div 2 ^ 63 = 1" using unat_lt_64 [of x] by (intro div_nat_eqI) simp_all
    then have "bit (unat x) 63" by (simp add: bit_iff_odd)
    then have "bit x 63" by (simp add: bit_unsigned_iff)
    then show False using s bit_last_iff [of x] by simp
  qed
  ultimately show ?thesis using parse_decimal [of x] by (simp add: parse_int64_def d Let_def)
qed

lemma format_parts:
  assumes "FormatIdentity i = Inr s"
  shows "s = decimal (id_Device i) @ '':'' @ decimal (id_Inode i) @ '':'' @ decimal (id_Size i)
      @ '':'' @ decimal (id_ModifiedNS i) @ '':'' @ decimal (id_ChangedNS i)
    \<and> 0 \<le> sint (id_Size i) \<and> 0 \<le> sint (id_ModifiedNS i) \<and> 0 \<le> sint (id_ChangedNS i)"
  using assms by (auto simp: FormatIdentity_def format_int_def split: if_splits)

lemma format_trimmed:
  assumes "FormatIdentity i = Inr s"
  shows "trim_space s = s"
proof (rule trim_space_id)
  note P = format_parts [OF assms, THEN conjunct1]
  let ?h = "hd (decimal (id_Device i))" and ?l = "last (decimal (id_ChangedNS i))"
  have h: "hd s = ?h" "last s = ?l" "s \<noteq> []"
    using decimal_nonempty [of "id_Device i"] decimal_nonempty [of "id_ChangedNS i"] by (simp_all add: P)
  have "48 \<le> (of_char ?h :: nat) \<and> (of_char ?h :: nat) \<le> 57" "48 \<le> (of_char ?l :: nat) \<and> (of_char ?l :: nat) \<le> 57"
    using decimal_nonempty decimal_code by (meson hd_in_set last_in_set)+
  then show "s \<noteq> []" "33 \<le> (of_char (hd s) :: nat)" "(of_char (hd s) :: nat) \<le> 126"
    "33 \<le> (of_char (last s) :: nat)" "(of_char (last s) :: nat) \<le> 126"
    using h by simp_all
qed

lemma identity_parse_format:
  assumes "FormatIdentity i = Inr s"
  shows "ParseIdentity s = Inr i"
proof -
  note P = format_parts [OF assms]
  have sp: "split_colon s = [decimal (id_Device i), decimal (id_Inode i), decimal (id_Size i),
      decimal (id_ModifiedNS i), decimal (id_ChangedNS i)]"
    using P by (simp add: split_colon_append split_colon_free decimal_no_colon)
  then show ?thesis
    unfolding ParseIdentity_def format_trimmed [OF assms] sp
    using P [THEN conjunct2] assms by (cases i) (simp add: parse_decimal parse_int_decimal)
qed

text \<open>
  An identity printed for the privilege boundary is read back as exactly the same identity.
\<close>

theorem identity_roundtrip:
  assumes "FormatIdentity i = Inr s"
  shows "ParseIdentity s = Inr i"
  using assms by (rule identity_parse_format)

lemma verify_iff:
  assumes "expected \<noteq> zero_identity"
  shows "Verify file expected = Inr () \<longleftrightarrow> IdentityOf file = Inr expected"
  using assms by (auto simp: Verify_def bindE_eq_Inr check_eq_Inr)

text \<open>
  Verification of an open source against a non-zero identity accepts exactly the regular,
  non-empty file with that device, inode, size and both times; the pinned check differs from it
  only in ignoring the change time.
\<close>

theorem verify_exact:
  assumes "expected \<noteq> zero_identity"
  shows "(Verify file expected = Inr () \<longleftrightarrow> IdentityOf file = Inr expected)
    \<and> (VerifyPinned file expected = Inr () \<longleftrightarrow>
        (\<exists>c. IdentityOf file = Inr (expected\<lparr>id_ChangedNS := c\<rparr>)))
    \<and> (IdentityOf file = Inr expected \<longrightarrow> 0 < sint (id_Size expected))"
proof (intro conjI)
  show "Verify file expected = Inr () \<longleftrightarrow> IdentityOf file = Inr expected"
    using assms by (rule verify_iff)
  show "VerifyPinned file expected = Inr () \<longleftrightarrow> (\<exists>c. IdentityOf file = Inr (expected\<lparr>id_ChangedNS := c\<rparr>))"
    using assms by (cases "IdentityOf file") (auto simp: VerifyPinned_def check_eq_Inr intro!: exI Identity.equality)
  show "IdentityOf file = Inr expected \<longrightarrow> 0 < sint (id_Size expected)"
    by (auto simp: IdentityOf_def result_simps split: option.splits)
qed

definition sample_identity :: Identity where
  "sample_identity = \<lparr> id_Device = 2049, id_Inode = 77, id_Size = 4096, id_ModifiedNS = 5, id_ChangedNS = 6 \<rparr>"

lemma sample_formatted: "is_ok (FormatIdentity sample_identity)"
  by (simp add: FormatIdentity_def sample_identity_def)

theorem identity_roundtrip_witness:
  "\<exists>s. FormatIdentity sample_identity = Inr s \<and> ParseIdentity s = Inr sample_identity"
  using sample_formatted identity_roundtrip unfolding is_ok_iff by blast

theorem verify_exact_witness:
  "sample_identity \<noteq> zero_identity
   \<and> (VerifyPinned (Some (Inl (External 5))) sample_identity = Inr ()
       \<longleftrightarrow> (\<exists>c. IdentityOf (Some (Inl (External 5))) = Inr (sample_identity\<lparr>id_ChangedNS := c\<rparr>)))"
proof -
  have "sample_identity \<noteq> zero_identity" by (simp add: sample_identity_def zero_identity_def)
  with verify_exact [OF this] show ?thesis by blast
qed

end
