(* ===== verification/FfuSession.thy ===== *)
theory FfuSession
  imports FfuOrder SourceFile
begin

text \<open>
  The chain of sealed capabilities between a reviewed plan and the executor:
  the live target preflight (\<open>restore_target_preflight_linux.go\<close>), the leased source
  (\<open>restore_source_lease_linux.go\<close>), the exclusive target session
  (\<open>restore_target_session_linux.go\<close>), the exact destructive confirmation
  (\<open>restore_confirmation_linux.go\<close>) and the mutation authorization
  (\<open>restore_mutation_authorization_linux.go\<close>). Each is evidence (a record, its digest and its
  validator) and a capability that holds the previous one. A pointer is an option, a seal is a
  flag, and the calls that reach the operating system are the fields of a record of the
  environment.
\<close>

text \<open>The checks on the device path that several validators repeat.\<close>

definition canonical_device_path :: "string \<Rightarrow> bool" where
  "canonical_device_path p \<longleftrightarrow>
     trim_space p \<noteq> [] \<and> trim_space p = p \<and> is_abs p \<and> has_prefix p ''/dev/'' \<and> clean_path p = p"

section \<open>Target preflight\<close>

record FullFlashTargetMount =
  tm_DevicePath :: string
  tm_Mountpoint :: string

record FullFlashTargetPreflightPlan =
  pf_Schema :: nat
  pf_Mode :: string
  pf_Destructive :: bool
  pf_FullFlashValidationPlanSHA256 :: string
  pf_RestoreTargetPlanSHA256 :: string
  pf_AuthenticatedIntegritySHA256 :: string
  pf_DevicePath :: string
  pf_ExpectedTargetIdentity :: string
  pf_RediscoveredTargetIdentity :: string
  pf_TargetSizeBytes :: u64
  pf_LogicalSectorSizeBytes :: u64
  pf_PhysicalSectorSizeBytes :: u64
  pf_StoreBlockSizeBytes :: u64
  pf_KernelDeviceID :: u64
  pf_MajorMinor :: string
  pf_Vendor :: string
  pf_Model :: string
  pf_Transport :: string
  pf_Removable :: bool
  pf_Hotplug :: bool
  pf_MutationBytes :: u64
  pf_MountedTargets :: "FullFlashTargetMount list"
  pf_UnmountRequired :: bool
  pf_TargetDiscoveryCompleted :: bool
  pf_WholeDiskConfirmed :: bool
  pf_NormalRemovableTargetConfirmed :: bool
  pf_RunningSystemDiskExcluded :: bool
  pf_ProtectedMountsExcluded :: bool
  pf_TargetIdentityRevalidated :: bool
  pf_TargetCapacityRevalidated :: bool
  pf_TargetGeometryRevalidated :: bool
  pf_FixedDiskOverrideAllowed :: bool
  pf_PrivilegedOpenRequired :: bool
  pf_ExecutionSupported :: bool
  pf_PlanSHA256 :: string
  pf_Warnings :: "string list"
  pf_Limitations :: "string list"

definition writePreflightUint64 :: "u64 \<Rightarrow> bytes" where
  "writePreflightUint64 v = writeFullFlashUint64 v"

definition writePreflightString :: "string \<Rightarrow> bytes" where
  "writePreflightString v = writeFullFlashString v"

definition writePreflightBool :: "bool \<Rightarrow> bytes" where
  "writePreflightBool v = writeFullFlashBool v"

definition digest_mount :: "FullFlashTargetMount \<Rightarrow> bytes" where
  "digest_mount m = writePreflightString (tm_DevicePath m) @ writePreflightString (tm_Mountpoint m)"

definition target_preflight_preimage :: "FullFlashTargetPreflightPlan \<Rightarrow> bytes" where
  "target_preflight_preimage v =
     writePreflightUint64 (of_nat (pf_Schema v))
     @ writePreflightString (pf_Mode v)
     @ writePreflightBool (pf_Destructive v)
     @ concat (map writePreflightString
         [pf_FullFlashValidationPlanSHA256 v, pf_RestoreTargetPlanSHA256 v,
          pf_AuthenticatedIntegritySHA256 v, pf_DevicePath v, pf_ExpectedTargetIdentity v,
          pf_RediscoveredTargetIdentity v])
     @ concat (map writePreflightUint64
         [pf_TargetSizeBytes v, pf_LogicalSectorSizeBytes v, pf_PhysicalSectorSizeBytes v,
          pf_StoreBlockSizeBytes v, pf_KernelDeviceID v])
     @ concat (map writePreflightString
         [pf_MajorMinor v, pf_Vendor v, pf_Model v, pf_Transport v])
     @ concat (map writePreflightBool
         [pf_Removable v, pf_Hotplug v])
     @ writePreflightUint64 (pf_MutationBytes v)
     @ concat (map digest_mount (pf_MountedTargets v))
     @ concat (map writePreflightBool
         [pf_UnmountRequired v, pf_TargetDiscoveryCompleted v, pf_WholeDiskConfirmed v,
          pf_NormalRemovableTargetConfirmed v, pf_RunningSystemDiskExcluded v,
          pf_ProtectedMountsExcluded v, pf_TargetIdentityRevalidated v,
          pf_TargetCapacityRevalidated v, pf_TargetGeometryRevalidated v,
          pf_FixedDiskOverrideAllowed v, pf_PrivilegedOpenRequired v,
          pf_ExecutionSupported v])
     @ concat (map writePreflightString (pf_Warnings v))
     @ concat (map writePreflightString (pf_Limitations v))"

definition fullFlashTargetPreflightDigest :: "FullFlashTargetPreflightPlan \<Rightarrow> string" where
  "fullFlashTargetPreflightDigest v = sha256_hex (target_preflight_preimage v)"

definition fullFlashTargetPreflightWarnings :: "string list" where
  "fullFlashTargetPreflightWarnings =
    [''The selected full-flash target is a destructive whole-disk operation and all existing data may be replaced.'',
     ''Only a normal removable or USB whole disk is accepted; fixed, internal, partition, read-only, protected-mount, and running-system targets are refused.'',
     ''Any eligible desktop-mounted target components must be guardedly unmounted and the complete target identity revalidated before a future write.'',
     ''Read-only preflight does not prove that a later privileged open will succeed or that the restored device will boot.'']"

definition fullFlashTargetPreflightLimitations :: "string list" where
  "fullFlashTargetPreflightLimitations =
    [''the target is rediscovered through current Linux metadata but is not opened'',
     ''the source is not yet held across administrator authentication and target opening'',
     ''exclusive locking, guarded unmount, descriptor-bound revalidation, write ordering, cancellation, flush, and readback remain outside this boundary'',
     ''execution remains disabled and no fixed-disk override exists'']"

definition ffuSysClassBlockRoot :: string where "ffuSysClassBlockRoot = ''/sys/class/block''"

definition maxFFUSysfsGeometryBytes :: nat where "maxFFUSysfsGeometryBytes = 64"

text \<open>\<open>os.ReadFile\<close> is the parameter \<open>read_file\<close>.\<close>

definition read_geometry_value ::
  "(string \<Rightarrow> ('w, string) act) \<Rightarrow> string \<Rightarrow> string \<Rightarrow> string \<Rightarrow> ('w, u64) act" where
  "read_geometry_value read_file root name filename =
     bind_act (wrap_act (\<lambda>e. Errorf ''read FFU target %s: %w'' [FS filename, FE e])
       (read_file (clean_path (root @ ''/'' @ name @ ''/queue/'' @ filename)))) (\<lambda>content.
     pure_act
       (if length content = 0 \<or> maxFFUSysfsGeometryBytes < length content
        then Inl (Errorf ''FFU target %s has an invalid sysfs value length'' [FS filename])
        else mapE (\<lambda>e. Errorf ''parse FFU target %s: %w'' [FS filename, FE e])
               (parse_uint64 (trim_space content))))"

definition readFFUTargetSectorGeometryAt ::
  "(string \<Rightarrow> ('w, string) act) \<Rightarrow> string \<Rightarrow> string \<Rightarrow> ('w, u64 \<times> u64) act" where
  "readFFUTargetSectorGeometryAt read_file root deviceName =
     (let name = trim_space deviceName in
      if name = [] \<or> base_name name \<noteq> name \<or> name = ''.'' \<or> name = ''/''
      then pure_act (Inl (Errorf ''invalid FFU target kernel name %q'' [FS deviceName]))
      else
      bind_act (read_geometry_value read_file root name ''logical_block_size'') (\<lambda>logical.
      bind_act (read_geometry_value read_file root name ''physical_block_size'') (\<lambda>physical.
      ret_act (logical, physical))))"

definition eligibleFFURemovableMountpoint :: "string \<Rightarrow> bool" where
  "eligibleFFURemovableMountpoint path \<longleftrightarrow>
     is_abs path
     \<and> list_ex (\<lambda>root. path = root \<or> has_prefix path (root @ ''/'')) [''/media'', ''/run/media'', ''/mnt'']"

text \<open>The pairs the two loops visit are a list; \<open>seen\<close> holds the keys recorded so far.\<close>

fun collect_mounts ::
  "(string \<times> string) list \<Rightarrow> string list \<Rightarrow> FullFlashTargetMount list \<Rightarrow> FullFlashTargetMount list res" where
  "collect_mounts [] seen mounts = Inr mounts"
| "collect_mounts ((nodePath, raw) # rest) seen mounts =
     (let mountpoint = clean_path (trim_space raw); key = nodePath @ NUL # mountpoint in
      if mountpoint = ''.'' \<or> \<not> eligibleFFURemovableMountpoint mountpoint
      then Inl (Errorf ''FFU target component %s has an unsafe mountpoint %q'' [FS nodePath, FS raw])
      else if key \<in> set seen then collect_mounts rest seen mounts
      else collect_mounts rest (key # seen)
             (mounts @ [\<lparr> tm_DevicePath = nodePath, tm_Mountpoint = mountpoint \<rparr>]))"

definition mount_less :: "FullFlashTargetMount \<Rightarrow> FullFlashTargetMount \<Rightarrow> bool" where
  "mount_less a b =
     (if tm_DevicePath a \<noteq> tm_DevicePath b then tm_DevicePath a < tm_DevicePath b
      else tm_Mountpoint a < tm_Mountpoint b)"

definition node_mounts :: "BlockDevice \<Rightarrow> (string \<times> string) list" where
  "node_mounts d = concat (map (\<lambda>n. map (\<lambda>raw. (bd_Path n, raw)) (bd_Mountpoints n)) (Flatten d))"

definition collectFullFlashTargetMounts :: "BlockDevice \<Rightarrow> FullFlashTargetMount list res" where
  "collectFullFlashTargetMounts d =
     bindE (collect_mounts (node_mounts d) [] []) (\<lambda>mounts. Inr (sort_by mount_less mounts))"

fun validate_mounts ::
  "nat \<Rightarrow> FullFlashTargetMount \<Rightarrow> FullFlashTargetMount list \<Rightarrow> unit res" where
  "validate_mounts index previous [] = Inr ()"
| "validate_mounts index previous (mount # mounts) =
     (if trim_space (tm_DevicePath mount) = [] \<or> \<not> has_prefix (tm_DevicePath mount) ''/dev/''
         \<or> clean_path (tm_DevicePath mount) \<noteq> tm_DevicePath mount
         \<or> \<not> eligibleFFURemovableMountpoint (tm_Mountpoint mount)
      then Inl (Errorf ''FFU target-preflight mount %d is invalid'' [FN index])
      else if index \<noteq> 0 \<and> (tm_DevicePath mount < tm_DevicePath previous
              \<or> tm_DevicePath mount = tm_DevicePath previous \<and> tm_Mountpoint mount \<le> tm_Mountpoint previous)
      then Inl (Msg ''FFU target-preflight mounts are not strictly sorted'')
      else validate_mounts (Suc index) mount mounts)"

definition preflight_request :: "FullFlashTargetPreflightPlan \<Rightarrow> RestoreTargetRequest" where
  "preflight_request p =
     \<lparr> rq_DevicePath = pf_DevicePath p, rq_ExpectedTargetIdentity = pf_ExpectedTargetIdentity p,
       rq_TargetSizeBytes = pf_TargetSizeBytes p,
       rq_LogicalSectorSizeBytes = pf_LogicalSectorSizeBytes p,
       rq_PhysicalSectorSizeBytes = pf_PhysicalSectorSizeBytes p \<rparr>"

definition validateFullFlashTargetPreflightPlan :: "FullFlashTargetPreflightPlan \<Rightarrow> unit res" where
  "validateFullFlashTargetPreflightPlan p =
     (if pf_Schema p \<noteq> 1 \<or> pf_Mode p \<noteq> ''ffu-full-flash-target-preflight'' \<or> \<not> pf_Destructive p
         \<or> \<not> pf_TargetDiscoveryCompleted p \<or> \<not> pf_WholeDiskConfirmed p
         \<or> \<not> pf_NormalRemovableTargetConfirmed p \<or> \<not> pf_RunningSystemDiskExcluded p
         \<or> \<not> pf_ProtectedMountsExcluded p \<or> \<not> pf_TargetIdentityRevalidated p
         \<or> \<not> pf_TargetCapacityRevalidated p \<or> \<not> pf_TargetGeometryRevalidated p
         \<or> pf_FixedDiskOverrideAllowed p \<or> \<not> pf_PrivilegedOpenRequired p \<or> pf_ExecutionSupported p
      then Inl (Msg ''invalid FFU target-preflight envelope'')
      else
      bindE (validateRestoreTargetRequest (preflight_request p)) (\<lambda>_.
      if \<not> list_all validFullFlashPlanSHA256
           [pf_FullFlashValidationPlanSHA256 p, pf_RestoreTargetPlanSHA256 p,
            pf_AuthenticatedIntegritySHA256 p, pf_ExpectedTargetIdentity p, pf_RediscoveredTargetIdentity p]
      then Inl (Msg ''FFU target-preflight contains an invalid SHA-256 evidence identifier'')
      else if pf_ExpectedTargetIdentity p \<noteq> pf_RediscoveredTargetIdentity p \<or> pf_TargetSizeBytes p = 0
              \<or> pf_MutationBytes p = 0 \<or> pf_TargetSizeBytes p < pf_MutationBytes p
              \<or> pf_StoreBlockSizeBytes p = 0 \<or> pf_KernelDeviceID p = 0
              \<or> trim_space (pf_MajorMinor p) = []
      then Inl (Msg ''FFU target-preflight identity or geometry evidence is inconsistent'')
      else if pf_StoreBlockSizeBytes p mod pf_LogicalSectorSizeBytes p \<noteq> 0
              \<or> pf_StoreBlockSizeBytes p mod pf_PhysicalSectorSizeBytes p \<noteq> 0
              \<or> pf_UnmountRequired p \<noteq> (length (pf_MountedTargets p) \<noteq> 0)
      then Inl (Msg ''FFU target-preflight sector or mount accounting is inconsistent'')
      else
      bindE (validate_mounts 0 \<lparr> tm_DevicePath = [], tm_Mountpoint = [] \<rparr> (pf_MountedTargets p)) (\<lambda>_.
      if \<not> equalRestoreStrings (pf_Warnings p) fullFlashTargetPreflightWarnings
         \<or> \<not> equalRestoreStrings (pf_Limitations p) fullFlashTargetPreflightLimitations
         \<or> pf_PlanSHA256 p \<noteq> fullFlashTargetPreflightDigest p
      then Inl (Msg ''FFU target-preflight evidence, warnings, or limitations were altered'')
      else Inr ())))"

definition new_preflight_plan ::
  "FullFlashValidationPlan \<Rightarrow> BlockDevice \<Rightarrow> u64 \<Rightarrow> u64 \<Rightarrow> u64 \<Rightarrow> FullFlashTargetMount list
     \<Rightarrow> FullFlashTargetPreflightPlan" where
  "new_preflight_plan validation d kernelID logical physical mounts =
     \<lparr> pf_Schema = 1,
       pf_Mode = ''ffu-full-flash-target-preflight'',
       pf_Destructive = True,
       pf_FullFlashValidationPlanSHA256 = fv_PlanSHA256 validation,
       pf_RestoreTargetPlanSHA256 = fv_RestoreTargetPlanSHA256 validation,
       pf_AuthenticatedIntegritySHA256 = fv_AuthenticatedIntegrityPlanSHA256 validation,
       pf_DevicePath = fv_DevicePath validation,
       pf_ExpectedTargetIdentity = fv_ExpectedTargetIdentity validation,
       pf_RediscoveredTargetIdentity = IdentityToken d,
       pf_TargetSizeBytes = dev_Size (bd_info d),
       pf_LogicalSectorSizeBytes = logical,
       pf_PhysicalSectorSizeBytes = physical,
       pf_StoreBlockSizeBytes = fv_StoreBlockSizeBytes validation,
       pf_KernelDeviceID = kernelID,
       pf_MajorMinor = dev_MajorMinor (bd_info d),
       pf_Vendor = dev_Vendor (bd_info d),
       pf_Model = dev_Model (bd_info d),
       pf_Transport = dev_Transport (bd_info d),
       pf_Removable = dev_Removable (bd_info d),
       pf_Hotplug = dev_Hotplug (bd_info d),
       pf_MutationBytes = fv_MutationBytes validation,
       pf_MountedTargets = mounts,
       pf_UnmountRequired = (length mounts \<noteq> 0),
       pf_TargetDiscoveryCompleted = True,
       pf_WholeDiskConfirmed = True,
       pf_NormalRemovableTargetConfirmed = True,
       pf_RunningSystemDiskExcluded = True,
       pf_ProtectedMountsExcluded = True,
       pf_TargetIdentityRevalidated = True,
       pf_TargetCapacityRevalidated = True,
       pf_TargetGeometryRevalidated = True,
       pf_FixedDiskOverrideAllowed = False,
       pf_PrivilegedOpenRequired = True,
       pf_ExecutionSupported = False,
       pf_PlanSHA256 = [],
       pf_Warnings = fullFlashTargetPreflightWarnings,
       pf_Limitations = fullFlashTargetPreflightLimitations \<rparr>"

definition buildFullFlashTargetPreflight ::
  "FullFlashValidationPlan \<Rightarrow> BlockDevice \<Rightarrow> u64 \<Rightarrow> u64 \<Rightarrow> u64 \<Rightarrow> bool
     \<Rightarrow> FullFlashTargetPreflightPlan res" where
  "buildFullFlashTargetPreflight validation d kernelID logicalSector physicalSector runningSystemDiskExcluded =
     bindE (validateFullFlashValidationPlan validation) (\<lambda>_.
     if \<not> runningSystemDiskExcluded
     then Inl (Msg ''FFU target preflight has not excluded the running system disk'')
     else
     bindE (ValidateTargetMetadata (fv_DevicePath validation) d False) (\<lambda>_.
     if dev_Size (bd_info d) \<noteq> fv_TargetSizeBytes validation
     then Inl (Errorf ''FFU target capacity changed from %d to %d bytes''
                 [FN (unat (fv_TargetSizeBytes validation)), FN (unat (dev_Size (bd_info d)))])
     else if fv_ExpectedTargetIdentity validation \<noteq> IdentityToken d
     then Inl (Msg ''FFU target identity differs from the authenticated restore plan'')
     else if logicalSector \<noteq> fv_LogicalSectorSizeBytes validation
             \<or> physicalSector \<noteq> fv_PhysicalSectorSizeBytes validation
     then Inl (Errorf ''FFU target sector geometry changed from %d/%d to %d/%d bytes''
                 [FN (unat (fv_LogicalSectorSizeBytes validation)), FN (unat (fv_PhysicalSectorSizeBytes validation)),
                  FN (unat logicalSector), FN (unat physicalSector)])
     else if \<not> validFFUTargetSectorSize logicalSector \<or> \<not> validFFUTargetSectorSize physicalSector
             \<or> physicalSector < logicalSector \<or> physicalSector mod logicalSector \<noteq> 0
     then Inl (Msg ''rediscovered FFU target sector geometry is invalid'')
     else if fv_StoreBlockSizeBytes validation mod logicalSector \<noteq> 0
             \<or> fv_StoreBlockSizeBytes validation mod physicalSector \<noteq> 0
     then Inl (Msg ''rediscovered FFU target sector geometry is incompatible with the store block size'')
     else if kernelID = 0 then Inl (Msg ''FFU target kernel device identity is zero'')
     else if trim_space (dev_MajorMinor (bd_info d)) = []
     then Inl (Msg ''FFU target is missing a kernel major:minor identity'')
     else
     bindE (collectFullFlashTargetMounts d) (\<lambda>mounts.
     let plan = new_preflight_plan validation d kernelID logicalSector physicalSector mounts;
         plan = plan\<lparr>pf_PlanSHA256 := fullFlashTargetPreflightDigest plan\<rparr> in
     bindE (validateFullFlashTargetPreflightPlan plan) (\<lambda>_. Inr plan))))"

text \<open>
  Discovery runs system tools between the checks: resolving the path (\<open>ResolveDevice\<close>), the
  device search (\<open>device.Find\<close>), the target policy on the live system
  (\<open>safety.ValidateTarget\<close>), the device number and the sysfs geometry are fields of
  \<open>discovery_env\<close>, each a call that may change the world.
\<close>

record 'w discovery_env =
  ds_ctx_err :: "'w poll"
  ds_resolve :: "string \<Rightarrow> ('w, string) act"
  ds_find :: "string \<Rightarrow> ('w, BlockDevice) act"
  ds_validate_target :: "string \<Rightarrow> BlockDevice \<Rightarrow> bool \<Rightarrow> ('w, unit) act"
  ds_kernel_id :: "string \<Rightarrow> ('w, u64) act"
  ds_read_file :: "string \<Rightarrow> ('w, string) act"

definition DiscoverFullFlashTargetPreflight ::
  "'w discovery_env option \<Rightarrow> FullFlashValidationPlan \<Rightarrow> ('w, FullFlashTargetPreflightPlan) act" where
  "DiscoverFullFlashTargetPreflight env_opt validation =
     (case env_opt of None \<Rightarrow> pure_act (Inl (Msg ''FFU target discovery context is nil'')) | Some env \<Rightarrow>
      bind_act (try_call (ds_ctx_err env)) (\<lambda>_.
      bind_act (pure_act (mapE (\<lambda>e. Errorf ''validate FFU full-flash prerequisite: %w'' [FE e])
        (validateFullFlashValidationPlan validation))) (\<lambda>_.
      bind_act (ds_resolve env (fv_DevicePath validation)) (\<lambda>resolved.
      if resolved \<noteq> fv_DevicePath validation
      then pure_act (Inl (Errorf ''FFU target path resolved from %s to %s after review''
             [FS (fv_DevicePath validation), FS resolved]))
      else
      bind_act (ds_find env resolved) (\<lambda>d.
      bind_act (pure_act (ValidateExpectedIdentity d (fv_ExpectedTargetIdentity validation))) (\<lambda>_.
      bind_act (ds_validate_target env resolved d False) (\<lambda>_.
      bind_act (try_call (ds_ctx_err env)) (\<lambda>_.
      bind_act (ds_kernel_id env resolved) (\<lambda>kernelID.
      bind_act (readFFUTargetSectorGeometryAt (ds_read_file env) ffuSysClassBlockRoot (dev_Name (bd_info d)))
        (\<lambda>(logical, physical).
      pure_act (buildFullFlashTargetPreflight validation d kernelID logical physical True)))))))))))"

section \<open>Source lease\<close>

record FullFlashSourceLeaseEvidence =
  sl_Schema :: nat
  sl_Mode :: string
  sl_SourceIdentity :: Identity
  sl_SourceFileSize :: u64
  sl_FullFlashTargetPreflightSHA256 :: string
  sl_FullFlashValidationPlanSHA256 :: string
  sl_RestoreTargetPlanSHA256 :: string
  sl_AuthenticatedIntegritySHA256 :: string
  sl_TargetDevicePath :: string
  sl_ExpectedTargetIdentity :: string
  sl_TargetSizeBytes :: u64
  sl_KernelReadLeaseRequired :: bool
  sl_KernelReadLeaseHeld :: bool
  sl_SourceIdentityRevalidated :: bool
  sl_FullFlashValidationReproduced :: bool
  sl_TargetPreflightBound :: bool
  sl_FallbackAllowed :: bool
  sl_TargetAccessPermitted :: bool
  sl_ExecutionSupported :: bool
  sl_PlanSHA256 :: string
  sl_Warnings :: "string list"
  sl_Limitations :: "string list"

definition writeSourceLeaseUint64 :: "u64 \<Rightarrow> bytes" where
  "writeSourceLeaseUint64 v = writePreflightUint64 v"

definition writeSourceLeaseString :: "string \<Rightarrow> bytes" where
  "writeSourceLeaseString v = writePreflightString v"

definition writeSourceLeaseBool :: "bool \<Rightarrow> bytes" where
  "writeSourceLeaseBool v = writePreflightBool v"

definition writeSourceLeaseBytes :: "bytes \<Rightarrow> bytes" where
  "writeSourceLeaseBytes v = writeSourceLeaseUint64 (of_nat (length v)) @ v"

text \<open>\<open>json.Marshal\<close> of a struct of five integers.\<close>

definition quoted :: "string \<Rightarrow> string" where
  "quoted s = CHR 0x22 # s @ [CHR 0x22]"

definition identity_json :: "Identity \<Rightarrow> bytes" where
  "identity_json i = string_bytes
     (''{'' @ quoted ''Device'' @ '':'' @ decimal (id_Device i)
      @ '','' @ quoted ''Inode'' @ '':'' @ decimal (id_Inode i)
      @ '','' @ quoted ''Size'' @ '':'' @ format_int (id_Size i)
      @ '','' @ quoted ''ModifiedNS'' @ '':'' @ format_int (id_ModifiedNS i)
      @ '','' @ quoted ''ChangedNS'' @ '':'' @ format_int (id_ChangedNS i) @ ''}'')"

definition source_lease_preimage :: "FullFlashSourceLeaseEvidence \<Rightarrow> bytes" where
  "source_lease_preimage v =
     writeSourceLeaseUint64 (of_nat (sl_Schema v))
     @ writeSourceLeaseString (sl_Mode v)
     @ writeSourceLeaseBytes (identity_json (sl_SourceIdentity v))
     @ writeSourceLeaseUint64 (sl_SourceFileSize v)
     @ concat (map writeSourceLeaseString
         [sl_FullFlashTargetPreflightSHA256 v, sl_FullFlashValidationPlanSHA256 v,
          sl_RestoreTargetPlanSHA256 v, sl_AuthenticatedIntegritySHA256 v,
          sl_TargetDevicePath v, sl_ExpectedTargetIdentity v])
     @ writeSourceLeaseUint64 (sl_TargetSizeBytes v)
     @ concat (map writeSourceLeaseBool
         [sl_KernelReadLeaseRequired v, sl_KernelReadLeaseHeld v,
          sl_SourceIdentityRevalidated v, sl_FullFlashValidationReproduced v,
          sl_TargetPreflightBound v, sl_FallbackAllowed v, sl_TargetAccessPermitted v,
          sl_ExecutionSupported v])
     @ concat (map writeSourceLeaseString (sl_Warnings v))
     @ concat (map writeSourceLeaseString (sl_Limitations v))"

definition fullFlashSourceLeaseEvidenceDigest :: "FullFlashSourceLeaseEvidence \<Rightarrow> string" where
  "fullFlashSourceLeaseEvidenceDigest v = sha256_hex (source_lease_preimage v)"

definition fullFlashSourceLeaseWarnings :: "string list" where
  "fullFlashSourceLeaseWarnings =
    [''The authenticated FFU source is held read-only by a Linux kernel lease; any conflicting writer request invalidates the operation.'',
     ''The source lease must remain held through administrator authentication, target acquisition, every write, flush, and required readback.'',
     ''The target has not been opened and this source capability grants no permission to unmount or modify any device.'']"

definition fullFlashSourceLeaseLimitations :: "string list" where
  "fullFlashSourceLeaseLimitations =
    [''lease fallback is forbidden for the initial FFU provider'',
     ''the caller retains ownership of the source file descriptor'',
     ''target open, guarded unmount, exclusive locking, final revalidation, writing, cancellation reporting, flush, and readback remain outside this boundary'',
     ''execution remains disabled'']"

definition validateFullFlashSourceLeaseEvidence :: "FullFlashSourceLeaseEvidence \<Rightarrow> unit res" where
  "validateFullFlashSourceLeaseEvidence e =
     (if sl_Schema e \<noteq> 1 \<or> sl_Mode e \<noteq> ''ffu-authenticated-source-lease''
         \<or> \<not> sl_KernelReadLeaseRequired e \<or> \<not> sl_KernelReadLeaseHeld e
         \<or> \<not> sl_SourceIdentityRevalidated e \<or> \<not> sl_FullFlashValidationReproduced e
         \<or> \<not> sl_TargetPreflightBound e \<or> sl_FallbackAllowed e \<or> sl_TargetAccessPermitted e
         \<or> sl_ExecutionSupported e
      then Inl (Msg ''invalid FFU source-lease evidence envelope'')
      else if sint (id_Size (sl_SourceIdentity e)) \<le> 0 \<or> id_Size (sl_SourceIdentity e) \<noteq> sl_SourceFileSize e
              \<or> sl_TargetSizeBytes e = 0
      then Inl (Msg ''FFU source-lease size evidence is inconsistent'')
      else if \<not> list_all validFullFlashPlanSHA256
                [sl_FullFlashTargetPreflightSHA256 e, sl_FullFlashValidationPlanSHA256 e,
                 sl_RestoreTargetPlanSHA256 e, sl_AuthenticatedIntegritySHA256 e,
                 sl_ExpectedTargetIdentity e]
      then Inl (Msg ''FFU source-lease evidence contains an invalid SHA-256 identifier'')
      else if \<not> canonical_device_path (sl_TargetDevicePath e)
      then Inl (Msg ''FFU source-lease evidence contains an invalid target path'')
      else if \<not> equalRestoreStrings (sl_Warnings e) fullFlashSourceLeaseWarnings
              \<or> \<not> equalRestoreStrings (sl_Limitations e) fullFlashSourceLeaseLimitations
              \<or> sl_PlanSHA256 e \<noteq> fullFlashSourceLeaseEvidenceDigest e
      then Inl (Msg ''FFU source-lease evidence, warnings, or limitations were altered'')
      else Inr ())"

record FullFlashSourceLease =
  so_file :: bool
  so_lease :: bool
  so_identity :: Identity
  so_evidence :: FullFlashSourceLeaseEvidence
  so_sealed :: bool
  so_closed :: bool

definition lease_validateLocked :: "FullFlashSourceLease \<Rightarrow> unit res" where
  "lease_validateLocked s =
     (if so_closed s then Inl (Msg ''FFU source lease is closed'')
      else if \<not> so_sealed s \<or> \<not> so_lease s \<or> \<not> so_file s
      then Inl (Msg ''invalid FFU source-lease capability'')
      else validateFullFlashSourceLeaseEvidence (so_evidence s))"

text \<open>
  The environment of the live capabilities: the caller's context, the kernel lease, \<open>fstat\<close> of
  the source, the operations of \<open>fullFlashTargetOpenOps\<close> and closing the target.
\<close>

record 'w ffu_env =
  en_ctx_err :: "'w poll"
  en_lease_ctx_err :: "'w poll"
  en_lease_check :: "'w poll"
  en_source_stat :: "('w, FileStat) act"
  en_open_target :: "string \<Rightarrow> ('w, unit) act"
  en_close_target :: "'w poll"
  en_verify_target :: "u64 \<Rightarrow> u64 \<Rightarrow> 'w poll"
  en_revalidate :: "string \<Rightarrow> u64 \<Rightarrow> ('w, BlockDevice \<times> u64) act"
  en_geometry :: "string \<Rightarrow> ('w, u64 \<times> u64) act"
  en_source_outside :: "BlockDevice \<Rightarrow> 'w poll"

text \<open>\<open>sourcefile.Verify\<close> of the leased file.\<close>

definition verify_source :: "'w ffu_env \<Rightarrow> Identity \<Rightarrow> ('w, unit) act" where
  "verify_source env identity w =
     (case en_source_stat env w of (r, w1) \<Rightarrow> (Verify (Some r) identity, w1))"

definition lease_Evidence :: "FullFlashSourceLease option \<Rightarrow> FullFlashSourceLeaseEvidence res" where
  "lease_Evidence session_opt =
     (case session_opt of None \<Rightarrow> Inl (Msg ''FFU source lease is nil'') | Some s \<Rightarrow>
      bindE (lease_validateLocked s) (\<lambda>_. Inr (so_evidence s)))"

definition lease_Check :: "'w ffu_env \<Rightarrow> FullFlashSourceLease option \<Rightarrow> ('w, unit) act" where
  "lease_Check env session_opt =
     (case session_opt of None \<Rightarrow> pure_act (Inl (Msg ''FFU source lease is nil'')) | Some s \<Rightarrow>
      bind_act (pure_act (lease_validateLocked s)) (\<lambda>_.
      bind_act (try_call (en_lease_check env)) (\<lambda>_.
      verify_source env (so_identity s))))"

text \<open>\<open>Close\<close> returns the session after the call; \<open>release\<close> is the lease's own \<open>Close\<close>.\<close>

definition lease_Close ::
  "'w poll \<Rightarrow> FullFlashSourceLease option \<Rightarrow> 'w \<Rightarrow> (FullFlashSourceLease option \<times> go_error option) \<times> 'w" where
  "lease_Close release session_opt w =
     (case session_opt of None \<Rightarrow> ((None, None), w) | Some s \<Rightarrow>
      if so_closed s then ((Some s, None), w)
      else if \<not> so_sealed s \<or> \<not> so_lease s \<or> \<not> so_file s
      then ((Some s, Some (Msg ''invalid FFU source-lease capability'')), w)
      else (case release w of (err, w1) \<Rightarrow> ((Some (s\<lparr>so_closed := True\<rparr>), err), w1)))"

text \<open>
  Acquiring the lease: \<open>acquire\<close> and \<open>release\<close> are the kernel lease's operations and \<open>reproduce\<close>
  the complete authenticated decision run again under the lease
  (\<open>ResolveAuthenticatedSingleStoreV1FullFlash\<close>). The file is \<open>None\<close> when nil.
\<close>

definition new_lease_evidence ::
  "Identity \<Rightarrow> FullFlashTargetPreflightPlan \<Rightarrow> FullFlashValidationPlan \<Rightarrow> FullFlashSourceLeaseEvidence" where
  "new_lease_evidence source preflight validation =
     \<lparr> sl_Schema = 1,
       sl_Mode = ''ffu-authenticated-source-lease'',
       sl_SourceIdentity = source,
       sl_SourceFileSize = id_Size source,
       sl_FullFlashTargetPreflightSHA256 = pf_PlanSHA256 preflight,
       sl_FullFlashValidationPlanSHA256 = fv_PlanSHA256 validation,
       sl_RestoreTargetPlanSHA256 = fv_RestoreTargetPlanSHA256 validation,
       sl_AuthenticatedIntegritySHA256 = fv_AuthenticatedIntegrityPlanSHA256 validation,
       sl_TargetDevicePath = fv_DevicePath validation,
       sl_ExpectedTargetIdentity = fv_ExpectedTargetIdentity validation,
       sl_TargetSizeBytes = fv_TargetSizeBytes validation,
       sl_KernelReadLeaseRequired = True,
       sl_KernelReadLeaseHeld = True,
       sl_SourceIdentityRevalidated = True,
       sl_FullFlashValidationReproduced = True,
       sl_TargetPreflightBound = True,
       sl_FallbackAllowed = False,
       sl_TargetAccessPermitted = False,
       sl_ExecutionSupported = False,
       sl_PlanSHA256 = [],
       sl_Warnings = fullFlashSourceLeaseWarnings,
       sl_Limitations = fullFlashSourceLeaseLimitations \<rparr>"

definition under_lease ::
  "'w ffu_env \<Rightarrow> ('w, FullFlashValidationPlan) act \<Rightarrow> Identity \<Rightarrow> FullFlashTargetPreflightPlan
     \<Rightarrow> ('w, FullFlashSourceLease) act" where
  "under_lease env reproduce source preflight =
     bind_act (wrap_act (\<lambda>e. Errorf ''reproduce authenticated FFU under source lease: %w'' [FE e]) reproduce)
       (\<lambda>validation.
     if fv_PlanSHA256 validation \<noteq> pf_FullFlashValidationPlanSHA256 preflight
        \<or> fv_RestoreTargetPlanSHA256 validation \<noteq> pf_RestoreTargetPlanSHA256 preflight
        \<or> fv_AuthenticatedIntegrityPlanSHA256 validation \<noteq> pf_AuthenticatedIntegritySHA256 preflight
        \<or> fv_DevicePath validation \<noteq> pf_DevicePath preflight
        \<or> fv_ExpectedTargetIdentity validation \<noteq> pf_ExpectedTargetIdentity preflight
        \<or> fv_TargetSizeBytes validation \<noteq> pf_TargetSizeBytes preflight
     then pure_act (Inl (Msg ''leased FFU authentication does not reproduce the reviewed target preflight''))
     else
     bind_act (verify_source env source) (\<lambda>_.
     bind_act (try_call (en_lease_check env)) (\<lambda>_.
     let evidence = new_lease_evidence source preflight validation;
         evidence = evidence\<lparr>sl_PlanSHA256 := fullFlashSourceLeaseEvidenceDigest evidence\<rparr> in
     bind_act (pure_act (validateFullFlashSourceLeaseEvidence evidence)) (\<lambda>_.
     ret_act \<lparr> so_file = True, so_lease = True, so_identity = source, so_evidence = evidence,
               so_sealed = True, so_closed = False \<rparr>))))"

text \<open>A deferred clean-up that runs when the body fails.\<close>

definition cleanup_on_error :: "'w poll \<Rightarrow> ('w, 'a) act \<Rightarrow> ('w, 'a) act" where
  "cleanup_on_error close body w =
     (case body w of
        (Inr x, w1) \<Rightarrow> (Inr x, w1)
      | (Inl e, w1) \<Rightarrow> (Inl e, snd (close w1)))"

definition AcquireAuthenticatedFullFlashSourceLease ::
  "'w ffu_env option \<Rightarrow> bool \<Rightarrow> ('w, unit) act \<Rightarrow> 'w poll \<Rightarrow> ('w, FullFlashValidationPlan) act
     \<Rightarrow> Identity \<Rightarrow> FullFlashTargetPreflightPlan \<Rightarrow> ('w, FullFlashSourceLease) act" where
  "AcquireAuthenticatedFullFlashSourceLease env_opt file acquire release reproduce source preflight =
     (case env_opt of None \<Rightarrow> pure_act (Inl (Msg ''FFU source-lease context is nil'')) | Some env \<Rightarrow>
      bind_act (try_call (en_ctx_err env)) (\<lambda>_.
      if \<not> file then pure_act (Inl (Msg ''FFU source file is nil''))
      else
      bind_act (pure_act (mapE (\<lambda>e. Errorf ''validate expected FFU target preflight: %w'' [FE e])
        (validateFullFlashTargetPreflightPlan preflight))) (\<lambda>_.
      if sint (id_Size source) \<le> 0
      then pure_act (Inl (Msg ''FFU source identity has a non-positive size''))
      else
      bind_act (\<lambda>w. case en_source_stat env w of (r, w1) \<Rightarrow> (IdentityOf (Some r), w1)) (\<lambda>actual.
      if actual \<noteq> source
      then pure_act (Inl (Msg ''opened FFU source does not match the reviewed identity''))
      else
      bind_act (verify_source env source) (\<lambda>_.
      bind_act (wrap_act (\<lambda>e. Errorf ''acquire mandatory Linux FFU source read lease: %w'' [FE e]) acquire)
        (\<lambda>_. cleanup_on_error release (under_lease env reproduce source preflight)))))))"

section \<open>Exclusive target session\<close>

record FullFlashTargetSessionEvidence =
  te_Schema :: nat
  te_Mode :: string
  te_SourceLeaseEvidenceSHA256 :: string
  te_FullFlashTargetPreflightSHA256 :: string
  te_FullFlashValidationPlanSHA256 :: string
  te_RestoreTargetPlanSHA256 :: string
  te_AuthenticatedIntegritySHA256 :: string
  te_DevicePath :: string
  te_ExpectedTargetIdentity :: string
  te_RediscoveredTargetIdentity :: string
  te_TargetSizeBytes :: u64
  te_LogicalSectorSizeBytes :: u64
  te_PhysicalSectorSizeBytes :: u64
  te_StoreBlockSizeBytes :: u64
  te_ExpectedKernelDeviceID :: u64
  te_ObservedKernelDeviceID :: u64
  te_MajorMinor :: string
  te_MutationBytes :: u64
  te_SourceLeaseHeld :: bool
  te_TargetOpenedReadWrite :: bool
  te_KernelExclusiveOpen :: bool
  te_NoFollowOpen :: bool
  te_MountedTargetsAbsent :: bool
  te_GuardedUnmountPerformed :: bool
  te_TargetDescriptorVerified :: bool
  te_TargetPolicyRevalidated :: bool
  te_TargetGeometryRevalidated :: bool
  te_SourceOutsideTargetConfirmed :: bool
  te_FixedDiskOverrideAllowed :: bool
  te_TargetAccessAcquired :: bool
  te_MutationPermitted :: bool
  te_ExecutionSupported :: bool
  te_PlanSHA256 :: string
  te_Warnings :: "string list"
  te_Limitations :: "string list"

definition writeTargetSessionUint64 :: "u64 \<Rightarrow> bytes" where
  "writeTargetSessionUint64 v = writeSourceLeaseUint64 v"

definition writeTargetSessionString :: "string \<Rightarrow> bytes" where
  "writeTargetSessionString v = writeSourceLeaseString v"

definition writeTargetSessionBool :: "bool \<Rightarrow> bytes" where
  "writeTargetSessionBool v = writeSourceLeaseBool v"

definition target_session_preimage :: "FullFlashTargetSessionEvidence \<Rightarrow> bytes" where
  "target_session_preimage v =
     writeTargetSessionUint64 (of_nat (te_Schema v))
     @ concat (map writeTargetSessionString
         [te_Mode v, te_SourceLeaseEvidenceSHA256 v, te_FullFlashTargetPreflightSHA256 v,
          te_FullFlashValidationPlanSHA256 v, te_RestoreTargetPlanSHA256 v,
          te_AuthenticatedIntegritySHA256 v, te_DevicePath v, te_ExpectedTargetIdentity v,
          te_RediscoveredTargetIdentity v])
     @ concat (map writeTargetSessionUint64
         [te_TargetSizeBytes v, te_LogicalSectorSizeBytes v, te_PhysicalSectorSizeBytes v,
          te_StoreBlockSizeBytes v, te_ExpectedKernelDeviceID v, te_ObservedKernelDeviceID v])
     @ writeTargetSessionString (te_MajorMinor v)
     @ writeTargetSessionUint64 (te_MutationBytes v)
     @ concat (map writeTargetSessionBool
         [te_SourceLeaseHeld v, te_TargetOpenedReadWrite v, te_KernelExclusiveOpen v,
          te_NoFollowOpen v, te_MountedTargetsAbsent v, te_GuardedUnmountPerformed v,
          te_TargetDescriptorVerified v, te_TargetPolicyRevalidated v,
          te_TargetGeometryRevalidated v, te_SourceOutsideTargetConfirmed v,
          te_FixedDiskOverrideAllowed v, te_TargetAccessAcquired v, te_MutationPermitted v,
          te_ExecutionSupported v])
     @ concat (map writeTargetSessionString (te_Warnings v))
     @ concat (map writeTargetSessionString (te_Limitations v))"

definition fullFlashTargetSessionEvidenceDigest :: "FullFlashTargetSessionEvidence \<Rightarrow> string" where
  "fullFlashTargetSessionEvidenceDigest v = sha256_hex (target_session_preimage v)"

definition fullFlashTargetSessionWarnings :: "string list" where
  "fullFlashTargetSessionWarnings =
    [''The target is open read/write with Linux kernel exclusivity, but this capability exposes no mutation operation.'',
     ''The authenticated source lease and exclusive target descriptor must both remain healthy until final cleanup.'',
     ''A separate execution authorization and destructive transaction are still required before any byte may be written.'']"

definition fullFlashTargetSessionLimitations :: "string list" where
  "fullFlashTargetSessionLimitations =
    [''targets that require unmounting remain unsupported by this acquisition boundary'',
     ''the target descriptor is package-private and cannot be extracted by callers'',
     ''guarded unmount, execution authorization, write ordering, cancellation reporting, flush, readback, and result publication remain outside this boundary'',
     ''mutation and execution remain disabled'']"

definition validateFullFlashTargetSessionEvidence :: "FullFlashTargetSessionEvidence \<Rightarrow> unit res" where
  "validateFullFlashTargetSessionEvidence e =
     (if te_Schema e \<noteq> 1 \<or> te_Mode e \<noteq> ''ffu-exclusive-target-session'' \<or> \<not> te_SourceLeaseHeld e
         \<or> \<not> te_TargetOpenedReadWrite e \<or> \<not> te_KernelExclusiveOpen e \<or> \<not> te_NoFollowOpen e
         \<or> \<not> te_MountedTargetsAbsent e \<or> te_GuardedUnmountPerformed e \<or> \<not> te_TargetDescriptorVerified e
         \<or> \<not> te_TargetPolicyRevalidated e \<or> \<not> te_TargetGeometryRevalidated e
         \<or> \<not> te_SourceOutsideTargetConfirmed e \<or> te_FixedDiskOverrideAllowed e
         \<or> \<not> te_TargetAccessAcquired e \<or> te_MutationPermitted e \<or> te_ExecutionSupported e
      then Inl (Msg ''invalid FFU target-session evidence envelope'')
      else if \<not> canonical_device_path (te_DevicePath e)
      then Inl (Msg ''FFU target-session evidence contains an invalid target path'')
      else if \<not> list_all validFullFlashPlanSHA256
                [te_SourceLeaseEvidenceSHA256 e, te_FullFlashTargetPreflightSHA256 e,
                 te_FullFlashValidationPlanSHA256 e, te_RestoreTargetPlanSHA256 e,
                 te_AuthenticatedIntegritySHA256 e, te_ExpectedTargetIdentity e,
                 te_RediscoveredTargetIdentity e]
      then Inl (Msg ''FFU target-session evidence contains an invalid SHA-256 identifier'')
      else if te_ExpectedTargetIdentity e \<noteq> te_RediscoveredTargetIdentity e \<or> te_TargetSizeBytes e = 0
              \<or> te_MutationBytes e = 0 \<or> te_TargetSizeBytes e < te_MutationBytes e
              \<or> te_LogicalSectorSizeBytes e = 0 \<or> te_PhysicalSectorSizeBytes e = 0
              \<or> te_StoreBlockSizeBytes e = 0 \<or> te_ExpectedKernelDeviceID e = 0
              \<or> te_ExpectedKernelDeviceID e \<noteq> te_ObservedKernelDeviceID e
              \<or> trim_space (te_MajorMinor e) = []
      then Inl (Msg ''FFU target-session identity or geometry evidence is inconsistent'')
      else if te_StoreBlockSizeBytes e mod te_LogicalSectorSizeBytes e \<noteq> 0
              \<or> te_StoreBlockSizeBytes e mod te_PhysicalSectorSizeBytes e \<noteq> 0
      then Inl (Msg ''FFU target-session sector binding is inconsistent'')
      else if \<not> equalRestoreStrings (te_Warnings e) fullFlashTargetSessionWarnings
              \<or> \<not> equalRestoreStrings (te_Limitations e) fullFlashTargetSessionLimitations
              \<or> te_PlanSHA256 e \<noteq> fullFlashTargetSessionEvidenceDigest e
      then Inl (Msg ''FFU target-session evidence, warnings, or limitations were altered'')
      else Inr ())"

text \<open>\<open>ts_ops\<close>: every function of \<open>fullFlashTargetOpenOps\<close> is present.\<close>

record FullFlashTargetSession =
  ts_file :: bool
  ts_source :: "FullFlashSourceLease option"
  ts_preflight :: FullFlashTargetPreflightPlan
  ts_evidence :: FullFlashTargetSessionEvidence
  ts_ops :: bool
  ts_sealed :: bool
  ts_closed :: bool

definition validateFullFlashTargetOpenOps :: "bool \<Rightarrow> unit res" where
  "validateFullFlashTargetOpenOps complete =
     check complete (Msg ''FFU target-acquisition operations are incomplete'')"

definition session_validateLocked :: "FullFlashTargetSession \<Rightarrow> unit res" where
  "session_validateLocked s =
     (if ts_closed s then Inl (Msg ''FFU target session is closed'')
      else if \<not> ts_sealed s \<or> \<not> ts_file s \<or> ts_source s = None
      then Inl (Msg ''invalid FFU target-session capability'')
      else
      bindE (validateFullFlashTargetOpenOps (ts_ops s)) (\<lambda>_.
      validateFullFlashTargetSessionEvidence (ts_evidence s)))"

definition validateAcquiredFullFlashTargetSnapshot ::
  "'w ffu_env \<Rightarrow> FullFlashTargetPreflightPlan \<Rightarrow> BlockDevice \<Rightarrow> u64 \<Rightarrow> ('w, unit) act" where
  "validateAcquiredFullFlashTargetSnapshot env preflight d kernelID =
     (let i = bd_info d in
      if kernelID = 0 \<or> kernelID \<noteq> pf_KernelDeviceID preflight
      then pure_act (Inl (Msg ''FFU target kernel identity changed during exclusive acquisition''))
      else if dev_Path i \<noteq> pf_DevicePath preflight \<or> dev_Type i \<noteq> ''disk'' \<or> dev_ReadOnly i
              \<or> dev_Size i \<noteq> pf_TargetSizeBytes preflight
      then pure_act (Inl (Msg ''FFU target whole-disk metadata changed during exclusive acquisition''))
      else if IdentityToken d \<noteq> pf_ExpectedTargetIdentity preflight
      then pure_act (Inl (Msg ''FFU target identity changed during exclusive acquisition''))
      else
      bind_act (pure_act (collectFullFlashTargetMounts d)) (\<lambda>mounts.
      if length mounts \<noteq> 0
      then pure_act (Inl (Msg ''FFU target became mounted during exclusive acquisition''))
      else
      bind_act (en_geometry env (dev_Name i)) (\<lambda>(logical, physical).
      pure_act (check
        (logical = pf_LogicalSectorSizeBytes preflight \<and> physical = pf_PhysicalSectorSizeBytes preflight
         \<and> pf_StoreBlockSizeBytes preflight mod logical = 0 \<and> pf_StoreBlockSizeBytes preflight mod physical = 0)
        (Msg ''FFU target sector geometry changed during exclusive acquisition'')))))"

definition new_session_evidence ::
  "FullFlashSourceLeaseEvidence \<Rightarrow> FullFlashTargetPreflightPlan \<Rightarrow> BlockDevice \<Rightarrow> u64
     \<Rightarrow> FullFlashTargetSessionEvidence" where
  "new_session_evidence source preflight d kernelID =
     \<lparr> te_Schema = 1,
       te_Mode = ''ffu-exclusive-target-session'',
       te_SourceLeaseEvidenceSHA256 = sl_PlanSHA256 source,
       te_FullFlashTargetPreflightSHA256 = pf_PlanSHA256 preflight,
       te_FullFlashValidationPlanSHA256 = pf_FullFlashValidationPlanSHA256 preflight,
       te_RestoreTargetPlanSHA256 = pf_RestoreTargetPlanSHA256 preflight,
       te_AuthenticatedIntegritySHA256 = pf_AuthenticatedIntegritySHA256 preflight,
       te_DevicePath = pf_DevicePath preflight,
       te_ExpectedTargetIdentity = pf_ExpectedTargetIdentity preflight,
       te_RediscoveredTargetIdentity = IdentityToken d,
       te_TargetSizeBytes = pf_TargetSizeBytes preflight,
       te_LogicalSectorSizeBytes = pf_LogicalSectorSizeBytes preflight,
       te_PhysicalSectorSizeBytes = pf_PhysicalSectorSizeBytes preflight,
       te_StoreBlockSizeBytes = pf_StoreBlockSizeBytes preflight,
       te_ExpectedKernelDeviceID = pf_KernelDeviceID preflight,
       te_ObservedKernelDeviceID = kernelID,
       te_MajorMinor = dev_MajorMinor (bd_info d),
       te_MutationBytes = pf_MutationBytes preflight,
       te_SourceLeaseHeld = True,
       te_TargetOpenedReadWrite = True,
       te_KernelExclusiveOpen = True,
       te_NoFollowOpen = True,
       te_MountedTargetsAbsent = True,
       te_GuardedUnmountPerformed = False,
       te_TargetDescriptorVerified = True,
       te_TargetPolicyRevalidated = True,
       te_TargetGeometryRevalidated = True,
       te_SourceOutsideTargetConfirmed = True,
       te_FixedDiskOverrideAllowed = False,
       te_TargetAccessAcquired = True,
       te_MutationPermitted = False,
       te_ExecutionSupported = False,
       te_PlanSHA256 = [],
       te_Warnings = fullFlashTargetSessionWarnings,
       te_Limitations = fullFlashTargetSessionLimitations \<rparr>"

text \<open>Everything between opening the target and returning the session.\<close>

definition with_open_target ::
  "'w ffu_env \<Rightarrow> FullFlashSourceLease \<Rightarrow> FullFlashTargetPreflightPlan \<Rightarrow> bool
     \<Rightarrow> ('w, FullFlashTargetSession) act" where
  "with_open_target env lease preflight ops =
     (let verify = try_call (en_verify_target env (pf_KernelDeviceID preflight) (pf_TargetSizeBytes preflight)) in
      bind_act (wrap_act (\<lambda>e. Errorf ''verify opened FFU target: %w'' [FE e]) verify) (\<lambda>_.
      bind_act (wrap_act (\<lambda>e. Errorf ''revalidate opened FFU target: %w'' [FE e])
        (en_revalidate env (pf_DevicePath preflight) (pf_KernelDeviceID preflight))) (\<lambda>(d, kernelID).
      bind_act (validateAcquiredFullFlashTargetSnapshot env preflight d kernelID) (\<lambda>_.
      bind_act (wrap_act (\<lambda>e. Errorf ''confirm FFU source is outside the target: %w'' [FE e])
        (try_call (en_source_outside env d))) (\<lambda>_.
      bind_act (try_call (en_lease_check env)) (\<lambda>_.
      bind_act (verify_source env (so_identity lease)) (\<lambda>_.
      bind_act (wrap_act (\<lambda>e. Errorf ''reverify opened FFU target: %w'' [FE e]) verify) (\<lambda>_.
      let evidence = new_session_evidence (so_evidence lease) preflight d kernelID;
          evidence = evidence\<lparr>te_PlanSHA256 := fullFlashTargetSessionEvidenceDigest evidence\<rparr> in
      bind_act (pure_act (validateFullFlashTargetSessionEvidence evidence)) (\<lambda>_.
      ret_act \<lparr> ts_file = True, ts_source = Some lease, ts_preflight = preflight, ts_evidence = evidence,
                ts_ops = ops, ts_sealed = True, ts_closed = False \<rparr>)))))))))"

definition acquireExclusiveFullFlashTargetWithOps ::
  "'w ffu_env option \<Rightarrow> FullFlashSourceLease option \<Rightarrow> FullFlashTargetPreflightPlan \<Rightarrow> bool
     \<Rightarrow> ('w, FullFlashTargetSession) act" where
  "acquireExclusiveFullFlashTargetWithOps env_opt lease_opt preflight ops =
     (case env_opt of None \<Rightarrow> pure_act (Inl (Msg ''FFU target-acquisition context is nil'')) | Some env \<Rightarrow>
      bind_act (try_call (en_ctx_err env)) (\<lambda>_.
      case lease_opt of None \<Rightarrow> pure_act (Inl (Msg ''FFU authenticated source lease is nil'')) | Some lease \<Rightarrow>
      bind_act (pure_act (mapE (\<lambda>e. Errorf ''validate expected FFU target preflight: %w'' [FE e])
        (validateFullFlashTargetPreflightPlan preflight))) (\<lambda>_.
      if pf_UnmountRequired preflight \<or> length (pf_MountedTargets preflight) \<noteq> 0
      then pure_act (Inl (Msg ''FFU target must already be fully unmounted before exclusive acquisition''))
      else
      bind_act (pure_act (validateFullFlashTargetOpenOps ops)) (\<lambda>_.
      bind_act (pure_act (lease_validateLocked lease)) (\<lambda>_.
      bind_act (try_call (en_lease_ctx_err env)) (\<lambda>_.
      bind_act (try_call (en_lease_check env)) (\<lambda>_.
      bind_act (verify_source env (so_identity lease)) (\<lambda>_.
      let source = so_evidence lease in
      if sl_FullFlashTargetPreflightSHA256 source \<noteq> pf_PlanSHA256 preflight
         \<or> sl_FullFlashValidationPlanSHA256 source \<noteq> pf_FullFlashValidationPlanSHA256 preflight
         \<or> sl_RestoreTargetPlanSHA256 source \<noteq> pf_RestoreTargetPlanSHA256 preflight
         \<or> sl_AuthenticatedIntegritySHA256 source \<noteq> pf_AuthenticatedIntegritySHA256 preflight
         \<or> sl_TargetDevicePath source \<noteq> pf_DevicePath preflight
         \<or> sl_ExpectedTargetIdentity source \<noteq> pf_ExpectedTargetIdentity preflight
         \<or> sl_TargetSizeBytes source \<noteq> pf_TargetSizeBytes preflight
      then pure_act (Inl (Msg ''FFU source lease does not bind the reviewed target preflight''))
      else
      bind_act (wrap_act (\<lambda>e. Errorf ''open exclusive FFU target: %w'' [FE e])
        (en_open_target env (pf_DevicePath preflight))) (\<lambda>_.
      cleanup_on_error (en_close_target env) (with_open_target env lease preflight ops))))))))))"

definition session_Evidence :: "FullFlashTargetSession option \<Rightarrow> FullFlashTargetSessionEvidence res" where
  "session_Evidence session_opt =
     (case session_opt of None \<Rightarrow> Inl (Msg ''FFU target session is nil'') | Some s \<Rightarrow>
      bindE (session_validateLocked s) (\<lambda>_. Inr (ts_evidence s)))"

text \<open>
  \<open>Check\<close>: the source lease is non-nil once the session is valid; its own checks run twice, once
  in \<open>source.Check\<close> and once more after the target was revalidated.
\<close>

definition session_Check :: "'w ffu_env \<Rightarrow> FullFlashTargetSession option \<Rightarrow> ('w, unit) act" where
  "session_Check env session_opt =
     (case session_opt of None \<Rightarrow> pure_act (Inl (Msg ''FFU target session is nil'')) | Some s \<Rightarrow>
      bind_act (pure_act (session_validateLocked s)) (\<lambda>_.
      bind_act (lease_Check env (ts_source s)) (\<lambda>_.
      let preflight = ts_preflight s in
      bind_act (try_call (en_verify_target env (pf_KernelDeviceID preflight) (pf_TargetSizeBytes preflight))) (\<lambda>_.
      bind_act (en_revalidate env (pf_DevicePath preflight) (pf_KernelDeviceID preflight)) (\<lambda>(d, kernelID).
      bind_act (validateAcquiredFullFlashTargetSnapshot env preflight d kernelID) (\<lambda>_.
      bind_act (lease_Check env (ts_source s)) (\<lambda>_.
      try_call (en_source_outside env d))))))))"

definition session_Close ::
  "'w ffu_env \<Rightarrow> FullFlashTargetSession option \<Rightarrow> 'w \<Rightarrow> (FullFlashTargetSession option \<times> go_error option) \<times> 'w" where
  "session_Close env session_opt w =
     (case session_opt of None \<Rightarrow> ((None, None), w) | Some s \<Rightarrow>
      if ts_closed s then ((Some s, None), w)
      else if \<not> ts_sealed s \<or> \<not> ts_file s
      then ((Some s, Some (Msg ''invalid FFU target-session capability'')), w)
      else (case en_close_target env w of (err, w1) \<Rightarrow> ((Some (s\<lparr>ts_closed := True\<rparr>), err), w1)))"

section \<open>Destructive confirmation\<close>

record FullFlashConfirmationEvidence =
  ce_Schema :: nat
  ce_Mode :: string
  ce_TargetSessionEvidenceSHA256 :: string
  ce_SourceLeaseEvidenceSHA256 :: string
  ce_FullFlashTargetPreflightSHA256 :: string
  ce_FullFlashValidationPlanSHA256 :: string
  ce_RestoreTargetPlanSHA256 :: string
  ce_AuthenticatedIntegritySHA256 :: string
  ce_DevicePath :: string
  ce_ExpectedTargetIdentity :: string
  ce_TargetSizeBytes :: u64
  ce_MutationBytes :: u64
  ce_ExpectedConfirmationPhrase :: string
  ce_ConfirmationPhraseSHA256 :: string
  ce_ConfirmationExactMatch :: bool
  ce_ConfirmationConsumed :: bool
  ce_SourceLeaseHeld :: bool
  ce_TargetSessionHeld :: bool
  ce_TargetAccessAcquired :: bool
  ce_GuardedUnmountPerformed :: bool
  ce_MutationPermitted :: bool
  ce_ExecutionSupported :: bool
  ce_PlanSHA256 :: string
  ce_Warnings :: "string list"
  ce_Limitations :: "string list"

definition writeConfirmationUint64 :: "u64 \<Rightarrow> bytes" where
  "writeConfirmationUint64 v = writeTargetSessionUint64 v"

definition writeConfirmationString :: "string \<Rightarrow> bytes" where
  "writeConfirmationString v = writeTargetSessionString v"

definition writeConfirmationBool :: "bool \<Rightarrow> bytes" where
  "writeConfirmationBool v = writeTargetSessionBool v"

definition confirmation_preimage :: "FullFlashConfirmationEvidence \<Rightarrow> bytes" where
  "confirmation_preimage v =
     writeConfirmationUint64 (of_nat (ce_Schema v))
     @ concat (map writeConfirmationString
         [ce_Mode v, ce_TargetSessionEvidenceSHA256 v, ce_SourceLeaseEvidenceSHA256 v,
          ce_FullFlashTargetPreflightSHA256 v, ce_FullFlashValidationPlanSHA256 v,
          ce_RestoreTargetPlanSHA256 v, ce_AuthenticatedIntegritySHA256 v, ce_DevicePath v,
          ce_ExpectedTargetIdentity v])
     @ concat (map writeConfirmationUint64
         [ce_TargetSizeBytes v, ce_MutationBytes v])
     @ concat (map writeConfirmationString
         [ce_ExpectedConfirmationPhrase v, ce_ConfirmationPhraseSHA256 v])
     @ concat (map writeConfirmationBool
         [ce_ConfirmationExactMatch v, ce_ConfirmationConsumed v, ce_SourceLeaseHeld v,
          ce_TargetSessionHeld v, ce_TargetAccessAcquired v, ce_GuardedUnmountPerformed v,
          ce_MutationPermitted v, ce_ExecutionSupported v])
     @ concat (map writeConfirmationString (ce_Warnings v))
     @ concat (map writeConfirmationString (ce_Limitations v))"

definition fullFlashConfirmationEvidenceDigest :: "FullFlashConfirmationEvidence \<Rightarrow> string" where
  "fullFlashConfirmationEvidenceDigest v = sha256_hex (confirmation_preimage v)"

definition fullFlashConfirmationWarnings :: "string list" where
  "fullFlashConfirmationWarnings =
    [''The exact target path and byte capacity were confirmed while the authenticated source and exclusive target capabilities were healthy.'',
     ''Confirmation does not authorize mutation; a separate execution boundary must still define and qualify every destructive phase.'',
     ''Closing or invalidating the source lease or target session invalidates this confirmation capability.'']"

definition fullFlashConfirmationLimitations :: "string list" where
  "fullFlashConfirmationLimitations =
    [''confirmation is bound only to the currently held source and target capabilities'',
     ''guarded unmount remains outside this boundary and was not performed'',
     ''write ordering, mutation authorization, cancellation reporting, flush, readback, and result publication remain unresolved'',
     ''mutation and execution remain disabled'']"

definition maxFullFlashConfirmationBytes :: nat where "maxFullFlashConfirmationBytes = 4096"

definition expectedFullFlashConfirmationPhrase :: "string \<Rightarrow> u64 \<Rightarrow> string" where
  "expectedFullFlashConfirmationPhrase devicePath targetSize =
     ''RESTORE AUTHENTICATED FFU TO '' @ devicePath @ '' SIZE '' @ decimal targetSize @ '' BYTES''"

definition validateFullFlashConfirmationEvidence :: "FullFlashConfirmationEvidence \<Rightarrow> unit res" where
  "validateFullFlashConfirmationEvidence e =
     (if ce_Schema e \<noteq> 1 \<or> ce_Mode e \<noteq> ''ffu-exact-destructive-confirmation''
         \<or> \<not> ce_ConfirmationExactMatch e \<or> \<not> ce_ConfirmationConsumed e \<or> \<not> ce_SourceLeaseHeld e
         \<or> \<not> ce_TargetSessionHeld e \<or> \<not> ce_TargetAccessAcquired e \<or> ce_GuardedUnmountPerformed e
         \<or> ce_MutationPermitted e \<or> ce_ExecutionSupported e
      then Inl (Msg ''invalid FFU destructive-confirmation evidence envelope'')
      else if \<not> list_all validFullFlashPlanSHA256
                [ce_TargetSessionEvidenceSHA256 e, ce_SourceLeaseEvidenceSHA256 e,
                 ce_FullFlashTargetPreflightSHA256 e, ce_FullFlashValidationPlanSHA256 e,
                 ce_RestoreTargetPlanSHA256 e, ce_AuthenticatedIntegritySHA256 e,
                 ce_ExpectedTargetIdentity e, ce_ConfirmationPhraseSHA256 e]
      then Inl (Msg ''FFU destructive-confirmation evidence contains an invalid SHA-256 identifier'')
      else if trim_space (ce_DevicePath e) \<noteq> ce_DevicePath e \<or> \<not> has_prefix (ce_DevicePath e) ''/dev/''
              \<or> ce_TargetSizeBytes e = 0 \<or> ce_MutationBytes e = 0
              \<or> ce_TargetSizeBytes e < ce_MutationBytes e
      then Inl (Msg ''FFU destructive-confirmation target evidence is inconsistent'')
      else
      let expected = expectedFullFlashConfirmationPhrase (ce_DevicePath e) (ce_TargetSizeBytes e) in
      if ce_ExpectedConfirmationPhrase e \<noteq> expected
      then Inl (Msg ''FFU destructive-confirmation phrase evidence was altered'')
      else if ce_ConfirmationPhraseSHA256 e \<noteq> sha256_hex (string_bytes expected)
      then Inl (Msg ''FFU destructive-confirmation phrase digest was altered'')
      else if \<not> equalRestoreStrings (ce_Warnings e) fullFlashConfirmationWarnings
              \<or> \<not> equalRestoreStrings (ce_Limitations e) fullFlashConfirmationLimitations
              \<or> ce_PlanSHA256 e \<noteq> fullFlashConfirmationEvidenceDigest e
      then Inl (Msg ''FFU destructive-confirmation evidence, warnings, or limitations were altered'')
      else Inr ())"

record FullFlashDestructiveConfirmation =
  dc_target :: "FullFlashTargetSession option"
  dc_evidence :: FullFlashConfirmationEvidence
  dc_sealed :: bool

definition confirmation_validateLocked :: "FullFlashDestructiveConfirmation \<Rightarrow> unit res" where
  "confirmation_validateLocked c =
     (if \<not> dc_sealed c \<or> dc_target c = None
      then Inl (Msg ''invalid FFU destructive-confirmation capability'')
      else validateFullFlashConfirmationEvidence (dc_evidence c))"

definition new_confirmation_evidence ::
  "FullFlashTargetSessionEvidence \<Rightarrow> string \<Rightarrow> string \<Rightarrow> FullFlashConfirmationEvidence" where
  "new_confirmation_evidence after expected confirmation =
     \<lparr> ce_Schema = 1,
       ce_Mode = ''ffu-exact-destructive-confirmation'',
       ce_TargetSessionEvidenceSHA256 = te_PlanSHA256 after,
       ce_SourceLeaseEvidenceSHA256 = te_SourceLeaseEvidenceSHA256 after,
       ce_FullFlashTargetPreflightSHA256 = te_FullFlashTargetPreflightSHA256 after,
       ce_FullFlashValidationPlanSHA256 = te_FullFlashValidationPlanSHA256 after,
       ce_RestoreTargetPlanSHA256 = te_RestoreTargetPlanSHA256 after,
       ce_AuthenticatedIntegritySHA256 = te_AuthenticatedIntegritySHA256 after,
       ce_DevicePath = te_DevicePath after,
       ce_ExpectedTargetIdentity = te_ExpectedTargetIdentity after,
       ce_TargetSizeBytes = te_TargetSizeBytes after,
       ce_MutationBytes = te_MutationBytes after,
       ce_ExpectedConfirmationPhrase = expected,
       ce_ConfirmationPhraseSHA256 = sha256_hex (string_bytes confirmation),
       ce_ConfirmationExactMatch = True,
       ce_ConfirmationConsumed = True,
       ce_SourceLeaseHeld = True,
       ce_TargetSessionHeld = True,
       ce_TargetAccessAcquired = True,
       ce_GuardedUnmountPerformed = False,
       ce_MutationPermitted = False,
       ce_ExecutionSupported = False,
       ce_PlanSHA256 = [],
       ce_Warnings = fullFlashConfirmationWarnings,
       ce_Limitations = fullFlashConfirmationLimitations \<rparr>"

definition same_session :: "FullFlashTargetSessionEvidence \<Rightarrow> FullFlashTargetSessionEvidence \<Rightarrow> bool" where
  "same_session after before \<longleftrightarrow>
     te_PlanSHA256 after = te_PlanSHA256 before
     \<and> te_SourceLeaseEvidenceSHA256 after = te_SourceLeaseEvidenceSHA256 before
     \<and> te_DevicePath after = te_DevicePath before
     \<and> te_ExpectedTargetIdentity after = te_ExpectedTargetIdentity before
     \<and> te_TargetSizeBytes after = te_TargetSizeBytes before
     \<and> te_MutationBytes after = te_MutationBytes before"

definition ConfirmExclusiveFullFlashTarget ::
  "'w ffu_env option \<Rightarrow> FullFlashTargetSession option \<Rightarrow> string
     \<Rightarrow> ('w, FullFlashDestructiveConfirmation) act" where
  "ConfirmExclusiveFullFlashTarget env_opt session_opt confirmation =
     (case env_opt of None \<Rightarrow> pure_act (Inl (Msg ''FFU destructive-confirmation context is nil'')) | Some env \<Rightarrow>
      bind_act (try_call (en_ctx_err env)) (\<lambda>_.
      if session_opt = None then pure_act (Inl (Msg ''FFU exclusive target session is nil''))
      else if length confirmation = 0 \<or> maxFullFlashConfirmationBytes < length confirmation
      then pure_act (Inl (Msg ''FFU destructive confirmation has an invalid length''))
      else
      bind_act (wrap_act (\<lambda>e. Errorf ''check FFU capabilities before confirmation: %w'' [FE e])
        (session_Check env session_opt)) (\<lambda>_.
      bind_act (pure_act (session_Evidence session_opt)) (\<lambda>before.
      let expected = expectedFullFlashConfirmationPhrase (te_DevicePath before) (te_TargetSizeBytes before) in
      if length confirmation \<noteq> length expected \<or> confirmation \<noteq> expected
      then pure_act (Inl (Msg ''FFU destructive confirmation does not exactly match the reviewed target and capacity''))
      else
      bind_act (try_call (en_ctx_err env)) (\<lambda>_.
      bind_act (wrap_act (\<lambda>e. Errorf ''recheck FFU capabilities after confirmation: %w'' [FE e])
        (session_Check env session_opt)) (\<lambda>_.
      bind_act (pure_act (session_Evidence session_opt)) (\<lambda>after.
      if \<not> same_session after before
      then pure_act (Inl (Msg ''FFU target-session evidence changed while confirmation was evaluated''))
      else
      let evidence = new_confirmation_evidence after expected confirmation;
          evidence = evidence\<lparr>ce_PlanSHA256 := fullFlashConfirmationEvidenceDigest evidence\<rparr> in
      bind_act (pure_act (validateFullFlashConfirmationEvidence evidence)) (\<lambda>_.
      ret_act \<lparr> dc_target = session_opt, dc_evidence = evidence, dc_sealed = True \<rparr>))))))))"

definition confirmation_Evidence ::
  "FullFlashDestructiveConfirmation option \<Rightarrow> FullFlashConfirmationEvidence res" where
  "confirmation_Evidence c_opt =
     (case c_opt of None \<Rightarrow> Inl (Msg ''FFU destructive confirmation is nil'') | Some c \<Rightarrow>
      bindE (confirmation_validateLocked c) (\<lambda>_. Inr (dc_evidence c)))"

definition confirmation_Check ::
  "'w ffu_env \<Rightarrow> FullFlashDestructiveConfirmation option \<Rightarrow> ('w, unit) act" where
  "confirmation_Check env c_opt =
     (case c_opt of None \<Rightarrow> pure_act (Inl (Msg ''FFU destructive confirmation is nil'')) | Some c \<Rightarrow>
      bind_act (pure_act (confirmation_validateLocked c)) (\<lambda>_.
      bind_act (session_Check env (dc_target c)) (\<lambda>_.
      bind_act (pure_act (session_Evidence (dc_target c))) (\<lambda>te.
      let ce = dc_evidence c in
      pure_act (check
        (te_PlanSHA256 te = ce_TargetSessionEvidenceSHA256 ce
         \<and> te_SourceLeaseEvidenceSHA256 te = ce_SourceLeaseEvidenceSHA256 ce
         \<and> te_DevicePath te = ce_DevicePath ce
         \<and> te_ExpectedTargetIdentity te = ce_ExpectedTargetIdentity ce
         \<and> te_TargetSizeBytes te = ce_TargetSizeBytes ce
         \<and> te_MutationBytes te = ce_MutationBytes ce)
        (Msg ''FFU target session no longer matches destructive-confirmation evidence''))))))"

section \<open>Mutation authorization\<close>

record FullFlashMutationAuthorizationEvidence =
  ae_Schema :: nat
  ae_Mode :: string
  ae_ConfirmationEvidenceSHA256 :: string
  ae_TargetSessionEvidenceSHA256 :: string
  ae_SourceLeaseEvidenceSHA256 :: string
  ae_FullFlashTargetPreflightSHA256 :: string
  ae_WriteOrderPlanSHA256 :: string
  ae_FullFlashValidationPlanSHA256 :: string
  ae_RestoreTargetPlanSHA256 :: string
  ae_DescriptorPlanSHA256 :: string
  ae_AuthenticatedIntegritySHA256 :: string
  ae_CatalogSHA256 :: string
  ae_HashTableSHA256 :: string
  ae_DevicePath :: string
  ae_ExpectedTargetIdentity :: string
  ae_TargetSizeBytes :: u64
  ae_StoreBlockSizeBytes :: u64
  ae_OperationCount :: u64
  ae_MutationBytes :: u64
  ae_ConfirmationPhrase :: string
  ae_ConfirmationSatisfied :: bool
  ae_SourceLeaseHeld :: bool
  ae_TargetSessionHeld :: bool
  ae_TargetAccessAcquired :: bool
  ae_SinglePhaseWriteOrderResolved :: bool
  ae_StagedGPTProfileAllowed :: bool
  ae_GuardedUnmountPerformed :: bool
  ae_OneShotExecutionRequired :: bool
  ae_AuthorizationConsumed :: bool
  ae_MutationPermitted :: bool
  ae_ExecutionSupported :: bool
  ae_PlanSHA256 :: string
  ae_Warnings :: "string list"
  ae_Limitations :: "string list"

definition writeMutationAuthorizationUint64 :: "u64 \<Rightarrow> bytes" where
  "writeMutationAuthorizationUint64 v = writeConfirmationUint64 v"

definition writeMutationAuthorizationString :: "string \<Rightarrow> bytes" where
  "writeMutationAuthorizationString v = writeConfirmationString v"

definition writeMutationAuthorizationBool :: "bool \<Rightarrow> bytes" where
  "writeMutationAuthorizationBool v = writeConfirmationBool v"

definition mutation_authorization_preimage :: "FullFlashMutationAuthorizationEvidence \<Rightarrow> bytes" where
  "mutation_authorization_preimage v =
     writeMutationAuthorizationUint64 (of_nat (ae_Schema v))
     @ concat (map writeMutationAuthorizationString
         [ae_Mode v, ae_ConfirmationEvidenceSHA256 v, ae_TargetSessionEvidenceSHA256 v,
          ae_SourceLeaseEvidenceSHA256 v, ae_FullFlashTargetPreflightSHA256 v,
          ae_WriteOrderPlanSHA256 v, ae_FullFlashValidationPlanSHA256 v,
          ae_RestoreTargetPlanSHA256 v, ae_DescriptorPlanSHA256 v,
          ae_AuthenticatedIntegritySHA256 v, ae_CatalogSHA256 v, ae_HashTableSHA256 v,
          ae_DevicePath v, ae_ExpectedTargetIdentity v])
     @ concat (map writeMutationAuthorizationUint64
         [ae_TargetSizeBytes v, ae_StoreBlockSizeBytes v, ae_OperationCount v,
          ae_MutationBytes v])
     @ writeMutationAuthorizationString (ae_ConfirmationPhrase v)
     @ concat (map writeMutationAuthorizationBool
         [ae_ConfirmationSatisfied v, ae_SourceLeaseHeld v, ae_TargetSessionHeld v,
          ae_TargetAccessAcquired v, ae_SinglePhaseWriteOrderResolved v,
          ae_StagedGPTProfileAllowed v, ae_GuardedUnmountPerformed v,
          ae_OneShotExecutionRequired v, ae_AuthorizationConsumed v, ae_MutationPermitted v,
          ae_ExecutionSupported v])
     @ concat (map writeMutationAuthorizationString (ae_Warnings v))
     @ concat (map writeMutationAuthorizationString (ae_Limitations v))"

definition fullFlashMutationAuthorizationEvidenceDigest :: "FullFlashMutationAuthorizationEvidence \<Rightarrow> string" where
  "fullFlashMutationAuthorizationEvidenceDigest v = sha256_hex (mutation_authorization_preimage v)"

definition fullFlashMutationAuthorizationWarnings :: "string list" where
  "fullFlashMutationAuthorizationWarnings =
    [''This sealed capability authorizes mutation only for the exact confirmed target and freshly reproduced single-phase write order.'',
     ''Execution remains disabled; a later one-shot executor must recheck every live capability immediately before the first write.'',
     ''Once a future executor begins mutation, cancellation or failure may leave the target partially modified and must be reported explicitly.'',
     ''Software restoration cannot prove physical bootability or complete device health.'']"

definition fullFlashMutationAuthorizationLimitations :: "string list" where
  "fullFlashMutationAuthorizationLimitations =
    [''only the non-staged single-phase FFU profile is eligible'',
     ''the authorization exposes no source or target descriptor and no read, write, seek, sync, ioctl, unmount, or privilege method'',
     ''the authorization has not been consumed and performs no target mutation'',
     ''one-shot execution, cancellation result states, flush, readback, changed-media handling, and provider qualification remain separate gates'']"

definition validateFullFlashMutationAuthorizationEvidence ::
  "FullFlashMutationAuthorizationEvidence \<Rightarrow> unit res" where
  "validateFullFlashMutationAuthorizationEvidence e =
     (if ae_Schema e \<noteq> 1 \<or> ae_Mode e \<noteq> ''ffu-single-phase-mutation-authorization''
         \<or> \<not> ae_ConfirmationSatisfied e \<or> \<not> ae_SourceLeaseHeld e \<or> \<not> ae_TargetSessionHeld e
         \<or> \<not> ae_TargetAccessAcquired e \<or> \<not> ae_SinglePhaseWriteOrderResolved e
         \<or> ae_StagedGPTProfileAllowed e \<or> ae_GuardedUnmountPerformed e \<or> \<not> ae_OneShotExecutionRequired e
         \<or> ae_AuthorizationConsumed e \<or> \<not> ae_MutationPermitted e \<or> ae_ExecutionSupported e
      then Inl (Msg ''invalid FFU mutation-authorization evidence envelope'')
      else if \<not> list_all validFullFlashPlanSHA256
                [ae_ConfirmationEvidenceSHA256 e, ae_TargetSessionEvidenceSHA256 e,
                 ae_SourceLeaseEvidenceSHA256 e, ae_FullFlashTargetPreflightSHA256 e,
                 ae_WriteOrderPlanSHA256 e, ae_FullFlashValidationPlanSHA256 e,
                 ae_RestoreTargetPlanSHA256 e, ae_DescriptorPlanSHA256 e,
                 ae_AuthenticatedIntegritySHA256 e, ae_CatalogSHA256 e, ae_HashTableSHA256 e,
                 ae_ExpectedTargetIdentity e]
      then Inl (Msg ''FFU mutation-authorization evidence contains an invalid SHA-256 identifier'')
      else if \<not> canonical_device_path (ae_DevicePath e) \<or> ae_TargetSizeBytes e = 0
              \<or> ae_StoreBlockSizeBytes e = 0 \<or> ae_TargetSizeBytes e mod ae_StoreBlockSizeBytes e \<noteq> 0
              \<or> ae_OperationCount e = 0 \<or> ae_MutationBytes e = 0
              \<or> ae_TargetSizeBytes e < ae_MutationBytes e
      then Inl (Msg ''FFU mutation-authorization target, operation, or geometry evidence is inconsistent'')
      else if ae_ConfirmationPhrase e
                \<noteq> expectedFullFlashConfirmationPhrase (ae_DevicePath e) (ae_TargetSizeBytes e)
      then Inl (Msg ''FFU mutation-authorization confirmation phrase was altered'')
      else if \<not> equalRestoreStrings (ae_Warnings e) fullFlashMutationAuthorizationWarnings
              \<or> \<not> equalRestoreStrings (ae_Limitations e) fullFlashMutationAuthorizationLimitations
              \<or> ae_PlanSHA256 e \<noteq> fullFlashMutationAuthorizationEvidenceDigest e
      then Inl (Msg ''FFU mutation-authorization evidence, warnings, or limitations were altered'')
      else Inr ())"

record FullFlashMutationAuthorization =
  ma_confirmation :: "FullFlashDestructiveConfirmation option"
  ma_writeOrder :: FullFlashWriteOrderPlan
  ma_evidence :: FullFlashMutationAuthorizationEvidence
  ma_consumed :: bool
  ma_sealed :: bool

definition order_matches_evidence :: "FullFlashWriteOrderPlan \<Rightarrow> FullFlashMutationAuthorizationEvidence \<Rightarrow> bool" where
  "order_matches_evidence o1 e \<longleftrightarrow>
     wo_PlanSHA256 o1 = ae_WriteOrderPlanSHA256 e \<and> wo_OperationCount o1 = ae_OperationCount e
     \<and> wo_MutationBytes o1 = ae_MutationBytes e \<and> wo_DevicePath o1 = ae_DevicePath e
     \<and> wo_ExpectedTargetIdentity o1 = ae_ExpectedTargetIdentity e
     \<and> wo_TargetSizeBytes o1 = ae_TargetSizeBytes e
     \<and> wo_StoreBlockSizeBytes o1 = ae_StoreBlockSizeBytes e"

definition authorization_validateLocked :: "FullFlashMutationAuthorization \<Rightarrow> unit res" where
  "authorization_validateLocked a =
     (if ma_consumed a then Inl (Msg ''FFU mutation authorization has already been consumed'')
      else if \<not> ma_sealed a \<or> ma_confirmation a = None
      then Inl (Msg ''invalid FFU mutation-authorization capability'')
      else
      bindE (validateFullFlashWriteOrderPlan (ma_writeOrder a)) (\<lambda>_.
      if \<not> order_matches_evidence (ma_writeOrder a) (ma_evidence a)
      then Inl (Msg ''FFU mutation authorization no longer matches its write-order plan'')
      else validateFullFlashMutationAuthorizationEvidence (ma_evidence a)))"

definition correlateFullFlashMutationAuthorization ::
  "FullFlashConfirmationEvidence \<Rightarrow> FullFlashWriteOrderPlan \<Rightarrow> RestoreTargetPlan
     \<Rightarrow> FullFlashValidationPlan \<Rightarrow> unit res" where
  "correlateFullFlashMutationAuthorization c o1 target full =
     bindE (validateFullFlashConfirmationEvidence c) (\<lambda>_.
     bindE (validateFullFlashWriteOrderPlan o1) (\<lambda>_.
     if ce_FullFlashValidationPlanSHA256 c \<noteq> fv_PlanSHA256 full
        \<or> ce_RestoreTargetPlanSHA256 c \<noteq> rt_PlanSHA256 target
        \<or> ce_AuthenticatedIntegritySHA256 c \<noteq> fv_AuthenticatedIntegrityPlanSHA256 full
     then Inl (Msg ''FFU confirmation does not bind the supplied full-flash prerequisites'')
     else if ce_DevicePath c \<noteq> fv_DevicePath full \<or> ce_DevicePath c \<noteq> rt_DevicePath target
             \<or> ce_ExpectedTargetIdentity c \<noteq> fv_ExpectedTargetIdentity full
             \<or> ce_ExpectedTargetIdentity c \<noteq> rt_ExpectedTargetIdentity target
             \<or> ce_TargetSizeBytes c \<noteq> fv_TargetSizeBytes full
             \<or> ce_TargetSizeBytes c \<noteq> rt_TargetSizeBytes target
             \<or> ce_MutationBytes c \<noteq> fv_MutationBytes full \<or> ce_MutationBytes c \<noteq> rt_MutationBytes target
     then Inl (Msg ''FFU confirmation does not bind the supplied target and mutation scope'')
     else if ce_ExpectedConfirmationPhrase c \<noteq> fv_ConfirmationPhrase full
             \<or> wo_ConfirmationPhrase o1 \<noteq> fv_ConfirmationPhrase full
     then Inl (Msg ''FFU confirmation and write-order plans disagree on the exact destructive phrase'')
     else if wo_DescriptorPlanSHA256 o1 \<noteq> fv_DescriptorPlanSHA256 full
             \<or> wo_RestoreTargetPlanSHA256 o1 \<noteq> rt_PlanSHA256 target
             \<or> wo_FullFlashValidationPlanSHA256 o1 \<noteq> fv_PlanSHA256 full
             \<or> wo_AuthenticatedIntegrityPlanSHA256 o1 \<noteq> fv_AuthenticatedIntegrityPlanSHA256 full
             \<or> wo_CatalogSHA256 o1 \<noteq> fv_CatalogSHA256 full
             \<or> wo_HashTableSHA256 o1 \<noteq> fv_HashTableSHA256 full
     then Inl (Msg ''FFU reproduced write order does not bind the supplied authenticated plans'')
     else if wo_DevicePath o1 \<noteq> fv_DevicePath full
             \<or> wo_ExpectedTargetIdentity o1 \<noteq> fv_ExpectedTargetIdentity full
             \<or> wo_TargetSizeBytes o1 \<noteq> fv_TargetSizeBytes full
             \<or> wo_StoreBlockSizeBytes o1 \<noteq> fv_StoreBlockSizeBytes full
             \<or> wo_MutationBytes o1 \<noteq> fv_MutationBytes full \<or> \<not> wo_ConfirmationStillRequired o1
             \<or> wo_MutationPermitted o1 \<or> wo_ExecutionSupported o1
     then Inl (Msg ''FFU reproduced write order crossed or disagrees with the mutation-authorization boundary'')
     else Inr ()))"

definition same_confirmation :: "FullFlashConfirmationEvidence \<Rightarrow> FullFlashConfirmationEvidence \<Rightarrow> bool" where
  "same_confirmation after before \<longleftrightarrow>
     ce_PlanSHA256 after = ce_PlanSHA256 before
     \<and> ce_TargetSessionEvidenceSHA256 after = ce_TargetSessionEvidenceSHA256 before
     \<and> ce_SourceLeaseEvidenceSHA256 after = ce_SourceLeaseEvidenceSHA256 before
     \<and> ce_FullFlashTargetPreflightSHA256 after = ce_FullFlashTargetPreflightSHA256 before
     \<and> ce_FullFlashValidationPlanSHA256 after = ce_FullFlashValidationPlanSHA256 before
     \<and> ce_RestoreTargetPlanSHA256 after = ce_RestoreTargetPlanSHA256 before
     \<and> ce_AuthenticatedIntegritySHA256 after = ce_AuthenticatedIntegritySHA256 before
     \<and> ce_DevicePath after = ce_DevicePath before
     \<and> ce_ExpectedTargetIdentity after = ce_ExpectedTargetIdentity before
     \<and> ce_TargetSizeBytes after = ce_TargetSizeBytes before
     \<and> ce_MutationBytes after = ce_MutationBytes before
     \<and> ce_ExpectedConfirmationPhrase after = ce_ExpectedConfirmationPhrase before"

definition new_authorization_evidence ::
  "FullFlashConfirmationEvidence \<Rightarrow> FullFlashWriteOrderPlan \<Rightarrow> DescriptorPlan \<Rightarrow> RestoreTargetPlan
     \<Rightarrow> FullFlashValidationPlan \<Rightarrow> FullFlashMutationAuthorizationEvidence" where
  "new_authorization_evidence after writeOrder descriptor target full =
     \<lparr> ae_Schema = 1,
       ae_Mode = ''ffu-single-phase-mutation-authorization'',
       ae_ConfirmationEvidenceSHA256 = ce_PlanSHA256 after,
       ae_TargetSessionEvidenceSHA256 = ce_TargetSessionEvidenceSHA256 after,
       ae_SourceLeaseEvidenceSHA256 = ce_SourceLeaseEvidenceSHA256 after,
       ae_FullFlashTargetPreflightSHA256 = ce_FullFlashTargetPreflightSHA256 after,
       ae_WriteOrderPlanSHA256 = wo_PlanSHA256 writeOrder,
       ae_FullFlashValidationPlanSHA256 = fv_PlanSHA256 full,
       ae_RestoreTargetPlanSHA256 = rt_PlanSHA256 target,
       ae_DescriptorPlanSHA256 = dp_PlanSHA256 descriptor,
       ae_AuthenticatedIntegritySHA256 = fv_AuthenticatedIntegrityPlanSHA256 full,
       ae_CatalogSHA256 = fv_CatalogSHA256 full,
       ae_HashTableSHA256 = fv_HashTableSHA256 full,
       ae_DevicePath = fv_DevicePath full,
       ae_ExpectedTargetIdentity = fv_ExpectedTargetIdentity full,
       ae_TargetSizeBytes = fv_TargetSizeBytes full,
       ae_StoreBlockSizeBytes = fv_StoreBlockSizeBytes full,
       ae_OperationCount = wo_OperationCount writeOrder,
       ae_MutationBytes = wo_MutationBytes writeOrder,
       ae_ConfirmationPhrase = fv_ConfirmationPhrase full,
       ae_ConfirmationSatisfied = True,
       ae_SourceLeaseHeld = True,
       ae_TargetSessionHeld = True,
       ae_TargetAccessAcquired = True,
       ae_SinglePhaseWriteOrderResolved = True,
       ae_StagedGPTProfileAllowed = False,
       ae_GuardedUnmountPerformed = False,
       ae_OneShotExecutionRequired = True,
       ae_AuthorizationConsumed = False,
       ae_MutationPermitted = True,
       ae_ExecutionSupported = False,
       ae_PlanSHA256 = [],
       ae_Warnings = fullFlashMutationAuthorizationWarnings,
       ae_Limitations = fullFlashMutationAuthorizationLimitations \<rparr>"

definition AuthorizeSinglePhaseFullFlashMutation ::
  "'w ffu_env option \<Rightarrow> FullFlashDestructiveConfirmation option \<Rightarrow> DescriptorPlan \<Rightarrow> RestoreTargetPlan
     \<Rightarrow> FullFlashValidationPlan \<Rightarrow> ('w, FullFlashMutationAuthorization) act" where
  "AuthorizeSinglePhaseFullFlashMutation env_opt c_opt descriptor target full =
     (case env_opt of None \<Rightarrow> pure_act (Inl (Msg ''FFU mutation-authorization context is nil'')) | Some env \<Rightarrow>
      bind_act (try_call (en_ctx_err env)) (\<lambda>_.
      if c_opt = None then pure_act (Inl (Msg ''FFU destructive-confirmation capability is nil''))
      else
      bind_act (wrap_act (\<lambda>e. Errorf ''check FFU confirmation before mutation authorization: %w'' [FE e])
        (confirmation_Check env c_opt)) (\<lambda>_.
      bind_act (pure_act (confirmation_Evidence c_opt)) (\<lambda>before.
      bind_act (pure_act (PlanSinglePhaseFullFlashWriteOrder descriptor target full)) (\<lambda>writeOrder.
      bind_act (pure_act (correlateFullFlashMutationAuthorization before writeOrder target full)) (\<lambda>_.
      bind_act (try_call (en_ctx_err env)) (\<lambda>_.
      bind_act (wrap_act (\<lambda>e. Errorf ''recheck FFU confirmation after write-order reproduction: %w'' [FE e])
        (confirmation_Check env c_opt)) (\<lambda>_.
      bind_act (pure_act (confirmation_Evidence c_opt)) (\<lambda>after.
      if \<not> same_confirmation after before
      then pure_act (Inl (Msg ''FFU destructive-confirmation evidence changed during mutation authorization''))
      else
      bind_act (pure_act (correlateFullFlashMutationAuthorization after writeOrder target full)) (\<lambda>_.
      let evidence = new_authorization_evidence after writeOrder descriptor target full;
          evidence = evidence\<lparr>ae_PlanSHA256 := fullFlashMutationAuthorizationEvidenceDigest evidence\<rparr> in
      bind_act (pure_act (validateFullFlashMutationAuthorizationEvidence evidence)) (\<lambda>_.
      ret_act \<lparr> ma_confirmation = c_opt, ma_writeOrder = writeOrder, ma_evidence = evidence,
                ma_consumed = False, ma_sealed = True \<rparr>)))))))))))"

definition authorization_Evidence ::
  "FullFlashMutationAuthorization option \<Rightarrow> FullFlashMutationAuthorizationEvidence res" where
  "authorization_Evidence a_opt =
     (case a_opt of None \<Rightarrow> Inl (Msg ''FFU mutation authorization is nil'') | Some a \<Rightarrow>
      bindE (authorization_validateLocked a) (\<lambda>_. Inr (ma_evidence a)))"

definition confirmation_matches_authorization ::
  "FullFlashConfirmationEvidence \<Rightarrow> FullFlashMutationAuthorizationEvidence \<Rightarrow> bool" where
  "confirmation_matches_authorization c a \<longleftrightarrow>
     ce_PlanSHA256 c = ae_ConfirmationEvidenceSHA256 a
     \<and> ce_TargetSessionEvidenceSHA256 c = ae_TargetSessionEvidenceSHA256 a
     \<and> ce_SourceLeaseEvidenceSHA256 c = ae_SourceLeaseEvidenceSHA256 a
     \<and> ce_FullFlashTargetPreflightSHA256 c = ae_FullFlashTargetPreflightSHA256 a
     \<and> ce_FullFlashValidationPlanSHA256 c = ae_FullFlashValidationPlanSHA256 a
     \<and> ce_RestoreTargetPlanSHA256 c = ae_RestoreTargetPlanSHA256 a
     \<and> ce_AuthenticatedIntegritySHA256 c = ae_AuthenticatedIntegritySHA256 a
     \<and> ce_DevicePath c = ae_DevicePath a
     \<and> ce_ExpectedTargetIdentity c = ae_ExpectedTargetIdentity a
     \<and> ce_TargetSizeBytes c = ae_TargetSizeBytes a
     \<and> ce_MutationBytes c = ae_MutationBytes a
     \<and> ce_ExpectedConfirmationPhrase c = ae_ConfirmationPhrase a"

definition authorization_Check ::
  "'w ffu_env \<Rightarrow> FullFlashMutationAuthorization option \<Rightarrow> ('w, unit) act" where
  "authorization_Check env a_opt =
     (case a_opt of None \<Rightarrow> pure_act (Inl (Msg ''FFU mutation authorization is nil'')) | Some a \<Rightarrow>
      bind_act (pure_act (authorization_validateLocked a)) (\<lambda>_.
      bind_act (confirmation_Check env (ma_confirmation a)) (\<lambda>_.
      bind_act (pure_act (confirmation_Evidence (ma_confirmation a))) (\<lambda>ce.
      if \<not> confirmation_matches_authorization ce (ma_evidence a)
      then pure_act (Inl (Msg ''FFU destructive confirmation no longer matches mutation authorization''))
      else pure_act (validateFullFlashWriteOrderPlan (ma_writeOrder a))))))"

end
