(* ===== verification/FfuExec.thy ===== *)
theory FfuExec
  imports FfuSession
begin

text \<open>
  \<open>internal/ffu/restore_executor_linux.go\<close>: the one-shot executor. It consumes a mutation
  authorization, writes the sealed operations in declaration order, syncs, reads every extent
  back and reports the state it reached on every outcome. The file operations and the calls on
  the live capabilities are the fields of \<open>ffu_env\<close> and \<open>fullFlashExecutionOps\<close>, each of which
  may change the world \<open>'w\<close>.
\<close>

section \<open>Data\<close>

record FullFlashExecutionResult =
  xr_Schema :: nat
  xr_Mode :: string
  xr_Status :: string
  xr_MutationAuthorizationSHA256 :: string
  xr_ConfirmationEvidenceSHA256 :: string
  xr_TargetSessionEvidenceSHA256 :: string
  xr_SourceLeaseEvidenceSHA256 :: string
  xr_WriteOrderPlanSHA256 :: string
  xr_FullFlashValidationPlanSHA256 :: string
  xr_RestoreTargetPlanSHA256 :: string
  xr_DescriptorPlanSHA256 :: string
  xr_AuthenticatedIntegritySHA256 :: string
  xr_DevicePath :: string
  xr_ExpectedTargetIdentity :: string
  xr_TargetSizeBytes :: u64
  xr_OperationCountPlanned :: u64
  xr_OperationCountCompleted :: u64
  xr_MutationBytesPlanned :: u64
  xr_MutationBytesWritten :: u64
  xr_AuthorizationConsumed :: bool
  xr_SourceLeaseRevalidated :: bool
  xr_TargetSessionRevalidated :: bool
  xr_MutationStarted :: bool
  xr_WriteCompleted :: bool
  xr_SyncCompleted :: bool
  xr_ReadbackCompleted :: bool
  xr_CancellationObserved :: bool
  xr_CancelledBeforeMutation :: bool
  xr_CancelledAfterMutation :: bool
  xr_TargetMayBePartiallyModified :: bool
  xr_ExecutionSucceeded :: bool
  xr_ErrorObserved :: bool
  xr_ErrorStage :: string
  xr_ResultSHA256 :: string
  xr_Warnings :: "string list"
  xr_Limitations :: "string list"

record 'w fullFlashExecutionOps =
  xo_chunkSize :: int
  xo_readSource :: "'w read_at option"
  xo_writeTarget :: "'w write_at option"
  xo_syncTarget :: "'w poll option"
  xo_readTarget :: "'w read_at option"
  xo_beforeFirstWrite :: "('w \<Rightarrow> 'w) option"
  xo_afterWriteChunk :: "(u64 \<Rightarrow> 'w \<Rightarrow> 'w) option"

section \<open>Evidence\<close>

definition writeExecutionUint64 :: "u64 \<Rightarrow> bytes" where
  "writeExecutionUint64 v = writeMutationAuthorizationUint64 v"

definition writeExecutionString :: "string \<Rightarrow> bytes" where
  "writeExecutionString v = writeMutationAuthorizationString v"

definition writeExecutionBool :: "bool \<Rightarrow> bytes" where
  "writeExecutionBool v = writeMutationAuthorizationBool v"

definition execution_result_preimage :: "FullFlashExecutionResult \<Rightarrow> bytes" where
  "execution_result_preimage v =
     writeExecutionUint64 (of_nat (xr_Schema v))
     @ concat (map writeExecutionString
         [xr_Mode v, xr_Status v, xr_MutationAuthorizationSHA256 v,
          xr_ConfirmationEvidenceSHA256 v, xr_TargetSessionEvidenceSHA256 v,
          xr_SourceLeaseEvidenceSHA256 v, xr_WriteOrderPlanSHA256 v,
          xr_FullFlashValidationPlanSHA256 v, xr_RestoreTargetPlanSHA256 v,
          xr_DescriptorPlanSHA256 v, xr_AuthenticatedIntegritySHA256 v, xr_DevicePath v,
          xr_ExpectedTargetIdentity v])
     @ concat (map writeExecutionUint64
         [xr_TargetSizeBytes v, xr_OperationCountPlanned v, xr_OperationCountCompleted v,
          xr_MutationBytesPlanned v, xr_MutationBytesWritten v])
     @ concat (map writeExecutionBool
         [xr_AuthorizationConsumed v, xr_SourceLeaseRevalidated v,
          xr_TargetSessionRevalidated v, xr_MutationStarted v, xr_WriteCompleted v,
          xr_SyncCompleted v, xr_ReadbackCompleted v, xr_CancellationObserved v,
          xr_CancelledBeforeMutation v, xr_CancelledAfterMutation v,
          xr_TargetMayBePartiallyModified v, xr_ExecutionSucceeded v, xr_ErrorObserved v])
     @ writeExecutionString (xr_ErrorStage v)
     @ concat (map writeExecutionString (xr_Warnings v))
     @ concat (map writeExecutionString (xr_Limitations v))"

definition fullFlashExecutionResultDigest :: "FullFlashExecutionResult \<Rightarrow> string" where
  "fullFlashExecutionResultDigest v = sha256_hex (execution_result_preimage v)"

definition fullFlashExecutionWarnings :: "string list" where
  "fullFlashExecutionWarnings =
    [''This transaction destructively writes the exact confirmed target using only the sealed single-phase operation plan.'',
     ''Cancellation or failure after mutation begins may leave the target partially modified; the result reports that state explicitly.'',
     ''Success is reported only after target synchronization, complete extent readback, and final source and target revalidation.'',
     ''Software restoration cannot prove physical bootability or complete device health.'']"

definition fullFlashExecutionLimitations :: "string list" where
  "fullFlashExecutionLimitations =
    [''only the non-staged single-phase FFU profile is executable'',
     ''the executor uses already-held package-private descriptors and performs no path reopen, unmount, or privilege operation'',
     ''the sealed authorization is one-shot and cannot be reused after execution begins'',
     ''provider integration, administrator authentication, GTK exposure, real signed FFU evidence, and physical boot qualification remain separate gates'']"

section \<open>Reading and writing through short transfers\<close>

text \<open>The reply of a call is cut to the buffer, which the contracts promise it never exceeds.\<close>

function readFullFlashAt :: "'w read_at \<Rightarrow> nat \<Rightarrow> u64 \<Rightarrow> ('w, bytes) act" where
  "readFullFlashAt read n offset w =
     (if n = 0 then (Inr [], w)
      else case read n offset w of ((reply, err), w1) \<Rightarrow>
        let d = take n reply; rest = n - length d in
        (case err of
           Some e \<Rightarrow> if errors_is e EOF \<and> rest = 0 then (Inr d, w1) else (Inl e, w1)
         | None \<Rightarrow>
             if d = [] then (Inl ErrNoProgress, w1)
             else (case readFullFlashAt read rest (offset + of_nat (length d)) w1 of
                     (Inl e, w2) \<Rightarrow> (Inl e, w2)
                   | (Inr ds, w2) \<Rightarrow> (Inr (d @ ds), w2))))"
  by pat_completeness auto
termination
  by (relation "measure (\<lambda>(read, n, offset, w). n)") auto

declare readFullFlashAt.simps [simp del]

function writeFullFlashAt ::
  "'w write_at \<Rightarrow> bytes \<Rightarrow> u64 \<Rightarrow> 'w \<Rightarrow> (nat \<times> go_error option) \<times> 'w" where
  "writeFullFlashAt write buffer offset w =
     (if buffer = [] then ((0, None), w)
      else case write buffer offset w of ((reply, err), w1) \<Rightarrow>
        let n = min reply (length buffer) in
        (case err of
           Some e \<Rightarrow> ((n, Some e), w1)
         | None \<Rightarrow>
             if n = 0 then ((n, Some ErrNoProgress), w1)
             else (case writeFullFlashAt write (drop n buffer) (offset + of_nat n) w1 of
                     ((written, e), w2) \<Rightarrow> ((n + written, e), w2))))"
  by pat_completeness auto
termination
  by (relation "measure (\<lambda>(write, buffer, offset, w). length buffer)") auto

declare writeFullFlashAt.simps [simp del]

text \<open>An offset is an \<open>int64\<close>: the same 64 bits, non-negative when read as a signed number.\<close>

definition fullFlashExecutionOffset :: "u64 \<Rightarrow> u64 res" where
  "fullFlashExecutionOffset value =
     (if 2 ^ 63 - 1 < value
      then Inl (Msg ''FFU execution byte offset exceeds Linux signed offset range'')
      else Inr value)"

section \<open>The result on every outcome\<close>

definition zero_execution_result :: FullFlashExecutionResult where
  "zero_execution_result =
     \<lparr> xr_Schema = 0, xr_Mode = [], xr_Status = [], xr_MutationAuthorizationSHA256 = [],
       xr_ConfirmationEvidenceSHA256 = [], xr_TargetSessionEvidenceSHA256 = [],
       xr_SourceLeaseEvidenceSHA256 = [], xr_WriteOrderPlanSHA256 = [],
       xr_FullFlashValidationPlanSHA256 = [], xr_RestoreTargetPlanSHA256 = [],
       xr_DescriptorPlanSHA256 = [], xr_AuthenticatedIntegritySHA256 = [], xr_DevicePath = [],
       xr_ExpectedTargetIdentity = [], xr_TargetSizeBytes = 0, xr_OperationCountPlanned = 0,
       xr_OperationCountCompleted = 0, xr_MutationBytesPlanned = 0, xr_MutationBytesWritten = 0,
       xr_AuthorizationConsumed = False, xr_SourceLeaseRevalidated = False,
       xr_TargetSessionRevalidated = False, xr_MutationStarted = False, xr_WriteCompleted = False,
       xr_SyncCompleted = False, xr_ReadbackCompleted = False, xr_CancellationObserved = False,
       xr_CancelledBeforeMutation = False, xr_CancelledAfterMutation = False,
       xr_TargetMayBePartiallyModified = False, xr_ExecutionSucceeded = False,
       xr_ErrorObserved = False, xr_ErrorStage = [], xr_ResultSHA256 = [], xr_Warnings = [],
       xr_Limitations = [] \<rparr>"

definition newFullFlashExecutionResult :: "FullFlashMutationAuthorization \<Rightarrow> FullFlashExecutionResult" where
  "newFullFlashExecutionResult a =
     (let evidence = ma_evidence a; order = ma_writeOrder a in
      zero_execution_result\<lparr>
        xr_Schema := 1,
        xr_Mode := ''ffu-single-phase-execution'',
        xr_Status := ''not-started'',
        xr_MutationAuthorizationSHA256 := ae_PlanSHA256 evidence,
        xr_ConfirmationEvidenceSHA256 := ae_ConfirmationEvidenceSHA256 evidence,
        xr_TargetSessionEvidenceSHA256 := ae_TargetSessionEvidenceSHA256 evidence,
        xr_SourceLeaseEvidenceSHA256 := ae_SourceLeaseEvidenceSHA256 evidence,
        xr_WriteOrderPlanSHA256 := wo_PlanSHA256 order,
        xr_FullFlashValidationPlanSHA256 := ae_FullFlashValidationPlanSHA256 evidence,
        xr_RestoreTargetPlanSHA256 := ae_RestoreTargetPlanSHA256 evidence,
        xr_DescriptorPlanSHA256 := ae_DescriptorPlanSHA256 evidence,
        xr_AuthenticatedIntegritySHA256 := ae_AuthenticatedIntegritySHA256 evidence,
        xr_DevicePath := ae_DevicePath evidence,
        xr_ExpectedTargetIdentity := ae_ExpectedTargetIdentity evidence,
        xr_TargetSizeBytes := ae_TargetSizeBytes evidence,
        xr_OperationCountPlanned := wo_OperationCount order,
        xr_MutationBytesPlanned := wo_MutationBytes order,
        xr_AuthorizationConsumed := ma_consumed a,
        xr_Warnings := fullFlashExecutionWarnings,
        xr_Limitations := fullFlashExecutionLimitations \<rparr>)"

definition record_cancellation :: "go_error \<Rightarrow> FullFlashExecutionResult \<Rightarrow> FullFlashExecutionResult" where
  "record_cancellation err r =
     (if errors_is err Canceled \<or> errors_is err DeadlineExceeded
      then if xr_MutationStarted r
           then r\<lparr>xr_CancellationObserved := True, xr_CancelledAfterMutation := True\<rparr>
           else r\<lparr>xr_CancellationObserved := True, xr_CancelledBeforeMutation := True\<rparr>
      else r)"

definition record_status :: "FullFlashExecutionResult \<Rightarrow> FullFlashExecutionResult" where
  "record_status r =
     (if \<not> xr_MutationStarted r
      then r\<lparr>xr_Status := ''not-started'', xr_TargetMayBePartiallyModified := False\<rparr>
      else if xr_WriteCompleted r \<and> xr_SyncCompleted r
      then r\<lparr>xr_Status := ''written-unverified'', xr_TargetMayBePartiallyModified := True\<rparr>
      else r\<lparr>xr_Status := ''partially-modified'', xr_TargetMayBePartiallyModified := True\<rparr>)"

definition finalizeFullFlashExecutionFailure ::
  "FullFlashExecutionResult \<Rightarrow> string \<Rightarrow> go_error \<Rightarrow> FullFlashExecutionResult" where
  "finalizeFullFlashExecutionFailure result stage err =
     (let r = result\<lparr>xr_ExecutionSucceeded := False, xr_ErrorObserved := True, xr_ErrorStage := stage\<rparr>;
          r = record_status (record_cancellation err r) in
      r\<lparr>xr_ResultSHA256 := fullFlashExecutionResultDigest r\<rparr>)"

definition validateFullFlashExecutionResult :: "FullFlashExecutionResult \<Rightarrow> unit res" where
  "validateFullFlashExecutionResult r =
     (if xr_Schema r \<noteq> 1 \<or> xr_Mode r \<noteq> ''ffu-single-phase-execution'' \<or> xr_Status r \<noteq> ''verified''
         \<or> \<not> xr_AuthorizationConsumed r \<or> \<not> xr_SourceLeaseRevalidated r
         \<or> \<not> xr_TargetSessionRevalidated r \<or> \<not> xr_MutationStarted r \<or> \<not> xr_WriteCompleted r
         \<or> \<not> xr_SyncCompleted r \<or> \<not> xr_ReadbackCompleted r \<or> xr_CancellationObserved r
         \<or> xr_CancelledBeforeMutation r \<or> xr_CancelledAfterMutation r
         \<or> xr_TargetMayBePartiallyModified r \<or> \<not> xr_ExecutionSucceeded r \<or> xr_ErrorObserved r
         \<or> xr_ErrorStage r \<noteq> []
      then Inl (Msg ''invalid successful FFU execution result envelope'')
      else if \<not> list_all validFullFlashPlanSHA256
                [xr_MutationAuthorizationSHA256 r, xr_ConfirmationEvidenceSHA256 r,
                 xr_TargetSessionEvidenceSHA256 r, xr_SourceLeaseEvidenceSHA256 r,
                 xr_WriteOrderPlanSHA256 r, xr_FullFlashValidationPlanSHA256 r,
                 xr_RestoreTargetPlanSHA256 r, xr_DescriptorPlanSHA256 r,
                 xr_AuthenticatedIntegritySHA256 r, xr_ExpectedTargetIdentity r]
      then Inl (Msg ''successful FFU execution result contains an invalid SHA-256 identifier'')
      else if xr_DevicePath r = [] \<or> xr_TargetSizeBytes r = 0 \<or> xr_OperationCountPlanned r = 0
              \<or> xr_OperationCountCompleted r \<noteq> xr_OperationCountPlanned r
              \<or> xr_MutationBytesPlanned r = 0
              \<or> xr_MutationBytesWritten r \<noteq> xr_MutationBytesPlanned r
              \<or> xr_TargetSizeBytes r < xr_MutationBytesWritten r
              \<or> \<not> equalRestoreStrings (xr_Warnings r) fullFlashExecutionWarnings
              \<or> \<not> equalRestoreStrings (xr_Limitations r) fullFlashExecutionLimitations
              \<or> xr_ResultSHA256 r \<noteq> fullFlashExecutionResultDigest r
      then Inl (Msg ''successful FFU execution result accounting or evidence was altered'')
      else Inr ())"

section \<open>Steps of the transaction\<close>

text \<open>
  The transaction updates the result and the authorization as it goes; a step that fails names
  the stage it failed at, and the state it reached is kept. \<open>at_stage\<close> is a call whose error
  ends the transaction at a stage.
\<close>

record exec_state =
  es_result :: FullFlashExecutionResult
  es_consumed :: bool

type_synonym ('w, 'a) step = "exec_state \<Rightarrow> 'w \<Rightarrow> ((string \<times> go_error) + 'a) \<times> exec_state \<times> 'w"

definition at_stage :: "string \<Rightarrow> ('w, 'a) act \<Rightarrow> ('w, 'a) step" where
  "at_stage stage m s w =
     (case m w of (Inl e, w1) \<Rightarrow> (Inl (stage, e), s, w1) | (Inr x, w1) \<Rightarrow> (Inr x, s, w1))"

definition bind_step :: "('w, 'a) step \<Rightarrow> ('a \<Rightarrow> ('w, 'b) step) \<Rightarrow> ('w, 'b) step" where
  "bind_step m f s w =
     (case m s w of (Inl e, s1, w1) \<Rightarrow> (Inl e, s1, w1) | (Inr x, s1, w1) \<Rightarrow> f x s1 w1)"

definition update_step :: "(exec_state \<Rightarrow> exec_state) \<Rightarrow> ('w, unit) step" where
  "update_step f s w = (Inr (), f s, w)"

definition update_result :: "(FullFlashExecutionResult \<Rightarrow> FullFlashExecutionResult) \<Rightarrow> ('w, unit) step" where
  "update_result f = update_step (\<lambda>s. s\<lparr>es_result := f (es_result s)\<rparr>)"

definition done_step :: "('w, unit) step" where
  "done_step s w = (Inr (), s, w)"

text \<open>
  \<open>for remaining > 0\<close>: the body runs on the next chunk, of at most the size of the buffer, at
  the current source and target offset. The size is positive, the operations are validated
  before; the test keeps the recursion total.
\<close>

function for_chunks ::
  "(u64 \<Rightarrow> u64 \<Rightarrow> u64 \<Rightarrow> ('w, unit) step) \<Rightarrow> u64 \<Rightarrow> u64 \<Rightarrow> u64 \<Rightarrow> u64 \<Rightarrow> ('w, unit) step" where
  "for_chunks body buf remaining sourceOffset targetOffset =
     (if remaining = 0 \<or> buf = 0 then done_step
      else let chunk = (if remaining < buf then remaining else buf) in
        bind_step (body chunk sourceOffset targetOffset) (\<lambda>_.
        for_chunks body buf (remaining - chunk) (sourceOffset + chunk) (targetOffset + chunk)))"
  by pat_completeness auto
termination
  by (relation "measure (\<lambda>(body, buf, remaining, so, to). unat remaining)")
     (auto simp: word_less_nat_alt unat_sub_if_size unat_gt_0)

declare for_chunks.simps [simp del]

fun for_operations ::
  "(OrderedFullFlashWriteOperation \<Rightarrow> ('w, unit) step) \<Rightarrow> OrderedFullFlashWriteOperation list \<Rightarrow> ('w, unit) step" where
  "for_operations body [] = done_step"
| "for_operations body (op # ops) = bind_step (body op) (\<lambda>_. for_operations body ops)"

text \<open>One chunk of the write loop.\<close>

definition count_written :: "nat \<Rightarrow> FullFlashExecutionResult \<Rightarrow> FullFlashExecutionResult" where
  "count_written written r =
     (if 0 < written
      then r\<lparr>xr_MutationStarted := True, xr_MutationBytesWritten := xr_MutationBytesWritten r + of_nat written\<rparr>
      else r)"

definition write_payload :: "'w fullFlashExecutionOps \<Rightarrow> u64 \<Rightarrow> bytes \<Rightarrow> u64 \<Rightarrow> ('w, unit) step" where
  "write_payload ops chunk payload targetPosition s w =
     (case writeFullFlashAt (the (xo_writeTarget ops)) payload targetPosition w of ((written, err), w1) \<Rightarrow>
        let s1 = s\<lparr>es_result := count_written written (es_result s)\<rparr>;
            w2 = (case xo_afterWriteChunk ops of
                    Some hook \<Rightarrow> if 0 < written then hook (xr_MutationBytesWritten (es_result s1)) w1 else w1
                  | None \<Rightarrow> w1) in
        (case err of
           Some e \<Rightarrow> (Inl (''target-write'', e), s1, w2)
         | None \<Rightarrow> if of_nat written \<noteq> chunk then (Inl (''target-write'', ErrShortWrite), s1, w2)
                   else (Inr (), s1, w2)))"

definition write_chunk ::
  "'w ffu_env \<Rightarrow> 'w fullFlashExecutionOps \<Rightarrow> u64 \<Rightarrow> u64 \<Rightarrow> u64 \<Rightarrow> ('w, unit) step" where
  "write_chunk env ops chunk sourceOffset targetOffset =
     bind_step (at_stage ''write-context'' (try_call (en_ctx_err env))) (\<lambda>_.
     bind_step (at_stage ''write-source-lease'' (try_call (en_lease_check env))) (\<lambda>_.
     bind_step (at_stage ''source-offset'' (pure_act (fullFlashExecutionOffset sourceOffset))) (\<lambda>sourcePosition.
     bind_step (at_stage ''target-offset'' (pure_act (fullFlashExecutionOffset targetOffset))) (\<lambda>targetPosition.
     bind_step (at_stage ''source-read''
       (readFullFlashAt (the (xo_readSource ops)) (unat chunk) sourcePosition)) (\<lambda>payload.
     write_payload ops chunk payload targetPosition)))))"

definition write_operation ::
  "'w ffu_env \<Rightarrow> 'w fullFlashExecutionOps \<Rightarrow> OrderedFullFlashWriteOperation \<Rightarrow> ('w, unit) step" where
  "write_operation env ops operation =
     bind_step (for_chunks (write_chunk env ops) (word_of_int (xo_chunkSize ops))
         (op_PayloadLength operation) (op_PayloadOffset operation) (op_TargetOffset operation)) (\<lambda>_.
     update_result (\<lambda>r. r\<lparr>xr_OperationCountCompleted := xr_OperationCountCompleted r + 1\<rparr>))"

text \<open>One chunk of the readback loop.\<close>

definition readback_chunk ::
  "'w ffu_env \<Rightarrow> 'w fullFlashExecutionOps \<Rightarrow> u64 \<Rightarrow> u64 \<Rightarrow> u64 \<Rightarrow> ('w, unit) step" where
  "readback_chunk env ops chunk sourceOffset targetOffset =
     bind_step (at_stage ''readback-context'' (try_call (en_ctx_err env))) (\<lambda>_.
     bind_step (at_stage ''readback-source-lease'' (try_call (en_lease_check env))) (\<lambda>_.
     bind_step (at_stage ''readback-source-offset'' (pure_act (fullFlashExecutionOffset sourceOffset))) (\<lambda>sourcePosition.
     bind_step (at_stage ''readback-target-offset'' (pure_act (fullFlashExecutionOffset targetOffset))) (\<lambda>targetPosition.
     bind_step (at_stage ''readback-source-read''
       (readFullFlashAt (the (xo_readSource ops)) (unat chunk) sourcePosition)) (\<lambda>expected.
     bind_step (at_stage ''readback-target-read''
       (readFullFlashAt (the (xo_readTarget ops)) (unat chunk) targetPosition)) (\<lambda>actual.
     at_stage ''readback-mismatch'' (pure_act (check (expected = actual)
       (Msg ''FFU target readback does not match the authenticated source payload'')))))))))"

definition readback_operation ::
  "'w ffu_env \<Rightarrow> 'w fullFlashExecutionOps \<Rightarrow> OrderedFullFlashWriteOperation \<Rightarrow> ('w, unit) step" where
  "readback_operation env ops operation =
     for_chunks (readback_chunk env ops) (word_of_int (xo_chunkSize ops))
       (op_PayloadLength operation) (op_PayloadOffset operation) (op_TargetOffset operation)"

section \<open>The executor\<close>

definition validateFullFlashExecutionOps :: "'w fullFlashExecutionOps \<Rightarrow> unit res" where
  "validateFullFlashExecutionOps ops =
     (if xo_chunkSize ops \<le> 0 \<or> 64 * 1024 * 1024 < xo_chunkSize ops \<or> xo_readSource ops = None
         \<or> xo_writeTarget ops = None \<or> xo_syncTarget ops = None \<or> xo_readTarget ops = None
      then Inl (Msg ''FFU execution operations are incomplete or invalid'')
      else Inr ())"

definition revalidateFullFlashExecutionLocked ::
  "'w ffu_env \<Rightarrow> FullFlashTargetSession \<Rightarrow> FullFlashSourceLease \<Rightarrow> ('w, unit) act" where
  "revalidateFullFlashExecutionLocked env target source =
     (let preflight = ts_preflight target in
      bind_act (pure_act (session_validateLocked target)) (\<lambda>_.
      bind_act (pure_act (lease_validateLocked source)) (\<lambda>_.
      bind_act (try_call (en_lease_check env)) (\<lambda>_.
      bind_act (verify_source env (so_identity source)) (\<lambda>_.
      bind_act (try_call (en_verify_target env (pf_KernelDeviceID preflight) (pf_TargetSizeBytes preflight))) (\<lambda>_.
      bind_act (en_revalidate env (pf_DevicePath preflight) (pf_KernelDeviceID preflight)) (\<lambda>(d, kernelID).
      bind_act (validateAcquiredFullFlashTargetSnapshot env preflight d kernelID) (\<lambda>_.
      try_call (en_source_outside env d)))))))))"

definition confirmation_binds ::
  "FullFlashConfirmationEvidence \<Rightarrow> FullFlashMutationAuthorizationEvidence \<Rightarrow> bool" where
  "confirmation_binds c a \<longleftrightarrow>
     ce_PlanSHA256 c = ae_ConfirmationEvidenceSHA256 a
     \<and> ce_TargetSessionEvidenceSHA256 c = ae_TargetSessionEvidenceSHA256 a
     \<and> ce_SourceLeaseEvidenceSHA256 c = ae_SourceLeaseEvidenceSHA256 a
     \<and> ce_FullFlashValidationPlanSHA256 c = ae_FullFlashValidationPlanSHA256 a
     \<and> ce_RestoreTargetPlanSHA256 c = ae_RestoreTargetPlanSHA256 a
     \<and> ce_AuthenticatedIntegritySHA256 c = ae_AuthenticatedIntegritySHA256 a
     \<and> ce_DevicePath c = ae_DevicePath a
     \<and> ce_ExpectedTargetIdentity c = ae_ExpectedTargetIdentity a
     \<and> ce_TargetSizeBytes c = ae_TargetSizeBytes a
     \<and> ce_MutationBytes c = ae_MutationBytes a
     \<and> ce_ExpectedConfirmationPhrase c = ae_ConfirmationPhrase a"

definition target_binds ::
  "FullFlashTargetSessionEvidence \<Rightarrow> FullFlashMutationAuthorizationEvidence \<Rightarrow> bool" where
  "target_binds t a \<longleftrightarrow>
     te_PlanSHA256 t = ae_TargetSessionEvidenceSHA256 a
     \<and> te_SourceLeaseEvidenceSHA256 t = ae_SourceLeaseEvidenceSHA256 a
     \<and> te_FullFlashValidationPlanSHA256 t = ae_FullFlashValidationPlanSHA256 a
     \<and> te_RestoreTargetPlanSHA256 t = ae_RestoreTargetPlanSHA256 a
     \<and> te_AuthenticatedIntegritySHA256 t = ae_AuthenticatedIntegritySHA256 a
     \<and> te_DevicePath t = ae_DevicePath a
     \<and> te_ExpectedTargetIdentity t = ae_ExpectedTargetIdentity a
     \<and> te_TargetSizeBytes t = ae_TargetSizeBytes a
     \<and> te_MutationBytes t = ae_MutationBytes a"

definition source_binds ::
  "FullFlashSourceLeaseEvidence \<Rightarrow> FullFlashMutationAuthorizationEvidence \<Rightarrow> bool" where
  "source_binds s a \<longleftrightarrow>
     sl_PlanSHA256 s = ae_SourceLeaseEvidenceSHA256 a
     \<and> sl_FullFlashValidationPlanSHA256 s = ae_FullFlashValidationPlanSHA256 a
     \<and> sl_RestoreTargetPlanSHA256 s = ae_RestoreTargetPlanSHA256 a
     \<and> sl_AuthenticatedIntegritySHA256 s = ae_AuthenticatedIntegritySHA256 a
     \<and> sl_TargetDevicePath s = ae_DevicePath a
     \<and> sl_ExpectedTargetIdentity s = ae_ExpectedTargetIdentity a
     \<and> sl_TargetSizeBytes s = ae_TargetSizeBytes a"

text \<open>A cancelled lease context is reported as the error of the lease check, if that has one.\<close>

definition lease_context_alive :: "'w ffu_env \<Rightarrow> ('w, unit) act" where
  "lease_context_alive env w =
     (case en_lease_ctx_err env w of
        (None, w1) \<Rightarrow> (Inr (), w1)
      | (Some leaseErr, w1) \<Rightarrow>
          (case en_lease_check env w1 of
             (Some e, w2) \<Rightarrow> (Inl e, w2)
           | (None, w2) \<Rightarrow> (Inl leaseErr, w2)))"

text \<open>Everything up to the last check before the first write.\<close>

definition before_mutation ::
  "'w ffu_env \<Rightarrow> 'w fullFlashExecutionOps \<Rightarrow> FullFlashMutationAuthorization \<Rightarrow> ('w, unit) step" where
  "before_mutation env ops a =
     bind_step (at_stage ''authorization'' (pure_act (authorization_validateLocked a))) (\<lambda>_.
     bind_step (at_stage ''preflight-context'' (try_call (en_ctx_err env))) (\<lambda>_.
     let confirmation = the (ma_confirmation a) in
     bind_step (at_stage ''confirmation'' (pure_act (confirmation_validateLocked confirmation))) (\<lambda>_.
     bind_step (at_stage ''confirmation-binding'' (pure_act (check
       (confirmation_binds (dc_evidence confirmation) (ma_evidence a))
       (Msg ''FFU confirmation no longer matches mutation authorization'')))) (\<lambda>_.
     let target = the (dc_target confirmation) in
     bind_step (at_stage ''target-session'' (pure_act (session_validateLocked target))) (\<lambda>_.
     bind_step (at_stage ''target-binding'' (pure_act (check
       (target_binds (ts_evidence target) (ma_evidence a))
       (Msg ''FFU target session no longer matches mutation authorization'')))) (\<lambda>_.
     let source = the (ts_source target) in
     bind_step (at_stage ''source-lease'' (pure_act (lease_validateLocked source))) (\<lambda>_.
     bind_step (at_stage ''source-binding'' (pure_act (check
       (source_binds (so_evidence source) (ma_evidence a))
       (Msg ''FFU source lease no longer matches mutation authorization'')))) (\<lambda>_.
     bind_step (at_stage ''live-revalidation'' (revalidateFullFlashExecutionLocked env target source)) (\<lambda>_.
     bind_step (update_result (\<lambda>r. r\<lparr>xr_SourceLeaseRevalidated := True, xr_TargetSessionRevalidated := True\<rparr>)) (\<lambda>_.
     bind_step (at_stage ''pre-mutation-context'' (try_call (en_ctx_err env))) (\<lambda>_.
     bind_step (at_stage ''pre-mutation-source-lease'' (lease_context_alive env)) (\<lambda>_.
     bind_step (at_stage ''before-first-write'' (\<lambda>w. (Inr (),
       case xo_beforeFirstWrite ops of Some hook \<Rightarrow> hook w | None \<Rightarrow> w))) (\<lambda>_.
     bind_step (at_stage ''pre-first-write-context'' (try_call (en_ctx_err env))) (\<lambda>_.
     bind_step (at_stage ''pre-first-write-source-lease'' (try_call (en_lease_check env))) (\<lambda>_.
     at_stage ''pre-first-write-source-identity'' (verify_source env (so_identity source)))))))))))))))))"

definition mutation ::
  "'w ffu_env \<Rightarrow> 'w fullFlashExecutionOps \<Rightarrow> FullFlashMutationAuthorization \<Rightarrow> ('w, unit) step" where
  "mutation env ops a =
     bind_step (update_step (\<lambda>s. s\<lparr>es_consumed := True,
       es_result := (es_result s)\<lparr>xr_AuthorizationConsumed := True\<rparr>\<rparr>)) (\<lambda>_.
     for_operations (write_operation env ops) (wo_Operations (ma_writeOrder a)))"

definition write_accounting :: "('w, unit) step" where
  "write_accounting s w =
     (let r = es_result s in
      if xr_OperationCountCompleted r \<noteq> xr_OperationCountPlanned r
         \<or> xr_MutationBytesWritten r \<noteq> xr_MutationBytesPlanned r
      then (Inl (''write-accounting'',
              Msg ''FFU execution completed with inconsistent operation or byte accounting''), s, w)
      else (Inr (), s, w))"

definition durability ::
  "'w ffu_env \<Rightarrow> 'w fullFlashExecutionOps \<Rightarrow> FullFlashTargetSession \<Rightarrow> FullFlashSourceLease \<Rightarrow> ('w, unit) step" where
  "durability env ops target source =
     bind_step write_accounting (\<lambda>_.
     bind_step (update_result (\<lambda>r. r\<lparr>xr_WriteCompleted := True\<rparr>)) (\<lambda>_.
     bind_step (at_stage ''target-sync'' (try_call (the (xo_syncTarget ops)))) (\<lambda>_.
     bind_step (update_result (\<lambda>r. r\<lparr>xr_SyncCompleted := True\<rparr>)) (\<lambda>_.
     at_stage ''post-write-revalidation'' (revalidateFullFlashExecutionLocked env target source)))))"

definition readback ::
  "'w ffu_env \<Rightarrow> 'w fullFlashExecutionOps \<Rightarrow> FullFlashMutationAuthorization \<Rightarrow> FullFlashTargetSession
     \<Rightarrow> FullFlashSourceLease \<Rightarrow> ('w, unit) step" where
  "readback env ops a target source =
     bind_step (for_operations (readback_operation env ops) (wo_Operations (ma_writeOrder a))) (\<lambda>_.
     at_stage ''final-revalidation'' (revalidateFullFlashExecutionLocked env target source))"

definition transaction ::
  "'w ffu_env \<Rightarrow> 'w fullFlashExecutionOps \<Rightarrow> FullFlashMutationAuthorization \<Rightarrow> ('w, unit) step" where
  "transaction env ops a =
     bind_step (before_mutation env ops a) (\<lambda>_.
     bind_step (mutation env ops a) (\<lambda>_.
     let target = the (dc_target (the (ma_confirmation a))); source = the (ts_source target) in
     bind_step (durability env ops target source) (\<lambda>_.
     readback env ops a target source)))"

definition verified_result :: "FullFlashExecutionResult \<Rightarrow> FullFlashExecutionResult" where
  "verified_result r =
     (let r = r\<lparr>xr_ReadbackCompleted := True, xr_Status := ''verified'', xr_ExecutionSucceeded := True,
                xr_ErrorObserved := False, xr_ErrorStage := [], xr_TargetMayBePartiallyModified := False\<rparr> in
      r\<lparr>xr_ResultSHA256 := fullFlashExecutionResultDigest r\<rparr>)"

text \<open>The result, the error, the authorization after the call and the world after it.\<close>

definition executeAuthorizedSinglePhaseFullFlashWithOps ::
  "'w ffu_env option \<Rightarrow> FullFlashMutationAuthorization option \<Rightarrow> 'w fullFlashExecutionOps \<Rightarrow> 'w
     \<Rightarrow> (FullFlashExecutionResult \<times> go_error option) \<times> FullFlashMutationAuthorization option \<times> 'w" where
  "executeAuthorizedSinglePhaseFullFlashWithOps env_opt a_opt ops w =
     (let refuse = (\<lambda>stage e. ((finalizeFullFlashExecutionFailure zero_execution_result stage e, Some e), a_opt, w)) in
      case env_opt of None \<Rightarrow> refuse ''context'' (Msg ''FFU execution context is nil'') | Some env \<Rightarrow>
      case a_opt of None \<Rightarrow> refuse ''authorization'' (Msg ''FFU mutation authorization is nil'') | Some a \<Rightarrow>
      case validateFullFlashExecutionOps ops of Inl e \<Rightarrow> refuse ''operations'' e | Inr _ \<Rightarrow>
      case transaction env ops a
             \<lparr> es_result = newFullFlashExecutionResult a, es_consumed = ma_consumed a \<rparr> w of
        (outcome, s, w1) \<Rightarrow>
          ((case outcome of
              Inl (stage, e) \<Rightarrow> (finalizeFullFlashExecutionFailure (es_result s) stage e, Some e)
            | Inr _ \<Rightarrow>
                let r = verified_result (es_result s) in
                (r, case validateFullFlashExecutionResult r of Inl e \<Rightarrow> Some e | Inr _ \<Rightarrow> None)),
           Some (a\<lparr>ma_consumed := es_consumed s\<rparr>), w1))"

text \<open>The production operations: chunks of 4 MiB and no hooks.\<close>

definition defaultFullFlashExecutionOps ::
  "'w read_at \<Rightarrow> 'w write_at \<Rightarrow> 'w poll \<Rightarrow> 'w read_at \<Rightarrow> 'w fullFlashExecutionOps" where
  "defaultFullFlashExecutionOps readSource writeTarget syncTarget readTarget =
     \<lparr> xo_chunkSize = 4 * 1024 * 1024, xo_readSource = Some readSource, xo_writeTarget = Some writeTarget,
       xo_syncTarget = Some syncTarget, xo_readTarget = Some readTarget,
       xo_beforeFirstWrite = None, xo_afterWriteChunk = None \<rparr>"

definition ExecuteAuthorizedSinglePhaseFullFlash ::
  "'w ffu_env option \<Rightarrow> FullFlashMutationAuthorization option \<Rightarrow> 'w read_at \<Rightarrow> 'w write_at \<Rightarrow> 'w poll
     \<Rightarrow> 'w read_at \<Rightarrow> 'w
     \<Rightarrow> (FullFlashExecutionResult \<times> go_error option) \<times> FullFlashMutationAuthorization option \<times> 'w" where
  "ExecuteAuthorizedSinglePhaseFullFlash env_opt a_opt readSource writeTarget syncTarget readTarget =
     executeAuthorizedSinglePhaseFullFlashWithOps env_opt a_opt
       (defaultFullFlashExecutionOps readSource writeTarget syncTarget readTarget)"

end
