(* ===== verification/FfuCapability.thy ===== *)
theory FfuCapability
  imports FfuSession
begin

text \<open>
  What the capability chain of \<open>FfuSession\<close> guarantees: a session is held on the reviewed,
  unmounted whole disk and its descriptor is never leaked, a confirmation stands for one device
  and one capacity, and an authorization carries the write order reproduced from its plans,
  bound to the confirmation, the session and the lease below it.
\<close>

section \<open>Calls that leave a view of the world alone\<close>

text \<open>The calls on the live capabilities leave a view of the world alone.\<close>

definition quiet_env :: "('w \<Rightarrow> 'v) \<Rightarrow> 'w ffu_env \<Rightarrow> bool" where
  "quiet_env v env \<longleftrightarrow>
     act_keeps v (en_ctx_err env) \<and> act_keeps v (en_lease_ctx_err env) \<and> act_keeps v (en_lease_check env)
     \<and> act_keeps v (en_source_stat env) \<and> (\<forall>k n. act_keeps v (en_verify_target env k n))
     \<and> (\<forall>p k. act_keeps v (en_revalidate env p k)) \<and> (\<forall>n. act_keeps v (en_geometry env n))
     \<and> (\<forall>d. act_keeps v (en_source_outside env d))"

lemma quiet_calls:
  assumes "quiet_env v env"
  shows "act_keeps v (try_call (en_ctx_err env))" "act_keeps v (try_call (en_lease_check env))"
    "act_keeps v (en_source_stat env)" "act_keeps v (try_call (en_verify_target env k n))"
    "act_keeps v (en_revalidate env p k)" "act_keeps v (en_geometry env nm)"
    "act_keeps v (try_call (en_source_outside env d))"
  using assms by (auto simp: quiet_env_def)

lemma quiet_verify_source:
  assumes "quiet_env v env"
  shows "act_keeps v (verify_source env i)"
proof (unfold act_keeps_def, intro allI)
  fix w
  obtain r w1 where s: "en_source_stat env w = (r, w1)" by fastforce
  show "v (snd (verify_source env i w)) = v w"
    using act_keepsD [OF quiet_calls(3) [OF assms] s] by (simp add: verify_source_def s)
qed

lemma quiet_snapshot: "quiet_env v env \<Longrightarrow> act_keeps v (validateAcquiredFullFlashTargetSnapshot env pf d k)"
  unfolding validateAcquiredFullFlashTargetSnapshot_def Let_def
  by (auto intro!: act_keeps_bind quiet_calls split: prod.split)

section \<open>The acquired target\<close>

text \<open>
  A contract on the descriptor of the target: opening it takes one hold, closing gives it back
  and no other call changes the number of holds.
\<close>

locale descriptor_count =
  fixes held :: "'w \<Rightarrow> nat" and env :: "'w ffu_env"
  assumes quiet: "quiet_env held env"
    and opened: "en_open_target env p w = (Inr u, w1) \<Longrightarrow> held w1 = Suc (held w)"
    and refused: "en_open_target env p w = (Inl e, w1) \<Longrightarrow> held w1 = held w"
    and closed: "en_close_target env w = (r, w1) \<Longrightarrow> held w1 = held w - 1"
begin

lemma with_open_keeps: "act_keeps held (with_open_target env lease pf ops)"
  unfolding with_open_target_def Let_def
  by (auto intro!: act_keeps_bind act_keeps_wrap quiet_calls quiet_verify_source quiet_snapshot quiet split: prod.split)

lemma cleanup_closes:
  assumes "cleanup_on_error (en_close_target env) (with_open_target env lease pf ops) w = (r, w1)"
  shows "held w1 = (if is_ok r then held w else held w - 1)"
proof -
  obtain r2 w2 where b: "with_open_target env lease pf ops w = (r2, w2)" by fastforce
  have h: "held w2 = held w" by (rule act_keepsD [OF with_open_keeps b])
  obtain e w3 where c: "en_close_target env w2 = (e, w3)" by fastforce
  show ?thesis
    using assms h closed [OF c] by (cases r2) (auto simp: cleanup_on_error_def b c)
qed

definition balanced :: "('w, 'a) act \<Rightarrow> bool" where
  "balanced m \<longleftrightarrow> (\<forall>w r w1. m w = (r, w1) \<longrightarrow> held w1 = (if is_ok r then Suc (held w) else held w))"

lemma balanced_bind: "act_keeps held m \<Longrightarrow> (\<And>x. balanced (f x)) \<Longrightarrow> balanced (bind_act m f)"
  by (fastforce simp: balanced_def bind_act_def dest: act_keepsD split: prod.splits sum.splits)

lemma balanced_fail: "balanced (pure_act (Inl e))"
  by (simp add: balanced_def pure_act_def)

lemma balanced_open:
  "balanced (bind_act (wrap_act g (en_open_target env p)) (\<lambda>_. cleanup_on_error (en_close_target env)
     (with_open_target env lease pf ops)))"
  unfolding balanced_def
proof (intro allI impI)
  fix w r w1
  assume a: "bind_act (wrap_act g (en_open_target env p)) (\<lambda>_. cleanup_on_error (en_close_target env)
     (with_open_target env lease pf ops)) w = (r, w1)"
  obtain r2 w2 where o: "en_open_target env p w = (r2, w2)" by fastforce
  show "held w1 = (if is_ok r then Suc (held w) else held w)"
  proof (cases r2)
    case (Inl e)
    then show ?thesis using a refused [of p w e w2] by (auto simp: bind_act_def wrap_act_def o)
  next
    case (Inr u)
    then have "cleanup_on_error (en_close_target env) (with_open_target env lease pf ops) w2 = (r, w1)"
      using a by (simp add: bind_act_def wrap_act_def o)
    then show ?thesis using cleanup_closes [of lease pf ops w2 r w1] opened [of p w u w2] o Inr by simp
  qed
qed

lemma acquire_balanced: "balanced (acquireExclusiveFullFlashTargetWithOps (Some env) lease_opt pf ops)"
proof -
  have q: "act_keeps held (try_call (en_ctx_err env))" "act_keeps held (try_call (en_lease_check env))"
    "act_keeps held (try_call (en_lease_ctx_err env))" "\<And>i. act_keeps held (verify_source env i)"
    using quiet by (auto simp: quiet_env_def intro: quiet_verify_source)
  show ?thesis
    unfolding acquireExclusiveFullFlashTargetWithOps_def option.case Let_def
    by (intro balanced_bind q act_keeps_pure)
       (auto intro!: balanced_bind balanced_fail balanced_open q split: option.split)
qed

end

text \<open>
  C22: acquiring the exclusive target never leaks its descriptor: on success exactly one more
  descriptor is held, and on every failure, whether before the target was opened or in any of
  the checks that follow, exactly as many as before.
\<close>

theorem target_descriptor_never_leaked:
  assumes "descriptor_count held env"
    "acquireExclusiveFullFlashTargetWithOps (Some env) lease_opt pf ops w = (r, w1)"
  shows "held w1 = (if is_ok r then Suc (held w) else held w)"
  using descriptor_count.acquire_balanced [OF assms(1), of lease_opt pf ops] assms(2)
  by (simp add: descriptor_count.balanced_def [OF assms(1)])

text \<open>The seal on a piece of evidence: its own digest.\<close>

definition sealed_session :: "FullFlashTargetSessionEvidence \<Rightarrow> FullFlashTargetSessionEvidence" where
  "sealed_session e = e\<lparr>te_PlanSHA256 := fullFlashTargetSessionEvidenceDigest e\<rparr>"

definition sealed_confirmation :: "FullFlashConfirmationEvidence \<Rightarrow> FullFlashConfirmationEvidence" where
  "sealed_confirmation e = e\<lparr>ce_PlanSHA256 := fullFlashConfirmationEvidenceDigest e\<rparr>"

definition sealed_authorization ::
  "FullFlashMutationAuthorizationEvidence \<Rightarrow> FullFlashMutationAuthorizationEvidence" where
  "sealed_authorization e = e\<lparr>ae_PlanSHA256 := fullFlashMutationAuthorizationEvidenceDigest e\<rparr>"

definition lease_binds_preflight :: "FullFlashSourceLeaseEvidence \<Rightarrow> FullFlashTargetPreflightPlan \<Rightarrow> bool" where
  "lease_binds_preflight s p \<longleftrightarrow>
     sl_FullFlashTargetPreflightSHA256 s = pf_PlanSHA256 p
     \<and> sl_FullFlashValidationPlanSHA256 s = pf_FullFlashValidationPlanSHA256 p
     \<and> sl_RestoreTargetPlanSHA256 s = pf_RestoreTargetPlanSHA256 p
     \<and> sl_AuthenticatedIntegritySHA256 s = pf_AuthenticatedIntegritySHA256 p
     \<and> sl_TargetDevicePath s = pf_DevicePath p
     \<and> sl_ExpectedTargetIdentity s = pf_ExpectedTargetIdentity p
     \<and> sl_TargetSizeBytes s = pf_TargetSizeBytes p"

text \<open>The live disk the session was taken on is the reviewed one, and no node of it carries a mount.\<close>

definition live_target :: "FullFlashTargetPreflightPlan \<Rightarrow> BlockDevice \<Rightarrow> u64 \<Rightarrow> bool" where
  "live_target p d k \<longleftrightarrow>
     k = pf_KernelDeviceID p \<and> dev_Path (bd_info d) = pf_DevicePath p \<and> dev_Type (bd_info d) = ''disk''
     \<and> \<not> dev_ReadOnly (bd_info d) \<and> dev_Size (bd_info d) = pf_TargetSizeBytes p
     \<and> IdentityToken d = pf_ExpectedTargetIdentity p \<and> (\<forall>n. device_node d n \<longrightarrow> bd_Mountpoints n = [])"

lemma collect_mounts_length: "collect_mounts ps seen ms = Inr out \<Longrightarrow> length ms \<le> length out"
  by (induction ps seen ms rule: collect_mounts.induct) (fastforce simp: Let_def split: if_splits)+

lemma collect_mounts_none:
  assumes "collect_mounts ps [] [] = Inr []"
  shows "ps = []"
proof (cases ps)
  case (Cons p ps2)
  then show ?thesis
    using assms collect_mounts_length [of ps2 _ _ "[]"] by (cases p) (auto simp: Let_def split: if_splits)
qed

lemma no_mounts:
  assumes "collectFullFlashTargetMounts d = Inr ms" "length ms = 0"
  shows "\<forall>n \<in> set (Flatten d). bd_Mountpoints n = []"
proof -
  obtain ms2 where c: "collect_mounts (node_mounts d) [] [] = Inr ms2" and "ms = sort_by mount_less ms2"
    using assms(1) by (auto simp: collectFullFlashTargetMounts_def result_simps)
  then have "ms2 = []" using assms(2) by simp
  then have "node_mounts d = []" using collect_mounts_none c by simp
  then show ?thesis by (simp add: node_mounts_def)
qed

lemma snapshot_live:
  assumes "validateAcquiredFullFlashTargetSnapshot env p d k w = (Inr u, w1)"
  shows "live_target p d k"
proof -
  obtain ms w2 where c: "collectFullFlashTargetMounts d = Inr ms" "length ms = 0" and
    o: "k = pf_KernelDeviceID p" "dev_Path (bd_info d) = pf_DevicePath p" "dev_Type (bd_info d) = ''disk''"
      "\<not> dev_ReadOnly (bd_info d)" "dev_Size (bd_info d) = pf_TargetSizeBytes p"
      "IdentityToken d = pf_ExpectedTargetIdentity p"
    using assms
    by (auto simp: validateAcquiredFullFlashTargetSnapshot_def Let_def result_simps split: if_splits)
  show ?thesis using no_mounts [OF c] o by (simp add: live_target_def Flatten_nodes)
qed

lemma if_pure_Inl_Inr [result_simps]:
  "(if c then pure_act (Inl e) else m) w = (Inr x, w1) \<longleftrightarrow> \<not> c \<and> m w = (Inr x, w1)"
  by (simp add: pure_act_def)

lemma cleanup_Inr [result_simps]: "cleanup_on_error cl body w = (Inr x, w1) \<longleftrightarrow> body w = (Inr x, w1)"
  by (auto simp: cleanup_on_error_def split: prod.splits sum.splits)

definition acquired ::
  "FullFlashSourceLease \<Rightarrow> FullFlashTargetPreflightPlan \<Rightarrow> FullFlashTargetSession \<Rightarrow> BlockDevice \<Rightarrow> u64 \<Rightarrow> bool" where
  "acquired lease pf s d k \<longleftrightarrow>
     lease_validateLocked lease = Inr () \<and> validateFullFlashTargetPreflightPlan pf = Inr ()
   \<and> lease_binds_preflight (so_evidence lease) pf \<and> pf_MountedTargets pf = []
   \<and> ts_source s = Some lease \<and> ts_preflight s = pf \<and> ts_file s \<and> ts_sealed s \<and> \<not> ts_closed s
   \<and> ts_evidence s = sealed_session (new_session_evidence (so_evidence lease) pf d k)
   \<and> session_validateLocked s = Inr () \<and> live_target pf d k"

lemma acquire_Inr:
  assumes "acquireExclusiveFullFlashTargetWithOps (Some env) (Some lease) pf ops w = (Inr s, w1)"
  obtains d k w2 w3 w4 w5 w6 where "acquired lease pf s d k"
    "verify_source env (so_identity lease) w2 = (Inr (), w3)"
    "en_revalidate env (pf_DevicePath pf) (pf_KernelDeviceID pf) w4 = (Inr (d, k), w5)"
    "validateAcquiredFullFlashTargetSnapshot env pf d k w5 = (Inr (), w6)"
proof -
  obtain d k w2 w3 w4 w5 w6 where
    v: "verify_source env (so_identity lease) w2 = (Inr (), w3)" and
    r: "en_revalidate env (pf_DevicePath pf) (pf_KernelDeviceID pf) w4 = (Inr (d, k), w5)" and
    n: "validateAcquiredFullFlashTargetSnapshot env pf d k w5 = (Inr (), w6)" and
    e: "validateFullFlashTargetSessionEvidence (sealed_session (new_session_evidence (so_evidence lease) pf d k)) = Inr ()" and
    l: "lease_validateLocked lease = Inr ()" "validateFullFlashTargetPreflightPlan pf = Inr ()"
      "pf_MountedTargets pf = []" "lease_binds_preflight (so_evidence lease) pf" and
    o: "validateFullFlashTargetOpenOps ops = Inr ()" and
    s: "s = \<lparr> ts_file = True, ts_source = Some lease, ts_preflight = pf,
      ts_evidence = sealed_session (new_session_evidence (so_evidence lease) pf d k),
      ts_ops = ops, ts_sealed = True, ts_closed = False \<rparr>"
    using assms
    by (auto simp: acquireExclusiveFullFlashTargetWithOps_def with_open_target_def Let_def result_simps
        lease_binds_preflight_def sealed_session_def)
  have "acquired lease pf s d k"
    using snapshot_live [OF n] e l o by (simp add: acquired_def s session_validateLocked_def)
  then show thesis by (rule that [OF _ v r n])
qed

lemma session_holds_target:
  assumes "acquireExclusiveFullFlashTargetWithOps (Some env) (Some lease) pf ops w = (Inr s, w1)"
  shows "\<exists>d k. acquired lease pf s d k"
  by (rule acquire_Inr [OF assms]) blast

text \<open>
  All calls of an acquisition, each in the world the one before it left: \<open>d\<close> and \<open>k\<close> are what the
  revalidation returned between the two checks of the open descriptor.
\<close>

definition acquisition_run ::
  "'w ffu_env \<Rightarrow> FullFlashSourceLease \<Rightarrow> FullFlashTargetPreflightPlan \<Rightarrow> 'w \<Rightarrow> BlockDevice \<Rightarrow> u64 \<Rightarrow> 'w \<Rightarrow> bool" where
  "acquisition_run env lease pf w d k w1 \<longleftrightarrow>
     (\<exists>v1 v2 v3 v4 v5 v6 v7 v8 v9 v10 v11.
        en_ctx_err env w = (None, v1) \<and> en_lease_ctx_err env v1 = (None, v2) \<and> en_lease_check env v2 = (None, v3)
      \<and> verify_source env (so_identity lease) v3 = (Inr (), v4)
      \<and> en_open_target env (pf_DevicePath pf) v4 = (Inr (), v5)
      \<and> en_verify_target env (pf_KernelDeviceID pf) (pf_TargetSizeBytes pf) v5 = (None, v6)
      \<and> en_revalidate env (pf_DevicePath pf) (pf_KernelDeviceID pf) v6 = (Inr (d, k), v7)
      \<and> en_geometry env (dev_Name (bd_info d)) v7
          = (Inr (pf_LogicalSectorSizeBytes pf, pf_PhysicalSectorSizeBytes pf), v8)
      \<and> en_source_outside env d v8 = (None, v9) \<and> en_lease_check env v9 = (None, v10)
      \<and> verify_source env (so_identity lease) v10 = (Inr (), v11)
      \<and> en_verify_target env (pf_KernelDeviceID pf) (pf_TargetSizeBytes pf) v11 = (None, w1))"

lemma snapshot_geometry:
  assumes "validateAcquiredFullFlashTargetSnapshot env pf d k w = (Inr u, w1)"
  shows "en_geometry env (dev_Name (bd_info d)) w = (Inr (pf_LogicalSectorSizeBytes pf, pf_PhysicalSectorSizeBytes pf), w1)"
  using assms
  by (auto simp: validateAcquiredFullFlashTargetSnapshot_def Let_def result_simps check_eq_Inr split: if_splits)

lemma acquisition_calls:
  assumes "acquireExclusiveFullFlashTargetWithOps (Some env) (Some lease) pf ops w = (Inr s, w1)"
  shows "\<exists>d k. acquisition_run env lease pf w d k w1
    \<and> validateFullFlashTargetSessionEvidence (sealed_session (new_session_evidence (so_evidence lease) pf d k)) = Inr ()
    \<and> s = \<lparr> ts_file = True, ts_source = Some lease, ts_preflight = pf,
        ts_evidence = sealed_session (new_session_evidence (so_evidence lease) pf d k),
        ts_ops = ops, ts_sealed = True, ts_closed = False \<rparr>
    \<and> lease_validateLocked lease = Inr () \<and> validateFullFlashTargetPreflightPlan pf = Inr ()
    \<and> pf_MountedTargets pf = [] \<and> lease_binds_preflight (so_evidence lease) pf
    \<and> validateFullFlashTargetOpenOps ops = Inr () \<and> live_target pf d k"
proof -
  obtain d k v1 v2 v3 v4 v5 v6 v7 v8 v9 v10 v11 where
    a: "en_ctx_err env w = (None, v1)" "en_lease_ctx_err env v1 = (None, v2)" "en_lease_check env v2 = (None, v3)"
      "verify_source env (so_identity lease) v3 = (Inr (), v4)" "en_open_target env (pf_DevicePath pf) v4 = (Inr (), v5)"
      "en_verify_target env (pf_KernelDeviceID pf) (pf_TargetSizeBytes pf) v5 = (None, v6)"
      "en_revalidate env (pf_DevicePath pf) (pf_KernelDeviceID pf) v6 = (Inr (d, k), v7)" and
    n: "validateAcquiredFullFlashTargetSnapshot env pf d k v7 = (Inr (), v8)" and
    b: "en_source_outside env d v8 = (None, v9)" "en_lease_check env v9 = (None, v10)"
      "verify_source env (so_identity lease) v10 = (Inr (), v11)"
      "en_verify_target env (pf_KernelDeviceID pf) (pf_TargetSizeBytes pf) v11 = (None, w1)" and
    e: "validateFullFlashTargetSessionEvidence (sealed_session (new_session_evidence (so_evidence lease) pf d k)) = Inr ()" and
    l: "lease_validateLocked lease = Inr ()" "validateFullFlashTargetPreflightPlan pf = Inr ()"
      "pf_MountedTargets pf = []" "lease_binds_preflight (so_evidence lease) pf" "validateFullFlashTargetOpenOps ops = Inr ()" and
    s: "s = \<lparr> ts_file = True, ts_source = Some lease, ts_preflight = pf,
      ts_evidence = sealed_session (new_session_evidence (so_evidence lease) pf d k),
      ts_ops = ops, ts_sealed = True, ts_closed = False \<rparr>"
    using assms
    by (auto simp: acquireExclusiveFullFlashTargetWithOps_def with_open_target_def Let_def result_simps
        lease_binds_preflight_def sealed_session_def)
  have "acquisition_run env lease pf w d k w1"
    unfolding acquisition_run_def using a snapshot_geometry [OF n] b by blast
  with e l s snapshot_live [OF n] show ?thesis by blast
qed

text \<open>
  C21: a session is only ever taken on the reviewed target. The acquisition makes all its calls, in the order of
  the code, and each succeeds. The device the revalidation returned after the target was opened has
  the kernel identifier, path, size and identity of the preflight, is a writable whole disk,
  neither it nor any node below it carries a mount, its sectors are those reviewed, and the source
  lies outside it; the evidence of the session is built from that device, and the lease it rests
  on is live, was granted for this very preflight and is checked again before the session is returned.
\<close>

theorem session_holds_reviewed_target:
  assumes "acquireExclusiveFullFlashTargetWithOps (Some env) (Some lease) pf ops w = (Inr s, w1)"
  shows "\<exists>d k. acquisition_run env lease pf w d k w1 \<and> acquired lease pf s d k"
proof -
  from acquisition_calls [OF assms] obtain d k where
    "acquisition_run env lease pf w d k w1" and "acquired lease pf s d k"
    by (auto simp: acquired_def session_validateLocked_def)
  then show ?thesis by blast
qed

section \<open>The confirmation\<close>

definition confirmed :: "FullFlashTargetSession \<Rightarrow> string \<Rightarrow> FullFlashDestructiveConfirmation \<Rightarrow> bool" where
  "confirmed s phrase c \<longleftrightarrow>
     phrase = expectedFullFlashConfirmationPhrase (te_DevicePath (ts_evidence s)) (te_TargetSizeBytes (ts_evidence s))
   \<and> dc_target c = Some s \<and> dc_sealed c
   \<and> dc_evidence c = sealed_confirmation (new_confirmation_evidence (ts_evidence s) phrase phrase)
   \<and> confirmation_validateLocked c = Inr () \<and> session_validateLocked s = Inr ()"

lemma confirm_Inr:
  assumes "ConfirmExclusiveFullFlashTarget (Some env) (Some s) phrase w = (Inr c, w1)"
  shows "confirmed s phrase c"
proof -
  obtain expected where
    x: "expected = expectedFullFlashConfirmationPhrase (te_DevicePath (ts_evidence s)) (te_TargetSizeBytes (ts_evidence s))"
      "phrase = expected" and
    v: "session_validateLocked s = Inr ()" and
    e: "validateFullFlashConfirmationEvidence
      (sealed_confirmation (new_confirmation_evidence (ts_evidence s) expected phrase)) = Inr ()" and
    c: "c = \<lparr> dc_target = Some s, dc_evidence = sealed_confirmation (new_confirmation_evidence (ts_evidence s) expected phrase),
      dc_sealed = True \<rparr>"
    using assms
    by (auto simp: ConfirmExclusiveFullFlashTarget_def session_Evidence_def Let_def result_simps sealed_confirmation_def)
  show ?thesis using x v e by (simp add: confirmed_def c confirmation_validateLocked_def)
qed


section \<open>The authorization\<close>

lemma authorize_Inr:
  assumes "AuthorizeSinglePhaseFullFlashMutation (Some env) (Some c) d t f w = (Inr a, w1)"
  shows "ma_confirmation a = Some c \<and> \<not> ma_consumed a \<and> ma_sealed a
    \<and> PlanSinglePhaseFullFlashWriteOrder d t f = Inr (ma_writeOrder a)
    \<and> confirmation_validateLocked c = Inr ()
    \<and> correlateFullFlashMutationAuthorization (dc_evidence c) (ma_writeOrder a) t f = Inr ()
    \<and> ma_evidence a = sealed_authorization (new_authorization_evidence (dc_evidence c) (ma_writeOrder a) d t f)
    \<and> validateFullFlashMutationAuthorizationEvidence (ma_evidence a) = Inr ()"
  using assms
  by (auto simp: AuthorizeSinglePhaseFullFlashMutation_def confirmation_Evidence_def Let_def result_simps
      sealed_authorization_def)

lemma authorization_of_confirmation:
  assumes "ConfirmExclusiveFullFlashTarget (Some env) (Some s) phrase w = (Inr c, w1)"
    "AuthorizeSinglePhaseFullFlashMutation (Some env2) (Some c) d t f w2 = (Inr a, w3)"
  shows "authorization_validateLocked a = Inr () \<and> ma_confirmation a = Some c
    \<and> PlanSinglePhaseFullFlashWriteOrder d t f = Inr (ma_writeOrder a)
    \<and> confirmation_matches_authorization (dc_evidence c) (ma_evidence a)
    \<and> wo_ConfirmationPhrase (ma_writeOrder a) = phrase
    \<and> wo_DevicePath (ma_writeOrder a) = te_DevicePath (ts_evidence s)
    \<and> wo_TargetSizeBytes (ma_writeOrder a) = te_TargetSizeBytes (ts_evidence s)
    \<and> wo_MutationBytes (ma_writeOrder a) = te_MutationBytes (ts_evidence s)"
proof -
  note C = confirm_Inr [OF assms(1)] and A = authorize_Inr [OF assms(2)]
  have cor: "correlateFullFlashMutationAuthorization (dc_evidence c) (ma_writeOrder a) t f = Inr ()"
    using A by blast
  have ev: "ma_evidence a = sealed_authorization (new_authorization_evidence (dc_evidence c) (ma_writeOrder a) d t f)"
    using A by blast
  have ce: "ce_DevicePath (dc_evidence c) = te_DevicePath (ts_evidence s)"
    "ce_TargetSizeBytes (dc_evidence c) = te_TargetSizeBytes (ts_evidence s)"
    "ce_MutationBytes (dc_evidence c) = te_MutationBytes (ts_evidence s)"
    "ce_ExpectedConfirmationPhrase (dc_evidence c) = phrase"
    using C by (simp_all add: confirmed_def sealed_confirmation_def new_confirmation_evidence_def)
  note k = cor [unfolded correlateFullFlashMutationAuthorization_def, simplified result_simps]
  have m: "confirmation_matches_authorization (dc_evidence c) (ma_evidence a)"
    using k by (simp add: confirmation_matches_authorization_def ev sealed_authorization_def
        new_authorization_evidence_def)
  have o: "order_matches_evidence (ma_writeOrder a) (ma_evidence a)"
    using k by (simp add: order_matches_evidence_def ev sealed_authorization_def new_authorization_evidence_def)
  have "authorization_validateLocked a = Inr ()"
  proof -
    have "validateFullFlashMutationAuthorizationEvidence (ma_evidence a) = Inr ()" "ma_confirmation a = Some c"
      "\<not> ma_consumed a" "ma_sealed a" using A by blast+
    then show ?thesis using o k by (simp add: authorization_validateLocked_def)
  qed
  then show ?thesis using A m k ce by simp
qed

text \<open>
  C20: an authorization is exactly what its prerequisites allow: its write order is the one
  reproduced from the descriptor, target and full-flash plans, it validates, it is not consumed,
  every identifier of its evidence is the one of the confirmation below it, and it is for the
  device, capacity and byte count of the held target session.
\<close>

theorem authorization_sound:
  assumes "ConfirmExclusiveFullFlashTarget (Some env) (Some s) phrase w = (Inr c, w1)"
    "AuthorizeSinglePhaseFullFlashMutation (Some env2) (Some c) d t f w2 = (Inr a, w3)"
  shows "authorization_validateLocked a = Inr () \<and> ma_confirmation a = Some c
    \<and> PlanSinglePhaseFullFlashWriteOrder d t f = Inr (ma_writeOrder a)
    \<and> confirmation_matches_authorization (dc_evidence c) (ma_evidence a)
    \<and> wo_ConfirmationPhrase (ma_writeOrder a) = phrase
    \<and> wo_DevicePath (ma_writeOrder a) = te_DevicePath (ts_evidence s)
    \<and> wo_TargetSizeBytes (ma_writeOrder a) = te_TargetSizeBytes (ts_evidence s)
    \<and> wo_MutationBytes (ma_writeOrder a) = te_MutationBytes (ts_evidence s)"
  by (rule authorization_of_confirmation [OF assms])

section \<open>The phrase names one device and one capacity\<close>

lemma decimal_no_space: "CHR '' '' \<notin> set (decimal x)"
  using decimal_code [of "CHR '' ''" x] by auto

lemma first_separator: "d @ x # p = e @ x # q \<Longrightarrow> x \<notin> set d \<Longrightarrow> x \<notin> set e \<Longrightarrow> d = e \<and> p = q"
proof (induction d arbitrary: e)
  case Nil
  then show ?case by (cases e) auto
next
  case (Cons y d)
  then show ?case by (cases e) auto
qed

lemma last_separator:
  assumes "p @ x # d = q @ x # e" "x \<notin> set d" "x \<notin> set e"
  shows "p = q \<and> d = e"
proof -
  have "rev (p @ x # d) = rev (q @ x # e)" using assms(1) by simp
  then have "rev d @ x # rev p = rev e @ x # rev q" by simp
  then show ?thesis using first_separator [of "rev d" x "rev p" "rev e" "rev q"] assms(2,3) by simp
qed

lemma phrase_inj:
  assumes "expectedFullFlashConfirmationPhrase p n = expectedFullFlashConfirmationPhrase q m"
  shows "p = q \<and> n = m"
proof -
  have "(p @ '' SIZE'') @ CHR '' '' # decimal n = (q @ '' SIZE'') @ CHR '' '' # decimal m"
    using assms by (simp add: expectedFullFlashConfirmationPhrase_def)
  from last_separator [OF this decimal_no_space decimal_no_space] show ?thesis
    by (simp add: decimal_inj)
qed

text \<open>
  The typed phrase decides the target: it is accepted only byte for byte, and a phrase
  accepted for two sessions, however obtained, means they hold the same device path with the
  same capacity.
\<close>

theorem confirmation_names_target:
  assumes "ConfirmExclusiveFullFlashTarget (Some env) (Some s) phrase w = (Inr c, w1)"
    "ConfirmExclusiveFullFlashTarget (Some env2) (Some s2) phrase w2 = (Inr c2, w3)"
  shows "phrase = expectedFullFlashConfirmationPhrase (te_DevicePath (ts_evidence s)) (te_TargetSizeBytes (ts_evidence s))
    \<and> te_DevicePath (ts_evidence s) = te_DevicePath (ts_evidence s2)
    \<and> te_TargetSizeBytes (ts_evidence s) = te_TargetSizeBytes (ts_evidence s2)"
proof -
  have p: "phrase = expectedFullFlashConfirmationPhrase (te_DevicePath (ts_evidence s)) (te_TargetSizeBytes (ts_evidence s))"
    "phrase = expectedFullFlashConfirmationPhrase (te_DevicePath (ts_evidence s2)) (te_TargetSizeBytes (ts_evidence s2))"
    using confirm_Inr [OF assms(1)] confirm_Inr [OF assms(2)] by (simp_all add: confirmed_def)
  show ?thesis using phrase_inj [OF p(1) [symmetric, THEN trans, OF p(2)]] p(1) by simp
qed

section \<open>Closing\<close>

text \<open>
  Closing is final and idempotent: a closed session refuses every further use without
  touching the world, and closing it again does nothing.
\<close>

theorem close_is_final:
  assumes "session_Close env (Some s) w = ((s2, e), w1)" "ts_sealed s" "ts_file s"
  shows "session_Close env2 s2 w2 = ((s2, None), w2)
    \<and> session_Check env2 s2 w2 = (Inl (Msg ''FFU target session is closed''), w2)
    \<and> session_Evidence s2 = Inl (Msg ''FFU target session is closed'')"
proof -
  have "\<exists>s3. s2 = Some s3 \<and> ts_closed s3"
    using assms by (auto simp: session_Close_def split: if_splits prod.splits)
  then show ?thesis
    by (auto simp: session_Close_def session_Check_def session_Evidence_def session_validateLocked_def
        bind_act_def pure_act_def)
qed

end
