(* ===== verification/FfuStore.thy ===== *)
theory FfuStore
  imports FfuExec FfuCapability
begin

text \<open>
  The contracts of the target and the source the executor relies on, as locales from weak to
  strong, and what the executor guarantees under each: what a verified run has put on the
  target, which bytes can change at all, when none has changed, and that an authorized run on a
  device that does its work is verified.
\<close>

section \<open>Invariants of steps\<close>

named_theorems step_rules \<open>a step keeps an invariant on every outcome\<close>

definition step_keeps :: "(exec_state \<Rightarrow> 'w \<Rightarrow> bool) \<Rightarrow> ('w, 'a) step \<Rightarrow> bool" where
  "step_keeps P m \<longleftrightarrow> (\<forall>s w r s1 w1. P s w \<longrightarrow> m s w = (r, s1, w1) \<longrightarrow> P s1 w1)"

lemma step_keepsD: "step_keeps P m \<Longrightarrow> P s w \<Longrightarrow> m s w = (r, s1, w1) \<Longrightarrow> P s1 w1"
  unfolding step_keeps_def by blast

lemma step_keepsI: "(\<And>s w r s1 w1. P s w \<Longrightarrow> m s w = (r, s1, w1) \<Longrightarrow> P s1 w1) \<Longrightarrow> step_keeps P m"
  unfolding step_keeps_def by blast

lemma step_keeps_bind [step_rules]:
  assumes "step_keeps P m" "\<And>x. step_keeps P (f x)"
  shows "step_keeps P (bind_step m f)"
proof (rule step_keepsI)
  fix s w r s1 w1 assume p: "P s w" and b: "bind_step m f s w = (r, s1, w1)"
  obtain o1 s2 w2 where m: "m s w = (o1, s2, w2)" by (cases "m s w")
  have p2: "P s2 w2" by (rule step_keepsD [OF assms(1) p m])
  show "P s1 w1"
  proof (cases o1)
    case (Inl e)
    then show ?thesis using b m p2 by (simp add: bind_step_def)
  next
    case (Inr x)
    then have "f x s2 w2 = (r, s1, w1)" using b m by (simp add: bind_step_def)
    then show ?thesis by (rule step_keepsD [OF assms(2) p2])
  qed
qed

lemma step_keeps_at_stage: "(\<And>s w r w1. P s w \<Longrightarrow> m w = (r, w1) \<Longrightarrow> P s w1) \<Longrightarrow> step_keeps P (at_stage st m)"
  by (rule step_keepsI) (auto simp: at_stage_def split: prod.splits sum.splits)

lemma step_keeps_call:
  "act_keeps v m \<Longrightarrow> step_keeps (\<lambda>s w. Q s (v w)) (at_stage st m)"
  by (rule step_keeps_at_stage) (auto dest: act_keepsD)

lemma step_keeps_update [step_rules]: "(\<And>s w. P s w \<Longrightarrow> P (f s) w) \<Longrightarrow> step_keeps P (update_step f)"
  by (rule step_keepsI) (simp add: update_step_def)

lemma step_keeps_update_result [step_rules]:
  "(\<And>s w. P s w \<Longrightarrow> P (s\<lparr>es_result := f (es_result s)\<rparr>) w) \<Longrightarrow> step_keeps P (update_result f)"
  unfolding update_result_def by (rule step_keeps_update)

lemma step_keeps_done [step_rules]: "step_keeps P done_step"
  by (rule step_keepsI) (simp add: done_step_def)

lemma step_keeps_operations [step_rules]:
  "(\<And>op. op \<in> set ops \<Longrightarrow> step_keeps P (body op)) \<Longrightarrow> step_keeps P (for_operations body ops)"
  by (induction ops) (auto intro!: step_rules)

lemma chunk_nats:
  fixes rem buf :: u64
  assumes "rem \<noteq> 0" "buf \<noteq> 0" "chunk = (if rem < buf then rem else buf)"
  shows "0 < unat chunk" "unat chunk \<le> unat rem" "unat (rem - chunk) = unat rem - unat chunk"
    "chunk \<le> rem"
proof -
  show le: "chunk \<le> rem" using assms(3) by (simp add: not_less)
  then show "unat (rem - chunk) = unat rem - unat chunk" by (rule unat_sub)
  show "unat chunk \<le> unat rem" using le by (simp add: word_le_nat_alt)
  show "0 < unat chunk" using assms by (simp add: unat_gt_0)
qed

text \<open>The body of the chunk loop runs only inside the range, at one displacement of both offsets.\<close>

lemma step_keeps_chunks:
  assumes "\<And>chunk k. 0 < unat chunk \<Longrightarrow> unat k + unat chunk \<le> unat rem \<Longrightarrow> step_keeps P (body chunk (so + k) (to + k))"
  shows "step_keeps P (for_chunks body buf rem so to)"
  using assms
proof (induction "unat rem" arbitrary: rem so to rule: less_induct)
  case less
  show ?case
  proof (cases "rem = 0 \<or> buf = 0")
    case True
    then show ?thesis
      unfolding for_chunks.simps [of body buf rem] by (simp add: step_keeps_done)
  next
    case False
    define chunk where "chunk = (if rem < buf then rem else buf)"
    note c = chunk_nats [OF _ _ chunk_def]
    have "step_keeps P (for_chunks body buf (rem - chunk) (so + chunk) (to + chunk))"
    proof (rule less.hyps)
      show "unat (rem - chunk) < unat rem" using c False by simp
      fix ch k :: u64 assume a: "0 < unat ch" "unat k + unat ch \<le> unat (rem - chunk)"
      then have "unat (chunk + k) = unat chunk + unat k"
        using c False unat_less_pow [of rem] by (intro unat_plus_64) simp
      then have "step_keeps P (body ch (so + (chunk + k)) (to + (chunk + k)))"
        by (intro less.prems) (use a c False in simp_all)
      then show "step_keeps P (body ch (so + chunk + k) (to + chunk + k))" by (simp add: add.assoc)
    qed
    moreover have "step_keeps P (body chunk so to)"
      using less.prems [of chunk 0] c False by simp
    ultimately show ?thesis
      using False unfolding for_chunks.simps [of body buf rem] Let_def chunk_def [symmetric]
      by (simp add: step_keeps_bind)
  qed
qed

lemma bind_step_Inr [result_simps]:
  "bind_step m f s w = (Inr y, s2, w2) \<longleftrightarrow> (\<exists>x s1 w1. m s w = (Inr x, s1, w1) \<and> f x s1 w1 = (Inr y, s2, w2))"
  by (auto simp: bind_step_def split: prod.splits sum.splits)

lemma at_stage_Inr [result_simps]:
  "at_stage st m s w = (Inr y, s2, w2) \<longleftrightarrow> m w = (Inr y, w2) \<and> s2 = s"
  by (auto simp: at_stage_def split: prod.splits sum.splits)

lemma update_result_Inr [result_simps]:
  "update_result f s w = (Inr u, s2, w2) \<longleftrightarrow> s2 = s\<lparr>es_result := f (es_result s)\<rparr> \<and> w2 = w"
  by (auto simp: update_result_def update_step_def)

lemma update_step_Inr [result_simps]: "update_step f s w = (Inr u, s2, w2) \<longleftrightarrow> s2 = f s \<and> w2 = w"
  by (auto simp: update_step_def)

lemma done_step_Inr [result_simps]: "done_step s w = (Inr u, s2, w2) \<longleftrightarrow> s2 = s \<and> w2 = w"
  by (auto simp: done_step_def)

section \<open>Contracts of the device and the source\<close>

text \<open>
  A reader is faithful to a view of the world when it leaves the view alone and the bytes it
  delivers are those of the view at that offset, however few it delivers.
\<close>

locale faithful_reader =
  fixes rd :: "'w read_at" and view :: "'w \<Rightarrow> 'v" and content :: "'v \<Rightarrow> nat \<Rightarrow> byte"
  assumes read_view: "rd n off w = ((d, e), w1) \<Longrightarrow> view w1 = view w"
    and read_bytes: "rd n off w = ((d, e), w1) \<Longrightarrow> i < n \<Longrightarrow> i < length d \<Longrightarrow>
      d ! i = content (view w) (unat off + i)"
begin

lemma full_view: "act_keeps view (readFullFlashAt rd n off)"
proof (unfold act_keeps_def, intro allI)
  fix w show "view (snd (readFullFlashAt rd n off w)) = view w"
  proof (induction n arbitrary: off w rule: less_induct)
    case (less n)
    obtain d e w1 where r: "rd n off w = ((d, e), w1)" by (metis surj_pair)
    have v: "view w1 = view w" by (rule read_view [OF r])
    have "view (snd (readFullFlashAt rd (n - length (take n d)) (off + of_nat (length (take n d))) w1)) = view w"
      if "n \<noteq> 0" "d \<noteq> []"
      by (subst less.IH) (use that v in auto)
    then show ?case
      unfolding readFullFlashAt.simps [of rd n off w] r
      by (auto simp: Let_def v split: option.splits prod.splits sum.splits)
  qed
qed

lemma full_bytes:
  assumes "readFullFlashAt rd n off w = (Inr d, w1)" "unat off + n \<le> 2 ^ 64"
  shows "length d = n \<and> (\<forall>i < n. d ! i = content (view w) (unat off + i))"
  using assms
proof (induction n arbitrary: off w d rule: less_induct)
  case (less n)
  show ?case
  proof (cases "n = 0")
    case True
    then show ?thesis using less.prems unfolding readFullFlashAt.simps [of rd n off w] by simp
  next
    case False
    obtain x e w2 where r: "rd n off w = ((x, e), w2)" by (metis surj_pair)
    let ?x = "take n x"
    have bx: "\<forall>i < length ?x. ?x ! i = content (view w) (unat off + i)"
      using read_bytes [OF r] by simp
    show ?thesis
    proof (cases e)
      case (Some err)
      then have "d = ?x" "n - length ?x = 0"
        using less.prems(1) False unfolding readFullFlashAt.simps [of rd n off w] r
        by (auto simp: Let_def split: if_splits)
      then show ?thesis using bx by simp
    next
      case None
      let ?off = "off + of_nat (length ?x)"
      obtain ds where ne: "?x \<noteq> []" and
        rec: "readFullFlashAt rd (n - length ?x) ?off w2 = (Inr ds, w1)" and d: "d = ?x @ ds"
        using less.prems(1) False None unfolding readFullFlashAt.simps [of rd n off w] r
        by (auto simp: Let_def split: if_splits prod.splits sum.splits)
      have l: "0 < length ?x" "length ?x \<le> n" using ne by auto
      have "length ds = n - length ?x \<and> (\<forall>i < n - length ?x. ds ! i = content (view w2) (unat ?off + i))"
        if "length ?x < n"
      proof -
        have "unat ?off = unat off + length ?x"
          using that less.prems(2) by (subst unat_plus_64) (simp_all add: unat_of_nat_64)
        then show ?thesis using less.IH [OF _ rec] l that less.prems(2) by simp
      qed
      moreover have "unat ?off = unat off + length ?x" if "length ?x < n"
        using that less.prems(2) by (subst unat_plus_64) (simp_all add: unat_of_nat_64)
      moreover have "ds = []" if "\<not> length ?x < n"
        using that rec unfolding readFullFlashAt.simps [of rd "n - length ?x"] by simp
      ultimately show ?thesis
        using l bx read_view [OF r] unfolding d
        by (cases "length ?x < n") (auto simp: nth_append not_less)
    qed
  qed
qed

end

definition quiet_hooks :: "('w \<Rightarrow> 'v) \<Rightarrow> 'w fullFlashExecutionOps \<Rightarrow> bool" where
  "quiet_hooks v ops \<longleftrightarrow>
     (\<forall>h w. xo_beforeFirstWrite ops = Some h \<longrightarrow> v (h w) = v w)
     \<and> (\<forall>h n w. xo_afterWriteChunk ops = Some h \<longrightarrow> v (h n w) = v w)"

lemma quiet_revalidate: "quiet_env v env \<Longrightarrow> act_keeps v (revalidateFullFlashExecutionLocked env t s)"
  unfolding revalidateFullFlashExecutionLocked_def Let_def
  by (auto intro!: act_keeps_bind quiet_calls quiet_verify_source quiet_snapshot split: prod.split)

lemma quiet_lease_context:
  assumes "quiet_env v env"
  shows "act_keeps v (lease_context_alive env)"
proof (unfold act_keeps_def, intro allI)
  fix w
  obtain r w1 where c: "en_lease_ctx_err env w = (r, w1)" by fastforce
  obtain r2 w2 where k: "en_lease_check env w1 = (r2, w2)" by fastforce
  have "act_keeps v (en_lease_ctx_err env)" "act_keeps v (en_lease_check env)"
    using assms by (simp_all add: quiet_env_def)
  then have "v w1 = v w" "v w2 = v w1"
    using c k by (auto dest: act_keepsD)
  then show "v (snd (lease_context_alive env w)) = v w"
    by (simp add: lease_context_alive_def c k split: option.splits)
qed

text \<open>
  The source delivers the bytes of one content and the target, read back, the bytes of its
  medium; nothing but a write changes the medium.
\<close>

locale quiet_store =
  fixes view :: "'w \<Rightarrow> 'v" and env :: "'w ffu_env" and ops :: "'w fullFlashExecutionOps"
    and rs :: "'w read_at" and rt :: "'w read_at" and wt :: "'w write_at" and sync :: "'w poll"
  assumes quiet: "quiet_env view env" "quiet_hooks view ops" "act_keeps view sync"
      "\<And>n off. act_keeps view (readFullFlashAt rs n off)" "\<And>n off. act_keeps view (readFullFlashAt rt n off)"
    and wired: "xo_readSource ops = Some rs" "xo_readTarget ops = Some rt"
      "xo_writeTarget ops = Some wt" "xo_syncTarget ops = Some sync"

locale target_store =
  source: faithful_reader rs mem "\<lambda>_. src" + target: faithful_reader rt mem "\<lambda>m. m"
  for rs :: "'w read_at" and rt :: "'w read_at" and mem :: "'w \<Rightarrow> nat \<Rightarrow> byte" and src :: "nat \<Rightarrow> byte" +
  fixes env :: "'w ffu_env" and ops :: "'w fullFlashExecutionOps" and wt :: "'w write_at" and sync :: "'w poll"
  assumes quiet_mem: "quiet_env mem env" "quiet_hooks mem ops" "act_keeps mem sync"
    and wired_ops: "xo_readSource ops = Some rs" "xo_readTarget ops = Some rt"
      "xo_writeTarget ops = Some wt" "xo_syncTarget ops = Some sync"

sublocale target_store \<subseteq> quiet_store mem env ops rs rt wt sync
  by unfold_locales (simp_all add: quiet_mem wired_ops source.full_view target.full_view)

text \<open>Every run with complete operations is quiet in the trivial view.\<close>

lemma quiet_trivial:
  assumes "validateFullFlashExecutionOps ops = Inr u"
  shows "quiet_store (\<lambda>_. ()) env ops (the (xo_readSource ops)) (the (xo_readTarget ops))
    (the (xo_writeTarget ops)) (the (xo_syncTarget ops))"
  using assms
  by unfold_locales
     (auto simp: quiet_env_def quiet_hooks_def act_keeps_def validateFullFlashExecutionOps_def split: if_splits)

text \<open>A write touches nothing outside the bytes it was given.\<close>

locale confined_store = target_store rs rt mem src env ops wt sync
  for rs :: "'w read_at" and rt :: "'w read_at" and mem :: "'w \<Rightarrow> nat \<Rightarrow> byte" and src :: "nat \<Rightarrow> byte"
    and env :: "'w ffu_env" and ops :: "'w fullFlashExecutionOps" and wt :: "'w write_at" and sync :: "'w poll" +
  assumes confined: "wt buf off w = ((n, e), w1) \<Longrightarrow> a < unat off \<or> unat off + length buf \<le> a \<Longrightarrow> mem w1 a = mem w a"

text \<open>A write changes exactly the bytes it reports.\<close>

definition overwrite :: "(nat \<Rightarrow> byte) \<Rightarrow> nat \<Rightarrow> bytes \<Rightarrow> nat \<Rightarrow> byte" where
  "overwrite m off d = (\<lambda>a. if off \<le> a \<and> a < off + length d then d ! (a - off) else m a)"

lemma overwrite_Nil [simp]: "overwrite m off [] = m"
  by (rule ext) (auto simp: overwrite_def)

locale exact_store = target_store rs rt mem src env ops wt sync
  for rs :: "'w read_at" and rt :: "'w read_at" and mem :: "'w \<Rightarrow> nat \<Rightarrow> byte" and src :: "nat \<Rightarrow> byte"
    and env :: "'w ffu_env" and ops :: "'w fullFlashExecutionOps" and wt :: "'w write_at" and sync :: "'w poll" +
  assumes exact: "wt buf off w = ((n, e), w1) \<Longrightarrow> mem w1 = overwrite (mem w) (unat off) (take n buf)"

sublocale exact_store \<subseteq> confined_store
proof
  fix buf off w n e w1 a
  assume "wt buf off w = ((n, e), w1)" and "a < unat off \<or> unat off + length buf \<le> a"
  then show "mem w1 a = mem w a" using exact [of buf off w n e w1] by (auto simp: overwrite_def)
qed

section \<open>What a verified run has put on the target\<close>

lemma offset_ok: "fullFlashExecutionOffset v = Inr x \<longleftrightarrow> x = v \<and> unat v < 2 ^ 63"
  by (auto simp: fullFlashExecutionOffset_def word_less_unat)

text \<open>The target holds the payload of an operation.\<close>

definition op_restored :: "(nat \<Rightarrow> byte) \<Rightarrow> (nat \<Rightarrow> byte) \<Rightarrow> OrderedFullFlashWriteOperation \<Rightarrow> bool" where
  "op_restored src m op \<longleftrightarrow>
     (\<forall>i < unat (op_TargetLength op). m (unat (op_TargetOffset op) + i) = src (unat (op_PayloadOffset op) + i))"

definition op_fits :: "OrderedFullFlashWriteOperation \<Rightarrow> bool" where
  "op_fits op \<longleftrightarrow> op_PayloadLength op = op_TargetLength op
     \<and> unat (op_TargetOffset op) + unat (op_TargetLength op) < 2 ^ 64
     \<and> unat (op_PayloadOffset op) + unat (op_PayloadLength op) < 2 ^ 64"

lemma in_bounds_fits: "op_in_bounds p op \<Longrightarrow> op_fits op"
  using unat_lt_64 [of "wo_TargetSizeBytes p"] unat_lt_64 [of "wo_PayloadEnd p"]
  by (auto simp: op_in_bounds_def op_fits_def)

lemma validated_ops_fit:
  "authorization_validateLocked a = Inr u \<Longrightarrow> op \<in> set (wo_Operations (ma_writeOrder a)) \<Longrightarrow> op_fits op"
  using validate_write_order_Inr [of "ma_writeOrder a"] in_bounds_fits
  by (auto simp: authorization_validateLocked_def result_simps)

lemma word_of_int_nonzero: "0 < i \<Longrightarrow> i < 2 ^ 64 \<Longrightarrow> (word_of_int i :: u64) \<noteq> 0"
  by (auto simp: word_of_int_eq_0_iff dest: zdvd_imp_le)

lemma split_range:
  fixes so k :: u64
  assumes "unat so + n < 2 ^ 64" "unat k \<le> n"
  shows "unat (so + k) = unat so + unat k"
  by (rule unat_plus_64) (use assms in linarith)

context target_store
begin

lemma readback_chunk_ok:
  assumes "readback_chunk env ops chunk so to s w = (Inr u, s1, w1)"
    "unat so + unat chunk \<le> 2 ^ 64" "unat to + unat chunk \<le> 2 ^ 64"
  shows "s1 = s \<and> mem w1 = mem w
    \<and> (\<forall>i < unat chunk. mem w (unat to + i) = src (unat so + i))"
proof -
  from assms(1) obtain w2 w3 x w4 where
    c: "try_call (en_ctx_err env) w = (Inr (), w2)" "try_call (en_lease_check env) w2 = (Inr (), w3)" and
    r: "readFullFlashAt rs (unat chunk) so w3 = (Inr x, w4)"
      "readFullFlashAt rt (unat chunk) to w4 = (Inr x, w1)" and s: "s1 = s"
    unfolding readback_chunk_def
    by (auto simp: result_simps offset_ok wired check_def split: if_splits)
  have m2: "mem w2 = mem w" by (rule act_keepsD [OF quiet_calls(1) [OF quiet(1)] c(1)])
  have m3: "mem w3 = mem w2" by (rule act_keepsD [OF quiet_calls(2) [OF quiet(1)] c(2)])
  have m4: "mem w4 = mem w3" by (rule act_keepsD [OF source.full_view r(1)])
  have m1: "mem w1 = mem w4" by (rule act_keepsD [OF target.full_view r(2)])
  show ?thesis
    using source.full_bytes [OF r(1) assms(2)] target.full_bytes [OF r(2) assms(3)] s m1 m2 m3 m4 by simp
qed

lemma readback_chunks_ok:
  assumes "for_chunks (readback_chunk env ops) buf rem so to s w = (Inr u, s1, w1)" "buf \<noteq> 0"
    "unat so + unat rem < 2 ^ 64" "unat to + unat rem < 2 ^ 64"
  shows "s1 = s \<and> mem w1 = mem w \<and> (\<forall>i < unat rem. mem w (unat to + i) = src (unat so + i))"
  using assms
proof (induction "unat rem" arbitrary: rem so to s w rule: less_induct)
  case less
  show ?case
  proof (cases "rem = 0")
    case True
    then show ?thesis using less.prems(1) unfolding for_chunks.simps [of _ buf rem] by (simp add: result_simps)
  next
    case False
    define chunk where "chunk = (if rem < buf then rem else buf)"
    note c = chunk_nats [OF False less.prems(2) chunk_def]
    from less.prems(1) False obtain s2 w2 where
      b: "readback_chunk env ops chunk so to s w = (Inr (), s2, w2)" and
      r: "for_chunks (readback_chunk env ops) buf (rem - chunk) (so + chunk) (to + chunk) s2 w2 = (Inr u, s1, w1)"
      using less.prems(2) unfolding for_chunks.simps [of _ buf rem] Let_def chunk_def [symmetric]
      by (auto simp: result_simps)
    have so: "unat (so + chunk) = unat so + unat chunk" and to: "unat (to + chunk) = unat to + unat chunk"
      using c less.prems(3,4) by (auto intro!: unat_plus_64)
    have B: "s2 = s \<and> mem w2 = mem w \<and> (\<forall>i < unat chunk. mem w (unat to + i) = src (unat so + i))"
      by (rule readback_chunk_ok [OF b]) (use c less.prems(3,4) in simp_all)
    have R: "s1 = s2 \<and> mem w1 = mem w2 \<and> (\<forall>i < unat (rem - chunk).
        mem w2 (unat (to + chunk) + i) = src (unat (so + chunk) + i))"
      by (rule less.hyps [OF _ r less.prems(2)]) (use c so to less.prems(3,4) in simp_all)
    have "mem w (unat to + i) = src (unat so + i)" if "i < unat rem" for i
    proof (cases "i < unat chunk")
      case True
      then show ?thesis using B by simp
    next
      case ge: False
      then have "i - unat chunk < unat (rem - chunk)" using that c by simp
      then have "mem w2 (unat (to + chunk) + (i - unat chunk)) = src (unat (so + chunk) + (i - unat chunk))"
        using R by blast
      then show ?thesis using ge B so to by (simp add: not_less)
    qed
    then show ?thesis using B R by simp
  qed
qed

lemma readback_operations_ok:
  assumes "for_operations (readback_operation env ops) os s w = (Inr u, s1, w1)"
    "0 < xo_chunkSize ops" "xo_chunkSize ops \<le> 64 * 1024 * 1024" "\<And>op. op \<in> set os \<Longrightarrow> op_fits op"
  shows "s1 = s \<and> mem w1 = mem w \<and> (\<forall>op \<in> set os. op_restored src (mem w) op)"
  using assms(1,4)
proof (induction os arbitrary: s w)
  case Nil
  then show ?case by (simp add: result_simps)
next
  case (Cons op os)
  from Cons.prems(1) obtain s2 w2 where
    b: "readback_operation env ops op s w = (Inr (), s2, w2)" and
    r: "for_operations (readback_operation env ops) os s2 w2 = (Inr u, s1, w1)"
    by (auto simp: result_simps)
  have nz: "(word_of_int (xo_chunkSize ops) :: u64) \<noteq> 0"
    by (rule word_of_int_nonzero) (use assms(2,3) in simp_all)
  have f: "op_fits op" using Cons.prems(2) by simp
  have "s2 = s \<and> mem w2 = mem w \<and> (\<forall>i < unat (op_PayloadLength op).
      mem w (unat (op_TargetOffset op) + i) = src (unat (op_PayloadOffset op) + i))"
    using f by (intro readback_chunks_ok [OF b [unfolded readback_operation_def] nz]) (auto simp: op_fits_def)
  moreover have "s1 = s2 \<and> mem w1 = mem w2 \<and> (\<forall>op \<in> set os. op_restored src (mem w2) op)"
    by (rule Cons.IH [OF r]) (use Cons.prems(2) in simp)
  ultimately show ?case using f by (simp add: op_restored_def op_fits_def)
qed

lemma verified_transaction:
  assumes "transaction env ops a s w = (Inr u, s1, w1)" "validateFullFlashExecutionOps ops = Inr v"
  shows "\<forall>op \<in> set (wo_Operations (ma_writeOrder a)). op_restored src (mem w1) op"
proof -
  let ?target = "the (dc_target (the (ma_confirmation a)))"
  from assms(1) obtain s2 w2 s3 w3 s4 w4 s5 w5 where
    a: "authorization_validateLocked a = Inr ()" and
    b: "for_operations (readback_operation env ops) (wo_Operations (ma_writeOrder a)) s4 w4 = (Inr (), s5, w5)" and
    f: "revalidateFullFlashExecutionLocked env ?target (the (ts_source ?target)) w5 = (Inr u, w1)"
    unfolding transaction_def readback_def before_mutation_def Let_def by (auto simp: result_simps)
  have "s5 = s4 \<and> mem w5 = mem w4 \<and> (\<forall>op \<in> set (wo_Operations (ma_writeOrder a)). op_restored src (mem w4) op)"
    by (rule readback_operations_ok [OF b])
       (use assms(2) validated_ops_fit [OF a] in \<open>auto simp: validateFullFlashExecutionOps_def split: if_splits\<close>)
  moreover have "mem w1 = mem w5" by (rule act_keepsD [OF quiet_revalidate [OF quiet(1)] f])
  ultimately show ?thesis by simp
qed

end

section \<open>Which bytes a run can change\<close>

lemma full_length: "readFullFlashAt rd n off w = (Inr d, w1) \<Longrightarrow> length d = n"
proof (induction n arbitrary: off w d rule: less_induct)
  case (less n)
  show ?case
  proof (cases "n = 0")
    case True
    then show ?thesis using less.prems unfolding readFullFlashAt.simps [of rd n off w] by simp
  next
    case False
    obtain x e w2 where r: "rd n off w = ((x, e), w2)" by (metis surj_pair)
    show ?thesis
    proof (cases e)
      case (Some err)
      then show ?thesis
        using less.prems False unfolding readFullFlashAt.simps [of rd n off w] r
        by (auto simp: Let_def split: if_splits)
    next
      case None
      then obtain ds where "take n x \<noteq> []" and d: "d = take n x @ ds" and
        rec: "readFullFlashAt rd (n - length (take n x)) (off + of_nat (length (take n x))) w2 = (Inr ds, w1)"
        using less.prems False unfolding readFullFlashAt.simps [of rd n off w] r
        by (auto simp: Let_def split: if_splits prod.splits sum.splits)
      then have "length ds = n - length (take n x)" by (intro less.IH [OF _ rec]) auto
      then show ?thesis using d by simp
    qed
  qed
qed

lemma step_keeps_bind_Inr:
  assumes "step_keeps P m" "\<And>x s w s1 w1. m s w = (Inr x, s1, w1) \<Longrightarrow> step_keeps P (f x)"
  shows "step_keeps P (bind_step m f)"
proof (rule step_keepsI)
  fix s w r s1 w1 assume p: "P s w" and b: "bind_step m f s w = (r, s1, w1)"
  obtain o1 s2 w2 where m: "m s w = (o1, s2, w2)" by (cases "m s w")
  have p2: "P s2 w2" by (rule step_keepsD [OF assms(1) p m])
  show "P s1 w1"
  proof (cases o1)
    case (Inl e)
    then show ?thesis using b m p2 by (simp add: bind_step_def)
  next
    case (Inr x)
    then have "f x s2 w2 = (r, s1, w1)" using b m by (simp add: bind_step_def)
    then show ?thesis using Inr m by (intro step_keepsD [OF assms(2) p2]) simp_all
  qed
qed

context quiet_store
begin

lemma step_calls [step_rules]:
  "step_keeps (\<lambda>s w. Q s (view w)) (at_stage st (try_call (en_ctx_err env)))"
  "step_keeps (\<lambda>s w. Q s (view w)) (at_stage st (try_call (en_lease_check env)))"
  "step_keeps (\<lambda>s w. Q s (view w)) (at_stage st (revalidateFullFlashExecutionLocked env tg sl))"
  "step_keeps (\<lambda>s w. Q s (view w)) (at_stage st (verify_source env i))"
  "step_keeps (\<lambda>s w. Q s (view w)) (at_stage st (lease_context_alive env))"
  "step_keeps (\<lambda>s w. Q s (view w)) (at_stage st (pure_act r))"
  "step_keeps (\<lambda>s w. Q s (view w)) (at_stage st (try_call sync))"
  "step_keeps (\<lambda>s w. Q s (view w)) (at_stage st (readFullFlashAt rs n off))"
  "step_keeps (\<lambda>s w. Q s (view w)) (at_stage st (readFullFlashAt rt n off))"
  using quiet
  by (auto intro!: step_keeps_call [where v = view] quiet_calls quiet_revalidate quiet_verify_source
      quiet_lease_context)

lemma step_hook [step_rules]:
  "step_keeps (\<lambda>s w. Q s (view w)) (at_stage st (\<lambda>w. (Inr (),
     case xo_beforeFirstWrite ops of Some hook \<Rightarrow> hook w | None \<Rightarrow> w)))"
  using quiet(2)
  by (intro step_keeps_call [where v = view]) (auto simp: act_keeps_def quiet_hooks_def split: option.splits)

lemma before_mutation_keeps:
  assumes "\<And>s m. Q s m \<Longrightarrow> Q (s\<lparr>es_result := (es_result s)\<lparr>xr_SourceLeaseRevalidated := True, xr_TargetSessionRevalidated := True\<rparr>\<rparr>) m"
  shows "step_keeps (\<lambda>s w. Q s (view w)) (before_mutation env ops a)"
  unfolding before_mutation_def Let_def by (intro step_rules) (rule assms)

lemma readback_keeps: "step_keeps (\<lambda>s w. Q s (view w)) (readback env ops a tg sl)"
  unfolding readback_def readback_operation_def readback_chunk_def wired option.sel
  by (intro step_rules step_keeps_chunks)

lemma durability_keeps:
  assumes "\<And>s m. Q s m \<Longrightarrow> Q (s\<lparr>es_result := (es_result s)\<lparr>xr_WriteCompleted := True\<rparr>\<rparr>) m"
    "\<And>s m. Q s m \<Longrightarrow> Q (s\<lparr>es_result := (es_result s)\<lparr>xr_SyncCompleted := True\<rparr>\<rparr>) m"
  shows "step_keeps (\<lambda>s w. Q s (view w)) (durability env ops tg sl)"
proof -
  have "step_keeps (\<lambda>s w. Q s (view w)) write_accounting"
    by (rule step_keepsI) (auto simp: write_accounting_def Let_def split: if_splits)
  then show ?thesis
    unfolding durability_def wired option.sel by (intro step_rules) (rule assms | assumption)+
qed

lemma operations_keep:
  assumes "\<And>s m n. Q s m \<Longrightarrow> Q (s\<lparr>es_result := (es_result s)\<lparr>xr_OperationCountCompleted := n\<rparr>\<rparr>) m"
    and "\<And>op chunk k payload. op \<in> set os \<Longrightarrow> length payload = unat chunk \<Longrightarrow> 0 < unat chunk \<Longrightarrow>
        unat k + unat chunk \<le> unat (op_PayloadLength op) \<Longrightarrow>
        step_keeps (\<lambda>s w. Q s (view w)) (write_payload ops chunk payload (op_TargetOffset op + k))"
  shows "step_keeps (\<lambda>s w. Q s (view w)) (for_operations (write_operation env ops) os)"
proof -
  have chunks: "step_keeps (\<lambda>s w. Q s (view w)) (write_chunk env ops chunk so (op_TargetOffset op + k))"
    if "op \<in> set os" "0 < unat chunk" "unat k + unat chunk \<le> unat (op_PayloadLength op)"
    for op chunk k so
    unfolding write_chunk_def wired option.sel
    by (intro step_rules step_keeps_bind_Inr)
       (auto simp: result_simps offset_ok intro!: assms(2) that dest: full_length)
  show ?thesis
    unfolding write_operation_def by (intro step_rules step_keeps_chunks chunks) (auto intro: assms(1))
qed

lemma transaction_keeps:
  assumes
    "\<And>s m. Q s m \<Longrightarrow> Q (s\<lparr>es_result := (es_result s)\<lparr>xr_SourceLeaseRevalidated := True, xr_TargetSessionRevalidated := True\<rparr>\<rparr>) m"
    "\<And>s m. Q s m \<Longrightarrow> Q (s\<lparr>es_consumed := True, es_result := (es_result s)\<lparr>xr_AuthorizationConsumed := True\<rparr>\<rparr>) m"
    "\<And>s m n. Q s m \<Longrightarrow> Q (s\<lparr>es_result := (es_result s)\<lparr>xr_OperationCountCompleted := n\<rparr>\<rparr>) m"
    "\<And>s m. Q s m \<Longrightarrow> Q (s\<lparr>es_result := (es_result s)\<lparr>xr_WriteCompleted := True\<rparr>\<rparr>) m"
    "\<And>s m. Q s m \<Longrightarrow> Q (s\<lparr>es_result := (es_result s)\<lparr>xr_SyncCompleted := True\<rparr>\<rparr>) m"
    "\<And>op chunk k payload. op \<in> set (wo_Operations (ma_writeOrder a)) \<Longrightarrow> length payload = unat chunk \<Longrightarrow>
        0 < unat chunk \<Longrightarrow> unat k + unat chunk \<le> unat (op_PayloadLength op) \<Longrightarrow>
        step_keeps (\<lambda>s w. Q s (view w)) (write_payload ops chunk payload (op_TargetOffset op + k))"
  shows "step_keeps (\<lambda>s w. Q s (view w)) (transaction env ops a)"
proof -
  have "step_keeps (\<lambda>s w. Q s (view w)) (mutation env ops a)"
    unfolding mutation_def by (intro step_keeps_bind step_keeps_update operations_keep) (rule assms; assumption)+
  then show ?thesis
    unfolding transaction_def Let_def
    by (intro step_keeps_bind before_mutation_keeps durability_keeps readback_keeps) (auto intro: assms)
qed

end

lemma write_payload_world:
  assumes "write_payload ops chunk payload to s w = (r, s1, w1)" "quiet_hooks v ops"
  obtains written e w2 where "writeFullFlashAt (the (xo_writeTarget ops)) payload to w = ((written, e), w2)"
    "v w1 = v w2" "s1 = s\<lparr>es_result := count_written written (es_result s)\<rparr>"
proof -
  obtain written e w2 where wf: "writeFullFlashAt (the (xo_writeTarget ops)) payload to w = ((written, e), w2)"
    by (metis surj_pair)
  have "v w1 = v w2" "s1 = s\<lparr>es_result := count_written written (es_result s)\<rparr>"
    using assms by (auto simp: write_payload_def wf Let_def quiet_hooks_def split: option.splits if_splits)
  with wf show thesis by (rule that)
qed

text \<open>A target byte that some operation writes.\<close>

definition op_covers :: "OrderedFullFlashWriteOperation \<Rightarrow> nat \<Rightarrow> bool" where
  "op_covers op a \<longleftrightarrow> unat (op_TargetOffset op) \<le> a \<and> a < unat (op_TargetOffset op) + unat (op_TargetLength op)"

context confined_store
begin

lemma write_full_confined:
  assumes "writeFullFlashAt wt buf off w = (r, w1)" "unat off + length buf \<le> 2 ^ 64"
    "a < unat off \<or> unat off + length buf \<le> a"
  shows "mem w1 a = mem w a"
  using assms
proof (induction "length buf" arbitrary: buf off w r rule: less_induct)
  case less
  show ?case
  proof (cases "buf = []")
    case True
    then show ?thesis using less.prems unfolding writeFullFlashAt.simps [of wt buf off w] by simp
  next
    case False
    obtain n e w2 where c: "wt buf off w = ((n, e), w2)" by (metis surj_pair)
    let ?n = "min n (length buf)"
    have m2: "mem w2 a = mem w a" by (rule confined [OF c less.prems(3)])
    show ?thesis
    proof (cases "e = None \<and> ?n \<noteq> 0")
      case stop: False
      then have "w1 = w2"
        using less.prems(1) False unfolding writeFullFlashAt.simps [of wt buf off w] c
        by (auto simp: Let_def split: option.splits if_splits)
      then show ?thesis using m2 by simp
    next
      case go: True
      then obtain r2 where rec: "writeFullFlashAt wt (drop ?n buf) (off + of_nat ?n) w2 = (r2, w1)"
        using less.prems(1) False unfolding writeFullFlashAt.simps [of wt buf off w] c
        by (cases "?n = 0") (auto simp: Let_def split: prod.splits)
      have "mem w1 a = mem w2 a"
      proof (cases "?n < length buf")
        case True
        have u: "unat (off + of_nat ?n) = unat off + ?n"
          using True less.prems(2) by (subst unat_plus_64) (simp_all add: unat_of_nat_64)
        show ?thesis
          by (rule less.hyps [OF _ rec]) (use go False True u less.prems in auto)
      next
        case all: False
        then show ?thesis using rec unfolding writeFullFlashAt.simps [of wt "drop ?n buf"] by simp
      qed
      then show ?thesis using m2 by simp
    qed
  qed
qed

lemma frame:
  assumes "transaction env ops a s w = (r, s1, w1)" "authorization_validateLocked a = Inr u"
    "\<forall>op \<in> set (wo_Operations (ma_writeOrder a)). \<not> op_covers op x"
  shows "mem w1 x = mem w x"
proof -
  let ?Q = "\<lambda>(s :: exec_state) m. m x = mem w x"
  have "step_keeps (\<lambda>s w. ?Q s (mem w)) (transaction env ops a)"
  proof (rule transaction_keeps [where Q = ?Q])
    fix op and chunk k :: u64 and payload :: bytes
    assume op: "op \<in> set (wo_Operations (ma_writeOrder a))" and l: "length payload = unat chunk"
      and b: "unat k + unat chunk \<le> unat (op_PayloadLength op)"
    note f = validated_ops_fit [OF assms(2) op]
    have u: "unat (op_TargetOffset op + k) = unat (op_TargetOffset op) + unat k"
      by (rule split_range [where n = "unat (op_TargetLength op)"]) (use f b in \<open>simp_all add: op_fits_def\<close>)
    have out: "x < unat (op_TargetOffset op + k) \<or> unat (op_TargetOffset op + k) + length payload \<le> x"
      using assms(3) op f b l u by (auto simp: op_covers_def op_fits_def)
    have le: "unat (op_TargetOffset op + k) + length payload \<le> 2 ^ 64"
      using f b l u by (simp add: op_fits_def)
    show "step_keeps (\<lambda>s w. ?Q s (mem w)) (write_payload ops chunk payload (op_TargetOffset op + k))"
    proof (rule step_keepsI)
      fix s' w' r' s2 w2
      assume q: "mem w' x = mem w x"
        and p: "write_payload ops chunk payload (op_TargetOffset op + k) s' w' = (r', s2, w2)"
      obtain n e w3 where "writeFullFlashAt wt payload (op_TargetOffset op + k) w' = ((n, e), w3)" "mem w2 = mem w3"
        by (rule write_payload_world [OF p quiet(2)]) (simp add: wired)
      then show "mem w2 x = mem w x" using write_full_confined [OF _ le out] q by simp
    qed
  qed auto
  from step_keepsD [OF this _ assms(1)] show ?thesis by simp
qed

end

context exact_store
begin

lemma write_full_none:
  assumes "writeFullFlashAt wt buf off w = ((0, e), w1)"
  shows "mem w1 = mem w"
proof (cases "buf = []")
  case True
  then show ?thesis using assms unfolding writeFullFlashAt.simps [of wt buf off w] by simp
next
  case False
  obtain n e w2 where c: "wt buf off w = ((n, e), w2)" by (metis surj_pair)
  have "w1 = w2 \<and> n = 0"
    using assms False unfolding writeFullFlashAt.simps [of wt buf off w] c
    by (auto simp: Let_def min_def split: option.splits if_splits prod.splits)
  then show ?thesis using exact [OF c] by simp
qed

lemma not_started:
  assumes "transaction env ops a s w = (r, s1, w1)" "\<not> xr_MutationStarted (es_result s1)"
  shows "mem w1 = mem w"
proof -
  let ?Q = "\<lambda>s m. \<not> xr_MutationStarted (es_result s) \<longrightarrow> m = mem w"
  have "step_keeps (\<lambda>s w. ?Q s (mem w)) (transaction env ops a)"
  proof (rule transaction_keeps [where Q = ?Q])
    fix op and chunk k :: u64 and payload :: bytes
    show "step_keeps (\<lambda>s w. ?Q s (mem w)) (write_payload ops chunk payload (op_TargetOffset op + k))"
    proof (rule step_keepsI, rule impI)
      fix s' w' r' s2 w2
      assume q: "?Q s' (mem w')" and n: "\<not> xr_MutationStarted (es_result s2)"
        and p: "write_payload ops chunk payload (op_TargetOffset op + k) s' w' = (r', s2, w2)"
      obtain n e w3 where c: "writeFullFlashAt wt payload (op_TargetOffset op + k) w' = ((n, e), w3)"
        and m: "mem w2 = mem w3" and s2: "s2 = s'\<lparr>es_result := count_written n (es_result s')\<rparr>"
        by (rule write_payload_world [OF p quiet(2)]) (simp add: wired)
      have z: "n = 0" and "\<not> xr_MutationStarted (es_result s')"
        using n by (auto simp: s2 count_written_def split: if_splits)
      then show "mem w2 = mem w" using write_full_none [OF c [unfolded z]] m q by simp
    qed
  qed auto
  from step_keepsD [OF this _ assms(1)] assms(2) show ?thesis by simp
qed

end

section \<open>The executor under the contracts\<close>

definition initial_state :: "FullFlashMutationAuthorization \<Rightarrow> exec_state" where
  "initial_state a = \<lparr> es_result = newFullFlashExecutionResult a, es_consumed = ma_consumed a \<rparr>"

lemma initial_state_simps [simp]:
  "es_result (initial_state a) = newFullFlashExecutionResult a" "es_consumed (initial_state a) = ma_consumed a"
  by (simp_all add: initial_state_def)

text \<open>Every call either refuses before anything happened or reports what the transaction reached.\<close>

lemma execute_outcome:
  assumes "executeAuthorizedSinglePhaseFullFlashWithOps (Some env) (Some a) ops w = ((r, e), a2, w1)"
  obtains (refused) err where "validateFullFlashExecutionOps ops = Inl err" "e = Some err" "a2 = Some a" "w1 = w"
      "r = finalizeFullFlashExecutionFailure zero_execution_result ''operations'' err"
    | (failed) stage err s where "validateFullFlashExecutionOps ops = Inr ()"
      "transaction env ops a (initial_state a) w = (Inl (stage, err), s, w1)" "e = Some err"
      "a2 = Some (a\<lparr>ma_consumed := es_consumed s\<rparr>)" "r = finalizeFullFlashExecutionFailure (es_result s) stage err"
    | (completed) s where "validateFullFlashExecutionOps ops = Inr ()"
      "transaction env ops a (initial_state a) w = (Inr (), s, w1)"
      "e = (case validateFullFlashExecutionResult (verified_result (es_result s)) of Inl err \<Rightarrow> Some err | Inr _ \<Rightarrow> None)"
      "a2 = Some (a\<lparr>ma_consumed := es_consumed s\<rparr>)" "r = verified_result (es_result s)"
proof (cases "validateFullFlashExecutionOps ops")
  case (Inl err)
  then show thesis using assms refused by (simp add: executeAuthorizedSinglePhaseFullFlashWithOps_def Let_def)
next
  case (Inr u)
  obtain outcome s w2 where t: "transaction env ops a (initial_state a) w = (outcome, s, w2)" by (metis prod_cases3)
  note d = assms [unfolded executeAuthorizedSinglePhaseFullFlashWithOps_def Let_def option.case Inr sum.case
      initial_state_def [symmetric] t prod.case]
  show thesis
  proof (cases outcome)
    case (Inl se)
    then show thesis using d t Inr by (cases se) (auto intro: failed)
  next
    case r: (Inr v)
    then show thesis using d t Inr by (auto intro: completed)
  qed
qed

lemma finalize_fields [simp]:
  "xr_MutationStarted (finalizeFullFlashExecutionFailure r st e) = xr_MutationStarted r"
  "xr_AuthorizationConsumed (finalizeFullFlashExecutionFailure r st e) = xr_AuthorizationConsumed r"
  "xr_ExecutionSucceeded (finalizeFullFlashExecutionFailure r st e) = False"
  "xr_ErrorObserved (finalizeFullFlashExecutionFailure r st e) = True"
  "xr_ErrorStage (finalizeFullFlashExecutionFailure r st e) = st"
  "xr_TargetMayBePartiallyModified (finalizeFullFlashExecutionFailure r st e) = xr_MutationStarted r"
  "xr_WriteCompleted (finalizeFullFlashExecutionFailure r st e) = xr_WriteCompleted r"
  "xr_SyncCompleted (finalizeFullFlashExecutionFailure r st e) = xr_SyncCompleted r"
  "xr_Status (finalizeFullFlashExecutionFailure r st e) =
     (if \<not> xr_MutationStarted r then ''not-started''
      else if xr_WriteCompleted r \<and> xr_SyncCompleted r then ''written-unverified'' else ''partially-modified'')"
  by (simp_all add: finalizeFullFlashExecutionFailure_def Let_def record_status_def record_cancellation_def)

lemma new_result_fields [simp]:
  "xr_MutationStarted (newFullFlashExecutionResult a) = False"
  "xr_AuthorizationConsumed (newFullFlashExecutionResult a) = ma_consumed a"
  by (simp_all add: newFullFlashExecutionResult_def Let_def zero_execution_result_def)

lemma verified_fields [simp]:
  "xr_Status (verified_result r) = ''verified''" "xr_ExecutionSucceeded (verified_result r) = True"
  "xr_MutationStarted (verified_result r) = xr_MutationStarted r"
  "xr_AuthorizationConsumed (verified_result r) = xr_AuthorizationConsumed r"
  by (simp_all add: verified_result_def Let_def)

lemma transaction_refused:
  assumes "authorization_validateLocked a = Inl e"
  shows "transaction env ops a s w = (Inl (''authorization'', e), s, w)"
  by (simp add: transaction_def before_mutation_def bind_step_def at_stage_def pure_act_def assms Let_def)

text \<open>
  C7: when the executor reports success, the target holds the authenticated payload of every
  operation of the sealed plan, byte for byte, whatever the writes really did: it is enough that
  reads are faithful, in replies of any length, and that only writes change the medium.
\<close>

theorem verified_run_restored:
  assumes "target_store rs rt mem src env ops wt sync"
    "executeAuthorizedSinglePhaseFullFlashWithOps (Some env) (Some a) ops w = ((r, None), a2, w1)"
  shows "xr_Status r = ''verified''
    \<and> (\<forall>op \<in> set (wo_Operations (ma_writeOrder a)). op_restored src (mem w1) op)"
  using assms(2)
proof (cases rule: execute_outcome)
  case (completed s)
  then show ?thesis using target_store.verified_transaction [OF assms(1) completed(2,1)] by simp
qed simp_all

text \<open>
  C8: on every outcome, errors and cancellation included, no byte of the target outside the
  extents of the authorized plan is changed, provided a write touches nothing outside the bytes
  it was given.
\<close>

theorem only_authorized_bytes_change:
  assumes "confined_store rs rt mem src env ops wt sync"
    "executeAuthorizedSinglePhaseFullFlashWithOps (Some env) (Some a) ops w = (out, a2, w1)"
    "\<forall>op \<in> set (wo_Operations (ma_writeOrder a)). \<not> op_covers op x"
  shows "mem w1 x = mem w x"
proof -
  obtain r e where "out = (r, e)" by fastforce
  with assms(2) have ex: "executeAuthorizedSinglePhaseFullFlashWithOps (Some env) (Some a) ops w = ((r, e), a2, w1)" by simp
  have t: "mem w1 x = mem w x" if "transaction env ops a s w = (o1, s1, w1)" for s o1 s1
  proof (cases "authorization_validateLocked a")
    case (Inl err)
    then show ?thesis using that by (simp add: transaction_refused)
  next
    case (Inr u)
    then show ?thesis by (rule confined_store.frame [OF assms(1) that _ assms(3)])
  qed
  from ex show ?thesis by (cases rule: execute_outcome) (auto intro: t)
qed

text \<open>
  A run that reports the status not-started has left the whole target as it was, provided a
  write changes exactly the bytes it reports.
\<close>

theorem not_started_means_untouched:
  assumes "exact_store rs rt mem src env ops wt sync"
    "executeAuthorizedSinglePhaseFullFlashWithOps (Some env) (Some a) ops w = ((r, e), a2, w1)"
    "xr_Status r = ''not-started''"
  shows "mem w1 = mem w"
  using assms(2)
proof (cases rule: execute_outcome)
  case (failed stage err s)
  then show ?thesis
    using assms(3) by (intro exact_store.not_started [OF assms(1) failed(2)]) (auto split: if_splits)
qed (use assms(3) in simp_all)


section \<open>The reported state on every outcome\<close>

lemma payload_state:
  assumes "\<And>s n. P s \<Longrightarrow> P (s\<lparr>es_result := count_written n (es_result s)\<rparr>)"
  shows "step_keeps (\<lambda>s w. P s) (write_payload ops chunk payload to)"
  by (rule step_keepsI)
     (auto simp: write_payload_def Let_def intro: assms split: prod.splits option.splits if_splits)

lemma count_written_fields [simp]:
  "xr_AuthorizationConsumed (count_written n r) = xr_AuthorizationConsumed r"
  "xr_WriteCompleted (count_written n r) = xr_WriteCompleted r"
  "xr_SyncCompleted (count_written n r) = xr_SyncCompleted r"
  "xr_CancellationObserved (count_written n r) = xr_CancellationObserved r"
  "xr_CancelledBeforeMutation (count_written n r) = xr_CancelledBeforeMutation r"
  "xr_CancelledAfterMutation (count_written n r) = xr_CancelledAfterMutation r"
  by (simp_all add: count_written_def)

lemma transaction_consumption:
  assumes "transaction env ops a s w = (r, s1, w1)" "validateFullFlashExecutionOps ops = Inr u"
  shows "es_consumed s1 \<and> xr_AuthorizationConsumed (es_result s1)
    \<or> es_consumed s1 = es_consumed s
      \<and> xr_AuthorizationConsumed (es_result s1) = xr_AuthorizationConsumed (es_result s)
      \<and> xr_MutationStarted (es_result s1) = xr_MutationStarted (es_result s)"
proof -
  note q = quiet_trivial [OF assms(2), of env]
  define tg where "tg = the (dc_target (the (ma_confirmation a)))"
  define rest where "rest = (\<lambda>_ :: unit. bind_step (durability env ops tg (the (ts_source tg)))
    (\<lambda>_. readback env ops a tg (the (ts_source tg))))"
  define consume :: "exec_state \<Rightarrow> exec_state" where "consume = (\<lambda>s. s\<lparr>es_consumed := True, es_result := (es_result s)\<lparr>xr_AuthorizationConsumed := True\<rparr>\<rparr>)"
  let ?C = "\<lambda>s (m :: unit). es_consumed s \<and> xr_AuthorizationConsumed (es_result s)"
  let ?S = "\<lambda>s' (m :: unit). es_consumed s' = es_consumed s
      \<and> xr_AuthorizationConsumed (es_result s') = xr_AuthorizationConsumed (es_result s)
      \<and> xr_MutationStarted (es_result s') = xr_MutationStarted (es_result s)"
  have t: "transaction env ops a = bind_step (before_mutation env ops a) (\<lambda>_.
      bind_step (mutation env ops a) rest)"
    by (simp add: transaction_def rest_def tg_def Let_def)
  obtain r2 s2 w2 where b: "before_mutation env ops a s w = (r2, s2, w2)" by (metis prod_cases3)
  have B: "?S s2 ()"
    by (rule step_keepsD [OF quiet_store.before_mutation_keeps [OF q, where Q = ?S] _ b]) simp_all
  show ?thesis
  proof (cases r2)
    case (Inl e)
    then show ?thesis using B b assms(1) unfolding t by (simp add: bind_step_def)
  next
    case (Inr x)
    have "step_keeps (\<lambda>s w. ?C s ()) (for_operations (write_operation env ops) os)" for os
      by (rule quiet_store.operations_keep [OF q, where Q = ?C]) (auto intro: payload_state)
    moreover have "step_keeps (\<lambda>s w. ?C s ()) (rest x)" for x
      unfolding rest_def
      by (intro step_keeps_bind quiet_store.durability_keeps [OF q, where Q = ?C]
          quiet_store.readback_keeps [OF q, where Q = ?C]) auto
    ultimately have k: "step_keeps (\<lambda>s w. ?C s ()) (bind_step (for_operations (write_operation env ops)
        (wo_Operations (ma_writeOrder a))) rest)"
      by (rule step_keeps_bind)
    have "bind_step (for_operations (write_operation env ops) (wo_Operations (ma_writeOrder a))) rest
        (consume s2) w2 = (r, s1, w1)"
      using assms(1) b Inr unfolding t consume_def
      by (simp add: bind_step_def mutation_def update_step_def split: prod.splits sum.splits)
    then show ?thesis using step_keepsD [OF k, of "consume s2" w2 r s1 w1] by (simp add: consume_def)
  qed
qed

text \<open>
  C10: an authorization is one-shot. Once a run has begun to modify the target, or has merely
  reported the authorization consumed, the authorization it leaves behind is refused by every
  later run, in any environment and with any operations: that run reports an error, starts no
  mutation and does not even touch the world.
\<close>

theorem authorization_is_one_shot:
  assumes "executeAuthorizedSinglePhaseFullFlashWithOps (Some env) (Some a) ops w = ((r, e), a2, w1)"
    "xr_MutationStarted r \<or> xr_AuthorizationConsumed r"
  shows "\<exists>r2 e2. executeAuthorizedSinglePhaseFullFlashWithOps env2 a2 ops2 w2 = ((r2, Some e2), a2, w2)
    \<and> \<not> xr_MutationStarted r2 \<and> \<not> xr_ExecutionSucceeded r2"
proof -
  have con: "es_consumed s" if "transaction env ops a (initial_state a) w = (o1, s, w1)"
    "validateFullFlashExecutionOps ops = Inr ()"
    "xr_MutationStarted (es_result s) \<or> xr_AuthorizationConsumed (es_result s)" for o1 s
    using transaction_consumption [OF that(1,2)] that(3) by auto
  have "\<exists>a3. a2 = Some a3 \<and> ma_consumed a3"
    using assms(1)
  proof (cases rule: execute_outcome)
    case (refused err)
    then show ?thesis using assms(2) by (simp add: zero_execution_result_def)
  next
    case (failed stage err s)
    then show ?thesis using con [OF failed(2,1)] assms(2) by simp
  next
    case (completed s)
    then show ?thesis using con [OF completed(2,1)] assms(2) by simp
  qed
  then obtain a3 where a3: "a2 = Some a3" "ma_consumed a3" by blast
  show ?thesis
  proof (cases env2)
    case None
    then show ?thesis
      by (simp add: executeAuthorizedSinglePhaseFullFlashWithOps_def zero_execution_result_def)
  next
    case (Some en)
    have v: "authorization_validateLocked a3 = Inl (Msg ''FFU mutation authorization has already been consumed'')"
      using a3 by (simp add: authorization_validateLocked_def)
    show ?thesis
      unfolding Some a3
      by (cases "validateFullFlashExecutionOps ops2")
         (simp_all add: executeAuthorizedSinglePhaseFullFlashWithOps_def Let_def transaction_refused [OF v]
           zero_execution_result_def)
  qed
qed

text \<open>What the result of a completed transaction looks like.\<close>

definition completed_result :: "FullFlashMutationAuthorization \<Rightarrow> FullFlashExecutionResult" where
  "completed_result a = (newFullFlashExecutionResult a)\<lparr>
     xr_SourceLeaseRevalidated := True, xr_TargetSessionRevalidated := True, xr_AuthorizationConsumed := True,
     xr_MutationStarted := True, xr_MutationBytesWritten := wo_MutationBytes (ma_writeOrder a),
     xr_OperationCountCompleted := wo_OperationCount (ma_writeOrder a),
     xr_WriteCompleted := True, xr_SyncCompleted := True\<rparr>"

definition written_result :: "FullFlashExecutionResult \<Rightarrow> bool \<Rightarrow> u64 \<Rightarrow> u64 \<Rightarrow> FullFlashExecutionResult" where
  "written_result r b n m = r\<lparr>xr_MutationStarted := b, xr_MutationBytesWritten := n, xr_OperationCountCompleted := m\<rparr>"

lemma written_result_upd:
  "(written_result r b n m)\<lparr>xr_OperationCountCompleted := m2\<rparr> = written_result r b n m2"
  "count_written k (written_result r b n m) =
     written_result r (b \<or> 0 < k) (if 0 < k then n + of_nat k else n) m"
  by (simp_all add: written_result_def count_written_def)

definition written_from :: "FullFlashExecutionResult \<Rightarrow> FullFlashExecutionResult \<Rightarrow> bool" where
  "written_from r1 r \<longleftrightarrow> (\<exists>b n m. r = written_result r1 b n m \<and> (n \<noteq> 0 \<longrightarrow> b))"

lemma written_from_operation: "written_from r1 r \<Longrightarrow> written_from r1 (r\<lparr>xr_OperationCountCompleted := m2\<rparr>)"
  unfolding written_from_def using written_result_upd(1) by metis

lemma written_from_count: "written_from r1 r \<Longrightarrow> written_from r1 (count_written k r)"
proof -
  assume "written_from r1 r"
  then obtain b n m where r: "r = written_result r1 b n m" "n \<noteq> 0 \<longrightarrow> b" by (auto simp: written_from_def)
  show ?thesis
    unfolding written_from_def r(1) written_result_upd(2)
    by (rule exI [of _ "b \<or> 0 < k"], rule exI [of _ "if 0 < k then n + of_nat k else n"], rule exI [of _ m])
       (use r(2) in auto)
qed

lemma transaction_completed:
  assumes "transaction env ops a (initial_state a) w = (Inr u, s1, w1)" "validateFullFlashExecutionOps ops = Inr v"
  shows "es_result s1 = completed_result a \<and> es_consumed s1 \<and> authorization_validateLocked a = Inr ()"
proof -
  note q = quiet_trivial [OF assms(2), of env]
  let ?r0 = "newFullFlashExecutionResult a"
  define tg where "tg = the (dc_target (the (ma_confirmation a)))"
  define r1 where "r1 = ?r0\<lparr>xr_SourceLeaseRevalidated := True, xr_TargetSessionRevalidated := True, xr_AuthorizationConsumed := True\<rparr>"
  from assms(1) obtain s2 w2 s3 w3 s4 w4 where
    b: "before_mutation env ops a (initial_state a) w = (Inr (), s2, w2)" and
    m: "mutation env ops a s2 w2 = (Inr (), s3, w3)" and
    d: "durability env ops tg (the (ts_source tg)) s3 w3 = (Inr (), s4, w4)" and
    k: "readback env ops a tg (the (ts_source tg)) s4 w4 = (Inr u, s1, w1)"
    unfolding transaction_def tg_def Let_def by (auto simp: result_simps)
  have a: "authorization_validateLocked a = Inr ()" and
    s2: "s2 = (initial_state a)\<lparr>es_result := ?r0\<lparr>xr_SourceLeaseRevalidated := True, xr_TargetSessionRevalidated := True\<rparr>\<rparr>"
    using b unfolding before_mutation_def Let_def by (auto simp: result_simps)
  let ?Q = "\<lambda>s (x :: unit). es_consumed s \<and> written_from r1 (es_result s)"
  have st: "?Q (s2\<lparr>es_consumed := True, es_result := (es_result s2)\<lparr>xr_AuthorizationConsumed := True\<rparr>\<rparr>) ()"
  proof -
    have "es_result s2\<lparr>xr_AuthorizationConsumed := True\<rparr> = written_result r1 False 0 0"
      by (simp add: s2 written_result_def r1_def newFullFlashExecutionResult_def Let_def zero_execution_result_def)
    then show ?thesis unfolding written_from_def by auto
  qed
  have "step_keeps (\<lambda>s w. ?Q s ()) (for_operations (write_operation env ops) (wo_Operations (ma_writeOrder a)))"
    by (rule quiet_store.operations_keep [OF q, where Q = ?Q])
       (auto intro!: payload_state written_from_operation written_from_count)
  then have "?Q s3 ()"
    using m st unfolding mutation_def by (auto simp: result_simps dest!: step_keepsD)
  then obtain bb n mm where s3: "es_consumed s3" "es_result s3 = written_result r1 bb n mm" "n \<noteq> 0 \<longrightarrow> bb"
    by (auto simp: written_from_def)
  have "s1 = s4"
    by (rule step_keepsD [OF quiet_store.readback_keeps [OF q, where Q = "\<lambda>s x. s = s4"] _ k]) simp
  moreover have s4: "s4 = s3\<lparr>es_result := (es_result s3)\<lparr>xr_WriteCompleted := True, xr_SyncCompleted := True\<rparr>\<rparr>"
    and acc: "mm = xr_OperationCountPlanned r1" "n = xr_MutationBytesPlanned r1"
    using d unfolding durability_def
    by (auto simp: result_simps write_accounting_def Let_def s3 written_result_def split: if_splits)
  moreover have "xr_OperationCountPlanned r1 = wo_OperationCount (ma_writeOrder a)"
    "xr_MutationBytesPlanned r1 = wo_MutationBytes (ma_writeOrder a)"
    by (simp_all add: r1_def newFullFlashExecutionResult_def Let_def zero_execution_result_def)
  moreover have "wo_MutationBytes (ma_writeOrder a) \<noteq> 0"
    using a by (simp add: authorization_validateLocked_def validateFullFlashWriteOrderPlan_def result_simps)
  ultimately show ?thesis
    using s3 a by (simp add: completed_result_def written_result_def r1_def)
qed

lemma execution_digest_ignores_sha [simp]:
  "fullFlashExecutionResultDigest (r\<lparr>xr_ResultSHA256 := x\<rparr>) = fullFlashExecutionResultDigest r"
  by (simp add: fullFlashExecutionResultDigest_def execution_result_preimage_def)

lemma authorization_fields:
  assumes "authorization_validateLocked a = Inr u"
  shows "wo_OperationCount (ma_writeOrder a) \<noteq> 0" "wo_MutationBytes (ma_writeOrder a) \<noteq> 0"
    "ae_TargetSizeBytes (ma_evidence a) \<noteq> 0" "ae_DevicePath (ma_evidence a) \<noteq> []"
    "wo_MutationBytes (ma_writeOrder a) \<le> ae_TargetSizeBytes (ma_evidence a)"
    "list_all validFullFlashPlanSHA256
       [ae_PlanSHA256 (ma_evidence a), ae_ConfirmationEvidenceSHA256 (ma_evidence a),
        ae_TargetSessionEvidenceSHA256 (ma_evidence a), ae_SourceLeaseEvidenceSHA256 (ma_evidence a),
        wo_PlanSHA256 (ma_writeOrder a), ae_FullFlashValidationPlanSHA256 (ma_evidence a),
        ae_RestoreTargetPlanSHA256 (ma_evidence a), ae_DescriptorPlanSHA256 (ma_evidence a),
        ae_AuthenticatedIntegritySHA256 (ma_evidence a), ae_ExpectedTargetIdentity (ma_evidence a)]"
proof -
  let ?e = "ma_evidence a" and ?o = "ma_writeOrder a"
  have m: "order_matches_evidence ?o ?e" and
    v: "validateFullFlashMutationAuthorizationEvidence ?e = Inr u" and
    o: "validateFullFlashWriteOrderPlan ?o = Inr ()"
    using assms by (auto simp: authorization_validateLocked_def result_simps)
  have s: "ae_PlanSHA256 ?e = fullFlashMutationAuthorizationEvidenceDigest ?e"
    using v by (simp add: validateFullFlashMutationAuthorizationEvidence_def result_simps)
  have c: "canonical_device_path (ae_DevicePath ?e)"
    using v by (simp add: validateFullFlashMutationAuthorizationEvidence_def result_simps)
  then show "ae_DevicePath ?e \<noteq> []" by (auto simp: canonical_device_path_def)
  have e: "ae_TargetSizeBytes ?e \<noteq> 0" "ae_OperationCount ?e \<noteq> 0" "ae_MutationBytes ?e \<noteq> 0"
    "ae_MutationBytes ?e \<le> ae_TargetSizeBytes ?e"
    using v by (auto simp: validateFullFlashMutationAuthorizationEvidence_def result_simps not_less)
  with m show "wo_OperationCount ?o \<noteq> 0" "wo_MutationBytes ?o \<noteq> 0" "ae_TargetSizeBytes ?e \<noteq> 0"
    "wo_MutationBytes ?o \<le> ae_TargetSizeBytes ?e" by (simp_all add: order_matches_evidence_def)
  show "list_all validFullFlashPlanSHA256
       [ae_PlanSHA256 ?e, ae_ConfirmationEvidenceSHA256 ?e, ae_TargetSessionEvidenceSHA256 ?e,
        ae_SourceLeaseEvidenceSHA256 ?e, wo_PlanSHA256 ?o, ae_FullFlashValidationPlanSHA256 ?e,
        ae_RestoreTargetPlanSHA256 ?e, ae_DescriptorPlanSHA256 ?e, ae_AuthenticatedIntegritySHA256 ?e,
        ae_ExpectedTargetIdentity ?e]"
    using v m by (simp add: validateFullFlashMutationAuthorizationEvidence_def result_simps s
        order_matches_evidence_def fullFlashMutationAuthorizationEvidenceDigest_def sha256_hex_valid)
qed

lemma own_digests:
  "xr_ResultSHA256 (verified_result r) = fullFlashExecutionResultDigest (verified_result r)"
  "xr_ResultSHA256 (finalizeFullFlashExecutionFailure r st err) =
     fullFlashExecutionResultDigest (finalizeFullFlashExecutionFailure r st err)"
  by (simp_all only: verified_result_def finalizeFullFlashExecutionFailure_def Let_def execution_digest_ignores_sha)
     simp_all

lemma verified_completed_fields [simp]:
  "xr_Schema (verified_result (completed_result a)) = 1"
  "xr_Mode (verified_result (completed_result a)) = ''ffu-single-phase-execution''"
  "xr_Status (verified_result (completed_result a)) = ''verified''"
  "xr_MutationAuthorizationSHA256 (verified_result (completed_result a)) = ae_PlanSHA256 (ma_evidence a)"
  "xr_ConfirmationEvidenceSHA256 (verified_result (completed_result a)) = ae_ConfirmationEvidenceSHA256 (ma_evidence a)"
  "xr_TargetSessionEvidenceSHA256 (verified_result (completed_result a)) = ae_TargetSessionEvidenceSHA256 (ma_evidence a)"
  "xr_SourceLeaseEvidenceSHA256 (verified_result (completed_result a)) = ae_SourceLeaseEvidenceSHA256 (ma_evidence a)"
  "xr_WriteOrderPlanSHA256 (verified_result (completed_result a)) = wo_PlanSHA256 (ma_writeOrder a)"
  "xr_FullFlashValidationPlanSHA256 (verified_result (completed_result a)) = ae_FullFlashValidationPlanSHA256 (ma_evidence a)"
  "xr_RestoreTargetPlanSHA256 (verified_result (completed_result a)) = ae_RestoreTargetPlanSHA256 (ma_evidence a)"
  "xr_DescriptorPlanSHA256 (verified_result (completed_result a)) = ae_DescriptorPlanSHA256 (ma_evidence a)"
  "xr_AuthenticatedIntegritySHA256 (verified_result (completed_result a)) = ae_AuthenticatedIntegritySHA256 (ma_evidence a)"
  "xr_DevicePath (verified_result (completed_result a)) = ae_DevicePath (ma_evidence a)"
  "xr_ExpectedTargetIdentity (verified_result (completed_result a)) = ae_ExpectedTargetIdentity (ma_evidence a)"
  "xr_TargetSizeBytes (verified_result (completed_result a)) = ae_TargetSizeBytes (ma_evidence a)"
  "xr_OperationCountPlanned (verified_result (completed_result a)) = wo_OperationCount (ma_writeOrder a)"
  "xr_OperationCountCompleted (verified_result (completed_result a)) = wo_OperationCount (ma_writeOrder a)"
  "xr_MutationBytesPlanned (verified_result (completed_result a)) = wo_MutationBytes (ma_writeOrder a)"
  "xr_MutationBytesWritten (verified_result (completed_result a)) = wo_MutationBytes (ma_writeOrder a)"
  "xr_AuthorizationConsumed (verified_result (completed_result a)) = True"
  "xr_SourceLeaseRevalidated (verified_result (completed_result a)) = True"
  "xr_TargetSessionRevalidated (verified_result (completed_result a)) = True"
  "xr_MutationStarted (verified_result (completed_result a)) = True"
  "xr_WriteCompleted (verified_result (completed_result a)) = True"
  "xr_SyncCompleted (verified_result (completed_result a)) = True"
  "xr_ReadbackCompleted (verified_result (completed_result a)) = True"
  "xr_ExecutionSucceeded (verified_result (completed_result a)) = True"
  "xr_CancellationObserved (verified_result (completed_result a)) = False"
  "xr_CancelledBeforeMutation (verified_result (completed_result a)) = False"
  "xr_CancelledAfterMutation (verified_result (completed_result a)) = False"
  "xr_TargetMayBePartiallyModified (verified_result (completed_result a)) = False"
  "xr_ErrorObserved (verified_result (completed_result a)) = False"
  "xr_ErrorStage (verified_result (completed_result a)) = []"
  "xr_Warnings (verified_result (completed_result a)) = fullFlashExecutionWarnings"
  "xr_Limitations (verified_result (completed_result a)) = fullFlashExecutionLimitations"
  by (simp_all add: verified_result_def completed_result_def Let_def newFullFlashExecutionResult_def
      zero_execution_result_def)

lemma completed_flags [simp]:
  "xr_AuthorizationConsumed (completed_result a) = True" "xr_MutationStarted (completed_result a) = True"
  by (simp_all add: completed_result_def)

lemma completed_is_valid:
  assumes "authorization_validateLocked a = Inr u"
  shows "validateFullFlashExecutionResult (verified_result (completed_result a)) = Inr ()"
  using authorization_fields [OF assms]
  by (simp add: validateFullFlashExecutionResult_def own_digests equalRestoreStrings_def not_less)

lemma transaction_not_cancelled:
  assumes "transaction env ops a (initial_state a) w = (r, s, w1)" "validateFullFlashExecutionOps ops = Inr u"
  shows "\<not> xr_CancellationObserved (es_result s) \<and> \<not> xr_CancelledBeforeMutation (es_result s)
    \<and> \<not> xr_CancelledAfterMutation (es_result s)"
proof -
  let ?Q = "\<lambda>s (m :: unit). \<not> xr_CancellationObserved (es_result s) \<and> \<not> xr_CancelledBeforeMutation (es_result s)
    \<and> \<not> xr_CancelledAfterMutation (es_result s)"
  have "step_keeps (\<lambda>s w. ?Q s ()) (transaction env ops a)"
    by (rule quiet_store.transaction_keeps [OF quiet_trivial [OF assms(2)], where Q = ?Q])
       (auto intro!: payload_state)
  from step_keepsD [OF this _ assms(1)] show ?thesis
    by (simp add: newFullFlashExecutionResult_def Let_def zero_execution_result_def)
qed

definition cancelled :: "go_error \<Rightarrow> bool" where
  "cancelled err \<longleftrightarrow> errors_is err Canceled \<or> errors_is err DeadlineExceeded"

definition failure_classified :: "FullFlashExecutionResult \<Rightarrow> go_error \<Rightarrow> bool" where
  "failure_classified r err \<longleftrightarrow>
     \<not> xr_ExecutionSucceeded r \<and> xr_ErrorObserved r
   \<and> xr_TargetMayBePartiallyModified r = xr_MutationStarted r
   \<and> xr_Status r = (if \<not> xr_MutationStarted r then ''not-started''
        else if xr_WriteCompleted r \<and> xr_SyncCompleted r then ''written-unverified'' else ''partially-modified'')
   \<and> xr_CancellationObserved r = cancelled err
   \<and> xr_CancelledBeforeMutation r = (cancelled err \<and> \<not> xr_MutationStarted r)
   \<and> xr_CancelledAfterMutation r = (cancelled err \<and> xr_MutationStarted r)
   \<and> xr_ResultSHA256 r = fullFlashExecutionResultDigest r"

lemma finalize_classified:
  assumes "\<not> xr_CancellationObserved r" "\<not> xr_CancelledBeforeMutation r" "\<not> xr_CancelledAfterMutation r"
  shows "failure_classified (finalizeFullFlashExecutionFailure r st err) err"
proof -
  have "xr_CancellationObserved (finalizeFullFlashExecutionFailure r st err) = cancelled err"
    "xr_CancelledBeforeMutation (finalizeFullFlashExecutionFailure r st err) = (cancelled err \<and> \<not> xr_MutationStarted r)"
    "xr_CancelledAfterMutation (finalizeFullFlashExecutionFailure r st err) = (cancelled err \<and> xr_MutationStarted r)"
    using assms by (simp_all add: finalizeFullFlashExecutionFailure_def Let_def record_cancellation_def
        record_status_def cancelled_def)
  then show ?thesis by (simp add: failure_classified_def own_digests(2))
qed

text \<open>
  C11: every call ends in exactly one of two ways. It succeeds: then the result is the complete
  verified record, all planned operations and bytes are accounted for, the authorization is
  consumed, and the final self-validation of the result cannot fail. Or it returns an error:
  then the result never claims success, says the target may be partially modified exactly when
  a write has taken effect, names the phase that was reached, attributes a cancellation to
  before or after the first write, and carries its own digest.
\<close>

theorem execution_outcomes:
  assumes "executeAuthorizedSinglePhaseFullFlashWithOps (Some env) (Some a) ops w = ((r, e), a2, w1)"
  shows "e = None \<and> r = verified_result (completed_result a) \<and> a2 = Some (a\<lparr>ma_consumed := True\<rparr>)
      \<and> validateFullFlashExecutionResult r = Inr ()
    \<or> (\<exists>err. e = Some err \<and> failure_classified r err)"
  using assms
proof (cases rule: execute_outcome)
  case (refused err)
  then show ?thesis
    by (auto intro!: finalize_classified simp: zero_execution_result_def)
next
  case (failed stage err s)
  then show ?thesis
    using transaction_not_cancelled [OF failed(2,1)] by (auto intro!: finalize_classified)
next
  case (completed s)
  have "es_result s = completed_result a \<and> es_consumed s \<and> authorization_validateLocked a = Inr ()"
    by (rule transaction_completed [OF completed(2,1)])
  then show ?thesis using completed completed_is_valid [of a] by simp
qed

end
