(* ===== verification/FfuLive.thy ===== *)
theory FfuLive
  imports FfuStore
begin

text \<open>
  Liveness of the executor: on a device that works, however short its transfers, an authorized
  run ends with a verified target. The chain from the acquisition of the target over the
  confirmation and the authorization to the execution is composed here, and instantiated on an
  in-memory target.
\<close>

section \<open>An authorized run on a working device\<close>

text \<open>
  A device that works: no call fails, a read inside the source or the target delivers something
  (\<open>io.EOF\<close> at most with the last byte), a write inside the target takes at least one byte, and the
  live target keeps answering with the same snapshot. Transfers may be as short as they like.
\<close>

locale working_store = exact_store rs rt mem src env ops wt sync
  for rs :: "'w read_at" and rt :: "'w read_at" and mem :: "'w \<Rightarrow> nat \<Rightarrow> byte" and src :: "nat \<Rightarrow> byte"
    and env :: "'w ffu_env" and ops :: "'w fullFlashExecutionOps" and wt :: "'w write_at" and sync :: "'w poll" +
  fixes source_len target_len :: nat and stat :: "FileStat res" and snapshot :: "BlockDevice \<times> u64"
    and geometry :: "u64 \<times> u64"
  assumes calls: "fst (en_ctx_err env w) = None" "fst (en_lease_ctx_err env w) = None"
      "fst (en_lease_check env w) = None" "fst (en_verify_target env kd sz w) = None"
      "fst (en_source_outside env d w) = None" "fst (sync w) = None"
    and answers: "fst (en_source_stat env w) = stat" "fst (en_revalidate env p kd w) = Inr snapshot"
      "fst (en_geometry env nm w) = Inr geometry"
    and source_progress: "rs n off w = ((x, e), w1) \<Longrightarrow> 0 < n \<Longrightarrow> unat off + n \<le> source_len \<Longrightarrow>
      x \<noteq> [] \<and> (e = None \<or> e = Some EOF \<and> n \<le> length x)"
    and target_progress: "rt n off w = ((x, e), w1) \<Longrightarrow> 0 < n \<Longrightarrow> unat off + n \<le> target_len \<Longrightarrow>
      x \<noteq> [] \<and> (e = None \<or> e = Some EOF \<and> n \<le> length x)"
    and write_progress: "wt buf off w = ((n, e), w1) \<Longrightarrow> buf \<noteq> [] \<Longrightarrow> unat off + length buf \<le> target_len \<Longrightarrow>
      0 < n \<and> e = None"
    and lengths: "source_len \<le> 2 ^ 63" "target_len \<le> 2 ^ 63"

lemma readFull_progress:
  assumes "\<And>n off w x e w1. rd n off w = ((x, e), w1) \<Longrightarrow> 0 < n \<Longrightarrow> unat off + n \<le> len \<Longrightarrow>
      x \<noteq> [] \<and> (e = None \<or> e = Some EOF \<and> n \<le> length x)" "len \<le> 2 ^ 63"
    "unat off + n \<le> len"
  shows "\<exists>d w1. readFullFlashAt rd n off w = (Inr d, w1)"
  using assms(3)
proof (induction n arbitrary: off w rule: less_induct)
  case (less n)
  show ?case
  proof (cases "n = 0")
    case True
    then show ?thesis unfolding readFullFlashAt.simps [of rd n off w] by simp
  next
    case False
    obtain x e w2 where r: "rd n off w = ((x, e), w2)" by (metis surj_pair)
    have p: "x \<noteq> [] \<and> (e = None \<or> e = Some EOF \<and> n \<le> length x)" using assms(1) [OF r] False less.prems by simp
    have rec: "\<exists>d w1. readFullFlashAt rd (n - length (take n x)) (off + of_nat (length (take n x))) w2 = (Inr d, w1)"
    proof (cases "length x < n")
      case True
      have "unat (off + of_nat (length x)) = unat off + length x"
        using True less.prems assms(2) by (subst unat_plus_64) (simp_all add: unat_of_nat_64)
      then show ?thesis using True p less.prems by (intro less.IH) simp_all
    next
      case False
      then show ?thesis unfolding readFullFlashAt.simps [of rd "n - length (take n x)"] by simp
    qed
    show ?thesis
      using p rec False unfolding readFullFlashAt.simps [of rd n off w] r by (auto simp: Let_def)
  qed
qed

lemma overwrite_append:
  "overwrite (overwrite m off d) (off + length d) e = overwrite m off (d @ e)"
  by (rule ext) (auto simp: overwrite_def nth_append)

context working_store
begin

lemma write_full:
  assumes "unat off + length buf \<le> target_len"
  shows "\<exists>w1. writeFullFlashAt wt buf off w = ((length buf, None), w1) \<and> mem w1 = overwrite (mem w) (unat off) buf"
  using assms
proof (induction "length buf" arbitrary: buf off w rule: less_induct)
  case less
  show ?case
  proof (cases "buf = []")
    case True
    then show ?thesis unfolding writeFullFlashAt.simps [of wt buf off w] by simp
  next
    case False
    obtain n e w2 where c: "wt buf off w = ((n, e), w2)" by (metis surj_pair)
    have p: "0 < n" "e = None" using write_progress [OF c False less.prems] by simp_all
    let ?n = "min n (length buf)"
    have n: "0 < ?n" "?n \<le> length buf" using p False by simp_all
    have m2: "mem w2 = overwrite (mem w) (unat off) (take ?n buf)"
      using exact [OF c] by (metis min.commute take_all_iff take_take le_refl)
    obtain w1 where rec: "writeFullFlashAt wt (drop ?n buf) (off + of_nat ?n) w2 = ((length buf - ?n, None), w1)"
      and m1: "mem w1 = overwrite (mem w2) (unat off + ?n) (drop ?n buf)"
    proof (cases "?n < length buf")
      case True
      have u: "unat (off + of_nat ?n) = unat off + ?n"
        using True less.prems lengths(2) by (subst unat_plus_64) (simp_all add: unat_of_nat_64)
      show thesis using less.hyps [of "drop ?n buf" "off + of_nat ?n" w2] n u less.prems that by auto
    next
      case False
      then have "drop ?n buf = []" "length buf - ?n = 0" by simp_all
      then show thesis using that [of w2] unfolding writeFullFlashAt.simps [of wt "drop ?n buf"] by simp
    qed
    have "writeFullFlashAt wt buf off w = ((length buf, None), w1)"
      using False n rec p(2) unfolding writeFullFlashAt.simps [of wt buf off w] c by (simp add: Let_def)
    moreover have "mem w1 = overwrite (mem w) (unat off) buf"
      using m1 m2 n overwrite_append [of "mem w" "unat off" "take ?n buf" "drop ?n buf"] by simp
    ultimately show ?thesis by blast
  qed
qed

end

definition source_bytes :: "(nat \<Rightarrow> byte) \<Rightarrow> nat \<Rightarrow> nat \<Rightarrow> bytes" where
  "source_bytes src off n = map (\<lambda>i. src (off + i)) [0..<n]"

lemma source_bytes_length [simp]: "length (source_bytes src off n) = n"
  by (simp add: source_bytes_def)

lemma source_bytes_append: "source_bytes src off n @ source_bytes src (off + n) k = source_bytes src off (n + k)"
  by (rule nth_equalityI) (auto simp: source_bytes_def nth_append)

lemma source_bytes_eq: "length d = n \<Longrightarrow> (\<And>i. i < n \<Longrightarrow> d ! i = src (off + i)) \<Longrightarrow> d = source_bytes src off n"
  by (rule nth_equalityI) (auto simp: source_bytes_def)

lemma count_written_add: "count_written b (count_written a r) = count_written (a + b) r"
  by (simp add: count_written_def)

lemma count_written_0 [simp]: "count_written 0 r = r"
  by (simp add: count_written_def)

lemma try_call_go:
  assumes "fst (f w) = None" "act_keeps v f"
  obtains w1 where "try_call f w = (Inr (), w1)" "v w1 = v w"
  using assms act_keepsD [OF assms(2), of w] by (cases "f w") (auto simp: try_call_def)

context working_store
begin

lemma poll_go:
  obtains w1 where "try_call (en_ctx_err env) w = (Inr (), w1)" "mem w1 = mem w"
  by (rule try_call_go [of "en_ctx_err env" w mem]) (use calls quiet in \<open>auto simp: quiet_env_def\<close>)

lemma lease_go:
  obtains w1 where "try_call (en_lease_check env) w = (Inr (), w1)" "mem w1 = mem w"
  by (rule try_call_go [of "en_lease_check env" w mem]) (use calls quiet in \<open>auto simp: quiet_env_def\<close>)

lemma source_read_go:
  assumes "unat so + n \<le> source_len"
  obtains w1 where "readFullFlashAt rs n so w = (Inr (source_bytes src (unat so) n), w1)" "mem w1 = mem w"
proof -
  have "\<exists>d w1. readFullFlashAt rs n so w = (Inr d, w1)"
    by (rule readFull_progress [OF _ lengths(1) assms]) (rule source_progress)
  then obtain d w1 where r: "readFullFlashAt rs n so w = (Inr d, w1)" by blast
  have "length d = n \<and> (\<forall>i < n. d ! i = src (unat so + i))"
    by (rule source.full_bytes [OF r]) (use assms lengths in simp)
  then have "d = source_bytes src (unat so) n" by (intro source_bytes_eq) simp_all
  then show thesis using r that act_keepsD [OF source.full_view r] by simp
qed

lemma target_read_go:
  assumes "unat to + n \<le> target_len"
  obtains w1 where "readFullFlashAt rt n to w = (Inr (source_bytes (mem w) (unat to) n), w1)" "mem w1 = mem w"
proof -
  have "\<exists>d w1. readFullFlashAt rt n to w = (Inr d, w1)"
    by (rule readFull_progress [OF _ lengths(2) assms]) (rule target_progress)
  then obtain d w1 where r: "readFullFlashAt rt n to w = (Inr d, w1)" by blast
  have "length d = n \<and> (\<forall>i < n. d ! i = mem w (unat to + i))"
    by (rule target.full_bytes [OF r]) (use assms lengths in simp)
  then have "d = source_bytes (mem w) (unat to) n" by (intro source_bytes_eq) simp_all
  then show thesis using r that act_keepsD [OF target.full_view r] by simp
qed

lemma write_chunk_go:
  assumes "0 < unat chunk" "unat so + unat chunk \<le> source_len" "unat to + unat chunk \<le> target_len"
  shows "\<exists>w1. write_chunk env ops chunk so to s w
      = (Inr (), s\<lparr>es_result := count_written (unat chunk) (es_result s)\<rparr>, w1)
    \<and> mem w1 = overwrite (mem w) (unat to) (source_bytes src (unat so) (unat chunk))"
proof -
  let ?d = "source_bytes src (unat so) (unat chunk)"
  obtain w1 where w1: "try_call (en_ctx_err env) w = (Inr (), w1)" "mem w1 = mem w" by (rule poll_go)
  obtain w2 where w2: "try_call (en_lease_check env) w1 = (Inr (), w2)" "mem w2 = mem w1" by (rule lease_go)
  have o: "fullFlashExecutionOffset so = Inr so" "fullFlashExecutionOffset to = Inr to"
    using assms lengths by (simp_all add: offset_ok)
  obtain w3 where w3: "readFullFlashAt rs (unat chunk) so w2 = (Inr ?d, w3)" "mem w3 = mem w2"
    by (rule source_read_go [OF assms(2)])
  obtain w4 where w4: "writeFullFlashAt wt ?d to w3 = ((unat chunk, None), w4)"
    "mem w4 = overwrite (mem w3) (unat to) ?d"
    using write_full [of to ?d w3] assms(3) by auto
  let ?w5 = "case xo_afterWriteChunk ops of
      Some hook \<Rightarrow> hook (xr_MutationBytesWritten (count_written (unat chunk) (es_result s))) w4 | None \<Rightarrow> w4"
  have "mem ?w5 = mem w4" using quiet(2) by (auto simp: quiet_hooks_def split: option.split)
  moreover have "write_chunk env ops chunk so to s w
      = (Inr (), s\<lparr>es_result := count_written (unat chunk) (es_result s)\<rparr>, ?w5)"
    unfolding write_chunk_def wired option.sel
    by (simp add: bind_step_def at_stage_def pure_act_def w1 w2 w3 o write_payload_def wired w4 assms(1)
        Let_def split: option.split)
  ultimately show ?thesis using w1 w2 w3 w4 by auto
qed

lemma readback_chunk_go:
  assumes "0 < unat chunk" "unat so + unat chunk \<le> source_len" "unat to + unat chunk \<le> target_len"
    "\<And>i. i < unat chunk \<Longrightarrow> mem w (unat to + i) = src (unat so + i)"
  shows "\<exists>w1. readback_chunk env ops chunk so to s w = (Inr (), s, w1) \<and> mem w1 = mem w"
proof -
  let ?d = "source_bytes src (unat so) (unat chunk)"
  obtain w1 where w1: "try_call (en_ctx_err env) w = (Inr (), w1)" "mem w1 = mem w" by (rule poll_go)
  obtain w2 where w2: "try_call (en_lease_check env) w1 = (Inr (), w2)" "mem w2 = mem w1" by (rule lease_go)
  have o: "fullFlashExecutionOffset so = Inr so" "fullFlashExecutionOffset to = Inr to"
    using assms lengths by (simp_all add: offset_ok)
  obtain w3 where w3: "readFullFlashAt rs (unat chunk) so w2 = (Inr ?d, w3)" "mem w3 = mem w2"
    by (rule source_read_go [OF assms(2)])
  obtain w4 where w4: "readFullFlashAt rt (unat chunk) to w3 = (Inr (source_bytes (mem w3) (unat to) (unat chunk)), w4)"
    "mem w4 = mem w3"
    by (rule target_read_go [OF assms(3)])
  have "source_bytes (mem w3) (unat to) (unat chunk) = ?d"
    using w1 w2 w3 assms(4) by (auto simp: source_bytes_def)
  then have "readback_chunk env ops chunk so to s w = (Inr (), s, w4)"
    unfolding readback_chunk_def wired option.sel
    by (simp add: bind_step_def at_stage_def pure_act_def check_def w1 w2 w3 o w4)
  then show ?thesis using w1 w2 w3 w4 by simp
qed

end

context working_store
begin

lemma chunk_steps:
  fixes rem buf :: u64
  assumes "rem \<noteq> 0" "buf \<noteq> 0" "unat so + unat rem \<le> source_len" "unat to + unat rem \<le> target_len"
    "chunk = (if rem < buf then rem else buf)"
  shows "0 < unat chunk" "unat chunk \<le> unat rem" "unat (rem - chunk) = unat rem - unat chunk"
    "unat so + unat chunk \<le> source_len" "unat to + unat chunk \<le> target_len"
    "unat (so + chunk) = unat so + unat chunk" "unat (to + chunk) = unat to + unat chunk"
proof -
  note c = chunk_nats [OF assms(1,2,5)]
  show "0 < unat chunk" "unat chunk \<le> unat rem" "unat (rem - chunk) = unat rem - unat chunk"
    by (fact c)+
  show "unat so + unat chunk \<le> source_len" "unat to + unat chunk \<le> target_len" using c assms by linarith+
  then show "unat (so + chunk) = unat so + unat chunk" "unat (to + chunk) = unat to + unat chunk"
    using lengths by (auto intro!: unat_plus_64)
qed

lemma write_chunks_go:
  assumes "buf \<noteq> 0" "unat so + unat rem \<le> source_len" "unat to + unat rem \<le> target_len"
  shows "\<exists>w1. for_chunks (write_chunk env ops) buf rem so to s w
      = (Inr (), s\<lparr>es_result := count_written (unat rem) (es_result s)\<rparr>, w1)
    \<and> mem w1 = overwrite (mem w) (unat to) (source_bytes src (unat so) (unat rem))"
  using assms
proof (induction "unat rem" arbitrary: rem so to s w rule: less_induct)
  case less
  show ?case
  proof (cases "rem = 0")
    case True
    then show ?thesis unfolding for_chunks.simps [of _ buf rem] by (simp add: done_step_def source_bytes_def)
  next
    case False
    define chunk where "chunk = (if rem < buf then rem else buf)"
    note c = chunk_steps [OF False less.prems chunk_def]
    let ?s2 = "s\<lparr>es_result := count_written (unat chunk) (es_result s)\<rparr>"
    obtain w2 where w2: "write_chunk env ops chunk so to s w = (Inr (), ?s2, w2)"
      "mem w2 = overwrite (mem w) (unat to) (source_bytes src (unat so) (unat chunk))"
      using write_chunk_go [OF c(1,4,5)] by blast
    obtain w1 where w1: "for_chunks (write_chunk env ops) buf (rem - chunk) (so + chunk) (to + chunk) ?s2 w2
        = (Inr (), ?s2\<lparr>es_result := count_written (unat (rem - chunk)) (es_result ?s2)\<rparr>, w1)"
      "mem w1 = overwrite (mem w2) (unat (to + chunk)) (source_bytes src (unat (so + chunk)) (unat (rem - chunk)))"
      using less.hyps [of "rem - chunk" "so + chunk" "to + chunk" ?s2 w2] c less.prems by fastforce
    have "for_chunks (write_chunk env ops) buf rem so to s w
        = (Inr (), s\<lparr>es_result := count_written (unat rem) (es_result s)\<rparr>, w1)"
      using False less.prems(1) w1(1) c unfolding for_chunks.simps [of _ buf rem] Let_def chunk_def [symmetric]
      by (simp add: bind_step_def w2(1) count_written_add)
    moreover have "mem w1 = overwrite (mem w) (unat to) (source_bytes src (unat so) (unat rem))"
      using w1(2) w2(2) c
        overwrite_append [of "mem w" "unat to" "source_bytes src (unat so) (unat chunk)"
          "source_bytes src (unat so + unat chunk) (unat rem - unat chunk)"]
        source_bytes_append [of src "unat so" "unat chunk" "unat rem - unat chunk"] by simp
    ultimately show ?thesis by blast
  qed
qed

lemma readback_chunks_go:
  assumes "buf \<noteq> 0" "unat so + unat rem \<le> source_len" "unat to + unat rem \<le> target_len"
    "\<forall>i < unat rem. mem w (unat to + i) = src (unat so + i)"
  shows "\<exists>w1. for_chunks (readback_chunk env ops) buf rem so to s w = (Inr (), s, w1) \<and> mem w1 = mem w"
  using assms
proof (induction "unat rem" arbitrary: rem so to w rule: less_induct)
  case less
  show ?case
  proof (cases "rem = 0")
    case True
    then show ?thesis unfolding for_chunks.simps [of _ buf rem] by (simp add: done_step_def)
  next
    case False
    define chunk where "chunk = (if rem < buf then rem else buf)"
    note c = chunk_steps [OF False less.prems(1-3) chunk_def]
    have first: "mem w (unat to + i) = src (unat so + i)" if "i < unat chunk" for i
      using less.prems(4) that c by simp
    obtain w2 where w2: "readback_chunk env ops chunk so to s w = (Inr (), s, w2)" "mem w2 = mem w"
      using readback_chunk_go [OF c(1,4,5) first] by blast
    have later: "\<forall>i < unat (rem - chunk). mem w2 (unat (to + chunk) + i) = src (unat (so + chunk) + i)"
      using less.prems(4) c w2(2) by (auto simp: add.assoc)
    have "\<exists>w1. for_chunks (readback_chunk env ops) buf (rem - chunk) (so + chunk) (to + chunk) s w2
        = (Inr (), s, w1) \<and> mem w1 = mem w2"
      by (rule less.hyps [OF _ less.prems(1) _ _ later]) (use c less.prems in simp_all)
    then obtain w1 where w1: "for_chunks (readback_chunk env ops) buf (rem - chunk) (so + chunk) (to + chunk) s w2
        = (Inr (), s, w1)" "mem w1 = mem w2" by blast
    then show ?thesis
      using False less.prems(1) w2(2) unfolding for_chunks.simps [of _ buf rem] Let_def chunk_def [symmetric]
      by (simp add: bind_step_def w2(1))
  qed
qed


end

text \<open>An operation inside the source and the target, and the accounting of a list of operations.\<close>

definition op_reachable :: "nat \<Rightarrow> nat \<Rightarrow> OrderedFullFlashWriteOperation \<Rightarrow> bool" where
  "op_reachable slen tlen op \<longleftrightarrow> op_PayloadLength op = op_TargetLength op
     \<and> unat (op_TargetOffset op) + unat (op_TargetLength op) \<le> tlen
     \<and> unat (op_PayloadOffset op) + unat (op_PayloadLength op) \<le> slen"

definition count_operation :: "OrderedFullFlashWriteOperation \<Rightarrow> FullFlashExecutionResult \<Rightarrow> FullFlashExecutionResult" where
  "count_operation op r = (let r1 = count_written (unat (op_PayloadLength op)) r in
     r1\<lparr>xr_OperationCountCompleted := xr_OperationCountCompleted r1 + 1\<rparr>)"

lemma count_operations:
  assumes "\<forall>op \<in> set os. op_PayloadLength op = op_TargetLength op"
  shows "xr_OperationCountCompleted (fold count_operation os r) = xr_OperationCountCompleted r + of_nat (length os)
    \<and> xr_MutationBytesWritten (fold count_operation os r) = xr_MutationBytesWritten r + of_nat (ops_total os)
    \<and> xr_OperationCountPlanned (fold count_operation os r) = xr_OperationCountPlanned r
    \<and> xr_MutationBytesPlanned (fold count_operation os r) = xr_MutationBytesPlanned r"
  using assms
  by (induction os arbitrary: r) (auto simp: ops_total_def count_operation_def count_written_def Let_def unat_gt_0)

lemma disjoint_covers: "op_disjoint a b \<Longrightarrow> op_covers a x \<Longrightarrow> \<not> op_covers b x"
  by (auto simp: op_disjoint_def op_covers_def)

context working_store
begin

lemma write_operations_go:
  assumes "(word_of_int (xo_chunkSize ops) :: u64) \<noteq> 0" "\<forall>op \<in> set os. op_reachable source_len target_len op"
    "sorted_wrt op_disjoint os"
  shows "\<exists>w1. for_operations (write_operation env ops) os s w
      = (Inr (), s\<lparr>es_result := fold count_operation os (es_result s)\<rparr>, w1)
    \<and> (\<forall>op \<in> set os. op_restored src (mem w1) op)
    \<and> (\<forall>x. (\<forall>op \<in> set os. \<not> op_covers op x) \<longrightarrow> mem w1 x = mem w x)"
  using assms(2,3)
proof (induction os arbitrary: s w)
  case Nil
  then show ?case by (simp add: done_step_def)
next
  case (Cons op os)
  have r: "op_reachable source_len target_len op" using Cons.prems(1) by simp
  let ?s2 = "s\<lparr>es_result := count_operation op (es_result s)\<rparr>"
  obtain w2 where "for_chunks (write_chunk env ops) (word_of_int (xo_chunkSize ops)) (op_PayloadLength op)
        (op_PayloadOffset op) (op_TargetOffset op) s w
      = (Inr (), s\<lparr>es_result := count_written (unat (op_PayloadLength op)) (es_result s)\<rparr>, w2)" and
    m2: "mem w2 = overwrite (mem w) (unat (op_TargetOffset op))
        (source_bytes src (unat (op_PayloadOffset op)) (unat (op_PayloadLength op)))"
    using write_chunks_go [OF assms(1), of "op_PayloadOffset op" "op_PayloadLength op" "op_TargetOffset op" s w] r
    by (auto simp: op_reachable_def)
  then have o: "write_operation env ops op s w = (Inr (), ?s2, w2)"
    by (simp add: write_operation_def bind_step_def update_result_def update_step_def count_operation_def Let_def)
  obtain w1 where w1: "for_operations (write_operation env ops) os ?s2 w2
      = (Inr (), ?s2\<lparr>es_result := fold count_operation os (es_result ?s2)\<rparr>, w1)" and
    d: "\<forall>op \<in> set os. op_restored src (mem w1) op" and
    k: "\<forall>x. (\<forall>op \<in> set os. \<not> op_covers op x) \<longrightarrow> mem w1 x = mem w2 x"
    using Cons.IH [of ?s2 w2] Cons.prems by auto
  have "mem w1 x = mem w2 x" if "op_covers op x" for x
    using k disjoint_covers [OF _ that] Cons.prems(2) by auto
  then have "op_restored src (mem w1) op"
    using r by (auto simp: op_restored_def op_covers_def op_reachable_def m2 overwrite_def source_bytes_def)
  moreover have "mem w1 x = mem w x" if "\<forall>op \<in> set (op # os). \<not> op_covers op x" for x
  proof -
    have "mem w1 x = mem w2 x" using k that by simp
    moreover have "mem w2 x = mem w x" using that r by (auto simp: m2 overwrite_def op_covers_def op_reachable_def)
    ultimately show ?thesis by simp
  qed
  ultimately show ?case using w1 d by (auto simp: bind_step_def o)
qed

lemma readback_operations_go:
  assumes "(word_of_int (xo_chunkSize ops) :: u64) \<noteq> 0" "\<forall>op \<in> set os. op_reachable source_len target_len op"
    "\<forall>op \<in> set os. op_restored src (mem w) op"
  shows "\<exists>w1. for_operations (readback_operation env ops) os s w = (Inr (), s, w1) \<and> mem w1 = mem w"
  using assms(2,3)
proof (induction os arbitrary: w)
  case Nil
  then show ?case by (simp add: done_step_def)
next
  case (Cons op os)
  have r: "op_reachable source_len target_len op" "op_restored src (mem w) op" using Cons.prems by simp_all
  obtain w2 where o: "readback_operation env ops op s w = (Inr (), s, w2)" and m2: "mem w2 = mem w"
    using readback_chunks_go [OF assms(1), of "op_PayloadOffset op" "op_PayloadLength op" "op_TargetOffset op" w s] r
    by (auto simp: op_reachable_def op_restored_def readback_operation_def)
  obtain w1 where "for_operations (readback_operation env ops) os s w2 = (Inr (), s, w1)" "mem w1 = mem w2"
    using Cons.IH [of w2] Cons.prems m2 by auto
  then show ?case by (simp add: bind_step_def o m2)
qed

end

text \<open>The capabilities an authorization holds are valid and bound to one another.\<close>

definition chain_bound ::
  "FullFlashMutationAuthorization \<Rightarrow> FullFlashTargetSession \<Rightarrow> FullFlashSourceLease \<Rightarrow> bool" where
  "chain_bound a t s \<longleftrightarrow>
     authorization_validateLocked a = Inr ()
   \<and> (\<exists>c. ma_confirmation a = Some c \<and> confirmation_validateLocked c = Inr ()
        \<and> confirmation_binds (dc_evidence c) (ma_evidence a) \<and> dc_target c = Some t)
   \<and> session_validateLocked t = Inr () \<and> target_binds (ts_evidence t) (ma_evidence a)
   \<and> ts_source t = Some s \<and> lease_validateLocked s = Inr () \<and> source_binds (so_evidence s) (ma_evidence a)"

context working_store
begin

definition accepted :: "FullFlashTargetPreflightPlan \<Rightarrow> bool" where
  "accepted pf \<longleftrightarrow> (\<exists>w. fst (validateAcquiredFullFlashTargetSnapshot env pf (fst snapshot) (snd snapshot) w) = Inr ())"

lemma snapshot_go:
  assumes "accepted pf"
  obtains w1 where "validateAcquiredFullFlashTargetSnapshot env pf (fst snapshot) (snd snapshot) w = (Inr (), w1)"
    "mem w1 = mem w"
proof -
  let ?v = "validateAcquiredFullFlashTargetSnapshot env pf (fst snapshot) (snd snapshot)"
  obtain w0 where w0: "fst (?v w0) = Inr ()" using assms by (auto simp: accepted_def)
  have "fst (?v w) = fst (?v w0)"
    using answers(3) [of "dev_Name (bd_info (fst snapshot))" w] answers(3) [of "dev_Name (bd_info (fst snapshot))" w0]
    by (auto simp: validateAcquiredFullFlashTargetSnapshot_def Let_def bind_act_def pure_act_def
        split: prod.splits sum.splits)
  then obtain w1 where r: "?v w = (Inr (), w1)" using w0 by (metis prod.collapse)
  have "mem w1 = mem w" by (rule act_keepsD [OF quiet_snapshot [OF quiet(1)] r])
  with r show thesis by (rule that)
qed

lemma revalidate_go:
  assumes "session_validateLocked t = Inr ()" "lease_validateLocked s = Inr ()"
    "Verify (Some stat) (so_identity s) = Inr ()" "accepted (ts_preflight t)"
  obtains w1 where "revalidateFullFlashExecutionLocked env t s w = (Inr (), w1)" "mem w1 = mem w"
proof -
  let ?pf = "ts_preflight t"
  obtain w1 where w1: "try_call (en_lease_check env) w = (Inr (), w1)" "mem w1 = mem w" by (rule lease_go)
  obtain w2 where w2: "en_source_stat env w1 = (stat, w2)" by (metis answers(1) prod.collapse)
  obtain w3 where w3: "try_call (en_verify_target env (pf_KernelDeviceID ?pf) (pf_TargetSizeBytes ?pf)) w2 = (Inr (), w3)"
    by (rule try_call_go [of "en_verify_target env (pf_KernelDeviceID ?pf) (pf_TargetSizeBytes ?pf)" w2 mem])
       (use calls quiet in \<open>auto simp: quiet_env_def\<close>)
  obtain w4 where w4: "en_revalidate env (pf_DevicePath ?pf) (pf_KernelDeviceID ?pf) w3 = (Inr snapshot, w4)"
    by (metis answers(2) prod.collapse)
  obtain w5 where w5: "validateAcquiredFullFlashTargetSnapshot env ?pf (fst snapshot) (snd snapshot) w4 = (Inr (), w5)"
    by (rule snapshot_go [OF assms(4)])
  obtain w6 where w6: "try_call (en_source_outside env (fst snapshot)) w5 = (Inr (), w6)"
    by (rule try_call_go [of "en_source_outside env (fst snapshot)" w5 mem])
       (use calls quiet in \<open>auto simp: quiet_env_def\<close>)
  have r: "revalidateFullFlashExecutionLocked env t s w = (Inr (), w6)"
    unfolding revalidateFullFlashExecutionLocked_def Let_def verify_source_def
    by (simp add: bind_act_def pure_act_def assms w1 w2 w3 w4 w5 w6 split_beta)
  have "mem w6 = mem w" by (rule act_keepsD [OF quiet_revalidate [OF quiet(1)] r])
  with r show thesis by (rule that)
qed

lemma verify_source_go:
  assumes "Verify (Some stat) i = Inr ()"
  obtains w1 where "verify_source env i w = (Inr (), w1)" "mem w1 = mem w"
proof -
  obtain w1 where w1: "en_source_stat env w = (stat, w1)" by (metis answers(1) prod.collapse)
  have r: "verify_source env i w = (Inr (), w1)" using assms by (simp add: verify_source_def w1)
  have "mem w1 = mem w" by (rule act_keepsD [OF quiet_verify_source [OF quiet(1)] r])
  with r show thesis by (rule that)
qed

lemma before_mutation_go:
  assumes "chain_bound a t s" "Verify (Some stat) (so_identity s) = Inr ()" "accepted (ts_preflight t)"
  obtains w1 where "before_mutation env ops a st w = (Inr (), st\<lparr>es_result := (es_result st)\<lparr>
      xr_SourceLeaseRevalidated := True, xr_TargetSessionRevalidated := True\<rparr>\<rparr>, w1)"
proof -
  obtain c where c: "ma_confirmation a = Some c" "confirmation_validateLocked c = Inr ()"
    "confirmation_binds (dc_evidence c) (ma_evidence a)" "dc_target c = Some t"
    using assms(1) by (auto simp: chain_bound_def)
  have h: "authorization_validateLocked a = Inr ()" "session_validateLocked t = Inr ()"
    "target_binds (ts_evidence t) (ma_evidence a)" "ts_source t = Some s" "lease_validateLocked s = Inr ()"
    "source_binds (so_evidence s) (ma_evidence a)"
    using assms(1) by (auto simp: chain_bound_def)
  obtain w1 where w1: "try_call (en_ctx_err env) w = (Inr (), w1)" by (rule poll_go)
  obtain w2 where w2: "revalidateFullFlashExecutionLocked env t s w1 = (Inr (), w2)"
    by (rule revalidate_go [OF h(2,5) assms(2,3)])
  obtain w3 where w3: "try_call (en_ctx_err env) w2 = (Inr (), w3)" by (rule poll_go)
  obtain w4 where w4: "lease_context_alive env w3 = (Inr (), w4)"
    using calls(2) [of w3] by (cases "en_lease_ctx_err env w3") (auto simp: lease_context_alive_def)
  define w5 where "w5 = (case xo_beforeFirstWrite ops of Some hook \<Rightarrow> hook w4 | None \<Rightarrow> w4)"
  obtain w6 where w6: "try_call (en_ctx_err env) w5 = (Inr (), w6)" by (rule poll_go)
  obtain w7 where w7: "try_call (en_lease_check env) w6 = (Inr (), w7)" by (rule lease_go)
  obtain w8 where w8: "verify_source env (so_identity s) w7 = (Inr (), w8)" by (rule verify_source_go [OF assms(2)])
  show thesis
    by (rule that [of w8])
       (simp add: before_mutation_def Let_def bind_step_def at_stage_def pure_act_def check_def c h w1 w2 w3 w4
          w5_def [symmetric] w6 w7 w8 update_result_def update_step_def)
qed

lemma transaction_go:
  assumes "chain_bound a t s" "Verify (Some stat) (so_identity s) = Inr ()" "accepted (ts_preflight t)"
    "\<forall>op \<in> set (wo_Operations (ma_writeOrder a)). op_reachable source_len target_len op"
    "sorted_wrt op_disjoint (wo_Operations (ma_writeOrder a))"
    "unat (wo_MutationBytes (ma_writeOrder a)) = ops_total (wo_Operations (ma_writeOrder a))"
    "validateFullFlashExecutionOps ops = Inr u"
  obtains st w1 where "transaction env ops a (initial_state a) w = (Inr (), st, w1)"
proof -
  let ?os = "wo_Operations (ma_writeOrder a)"
  let ?r1 = "(newFullFlashExecutionResult a)\<lparr>xr_SourceLeaseRevalidated := True, xr_TargetSessionRevalidated := True\<rparr>"
  let ?s1 = "(initial_state a)\<lparr>es_result := ?r1\<rparr>"
  let ?r2 = "?r1\<lparr>xr_AuthorizationConsumed := True\<rparr>"
  let ?s2 = "?s1\<lparr>es_consumed := True, es_result := ?r2\<rparr>"
  let ?s3 = "?s2\<lparr>es_result := fold count_operation ?os ?r2\<rparr>"
  have nz: "(word_of_int (xo_chunkSize ops) :: u64) \<noteq> 0"
    by (rule word_of_int_nonzero) (use assms(7) in \<open>auto simp: validateFullFlashExecutionOps_def split: if_splits\<close>)
  obtain w1 where w1: "before_mutation env ops a (initial_state a) w = (Inr (), ?s1, w1)"
    by (rule before_mutation_go [OF assms(1-3), of "initial_state a" w]) simp
  obtain w2 where w2: "for_operations (write_operation env ops) ?os ?s2 w1 = (Inr (), ?s3, w2)"
    and r2: "\<forall>op \<in> set ?os. op_restored src (mem w2) op"
    using write_operations_go [OF nz assms(4,5), of ?s2 w1] by auto
  have "validateFullFlashWriteOrderPlan (ma_writeOrder a) = Inr ()"
    using assms(1) by (auto simp: chain_bound_def authorization_validateLocked_def result_simps)
  then have n: "wo_OperationCount (ma_writeOrder a) = of_nat (length ?os)"
    by (simp add: validateFullFlashWriteOrderPlan_def result_simps)
  have mb: "of_nat (ops_total ?os) = wo_MutationBytes (ma_writeOrder a)" by (simp add: assms(6) [symmetric])
  have acc: "xr_OperationCountCompleted (es_result ?s3) = xr_OperationCountPlanned (es_result ?s3)
    \<and> xr_MutationBytesWritten (es_result ?s3) = xr_MutationBytesPlanned (es_result ?s3)"
    using count_operations [of ?os ?r2] assms(4) n mb
    by (simp add: op_reachable_def newFullFlashExecutionResult_def Let_def zero_execution_result_def)
  obtain w3 where w3: "try_call sync w2 = (Inr (), w3)" "mem w3 = mem w2"
    by (rule try_call_go [of sync w2 mem]) (use calls quiet in auto)
  have h: "session_validateLocked t = Inr ()" "lease_validateLocked s = Inr ()" "ts_source t = Some s"
    "dc_target (the (ma_confirmation a)) = Some t"
    using assms(1) by (auto simp: chain_bound_def)
  obtain w4 where w4: "revalidateFullFlashExecutionLocked env t s w3 = (Inr (), w4)" "mem w4 = mem w3"
    by (rule revalidate_go [OF h(1,2) assms(2,3)])
  let ?s5 = "?s3\<lparr>es_result := (es_result ?s3)\<lparr>xr_WriteCompleted := True, xr_SyncCompleted := True\<rparr>\<rparr>"
  have "\<forall>op \<in> set ?os. op_restored src (mem w4) op" using r2 w3(2) w4(2) by simp
  then obtain w5 where w5: "for_operations (readback_operation env ops) ?os ?s5 w4 = (Inr (), ?s5, w5)"
    using readback_operations_go [OF nz assms(4), of w4 ?s5] by auto
  obtain w6 where w6: "revalidateFullFlashExecutionLocked env t s w5 = (Inr (), w6)"
    by (rule revalidate_go [OF h(1,2) assms(2,3)])
  have mut: "mutation env ops a ?s1 w1 = (Inr (), ?s3, w2)"
    using w2 by (simp add: mutation_def bind_step_def update_step_def)
  have dur: "durability env ops t s ?s3 w2 = (Inr (), ?s5, w4)"
    unfolding durability_def wired option.sel write_accounting_def Let_def
    using acc by (simp add: bind_step_def at_stage_def update_result_def update_step_def w3 w4)
  have "readback env ops a t s ?s5 w4 = (Inr (), ?s5, w6)"
    by (simp only: readback_def bind_step_def at_stage_def w5 w6 prod.case sum.case)
  then have "transaction env ops a (initial_state a) w = (Inr (), ?s5, w6)"
    unfolding transaction_def Let_def h(3,4) option.sel
    by (simp only: bind_step_def w1 mut dur prod.case sum.case)
  then show thesis by (rule that)
qed

end

section \<open>From the acquisition to the verified target\<close>

lemma chain_links:
  assumes "acquireExclusiveFullFlashTargetWithOps (Some env) (Some lease) pf oc w0 = (Inr s, w1)"
    "ConfirmExclusiveFullFlashTarget (Some env2) (Some s) phrase w2 = (Inr c, w3)"
    "AuthorizeSinglePhaseFullFlashMutation (Some env3) (Some c) d t f w4 = (Inr a, w5)"
  shows "chain_bound a s lease"
proof -
  obtain dev k where A: "acquired lease pf s dev k"
    using session_holds_target [OF assms(1)] by blast
  note C = confirm_Inr [OF assms(2)] and Z = authorize_Inr [OF assms(3)]
  have v: "authorization_validateLocked a = Inr ()"
    using authorization_of_confirmation [OF assms(2,3)] by blast
  have te: "ts_evidence s = sealed_session (new_session_evidence (so_evidence lease) pf dev k)"
    and lb: "lease_binds_preflight (so_evidence lease) pf" using A by (simp_all add: acquired_def)
  have ce: "dc_evidence c = sealed_confirmation (new_confirmation_evidence (ts_evidence s) phrase phrase)"
    using C by (simp add: confirmed_def)
  have ev: "ma_evidence a = sealed_authorization (new_authorization_evidence (dc_evidence c) (ma_writeOrder a) d t f)"
    using Z by blast
  have cor: "correlateFullFlashMutationAuthorization (dc_evidence c) (ma_writeOrder a) t f = Inr ()"
    using Z by blast
  note k = cor [unfolded correlateFullFlashMutationAuthorization_def, simplified result_simps]
  have m: "confirmation_matches_authorization (dc_evidence c) (ma_evidence a)"
    using k by (simp add: confirmation_matches_authorization_def ev sealed_authorization_def
        new_authorization_evidence_def)
  then have cb: "confirmation_binds (dc_evidence c) (ma_evidence a)"
    by (simp add: confirmation_binds_def confirmation_matches_authorization_def)
  have tb: "target_binds (ts_evidence s) (ma_evidence a)"
    using cb by (simp add: target_binds_def confirmation_binds_def ce sealed_confirmation_def new_confirmation_evidence_def)
  have sb: "source_binds (so_evidence lease) (ma_evidence a)"
    using tb lb by (simp add: source_binds_def target_binds_def te sealed_session_def new_session_evidence_def
        lease_binds_preflight_def)
  show ?thesis using A C Z v cb tb sb by (auto simp: chain_bound_def acquired_def confirmed_def)
qed

lemma authorized_run:
  assumes store: "working_store rs rt mem src env ops wt sync source_len target_len stat snapshot geometry"
    and chain: "acquireExclusiveFullFlashTargetWithOps (Some env) (Some lease) pf oc w0 = (Inr s, w1)"
      "ConfirmExclusiveFullFlashTarget (Some env2) (Some s) phrase w2 = (Inr c, w3)"
      "AuthorizeSinglePhaseFullFlashMutation (Some env3) (Some c) d t f w4 = (Inr a, w5)"
    and ops: "validateFullFlashExecutionOps ops = Inr u"
    and fits: "unat (wo_SourceFileSize (ma_writeOrder a)) \<le> source_len"
      "unat (wo_TargetSizeBytes (ma_writeOrder a)) \<le> target_len"
  shows "\<exists>w7. executeAuthorizedSinglePhaseFullFlashWithOps (Some env) (Some a) ops w6
      = ((verified_result (completed_result a), None), Some (a\<lparr>ma_consumed := True\<rparr>), w7)
    \<and> (\<forall>op \<in> set (wo_Operations (ma_writeOrder a)). op_restored src (mem w7) op)"
proof -
  note target = exact_store.axioms(1) [OF working_store.axioms(1) [OF store]]
  obtain dev k v2 v3 v4 v5 v6 where A: "acquired lease pf s dev k" and
    ver: "verify_source env (so_identity lease) v2 = (Inr (), v3)" and
    rev: "en_revalidate env (pf_DevicePath pf) (pf_KernelDeviceID pf) v4 = (Inr (dev, k), v5)" and
    snap: "validateAcquiredFullFlashTargetSnapshot env pf dev k v5 = (Inr (), v6)"
    by (rule acquire_Inr [OF chain(1)])
  have "fst (en_source_stat env v2) = stat" by (rule working_store.answers(1) [OF store])
  then have V: "Verify (Some stat) (so_identity lease) = Inr ()"
    using ver by (simp add: verify_source_def split: prod.splits)
  have "fst (en_revalidate env (pf_DevicePath pf) (pf_KernelDeviceID pf) v4) = Inr snapshot"
    by (rule working_store.answers(2) [OF store])
  then have "snapshot = (dev, k)" using rev by simp
  then have acc: "working_store.accepted env snapshot (ts_preflight s)"
    unfolding working_store.accepted_def [OF store]
    using snap A by (auto simp: acquired_def intro!: exI [of _ v5])
  have links: "chain_bound a s lease" by (rule chain_links [OF chain])
  have plan: "PlanSinglePhaseFullFlashWriteOrder d t f = Inr (ma_writeOrder a)"
    using authorize_Inr [OF chain(3)] by blast
  have val: "validateFullFlashWriteOrderPlan (ma_writeOrder a) = Inr ()"
    using links by (auto simp: chain_bound_def authorization_validateLocked_def result_simps)
  have reach: "\<forall>op \<in> set (wo_Operations (ma_writeOrder a)). op_reachable source_len target_len op"
    using validate_write_order_Inr [OF val] fits by (force simp: op_in_bounds_def op_reachable_def)
  obtain st w7 where t: "transaction env ops a (initial_state a) w6 = (Inr (), st, w7)"
    by (rule working_store.transaction_go [OF store links V acc reach _ _ ops, of w6])
       (use write_order_facts [OF plan] in blast)+
  have o: "validateFullFlashExecutionOps ops = Inr ()" using ops by simp
  have r: "es_result st = completed_result a" "es_consumed st" "authorization_validateLocked a = Inr ()"
    using transaction_completed [OF t o] by blast+
  have "executeAuthorizedSinglePhaseFullFlashWithOps (Some env) (Some a) ops w6
      = ((verified_result (completed_result a), None), Some (a\<lparr>ma_consumed := True\<rparr>), w7)"
    using completed_is_valid [OF r(3)] r
    by (simp add: executeAuthorizedSinglePhaseFullFlashWithOps_def o initial_state_def [symmetric] t Let_def)
  moreover have "\<forall>op \<in> set (wo_Operations (ma_writeOrder a)). op_restored src (mem w7) op"
    by (rule target_store.verified_transaction [OF target t o])
  ultimately show ?thesis by blast
qed

text \<open>
  C9: the whole restore gets there. On a device that works, however short its transfers are, a
  target that was acquired, confirmed and authorized by the chain is restored: the execution
  ends without an error, with the verified result, the authorization consumed, and the payload
  of every planned operation on the target.
\<close>

theorem authorized_restore_succeeds:
  assumes "working_store rs rt mem src env ops wt sync source_len target_len stat snapshot geometry"
    "acquireExclusiveFullFlashTargetWithOps (Some env) (Some lease) pf oc w0 = (Inr s, w1)"
    "ConfirmExclusiveFullFlashTarget (Some env2) (Some s) phrase w2 = (Inr c, w3)"
    "AuthorizeSinglePhaseFullFlashMutation (Some env3) (Some c) d t f w4 = (Inr a, w5)"
    "validateFullFlashExecutionOps ops = Inr u"
    "unat (wo_SourceFileSize (ma_writeOrder a)) \<le> source_len"
    "unat (wo_TargetSizeBytes (ma_writeOrder a)) \<le> target_len"
  shows "\<exists>w7. executeAuthorizedSinglePhaseFullFlashWithOps (Some env) (Some a) ops w6
      = ((verified_result (completed_result a), None), Some (a\<lparr>ma_consumed := True\<rparr>), w7)
    \<and> (\<forall>op \<in> set (wo_Operations (ma_writeOrder a)). op_restored src (mem w7) op)"
  by (rule authorized_run [OF assms])

end
