(* ===== verification/FfuMemory.thy ===== *)
theory FfuMemory
  imports FfuLive
begin

text \<open>
  A concrete environment for the contracts of the executor: a source file and a target whose
  medium is a function from addresses to bytes, both read and written with the semantics of
  \<open>pread\<close> and \<open>pwrite\<close> on files of a given length, under the production operations. The contracts
  of \<open>FfuStore\<close> and \<open>FfuLive\<close> are discharged here, and the chain is run once from the preflight
  to the verified target.
\<close>

section \<open>Files of a given length\<close>

definition file_read_at :: "nat \<Rightarrow> (nat \<Rightarrow> byte) \<Rightarrow> nat \<Rightarrow> u64 \<Rightarrow> bytes \<times> go_error option" where
  "file_read_at len content n off =
     (let d = source_bytes content (unat off) (min n (len - unat off)) in
      (d, if length d < n then Some EOF else None))"

definition disk_write_at :: "nat \<Rightarrow> (nat \<Rightarrow> byte) write_at" where
  "disk_write_at len buf off w =
     (let k = min (length buf) (len - unat off) in
      ((k, if k < length buf then Some (Msg ''no space left on device'') else None),
       overwrite w (unat off) (take k buf)))"

text \<open>Every address an offset of the executor can reach.\<close>

definition memory_length :: nat where "memory_length = 2 ^ 63"

definition source_reader :: "(nat \<Rightarrow> byte) \<Rightarrow> 'w read_at" where
  "source_reader src n off w = (file_read_at memory_length src n off, w)"

definition disk_reader :: "(nat \<Rightarrow> byte) read_at" where
  "disk_reader n off w = (file_read_at memory_length w n off, w)"

definition silent :: "'w poll" where "silent w = (None, w)"

definition steady_env ::
  "FileStat \<Rightarrow> BlockDevice \<Rightarrow> u64 \<Rightarrow> u64 \<times> u64 \<Rightarrow> ('w \<Rightarrow> 'w) \<Rightarrow> ('w \<Rightarrow> 'w) \<Rightarrow> 'w ffu_env" where
  "steady_env st d k g opn cls =
     \<lparr> en_ctx_err = silent, en_lease_ctx_err = silent, en_lease_check = silent,
       en_source_stat = ret_act st, en_open_target = (\<lambda>p w. (Inr (), opn w)),
       en_close_target = (\<lambda>w. (None, cls w)), en_verify_target = (\<lambda>_ _. silent),
       en_revalidate = (\<lambda>_ _. ret_act (d, k)), en_geometry = (\<lambda>_. ret_act g),
       en_source_outside = (\<lambda>_. silent) \<rparr>"

definition memory_ops :: "(nat \<Rightarrow> byte) \<Rightarrow> (nat \<Rightarrow> byte) fullFlashExecutionOps" where
  "memory_ops src = defaultFullFlashExecutionOps (source_reader src) (disk_write_at memory_length) silent disk_reader"

lemma act_keeps_silent [simp]: "act_keeps v silent"
  by (simp add: act_keeps_def silent_def)

lemma steady_quiet: "quiet_env v (steady_env st d k g opn cls)"
  by (simp add: quiet_env_def steady_env_def)

interpretation source_file: faithful_reader "source_reader src" "\<lambda>w. w" "\<lambda>_. src" for src :: "nat \<Rightarrow> byte"
  by unfold_locales (auto simp: source_reader_def file_read_at_def Let_def source_bytes_def)

interpretation disk: faithful_reader disk_reader "\<lambda>w. w" "\<lambda>m. m"
  by unfold_locales (auto simp: disk_reader_def file_read_at_def Let_def source_bytes_def)

interpretation memory: exact_store "source_reader src" disk_reader "\<lambda>w. w" src
    "steady_env st d k g opn cls" "memory_ops src" "disk_write_at memory_length" silent
  for src :: "nat \<Rightarrow> byte" and st d k g opn cls
  by unfold_locales
     (auto simp: steady_quiet quiet_hooks_def memory_ops_def defaultFullFlashExecutionOps_def disk_write_at_def Let_def
       overwrite_def)

interpretation memory: working_store "source_reader src" disk_reader "\<lambda>w. w" src
    "steady_env st d k g opn cls" "memory_ops src" "disk_write_at memory_length" silent
    memory_length memory_length "Inr st" "(d, k)" g
  for src :: "nat \<Rightarrow> byte" and st d k g opn cls
  by unfold_locales
     (auto simp: steady_env_def silent_def ret_act_def source_reader_def disk_reader_def file_read_at_def
       disk_write_at_def Let_def memory_length_def source_bytes_def)

interpretation counter: descriptor_count "\<lambda>w. w" "steady_env st d k g Suc (\<lambda>w. w - 1)" for st d k g
  by unfold_locales (rule steady_quiet, auto simp: steady_env_def)

section \<open>A concrete chain\<close>

definition sample_preflight :: "Inspection \<Rightarrow> FullFlashTargetPreflightPlan" where
  "sample_preflight i =
     (let p = new_preflight_plan (sample_full i) sample_disk 2064 512 512 [] in
      p\<lparr>pf_PlanSHA256 := fullFlashTargetPreflightDigest p\<rparr>)"

lemma preflight_digest_ignores_sha [simp]:
  "fullFlashTargetPreflightDigest (p\<lparr>pf_PlanSHA256 := x\<rparr>) = fullFlashTargetPreflightDigest p"
  by (simp add: fullFlashTargetPreflightDigest_def target_preflight_preimage_def)

lemma lease_digest_ignores_sha [simp]:
  "fullFlashSourceLeaseEvidenceDigest (e\<lparr>sl_PlanSHA256 := x\<rparr>) = fullFlashSourceLeaseEvidenceDigest e"
  by (simp add: fullFlashSourceLeaseEvidenceDigest_def source_lease_preimage_def)

lemma session_digest_ignores_sha [simp]:
  "fullFlashTargetSessionEvidenceDigest (e\<lparr>te_PlanSHA256 := x\<rparr>) = fullFlashTargetSessionEvidenceDigest e"
  by (simp add: fullFlashTargetSessionEvidenceDigest_def target_session_preimage_def)

lemma confirmation_digest_ignores_sha [simp]:
  "fullFlashConfirmationEvidenceDigest (e\<lparr>ce_PlanSHA256 := x\<rparr>) = fullFlashConfirmationEvidenceDigest e"
  by (simp add: fullFlashConfirmationEvidenceDigest_def confirmation_preimage_def)

lemma authorization_digest_ignores_sha [simp]:
  "fullFlashMutationAuthorizationEvidenceDigest (e\<lparr>ae_PlanSHA256 := x\<rparr>) = fullFlashMutationAuthorizationEvidenceDigest e"
  by (simp add: fullFlashMutationAuthorizationEvidenceDigest_def mutation_authorization_preimage_def)

lemma chain_digests_valid [simp]:
  "validFullFlashPlanSHA256 (sha256_hex x)" "validFullFlashPlanSHA256 (IdentityToken d)"
  "validFullFlashPlanSHA256 (fullFlashTargetPreflightDigest p)"
  "validFullFlashPlanSHA256 (fullFlashSourceLeaseEvidenceDigest sl)"
  "validFullFlashPlanSHA256 (fullFlashTargetSessionEvidenceDigest te)"
  "validFullFlashPlanSHA256 (fullFlashConfirmationEvidenceDigest ce)"
  "validFullFlashPlanSHA256 (fullFlashWriteOrderPlanDigest wo)"
  by (simp_all add: sha256_hex_valid IdentityToken_def fullFlashTargetPreflightDigest_def
      fullFlashSourceLeaseEvidenceDigest_def fullFlashTargetSessionEvidenceDigest_def
      fullFlashConfirmationEvidenceDigest_def fullFlashWriteOrderPlanDigest_def)

lemma sample_preflight_fields [simp]:
  "pf_FullFlashValidationPlanSHA256 (sample_preflight i) = fv_PlanSHA256 (sample_full i)"
  "pf_RestoreTargetPlanSHA256 (sample_preflight i) = rt_PlanSHA256 sample_target"
  "pf_AuthenticatedIntegritySHA256 (sample_preflight i) = sha256_hex []"
  "pf_DevicePath (sample_preflight i) = ''/dev/sdb''"
  "pf_ExpectedTargetIdentity (sample_preflight i) = IdentityToken sample_disk"
  "pf_RediscoveredTargetIdentity (sample_preflight i) = IdentityToken sample_disk"
  "pf_TargetSizeBytes (sample_preflight i) = 262144" "pf_LogicalSectorSizeBytes (sample_preflight i) = 512"
  "pf_PhysicalSectorSizeBytes (sample_preflight i) = 512" "pf_StoreBlockSizeBytes (sample_preflight i) = 512"
  "pf_KernelDeviceID (sample_preflight i) = 2064" "pf_MajorMinor (sample_preflight i) = ''8:16''"
  "pf_MutationBytes (sample_preflight i) = 2048" "pf_MountedTargets (sample_preflight i) = []"
  "\<not> pf_UnmountRequired (sample_preflight i)"
  by (simp_all add: sample_preflight_def new_preflight_plan_def Let_def sample_disk_def)

lemma sample_preflight_digest [simp]:
  "pf_PlanSHA256 (sample_preflight i) = fullFlashTargetPreflightDigest (sample_preflight i)"
  by (simp only: sample_preflight_def Let_def preflight_digest_ignores_sha) simp

lemma sample_preflight_valid: "validateFullFlashTargetPreflightPlan (sample_preflight i) = Inr ()"
proof -
  have r: "preflight_request (sample_preflight i) = sample_request"
    by (simp add: preflight_request_def sample_request_def)
  have t: "trim_space ''8:16'' = ''8:16''" by (rule trim_space_id) simp_all
  show ?thesis
    unfolding validateFullFlashTargetPreflightPlan_def r sample_request_ok
    by (simp add: equalRestoreStrings_def t)
       (simp add: sample_preflight_def new_preflight_plan_def Let_def)
qed

definition sample_file_stat :: FileStat where
  "sample_file_stat = \<lparr> fs_Regular = True, fs_Size = 4096, fs_Dev = 2049, fs_Ino = 77, fs_MtimSec = 0,
     fs_MtimNsec = 5, fs_CtimSec = 0, fs_CtimNsec = 6 \<rparr>"

lemma sample_source_verified: "Verify (Some (Inr sample_file_stat)) sample_identity = Inr ()"
  by (simp add: Verify_def IdentityOf_def sample_file_stat_def sample_identity_def check_def sint_small)

definition sample_lease :: "Inspection \<Rightarrow> FullFlashSourceLease" where
  "sample_lease i =
     (let e = new_lease_evidence sample_identity (sample_preflight i) (sample_full i) in
      \<lparr> so_file = True, so_lease = True, so_identity = sample_identity,
        so_evidence = e\<lparr>sl_PlanSHA256 := fullFlashSourceLeaseEvidenceDigest e\<rparr>, so_sealed = True, so_closed = False \<rparr>)"

lemma canonical_sdb: "canonical_device_path ''/dev/sdb''"
proof -
  have "trim_space ''/dev/sdb'' = ''/dev/sdb''" by (rule trim_space_id) simp_all
  then show ?thesis
    by (simp add: canonical_device_path_def is_abs_def has_prefix_def clean_path_def clean_rooted_def)
qed

lemma sample_lease_digest:
  "sl_PlanSHA256 (so_evidence (sample_lease i)) = fullFlashSourceLeaseEvidenceDigest (so_evidence (sample_lease i))"
  by (simp only: sample_lease_def Let_def FullFlashSourceLease.simps lease_digest_ignores_sha) simp

lemma sample_lease_fields [simp]:
  "so_identity (sample_lease i) = sample_identity" "so_sealed (sample_lease i)" "so_file (sample_lease i)"
  "so_lease (sample_lease i)" "\<not> so_closed (sample_lease i)"
  by (simp_all add: sample_lease_def Let_def)

lemma sample_lease_evidence [simp]:
  "sl_Schema (so_evidence (sample_lease i)) = 1"
  "sl_Mode (so_evidence (sample_lease i)) = ''ffu-authenticated-source-lease''"
  "sl_SourceIdentity (so_evidence (sample_lease i)) = sample_identity"
  "sl_SourceFileSize (so_evidence (sample_lease i)) = 4096"
  "sl_FullFlashTargetPreflightSHA256 (so_evidence (sample_lease i)) = pf_PlanSHA256 (sample_preflight i)"
  "sl_FullFlashValidationPlanSHA256 (so_evidence (sample_lease i)) = fv_PlanSHA256 (sample_full i)"
  "sl_RestoreTargetPlanSHA256 (so_evidence (sample_lease i)) = rt_PlanSHA256 sample_target"
  "sl_AuthenticatedIntegritySHA256 (so_evidence (sample_lease i)) = sha256_hex []"
  "sl_TargetDevicePath (so_evidence (sample_lease i)) = ''/dev/sdb''"
  "sl_ExpectedTargetIdentity (so_evidence (sample_lease i)) = IdentityToken sample_disk"
  "sl_TargetSizeBytes (so_evidence (sample_lease i)) = 262144"
  "sl_KernelReadLeaseRequired (so_evidence (sample_lease i))" "sl_KernelReadLeaseHeld (so_evidence (sample_lease i))"
  "sl_SourceIdentityRevalidated (so_evidence (sample_lease i))"
  "sl_FullFlashValidationReproduced (so_evidence (sample_lease i))"
  "sl_TargetPreflightBound (so_evidence (sample_lease i))" "\<not> sl_FallbackAllowed (so_evidence (sample_lease i))"
  "\<not> sl_TargetAccessPermitted (so_evidence (sample_lease i))" "\<not> sl_ExecutionSupported (so_evidence (sample_lease i))"
  "sl_Warnings (so_evidence (sample_lease i)) = fullFlashSourceLeaseWarnings"
  "sl_Limitations (so_evidence (sample_lease i)) = fullFlashSourceLeaseLimitations"
  by (simp_all add: sample_lease_def new_lease_evidence_def Let_def sample_identity_def)

lemma sample_lease_valid: "lease_validateLocked (sample_lease i) = Inr ()"
  by (simp add: lease_validateLocked_def validateFullFlashSourceLeaseEvidence_def sample_lease_digest
      canonical_sdb equalRestoreStrings_def)
     (simp add: sample_identity_def sint_small)

lemmas act_run = bind_act_def pure_act_def ret_act_def try_call_def wrap_act_def cleanup_on_error_def mapE_def
  silent_def

abbreviation (input) sample_env :: "('w \<Rightarrow> 'w) \<Rightarrow> ('w \<Rightarrow> 'w) \<Rightarrow> 'w ffu_env" where
  "sample_env \<equiv> steady_env sample_file_stat sample_disk 2064 (512, 512)"

lemma steady_env_simps [simp]:
  "en_ctx_err (steady_env st d k g opn cls) = silent" "en_lease_ctx_err (steady_env st d k g opn cls) = silent"
  "en_lease_check (steady_env st d k g opn cls) = silent"
  "en_source_stat (steady_env st d k g opn cls) w = (Inr st, w)"
  "en_open_target (steady_env st d k g opn cls) p w = (Inr (), opn w)"
  "en_close_target (steady_env st d k g opn cls) w = (None, cls w)"
  "en_verify_target (steady_env st d k g opn cls) x y = silent"
  "en_revalidate (steady_env st d k g opn cls) p x w = (Inr (d, k), w)"
  "en_geometry (steady_env st d k g opn cls) n w = (Inr g, w)"
  "en_source_outside (steady_env st d k g opn cls) b = silent"
  by (simp_all add: steady_env_def ret_act_def)

definition sample_session_evidence :: "Inspection \<Rightarrow> FullFlashTargetSessionEvidence" where
  "sample_session_evidence i =
     sealed_session (new_session_evidence (so_evidence (sample_lease i)) (sample_preflight i) sample_disk 2064)"

lemma sample_session_evidence_fields [simp]:
  "te_Schema (sample_session_evidence i) = 1"
  "te_Mode (sample_session_evidence i) = ''ffu-exclusive-target-session''"
  "te_SourceLeaseEvidenceSHA256 (sample_session_evidence i) = sl_PlanSHA256 (so_evidence (sample_lease i))"
  "te_FullFlashTargetPreflightSHA256 (sample_session_evidence i) = pf_PlanSHA256 (sample_preflight i)"
  "te_FullFlashValidationPlanSHA256 (sample_session_evidence i) = fv_PlanSHA256 (sample_full i)"
  "te_RestoreTargetPlanSHA256 (sample_session_evidence i) = rt_PlanSHA256 sample_target"
  "te_AuthenticatedIntegritySHA256 (sample_session_evidence i) = sha256_hex []"
  "te_DevicePath (sample_session_evidence i) = ''/dev/sdb''"
  "te_ExpectedTargetIdentity (sample_session_evidence i) = IdentityToken sample_disk"
  "te_RediscoveredTargetIdentity (sample_session_evidence i) = IdentityToken sample_disk"
  "te_TargetSizeBytes (sample_session_evidence i) = 262144" "te_LogicalSectorSizeBytes (sample_session_evidence i) = 512"
  "te_PhysicalSectorSizeBytes (sample_session_evidence i) = 512" "te_StoreBlockSizeBytes (sample_session_evidence i) = 512"
  "te_ExpectedKernelDeviceID (sample_session_evidence i) = 2064"
  "te_ObservedKernelDeviceID (sample_session_evidence i) = 2064"
  "te_MajorMinor (sample_session_evidence i) = ''8:16''" "te_MutationBytes (sample_session_evidence i) = 2048"
  "te_SourceLeaseHeld (sample_session_evidence i)" "te_TargetOpenedReadWrite (sample_session_evidence i)"
  "te_KernelExclusiveOpen (sample_session_evidence i)" "te_NoFollowOpen (sample_session_evidence i)"
  "te_MountedTargetsAbsent (sample_session_evidence i)" "\<not> te_GuardedUnmountPerformed (sample_session_evidence i)"
  "te_TargetDescriptorVerified (sample_session_evidence i)" "te_TargetPolicyRevalidated (sample_session_evidence i)"
  "te_TargetGeometryRevalidated (sample_session_evidence i)"
  "te_SourceOutsideTargetConfirmed (sample_session_evidence i)"
  "\<not> te_FixedDiskOverrideAllowed (sample_session_evidence i)" "te_TargetAccessAcquired (sample_session_evidence i)"
  "\<not> te_MutationPermitted (sample_session_evidence i)" "\<not> te_ExecutionSupported (sample_session_evidence i)"
  "te_Warnings (sample_session_evidence i) = fullFlashTargetSessionWarnings"
  "te_Limitations (sample_session_evidence i) = fullFlashTargetSessionLimitations"
  by (simp_all add: sample_session_evidence_def sealed_session_def new_session_evidence_def)
     (simp_all add: sample_disk_def)

lemma sample_lease_sha_valid [simp]: "validFullFlashPlanSHA256 (sl_PlanSHA256 (so_evidence (sample_lease i)))"
  by (simp add: sample_lease_digest)

lemma sample_session_digest:
  "te_PlanSHA256 (sample_session_evidence i) = fullFlashTargetSessionEvidenceDigest (sample_session_evidence i)"
  by (simp only: sample_session_evidence_def sealed_session_def session_digest_ignores_sha) simp

lemma sample_session_evidence_valid: "validateFullFlashTargetSessionEvidence (sample_session_evidence i) = Inr ()"
proof -
  have t: "trim_space ''8:16'' = ''8:16''" by (rule trim_space_id) simp_all
  show ?thesis
    by (simp add: validateFullFlashTargetSessionEvidence_def canonical_sdb t equalRestoreStrings_def sample_session_digest)
qed

definition sample_session :: "Inspection \<Rightarrow> FullFlashTargetSession" where
  "sample_session i =
     \<lparr> ts_file = True, ts_source = Some (sample_lease i), ts_preflight = sample_preflight i,
       ts_evidence = sample_session_evidence i, ts_ops = True, ts_sealed = True, ts_closed = False \<rparr>"

lemma sample_snapshot:
  "validateAcquiredFullFlashTargetSnapshot (sample_env opn cls) (sample_preflight i) sample_disk 2064 w = (Inr (), w)"
  unfolding validateAcquiredFullFlashTargetSnapshot_def Let_def
  by (simp add: act_run check_def collectFullFlashTargetMounts_def node_mounts_def)
     (simp add: sample_disk_def act_run check_def)

lemma sample_acquired:
  "acquireExclusiveFullFlashTargetWithOps (Some (sample_env opn cls)) (Some (sample_lease i)) (sample_preflight i) True w
     = (Inr (sample_session i), opn w)"
proof -
  have v: "verify_source (sample_env opn cls) sample_identity = (\<lambda>w. (Inr (), w))"
    by (simp add: fun_eq_iff verify_source_def sample_source_verified)
  show ?thesis
    unfolding acquireExclusiveFullFlashTargetWithOps_def with_open_target_def option.case Let_def
      sealed_session_def [symmetric] sample_session_evidence_def [symmetric]
    by (simp add: act_run sample_preflight_valid sample_lease_valid validateFullFlashTargetOpenOps_def check_def v
        sample_snapshot sample_session_evidence_valid sample_session_def
        sample_session_evidence_def [symmetric] sealed_session_def [symmetric])
qed

lemma phrase_eq: "confirmation_phrase p n = expectedFullFlashConfirmationPhrase p n"
  by (simp add: confirmation_phrase_def expectedFullFlashConfirmationPhrase_def)

definition sample_phrase :: string where
  "sample_phrase = expectedFullFlashConfirmationPhrase ''/dev/sdb'' 262144"

lemma sample_phrase_length: "length sample_phrase \<noteq> 0 \<and> length sample_phrase \<le> 4096"
  using digits_length [of 20 "unat (262144 :: u64)"]
  by (simp add: sample_phrase_def expectedFullFlashConfirmationPhrase_def decimal_def)

lemma sample_session_valid: "session_validateLocked (sample_session i) = Inr ()"
  by (simp add: session_validateLocked_def sample_session_def validateFullFlashTargetOpenOps_def check_def
      sample_session_evidence_valid)

lemma sample_verify_source: "verify_source (sample_env opn cls) sample_identity w = (Inr (), w)"
  by (simp add: verify_source_def sample_source_verified)

lemma sample_session_check: "session_Check (sample_env opn cls) (Some (sample_session i)) w = (Inr (), w)"
  unfolding session_Check_def lease_Check_def option.case Let_def
  by (simp add: act_run sample_session_valid)
     (simp add: sample_session_def lease_Check_def act_run sample_lease_valid sample_verify_source sample_snapshot)

definition sample_confirmation_evidence :: "Inspection \<Rightarrow> FullFlashConfirmationEvidence" where
  "sample_confirmation_evidence i =
     sealed_confirmation (new_confirmation_evidence (sample_session_evidence i) sample_phrase sample_phrase)"

lemma sample_session_sha_valid [simp]: "validFullFlashPlanSHA256 (te_PlanSHA256 (sample_session_evidence i))"
  by (simp add: sample_session_digest)

lemma sample_confirmation_fields [simp]:
  "ce_Schema (sample_confirmation_evidence i) = 1"
  "ce_Mode (sample_confirmation_evidence i) = ''ffu-exact-destructive-confirmation''"
  "ce_TargetSessionEvidenceSHA256 (sample_confirmation_evidence i) = te_PlanSHA256 (sample_session_evidence i)"
  "ce_SourceLeaseEvidenceSHA256 (sample_confirmation_evidence i) = sl_PlanSHA256 (so_evidence (sample_lease i))"
  "ce_FullFlashTargetPreflightSHA256 (sample_confirmation_evidence i) = pf_PlanSHA256 (sample_preflight i)"
  "ce_FullFlashValidationPlanSHA256 (sample_confirmation_evidence i) = fv_PlanSHA256 (sample_full i)"
  "ce_RestoreTargetPlanSHA256 (sample_confirmation_evidence i) = rt_PlanSHA256 sample_target"
  "ce_AuthenticatedIntegritySHA256 (sample_confirmation_evidence i) = sha256_hex []"
  "ce_DevicePath (sample_confirmation_evidence i) = ''/dev/sdb''"
  "ce_ExpectedTargetIdentity (sample_confirmation_evidence i) = IdentityToken sample_disk"
  "ce_TargetSizeBytes (sample_confirmation_evidence i) = 262144"
  "ce_MutationBytes (sample_confirmation_evidence i) = 2048"
  "ce_ExpectedConfirmationPhrase (sample_confirmation_evidence i) = sample_phrase"
  "ce_ConfirmationPhraseSHA256 (sample_confirmation_evidence i) = sha256_hex (string_bytes sample_phrase)"
  "ce_ConfirmationExactMatch (sample_confirmation_evidence i)" "ce_ConfirmationConsumed (sample_confirmation_evidence i)"
  "ce_SourceLeaseHeld (sample_confirmation_evidence i)" "ce_TargetSessionHeld (sample_confirmation_evidence i)"
  "ce_TargetAccessAcquired (sample_confirmation_evidence i)"
  "\<not> ce_GuardedUnmountPerformed (sample_confirmation_evidence i)"
  "\<not> ce_MutationPermitted (sample_confirmation_evidence i)" "\<not> ce_ExecutionSupported (sample_confirmation_evidence i)"
  "ce_Warnings (sample_confirmation_evidence i) = fullFlashConfirmationWarnings"
  "ce_Limitations (sample_confirmation_evidence i) = fullFlashConfirmationLimitations"
  by (simp_all add: sample_confirmation_evidence_def sealed_confirmation_def new_confirmation_evidence_def)

lemma sample_confirmation_digest:
  "ce_PlanSHA256 (sample_confirmation_evidence i)
     = fullFlashConfirmationEvidenceDigest (sample_confirmation_evidence i)"
  by (simp only: sample_confirmation_evidence_def sealed_confirmation_def confirmation_digest_ignores_sha) simp

lemma sample_confirmation_evidence_valid:
  "validateFullFlashConfirmationEvidence (sample_confirmation_evidence i) = Inr ()"
proof -
  have "trim_space ''/dev/sdb'' = ''/dev/sdb''" by (rule trim_space_id) simp_all
  then show ?thesis
    by (simp add: validateFullFlashConfirmationEvidence_def Let_def equalRestoreStrings_def
        sample_confirmation_digest has_prefix_def sample_phrase_def [symmetric])
qed

definition sample_confirmation :: "Inspection \<Rightarrow> FullFlashDestructiveConfirmation" where
  "sample_confirmation i =
     \<lparr> dc_target = Some (sample_session i), dc_evidence = sample_confirmation_evidence i, dc_sealed = True \<rparr>"

lemma sample_session_evidence_read: "session_Evidence (Some (sample_session i)) = Inr (sample_session_evidence i)"
  by (simp add: session_Evidence_def sample_session_valid) (simp add: sample_session_def)

lemma sample_confirmed:
  "ConfirmExclusiveFullFlashTarget (Some (sample_env opn cls)) (Some (sample_session i)) sample_phrase w
     = (Inr (sample_confirmation i), w)"
  unfolding ConfirmExclusiveFullFlashTarget_def option.case Let_def sealed_confirmation_def [symmetric]
  using sample_phrase_length
  by (simp add: act_run sample_session_check sample_session_evidence_read sample_phrase_def [symmetric]
      same_session_def maxFullFlashConfirmationBytes_def
      sample_confirmation_evidence_def [symmetric] sample_confirmation_evidence_valid sample_confirmation_def)

lemma sample_confirmation_valid: "confirmation_validateLocked (sample_confirmation i) = Inr ()"
  by (simp add: confirmation_validateLocked_def sample_confirmation_def sample_confirmation_evidence_valid)

lemma sample_confirmation_evidence_read:
  "confirmation_Evidence (Some (sample_confirmation i)) = Inr (sample_confirmation_evidence i)"
  by (simp add: confirmation_Evidence_def sample_confirmation_valid) (simp add: sample_confirmation_def)

lemma sample_confirmation_check:
  "confirmation_Check (sample_env opn cls) (Some (sample_confirmation i)) w = (Inr (), w)"
  unfolding confirmation_Check_def option.case Let_def
  by (simp add: act_run sample_confirmation_valid)
     (simp add: sample_confirmation_def sample_session_check sample_session_evidence_read check_def act_run)

lemma sample_order_headers [simp]:
  "wo_DescriptorPlanSHA256 (sample_order i) = dp_PlanSHA256 sample_descriptor_plan"
  "wo_RestoreTargetPlanSHA256 (sample_order i) = rt_PlanSHA256 sample_target"
  "wo_FullFlashValidationPlanSHA256 (sample_order i) = fv_PlanSHA256 (sample_full i)"
  "wo_AuthenticatedIntegrityPlanSHA256 (sample_order i) = sha256_hex []"
  "wo_CatalogSHA256 (sample_order i) = sha256_hex []" "wo_HashTableSHA256 (sample_order i) = sha256_hex []"
  "wo_SourceFileSize (sample_order i) = 4096" "wo_DevicePath (sample_order i) = ''/dev/sdb''"
  "wo_ExpectedTargetIdentity (sample_order i) = IdentityToken sample_disk"
  "wo_TargetSizeBytes (sample_order i) = 262144" "wo_StoreBlockSizeBytes (sample_order i) = 512"
  "wo_OperationCount (sample_order i) = 2" "wo_ConfirmationPhrase (sample_order i) = sample_phrase"
  "wo_ConfirmationStillRequired (sample_order i)" "\<not> wo_MutationPermitted (sample_order i)"
  "\<not> wo_ExecutionSupported (sample_order i)"
  by (simp_all add: sample_order_def new_write_order_def Let_def sample_operations_def phrase_eq sample_phrase_def)

lemma sample_order_sha_valid [simp]: "validFullFlashPlanSHA256 (wo_PlanSHA256 (sample_order i))"
  by (simp add: sample_order_def Let_def)

definition sample_authorization_evidence :: "Inspection \<Rightarrow> FullFlashMutationAuthorizationEvidence" where
  "sample_authorization_evidence i =
     sealed_authorization (new_authorization_evidence (sample_confirmation_evidence i) (sample_order i)
       sample_descriptor_plan sample_target (sample_full i))"

definition sample_authorization :: "Inspection \<Rightarrow> FullFlashMutationAuthorization" where
  "sample_authorization i =
     \<lparr> ma_confirmation = Some (sample_confirmation i), ma_writeOrder = sample_order i,
       ma_evidence = sample_authorization_evidence i, ma_consumed = False, ma_sealed = True \<rparr>"

lemma sample_authorization_digest:
  "ae_PlanSHA256 (sample_authorization_evidence i)
     = fullFlashMutationAuthorizationEvidenceDigest (sample_authorization_evidence i)"
  by (simp only: sample_authorization_evidence_def sealed_authorization_def authorization_digest_ignores_sha) simp

lemma sample_confirmation_sha_valid [simp]:
  "validFullFlashPlanSHA256 (ce_PlanSHA256 (sample_confirmation_evidence i))"
  by (simp add: sample_confirmation_digest)

lemma sample_authorization_evidence_valid:
  "validateFullFlashMutationAuthorizationEvidence (sample_authorization_evidence i) = Inr ()"
  unfolding validateFullFlashMutationAuthorizationEvidence_def sample_authorization_digest
  by (simp add: sample_authorization_evidence_def sealed_authorization_def new_authorization_evidence_def canonical_sdb
      equalRestoreStrings_def phrase_eq)

lemma sample_correlated:
  "correlateFullFlashMutationAuthorization (sample_confirmation_evidence i) (sample_order i) sample_target (sample_full i)
     = Inr ()"
  by (simp add: correlateFullFlashMutationAuthorization_def sample_confirmation_evidence_valid sample_order_valid
      phrase_eq sample_phrase_def)

lemma sample_authorized:
  assumes "st_UpdateType (insp_Store i) = 0"
  shows "AuthorizeSinglePhaseFullFlashMutation (Some (sample_env opn cls)) (Some (sample_confirmation i))
      sample_descriptor_plan sample_target (sample_full i) w = (Inr (sample_authorization i), w)"
  unfolding AuthorizeSinglePhaseFullFlashMutation_def option.case Let_def sealed_authorization_def [symmetric]
  by (simp add: act_run sample_confirmation_check sample_confirmation_evidence_read sample_order_planned [OF assms]
      sample_correlated same_confirmation_def sample_authorization_evidence_def [symmetric]
      sample_authorization_evidence_valid sample_authorization_def)

lemma sample_inspection: obtains i :: Inspection where "st_UpdateType (insp_Store i) = 0"
proof -
  from sample_inspect obtain i :: Inspection where "insp_Store i = (store_header_of sample_store)\<lparr>st_FinalTableBlockEnd := 1\<rparr>"
    by (elim exE conjE)
  then show thesis by (intro that [of i]) (simp add: sample_store_header)
qed

section \<open>The theorems at work\<close>

lemma memory_ops_valid: "validateFullFlashExecutionOps (memory_ops src) = Inr ()"
  by (simp add: validateFullFlashExecutionOps_def memory_ops_def defaultFullFlashExecutionOps_def)

lemma memory_working:
  "working_store (source_reader src) disk_reader (\<lambda>w. w) src (sample_env opn cls) (memory_ops src)
     (disk_write_at memory_length) silent memory_length memory_length (Inr sample_file_stat) (sample_disk, 2064) (512, 512)"
  by unfold_locales

lemma sample_restored:
  obtains i w where "executeAuthorizedSinglePhaseFullFlashWithOps (Some (sample_env id id)) (Some (sample_authorization i))
      (memory_ops src) w0 = ((verified_result (completed_result (sample_authorization i)), None),
        Some ((sample_authorization i)\<lparr>ma_consumed := True\<rparr>), w)"
    "\<forall>op \<in> set sample_operations. op_restored src w op"
    "st_UpdateType (insp_Store i) = 0"
proof -
  obtain i :: Inspection where u: "st_UpdateType (insp_Store i) = 0" by (rule sample_inspection)
  have "\<exists>w7. executeAuthorizedSinglePhaseFullFlashWithOps (Some (sample_env id id)) (Some (sample_authorization i))
      (memory_ops src) w0 = ((verified_result (completed_result (sample_authorization i)), None),
        Some ((sample_authorization i)\<lparr>ma_consumed := True\<rparr>), w7)
    \<and> (\<forall>op \<in> set (wo_Operations (ma_writeOrder (sample_authorization i))). op_restored src w7 op)"
    by (rule authorized_run [OF memory_working sample_acquired sample_confirmed sample_authorized [OF u]
          memory_ops_valid])
       (simp_all add: sample_authorization_def memory_length_def)
  then show thesis using that u by (auto simp: sample_authorization_def)
qed

lemma memory_exact:
  "exact_store (source_reader src) disk_reader (\<lambda>w. w) src (steady_env st d k g opn cls) (memory_ops src)
     (disk_write_at memory_length) silent"
  by unfold_locales

lemma memory_confined:
  "confined_store (source_reader src) disk_reader (\<lambda>w. w) src (steady_env st d k g opn cls) (memory_ops src)
     (disk_write_at memory_length) silent"
  by unfold_locales

lemma memory_target:
  "target_store (source_reader src) disk_reader (\<lambda>w. w) src (steady_env st d k g opn cls) (memory_ops src)
     (disk_write_at memory_length) silent"
  by unfold_locales

lemmas sample_operation_defs = sample_operations_def sample_operation_def sample_extents_def extent_of_def
  dest_start_def sample_write_def sample_location_def diskAccessBegin_def diskAccessEnd_def u64_of_def

lemma sample_authorization_operations [simp]:
  "wo_Operations (ma_writeOrder (sample_authorization i)) = sample_operations"
  by (simp add: sample_authorization_def)

theorem authorized_restore_succeeds_witness:
  "\<exists>i w. executeAuthorizedSinglePhaseFullFlashWithOps (Some (sample_env id id)) (Some (sample_authorization i))
      (memory_ops of_nat) (\<lambda>_. 0) = ((verified_result (completed_result (sample_authorization i)), None),
        Some ((sample_authorization i)\<lparr>ma_consumed := True\<rparr>), w)
    \<and> w 2561 = (1 :: byte)"
proof -
  obtain i :: Inspection where u: "st_UpdateType (insp_Store i) = 0" by (rule sample_inspection)
  have "\<exists>w7. executeAuthorizedSinglePhaseFullFlashWithOps (Some (sample_env id id)) (Some (sample_authorization i))
      (memory_ops of_nat) (\<lambda>_. 0) = ((verified_result (completed_result (sample_authorization i)), None),
        Some ((sample_authorization i)\<lparr>ma_consumed := True\<rparr>), w7)
    \<and> (\<forall>op \<in> set (wo_Operations (ma_writeOrder (sample_authorization i))). op_restored of_nat w7 op)"
    by (rule authorized_restore_succeeds [OF memory_working sample_acquired sample_confirmed sample_authorized [OF u]
          memory_ops_valid])
       (simp_all add: sample_authorization_def memory_length_def)
  then obtain w where e: "executeAuthorizedSinglePhaseFullFlashWithOps (Some (sample_env id id)) (Some (sample_authorization i))
      (memory_ops of_nat) (\<lambda>_. 0) = ((verified_result (completed_result (sample_authorization i)), None),
        Some ((sample_authorization i)\<lparr>ma_consumed := True\<rparr>), w)"
    and r: "op_restored of_nat w (sample_operations ! 0)"
    by (auto simp: sample_operations_def)
  have "w (2560 + 1) = of_nat (3072 + 1)"
    using r unfolding op_restored_def by (elim allE [of _ 1]) (simp add: sample_operation_defs)
  moreover have "(of_nat (3072 + 1) :: byte) = 1" by (simp add: word_eq_unat unat_of_nat)
  ultimately have "w 2561 = 1" by simp
  with e show ?thesis by blast
qed

theorem verified_run_restored_witness:
  "\<exists>i r a2 w1. executeAuthorizedSinglePhaseFullFlashWithOps (Some (sample_env id id)) (Some (sample_authorization i))
      (memory_ops of_nat) (\<lambda>_. 0) = ((r, None), a2, w1)
    \<and> xr_Status r = ''verified'' \<and> op_restored of_nat w1 (sample_operations ! 1)"
proof -
  obtain i w where e: "executeAuthorizedSinglePhaseFullFlashWithOps (Some (sample_env id id)) (Some (sample_authorization i))
      (memory_ops of_nat) (\<lambda>_. 0) = ((verified_result (completed_result (sample_authorization i)), None),
        Some ((sample_authorization i)\<lparr>ma_consumed := True\<rparr>), w)" by (rule sample_restored)
  have "op_restored of_nat w (sample_operations ! 1)"
    using verified_run_restored [OF memory_target e] by (simp add: sample_operations_def)
  with e show ?thesis by (intro exI conjI) (assumption | simp)+
qed

theorem only_authorized_bytes_change_witness:
  "\<exists>i out a2 w1. executeAuthorizedSinglePhaseFullFlashWithOps (Some (sample_env id id)) (Some (sample_authorization i))
      (memory_ops of_nat) (\<lambda>_. 5) = (out, a2, w1) \<and> snd out = None \<and> w1 0 = 5"
proof -
  obtain i w where e: "executeAuthorizedSinglePhaseFullFlashWithOps (Some (sample_env id id)) (Some (sample_authorization i))
      (memory_ops of_nat) (\<lambda>_. 5) = ((verified_result (completed_result (sample_authorization i)), None),
        Some ((sample_authorization i)\<lparr>ma_consumed := True\<rparr>), w)" by (rule sample_restored)
  have "\<forall>op \<in> set (wo_Operations (ma_writeOrder (sample_authorization i))). \<not> op_covers op 0"
    by (simp add: op_covers_def sample_operation_defs)
  from only_authorized_bytes_change [OF memory_confined e this] e show ?thesis by auto
qed

theorem not_started_means_untouched_witness:
  "\<exists>i r e a2 w1. executeAuthorizedSinglePhaseFullFlashWithOps (Some (sample_env id id))
      (Some ((sample_authorization i)\<lparr>ma_consumed := True\<rparr>)) (memory_ops of_nat) (\<lambda>_. 5) = ((r, e), a2, w1)
    \<and> xr_Status r = ''not-started'' \<and> w1 = (\<lambda>_. 5)"
proof -
  let ?a = "(sample_authorization undefined)\<lparr>ma_consumed := True\<rparr>"
  obtain r e a2 w1 where x: "executeAuthorizedSinglePhaseFullFlashWithOps (Some (sample_env id id)) (Some ?a)
      (memory_ops of_nat) (\<lambda>_. 5) = ((r, e), a2, w1)" by (metis surj_pair)
  have "authorization_validateLocked ?a = Inl (Msg ''FFU mutation authorization has already been consumed'')"
    by (simp add: authorization_validateLocked_def)
  then have "xr_Status r = ''not-started''"
    using x by (auto simp: executeAuthorizedSinglePhaseFullFlashWithOps_def memory_ops_valid transaction_refused Let_def)
  with not_started_means_untouched [OF memory_exact x] x show ?thesis by blast
qed

theorem authorization_is_one_shot_witness:
  "\<exists>i a2 r2 e2. executeAuthorizedSinglePhaseFullFlashWithOps (Some (sample_env id id))
      (Some ((sample_authorization i)\<lparr>ma_consumed := True\<rparr>)) (memory_ops of_nat) (\<lambda>_. 7) = ((r2, Some e2), a2, \<lambda>_. 7)
    \<and> \<not> xr_MutationStarted r2"
proof -
  obtain i w where e: "executeAuthorizedSinglePhaseFullFlashWithOps (Some (sample_env id id)) (Some (sample_authorization i))
      (memory_ops of_nat) (\<lambda>_. 0) = ((verified_result (completed_result (sample_authorization i)), None),
        Some ((sample_authorization i)\<lparr>ma_consumed := True\<rparr>), w)" by (rule sample_restored)
  from authorization_is_one_shot [OF e, of "Some (sample_env id id)" "memory_ops of_nat" "\<lambda>_. 7"]
  show ?thesis by auto
qed

theorem execution_outcomes_witness:
  "\<exists>i. validateFullFlashExecutionResult (verified_result (completed_result (sample_authorization i))) = Inr ()"
proof -
  obtain i w where e: "executeAuthorizedSinglePhaseFullFlashWithOps (Some (sample_env id id)) (Some (sample_authorization i))
      (memory_ops of_nat) (\<lambda>_. 0) = ((verified_result (completed_result (sample_authorization i)), None),
        Some ((sample_authorization i)\<lparr>ma_consumed := True\<rparr>), w)" by (rule sample_restored)
  from execution_outcomes [OF e] show ?thesis by auto
qed

theorem target_descriptor_never_leaked_witness:
  "\<exists>i. acquireExclusiveFullFlashTargetWithOps (Some (sample_env Suc (\<lambda>w. w - 1))) (Some (sample_lease i))
     (sample_preflight i) True 0 = (Inr (sample_session i), 1)"
proof -
  let ?e = "sample_env Suc (\<lambda>w. w - 1)" and ?i = "undefined :: Inspection"
  obtain r w1 where a: "acquireExclusiveFullFlashTargetWithOps (Some ?e) (Some (sample_lease ?i)) (sample_preflight ?i) True 0
      = (r, w1)" by fastforce
  have "w1 = (if is_ok r then Suc 0 else 0)"
    by (rule target_descriptor_never_leaked [OF counter.descriptor_count_axioms a])
  moreover have "r = Inr (sample_session ?i)" using a sample_acquired [of Suc "\<lambda>w. w - 1" ?i 0] by simp
  ultimately show ?thesis using a by auto
qed

theorem session_holds_reviewed_target_witness:
  "\<exists>i k. acquisition_run (sample_env id id) (sample_lease i) (sample_preflight i) () sample_disk k ()
     \<and> acquired (sample_lease i) (sample_preflight i) (sample_session i) sample_disk k"
proof -
  from session_holds_reviewed_target [OF sample_acquired [of id id undefined "()"]]
  obtain d k where r: "acquisition_run (sample_env id id) (sample_lease undefined) (sample_preflight undefined) () d k (id ())"
    and a: "acquired (sample_lease undefined) (sample_preflight undefined) (sample_session undefined) d k" by blast
  from r have "d = sample_disk" by (auto simp: acquisition_run_def)
  with r a show ?thesis by auto
qed

theorem authorization_sound_witness:
  "\<exists>i. authorization_validateLocked (sample_authorization i) = Inr ()
    \<and> wo_DevicePath (ma_writeOrder (sample_authorization i)) = ''/dev/sdb''"
proof -
  obtain i :: Inspection where u: "st_UpdateType (insp_Store i) = 0" by (rule sample_inspection)
  from authorization_sound [OF sample_confirmed [of id id i "()"] sample_authorized [OF u, of id id "()"]]
  show ?thesis by (auto simp: sample_session_def)
qed

theorem confirmation_names_target_witness:
  "\<exists>i. te_DevicePath (ts_evidence (sample_session i)) = ''/dev/sdb''
    \<and> sample_phrase = expectedFullFlashConfirmationPhrase ''/dev/sdb'' 262144"
  using confirmation_names_target [OF sample_confirmed [of id id undefined "()"] sample_confirmed [of id id undefined "()"]]
  by (auto simp: sample_session_def)

theorem close_is_final_witness:
  "\<exists>i s2. session_Close (sample_env id id) (Some (sample_session i)) () = ((s2, None), ())
    \<and> session_Check (sample_env id id) s2 () = (Inl (Msg ''FFU target session is closed''), ())"
proof -
  obtain s2 where c: "session_Close (sample_env id id) (Some (sample_session undefined)) () = ((s2, None), ())"
    by (simp add: session_Close_def sample_session_def)
  have "ts_sealed (sample_session undefined)" "ts_file (sample_session undefined)"
    by (simp_all add: sample_session_def)
  from close_is_final [OF c this, of "sample_env id id" "()"] c show ?thesis by blast
qed

end
