(* ===== verification/Buffers.thy ===== *)
theory Buffers
  imports Prelude
begin

text \<open>
  Fixed-size buffers that the code fills field by field (\<open>copy\<close>, \<open>binary.LittleEndian.PutUint32\<close>
  into a slice of a buffer), the checksum \<open>crc32.ChecksumIEEE\<close>, and the parts of \<open>strings\<close>,
  \<open>unicode/utf8\<close> and \<open>unicode/utf16\<close> that the partition code uses.
\<close>

unbundle bit_operations_syntax

section \<open>Fields of a buffer\<close>

text \<open>\<open>put_at i ys buf\<close> is the buffer after \<open>copy(buf[i:i+len(ys)], ys)\<close>, inside the buffer.\<close>

definition put_at :: "nat \<Rightarrow> 'a list \<Rightarrow> 'a list \<Rightarrow> 'a list" where
  "put_at i ys buf = take i buf @ ys @ drop (i + length ys) buf"

definition field :: "'a list \<Rightarrow> nat \<Rightarrow> nat \<Rightarrow> 'a list" where
  "field buf i n = take n (drop i buf)"

lemma length_put_at [simp]: "i + length ys \<le> length buf \<Longrightarrow> length (put_at i ys buf) = length buf"
  by (simp add: put_at_def)

lemma length_field [simp]: "i + n \<le> length buf \<Longrightarrow> length (field buf i n) = n"
  by (simp add: field_def)

lemma nth_field: "i + n \<le> length buf \<Longrightarrow> k < n \<Longrightarrow> field buf i n ! k = buf ! (i + k)"
  by (simp add: field_def)

lemma nth_put_at:
  "i + length ys \<le> length buf \<Longrightarrow> k < length buf \<Longrightarrow>
     put_at i ys buf ! k = (if i \<le> k \<and> k < i + length ys then ys ! (k - i) else buf ! k)"
  by (auto simp: put_at_def nth_append)

lemma field_eqI:
  "i + n \<le> length xs \<Longrightarrow> j + n \<le> length ys \<Longrightarrow> (\<And>k. k < n \<Longrightarrow> xs ! (i + k) = ys ! (j + k)) \<Longrightarrow>
     field xs i n = field ys j n"
  by (rule nth_equalityI) (simp_all add: nth_field)

lemma field_put_same:
  "n = length ys \<Longrightarrow> i + length ys \<le> length buf \<Longrightarrow> field (put_at i ys buf) i n = ys"
  by (rule nth_equalityI) (simp_all add: nth_field nth_put_at)

lemma field_put_other:
  "i + length ys \<le> length buf \<Longrightarrow> j + n \<le> length buf \<Longrightarrow> j + n \<le> i \<or> i + length ys \<le> j \<Longrightarrow>
     field (put_at i ys buf) j n = field buf j n"
  by (rule nth_equalityI) (auto simp: nth_field nth_put_at)

lemma field_put_inside:
  "i + length ys \<le> length buf \<Longrightarrow> i \<le> j \<Longrightarrow> j + n \<le> i + length ys \<Longrightarrow>
     field (put_at i ys buf) j n = field ys (j - i) n"
  by (rule nth_equalityI) (auto simp: nth_field nth_put_at)

lemma field_replicate [simp]: "i + n \<le> m \<Longrightarrow> field (replicate m x) i n = replicate n x"
  by (simp add: field_def)

lemma field_field: "j + m \<le> n \<Longrightarrow> i + n \<le> length buf \<Longrightarrow> field (field buf i n) j m = field buf (i + j) m"
  by (rule nth_equalityI) (auto simp: nth_field add.assoc)

lemma field_all [simp]: "n = length buf \<Longrightarrow> field buf 0 n = buf"
  by (simp add: field_def)

lemmas field_simps_put = field_put_same field_put_other field_put_inside

lemma take_put_at: "i + length ys \<le> n \<Longrightarrow> n \<le> length buf \<Longrightarrow> take n (put_at i ys buf) = put_at i ys (take n buf)"
  by (rule nth_equalityI) (auto simp: nth_put_at)

lemma put_at_overwrite:
  "length ys = length zs \<Longrightarrow> i + length ys \<le> length buf \<Longrightarrow> put_at i ys (put_at i zs buf) = put_at i ys buf"
  by (rule nth_equalityI) (auto simp: nth_put_at)

lemma put_at_field:
  assumes "i + length ys \<le> length buf" "field buf i (length ys) = ys"
  shows "put_at i ys buf = buf"
proof (rule nth_equalityI)
  fix k assume k: "k < length (put_at i ys buf)"
  have "ys ! (k - i) = buf ! k" if "i \<le> k" "k < i + length ys"
    using nth_field [OF assms(1), of "k - i"] that assms(2) by simp
  with k assms(1) show "put_at i ys buf ! k = buf ! k" by (simp add: nth_put_at)
qed (use assms in simp)

lemma field_take: "i + n \<le> m \<Longrightarrow> field (take m buf) i n = field buf i n"
  by (simp add: field_def take_drop min_def)

text \<open>Several fields, in the order the code fills them.\<close>

definition put_fields :: "(nat \<times> 'a list) list \<Rightarrow> 'a list \<Rightarrow> 'a list" where
  "put_fields fs buf = fold (\<lambda>(i, ys). put_at i ys) fs buf"

definition fields_in :: "nat \<Rightarrow> (nat \<times> 'a list) list \<Rightarrow> bool" where
  "fields_in n fs \<longleftrightarrow> list_all (\<lambda>(i, ys). i + length ys \<le> n) fs"

text \<open>What a field at \<open>j\<close> reads when every write either is that field or does not touch it.\<close>

fun read_fields :: "(nat \<times> 'a list) list \<Rightarrow> nat \<Rightarrow> nat \<Rightarrow> 'a list \<Rightarrow> 'a list" where
  "read_fields [] j n d = d"
| "read_fields ((i, ys) # fs) j n d = read_fields fs j n (if i = j \<and> length ys = n then ys else d)"

lemma length_put_fields [simp]: "fields_in (length buf) fs \<Longrightarrow> length (put_fields fs buf) = length buf"
  by (induction fs arbitrary: buf) (auto simp: put_fields_def fields_in_def)

lemma fields_in_simps [simp]:
  "fields_in n []" "fields_in n ((i, ys) # fs) \<longleftrightarrow> i + length ys \<le> n \<and> fields_in n fs"
  by (simp_all add: fields_in_def)

lemma fields_in_mono: "fields_in m fs \<Longrightarrow> m \<le> n \<Longrightarrow> fields_in n fs"
  by (auto simp: fields_in_def list_all_iff)

definition fields_apart :: "nat \<Rightarrow> nat \<Rightarrow> (nat \<times> 'a list) list \<Rightarrow> bool" where
  "fields_apart j n fs \<longleftrightarrow> list_all (\<lambda>(i, ys). (i = j \<and> length ys = n) \<or> j + n \<le> i \<or> i + length ys \<le> j) fs"

lemma fields_apart_simps [simp]:
  "fields_apart j n []"
  "fields_apart j n ((i, ys) # fs) \<longleftrightarrow>
     ((i = j \<and> length ys = n) \<or> j + n \<le> i \<or> i + length ys \<le> j) \<and> fields_apart j n fs"
  by (simp_all add: fields_apart_def)

lemma field_put_fields:
  "fields_in (length buf) fs \<Longrightarrow> j + n \<le> length buf \<Longrightarrow> fields_apart j n fs \<Longrightarrow>
     field (put_fields fs buf) j n = read_fields fs j n (field buf j n)"
proof (induction fs arbitrary: buf)
  case Nil
  then show ?case by (simp add: put_fields_def)
next
  case (Cons f fs)
  obtain i ys where f: "f = (i, ys)" by (cases f)
  with Cons.prems have b: "i + length ys \<le> length buf" by simp
  have "field (put_fields (f # fs) buf) j n = read_fields fs j n (field (put_at i ys buf) j n)"
    using Cons.prems Cons.IH [of "put_at i ys buf"] b by (simp add: put_fields_def f)
  moreover have "field (put_at i ys buf) j n = (if i = j \<and> length ys = n then ys else field buf j n)"
    using Cons.prems b by (auto simp: f field_put_same intro!: field_put_other)
  ultimately show ?case by (simp add: f)
qed

text \<open>A read into a fresh buffer of \<open>n\<close> bytes: what it did not reach stays zero.\<close>

definition fill_buffer :: "nat \<Rightarrow> bytes \<Rightarrow> bytes" where
  "fill_buffer n d = take n d @ replicate (n - length d) 0"

lemma length_fill_buffer [simp]: "length (fill_buffer n d) = n"
  by (simp add: fill_buffer_def)

lemma fill_buffer_full [simp]: "length d = n \<Longrightarrow> fill_buffer n d = d"
  by (simp add: fill_buffer_def)

definition all_zero :: "bytes \<Rightarrow> bool" where
  "all_zero bs \<longleftrightarrow> list_all (\<lambda>b. b = 0) bs"

lemma all_zero_replicate [simp]: "all_zero (replicate n 0)"
  by (simp add: all_zero_def list_all_iff)

lemma all_zero_iff: "all_zero bs \<longleftrightarrow> bs = replicate (length bs) 0"
  by (induction bs) (simp_all add: all_zero_def)

section \<open>hash/crc32\<close>

text \<open>The reflected IEEE polynomial, bit by bit; the library's tables compute the same function.\<close>

definition crc_shift :: "u32 \<Rightarrow> u32" where
  "crc_shift c = (if c AND 1 = 1 then drop_bit 1 c XOR 0xEDB88320 else drop_bit 1 c)"

definition crc_byte :: "u32 \<Rightarrow> byte \<Rightarrow> u32" where
  "crc_byte c b = (crc_shift ^^ 8) (c XOR ucast b)"

definition crc32 :: "bytes \<Rightarrow> u32" where
  "crc32 bs = NOT (foldl crc_byte (NOT 0) bs)"

lemma crc_byte_unfold:
  "crc_byte c b = crc_shift (crc_shift (crc_shift (crc_shift (crc_shift (crc_shift (crc_shift (crc_shift
     (c XOR ucast b))))))))"
  by (simp add: crc_byte_def numeral_eq_Suc)

text \<open>The check value of the standard: the checksum of the nine digits.\<close>

lemma crc32_check: "crc32 [49, 50, 51, 52, 53, 54, 55, 56, 57] = 0xCBF43926"
  by (simp add: crc32_def crc_byte_unfold crc_shift_def)

section \<open>Text\<close>

text \<open>
  \<open>strings.ToLower\<close> on UTF-8 text. Besides the ASCII letters only two runes have an ASCII lower
  case, U+0130 and U+212A; the lower case of every other rune is not ASCII and is left alone,
  which no comparison with an ASCII constant can tell.
\<close>

definition lower_char :: "char \<Rightarrow> char" where
  "lower_char c = (let n = of_char c :: nat in if 65 \<le> n \<and> n \<le> 90 then char_of (n + 32) else c)"

fun to_lower :: "string \<Rightarrow> string" where
  "to_lower [] = []"
| "to_lower [a] = [lower_char a]"
| "to_lower [a, b] =
     (if a = CHR 0xC4 \<and> b = CHR 0xB0 then [CHR 0x69] else lower_char a # to_lower [b])"
| "to_lower (a # b # c # cs) =
     (if a = CHR 0xC4 \<and> b = CHR 0xB0 then CHR 0x69 # to_lower (c # cs)
      else if a = CHR 0xE2 \<and> b = CHR 0x84 \<and> c = CHR 0xAA then CHR 0x6B # to_lower cs
      else lower_char a # to_lower (b # c # cs))"

text \<open>
  \<open>[]rune(s)\<close>: the code points of UTF-8 text. A byte that does not start a well-formed sequence
  is the replacement character. \<open>trailing\<close> is the range of the second byte.
\<close>

definition continuation :: "nat \<Rightarrow> bool" where
  "continuation b \<longleftrightarrow> 0x80 \<le> b \<and> b \<le> 0xBF"

definition second_range :: "nat \<Rightarrow> nat \<times> nat" where
  "second_range b =
     (if b = 0xE0 then (0xA0, 0xBF) else if b = 0xED then (0x80, 0x9F)
      else if b = 0xF0 then (0x90, 0xBF) else if b = 0xF4 then (0x80, 0x8F) else (0x80, 0xBF))"

definition decode_rune :: "nat list \<Rightarrow> nat \<times> nat" where
  "decode_rune bs =
     (case bs of
        [] \<Rightarrow> (0xFFFD, 0)
      | b0 # rest \<Rightarrow>
          (let (lo, hi) = second_range b0;
               b1 = (case rest of b # _ \<Rightarrow> b | [] \<Rightarrow> 0);
               b2 = (case rest of _ # b # _ \<Rightarrow> b | _ \<Rightarrow> 0);
               b3 = (case rest of _ # _ # b # _ \<Rightarrow> b | _ \<Rightarrow> 0);
               ok1 = (rest \<noteq> [] \<and> lo \<le> b1 \<and> b1 \<le> hi) in
           if b0 < 0x80 then (b0, 1)
           else if 0xC2 \<le> b0 \<and> b0 \<le> 0xDF \<and> ok1 then ((b0 - 0xC0) * 64 + (b1 - 0x80), 2)
           else if 0xE0 \<le> b0 \<and> b0 \<le> 0xEF \<and> ok1 \<and> 2 \<le> length rest \<and> continuation b2
           then ((b0 - 0xE0) * 4096 + (b1 - 0x80) * 64 + (b2 - 0x80), 3)
           else if 0xF0 \<le> b0 \<and> b0 \<le> 0xF4 \<and> ok1 \<and> 3 \<le> length rest \<and> continuation b2 \<and> continuation b3
           then ((b0 - 0xF0) * 262144 + (b1 - 0x80) * 4096 + (b2 - 0x80) * 64 + (b3 - 0x80), 4)
           else (0xFFFD, 1)))"

fun decode_runes :: "nat \<Rightarrow> nat list \<Rightarrow> nat list" where
  "decode_runes 0 bs = []"
| "decode_runes (Suc fuel) bs =
     (if bs = [] then [] else case decode_rune bs of (r, w) \<Rightarrow> r # decode_runes fuel (drop w bs))"

definition runes_of :: "string \<Rightarrow> nat list" where
  "runes_of s = decode_runes (length s) (map of_char s)"

text \<open>\<open>utf16.Encode\<close>.\<close>

fun utf16_units :: "nat list \<Rightarrow> u16 list" where
  "utf16_units [] = []"
| "utf16_units (r # rs) =
     (if r < 0xD800 \<or> (0xE000 \<le> r \<and> r < 0x10000) then [of_nat r]
      else if 0x10000 \<le> r \<and> r \<le> 0x10FFFF
      then [of_nat (0xD800 + (r - 0x10000) div 1024), of_nat (0xDC00 + (r - 0x10000) mod 1024)]
      else [0xFFFD]) @ utf16_units rs"

end
