(* ===== verification/GptLayout.thy ===== *)
theory GptLayout
  imports Buffers
begin

text \<open>
  \<open>internal/uefintfs/layout.go\<close>: the two-partition geometry of UEFI:NTFS media, and the writer of
  its MBR or GPT, which makes the backup GPT durable before the primary one and reads everything
  back. The target and the random source are parameters.
\<close>

unbundle bit_operations_syntax

section \<open>Data\<close>

record Extent =
  et_StartBytes :: u64
  et_SizeBytes :: u64

record Layout =
  ly_Scheme :: string
  ly_DataProfile :: string
  ly_TargetSize :: u64
  ly_SectorSize :: u64
  ly_Data :: Extent
  ly_Boot :: Extent

record 'w UefiTarget =
  tg_ReadAt :: "'w read_at"
  tg_WriteAt :: "'w write_at"
  tg_Sync :: "'w poll"

definition ImageSize :: u64 where "ImageSize = 1048576"
definition oneMiB :: u64 where "oneMiB = 1048576"

definition microsoftBasicDataType :: bytes where
  "microsoftBasicDataType =
     [0xa2, 0xa0, 0xd0, 0xeb, 0xe5, 0xb9, 0x33, 0x44, 0x87, 0xc0, 0x68, 0xb6, 0xb7, 0x26, 0x99, 0xc7]"

definition efiSystemPartitionType :: bytes where
  "efiSystemPartitionType =
     [0x28, 0x73, 0x2a, 0xc1, 0x1f, 0xf8, 0xd2, 0x11, 0xba, 0x4b, 0x00, 0xa0, 0xc9, 0x3e, 0xc9, 0x3b]"

section \<open>Planning\<close>

definition align_up :: "u64 \<Rightarrow> u64 \<Rightarrow> u64" where
  "align_up v alignment = (v + alignment - 1) div alignment * alignment"

definition align_down :: "u64 \<Rightarrow> u64 \<Rightarrow> u64" where
  "align_down v alignment = v div alignment * alignment"

definition validateDataPartitionProfile :: "string \<Rightarrow> unit res" where
  "validateDataPartitionProfile profile =
     (if profile = ''basic-data'' \<or> profile = ''fat32-esp'' then Inr ()
      else Inl (Errorf ''unsupported shared data partition profile %q'' [FS profile]))"

definition validateGeometry :: "u64 \<Rightarrow> u64 \<Rightarrow> unit res" where
  "validateGeometry targetSize sectorSize =
     (if 2 ^ 63 - 1 < targetSize then Inl (Msg ''target exceeds the supported signed file-offset range'')
      else if targetSize < 16777216
      then Inl (Errorf ''target is too small for UEFI:NTFS media: need at least %d bytes'' [FN 16777216])
      else if sectorSize < 512 \<or> 65536 < sectorSize \<or> sectorSize AND (sectorSize - 1) \<noteq> 0
      then Inl (Errorf ''unsupported logical sector size %d'' [FN (unat sectorSize)])
      else if targetSize mod sectorSize \<noteq> 0 \<or> ImageSize mod sectorSize \<noteq> 0
      then Inl (Errorf ''target or UEFI:NTFS image is not aligned to logical sector size %d'' [FN (unat sectorSize)])
      else Inr ())"

definition fits_mbr :: "u64 \<Rightarrow> Extent \<Rightarrow> bool" where
  "fits_mbr sectorSize e \<longleftrightarrow> \<not> (2 ^ 32 - 1 < et_StartBytes e div sectorSize \<or> 2 ^ 32 - 1 < et_SizeBytes e div sectorSize)"

definition planMBR :: "u64 \<Rightarrow> u64 \<Rightarrow> Layout res" where
  "planMBR targetSize sectorSize =
     (let dataStart = align_up oneMiB sectorSize;
          bootStart = align_down (targetSize - ImageSize) oneMiB in
      if bootStart \<le> dataStart
      then Inl (Msg ''target has insufficient space for MBR data and UEFI:NTFS guard partitions'')
      else
      let layout = \<lparr> ly_Scheme = ''mbr'', ly_DataProfile = [], ly_TargetSize = targetSize, ly_SectorSize = sectorSize,
            ly_Data = \<lparr> et_StartBytes = dataStart, et_SizeBytes = bootStart - dataStart \<rparr>,
            ly_Boot = \<lparr> et_StartBytes = bootStart, et_SizeBytes = ImageSize \<rparr> \<rparr> in
      if list_all (fits_mbr sectorSize) [ly_Data layout, ly_Boot layout] then Inr layout
      else Inl (Msg ''target is too large for an MBR UEFI:NTFS layout; use GPT''))"

text \<open>The sectors the 128 entries of 128 bytes take.\<close>

definition entry_lbas :: "u64 \<Rightarrow> u64" where
  "entry_lbas sectorSize = (16384 + sectorSize - 1) div sectorSize"

definition planGPT :: "u64 \<Rightarrow> u64 \<Rightarrow> Layout res" where
  "planGPT targetSize sectorSize =
     (let totalLBAs = targetSize div sectorSize;
          entryLBAs = entry_lbas sectorSize;
          firstUsableLBA = 2 + entryLBAs;
          backupHeaderLBA = totalLBAs - 1 in
      if backupHeaderLBA \<le> entryLBAs then Inl (Msg ''target is too small for GPT metadata'')
      else
      let backupEntriesLBA = backupHeaderLBA - entryLBAs;
          lastUsableLBA = backupEntriesLBA - 1;
          dataStartLBA = align_up oneMiB sectorSize div sectorSize;
          dataStartLBA = (if dataStartLBA < firstUsableLBA then firstUsableLBA else dataStartLBA);
          endExclusiveBytes = (lastUsableLBA + 1) * sectorSize in
      if endExclusiveBytes \<le> ImageSize
      then Inl (Msg ''target has no space for the UEFI:NTFS boot partition'')
      else
      let bootStartBytes = align_down (endExclusiveBytes - ImageSize) oneMiB;
          bootStartLBA = bootStartBytes div sectorSize;
          bootLBAs = ImageSize div sectorSize;
          bootEndLBA = bootStartLBA + bootLBAs - 1 in
      if bootStartLBA \<le> dataStartLBA \<or> lastUsableLBA < bootEndLBA
      then Inl (Msg ''target has insufficient aligned space for data and UEFI:NTFS guard partitions'')
      else Inr \<lparr> ly_Scheme = ''gpt'', ly_DataProfile = [], ly_TargetSize = targetSize, ly_SectorSize = sectorSize,
            ly_Data = \<lparr> et_StartBytes = dataStartLBA * sectorSize,
                        et_SizeBytes = (bootStartLBA - dataStartLBA) * sectorSize \<rparr>,
            ly_Boot = \<lparr> et_StartBytes = bootStartLBA * sectorSize, et_SizeBytes = ImageSize \<rparr> \<rparr>)"

definition PlanLayoutForProfile :: "string \<Rightarrow> u64 \<Rightarrow> u64 \<Rightarrow> string \<Rightarrow> Layout res" where
  "PlanLayoutForProfile scheme0 targetSize sectorSize profile0 =
     (let scheme = to_lower (trim_space scheme0); profile = to_lower (trim_space profile0) in
      bindE (validateDataPartitionProfile profile) (\<lambda>_.
      bindE (validateGeometry targetSize sectorSize) (\<lambda>_.
      bindE
        (if scheme = ''mbr'' then planMBR targetSize sectorSize
         else if scheme = ''gpt'' then planGPT targetSize sectorSize
         else Inl (Errorf ''unsupported UEFI:NTFS partition scheme %q'' [FS scheme])) (\<lambda>layout.
      Inr (layout\<lparr>ly_DataProfile := profile\<rparr>)))))"

definition PlanLayout :: "string \<Rightarrow> u64 \<Rightarrow> u64 \<Rightarrow> Layout res" where
  "PlanLayout scheme targetSize sectorSize = PlanLayoutForProfile scheme targetSize sectorSize ''basic-data''"

section \<open>On-disk structures\<close>

definition mbrDataPartitionType :: "string \<Rightarrow> byte" where
  "mbrDataPartitionType profile = (if profile = ''fat32-esp'' then 0x0c else 0x07)"

definition gptDataPartitionType :: "string \<Rightarrow> bytes" where
  "gptDataPartitionType profile =
     (if profile = ''fat32-esp'' then efiSystemPartitionType else microsoftBasicDataType)"

definition writeMBRPartition :: "Extent \<Rightarrow> u64 \<Rightarrow> bool \<Rightarrow> byte \<Rightarrow> bytes \<Rightarrow> bytes" where
  "writeMBRPartition e sectorSize bootable partitionType entry =
     put_fields
       [(1, [0xfe, 0xff, 0xff]), (4, [partitionType]), (5, [0xfe, 0xff, 0xff]),
        (8, put_u32 (ucast (et_StartBytes e div sectorSize))),
        (12, put_u32 (ucast (et_SizeBytes e div sectorSize)))]
       (if bootable then put_at 0 [0x80] entry else entry)"

definition makeProtectiveMBR :: "u64 \<Rightarrow> u64 \<Rightarrow> bytes" where
  "makeProtectiveMBR totalLBAs sectorSize =
     (let len = totalLBAs - 1; len = (if 2 ^ 32 - 1 < len then 2 ^ 32 - 1 else len) in
      put_fields
        [(446 + 1, [0x00, 0x02, 0x00]), (446 + 4, [0xee]), (446 + 5, [0xff, 0xff, 0xff]),
         (446 + 8, put_u32 1), (446 + 12, put_u32 (ucast len)), (510, [0x55, 0xaa])]
        (replicate (unat sectorSize) 0))"

definition gpt_header_fields ::
  "u64 \<Rightarrow> u64 \<Rightarrow> u64 \<Rightarrow> u64 \<Rightarrow> u64 \<Rightarrow> bytes \<Rightarrow> u64 \<Rightarrow> u32 \<Rightarrow> bytes" where
  "gpt_header_fields sectorSize currentLBA backupLBA firstUsableLBA lastUsableLBA diskGUID entriesLBA entriesCRC =
     put_fields
       [(0, string_bytes ''EFI PART''), (8, put_u32 0x00010000), (12, put_u32 92),
        (24, put_u64 currentLBA), (32, put_u64 backupLBA), (40, put_u64 firstUsableLBA),
        (48, put_u64 lastUsableLBA), (56, diskGUID), (72, put_u64 entriesLBA),
        (80, put_u32 128), (84, put_u32 128), (88, put_u32 entriesCRC)]
       (replicate (unat sectorSize) 0)"

definition makeGPTHeader ::
  "u64 \<Rightarrow> u64 \<Rightarrow> u64 \<Rightarrow> u64 \<Rightarrow> u64 \<Rightarrow> bytes \<Rightarrow> u64 \<Rightarrow> u32 \<Rightarrow> bytes" where
  "makeGPTHeader sectorSize currentLBA backupLBA firstUsableLBA lastUsableLBA diskGUID entriesLBA entriesCRC =
     (let header = gpt_header_fields sectorSize currentLBA backupLBA firstUsableLBA lastUsableLBA diskGUID
            entriesLBA entriesCRC in
      put_at 16 (put_u32 (crc32 (take 92 header))) header)"

definition writeGPTName :: "bytes \<Rightarrow> string \<Rightarrow> bytes" where
  "writeGPTName destination v =
     (let units = take (length destination div 2) (utf16_units (runes_of (trim_space v))) in
      put_at 0 (concat (map put_u16 units)) destination)"

text \<open>One partition entry of 128 bytes: type, identifier, first and last sector, attributes, name.\<close>

definition partition_entry :: "bytes \<Rightarrow> bytes \<Rightarrow> u64 \<Rightarrow> u64 \<Rightarrow> u64 \<Rightarrow> string \<Rightarrow> bytes" where
  "partition_entry type_guid unique_guid first_lba last_lba attributes name =
     put_fields
       [(0, type_guid), (16, unique_guid), (32, put_u64 first_lba), (40, put_u64 last_lba),
        (48, put_u64 attributes), (56, writeGPTName (replicate 72 0) name)]
       (replicate 128 0)"

section \<open>Writing\<close>

text \<open>\<open>crypto/rand.Read\<close> into a buffer of the given length.\<close>

type_synonym 'w random_source = "nat \<Rightarrow> ('w, bytes) act"

definition randomGUID :: "'w random_source \<Rightarrow> ('w, bytes) act" where
  "randomGUID rand =
     bind_act (rand 16) (\<lambda>d.
     let guid = fill_buffer 16 d in
     ret_act (put_at 8 [(guid ! 8 AND 0x3f) OR 0x80] (put_at 7 [(guid ! 7 AND 0x0f) OR 0x40] guid)))"

definition writeFullAt :: "'w UefiTarget \<Rightarrow> bytes \<Rightarrow> u64 \<Rightarrow> ('w, unit) act" where
  "writeFullAt target payload offset w =
     (if 2 ^ 63 - 1 < offset \<or> 2 ^ 63 - 1 - offset < of_nat (length payload)
      then (Inl (Msg ''metadata write exceeds the supported signed file-offset range''), w)
      else case tg_WriteAt target payload offset w of
        ((written, Some e), w1) \<Rightarrow> (Inl e, w1)
      | ((written, None), w1) \<Rightarrow> (if written \<noteq> length payload then (Inl ErrShortWrite, w1) else (Inr (), w1)))"

record metadataRegion =
  mr_offset :: u64
  mr_data :: bytes
  mr_name :: string

definition readback_region :: "'w UefiTarget \<Rightarrow> (go_error \<Rightarrow> go_error) \<Rightarrow> go_error \<Rightarrow> bytes \<Rightarrow> u64 \<Rightarrow> ('w, unit) act" where
  "readback_region target wrap mismatch payload offset w =
     (case tg_ReadAt target (length payload) offset w of
        ((d, Some e), w1) \<Rightarrow> (Inl (wrap e), w1)
      | ((d, None), w1) \<Rightarrow> (if fill_buffer (length payload) d \<noteq> payload then (Inl mismatch, w1) else (Inr (), w1)))"

fun write_regions_loop :: "'w UefiTarget \<Rightarrow> metadataRegion list \<Rightarrow> ('w, unit) act" where
  "write_regions_loop target [] = ret_act ()"
| "write_regions_loop target (g # gs) =
     bind_act (wrap_act (\<lambda>e. Errorf ''write %s: %w'' [FS (mr_name g), FE e]) (writeFullAt target (mr_data g) (mr_offset g)))
       (\<lambda>_. write_regions_loop target gs)"

fun readback_loop :: "'w UefiTarget \<Rightarrow> metadataRegion list \<Rightarrow> ('w, unit) act" where
  "readback_loop target [] = ret_act ()"
| "readback_loop target (g # gs) =
     bind_act (readback_region target (\<lambda>e. Errorf ''read back %s: %w'' [FS (mr_name g), FE e])
         (Errorf ''%s readback mismatch'' [FS (mr_name g)]) (mr_data g) (mr_offset g))
       (\<lambda>_. readback_loop target gs)"

definition mbr_sector :: "Layout \<Rightarrow> bytes \<Rightarrow> bytes" where
  "mbr_sector layout signature =
     put_fields
       [(440, fill_buffer 4 signature),
        (446, writeMBRPartition (ly_Data layout) (ly_SectorSize layout) True
                (mbrDataPartitionType (ly_DataProfile layout)) (replicate 16 0)),
        (462, writeMBRPartition (ly_Boot layout) (ly_SectorSize layout) False 0xef (replicate 16 0)),
        (510, [0x55, 0xaa])]
       (replicate (unat (ly_SectorSize layout)) 0)"

definition writeMBRLayout :: "'w random_source \<Rightarrow> 'w UefiTarget \<Rightarrow> Layout \<Rightarrow> ('w, unit) act" where
  "writeMBRLayout rand target layout =
     bind_act (wrap_act (\<lambda>e. Errorf ''generate MBR disk signature: %w'' [FE e]) (rand 4)) (\<lambda>signature.
     let sector = mbr_sector layout signature in
     bind_act (wrap_act (\<lambda>e. Errorf ''write UEFI:NTFS MBR: %w'' [FE e]) (writeFullAt target sector 0)) (\<lambda>_.
     bind_act (wrap_act (\<lambda>e. Errorf ''sync UEFI:NTFS MBR: %w'' [FE e]) (try_call (tg_Sync target))) (\<lambda>_.
     readback_region target (\<lambda>e. Errorf ''read back UEFI:NTFS MBR: %w'' [FE e])
       (Msg ''UEFI:NTFS MBR readback mismatch'') sector 0)))"

definition gpt_entries :: "Layout \<Rightarrow> bytes \<Rightarrow> bytes \<Rightarrow> string \<Rightarrow> bytes" where
  "gpt_entries layout dataGUID bootGUID dataLabel =
     (let sectorSize = ly_SectorSize layout; data = ly_Data layout; boot = ly_Boot layout in
      put_at 128
        (partition_entry microsoftBasicDataType bootGUID (et_StartBytes boot div sectorSize)
           ((et_StartBytes boot + et_SizeBytes boot) div sectorSize - 1) (push_bit 63 1) ''UEFI:NTFS'')
        (put_at 0
          (partition_entry (gptDataPartitionType (ly_DataProfile layout)) dataGUID (et_StartBytes data div sectorSize)
             ((et_StartBytes data + et_SizeBytes data) div sectorSize - 1) 0 dataLabel)
          (replicate (unat (entry_lbas sectorSize * sectorSize)) 0)))"

definition gpt_regions :: "Layout \<Rightarrow> bytes \<Rightarrow> bytes \<Rightarrow> metadataRegion list \<times> metadataRegion list" where
  "gpt_regions layout diskGUID entries =
     (let sectorSize = ly_SectorSize layout;
          totalLBAs = ly_TargetSize layout div sectorSize;
          entryLBAs = entry_lbas sectorSize;
          backupHeaderLBA = totalLBAs - 1;
          backupEntriesLBA = backupHeaderLBA - entryLBAs;
          firstUsableLBA = 2 + entryLBAs;
          lastUsableLBA = backupEntriesLBA - 1;
          entriesCRC = crc32 (take 16384 entries);
          primaryHeader = makeGPTHeader sectorSize 1 backupHeaderLBA firstUsableLBA lastUsableLBA diskGUID 2 entriesCRC;
          backupHeader = makeGPTHeader sectorSize backupHeaderLBA 1 firstUsableLBA lastUsableLBA diskGUID
            backupEntriesLBA entriesCRC in
      ([\<lparr> mr_offset = backupEntriesLBA * sectorSize, mr_data = entries, mr_name = ''backup GPT entries'' \<rparr>,
        \<lparr> mr_offset = backupHeaderLBA * sectorSize, mr_data = backupHeader, mr_name = ''backup GPT header'' \<rparr>],
       [\<lparr> mr_offset = 2 * sectorSize, mr_data = entries, mr_name = ''primary GPT entries'' \<rparr>,
        \<lparr> mr_offset = sectorSize, mr_data = primaryHeader, mr_name = ''primary GPT header'' \<rparr>,
        \<lparr> mr_offset = 0, mr_data = makeProtectiveMBR totalLBAs sectorSize, mr_name = ''protective MBR'' \<rparr>]))"

definition writeGPTLayout :: "'w random_source \<Rightarrow> 'w UefiTarget \<Rightarrow> Layout \<Rightarrow> string \<Rightarrow> ('w, unit) act" where
  "writeGPTLayout rand target layout dataLabel =
     bind_act (wrap_act (\<lambda>e. Errorf ''generate GPT disk GUID: %w'' [FE e]) (randomGUID rand)) (\<lambda>diskGUID.
     bind_act (wrap_act (\<lambda>e. Errorf ''generate GPT data partition GUID: %w'' [FE e]) (randomGUID rand)) (\<lambda>dataGUID.
     bind_act (wrap_act (\<lambda>e. Errorf ''generate GPT UEFI:NTFS partition GUID: %w'' [FE e]) (randomGUID rand)) (\<lambda>bootGUID.
     case gpt_regions layout diskGUID (gpt_entries layout dataGUID bootGUID dataLabel) of (backup, primary) \<Rightarrow>
     bind_act (write_regions_loop target backup) (\<lambda>_.
     bind_act (wrap_act (\<lambda>e. Errorf ''make backup GPT durable: %w'' [FE e]) (try_call (tg_Sync target))) (\<lambda>_.
     bind_act (write_regions_loop target primary) (\<lambda>_.
     bind_act (wrap_act (\<lambda>e. Errorf ''make primary GPT durable: %w'' [FE e]) (try_call (tg_Sync target))) (\<lambda>_.
     readback_loop target (backup @ primary))))))))"

definition WriteLayout :: "'w random_source \<Rightarrow> 'w UefiTarget option \<Rightarrow> Layout \<Rightarrow> string \<Rightarrow> ('w, unit) act" where
  "WriteLayout rand target_opt layout dataLabel =
     (case target_opt of
        None \<Rightarrow> pure_act (Inl (Msg ''nil UEFI:NTFS layout target''))
      | Some target \<Rightarrow>
          bind_act (pure_act (PlanLayoutForProfile (ly_Scheme layout) (ly_TargetSize layout) (ly_SectorSize layout)
            (ly_DataProfile layout))) (\<lambda>expected.
          if expected \<noteq> layout
          then pure_act (Inl (Msg ''UEFI:NTFS layout does not match deterministic planning''))
          else if ly_Scheme layout = ''mbr'' then writeMBRLayout rand target layout
          else if ly_Scheme layout = ''gpt'' then writeGPTLayout rand target layout dataLabel
          else pure_act (Inl (Errorf ''unsupported UEFI:NTFS partition scheme %q'' [FS (ly_Scheme layout)]))))"

end
