(* ===== verification/GptTable.thy ===== *)
theory GptTable
  imports Buffers
begin

text \<open>
  \<open>internal/persistence/plan.go\<close>: the inspection of an image's MBR or GPT, header and entry table
  both primary and backup, and the plan of a persistence partition appended after the image. The
  image is read through an \<open>io.ReaderAt\<close>.
\<close>

unbundle bit_operations_syntax

section \<open>Data\<close>

record Detection =
  de_Family :: string
  de_DisplayName :: string
  de_Version :: string
  de_BootParameter :: string
  de_Filesystem :: string
  de_FilesystemLabel :: string
  de_PersistenceConfig :: string
  de_PatchPaths :: "string list"
  de_AlreadyEnabledPaths :: "string list"
  de_Evidence :: "string list"

definition Ready :: "Detection \<Rightarrow> bool" where
  "Ready d \<longleftrightarrow> de_Family d \<noteq> [] \<and> de_Filesystem d = ''ext4'' \<and> de_FilesystemLabel d \<noteq> []
     \<and> (0 < length (de_PatchPaths d) \<or> 0 < length (de_AlreadyEnabledPaths d))"

datatype TableKind = TableMBR | TableGPT

record PersistPlan =
  pp_Family :: string
  pp_PartitionTable :: TableKind
  pp_PartitionNumber :: int
  pp_StartBytes :: u64
  pp_SizeBytes :: u64
  pp_Filesystem :: string
  pp_FilesystemLabel :: string
  pp_BootParameter :: string
  pp_PersistenceConfig :: string
  pp_PatchPaths :: "string list"
  pp_AlreadyEnabledPaths :: "string list"
  pp_RequiresGPTRelocation :: bool

record tableLayout =
  tl_Kind :: TableKind
  tl_FreeIndex :: int
  tl_GPTEntrySectors :: u64

record gptHeader =
  gh_CurrentLBA :: u64
  gh_BackupLBA :: u64
  gh_FirstUsable :: u64
  gh_LastUsable :: u64
  gh_DiskGUID :: bytes
  gh_EntriesLBA :: u64
  gh_NumEntries :: u32
  gh_EntrySize :: u32
  gh_EntriesCRC :: u32

record gptExtent =
  ge_first :: u64
  ge_last :: u64
  ge_index :: int

definition gptSectorSize :: u64 where "gptSectorSize = 512"
definition defaultAlignment :: u64 where "defaultAlignment = 1048576"
definition minimumPartitionSize :: u64 where "minimumPartitionSize = 1073741824"
definition maxGPTEntriesBytes :: u64 where "maxGPTEntriesBytes = 67108864"

lemmas plan_constants = gptSectorSize_def defaultAlignment_def minimumPartitionSize_def maxGPTEntriesBytes_def

section \<open>Reading\<close>

definition align_up_max :: "u64 \<Rightarrow> u64 \<Rightarrow> u64" where
  "align_up_max v alignment =
     (if alignment = 0 \<or> NOT 0 - (alignment - 1) < v then NOT 0
      else (v + alignment - 1) div alignment * alignment)"

definition align_down_by :: "u64 \<Rightarrow> u64 \<Rightarrow> u64" where
  "align_down_by v alignment = (if alignment = 0 then v else v div alignment * alignment)"

definition readAtExact :: "reader_at \<Rightarrow> u64 \<Rightarrow> u64 \<Rightarrow> string \<Rightarrow> bytes res" where
  "readAtExact reader offset sz description =
     (if 2 ^ 63 - 1 < offset \<or> 2 ^ 63 - 1 < sz \<or> offset + sz < offset \<or> 2 ^ 63 - 1 < offset + sz
      then Inl (Errorf ''%s is too large to inspect safely'' [FS description])
      else case reader (int (unat offset)) (unat sz) of
        (d, Some e) \<Rightarrow> Inl (Errorf ''read %s: %w'' [FS description, FE e])
      | (d, None) \<Rightarrow> Inr (fill_buffer (unat sz) d))"

section \<open>The GPT header\<close>

definition parseGPTHeader :: "bytes \<Rightarrow> string \<Rightarrow> gptHeader res" where
  "parseGPTHeader bs role =
     (if length bs < 512 \<or> take 8 bs \<noteq> string_bytes ''EFI PART''
      then Inl (Errorf ''%s GPT header is missing'' [FS role])
      else
      let headerSize = get_u32 (field bs 12 4) in
      if get_u32 (field bs 8 4) \<noteq> 0x00010000 \<or> headerSize < 92 \<or> 512 < headerSize \<or> get_u32 (field bs 20 4) \<noteq> 0
      then Inl (Errorf ''%s GPT header has invalid metadata'' [FS role])
      else
      let storedCRC = get_u32 (field bs 16 4);
          headerCopy = put_at 16 (put_u32 0) (take (unat headerSize) bs) in
      if crc32 headerCopy \<noteq> storedCRC then Inl (Errorf ''%s GPT header CRC is invalid'' [FS role])
      else
      let diskGUID = field bs 56 16;
          numEntries = get_u32 (field bs 80 4);
          entrySize = get_u32 (field bs 84 4);
          entriesCRC = get_u32 (field bs 88 4) in
      if all_zero diskGUID \<or> numEntries = 0 \<or> 2 ^ 20 < numEntries \<or> entrySize < 128 \<or> 4096 < entrySize
         \<or> entrySize mod 8 \<noteq> 0
      then Inl (Errorf ''%s GPT header has unsafe entry-table metadata'' [FS role])
      else Inr \<lparr> gh_CurrentLBA = get_u64 (field bs 24 8), gh_BackupLBA = get_u64 (field bs 32 8),
             gh_FirstUsable = get_u64 (field bs 40 8), gh_LastUsable = get_u64 (field bs 48 8),
             gh_DiskGUID = diskGUID, gh_EntriesLBA = get_u64 (field bs 72 8),
             gh_NumEntries = numEntries, gh_EntrySize = entrySize, gh_EntriesCRC = entriesCRC \<rparr>)"

section \<open>The entry table\<close>

text \<open>\<open>sort.Slice\<close> by the first sector, and the check of neighbours.\<close>

fun neighbours_disjoint :: "string \<Rightarrow> gptExtent list \<Rightarrow> unit res" where
  "neighbours_disjoint msg (a # b # es) =
     (if ge_first b \<le> ge_last a
      then Inl (Errorf msg [FN (nat (ge_index a + 1)), FN (nat (ge_index b + 1))])
      else neighbours_disjoint msg (b # es))"
| "neighbours_disjoint msg _ = Inr ()"

definition extents_disjoint :: "string \<Rightarrow> gptExtent list \<Rightarrow> unit res" where
  "extents_disjoint msg es = neighbours_disjoint msg (sort_by (\<lambda>a b. ge_first a < ge_first b) es)"

record entry_scan =
  es_free :: int
  es_extents :: "gptExtent list"
  es_guids :: "(bytes \<times> int) list"

definition scan_entry :: "gptHeader \<Rightarrow> bytes \<Rightarrow> nat \<Rightarrow> entry_scan \<Rightarrow> entry_scan res" where
  "scan_entry header entry index s =
     (if all_zero (take 16 entry)
      then if \<not> all_zero entry then Inl (Errorf ''unused GPT entry %d contains nonzero data'' [FN (index + 1)])
           else Inr (if es_free s < 0 then s\<lparr>es_free := int index\<rparr> else s)
      else
      let uniqueGUID = field entry 16 16 in
      if all_zero uniqueGUID then Inl (Errorf ''GPT partition %d has an empty unique GUID'' [FN (index + 1)])
      else case map_of (es_guids s) uniqueGUID of
        Some previous \<Rightarrow>
          Inl (Errorf ''GPT partitions %d and %d use the same unique GUID'' [FN (nat (previous + 1)), FN (index + 1)])
      | None \<Rightarrow>
          let first = get_u64 (field entry 32 8); last = get_u64 (field entry 40 8) in
          if first < gh_FirstUsable header \<or> last < first \<or> gh_LastUsable header < last
          then Inl (Errorf ''GPT partition %d has an invalid extent'' [FN (index + 1)])
          else Inr (s\<lparr>es_guids := (uniqueGUID, int index) # es_guids s,
                      es_extents := es_extents s @ [\<lparr> ge_first = first, ge_last = last, ge_index = int index \<rparr>]\<rparr>))"

text \<open>The entry at an index of the table.\<close>

definition gpt_entry :: "bytes \<Rightarrow> gptHeader \<Rightarrow> nat \<Rightarrow> bytes" where
  "gpt_entry entries header index = field entries (index * unat (gh_EntrySize header)) (unat (gh_EntrySize header))"

fun scan_entries :: "gptHeader \<Rightarrow> bytes \<Rightarrow> nat list \<Rightarrow> entry_scan \<Rightarrow> entry_scan res" where
  "scan_entries header entries [] s = Inr s"
| "scan_entries header entries (index # is) s =
     bindE (scan_entry header (gpt_entry entries header index) index s) (\<lambda>s1. scan_entries header entries is s1)"

definition inspectGPTEntries :: "bytes \<Rightarrow> gptHeader \<Rightarrow> int res" where
  "inspectGPTEntries entries header =
     bindE (scan_entries header entries [0..<unat (gh_NumEntries header)]
         \<lparr> es_free = -1, es_extents = [], es_guids = [] \<rparr>) (\<lambda>s.
     bindE (extents_disjoint ''GPT partitions %d and %d overlap'' (es_extents s)) (\<lambda>_.
     Inr (es_free s)))"

section \<open>Both copies of the GPT\<close>

definition entries_bytes :: "gptHeader \<Rightarrow> u64" where
  "entries_bytes h = u64_of (gh_NumEntries h) * u64_of (gh_EntrySize h)"

definition entry_sectors :: "gptHeader \<Rightarrow> u64" where
  "entry_sectors h = (entries_bytes h + gptSectorSize - 1) div gptSectorSize"

definition same_table :: "gptHeader \<Rightarrow> gptHeader \<Rightarrow> u64 \<Rightarrow> bool" where
  "same_table primary backup backupEntriesLBA \<longleftrightarrow>
     gh_CurrentLBA backup = gh_BackupLBA primary \<and> gh_BackupLBA backup = gh_CurrentLBA primary
     \<and> gh_FirstUsable backup = gh_FirstUsable primary \<and> gh_LastUsable backup = gh_LastUsable primary
     \<and> gh_DiskGUID backup = gh_DiskGUID primary \<and> gh_EntriesLBA backup = backupEntriesLBA
     \<and> gh_NumEntries backup = gh_NumEntries primary \<and> gh_EntrySize backup = gh_EntrySize primary
     \<and> gh_EntriesCRC backup = gh_EntriesCRC primary"

definition inspectGPTTable :: "reader_at \<Rightarrow> u64 \<Rightarrow> bytes \<Rightarrow> tableLayout res" where
  "inspectGPTTable reader imageSize primaryBytes =
     (if 2 ^ 63 - 1 < imageSize then Inl (Msg ''GPT image is too large for safe inspection'')
      else
      let imageSectors = imageSize div gptSectorSize in
      bindE (parseGPTHeader primaryBytes ''primary'') (\<lambda>primary.
      if gh_CurrentLBA primary \<noteq> 1 \<or> gh_BackupLBA primary \<noteq> imageSectors - 1
         \<or> gh_FirstUsable primary \<le> gh_CurrentLBA primary \<or> gh_LastUsable primary < gh_FirstUsable primary
         \<or> gh_BackupLBA primary \<le> gh_LastUsable primary \<or> gh_EntriesLBA primary < 2
      then Inl (Msg ''GPT geometry is not safe for append-only persistence planning'')
      else
      let entriesBytes = entries_bytes primary; entrySectors = entry_sectors primary in
      if entriesBytes = 0 \<or> maxGPTEntriesBytes < entriesBytes
         \<or> gh_EntriesLBA primary + entrySectors < gh_EntriesLBA primary
         \<or> gh_FirstUsable primary < gh_EntriesLBA primary + entrySectors
      then Inl (Msg ''GPT primary entry table overlaps usable space or is outside the image'')
      else if gh_BackupLBA primary \<le> entrySectors then Inl (Msg ''GPT backup entry table is outside the image'')
      else
      let backupEntriesLBA = gh_BackupLBA primary - entrySectors in
      if backupEntriesLBA \<le> gh_LastUsable primary then Inl (Msg ''GPT backup entry table overlaps usable space'')
      else
      bindE (readAtExact reader (gh_EntriesLBA primary * gptSectorSize) entriesBytes ''primary GPT entry table'')
        (\<lambda>primaryEntries.
      if crc32 primaryEntries \<noteq> gh_EntriesCRC primary then Inl (Msg ''GPT primary entry-table CRC is invalid'')
      else
      bindE (inspectGPTEntries primaryEntries primary) (\<lambda>free.
      if free < 0 then Inl (Msg ''GPT has no free partition entry for persistence'')
      else
      bindE (readAtExact reader (gh_BackupLBA primary * gptSectorSize) gptSectorSize ''backup GPT header'')
        (\<lambda>backupHeaderBytes.
      bindE (parseGPTHeader backupHeaderBytes ''backup'') (\<lambda>backup.
      if \<not> same_table primary backup backupEntriesLBA
      then Inl (Msg ''primary and backup GPT headers are inconsistent'')
      else
      bindE (readAtExact reader (gh_EntriesLBA backup * gptSectorSize) entriesBytes ''backup GPT entry table'')
        (\<lambda>backupEntries.
      if crc32 backupEntries \<noteq> gh_EntriesCRC backup \<or> primaryEntries \<noteq> backupEntries
      then Inl (Msg ''primary and backup GPT entry tables are inconsistent'')
      else Inr \<lparr> tl_Kind = TableGPT, tl_FreeIndex = free, tl_GPTEntrySectors = entrySectors \<rparr>)))))))"

section \<open>The MBR\<close>

record mbr_scan =
  ms_protective :: bool
  ms_free :: int
  ms_extents :: "gptExtent list"

definition scan_mbr_entry :: "u64 \<Rightarrow> bytes \<Rightarrow> nat \<Rightarrow> mbr_scan \<Rightarrow> mbr_scan res" where
  "scan_mbr_entry imageSectors entry index s =
     (if all_zero entry then Inr (if ms_free s < 0 then s\<lparr>ms_free := int index\<rparr> else s)
      else if entry ! 0 \<noteq> 0 \<and> entry ! 0 \<noteq> 0x80
      then Inl (Errorf ''MBR partition %d has an invalid boot flag'' [FN (index + 1)])
      else
      let partitionType = entry ! 4;
          start = u64_of (get_u32 (field entry 8 4));
          cnt = u64_of (get_u32 (field entry 12 4)) in
      if partitionType = 0xee
      then if ms_protective s then Inl (Msg ''MBR contains multiple GPT protective entries'')
           else if start \<noteq> 1 \<or> cnt = 0 then Inl (Msg ''GPT protective MBR entry has an invalid extent'')
           else Inr (s\<lparr>ms_protective := True\<rparr>)
      else if partitionType = 0 \<or> start = 0 \<or> cnt = 0 \<or> start + cnt < start \<or> imageSectors < start + cnt
      then Inl (Errorf ''MBR partition %d has an invalid extent'' [FN (index + 1)])
      else Inr (s\<lparr>ms_extents := ms_extents s
                  @ [\<lparr> ge_first = start, ge_last = start + cnt - 1, ge_index = int index \<rparr>]\<rparr>))"

fun scan_mbr :: "u64 \<Rightarrow> bytes \<Rightarrow> nat list \<Rightarrow> mbr_scan \<Rightarrow> mbr_scan res" where
  "scan_mbr imageSectors header [] s = Inr s"
| "scan_mbr imageSectors header (index # is) s =
     bindE (scan_mbr_entry imageSectors (field header (446 + index * 16) 16) index s)
       (\<lambda>s1. scan_mbr imageSectors header is s1)"

text \<open>The two sectors once read.\<close>

definition inspect_sectors :: "reader_at \<Rightarrow> u64 \<Rightarrow> bytes \<Rightarrow> tableLayout res" where
  "inspect_sectors reader imageSize header =
     (if header ! 510 \<noteq> 0x55 \<or> header ! 511 \<noteq> 0xaa
      then Inl (Msg ''persistence requires an MBR or GPT ISOHybrid image'')
      else
      bindE (scan_mbr (imageSize div gptSectorSize) header [0..<4]
          \<lparr> ms_protective = False, ms_free = -1, ms_extents = [] \<rparr>) (\<lambda>s.
      bindE (extents_disjoint ''MBR partitions %d and %d overlap'' (ms_extents s)) (\<lambda>_.
      if ms_protective s \<noteq> (field header 512 8 = string_bytes ''EFI PART'')
      then Inl (Msg ''protective MBR and primary GPT header are inconsistent'')
      else if ms_protective s then inspectGPTTable reader imageSize (field header 512 512)
      else if ms_free s < 0 then Inl (Msg ''MBR has no free primary partition entry for persistence'')
      else Inr \<lparr> tl_Kind = TableMBR, tl_FreeIndex = ms_free s, tl_GPTEntrySectors = 0 \<rparr>)))"

definition inspectTable :: "reader_at \<Rightarrow> u64 \<Rightarrow> tableLayout res" where
  "inspectTable reader imageSize =
     (case reader 0 1024 of (d, err) \<Rightarrow>
      case err of
        Some e \<Rightarrow> if \<not> errors_is e EOF then Inl (Errorf ''read image partition table: %w'' [FE e])
                  else inspect_sectors reader imageSize (fill_buffer 1024 d)
      | None \<Rightarrow> inspect_sectors reader imageSize (fill_buffer 1024 d))"

section \<open>The plan\<close>

definition persist_limit :: "tableLayout \<Rightarrow> u64 \<Rightarrow> u64 res" where
  "persist_limit layout targetSize =
     (if tl_Kind layout = TableGPT
      then let reserve = (tl_GPTEntrySectors layout + 1) * gptSectorSize in
           if targetSize \<le> reserve then Inl (Msg ''target is too small for relocated GPT backup data'')
           else Inr (align_down_by (targetSize - reserve) defaultAlignment)
      else Inr (align_down_by targetSize defaultAlignment))"

definition persist_size :: "u64 \<Rightarrow> u64 \<Rightarrow> u64 res" where
  "persist_size requestedSize available =
     (if requestedSize = 0 then Inr available
      else if requestedSize < minimumPartitionSize
      then Inl (Errorf ''persistence size must be at least %d bytes'' [FN (unat minimumPartitionSize)])
      else if available < requestedSize
      then Inl (Errorf ''requested persistence size %d exceeds available aligned space %d''
             [FN (unat requestedSize), FN (unat available)])
      else Inr requestedSize)"

definition BuildPersistPlan :: "reader_at option \<Rightarrow> u64 \<Rightarrow> u64 \<Rightarrow> u64 \<Rightarrow> Detection \<Rightarrow> PersistPlan res" where
  "BuildPersistPlan reader_opt imageSize targetSize requestedSize detection =
     (case reader_opt of
        None \<Rightarrow> Inl (Msg ''image is too small for a partition table'')
      | Some reader \<Rightarrow>
      if imageSize < gptSectorSize then Inl (Msg ''image is too small for a partition table'')
      else if imageSize mod gptSectorSize \<noteq> 0 then Inl (Msg ''image size is not aligned to 512-byte sectors'')
      else if targetSize mod gptSectorSize \<noteq> 0 then Inl (Msg ''target size is not aligned to 512-byte sectors'')
      else if targetSize \<le> imageSize then Inl (Msg ''target must be larger than the image'')
      else if requestedSize \<noteq> 0 \<and> requestedSize mod defaultAlignment \<noteq> 0
      then Inl (Errorf ''persistence size must be aligned to %d bytes'' [FN (unat defaultAlignment)])
      else if \<not> Ready detection then Inl (Msg ''media does not have a complete supported persistence contract'')
      else
      bindE (inspectTable reader imageSize) (\<lambda>layout.
      let start = align_up_max imageSize defaultAlignment in
      if start < imageSize \<or> targetSize \<le> start then Inl (Msg ''target has no aligned space after the image'')
      else
      bindE (persist_limit layout targetSize) (\<lambda>limit.
      if limit \<le> start \<or> limit - start < minimumPartitionSize
      then Inl (Errorf ''target needs at least %d bytes of aligned persistence space'' [FN (unat minimumPartitionSize)])
      else
      bindE (persist_size requestedSize (limit - start)) (\<lambda>sz.
      if tl_Kind layout = TableMBR
         \<and> (2 ^ 32 - 1 < start div gptSectorSize \<or> sz div gptSectorSize = 0 \<or> 2 ^ 32 - 1 < sz div gptSectorSize
            \<or> 2 ^ 32 < start div gptSectorSize + sz div gptSectorSize)
      then Inl (Msg ''planned persistence partition cannot be represented by a 32-bit MBR extent'')
      else Inr \<lparr> pp_Family = de_Family detection, pp_PartitionTable = tl_Kind layout,
             pp_PartitionNumber = tl_FreeIndex layout + 1, pp_StartBytes = start, pp_SizeBytes = sz,
             pp_Filesystem = de_Filesystem detection, pp_FilesystemLabel = de_FilesystemLabel detection,
             pp_BootParameter = de_BootParameter detection, pp_PersistenceConfig = de_PersistenceConfig detection,
             pp_PatchPaths = de_PatchPaths detection, pp_AlreadyEnabledPaths = de_AlreadyEnabledPaths detection,
             pp_RequiresGPTRelocation = (tl_Kind layout = TableGPT) \<rparr>))))"

section \<open>Sizes as text\<close>

text \<open>
  \<open>strings.ToUpper\<close> on UTF-8 text: besides the ASCII letters, U+0131 and U+017F have an ASCII
  upper case. The upper case of any other rune is not ASCII, and is left alone.
\<close>

definition upper_char :: "char \<Rightarrow> char" where
  "upper_char c = (let n = of_char c :: nat in if 97 \<le> n \<and> n \<le> 122 then char_of (n - 32) else c)"

fun to_upper :: "string \<Rightarrow> string" where
  "to_upper [] = []"
| "to_upper [a] = [upper_char a]"
| "to_upper (a # b # cs) =
     (if a = CHR 0xC4 \<and> b = CHR 0xB1 then CHR 0x49 # to_upper cs
      else if a = CHR 0xC5 \<and> b = CHR 0xBF then CHR 0x53 # to_upper cs
      else upper_char a # to_upper (b # cs))"

definition size_units :: "(string \<times> u64) list" where
  "size_units =
     [(''TIB'', 2 ^ 40), (''TB'', 2 ^ 40), (''T'', 2 ^ 40), (''GIB'', 2 ^ 30), (''GB'', 2 ^ 30), (''G'', 2 ^ 30),
      (''MIB'', 2 ^ 20), (''MB'', 2 ^ 20), (''M'', 2 ^ 20), (''KIB'', 2 ^ 10), (''KB'', 2 ^ 10), (''K'', 2 ^ 10),
      (''B'', 1)]"

definition has_suffix :: "string \<Rightarrow> string \<Rightarrow> bool" where
  "has_suffix s p \<longleftrightarrow> length p \<le> length s \<and> drop (length s - length p) s = p"

definition ParseSize :: "string \<Rightarrow> u64 res" where
  "ParseSize text =
     (let v = trim_space text in
      if v = [] \<or> v = ''0'' then Inr 0
      else
      let upper = to_upper v;
          (number, multiplier) =
            (case find (\<lambda>(suffix, _). has_suffix upper suffix) size_units of
               None \<Rightarrow> (upper, 1)
             | Some (suffix, factor) \<Rightarrow> (trim_space (take (length upper - length suffix) upper), factor)) in
      if number = [] \<or> (\<exists>c \<in> set number. c \<in> set ''.+-'')
      then Inl (Errorf ''invalid size %q'' [FS v])
      else
      bindE (mapE (\<lambda>e. Errorf ''invalid size %q: %w'' [FS v, FE e]) (parse_uint64 number)) (\<lambda>parsed.
      if parsed \<noteq> 0 \<and> NOT 0 div parsed < multiplier
      then Inl (Errorf ''size %q overflows uint64'' [FS v])
      else Inr (parsed * multiplier)))"

end
