(* ===== verification/GptRound.thy ===== *)
theory GptRound
  imports GptLayout GptTable
begin

text \<open>
  The writer of UEFI:NTFS media against the reader of the persistence planner: the geometry the
  writer plans is sound, the header it encodes is the header the reader decodes, and a device on
  which \<open>WriteLayout\<close> succeeded holds a GPT that \<open>inspectTable\<close> accepts.
\<close>

unbundle bit_operations_syntax

section \<open>Buffers\<close>

lemma put_u32_0: "put_u32 0 = replicate 4 0"
  by (simp add: put_u32_def numeral_eq_Suc)

lemma length_signature [simp]: "length (string_bytes ''EFI PART'') = 8"
  by simp

section \<open>The header\<close>

lemma length_gpt_header_fields:
  "512 \<le> unat sz \<Longrightarrow> length g = 16 \<Longrightarrow> length (gpt_header_fields sz c b f l g e crc) = unat sz"
  by (simp add: gpt_header_fields_def)

lemma length_makeGPTHeader [simp]:
  "512 \<le> unat sz \<Longrightarrow> length g = 16 \<Longrightarrow> length (makeGPTHeader sz c b f l g e crc) = unat sz"
  by (simp add: makeGPTHeader_def Let_def length_gpt_header_fields)

lemma gpt_header_fields_read:
  assumes "512 \<le> unat sz" "length g = 16"
  shows "field (gpt_header_fields sz c b f l g e crc) 0 8 = string_bytes ''EFI PART''"
    "field (gpt_header_fields sz c b f l g e crc) 8 4 = put_u32 0x00010000"
    "field (gpt_header_fields sz c b f l g e crc) 12 4 = put_u32 92"
    "field (gpt_header_fields sz c b f l g e crc) 16 4 = put_u32 0"
    "field (gpt_header_fields sz c b f l g e crc) 20 4 = put_u32 0"
    "field (gpt_header_fields sz c b f l g e crc) 24 8 = put_u64 c"
    "field (gpt_header_fields sz c b f l g e crc) 32 8 = put_u64 b"
    "field (gpt_header_fields sz c b f l g e crc) 40 8 = put_u64 f"
    "field (gpt_header_fields sz c b f l g e crc) 48 8 = put_u64 l"
    "field (gpt_header_fields sz c b f l g e crc) 56 16 = g"
    "field (gpt_header_fields sz c b f l g e crc) 72 8 = put_u64 e"
    "field (gpt_header_fields sz c b f l g e crc) 80 4 = put_u32 128"
    "field (gpt_header_fields sz c b f l g e crc) 84 4 = put_u32 128"
    "field (gpt_header_fields sz c b f l g e crc) 88 4 = put_u32 crc"
  unfolding gpt_header_fields_def
  by (subst field_put_fields; use assms in \<open>simp add: put_u32_0 del: length_string_bytes\<close>)+

lemma makeGPTHeader_read:
  assumes "512 \<le> unat sz" "length g = 16" "j + n \<le> 92" "j + n \<le> 16 \<or> 20 \<le> j"
  shows "field (makeGPTHeader sz c b f l g e crc) j n = field (gpt_header_fields sz c b f l g e crc) j n"
  unfolding makeGPTHeader_def Let_def
  using assms by (intro field_put_other) (auto simp: length_gpt_header_fields)

lemma makeGPTHeader_crc:
  assumes "512 \<le> unat sz" "length g = 16"
  shows "get_u32 (field (makeGPTHeader sz c b f l g e crc) 16 4)
       = crc32 (put_at 16 (put_u32 0) (take 92 (makeGPTHeader sz c b f l g e crc)))"
proof -
  let ?H = "gpt_header_fields sz c b f l g e crc"
  have len: "length ?H = unat sz" using assms by (rule length_gpt_header_fields)
  have "put_at 16 (put_u32 0) ?H = ?H"
    using gpt_header_fields_read(4) [OF assms] assms len by (intro put_at_field) simp_all
  then have "put_at 16 (put_u32 0) (take 92 ?H) = take 92 ?H"
    using assms len by (subst take_put_at [symmetric]) simp_all
  then have z: "put_at 16 (put_u32 0) (take 92 (put_at 16 x ?H)) = take 92 ?H" if "length x = 4" for x
    using that assms len by (simp add: take_put_at put_at_overwrite)
  show ?thesis
    using assms len by (simp add: makeGPTHeader_def Let_def field_put_same z)
qed

lemma parse_made_header:
  assumes "512 \<le> unat sz" "length g = 16" "\<not> all_zero g"
  shows "parseGPTHeader (take 512 (makeGPTHeader sz c b f l g e crc)) role =
     Inr \<lparr> gh_CurrentLBA = c, gh_BackupLBA = b, gh_FirstUsable = f, gh_LastUsable = l, gh_DiskGUID = g,
           gh_EntriesLBA = e, gh_NumEntries = 128, gh_EntrySize = 128, gh_EntriesCRC = crc \<rparr>"
proof -
  let ?h = "makeGPTHeader sz c b f l g e crc"
  note len = length_makeGPTHeader [OF assms(1,2), of c b f l e crc]
  note rd = makeGPTHeader_read [OF assms(1,2)] gpt_header_fields_read [OF assms(1,2)]
  have t8: "take 8 (take 512 ?h) = field ?h 0 8" by (simp add: field_def)
  have t92: "take 92 (take 512 ?h) = take 92 ?h" by simp
  have ft: "field (take 512 ?h) j n = field ?h j n" if "j + n \<le> 512" for j n
    using that by (rule field_take)
  have size92: "unat (get_u32 (put_u32 92)) = 92" by simp
  show ?thesis
    unfolding parseGPTHeader_def Let_def t8
    using assms makeGPTHeader_crc [OF assms(1,2), of c b f l e crc]
    by (simp add: len ft rd t92 min_def del: take_take)
qed

section \<open>The geometry\<close>

lemma validateGeometry_Inr:
  assumes "validateGeometry T S = Inr u"
  shows "unat T < 2 ^ 63" "16777216 \<le> unat T" "512 \<le> unat S" "unat S \<le> 65536" "unat S dvd unat T"
    "unat S dvd 1048576"
proof -
  have m: "unat (2 ^ 63 - 1 :: u64) = 2 ^ 63 - 1" by simp
  have a: "\<not> 2 ^ 63 - 1 < T" "\<not> T < 16777216" "\<not> S < 512" "\<not> 65536 < S" "T mod S = 0" "ImageSize mod S = 0"
    using assms by (simp_all add: validateGeometry_def result_simps split: if_splits)
  show "unat T < 2 ^ 63" using a(1) unfolding not_less word_le_unat m by simp
  show "16777216 \<le> unat T" "512 \<le> unat S" "unat S \<le> 65536"
    using a(2,3,4) by (simp_all add: not_less word_le_unat)
  show "unat S dvd unat T" using a(5) by (metis mod_0_imp_dvd unat_0 unat_mod_64)
  have "unat (1048576 :: u64) mod unat S = 0" using a(6) unfolding ImageSize_def by (metis unat_0 unat_mod_64)
  then show "unat S dvd 1048576" by (simp add: mod_0_imp_dvd)
qed

text \<open>The sizes read as numbers: target, sector, and the sectors of the entry table.\<close>

definition geometry :: "u64 \<Rightarrow> u64 \<Rightarrow> nat \<Rightarrow> nat \<Rightarrow> nat \<Rightarrow> bool" where
  "geometry T S t s E \<longleftrightarrow>
     validateGeometry T S = Inr () \<and> t = unat T \<and> s = unat S \<and> E = (16384 + s - 1) div s"

lemma geometry_intro:
  "validateGeometry T S = Inr u \<Longrightarrow> geometry T S (unat T) (unat S) ((16384 + unat S - 1) div unat S)"
  by (simp add: geometry_def)

lemma geometry_facts:
  assumes "geometry T S t s E"
  shows "t < 2 ^ 63" "16777216 \<le> t" "512 \<le> s" "s \<le> 65536" "s dvd t" "s dvd 1048576"
  using assms validateGeometry_Inr [of T S "()"] by (simp_all add: geometry_def)

lemma entry_table_bounds:
  assumes g: "geometry T S t s E"
  shows "16384 \<le> E * s" "E * s < 16384 + s" "1 \<le> E" "E \<le> 32"
proof -
  note f = geometry_facts [OF g]
  have s0: "0 < s" using f by simp
  have E: "E = (16384 + s - 1) div s" using g by (simp add: geometry_def)
  have "(16384 + s - 1) mod s < s" using s0 by simp
  moreover have "E * s + (16384 + s - 1) mod s = 16384 + s - 1"
    unfolding E by (rule div_mult_mod_eq)
  ultimately show a: "16384 \<le> E * s" "E * s < 16384 + s" using s0 by linarith+
  then show "1 \<le> E" by (cases E) auto
  show "E \<le> 32"
  proof (rule ccontr)
    assume "\<not> E \<le> 32"
    then have "33 * s \<le> E * s" by (intro mult_le_mono1) simp
    with a f show False by linarith
  qed
qed

lemma unat_entry_lbas:
  assumes g: "geometry T S t s E"
  shows "unat (entry_lbas S) = E"
proof -
  note f = geometry_facts [OF g]
  have s: "unat S = s" and E: "E = (16384 + s - 1) div s" using g by (simp_all add: geometry_def)
  have a: "unat (16384 + S :: u64) = 16384 + s" using f by (subst unat_plus_64) (simp_all add: s)
  have "unat (16384 + S - 1 :: u64) = 16384 + s - 1"
    by (subst unat_minus_64) (simp_all add: word_le_unat a)
  then show ?thesis by (simp add: entry_lbas_def unat_div_64 E s)
qed

lemma total_sectors:
  assumes g: "geometry T S t s E"
  shows "unat (T div S) = t div s" "t div s * s = t" "256 \<le> t div s"
proof -
  note f = geometry_facts [OF g]
  show "unat (T div S) = t div s" using g by (simp add: unat_div_64 geometry_def)
  show m: "t div s * s = t" using f by simp
  show "256 \<le> t div s"
  proof (rule ccontr)
    assume "\<not> 256 \<le> t div s"
    then have "t div s * s \<le> 255 * s" by (intro mult_le_mono1) simp
    with m f show False by simp
  qed
qed

lemma gpt_sectors:
  assumes g: "geometry T S t s E"
  shows "unat (T div S - 1) = t div s - 1" "unat (T div S - 1 - entry_lbas S) = t div s - 1 - E"
    "unat (T div S - 1 - entry_lbas S - 1) = t div s - 2 - E" "unat (2 + entry_lbas S) = 2 + E"
proof -
  note ts = total_sectors [OF g] and eb = entry_table_bounds [OF g] and el = unat_entry_lbas [OF g]
  show a: "unat (T div S - 1) = t div s - 1"
    using ts by (subst unat_minus_64) (simp_all add: word_le_unat)
  show b: "unat (T div S - 1 - entry_lbas S) = t div s - 1 - E"
    using ts eb by (subst unat_minus_64) (simp_all add: word_le_unat a el)
  show "unat (T div S - 1 - entry_lbas S - 1) = t div s - 2 - E"
    using ts eb by (subst unat_minus_64) (simp_all add: word_le_unat b)
  show "unat (2 + entry_lbas S) = 2 + E"
    using eb by (subst unat_plus_64) (simp_all add: el)
qed

lemma unat_mult_sector:
  assumes g: "geometry T S t s E" and x: "unat x \<le> t div s"
  shows "unat (x * S) = unat x * s"
proof -
  have "unat x * s \<le> t div s * s" using x by (rule mult_le_mono1)
  then have "unat x * s \<le> t" using total_sectors(2) [OF g] by simp
  with geometry_facts [OF g] g have "unat x * unat S < 2 ^ 64" by (simp add: geometry_def)
  then show ?thesis using g by (simp add: unat_mult_64 geometry_def)
qed

lemma unat_align_down:
  "unat (align_down v a) = unat v div unat a * unat a"
proof -
  have "unat v div unat a * unat a < 2 ^ 64"
    by (rule le_less_trans [OF div_times_less_eq_dividend]) (use unat_lt_64 [of v] in simp)
  then have "unat (v div a) * unat a < 2 ^ 64" by (simp only: unat_div_64)
  then show ?thesis by (simp add: align_down_def unat_mult_64 unat_div_64)
qed

lemma unat_align_up_oneMiB:
  assumes g: "geometry T S t s E"
  shows "unat (align_up oneMiB S) = 1048576" "unat (align_up oneMiB S div S) = 1048576 div s"
proof -
  note f = geometry_facts [OF g]
  have s: "unat S = s" using g by (simp add: geometry_def)
  obtain k where k: "1048576 = s * k" using f(6) by (elim dvdE)
  have s0: "0 < s" using f by simp
  have "unat (oneMiB + S - 1) = s * k + (s - 1)"
  proof -
    have a: "unat (oneMiB + S) = 1048576 + s" using f by (subst unat_plus_64) (simp_all add: s oneMiB_def)
    then have "unat (oneMiB + S - 1) = 1048576 + s - 1" by (subst unat_minus_64) (simp_all add: word_le_unat)
    with s0 k show ?thesis by simp
  qed
  moreover have "(s * k + (s - 1)) div s = k" using s0 by (intro div_nat_eqI) simp_all
  ultimately have d: "unat ((oneMiB + S - 1) div S) = k" by (simp only: unat_div_64 s)
  then have "unat ((oneMiB + S - 1) div S) * unat S = 1048576" using k by (simp add: s mult.commute)
  then show u: "unat (align_up oneMiB S) = 1048576" by (simp add: align_up_def unat_mult_64)
  show "unat (align_up oneMiB S div S) = 1048576 div s" by (simp add: unat_div_64 u s)
qed

text \<open>
  What a layout promises, in bytes: both partitions lie between \<open>lo\<close> and \<open>hi\<close>, the boot partition
  follows the data partition, everything is a whole number of sectors, and the boot partition
  starts at a multiple of 1 MiB and has the size of the image.
\<close>

definition layout_within :: "nat \<Rightarrow> nat \<Rightarrow> Layout \<Rightarrow> bool" where
  "layout_within lo hi ly \<longleftrightarrow>
     (let s = unat (ly_SectorSize ly);
          ds = unat (et_StartBytes (ly_Data ly)); dn = unat (et_SizeBytes (ly_Data ly));
          bs = unat (et_StartBytes (ly_Boot ly)); bn = unat (et_SizeBytes (ly_Boot ly)) in
      lo \<le> ds \<and> 0 < dn \<and> ds + dn = bs \<and> bs + bn \<le> hi \<and> bn = 1048576 \<and> 1048576 \<le> ds
      \<and> 1048576 dvd bs \<and> s dvd ds \<and> s dvd dn \<and> s dvd bs \<and> s dvd bn)"

lemma planGPT_sound:
  assumes g: "geometry T S t s E" and p: "planGPT T S = Inr ly"
  shows "layout_within ((2 + E) * s) (t - (1 + E) * s) ly"
    "ly_Scheme ly = ''gpt''" "ly_TargetSize ly = T" "ly_SectorSize ly = S"
proof -
  note f = geometry_facts [OF g] and eb = entry_table_bounds [OF g] and ts = total_sectors [OF g]
    and gs = gpt_sectors [OF g] and au = unat_align_up_oneMiB [OF g]
  have s: "unat S = s" using g by (simp add: geometry_def)
  define last where "last = T div S - 1 - entry_lbas S - 1"
  define d0 where "d0 = align_up oneMiB S div S"
  define d where "d = (if d0 < 2 + entry_lbas S then 2 + entry_lbas S else d0)"
  define b where "b = align_down ((last + 1) * S - ImageSize) oneMiB div S"
  from p [unfolded planGPT_def Let_def if_Inl_eq_Inr sum.inject, folded d0_def last_def, folded d_def b_def]
  have ly: "ly = \<lparr> ly_Scheme = ''gpt'', ly_DataProfile = [], ly_TargetSize = T, ly_SectorSize = S,
      ly_Data = \<lparr> et_StartBytes = d * S, et_SizeBytes = (b - d) * S \<rparr>,
      ly_Boot = \<lparr> et_StartBytes = b * S, et_SizeBytes = ImageSize \<rparr> \<rparr>"
    and c: "\<not> (last + 1) * S \<le> ImageSize" "\<not> b \<le> d" "\<not> last < b + ImageSize div S - 1"
    by blast+
  have ul: "unat last = t div s - 2 - E" using gs(3) by (simp add: last_def)
  have ul1: "unat (last + 1) = t div s - 1 - E" using ul ts eb le_less_trans [OF div_le_dividend f(1), of s]
    by (subst unat_plus_64) simp_all
  have end_le: "(1 + E) * s \<le> t" using eb f by (simp add: add_mult_distrib)
  have ue: "unat ((last + 1) * S) = t - (1 + E) * s"
  proof -
    have "unat ((last + 1) * S) = (t div s - 1 - E) * s"
      using unat_mult_sector [OF g, of "last + 1"] ul1 by simp
    also have "\<dots> = t div s * s - (1 + E) * s" by (simp add: diff_mult_distrib)
    finally show ?thesis using ts by simp
  qed
  define X where "X = t - (1 + E) * s - 1048576"
  have ux: "unat ((last + 1) * S - ImageSize) = X" and xle: "1048576 < t - (1 + E) * s"
  proof -
    have im: "unat ImageSize = 1048576" by (simp add: ImageSize_def)
    have lt: "ImageSize < (last + 1) * S" using c(1) by simp
    show "1048576 < t - (1 + E) * s" using lt [unfolded word_less_unat im ue] .
    show "unat ((last + 1) * S - ImageSize) = X"
      using lt by (simp only: unat_minus_64 less_imp_le ue im X_def)
  qed
  define B where "B = X div 1048576 * 1048576"
  have uB: "unat (align_down ((last + 1) * S - ImageSize) oneMiB) = B"
    by (simp add: unat_align_down ux oneMiB_def B_def)
  have sB: "s dvd B" using f(6) by (simp add: B_def)
  have ub: "unat b * s = B" using sB by (simp add: b_def unat_div_64 uB s)
  have Bx: "B \<le> X" by (simp add: B_def)
  have bt: "unat b \<le> t div s"
  proof -
    have "unat b = B div s" by (simp add: b_def unat_div_64 uB s)
    moreover have "B \<le> t" using Bx by (simp add: X_def)
    ultimately show ?thesis by (simp add: div_le_mono)
  qed
  have ud: "unat d = max (1048576 div s) (2 + E)"
    by (simp add: d_def d0_def word_less_unat au gs max_def)
  have db: "unat d < unat b" using c(2) by (simp add: not_le word_less_unat)
  have udS: "unat (d * S) = unat d * s" and ubS: "unat (b * S) = B"
    using unat_mult_sector [OF g] bt db ub by simp_all
  have ubd: "unat (b - d) = unat b - unat d" using db by (simp add: unat_minus_64 word_le_unat)
  have usz: "unat ((b - d) * S) = (unat b - unat d) * s"
    using unat_mult_sector [OF g, of "b - d"] bt by (simp add: ubd)
  have "1048576 div s * s \<le> unat d * s" "(2 + E) * s \<le> unat d * s"
    by (rule mult_le_mono1, simp add: ud)+
  then have lo: "1048576 \<le> unat d * s" "(2 + E) * s \<le> unat d * s" using f(6) by simp_all
  have sum: "unat d * s + (unat b - unat d) * s = B"
    using mult_le_mono1 [OF less_imp_le [OF db], of s] ub by (simp add: diff_mult_distrib)
  have pos: "0 < (unat b - unat d) * s" using db f by simp
  have hi: "B + 1048576 \<le> t - (1 + E) * s" using Bx xle by (simp add: X_def)
  show "layout_within ((2 + E) * s) (t - (1 + E) * s) ly"
    unfolding layout_within_def Let_def ly
    using lo sum pos hi f(6) sB
    by (simp add: udS ubS usz s B_def ImageSize_def)
  show "ly_Scheme ly = ''gpt''" "ly_TargetSize ly = T" "ly_SectorSize ly = S" by (simp_all add: ly)
qed

lemma planMBR_sound:
  assumes g: "geometry T S t s E" and p: "planMBR T S = Inr ly"
  shows "layout_within s t ly" "ly_Scheme ly = ''mbr''" "ly_TargetSize ly = T" "ly_SectorSize ly = S"
    "fits_mbr S (ly_Data ly)" "fits_mbr S (ly_Boot ly)"
proof -
  note f = geometry_facts [OF g] and au = unat_align_up_oneMiB [OF g]
  have s: "unat S = s" and t: "unat T = t" using g by (simp_all add: geometry_def)
  define d where "d = align_up oneMiB S"
  define b where "b = align_down (T - ImageSize) oneMiB"
  from p [unfolded planMBR_def Let_def if_Inl_eq_Inr, folded d_def b_def]
  have ly: "ly = \<lparr> ly_Scheme = ''mbr'', ly_DataProfile = [], ly_TargetSize = T, ly_SectorSize = S,
      ly_Data = \<lparr> et_StartBytes = d, et_SizeBytes = b - d \<rparr>,
      ly_Boot = \<lparr> et_StartBytes = b, et_SizeBytes = ImageSize \<rparr> \<rparr>"
    and c: "\<not> b \<le> d" and fit: "fits_mbr S (ly_Data ly)" "fits_mbr S (ly_Boot ly)"
    by (auto split: if_splits)
  have tm: "unat (T - ImageSize) = t - 1048576"
    using f by (subst unat_minus_64) (simp_all add: word_le_unat t ImageSize_def)
  have ub: "unat b = (t - 1048576) div 1048576 * 1048576"
    by (simp add: b_def unat_align_down tm oneMiB_def)
  have ud: "unat d = 1048576" by (simp add: d_def au)
  have db: "unat d < unat b" using c by (simp add: not_le word_less_unat)
  have ubd: "unat (b - d) = unat b - 1048576" using db by (simp add: unat_minus_64 word_le_unat ud)
  have hi: "unat b + 1048576 \<le> t"
    using f(2) div_times_less_eq_dividend [of "t - 1048576" 1048576] by (simp add: ub)
  have sb: "s dvd unat b" using f(6) by (simp add: ub)
  have dv: "s dvd unat b - 1048576" using sb f(6) by (simp add: dvd_diff_nat)
  show "layout_within s t ly"
    unfolding layout_within_def Let_def ly
    using hi db f(4,6) sb dv by (simp add: ud ubd s ImageSize_def) (simp add: ub)
  show "ly_Scheme ly = ''mbr''" "ly_TargetSize ly = T" "ly_SectorSize ly = S"
    "fits_mbr S (ly_Data ly)" "fits_mbr S (ly_Boot ly)"
    using fit by (simp_all add: ly)
qed

lemma layout_within_profile [simp]: "layout_within lo hi (ly\<lparr>ly_DataProfile := p\<rparr>) = layout_within lo hi ly"
  by (simp add: layout_within_def)

lemma PlanLayoutForProfile_cases:
  assumes "PlanLayoutForProfile scheme T S profile = Inr ly"
  obtains t s E where "geometry T S t s E" "ly_TargetSize ly = T" "ly_SectorSize ly = S"
    "ly_Scheme ly = ''mbr'' \<and> layout_within s t ly \<and> fits_mbr S (ly_Data ly) \<and> fits_mbr S (ly_Boot ly)
     \<or> ly_Scheme ly = ''gpt'' \<and> layout_within ((2 + E) * s) (t - (1 + E) * s) ly"
proof -
  obtain u ly0 where g: "validateGeometry T S = Inr u"
    and p: "planMBR T S = Inr ly0 \<or> planGPT T S = Inr ly0"
    and ly: "ly = ly0\<lparr>ly_DataProfile := to_lower (trim_space profile)\<rparr>"
    using assms by (auto simp: PlanLayoutForProfile_def Let_def result_simps split: if_splits)
  note g = geometry_intro [OF g]
  from p show thesis
  proof
    assume "planMBR T S = Inr ly0"
    from planMBR_sound [OF g this] show thesis by (intro that [OF g]) (simp_all add: ly)
  next
    assume "planGPT T S = Inr ly0"
    from planGPT_sound [OF g this] show thesis by (intro that [OF g]) (simp_all add: ly)
  qed
qed

section \<open>What the writer writes\<close>

text \<open>A region of metadata inside the target that touches neither partition.\<close>

definition clear_of_partitions :: "Layout \<Rightarrow> metadataRegion \<Rightarrow> bool" where
  "clear_of_partitions ly r \<longleftrightarrow>
     unat (mr_offset r) + length (mr_data r) \<le> unat (ly_TargetSize ly)
     \<and> (unat (mr_offset r) + length (mr_data r) \<le> unat (et_StartBytes (ly_Data ly))
        \<or> unat (et_StartBytes (ly_Boot ly)) + unat (et_SizeBytes (ly_Boot ly)) \<le> unat (mr_offset r))"

lemma length_fill_name [simp]: "length (writeGPTName (replicate 72 0) name) = 72"
proof -
  have "length (concat (map put_u16 us)) = 2 * length us" for us by (induction us) simp_all
  then show ?thesis by (simp add: writeGPTName_def Let_def)
qed

lemma length_partition_entry [simp]:
  "length ty = 16 \<Longrightarrow> length g = 16 \<Longrightarrow> length (partition_entry ty g a b attrs name) = 128"
  by (simp add: partition_entry_def)

lemma length_gpt_type [simp]:
  "length (gptDataPartitionType p) = 16" "length microsoftBasicDataType = 16"
  by (simp_all add: gptDataPartitionType_def efiSystemPartitionType_def microsoftBasicDataType_def)

lemma length_gpt_entries:
  assumes g: "geometry T S t s E" and S: "ly_SectorSize ly = S" and "length d = 16" "length b = 16"
  shows "length (gpt_entries ly d b label) = E * s"
proof -
  have s: "unat S = s" using g by (simp add: geometry_def)
  have eb: "16384 \<le> E * s" using entry_table_bounds [OF g] by simp
  have "unat (entry_lbas S) \<le> t div s" using total_sectors [OF g] entry_table_bounds [OF g] by (simp add: unat_entry_lbas [OF g])
  then have "unat (entry_lbas S * S) = E * s" by (simp add: unat_mult_sector [OF g] unat_entry_lbas [OF g])
  with assms eb show ?thesis by (simp add: gpt_entries_def Let_def)
qed

lemma gpt_offsets:
  assumes g: "geometry T S t s E"
  shows "unat ((T div S - 1 - entry_lbas S) * S) = t - (1 + E) * s"
    "unat ((T div S - 1) * S) = t - s" "unat (2 * S) = 2 * s" "unat S = s"
proof -
  note ts = total_sectors [OF g] and eb = entry_table_bounds [OF g] and gs = gpt_sectors [OF g]
  show s: "unat S = s" using g by (simp add: geometry_def)
  have "unat ((T div S - 1 - entry_lbas S) * S) = (t div s - 1 - E) * s"
    using unat_mult_sector [OF g, of "T div S - 1 - entry_lbas S"] gs by simp
  also have "\<dots> = t div s * s - (1 + E) * s" by (simp add: diff_mult_distrib)
  finally show "unat ((T div S - 1 - entry_lbas S) * S) = t - (1 + E) * s" using ts by simp
  have "unat ((T div S - 1) * S) = (t div s - 1) * s"
    using unat_mult_sector [OF g, of "T div S - 1"] gs by simp
  also have "\<dots> = t div s * s - s" by (simp add: diff_mult_distrib)
  finally show "unat ((T div S - 1) * S) = t - s" using ts by simp
  show "unat (2 * S) = 2 * s"
    using geometry_facts [OF g] by (subst unat_mult_64) (simp_all add: s)
qed

lemma length_makeProtectiveMBR [simp]: "512 \<le> unat S \<Longrightarrow> length (makeProtectiveMBR n S) = unat S"
  by (simp add: makeProtectiveMBR_def Let_def)

lemma gpt_regions_clear:
  assumes g: "geometry T S t s E" and ly: "ly_TargetSize ly = T" "ly_SectorSize ly = S"
    and w: "layout_within ((2 + E) * s) (t - (1 + E) * s) ly"
    and len: "length disk = 16" "length entries = E * s"
    and r: "r \<in> set (fst (gpt_regions ly disk entries) @ snd (gpt_regions ly disk entries))"
  shows "clear_of_partitions ly r"
proof -
  note off = gpt_offsets [OF g] and f = geometry_facts [OF g] and eb = entry_table_bounds [OF g]
  have t: "unat T = t" using g by (simp add: geometry_def)
  have big: "(1 + E) * s \<le> t" "s \<le> t" using eb f by (simp_all add: add_mult_distrib)
  have w1: "(2 + E) * s \<le> unat (et_StartBytes (ly_Data ly))"
    "unat (et_StartBytes (ly_Boot ly)) + unat (et_SizeBytes (ly_Boot ly)) \<le> t - (1 + E) * s"
    using w by (simp_all add: layout_within_def Let_def)
  have "(2 + E) * s \<le> t" using w by (auto simp: layout_within_def Let_def)
  then have fit: "2 * s + E * s \<le> t" by (simp add: add_mult_distrib)
  have s1: "s \<le> (2 + E) * s" "2 * s \<le> (2 + E) * s" "2 * s + E * s = (2 + E) * s" "t - (1 + E) * s \<le> t - s"
    "t - (1 + E) * s + E * s \<le> t" "t - s + s = t"
    using big by (simp_all add: add_mult_distrib)
  show ?thesis
    using r w1 s1 f(3) big fit unfolding clear_of_partitions_def
    by (auto simp: gpt_regions_def Let_def ly off t len)
qed

end
