(* ===== verification/GptBack.thy ===== *)
theory GptBack
  imports GptRound
begin

text \<open>
  What \<open>WriteLayout\<close> leaves on the medium is accepted by \<open>inspectTable\<close>: the protective MBR, both
  headers and both entry tables, in the order the planner reads them.
\<close>

unbundle bit_operations_syntax

section \<open>The protective MBR\<close>

lemma nth_of_field: "field buf i 1 = [x] \<Longrightarrow> i < length buf \<Longrightarrow> buf ! i = x"
  using nth_field [of i 1 buf 0] by simp

lemma clipped_length: "(if m < n then m else n) = min n (m :: 'a::linorder)"
  by (auto simp: min_def)

lemma protective_fields:
  assumes "512 \<le> unat S"
  shows "field (makeProtectiveMBR n S) 446 1 = [0]" "field (makeProtectiveMBR n S) 450 1 = [0xee]"
    "field (makeProtectiveMBR n S) 454 4 = put_u32 1"
    "field (makeProtectiveMBR n S) 458 4 = put_u32 (ucast (min (n - 1) (2 ^ 32 - 1)))"
    "field (makeProtectiveMBR n S) 462 16 = replicate 16 0" "field (makeProtectiveMBR n S) 478 16 = replicate 16 0"
    "field (makeProtectiveMBR n S) 494 16 = replicate 16 0" "field (makeProtectiveMBR n S) 510 2 = [0x55, 0xaa]"
  unfolding makeProtectiveMBR_def Let_def clipped_length
  by (subst field_put_fields; use assms in simp)+

lemma ucast_min_32:
  fixes n :: u64
  shows "unat (ucast (min n (2 ^ 32 - 1)) :: u32) = min (unat n) (2 ^ 32 - 1)"
proof -
  have m: "unat (min n (2 ^ 32 - 1)) = min (unat n) (2 ^ 32 - 1)"
    by (auto simp: min_def word_le_unat)
  then show ?thesis by (simp add: unsigned_ucast_eq take_bit_nat_eq_self)
qed

lemma scan_protective:
  assumes "512 \<le> unat S" "2 \<le> unat n" "header = field (makeProtectiveMBR n S) 0 512 @ rest"
  shows "scan_mbr sectors header [0..<4] \<lparr> ms_protective = False, ms_free = -1, ms_extents = [] \<rparr>
       = Inr \<lparr> ms_protective = True, ms_free = 1, ms_extents = [] \<rparr>"
proof -
  let ?m = "makeProtectiveMBR n S"
  note pf = protective_fields [OF assms(1), of n]
  have lm: "length ?m = unat S" using assms by simp
  have fh: "field header i k = field ?m i k" if "i + k \<le> 512" for i k
    using that lm assms by (intro field_eqI) (simp_all add: nth_append nth_field)
  define e where "e = field ?m 446 16"
  have le: "length e = 16" using lm assms by (simp add: e_def)
  have fe: "field e i k = field ?m (446 + i) k" if "i + k \<le> 16" for i k
    using that lm assms unfolding e_def by (intro field_field) simp_all
  have e4: "e ! 4 = 0xee" and e0: "e ! 0 = 0"
    using fe [of 4 1] fe [of 0 1] pf le by (auto intro!: nth_of_field)
  have nz: "\<not> all_zero e" using e4 le by (auto simp: all_zero_def list_all_length intro!: exI [of _ 4])
  have "unat (n - 1) = unat n - 1" using assms(2) by (subst unat_minus_64) (simp_all add: word_le_unat)
  moreover have "field e 12 4 = put_u32 (ucast (min (n - 1) (2 ^ 32 - 1)))"
    using fe [of 12 4] pf(4) by simp
  then have "unat (get_u32 (field e 12 4)) = min (unat (n - 1)) (2 ^ 32 - 1)"
    by (simp only: get_put_u32 ucast_min_32)
  ultimately have "unat (get_u32 (field e 12 4)) \<noteq> 0" using assms(2) by simp
  then have cnt: "get_u32 (field e 12 4) \<noteq> 0" by (metis unat_0)
  have st: "u64_of (get_u32 (field e 8 4)) = 1"
    using fe [of 8 4] pf by (simp add: u64_of_def)
  have upt: "[0..<4] = [0, 1, 2, 3 :: nat]" by (simp add: upt_rec)
  show ?thesis
    unfolding upt
    using fh [of 446 16] fh [of 462 16] fh [of 478 16] fh [of 494 16] pf nz e0 e4 cnt st
    by (simp add: scan_mbr_entry_def Let_def flip: e_def)
qed

section \<open>The entry table\<close>

lemma partition_entry_fields:
  assumes "length ty = 16" "length g = 16"
  shows "field (partition_entry ty g a b attrs name) 0 16 = ty" "field (partition_entry ty g a b attrs name) 16 16 = g"
    "field (partition_entry ty g a b attrs name) 32 8 = put_u64 a" "field (partition_entry ty g a b attrs name) 40 8 = put_u64 b"
  unfolding partition_entry_def
  by (subst field_put_fields; use assms in simp)+

lemma take_field_0: "take n xs = field xs 0 n"
  by (simp add: field_def)

lemma scan_partition_entry:
  assumes "length ty = 16" "length g = 16" "\<not> all_zero ty" "\<not> all_zero g" "map_of (es_guids st) g = None"
    "gh_FirstUsable h \<le> a" "a \<le> b" "b \<le> gh_LastUsable h"
  shows "scan_entry h (partition_entry ty g a b attrs name) i st =
     Inr (st\<lparr>es_guids := (g, int i) # es_guids st,
             es_extents := es_extents st @ [\<lparr> ge_first = a, ge_last = b, ge_index = int i \<rparr>]\<rparr>)"
  using assms
  by (simp add: scan_entry_def take_field_0 partition_entry_fields not_less)

lemma scan_unused_entries:
  assumes "\<And>i. i \<in> set is \<Longrightarrow> gpt_entry entries h i = replicate 128 0" "0 \<le> es_free st"
  shows "scan_entries h entries is st = Inr st"
  using assms by (induction "is") (simp_all add: scan_entry_def)

lemma scan_first_unused:
  assumes "\<And>i. i \<in> set (j # is) \<Longrightarrow> gpt_entry entries h i = replicate 128 0" "es_free st < 0"
  shows "scan_entries h entries (j # is) st = Inr (st\<lparr>es_free := int j\<rparr>)"
proof -
  have "scan_entry h (gpt_entry entries h j) j st = Inr (st\<lparr>es_free := int j\<rparr>)"
    using assms by (simp add: scan_entry_def)
  then show ?thesis using assms(1) by (simp add: scan_unused_entries)
qed

lemma basic_data_type: "\<not> all_zero microsoftBasicDataType" "\<not> all_zero (gptDataPartitionType p)"
  by (simp_all add: all_zero_def gptDataPartitionType_def microsoftBasicDataType_def efiSystemPartitionType_def)

text \<open>The three kinds of entries of the table the writer builds.\<close>

lemma gpt_entries_read:
  assumes "length d = 16" "length b = 16" "n = unat (entry_lbas S * S)" "16384 \<le> n" "ly_SectorSize ly = S"
  shows "field (gpt_entries ly d b label) 0 128 =
      partition_entry (gptDataPartitionType (ly_DataProfile ly)) d (et_StartBytes (ly_Data ly) div S)
        ((et_StartBytes (ly_Data ly) + et_SizeBytes (ly_Data ly)) div S - 1) 0 label"
    and "field (gpt_entries ly d b label) 128 128 =
      partition_entry microsoftBasicDataType b (et_StartBytes (ly_Boot ly) div S)
        ((et_StartBytes (ly_Boot ly) + et_SizeBytes (ly_Boot ly)) div S - 1) (push_bit 63 1) ''UEFI:NTFS''"
    and "2 \<le> i \<Longrightarrow> i < 128 \<Longrightarrow> field (gpt_entries ly d b label) (i * 128) 128 = replicate 128 0"
  using assms by (simp_all add: gpt_entries_def Let_def field_put_same field_put_other)

lemma extents_disjoint_pair:
  "ge_last x < ge_first y \<Longrightarrow> ge_first x \<le> ge_last x \<Longrightarrow> extents_disjoint msg [x, y] = Inr ()"
  by (auto simp: extents_disjoint_def word_less_unat word_le_unat)

lemma inspect_written_entries:
  assumes len: "length d = 16" "length b = 16" "n = unat (entry_lbas S * S)" "16384 \<le> n" "ly_SectorSize ly = S"
    and nz: "\<not> all_zero d" "\<not> all_zero b" "d \<noteq> b"
    and h: "gh_NumEntries h = 128" "gh_EntrySize h = 128"
    and ord: "gh_FirstUsable h \<le> a1" "a1 \<le> b1" "b1 < a2" "a2 \<le> b2" "b2 \<le> gh_LastUsable h"
    and ab: "a1 = et_StartBytes (ly_Data ly) div S" "b1 = (et_StartBytes (ly_Data ly) + et_SizeBytes (ly_Data ly)) div S - 1"
      "a2 = et_StartBytes (ly_Boot ly) div S" "b2 = (et_StartBytes (ly_Boot ly) + et_SizeBytes (ly_Boot ly)) div S - 1"
  shows "inspectGPTEntries (take 16384 (gpt_entries ly d b label)) h = Inr 2"
proof -
  let ?T = "take 16384 (gpt_entries ly d b label)"
  note rd = gpt_entries_read [OF len, folded ab]
  have e: "gpt_entry ?T h i = field (gpt_entries ly d b label) (i * 128) 128" if "i < 128" for i
    using that by (simp add: gpt_entry_def h field_take)
  have u1: "b1 \<le> gh_LastUsable h" "gh_FirstUsable h \<le> a2" using ord by simp_all
  obtain "is" where upt: "[0..<unat (gh_NumEntries h)] = 0 # 1 # 2 # is" and "is": "is = [3..<128]"
    by (simp add: h upt_rec)
  have z: "gpt_entry ?T h i = replicate 128 0" if "i \<in> set (2 # is)" for i
    using that e [of i] rd(3) [of i] by (auto simp: "is")
  have fu: "scan_entries h ?T (2 # is) st = Inr (st\<lparr>es_free := 2\<rparr>)" if "es_free st < 0" for st
    using scan_first_unused [of 2 "is" ?T h st] z that by simp
  have "scan_entries h ?T [0..<unat (gh_NumEntries h)] \<lparr> es_free = -1, es_extents = [], es_guids = [] \<rparr>
     = Inr \<lparr> es_free = 2,
             es_extents = [\<lparr> ge_first = a1, ge_last = b1, ge_index = 0 \<rparr>, \<lparr> ge_first = a2, ge_last = b2, ge_index = 1 \<rparr>],
             es_guids = [(b, 1), (d, 0)] \<rparr>"
    unfolding upt scan_entries.simps(2) [of _ _ 0] scan_entries.simps(2) [of _ _ 1]
    using e [of 0] e [of 1] rd len nz ord u1
    by (simp add: scan_partition_entry basic_data_type fu del: scan_entries.simps)
  moreover have "extents_disjoint msg
      [\<lparr> ge_first = a1, ge_last = b1, ge_index = 0 \<rparr>, \<lparr> ge_first = a2, ge_last = b2, ge_index = 1 \<rparr>] = Inr ()" for msg
    using ord by (intro extents_disjoint_pair) simp_all
  ultimately show ?thesis by (simp add: inspectGPTEntries_def)
qed

end
