(* ===== verification/GptDevice.thy ===== *)
theory GptDevice
  imports GptBack
begin

text \<open>
  The target of \<open>WriteLayout\<close> as a medium behind its \<open>ReadAt\<close>: what a successful run leaves there.
\<close>

unbundle bit_operations_syntax

section \<open>Reading a medium\<close>

text \<open>The reader of the first \<open>n\<close> bytes of a medium, with \<open>io.EOF\<close> behind them.\<close>

definition medium_reader :: "(u64 \<Rightarrow> byte) \<Rightarrow> nat \<Rightarrow> reader_at" where
  "medium_reader c n off k =
     (segment c (of_int off) 0 (min k (n - nat off)), if n < nat off + k then Some EOF else None)"

lemma segment_split:
  "segment c off 0 (a + b) = segment c off 0 a @ segment c (off + of_nat a) 0 b"
proof (rule nth_equalityI)
  fix i assume "i < length (segment c off 0 (a + b))"
  then have "i < a + b" by simp
  moreover have "off + of_nat i = off + of_nat a + of_nat (i - a)" if "a \<le> i"
    using that by (simp add: of_nat_diff)
  ultimately show "segment c off 0 (a + b) ! i = (segment c off 0 a @ segment c (off + of_nat a) 0 b) ! i"
    by (auto simp: segment_def nth_append)
qed simp

lemma readAtExact_medium:
  assumes "unat off + unat k \<le> n" "n < 2 ^ 63"
  shows "readAtExact (medium_reader c n) off k msg = Inr (segment c off 0 (unat k))"
proof -
  have m: "unat (2 ^ 63 - 1 :: u64) = 2 ^ 63 - 1" by simp
  have s: "unat (off + k) = unat off + unat k" using assms by (intro unat_plus_64) simp
  have c: "\<not> (2 ^ 63 - 1 < off \<or> 2 ^ 63 - 1 < k \<or> off + k < off \<or> 2 ^ 63 - 1 < off + k)"
    unfolding word_less_unat m s using assms by simp
  have "min (unat k) (n - unat off) = unat k" using assms by simp
  then show ?thesis
    unfolding readAtExact_def if_not_P [OF c] using assms by (simp add: medium_reader_def)
qed

definition region_written :: "(u64 \<Rightarrow> byte) \<Rightarrow> metadataRegion \<Rightarrow> bool" where
  "region_written c r \<longleftrightarrow> segment c (mr_offset r) 0 (length (mr_data r)) = mr_data r"

section \<open>The table the planner finds\<close>

lemma entry_lbas_512: "entry_lbas 512 = 32"
  by (simp add: entry_lbas_def)

lemma geometry_512:
  assumes g: "geometry T 512 t s E"
  shows "s = 512" "E = 32"
  using g by (simp_all add: geometry_def)

text \<open>The sectors of both partitions, in the order of the disk.\<close>

lemma sectors_in_order:
  assumes g: "geometry T 512 t 512 32" and w: "layout_within (34 * 512) (t - 33 * 512) ly"
    and S: "ly_SectorSize ly = 512"
    and ab: "a1 = et_StartBytes (ly_Data ly) div 512" "b1 = (et_StartBytes (ly_Data ly) + et_SizeBytes (ly_Data ly)) div 512 - 1"
      "a2 = et_StartBytes (ly_Boot ly) div 512" "b2 = (et_StartBytes (ly_Boot ly) + et_SizeBytes (ly_Boot ly)) div 512 - 1"
  shows "34 \<le> a1" "a1 \<le> b1" "b1 < a2" "a2 \<le> b2" "b2 \<le> T div 512 - 1 - 32 - 1"
proof -
  have w': "34 * 512 \<le> unat (et_StartBytes (ly_Data ly))" "0 < unat (et_SizeBytes (ly_Data ly))"
    "unat (et_StartBytes (ly_Data ly)) + unat (et_SizeBytes (ly_Data ly)) = unat (et_StartBytes (ly_Boot ly))"
    "unat (et_StartBytes (ly_Boot ly)) + 1048576 \<le> t - 33 * 512" "unat (et_SizeBytes (ly_Boot ly)) = 1048576"
    "512 dvd unat (et_StartBytes (ly_Data ly))" "512 dvd unat (et_SizeBytes (ly_Data ly))"
    using w by (simp_all add: layout_within_def Let_def S)
  from w'(6,7) obtain x y where x: "unat (et_StartBytes (ly_Data ly)) = 512 * x" and y: "unat (et_SizeBytes (ly_Data ly)) = 512 * y"
    by (elim dvdE)
  have z: "unat (et_StartBytes (ly_Boot ly)) = 512 * (x + y)" using w'(3) x y by simp
  note t = geometry_facts(1) [OF g]
  have b: "512 * (x + y) + 1048576 + 33 * 512 \<le> t" using w'(4) z by simp
  have u1: "unat a1 = x" and u3: "unat a2 = x + y"
    using x z by (simp_all add: ab unat_div_64)
  have e1: "unat ((et_StartBytes (ly_Data ly) + et_SizeBytes (ly_Data ly)) div 512) = x + y"
    using x y b t by (subst unat_div_64, subst unat_plus_64) simp_all
  have e2: "unat ((et_StartBytes (ly_Boot ly) + et_SizeBytes (ly_Boot ly)) div 512) = x + y + 2048"
    using z w'(5) b t by (subst unat_div_64, subst unat_plus_64) simp_all
  have xy: "34 \<le> x" "0 < y" using w'(1,2) x y by simp_all
  have u2: "unat b1 = x + y - 1"
    unfolding ab using e1 xy by (subst unat_minus_64) (simp_all add: word_le_unat)
  have u4: "unat b2 = x + y + 2047"
    unfolding ab using e2 by (subst unat_minus_64) (simp_all add: word_le_unat)
  have "unat (T div 512 - 1 - entry_lbas 512 - 1) = t div 512 - 2 - 32" by (rule gpt_sectors(3) [OF g])
  then have u5: "unat (T div 512 - 1 - 32 - 1) = t div 512 - 34" by (simp only: entry_lbas_512)
  have "x + y + 2081 \<le> t div 512" using b by simp
  then show "34 \<le> a1" "a1 \<le> b1" "b1 < a2" "a2 \<le> b2" "b2 \<le> T div 512 - 1 - 32 - 1"
    unfolding word_le_unat word_less_unat u1 u2 u3 u4 u5 using xy by simp_all
qed

lemma written_table_accepted:
  assumes g: "geometry T 512 t 512 32" and w: "layout_within (34 * 512) (t - 33 * 512) ly"
    and ly: "ly_TargetSize ly = T" "ly_SectorSize ly = 512"
    and guids: "length disk = 16" "length d = 16" "length b = 16" "\<not> all_zero disk" "\<not> all_zero d" "\<not> all_zero b" "d \<noteq> b"
    and entries: "entries = gpt_entries ly d b label"
    and held: "list_all (region_written c) (fst (gpt_regions ly disk entries) @ snd (gpt_regions ly disk entries))"
  shows "inspectTable (medium_reader c t) T = Inr \<lparr> tl_Kind = TableGPT, tl_FreeIndex = 2, tl_GPTEntrySectors = 32 \<rparr>"
proof -
  note f = geometry_facts [OF g] and gs = gpt_sectors [OF g, unfolded entry_lbas_512] and ts = total_sectors [OF g]
    and off = gpt_offsets [OF g, unfolded entry_lbas_512]
  define n where "n = T div 512"
  define ec where "ec = crc32 (take 16384 entries)"
  define P where "P = makeGPTHeader 512 1 (n - 1) (2 + 32) (n - 1 - 32 - 1) disk 2 ec"
  define B where "B = makeGPTHeader 512 (n - 1) 1 (2 + 32) (n - 1 - 32 - 1) disk (n - 1 - 32) ec"
  define M where "M = makeProtectiveMBR n 512"
  have len: "length entries = 16384" "length P = 512" "length B = 512" "length M = 512"
    using length_gpt_entries [OF g ly(2) guids(2,3)] guids(1)
    by (simp_all add: entries P_def B_def M_def)
  define k where "k = t div 512"
  have un: "unat n = k" and n: "32768 \<le> k" "k * 512 = t"
    using ts f(2) by (simp_all add: n_def k_def)
  have "fst (gpt_regions ly disk entries) @ snd (gpt_regions ly disk entries) =
      [\<lparr> mr_offset = (n - 1 - 32) * 512, mr_data = entries, mr_name = ''backup GPT entries'' \<rparr>,
       \<lparr> mr_offset = (n - 1) * 512, mr_data = B, mr_name = ''backup GPT header'' \<rparr>,
       \<lparr> mr_offset = 2 * 512, mr_data = entries, mr_name = ''primary GPT entries'' \<rparr>,
       \<lparr> mr_offset = 512, mr_data = P, mr_name = ''primary GPT header'' \<rparr>,
       \<lparr> mr_offset = 0, mr_data = M, mr_name = ''protective MBR'' \<rparr>]"
    by (simp only: gpt_regions_def Let_def ly entry_lbas_512 fst_conv snd_conv append.simps
        n_def ec_def P_def B_def M_def)
  from held [unfolded this list.pred_inject region_written_def metadataRegion.select_convs len]
  have held': "segment c ((n - 1 - 32) * 512) 0 16384 = entries" "segment c ((n - 1) * 512) 0 512 = B"
    "segment c (2 * 512) 0 16384 = entries" "segment c 512 0 512 = P" "segment c 0 0 512 = M"
    by blast+
  have read0: "medium_reader c t 0 1024 = (M @ P, None)"
    using segment_split [of c 0 512 512] held' f(2) by (simp add: medium_reader_def min_def)
  have scan: "scan_mbr (T div gptSectorSize) (M @ P) [0..<4] \<lparr> ms_protective = False, ms_free = -1, ms_extents = [] \<rparr>
       = Inr \<lparr> ms_protective = True, ms_free = 1, ms_extents = [] \<rparr>"
    using scan_protective [of 512 n "M @ P" P] un n by (simp add: M_def)
  have "field M 510 2 = [0x55, 0xaa]" by (simp add: M_def protective_fields)
  then have m: "(M @ P) ! 510 = 0x55" "(M @ P) ! 511 = 0xaa"
    using nth_field [of 510 2 M 0] nth_field [of 510 2 M 1] len by (simp_all add: nth_append)
  have sig: "field (M @ P) 512 8 = string_bytes ''EFI PART''" "field (M @ P) 512 512 = P"
    using len makeGPTHeader_read [of 512 disk 0 8] gpt_header_fields_read(1) [of 512 disk] guids(1)
    by (simp_all add: field_def P_def)
  define hp where "hp = \<lparr> gh_CurrentLBA = 1, gh_BackupLBA = n - 1, gh_FirstUsable = 2 + 32, gh_LastUsable = n - 1 - 32 - 1,
    gh_DiskGUID = disk, gh_EntriesLBA = 2, gh_NumEntries = 128, gh_EntrySize = 128, gh_EntriesCRC = ec \<rparr>"
  define hb where "hb = \<lparr> gh_CurrentLBA = n - 1, gh_BackupLBA = 1, gh_FirstUsable = 2 + 32, gh_LastUsable = n - 1 - 32 - 1,
    gh_DiskGUID = disk, gh_EntriesLBA = n - 1 - 32, gh_NumEntries = 128, gh_EntrySize = 128, gh_EntriesCRC = ec \<rparr>"
  have parse: "parseGPTHeader P ''primary'' = Inr hp" "parseGPTHeader B ''backup'' = Inr hb"
    using parse_made_header [of 512 disk 1 "n - 1" "2 + 32" "n - 1 - 32 - 1" 2 ec "''primary''"]
      parse_made_header [of 512 disk "n - 1" 1 "2 + 32" "n - 1 - 32 - 1" "n - 1 - 32" ec "''backup''"] guids len
    unfolding P_def [symmetric] B_def [symmetric] hp_def [symmetric] hb_def [symmetric] by simp_all
  have un1: "unat (n - 1) = k - 1" "unat (n - 1 - 32) = k - 33" "unat (n - 1 - 32 - 1) = k - 34"
    using gs by (simp_all add: n_def k_def)
  have geo: "\<not> (gh_CurrentLBA hp \<noteq> 1 \<or> gh_BackupLBA hp \<noteq> T div gptSectorSize - 1
     \<or> gh_FirstUsable hp \<le> gh_CurrentLBA hp \<or> gh_LastUsable hp < gh_FirstUsable hp
     \<or> gh_BackupLBA hp \<le> gh_LastUsable hp \<or> gh_EntriesLBA hp < 2)"
    using n un1 by (simp add: hp_def gptSectorSize_def n_def word_less_unat word_le_unat) linarith
  have eb: "entries_bytes hp = 16384" "entry_sectors hp = 32"
    by (simp_all add: entry_sectors_def entries_bytes_def hp_def u64_of_def gptSectorSize_def)
  have safe: "\<not> (16384 = (0 :: u64) \<or> maxGPTEntriesBytes < 16384 \<or> gh_EntriesLBA hp + 32 < gh_EntriesLBA hp
     \<or> gh_FirstUsable hp < gh_EntriesLBA hp + 32)"
    by (simp add: hp_def maxGPTEntriesBytes_def)
  have room: "\<not> gh_BackupLBA hp \<le> 32" "\<not> gh_BackupLBA hp - 32 \<le> gh_LastUsable hp"
    using n un1 by (simp_all add: hp_def word_less_unat word_le_unat)
  have top: "unat ((n - 1) * 512) = t - 512" "unat ((n - 1 - 32) * 512) = t - 16896"
    using off by (simp_all add: n_def)
  have u16384: "unat (16384 :: u64) = 16384" "unat (512 :: u64) = 512" "unat (2 * 512 :: u64) = 1024" by simp_all
  have reads: "readAtExact (medium_reader c t) (gh_EntriesLBA hp * gptSectorSize) 16384 msg = Inr entries"
    "readAtExact (medium_reader c t) (gh_BackupLBA hp * gptSectorSize) gptSectorSize msg = Inr B"
    "readAtExact (medium_reader c t) (gh_EntriesLBA hb * gptSectorSize) 16384 msg = Inr entries" for msg
    using f(1,2) held' top
    by (simp_all add: hp_def hb_def gptSectorSize_def readAtExact_medium u16384)
  have crc: "crc32 entries = gh_EntriesCRC hp" "crc32 entries = gh_EntriesCRC hb"
    using len by (simp_all add: hp_def hb_def ec_def)
  have "take 16384 entries = entries" using len by simp
  moreover have "inspectGPTEntries (take 16384 (gpt_entries ly d b label)) hp = Inr 2"
    by (rule inspect_written_entries [OF guids(2,3) refl _ ly(2) guids(5,6,7) _ _ _ _ _ _ _ refl refl refl refl])
      (use sectors_in_order [OF g w ly(2) refl refl refl refl] in \<open>simp_all add: entry_lbas_512 hp_def n_def\<close>)
  ultimately have free: "inspectGPTEntries entries hp = Inr 2" by (simp add: entries)
  have same: "same_table hp hb (gh_BackupLBA hp - 32)"
    by (simp add: same_table_def hp_def hb_def)
  have big: "\<not> 2 ^ 63 - 1 < T"
    using f(1) g by (simp add: geometry_def word_less_unat)
  have "inspectGPTTable (medium_reader c t) T P = Inr \<lparr> tl_Kind = TableGPT, tl_FreeIndex = 2, tl_GPTEntrySectors = 32 \<rparr>"
    unfolding inspectGPTTable_def Let_def if_not_P [OF big] parse bindE_Inr if_not_P [OF geo] eb if_not_P [OF safe]
      if_not_P [OF room(1)] if_not_P [OF room(2)] reads free
    using same crc by simp
  moreover have "fill_buffer 1024 (M @ P) = M @ P" using len by simp
  ultimately show ?thesis
    using read0 scan m sig by (simp add: inspectTable_def inspect_sectors_def extents_disjoint_def)
qed

section \<open>A target that reads back what it holds\<close>

text \<open>The contract of \<open>ReadAt\<close>: a read without an error delivers the bytes of the medium.\<close>

locale readable_target =
  fixes cell :: "'w \<Rightarrow> u64 \<Rightarrow> byte" and target :: "'w UefiTarget"
  assumes reads: "tg_ReadAt target n off w = ((d, None), w1) \<Longrightarrow> d = segment (cell w) off 0 n"
    and keeps: "tg_ReadAt target n off w = (r, w1) \<Longrightarrow> cell w1 = cell w"
begin

lemma readback_written:
  assumes "readback_loop target rs w = (Inr u, w1)"
  shows "cell w1 = cell w \<and> list_all (region_written (cell w)) rs"
  using assms
proof (induction rs arbitrary: w)
  case Nil
  then show ?case by (simp add: result_simps)
next
  case (Cons r rs)
  then obtain v w2 where r: "readback_region target (\<lambda>e. Errorf ''read back %s: %w'' [FS (mr_name r), FE e])
      (Errorf ''%s readback mismatch'' [FS (mr_name r)]) (mr_data r) (mr_offset r) w = (Inr v, w2)"
    and rest: "readback_loop target rs w2 = (Inr u, w1)"
    by (auto simp: result_simps)
  obtain d e where d: "tg_ReadAt target (length (mr_data r)) (mr_offset r) w = ((d, e), w2)"
    and e: "e = None" "fill_buffer (length (mr_data r)) d = mr_data r"
    using r by (auto simp: readback_region_def split: prod.splits option.splits if_splits)
  have "d = segment (cell w) (mr_offset r) 0 (length (mr_data r))" using reads d e by simp
  then have "region_written (cell w) r" using e by (simp add: region_written_def)
  with Cons.IH [OF rest] keeps [OF d] show ?case by simp
qed

lemma written_gpt:
  assumes run: "writeGPTLayout rand target ly label w = (Inr u, w1)"
    and draws: "randomGUID rand w = (Inr disk, r1)" "randomGUID rand r1 = (Inr d, r2)" "randomGUID rand r2 = (Inr b, r3)"
  shows "list_all (region_written (cell w1))
    (fst (gpt_regions ly disk (gpt_entries ly d b label)) @ snd (gpt_regions ly disk (gpt_entries ly d b label)))"
proof -
  obtain backup primary where R: "gpt_regions ly disk (gpt_entries ly d b label) = (backup, primary)"
    by (cases "gpt_regions ly disk (gpt_entries ly d b label)")
  have "wrap_act g (randomGUID rand) w = (Inr disk, r1)" "wrap_act g (randomGUID rand) r1 = (Inr d, r2)"
    "wrap_act g (randomGUID rand) r2 = (Inr b, r3)" for g
    using draws by (simp_all add: result_simps)
  then obtain w2 where "readback_loop target (backup @ primary) w2 = (Inr u, w1)"
    using run unfolding writeGPTLayout_def
    by (auto simp: bind_act_Inr R)
  from readback_written [OF this] show ?thesis by (simp add: R)
qed

end

text \<open>An identifier drawn by \<open>randomGUID\<close> is never zero: its version bits are set.\<close>

lemma randomGUID_shape:
  assumes "randomGUID rand w = (Inr g, w1)"
  shows "length g = 16" "\<not> all_zero g"
proof -
  obtain d where g: "g = put_at 8 [(fill_buffer 16 d ! 8 AND 0x3f) OR 0x80]
      (put_at 7 [(fill_buffer 16 d ! 7 AND 0x0f) OR 0x40] (fill_buffer 16 d))"
    using assms by (auto simp: randomGUID_def Let_def result_simps)
  show l: "length g = 16" by (simp add: g)
  have "g ! 8 = (fill_buffer 16 d ! 8 AND 0x3f) OR 0x80" by (simp add: g nth_put_at)
  moreover have "(x AND 0x3f) OR 0x80 \<noteq> (0 :: byte)" for x
    by (simp add: or_eq_0_iff)
  ultimately show "\<not> all_zero g" using l by (auto simp: all_zero_def list_all_length intro!: exI [of _ 8])
qed

lemma randomGUID_ok:
  assumes "\<And>n w. fst (rand n w) = Inr (drawn n w)"
  shows "\<exists>g w1. randomGUID rand w = (Inr g, w1)"
  using assms [of 16 w] by (cases "rand 16 w") (auto simp: randomGUID_def Let_def bind_act_def ret_act_def)

text \<open>The planner's reader of the medium after a run that succeeded.\<close>

lemma written_gpt_accepted:
  assumes "readable_target cell target"
    and run: "WriteLayout rand (Some target) ly label w = (Inr u, w1)"
    and gpt: "ly_Scheme ly = ''gpt''" "ly_SectorSize ly = 512"
    and draws: "randomGUID rand w = (Inr disk, r1)" "randomGUID rand r1 = (Inr d, r2)" "randomGUID rand r2 = (Inr b, r3)"
      "d \<noteq> b"
  shows "inspectTable (medium_reader (cell w1) (unat (ly_TargetSize ly))) (ly_TargetSize ly)
    = Inr \<lparr> tl_Kind = TableGPT, tl_FreeIndex = 2, tl_GPTEntrySectors = 32 \<rparr>"
proof -
  have plan: "PlanLayoutForProfile (ly_Scheme ly) (ly_TargetSize ly) (ly_SectorSize ly) (ly_DataProfile ly) = Inr ly"
    and rungpt: "writeGPTLayout rand target ly label w = (Inr u, w1)"
    using run gpt by (auto simp: WriteLayout_def result_simps split: if_splits)
  obtain t s E where g: "geometry (ly_TargetSize ly) (ly_SectorSize ly) t s E"
    and within: "layout_within ((2 + E) * s) (t - (1 + E) * s) ly"
    using PlanLayoutForProfile_cases [OF plan] gpt(1) by auto
  have se: "s = 512" "E = 32" using g geometry_512 unfolding gpt(2) by blast+
  have t: "t = unat (ly_TargetSize ly)" using g by (simp add: geometry_def)
  note ids = randomGUID_shape [OF draws(1)] randomGUID_shape [OF draws(2)] randomGUID_shape [OF draws(3)]
  show ?thesis
    unfolding t [symmetric]
    by (rule written_table_accepted [OF _ _ refl gpt(2) ids(1,3,5) ids(2,4,6) draws(4) refl
          readable_target.written_gpt [OF assms(1) rungpt draws(1,2,3)]])
      (use g within in \<open>simp_all add: se gpt(2)\<close>)
qed

section \<open>A target that works\<close>

text \<open>The medium after the writes of a list of regions.\<close>

definition after_writes :: "metadataRegion list \<Rightarrow> (u64 \<Rightarrow> byte) \<Rightarrow> u64 \<Rightarrow> byte" where
  "after_writes rs c = fold (\<lambda>r. stored (mr_data r) (unat (mr_offset r))) rs c"

text \<open>
  A target that stores what is written and reads without an error, both inside its capacity; nothing is said of
  accesses beyond it.
\<close>

locale working_target = readable_target cell target
  for cell :: "'w \<Rightarrow> u64 \<Rightarrow> byte" and target :: "'w UefiTarget" +
  fixes capacity :: nat
  assumes bounded: "capacity < 2 ^ 63"
    and answers: "unat off + n \<le> capacity \<Longrightarrow> tg_ReadAt target n off w = ((d, e), w1) \<Longrightarrow> e = None"
    and stores: "unat off + length buf \<le> capacity \<Longrightarrow> tg_WriteAt target buf off w = (r, w1) \<Longrightarrow>
      r = (length buf, None) \<and> cell w1 = stored buf (unat off) (cell w)"
    and syncs: "tg_Sync target w = (e, w1) \<Longrightarrow> e = None \<and> cell w1 = cell w"
begin

lemma writeFullAt_stores:
  assumes "unat off + length buf \<le> capacity"
  shows "\<exists>w1. writeFullAt target buf off w = (Inr (), w1) \<and> cell w1 = stored buf (unat off) (cell w)"
proof -
  obtain r w1 where c: "tg_WriteAt target buf off w = (r, w1)" by (cases "tg_WriteAt target buf off w")
  from stores [OF assms c] have r: "r = (length buf, None)" "cell w1 = stored buf (unat off) (cell w)" by simp_all
  have m: "unat (2 ^ 63 - 1 :: u64) = 2 ^ 63 - 1" by simp
  have lb: "unat (of_nat (length buf) :: u64) = length buf" using assms bounded by (simp add: unat_of_nat_64)
  have o: "off \<le> 2 ^ 63 - 1" unfolding word_le_unat m using assms bounded by simp
  then have "unat (2 ^ 63 - 1 - off) = 2 ^ 63 - 1 - unat off" by (simp only: unat_minus_64 m)
  then have "of_nat (length buf) \<le> 2 ^ 63 - 1 - off" unfolding word_le_unat lb using assms bounded by simp
  with o c r show ?thesis by (simp add: writeFullAt_def not_less)
qed

lemma sync_ok: "\<exists>w1. wrap_act g (try_call (tg_Sync target)) w = (Inr (), w1) \<and> cell w1 = cell w"
proof -
  obtain e w1 where c: "tg_Sync target w = (e, w1)" by (cases "tg_Sync target w")
  with syncs [OF c] show ?thesis by (simp add: wrap_act_def try_call_def)
qed

lemma write_regions_stores:
  assumes "\<And>r. r \<in> set rs \<Longrightarrow> unat (mr_offset r) + length (mr_data r) \<le> capacity"
  shows "\<exists>w1. write_regions_loop target rs w = (Inr (), w1) \<and> cell w1 = after_writes rs (cell w)"
  using assms
proof (induction rs arbitrary: w)
  case Nil
  then show ?case by (simp add: ret_act_def after_writes_def)
next
  case (Cons r rs)
  obtain w2 where "writeFullAt target (mr_data r) (mr_offset r) w = (Inr (), w2)"
    "cell w2 = stored (mr_data r) (unat (mr_offset r)) (cell w)"
    using writeFullAt_stores [of "mr_offset r" "mr_data r" w] Cons.prems by auto
  with Cons.IH [of w2] Cons.prems show ?case
    by (auto simp: bind_act_def wrap_act_def after_writes_def)
qed

lemma readback_succeeds:
  assumes "list_all (region_written (cell w)) rs" "\<And>r. r \<in> set rs \<Longrightarrow> unat (mr_offset r) + length (mr_data r) \<le> capacity"
  shows "\<exists>w1. readback_loop target rs w = (Inr (), w1) \<and> cell w1 = cell w"
  using assms
proof (induction rs arbitrary: w)
  case Nil
  then show ?case by (simp add: ret_act_def)
next
  case (Cons r rs)
  obtain d e w2 where c: "tg_ReadAt target (length (mr_data r)) (mr_offset r) w = ((d, e), w2)"
    by (metis surj_pair)
  have e: "e = None" using answers [OF _ c] Cons.prems(2) by simp
  have d: "d = segment (cell w) (mr_offset r) 0 (length (mr_data r))" using reads c e by simp
  have k: "cell w2 = cell w" using keeps [OF c] .
  have "readback_region target g m (mr_data r) (mr_offset r) w = (Inr (), w2)" for g m
    using c e d Cons.prems by (simp add: readback_region_def region_written_def)
  moreover obtain w3 where "readback_loop target rs w2 = (Inr (), w3)" "cell w3 = cell w2"
    using Cons.IH [of w2] Cons.prems k by auto
  ultimately show ?case using k by (simp add: bind_act_def)
qed

end

text \<open>Regions that do not meet keep what was written to them.\<close>

definition regions_apart :: "metadataRegion \<Rightarrow> metadataRegion \<Rightarrow> bool" where
  "regions_apart r q \<longleftrightarrow>
     unat (mr_offset r) + length (mr_data r) \<le> unat (mr_offset q)
     \<or> unat (mr_offset q) + length (mr_data q) \<le> unat (mr_offset r)"

lemma region_written_apart:
  assumes "regions_apart r q" "unat (mr_offset r) + length (mr_data r) \<le> 2 ^ 64" "region_written c r"
  shows "region_written (stored (mr_data q) (unat (mr_offset q)) c) r"
  using assms by (simp add: region_written_def regions_apart_def segment_stored_other)

lemma regions_written_after:
  assumes "\<And>r. r \<in> set rs \<Longrightarrow> unat (mr_offset r) + length (mr_data r) \<le> 2 ^ 64" "sorted_wrt regions_apart rs"
    "\<And>r q. r \<in> set ps \<Longrightarrow> q \<in> set rs \<Longrightarrow> regions_apart r q"
    "\<And>r. r \<in> set ps \<Longrightarrow> unat (mr_offset r) + length (mr_data r) \<le> 2 ^ 64" "list_all (region_written c) ps"
  shows "list_all (region_written (after_writes rs c)) (ps @ rs)"
  using assms
proof (induction rs arbitrary: ps c)
  case Nil
  then show ?case by (simp add: after_writes_def)
next
  case (Cons q rs)
  let ?c = "stored (mr_data q) (unat (mr_offset q)) c"
  have "region_written ?c q" using Cons.prems(1) [of q] by (simp add: region_written_def segment_stored_same)
  moreover have "list_all (region_written ?c) ps"
    using Cons.prems by (auto simp: list_all_iff intro!: region_written_apart)
  ultimately have "list_all (region_written ?c) (ps @ [q])" by simp
  moreover have "after_writes (q # rs) c = after_writes rs ?c" by (simp add: after_writes_def)
  ultimately show ?case using Cons.IH [of "ps @ [q]" ?c] Cons.prems by fastforce
qed

lemma gpt_regions_apart:
  assumes g: "geometry T S t s E" and ly: "ly_TargetSize ly = T" "ly_SectorSize ly = S"
    and w: "layout_within ((2 + E) * s) (t - (1 + E) * s) ly"
    and len: "length disk = 16" "length entries = E * s"
  shows "sorted_wrt regions_apart (fst (gpt_regions ly disk entries) @ snd (gpt_regions ly disk entries))"
proof -
  note off = gpt_offsets [OF g] and f = geometry_facts [OF g] and eb = entry_table_bounds [OF g]
  have "(2 + E) * s + 1048576 \<le> t - (1 + E) * s"
    using w by (auto simp: layout_within_def Let_def)
  then have b: "2 * s + E * s \<le> t - (s + E * s)" "s + E * s \<le> t" "s \<le> t"
    by (simp_all add: add_mult_distrib)
  have s1: "t - (s + E * s) + E * s \<le> t - s" "(1 + E) * s = s + E * s" using b by simp_all
  have s2: "2 * s + E * s \<le> t - s" "s + s \<le> t - s" "s \<le> t - s" using b f(3) by linarith+
  show ?thesis
    using b s1 s2 f(3)
    by (simp add: gpt_regions_def Let_def ly regions_apart_def off len)
qed

lemma after_writes_append: "after_writes (rs @ qs) c = after_writes qs (after_writes rs c)"
  by (simp add: after_writes_def)

text \<open>A random source that never fails.\<close>

definition random_ok :: "'w random_source \<Rightarrow> bool" where
  "random_ok rand \<longleftrightarrow> (\<forall>n w. is_ok (fst (rand n w)))"

lemma random_ok_draw: "random_ok rand \<Longrightarrow> \<exists>d w1. wrap_act g (rand n) w = (Inr d, w1)"
  by (auto simp: random_ok_def is_ok_iff wrap_act_def split: prod.splits) (metis fst_conv mapE_Inr surj_pair)

lemma random_ok_guid: "random_ok rand \<Longrightarrow> \<exists>g' w1. wrap_act g (randomGUID rand) w = (Inr g', w1) \<and> length g' = 16"
proof -
  assume r: "random_ok rand"
  then obtain d w1 where "rand 16 w = (Inr d, w1)"
    by (metis eq_fst_iff is_ok_iff random_ok_def)
  then have "\<exists>g' w1. randomGUID rand w = (Inr g', w1)" by (simp add: randomGUID_def bind_act_def ret_act_def Let_def)
  then show ?thesis using randomGUID_shape(1) by (auto simp: wrap_act_def)
qed

context working_target
begin

lemma writes_mbr:
  assumes "random_ok rand" "512 \<le> unat (ly_SectorSize ly)" "unat (ly_SectorSize ly) \<le> capacity"
  shows "\<exists>w1. writeMBRLayout rand target ly w = (Inr (), w1)"
proof -
  obtain d w2 where d: "wrap_act (\<lambda>e. Errorf ''generate MBR disk signature: %w'' [FE e]) (rand 4) w = (Inr d, w2)"
    using random_ok_draw [OF assms(1)] by blast
  let ?sector = "mbr_sector ly d"
  have "length ?sector = unat (ly_SectorSize ly)"
    using assms(2) by (simp add: mbr_sector_def writeMBRPartition_def)
  then have l: "unat (0 :: u64) + length ?sector \<le> capacity" using assms(3) by simp
  obtain w3 where w3: "writeFullAt target ?sector 0 w2 = (Inr (), w3)" "cell w3 = stored ?sector 0 (cell w2)"
    using writeFullAt_stores [OF l, of w2] by auto
  obtain w4 where w4: "wrap_act (\<lambda>e. Errorf ''sync UEFI:NTFS MBR: %w'' [FE e]) (try_call (tg_Sync target)) w3 = (Inr (), w4)"
    "cell w4 = cell w3"
    using sync_ok by blast
  have held: "segment (cell w4) 0 0 (length ?sector) = ?sector"
    using segment_stored_same [of 0 ?sector "cell w2"] l bounded w3 w4 by simp
  obtain e rd w5 where c: "tg_ReadAt target (length ?sector) 0 w4 = ((rd, e), w5)" by (metis surj_pair)
  have "e = None" using answers [OF l c] .
  moreover from this c have "rd = ?sector" using reads held by simp
  ultimately have "readback_region target g m ?sector 0 w4 = (Inr (), w5)" for g m
    using c by (simp add: readback_region_def)
  moreover have "wrap_act g (writeFullAt target ?sector 0) w2 = (Inr (), w3)" for g
    using w3 by (simp add: wrap_act_def)
  ultimately show ?thesis
    unfolding writeMBRLayout_def Let_def using d w4 by (simp add: bind_act_def)
qed

lemma writes_gpt:
  assumes r: "random_ok rand" and g: "geometry T S t s E" and ly: "ly_TargetSize ly = T" "ly_SectorSize ly = S"
    and w: "layout_within ((2 + E) * s) (t - (1 + E) * s) ly" and cap: "t \<le> capacity"
  shows "\<exists>w1. writeGPTLayout rand target ly label w = (Inr (), w1)"
proof -
  obtain disk w1 where 1: "wrap_act (\<lambda>e. Errorf ''generate GPT disk GUID: %w'' [FE e]) (randomGUID rand) w = (Inr disk, w1)"
    "length disk = 16"
    using random_ok_guid [OF r] by blast
  obtain d w2 where 2: "wrap_act (\<lambda>e. Errorf ''generate GPT data partition GUID: %w'' [FE e]) (randomGUID rand) w1 = (Inr d, w2)"
    "length d = 16"
    using random_ok_guid [OF r] by blast
  obtain b w3 where 3: "wrap_act (\<lambda>e. Errorf ''generate GPT UEFI:NTFS partition GUID: %w'' [FE e]) (randomGUID rand) w2 = (Inr b, w3)"
    "length b = 16"
    using random_ok_guid [OF r] by blast
  let ?es = "gpt_entries ly d b label"
  obtain backup primary where R: "gpt_regions ly disk ?es = (backup, primary)" by (cases "gpt_regions ly disk ?es")
  have len: "length ?es = E * s" by (rule length_gpt_entries [OF g ly(2) 2(2) 3(2)])
  have fit: "unat (mr_offset q) + length (mr_data q) \<le> capacity" if "q \<in> set (backup @ primary)" for q
    using gpt_regions_clear [OF g ly w 1(2) len, unfolded R fst_conv snd_conv, OF that] cap g
    by (simp add: clear_of_partitions_def ly geometry_def)
  have fit64: "unat (mr_offset q) + length (mr_data q) \<le> 2 ^ 64" if "q \<in> set (backup @ primary)" for q
    using fit [OF that] bounded by simp
  have apart: "sorted_wrt regions_apart (backup @ primary)"
    using gpt_regions_apart [OF g ly w 1(2) len] by (simp add: R)
  obtain w4 where 4: "write_regions_loop target backup w3 = (Inr (), w4)" "cell w4 = after_writes backup (cell w3)"
    using write_regions_stores [of backup w3] fit by auto
  obtain w5 where 5: "wrap_act (\<lambda>e. Errorf ''make backup GPT durable: %w'' [FE e]) (try_call (tg_Sync target)) w4 = (Inr (), w5)"
    "cell w5 = cell w4"
    using sync_ok by blast
  obtain w6 where 6: "write_regions_loop target primary w5 = (Inr (), w6)" "cell w6 = after_writes primary (cell w5)"
    using write_regions_stores [of primary w5] fit by auto
  obtain w7 where 7: "wrap_act (\<lambda>e. Errorf ''make primary GPT durable: %w'' [FE e]) (try_call (tg_Sync target)) w6 = (Inr (), w7)"
    "cell w7 = cell w6"
    using sync_ok by blast
  have "cell w7 = after_writes (backup @ primary) (cell w3)"
    using 4 5 6 7 by (simp add: after_writes_append)
  then have "list_all (region_written (cell w7)) (backup @ primary)"
    using regions_written_after [of "backup @ primary" "[]" "cell w3"] fit64 apart by simp
  then obtain w8 where 8: "readback_loop target (backup @ primary) w7 = (Inr (), w8)"
    using readback_succeeds [of w7 "backup @ primary"] fit by auto
  show ?thesis
    unfolding writeGPTLayout_def using 1 2 3 4 5 6 7 8 R by (simp add: bind_act_def)
qed

end

text \<open>Planning again from a layout gives the layout: the names in it are already normalised.\<close>

lemma normal_names:
  "to_lower (trim_space ''mbr'') = ''mbr''" "to_lower (trim_space ''gpt'') = ''gpt''"
  "to_lower (trim_space ''basic-data'') = ''basic-data''" "to_lower (trim_space ''fat32-esp'') = ''fat32-esp''"
  by (simp_all add: trim_space_id lower_char_def Let_def)

lemma PlanLayoutForProfile_again:
  assumes "PlanLayoutForProfile scheme T S profile = Inr ly"
  shows "PlanLayoutForProfile (ly_Scheme ly) (ly_TargetSize ly) (ly_SectorSize ly) (ly_DataProfile ly) = Inr ly"
proof -
  define p where "p = to_lower (trim_space profile)"
  define sc where "sc = to_lower (trim_space scheme)"
  obtain u v ly0 where vp: "validateDataPartitionProfile p = Inr u" and v: "validateGeometry T S = Inr v"
    and sel: "(if sc = ''mbr'' then planMBR T S else if sc = ''gpt'' then planGPT T S
      else Inl (Errorf ''unsupported UEFI:NTFS partition scheme %q'' [FS sc])) = Inr ly0"
    and ly: "ly0\<lparr>ly_DataProfile := p\<rparr> = ly"
    using assms unfolding PlanLayoutForProfile_def Let_def bindE_eq_Inr p_def sc_def sum.inject by blast
  have p: "p = ''basic-data'' \<or> p = ''fat32-esp''"
    using vp unfolding validateDataPartitionProfile_def by (simp only: if_Inl_eq_Inr split: if_splits) blast
  have k: "sc = ''mbr'' \<and> planMBR T S = Inr ly0 \<or> sc = ''gpt'' \<and> planGPT T S = Inr ly0"
    using sel by (simp only: if_Inl_eq_Inr split: if_splits) blast+
  note g = geometry_intro [OF v]
  have f: "ly_TargetSize ly0 = T \<and> ly_SectorSize ly0 = S \<and> ly_Scheme ly0 = sc"
    using k planMBR_sound [OF g, of ly0] planGPT_sound [OF g, of ly0] by auto
  have np: "to_lower (trim_space p) = p" "to_lower (trim_space sc) = sc" using p k normal_names by auto
  have "ly_TargetSize ly = T" "ly_SectorSize ly = S" "ly_Scheme ly = sc" "ly_DataProfile ly = p"
    using f ly by auto
  then show ?thesis
    unfolding PlanLayoutForProfile_def Let_def by (simp only: np vp v sel ly bindE_Inr)
qed

lemma working_target_written:
  assumes "working_target cell target capacity" "random_ok rand"
    and plan: "PlanLayoutForProfile scheme T S profile = Inr ly" and cap: "unat T \<le> capacity"
  shows "\<exists>w1. WriteLayout rand (Some target) ly label w = (Inr (), w1)"
proof -
  obtain t s E where g: "geometry T S t s E" and ly: "ly_TargetSize ly = T" "ly_SectorSize ly = S"
    and kind: "ly_Scheme ly = ''mbr'' \<and> layout_within s t ly \<or>
      ly_Scheme ly = ''gpt'' \<and> layout_within ((2 + E) * s) (t - (1 + E) * s) ly"
    using PlanLayoutForProfile_cases [OF plan] by blast
  have ts: "t = unat T" "s = unat S" using g by (simp_all add: geometry_def)
  have again: "PlanLayoutForProfile (ly_Scheme ly) (ly_TargetSize ly) (ly_SectorSize ly) (ly_DataProfile ly) = Inr ly"
    using PlanLayoutForProfile_again [OF plan] .
  have "\<exists>w1. writeMBRLayout rand target ly w = (Inr (), w1)"
    using geometry_facts [OF g] cap ts ly
    by (intro working_target.writes_mbr [OF assms(1,2)]) (auto dest: dvd_imp_le)
  moreover have "\<exists>w1. writeGPTLayout rand target ly label w = (Inr (), w1)" if "ly_Scheme ly = ''gpt''"
    using kind that cap ts by (intro working_target.writes_gpt [OF assms(1,2) g ly]) auto
  ultimately show ?thesis
    using again kind by (auto simp: WriteLayout_def bind_act_def pure_act_def)
qed

end
