(* ===== verification/DevicePattern.thy ===== *)
theory DevicePattern
  imports Prelude
begin

text \<open>
  \<open>internal/devicequal/engine.go\<close>: the address pattern. Every byte of a qualified device is a
  function of its absolute position and of the seed of the pass, so a region read back at the
  wrong address, or a device that stores two addresses in one cell, cannot match.
\<close>

unbundle bit_operations_syntax

record Pattern =
  pt_ID :: string
  pt_Seed :: u64

definition splitMix64 :: "u64 \<Rightarrow> u64" where
  "splitMix64 value =
     (let value = value + 0x9e3779b97f4a7c15;
          value = (value XOR drop_bit 30 value) * 0xbf58476d1ce4e5b9;
          value = (value XOR drop_bit 27 value) * 0x94d049bb133111eb in
      value XOR drop_bit 31 value)"

text \<open>
  \<open>FillPattern\<close> computes a word per eight positions. \<open>fill_word\<close> is its inner loop, with the
  room left in the buffer; \<open>fill_from\<close> the outer one, from a buffer index.
\<close>

fun fill_word :: "u64 \<Rightarrow> nat \<Rightarrow> nat \<Rightarrow> bytes" where
  "fill_word word byteIndex 0 = []"
| "fill_word word byteIndex (Suc room) =
     (if byteIndex < 8
      then ucast (drop_bit (8 * byteIndex) word) # fill_word word (Suc byteIndex) room
      else [])"

lemma fill_word_pos: "byteIndex < 8 \<Longrightarrow> 0 < room \<Longrightarrow> 0 < length (fill_word word byteIndex room)"
  by (cases room) auto

function fill_from :: "nat \<Rightarrow> u64 \<Rightarrow> Pattern \<Rightarrow> nat \<Rightarrow> bytes" where
  "fill_from n absoluteOffset pattern index =
     (if index < n then
        let position = absoluteOffset + of_nat index;
            word = splitMix64 (pt_Seed pattern XOR position div 8);
            part = fill_word word (unat (position mod 8)) (n - index) in
        part @ fill_from n absoluteOffset pattern (index + length part)
      else [])"
  by pat_completeness auto
termination
proof (relation "measure (\<lambda>(n, off, pattern, index). n - index)", goal_cases)
  case (2 n off pattern index position word part)
  have "unat (position mod 8) < 8" by (simp add: unat_mod)
  then have "0 < length part" unfolding 2(4) by (rule fill_word_pos) (use 2(1) in simp)
  with 2(1) show ?case by (simp only: in_measure prod.case)
qed simp

declare fill_from.simps [simp del]

definition FillPattern :: "nat \<Rightarrow> u64 \<Rightarrow> Pattern \<Rightarrow> bytes" where
  "FillPattern n absoluteOffset pattern = fill_from n absoluteOffset pattern 0"

section \<open>The pattern byte by byte\<close>

definition pattern_byte :: "Pattern \<Rightarrow> u64 \<Rightarrow> byte" where
  "pattern_byte pattern position =
     ucast (drop_bit (8 * unat (position mod 8)) (splitMix64 (pt_Seed pattern XOR position div 8)))"

lemma fill_word_eq:
  "fill_word word b room = map (\<lambda>k. ucast (drop_bit (8 * (b + k)) word)) [0..<min room (8 - b)]"
proof (induction word b room rule: fill_word.induct)
  case (2 word b room)
  have m: "min (Suc room) (8 - b) = (if b < 8 then Suc (min room (8 - Suc b)) else 0)" by auto
  show ?case
    unfolding m using 2 by (auto simp: map_upt_Suc ac_simps simp del: upt_Suc)
qed simp

lemma mod_add_left_less: "a mod n + k < n \<Longrightarrow> (a + k) mod n = a mod n + (k :: nat)"
  by (metis mod_add_left_eq mod_less)

lemma div_add_left_less:
  fixes a k n :: nat
  assumes "a mod n + k < n"
  shows "(a + k) div n = a div n"
proof -
  have "a + k = (a mod n + k) + a div n * n" by simp
  then have "(a + k) div n = (a mod n + k) div n + a div n" using assms by (metis div_mult_self1 less_nat_zero_code add.commute gr_zeroI)
  then show ?thesis using assms by simp
qed

lemma aligned_room:
  fixes a k :: nat
  assumes "a < 18446744073709551616" "a mod 8 + k < 8"
  shows "a + k < 18446744073709551616"
proof -
  have "(a + k) div 8 < 2305843009213693952"
    using assms by (simp add: div_add_left_less less_mult_imp_div_less)
  then show ?thesis by simp
qed

text \<open>Inside one aligned word the position advances without a carry, and never wraps.\<close>

lemma position_in_word:
  fixes p :: u64
  assumes "unat (p mod 8) + k < 8"
  shows "unat ((p + of_nat k) mod 8) = unat (p mod 8) + k" and "(p + of_nat k) div 8 = p div 8"
proof -
  have p: "unat p mod 8 + k < 8" using assms by (simp add: unat_mod)
  then have k: "k < 8" by simp
  have "unat p < 2 ^ 64" using unat_less_pow [of p] by simp
  with p have "unat p + k < 2 ^ 64" by (simp add: aligned_room)
  then have s: "unat (p + of_nat k) = unat p + k" using k by (simp add: unat_plus_64 unat_of_nat_64)
  show "unat ((p + of_nat k) mod 8) = unat (p mod 8) + k"
    using p by (simp add: unat_mod s mod_add_left_less)
  show "(p + of_nat k) div 8 = p div 8"
    using p by (simp add: word_eq_unat unat_div s div_add_left_less)
qed

lemma fill_from_eq:
  "fill_from n off pattern index = map (\<lambda>i. pattern_byte pattern (off + of_nat i)) [index..<n]"
proof (induction n off pattern index rule: fill_from.induct)
  case (1 n off pattern index)
  show ?case
  proof (cases "index < n")
    case False
    then show ?thesis by (subst fill_from.simps) simp
  next
    case True
    define p where "p = off + of_nat index"
    define w where "w = splitMix64 (pt_Seed pattern XOR p div 8)"
    define part where "part = fill_word w (unat (p mod 8)) (n - index)"
    define m where "m = min (n - index) (8 - unat (p mod 8))"
    have part: "part = map (\<lambda>i. pattern_byte pattern (off + of_nat i)) [index..<index + m]"
    proof (rule nth_equalityI)
      show "length part = length (map (\<lambda>i. pattern_byte pattern (off + of_nat i)) [index..<index + m])"
        by (simp add: part_def fill_word_eq m_def)
      fix k assume "k < length part"
      then have k: "k < m" by (simp add: part_def fill_word_eq m_def)
      then have "unat (p mod 8) + k < 8" unfolding m_def min_less_iff_conj by linarith
      from position_in_word [OF this] k
      show "part ! k = map (\<lambda>i. pattern_byte pattern (off + of_nat i)) [index..<index + m] ! k"
        by (simp add: part_def fill_word_eq flip: m_def)
          (simp add: pattern_byte_def w_def p_def add.assoc)
    qed
    then have l: "length part = m" by simp
    have "fill_from n off pattern (index + length part) =
        map (\<lambda>i. pattern_byte pattern (off + of_nat i)) [index + m..<n]"
      using 1 [OF True p_def w_def part_def] by (simp add: l)
    moreover have "[index..<n] = [index..<index + m] @ [index + m..<n]"
      using upt_add_eq_append [of index "index + m" "n - (index + m)"] True by (simp add: m_def)
    ultimately show ?thesis
      using True part by (subst fill_from.simps) (simp add: Let_def p_def w_def part_def)
  qed
qed

lemma FillPattern_eq: "FillPattern n off pattern = map (\<lambda>i. pattern_byte pattern (off + of_nat i)) [0..<n]"
  by (simp add: FillPattern_def fill_from_eq)

lemma length_FillPattern [simp]: "length (FillPattern n off pattern) = n"
  by (simp add: FillPattern_eq)

section \<open>Two addresses never share their pattern\<close>

lemma xor_shift_inj:
  fixes x y :: u64
  assumes "0 < k" "x XOR drop_bit k x = y XOR drop_bit k y"
  shows "x = y"
proof -
  define d where "d = x XOR y"
  have "d XOR drop_bit k d = (x XOR drop_bit k x) XOR (y XOR drop_bit k y)"
    unfolding d_def drop_bit_xor by (simp only: xor.assoc xor.left_commute)
  also have "\<dots> = 0" using assms(2) by simp
  finally have "d XOR drop_bit k d = 0" .
  then have "d XOR (d XOR drop_bit k d) = d" by simp
  then have "drop_bit k d = d" by (simp add: xor.assoc [symmetric])
  then have "unat d div 2 ^ k = unat d" by (metis unat_drop_bit_eq drop_bit_eq_div)
  moreover have "1 < (2 :: nat) ^ k" using assms(1) by (rule one_less_power [rotated]) simp
  ultimately have "unat d = 0" by (metis div_less_dividend gr0I less_irrefl)
  then have "d = 0" by (simp add: unat_eq_zero)
  then have "x XOR y = 0" by (simp add: d_def)
  then have "x XOR (x XOR y) = x" by simp
  then show ?thesis by (simp add: xor.assoc [symmetric])
qed

lemma mult_inj_by_inverse: "c * c' = 1 \<Longrightarrow> x * c = y * c \<Longrightarrow> x = (y :: u64)"
proof -
  assume c: "c * c' = 1" and e: "x * c = y * c"
  from e have "x * c * c' = y * c * c'" by (rule arg_cong)
  then show "x = y" by (simp only: mult.assoc c mult.right_neutral)
qed

lemma splitMix64_inj: "splitMix64 x = splitMix64 y \<Longrightarrow> x = y"
proof -
  have a: "(0xbf58476d1ce4e5b9 :: u64) * 10871156337175269513 = 1"
    and b: "(0x94d049bb133111eb :: u64) * 3573116690164977347 = 1" by simp_all
  assume "splitMix64 x = splitMix64 y"
  from xor_shift_inj [OF _ this [unfolded splitMix64_def Let_def]]
  show ?thesis by (auto dest!: mult_inj_by_inverse [OF a] mult_inj_by_inverse [OF b] xor_shift_inj [rotated])
qed

text \<open>The eight bytes of an aligned position are the little-endian word of the pattern.\<close>

lemma bytes_determine_word:
  fixes v w :: u64
  assumes "\<And>k. k < 8 \<Longrightarrow> (ucast (drop_bit (8 * k) v) :: byte) = ucast (drop_bit (8 * k) w)"
  shows "v = w"
proof (rule bit_word_eqI)
  fix n assume "n < LENGTH(64)"
  then have "n div 8 < 8" by simp
  from assms [OF this] have
    "bit (ucast (drop_bit (8 * (n div 8)) v) :: byte) (n mod 8) = bit (ucast (drop_bit (8 * (n div 8)) w) :: byte) (n mod 8)"
    by simp
  then show "bit v n = bit w n" by (simp add: bit_simps)
qed

lemma pattern_word_unique:
  assumes "p mod 8 = 0" "q mod 8 = 0"
    and "\<And>k. k < 8 \<Longrightarrow> pattern_byte pattern (p + of_nat k) = pattern_byte pattern (q + of_nat k)"
  shows "p = q"
proof -
  have "splitMix64 (pt_Seed pattern XOR p div 8) = splitMix64 (pt_Seed pattern XOR q div 8)"
  proof (rule bytes_determine_word)
    fix k :: nat assume k: "k < 8"
    from k assms(1,2) have a: "unat (p mod 8) + k < 8" "unat (q mod 8) + k < 8" by simp_all
    show "(ucast (drop_bit (8 * k) (splitMix64 (pt_Seed pattern XOR p div 8))) :: byte) =
        ucast (drop_bit (8 * k) (splitMix64 (pt_Seed pattern XOR q div 8)))"
      using assms(3) [OF k] assms(1,2)
      by (simp add: pattern_byte_def position_in_word [OF a(1)] position_in_word [OF a(2)])
  qed
  then have "pt_Seed pattern XOR p div 8 = pt_Seed pattern XOR q div 8" by (rule splitMix64_inj)
  then have "pt_Seed pattern XOR (pt_Seed pattern XOR p div 8) = pt_Seed pattern XOR (pt_Seed pattern XOR q div 8)"
    by (rule arg_cong)
  then have "p div 8 = q div 8" by (simp only: xor.assoc [symmetric] xor_self_eq xor.left_neutral)
  moreover have "p div 8 * 8 + p mod 8 = p" "q div 8 * 8 + q mod 8 = q" by (rule div_mult_mod_eq)+
  ultimately show ?thesis using assms(1,2) by simp
qed


text \<open>
  C31: the word-at-a-time pattern generator equals the byte-by-byte definition: the byte at a
  position depends on the position and the seed only. So a buffer filled in two parts, wherever
  it is cut and whatever its alignment, equals the buffer filled at once.
\<close>
theorem fill_pattern_reference:
  "FillPattern n off pattern = map (\<lambda>i. pattern_byte pattern (off + of_nat i)) [0..<n]
   \<and> FillPattern (n + m) off pattern = FillPattern n off pattern @ FillPattern m (off + of_nat n) pattern"
proof -
  have "map f [n..<n + m] = map (\<lambda>i. f (n + i)) [0..<m]" for f :: "nat \<Rightarrow> byte"
    by (rule nth_equalityI) simp_all
  then show ?thesis by (simp add: FillPattern_eq upt_add_eq_append [of 0 n m] add.assoc)
qed

end
