(* ===== verification/DevicePlan.thy ===== *)
theory DevicePlan
  imports DevicePattern
begin

text \<open>
  \<open>internal/devicequal/engine.go\<close>: the qualification plan. A full run covers the whole
  capacity in regions, a quick run samples at most 32 of them spread from the first to the last.
  Sentinel regions are verified first.
\<close>

section \<open>Data\<close>

record Region =
  rg_Index :: int
  rg_Offset :: u64
  rg_Length :: u64

record Plan =
  pl_Profile :: string
  pl_Capacity :: u64
  pl_RegionSize :: u64
  pl_Regions :: "Region list"
  pl_SentinelIndices :: "int list"
  pl_PlannedBytes :: u64

definition DefaultPatterns :: "string \<Rightarrow> Pattern list res" where
  "DefaultPatterns profile =
     (if profile = ''quick'' then
        Inr [\<lparr> pt_ID = ''address-a'', pt_Seed = 0x243f6a8885a308d3 \<rparr>,
             \<lparr> pt_ID = ''address-b'', pt_Seed = 0x13198a2e03707344 \<rparr>]
      else if profile = ''full'' then
        Inr [\<lparr> pt_ID = ''address-a'', pt_Seed = 0x243f6a8885a308d3 \<rparr>,
             \<lparr> pt_ID = ''address-b'', pt_Seed = 0x13198a2e03707344 \<rparr>,
             \<lparr> pt_ID = ''address-c'', pt_Seed = 0xa4093822299f31d0 \<rparr>,
             \<lparr> pt_ID = ''address-d'', pt_Seed = 0x082efa98ec4e6c89 \<rparr>]
      else Inl (Errorf ''unsupported qualification profile %q'' [FS profile]))"

section \<open>The plan\<close>

text \<open>Appending an index unless it equals the last one.\<close>

definition append_index :: "'a list \<Rightarrow> 'a \<Rightarrow> 'a list" where
  "append_index indices index = (if indices = [] \<or> last indices \<noteq> index then indices @ [index] else indices)"

definition sample_index :: "u64 \<Rightarrow> u64 \<Rightarrow> nat \<Rightarrow> u64" where
  "sample_index regions samples sample =
     (if 1 < samples then (regions - 1) * of_nat sample div (samples - 1) else 0)"

definition regionIndices :: "u64 \<Rightarrow> string \<Rightarrow> u64 list res" where
  "regionIndices regions profile =
     (if profile = ''quick'' then
        let samples = (if regions < 32 then regions else 32) in
        Inr (foldl append_index [] (map (sample_index regions samples) [0..<unat samples]))
      else if profile = ''full'' then Inr (map of_nat [0..<unat regions])
      else Inl (Errorf ''unsupported qualification profile %q'' [FS profile]))"

definition makeSentinelIndices :: "int \<Rightarrow> string \<Rightarrow> int list" where
  "makeSentinelIndices n profile =
     (if n = 0 then []
      else if profile = ''quick'' then map int [0..<nat n]
      else foldl append_index []
             [0, (n - 1) div 4, (n - 1) div 2, 3 * (n - 1) div 4, n - 1])"

text \<open>The loop of \<open>BuildPlan\<close> over the selected indices, with the regions and bytes so far.\<close>

fun plan_regions :: "u64 \<Rightarrow> u64 \<Rightarrow> u64 list \<Rightarrow> Region list \<Rightarrow> u64 \<Rightarrow> (Region list \<times> u64) res" where
  "plan_regions capacity regionSize [] regions planned = Inr (regions, planned)"
| "plan_regions capacity regionSize (sourceIndex # indices) regions planned =
     (let offset = sourceIndex * regionSize;
          remaining = capacity - offset;
          len = (if remaining < regionSize then remaining else regionSize) in
      if NOT 0 - len < planned then Inl (Msg ''planned-byte total overflow'')
      else plan_regions capacity regionSize indices
             (regions @ [\<lparr> rg_Index = int (length regions), rg_Offset = offset, rg_Length = len \<rparr>])
             (planned + len))"

definition BuildPlan :: "u64 \<Rightarrow> u64 \<Rightarrow> string \<Rightarrow> Plan res" where
  "BuildPlan capacity regionSize0 profile =
     (if capacity = 0 then Inl (Msg ''capacity must be greater than zero'')
      else if 2 ^ 63 - 1 < capacity
      then Inl (Errorf ''capacity %d exceeds random-access offset limits'' [FN (unat capacity)])
      else
      let regionSize = (if regionSize0 = 0 then 4194304 else regionSize0) in
      if 2147483647 < regionSize
      then Inl (Errorf ''region size %d exceeds the bounded buffer contract'' [FN (unat regionSize)])
      else
      let totalRegions = capacity div regionSize;
          totalRegions = (if capacity mod regionSize \<noteq> 0 then totalRegions + 1 else totalRegions) in
      if totalRegions = 0 \<or> 1048576 < totalRegions
      then Inl (Errorf ''qualification plan requires %d regions; maximum is %d'' [FN (unat totalRegions), FN 1048576])
      else
      bindE (regionIndices totalRegions profile) (\<lambda>indices.
      bindE (plan_regions capacity regionSize indices [] 0) (\<lambda>(regions, planned).
      Inr \<lparr> pl_Profile = profile, pl_Capacity = capacity, pl_RegionSize = regionSize, pl_Regions = regions,
            pl_SentinelIndices = makeSentinelIndices (int (length regions)) profile,
            pl_PlannedBytes = planned \<rparr>)))"

text \<open>Sentinels first, then every other region in order; \<open>seen\<close> is the set of regions taken.\<close>

fun order_sentinels :: "int \<Rightarrow> int list \<Rightarrow> int list \<Rightarrow> int list" where
  "order_sentinels regionCount [] order = order"
| "order_sentinels regionCount (index # sentinels) order =
     (if 0 \<le> index \<and> index < regionCount \<and> index \<notin> set order
      then order_sentinels regionCount sentinels (order @ [index])
      else order_sentinels regionCount sentinels order)"

definition verificationOrder :: "int \<Rightarrow> int list \<Rightarrow> int list" where
  "verificationOrder regionCount sentinels =
     (let order = order_sentinels regionCount sentinels [] in
      order @ filter (\<lambda>index. index \<notin> set order) (map int [0..<nat regionCount]))"

section \<open>Index lists\<close>

lemma remdups_adj_snoc: "remdups_adj (xs @ [x]) = append_index (remdups_adj xs) x"
proof (induction xs rule: remdups_adj.induct)
  case (3 a b xs)
  have "remdups_adj (b # xs) \<noteq> []" by simp
  with 3 show ?case by (cases "a = b") (auto simp: append_index_def)
qed (simp_all add: append_index_def)

lemma append_index_all: "foldl append_index [] xs = remdups_adj xs"
  by (induction xs rule: rev_induct) (simp_all add: remdups_adj_snoc)

lemma set_append_index: "set (foldl append_index [] xs) = set xs"
  by (simp add: append_index_all)

lemma sorted_remdups_adj_strict: "sorted xs \<Longrightarrow> sorted_wrt (<) (remdups_adj (xs :: 'a::linorder list))"
  by (induction xs rule: remdups_adj.induct) (auto simp: less_le)

lemma remdups_adj_strict: "sorted_wrt (<) xs \<Longrightarrow> remdups_adj (xs :: 'a::linorder list) = xs"
  by (induction xs rule: remdups_adj.induct) auto


text \<open>The positions of a plan in numbers: the regions needed, and where each begins and ends.\<close>

definition regions_needed :: "nat \<Rightarrow> nat \<Rightarrow> nat" where
  "regions_needed capacity regionSize = (capacity + regionSize - 1) div regionSize"

lemma regions_needed_split:
  "0 < r \<Longrightarrow> regions_needed c r = (if c mod r \<noteq> 0 then c div r + 1 else c div r)"
proof -
  assume r: "0 < r"
  define q m where "q = c div r" and "m = c mod r"
  have c: "c = m + q * r" and m: "m < r" using r by (auto simp: q_def m_def)
  show ?thesis
  proof (cases "m = 0")
    case True
    then have "c + r - 1 = (r - 1) + q * r" using r c by simp
    then have "regions_needed c r = (r - 1) div r + q"
      unfolding regions_needed_def using r by (metis div_mult_self1 less_numeral_extra(3) add.commute)
    then have "regions_needed c r = q" using r by simp
    then show ?thesis using True by (simp add: q_def m_def)
  next
    case False
    then have "c + r - 1 = (m - 1) + (q + 1) * r" using r c by simp
    then have "regions_needed c r = (m - 1) div r + (q + 1)"
      unfolding regions_needed_def using r by (metis div_mult_self1 less_numeral_extra(3) add.commute)
    then have "regions_needed c r = q + 1" using m by simp
    then show ?thesis using False by (simp add: q_def m_def)
  qed
qed

lemma region_inside: "0 < r \<Longrightarrow> 0 < c \<Longrightarrow> k < regions_needed c r \<Longrightarrow> k * r < c"
proof -
  assume r: "0 < r" and c: "0 < c" and k: "k < regions_needed c r"
  then have "(k + 1) * r \<le> regions_needed c r * r" by (intro mult_right_mono) simp_all
  also have "\<dots> \<le> c + r - 1" by (simp add: regions_needed_def)
  finally show ?thesis using r c by simp
qed

lemma regions_reach: "0 < r \<Longrightarrow> c \<le> regions_needed c r * r"
proof -
  assume r: "0 < r"
  have "c + r - 1 < (regions_needed c r + 1) * r"
    unfolding regions_needed_def using r by (metis Suc_eq_plus1 dividend_less_times_div mult.commute mult_Suc_right add.commute)
  then show ?thesis using r by simp
qed

lemma samples_strict:
  fixes t n s s' :: nat
  assumes "1 < n" "n \<le> t" "s < s'" "s' < n"
  shows "(t - 1) * s div (n - 1) < (t - 1) * s' div (n - 1)"
proof -
  have "(t - 1) * s + (n - 1) \<le> (t - 1) * s + (t - 1)" using assms(2) by simp
  also have "\<dots> = (t - 1) * (s + 1)" by simp
  also have "\<dots> \<le> (t - 1) * s'" using assms(3) by (intro mult_left_mono) simp_all
  finally have "((t - 1) * s + (n - 1)) div (n - 1) \<le> (t - 1) * s' div (n - 1)" by (rule div_le_mono)
  moreover have "((t - 1) * s + (n - 1)) div (n - 1) = (t - 1) * s div (n - 1) + 1"
    using assms(1) by (intro div_add_self2) simp
  ultimately show ?thesis by simp
qed

text \<open>What the code relies on of the selected indices.\<close>

definition selection :: "nat \<Rightarrow> u64 list \<Rightarrow> bool" where
  "selection t indices \<longleftrightarrow> indices \<noteq> [] \<and> sorted_wrt (<) indices \<and> unat (hd indices) = 0
     \<and> unat (last indices) = t - 1 \<and> (\<forall>i \<in> set indices. unat i < t)"

lemma sample_index_value:
  assumes "n = min t 32" "0 < t" "t \<le> 1048576" "s < n"
  shows "unat (sample_index (of_nat t) (of_nat n) s) = (if 1 < n then (t - 1) * s div (n - 1) else 0)"
proof (cases "1 < n")
  case False
  then have "n = 1" using assms by auto
  then show ?thesis by (simp add: sample_index_def)
next
  case True
  have n: "n < 2 ^ 64" "t < 2 ^ 64" "s < 2 ^ 64" using assms by auto
  have "(1 :: u64) < of_nat n" using True n by (simp add: word_less_unat unat_of_nat_64)
  moreover have "(t - 1) * s \<le> 1048576 * 32" using assms by (intro mult_mono) auto
  moreover have "unat (of_nat t - 1 :: u64) = t - 1" "unat (of_nat n - 1 :: u64) = n - 1"
    using True assms n by (simp_all add: unat_minus_64 word_le_unat unat_of_nat_64)
  ultimately show ?thesis
    using True n by (simp add: sample_index_def unat_div unat_mult_64 unat_of_nat_64)
qed

lemma quick_selection:
  assumes "0 < t" "t \<le> 1048576" "n = min t 32"
  shows "selection t (map (sample_index (of_nat t) (of_nat n)) [0..<n])" (is "selection t ?xs")
proof -
  note v = sample_index_value [OF assms(3,1,2)]
  have n: "0 < n" "n \<le> t" using assms by auto
  have "sorted_wrt (<) ?xs"
    using samples_strict [OF _ n(2)] by (auto simp: sorted_wrt_iff_nth_less word_less_unat v)
  moreover have "unat (sample_index (of_nat t) (of_nat n) s) \<le> t - 1" if "s < n" for s
  proof (cases "1 < n")
    case True
    have "(t - 1) * s div (n - 1) \<le> (t - 1) * (n - 1) div (n - 1)"
      using that by (intro div_le_mono mult_left_mono) auto
    also have "\<dots> = t - 1" using True by simp
    finally show ?thesis using True that by (simp add: v)
  qed (use that in \<open>simp add: v\<close>)
  moreover have "unat (last ?xs) = t - 1"
  proof -
    have "unat (last ?xs) = unat (sample_index (of_nat t) (of_nat n) (n - 1))" using n by (simp add: last_map)
    also have "\<dots> = t - 1" using v [of "n - 1"] n assms by (auto simp: min_def split: if_splits)
    finally show ?thesis .
  qed
  moreover have "unat (hd ?xs) = 0" using n by (simp add: hd_map v)
  moreover have "?xs \<noteq> []" using n by simp
  ultimately show ?thesis unfolding selection_def using assms(1) by (fastforce intro: le_less_trans)
qed

lemma full_selection:
  assumes "0 < t" "t \<le> 1048576"
  shows "selection t (map of_nat [0..<t])"
proof -
  have "unat (of_nat i :: u64) = i" if "i < t" for i using that assms by (simp add: unat_of_nat_64)
  moreover have "unat (of_nat t - 1 :: u64) = t - 1"
    using assms by (simp add: unat_minus_64 word_le_unat unat_of_nat_64)
  moreover have "[0..<t] \<noteq> []" using assms by simp
  ultimately show ?thesis using assms
    by (auto simp: selection_def sorted_wrt_iff_nth_less word_less_unat hd_map last_map simp del: upt_eq_Nil_conv)
qed

lemma regionIndices_selection:
  assumes "0 < t" "t \<le> 1048576" "regionIndices (of_nat t) profile = Inr indices"
  shows "selection t indices" and "profile = ''full'' \<Longrightarrow> indices = map of_nat [0..<t]"
    and "profile = ''quick'' \<or> profile = ''full''"
proof -
  have t: "unat (of_nat t :: u64) = t" using assms by (simp add: unat_of_nat_64)
  have m: "(if of_nat t < (32 :: u64) then of_nat t else 32) = (of_nat (min t 32) :: u64)"
    using t by (simp add: word_less_unat)
  have q: "selection t (foldl append_index [] (map (sample_index (of_nat t) (of_nat (min t 32))) [0..<min t 32]))"
    using quick_selection [OF assms(1,2) refl]
    by (simp add: append_index_all remdups_adj_strict selection_def)
  show "selection t indices" "profile = ''full'' \<Longrightarrow> indices = map of_nat [0..<t]"
    "profile = ''quick'' \<or> profile = ''full''"
    using assms(3) q full_selection [OF assms(1,2)]
    by (auto simp: regionIndices_def m t Let_def unat_of_nat_64 split: if_splits)
qed


section \<open>The regions of a plan\<close>

definition region_at :: "u64 \<Rightarrow> u64 \<Rightarrow> nat \<Rightarrow> u64 \<Rightarrow> Region" where
  "region_at capacity regionSize i k =
     \<lparr> rg_Index = int i, rg_Offset = k * regionSize,
       rg_Length = (if capacity - k * regionSize < regionSize then capacity - k * regionSize else regionSize) \<rparr>"

definition region_end :: "Region \<Rightarrow> nat" where
  "region_end g = unat (rg_Offset g) + unat (rg_Length g)"

text \<open>Regions in order of their offsets, without overlap, none empty, all below the capacity.\<close>

definition well_placed :: "nat \<Rightarrow> Region list \<Rightarrow> bool" where
  "well_placed capacity regions \<longleftrightarrow>
     sorted_wrt (\<lambda>a b. region_end a \<le> unat (rg_Offset b)) regions
     \<and> (\<forall>g \<in> set regions. 0 < rg_Length g \<and> region_end g \<le> capacity)"

definition planned_bytes :: "Region list \<Rightarrow> nat" where
  "planned_bytes regions = sum_list (map (\<lambda>g. unat (rg_Length g)) regions)"

lemma region_at_values:
  assumes "unat k * unat r < unat c" "0 < r"
  shows "unat (rg_Offset (region_at c r i k)) = unat k * unat r"
    and "unat (rg_Length (region_at c r i k)) = min (unat r) (unat c - unat k * unat r)"
proof -
  have o: "unat (k * r) = unat k * unat r"
    using assms(1) unat_lt_64 [of c] by (intro unat_mult_64) simp
  then have "unat (c - k * r) = unat c - unat k * unat r"
    using assms(1) by (simp add: unat_minus_64 word_le_unat)
  then show "unat (rg_Offset (region_at c r i k)) = unat k * unat r"
    "unat (rg_Length (region_at c r i k)) = min (unat r) (unat c - unat k * unat r)"
    by (auto simp: region_at_def o word_less_unat min_def)
qed

lemma region_at_end:
  assumes "unat k * unat r < unat c" "0 < r"
  shows "region_end (region_at c r i k) = min ((unat k + 1) * unat r) (unat c)"
  using assms(1) unfolding region_end_def region_at_values [OF assms] by (simp add: min_def) linarith

lemma region_at_pos:
  assumes "unat k * unat r < unat c" "0 < r"
  shows "0 < rg_Length (region_at c r i k)"
  using assms by (simp add: word_less_unat region_at_values [OF assms])

lemma not_zero_minus: "unat (NOT 0 - x :: u64) = 2 ^ 64 - 1 - unat x"
proof -
  have "NOT 0 - x = - 1 - (x :: u64)" by simp
  moreover have "unat (- 1 - x) = unat (- 1 :: u64) - unat x" by (rule unat_minus_64) simp
  moreover have "unat (- 1 :: u64) = 2 ^ 64 - 1" by (simp add: unsigned_minus_1_eq_mask mask_eq_exp_minus_1)
  ultimately show ?thesis by simp
qed

lemma plan_regions_eq:
  assumes "0 < r" "unat c < 2 ^ 63" "sorted_wrt (<) ks" "\<forall>k \<in> set ks. unat k * unat r < unat c"
    and "\<forall>k \<in> set ks. unat planned \<le> unat k * unat r"
  shows "\<exists>planned'. plan_regions c r ks gs planned =
      Inr (gs @ map2 (region_at c r) [length gs..<length gs + length ks] ks, planned')
    \<and> unat planned' = unat planned + planned_bytes (map2 (region_at c r) [length gs..<length gs + length ks] ks)"
  using assms(3-5)
proof (induction ks arbitrary: gs planned)
  case Nil
  then show ?case by (simp add: planned_bytes_def)
next
  case (Cons k ks)
  let ?g = "region_at c r (length gs) k"
  have k: "unat k * unat r < unat c" using Cons.prems by simp
  note v = region_at_values [OF k assms(1)]
  have p: "unat planned \<le> unat k * unat r" using Cons.prems by simp
  have e: "unat planned + unat (rg_Length ?g) \<le> (unat k + 1) * unat r"
    "unat planned + unat (rg_Length ?g) \<le> unat c"
    using p k by (auto simp: v)
  have s: "unat (planned + rg_Length ?g) = unat planned + unat (rg_Length ?g)"
    using e(2) assms(2) by (intro unat_plus_64) simp
  have n: "\<not> NOT 0 - rg_Length ?g < planned"
    using e(2) assms(2) by (simp add: word_less_unat not_zero_minus del: bit.compl_zero)
  have "\<forall>j \<in> set ks. unat (planned + rg_Length ?g) \<le> unat j * unat r"
  proof
    fix j assume "j \<in> set ks"
    then have "unat k + 1 \<le> unat j" using Cons.prems(1) by (simp add: word_less_unat Suc_le_eq)
    then have "(unat k + 1) * unat r \<le> unat j * unat r" by (rule mult_right_mono) simp
    with e(1) show "unat (planned + rg_Length ?g) \<le> unat j * unat r" by (simp add: s)
  qed
  with Cons.IH [of "planned + rg_Length ?g" "gs @ [?g]"] Cons.prems
  obtain planned' where *: "plan_regions c r ks (gs @ [?g]) (planned + rg_Length ?g) =
      Inr ((gs @ [?g]) @ map2 (region_at c r) [Suc (length gs)..<Suc (length gs) + length ks] ks, planned')"
    "unat planned' = unat (planned + rg_Length ?g)
       + planned_bytes (map2 (region_at c r) [Suc (length gs)..<Suc (length gs) + length ks] ks)"
    by auto
  have u: "[length gs..<length gs + length (k # ks)] = length gs # [Suc (length gs)..<Suc (length gs) + length ks]"
    by (simp add: upt_rec)
  have "plan_regions c r (k # ks) gs planned = plan_regions c r ks (gs @ [?g]) (planned + rg_Length ?g)"
    using n by (simp add: region_at_def Let_def)
  with * show ?case unfolding u by (simp add: s planned_bytes_def)
qed


text \<open>Selected indices give well placed regions from the first byte to the last.\<close>

abbreviation selected_regions :: "u64 \<Rightarrow> u64 \<Rightarrow> u64 list \<Rightarrow> Region list" where
  "selected_regions c r ks \<equiv> map2 (region_at c r) [0..<length ks] ks"

lemma selected_regions_placed:
  assumes "0 < r" "sorted_wrt (<) ks" "\<forall>k \<in> set ks. unat k * unat r < unat c"
  shows "well_placed (unat c) (selected_regions c r ks)"
proof -
  have i: "unat (ks ! i) * unat r < unat c" if "i < length ks" for i using assms(3) that by simp
  have "region_end (region_at c r i (ks ! i)) \<le> unat (rg_Offset (region_at c r j (ks ! j)))"
    if "i < j" "j < length ks" for i j
  proof -
    have "unat (ks ! i) < unat (ks ! j)"
      using assms(2) that by (simp add: sorted_wrt_iff_nth_less word_less_unat)
    then have "(unat (ks ! i) + 1) * unat r \<le> unat (ks ! j) * unat r" by (intro mult_right_mono) simp_all
    then show ?thesis
      using that by (simp add: region_at_end [OF i assms(1)] region_at_values [OF i assms(1)])
  qed
  then show ?thesis
    unfolding well_placed_def
    by (auto simp: sorted_wrt_iff_nth_less set_conv_nth region_at_end [OF i assms(1)] region_at_pos [OF i assms(1)])
qed

definition valid_request :: "nat \<Rightarrow> nat \<Rightarrow> string \<Rightarrow> bool" where
  "valid_request capacity regionSize profile \<longleftrightarrow>
     0 < capacity \<and> capacity < 2 ^ 63 \<and> 0 < regionSize \<and> regionSize < 2 ^ 31
     \<and> regions_needed capacity regionSize \<le> 1048576 \<and> (profile = ''quick'' \<or> profile = ''full'')"

definition effective_region_size :: "u64 \<Rightarrow> u64" where
  "effective_region_size r = (if r = 0 then 4194304 else r)"

lemma total_regions_value:
  assumes "0 < (r :: u64)" "unat c < 2 ^ 63"
  shows "(if c mod r \<noteq> 0 then c div r + 1 else c div r) = of_nat (regions_needed (unat c) (unat r))"
    and "regions_needed (unat c) (unat r) < 2 ^ 64"
proof -
  have r: "0 < unat r" using assms(1) by (simp add: word_less_unat)
  define q where "q = unat c div unat r"
  have "q \<le> unat c" unfolding q_def by (rule div_le_dividend)
  then show b: "regions_needed (unat c) (unat r) < 2 ^ 64"
    using assms(2) unfolding regions_needed_split [OF r] q_def [symmetric] by simp
  have "c div r = of_nat q" unfolding q_def unat_div [symmetric] by simp
  moreover have "c mod r \<noteq> 0 \<longleftrightarrow> unat c mod unat r \<noteq> 0" by (simp add: word_eq_unat [of "c mod r"] unat_mod)
  ultimately show "(if c mod r \<noteq> 0 then c div r + 1 else c div r) = of_nat (regions_needed (unat c) (unat r))"
    unfolding regions_needed_split [OF r] q_def [symmetric] by simp
qed

lemma BuildPlan_eq:
  assumes "BuildPlan c r0 profile = Inr pl"
  defines "r \<equiv> effective_region_size r0"
  shows "valid_request (unat c) (unat r) profile"
    and "\<exists>ks. selection (regions_needed (unat c) (unat r)) ks
      \<and> (profile = ''full'' \<longrightarrow> ks = map of_nat [0..<regions_needed (unat c) (unat r)])
      \<and> pl_Regions pl = selected_regions c r ks"
    and "pl_Profile pl = profile" "pl_Capacity pl = c" "pl_RegionSize pl = r"
    and "unat (pl_PlannedBytes pl) = planned_bytes (pl_Regions pl)"
    and "pl_SentinelIndices pl = makeSentinelIndices (int (length (pl_Regions pl))) profile"
proof -
  let ?t = "regions_needed (unat c) (unat r)"
  have c: "0 < unat c" "unat c < 2 ^ 63" and r: "0 < r" "unat r < 2 ^ 31"
    using assms(1) unfolding r_def effective_region_size_def BuildPlan_def
    by (auto simp: word_less_unat word_eq_unat Let_def not_less split: if_splits)
  note t = total_regions_value [OF r(1) c(2)]
  have r': "0 < unat r" using r(1) by (simp add: word_less_unat)
  have "BuildPlan c r0 profile =
     (let totalRegions = of_nat ?t in
      if totalRegions = 0 \<or> 1048576 < totalRegions
      then Inl (Errorf ''qualification plan requires %d regions; maximum is %d'' [FN (unat totalRegions), FN 1048576])
      else
      bindE (regionIndices totalRegions profile) (\<lambda>indices.
      bindE (plan_regions c r indices [] 0) (\<lambda>(regions, planned).
      Inr \<lparr> pl_Profile = profile, pl_Capacity = c, pl_RegionSize = r, pl_Regions = regions,
            pl_SentinelIndices = makeSentinelIndices (int (length regions)) profile,
            pl_PlannedBytes = planned \<rparr>)))"
  proof -
    have "c \<noteq> 0" "\<not> 2 ^ 63 - 1 < c" using c by (auto simp: word_less_unat)
    moreover have "\<not> 2147483647 < r" using r by (simp add: word_less_unat)
    ultimately show ?thesis
      unfolding BuildPlan_def effective_region_size_def [symmetric] r_def [symmetric]
      by (simp only: Let_def if_False t(1))
  qed
  with assms(1) obtain ks regions planned where
    n: "of_nat ?t \<noteq> (0 :: u64)" "\<not> 1048576 < (of_nat ?t :: u64)"
    and ks: "regionIndices (of_nat ?t) profile = Inr ks"
    and regions: "plan_regions c r ks [] 0 = Inr (regions, planned)"
    and pl: "pl = \<lparr> pl_Profile = profile, pl_Capacity = c, pl_RegionSize = r, pl_Regions = regions,
            pl_SentinelIndices = makeSentinelIndices (int (length regions)) profile,
            pl_PlannedBytes = planned \<rparr>"
    by (auto simp: Let_def result_simps split: if_splits)
  have t': "0 < ?t" "?t \<le> 1048576"
    using n t(2) by (auto simp: word_less_unat unat_of_nat_64 word_eq_unat)
  note sel = regionIndices_selection [OF t' ks]
  have k: "\<forall>k \<in> set ks. unat k * unat r < unat c"
    using sel(1) region_inside [OF r' c(1)] by (simp add: selection_def)
  from plan_regions_eq [OF r(1) c(2) _ k, of 0 "[]"] sel(1) regions
  have reg: "regions = selected_regions c r ks" "unat planned = planned_bytes regions"
    by (auto simp: selection_def)
  show "valid_request (unat c) (unat r) profile"
    using c r r' t' sel(3) by (simp add: valid_request_def)
  show "\<exists>ks. selection ?t ks \<and> (profile = ''full'' \<longrightarrow> ks = map of_nat [0..<?t])
      \<and> pl_Regions pl = selected_regions c r ks"
    using sel reg pl by auto
  show "pl_Profile pl = profile" "pl_Capacity pl = c" "pl_RegionSize pl = r"
    "unat (pl_PlannedBytes pl) = planned_bytes (pl_Regions pl)"
    "pl_SentinelIndices pl = makeSentinelIndices (int (length (pl_Regions pl))) profile"
    using reg by (simp_all add: pl)
qed


text \<open>A request that meets the limits is planned.\<close>

lemma BuildPlan_accepts:
  assumes "valid_request (unat c) (unat (effective_region_size r0)) profile"
  shows "\<exists>pl. BuildPlan c r0 profile = Inr pl"
proof -
  define r where "r = effective_region_size r0"
  let ?t = "regions_needed (unat c) (unat r)"
  have c: "0 < unat c" "unat c < 2 ^ 63" and r': "0 < unat r" and r: "0 < r" "unat r < 2 ^ 31"
    and t': "?t \<le> 1048576" and p: "profile = ''quick'' \<or> profile = ''full''"
    using assms by (auto simp: valid_request_def r_def word_less_unat)
  note t = total_regions_value [OF r(1) c(2)]
  have t0: "0 < ?t" using regions_reach [OF r', of "unat c"] c(1) by (cases "?t") auto
  obtain ks where ks: "regionIndices (of_nat ?t) profile = Inr ks"
    using p by (auto simp: regionIndices_def Let_def)
  note sel = regionIndices_selection(1) [OF t0 t' ks]
  have k: "\<forall>k \<in> set ks. unat k * unat r < unat c"
    using sel region_inside [OF r' c(1)] by (simp add: selection_def)
  from plan_regions_eq [OF r(1) c(2) _ k, of 0 "[]"] sel obtain planned where
    regions: "plan_regions c r ks [] 0 = Inr (selected_regions c r ks, planned)"
    by (auto simp: selection_def)
  have "c \<noteq> 0" "\<not> 2 ^ 63 - 1 < c" using c by (auto simp: word_less_unat)
  moreover have "\<not> 2147483647 < r" using r by (simp add: word_less_unat)
  moreover have "of_nat ?t \<noteq> (0 :: u64)" "\<not> 1048576 < (of_nat ?t :: u64)"
    using t0 t' t(2) by (simp_all add: word_less_unat unat_of_nat_64 word_eq_unat)
  ultimately show ?thesis
    unfolding BuildPlan_def effective_region_size_def [symmetric] r_def [symmetric]
    by (simp only: Let_def if_False t(1) simp_thms ks bindE_Inr regions prod.case) blast
qed

lemma plan_regions_facts:
  assumes "BuildPlan c r0 profile = Inr pl"
  shows "pl_Regions pl \<noteq> []"
    and "well_placed (unat c) (pl_Regions pl)"
    and "\<And>i. i < length (pl_Regions pl) \<Longrightarrow> rg_Index (pl_Regions pl ! i) = int i"
    and "rg_Offset (hd (pl_Regions pl)) = 0"
    and "region_end (last (pl_Regions pl)) = unat c"
    and "\<And>g. g \<in> set (pl_Regions pl) \<Longrightarrow> unat (rg_Length g) \<le> unat (pl_RegionSize pl)"
proof -
  define r where "r = effective_region_size r0"
  note eq = BuildPlan_eq [OF assms, folded r_def]
  have c: "0 < unat c" and r': "0 < unat r" and r: "0 < r"
    using eq(1) by (auto simp: valid_request_def word_less_unat)
  from eq(2) obtain ks where sel: "selection (regions_needed (unat c) (unat r)) ks"
    and reg: "pl_Regions pl = selected_regions c r ks" by blast
  have k: "\<forall>k \<in> set ks. unat k * unat r < unat c"
    using sel region_inside [OF r' c] by (simp add: selection_def)
  have ne: "ks \<noteq> []" using sel by (simp add: selection_def)
  show "pl_Regions pl \<noteq> []" using ne by (simp add: reg)
  show "well_placed (unat c) (pl_Regions pl)"
    unfolding reg by (rule selected_regions_placed [OF r _ k]) (use sel in \<open>simp add: selection_def\<close>)
  show "rg_Index (pl_Regions pl ! i) = int i" if "i < length (pl_Regions pl)" for i
    using that by (simp add: reg region_at_def)
  have "hd (pl_Regions pl) = region_at c r 0 (hd ks)" using ne by (simp add: reg hd_map hd_zip upt_rec)
  then show "rg_Offset (hd (pl_Regions pl)) = 0"
    using sel by (simp add: selection_def region_at_def unat_eq_zero)
  have l: "last (pl_Regions pl) = region_at c r (length ks - 1) (last ks)"
    using ne by (simp add: reg last_map last_zip)
  have lk: "unat (last ks) * unat r < unat c" "unat (last ks) = regions_needed (unat c) (unat r) - 1"
    using k last_in_set [OF ne] sel by (blast, simp add: selection_def)
  have "0 < regions_needed (unat c) (unat r)" using regions_reach [OF r', of "unat c"] c
    by (cases "regions_needed (unat c) (unat r)") auto
  then have "(unat (last ks) + 1) * unat r = regions_needed (unat c) (unat r) * unat r" by (simp add: lk(2))
  then show "region_end (last (pl_Regions pl)) = unat c"
    using regions_reach [OF r', of "unat c"] by (simp add: l region_at_end [OF lk(1) r])
  show "unat (rg_Length g) \<le> unat (pl_RegionSize pl)" if "g \<in> set (pl_Regions pl)" for g
    using that k by (auto simp: reg eq(5) set_zip region_at_values [OF _ r])
qed

text \<open>A full plan covers every byte of the device, and only once.\<close>

definition covers :: "Region \<Rightarrow> nat \<Rightarrow> bool" where
  "covers g p \<longleftrightarrow> unat (rg_Offset g) \<le> p \<and> p < region_end g"

lemma well_placed_covers_once:
  assumes "well_placed c gs" "i < length gs" "j < length gs" "covers (gs ! i) p" "covers (gs ! j) p"
  shows "i = j"
  using assms by (cases i j rule: linorder_cases)
    (fastforce simp: well_placed_def covers_def sorted_wrt_iff_nth_less)+

lemma full_plan_covers:
  assumes "BuildPlan c r0 ''full'' = Inr pl" "p < unat c"
  shows "\<exists>i < length (pl_Regions pl). covers (pl_Regions pl ! i) p"
proof -
  define r where "r = effective_region_size r0"
  note eq = BuildPlan_eq [OF assms(1), folded r_def]
  have c: "0 < unat c" and r': "0 < unat r" and r: "0 < r" and t: "regions_needed (unat c) (unat r) \<le> 1048576"
    using eq(1) by (auto simp: valid_request_def word_less_unat)
  have reg: "pl_Regions pl = selected_regions c r (map of_nat [0..<regions_needed (unat c) (unat r)])"
    using eq(2) by auto
  define i where "i = p div unat r"
  have "p < regions_needed (unat c) (unat r) * unat r" using assms(2) regions_reach [OF r'] by (rule less_le_trans)
  then have i: "i < regions_needed (unat c) (unat r)" by (simp add: i_def less_mult_imp_div_less)
  then have u: "unat (of_nat i :: u64) = i" using t by (simp add: unat_of_nat_64)
  have k: "unat (of_nat i :: u64) * unat r < unat c" using region_inside [OF r' c i] by (simp add: u)
  have "i * unat r \<le> p" "p < (i + 1) * unat r"
    using r' by (simp_all add: i_def dividend_less_div_times)
  then have "covers (region_at c r i (of_nat i)) p"
    using assms(2) by (simp add: covers_def region_at_end [OF k r] region_at_values(1) [OF k r] u)
  with i show ?thesis by (intro exI [of _ i]) (simp add: reg)
qed


section \<open>Sentinels and the order of verification\<close>

lemma set_int_upt: "set (map int [0..<nat n]) = {0..<n}"
  by (auto simp: image_iff intro!: bexI [of _ "nat _"])

lemma makeSentinelIndices_sound:
  assumes "0 < n"
  shows "sorted_wrt (<) (makeSentinelIndices n profile)"
    and "set (makeSentinelIndices n profile) \<subseteq> {0..<n}"
    and "{0, n - 1} \<subseteq> set (makeSentinelIndices n profile)"
proof -
  have s: "sorted [0, (n - 1) div 4, (n - 1) div 2, 3 * (n - 1) div 4, n - 1]"
    using assms by (simp, intro conjI) linarith+
  have r: "set [0, (n - 1) div 4, (n - 1) div 2, 3 * (n - 1) div 4, n - 1] \<subseteq> {0..<n}"
    using assms by (simp, intro conjI) linarith+
  show "sorted_wrt (<) (makeSentinelIndices n profile)"
    using assms sorted_remdups_adj_strict [OF s]
    by (simp add: makeSentinelIndices_def append_index_all strict_sorted_iff distinct_map sorted_map
        del: foldl.simps remdups_adj.simps)
  show "set (makeSentinelIndices n profile) \<subseteq> {0..<n}" "{0, n - 1} \<subseteq> set (makeSentinelIndices n profile)"
    using assms r by (simp_all add: makeSentinelIndices_def set_append_index set_int_upt del: foldl.simps set_map)
qed

lemma order_sentinels_sound:
  assumes "distinct order" "set order \<subseteq> {0..<n}"
  shows "distinct (order_sentinels n ss order)" and "set (order_sentinels n ss order) \<subseteq> {0..<n}"
  using assms by (induction n ss order rule: order_sentinels.induct) auto

lemma order_sentinels_id:
  "distinct (order @ ss) \<Longrightarrow> set ss \<subseteq> {0..<n} \<Longrightarrow> order_sentinels n ss order = order @ ss"
  by (induction n ss order rule: order_sentinels.induct) auto

lemma verificationOrder_perm:
  "distinct (verificationOrder n ss)" "set (verificationOrder n ss) = {0..<n}"
proof -
  note s = order_sentinels_sound [of "[]" n ss, simplified]
  show "distinct (verificationOrder n ss)"
    using s by (auto simp: verificationOrder_def Let_def distinct_map)
  show "set (verificationOrder n ss) = {0..<n}"
    using s set_int_upt [of n] by (auto simp: verificationOrder_def Let_def)
qed

lemma verificationOrder_prefix:
  "distinct ss \<Longrightarrow> set ss \<subseteq> {0..<n} \<Longrightarrow> take (length ss) (verificationOrder n ss) = ss"
  by (simp add: verificationOrder_def order_sentinels_id)

section \<open>The properties of the plan\<close>

text \<open>
  An accepted qualification plan is made of regions in increasing order without overlap,
  none empty, none longer than the region size, the first at byte 0 and the last ending exactly
  at the capacity; the byte total is the sum of their lengths, the sentinels are regions of the
  plan in increasing order with the first and the last among them, and under the full profile
  every byte of the device lies in exactly one region.
\<close>
theorem device_plan_sound:
  assumes "BuildPlan capacity regionSize profile = Inr pl"
  shows "pl_Regions pl \<noteq> [] \<and> well_placed (unat capacity) (pl_Regions pl)
    \<and> rg_Offset (hd (pl_Regions pl)) = 0 \<and> region_end (last (pl_Regions pl)) = unat capacity
    \<and> list_all (\<lambda>g. unat (rg_Length g) \<le> unat (pl_RegionSize pl)) (pl_Regions pl)
    \<and> unat (pl_PlannedBytes pl) = planned_bytes (pl_Regions pl)
    \<and> sorted_wrt (<) (pl_SentinelIndices pl)
    \<and> set (pl_SentinelIndices pl) \<subseteq> {0..<int (length (pl_Regions pl))}
    \<and> {0, int (length (pl_Regions pl)) - 1} \<subseteq> set (pl_SentinelIndices pl)
    \<and> (profile = ''full'' \<longrightarrow>
         (\<forall>p < unat capacity. \<exists>!i. i < length (pl_Regions pl) \<and> covers (pl_Regions pl ! i) p))"
proof -
  note f = plan_regions_facts [OF assms] and e = BuildPlan_eq [OF assms]
  have "profile = ''full'' \<longrightarrow>
         (\<forall>p < unat capacity. \<exists>!i. i < length (pl_Regions pl) \<and> covers (pl_Regions pl ! i) p)"
    using full_plan_covers assms well_placed_covers_once [OF f(2)] by blast
  moreover have "0 < int (length (pl_Regions pl))" using f(1) by simp
  ultimately show ?thesis
    using f e(6,7) makeSentinelIndices_sound by (simp add: list_all_iff)
qed

end
