(* ===== verification/DeviceQual.thy ===== *)
theory DeviceQual
  imports DevicePlan Sha256
begin

text \<open>
  \<open>internal/devicequal/engine.go\<close>: the qualification engine. Each pass writes its pattern to
  every planned region, flushes the device, and reads every region back against the pattern and
  its digest. The loops are modelled as written, with a value only if they end; that they do is
  a theorem.
\<close>

section \<open>Data\<close>

text \<open>
  A message is kept as the error or the format with the arguments it is the text of. Times are
  nanoseconds. \<open>'w\<close> is the state of the outside world: the device, the clock and whoever
  watches the progress.
\<close>

record Progress =
  pg_Stage :: string
  pg_Pass :: nat
  pg_Pattern :: string
  pg_Done :: u64
  pg_Total :: u64
  pg_Offset :: u64

record Failure =
  fl_Kind :: string
  fl_Pass :: nat
  fl_Pattern :: string
  fl_RegionIndex :: int
  fl_RegionOffset :: u64
  fl_ByteOffset :: u64
  fl_ExpectedSHA256 :: string
  fl_ActualSHA256 :: string
  fl_AliasedWithOffset :: "u64 option"
  fl_Message :: go_error

record PassReport =
  ps_Number :: nat
  ps_Pattern :: string
  ps_WrittenBytes :: u64
  ps_VerifiedBytes :: u64
  ps_DurationMillis :: int
  ps_BytesPerSecond :: u64
  ps_Failure :: "Failure option"

record Report =
  rp_Schema :: nat
  rp_Profile :: string
  rp_Capacity :: u64
  rp_RegionSize :: u64
  rp_RegionCount :: nat
  rp_SentinelCount :: nat
  rp_PatternCount :: nat
  rp_PlannedBytes :: u64
  rp_CompletedBytes :: u64
  rp_Status :: string
  rp_AliasingDetected :: bool
  rp_Passes :: "PassReport list"
  rp_Failure :: "Failure option"

record 'w Backend =
  bk_ReadAt :: "'w read_at"
  bk_WriteAt :: "'w write_at"
  bk_Sync :: "'w poll"

record 'w Config =
  cf_Profile :: string
  cf_RegionSize :: u64
  cf_BufferSize :: int
  cf_Patterns :: "Pattern list"
  cf_Progress :: "(Progress \<Rightarrow> 'w \<Rightarrow> 'w) option"
  cf_Now :: "('w \<Rightarrow> int \<times> 'w) option"

text \<open>
  What the engine takes from outside: the cancellation state of its context, \<open>time.Now\<close>, and
  the quotient of a byte total and a duration in nanoseconds, which the code takes in floating
  point.
\<close>

record 'w surroundings =
  sr_ctx_err :: "'w poll"
  sr_time_Now :: "'w \<Rightarrow> int \<times> 'w"
  sr_rate :: "u64 \<Rightarrow> int \<Rightarrow> u64"

definition zero_report :: Report where
  "zero_report =
     \<lparr> rp_Schema = 0, rp_Profile = [], rp_Capacity = 0, rp_RegionSize = 0, rp_RegionCount = 0,
       rp_SentinelCount = 0, rp_PatternCount = 0, rp_PlannedBytes = 0, rp_CompletedBytes = 0,
       rp_Status = [], rp_AliasingDetected = False, rp_Passes = [], rp_Failure = None \<rparr>"

definition emit :: "(Progress \<Rightarrow> 'w \<Rightarrow> 'w) option \<Rightarrow> Progress \<Rightarrow> 'w \<Rightarrow> 'w" where
  "emit progress event w = (case progress of Some f \<Rightarrow> f event w | None \<Rightarrow> w)"

definition chunkSize :: "u64 \<Rightarrow> nat \<Rightarrow> nat" where
  "chunkSize remaining bufferSize = (if remaining < of_nat bufferSize then unat remaining else bufferSize)"

section \<open>Writing and verifying a region\<close>

text \<open>
  A loop that does not end has the value \<open>None\<close>; the pairs are the bytes transferred and the
  error, as the Go functions return them.
\<close>

partial_function (option) write_loop ::
  "'w surroundings \<Rightarrow> 'w Backend \<Rightarrow> Region \<Rightarrow> Pattern \<Rightarrow> nat \<Rightarrow> u64 \<Rightarrow> nat \<Rightarrow> u64
     \<Rightarrow> (Progress \<Rightarrow> 'w \<Rightarrow> 'w) option \<Rightarrow> u64 \<Rightarrow> 'w \<Rightarrow> ((u64 \<times> go_error option) \<times> 'w) option" where
  "write_loop sr backend region pattern buffer completedBefore pass planned progress written w =
     (if written < rg_Length region then
        (case sr_ctx_err sr w of
           (Some e, w1) \<Rightarrow> Some ((written, Some e), w1)
         | (None, w1) \<Rightarrow>
             (let chunk = chunkSize (rg_Length region - written) buffer;
                  absolute = rg_Offset region + written in
              case bk_WriteAt backend (FillPattern chunk absolute pattern) absolute w1 of
                ((n, err), w2) \<Rightarrow>
                  (let written = written + of_nat n in
                   case err of
                     Some e \<Rightarrow> Some ((written, Some e), w2)
                   | None \<Rightarrow>
                       if n \<noteq> chunk then Some ((written, Some ErrShortWrite), w2)
                       else write_loop sr backend region pattern buffer completedBefore pass planned progress written
                              (emit progress \<lparr> pg_Stage = ''write'', pg_Pass = pass, pg_Pattern = pt_ID pattern,
                                 pg_Done = completedBefore + written, pg_Total = planned,
                                 pg_Offset = absolute + of_nat n \<rparr> w2))))
      else Some ((written, None), w))"

definition writeRegion ::
  "'w surroundings \<Rightarrow> 'w Backend \<Rightarrow> Region \<Rightarrow> Pattern \<Rightarrow> nat \<Rightarrow> u64 \<Rightarrow> nat \<Rightarrow> u64
     \<Rightarrow> (Progress \<Rightarrow> 'w \<Rightarrow> 'w) option \<Rightarrow> 'w \<Rightarrow> ((u64 \<times> go_error option) \<times> 'w) option" where
  "writeRegion sr backend region pattern buffer completedBefore pass planned progress w =
     write_loop sr backend region pattern buffer completedBefore pass planned progress 0 w"

text \<open>The digest state is the list of bytes written to it so far.\<close>

partial_function (option) digest_loop :: "Region \<Rightarrow> Pattern \<Rightarrow> nat \<Rightarrow> u64 \<Rightarrow> bytes \<Rightarrow> bytes option" where
  "digest_loop region pattern buffer finished hasher =
     (if finished < rg_Length region then
        let chunk = chunkSize (rg_Length region - finished) buffer in
        digest_loop region pattern buffer (finished + of_nat chunk)
          (hasher @ FillPattern chunk (rg_Offset region + finished) pattern)
      else Some hasher)"

definition expectedDigest :: "Region \<Rightarrow> Pattern \<Rightarrow> nat \<Rightarrow> string option" where
  "expectedDigest region pattern buffer = map_option sha256_hex (digest_loop region pattern buffer 0 [])"

fun expectedDigests ::
  "Region list \<Rightarrow> Pattern \<Rightarrow> nat \<Rightarrow> (u64 \<rightharpoonup> string) \<Rightarrow> (string \<rightharpoonup> u64)
     \<Rightarrow> ((u64 \<rightharpoonup> string) \<times> (string \<rightharpoonup> u64)) option" where
  "expectedDigests [] pattern buffer byOffset owners = Some (byOffset, owners)"
| "expectedDigests (region # regions) pattern buffer byOffset owners =
     (case expectedDigest region pattern buffer of
        None \<Rightarrow> None
      | Some digest \<Rightarrow> expectedDigests regions pattern buffer
          (byOffset(rg_Offset region \<mapsto> digest)) (owners(digest \<mapsto> rg_Offset region)))"

text \<open>The index of the first byte that differs.\<close>

fun first_difference :: "bytes \<Rightarrow> bytes \<Rightarrow> nat option" where
  "first_difference (a # as) (e # es) = (if a \<noteq> e then Some 0 else map_option Suc (first_difference as es))"
| "first_difference as es = None"

text \<open>Reaching the end of the file is judged by the number of bytes read.\<close>

definition fatal_read_error :: "go_error option \<Rightarrow> go_error option" where
  "fatal_read_error readErr =
     (case readErr of Some e \<Rightarrow> if errors_is e EOF then None else Some e | None \<Rightarrow> None)"

partial_function (option) verify_loop ::
  "'w surroundings \<Rightarrow> 'w Backend \<Rightarrow> Region \<Rightarrow> Pattern \<Rightarrow> nat \<Rightarrow> u64 \<Rightarrow> nat \<Rightarrow> u64
     \<Rightarrow> (Progress \<Rightarrow> 'w \<Rightarrow> 'w) option \<Rightarrow> u64 \<Rightarrow> bytes \<Rightarrow> u64 option \<Rightarrow> 'w
     \<Rightarrow> ((u64 \<times> (go_error + bytes \<times> u64 option)) \<times> 'w) option" where
  "verify_loop sr backend region pattern buffer completedBefore pass planned progress verified hasher firstMismatch w =
     (if verified < rg_Length region then
        (case sr_ctx_err sr w of
           (Some e, w1) \<Rightarrow> Some ((verified, Inl e), w1)
         | (None, w1) \<Rightarrow>
             (let chunk = chunkSize (rg_Length region - verified) buffer;
                  absolute = rg_Offset region + verified in
              case bk_ReadAt backend chunk absolute w1 of
                ((actual, readErr), w2) \<Rightarrow>
                  (let n = length actual; verified = verified + of_nat n in
                   case fatal_read_error readErr of
                     Some e \<Rightarrow> Some ((verified, Inl e), w2)
                   | None \<Rightarrow>
                   if n \<noteq> chunk then Some ((verified, Inl ErrUnexpectedEOF), w2)
                   else
                   let firstMismatch =
                         (case firstMismatch of Some m \<Rightarrow> Some m
                          | None \<Rightarrow> map_option (\<lambda>index. absolute + of_nat index)
                                     (first_difference actual (FillPattern chunk absolute pattern))) in
                   verify_loop sr backend region pattern buffer completedBefore pass planned progress verified
                     (hasher @ actual) firstMismatch
                     (emit progress \<lparr> pg_Stage = ''verify'', pg_Pass = pass, pg_Pattern = pt_ID pattern,
                        pg_Done = completedBefore + verified, pg_Total = planned,
                        pg_Offset = absolute + of_nat n \<rparr> w2))))
      else Some ((verified, Inr (hasher, firstMismatch)), w))"


definition verifyRegion ::
  "'w surroundings \<Rightarrow> 'w Backend \<Rightarrow> Region \<Rightarrow> Pattern \<Rightarrow> nat \<Rightarrow> string \<Rightarrow> (string \<rightharpoonup> u64) \<Rightarrow> u64 \<Rightarrow> nat \<Rightarrow> u64
     \<Rightarrow> (Progress \<Rightarrow> 'w \<Rightarrow> 'w) option \<Rightarrow> 'w \<Rightarrow> ((u64 \<times> Failure option \<times> go_error option) \<times> 'w) option" where
  "verifyRegion sr backend region pattern buffer expected owners completedBefore pass planned progress w =
     (case verify_loop sr backend region pattern buffer completedBefore pass planned progress 0 [] None w of
        None \<Rightarrow> None
      | Some ((verified, Inl e), w1) \<Rightarrow> Some ((verified, None, Some e), w1)
      | Some ((verified, Inr (hasher, firstMismatch)), w1) \<Rightarrow>
          (let actualDigest = sha256_hex hasher in
           if firstMismatch = None \<and> actualDigest = expected then Some ((verified, None, None), w1)
           else
           let failure =
             \<lparr> fl_Kind = ''mismatch'', fl_Pass = pass, fl_Pattern = pt_ID pattern,
               fl_RegionIndex = rg_Index region, fl_RegionOffset = rg_Offset region,
               fl_ByteOffset = (case firstMismatch of Some m \<Rightarrow> m | None \<Rightarrow> 0),
               fl_ExpectedSHA256 = expected, fl_ActualSHA256 = actualDigest, fl_AliasedWithOffset = None,
               fl_Message = Errorf ''verification mismatch in region at byte %d'' [FN (unat (rg_Offset region))] \<rparr>;
               failure =
             (case owners actualDigest of
                Some owner \<Rightarrow>
                  if owner \<noteq> rg_Offset region
                  then failure\<lparr> fl_Kind := ''alias'', fl_AliasedWithOffset := Some owner,
                         fl_Message := Errorf ''region at byte %d contains the address pattern for byte %d''
                           [FN (unat (rg_Offset region)), FN (unat owner)] \<rparr>
                  else failure
              | None \<Rightarrow> failure) in
           Some ((verified, Some failure, Some ErrVerification), w1)))"

section \<open>Reports\<close>

definition ioFailure :: "string \<Rightarrow> nat \<Rightarrow> string \<Rightarrow> Region \<Rightarrow> u64 \<Rightarrow> go_error \<Rightarrow> Failure" where
  "ioFailure kind pass pattern region byteOffset err =
     \<lparr> fl_Kind = kind, fl_Pass = pass, fl_Pattern = pattern, fl_RegionIndex = rg_Index region,
       fl_RegionOffset = rg_Offset region, fl_ByteOffset = byteOffset, fl_ExpectedSHA256 = [],
       fl_ActualSHA256 = [], fl_AliasedWithOffset = None, fl_Message = err \<rparr>"

text \<open>\<open>time.Time.Sub\<close> saturates at the limits of an \<open>int64\<close>.\<close>

definition time_sub :: "int \<Rightarrow> int \<Rightarrow> int" where
  "time_sub finished started = max (- (2 ^ 63)) (min (2 ^ 63 - 1) (finished - started))"

definition setTiming :: "'w surroundings \<Rightarrow> PassReport \<Rightarrow> int \<Rightarrow> int \<Rightarrow> PassReport" where
  "setTiming sr pass started finished =
     (let elapsed = time_sub finished started;
          elapsed = (if elapsed < 0 then 0 else elapsed);
          pass = pass\<lparr>ps_DurationMillis := elapsed div 1000000\<rparr> in
      if 0 < elapsed
      then pass\<lparr>ps_BytesPerSecond := sr_rate sr (ps_WrittenBytes pass + ps_VerifiedBytes pass) elapsed\<rparr>
      else pass)"

definition failReport ::
  "'w surroundings \<Rightarrow> Report \<Rightarrow> PassReport \<Rightarrow> Failure \<Rightarrow> int \<Rightarrow> int \<Rightarrow> Report \<times> go_error option" where
  "failReport sr report pass failure started finished =
     (let pass = setTiming sr (pass\<lparr>ps_Failure := Some failure\<rparr>) started finished in
      (report\<lparr> rp_Passes := rp_Passes report @ [pass], rp_Status := ''failed'', rp_Failure := Some failure,
         rp_AliasingDetected := (fl_Kind failure = ''alias'') \<rparr>, Some ErrVerification))"

definition cancelReport ::
  "'w surroundings \<Rightarrow> Report \<Rightarrow> PassReport \<Rightarrow> nat \<Rightarrow> string \<Rightarrow> int \<Rightarrow> int \<Rightarrow> go_error \<Rightarrow> Report \<times> go_error option" where
  "cancelReport sr report pass passNumber pattern started finished err =
     (let failure =
        \<lparr> fl_Kind = ''cancelled'', fl_Pass = passNumber, fl_Pattern = pattern, fl_RegionIndex = - 1,
          fl_RegionOffset = 0, fl_ByteOffset = 0, fl_ExpectedSHA256 = [], fl_ActualSHA256 = [],
          fl_AliasedWithOffset = None, fl_Message = err \<rparr>;
          pass = setTiming sr (pass\<lparr>ps_Failure := Some failure\<rparr>) started finished in
      (report\<lparr> rp_Passes := rp_Passes report @ [pass], rp_Status := ''cancelled'', rp_Failure := Some failure \<rparr>,
       Some err))"

section \<open>The run\<close>

text \<open>
  A step of \<open>Run\<close> does not end (\<open>None\<close>), returns from \<open>Run\<close> with a report and an error
  (\<open>Inl\<close>), or goes on with a value (\<open>Inr\<close>).
\<close>

type_synonym ('w, 'a) run = "'w \<Rightarrow> (((Report \<times> go_error option) + 'a) \<times> 'w) option"

definition next_run :: "('w, 'a) run \<Rightarrow> ('a \<Rightarrow> ('w, 'b) run) \<Rightarrow> ('w, 'b) run" where
  "next_run m f w =
     (case m w of
        None \<Rightarrow> None
      | Some (Inl r, w1) \<Rightarrow> Some (Inl r, w1)
      | Some (Inr x, w1) \<Rightarrow> f x w1)"

definition go_on :: "'a \<Rightarrow> ('w, 'a) run" where
  "go_on x w = Some (Inr x, w)"

text \<open>The variables of \<open>Run\<close> that stay fixed during the passes.\<close>

record 'w fixed_run =
  fr_sr :: "'w surroundings"
  fr_backend :: "'w Backend"
  fr_plan :: Plan
  fr_buffer :: nat
  fr_progress :: "(Progress \<Rightarrow> 'w \<Rightarrow> 'w) option"
  fr_now :: "'w \<Rightarrow> int \<times> 'w"

definition cancelled_error :: "go_error \<Rightarrow> bool" where
  "cancelled_error e \<longleftrightarrow> errors_is e Canceled \<or> errors_is e DeadlineExceeded"

definition stop_failed :: "'w fixed_run \<Rightarrow> Report \<Rightarrow> PassReport \<Rightarrow> Failure \<Rightarrow> int \<Rightarrow> ('w, 'a) run" where
  "stop_failed fr report pass failure started w =
     (case fr_now fr w of (finished, w1) \<Rightarrow>
        Some (Inl (failReport (fr_sr fr) report pass failure started finished), w1))"

definition stop_cancelled :: "'w fixed_run \<Rightarrow> Report \<Rightarrow> PassReport \<Rightarrow> int \<Rightarrow> go_error \<Rightarrow> ('w, 'a) run" where
  "stop_cancelled fr report pass started err w =
     (case fr_now fr w of (finished, w1) \<Rightarrow>
        Some (Inl (cancelReport (fr_sr fr) report pass (ps_Number pass) (ps_Pattern pass) started finished err), w1))"

fun write_regions ::
  "'w fixed_run \<Rightarrow> Pattern \<Rightarrow> int \<Rightarrow> Region list \<Rightarrow> Report \<times> PassReport \<Rightarrow> ('w, Report \<times> PassReport) run" where
  "write_regions fr pattern started [] st w = go_on st w"
| "write_regions fr pattern started (region # regions) (report, pass) w =
     (case writeRegion (fr_sr fr) (fr_backend fr) region pattern (fr_buffer fr) (ps_WrittenBytes pass)
             (ps_Number pass) (pl_PlannedBytes (fr_plan fr)) (fr_progress fr) w of
        None \<Rightarrow> None
      | Some ((written, writeErr), w1) \<Rightarrow>
          (let pass = pass\<lparr>ps_WrittenBytes := ps_WrittenBytes pass + written\<rparr>;
               report = report\<lparr>rp_CompletedBytes := rp_CompletedBytes report + written\<rparr> in
           case writeErr of
             None \<Rightarrow> write_regions fr pattern started regions (report, pass) w1
           | Some e \<Rightarrow>
               if cancelled_error e then stop_cancelled fr report pass started e w1
               else stop_failed fr report pass
                      (ioFailure ''write'' (ps_Number pass) (pt_ID pattern) region (rg_Offset region + written) e)
                      started w1))"

definition sync_device :: "'w fixed_run \<Rightarrow> Pattern \<Rightarrow> int \<Rightarrow> Report \<times> PassReport \<Rightarrow> ('w, Report \<times> PassReport) run" where
  "sync_device fr pattern started st w =
     (case st of (report, pass) \<Rightarrow>
      case bk_Sync (fr_backend fr) w of
        (None, w1) \<Rightarrow> go_on (report, pass) w1
      | (Some e, w1) \<Rightarrow>
          stop_failed fr report pass
            \<lparr> fl_Kind = ''sync'', fl_Pass = ps_Number pass, fl_Pattern = pt_ID pattern, fl_RegionIndex = - 1,
              fl_RegionOffset = 0, fl_ByteOffset = 0, fl_ExpectedSHA256 = [], fl_ActualSHA256 = [],
              fl_AliasedWithOffset = None, fl_Message = Errorf ''flush qualification writes: %v'' [FE e] \<rparr>
            started w1)"

fun verify_regions ::
  "'w fixed_run \<Rightarrow> Pattern \<Rightarrow> int \<Rightarrow> (u64 \<rightharpoonup> string) \<Rightarrow> (string \<rightharpoonup> u64) \<Rightarrow> int list \<Rightarrow> Report \<times> PassReport
     \<Rightarrow> ('w, Report \<times> PassReport) run" where
  "verify_regions fr pattern started expected owners [] st w = go_on st w"
| "verify_regions fr pattern started expected owners (regionIndex # order) (report, pass) w =
     (let region = pl_Regions (fr_plan fr) ! nat regionIndex in
      case verifyRegion (fr_sr fr) (fr_backend fr) region pattern (fr_buffer fr)
             (case expected (rg_Offset region) of Some digest \<Rightarrow> digest | None \<Rightarrow> []) owners
             (ps_VerifiedBytes pass) (ps_Number pass) (pl_PlannedBytes (fr_plan fr)) (fr_progress fr) w of
        None \<Rightarrow> None
      | Some ((verified, failure, verifyErr), w1) \<Rightarrow>
          (let pass = pass\<lparr>ps_VerifiedBytes := ps_VerifiedBytes pass + verified\<rparr>;
               report = report\<lparr>rp_CompletedBytes := rp_CompletedBytes report + verified\<rparr> in
           case verifyErr of
             None \<Rightarrow> verify_regions fr pattern started expected owners order (report, pass) w1
           | Some e \<Rightarrow>
               if cancelled_error e then stop_cancelled fr report pass started e w1
               else stop_failed fr report pass
                      (case failure of
                         Some f \<Rightarrow> f
                       | None \<Rightarrow> ioFailure ''read'' (ps_Number pass) (pt_ID pattern) region
                                   (rg_Offset region + verified) e)
                      started w1))"

definition run_pass :: "'w fixed_run \<Rightarrow> nat \<Rightarrow> Pattern \<Rightarrow> Report \<Rightarrow> ('w, Report) run" where
  "run_pass fr passNumber pattern report w =
     (let pass = \<lparr> ps_Number = passNumber, ps_Pattern = pt_ID pattern, ps_WrittenBytes = 0, ps_VerifiedBytes = 0,
                   ps_DurationMillis = 0, ps_BytesPerSecond = 0, ps_Failure = None \<rparr>;
          regions = pl_Regions (fr_plan fr) in
      case fr_now fr w of (started, w1) \<Rightarrow>
      case sr_ctx_err (fr_sr fr) w1 of
        (Some e, w2) \<Rightarrow> stop_cancelled fr report pass started e w2
      | (None, w2) \<Rightarrow>
          next_run (write_regions fr pattern started regions (report, pass)) (\<lambda>st.
          next_run (sync_device fr pattern started st) (\<lambda>st.
          case expectedDigests regions pattern (fr_buffer fr) Map.empty Map.empty of
            None \<Rightarrow> (\<lambda>w. None)
          | Some (expected, owners) \<Rightarrow>
              next_run (verify_regions fr pattern started expected owners
                (verificationOrder (int (length regions)) (pl_SentinelIndices (fr_plan fr))) st) (\<lambda>(report, pass) w.
              case fr_now fr w of (finished, w1) \<Rightarrow>
                go_on (report\<lparr>rp_Passes := rp_Passes report @ [setTiming (fr_sr fr) pass started finished]\<rparr>) w1))) w2)"

fun run_passes :: "'w fixed_run \<Rightarrow> nat \<Rightarrow> Pattern list \<Rightarrow> Report \<Rightarrow> ('w, Report) run" where
  "run_passes fr patternIndex [] report = go_on report"
| "run_passes fr patternIndex (pattern # patterns) report =
     next_run (run_pass fr (patternIndex + 1) pattern report) (\<lambda>report.
     run_passes fr (patternIndex + 1) patterns report)"

fun validate_patterns_from :: "nat \<Rightarrow> string set \<Rightarrow> Pattern list \<Rightarrow> unit res" where
  "validate_patterns_from index seen [] = Inr ()"
| "validate_patterns_from index seen (pattern # patterns) =
     (if pt_ID pattern = [] then Inl (Errorf ''pattern %d has an empty identifier'' [FN (index + 1)])
      else if pt_ID pattern \<in> seen then Inl (Errorf ''duplicate qualification pattern %q'' [FS (pt_ID pattern)])
      else validate_patterns_from (index + 1) (insert (pt_ID pattern) seen) patterns)"

definition validatePatterns :: "Pattern list \<Rightarrow> unit res" where
  "validatePatterns patterns = validate_patterns_from 0 {} patterns"

text \<open>
  The checks of \<open>Run\<close> before the first pass: the configuration with its defaults filled in, and
  the plan.
\<close>

definition int_text :: "int \<Rightarrow> string" where
  "int_text n = (if n < 0 then ''-'' @ decimal (of_int (- n)) else decimal (of_int n))"

definition effective_config :: "'w surroundings \<Rightarrow> 'w Config \<Rightarrow> ('w Config) res" where
  "effective_config sr config =
     (let config = (if cf_Profile config = [] then config\<lparr>cf_Profile := ''quick''\<rparr> else config);
          config = (if cf_RegionSize config = 0 then config\<lparr>cf_RegionSize := 4194304\<rparr> else config);
          config = (if cf_BufferSize config = 0 then config\<lparr>cf_BufferSize := 1048576\<rparr> else config) in
      if cf_BufferSize config < 4096 \<or> 67108864 < cf_BufferSize config
      then Inl (Errorf ''buffer size %d is outside the 4 KiB to 64 MiB contract'' [FS (int_text (cf_BufferSize config))])
      else
      let config = (if cf_Now config = None then config\<lparr>cf_Now := Some (sr_time_Now sr)\<rparr> else config) in
      bindE
        (if cf_Patterns config = []
         then bindE (DefaultPatterns (cf_Profile config)) (\<lambda>patterns. Inr (config\<lparr>cf_Patterns := patterns\<rparr>))
         else Inr config) (\<lambda>config.
      bindE (validatePatterns (cf_Patterns config)) (\<lambda>_.
      Inr config)))"

definition initial_report :: "Plan \<Rightarrow> Pattern list \<Rightarrow> Report" where
  "initial_report plan patterns =
     \<lparr> rp_Schema = 1, rp_Profile = pl_Profile plan, rp_Capacity = pl_Capacity plan,
       rp_RegionSize = pl_RegionSize plan, rp_RegionCount = length (pl_Regions plan),
       rp_SentinelCount = length (pl_SentinelIndices plan), rp_PatternCount = length patterns,
       rp_PlannedBytes = pl_PlannedBytes plan, rp_CompletedBytes = 0, rp_Status = ''passed'',
       rp_AliasingDetected = False, rp_Passes = [], rp_Failure = None \<rparr>"

definition fixed_of :: "'w surroundings \<Rightarrow> 'w Backend \<Rightarrow> 'w Config \<Rightarrow> Plan \<Rightarrow> 'w fixed_run" where
  "fixed_of sr backend config plan =
     \<lparr> fr_sr = sr, fr_backend = backend, fr_plan = plan, fr_buffer = nat (cf_BufferSize config),
       fr_progress = cf_Progress config, fr_now = the (cf_Now config) \<rparr>"

definition Run ::
  "'w surroundings option \<Rightarrow> 'w Backend option \<Rightarrow> u64 \<Rightarrow> 'w Config \<Rightarrow> 'w
     \<Rightarrow> ((Report \<times> go_error option) \<times> 'w) option" where
  "Run sr_opt backend_opt capacity config w =
     (case sr_opt of
        None \<Rightarrow> Some ((zero_report, Some (Msg ''qualification context is nil'')), w)
      | Some sr \<Rightarrow>
     (case backend_opt of
        None \<Rightarrow> Some ((zero_report, Some (Msg ''qualification backend is nil'')), w)
      | Some backend \<Rightarrow>
     (case bindE (effective_config sr config) (\<lambda>config.
           bindE (BuildPlan capacity (cf_RegionSize config) (cf_Profile config)) (\<lambda>plan. Inr (config, plan))) of
        Inl e \<Rightarrow> Some ((zero_report, Some e), w)
      | Inr (config, plan) \<Rightarrow>
          (case run_passes (fixed_of sr backend config plan) 0 (cf_Patterns config) (initial_report plan (cf_Patterns config)) w of
             None \<Rightarrow> None
           | Some (Inl result, w1) \<Rightarrow> Some (result, w1)
           | Some (Inr report, w1) \<Rightarrow> Some ((report, None), w1)))))"

section \<open>The loops end\<close>

lemma chunkSize_facts:
  assumes "written < (len :: u64)" "0 < buffer" "buffer < 2 ^ 63"
  shows "chunkSize (len - written) buffer = min (unat len - unat written) buffer"
    and "0 < chunkSize (len - written) buffer"
    and "unat (written + of_nat (chunkSize (len - written) buffer)) = unat written + chunkSize (len - written) buffer"
    and "unat written + chunkSize (len - written) buffer \<le> unat len"
proof -
  have d: "unat (len - written) = unat len - unat written" using assms(1) by (intro unat_minus_64) simp
  show c: "chunkSize (len - written) buffer = min (unat len - unat written) buffer"
    using assms(3) by (auto simp: chunkSize_def word_less_unat d unat_of_nat_64)
  show "0 < chunkSize (len - written) buffer" using assms by (simp add: c word_less_unat)
  show l: "unat written + chunkSize (len - written) buffer \<le> unat len"
    using assms(1) unfolding c by (simp add: word_less_unat)
  then show "unat (written + of_nat (chunkSize (len - written) buffer)) = unat written + chunkSize (len - written) buffer"
    using unat_lt_64 [of len] by (simp add: unat_plus_64 unat_of_nat_64)
qed

lemma chunk_progress:
  assumes "written < (len :: u64)" "0 < buffer" "buffer < 2 ^ 63"
  shows "unat (len - (written + of_nat (chunkSize (len - written) buffer))) < unat (len - written)"
    and "written + of_nat (chunkSize (len - written) buffer) \<le> len"
proof -
  note c = chunkSize_facts [OF assms]
  show le: "written + of_nat (chunkSize (len - written) buffer) \<le> len"
    using c(3,4) by (simp add: word_le_unat)
  then show "unat (len - (written + of_nat (chunkSize (len - written) buffer))) < unat (len - written)"
    using assms(1) c(2,3,4) unfolding unat_minus_64 [OF le] unat_minus_64 [OF less_imp_le [OF assms(1)]]
    by (simp add: word_less_unat)
qed

lemma write_loop_returns:
  assumes "0 < buffer" "buffer < 2 ^ 63"
  shows "\<exists>r. write_loop sr bk g p buffer cb pass planned progress written w = Some r"
proof (induction written arbitrary: w rule: measure_induct_rule [of "\<lambda>x. unat (rg_Length g - x)"])
  case (less written)
  show ?case
  proof (cases "written < rg_Length g")
    case False
    then show ?thesis by (subst write_loop.simps) simp
  next
    case True
    note IH = less [OF chunk_progress(1) [OF True assms]]
    show ?thesis
      using True IH by (subst write_loop.simps) (auto simp: Let_def split: prod.split option.split)
  qed
qed

lemma digest_loop_returns:
  assumes "0 < buffer" "buffer < 2 ^ 63"
  shows "\<exists>h. digest_loop g p buffer finished hasher = Some h"
proof (induction finished arbitrary: hasher rule: measure_induct_rule [of "\<lambda>x. unat (rg_Length g - x)"])
  case (less finished)
  show ?case
    using less [OF chunk_progress(1) [OF _ assms]] by (subst digest_loop.simps) (auto simp: Let_def)
qed

lemma verify_loop_returns:
  assumes "0 < buffer" "buffer < 2 ^ 63"
  shows "\<exists>r. verify_loop sr bk g p buffer cb pass planned progress verified hasher mm w = Some r"
proof (induction verified arbitrary: hasher mm w rule: measure_induct_rule [of "\<lambda>x. unat (rg_Length g - x)"])
  case (less verified)
  show ?case
  proof (cases "verified < rg_Length g")
    case False
    then show ?thesis by (subst verify_loop.simps) simp
  next
    case True
    note IH = less [OF chunk_progress(1) [OF True assms]]
    show ?thesis
      using True IH by (subst verify_loop.simps) (auto simp: Let_def split: prod.split option.split)
  qed
qed

text \<open>A step of the run that always has a value.\<close>

definition run_ends :: "('w, 'a) run \<Rightarrow> bool" where
  "run_ends m \<longleftrightarrow> (\<forall>w. m w \<noteq> None)"

lemma run_ends_next [intro]: "run_ends m \<Longrightarrow> (\<And>x. run_ends (f x)) \<Longrightarrow> run_ends (next_run m f)"
  by (fastforce simp: run_ends_def next_run_def split: option.splits sum.splits)

lemma run_ends_go_on [intro, simp]: "run_ends (go_on x)"
  by (simp add: run_ends_def go_on_def)

lemma stop_ends [simp]:
  "\<exists>a b. stop_failed fr report pass failure started w = Some (a, b)"
  "\<exists>a b. stop_cancelled fr report pass started e w = Some (a, b)"
  by (simp_all add: stop_failed_def stop_cancelled_def split: prod.split)

definition working_buffer :: "'w fixed_run \<Rightarrow> bool" where
  "working_buffer fr \<longleftrightarrow> 0 < fr_buffer fr \<and> fr_buffer fr < 2 ^ 63"

lemma write_regions_ends: "working_buffer fr \<Longrightarrow> run_ends (write_regions fr p started gs st)"
proof -
  assume b: "working_buffer fr"
  have "write_regions fr p started gs st w \<noteq> None" for w
  proof (induction gs arbitrary: st w)
    case Nil
    then show ?case by (simp add: go_on_def)
  next
    case (Cons g gs)
    obtain report pass where st: "st = (report, pass)" by (cases st)
    obtain n e w1 where "writeRegion (fr_sr fr) (fr_backend fr) g p (fr_buffer fr) (ps_WrittenBytes pass)
             (ps_Number pass) (pl_PlannedBytes (fr_plan fr)) (fr_progress fr) w = Some ((n, e), w1)"
      using write_loop_returns b unfolding writeRegion_def working_buffer_def by (metis prod.exhaust)
    with Cons.IH show ?case by (cases e) (simp_all add: st Let_def)
  qed
  then show ?thesis by (simp add: run_ends_def)
qed

lemma verify_regions_ends: "working_buffer fr \<Longrightarrow> run_ends (verify_regions fr p started ex ow order st)"
proof -
  assume b: "working_buffer fr"
  have r: "verifyRegion sr bk g p (fr_buffer fr) ex ow cb k pl prog w \<noteq> None" for sr bk g ex ow cb k pl prog w
  proof -
    obtain r where "verify_loop sr bk g p (fr_buffer fr) cb k pl prog 0 [] None w = Some r"
      by (rule exE [OF verify_loop_returns [OF b [unfolded working_buffer_def, THEN conjunct1]
            b [unfolded working_buffer_def, THEN conjunct2]]])
    then show ?thesis by (auto simp: verifyRegion_def Let_def split: prod.split sum.split)
  qed
  have "verify_regions fr p started ex ow order st w \<noteq> None" for w
  proof (induction order arbitrary: st w)
    case Nil
    then show ?case by (simp add: go_on_def)
  next
    case (Cons i order)
    obtain report pass where st: "st = (report, pass)" by (cases st)
    let ?g = "pl_Regions (fr_plan fr) ! nat i"
    obtain n f e w1 where "verifyRegion (fr_sr fr) (fr_backend fr) ?g p (fr_buffer fr)
             (case ex (rg_Offset ?g) of Some digest \<Rightarrow> digest | None \<Rightarrow> []) ow
             (ps_VerifiedBytes pass) (ps_Number pass) (pl_PlannedBytes (fr_plan fr)) (fr_progress fr) w
           = Some ((n, f, e), w1)"
      using r by (metis option.exhaust prod.exhaust)
    with Cons.IH show ?case by (cases e) (simp_all add: st Let_def)
  qed
  then show ?thesis by (simp add: run_ends_def)
qed

lemma expectedDigests_returns:
  "0 < buffer \<Longrightarrow> buffer < 2 ^ 63 \<Longrightarrow> \<exists>r. expectedDigests gs p buffer bo ow = Some r"
proof (induction gs arbitrary: bo ow)
  case (Cons g gs)
  obtain h where "digest_loop g p buffer 0 [] = Some h" using digest_loop_returns Cons.prems by blast
  with Cons show ?case by (simp add: expectedDigest_def)
qed simp

lemma run_pass_ends: "working_buffer fr \<Longrightarrow> run_ends (run_pass fr k p report)"
proof -
  assume b: "working_buffer fr"
  obtain ex ow where d: "expectedDigests (pl_Regions (fr_plan fr)) p (fr_buffer fr) Map.empty Map.empty = Some (ex, ow)"
    using expectedDigests_returns b unfolding working_buffer_def by (metis prod.exhaust)
  note [intro] = write_regions_ends [OF b] verify_regions_ends [OF b]
  have s: "run_ends (sync_device fr p started st)" for started st
    by (simp add: run_ends_def sync_device_def go_on_def split: prod.split option.split)
  have l: "run_ends (\<lambda>w. case fr_now fr w of (finished, w1) \<Rightarrow> go_on (f finished) w1)" for f :: "int \<Rightarrow> Report"
    by (simp add: run_ends_def go_on_def split: prod.split)
  have "run_ends (next_run (write_regions fr p started gs st) (\<lambda>st.
          next_run (sync_device fr p started st) (\<lambda>st.
              next_run (verify_regions fr p started ex ow order st) (\<lambda>(report, pass) w.
              case fr_now fr w of (finished, w1) \<Rightarrow>
                go_on (report\<lparr>rp_Passes := rp_Passes report @ [setTiming (fr_sr fr) pass started finished]\<rparr>) w1))))"
    for started gs st order
    by (intro run_ends_next write_regions_ends verify_regions_ends s b) (simp add: l split: prod.split)
  then have "\<And>w started gs st order. next_run (write_regions fr p started gs st) (\<lambda>st.
          next_run (sync_device fr p started st) (\<lambda>st.
              next_run (verify_regions fr p started ex ow order st) (\<lambda>(report, pass) w.
              case fr_now fr w of (finished, w1) \<Rightarrow>
                go_on (report\<lparr>rp_Passes := rp_Passes report @ [setTiming (fr_sr fr) pass started finished]\<rparr>) w1))) w \<noteq> None"
    by (simp add: run_ends_def)
  then show ?thesis
    by (simp add: run_ends_def run_pass_def Let_def d split: prod.split option.split)
qed

lemma run_passes_ends: "working_buffer fr \<Longrightarrow> run_ends (run_passes fr k ps report)"
  by (induction ps arbitrary: k report) (auto intro: run_pass_ends)

lemma effective_config_buffer:
  "effective_config sr config = Inr c \<Longrightarrow> 4096 \<le> cf_BufferSize c \<and> cf_BufferSize c \<le> 67108864"
  unfolding effective_config_def by (auto simp: Let_def result_simps split: if_splits)

lemma Run_returns: "\<exists>report err w1. Run sr_opt backend_opt capacity config w = Some ((report, err), w1)"
proof -
  have *: False if "effective_config sr config = Inr c" "run_passes fr k ps report w = None" "fr_buffer fr = nat (cf_BufferSize c)"
    for sr :: "'a surroundings" and c fr k ps report w
  proof -
    have "working_buffer fr" using effective_config_buffer [OF that(1)] that(3)
      by (simp add: working_buffer_def nat_less_iff)
    then have "run_passes fr k ps report w \<noteq> None" using run_passes_ends unfolding run_ends_def by blast
    with that(2) show False by simp
  qed
  then show ?thesis
    by (auto simp: Run_def Let_def result_simps fixed_of_def dest: * split: option.split sum.split prod.split)
qed

text \<open>
  C4: a qualification run always returns a report: no behaviour of the device, of the context,
  of the clock or of the progress callback, and no configuration, keeps its loops running.
\<close>
theorem qualification_terminates: "\<exists>report err w1. Run sr_opt backend_opt capacity config w = Some ((report, err), w1)"
  by (rule Run_returns)

end
