(* ===== verification/DeviceVerify.thy ===== *)
theory DeviceVerify
  imports DeviceQual
begin

text \<open>
  What a qualification run establishes: the value of its loops on a device that reads honestly
  (the locale \<open>honest_reader\<close>), how every early return looks, and what a passed run and a
  reported failure prove of the device.
\<close>

section \<open>What a verified region holds\<close>

definition region_holds :: "(u64 \<Rightarrow> byte) \<Rightarrow> Region \<Rightarrow> Pattern \<Rightarrow> bool" where
  "region_holds f g p \<longleftrightarrow>
     segment f (rg_Offset g) 0 (unat (rg_Length g)) = segment (pattern_byte p) (rg_Offset g) 0 (unat (rg_Length g))"

lemma region_holds_bytes:
  "region_holds f g p \<longleftrightarrow>
     (\<forall>i < unat (rg_Length g). f (rg_Offset g + of_nat i) = pattern_byte p (rg_Offset g + of_nat i))"
  by (auto simp: region_holds_def segment_def)

lemma segment_shift:
  "map (\<lambda>i. f (off + written + of_nat i)) [0..<n] = segment f off (unat written) (unat written + n)"
  by (rule nth_equalityI) (simp_all add: segment_def add.assoc)

lemma FillPattern_segment:
  "FillPattern n (off + written) p = segment (pattern_byte p) off (unat written) (unat written + n)"
  by (simp only: FillPattern_eq segment_shift)

lemma first_difference_append:
  "length as = length es \<Longrightarrow> first_difference (as @ bs) (es @ fs) =
     (case first_difference as es of Some i \<Rightarrow> Some i
      | None \<Rightarrow> map_option (\<lambda>i. length as + i) (first_difference bs fs))"
proof (induction as es rule: list_induct2)
  case Nil
  show ?case by (cases "first_difference bs fs") simp_all
next
  case (Cons a as e es)
  then show ?case by (cases "first_difference bs fs") (auto split: option.splits)
qed

lemma first_difference_None: "length as = length es \<Longrightarrow> first_difference as es = None \<longleftrightarrow> as = es"
  by (induction as es rule: list_induct2) auto

lemma first_difference_Some:
  "first_difference as es = Some i \<Longrightarrow>
     i < length as \<and> i < length es \<and> as ! i \<noteq> es ! i \<and> (\<forall>j < i. as ! j = es ! j)"
proof (induction as es arbitrary: i rule: first_difference.induct)
  case (1 a as e es)
  then show ?case by (auto simp: less_Suc_eq_0_disj split: if_splits)
qed simp_all

lemma digest_loop_value:
  assumes "0 < buffer" "buffer < 2 ^ 63" "finished \<le> rg_Length g"
  shows "digest_loop g p buffer finished hasher =
    Some (hasher @ segment (pattern_byte p) (rg_Offset g) (unat finished) (unat (rg_Length g)))"
  using assms(3)
proof (induction finished arbitrary: hasher rule: measure_induct_rule [of "\<lambda>x. unat (rg_Length g - x)"])
  case (less finished)
  show ?case
  proof (cases "finished < rg_Length g")
    case False
    with less.prems show ?thesis by (subst digest_loop.simps) (simp add: word_le_unat word_less_unat)
  next
    case True
    note c = chunkSize_facts [OF True assms(1,2)]
    define chunk where "chunk = chunkSize (rg_Length g - finished) buffer"
    note IH = less.IH [OF chunk_progress [OF True assms(1,2)], folded chunk_def]
    have "digest_loop g p buffer finished hasher = digest_loop g p buffer (finished + of_nat chunk)
        (hasher @ FillPattern chunk (rg_Offset g + finished) p)"
      using True by (subst digest_loop.simps) (simp add: Let_def chunk_def)
    also have "\<dots> = Some (hasher @ segment (pattern_byte p) (rg_Offset g) (unat finished) (unat (rg_Length g)))"
      using c(3,4) by (simp add: IH FillPattern_segment segment_append flip: chunk_def)
    finally show ?thesis .
  qed
qed

definition region_digest :: "Pattern \<Rightarrow> Region \<Rightarrow> string" where
  "region_digest p g = sha256_hex (segment (pattern_byte p) (rg_Offset g) 0 (unat (rg_Length g)))"

lemma expectedDigest_value:
  "0 < buffer \<Longrightarrow> buffer < 2 ^ 63 \<Longrightarrow> expectedDigest g p buffer = Some (region_digest p g)"
  by (simp add: expectedDigest_def digest_loop_value region_digest_def)

lemma expectedDigests_value:
  assumes "0 < buffer" "buffer < 2 ^ 63" "distinct (map rg_Offset gs)"
    and "expectedDigests gs p buffer bo ow = Some (expected, owners)"
  shows "\<And>g. g \<in> set gs \<Longrightarrow> expected (rg_Offset g) = Some (region_digest p g)"
    and "\<And>a. a \<notin> rg_Offset ` set gs \<Longrightarrow> expected a = bo a"
    and "\<And>d q. owners d = Some q \<Longrightarrow> ow d = Some q \<or> (\<exists>g \<in> set gs. rg_Offset g = q \<and> region_digest p g = d)"
proof -
  have "(\<forall>g \<in> set gs. expected (rg_Offset g) = Some (region_digest p g))
     \<and> (\<forall>a. a \<notin> rg_Offset ` set gs \<longrightarrow> expected a = bo a)
     \<and> (\<forall>d q. owners d = Some q \<longrightarrow> ow d = Some q \<or> (\<exists>g \<in> set gs. rg_Offset g = q \<and> region_digest p g = d))"
    using assms(3,4)
  proof (induction gs arbitrary: bo ow)
    case (Cons g gs)
    then have "expectedDigests gs p buffer (bo(rg_Offset g \<mapsto> region_digest p g)) (ow(region_digest p g \<mapsto> rg_Offset g))
      = Some (expected, owners)"
      by (simp add: expectedDigest_value [OF assms(1,2)])
    from Cons.IH [OF _ this] Cons.prems(1) show ?case by (auto split: if_splits)
  qed simp
  then show "\<And>g. g \<in> set gs \<Longrightarrow> expected (rg_Offset g) = Some (region_digest p g)"
    "\<And>a. a \<notin> rg_Offset ` set gs \<Longrightarrow> expected a = bo a"
    "\<And>d q. owners d = Some q \<Longrightarrow> ow d = Some q \<or> (\<exists>g \<in> set gs. rg_Offset g = q \<and> region_digest p g = d)"
    by blast+
qed

text \<open>
  A device that reads honestly: a read without an error returns the cells at its addresses, and
  neither reading, nor polling the context or the clock, nor reporting progress changes a cell.
  Nothing is promised of writes and flushes.
\<close>

locale honest_reader =
  fixes cell :: "'w \<Rightarrow> u64 \<Rightarrow> byte" and fr :: "'w fixed_run"
  assumes buffer: "working_buffer fr"
    and read_cells: "bk_ReadAt (fr_backend fr) n off w = ((d, err), w1) \<Longrightarrow> length d = n \<Longrightarrow>
      fatal_read_error err = None \<Longrightarrow> d = map (\<lambda>i. cell w (off + of_nat i)) [0..<n]"
    and read_keeps: "bk_ReadAt (fr_backend fr) n off w = (r, w1) \<Longrightarrow> cell w1 = cell w"
    and ctx_keeps: "sr_ctx_err (fr_sr fr) w = (e, w1) \<Longrightarrow> cell w1 = cell w"
    and now_keeps: "fr_now fr w = (t, w1) \<Longrightarrow> cell w1 = cell w"
    and progress_keeps: "cell (emit (fr_progress fr) event w) = cell w"
begin

lemma positive: "0 < fr_buffer fr" "fr_buffer fr < 2 ^ 63"
  using buffer by (auto simp: working_buffer_def)

lemma verify_loop_value:
  assumes "verified \<le> rg_Length g"
    and "verify_loop (fr_sr fr) (fr_backend fr) g p (fr_buffer fr) cb pass planned (fr_progress fr) verified hasher mm w
      = Some ((v, Inr (h, mm')), w1)"
  shows "cell w1 = cell w"
    and "v = rg_Length g"
    and "h = hasher @ segment (cell w) (rg_Offset g) (unat verified) (unat (rg_Length g))"
    and "mm' = (case mm of Some m \<Rightarrow> Some m
      | None \<Rightarrow> map_option (\<lambda>i. rg_Offset g + verified + of_nat i)
          (first_difference (segment (cell w) (rg_Offset g) (unat verified) (unat (rg_Length g)))
             (segment (pattern_byte p) (rg_Offset g) (unat verified) (unat (rg_Length g)))))"
proof -
  let ?off = "rg_Offset g" and ?len = "unat (rg_Length g)"
  have "cell w1 = cell w \<and> v = rg_Length g
    \<and> h = hasher @ segment (cell w) ?off (unat verified) ?len
    \<and> mm' = (case mm of Some m \<Rightarrow> Some m
      | None \<Rightarrow> map_option (\<lambda>i. ?off + verified + of_nat i)
          (first_difference (segment (cell w) ?off (unat verified) ?len)
             (segment (pattern_byte p) ?off (unat verified) ?len)))"
    using assms
  proof (induction verified arbitrary: hasher mm w rule: measure_induct_rule [of "\<lambda>x. unat (rg_Length g - x)"])
    case (less verified)
    show ?case
    proof (cases "verified < rg_Length g")
      case False
      with less.prems(1) have "verified = rg_Length g" by simp
      with less.prems(2) show ?thesis
        by (subst (asm) verify_loop.simps) (simp split: option.split)
    next
      case True
      note c = chunkSize_facts [OF True positive]
      note IH = less.IH [OF chunk_progress [OF True positive]]
      define chunk where "chunk = chunkSize (rg_Length g - verified) (fr_buffer fr)"
      define absolute where "absolute = ?off + verified"
      define pattern where "pattern = FillPattern chunk absolute p"
      obtain w2 actual err w3 event where
        w2: "sr_ctx_err (fr_sr fr) w = (None, w2)"
        and r: "bk_ReadAt (fr_backend fr) chunk absolute w2 = ((actual, err), w3)"
        and ok: "fatal_read_error err = None" "length actual = chunk"
        and rest: "verify_loop (fr_sr fr) (fr_backend fr) g p (fr_buffer fr) cb pass planned (fr_progress fr)
          (verified + of_nat chunk) (hasher @ actual)
          (case mm of Some m \<Rightarrow> Some m
           | None \<Rightarrow> map_option (\<lambda>index. absolute + of_nat index) (first_difference actual pattern))
          (emit (fr_progress fr) event w3) = Some ((v, Inr (h, mm')), w1)"
        using less.prems(2) True
        by (subst (asm) verify_loop.simps)
          (auto simp: Let_def chunk_def absolute_def pattern_def split: prod.splits option.splits if_splits)
      have w3: "cell (emit (fr_progress fr) event w3) = cell w"
        using ctx_keeps [OF w2] read_keeps [OF r] progress_keeps by simp
      have actual: "actual = segment (cell w) ?off (unat verified) (unat verified + chunk)"
        using read_cells [OF r ok(2,1)] ctx_keeps [OF w2] by (simp only: absolute_def segment_shift)
      have pattern: "pattern = segment (pattern_byte p) ?off (unat verified) (unat verified + chunk)"
        by (simp only: pattern_def absolute_def FillPattern_segment)
      have split: "segment f ?off (unat verified) ?len =
          segment f ?off (unat verified) (unat verified + chunk) @ segment f ?off (unat verified + chunk) ?len" for f
        using c(4) by (simp add: segment_append chunk_def)
      note res = IH [folded chunk_def, OF rest]
      from res show ?thesis
        by (simp add: w3 c(3) [folded chunk_def] split [of "cell w"] split [of "pattern_byte p"] first_difference_append
            actual pattern absolute_def option.map_comp o_def add.assoc split: option.split)
    qed
  qed
  then show "cell w1 = cell w" "v = rg_Length g"
    "h = hasher @ segment (cell w) (rg_Offset g) (unat verified) (unat (rg_Length g))"
    "mm' = (case mm of Some m \<Rightarrow> Some m
      | None \<Rightarrow> map_option (\<lambda>i. rg_Offset g + verified + of_nat i)
          (first_difference (segment (cell w) (rg_Offset g) (unat verified) (unat (rg_Length g)))
             (segment (pattern_byte p) (rg_Offset g) (unat verified) (unat (rg_Length g)))))"
    by blast+
qed

lemma verifyRegion_passes:
  assumes "verifyRegion (fr_sr fr) (fr_backend fr) g p (fr_buffer fr) expected owners cb pass planned (fr_progress fr) w
      = Some ((v, f, None), w1)"
  shows "cell w1 = cell w" and "region_holds (cell w) g p"
proof -
  from assms obtain h where
    l: "verify_loop (fr_sr fr) (fr_backend fr) g p (fr_buffer fr) cb pass planned (fr_progress fr) 0 [] None w
      = Some ((v, Inr (h, None)), w1)"
    by (auto simp: verifyRegion_def Let_def split: option.splits prod.splits sum.splits if_splits)
  note vals = verify_loop_value [OF _ l, simplified]
  show "cell w1 = cell w" by (rule vals(1))
  from vals(4) show "region_holds (cell w) g p"
    by (simp add: region_holds_def first_difference_None)
qed

lemma verifyRegion_diagnosis:
  assumes "verifyRegion (fr_sr fr) (fr_backend fr) g p (fr_buffer fr) (region_digest p g) owners cb pass planned
      (fr_progress fr) w = Some ((v, Some failure, err), w1)"
  obtains i where "i < unat (rg_Length g)" "fl_ByteOffset failure = rg_Offset g + of_nat i"
    "cell w (rg_Offset g + of_nat i) \<noteq> pattern_byte p (rg_Offset g + of_nat i)"
    "\<forall>j < i. cell w (rg_Offset g + of_nat j) = pattern_byte p (rg_Offset g + of_nat j)"
    "err = Some ErrVerification" "fl_RegionOffset failure = rg_Offset g"
    "fl_ActualSHA256 failure = sha256_hex (segment (cell w) (rg_Offset g) 0 (unat (rg_Length g)))"
    "\<And>q. fl_AliasedWithOffset failure = Some q \<Longrightarrow> q \<noteq> rg_Offset g \<and> owners (fl_ActualSHA256 failure) = Some q"
    "fl_Kind failure = (if fl_AliasedWithOffset failure = None then ''mismatch'' else ''alias'')"
proof -
  let ?h = "segment (cell w) (rg_Offset g) 0 (unat (rg_Length g))"
  from assms obtain h mm where
    l: "verify_loop (fr_sr fr) (fr_backend fr) g p (fr_buffer fr) cb pass planned (fr_progress fr) 0 [] None w
      = Some ((v, Inr (h, mm)), w1)"
    and bad: "\<not> (mm = None \<and> sha256_hex h = region_digest p g)"
    and off: "fl_ByteOffset failure = (case mm of Some m \<Rightarrow> m | None \<Rightarrow> 0)"
    and f: "fl_ActualSHA256 failure = sha256_hex h" "err = Some ErrVerification" "fl_RegionOffset failure = rg_Offset g"
    and al: "\<And>q. fl_AliasedWithOffset failure = Some q \<Longrightarrow> q \<noteq> rg_Offset g \<and> owners (sha256_hex h) = Some q"
    "fl_Kind failure = (if fl_AliasedWithOffset failure = None then ''mismatch'' else ''alias'')"
    by (auto simp: verifyRegion_def Let_def split: option.splits prod.splits sum.splits if_splits)
  note vals = verify_loop_value [OF _ l, simplified]
  have "mm \<noteq> None"
  proof
    assume "mm = None"
    with vals(4) have "?h = segment (pattern_byte p) (rg_Offset g) 0 (unat (rg_Length g))"
      by (simp add: first_difference_None)
    with bad \<open>mm = None\<close> vals(3) show False by (simp add: region_digest_def)
  qed
  then obtain i where i: "mm = Some (rg_Offset g + of_nat i)"
    "first_difference ?h (segment (pattern_byte p) (rg_Offset g) 0 (unat (rg_Length g))) = Some i"
    using vals(4) by auto
  from first_difference_Some [OF i(2)] show ?thesis
    by (intro that [of i]) (use i off f al vals(3) in \<open>auto simp: segment_def\<close>)
qed

lemma verify_regions_pass:
  assumes "verify_regions fr p started expected owners order st w = Some (Inr st', w1)"
  shows "cell w1 = cell w \<and> (\<forall>i \<in> set order. region_holds (cell w) (pl_Regions (fr_plan fr) ! nat i) p)"
  using assms
proof (induction order arbitrary: st w)
  case Nil
  then show ?case by (simp add: go_on_def)
next
  case (Cons i order)
  obtain report pass where st: "st = (report, pass)" by (cases st)
  from Cons.prems obtain v f w2 st2 where
    v: "verifyRegion (fr_sr fr) (fr_backend fr) (pl_Regions (fr_plan fr) ! nat i) p (fr_buffer fr)
          (case expected (rg_Offset (pl_Regions (fr_plan fr) ! nat i)) of Some digest \<Rightarrow> digest | None \<Rightarrow> []) owners
          (ps_VerifiedBytes pass) (ps_Number pass) (pl_PlannedBytes (fr_plan fr)) (fr_progress fr) w
        = Some ((v, f, None), w2)"
    and r: "verify_regions fr p started expected owners order st2 w2 = Some (Inr st', w1)"
    by (auto simp: st Let_def stop_failed_def stop_cancelled_def
        split: option.splits prod.splits if_splits)
  from Cons.IH [OF r] verifyRegion_passes [OF v] show ?case by simp
qed

lemma run_pass_holds:
  assumes "run_pass fr k p report w = Some (Inr report', w1)"
    and "g \<in> set (pl_Regions (fr_plan fr))"
  shows "region_holds (cell w1) g p"
proof -
  let ?gs = "pl_Regions (fr_plan fr)"
  from assms(1) obtain started expected owners st w2 st' w3 finished where
    v: "verify_regions fr p started expected owners (verificationOrder (int (length ?gs)) (pl_SentinelIndices (fr_plan fr)))
          st w2 = Some (Inr st', w3)"
    and n: "fr_now fr w3 = (finished, w1)"
    by (auto simp: run_pass_def next_run_def Let_def stop_failed_def stop_cancelled_def go_on_def
        split: prod.splits option.splits sum.splits)
  from assms(2) obtain i where "i < length ?gs" "g = ?gs ! i" by (auto simp: in_set_conv_nth)
  then have "int i \<in> set (verificationOrder (int (length ?gs)) (pl_SentinelIndices (fr_plan fr)))"
    by (simp add: verificationOrder_perm)
  with verify_regions_pass [OF v] have "region_holds (cell w2) (?gs ! nat (int i)) p" by blast
  with verify_regions_pass [OF v] \<open>g = _\<close> show ?thesis by (simp add: now_keeps [OF n])
qed

lemma run_passes_hold:
  assumes "run_passes fr k ps report w = Some (Inr report', w1)" "ps \<noteq> []"
    and "g \<in> set (pl_Regions (fr_plan fr))"
  shows "region_holds (cell w1) g (last ps)"
  using assms(1,2)
proof (induction ps arbitrary: k report w)
  case (Cons p ps)
  from Cons.prems obtain report2 w2 where r: "run_pass fr (k + 1) p report w = Some (Inr report2, w2)"
    and rest: "run_passes fr (k + 1) ps report2 w2 = Some (Inr report', w1)"
    by (auto simp: next_run_def split: option.splits sum.splits)
  show ?case
  proof (cases "ps = []")
    case True
    with rest r assms(3) show ?thesis by (auto simp: go_on_def dest: run_pass_holds)
  next
    case False
    with Cons.IH [OF rest] show ?thesis by simp
  qed
qed simp

end

section \<open>How a run stops\<close>

text \<open>Every early return of \<open>Run\<close> has an error and a report that says so; going on keeps the verdict.\<close>

definition stopped_report :: "Report \<times> go_error option \<Rightarrow> bool" where
  "stopped_report r \<longleftrightarrow> snd r \<noteq> None \<and> rp_Schema (fst r) = 1 \<and> rp_Failure (fst r) \<noteq> None
     \<and> (rp_Status (fst r) = ''failed'' \<or> rp_Status (fst r) = ''cancelled'')"

definition running_report :: "Report \<Rightarrow> bool" where
  "running_report r \<longleftrightarrow> rp_Schema r = 1 \<and> rp_Failure r = None \<and> rp_Status r = ''passed'' \<and> \<not> rp_AliasingDetected r"

definition stops_well :: "('w, 'a) run \<Rightarrow> ('a \<Rightarrow> bool) \<Rightarrow> bool" where
  "stops_well m P \<longleftrightarrow> (\<forall>w r w1. m w = Some (r, w1) \<longrightarrow> (case r of Inl e \<Rightarrow> stopped_report e | Inr x \<Rightarrow> P x))"

lemma stops_wellD: "stops_well m P \<Longrightarrow> m w = Some (Inl e, w1) \<Longrightarrow> stopped_report e"
  "stops_well m P \<Longrightarrow> m w = Some (Inr x, w1) \<Longrightarrow> P x"
  by (fastforce simp: stops_well_def)+

lemma stops_wellI:
  "(\<And>w e w1. m w = Some (Inl e, w1) \<Longrightarrow> stopped_report e) \<Longrightarrow> (\<And>w x w1. m w = Some (Inr x, w1) \<Longrightarrow> P x)
    \<Longrightarrow> stops_well m P"
  by (auto simp: stops_well_def split: sum.split)

lemma stops_well_next:
  assumes "stops_well m P" "\<And>x. P x \<Longrightarrow> stops_well (f x) Q"
  shows "stops_well (next_run m f) Q"
proof (rule stops_wellI)
  fix w e w1 assume "next_run m f w = Some (Inl e, w1)"
  then consider "m w = Some (Inl e, w1)" | x w2 where "m w = Some (Inr x, w2)" "f x w2 = Some (Inl e, w1)"
    by (auto simp: next_run_def split: option.splits sum.splits)
  then show "stopped_report e"
    by cases (use stops_wellD [OF assms(1)] stops_wellD [OF assms(2)] in blast)+
next
  fix w y w1 assume "next_run m f w = Some (Inr y, w1)"
  then obtain x w2 where "m w = Some (Inr x, w2)" "f x w2 = Some (Inr y, w1)"
    by (auto simp: next_run_def split: option.splits sum.splits)
  then show "Q y" using stops_wellD [OF assms(1)] stops_wellD [OF assms(2)] by blast
qed

lemma stop_failed_stops: "running_report report \<Longrightarrow> stops_well (stop_failed fr report pass failure started) P"
  by (auto simp: stops_well_def stop_failed_def failReport_def Let_def stopped_report_def running_report_def
      split: prod.splits)

lemma stop_cancelled_stops: "running_report report \<Longrightarrow> stops_well (stop_cancelled fr report pass started e) P"
  by (auto simp: stops_well_def stop_cancelled_def cancelReport_def Let_def stopped_report_def running_report_def
      split: prod.splits)

abbreviation running_state :: "Report \<times> PassReport \<Rightarrow> bool" where
  "running_state st \<equiv> running_report (fst st)"

lemma running_report_fields [simp]:
  "running_report (r\<lparr>rp_CompletedBytes := n\<rparr>) = running_report r"
  "running_report (r\<lparr>rp_Passes := ps\<rparr>) = running_report r"
  by (simp_all add: running_report_def)

lemma write_regions_stops: "running_state st \<Longrightarrow> stops_well (write_regions fr p started gs st) running_state"
proof (induction gs arbitrary: st)
  case Nil
  then show ?case by (simp add: stops_well_def go_on_def)
next
  case (Cons g gs)
  obtain report pass where st: "st = (report, pass)" by (cases st)
  have r: "running_report (report\<lparr>rp_CompletedBytes := n\<rparr>)" for n using Cons.prems by (simp add: st)
  note s = stops_wellD [OF stop_failed_stops [OF r]] stops_wellD [OF stop_cancelled_stops [OF r]]
  have c: "stops_well (write_regions fr p started gs (report\<lparr>rp_CompletedBytes := n\<rparr>, pass')) running_state" for n pass'
    by (rule Cons.IH) (use Cons.prems in \<open>simp add: st\<close>)
  note c = stops_wellD [OF c]
  show ?case
    unfolding st by (rule stops_wellI) (auto simp: Let_def dest: s c split: option.splits prod.splits if_splits)
qed


lemma sync_device_stops: "running_state st \<Longrightarrow> stops_well (sync_device fr p started st) running_state"
proof -
  assume r: "running_state st"
  obtain report pass where st: "st = (report, pass)" by (cases st)
  note s = stops_wellD [OF stop_failed_stops [of report]]
  show ?thesis
    by (rule stops_wellI) (use r in \<open>auto simp: st sync_device_def go_on_def dest: s split: prod.splits option.splits\<close>)
qed

lemma verify_regions_stops:
  "running_state st \<Longrightarrow> stops_well (verify_regions fr p started ex ow order st) running_state"
proof (induction order arbitrary: st)
  case Nil
  then show ?case by (simp add: stops_well_def go_on_def)
next
  case (Cons i order)
  obtain report pass where st: "st = (report, pass)" by (cases st)
  have r: "running_report (report\<lparr>rp_CompletedBytes := n\<rparr>)" for n using Cons.prems by (simp add: st)
  note s = stops_wellD [OF stop_failed_stops [OF r]] stops_wellD [OF stop_cancelled_stops [OF r]]
  have c: "stops_well (verify_regions fr p started ex ow order (report\<lparr>rp_CompletedBytes := n\<rparr>, pass')) running_state"
    for n pass' by (rule Cons.IH) (use Cons.prems in \<open>simp add: st\<close>)
  note c = stops_wellD [OF c]
  show ?case
    unfolding st by (rule stops_wellI) (auto simp: Let_def dest: s c split: option.splits prod.splits if_splits)
qed

lemma run_pass_stops: "running_report report \<Longrightarrow> stops_well (run_pass fr k p report) running_report"
proof -
  assume r: "running_report report"
  define body where "body started = next_run (write_regions fr p started (pl_Regions (fr_plan fr))
          (report, \<lparr> ps_Number = k, ps_Pattern = pt_ID p, ps_WrittenBytes = 0, ps_VerifiedBytes = 0,
                   ps_DurationMillis = 0, ps_BytesPerSecond = 0, ps_Failure = None \<rparr>)) (\<lambda>st.
          next_run (sync_device fr p started st) (\<lambda>st.
          case expectedDigests (pl_Regions (fr_plan fr)) p (fr_buffer fr) Map.empty Map.empty of
            None \<Rightarrow> (\<lambda>w. None)
          | Some (expected, owners) \<Rightarrow>
              next_run (verify_regions fr p started expected owners
                (verificationOrder (int (length (pl_Regions (fr_plan fr)))) (pl_SentinelIndices (fr_plan fr))) st)
                (\<lambda>(report, pass) w. case fr_now fr w of (finished, w1) \<Rightarrow>
                go_on (report\<lparr>rp_Passes := rp_Passes report @ [setTiming (fr_sr fr) pass started finished]\<rparr>) w1)))"
    for started
  have t: "stops_well (\<lambda>w. case fr_now fr w of (finished, w1) \<Rightarrow>
                go_on (report\<lparr>rp_Passes := rp_Passes report @ [setTiming (fr_sr fr) pass started finished]\<rparr>) w1) running_report"
    if "running_report report" for report pass started
    using that by (intro stops_wellI) (auto simp: go_on_def split: prod.splits)
  have n: "stops_well (\<lambda>w. None) P" for P :: "Report \<Rightarrow> bool" by (simp add: stops_well_def)
  have b: "stops_well (body started) running_report" for started
    unfolding body_def
    by (rule stops_well_next [OF write_regions_stops]; (simp add: r)?)
      (rule stops_well_next [OF sync_device_stops]; (assumption | auto intro!: n stops_well_next [OF verify_regions_stops] t
         split: option.splits prod.splits)?)
  have e: "run_pass fr k p report w = (case fr_now fr w of (started, w1) \<Rightarrow>
      case sr_ctx_err (fr_sr fr) w1 of
        (Some e, w2) \<Rightarrow> stop_cancelled fr report \<lparr> ps_Number = k, ps_Pattern = pt_ID p, ps_WrittenBytes = 0,
          ps_VerifiedBytes = 0, ps_DurationMillis = 0, ps_BytesPerSecond = 0, ps_Failure = None \<rparr> started e w2
      | (None, w2) \<Rightarrow> body started w2)" for w
    unfolding run_pass_def Let_def body_def ..
  note s = stops_wellD [OF stop_cancelled_stops [OF r]] stops_wellD [OF b]
  show ?thesis by (rule stops_wellI) (auto simp: e dest: s split: prod.splits option.splits)
qed

lemma run_passes_stops: "running_report report \<Longrightarrow> stops_well (run_passes fr k ps report) running_report"
proof (induction ps arbitrary: k report)
  case Nil
  then show ?case by (simp add: stops_well_def go_on_def)
next
  case (Cons p ps)
  then show ?case by (auto intro: stops_well_next [OF run_pass_stops])
qed

lemma initial_report_running [simp]: "running_report (initial_report plan ps)"
  by (simp add: running_report_def initial_report_def)

text \<open>What \<open>Run\<close> returns: an argument error with no report, a stopped report, or a passed one.\<close>

lemma Run_cases:
  assumes "Run sr_opt backend_opt capacity config w = Some ((report, err), w1)"
  obtains (refused) "report = zero_report" "err \<noteq> None" "w1 = w"
  | (stopped) "stopped_report (report, err)"
  | (passed) sr backend config' plan where "sr_opt = Some sr" "backend_opt = Some backend"
      "effective_config sr config = Inr config'"
      "BuildPlan capacity (cf_RegionSize config') (cf_Profile config') = Inr plan"
      "run_passes (fixed_of sr backend config' plan) 0 (cf_Patterns config')
         (initial_report plan (cf_Patterns config')) w = Some (Inr report, w1)"
      "err = None" "running_report report"
proof -
  note s = stops_wellD [OF run_passes_stops [OF initial_report_running]]
  show ?thesis
    using assms
    by (auto simp: Run_def result_simps dest: s split: option.splits sum.splits prod.splits
        intro: refused stopped passed)
qed

section \<open>What a passed run proves of the device\<close>

text \<open>
  The contract of the locale on what \<open>Run\<close> is given: the device, the context, whichever clock is
  used and the progress callback.
\<close>

definition honest_device ::
  "('w \<Rightarrow> u64 \<Rightarrow> byte) \<Rightarrow> 'w surroundings \<Rightarrow> 'w Backend \<Rightarrow> 'w Config \<Rightarrow> bool" where
  "honest_device cell sr backend config \<longleftrightarrow>
     (\<forall>n off w d err w1. bk_ReadAt backend n off w = ((d, err), w1) \<longrightarrow> cell w1 = cell w
        \<and> (length d = n \<and> fatal_read_error err = None \<longrightarrow> d = map (\<lambda>i. cell w (off + of_nat i)) [0..<n]))
     \<and> (\<forall>w. cell (snd (sr_ctx_err sr w)) = cell w)
     \<and> (\<forall>now \<in> insert (sr_time_Now sr) (set_option (cf_Now config)). \<forall>w. cell (snd (now w)) = cell w)
     \<and> (\<forall>f \<in> set_option (cf_Progress config). \<forall>event w. cell (f event w) = cell w)"

lemma effective_config_fields:
  assumes "effective_config sr config = Inr c"
  shows "cf_Progress c = cf_Progress config" "cf_Patterns c \<noteq> []"
    and "the (cf_Now c) \<in> insert (sr_time_Now sr) (set_option (cf_Now config))"
    and "cf_Profile c = (if cf_Profile config = [] then ''quick'' else cf_Profile config)"
    and "cf_RegionSize c = (if cf_RegionSize config = 0 then 4194304 else cf_RegionSize config)"
    and "cf_Patterns config \<noteq> [] \<Longrightarrow> cf_Patterns c = cf_Patterns config"
  using assms unfolding effective_config_def
  by (auto simp: Let_def result_simps DefaultPatterns_def split: if_splits)

lemma honest_reader_of:
  assumes "honest_device cell sr backend config" "effective_config sr config = Inr c"
  shows "honest_reader cell (fixed_of sr backend c plan)"
proof -
  note f = effective_config_fields [OF assms(2)] and b = effective_config_buffer [OF assms(2)]
  have n: "cell (snd (the (cf_Now c) w)) = cell w" for w
    using assms(1) f(3) unfolding honest_device_def by blast
  have p: "cell (emit (cf_Progress c) event w) = cell w" for event w
    using assms(1) unfolding f(1) honest_device_def emit_def by (auto split: option.split)
  have r: "cell w1 = cell w" "length d = n \<Longrightarrow> fatal_read_error err = None \<Longrightarrow> d = map (\<lambda>i. cell w (off + of_nat i)) [0..<n]"
    if "bk_ReadAt backend n off w = ((d, err), w1)" for n off w d err w1
    using assms(1) that unfolding honest_device_def by blast+
  have e: "cell (snd (sr_ctx_err sr w)) = cell w" for w
    using assms(1) unfolding honest_device_def by blast
  show ?thesis
  proof (rule honest_reader.intro)
    show "working_buffer (fixed_of sr backend c plan)"
      using b by (simp add: fixed_of_def working_buffer_def nat_less_iff)
    show "d = map (\<lambda>i. cell w (off + of_nat i)) [0..<n]"
      if "bk_ReadAt (fr_backend (fixed_of sr backend c plan)) n off w = ((d, err), w1)" "length d = n"
        "fatal_read_error err = None" for n off w d err w1
      using r(2) that by (simp add: fixed_of_def)
    show "cell w1 = cell w"
      if "bk_ReadAt (fr_backend (fixed_of sr backend c plan)) n off w = (x, w1)" for n off w x w1
      using r(1) that by (cases x) (simp add: fixed_of_def)
    show "cell w1 = cell w" if "sr_ctx_err (fr_sr (fixed_of sr backend c plan)) w = (x, w1)" for x w w1
      using e [of w] that by (simp add: fixed_of_def)
    show "cell w1 = cell w" if "fr_now (fixed_of sr backend c plan) w = (x, w1)" for x w w1
      using n [of w] that by (simp add: fixed_of_def)
    show "cell (emit (fr_progress (fixed_of sr backend c plan)) event w) = cell w" for event w
      by (simp add: fixed_of_def p)
  qed
qed

text \<open>
  C2: on a device that reads honestly, whatever its writes and flushes do, a run that returns
  without an error reports passed, and then every region of the plan holds, all at once and at
  its own address, the pattern of the last pass.
\<close>
theorem passed_run_holds_pattern:
  assumes "honest_device cell sr backend config"
    and "Run (Some sr) (Some backend) capacity config w = Some ((report, None), w1)"
  shows "rp_Status report = ''passed'' \<and> (\<exists>config' plan. effective_config sr config = Inr config'
    \<and> BuildPlan capacity (cf_RegionSize config') (cf_Profile config') = Inr plan
    \<and> list_all (\<lambda>g. region_holds (cell w1) g (last (cf_Patterns config'))) (pl_Regions plan))"
  using assms(2)
proof (cases rule: Run_cases)
  case (passed sr' backend' config' plan)
  from passed(1-3) have c: "effective_config sr config = Inr config'" by simp
  have "list_all (\<lambda>g. region_holds (cell w1) g (last (cf_Patterns config'))) (pl_Regions plan)"
    using honest_reader.run_passes_hold [OF honest_reader_of [OF assms(1) c] _ effective_config_fields(2) [OF c]] passed
    by (fastforce simp: list_all_iff fixed_of_def)
  with passed c show ?thesis by (auto simp: running_report_def)
qed (simp_all add: stopped_report_def)

lemma region_holds_covered:
  assumes "region_holds f g p" "covers g a" "a < 2 ^ 64"
  shows "f (of_nat a) = pattern_byte p (of_nat a)"
proof -
  define i where "i = a - unat (rg_Offset g)"
  have i: "i < unat (rg_Length g)" "a = unat (rg_Offset g) + i"
    using assms(2) by (auto simp: covers_def region_end_def i_def)
  have "(of_nat a :: u64) = rg_Offset g + of_nat i" by (simp add: i(2))
  with assms(1) i(1) show ?thesis by (simp add: region_holds_bytes)
qed

lemma full_run_holds_everywhere:
  assumes "honest_device cell sr backend config" "cf_Profile config = ''full''"
    and "Run (Some sr) (Some backend) capacity config w = Some ((report, None), w1)"
  shows "\<exists>p. \<forall>a < unat capacity. cell w1 (of_nat a) = pattern_byte p (of_nat a)"
  using assms(3)
proof (cases rule: Run_cases)
  case (passed sr' backend' config' plan)
  from passed(1-3) have c: "effective_config sr config = Inr config'" by simp
  note f = effective_config_fields [OF c]
  have plan: "BuildPlan capacity (cf_RegionSize config') ''full'' = Inr plan" using passed(4) f(4) assms(2) by simp
  have "cell w1 (of_nat a) = pattern_byte (last (cf_Patterns config')) (of_nat a)" if a: "a < unat capacity" for a
  proof -
    from full_plan_covers [OF plan a] obtain g where g: "g \<in> set (pl_Regions plan)" "covers g a"
      using nth_mem by blast
    have "region_holds (cell w1) g (last (cf_Patterns config'))"
      using honest_reader.run_passes_hold [OF honest_reader_of [OF assms(1) c] _ f(2)] passed g(1)
      by (fastforce simp: fixed_of_def)
    with g(2) show ?thesis using a unat_lt_64 [of capacity] by (intro region_holds_covered) auto
  qed
  then show ?thesis by blast
qed (simp_all add: stopped_report_def)

text \<open>
  C1: a full run never passes a device that stores two different aligned words in one place,
  which is what a drive that reports more capacity than it has does: whatever the device does
  otherwise, the run returns with an error.
\<close>
theorem aliased_device_never_passes:
  assumes "honest_device cell sr backend config" "cf_Profile config = ''full''"
    and "8 * a \<noteq> 8 * b" "8 * a + 8 \<le> unat capacity" "8 * b + 8 \<le> unat capacity"
    and "\<And>w k. k < 8 \<Longrightarrow> cell w (of_nat (8 * a + k)) = cell w (of_nat (8 * b + k))"
  shows "\<exists>report e w1. Run (Some sr) (Some backend) capacity config w = Some ((report, Some e), w1)"
proof -
  obtain report err w1 where r: "Run (Some sr) (Some backend) capacity config w = Some ((report, err), w1)"
    using Run_returns [of "Some sr" "Some backend" capacity config w] by (elim exE)
  have "err \<noteq> None"
  proof
    assume "err = None"
    from full_run_holds_everywhere [OF assms(1,2) r [unfolded this]] obtain p where
      p: "\<And>i. i < unat capacity \<Longrightarrow> cell w1 (of_nat i) = pattern_byte p (of_nat i)" by blast
    have u: "unat (of_nat (8 * a) :: u64) = 8 * a" "unat (of_nat (8 * b) :: u64) = 8 * b"
      using assms(4,5) unat_lt_64 [of capacity] by (simp_all add: unat_of_nat_64 del: of_nat_mult)
    have m: "(of_nat (8 * a) :: u64) mod 8 = 0" "(of_nat (8 * b) :: u64) mod 8 = 0"
      using u by (simp_all add: word_eq_unat unat_mod del: of_nat_mult)
    have "(of_nat (8 * a) :: u64) = of_nat (8 * b)"
    proof (rule pattern_word_unique [OF m])
      fix k :: nat assume k: "k < 8"
      have "pattern_byte p (of_nat (8 * a + k)) = pattern_byte p (of_nat (8 * b + k))"
        using p [of "8 * a + k"] p [of "8 * b + k"] assms(6) [OF k, of w1] k assms(4,5) by simp
      then show "pattern_byte p (of_nat (8 * a) + of_nat k) = pattern_byte p (of_nat (8 * b) + of_nat k)"
        by (simp only: of_nat_add)
    qed
    then have "8 * a = 8 * b" using u by metis
    with assms(3) show False by simp
  qed
  with r show ?thesis by auto
qed

text \<open>
  C30: when the verification of a planned region finds fault with it, the failure names the first
  byte of the region that is not the pattern's, with the digest of what was read; and it is
  reported as an alias only when that digest is the digest of the pattern of another region of
  the plan, the one it names.
\<close>
theorem verification_failure_diagnosis:
  assumes "honest_reader cell fr" "g \<in> set (pl_Regions (fr_plan fr))" "distinct (map rg_Offset (pl_Regions (fr_plan fr)))"
    and "expectedDigests (pl_Regions (fr_plan fr)) p (fr_buffer fr) Map.empty Map.empty = Some (expected, owners)"
    and "verifyRegion (fr_sr fr) (fr_backend fr) g p (fr_buffer fr) (the (expected (rg_Offset g))) owners cb pass planned
      (fr_progress fr) w = Some ((v, Some failure, err), w1)"
  shows "err = Some ErrVerification \<and> fl_RegionOffset failure = rg_Offset g
    \<and> (\<exists>i < unat (rg_Length g). fl_ByteOffset failure = rg_Offset g + of_nat i
        \<and> cell w (rg_Offset g + of_nat i) \<noteq> pattern_byte p (rg_Offset g + of_nat i)
        \<and> (\<forall>j < i. cell w (rg_Offset g + of_nat j) = pattern_byte p (rg_Offset g + of_nat j)))
    \<and> fl_ActualSHA256 failure = sha256_hex (segment (cell w) (rg_Offset g) 0 (unat (rg_Length g)))
    \<and> fl_Kind failure = (if fl_AliasedWithOffset failure = None then ''mismatch'' else ''alias'')
    \<and> (\<forall>q. fl_AliasedWithOffset failure = Some q \<longrightarrow> q \<noteq> rg_Offset g
        \<and> (\<exists>other \<in> set (pl_Regions (fr_plan fr)). rg_Offset other = q
             \<and> fl_ActualSHA256 failure = region_digest p other))"
proof -
  note b = honest_reader.positive [OF assms(1)]
  note d = expectedDigests_value [OF b assms(3,4)]
  from assms(5) have v: "verifyRegion (fr_sr fr) (fr_backend fr) g p (fr_buffer fr) (region_digest p g) owners cb pass planned
      (fr_progress fr) w = Some ((v, Some failure, err), w1)"
    by (simp add: d(1) [OF assms(2)])
  show ?thesis
  proof (rule honest_reader.verifyRegion_diagnosis [OF assms(1) v])
    fix i
    assume i: "i < unat (rg_Length g)" "fl_ByteOffset failure = rg_Offset g + of_nat i"
      "cell w (rg_Offset g + of_nat i) \<noteq> pattern_byte p (rg_Offset g + of_nat i)"
      "\<forall>j < i. cell w (rg_Offset g + of_nat j) = pattern_byte p (rg_Offset g + of_nat j)"
      and f: "err = Some ErrVerification" "fl_RegionOffset failure = rg_Offset g"
      "fl_ActualSHA256 failure = sha256_hex (segment (cell w) (rg_Offset g) 0 (unat (rg_Length g)))"
      "fl_Kind failure = (if fl_AliasedWithOffset failure = None then ''mismatch'' else ''alias'')"
      and q: "\<And>q. fl_AliasedWithOffset failure = Some q \<Longrightarrow> q \<noteq> rg_Offset g \<and> owners (fl_ActualSHA256 failure) = Some q"
    have "\<forall>q. fl_AliasedWithOffset failure = Some q \<longrightarrow> q \<noteq> rg_Offset g
        \<and> (\<exists>other \<in> set (pl_Regions (fr_plan fr)). rg_Offset other = q
             \<and> fl_ActualSHA256 failure = region_digest p other)"
      using q d(3) by fastforce
    with i f show ?thesis by blast
  qed
qed

end
