(* ===== verification/DeviceLive.thy ===== *)
theory DeviceLive
  imports DeviceVerify
begin

text \<open>
  The other direction: on a device that completes its transfers and keeps what is written to it
  (the locale \<open>working_device\<close>) the qualification run passes, with every planned byte written and
  verified once per pattern.
\<close>

section \<open>A device that works passes\<close>

text \<open>The cells after the pattern has been written to the addresses from \<open>lo\<close> up to \<open>hi\<close>.\<close>

definition painted :: "Pattern \<Rightarrow> nat \<Rightarrow> nat \<Rightarrow> (u64 \<Rightarrow> byte) \<Rightarrow> u64 \<Rightarrow> byte" where
  "painted p lo hi c = (\<lambda>a. if lo \<le> unat a \<and> unat a < hi then pattern_byte p a else c a)"

lemma stored_pattern: "stored (FillPattern n off p) (unat off) c = painted p (unat off) (unat off + n) c"
proof
  fix a
  have "off + of_nat (unat a - unat off) = a" if "unat off \<le> unat a"
    using that by (simp add: of_nat_diff)
  then show "stored (FillPattern n off p) (unat off) c a = painted p (unat off) (unat off + n) c a"
    by (auto simp: stored_def painted_def FillPattern_eq)
qed

lemma painted_append: "lo \<le> mid \<Longrightarrow> mid \<le> hi \<Longrightarrow> painted p mid hi (painted p lo mid c) = painted p lo hi c"
  by (rule ext) (auto simp: painted_def)

lemma painted_empty [simp]: "hi \<le> lo \<Longrightarrow> painted p lo hi c = c"
  by (rule ext) (auto simp: painted_def)

text \<open>
  A device of the given capacity that works: within the capacity every write and read is
  complete, a flush succeeds and keeps the cells, and nobody cancels.
\<close>

locale working_device = honest_reader cell fr for cell :: "'w \<Rightarrow> u64 \<Rightarrow> byte" and fr :: "'w fixed_run" +
  fixes capacity :: nat
  assumes small: "capacity < 2 ^ 63"
    and alive: "fst (sr_ctx_err (fr_sr fr) w) = None"
    and write_works: "unat off + length buf \<le> capacity \<Longrightarrow>
      bk_WriteAt (fr_backend fr) buf off w = (r, w1) \<Longrightarrow>
      r = (length buf, None) \<and> cell w1 = stored buf (unat off) (cell w)"
    and read_works: "unat off + n \<le> capacity \<Longrightarrow> bk_ReadAt (fr_backend fr) n off w = (reply, w1) \<Longrightarrow>
      length (fst reply) = n \<and> snd reply = None"
    and sync_works: "bk_Sync (fr_backend fr) w = (e, w1) \<Longrightarrow> e = None \<and> cell w1 = cell w"
begin

lemma region_offset:
  assumes "region_end g \<le> capacity" "written \<le> rg_Length g"
  shows "unat (rg_Offset g + written) = unat (rg_Offset g) + unat written"
  using assms small by (intro unat_plus_64) (simp add: region_end_def word_le_unat)

lemma write_loop_works:
  assumes "region_end g \<le> capacity" "written \<le> rg_Length g"
  shows "\<exists>w1. write_loop (fr_sr fr) (fr_backend fr) g p (fr_buffer fr) cb pass planned (fr_progress fr) written w
      = Some ((rg_Length g, None), w1)
    \<and> cell w1 = painted p (unat (rg_Offset g) + unat written) (region_end g) (cell w)"
  using assms(2)
proof (induction written arbitrary: w rule: measure_induct_rule [of "\<lambda>x. unat (rg_Length g - x)"])
  case (less written)
  show ?case
  proof (cases "written < rg_Length g")
    case False
    with less.prems have "written = rg_Length g" by simp
    then show ?thesis by (subst write_loop.simps) (simp add: region_end_def)
  next
    case True
    note c = chunkSize_facts [OF True positive]
    define chunk where "chunk = chunkSize (rg_Length g - written) (fr_buffer fr)"
    note IH = less.IH [OF chunk_progress [OF True positive], folded chunk_def]
    note c = c [folded chunk_def]
    have o: "unat (rg_Offset g + written) = unat (rg_Offset g) + unat written"
      by (rule region_offset [OF assms(1) less.prems])
    obtain w2 where w2: "sr_ctx_err (fr_sr fr) w = (None, w2)" using alive [of w] by (metis prod.collapse)
    obtain r w3 where r: "bk_WriteAt (fr_backend fr) (FillPattern chunk (rg_Offset g + written) p) (rg_Offset g + written) w2
        = (r, w3)" by (metis prod.exhaust)
    have in_range: "unat (rg_Offset g + written) + length (FillPattern chunk (rg_Offset g + written) p) \<le> capacity"
      using assms(1) c(4) by (simp add: o region_end_def)
    from write_works [OF in_range r] have w3: "r = (chunk, None)"
      "cell w3 = painted p (unat (rg_Offset g) + unat written) (unat (rg_Offset g) + unat written + chunk) (cell w)"
      using stored_pattern [of chunk "rg_Offset g + written" p "cell w"] by (simp_all add: ctx_keeps [OF w2] o)
    have "\<exists>event. write_loop (fr_sr fr) (fr_backend fr) g p (fr_buffer fr) cb pass planned (fr_progress fr) written w
        = write_loop (fr_sr fr) (fr_backend fr) g p (fr_buffer fr) cb pass planned (fr_progress fr) (written + of_nat chunk)
            (emit (fr_progress fr) event w3)"
      unfolding write_loop.simps [of "fr_sr fr" "fr_backend fr" g p "fr_buffer fr" cb pass planned "fr_progress fr" written w]
      using True w2 r w3(1) by (auto simp: Let_def simp flip: chunk_def)
    then obtain event where e: "write_loop (fr_sr fr) (fr_backend fr) g p (fr_buffer fr) cb pass planned (fr_progress fr) written w
        = write_loop (fr_sr fr) (fr_backend fr) g p (fr_buffer fr) cb pass planned (fr_progress fr) (written + of_nat chunk)
            (emit (fr_progress fr) event w3)" ..
    from IH [of "emit (fr_progress fr) event w3"] show ?thesis
      unfolding e using c(3,4)
      by (auto simp: progress_keeps w3(2) region_end_def add.assoc painted_append)
  qed
qed

lemma verify_loop_works:
  assumes "region_end g \<le> capacity" "verified \<le> rg_Length g"
  shows "\<exists>v h m w1. verify_loop (fr_sr fr) (fr_backend fr) g p (fr_buffer fr) cb pass planned (fr_progress fr) verified hasher mm w
      = Some ((v, Inr (h, m)), w1)"
  using assms(2)
proof (induction verified arbitrary: hasher mm w rule: measure_induct_rule [of "\<lambda>x. unat (rg_Length g - x)"])
  case (less verified)
  show ?case
  proof (cases "verified < rg_Length g")
    case False
    then show ?thesis by (subst verify_loop.simps) simp
  next
    case True
    note c = chunkSize_facts [OF True positive]
    note IH = less.IH [OF chunk_progress [OF True positive]]
    let ?chunk = "chunkSize (rg_Length g - verified) (fr_buffer fr)"
    obtain w2 where w2: "sr_ctx_err (fr_sr fr) w = (None, w2)" using alive [of w] by (metis prod.collapse)
    obtain d e w3 where r: "bk_ReadAt (fr_backend fr) ?chunk (rg_Offset g + verified) w2 = ((d, e), w3)"
      by (metis prod.exhaust)
    have "unat (rg_Offset g + verified) + ?chunk \<le> capacity"
      using assms(1) c(4) by (simp add: region_offset [OF assms(1) less.prems] region_end_def)
    from read_works [OF this r] have "length d = ?chunk" "e = None" by simp_all
    then show ?thesis
      using True w2 r IH by (subst verify_loop.simps) (simp add: Let_def fatal_read_error_def)
  qed
qed

lemma verifyRegion_works:
  assumes "region_end g \<le> capacity" "region_holds (cell w) g p"
  shows "\<exists>w1. verifyRegion (fr_sr fr) (fr_backend fr) g p (fr_buffer fr) (region_digest p g) owners cb pass planned
      (fr_progress fr) w = Some ((rg_Length g, None, None), w1) \<and> cell w1 = cell w"
proof -
  obtain v h m w1 where l: "verify_loop (fr_sr fr) (fr_backend fr) g p (fr_buffer fr) cb pass planned (fr_progress fr) 0 [] None w
      = Some ((v, Inr (h, m)), w1)"
    using verify_loop_works [OF assms(1), of 0] by (metis word_zero_le)
  note vals = verify_loop_value [OF _ l, simplified]
  have "h = segment (pattern_byte p) (rg_Offset g) 0 (unat (rg_Length g))"
    using vals(3) assms(2) by (simp add: region_holds_def)
  moreover have "m = None"
    using vals(4) assms(2) by (simp add: region_holds_def first_difference_None)
  ultimately show ?thesis
    using l vals(1,2) by (simp add: verifyRegion_def region_digest_def)
qed

text \<open>A region that does not hold the pattern is reported.\<close>

lemma verifyRegion_finds:
  assumes "region_end g \<le> capacity" "\<not> region_holds (cell w) g p"
  shows "\<exists>v failure w1. verifyRegion (fr_sr fr) (fr_backend fr) g p (fr_buffer fr) expected owners cb pass planned
      (fr_progress fr) w = Some ((v, Some failure, Some ErrVerification), w1)"
proof -
  obtain v h m w1 where l: "verify_loop (fr_sr fr) (fr_backend fr) g p (fr_buffer fr) cb pass planned (fr_progress fr) 0 [] None w
      = Some ((v, Inr (h, m)), w1)"
    using verify_loop_works [OF assms(1), of 0] by (metis word_zero_le)
  have "m \<noteq> None"
    using verify_loop_value(4) [OF _ l] assms(2) by (simp add: region_holds_def first_difference_None)
  with l show ?thesis by (simp add: verifyRegion_def Let_def split: option.split)
qed

text \<open>Every byte of the regions written so far carries the pattern.\<close>

definition written_regions :: "(u64 \<Rightarrow> byte) \<Rightarrow> Pattern \<Rightarrow> Region list \<Rightarrow> bool" where
  "written_regions c p gs \<longleftrightarrow> (\<forall>g \<in> set gs. \<forall>a. covers g (unat a) \<longrightarrow> c a = pattern_byte p a)"

lemma written_regions_hold:
  assumes "written_regions c p gs" "g \<in> set gs" "region_end g \<le> capacity"
  shows "region_holds c g p"
proof -
  have "covers g (unat (rg_Offset g + of_nat i))" if "i < unat (rg_Length g)" for i
  proof -
    have "unat (rg_Offset g + of_nat i) = unat (rg_Offset g) + i"
      using that assms(3) small by (simp add: region_end_def unat_plus_64 unat_of_nat_64)
    with that show ?thesis by (simp add: covers_def region_end_def)
  qed
  with assms(1,2) show ?thesis by (simp add: written_regions_def region_holds_bytes)
qed

lemma write_regions_works:
  assumes "\<forall>g \<in> set gs. region_end g \<le> capacity" "running_state st" "written_regions (cell w) p before"
  shows "\<exists>report pass w1. write_regions fr p started gs st w = Some (Inr (report, pass), w1)
    \<and> written_regions (cell w1) p (before @ gs)
    \<and> rp_CompletedBytes report = rp_CompletedBytes (fst st) + sum_list (map rg_Length gs)
    \<and> rp_Passes report = rp_Passes (fst st)"
  using assms
proof (induction gs arbitrary: st w before)
  case Nil
  then show ?case by (cases st) (simp add: go_on_def)
next
  case (Cons g gs)
  obtain report pass where st: "st = (report, pass)" by (cases st)
  have "region_end g \<le> capacity" using Cons.prems by simp
  from write_loop_works [OF this, of 0 p "ps_WrittenBytes pass" "ps_Number pass" "pl_PlannedBytes (fr_plan fr)" w]
  obtain w2 where w2: "writeRegion (fr_sr fr) (fr_backend fr) g p (fr_buffer fr) (ps_WrittenBytes pass)
             (ps_Number pass) (pl_PlannedBytes (fr_plan fr)) (fr_progress fr) w = Some ((rg_Length g, None), w2)"
    "cell w2 = painted p (unat (rg_Offset g)) (region_end g) (cell w)"
    by (auto simp: writeRegion_def)
  let ?st = "(report\<lparr>rp_CompletedBytes := rp_CompletedBytes report + rg_Length g\<rparr>,
     pass\<lparr>ps_WrittenBytes := ps_WrittenBytes pass + rg_Length g\<rparr>)"
  have "written_regions (cell w2) p (before @ [g])"
    using Cons.prems(3) by (auto simp: written_regions_def w2(2) painted_def covers_def)
  with Cons.IH [of ?st w2 "before @ [g]"] Cons.prems w2(1) show ?case by (simp add: st add.assoc)
qed

lemma verify_regions_works:
  assumes "\<forall>i \<in> set order. nat i < length (pl_Regions (fr_plan fr))"
    and "\<forall>g \<in> set (pl_Regions (fr_plan fr)). region_end g \<le> capacity \<and> region_holds (cell w) g p
      \<and> expected (rg_Offset g) = Some (region_digest p g)"
  shows "\<exists>report pass w1. verify_regions fr p started expected owners order st w = Some (Inr (report, pass), w1)
    \<and> cell w1 = cell w
    \<and> rp_CompletedBytes report = rp_CompletedBytes (fst st)
        + sum_list (map (\<lambda>i. rg_Length (pl_Regions (fr_plan fr) ! nat i)) order)
    \<and> rp_Passes report = rp_Passes (fst st)"
  using assms
proof (induction order arbitrary: st w)
  case Nil
  then show ?case by (cases st) (simp add: go_on_def)
next
  case (Cons i order)
  obtain report pass where st: "st = (report, pass)" by (cases st)
  let ?g = "pl_Regions (fr_plan fr) ! nat i"
  have g: "?g \<in> set (pl_Regions (fr_plan fr))" using Cons.prems(1) by simp
  with Cons.prems(2) have h: "region_end ?g \<le> capacity" "region_holds (cell w) ?g p"
    "expected (rg_Offset ?g) = Some (region_digest p ?g)" by auto
  from verifyRegion_works [OF h(1,2)] obtain w2 where
    w2: "verifyRegion (fr_sr fr) (fr_backend fr) ?g p (fr_buffer fr) (region_digest p ?g) owners
             (ps_VerifiedBytes pass) (ps_Number pass) (pl_PlannedBytes (fr_plan fr)) (fr_progress fr) w
           = Some ((rg_Length ?g, None, None), w2)" and k: "cell w2 = cell w" by blast
  let ?st = "(report\<lparr>rp_CompletedBytes := rp_CompletedBytes report + rg_Length ?g\<rparr>,
     pass\<lparr>ps_VerifiedBytes := ps_VerifiedBytes pass + rg_Length ?g\<rparr>)"
  from Cons.IH [of w2 ?st] Cons.prems w2 h(3) show ?case by (simp add: st k add.assoc Let_def)
qed

lemma run_pass_works:
  assumes "well_placed capacity (pl_Regions (fr_plan fr))" "running_report report"
  shows "\<exists>report' w1. run_pass fr k p report w = Some (Inr report', w1)
    \<and> rp_CompletedBytes report' = rp_CompletedBytes report + 2 * sum_list (map rg_Length (pl_Regions (fr_plan fr)))
    \<and> length (rp_Passes report') = length (rp_Passes report) + 1"
proof -
  let ?gs = "pl_Regions (fr_plan fr)"
  let ?order = "verificationOrder (int (length ?gs)) (pl_SentinelIndices (fr_plan fr))"
  let ?pass = "\<lparr> ps_Number = k, ps_Pattern = pt_ID p, ps_WrittenBytes = 0, ps_VerifiedBytes = 0,
                   ps_DurationMillis = 0, ps_BytesPerSecond = 0, ps_Failure = None \<rparr>"
  have le: "\<forall>g \<in> set ?gs. region_end g \<le> capacity" using assms(1) by (simp add: well_placed_def)
  obtain started w1 where w1: "fr_now fr w = (started, w1)" by (metis prod.exhaust)
  obtain w2 where w2: "sr_ctx_err (fr_sr fr) w1 = (None, w2)" using alive [of w1] by (metis prod.collapse)
  obtain report3 pass3 w3 where
    w3: "write_regions fr p started ?gs (report, ?pass) w2 = Some (Inr (report3, pass3), w3)"
    and written: "written_regions (cell w3) p ?gs"
    and r3: "rp_CompletedBytes report3 = rp_CompletedBytes report + sum_list (map rg_Length ?gs)"
      "rp_Passes report3 = rp_Passes report"
    using write_regions_works [OF le, of "(report, ?pass)" w2 p "[]" started] assms(2)
    by (auto simp: written_regions_def)
  obtain e w4 where sy: "bk_Sync (fr_backend fr) w3 = (e, w4)" by (metis prod.exhaust)
  note s4 = sync_works [OF sy]
  obtain expected owners where d: "expectedDigests ?gs p (fr_buffer fr) Map.empty Map.empty = Some (expected, owners)"
    using expectedDigests_returns [OF positive] by (metis prod.exhaust)
  have "sorted_wrt (<) (map (\<lambda>g. unat (rg_Offset g)) ?gs)"
  proof -
    have "unat (rg_Offset a) < unat (rg_Offset b)"
      if "a \<in> set ?gs" "region_end a \<le> unat (rg_Offset b)" for a b
      using assms(1) that by (fastforce simp: well_placed_def region_end_def word_less_unat)
    with assms(1) show ?thesis
      by (auto simp: well_placed_def sorted_wrt_map intro: sorted_wrt_mono_rel [rotated])
  qed
  then have "distinct (map (\<lambda>g. unat (rg_Offset g)) ?gs)" by (simp add: strict_sorted_iff)
  then have dis: "distinct (map rg_Offset ?gs)" by (auto simp: distinct_map inj_on_def)
  have holds: "\<forall>g \<in> set ?gs. region_end g \<le> capacity \<and> region_holds (cell w4) g p
      \<and> expected (rg_Offset g) = Some (region_digest p g)"
    using le written_regions_hold [OF written] expectedDigests_value(1) [OF positive dis d] s4 by simp
  have "\<forall>i \<in> set ?order. nat i < length ?gs" by (auto simp: verificationOrder_perm nat_less_iff)
  from verify_regions_works [OF this holds, of started owners "(report3, pass3)"] obtain report5 pass5 w5 where
    w5: "verify_regions fr p started expected owners ?order (report3, pass3) w4 = Some (Inr (report5, pass5), w5)"
    and r5: "rp_CompletedBytes report5 = rp_CompletedBytes report3 + sum_list (map (\<lambda>i. rg_Length (?gs ! nat i)) ?order)"
      "rp_Passes report5 = rp_Passes report3" by auto
  obtain finished w6 where w6: "fr_now fr w5 = (finished, w6)" by (metis prod.exhaust)
  have "mset ?order = mset (map int [0..<length ?gs])"
  proof -
    have "set ?order = set (map int [0..<length ?gs])" using set_int_upt [of "int (length ?gs)"] verificationOrder_perm by simp
    moreover have "distinct ?order" "distinct (map int [0..<length ?gs])"
      by (simp_all add: verificationOrder_perm distinct_map)
    ultimately show ?thesis by (simp only: set_eq_iff_mset_eq_distinct)
  qed
  then have "sum_list (map (\<lambda>i. rg_Length (?gs ! nat i)) ?order) =
      sum_list (map (\<lambda>i. rg_Length (?gs ! nat i)) (map int [0..<length ?gs]))"
    by (simp only: sum_mset_sum_list [symmetric] mset_map)
  also have "map (\<lambda>i. rg_Length (?gs ! nat i)) (map int [0..<length ?gs]) = map rg_Length ?gs"
    by (rule nth_equalityI) simp_all
  finally have total: "sum_list (map (\<lambda>i. rg_Length (?gs ! nat i)) ?order) = sum_list (map rg_Length ?gs)" .
  show ?thesis
    using w1 w2 w3 sy s4 d w5 w6 r3 r5 total
    by (simp add: run_pass_def Let_def next_run_def sync_device_def go_on_def)
qed

lemma run_passes_works:
  assumes "well_placed capacity (pl_Regions (fr_plan fr))" "running_report report"
  shows "\<exists>report' w1. run_passes fr k ps report w = Some (Inr report', w1) \<and> running_report report'
    \<and> rp_CompletedBytes report' = rp_CompletedBytes report
        + of_nat (length ps) * (2 * sum_list (map rg_Length (pl_Regions (fr_plan fr))))
    \<and> length (rp_Passes report') = length (rp_Passes report) + length ps"
  using assms(2)
proof (induction ps arbitrary: k report w)
  case Nil
  then show ?case by (simp add: go_on_def)
next
  case (Cons p ps)
  from run_pass_works [OF assms(1) Cons.prems] obtain report2 w2 where
    r: "run_pass fr (k + 1) p report w = Some (Inr report2, w2)"
    and b: "rp_CompletedBytes report2 = rp_CompletedBytes report + 2 * sum_list (map rg_Length (pl_Regions (fr_plan fr)))"
      "length (rp_Passes report2) = length (rp_Passes report) + 1" by blast
  have "running_report report2" using stops_wellD(2) [OF run_pass_stops [OF Cons.prems] r] .
  from Cons.IH [OF this, of "k + 1" w2] r b show ?case
    by (auto simp: next_run_def algebra_simps)
qed

end

text \<open>The contract of \<open>working_device\<close> on what \<open>Run\<close> is given.\<close>

definition working_backend ::
  "('w \<Rightarrow> u64 \<Rightarrow> byte) \<Rightarrow> nat \<Rightarrow> 'w surroundings \<Rightarrow> 'w Backend \<Rightarrow> bool" where
  "working_backend cell capacity sr backend \<longleftrightarrow>
     (\<forall>w. fst (sr_ctx_err sr w) = None)
     \<and> (\<forall>off buf w. unat off + length buf \<le> capacity \<longrightarrow> fst (bk_WriteAt backend buf off w) = (length buf, None)
          \<and> cell (snd (bk_WriteAt backend buf off w)) = stored buf (unat off) (cell w))
     \<and> (\<forall>off n w. unat off + n \<le> capacity \<longrightarrow> length (fst (fst (bk_ReadAt backend n off w))) = n
          \<and> snd (fst (bk_ReadAt backend n off w)) = None)
     \<and> (\<forall>w. fst (bk_Sync backend w) = None \<and> cell (snd (bk_Sync backend w)) = cell w)"

lemma working_device_of:
  assumes "honest_device cell sr backend config" "working_backend cell capacity sr backend" "capacity < 2 ^ 63"
    and "effective_config sr config = Inr c"
  shows "working_device cell (fixed_of sr backend c plan) capacity"
proof (rule working_device.intro [OF honest_reader_of [OF assms(1,4)] working_device_axioms.intro])
  note [simp] = fixed_of_def
  note w = assms(2) [unfolded working_backend_def]
  show "capacity < 2 ^ 63" by (rule assms(3))
  show "fst (sr_ctx_err (fr_sr (fixed_of sr backend c plan)) w) = None" for w using w by simp
  show "r = (length buf, None) \<and> cell w1 = stored buf (unat off) (cell w)"
    if l: "unat off + length buf \<le> capacity" and r: "bk_WriteAt (fr_backend (fixed_of sr backend c plan)) buf off w = (r, w1)"
    for off buf w r w1
  proof -
    have "fst (bk_WriteAt backend buf off w) = (length buf, None)
          \<and> cell (snd (bk_WriteAt backend buf off w)) = stored buf (unat off) (cell w)"
      using w l by blast
    with r show ?thesis by simp
  qed
  show "length (fst r) = n \<and> snd r = None"
    if l: "unat off + n \<le> capacity" and r: "bk_ReadAt (fr_backend (fixed_of sr backend c plan)) n off w = (r, w1)"
    for off n w r w1
  proof -
    have "length (fst (fst (bk_ReadAt backend n off w))) = n \<and> snd (fst (bk_ReadAt backend n off w)) = None"
      using w l by blast
    with r show ?thesis by simp
  qed
  show "e = None \<and> cell w1 = cell w" if r: "bk_Sync (fr_backend (fixed_of sr backend c plan)) w = (e, w1)" for w e w1
  proof -
    have "fst (bk_Sync backend w) = None \<and> cell (snd (bk_Sync backend w)) = cell w" using w by blast
    with r show ?thesis by simp
  qed
qed

lemma word_sum_planned: "of_nat (planned_bytes gs) = (sum_list (map rg_Length gs) :: u64)"
  by (induction gs) (simp_all add: planned_bytes_def)

lemma working_device_passes_run:
  assumes "honest_device cell sr backend config" "working_backend cell (unat capacity) sr backend"
    and "effective_config sr config = Inr config'"
    and "BuildPlan capacity (cf_RegionSize config') (cf_Profile config') = Inr plan"
  shows "\<exists>report w1. Run (Some sr) (Some backend) capacity config w = Some ((report, None), w1)
    \<and> rp_Status report = ''passed'' \<and> length (rp_Passes report) = length (cf_Patterns config')
    \<and> rp_CompletedBytes report = of_nat (2 * length (cf_Patterns config')) * pl_PlannedBytes plan"
proof -
  have "unat capacity < 2 ^ 63" using BuildPlan_eq(1) [OF assms(4)] by (simp add: valid_request_def)
  note wd = working_device_of [OF assms(1,2) this assms(3), of plan]
  have placed: "well_placed (unat capacity) (pl_Regions (fr_plan (fixed_of sr backend config' plan)))"
    using plan_regions_facts(2) [OF assms(4)] by (simp add: fixed_of_def)
  have planned: "sum_list (map rg_Length (pl_Regions plan)) = pl_PlannedBytes plan"
    by (simp flip: word_sum_planned BuildPlan_eq(6) [OF assms(4)])
  from working_device.run_passes_works [OF wd placed initial_report_running, of 0 "cf_Patterns config'" plan "cf_Patterns config'" w]
  obtain report w1 where "run_passes (fixed_of sr backend config' plan) 0 (cf_Patterns config')
        (initial_report plan (cf_Patterns config')) w = Some (Inr report, w1)" "running_report report"
    "rp_CompletedBytes report = of_nat (length (cf_Patterns config')) * (2 * pl_PlannedBytes plan)"
    "length (rp_Passes report) = length (cf_Patterns config')"
    using planned by (auto simp: initial_report_def fixed_of_def)
  then show ?thesis
    by (auto simp: Run_def assms(3,4) running_report_def ac_simps)
qed

text \<open>
  C3: a device that works passes: every planned byte is written and verified once per pattern,
  and the run returns a passed report without an error.
\<close>
theorem working_device_passes:
  assumes "honest_device cell sr backend config" "working_backend cell (unat capacity) sr backend"
    and "effective_config sr config = Inr config'"
    and "BuildPlan capacity (cf_RegionSize config') (cf_Profile config') = Inr plan"
  shows "\<exists>report w1. Run (Some sr) (Some backend) capacity config w = Some ((report, None), w1)
    \<and> rp_Status report = ''passed'' \<and> length (rp_Passes report) = length (cf_Patterns config')
    \<and> rp_CompletedBytes report = of_nat (2 * length (cf_Patterns config')) * pl_PlannedBytes plan"
  by (rule working_device_passes_run [OF assms])

end
