(* ===== verification/DeviceRun.thy ===== *)
theory DeviceRun
  imports DeviceLive Target
begin

text \<open>
  \<open>internal/devicequal/executor_linux.go\<close> and \<open>finalization_linux.go\<close>: the qualification of a
  real block device through one held descriptor, with its identity and capacity checked before
  the first write, after every flush and at the end, and a report that never stays passed when
  any of this, or the close, failed.
\<close>

section \<open>The held descriptor\<close>

text \<open>
  The calls of \<open>os.File\<close> on the descriptor. \<open>fstat\<close> and the capacity query read the state of the
  world and leave it as it is; \<open>BLKFLSBUF\<close> is the flush of the kernel's buffers.
\<close>

record 'w device_file =
  df_Open :: "string \<Rightarrow> 'w poll"
  df_ReadAt :: "'w read_at"
  df_WriteAt :: "'w write_at"
  df_Sync :: "'w poll"
  df_flush_buffers :: "'w poll"
  df_fstat :: "'w \<Rightarrow> (bool \<times> u64) res"
  df_capacity :: "'w \<Rightarrow> u64 res"
  df_Close :: "'w poll"

record 'w DeviceOptions =
  do_ExpectedDeviceID :: u64
  do_ExpectedSize :: u64
  do_Profile :: string
  do_RegionSize :: u64
  do_BufferSize :: int
  do_Patterns :: "Pattern list"
  do_Progress :: "(Progress \<Rightarrow> 'w \<Rightarrow> 'w) option"
  do_BeforeWrite :: "'w poll option"

definition verify_open :: "'w device_file \<Rightarrow> u64 \<Rightarrow> u64 \<Rightarrow> ('w, unit) act" where
  "verify_open file expectedID expectedSize w =
     (VerifyOpenDevice (df_fstat file w) (df_capacity file w) expectedID expectedSize, w)"

text \<open>\<open>errors.Join\<close> of the errors that are not nil.\<close>

fun join_format :: "go_error list \<Rightarrow> string" where
  "join_format [] = []"
| "join_format [e] = ''%w''"
| "join_format (e # es) = ''%w'' @ [CHR 0x0A] @ join_format es"

definition join_errors :: "go_error option list \<Rightarrow> go_error option" where
  "join_errors errs =
     (case List.map_filter id errs of [] \<Rightarrow> None | es \<Rightarrow> Some (Errorf (join_format es) (map FE es)))"

definition flushed_Sync :: "'w surroundings \<Rightarrow> 'w device_file \<Rightarrow> u64 \<Rightarrow> u64 \<Rightarrow> ('w, unit) act" where
  "flushed_Sync sr file expectedID expectedSize =
     bind_act (try_call (sr_ctx_err sr)) (\<lambda>_.
     bind_act (wrap_act (\<lambda>e. Errorf ''sync qualification target: %w'' [FE e]) (try_call (df_Sync file))) (\<lambda>_.
     bind_act (wrap_act (\<lambda>e. Errorf ''flush qualification target buffers: %w'' [FE e])
       (try_call (df_flush_buffers file))) (\<lambda>_.
     verify_open file expectedID expectedSize)))"

text \<open>An operation without a value, seen as the error it returns.\<close>

definition as_poll :: "('w, unit) act \<Rightarrow> 'w poll" where
  "as_poll m w = (case m w of (Inl e, w1) \<Rightarrow> (Some e, w1) | (Inr _, w1) \<Rightarrow> (None, w1))"

definition flushedDeviceBackend :: "'w surroundings \<Rightarrow> 'w device_file \<Rightarrow> u64 \<Rightarrow> u64 \<Rightarrow> 'w Backend" where
  "flushedDeviceBackend sr file expectedID expectedSize =
     \<lparr> bk_ReadAt = df_ReadAt file, bk_WriteAt = df_WriteAt file,
       bk_Sync = as_poll (flushed_Sync sr file expectedID expectedSize) \<rparr>"

section \<open>The run\<close>

definition finishDeviceRun :: "Report \<Rightarrow> go_error option \<Rightarrow> go_error option \<Rightarrow> Report \<times> go_error option" where
  "finishDeviceRun report runErr closeErr =
     (let cleanupErr = map_option (\<lambda>e. Errorf ''close qualification target: %w'' [FE e]) closeErr;
          finalErr = join_errors [runErr, cleanupErr] in
      if finalErr = None \<or> rp_Schema report = 0 then (report, finalErr)
      else
      case rp_Failure report of
        Some failure \<Rightarrow>
          (case cleanupErr of
             Some cleanup \<Rightarrow>
               (report\<lparr>rp_Failure := Some (failure\<lparr>fl_Message :=
                  the (join_errors [Some (fl_Message failure), Some cleanup])\<rparr>)\<rparr>, finalErr)
           | None \<Rightarrow> (report, finalErr))
      | None \<Rightarrow>
          (let kind = (if runErr = None then ''close'' else ''finalize'');
               message = (if runErr = None then the cleanupErr else the finalErr);
               failure =
                 \<lparr> fl_Kind = kind, fl_Pass = 0, fl_Pattern = [], fl_RegionIndex = - 1, fl_RegionOffset = 0,
                   fl_ByteOffset = 0, fl_ExpectedSHA256 = [], fl_ActualSHA256 = [], fl_AliasedWithOffset = None,
                   fl_Message = message \<rparr>;
               report = (if rp_Status report = ''passed'' then report\<lparr>rp_Status := ''failed''\<rparr> else report) in
           (report\<lparr>rp_Failure := Some failure, rp_AliasingDetected := False\<rparr>, finalErr)))"

text \<open>The checks on the descriptor before the engine may write.\<close>

definition before_engine :: "'w device_file \<Rightarrow> 'w DeviceOptions \<Rightarrow> ('w, unit) act" where
  "before_engine file options =
     bind_act (verify_open file (do_ExpectedDeviceID options) (do_ExpectedSize options)) (\<lambda>_.
     bind_act
       (case do_BeforeWrite options of
          Some f \<Rightarrow> wrap_act (\<lambda>e. Errorf ''final qualification target safety check: %w'' [FE e]) (try_call f)
        | None \<Rightarrow> ret_act ()) (\<lambda>_.
     verify_open file (do_ExpectedDeviceID options) (do_ExpectedSize options)))"

definition device_config :: "'w DeviceOptions \<Rightarrow> 'w Config" where
  "device_config options =
     \<lparr> cf_Profile = do_Profile options, cf_RegionSize = do_RegionSize options,
       cf_BufferSize = do_BufferSize options, cf_Patterns = do_Patterns options,
       cf_Progress = do_Progress options, cf_Now = None \<rparr>"

text \<open>What happens on the open descriptor, up to the deferred close.\<close>

definition run_on_descriptor ::
  "'w surroundings \<Rightarrow> 'w device_file \<Rightarrow> 'w DeviceOptions \<Rightarrow> 'w \<Rightarrow> ((Report \<times> go_error option) \<times> 'w) option" where
  "run_on_descriptor sr file options w =
     (let expectedID = do_ExpectedDeviceID options; expectedSize = do_ExpectedSize options in
      case before_engine file options w of
        (Inl e, w1) \<Rightarrow> Some ((zero_report, Some e), w1)
      | (Inr _, w1) \<Rightarrow>
          (case Run (Some sr) (Some (flushedDeviceBackend sr file expectedID expectedSize)) expectedSize
                  (device_config options) w1 of
             None \<Rightarrow> None
           | Some ((report, Some e), w2) \<Rightarrow> Some ((report, Some e), w2)
           | Some ((report, None), w2) \<Rightarrow>
               (case verify_open file expectedID expectedSize w2 of
                  (Inl e, w3) \<Rightarrow> Some ((report, Some e), w3)
                | (Inr _, w3) \<Rightarrow> Some ((report, None), w3))))"

definition RunDevice ::
  "'w surroundings option \<Rightarrow> 'w device_file \<Rightarrow> string \<Rightarrow> 'w DeviceOptions \<Rightarrow> 'w
     \<Rightarrow> ((Report \<times> go_error option) \<times> 'w) option" where
  "RunDevice sr_opt file path options w =
     (case sr_opt of
        None \<Rightarrow> Some ((zero_report, Some (Msg ''device qualification context is nil'')), w)
      | Some sr \<Rightarrow>
      if path = [] then Some ((zero_report, Some (Msg ''device qualification path is empty'')), w)
      else if do_ExpectedDeviceID options = 0
      then Some ((zero_report, Some (Msg ''expected kernel device identity is required'')), w)
      else if do_ExpectedSize options = 0
      then Some ((zero_report, Some (Msg ''expected device capacity is required'')), w)
      else
      (case bind_act (try_call (sr_ctx_err sr)) (\<lambda>_.
              wrap_act (\<lambda>e. Errorf ''open qualification target: %w'' [FE e]) (try_call (df_Open file path))) w of
         (Inl e, w1) \<Rightarrow> Some ((zero_report, Some e), w1)
       | (Inr _, w1) \<Rightarrow>
           (case run_on_descriptor sr file options w1 of
              None \<Rightarrow> None
            | Some ((report, err), w2) \<Rightarrow>
                (case df_Close file w2 of (closeErr, w3) \<Rightarrow>
                   Some (finishDeviceRun report err closeErr, w3)))))"

section \<open>The verdict\<close>

text \<open>What a report and an error of the descriptor part can be.\<close>

definition sane_outcome :: "Report \<times> go_error option \<Rightarrow> bool" where
  "sane_outcome r \<longleftrightarrow> (fst r = zero_report \<and> snd r \<noteq> None) \<or> stopped_report r \<or> running_report (fst r)"

lemma Run_sane:
  assumes "Run sr_opt backend_opt capacity config w = Some (r, w1)"
  shows "sane_outcome r" and "snd r = None \<Longrightarrow> running_report (fst r)"
proof -
  obtain report err where r: "r = (report, err)" by (cases r)
  show "sane_outcome r"
    by (rule Run_cases [OF assms [unfolded r]]) (auto simp: sane_outcome_def r)
  show "snd r = None \<Longrightarrow> running_report (fst r)"
    by (rule Run_cases [OF assms [unfolded r]]) (auto simp: r stopped_report_def)
qed

abbreviation descriptor_backend :: "'w surroundings \<Rightarrow> 'w device_file \<Rightarrow> 'w DeviceOptions \<Rightarrow> 'w Backend" where
  "descriptor_backend sr file options \<equiv>
     flushedDeviceBackend sr file (do_ExpectedDeviceID options) (do_ExpectedSize options)"

lemma run_on_descriptor_cases:
  assumes "run_on_descriptor sr file options w = Some ((report, err), w1)"
  obtains (refused) "report = zero_report" "err \<noteq> None"
  | (engine) w2 e where "Run (Some sr) (Some (descriptor_backend sr file options)) (do_ExpectedSize options)
        (device_config options) w2 = Some ((report, Some e), w1)" "err = Some e"
  | (checked) w2 where "Run (Some sr) (Some (descriptor_backend sr file options)) (do_ExpectedSize options)
        (device_config options) w2 = Some ((report, None), w1)"
      "err = (case VerifyOpenDevice (df_fstat file w1) (df_capacity file w1) (do_ExpectedDeviceID options)
         (do_ExpectedSize options) of Inl e \<Rightarrow> Some e | Inr _ \<Rightarrow> None)"
proof (cases "before_engine file options w")
  case (Pair r w2)
  show thesis
  proof (cases r)
    case (Inl e)
    with assms Pair show thesis by (auto simp: run_on_descriptor_def intro: refused)
  next
    case (Inr u)
    show thesis
    proof (cases "Run (Some sr) (Some (descriptor_backend sr file options)) (do_ExpectedSize options)
        (device_config options) w2")
      case None
      with assms Pair Inr show thesis by (simp add: run_on_descriptor_def Let_def)
    next
      case (Some r3)
      obtain report3 err3 w3 where r3: "r3 = ((report3, err3), w3)" by (metis prod.exhaust)
      show thesis
      proof (cases err3)
        case None
        with assms Pair Inr Some r3 have "report = report3 \<and> w1 = w3 \<and>
            err = (case VerifyOpenDevice (df_fstat file w3) (df_capacity file w3) (do_ExpectedDeviceID options)
              (do_ExpectedSize options) of Inl e \<Rightarrow> Some e | Inr _ \<Rightarrow> None)"
          by (simp add: run_on_descriptor_def Let_def verify_open_def split: sum.splits)
        with None Some r3 show thesis by (intro checked) simp_all
      next
        case (Some e)
        with assms Pair Inr \<open>Run _ _ _ _ w2 = _\<close> r3 show thesis
          by (intro engine [of w2 e]) (simp_all add: run_on_descriptor_def Let_def)
      qed
    qed
  qed
qed

lemma run_on_descriptor_sane:
  assumes "run_on_descriptor sr file options w = Some ((report, err), w1)"
  shows "sane_outcome (report, err)" and "err = None \<Longrightarrow> running_report report"
proof -
  have "sane_outcome (report, err) \<and> (err = None \<longrightarrow> running_report report)"
    using assms
  proof (cases rule: run_on_descriptor_cases)
    case refused
    then show ?thesis by (auto simp: sane_outcome_def)
  next
    case (engine w2 e)
    then show ?thesis using Run_sane(1) [OF engine(1)] by simp
  next
    case (checked w2)
    then show ?thesis using Run_sane(2) [OF checked(1)] by (simp add: sane_outcome_def)
  qed
  then show "sane_outcome (report, err)" "err = None \<Longrightarrow> running_report report" by simp_all
qed

lemma join_errors_None [simp]: "join_errors [a, b] = None \<longleftrightarrow> a = None \<and> b = None"
  by (cases a; cases b) (simp_all add: join_errors_def List.map_filter_def)

lemma finishDeviceRun_verdict:
  assumes "sane_outcome (report, err)" "err = None \<Longrightarrow> running_report report"
  shows "snd (finishDeviceRun report err closeErr) = None \<longleftrightarrow> err = None \<and> closeErr = None"
    and "snd (finishDeviceRun report err closeErr) = None \<Longrightarrow>
      fst (finishDeviceRun report err closeErr) = report \<and> running_report report"
    and "snd (finishDeviceRun report err closeErr) \<noteq> None \<Longrightarrow>
      rp_Schema (fst (finishDeviceRun report err closeErr)) \<noteq> 0 \<Longrightarrow>
      rp_Status (fst (finishDeviceRun report err closeErr)) \<noteq> ''passed''
      \<and> rp_Failure (fst (finishDeviceRun report err closeErr)) \<noteq> None"
proof -
  have e: "snd (finishDeviceRun report err closeErr) = join_errors [err,
      map_option (\<lambda>e. Errorf ''close qualification target: %w'' [FE e]) closeErr]"
    by (simp add: finishDeviceRun_def Let_def split: option.split)
  show n: "snd (finishDeviceRun report err closeErr) = None \<longleftrightarrow> err = None \<and> closeErr = None"
    by (simp add: e)
  show "fst (finishDeviceRun report err closeErr) = report \<and> running_report report"
    if "snd (finishDeviceRun report err closeErr) = None"
    using that assms(2) unfolding n by (simp add: finishDeviceRun_def)
  have schema: "rp_Schema (fst (finishDeviceRun report err closeErr)) = rp_Schema report"
    by (simp add: finishDeviceRun_def Let_def split: option.split)
  show "rp_Status (fst (finishDeviceRun report err closeErr)) \<noteq> ''passed''
      \<and> rp_Failure (fst (finishDeviceRun report err closeErr)) \<noteq> None"
    if bad: "snd (finishDeviceRun report err closeErr) \<noteq> None"
      "rp_Schema (fst (finishDeviceRun report err closeErr)) \<noteq> 0"
  proof -
    have started: "rp_Schema report \<noteq> 0" using bad(2) by (simp add: schema)
    then have c: "stopped_report (report, err) \<or> running_report report"
      using assms(1) by (auto simp: sane_outcome_def zero_report_def)
    have j: "join_errors [err, map_option (\<lambda>e. Errorf ''close qualification target: %w'' [FE e]) closeErr] \<noteq> None"
      using bad(1) by (simp add: e)
    show ?thesis
    proof (cases "rp_Failure report")
      case None
      with started j show ?thesis by (simp add: finishDeviceRun_def Let_def)
    next
      case (Some failure)
      with c have "rp_Status report \<noteq> ''passed''" by (auto simp: stopped_report_def running_report_def)
      with started j Some show ?thesis by (simp add: finishDeviceRun_def Let_def split: option.split)
    qed
  qed
qed

lemma run_on_descriptor_returns: "\<exists>r. run_on_descriptor sr file options w = Some r"
proof (cases "before_engine file options w")
  case (Pair r w1)
  show ?thesis
  proof (cases r)
    case (Inl e)
    with Pair show ?thesis by (simp add: run_on_descriptor_def)
  next
    case (Inr u)
    let ?b = "flushedDeviceBackend sr file (do_ExpectedDeviceID options) (do_ExpectedSize options)"
    obtain report err w2 where "Run (Some sr) (Some ?b) (do_ExpectedSize options) (device_config options) w1
        = Some ((report, err), w2)"
      using Run_returns [of "Some sr" "Some ?b" "do_ExpectedSize options" "device_config options" w1] by (elim exE)
    with Pair Inr show ?thesis
      by (cases err) (simp_all add: run_on_descriptor_def Let_def split: prod.split sum.split)
  qed
qed

lemma RunDevice_returns: "\<exists>report err w1. RunDevice sr_opt file path options w = Some ((report, err), w1)"
proof -
  have r: "\<exists>report err w2. run_on_descriptor sr file options w1 = Some ((report, err), w2)" for sr w1
    using run_on_descriptor_returns by (metis prod.exhaust)
  have f: "\<exists>report err w1. (case df_Close file w2 of (closeErr, w3) \<Rightarrow> Some (finishDeviceRun a b closeErr, w3))
      = Some ((report, err), w1)" for a b w2
    by (cases "df_Close file w2") (metis prod.case prod.exhaust)
  show ?thesis
  proof (cases sr_opt)
    case None
    then show ?thesis by (simp add: RunDevice_def)
  next
    case (Some sr)
    obtain opened w2 where "bind_act (try_call (sr_ctx_err sr)) (\<lambda>_.
              wrap_act (\<lambda>e. Errorf ''open qualification target: %w'' [FE e]) (try_call (df_Open file path))) w = (opened, w2)"
      by (metis prod.exhaust)
    with Some r [of sr w2] f show ?thesis
      by (cases opened) (auto simp: RunDevice_def)
  qed
qed

text \<open>What \<open>RunDevice\<close> returns: an error before the device was open, or the finished run.\<close>

lemma RunDevice_cases:
  assumes "RunDevice sr_opt file path options w = Some ((report, err), w1)"
  obtains (refused) "report = zero_report" "err \<noteq> None"
  | (finished) sr report' err' w2 w3 closeErr where "sr_opt = Some sr" "do_ExpectedDeviceID options \<noteq> 0"
      "run_on_descriptor sr file options w2 = Some ((report', err'), w3)"
      "df_Close file w3 = (closeErr, w1)" "finishDeviceRun report' err' closeErr = (report, err)"
  using assms
  by (auto simp: RunDevice_def split: option.splits if_splits prod.splits sum.splits)

text \<open>
  C6: the qualification of a block device always returns. Without an error the report is a
  passed one with no failure; with an error a report that was started is never passed and names
  a failure, whether it is the engine, the last check of the descriptor or its close that failed.
\<close>
theorem device_run_verdict:
  "\<exists>report err w1. RunDevice sr_opt file path options w = Some ((report, err), w1)
    \<and> (if err = None then running_report report
       else rp_Schema report = 0 \<or> rp_Status report \<noteq> ''passed'' \<and> rp_Failure report \<noteq> None)"
proof -
  have "\<exists>report err w1. RunDevice sr_opt file path options w = Some ((report, err), w1)"
    by (rule RunDevice_returns)
  then obtain report err w1 where r: "RunDevice sr_opt file path options w = Some ((report, err), w1)" by blast
  then have "if err = None then running_report report
       else rp_Schema report = 0 \<or> rp_Status report \<noteq> ''passed'' \<and> rp_Failure report \<noteq> None"
  proof (cases rule: RunDevice_cases)
    case (finished sr report' err' w2 w3 closeErr)
    note s = run_on_descriptor_sane [OF finished(3)]
    from finishDeviceRun_verdict [OF s, of closeErr, unfolded finished(5)] show ?thesis
      by auto
  qed (auto simp: zero_report_def)
  with r show ?thesis by blast
qed

section \<open>What the device holds afterwards\<close>

text \<open>
  The descriptor reads the cells honestly, and neither the checks of the caller, nor the clock,
  nor closing the descriptor changes a cell.
\<close>

definition honest_file ::
  "('w \<Rightarrow> u64 \<Rightarrow> byte) \<Rightarrow> 'w surroundings \<Rightarrow> 'w device_file \<Rightarrow> 'w DeviceOptions \<Rightarrow> bool" where
  "honest_file cell sr file options \<longleftrightarrow>
     honest_device cell sr (flushedDeviceBackend sr file (do_ExpectedDeviceID options) (do_ExpectedSize options))
       (device_config options)
     \<and> (\<forall>w. cell (snd (df_Close file w)) = cell w)"

lemma VerifyOpenDevice_Inr:
  "VerifyOpenDevice st cap i n = Inr u \<Longrightarrow> i \<noteq> 0 \<Longrightarrow> 0 < n \<Longrightarrow> st = Inr (True, i) \<and> cap = Inr n"
  by (auto simp: VerifyOpenDevice_def result_simps split: if_splits prod.splits)

text \<open>
  C5: when the full qualification of a block device returns without an error, the descriptor
  was, after the last byte was read, still the expected device with the expected capacity, and
  the device holds the pattern of one pass in every byte of that capacity.
\<close>
theorem device_run_covers_device:
  assumes "honest_file cell sr file options" "do_Profile options = ''full''" "do_ExpectedSize options \<noteq> 0"
    and "RunDevice (Some sr) file path options w = Some ((report, None), w1)"
  shows "\<exists>w2 p. df_fstat file w2 = Inr (True, do_ExpectedDeviceID options)
      \<and> df_capacity file w2 = Inr (do_ExpectedSize options) \<and> df_Close file w2 = (None, w1)
      \<and> (\<forall>a < unat (do_ExpectedSize options). cell w1 (of_nat a) = pattern_byte p (of_nat a))"
  using assms(4)
proof (cases rule: RunDevice_cases)
  case (finished sr' report' err' w2 w3 closeErr)
  have [simp]: "sr' = sr" using finished(1) by simp
  have e: "err' = None" "closeErr = None"
    using finishDeviceRun_verdict(1) [OF run_on_descriptor_sane [OF finished(3)], of closeErr] finished(5)
    by simp_all
  let ?b = "flushedDeviceBackend sr file (do_ExpectedDeviceID options) (do_ExpectedSize options)"
  from finished(3) e(1) obtain w4 where
    run: "Run (Some sr) (Some ?b) (do_ExpectedSize options) (device_config options) w4 = Some ((report', None), w3)"
    and v: "VerifyOpenDevice (df_fstat file w3) (df_capacity file w3) (do_ExpectedDeviceID options)
      (do_ExpectedSize options) = Inr ()"
    by (cases rule: run_on_descriptor_cases) (auto split: sum.splits)
  have h: "honest_device cell sr ?b (device_config options)" and c: "cell w1 = cell w3"
    using assms(1) finished(4) unfolding honest_file_def by (auto dest: spec [of _ w3])
  have "cf_Profile (device_config options) = ''full''" by (simp add: device_config_def assms(2))
  from full_run_holds_everywhere [OF h this run] obtain p where
    "\<forall>a < unat (do_ExpectedSize options). cell w1 (of_nat a) = pattern_byte p (of_nat a)" unfolding c by blast
  moreover have "df_fstat file w3 = Inr (True, do_ExpectedDeviceID options) \<and> df_capacity file w3 = Inr (do_ExpectedSize options)"
    using VerifyOpenDevice_Inr [OF v finished(2)] assms(3) by (simp add: word_neq_0_conv)
  ultimately show ?thesis using finished(4) e(2) by blast
qed simp

end
