(* ===== verification/DeviceMemory.thy ===== *)
theory DeviceMemory
  imports DeviceRun
begin

text \<open>
  A device in memory, honest or folding its addresses, with the interpretations of the locales
  \<open>honest_reader\<close> and \<open>working_device\<close> on the backend the program builds over it, and the
  concrete runs at which the properties of the qualification are applied.
\<close>

section \<open>The device\<close>

text \<open>
  The world is the contents of the medium; \<open>fold\<close> says in which cell an address is stored. A
  genuine device folds nothing, the counterfeit of the examples has eight bytes.
\<close>

definition memory_read :: "(u64 \<Rightarrow> u64) \<Rightarrow> (u64 \<Rightarrow> byte) read_at" where
  "memory_read fold_address n off w = ((map (\<lambda>i. w (fold_address (off + of_nat i))) [0..<n], None), w)"

definition memory_write :: "(u64 \<Rightarrow> u64) \<Rightarrow> (u64 \<Rightarrow> byte) write_at" where
  "memory_write fold_address buf off w =
     ((length buf, None), \<lambda>a. case map_of (rev (map (\<lambda>i. (fold_address (off + of_nat i), buf ! i)) [0..<length buf])) a of
        Some b \<Rightarrow> b | None \<Rightarrow> w a)"

definition memory_file :: "(u64 \<Rightarrow> u64) \<Rightarrow> u64 \<Rightarrow> u64 \<Rightarrow> (u64 \<Rightarrow> byte) device_file" where
  "memory_file fold_address ident capacity =
     \<lparr> df_Open = (\<lambda>path w. (None, w)), df_ReadAt = memory_read fold_address, df_WriteAt = memory_write fold_address,
       df_Sync = (\<lambda>w. (None, w)), df_flush_buffers = (\<lambda>w. (None, w)), df_fstat = (\<lambda>w. Inr (True, ident)),
       df_capacity = (\<lambda>w. Inr capacity), df_Close = (\<lambda>w. (None, w)) \<rparr>"

definition still :: "'w surroundings" where
  "still = \<lparr> sr_ctx_err = (\<lambda>w. (None, w)), sr_time_Now = (\<lambda>w. (0, w)), sr_rate = (\<lambda>_ _. 0) \<rparr>"

definition sample_options :: "string \<Rightarrow> (u64 \<Rightarrow> byte) DeviceOptions" where
  "sample_options profile =
     \<lparr> do_ExpectedDeviceID = 2049, do_ExpectedSize = 20, do_Profile = profile, do_RegionSize = 8,
       do_BufferSize = 4096, do_Patterns = [\<lparr> pt_ID = ''address-a'', pt_Seed = 0x243f6a8885a308d3 \<rparr>],
       do_Progress = None, do_BeforeWrite = None \<rparr>"

abbreviation memory_backend :: "(u64 \<Rightarrow> u64) \<Rightarrow> u64 \<Rightarrow> u64 \<Rightarrow> (u64 \<Rightarrow> byte) Backend" where
  "memory_backend fold_address ident capacity \<equiv>
     flushedDeviceBackend still (memory_file fold_address ident capacity) ident capacity"

text \<open>What an address reads on the folded device.\<close>

definition folded :: "(u64 \<Rightarrow> u64) \<Rightarrow> (u64 \<Rightarrow> byte) \<Rightarrow> u64 \<Rightarrow> byte" where
  "folded fold_address w = (\<lambda>a. w (fold_address a))"

lemma memory_honest:
  assumes "cf_Now config = None" "cf_Progress config = None"
  shows "honest_device (folded fold_address) still (memory_backend fold_address ident capacity) config"
  using assms
  by (auto simp: honest_device_def flushedDeviceBackend_def memory_file_def memory_read_def still_def folded_def)

lemma memory_sync:
  "bk_Sync (memory_backend fold_address ident capacity) w =
     ((case VerifyOpenDevice (Inr (True, ident)) (Inr capacity) ident capacity of Inl e \<Rightarrow> Some e | Inr _ \<Rightarrow> None), w)"
  by (simp add: flushedDeviceBackend_def as_poll_def flushed_Sync_def bind_act_def wrap_act_def try_call_def
      still_def memory_file_def verify_open_def split: sum.split)

lemma memory_write_stored:
  assumes "unat off + length buf \<le> 2 ^ 63"
  shows "snd (memory_write (\<lambda>a. a) buf off w) = stored buf (unat off) w"
proof
  fix a
  let ?ps = "map (\<lambda>i. (off + of_nat i, buf ! i)) [0..<length buf]"
  have u: "unat (off + of_nat i) = unat off + i" if "i < length buf" for i
    using that assms by (simp add: unat_plus_64 unat_of_nat_64)
  have inj: "inj_on (\<lambda>i. off + of_nat i :: u64) {0..<length buf}"
    by (rule inj_onI) (metis u add_left_cancel atLeastLessThan_iff)
  then have d: "distinct (map fst ?ps)" by (simp add: o_def distinct_map)
  then have m: "map_of (rev ?ps) = map_of ?ps" using map_of_inject_set [of "rev ?ps" ?ps] by (simp add: rev_map [symmetric] del: map_map)
  show "snd (memory_write (\<lambda>a. a) buf off w) a = stored buf (unat off) w a"
  proof (cases "unat off \<le> unat a \<and> unat a < unat off + length buf")
    case True
    define i where "i = unat a - unat off"
    have i: "i < length buf" "unat a = unat off + i" using True by (auto simp: i_def)
    then have "a = off + of_nat i" by (simp add: word_eq_unat u)
    then have "map_of ?ps a = Some (buf ! i)"
      using i(1) d by (intro map_of_is_SomeI) (auto simp del: map_map)
    with True show ?thesis by (simp add: memory_write_def stored_def m i_def del: map_map)
  next
    case False
    have "a \<notin> (\<lambda>i. off + of_nat i) ` {0..<length buf}"
    proof
      assume "a \<in> (\<lambda>i. off + of_nat i) ` {0..<length buf}"
      then obtain i where "i < length buf" "a = off + of_nat i" by auto
      with False u show False by simp
    qed
    then have "map_of ?ps a = None" by (auto simp: map_of_eq_None_iff image_image)
    then show ?thesis using False unfolding stored_def by (simp only: if_False) (simp add: memory_write_def m del: map_map)
  qed
qed

lemma memory_backend_write:
  assumes "unat off + length buf \<le> 2 ^ 63"
  shows "bk_WriteAt (memory_backend (\<lambda>a. a) ident capacity) buf off w = ((length buf, None), stored buf (unat off) w)"
  using memory_write_stored [OF assms, of w] by (simp add: flushedDeviceBackend_def memory_file_def memory_write_def)

lemma memory_backend_read:
  "bk_ReadAt (memory_backend f ident capacity) n off w = ((map (\<lambda>i. w (f (off + of_nat i))) [0..<n], None), w)"
  by (simp add: flushedDeviceBackend_def memory_file_def memory_read_def)

lemma memory_backend_sync: "0 < capacity \<Longrightarrow> bk_Sync (memory_backend f ident capacity) w = (None, w)"
  by (auto simp: memory_sync VerifyOpenDevice_def)

lemma still_alive: "sr_ctx_err still w = (None, w)"
  by (simp add: still_def)

lemma device_memory_working:
  assumes "0 < capacity" "n \<le> 2 ^ 63"
  shows "working_backend (folded (\<lambda>a. a)) n still (memory_backend (\<lambda>a. a) ident capacity)"
  using assms
  by (auto simp: working_backend_def memory_backend_write memory_backend_read memory_backend_sync still_alive folded_def)

text \<open>The locales on the backend of the program.\<close>

definition memory_run :: "(u64 \<Rightarrow> u64) \<Rightarrow> Plan \<Rightarrow> (u64 \<Rightarrow> byte) fixed_run" where
  "memory_run fold_address plan =
     \<lparr> fr_sr = still, fr_backend = memory_backend fold_address 2049 20, fr_plan = plan, fr_buffer = 4096,
       fr_progress = None, fr_now = sr_time_Now still \<rparr>"

interpretation folding: honest_reader "folded fold_address" "memory_run fold_address plan"
  for fold_address plan
  by unfold_locales
    (auto simp: memory_run_def working_buffer_def flushedDeviceBackend_def memory_file_def memory_read_def still_def
      folded_def emit_def)

interpretation genuine: working_device "folded (\<lambda>a. a)" "memory_run (\<lambda>a. a) plan" 20
  for plan
proof unfold_locales
  show "20 < (2 :: nat) ^ 63" by simp
  show "fst (sr_ctx_err (fr_sr (memory_run (\<lambda>a. a) plan)) w) = None" for w by (simp add: memory_run_def still_alive)
  show "r = (length buf, None) \<and> folded (\<lambda>a. a) w1 = stored buf (unat off) (folded (\<lambda>a. a) w)"
    if "unat off + length buf \<le> 20" "bk_WriteAt (fr_backend (memory_run (\<lambda>a. a) plan)) buf off w = (r, w1)"
    for off buf w r w1
    using that by (simp add: memory_run_def folded_def memory_backend_write)
  show "length (fst r) = n \<and> snd r = None"
    if "bk_ReadAt (fr_backend (memory_run (\<lambda>a. a) plan)) n off w = (r, w1)" for n off w r w1
    using that by (auto simp: memory_run_def memory_backend_read)
  show "f = None \<and> folded (\<lambda>a. a) w1 = folded (\<lambda>a. a) w"
    if "bk_Sync (fr_backend (memory_run (\<lambda>a. a) plan)) w = (f, w1)" for w f w1
    using that by (simp add: memory_run_def memory_backend_sync)
qed


section \<open>Concrete runs\<close>

lemma pattern_reference_sample: "pattern_byte \<lparr> pt_ID = ''address-a'', pt_Seed = 0x243f6a8885a308d3 \<rparr> 0 \<noteq> 0"
  by code_simp

lemma sample_plan_accepted: "\<exists>pl. BuildPlan 20 8 ''full'' = Inr pl"
  by (rule BuildPlan_accepts) (simp add: valid_request_def effective_region_size_def regions_needed_def)

theorem device_plan_sound_witness:
  "\<exists>pl. BuildPlan 20 8 ''full'' = Inr pl \<and> well_placed 20 (pl_Regions pl)
    \<and> rg_Offset (hd (pl_Regions pl)) = 0 \<and> region_end (last (pl_Regions pl)) = 20
    \<and> unat (pl_PlannedBytes pl) = planned_bytes (pl_Regions pl)"
proof -
  obtain pl where pl: "BuildPlan 20 8 ''full'' = Inr pl" using sample_plan_accepted by blast
  show ?thesis using device_plan_sound [OF pl] pl by (intro exI [of _ pl]) simp
qed

abbreviation sample_config :: "(u64 \<Rightarrow> byte) Config" where
  "sample_config \<equiv> device_config (sample_options ''full'')"

lemma sample_config_honest: "honest_device (folded f) still (memory_backend f ident capacity) sample_config"
  by (rule memory_honest) (simp_all add: device_config_def sample_options_def)

lemma sample_config_effective:
  "\<exists>c pl. effective_config still sample_config = Inr c \<and> BuildPlan 20 (cf_RegionSize c) (cf_Profile c) = Inr pl"
  using sample_plan_accepted
  by (simp add: effective_config_def device_config_def sample_options_def Let_def validatePatterns_def)

lemma sample_run_passes:
  "\<exists>report w1. Run (Some still) (Some (memory_backend (\<lambda>a. a) 2049 20)) 20 sample_config w = Some ((report, None), w1)"
proof -
  obtain c pl where c: "effective_config still sample_config = Inr c" "BuildPlan 20 (cf_RegionSize c) (cf_Profile c) = Inr pl"
    using sample_config_effective by blast
  have "working_backend (folded (\<lambda>a. a)) (unat (20 :: u64)) still (memory_backend (\<lambda>a. a) 2049 20)"
    by (rule device_memory_working) simp_all
  from working_device_passes_run [OF sample_config_honest this c] show ?thesis by blast
qed

theorem passed_run_holds_pattern_witness:
  "\<exists>report w1 config' plan. Run (Some still) (Some (memory_backend (\<lambda>a. a) 2049 20)) 20 sample_config (\<lambda>_. 0)
      = Some ((report, None), w1)
    \<and> effective_config still sample_config = Inr config'
    \<and> BuildPlan 20 (cf_RegionSize config') (cf_Profile config') = Inr plan
    \<and> list_all (\<lambda>g. region_holds (folded (\<lambda>a. a) w1) g (last (cf_Patterns config'))) (pl_Regions plan)"
proof -
  obtain report w1 where r: "Run (Some still) (Some (memory_backend (\<lambda>a. a) 2049 20)) 20 sample_config (\<lambda>_. 0)
      = Some ((report, None), w1)"
    using sample_run_passes by blast
  from passed_run_holds_pattern [OF sample_config_honest r] obtain c pl where
    "effective_config still sample_config = Inr c"
    "BuildPlan 20 (cf_RegionSize c) (cf_Profile c) = Inr pl"
    "list_all (\<lambda>g. region_holds (folded (\<lambda>a. a) w1) g (last (cf_Patterns c))) (pl_Regions pl)"
    by auto
  with r show ?thesis by (intro exI conjI)
qed

theorem aliased_device_never_passes_witness:
  "\<exists>report e w1. Run (Some still) (Some (memory_backend (\<lambda>a. a mod 8) 2049 20)) 20 sample_config (\<lambda>_. 0)
      = Some ((report, Some e), w1)"
proof (rule aliased_device_never_passes [where a = 0 and b = 1, OF sample_config_honest])
  show "cf_Profile sample_config = ''full''" by (simp add: device_config_def sample_options_def)
  show "folded (\<lambda>a. a mod 8) w (of_nat (8 * 0 + k)) = folded (\<lambda>a. a mod 8) w (of_nat (8 * 1 + k))"
    if "k < 8" for w :: "u64 \<Rightarrow> byte" and k
  proof -
    have "(of_nat (8 + k) :: u64) mod 8 = of_nat k mod 8"
      using that by (simp add: word_eq_unat unat_mod unat_of_nat_64 del: of_nat_add)
    then show ?thesis by (simp add: folded_def)
  qed
qed simp_all

theorem working_device_passes_witness:
  "\<exists>report w1. Run (Some still) (Some (memory_backend (\<lambda>a. a) 2049 20)) 20 sample_config (\<lambda>_. 0)
      = Some ((report, None), w1) \<and> rp_Status report = ''passed''"
proof -
  obtain c pl where c: "effective_config still sample_config = Inr c" "BuildPlan 20 (cf_RegionSize c) (cf_Profile c) = Inr pl"
    using sample_config_effective by blast
  have "working_backend (folded (\<lambda>a. a)) (unat (20 :: u64)) still (memory_backend (\<lambda>a. a) 2049 20)"
    by (rule device_memory_working) simp_all
  from working_device_passes [OF sample_config_honest this c] show ?thesis by blast
qed

theorem device_run_covers_device_witness:
  "\<exists>report w1 p. RunDevice (Some still) (memory_file (\<lambda>a. a) 2049 20) ''/dev/sdb'' (sample_options ''full'') (\<lambda>_. 0)
      = Some ((report, None), w1) \<and> w1 0 = pattern_byte p 0 \<and> w1 19 = pattern_byte p 19"
proof -
  let ?o = "sample_options ''full''" and ?f = "memory_file (\<lambda>a. a) 2049 20"
  have h: "honest_file (folded (\<lambda>a. a)) still ?f ?o"
    using sample_config_honest [of "\<lambda>a. a" 2049 20]
    by (simp add: honest_file_def sample_options_def memory_file_def)
  obtain report w1 where r: "Run (Some still) (Some (memory_backend (\<lambda>a. a) 2049 20)) 20 sample_config (\<lambda>_. 0)
      = Some ((report, None), w1)"
    using sample_run_passes by blast
  have v: "VerifyOpenDevice (Inr (True, 2049)) (Inr 20) 2049 20 = Inr ()" by (simp add: VerifyOpenDevice_def)
  have b: "before_engine ?f ?o (\<lambda>_. 0) = (Inr (), \<lambda>_. 0)"
    using v by (simp add: before_engine_def bind_act_def verify_open_def memory_file_def sample_options_def ret_act_def)
  have "run_on_descriptor still ?f ?o (\<lambda>_. 0) = Some ((report, None), w1)"
    using r v b by (simp add: run_on_descriptor_def verify_open_def sample_options_def [of "''full''"])
      (simp add: memory_file_def)
  then have run: "RunDevice (Some still) ?f ''/dev/sdb'' ?o (\<lambda>_. 0) = Some ((report, None), w1)"
    by (simp add: RunDevice_def bind_act_def try_call_def still_alive wrap_act_def)
      (simp add: memory_file_def sample_options_def finishDeviceRun_def)
  from device_run_covers_device [OF h _ _ run] obtain p where
    "\<forall>a < unat (do_ExpectedSize ?o). folded (\<lambda>a. a) w1 (of_nat a) = pattern_byte p (of_nat a)"
    by (auto simp: sample_options_def)
  from spec [OF this, of 0] spec [OF this, of 19] run show ?thesis
    by (auto simp: folded_def sample_options_def)
qed

abbreviation sample_region :: Region where
  "sample_region \<equiv> \<lparr> rg_Index = 0, rg_Offset = 0, rg_Length = 1 \<rparr>"

abbreviation sample_pattern :: Pattern where
  "sample_pattern \<equiv> \<lparr> pt_ID = ''address-a'', pt_Seed = 0x243f6a8885a308d3 \<rparr>"

definition sample_plan :: Plan where
  "sample_plan = \<lparr> pl_Profile = ''quick'', pl_Capacity = 1, pl_RegionSize = 1, pl_Regions = [sample_region],
     pl_SentinelIndices = [0], pl_PlannedBytes = 1 \<rparr>"

theorem verification_failure_diagnosis_witness:
  "\<exists>expected owners v failure w1.
    expectedDigests [sample_region] sample_pattern 4096 Map.empty Map.empty = Some (expected, owners)
    \<and> verifyRegion still (memory_backend (\<lambda>a. a) 2049 20) sample_region sample_pattern 4096
        (the (expected 0)) owners 0 1 1 None (\<lambda>_. 0) = Some ((v, Some failure, Some ErrVerification), w1)
    \<and> fl_ByteOffset failure = 0 \<and> fl_ActualSHA256 failure = sha256_hex [0]"
proof -
  let ?fr = "memory_run (\<lambda>a. a) sample_plan"
  have f: "fr_sr ?fr = still" "fr_backend ?fr = memory_backend (\<lambda>a. a) 2049 20" "fr_buffer ?fr = 4096"
    "fr_progress ?fr = None" "pl_Regions (fr_plan ?fr) = [sample_region]"
    by (simp_all add: memory_run_def sample_plan_def)
  obtain expected owners where
    d: "expectedDigests [sample_region] sample_pattern 4096 Map.empty Map.empty = Some (expected, owners)"
    using expectedDigests_returns [of 4096 "[sample_region]" sample_pattern Map.empty Map.empty] by (auto simp del: expectedDigests.simps)
  have "\<not> region_holds (folded (\<lambda>a. a) (\<lambda>_. 0)) sample_region sample_pattern"
    using pattern_reference_sample by (simp add: region_holds_def segment_def folded_def)
  from genuine.verifyRegion_finds [OF _ this, of sample_plan "the (expected 0)" owners 0 1 1] obtain v failure w1 where
    v: "verifyRegion still (memory_backend (\<lambda>a. a) 2049 20) sample_region sample_pattern 4096
        (the (expected 0)) owners 0 1 1 None (\<lambda>_. 0) = Some ((v, Some failure, Some ErrVerification), w1)"
    by (auto simp: f region_end_def)
  from verification_failure_diagnosis [OF folding.honest_reader_axioms, of sample_region "\<lambda>a. a" sample_plan, unfolded f,
      OF _ _ d, simplified, OF v]
  show ?thesis using d v by (intro exI conjI) (auto simp: segment_def folded_def)
qed

end
