(* ===== verification/GptMemory.thy ===== *)
theory GptMemory
  imports GptDevice DeviceMemory
begin

text \<open>
  The properties of UEFI:NTFS media and of the table the planner reads back, with a medium in
  memory as the target at which they are applied.
\<close>

section \<open>A target in memory\<close>

text \<open>
  The world is the medium and a counter that stands for the entropy drawn so far. The medium has 32 MiB: a
  read that reaches beyond its end delivers what there is and \<open>io.EOF\<close>, a write there fails and
  changes nothing.
\<close>

type_synonym media_world = "(u64 \<Rightarrow> byte) \<times> byte"

definition media_capacity :: nat where "media_capacity = 33554432"

definition ErrNoSpace :: go_error where "ErrNoSpace = Msg ''no space left on device''"

definition media_target :: "media_world UefiTarget" where
  "media_target =
     \<lparr> tg_ReadAt = (\<lambda>n off w. let k = min n (media_capacity - unat off) in
         ((segment (fst w) off 0 k, if k < n then Some EOF else None), w)),
       tg_WriteAt = (\<lambda>buf off w. if unat off + length buf \<le> media_capacity
         then ((length buf, None), (stored buf (unat off) (fst w), snd w)) else ((0, Some ErrNoSpace), w)),
       tg_Sync = (\<lambda>w. (None, w)) \<rparr>"

definition media_random :: "media_world random_source" where
  "media_random n w = (Inr (replicate n (snd w)), (fst w, snd w + 1))"

interpretation media: working_target fst media_target media_capacity
proof unfold_locales
  show "d = segment (fst w) off 0 n" if "tg_ReadAt media_target n off w = ((d, None), w1)"
    for n off w d and w1 :: media_world
    using that by (auto simp: media_target_def Let_def min_def split: if_splits)
  show "fst w1 = fst w" if "tg_ReadAt media_target n off w = (r, w1)" for n off w r and w1 :: media_world
    using that by (auto simp: media_target_def Let_def)
  show "media_capacity < 2 ^ 63" by (simp add: media_capacity_def)
  show "e = None" if "unat off + n \<le> media_capacity" "tg_ReadAt media_target n off w = ((d, e), w1)"
    for n off w d e and w1 :: media_world
    using that by (auto simp: media_target_def Let_def min_def split: if_splits)
  show "r = (length buf, None) \<and> fst w1 = stored buf (unat off) (fst w)"
    if "unat off + length buf \<le> media_capacity" "tg_WriteAt media_target buf off w = (r, w1)"
    for off buf w r and w1 :: media_world
    using that by (auto simp: media_target_def)
  show "e = None \<and> fst w1 = fst w" if "tg_Sync media_target w = (e, w1)" for w e and w1 :: media_world
    using that by (auto simp: media_target_def)
qed

lemma media_random_ok: "random_ok media_random"
  by (simp add: random_ok_def media_random_def)

definition drawn_guid :: "byte \<Rightarrow> bytes" where
  "drawn_guid k = put_at 8 [(k AND 0x3f) OR 0x80] (put_at 7 [(k AND 0x0f) OR 0x40] (replicate 16 k))"

lemma media_guid: "randomGUID media_random (c, k) = (Inr (drawn_guid k), (c, k + 1))"
  by (simp add: randomGUID_def media_random_def bind_act_def ret_act_def drawn_guid_def Let_def)

lemma drawn_guid_inj: "drawn_guid j = drawn_guid k \<Longrightarrow> j = k"
proof -
  have "drawn_guid k ! 0 = k" for k by (simp add: drawn_guid_def nth_put_at)
  then show "drawn_guid j = drawn_guid k \<Longrightarrow> j = k" by metis
qed

section \<open>Properties\<close>

text \<open>
  C33: Whatever layout \<open>PlanLayoutForProfile\<close> returns, its two partitions are whole sectors, adjacent and
  inside the target: behind the primary and before the backup GPT, or representable in 32-bit MBR
  fields; and no region of metadata \<open>writeGPTLayout\<close> writes touches either of them.
\<close>

theorem layout_plan_sound:
  assumes "PlanLayoutForProfile scheme T S profile = Inr ly"
  shows "let s = unat S; t = unat T; e = (16384 + s - 1) div s in
    ly_TargetSize ly = T \<and> ly_SectorSize ly = S
    \<and> (ly_Scheme ly = ''mbr'' \<and> layout_within s t ly \<and> fits_mbr S (ly_Data ly) \<and> fits_mbr S (ly_Boot ly)
       \<or> ly_Scheme ly = ''gpt'' \<and> layout_within ((2 + e) * s) (t - (1 + e) * s) ly
         \<and> (\<forall>disk d b label. length disk = 16 \<and> length d = 16 \<and> length b = 16 \<longrightarrow>
              list_all (clear_of_partitions ly)
                (fst (gpt_regions ly disk (gpt_entries ly d b label))
                 @ snd (gpt_regions ly disk (gpt_entries ly d b label)))))"
proof -
  obtain t s e where g: "geometry T S t s e" and ly: "ly_TargetSize ly = T" "ly_SectorSize ly = S"
    and kind: "ly_Scheme ly = ''mbr'' \<and> layout_within s t ly \<and> fits_mbr S (ly_Data ly) \<and> fits_mbr S (ly_Boot ly)
      \<or> ly_Scheme ly = ''gpt'' \<and> layout_within ((2 + e) * s) (t - (1 + e) * s) ly"
    using PlanLayoutForProfile_cases [OF assms] .
  have n: "unat S = s" "unat T = t" "(16384 + s - 1) div s = e" using g by (simp_all add: geometry_def)
  have "list_all (clear_of_partitions ly) (fst (gpt_regions ly disk (gpt_entries ly d b label))
      @ snd (gpt_regions ly disk (gpt_entries ly d b label)))"
    if "layout_within ((2 + e) * s) (t - (1 + e) * s) ly" "length disk = 16" "length d = 16" "length b = 16"
    for disk d b label
    using gpt_regions_clear [OF g ly that(1,2) length_gpt_entries [OF g ly(2) that(3,4)]]
    by (simp add: list_all_iff)
  with kind ly show ?thesis unfolding Let_def n by blast
qed

definition sample_layout :: Layout where
  "sample_layout = \<lparr> ly_Scheme = ''gpt'', ly_DataProfile = ''basic-data'', ly_TargetSize = 33554432, ly_SectorSize = 512,
     ly_Data = \<lparr> et_StartBytes = 1048576, et_SizeBytes = 30408704 \<rparr>,
     ly_Boot = \<lparr> et_StartBytes = 31457280, et_SizeBytes = 1048576 \<rparr> \<rparr>"

lemma sample_layout_plan: "PlanLayoutForProfile ''gpt'' 33554432 512 ''basic-data'' = Inr sample_layout"
proof -
  have v: "validateGeometry 33554432 512 = Inr ()" by (simp add: validateGeometry_def ImageSize_def)
  have "planGPT 33554432 512 = Inr (sample_layout\<lparr>ly_DataProfile := []\<rparr>)"
    by (simp add: planGPT_def Let_def entry_lbas_512 align_up_def align_down_def ImageSize_def oneMiB_def sample_layout_def)
  then show ?thesis
    by (simp add: PlanLayoutForProfile_def Let_def normal_names v validateDataPartitionProfile_def sample_layout_def)
qed

theorem layout_plan_sound_witness:
  "layout_within (34 * 512) (33554432 - 33 * 512) sample_layout"
  using layout_plan_sound [OF sample_layout_plan] by (simp add: sample_layout_def)

text \<open>
  The header \<open>makeGPTHeader\<close> encodes, read as one sector, is the header \<open>parseGPTHeader\<close> of the
  persistence planner decodes, for every sector size and every disk identifier but zero: its
  checksum, its signature and every field come back.
\<close>

theorem gpt_header_roundtrip:
  assumes "512 \<le> unat sz" "length guid = 16" "\<not> all_zero guid"
  shows "parseGPTHeader (take 512 (makeGPTHeader sz current backup first_lba last_lba guid entries crc)) role =
     Inr \<lparr> gh_CurrentLBA = current, gh_BackupLBA = backup, gh_FirstUsable = first_lba, gh_LastUsable = last_lba,
           gh_DiskGUID = guid, gh_EntriesLBA = entries, gh_NumEntries = 128, gh_EntrySize = 128, gh_EntriesCRC = crc \<rparr>"
  using assms by (rule parse_made_header)

theorem gpt_header_roundtrip_witness:
  "map_sum id gh_BackupLBA (parseGPTHeader (take 512 (makeGPTHeader 4096 1 65535 6 65530 (replicate 16 7) 2 9)) ''primary'')
     = Inr 65535"
  using gpt_header_roundtrip [of 4096 "replicate 16 7" 1 65535 6 65530 2 9 "''primary''"]
  by (simp add: all_zero_def list_all_iff)

text \<open>
  C32: After \<open>WriteLayout\<close> of a GPT layout with 512-byte sectors succeeded on a target whose reads are
  honest, whatever its writes do, the persistence planner accepts the table of the medium: it
  finds the third entry free and 32 sectors of entries. The two partition identifiers drawn have
  to differ.
\<close>

theorem written_gpt_is_accepted:
  assumes "readable_target cell target"
    and "WriteLayout rand (Some target) ly label w = (Inr u, w1)"
    and "ly_Scheme ly = ''gpt''" "ly_SectorSize ly = 512"
    and "randomGUID rand w = (Inr disk, r1)" "randomGUID rand r1 = (Inr d, r2)" "randomGUID rand r2 = (Inr b, r3)" "d \<noteq> b"
  shows "inspectTable (medium_reader (cell w1) (unat (ly_TargetSize ly))) (ly_TargetSize ly)
    = Inr \<lparr> tl_Kind = TableGPT, tl_FreeIndex = 2, tl_GPTEntrySectors = 32 \<rparr>"
  using assms by (rule written_gpt_accepted)

text \<open>
  C34: On a target of the planned size or more, on which reads and writes inside its capacity
  succeed, \<open>WriteLayout\<close> of every planned layout,
  MBR or GPT, succeeds, if the random source does.
\<close>

theorem layout_is_written:
  assumes "working_target cell target capacity" "random_ok rand"
    and "PlanLayoutForProfile scheme T S profile = Inr ly" "unat T \<le> capacity"
  shows "\<exists>w1. WriteLayout rand (Some target) ly label w = (Inr (), w1)"
  using assms by (rule working_target_written)

theorem layout_is_written_witness:
  "\<exists>w1. WriteLayout media_random (Some media_target) sample_layout ''DATA'' (\<lambda>_. 0xff, 1) = (Inr (), w1)"
  by (rule layout_is_written [OF media.working_target_axioms media_random_ok sample_layout_plan]) (simp add: media_capacity_def)

theorem written_gpt_is_accepted_witness:
  "\<exists>w1. WriteLayout media_random (Some media_target) sample_layout ''DATA'' (\<lambda>_. 0xff, 1) = (Inr (), w1)
     \<and> inspectTable (medium_reader (fst w1) 33554432) 33554432
        = Inr \<lparr> tl_Kind = TableGPT, tl_FreeIndex = 2, tl_GPTEntrySectors = 32 \<rparr>"
proof -
  obtain w1 where run: "WriteLayout media_random (Some media_target) sample_layout ''DATA'' (\<lambda>_. 0xff, 1) = (Inr (), w1)"
    using working_target_written [OF media.working_target_axioms media_random_ok sample_layout_plan, of "''DATA''" "(\<lambda>_. 0xff, 1)"]
    by (auto simp: media_capacity_def)
  have "drawn_guid 2 \<noteq> drawn_guid 3" using drawn_guid_inj [of 2 3] by auto
  then have "inspectTable (medium_reader (fst w1) (unat (ly_TargetSize sample_layout))) (ly_TargetSize sample_layout)
        = Inr \<lparr> tl_Kind = TableGPT, tl_FreeIndex = 2, tl_GPTEntrySectors = 32 \<rparr>"
    by (intro written_gpt_is_accepted [OF media.readable_target_axioms run _ _ media_guid media_guid media_guid])
      (simp_all add: sample_layout_def)
  with run show ?thesis by (auto simp: sample_layout_def)
qed

end
