(* ===== verification/Persistence.thy ===== *)
theory Persistence
  imports GptTable Target
begin

text \<open>
  What the persistence planner promises: it accepts exactly the well-formed entry tables, its
  partition lies behind the image and before the relocated backup GPT, and it reads the sizes it is given.
\<close>

unbundle bit_operations_syntax

section \<open>Disjoint extents\<close>

definition apart :: "gptExtent \<Rightarrow> gptExtent \<Rightarrow> bool" where
  "apart a b \<longleftrightarrow> ge_last a < ge_first b \<or> ge_last b < ge_first a"

lemma first_order: "less_order (\<lambda>a b. ge_first a < ge_first b)"
  by (rule less_order_key)

lemma neighbours_disjoint_iff:
  "sorted_wrt (\<lambda>a b. \<not> ge_first b < ge_first a) es \<Longrightarrow> \<forall>e \<in> set es. ge_first e \<le> ge_last e \<Longrightarrow>
     neighbours_disjoint msg es = Inr () \<longleftrightarrow> sorted_wrt (\<lambda>a b. ge_last a < ge_first b) es"
proof (induction msg es rule: neighbours_disjoint.induct)
  case (1 msg a b es)
  show ?case
  proof (cases "ge_first b \<le> ge_last a")
    case True
    then show ?thesis by auto
  next
    case False
    have "ge_last a < ge_first c" if "c \<in> set es" "\<not> ge_first c < ge_first b" for c
      using False that by (meson le_less_linear less_le_trans not_le)
    with False 1 show ?thesis by auto
  qed
qed auto

lemma extents_disjoint_iff:
  assumes "\<forall>e \<in> set es. ge_first e \<le> ge_last e"
  shows "extents_disjoint msg es = Inr () \<longleftrightarrow> sorted_wrt apart es"
proof -
  let ?s = "sort_by (\<lambda>a b. ge_first a < ge_first b) es"
  have so: "sorted_wrt (\<lambda>a b. \<not> ge_first b < ge_first a) ?s"
    by (rule less_order.sorted_sort_by [OF first_order])
  have w: "\<forall>e \<in> set ?s. ge_first e \<le> ge_last e" using assms by simp
  have "sorted_wrt (\<lambda>a b. ge_last a < ge_first b) ?s \<longleftrightarrow> sorted_wrt apart ?s"
  proof
    show "sorted_wrt (\<lambda>a b. ge_last a < ge_first b) ?s \<Longrightarrow> sorted_wrt apart ?s"
      by (rule sorted_wrt_mono_rel [of _ "\<lambda>a b. ge_last a < ge_first b"]) (auto simp: apart_def)
    assume a: "sorted_wrt apart ?s"
    have both: "sorted_wrt (\<lambda>a b. apart a b \<and> \<not> ge_first b < ge_first a) ?s"
      using a so by (auto simp: sorted_wrt_iff_nth_less)
    show "sorted_wrt (\<lambda>a b. ge_last a < ge_first b) ?s"
    proof (rule sorted_wrt_mono_rel [OF _ both])
      fix x y assume "x \<in> set ?s" "y \<in> set ?s" and xy: "apart x y \<and> \<not> ge_first y < ge_first x"
      with w have "ge_first x \<le> ge_last x" "ge_first y \<le> ge_last y" by blast+
      with xy show "ge_last x < ge_first y"
        unfolding apart_def not_less by (elim conjE disjE) (assumption, meson le_less_trans less_le_trans less_irrefl)
    qed
  qed
  also have "\<dots> \<longleftrightarrow> sorted_wrt apart es"
    by (rule sorted_wrt_perm) (auto simp: apart_def)
  finally show ?thesis using neighbours_disjoint_iff [OF so w] by (simp add: extents_disjoint_def)
qed

section \<open>The entry table\<close>

text \<open>An entry is used when its type is not zero; what the scan requires of each entry.\<close>

definition used_entry :: "bytes \<Rightarrow> gptHeader \<Rightarrow> nat \<Rightarrow> bool" where
  "used_entry entries h i \<longleftrightarrow> \<not> all_zero (take 16 (gpt_entry entries h i))"

definition entry_guid :: "bytes \<Rightarrow> gptHeader \<Rightarrow> nat \<Rightarrow> bytes" where
  "entry_guid entries h i = field (gpt_entry entries h i) 16 16"

definition entry_extent :: "bytes \<Rightarrow> gptHeader \<Rightarrow> nat \<Rightarrow> gptExtent" where
  "entry_extent entries h i =
     \<lparr> ge_first = get_u64 (field (gpt_entry entries h i) 32 8), ge_last = get_u64 (field (gpt_entry entries h i) 40 8),
       ge_index = int i \<rparr>"

definition entry_ok :: "bytes \<Rightarrow> gptHeader \<Rightarrow> nat \<Rightarrow> bool" where
  "entry_ok entries h i \<longleftrightarrow>
     (if used_entry entries h i
      then \<not> all_zero (entry_guid entries h i) \<and> gh_FirstUsable h \<le> ge_first (entry_extent entries h i)
           \<and> ge_first (entry_extent entries h i) \<le> ge_last (entry_extent entries h i)
           \<and> ge_last (entry_extent entries h i) \<le> gh_LastUsable h
      else all_zero (gpt_entry entries h i))"

text \<open>
  A well-formed table: every entry is in order, and the used ones have distinct identifiers and
  disjoint extents.
\<close>

definition table_ok :: "bytes \<Rightarrow> gptHeader \<Rightarrow> bool" where
  "table_ok entries h \<longleftrightarrow>
     (let indices = [0..<unat (gh_NumEntries h)]; used = filter (used_entry entries h) indices in
      list_all (entry_ok entries h) indices \<and> distinct (map (entry_guid entries h) used)
      \<and> sorted_wrt apart (map (entry_extent entries h) used))"

definition first_unused :: "bytes \<Rightarrow> gptHeader \<Rightarrow> nat list \<Rightarrow> int" where
  "first_unused entries h is = (case find (\<lambda>i. \<not> used_entry entries h i) is of None \<Rightarrow> -1 | Some i \<Rightarrow> int i)"

lemma scan_entry_Inr:
  "scan_entry h (gpt_entry entries h i) i s = Inr s' \<longleftrightarrow>
     entry_ok entries h i
     \<and> (if used_entry entries h i
        then entry_guid entries h i \<notin> fst ` set (es_guids s)
             \<and> s' = s\<lparr>es_guids := (entry_guid entries h i, int i) # es_guids s,
                      es_extents := es_extents s @ [entry_extent entries h i]\<rparr>
        else s' = (if es_free s < 0 then s\<lparr>es_free := int i\<rparr> else s))"
proof (cases "used_entry entries h i")
  case False
  then show ?thesis by (auto simp: scan_entry_def entry_ok_def used_entry_def)
next
  case True
  let ?g = "entry_guid entries h i"
  have e: "scan_entry h (gpt_entry entries h i) i s =
    (if all_zero ?g then Inl (Errorf ''GPT partition %d has an empty unique GUID'' [FN (i + 1)])
     else case map_of (es_guids s) ?g of
        Some previous \<Rightarrow>
          Inl (Errorf ''GPT partitions %d and %d use the same unique GUID'' [FN (nat (previous + 1)), FN (i + 1)])
      | None \<Rightarrow>
          if ge_first (entry_extent entries h i) < gh_FirstUsable h
             \<or> ge_last (entry_extent entries h i) < ge_first (entry_extent entries h i)
             \<or> gh_LastUsable h < ge_last (entry_extent entries h i)
          then Inl (Errorf ''GPT partition %d has an invalid extent'' [FN (i + 1)])
          else Inr (s\<lparr>es_guids := (?g, int i) # es_guids s,
                      es_extents := es_extents s @ [entry_extent entries h i]\<rparr>))"
    using True unfolding scan_entry_def used_entry_def entry_guid_def entry_extent_def Let_def
    by (simp split: option.split)
  show ?thesis
  proof (cases "?g \<in> fst ` set (es_guids s)")
    case True
    then obtain p where "map_of (es_guids s) ?g = Some p" by (metis map_of_eq_None_iff not_None_eq)
    with True \<open>used_entry entries h i\<close> show ?thesis unfolding e by simp
  next
    case False
    then have "map_of (es_guids s) ?g = None" by (simp add: map_of_eq_None_iff)
    with False \<open>used_entry entries h i\<close> show ?thesis
      unfolding e by (auto simp: entry_ok_def not_less)
  qed
qed

lemma scan_entries_Inr:
  "scan_entries h entries is s = Inr s' \<longleftrightarrow>
     list_all (entry_ok entries h) is
     \<and> distinct (map (entry_guid entries h) (filter (used_entry entries h) is))
     \<and> set (map (entry_guid entries h) (filter (used_entry entries h) is)) \<inter> fst ` set (es_guids s) = {}
     \<and> s' = \<lparr> es_free = (if es_free s < 0
                     then (case find (\<lambda>i. \<not> used_entry entries h i) is of None \<Rightarrow> es_free s | Some i \<Rightarrow> int i)
                     else es_free s),
             es_extents = es_extents s @ map (entry_extent entries h) (filter (used_entry entries h) is),
             es_guids = rev (map (\<lambda>i. (entry_guid entries h i, int i)) (filter (used_entry entries h) is)) @ es_guids s \<rparr>"
proof (induction "is" arbitrary: s)
  case Nil
  then show ?case by auto
next
  case (Cons i "is")
  show ?case
  proof (cases "used_entry entries h i")
    case True
    let ?s = "s\<lparr>es_guids := (entry_guid entries h i, int i) # es_guids s,
        es_extents := es_extents s @ [entry_extent entries h i]\<rparr>"
    have "scan_entries h entries (i # is) s = Inr s' \<longleftrightarrow> entry_ok entries h i
        \<and> entry_guid entries h i \<notin> fst ` set (es_guids s) \<and> scan_entries h entries is ?s = Inr s'"
      using True by (auto simp: bindE_eq_Inr scan_entry_Inr)
    then show ?thesis unfolding Cons.IH using True
      by (simp add: Int_insert_left Int_insert_right cong: option.case_cong del: Int_iff set_filter set_map)
  next
    case False
    let ?s = "if es_free s < 0 then s\<lparr>es_free := int i\<rparr> else s"
    have "scan_entries h entries (i # is) s = Inr s' \<longleftrightarrow> entry_ok entries h i \<and> scan_entries h entries is ?s = Inr s'"
      using False by (auto simp: bindE_eq_Inr scan_entry_Inr)
    then show ?thesis unfolding Cons.IH using False by (simp cong: option.case_cong)
  qed
qed

lemma inspect_entries_Inr:
  "inspectGPTEntries entries h = Inr free \<longleftrightarrow>
     table_ok entries h \<and> free = first_unused entries h [0..<unat (gh_NumEntries h)]"
proof -
  let ?is = "[0..<unat (gh_NumEntries h)]"
  let ?used = "filter (used_entry entries h) ?is"
  have l: "extents_disjoint msg (map (entry_extent entries h) ?used) = Inr () \<longleftrightarrow>
      sorted_wrt apart (map (entry_extent entries h) ?used)"
    if "list_all (entry_ok entries h) ?is" for msg
    using that by (intro extents_disjoint_iff) (auto simp: list_all_iff entry_ok_def)
  show ?thesis
    unfolding inspectGPTEntries_def table_ok_def Let_def bindE_eq_Inr scan_entries_Inr
    using l by (auto simp: first_unused_def cong: option.case_cong)
qed

text \<open>
  The planner accepts exactly the well-formed GPT entry tables, and reports the first unused entry:
  unused entries are zero, used ones have distinct nonzero identifiers and disjoint extents within
  the usable sectors.
\<close>

theorem entry_table_decided:
  "inspectGPTEntries entries h = Inr free \<longleftrightarrow>
     table_ok entries h \<and> free = first_unused entries h [0..<unat (gh_NumEntries h)]"
  by (rule inspect_entries_Inr)

section \<open>The plan\<close>

lemma unat_align_up_max:
  assumes "v \<le> align_up_max v defaultAlignment" "align_up_max v defaultAlignment < T"
  shows "unat v \<le> unat (align_up_max v defaultAlignment)" "1048576 dvd unat (align_up_max v defaultAlignment)"
    "unat (align_up_max v defaultAlignment) < unat v + 1048576"
proof -
  define a where "a = align_up_max v defaultAlignment"
  have n: "a \<noteq> NOT 0"
  proof
    assume "a = NOT 0"
    then have "a = - 1" by simp
    with assms(2) show False by (simp add: a_def [symmetric])
  qed
  have c: "\<not> (defaultAlignment = 0 \<or> NOT 0 - (defaultAlignment - 1) < v)"
    using n unfolding a_def align_up_max_def by (auto split: if_splits)
  then have a: "a = (v + defaultAlignment - 1) div defaultAlignment * defaultAlignment"
    unfolding a_def align_up_max_def by (simp only: if_False)
  have "v \<le> NOT 0 - (defaultAlignment - 1)" using c by (simp only: not_less de_Morgan_disj)
  then have v: "unat v \<le> 2 ^ 64 - 1048576" by (simp add: word_le_unat defaultAlignment_def)
  have u: "unat (v + defaultAlignment - 1) = unat v + 1048575"
  proof -
    have e: "v + defaultAlignment - 1 = v + 1048575" by (simp add: defaultAlignment_def)
    show ?thesis unfolding e using v by (simp add: unat_plus_64)
  qed
  have "(unat v + 1048575) div 1048576 * 1048576 < 2 ^ 64"
    by (rule le_less_trans [OF div_times_less_eq_dividend]) (use v in simp)
  moreover have ua0: "unat defaultAlignment = 1048576" by (simp add: defaultAlignment_def)
  moreover have ud: "unat ((v + defaultAlignment - 1) div defaultAlignment) = (unat v + 1048575) div 1048576"
    by (simp only: unat_div_64 u ua0)
  ultimately have ua: "unat a = (unat v + 1048575) div 1048576 * 1048576"
    unfolding a by (subst unat_mult_64) (simp_all add: ud ua0)
  show "unat v \<le> unat (align_up_max v defaultAlignment)" using assms(1) by (simp add: word_le_unat)
  show "1048576 dvd unat (align_up_max v defaultAlignment)" unfolding a_def [symmetric] ua by simp
  show "unat (align_up_max v defaultAlignment) < unat v + 1048576"
    unfolding a_def [symmetric] ua using div_times_less_eq_dividend [of "unat v + 1048575" 1048576] by linarith
qed

lemma align_down_max:
  "1048576 dvd unat (align_down_by v defaultAlignment)" "unat (align_down_by v defaultAlignment) \<le> unat v"
proof -
  have "unat v div 1048576 * 1048576 < 2 ^ 64"
    by (rule le_less_trans [OF div_times_less_eq_dividend]) (use unat_lt_64 [of v] in simp)
  then have u: "unat (align_down_by v defaultAlignment) = unat v div 1048576 * 1048576"
    by (simp add: align_down_by_def defaultAlignment_def unat_mult_64 unat_div_64)
  show "1048576 dvd unat (align_down_by v defaultAlignment)" "unat (align_down_by v defaultAlignment) \<le> unat v"
    by (simp_all add: u)
qed

lemma inspectTable_kind:
  assumes "inspectTable reader sz = Inr layout"
  shows "0 \<le> tl_FreeIndex layout" "tl_Kind layout = TableGPT \<Longrightarrow> unat (tl_GPTEntrySectors layout) \<le> 131072"
proof -
  obtain header where i: "inspect_sectors reader sz header = Inr layout"
    using assms by (auto simp: inspectTable_def split: prod.splits option.splits if_splits)
  have "0 \<le> tl_FreeIndex layout \<and> (tl_Kind layout = TableGPT \<longrightarrow> unat (tl_GPTEntrySectors layout) \<le> 131072)"
  proof (cases "inspectGPTTable reader sz (field header 512 512) = Inr layout")
    case True
    then obtain h where e: "\<not> maxGPTEntriesBytes < entries_bytes h"
      and l: "tl_GPTEntrySectors layout = entry_sectors h" "0 \<le> tl_FreeIndex layout"
      by (auto simp: inspectGPTTable_def Let_def result_simps)
    have b: "unat (entries_bytes h) \<le> 67108864"
      using e by (simp add: not_less word_le_unat maxGPTEntriesBytes_def)
    have "unat (entries_bytes h + gptSectorSize - 1) = unat (entries_bytes h) + 511"
    proof -
      have e: "entries_bytes h + gptSectorSize - 1 = entries_bytes h + 511" by (simp add: gptSectorSize_def)
      show ?thesis unfolding e using b by (simp add: unat_plus_64)
    qed
    then have "unat (entry_sectors h) = (unat (entries_bytes h) + 511) div 512"
      by (simp add: entry_sectors_def unat_div_64 gptSectorSize_def)
    moreover have "(unat (entries_bytes h) + 511) div 512 \<le> 67109375 div 512" using b by (intro div_le_mono) simp
    ultimately show ?thesis using l by simp
  next
    case False
    with i show ?thesis by (auto simp: inspect_sectors_def Let_def result_simps split: if_splits)
  qed
  then show "0 \<le> tl_FreeIndex layout" "tl_Kind layout = TableGPT \<Longrightarrow> unat (tl_GPTEntrySectors layout) \<le> 131072"
    by simp_all
qed

lemma persist_limit_bound:
  assumes table: "inspectTable reader imageSize = Inr layout" and lim: "persist_limit layout targetSize = Inr limit"
  shows "1048576 dvd unat limit \<and> (if tl_Kind layout = TableGPT
    then unat limit + (unat (tl_GPTEntrySectors layout) + 1) * 512 \<le> unat targetSize else unat limit \<le> unat targetSize)"
proof (cases "tl_Kind layout = TableGPT")
  case True
  define r where "r = (tl_GPTEntrySectors layout + 1) * gptSectorSize"
  have c: "\<not> targetSize \<le> r" and l: "limit = align_down_by (targetSize - r) defaultAlignment"
    using lim True by (auto simp: persist_limit_def Let_def r_def result_simps split: if_splits)
  have k: "unat (tl_GPTEntrySectors layout) \<le> 131072" using inspectTable_kind(2) [OF table True] .
  then have "unat (tl_GPTEntrySectors layout + 1) = unat (tl_GPTEntrySectors layout) + 1" by (simp add: unat_plus_64)
  then have r: "unat r = (unat (tl_GPTEntrySectors layout) + 1) * 512"
    unfolding r_def gptSectorSize_def using k by (subst unat_mult_64) simp_all
  have "unat (targetSize - r) = unat targetSize - unat r" "unat r \<le> unat targetSize"
    using c by (simp_all add: not_le unat_minus_64 less_imp_le word_le_unat word_less_unat)
  then show ?thesis using align_down_max [of "targetSize - r"] True l r by simp
next
  case False
  then have "limit = align_down_by targetSize defaultAlignment" using lim by (simp add: persist_limit_def)
  then show ?thesis using align_down_max [of targetSize] False by simp
qed

text \<open>
  C35: A persistence plan is safe: its partition starts behind the image at the next multiple of 1 MiB,
  has at least 1 GiB and the requested size, ends inside the target and, for a GPT, before the
  place of the relocated backup table; for an MBR it is representable in 32-bit sectors.
\<close>

theorem persistence_plan_safe:
  assumes "BuildPersistPlan (Some reader) imageSize targetSize requested detection = Inr p"
  shows "\<exists>layout. inspectTable reader imageSize = Inr layout \<and> Ready detection
    \<and> pp_PartitionTable p = tl_Kind layout \<and> pp_PartitionNumber p = tl_FreeIndex layout + 1 \<and> 1 \<le> pp_PartitionNumber p
    \<and> unat imageSize \<le> unat (pp_StartBytes p) \<and> unat (pp_StartBytes p) < unat imageSize + 1048576
    \<and> 1048576 dvd unat (pp_StartBytes p) \<and> 1048576 dvd unat (pp_SizeBytes p) \<and> 1073741824 \<le> unat (pp_SizeBytes p)
    \<and> (requested \<noteq> 0 \<longrightarrow> pp_SizeBytes p = requested)
    \<and> (if tl_Kind layout = TableGPT
       then unat (pp_StartBytes p) + unat (pp_SizeBytes p) + (unat (tl_GPTEntrySectors layout) + 1) * 512 \<le> unat targetSize
       else unat (pp_StartBytes p) + unat (pp_SizeBytes p) \<le> unat targetSize
         \<and> unat (pp_StartBytes p) div 512 < 2 ^ 32 \<and> unat (pp_SizeBytes p) div 512 < 2 ^ 32)"
proof -
  define start where "start = align_up_max imageSize defaultAlignment"
  obtain layout limit sz where req: "\<not> (requested \<noteq> 0 \<and> requested mod defaultAlignment \<noteq> 0)" and ready: "\<not> \<not> Ready detection"
    and table: "inspectTable reader imageSize = Inr layout"
    and st: "\<not> (start < imageSize \<or> targetSize \<le> start)"
    and lim: "persist_limit layout targetSize = Inr limit"
    and room: "\<not> (limit \<le> start \<or> limit - start < minimumPartitionSize)"
    and sz: "persist_size requested (limit - start) = Inr sz"
    and mbr: "\<not> (tl_Kind layout = TableMBR \<and> (2 ^ 32 - 1 < start div gptSectorSize \<or> sz div gptSectorSize = 0
       \<or> 2 ^ 32 - 1 < sz div gptSectorSize \<or> 2 ^ 32 < start div gptSectorSize + sz div gptSectorSize))"
    and p: "\<lparr> pp_Family = de_Family detection, pp_PartitionTable = tl_Kind layout,
             pp_PartitionNumber = tl_FreeIndex layout + 1, pp_StartBytes = start, pp_SizeBytes = sz,
             pp_Filesystem = de_Filesystem detection, pp_FilesystemLabel = de_FilesystemLabel detection,
             pp_BootParameter = de_BootParameter detection, pp_PersistenceConfig = de_PersistenceConfig detection,
             pp_PatchPaths = de_PatchPaths detection, pp_AlreadyEnabledPaths = de_AlreadyEnabledPaths detection,
             pp_RequiresGPTRelocation = (tl_Kind layout = TableGPT) \<rparr> = p"
    using assms unfolding BuildPersistPlan_def option.case Let_def if_Inl_eq_Inr bindE_eq_Inr sum.inject start_def [symmetric]
  proof (elim exE conjE, goal_cases)
    case (1 x xa xb)
    show ?case by (rule 1(1)) (fact 1)+
  qed
  have "imageSize \<le> start" "start < targetSize" using st by (simp_all add: not_less not_le)
  note al = unat_align_up_max [of imageSize targetSize, folded start_def, OF this]
  have start: "unat imageSize \<le> unat start" "1048576 dvd unat start" "unat start < unat imageSize + 1048576"
    by (fact al)+
  have bound: "1048576 dvd unat limit \<and> (if tl_Kind layout = TableGPT
      then unat limit + (unat (tl_GPTEntrySectors layout) + 1) * 512 \<le> unat targetSize else unat limit \<le> unat targetSize)"
    by (rule persist_limit_bound [OF table lim])
  have le: "start < limit" "minimumPartitionSize \<le> limit - start" using room by (simp_all add: not_le not_less)
  have av: "unat (limit - start) = unat limit - unat start" using le(1) by (simp add: unat_minus_64)
  have min: "unat minimumPartitionSize = 1073741824" by (simp add: minimumPartitionSize_def)
  have s0: "1073741824 \<le> unat sz" "unat sz \<le> unat limit - unat start" "requested \<noteq> 0 \<longrightarrow> sz = requested"
    using sz le(2) by (auto simp: persist_size_def result_simps not_less word_le_unat av min split: if_splits)
  have sm: "1048576 dvd unat sz"
  proof (cases "requested = 0")
    case True
    then have "sz = limit - start" using sz by (simp add: persist_size_def)
    then show ?thesis using bound start by (simp add: av dvd_diff_nat)
  next
    case False
    then have "requested mod defaultAlignment = 0" using req by simp
    then have "unat requested mod unat defaultAlignment = 0" by (metis unat_0 unat_mod_64)
    then show ?thesis using s0(3) False by (simp add: defaultAlignment_def mod_0_imp_dvd)
  qed
  have top: "unat start + unat sz \<le> unat limit" using s0(2) le(1) by (simp add: word_less_unat)
  have fit: "unat start div 512 < 2 ^ 32" "unat sz div 512 < 2 ^ 32" if "tl_Kind layout \<noteq> TableGPT"
  proof -
    have "tl_Kind layout = TableMBR" using that by (cases "tl_Kind layout") simp_all
    then have "\<not> 2 ^ 32 - 1 < start div gptSectorSize" "\<not> 2 ^ 32 - 1 < sz div gptSectorSize" using mbr by blast+
    moreover have "unat (2 ^ 32 - 1 :: u64) = 2 ^ 32 - 1" by simp
    ultimately show "unat start div 512 < 2 ^ 32" "unat sz div 512 < 2 ^ 32"
      by (simp_all add: not_less word_le_unat unat_div_64 gptSectorSize_def)
  qed
  have "pp_PartitionTable p = tl_Kind layout" "pp_PartitionNumber p = tl_FreeIndex layout + 1"
    "pp_StartBytes p = start" "pp_SizeBytes p = sz"
    by (simp_all flip: p)
  then show ?thesis
    using table ready start bound s0 sm top fit inspectTable_kind(1) [OF table] by (intro exI [of _ layout]) auto
qed

text \<open>A two-sector image without partitions.\<close>

definition blank_image :: reader_at where
  "blank_image off n = (replicate 510 0 @ [0x55, 0xaa], Some EOF)"

definition sample_detection :: Detection where
  "sample_detection = \<lparr> de_Family = ''ubuntu'', de_DisplayName = [], de_Version = [], de_BootParameter = ''persistent'',
     de_Filesystem = ''ext4'', de_FilesystemLabel = ''casper-rw'', de_PersistenceConfig = [],
     de_PatchPaths = [''boot/grub/grub.cfg''], de_AlreadyEnabledPaths = [], de_Evidence = [] \<rparr>"

lemma blank_table:
  "inspectTable blank_image 512 = Inr \<lparr> tl_Kind = TableMBR, tl_FreeIndex = 0, tl_GPTEntrySectors = 0 \<rparr>"
proof -
  let ?h = "replicate 510 0 @ [0x55, 0xaa] @ replicate 512 (0 :: byte)"
  have f: "field ?h (446 + i * 16) 16 = replicate 16 0" if "i < 4" for i
    using that by (simp add: field_def)
  have g: "field ?h 512 8 \<noteq> string_bytes ''EFI PART''" 
    by (rule notI, drule arg_cong [of _ _ hd]) (simp add: field_def string_bytes_def)
  have upt: "[0..<4] = [0, 1, 2, 3 :: nat]" by (simp add: upt_rec)
  have scan: "scan_mbr n ?h [0..<4] \<lparr> ms_protective = False, ms_free = -1, ms_extents = [] \<rparr>
      = Inr \<lparr> ms_protective = False, ms_free = 0, ms_extents = [] \<rparr>" for n
    unfolding upt scan_mbr.simps using f [of 0] f [of 1] f [of 2] f [of 3] by (simp add: scan_mbr_entry_def)
  have b: "fill_buffer 1024 (replicate 510 0 @ [0x55, 0xaa]) = ?h" by (simp add: fill_buffer_def)
  have n: "?h ! 510 = 0x55" "?h ! 511 = 0xaa" by (simp_all add: nth_append)
  show ?thesis
    unfolding inspectTable_def blank_image_def prod.case option.case b inspect_sectors_def scan
    using g n by (simp add: extents_disjoint_def)
qed

lemma blank_plan:
  "\<exists>p. BuildPersistPlan (Some blank_image) 512 2147483648 0 sample_detection = Inr p"
  by (simp add: BuildPersistPlan_def Let_def blank_table sample_detection_def Ready_def plan_constants
      align_up_max_def align_down_by_def persist_limit_def persist_size_def)

theorem persistence_plan_safe_witness:
  "\<exists>p. BuildPersistPlan (Some blank_image) 512 2147483648 0 sample_detection = Inr p
     \<and> 512 \<le> unat (pp_StartBytes p) \<and> 1 \<le> pp_PartitionNumber p"
proof -
  obtain p where p: "BuildPersistPlan (Some blank_image) 512 2147483648 0 sample_detection = Inr p"
    using blank_plan by blast
  have "512 \<le> unat (pp_StartBytes p) \<and> 1 \<le> pp_PartitionNumber p"
    using persistence_plan_safe [OF p] by auto
  with p show ?thesis by blast
qed

section \<open>Sizes as text\<close>

lemma to_upper_id: "list_all (\<lambda>c. (of_char c :: nat) < 97) s \<Longrightarrow> to_upper s = s"
  by (induction s rule: to_upper.induct) (auto simp: upper_char_def Let_def)

lemma has_suffix_rev: "has_suffix s p \<longleftrightarrow> take (length p) (rev s) = rev p"
  by (auto simp: has_suffix_def take_rev) (metis diff_le_self length_drop)

lemma units_found:
  assumes "c \<notin> set ''TGMKIB''" "(u, f) \<in> set size_units"
  shows "find (\<lambda>(suffix, _). has_suffix (ds @ c # u) suffix) size_units = Some (u, f)"
proof -
  have s: "has_suffix (ds @ c # u) p \<longleftrightarrow> take (length p) (rev u @ c # rev ds) = rev p" for p
    by (simp add: has_suffix_rev)
  from assms show ?thesis unfolding s size_units_def list.set insert_iff empty_iff prod.inject
    by (elim disjE conjE) simp_all
qed

lemma no_unit_found:
  assumes "c \<notin> set ''TGMKIB''"
  shows "find (\<lambda>(suffix, _). has_suffix (ds @ [c]) suffix) size_units = None"
  using assms unfolding size_units_def has_suffix_rev by simp

lemma overflow_check:
  "parsed \<noteq> 0 \<and> NOT 0 div parsed < f \<longleftrightarrow> 2 ^ 64 \<le> unat parsed * unat (f :: u64)"
proof (cases "parsed = 0")
  case False
  then have p: "0 < unat parsed" by (simp add: unat_gt_0)
  have m: "unat (NOT 0 :: u64) = 2 ^ 64 - 1" by (simp add: unsigned_minus_1_eq_mask mask_eq_exp_minus_1)
  have "NOT 0 div parsed < f \<longleftrightarrow> (2 ^ 64 - 1) div unat parsed < unat f"
    by (simp only: word_less_unat unat_div_64 m)
  also have "\<dots> \<longleftrightarrow> 2 ^ 64 - 1 < unat f * unat parsed" using p by (rule div_less_iff_less_mult)
  also have "\<dots> \<longleftrightarrow> 2 ^ 64 \<le> unat parsed * unat f" by (simp add: mult.commute) arith
  finally show ?thesis using False by simp
qed simp

lemma decimal_zero: "decimal x = ''0'' \<longleftrightarrow> x = 0"
proof -
  have "char_of (48 :: nat) = CHR ''0''" by code_simp
  then have "decimal 0 = ''0''" using digits_rev.simps(2) [of 19 0] by (simp add: decimal_def hex_digit_def)
  then show ?thesis by (metis decimal_inj)
qed

lemma parse_size_decimal:
  assumes u: "(u, f) \<in> set (([], 1) # size_units)"
  shows "ParseSize (decimal x @ u) =
     (if unat x * unat f < 2 ^ 64 then Inr (x * f)
      else Inl (Errorf ''size %q overflows uint64'' [FS (decimal x @ u)]))"
proof -
  obtain ds c where dec: "decimal x = ds @ [c]" using decimal_nonempty [of x] by (metis rev_exhaust)
  have ch: "48 \<le> (of_char b :: nat) \<and> (of_char b :: nat) \<le> 57" if "b \<in> set (decimal x)" for b
    using decimal_codes [OF that] .
  have nd: "b \<notin> set ''TGMKIB''" "b \<notin> set ''.+-''" if "b \<in> set (decimal x)" for b
    using ch [OF that] by auto
  have ul: "list_all (\<lambda>c. 65 \<le> (of_char c :: nat) \<and> (of_char c :: nat) < 90) u"
    using u by (auto simp: size_units_def)
  let ?v = "decimal x @ u"
  have all: "33 \<le> (of_char b :: nat) \<and> (of_char b :: nat) < 97" if "b \<in> set ?v" for b
    using that ch ul by (fastforce simp: list_all_iff)
  have ne: "?v \<noteq> []" using decimal_nonempty by simp
  have tv: "trim_space ?v = ?v"
    by (rule trim_space_id) (use all [OF hd_in_set [OF ne]] all [OF last_in_set [OF ne]] ne in \<open>assumption | linarith\<close>)+
  have td: "trim_space (decimal x) = decimal x"
    by (rule trim_space_id) (use ch [OF hd_in_set [OF decimal_nonempty [of x]]] ch [OF last_in_set [OF decimal_nonempty [of x]]]
      decimal_nonempty [of x] in \<open>assumption | linarith\<close>)+
  have up: "to_upper ?v = ?v" using all by (intro to_upper_id) (simp add: list_all_iff)
  have pick: "(case find (\<lambda>(suffix, _). has_suffix ?v suffix) size_units of
       None \<Rightarrow> (?v, 1)
     | Some (suffix, factor) \<Rightarrow> (trim_space (take (length ?v - length suffix) ?v), factor)) = (decimal x, f)"
  proof (cases "u = []")
    case True
    then have "f = 1" using u by (auto simp: size_units_def)
    with True show ?thesis using no_unit_found [of c ds] nd(1) [of c] dec by simp
  next
    case False
    then have "(u, f) \<in> set size_units" using u by auto
    then show ?thesis using units_found [of c u f ds] nd(1) [of c] dec td by simp
  qed
  have dots: "\<not> (decimal x = [] \<or> (\<exists>b \<in> set (decimal x). b \<in> set ''.+-''))"
    using decimal_nonempty nd(2) by blast
  show ?thesis
  proof (cases "?v = ''0''")
    case True
    then have "decimal x = ''0'' \<and> u = []" using decimal_nonempty [of x] by (cases "decimal x") auto
    then have z: "x = 0" by (simp add: decimal_zero)
    have "ParseSize ?v = Inr 0" unfolding ParseSize_def Let_def tv using True by (simp only: simp_thms if_True)
    then show ?thesis using z by simp
  next
    case False
    with ne have nv: "\<not> (?v = [] \<or> ?v = ''0'')" by blast
    have "ParseSize ?v = (if x \<noteq> 0 \<and> NOT 0 div x < f then Inl (Errorf ''size %q overflows uint64'' [FS ?v]) else Inr (x * f))"
      unfolding ParseSize_def Let_def tv up pick prod.case if_not_P [OF nv] if_not_P [OF dots] parse_decimal
        mapE_Inr bindE_Inr by (rule refl)
    then show ?thesis unfolding overflow_check by auto
  qed
qed

text \<open>
  \<open>ParseSize\<close> reads a decimal number with any of its suffixes, or none, as the number of bytes it
  stands for, for every 64-bit number; when the product does not fit in 64 bits it says so instead
  of wrapping around.
\<close>

theorem parse_size_units:
  "\<forall>(u, f) \<in> set (([], 1) # size_units).
     ParseSize (decimal x @ u) =
       (if unat x * unat f < 2 ^ 64 then Inr (x * f)
        else Inl (Errorf ''size %q overflows uint64'' [FS (decimal x @ u)]))"
  using parse_size_decimal by blast

theorem parse_size_units_witness: "ParseSize (decimal 4 @ ''KIB'') = Inr 4096"
  using parse_size_units [of 4] by (auto simp: size_units_def)

end
