(* ===== verification/SecureDbx.thy ===== *)
theory SecureDbx
  imports Buffers Sha256
begin

text \<open>
  \<open>internal/secureboot/dbx.go\<close>: the Secure Boot revocation database, from the signature lists of an
  authenticated update or of the firmware variable to the questions asked of it. Maps keyed by a
  digest are sets of digests; a nil database is \<open>None\<close>.
\<close>

unbundle bit_operations_syntax

section \<open>Identifiers\<close>

record GUID =
  gd_Data1 :: u32
  gd_Data2 :: u16
  gd_Data3 :: u16
  gd_Data4 :: bytes

definition certSHA256GUID :: GUID where
  "certSHA256GUID = \<lparr> gd_Data1 = 0xc1c41626, gd_Data2 = 0x504c, gd_Data3 = 0x4092,
     gd_Data4 = [0xac, 0xa9, 0x41, 0xf9, 0x36, 0x93, 0x43, 0x28] \<rparr>"

definition certX509GUID :: GUID where
  "certX509GUID = \<lparr> gd_Data1 = 0xa5c059a1, gd_Data2 = 0x94e4, gd_Data3 = 0x4aa7,
     gd_Data4 = [0x87, 0xb5, 0xab, 0x15, 0x5c, 0x2b, 0xf0, 0x72] \<rparr>"

definition certPKCS7GUID :: GUID where
  "certPKCS7GUID = \<lparr> gd_Data1 = 0x4aafd29d, gd_Data2 = 0x68df, gd_Data3 = 0x49ee,
     gd_Data4 = [0x8a, 0xa9, 0x34, 0x7d, 0x37, 0x56, 0x65, 0xa7] \<rparr>"

definition parseGUID :: "bytes \<Rightarrow> GUID res" where
  "parseGUID bs =
     (if length bs < 16 then Inl ErrUnexpectedEOF
      else Inr \<lparr> gd_Data1 = get_u32 (field bs 0 4), gd_Data2 = get_u16 (field bs 4 2),
             gd_Data3 = get_u16 (field bs 6 2), gd_Data4 = field bs 8 8 \<rparr>)"

section \<open>The database\<close>

record Signature =
  sg_Type :: GUID
  sg_Owner :: GUID
  sg_Data :: bytes

text \<open>A \<open>time.Time\<close> in UTC by its fields.\<close>

record EFITime =
  tm_Year :: nat
  tm_Month :: nat
  tm_Day :: nat
  tm_Hour :: nat
  tm_Minute :: nat
  tm_Second :: nat
  tm_Nanosecond :: nat

record Database =
  db_Source :: string
  db_Authenticated :: bool
  db_Timestamp :: "EFITime option"
  db_PayloadOffset :: nat
  db_SHA256 :: "bytes set"
  db_X509Certificates :: "bytes list"
  db_X509 :: "bytes set"
  db_OtherSignatures :: "Signature list"
  db_SignatureListCount :: nat
  db_SignatureCount :: nat
  db_FileSHA256 :: string

definition empty_database :: "string \<Rightarrow> Database" where
  "empty_database source = \<lparr> db_Source = source, db_Authenticated = False, db_Timestamp = None, db_PayloadOffset = 0,
     db_SHA256 = {}, db_X509Certificates = [], db_X509 = {}, db_OtherSignatures = [],
     db_SignatureListCount = 0, db_SignatureCount = 0, db_FileSHA256 = [] \<rparr>"

section \<open>The signature lists\<close>

definition maxSignatureListSize :: u32 where "maxSignatureListSize = 67108864"

definition add_signature :: "GUID \<Rightarrow> GUID \<Rightarrow> bytes \<Rightarrow> Database \<Rightarrow> Database" where
  "add_signature ty owner v db0 =
     (let db = db0\<lparr>db_SignatureCount := db_SignatureCount db0 + 1\<rparr> in
      if ty = certSHA256GUID \<and> length v = 32 then db\<lparr>db_SHA256 := insert v (db_SHA256 db)\<rparr>
      else if ty = certX509GUID
      then db\<lparr>db_X509Certificates := db_X509Certificates db @ [v], db_X509 := insert (sha256 v) (db_X509 db)\<rparr>
      else db\<lparr>db_OtherSignatures := db_OtherSignatures db @ [\<lparr> sg_Type = ty, sg_Owner = owner, sg_Data = v \<rparr>]\<rparr>)"

fun parse_entries :: "GUID \<Rightarrow> nat \<Rightarrow> nat \<Rightarrow> bytes \<Rightarrow> Database \<Rightarrow> Database res" where
  "parse_entries ty sz 0 bs db = Inr db"
| "parse_entries ty sz (Suc n) bs db =
     bindE (parseGUID (field bs 0 16)) (\<lambda>owner.
     parse_entries ty sz n (drop sz bs) (add_signature ty owner (drop 16 (take sz bs)) db))"

text \<open>One list at the head of \<open>rest\<close>, which is the payload from \<open>offset\<close> on; its size is returned too.\<close>

definition parse_list :: "nat \<Rightarrow> bytes \<Rightarrow> Database \<Rightarrow> (Database \<times> nat) res" where
  "parse_list offset rest db =
     bindE (parseGUID (field rest 0 16)) (\<lambda>ty.
     let listSize = get_u32 (field rest 16 4); headerSize = get_u32 (field rest 20 4);
         signatureSize = get_u32 (field rest 24 4) in
     if listSize < 28 \<or> maxSignatureListSize < listSize \<or> length rest < unat listSize
     then Inl (Errorf ''invalid EFI signature-list size %d at offset %d'' [FN (unat listSize), FN offset])
     else if listSize - 28 < headerSize \<or> signatureSize < 16
     then Inl (Errorf ''invalid EFI signature-list header/signature size at offset %d'' [FN offset])
     else
     let entriesBytes = listSize - 28 - headerSize in
     if entriesBytes mod signatureSize \<noteq> 0
     then Inl (Errorf ''EFI signature-list entries are not aligned at offset %d'' [FN offset])
     else
     bindE (parse_entries ty (unat signatureSize) (unat (entriesBytes div signatureSize))
         (drop (28 + unat headerSize) rest) (db\<lparr>db_SignatureListCount := db_SignatureListCount db + 1\<rparr>)) (\<lambda>db1.
     Inr (db1, unat listSize)))"

lemma parse_list_size: "parse_list offset rest db = Inr (db1, n) \<Longrightarrow> 28 \<le> n \<and> n \<le> length rest"
  by (auto simp: parse_list_def Let_def result_simps not_less word_le_unat)

function parseSignatureLists :: "nat \<Rightarrow> bytes \<Rightarrow> Database \<Rightarrow> Database res" where
  "parseSignatureLists offset rest db =
     (if rest = [] then Inr db
      else if length rest < 28
      then if all_zero rest then Inr db else Inl (Errorf ''truncated EFI signature list at offset %d'' [FN offset])
      else case parse_list offset rest db of
        Inl e \<Rightarrow> Inl e
      | Inr (db1, n) \<Rightarrow> parseSignatureLists (offset + n) (drop n rest) db1)"
  by pat_completeness auto

termination
  by (relation "measure (\<lambda>(offset, rest, db). length rest)") (auto dest!: parse_list_size)

declare parseSignatureLists.simps [simp del]

section \<open>Parsing an update or a firmware variable\<close>

definition days_in :: "nat \<Rightarrow> nat \<Rightarrow> nat" where
  "days_in year month =
     (if month = 2 then if (year mod 4 = 0 \<and> year mod 100 \<noteq> 0) \<or> year mod 400 = 0 then 29 else 28
      else if month \<in> {4, 6, 9, 11} then 30 else 31)"

text \<open>\<open>time.Date\<close> moves a day that the month does not have into the next month, which the code refuses.\<close>

definition parseEFITime :: "bytes \<Rightarrow> EFITime option" where
  "parseEFITime bs =
     (if length bs < 16 \<or> bs ! 7 \<noteq> 0 \<or> bs ! 15 \<noteq> 0 then None
      else
      let year = unat (get_u16 (field bs 0 2)); month = unat (bs ! 2); day = unat (bs ! 3);
          hour = unat (bs ! 4); minute = unat (bs ! 5); second = unat (bs ! 6);
          nanosecond = unat (get_u32 (field bs 8 4)) in
      if year < 1998 \<or> 9999 < year \<or> month < 1 \<or> 12 < month \<or> day < 1 \<or> 31 < day \<or> 23 < hour \<or> 59 < minute \<or> 59 < second
      then None
      else if 1000000000 \<le> nanosecond then None
      else if days_in year month < day then None
      else Some \<lparr> tm_Year = year, tm_Month = month, tm_Day = day, tm_Hour = hour, tm_Minute = minute,
             tm_Second = second, tm_Nanosecond = nanosecond \<rparr>)"

text \<open>The end of the authentication descriptor, if the data starts with one.\<close>

definition authenticated_end :: "bytes \<Rightarrow> (EFITime \<times> nat) option" where
  "authenticated_end bs =
     (case parseEFITime (take 16 bs) of
        None \<Rightarrow> None
      | Some timestamp \<Rightarrow>
          if 40 \<le> length bs
          then let certLength = get_u32 (field bs 16 4); revision = get_u16 (field bs 20 2);
                   certType = get_u16 (field bs 22 2); stop = 16 + unat certLength in
               case parseGUID (field bs 24 16) of
                 Inl _ \<Rightarrow> None
               | Inr certGUID \<Rightarrow>
                   if 24 \<le> certLength \<and> stop \<le> length bs \<and> revision = 0x0200 \<and> certType = 0x0ef1 \<and> certGUID = certPKCS7GUID
                   then Some (timestamp, stop) else None
          else None)"

definition Parse :: "bytes \<Rightarrow> string \<Rightarrow> Database res" where
  "Parse bs source =
     (if length bs < 28 then Inl (Msg ''DBX data is too small'')
      else
      let db = (empty_database source)\<lparr>db_FileSHA256 := hex_encode (sha256 bs)\<rparr>;
          (db, payload) = (case authenticated_end bs of
             Some (timestamp, n) \<Rightarrow>
               (db\<lparr>db_Authenticated := True, db_Timestamp := Some timestamp, db_PayloadOffset := n\<rparr>, drop n bs)
           | None \<Rightarrow> (db, bs)) in
      bindE (parseSignatureLists 0 payload db) (\<lambda>db.
      if db_SignatureCount db = 0 then Inl (Msg ''DBX contains no EFI signatures'') else Inr db))"

section \<open>Reading files\<close>

record dbxFileIdentity =
  di_device :: u64
  di_inode :: u64
  di_size :: int
  di_modifiedNS :: int
  di_changedNS :: int

text \<open>
  The calls on the file: opening it without following links, \<open>Stat\<close> (is it regular, and its
  identity), reading at most a number of bytes, and closing it.
\<close>

record 'w dbx_file =
  df_Open :: "string \<Rightarrow> 'w poll"
  df_Stat :: "('w, bool \<times> dbxFileIdentity) act"
  df_ReadAll :: "nat \<Rightarrow> ('w, bytes) act"
  df_Close :: "'w poll"

definition dbxIdentityOf :: "'w dbx_file \<Rightarrow> ('w, dbxFileIdentity) act" where
  "dbxIdentityOf file =
     bind_act (wrap_act (\<lambda>e. Errorf ''stat DBX file: %w'' [FE e]) (df_Stat file)) (\<lambda>(regular, identity).
     pure_act (if \<not> regular \<or> di_size identity \<le> 0 then Inl (Msg ''DBX input must be a non-empty regular file'')
               else Inr identity))"

definition read_stable_open :: "'w dbx_file \<Rightarrow> int \<Rightarrow> ('w, bytes) act" where
  "read_stable_open file maxBytes =
     bind_act (dbxIdentityOf file) (\<lambda>before.
     if maxBytes < di_size before
     then pure_act (Inl (Errorf ''DBX file is too large: %d bytes exceeds the %d-byte limit''
            [FN (nat (di_size before)), FN (nat maxBytes)]))
     else
     bind_act (wrap_act (\<lambda>e. Errorf ''read DBX file: %w'' [FE e]) (df_ReadAll file (nat maxBytes + 1))) (\<lambda>d.
     if maxBytes < int (length d) then pure_act (Inl (Errorf ''DBX file exceeds the %d-byte limit'' [FN (nat maxBytes)]))
     else
     bind_act (dbxIdentityOf file) (\<lambda>after.
     pure_act (if before \<noteq> after \<or> int (length d) \<noteq> di_size before
               then Inl (Msg ''DBX file changed while it was being read'') else Inr d))))"

definition readStableDBXFile :: "'w dbx_file \<Rightarrow> string \<Rightarrow> int \<Rightarrow> ('w, bytes) act" where
  "readStableDBXFile file path maxBytes w =
     (if maxBytes \<le> 0 then (Inl (Msg ''DBX file size limit must be greater than zero''), w)
      else case df_Open file path w of
        (Some e, w1) \<Rightarrow> (Inl (Errorf ''open DBX file: %w'' [FE e]), w1)
      | (None, w1) \<Rightarrow> (case read_stable_open file maxBytes w1 of (r, w2) \<Rightarrow> (r, snd (df_Close file w2))))"

definition maxDBXDownload :: int where "maxDBXDownload = 67108864"

definition ParseFile :: "'w dbx_file \<Rightarrow> string \<Rightarrow> ('w, Database) act" where
  "ParseFile file path = bind_act (readStableDBXFile file path maxDBXDownload) (\<lambda>d. pure_act (Parse d path))"

definition firmwareDBXVariablePath :: string where
  "firmwareDBXVariablePath = ''/sys/firmware/efi/efivars/dbx-d719b2cb-3d3a-4596-a3bc-dad00e67656f''"

definition firmwareDBXFromPath :: "'w dbx_file \<Rightarrow> string \<Rightarrow> ('w, Database) act" where
  "firmwareDBXFromPath file path =
     bind_act (wrap_act (\<lambda>e. Errorf ''read firmware DBX variable: %w'' [FE e])
         (readStableDBXFile file path (maxDBXDownload + 4))) (\<lambda>d.
     pure_act (if length d \<le> 4 then Inl (Msg ''firmware DBX variable is empty'') else Parse (drop 4 d) path))"

text \<open>\<open>os.ErrNotExist\<close> is a parameter.\<close>

definition FirmwareDBX :: "go_error \<Rightarrow> 'w dbx_file \<Rightarrow> ('w, Database) act" where
  "FirmwareDBX errNotExist file w =
     (case firmwareDBXFromPath file firmwareDBXVariablePath w of
        (Inl e, w1) \<Rightarrow>
          (Inl (if errors_is e errNotExist
                then Msg ''firmware DBX variable is unavailable; the system may not be booted in UEFI mode or efivarfs may not be mounted''
                else e), w1)
      | (Inr db, w1) \<Rightarrow> (Inr db, w1))"

section \<open>Questions and combinations\<close>

definition IsX509Revoked :: "Database option \<Rightarrow> bytes \<Rightarrow> bool" where
  "IsX509Revoked d certificateDER =
     (case d of None \<Rightarrow> False | Some db \<Rightarrow> certificateDER \<noteq> [] \<and> sha256 certificateDER \<in> db_X509 db)"

definition IsSHA256Revoked :: "Database option \<Rightarrow> bytes \<Rightarrow> bool" where
  "IsSHA256Revoked d digest = (case d of None \<Rightarrow> False | Some db \<Rightarrow> digest \<in> db_SHA256 db)"

fun merge_certificates :: "bytes list \<Rightarrow> bytes set \<Rightarrow> Database \<Rightarrow> bytes set \<times> Database" where
  "merge_certificates [] seen merged = (seen, merged)"
| "merge_certificates (cert # certs) seen merged =
     (let digest = sha256 cert in
      if digest \<in> seen then merge_certificates certs seen merged
      else merge_certificates certs (insert digest seen)
        (merged\<lparr>db_X509Certificates := db_X509Certificates merged @ [cert], db_X509 := insert digest (db_X509 merged)\<rparr>))"

fun merge_databases :: "Database option list \<Rightarrow> bytes set \<Rightarrow> Database \<Rightarrow> Database" where
  "merge_databases [] seen merged = merged"
| "merge_databases (None # dbs) seen merged = merge_databases dbs seen merged"
| "merge_databases (Some db # dbs) seen merged =
     (let merged = merged\<lparr>db_SignatureListCount := db_SignatureListCount merged + db_SignatureListCount db,
            db_SignatureCount := db_SignatureCount merged + db_SignatureCount db,
            db_SHA256 := db_SHA256 merged \<union> db_SHA256 db\<rparr> in
      case merge_certificates (db_X509Certificates db) seen merged of (seen, merged) \<Rightarrow>
      merge_databases dbs seen
        (merged\<lparr>db_OtherSignatures := db_OtherSignatures merged @ db_OtherSignatures db\<rparr>))"

definition Merge :: "Database option list \<Rightarrow> Database" where
  "Merge dbs = merge_databases dbs {} (empty_database ''merged'')"

definition EqualPayload :: "Database option \<Rightarrow> Database option \<Rightarrow> bool" where
  "EqualPayload a_opt b_opt =
     (case (a_opt, b_opt) of
        (Some a, Some b) \<Rightarrow>
          (let ac = set (map sha256 (db_X509Certificates a)); bc = set (map sha256 (db_X509Certificates b)) in
           card (db_SHA256 a) = card (db_SHA256 b) \<and> length (db_X509Certificates a) = length (db_X509Certificates b)
           \<and> (\<forall>digest \<in> db_SHA256 a. digest \<in> db_SHA256 b)
           \<and> card ac = card bc \<and> (\<forall>digest \<in> ac. digest \<in> bc))
      | _ \<Rightarrow> False)"

definition ArchitectureName :: "string \<Rightarrow> string \<Rightarrow> string res" where
  "ArchitectureName goarch v =
     (let normalized = to_lower (trim_space v);
          normalized = (if normalized \<in> {[], ''native'', ''auto''} then goarch else normalized) in
      if normalized \<in> {''386'', ''i386'', ''i686'', ''x86''} then Inr ''x86''
      else if normalized \<in> {''amd64'', ''x86_64'', ''x64''} then Inr ''amd64''
      else if normalized \<in> {''arm'', ''arm32''} then Inr ''arm''
      else if normalized \<in> {''arm64'', ''aarch64''} then Inr ''arm64''
      else if normalized \<in> {''ia64''} then Inr ''ia64''
      else Inl (Errorf ''unsupported DBX architecture %q'' [FS v]))"

section \<open>Summaries\<close>

record Summary =
  sm_Source :: string
  sm_Authenticated :: bool
  sm_Timestamp :: string
  sm_SignatureLists :: nat
  sm_Signatures :: nat
  sm_SHA256Hashes :: nat
  sm_X509Certificates :: nat
  sm_OtherSignatures :: nat
  sm_FileSHA256 :: string

fun padded :: "nat \<Rightarrow> nat \<Rightarrow> string" where
  "padded 0 n = []"
| "padded (Suc k) n = padded k (n div 10) @ [hex_digit (n mod 10)]"

text \<open>\<open>time.RFC3339\<close> in UTC.\<close>

definition rfc3339 :: "EFITime \<Rightarrow> string" where
  "rfc3339 t = padded 4 (tm_Year t) @ ''-'' @ padded 2 (tm_Month t) @ ''-'' @ padded 2 (tm_Day t) @ ''T''
     @ padded 2 (tm_Hour t) @ '':'' @ padded 2 (tm_Minute t) @ '':'' @ padded 2 (tm_Second t) @ ''Z''"

definition summary :: "Database \<Rightarrow> Summary" where
  "summary d = \<lparr> sm_Source = db_Source d, sm_Authenticated = db_Authenticated d,
     sm_Timestamp = (case db_Timestamp d of None \<Rightarrow> [] | Some t \<Rightarrow> rfc3339 t),
     sm_SignatureLists = db_SignatureListCount d, sm_Signatures = db_SignatureCount d,
     sm_SHA256Hashes = card (db_SHA256 d), sm_X509Certificates = length (db_X509Certificates d),
     sm_OtherSignatures = length (db_OtherSignatures d), sm_FileSHA256 = db_FileSHA256 d \<rparr>"

end
