(* ===== verification/SecureLists.thy ===== *)
theory SecureLists
  imports SecureDbx
begin

text \<open>
  The contents of a revocation database as EFI signature lists, their encoding, and the theorem
  that the parser accepts exactly the encodings; the invariant of databases and what merging and
  comparing them means.
\<close>

unbundle bit_operations_syntax

section \<open>Little-endian fields read and written back\<close>

lemma unat_le_word:
  "8 * length bs \<le> LENGTH('a) \<Longrightarrow> 8 < LENGTH('a) \<Longrightarrow> unat (le_word bs :: 'a::len word) < 256 ^ length bs"
  "8 * length (b # bs) \<le> LENGTH('a) \<Longrightarrow> 8 < LENGTH('a) \<Longrightarrow>
     unat (le_word (b # bs) :: 'a::len word) = unat b + 256 * unat (le_word bs :: 'a word)"
proof (induction bs arbitrary: b)
  case Nil
  {
    case 1
    show ?case by simp
  next
    case 2
    have "unat b < 2 ^ LENGTH('a)"
      using unat_lt_8 [of b] 2(2) power_increasing [of 8 "LENGTH('a)" "2 :: nat"] by simp
    then show ?case by (simp add: unsigned_ucast_eq take_bit_nat_eq_self)
  }
next
  case (Cons c bs)
  {
    case 1
    then have "unat (le_word (c # bs) :: 'a word) = unat c + 256 * unat (le_word bs :: 'a word)" by (intro Cons.IH(2))
    moreover have "unat (le_word bs :: 'a word) < 256 ^ length bs" using 1 by (intro Cons.IH(1)) simp_all
    ultimately show ?case using unat_lt_8 [of c] by simp
  next
    case 2
    let ?r = "le_word (c # bs) :: 'a word"
    have lt: "unat ?r < 256 ^ length (c # bs)"
    proof -
      have "unat ?r = unat c + 256 * unat (le_word bs :: 'a word)" using 2 by (intro Cons.IH(2)) simp_all
      moreover have "unat (le_word bs :: 'a word) < 256 ^ length bs" using 2 by (intro Cons.IH(1)) simp_all
      ultimately show ?thesis using unat_lt_8 [of c] by simp
    qed
    have p: "(256 :: nat) ^ Suc (length (c # bs)) \<le> 2 ^ LENGTH('a)"
    proof -
      have "(256 :: nat) ^ Suc (length (c # bs)) = 2 ^ (8 * Suc (length (c # bs)))" by (simp only: power_mult) simp
      also have "\<dots> \<le> 2 ^ LENGTH('a)" using 2 by (intro power_increasing) simp_all
      finally show ?thesis .
    qed
    have s: "unat b + 256 * unat ?r < 2 ^ LENGTH('a)"
    proof -
      have "unat b + 256 * unat ?r < 256 * 256 ^ length (c # bs)" using lt unat_lt_8 [of b] by linarith
      with p show ?thesis by simp
    qed
    have ub: "unat (ucast b :: 'a word) = unat b"
      using s by (simp add: unsigned_ucast_eq take_bit_nat_eq_self)
    have um: "unat (256 * ?r) = 256 * unat ?r"
      using s unat_256 [OF 2(2)] by (simp add: unat_word_ariths del: le_word.simps)
    show ?case
      using s by (simp only: le_word.simps(2) [of b] unat_word_ariths(1) ub um) simp
  }
qed

lemma word_le_le_word:
  "8 * length bs \<le> LENGTH('a) \<Longrightarrow> 8 < LENGTH('a) \<Longrightarrow> word_le (length bs) (le_word bs :: 'a::len word) = bs"
proof (induction bs)
  case (Cons b bs)
  let ?r = "le_word bs :: 'a word"
  let ?w = "le_word (b # bs) :: 'a word"
  have u: "unat ?w = unat b + 256 * unat ?r" using Cons.prems by (intro unat_le_word(2))
  have h: "(ucast ?w :: byte) = b"
  proof -
    have "unat (ucast ?w :: byte) = unat ?w mod 256" by (simp add: unsigned_ucast_eq take_bit_eq_mod del: le_word.simps)
    then show ?thesis using unat_lt_8 [of b] by (simp add: word_eq_unat u del: le_word.simps)
  qed
  have t: "?w div 256 = ?r"
    using unat_lt_8 [of b] unat_256 [where 'a = 'a] Cons.prems
    by (simp add: word_eq_unat unat_div u del: le_word.simps)
  have "word_le (length (b # bs)) ?w = ucast ?w # word_le (length bs) (?w div 256)" by simp
  then show ?case using Cons h t by (simp del: le_word.simps)
qed simp

lemma put_get_32: "length bs = 4 \<Longrightarrow> put_u32 (get_u32 bs) = bs"
  using word_le_le_word [of bs, where 'a = 32] by (simp add: put_u32_def get_u32_def)

lemma put_get_16: "length bs = 2 \<Longrightarrow> put_u16 (get_u16 bs) = bs"
  using word_le_le_word [of bs, where 'a = 16] by (simp add: put_u16_def get_u16_def)

section \<open>Signature lists\<close>

record sig_list =
  sl_Type :: GUID
  sl_Header :: bytes
  sl_Size :: nat
  sl_Entries :: "(GUID \<times> bytes) list"

definition guid_ok :: "GUID \<Rightarrow> bool" where
  "guid_ok g \<longleftrightarrow> length (gd_Data4 g) = 8"

definition guid_bytes :: "GUID \<Rightarrow> bytes" where
  "guid_bytes g = put_u32 (gd_Data1 g) @ put_u16 (gd_Data2 g) @ put_u16 (gd_Data3 g) @ gd_Data4 g"

definition entry_bytes :: "GUID \<times> bytes \<Rightarrow> bytes" where
  "entry_bytes e = guid_bytes (fst e) @ snd e"

definition list_length :: "sig_list \<Rightarrow> nat" where
  "list_length l = 28 + length (sl_Header l) + sl_Size l * length (sl_Entries l)"

text \<open>
  A well-formed list: every entry is an owner and data of the announced size, at least the owner,
  and the whole is at most 64 MiB.
\<close>

definition list_ok :: "sig_list \<Rightarrow> bool" where
  "list_ok l \<longleftrightarrow> guid_ok (sl_Type l) \<and> 16 \<le> sl_Size l \<and> sl_Size l < 2 ^ 32
     \<and> list_all (\<lambda>e. guid_ok (fst e) \<and> 16 + length (snd e) = sl_Size l) (sl_Entries l)
     \<and> list_length l \<le> 67108864"

definition list_bytes :: "sig_list \<Rightarrow> bytes" where
  "list_bytes l = guid_bytes (sl_Type l) @ put_u32 (of_nat (list_length l)) @ put_u32 (of_nat (length (sl_Header l)))
     @ put_u32 (of_nat (sl_Size l)) @ sl_Header l @ concat (map entry_bytes (sl_Entries l))"

text \<open>What a list adds to a database.\<close>

definition add_list :: "sig_list \<Rightarrow> Database \<Rightarrow> Database" where
  "add_list l db = fold (\<lambda>(owner, v). add_signature (sl_Type l) owner v) (sl_Entries l)
     (db\<lparr>db_SignatureListCount := db_SignatureListCount db + 1\<rparr>)"

lemma length_guid_bytes [simp]: "guid_ok g \<Longrightarrow> length (guid_bytes g) = 16"
  by (simp add: guid_bytes_def guid_ok_def)

lemma field_append1: "i + n \<le> length xs \<Longrightarrow> field (xs @ ys) i n = field xs i n"
  by (simp add: field_def)

lemma field_append2: "length xs \<le> i \<Longrightarrow> field (xs @ ys) i n = field ys (i - length xs) n"
  by (simp add: field_def)

lemma field_0_append [simp]: "n = length xs \<Longrightarrow> field (xs @ ys) 0 n = xs"
  by (simp add: field_def)

lemma parse_guid_bytes: "guid_ok g \<Longrightarrow> parseGUID (guid_bytes g) = Inr g"
  by (simp add: parseGUID_def guid_bytes_def guid_ok_def field_append1 field_append2)

lemma guid_bytes_parse:
  assumes "parseGUID bs = Inr g" "length bs = 16"
  shows "guid_ok g" "guid_bytes g = bs"
proof -
  have g: "g = \<lparr> gd_Data1 = get_u32 (field bs 0 4), gd_Data2 = get_u16 (field bs 4 2),
      gd_Data3 = get_u16 (field bs 6 2), gd_Data4 = field bs 8 8 \<rparr>"
    using assms by (simp add: parseGUID_def)
  show "guid_ok g" using assms(2) by (simp add: g guid_ok_def)
  have "guid_bytes g = field bs 0 4 @ field bs 4 2 @ field bs 6 2 @ field bs 8 8"
    using assms(2) by (simp add: g guid_bytes_def put_get_32 put_get_16)
  also have "\<dots> = bs"
    using take_drop_split [of 4 6 0 bs] take_drop_split [of 6 8 0 bs] append_take_drop_id [of 8 bs] assms(2)
    by (simp add: field_def flip: append_assoc)
  finally show "guid_bytes g = bs" .
qed

section \<open>Parsing the encoding\<close>

lemma parse_entries_encoded:
  "list_all (\<lambda>e. guid_ok (fst e) \<and> 16 + length (snd e) = sz) es \<Longrightarrow>
     parse_entries ty sz (length es) (concat (map entry_bytes es) @ rest) db
     = Inr (fold (\<lambda>(owner, v). add_signature ty owner v) es db)"
proof (induction es arbitrary: db)
  case (Cons e es)
  obtain owner v where e: "e = (owner, v)" by (cases e)
  have g: "guid_ok owner" and l: "sz = 16 + length v" using Cons.prems e by simp_all
  let ?x = "concat (map entry_bytes es) @ rest"
  have f: "field (entry_bytes e @ ?x) 0 16 = guid_bytes owner" "drop sz (entry_bytes e @ ?x) = ?x"
    "drop 16 (take sz (entry_bytes e @ ?x)) = v"
    using g l by (simp_all add: entry_bytes_def e)
  have "parse_entries ty sz (length (e # es)) (entry_bytes e @ ?x) db
      = parse_entries ty sz (length es) ?x (add_signature ty owner v db)"
    by (simp only: list.size(4) add_Suc_right add_0_right parse_entries.simps(2) f parse_guid_bytes [OF g] bindE_Inr)
  with Cons show ?case by (simp add: e)
qed simp

lemma list_fields:
  assumes "list_ok l"
  shows "field (list_bytes l @ rest) 0 16 = guid_bytes (sl_Type l)"
    "get_u32 (field (list_bytes l @ rest) 16 4) = of_nat (list_length l)"
    "get_u32 (field (list_bytes l @ rest) 20 4) = of_nat (length (sl_Header l))"
    "get_u32 (field (list_bytes l @ rest) 24 4) = of_nat (sl_Size l)"
    "drop (28 + length (sl_Header l)) (list_bytes l @ rest) = concat (map entry_bytes (sl_Entries l)) @ rest"
  using assms by (simp_all add: list_ok_def list_bytes_def field_append1 field_append2)

lemma length_entries: "list_all (\<lambda>e. guid_ok (fst e) \<and> 16 + length (snd e) = sz) es \<Longrightarrow>
    length (concat (map entry_bytes es)) = sz * length es"
  by (induction es) (auto simp: entry_bytes_def algebra_simps)

lemma length_list_bytes: "list_ok l \<Longrightarrow> length (list_bytes l) = list_length l"
  using length_entries [of "sl_Size l" "sl_Entries l"]
  by (simp add: list_ok_def list_bytes_def list_length_def)

lemma parse_list_encoded:
  assumes "list_ok l"
  shows "parse_list offset (list_bytes l @ rest) db = Inr (add_list l db, list_length l)"
proof -
  have n: "list_length l \<le> 67108864" "16 \<le> sl_Size l" "sl_Size l < 2 ^ 32" using assms by (simp_all add: list_ok_def)
  have L: "unat (of_nat (list_length l) :: u32) = list_length l" using n by (intro unat_of_nat_32) simp
  have h: "28 + length (sl_Header l) \<le> list_length l" by (simp add: list_length_def)
  have H: "unat (of_nat (length (sl_Header l)) :: u32) = length (sl_Header l)" using n h by (intro unat_of_nat_32) simp
  have Z: "unat (of_nat (sl_Size l) :: u32) = sl_Size l" using n by (intro unat_of_nat_32)
  have a: "unat (of_nat (list_length l) - 28 :: u32) = list_length l - 28"
    using h by (simp add: unat_sub word_le_unat L)
  have b: "unat (of_nat (list_length l) - 28 - of_nat (length (sl_Header l)) :: u32) = sl_Size l * length (sl_Entries l)"
  proof -
    have "of_nat (length (sl_Header l)) \<le> (of_nat (list_length l) - 28 :: u32)"
      unfolding word_le_unat a H using h by simp
    then have "unat (of_nat (list_length l) - 28 - of_nat (length (sl_Header l)) :: u32)
        = list_length l - 28 - length (sl_Header l)"
      by (simp only: unat_sub a H)
    then show ?thesis by (simp only: list_length_def)
  qed
  have c1: "\<not> (of_nat (list_length l) < (28 :: u32) \<or> maxSignatureListSize < of_nat (list_length l)
      \<or> length (list_bytes l @ rest) < list_length l)"
    using n h by (simp add: word_less_unat L maxSignatureListSize_def length_list_bytes [OF assms])
  have c2: "\<not> (of_nat (list_length l) - 28 < (of_nat (length (sl_Header l)) :: u32) \<or> of_nat (sl_Size l) < (16 :: u32))"
    using n h by (simp add: word_less_unat a H Z)
  have m: "(of_nat (list_length l) - 28 - of_nat (length (sl_Header l)) :: u32) mod of_nat (sl_Size l) = 0"
    by (simp add: word_eq_unat unat_mod b Z)
  have d: "unat ((of_nat (list_length l) - 28 - of_nat (length (sl_Header l)) :: u32) div of_nat (sl_Size l))
      = length (sl_Entries l)"
    using n by (simp add: unat_div b Z)
  have g: "guid_ok (sl_Type l)" and es: "list_all (\<lambda>e. guid_ok (fst e) \<and> 16 + length (snd e) = sl_Size l) (sl_Entries l)"
    using assms by (simp_all add: list_ok_def)
  show ?thesis
    unfolding parse_list_def Let_def list_fields [OF assms] parse_guid_bytes [OF g] bindE_Inr if_not_P [OF c1]
      if_not_P [OF c2] H Z d list_fields(5) [OF assms] parse_entries_encoded [OF es] L
    using m by (simp add: add_list_def)
qed

lemma parse_lists_encoded:
  "list_all list_ok ls \<Longrightarrow> k < 28 \<Longrightarrow>
     parseSignatureLists offset (concat (map list_bytes ls) @ replicate k 0) db = Inr (fold add_list ls db)"
proof (induction ls arbitrary: offset db)
  case Nil
  then show ?case by (cases k) (simp_all add: parseSignatureLists.simps del: replicate_Suc)
next
  case (Cons l ls)
  let ?rest = "concat (map list_bytes ls) @ replicate k 0"
  have l: "list_ok l" and ls: "list_all list_ok ls" using Cons.prems by simp_all
  have len: "length (list_bytes l) = list_length l" by (rule length_list_bytes [OF l])
  have "28 \<le> list_length l" by (simp add: list_length_def)
  with len have "parseSignatureLists offset (list_bytes l @ ?rest) db
      = parseSignatureLists (offset + list_length l) ?rest (add_list l db)"
    by (subst parseSignatureLists.simps) (auto simp: parse_list_encoded [OF l])
  with Cons.IH [OF ls Cons.prems(2)] show ?case by simp
qed

section \<open>Everything accepted is an encoding\<close>

lemma parse_entries_Inr:
  "parse_entries ty sz n bs db = Inr db1 \<Longrightarrow> 16 \<le> sz \<Longrightarrow> sz * n \<le> length bs \<Longrightarrow>
     \<exists>es. length es = n \<and> list_all (\<lambda>e. guid_ok (fst e) \<and> 16 + length (snd e) = sz) es
       \<and> take (sz * n) bs = concat (map entry_bytes es)
       \<and> db1 = fold (\<lambda>(owner, v). add_signature ty owner v) es db"
proof (induction n arbitrary: bs db)
  case 0
  then show ?case by simp
next
  case (Suc n)
  have len: "sz \<le> length bs" using Suc.prems(3) by simp
  obtain owner where o: "parseGUID (field bs 0 16) = Inr owner"
    and rest: "parse_entries ty sz n (drop sz bs) (add_signature ty owner (drop 16 (take sz bs)) db) = Inr db1"
    using Suc.prems(1) by (auto simp: result_simps)
  have "length (field bs 0 16) = 16" using len Suc.prems(2) by simp
  note g = guid_bytes_parse [OF o this]
  obtain es where es: "length es = n" "list_all (\<lambda>e. guid_ok (fst e) \<and> 16 + length (snd e) = sz) es"
    "take (sz * n) (drop sz bs) = concat (map entry_bytes es)"
    "db1 = fold (\<lambda>(owner, v). add_signature ty owner v) es (add_signature ty owner (drop 16 (take sz bs)) db)"
  proof -
    have "sz * n \<le> length (drop sz bs)" using Suc.prems(3) len by simp
    from Suc.IH [OF rest Suc.prems(2) this] show thesis using that by blast
  qed
  let ?e = "(owner, drop 16 (take sz bs))"
  have "entry_bytes ?e = take 16 (take sz bs) @ drop 16 (take sz bs)"
    using g Suc.prems(2) by (simp add: entry_bytes_def field_def min_def)
  then have e: "entry_bytes ?e = take sz bs" by (simp only: append_take_drop_id)
  have "take (sz * Suc n) bs = entry_bytes ?e @ concat (map entry_bytes es)"
    using take_drop_split [of sz "sz * Suc n" 0 bs] es(3) by (simp add: e)
  then show ?case
    using es g len Suc.prems(2) by (intro exI [of _ "?e # es"]) simp
qed

lemma parse_list_Inr:
  assumes "parse_list offset rest db = Inr (db1, n)" "28 \<le> length rest"
  shows "\<exists>l. list_ok l \<and> list_length l = n \<and> take n rest = list_bytes l \<and> db1 = add_list l db"
proof -
  define listSize headerSize signatureSize where "listSize = get_u32 (field rest 16 4)"
    and "headerSize = get_u32 (field rest 20 4)" and "signatureSize = get_u32 (field rest 24 4)"
  obtain ty x where t: "parseGUID (field rest 0 16) = Inr ty"
    and c: "\<not> (listSize < 28 \<or> maxSignatureListSize < listSize \<or> length rest < unat listSize)"
      "\<not> (listSize - 28 < headerSize \<or> signatureSize < 16)" "\<not> (listSize - 28 - headerSize) mod signatureSize \<noteq> 0"
    and p0: "parse_entries ty (unat signatureSize) (unat ((listSize - 28 - headerSize) div signatureSize))
         (drop (28 + unat headerSize) rest) (db\<lparr>db_SignatureListCount := db_SignatureListCount db + 1\<rparr>) = Inr x"
    and n0: "(x, unat listSize) = (db1, n)"
    using assms(1) unfolding parse_list_def Let_def bindE_eq_Inr if_Inl_eq_Inr sum.inject
      listSize_def headerSize_def signatureSize_def
  proof (elim exE conjE, goal_cases)
    case (1 ty x)
    show ?case by (rule 1(1)) (fact 1)+
  qed
  from p0 n0 have p: "parse_entries ty (unat signatureSize) (unat ((listSize - 28 - headerSize) div signatureSize))
         (drop (28 + unat headerSize) rest) (db\<lparr>db_SignatureListCount := db_SignatureListCount db + 1\<rparr>) = Inr db1"
    by simp
  from n0 have n: "n = unat listSize" by simp
  define h where "h = unat headerSize"
  define sz where "sz = unat signatureSize"
  define k where "k = unat ((listSize - 28 - headerSize) div signatureSize)"
  have b: "28 \<le> n" "n \<le> 67108864" "n \<le> length rest" "16 \<le> sz"
    using c n by (simp_all add: not_less word_le_unat maxSignatureListSize_def sz_def)
  have a: "unat (listSize - 28) = n - 28" using b n by (simp add: unat_sub word_le_unat)
  have hh: "h \<le> n - 28" using c(2) a by (simp add: not_less word_le_unat h_def)
  have e: "unat (listSize - 28 - headerSize) = n - 28 - h"
    using hh a by (simp add: unat_sub word_le_unat h_def)
  have "(listSize - 28 - headerSize) mod signatureSize = 0" using c(3) by (simp only: not_not)
  then have "(n - 28 - h) mod sz = 0" by (simp only: word_eq_unat unat_mod e sz_def unat_0)
  moreover have k: "k = (n - 28 - h) div sz" by (simp add: k_def unat_div e sz_def)
  ultimately have ks: "sz * k = n - 28 - h" by (metis mult_div_mod_eq add.right_neutral)
  obtain es where es: "length es = k" "list_all (\<lambda>e. guid_ok (fst e) \<and> 16 + length (snd e) = sz) es"
    "take (sz * k) (drop (28 + h) rest) = concat (map entry_bytes es)"
    "db1 = fold (\<lambda>(owner, v). add_signature ty owner v) es (db\<lparr>db_SignatureListCount := db_SignatureListCount db + 1\<rparr>)"
  proof -
    have "sz * k \<le> length (drop (28 + h) rest)" using ks b(3) by simp
    from parse_entries_Inr [OF p [folded h_def sz_def k_def] b(4) this] show thesis using that by blast
  qed
  have "length (field rest 0 16) = 16" using assms(2) by simp
  note g = guid_bytes_parse [OF t this]
  define l where "l = \<lparr> sl_Type = ty, sl_Header = field rest 28 h, sl_Size = sz, sl_Entries = es \<rparr>"
  have lh: "length (field rest 28 h) = h" using b hh by simp
  have ll: "list_length l = n" using ks hh b es(1) lh by (simp add: l_def list_length_def)
  have ok: "list_ok l"
    using g es b ll unat_lt_32 [of signatureSize] by (simp add: list_ok_def l_def sz_def)
  have w: "(of_nat (unat (x :: u32)) :: u32) = x" for x by simp
  have "list_bytes l = field rest 0 16 @ field rest 16 4 @ field rest 20 4 @ field rest 24 4 @ field rest 28 h
      @ take (sz * k) (drop (28 + h) rest)"
    unfolding list_bytes_def ll using g lh es(3) assms(2)
    by (simp add: l_def n h_def sz_def listSize_def headerSize_def signatureSize_def put_get_32)
  also have "\<dots> = take n rest"
    using take_drop_split [of 16 20 0 rest] take_drop_split [of 20 24 0 rest] take_drop_split [of 24 28 0 rest]
      take_drop_split [of 28 "28 + h" 0 rest] take_drop_split [of "28 + h" n 0 rest] ks b hh
    by (simp add: field_def flip: append_assoc)
  finally show ?thesis using ok ll es(4) by (intro exI [of _ l]) (simp add: add_list_def l_def)
qed

lemma parse_lists_Inr:
  "parseSignatureLists offset rest db = Inr db1 \<Longrightarrow>
     \<exists>ls k. list_all list_ok ls \<and> k < 28 \<and> rest = concat (map list_bytes ls) @ replicate k 0 \<and> db1 = fold add_list ls db"
proof (induction offset rest db rule: parseSignatureLists.induct)
  case (1 offset rest db)
  show ?case
  proof (cases "length rest < 28")
    case True
    then have "db1 = db \<and> rest = replicate (length rest) 0"
      using 1(2) by (subst (asm) parseSignatureLists.simps) (auto simp: all_zero_iff split: if_splits)
    then show ?thesis using True by (intro exI [of _ "[]"] exI [of _ "length rest"]) simp
  next
    case False
    then have ne: "rest \<noteq> []" by auto
    obtain db2 n where p: "parse_list offset rest db = Inr (db2, n)"
      and r: "parseSignatureLists (offset + n) (drop n rest) db2 = Inr db1"
      using 1(2) False ne by (subst (asm) parseSignatureLists.simps) (auto split: sum.splits prod.splits)
    obtain l where l: "list_ok l" "list_length l = n" "take n rest = list_bytes l" "db2 = add_list l db"
      using parse_list_Inr [OF p] False by auto
    obtain ls k where ls: "list_all list_ok ls" "k < 28" "drop n rest = concat (map list_bytes ls) @ replicate k 0"
      "db1 = fold add_list ls db2"
      using 1(1) [OF ne False p refl r] by blast
    have "rest = list_bytes l @ concat (map list_bytes ls) @ replicate k 0"
      using append_take_drop_id [of n rest] l(3) ls(3) by simp
    then show ?thesis using l ls by (intro exI [of _ "l # ls"] exI [of _ k]) simp
  qed
qed

section \<open>Well-formed databases\<close>

text \<open>
  The two indexes agree with the certificates and the digests have their length; every signature
  counted is found again unless it was listed twice.
\<close>

definition database_ok :: "Database \<Rightarrow> bool" where
  "database_ok db \<longleftrightarrow> finite (db_SHA256 db) \<and> (\<forall>d \<in> db_SHA256 db. length d = 32)
     \<and> db_X509 db = sha256 ` set (db_X509Certificates db)
     \<and> card (db_SHA256 db) + length (db_X509Certificates db) + length (db_OtherSignatures db) \<le> db_SignatureCount db"

lemma empty_database_ok: "database_ok (empty_database s)"
  by (simp add: database_ok_def empty_database_def)

lemma add_signature_ok: "database_ok db \<Longrightarrow> database_ok (add_signature ty owner v db)"
  by (auto simp: database_ok_def add_signature_def Let_def card_insert_if)

lemma add_signatures_ok: "database_ok db \<Longrightarrow> database_ok (fold (\<lambda>(owner, v). add_signature ty owner v) es db)"
  by (induction es arbitrary: db) (auto simp: add_signature_ok)

lemma add_list_ok: "database_ok db \<Longrightarrow> database_ok (add_list l db)"
  unfolding add_list_def by (rule add_signatures_ok) (simp add: database_ok_def)

lemma add_lists_ok: "database_ok db \<Longrightarrow> database_ok (fold add_list ls db)"
  by (induction ls arbitrary: db) (auto simp: add_list_ok)

section \<open>What a database answers\<close>

definition listed :: "sig_list list \<Rightarrow> GUID \<Rightarrow> bytes \<Rightarrow> bool" where
  "listed ls ty v \<longleftrightarrow> (\<exists>l \<in> set ls. sl_Type l = ty \<and> v \<in> snd ` set (sl_Entries l))"

lemma guids_differ [simp]: "certX509GUID \<noteq> certSHA256GUID" "certSHA256GUID \<noteq> certX509GUID"
  by (simp_all add: certX509GUID_def certSHA256GUID_def)

lemma add_signature_sets:
  "d \<in> db_SHA256 (add_signature ty owner v db) \<longleftrightarrow>
     d \<in> db_SHA256 db \<or> ty = certSHA256GUID \<and> length d = 32 \<and> d = v"
  "c \<in> set (db_X509Certificates (add_signature ty owner v db)) \<longleftrightarrow>
     c \<in> set (db_X509Certificates db) \<or> ty = certX509GUID \<and> c = v"
  by (cases "ty = certSHA256GUID \<and> length v = 32"; cases "ty = certX509GUID"; auto simp: add_signature_def Let_def)+

lemma add_signatures_sets:
  "d \<in> db_SHA256 (fold (\<lambda>(owner, v). add_signature ty owner v) es db) \<longleftrightarrow>
     d \<in> db_SHA256 db \<or> ty = certSHA256GUID \<and> length d = 32 \<and> d \<in> snd ` set es"
  "c \<in> set (db_X509Certificates (fold (\<lambda>(owner, v). add_signature ty owner v) es db)) \<longleftrightarrow>
     c \<in> set (db_X509Certificates db) \<or> ty = certX509GUID \<and> c \<in> snd ` set es"
  by (induction es arbitrary: db) (auto simp: add_signature_sets)

lemma add_lists_sets:
  "d \<in> db_SHA256 (fold add_list ls db) \<longleftrightarrow> d \<in> db_SHA256 db \<or> listed ls certSHA256GUID d \<and> length d = 32"
  "c \<in> set (db_X509Certificates (fold add_list ls db)) \<longleftrightarrow> c \<in> set (db_X509Certificates db) \<or> listed ls certX509GUID c"
  by (induction ls arbitrary: db) (auto simp: add_list_def add_signatures_sets listed_def)

text \<open>The signature lists of some data, behind the authentication descriptor if there is one.\<close>

definition payload_of :: "bytes \<Rightarrow> bytes" where
  "payload_of bs = (case authenticated_end bs of Some (timestamp, n) \<Rightarrow> drop n bs | None \<Rightarrow> bs)"

lemma Parse_Inr:
  assumes "Parse bs source = Inr db"
  obtains db0 where "parseSignatureLists 0 (payload_of bs) db0 = Inr db" "database_ok db0"
    "db_SHA256 db0 = {}" "db_X509Certificates db0 = []" "db_SignatureCount db \<noteq> 0"
proof -
  define db1 where "db1 = (empty_database source)\<lparr>db_FileSHA256 := hex_encode (sha256 bs)\<rparr>"
  define db0 where "db0 = (case authenticated_end bs of
      Some (timestamp, n) \<Rightarrow> db1\<lparr>db_Authenticated := True, db_Timestamp := Some timestamp, db_PayloadOffset := n\<rparr>
    | None \<Rightarrow> db1)"
  have p: "(case authenticated_end bs of
      Some (timestamp, n) \<Rightarrow> (db1\<lparr>db_Authenticated := True, db_Timestamp := Some timestamp, db_PayloadOffset := n\<rparr>, drop n bs)
    | None \<Rightarrow> (db1, bs)) = (db0, payload_of bs)"
    by (auto simp: db0_def payload_of_def split: option.splits)
  have "parseSignatureLists 0 (payload_of bs) db0 = Inr db \<and> db_SignatureCount db \<noteq> 0"
    using assms unfolding Parse_def Let_def db1_def [symmetric] p by (auto simp: result_simps)
  moreover have "database_ok db0" "db_SHA256 db0 = {}" "db_X509Certificates db0 = []"
    using empty_database_ok [of source]
    by (auto simp: db0_def db1_def database_ok_def empty_database_def split: option.splits)
  ultimately show thesis using that by blast
qed

lemma parsed_answers:
  assumes "Parse bs source = Inr db"
  shows "database_ok db"
    and "\<exists>ls k. list_all list_ok ls \<and> k < 28 \<and> payload_of bs = concat (map list_bytes ls) @ replicate k 0
      \<and> (\<forall>d. IsSHA256Revoked (Some db) d \<longleftrightarrow> listed ls certSHA256GUID d \<and> length d = 32)
      \<and> (\<forall>c. IsX509Revoked (Some db) c \<longleftrightarrow> c \<noteq> [] \<and> (\<exists>c'. listed ls certX509GUID c' \<and> sha256 c' = sha256 c))"
proof -
  obtain db0 where p: "parseSignatureLists 0 (payload_of bs) db0 = Inr db" and ok: "database_ok db0"
    and e: "db_SHA256 db0 = {}" "db_X509Certificates db0 = []"
    using Parse_Inr [OF assms] .
  obtain ls k where ls: "list_all list_ok ls" "k < 28" "payload_of bs = concat (map list_bytes ls) @ replicate k 0"
    and db: "db = fold add_list ls db0"
    using parse_lists_Inr [OF p] by blast
  show d: "database_ok db" unfolding db by (rule add_lists_ok [OF ok])
  have "IsSHA256Revoked (Some db) v \<longleftrightarrow> listed ls certSHA256GUID v \<and> length v = 32" for v
    by (simp add: IsSHA256Revoked_def db add_lists_sets e)
  moreover have "IsX509Revoked (Some db) c \<longleftrightarrow> c \<noteq> [] \<and> (\<exists>c'. listed ls certX509GUID c' \<and> sha256 c' = sha256 c)" for c
  proof -
    have "set (db_X509Certificates db) = {c. listed ls certX509GUID c}"
      by (auto simp: db add_lists_sets e)
    then have "db_X509 db = sha256 ` {c. listed ls certX509GUID c}" using d by (simp add: database_ok_def)
    then show ?thesis by (auto simp: IsX509Revoked_def image_iff)
  qed
  ultimately show "\<exists>ls k. list_all list_ok ls \<and> k < 28 \<and> payload_of bs = concat (map list_bytes ls) @ replicate k 0
      \<and> (\<forall>d. IsSHA256Revoked (Some db) d \<longleftrightarrow> listed ls certSHA256GUID d \<and> length d = 32)
      \<and> (\<forall>c. IsX509Revoked (Some db) c \<longleftrightarrow> c \<noteq> [] \<and> (\<exists>c'. listed ls certX509GUID c' \<and> sha256 c' = sha256 c))"
    using ls by blast
qed

section \<open>Merging and comparing\<close>

lemma merge_certificates_state:
  "merge_certificates certs seen merged = (seen1, m1) \<Longrightarrow> seen = db_X509 merged \<Longrightarrow>
     db_X509 merged = sha256 ` set (db_X509Certificates merged) \<Longrightarrow>
     seen1 = db_X509 m1 \<and> db_X509 m1 = sha256 ` set (db_X509Certificates m1)
     \<and> db_X509 m1 = db_X509 merged \<union> sha256 ` set certs \<and> db_SHA256 m1 = db_SHA256 merged
     \<and> db_OtherSignatures m1 = db_OtherSignatures merged \<and> db_SignatureCount m1 = db_SignatureCount merged
     \<and> length (db_X509Certificates m1) \<le> length (db_X509Certificates merged) + length certs"
proof (induction certs seen merged rule: merge_certificates.induct)
  case (2 cert certs seen merged)
  show ?case
  proof (cases "sha256 cert \<in> seen")
    case True
    then have m: "merge_certificates certs seen merged = (seen1, m1)" using 2(3) by (simp add: Let_def)
    from 2(1) [OF refl True m 2(4,5)] True 2(4) show ?thesis by auto
  next
    case False
    let ?m = "merged\<lparr>db_X509Certificates := db_X509Certificates merged @ [cert], db_X509 := insert (sha256 cert) (db_X509 merged)\<rparr>"
    have m: "merge_certificates certs (insert (sha256 cert) seen) ?m = (seen1, m1)" using 2(3) False by (simp add: Let_def)
    have "seen1 = db_X509 m1 \<and> db_X509 m1 = sha256 ` set (db_X509Certificates m1)
     \<and> db_X509 m1 = db_X509 ?m \<union> sha256 ` set certs \<and> db_SHA256 m1 = db_SHA256 ?m
     \<and> db_OtherSignatures m1 = db_OtherSignatures ?m \<and> db_SignatureCount m1 = db_SignatureCount ?m
     \<and> length (db_X509Certificates m1) \<le> length (db_X509Certificates ?m) + length certs"
      using 2(4,5) by (intro 2(2) [OF refl False m]) simp_all
    then show ?thesis by auto
  qed
qed auto

lemma merge_databases_state:
  "seen = db_X509 merged \<Longrightarrow> database_ok merged \<Longrightarrow> (\<And>db. Some db \<in> set dbs \<Longrightarrow> database_ok db) \<Longrightarrow>
     database_ok (merge_databases dbs seen merged)
     \<and> db_SHA256 (merge_databases dbs seen merged) = db_SHA256 merged \<union> (\<Union>db \<in> {db. Some db \<in> set dbs}. db_SHA256 db)
     \<and> db_X509 (merge_databases dbs seen merged) = db_X509 merged \<union> (\<Union>db \<in> {db. Some db \<in> set dbs}. db_X509 db)"
proof (induction dbs seen merged rule: merge_databases.induct)
  case (1 seen merged)
  then show ?case by simp
next
  case (2 dbs seen merged)
  then show ?case by simp
next
  case (3 db dbs seen merged)
  define m0 where "m0 = merged\<lparr>db_SignatureListCount := db_SignatureListCount merged + db_SignatureListCount db,
            db_SignatureCount := db_SignatureCount merged + db_SignatureCount db,
            db_SHA256 := db_SHA256 merged \<union> db_SHA256 db\<rparr>"
  obtain seen1 m1 where m1: "merge_certificates (db_X509Certificates db) seen m0 = (seen1, m1)"
    by (cases "merge_certificates (db_X509Certificates db) seen m0")
  define m2 where "m2 = m1\<lparr>db_OtherSignatures := db_OtherSignatures m1 @ db_OtherSignatures db\<rparr>"
  have ok: "database_ok db" using 3(4) by simp
  have st: "seen1 = db_X509 m1 \<and> db_X509 m1 = sha256 ` set (db_X509Certificates m1)
     \<and> db_X509 m1 = db_X509 m0 \<union> sha256 ` set (db_X509Certificates db) \<and> db_SHA256 m1 = db_SHA256 m0
     \<and> db_OtherSignatures m1 = db_OtherSignatures m0 \<and> db_SignatureCount m1 = db_SignatureCount m0
     \<and> length (db_X509Certificates m1) \<le> length (db_X509Certificates m0) + length (db_X509Certificates db)"
    using 3(2,3) by (intro merge_certificates_state [OF m1]) (simp_all add: m0_def database_ok_def)
  have c: "card (db_SHA256 merged \<union> db_SHA256 db) \<le> card (db_SHA256 merged) + card (db_SHA256 db)" by (rule card_Un_le)
  have k2: "database_ok m2"
    using st c 3(3) ok by (auto simp: database_ok_def m2_def m0_def)
  have e: "merge_databases (Some db # dbs) seen merged = merge_databases dbs seen1 m2"
    by (simp add: Let_def m1 flip: m0_def m2_def)
  have IH: "database_ok (merge_databases dbs seen1 m2)
     \<and> db_SHA256 (merge_databases dbs seen1 m2) = db_SHA256 m2 \<union> (\<Union>db \<in> {db. Some db \<in> set dbs}. db_SHA256 db)
     \<and> db_X509 (merge_databases dbs seen1 m2) = db_X509 m2 \<union> (\<Union>db \<in> {db. Some db \<in> set dbs}. db_X509 db)"
    using st by (intro 3(1) [OF m0_def m1 [symmetric], folded m2_def] k2 3(4)) (simp_all add: m2_def)
  have x: "db_X509 m1 = db_X509 m0 \<union> sha256 ` set (db_X509Certificates db)" using st by blast
  have S: "db_SHA256 m2 = db_SHA256 merged \<union> db_SHA256 db" "db_X509 m2 = db_X509 merged \<union> db_X509 db"
    using st ok by (simp_all add: m2_def x) (simp_all add: m0_def database_ok_def)
  have I: "{x. Some x \<in> set (Some db # dbs)} = insert db {x. Some x \<in> set dbs}" by auto
  show ?case unfolding e I using IH by (simp add: S Un_assoc)
qed

lemma merged_answers:
  assumes "\<And>db. Some db \<in> set dbs \<Longrightarrow> database_ok db"
  shows "database_ok (Merge dbs)"
    "IsSHA256Revoked (Some (Merge dbs)) d \<longleftrightarrow> (\<exists>db \<in> set dbs. IsSHA256Revoked db d)"
    "IsX509Revoked (Some (Merge dbs)) c \<longleftrightarrow> (\<exists>db \<in> set dbs. IsX509Revoked db c)"
proof -
  have m: "database_ok (Merge dbs)
     \<and> db_SHA256 (Merge dbs) = (\<Union>db \<in> {db. Some db \<in> set dbs}. db_SHA256 db)
     \<and> db_X509 (Merge dbs) = (\<Union>db \<in> {db. Some db \<in> set dbs}. db_X509 db)"
    using merge_databases_state [of "{}" "empty_database ''merged''" dbs] assms empty_database_ok [of "''merged''"]
    by (simp add: Merge_def) (simp add: empty_database_def)
  then show "database_ok (Merge dbs)" by blast
  have q: "(\<exists>db \<in> set dbs. f db) \<longleftrightarrow> (\<exists>db. Some db \<in> set dbs \<and> f (Some db))" if "\<not> f None" for f
    using that by (metis not_None_eq)
  show "IsSHA256Revoked (Some (Merge dbs)) d \<longleftrightarrow> (\<exists>db \<in> set dbs. IsSHA256Revoked db d)"
    using m by (subst q) (auto simp: IsSHA256Revoked_def)
  show "IsX509Revoked (Some (Merge dbs)) c \<longleftrightarrow> (\<exists>db \<in> set dbs. IsX509Revoked db c)"
    using m by (subst q) (auto simp: IsX509Revoked_def)
qed

lemma equal_payload_answers:
  assumes "database_ok a" "database_ok b"
  shows "EqualPayload (Some a) (Some b) \<longleftrightarrow>
     length (db_X509Certificates a) = length (db_X509Certificates b)
     \<and> (\<forall>d. IsSHA256Revoked (Some a) d = IsSHA256Revoked (Some b) d) \<and> db_X509 a = db_X509 b"
proof -
  have f: "finite (db_SHA256 a)" "finite (db_SHA256 b)" using assms by (simp_all add: database_ok_def)
  have x: "db_X509 a = sha256 ` set (db_X509Certificates a)" "db_X509 b = sha256 ` set (db_X509Certificates b)"
    using assms by (simp_all add: database_ok_def)
  have "EqualPayload (Some a) (Some b) \<longleftrightarrow>
      length (db_X509Certificates a) = length (db_X509Certificates b)
      \<and> (card (db_SHA256 a) = card (db_SHA256 b) \<and> db_SHA256 a \<subseteq> db_SHA256 b)
      \<and> (card (db_X509 a) = card (db_X509 b) \<and> db_X509 a \<subseteq> db_X509 b)"
    by (auto simp: EqualPayload_def Let_def x)
  also have "(card (db_SHA256 a) = card (db_SHA256 b) \<and> db_SHA256 a \<subseteq> db_SHA256 b) \<longleftrightarrow> db_SHA256 a = db_SHA256 b"
    using f by (auto dest: card_subset_eq)
  also have "(card (db_X509 a) = card (db_X509 b) \<and> db_X509 a \<subseteq> db_X509 b) \<longleftrightarrow> db_X509 a = db_X509 b"
    by (auto simp: x dest: card_subset_eq [rotated])
  finally show ?thesis by (auto simp: IsSHA256Revoked_def)
qed

section \<open>Properties\<close>

text \<open>
  C39: The parser of signature lists accepts exactly the encodings of well-formed lists with fewer
  than 28 zero bytes behind them, and the database it builds is what these lists add.
\<close>

theorem signature_lists_exact:
  "parseSignatureLists 0 payload db = Inr db1 \<longleftrightarrow>
     (\<exists>ls k. list_all list_ok ls \<and> k < 28 \<and> payload = concat (map list_bytes ls) @ replicate k 0
       \<and> db1 = fold add_list ls db)"
  using parse_lists_Inr parse_lists_encoded by blast

text \<open>
  A parsed database answers the content of its signature lists: a digest is revoked exactly when a
  SHA-256 list has it, and a certificate exactly when an X.509 list has one with its digest.
\<close>

theorem dbx_answers_its_lists:
  assumes "Parse bs source = Inr db"
  shows "\<exists>ls k. list_all list_ok ls \<and> k < 28 \<and> payload_of bs = concat (map list_bytes ls) @ replicate k 0
      \<and> (\<forall>d. IsSHA256Revoked (Some db) d \<longleftrightarrow> listed ls certSHA256GUID d \<and> length d = 32)
      \<and> (\<forall>c. IsX509Revoked (Some db) c \<longleftrightarrow> c \<noteq> [] \<and> (\<exists>c'. listed ls certX509GUID c' \<and> sha256 c' = sha256 c))"
  using assms by (rule parsed_answers(2))

text \<open>
  Merging keeps databases well-formed and revokes exactly what one of them revokes: an image whose
  digest or certificate is in any database is revoked by the merged one.
\<close>

theorem merged_database_revokes:
  assumes "\<And>db. Some db \<in> set dbs \<Longrightarrow> database_ok db"
  shows "database_ok (Merge dbs)
    \<and> (\<forall>d. IsSHA256Revoked (Some (Merge dbs)) d \<longleftrightarrow> (\<exists>db \<in> set dbs. IsSHA256Revoked db d))
    \<and> (\<forall>c. IsX509Revoked (Some (Merge dbs)) c \<longleftrightarrow> (\<exists>db \<in> set dbs. IsX509Revoked db c))"
  using merged_answers [OF assms] by blast

text \<open>One list of one digest, and its database.\<close>

definition sample_list :: sig_list where
  "sample_list = \<lparr> sl_Type = certSHA256GUID, sl_Header = [], sl_Size = 48,
     sl_Entries = [(certPKCS7GUID, replicate 32 7)] \<rparr>"

lemma sample_list_ok: "list_ok sample_list"
  by (simp add: list_ok_def sample_list_def guid_ok_def certSHA256GUID_def certPKCS7GUID_def list_length_def)

lemma put_u32_bytes: "put_u32 x = [ucast x, ucast (x div 256), ucast (x div 256 div 256), ucast (x div 256 div 256 div 256)]"
proof -
  have "word_le (Suc (Suc (Suc (Suc 0)))) x = [ucast x, ucast (x div 256), ucast (x div 256 div 256), ucast (x div 256 div 256 div 256)]"
    by simp
  moreover have "Suc (Suc (Suc (Suc 0))) = 4" by simp
  ultimately show ?thesis by (simp only: put_u32_def)
qed

lemma put_u16_bytes: "put_u16 x = [ucast x, ucast (x div 256)]"
proof -
  have "word_le (Suc (Suc 0)) x = [ucast x, ucast (x div 256)]" by simp
  moreover have "Suc (Suc 0) = 2" by simp
  ultimately show ?thesis by (simp only: put_u16_def)
qed

lemma sample_list_parsed:
  "\<exists>db. Parse (list_bytes sample_list) ''dbx'' = Inr db"
proof -
  have len: "length (list_bytes sample_list) = 76"
    by (simp add: length_list_bytes [OF sample_list_ok]) (simp add: list_length_def sample_list_def)
  have t: "take 16 (list_bytes sample_list) = guid_bytes certSHA256GUID"
    using list_fields(1) [OF sample_list_ok, of "[]"] by (simp add: field_def sample_list_def)
  have g: "guid_bytes certSHA256GUID = [0x26, 0x16, 0xc4, 0xc1, 0x4c, 0x50, 0x92, 0x40, 0xac, 0xa9, 0x41, 0xf9, 0x36, 0x93, 0x43, 0x28]"
    by (simp add: guid_bytes_def certSHA256GUID_def put_u32_bytes put_u16_bytes)
  have a: "authenticated_end (list_bytes sample_list) = None"
    by (simp add: authenticated_end_def t g parseEFITime_def)
  have p: "parseSignatureLists 0 (list_bytes sample_list) db = Inr (add_list sample_list db)" for db
    using parse_lists_encoded [of "[sample_list]" 0 0 db] sample_list_ok by simp
  have c: "db_SignatureCount (add_list sample_list db) = Suc (db_SignatureCount db)" for db
    by (simp add: add_list_def sample_list_def add_signature_def Let_def)
  show ?thesis
    by (simp add: Parse_def len a p c)
qed

theorem dbx_answers_its_lists_witness:
  "\<exists>db. Parse (list_bytes sample_list) ''dbx'' = Inr db \<and> (\<exists>ls. \<forall>d. IsSHA256Revoked (Some db) d \<longleftrightarrow> listed ls certSHA256GUID d \<and> length d = 32)"
proof -
  obtain db where db: "Parse (list_bytes sample_list) ''dbx'' = Inr db" using sample_list_parsed by blast
  show ?thesis using dbx_answers_its_lists [OF db] db by blast
qed

theorem merged_database_revokes_witness:
  "database_ok (Merge [Some (empty_database ''a''), None])"
  using merged_database_revokes [of "[Some (empty_database ''a''), None]"] empty_database_ok by auto

end
