(* ===== verification/SecurePe.thy ===== *)
theory SecurePe
  imports SecureDbx
begin

text \<open>
  \<open>internal/secureboot/pe.go\<close> and \<open>checkPEData\<close>: the Authenticode digest of a PE image, the walk over its
  certificate table and the comparison with a revocation database. The PKCS#7 and X.509 decoder
  of the records is a parameter.
\<close>

unbundle bit_operations_syntax

section \<open>Headers\<close>

text \<open>The fields at an offset of the file.\<close>

definition u16_at :: "bytes \<Rightarrow> nat \<Rightarrow> u16" where "u16_at bs i = get_u16 (field bs i 2)"
definition u32_at :: "bytes \<Rightarrow> nat \<Rightarrow> u32" where "u32_at bs i = get_u32 (field bs i 4)"

record PEHash =
  ph_SHA256 :: string
  ph_Machine :: u16
  ph_NumberOfSections :: u16
  ph_CertificateTableOffset :: u32
  ph_CertificateTableSize :: u32

record peSection =
  ps_offset :: u32
  ps_size :: u32

text \<open>The offset of the PE signature.\<close>

definition pe_offset :: "bytes \<Rightarrow> nat res" where
  "pe_offset bs =
     (if length bs < 0x40 \<or> bs ! 0 \<noteq> 0x4d \<or> bs ! 1 \<noteq> 0x5a then Inl (Msg ''file is not a PE/COFF image'')
      else
      let peOffset = unat (u32_at bs 0x3c) in
      if peOffset < 0x40 \<or> length bs < peOffset + 24 \<or> field bs peOffset 4 \<noteq> [0x50, 0x45, 0, 0]
      then Inl (Msg ''invalid PE header offset or signature'')
      else Inr peOffset)"

text \<open>The positions the optional header fixes, once they have been checked.\<close>

record pe_layout =
  pl_machine :: u16
  pl_sectionsCount :: u16
  pl_checksumOffset :: nat
  pl_certDirectoryOffset :: nat
  pl_certificateOffset :: u32
  pl_certificateSize :: u32
  pl_sizeOfHeaders :: u32
  pl_sectionTable :: nat

definition pe_optional :: "bytes \<Rightarrow> nat \<Rightarrow> (nat \<times> nat \<times> nat) res" where
  "pe_optional bs peOffset =
     (let coff = peOffset + 4; optionalSize = unat (u16_at bs (coff + 16)); optional = coff + 20 in
      if optionalSize < 96 \<or> length bs < optional + optionalSize then Inl (Msg ''invalid PE optional-header size'')
      else
      let magic = u16_at bs optional in
      bindE
        (if magic = 0x10b then Inr (optional + 96, optional + 92)
         else if magic = 0x20b then Inr (optional + 112, optional + 108)
         else Inl (Errorf ''unsupported PE optional-header magic 0x%x'' [FN (unat magic)]))
        (\<lambda>(dataDirectoryOffset, numberOfDirectoriesOffset).
      let checksumOffset = optional + 64; sizeOfHeadersOffset = optional + 60 in
      if optional + optionalSize < checksumOffset + 4 \<or> optional + optionalSize < sizeOfHeadersOffset + 4
         \<or> optional + optionalSize < numberOfDirectoriesOffset + 4
      then Inl (Msg ''truncated PE optional header'')
      else if u32_at bs numberOfDirectoriesOffset \<le> 4 \<or> optional + optionalSize < dataDirectoryOffset + 5 * 8
      then Inl (Msg ''PE image has no certificate-table directory entry'')
      else Inr (optional, optionalSize, dataDirectoryOffset + 4 * 8)))"

definition pe_layout_of :: "bytes \<Rightarrow> pe_layout res" where
  "pe_layout_of bs =
     bindE (pe_offset bs) (\<lambda>peOffset.
     let coff = peOffset + 4; machine = u16_at bs coff; sectionsCount = u16_at bs (coff + 2) in
     bindE (pe_optional bs peOffset) (\<lambda>(optional, optionalSize, certDirectoryOffset).
     let certificateOffset = u32_at bs certDirectoryOffset; certificateSize = u32_at bs (certDirectoryOffset + 4) in
     if 0 < certificateSize
        \<and> (certificateOffset = 0 \<or> length bs < unat certificateOffset + unat certificateSize)
     then Inl (Msg ''invalid PE certificate-table extent'')
     else
     let sizeOfHeaders = u32_at bs (optional + 60) in
     if sizeOfHeaders = 0 \<or> length bs < unat sizeOfHeaders \<or> unat sizeOfHeaders < certDirectoryOffset + 8
     then Inl (Msg ''invalid PE SizeOfHeaders'')
     else
     let sectionTable = optional + optionalSize in
     if 4096 < unat sectionsCount \<or> length bs < sectionTable + unat sectionsCount * 40
     then Inl (Msg ''invalid or truncated PE section table'')
     else Inr \<lparr> pl_machine = machine, pl_sectionsCount = sectionsCount, pl_checksumOffset = optional + 64,
            pl_certDirectoryOffset = certDirectoryOffset, pl_certificateOffset = certificateOffset,
            pl_certificateSize = certificateSize, pl_sizeOfHeaders = sizeOfHeaders, pl_sectionTable = sectionTable \<rparr>))"

section \<open>Sections\<close>

fun pe_sections :: "bytes \<Rightarrow> nat \<Rightarrow> nat list \<Rightarrow> peSection list res" where
  "pe_sections bs sectionTable [] = Inr []"
| "pe_sections bs sectionTable (index # is) =
     (let sz = u32_at bs (sectionTable + index * 40 + 16); offset = u32_at bs (sectionTable + index * 40 + 20) in
      if sz = 0 then pe_sections bs sectionTable is
      else if offset = 0 \<or> length bs < unat offset + unat sz
      then Inl (Errorf ''invalid PE section %d extent'' [FN index])
      else bindE (pe_sections bs sectionTable is) (\<lambda>sections. Inr (\<lparr> ps_offset = offset, ps_size = sz \<rparr> # sections)))"

definition section_end :: "peSection \<Rightarrow> nat" where
  "section_end s = unat (ps_offset s) + unat (ps_size s)"

fun sections_overlap :: "peSection list \<Rightarrow> bool" where
  "sections_overlap (a # b # ss) \<longleftrightarrow> unat (ps_offset b) < section_end a \<or> sections_overlap (b # ss)"
| "sections_overlap _ \<longleftrightarrow> False"

definition sorted_sections :: "bytes \<Rightarrow> pe_layout \<Rightarrow> peSection list res" where
  "sorted_sections bs l =
     bindE (pe_sections bs (pl_sectionTable l) [0..<unat (pl_sectionsCount l)]) (\<lambda>sections.
     let sections = sort_by (\<lambda>a b. ps_offset a < ps_offset b) sections in
     if sections_overlap sections then Inl (Msg ''overlapping PE sections are unsupported'') else Inr sections)"

section \<open>The digest\<close>

definition section_bytes :: "bytes \<Rightarrow> peSection \<Rightarrow> bytes" where
  "section_bytes bs s = slice bs (unat (ps_offset s)) (section_end s)"

text \<open>The bytes hashed from the headers and the sections, and from what lies behind them.\<close>

definition hashed_headers :: "bytes \<Rightarrow> pe_layout \<Rightarrow> bytes" where
  "hashed_headers bs l =
     take (pl_checksumOffset l) bs
     @ slice bs (pl_checksumOffset l + 4) (pl_certDirectoryOffset l)
     @ slice bs (pl_certDirectoryOffset l + 8) (unat (pl_sizeOfHeaders l))"

definition hashed_total :: "pe_layout \<Rightarrow> peSection list \<Rightarrow> nat" where
  "hashed_total l sections = unat (pl_sizeOfHeaders l) + sum_list (map (\<lambda>s. unat (ps_size s)) sections)"

definition hashed_overlay :: "bytes \<Rightarrow> pe_layout \<Rightarrow> nat \<Rightarrow> bytes res" where
  "hashed_overlay bs l overlayStart =
     (let certStart = unat (pl_certificateOffset l); certEnd = certStart + unat (pl_certificateSize l) in
      if pl_certificateSize l = 0 then Inr (drop overlayStart bs)
      else if certStart < overlayStart then Inl (Msg ''PE certificate table overlaps hashed image data'')
      else Inr (slice bs overlayStart certStart @ (if certEnd < length bs then drop certEnd bs else [])))"

definition authenticode_preimage :: "bytes \<Rightarrow> pe_layout \<Rightarrow> bytes res" where
  "authenticode_preimage bs l =
     bindE (sorted_sections bs l) (\<lambda>sections.
     let sumOfBytesHashed = hashed_total l sections in
     if length bs < sumOfBytesHashed then Inl (Msg ''PE section sizes exceed file size'')
     else bindE (hashed_overlay bs l sumOfBytesHashed) (\<lambda>overlay.
     Inr (hashed_headers bs l @ concat (map (section_bytes bs) sections) @ overlay)))"

definition AuthenticodeSHA256 :: "bytes \<Rightarrow> PEHash res" where
  "AuthenticodeSHA256 bs =
     bindE (pe_layout_of bs) (\<lambda>l.
     bindE (authenticode_preimage bs l) (\<lambda>preimage.
     Inr \<lparr> ph_SHA256 = sha256_hex preimage, ph_Machine = pl_machine l, ph_NumberOfSections = pl_sectionsCount l,
           ph_CertificateTableOffset = pl_certificateOffset l, ph_CertificateTableSize = pl_certificateSize l \<rparr>))"

section \<open>Certificates\<close>

text \<open>A decoded certificate: its encoding and its names.\<close>

record certificate =
  ct_Raw :: bytes
  ct_Subject :: string
  ct_SerialNumber :: string

type_synonym pkcs7_decoder = "bytes \<Rightarrow> certificate list res"

function certificate_records :: "pkcs7_decoder \<Rightarrow> bytes \<Rightarrow> nat \<Rightarrow> nat \<Rightarrow> certificate list res" where
  "certificate_records decoder bs offset limit =
     (if offset < limit
      then
        if limit - offset < 8
        then if all_zero (slice bs offset limit) then Inr []
             else Inl (Msg ''truncated WIN_CERTIFICATE record'')
        else
        let len = unat (u32_at bs offset); certificateType = u16_at bs (offset + 6) in
        if len < 8 \<or> limit < offset + len then Inl (Msg ''invalid WIN_CERTIFICATE length'')
        else
        bindE
          (if certificateType = 0x0002
           then mapE (\<lambda>e. Errorf ''parse Authenticode PKCS#7 certificates: %w'' [FE e])
                  (decoder (slice bs (offset + 8) (offset + len)))
           else Inr []) (\<lambda>certs.
        bindE (certificate_records decoder bs (offset + (len + 7) div 8 * 8) limit) (\<lambda>rest.
        Inr (certs @ rest)))
      else Inr [])"
  by pat_completeness auto

termination
proof (relation "measure (\<lambda>(decoder, bs, offset, limit). limit - offset)", simp_all, goal_cases)
  case (1 bs offset limit)
  have "8 div 8 \<le> (unat (u32_at bs offset) + 7) div 8" using 1 by (intro div_le_mono) linarith
  then show ?case using 1 by linarith
qed

declare certificate_records.simps [simp del]

definition embeddedAuthenticodeCertificatesData :: "pkcs7_decoder \<Rightarrow> bytes \<Rightarrow> PEHash \<Rightarrow> certificate list res" where
  "embeddedAuthenticodeCertificatesData decoder bs hashInfo =
     (if ph_CertificateTableSize hashInfo = 0 then Inr []
      else
      let start = unat (ph_CertificateTableOffset hashInfo);
          stop = start + unat (ph_CertificateTableSize hashInfo) in
      if length bs < stop then Inl (Msg ''invalid PE certificate table'')
      else certificate_records decoder bs start stop)"

section \<open>The check of an image\<close>

text \<open>The \<open>Error\<close> string is kept as the error it renders, None when empty.\<close>

record CheckResult =
  cr_Path :: string
  cr_AuthenticodeSHA256 :: string
  cr_Machine :: u16
  cr_DirectHashRevoked :: bool
  cr_X509CertificateRevoked :: bool
  cr_X509RevocationChecked :: bool
  cr_EmbeddedCertificates :: nat
  cr_RevokedCertificates :: "string list"
  cr_Error :: "go_error option"

definition new_result :: "string \<Rightarrow> CheckResult" where
  "new_result path = \<lparr> cr_Path = path, cr_AuthenticodeSHA256 = [], cr_Machine = 0, cr_DirectHashRevoked = False,
     cr_X509CertificateRevoked = False, cr_X509RevocationChecked = False, cr_EmbeddedCertificates = 0,
     cr_RevokedCertificates = [], cr_Error = None \<rparr>"

definition certificate_name :: "certificate \<Rightarrow> string" where
  "certificate_name c = (let name = trim_space (ct_Subject c) in if name = [] then ct_SerialNumber c else name)"

definition check_certificate :: "Database option \<Rightarrow> CheckResult \<Rightarrow> certificate \<Rightarrow> CheckResult" where
  "check_certificate db r c =
     (if IsX509Revoked db (ct_Raw c)
      then r\<lparr> cr_X509CertificateRevoked := True, cr_RevokedCertificates := cr_RevokedCertificates r @ [certificate_name c] \<rparr>
      else r)"

definition checkPEData :: "pkcs7_decoder \<Rightarrow> string \<Rightarrow> bytes \<Rightarrow> Database option \<Rightarrow> CheckResult" where
  "checkPEData decoder path bs db =
     (let result = new_result path in
      case AuthenticodeSHA256 bs of
        Inl err \<Rightarrow> result\<lparr> cr_Error := Some err \<rparr>
      | Inr peHash \<Rightarrow>
      let result = result\<lparr> cr_AuthenticodeSHA256 := ph_SHA256 peHash, cr_Machine := ph_Machine peHash \<rparr>;
          result = (case hex_decode (ph_SHA256 peHash) of
            Some digest \<Rightarrow> if length digest = 32 then result\<lparr> cr_DirectHashRevoked := IsSHA256Revoked db digest \<rparr> else result
          | None \<Rightarrow> result) in
      case embeddedAuthenticodeCertificatesData decoder bs peHash of
        Inl certErr \<Rightarrow> result\<lparr> cr_Error := Some certErr \<rparr>
      | Inr certificates \<Rightarrow>
      foldl (check_certificate db)
        (result\<lparr> cr_X509RevocationChecked := True, cr_EmbeddedCertificates := length certificates \<rparr>) certificates)"

lemma check_certificates:
  "foldl (check_certificate db) r cs = r\<lparr>
     cr_X509CertificateRevoked := cr_X509CertificateRevoked r \<or> list_ex (\<lambda>c. IsX509Revoked db (ct_Raw c)) cs,
     cr_RevokedCertificates := cr_RevokedCertificates r
       @ map certificate_name (filter (\<lambda>c. IsX509Revoked db (ct_Raw c)) cs) \<rparr>"
  by (induction cs arbitrary: r) (auto simp: check_certificate_def)

end
