(* ===== verification/SecureSbat.thy ===== *)
theory SecureSbat
  imports Buffers
begin

text \<open>
  SBAT metadata: the CSV reader of \<open>encoding/csv\<close> as the sources configure it, the \<open>.sbat\<close>
  section of an image (\<open>parseSBAT\<close>, \<open>internal/secureboot/uefi.go\<close>) and the trusted revocation
  level (\<open>internal/secureboot/sbat_level.go\<close>), with the round trips of both texts and what a
  level revokes.
\<close>

section \<open>encoding/csv\<close>

text \<open>
  \<open>csv.Reader\<close> with a comma, no comment character, strict quotes and \<open>FieldsPerRecord = -1\<close>.
  The physical lines keep their newline; a carriage return before it, or at the end of the data,
  is dropped. The positions in the text of a parse error are left out.
\<close>

abbreviation (input) quote_char :: char where "quote_char \<equiv> CHR 0x22"
abbreviation (input) newline :: char where "newline \<equiv> CHR 0x0A"
abbreviation (input) carriage :: char where "carriage \<equiv> CHR 0x0D"

fun raw_lines :: "string \<Rightarrow> string list" where
  "raw_lines [] = []"
| "raw_lines (c # cs) =
     (if c = newline then [c] # raw_lines cs
      else case raw_lines cs of [] \<Rightarrow> [[c]] | l # ls \<Rightarrow> (c # l) # ls)"

definition normal_line :: "string \<Rightarrow> string" where
  "normal_line l =
     (case rev l of
        [] \<Rightarrow> l
      | c # r \<Rightarrow> if c = carriage then rev r
                else if c = newline \<and> r \<noteq> [] \<and> hd r = carriage then rev (newline # tl r) else l)"

definition csv_lines :: "string \<Rightarrow> string list" where
  "csv_lines s = map normal_line (raw_lines s)"

definition chomp :: "string \<Rightarrow> string" where
  "chomp l = (if l \<noteq> [] \<and> last l = newline then butlast l else l)"

type_synonym csv_result = "(string list \<times> string list) res"

definition bare_quote :: "go_error" where "bare_quote = Msg ''bare quote in non-quoted field''"
definition stray_quote :: "go_error" where "stray_quote = Msg ''extraneous or missing quote in quoted field''"

lemma length_tl_dropWhile: "dropWhile P xs \<noteq> [] \<Longrightarrow> length (tl (dropWhile P xs)) < length xs"
  using length_dropWhile_le [of P xs] by (cases "dropWhile P xs") auto

lemma rest_shorter: "c \<in> set line \<Longrightarrow> length (dropWhile P line) - Suc 0 < length line"
  using length_dropWhile_le [of P line] by (cases line) auto

text \<open>
  One record: the fields of a line, and the lines that follow it. The line of a quoted field may
  run on; \<open>current\<close> is what the field holds so far.
\<close>

function csv_record :: "string \<Rightarrow> string list \<Rightarrow> string list \<Rightarrow> csv_result"
and csv_quoted :: "string \<Rightarrow> string list \<Rightarrow> string list \<Rightarrow> string \<Rightarrow> csv_result" where
  "csv_record line ls fields =
     (if line \<noteq> [] \<and> hd line = quote_char then csv_quoted (tl line) ls fields []
      else
      let before = takeWhile (\<lambda>c. c \<noteq> CHR '','') line; rest = dropWhile (\<lambda>c. c \<noteq> CHR '','') line in
      if rest \<noteq> []
      then if quote_char \<in> set before then Inl bare_quote else csv_record (tl rest) ls (fields @ [before])
      else if quote_char \<in> set (chomp line) then Inl bare_quote else Inr (fields @ [chomp line], ls))"
| "csv_quoted line ls fields current =
     (let before = takeWhile (\<lambda>c. c \<noteq> quote_char) line; rest = dropWhile (\<lambda>c. c \<noteq> quote_char) line in
      if rest \<noteq> []
      then
        let after = tl rest in
        if after \<noteq> [] \<and> hd after = quote_char then csv_quoted (tl after) ls fields (current @ before @ [quote_char])
        else if after \<noteq> [] \<and> hd after = CHR '','' then csv_record (tl after) ls (fields @ [current @ before])
        else if chomp after = [] then Inr (fields @ [current @ before], ls)
        else Inl stray_quote
      else if line \<noteq> []
      then case ls of [] \<Rightarrow> csv_quoted [] [] fields (current @ line) | l # ls1 \<Rightarrow> csv_quoted l ls1 fields (current @ line)
      else Inl stray_quote)"
  by pat_completeness auto

termination
proof (relation "measure (\<lambda>p. case p of Inl (line, ls, _) \<Rightarrow> length line + sum_list (map length ls)
    | Inr (line, ls, _, _) \<Rightarrow> length line + sum_list (map length ls))", goal_cases)
  case (2 line ls fields)
  then show ?case by (cases line) auto
next
  case (4 line ls fields current before rest after)
  then show ?case using length_tl_dropWhile [of "\<lambda>c. c \<noteq> quote_char" line]
    by (cases after) auto
next
  case (5 line ls fields current before rest after)
  then show ?case using length_tl_dropWhile [of "\<lambda>c. c \<noteq> quote_char" line]
    by (cases after) auto
qed (auto dest: length_tl_dropWhile rest_shorter)

declare csv_record.simps [simp del] csv_quoted.simps [simp del]

text \<open>\<open>Read\<close>: empty lines are skipped, None is the end of the file.\<close>

fun csv_read :: "string list \<Rightarrow> (string list \<times> string list) option res" where
  "csv_read [] = Inr None"
| "csv_read (l # ls) =
     (if l = [] \<or> l = [newline] then csv_read ls
      else bindE (csv_record l ls []) (\<lambda>r. Inr (Some r)))"

lemma csv_consumes:
  "csv_record line ls fields = Inr (r, rest) \<Longrightarrow> length rest \<le> length ls"
  "csv_quoted line ls fields current = Inr (r, rest) \<Longrightarrow> length rest \<le> length ls"
proof (induction line ls fields and line ls fields current rule: csv_record_csv_quoted.induct)
  case (1 line ls fields)
  then show ?case by (subst (asm) (2) csv_record.simps) (auto simp: Let_def split: if_splits)
next
  case (2 line ls fields current)
  then show ?case by (subst (asm) (4) csv_quoted.simps) (auto simp: Let_def intro: le_SucI split: if_splits list.splits)
qed

lemma csv_read_consumes: "csv_read ls = Inr (Some (r, rest)) \<Longrightarrow> length rest < length ls"
  by (induction ls rule: csv_read.induct)
    (auto simp: bindE_eq_Inr dest: csv_consumes less_SucI split: if_splits)

section \<open>The metadata of an image\<close>

record SBATComponent =
  sc_Component :: string
  sc_Generation :: u64
  sc_Vendor :: string
  sc_Package :: string
  sc_Version :: string
  sc_VendorURL :: string

definition maximumSBATRecords :: nat where "maximumSBATRecords = 1024"

text \<open>\<open>bytes.TrimRight\<close> with an ASCII cutset.\<close>

definition trim_right :: "string \<Rightarrow> string \<Rightarrow> string" where
  "trim_right cutset s = rev (dropWhile (\<lambda>c. c \<in> set cutset) (rev s))"

text \<open>One turn of the loop: the components seen so far, in lower case, and the result.\<close>

definition sbat_row :: "string list \<Rightarrow> string list \<Rightarrow> SBATComponent list \<Rightarrow> (string list \<times> SBATComponent list) res" where
  "sbat_row record0 seen result =
     (if length record0 = 1 \<and> trim_space (record0 ! 0) = [] then Inr (seen, result)
      else if length record0 < 6 then Inl (Msg ''.sbat record has fewer than six fields'')
      else if maximumSBATRecords \<le> length result
      then Inl (Errorf ''.sbat section exceeds the %d-record safety limit'' [FN maximumSBATRecords])
      else
      let r = map trim_space record0 in
      if r ! 0 = [] \<or> r ! 1 = [] then Inl (Msg ''.sbat record has an empty component or generation'')
      else case parse_uint64 (r ! 1) of
        Inl _ \<Rightarrow> Inl (Errorf ''invalid .sbat generation %q for %s'' [FS (r ! 1), FS (r ! 0)])
      | Inr generation \<Rightarrow>
          if generation = 0 then Inl (Errorf ''invalid .sbat generation %q for %s'' [FS (r ! 1), FS (r ! 0)])
          else if to_lower (r ! 0) \<in> set seen then Inl (Errorf ''duplicate .sbat component %q'' [FS (r ! 0)])
          else Inr (to_lower (r ! 0) # seen,
            result @ [\<lparr> sc_Component = r ! 0, sc_Generation = generation, sc_Vendor = r ! 2, sc_Package = r ! 3,
                        sc_Version = r ! 4, sc_VendorURL = r ! 5 \<rparr>]))"

function sbat_rows :: "string list \<Rightarrow> string list \<Rightarrow> SBATComponent list \<Rightarrow> SBATComponent list res" where
  "sbat_rows ls seen result =
     (case csv_read ls of
        Inl e \<Rightarrow> Inl (Errorf ''parse .sbat CSV: %w'' [FE e])
      | Inr None \<Rightarrow> Inr result
      | Inr (Some (record0, rest)) \<Rightarrow>
          (case sbat_row record0 seen result of
             Inl e \<Rightarrow> Inl e
           | Inr (seen1, result1) \<Rightarrow> sbat_rows rest seen1 result1))"
  by pat_completeness auto

termination
  by (relation "measure (\<lambda>(ls, seen, result). length ls)") (auto dest: csv_read_consumes)

declare sbat_rows.simps [simp del]

definition sbat_padding :: string where "sbat_padding = [CHR 0x00, CHR 0x0D, CHR 0x0A, CHR 0x20]"

definition parseSBAT :: "bytes \<Rightarrow> SBATComponent list res" where
  "parseSBAT bs =
     (let d = trim_right sbat_padding (bytes_string bs) in
      if d = [] then Inl (Msg ''empty .sbat section'')
      else bindE (sbat_rows (csv_lines d) [] []) (\<lambda>result.
      if result = [] then Inl (Msg ''.sbat section contains no records'') else Inr result))"

section \<open>The revocation level\<close>

record SBATLevelEntry =
  se_Component :: string
  se_Generation :: u64
  se_Datestamp :: string

text \<open>The map of minimum generations is nil in a level that was not made by the parser.\<close>

record SBATLevel =
  sv_Source :: string
  sv_FormatGeneration :: u64
  sv_Datestamp :: string
  sv_Entries :: "SBATLevelEntry list"
  sv_minimums :: "(string \<rightharpoonup> u64) option"

record SBATRevocation =
  sr_Component :: string
  sr_ImageGeneration :: u64
  sr_MinimumGeneration :: u64

definition maximumSBATLevelFileSize :: nat where "maximumSBATLevelFileSize = 1048576"

definition decimalDigits :: "string \<Rightarrow> bool" where
  "decimalDigits v = list_all (\<lambda>c. 48 \<le> (of_char c :: nat) \<and> (of_char c :: nat) \<le> 57) v"

text \<open>The loop over \<open>strings.Split(data, "\n")\<close> that refuses an empty row; \<open>split_lines\<close> is the split.\<close>

fun split_lines :: "string \<Rightarrow> string list" where
  "split_lines [] = [[]]"
| "split_lines (c # cs) =
     (if c = newline then [] # split_lines cs
      else case split_lines cs of [] \<Rightarrow> [[c]] | l # ls \<Rightarrow> (c # l) # ls)"

fun no_empty_rows :: "nat \<Rightarrow> string list \<Rightarrow> unit res" where
  "no_empty_rows index [] = Inr ()"
| "no_empty_rows index (l # ls) =
     (if l = [] \<or> l = [carriage] then Inl (Errorf ''SBAT level row %d is empty'' [FN (index + 1)])
      else no_empty_rows (index + 1) ls)"

definition level_row :: "nat \<Rightarrow> string list \<Rightarrow> string list \<Rightarrow> SBATLevel \<Rightarrow> (string list \<times> SBATLevel) res" where
  "level_row row r seen level =
     (if maximumSBATRecords < row
      then Inl (Errorf ''SBAT level exceeds the %d-record safety limit'' [FN maximumSBATRecords])
      else if length r = 1 \<and> r ! 0 = [] then Inl (Errorf ''SBAT level row %d is empty'' [FN row])
      else if list_ex (\<lambda>f. f \<noteq> trim_space f \<or> f = []) r
      then Inl (Errorf ''SBAT level row %d has an empty or whitespace-padded field'' [FN row])
      else
      bindE
        (if row = 1
         then if length r \<noteq> 3 \<or> r ! 0 \<noteq> ''sbat''
              then Inl (Msg ''SBAT level must start with sbat,<generation>,<10-digit datestamp>'')
              else if length (r ! 2) \<noteq> 10 \<or> \<not> decimalDigits (r ! 2)
              then Inl (Msg ''SBAT level datestamp must contain exactly 10 decimal digits'')
              else Inr (level\<lparr>sv_Datestamp := r ! 2\<rparr>)
         else if length r \<noteq> 2
         then Inl (Errorf ''SBAT level row %d must contain exactly component and generation'' [FN row])
         else Inr level) (\<lambda>level.
      case parse_uint64 (r ! 1) of
        Inl _ \<Rightarrow> Inl (Errorf ''invalid SBAT level generation %q for %s'' [FS (r ! 1), FS (r ! 0)])
      | Inr generation \<Rightarrow>
          if generation = 0 then Inl (Errorf ''invalid SBAT level generation %q for %s'' [FS (r ! 1), FS (r ! 0)])
          else if to_lower (r ! 0) \<in> set seen then Inl (Errorf ''duplicate SBAT level component %q'' [FS (r ! 0)])
          else
          let entry = \<lparr> se_Component = r ! 0, se_Generation = generation, se_Datestamp = [] \<rparr>;
              entry = (if row = 1 then entry\<lparr>se_Datestamp := r ! 2\<rparr> else entry);
              level = (if row = 1 then level\<lparr>sv_FormatGeneration := generation\<rparr> else level) in
          Inr (to_lower (r ! 0) # seen,
            level\<lparr>sv_Entries := sv_Entries level @ [entry],
                  sv_minimums := map_option (\<lambda>m. m(r ! 0 \<mapsto> generation)) (sv_minimums level)\<rparr>)))"

function level_rows :: "nat \<Rightarrow> string list \<Rightarrow> string list \<Rightarrow> SBATLevel \<Rightarrow> (nat \<times> SBATLevel) res" where
  "level_rows row ls seen level =
     (case csv_read ls of
        Inl e \<Rightarrow> Inl (Errorf ''parse SBAT level CSV: %w'' [FE e])
      | Inr None \<Rightarrow> Inr (row, level)
      | Inr (Some (record0, rest)) \<Rightarrow>
          (case level_row (row + 1) record0 seen level of
             Inl e \<Rightarrow> Inl e
           | Inr (seen1, level1) \<Rightarrow> level_rows (row + 1) rest seen1 level1))"
  by pat_completeness auto

termination
  by (relation "measure (\<lambda>(row, ls, seen, level). length ls)") (auto dest: csv_read_consumes)

declare level_rows.simps [simp del]

definition level_start :: "string \<Rightarrow> SBATLevel" where
  "level_start source = \<lparr> sv_Source = trim_space source, sv_FormatGeneration = 0, sv_Datestamp = [], sv_Entries = [],
     sv_minimums = Some Map.empty \<rparr>"

definition level_byte :: "byte \<Rightarrow> bool" where
  "level_byte b \<longleftrightarrow> b = 0x0A \<or> b = 0x0D \<or> 0x20 \<le> b \<and> b \<le> 0x7e"

definition ParseSBATLevel :: "bytes \<Rightarrow> string \<Rightarrow> SBATLevel res" where
  "ParseSBATLevel bs source =
     (if bs = [] then Inl (Msg ''SBAT level is empty'')
      else if maximumSBATLevelFileSize < length bs
      then Inl (Errorf ''SBAT level exceeds the %d-byte safety limit'' [FN maximumSBATLevelFileSize])
      else if \<not> list_all level_byte bs then Inl (Msg ''SBAT level must contain printable ASCII CSV data'')
      else
      let d = trim_right [carriage, newline] (bytes_string bs) in
      if d = [] then Inl (Msg ''SBAT level is empty'')
      else
      bindE (no_empty_rows 0 (split_lines d)) (\<lambda>_.
      bindE (level_rows 0 (csv_lines d) [] (level_start source)) (\<lambda>(row, level).
      if row = 0 then Inl (Msg ''SBAT level contains no records'') else Inr level)))"

definition minimum_generations :: "SBATLevel \<Rightarrow> (string \<rightharpoonup> u64)" where
  "minimum_generations level =
     (case sv_minimums level of
        Some m \<Rightarrow> m
      | None \<Rightarrow> foldl (\<lambda>m entry. m(se_Component entry \<mapsto> se_Generation entry)) Map.empty (sv_Entries level))"

fun revoked_components :: "(string \<rightharpoonup> u64) \<Rightarrow> SBATComponent list \<Rightarrow> SBATRevocation list" where
  "revoked_components minimums [] = []"
| "revoked_components minimums (component # cs) =
     (case minimums (sc_Component component) of
        Some minimum \<Rightarrow>
          if sc_Generation component < minimum
          then \<lparr> sr_Component = sc_Component component, sr_ImageGeneration = sc_Generation component,
                 sr_MinimumGeneration = minimum \<rparr> # revoked_components minimums cs
          else revoked_components minimums cs
      | None \<Rightarrow> revoked_components minimums cs)"

definition Revocations :: "SBATLevel option \<Rightarrow> SBATComponent list \<Rightarrow> SBATRevocation list" where
  "Revocations level components =
     (case level of None \<Rightarrow> [] | Some l \<Rightarrow> revoked_components (minimum_generations l) components)"

text \<open>
  The calls of \<open>LoadSBATLevelFile\<close>: \<open>filepath.Abs\<close>, \<open>EvalSymlinks\<close>, and opening, \<open>Stat\<close> (is it
  regular, its size and its modification time), reading and closing the file.
\<close>

record 'w level_file =
  lf_Abs :: "string \<Rightarrow> ('w, string) act"
  lf_EvalSymlinks :: "string \<Rightarrow> ('w, string) act"
  lf_Open :: "string \<Rightarrow> 'w poll"
  lf_Stat :: "('w, bool \<times> int \<times> int) act"
  lf_ReadAll :: "nat \<Rightarrow> ('w, bytes) act"
  lf_Close :: "'w poll"

definition read_level_open :: "'w level_file \<Rightarrow> ('w, bytes) act" where
  "read_level_open file =
     bind_act (wrap_act (\<lambda>e. Errorf ''stat SBAT level: %w'' [FE e]) (lf_Stat file)) (\<lambda>(regular, sz, modified).
     if \<not> regular \<or> sz \<le> 0 \<or> int maximumSBATLevelFileSize < sz
     then pure_act (Inl (Errorf ''SBAT level must be a non-empty regular file no larger than %d bytes'' [FN maximumSBATLevelFileSize]))
     else
     bind_act (wrap_act (\<lambda>e. Errorf ''read SBAT level: %w'' [FE e]) (lf_ReadAll file (maximumSBATLevelFileSize + 1))) (\<lambda>d.
     if maximumSBATLevelFileSize < length d
     then pure_act (Inl (Errorf ''SBAT level exceeds the %d-byte safety limit'' [FN maximumSBATLevelFileSize]))
     else
     bind_act (wrap_act (\<lambda>e. Errorf ''restat SBAT level: %w'' [FE e]) (lf_Stat file)) (\<lambda>(_, sz1, modified1).
     pure_act (if sz \<noteq> sz1 \<or> modified \<noteq> modified1
               then Inl (Msg ''SBAT level changed while it was being read'') else Inr d))))"

definition LoadSBATLevelFile :: "'w level_file \<Rightarrow> string \<Rightarrow> ('w, SBATLevel) act" where
  "LoadSBATLevelFile file path =
     (if trim_space path = [] then pure_act (Inl (Msg ''SBAT level path is required''))
      else
      bind_act (wrap_act (\<lambda>e. Errorf ''make SBAT level path absolute: %w'' [FE e]) (lf_Abs file path)) (\<lambda>absolute.
      bind_act (wrap_act (\<lambda>e. Errorf ''resolve SBAT level path: %w'' [FE e]) (lf_EvalSymlinks file absolute)) (\<lambda>resolved w.
      case lf_Open file resolved w of
        (Some e, w1) \<Rightarrow> (Inl (Errorf ''open SBAT level: %w'' [FE e]), w1)
      | (None, w1) \<Rightarrow> (case read_level_open file w1 of
          (r, w2) \<Rightarrow> (bindE r (\<lambda>d. ParseSBATLevel d resolved), snd (lf_Close file w2))))))"

section \<open>Texts\<close>

fun join_with :: "char \<Rightarrow> string list \<Rightarrow> string" where
  "join_with c [] = []"
| "join_with c [x] = x"
| "join_with c (x # y # ys) = x @ c # join_with c (y # ys)"

text \<open>A field that needs no quotes, and one that is also not empty and has no blanks around it.\<close>

definition bare :: "string \<Rightarrow> bool" where
  "bare f \<longleftrightarrow> list_all (\<lambda>c. 32 \<le> (of_char c :: nat) \<and> (of_char c :: nat) \<le> 126 \<and> c \<noteq> quote_char \<and> c \<noteq> CHR '','') f"

definition plain :: "string \<Rightarrow> bool" where
  "plain f \<longleftrightarrow> bare f \<and> f \<noteq> [] \<and> hd f \<noteq> CHR '' '' \<and> last f \<noteq> CHR '' ''"

lemma bare_chars:
  assumes "bare f" "c \<in> set f"
  shows "c \<noteq> quote_char" "c \<noteq> CHR '',''" "c \<noteq> newline" "c \<noteq> carriage" "c \<noteq> CHR 0x00"
proof -
  have c: "32 \<le> (of_char c :: nat) \<and> c \<noteq> quote_char \<and> c \<noteq> CHR '',''" using assms by (simp add: bare_def list_all_iff)
  then show "c \<noteq> quote_char" "c \<noteq> CHR '',''" by simp_all
  show "c \<noteq> newline" "c \<noteq> carriage" "c \<noteq> CHR 0x00" by (rule notI, use c in simp)+
qed

lemma bare_sets:
  "bare f \<Longrightarrow> quote_char \<notin> set f \<and> CHR '','' \<notin> set f \<and> newline \<notin> set f \<and> carriage \<notin> set f \<and> CHR 0x00 \<notin> set f"
  using bare_chars by blast

lemma plain_bare: "plain f \<Longrightarrow> bare f" "plain f \<Longrightarrow> f \<noteq> []"
  by (simp_all add: plain_def)

lemma trim_plain [simp]: "plain f \<Longrightarrow> trim_space f = f"
proof (rule trim_space_id)
  assume p: "plain f"
  have b: "33 \<le> (of_char c :: nat) \<and> (of_char c :: nat) \<le> 126" if "c \<in> set f" "c \<noteq> CHR '' ''" for c
  proof -
    have "32 \<le> (of_char c :: nat)" "(of_char c :: nat) \<le> 126"
      using p that by (auto simp: plain_def bare_def list_all_iff)
    moreover have "(of_char c :: nat) \<noteq> 32"
    proof
      assume "(of_char c :: nat) = 32"
      then have "c = char_of (32 :: nat)" by (metis char_of_char)
      moreover have "char_of (32 :: nat) = CHR '' ''" by code_simp
      ultimately show False using that(2) by simp
    qed
    ultimately show ?thesis by simp
  qed
  show "f \<noteq> []" using p by (simp add: plain_def)
  show "33 \<le> (of_char (hd f) :: nat)" "(of_char (hd f) :: nat) \<le> 126"
    "33 \<le> (of_char (last f) :: nat)" "(of_char (last f) :: nat) \<le> 126"
    using p b [of "hd f"] b [of "last f"] by (auto simp: plain_def)
qed

lemma trim_empty [simp]: "trim_space [] = []"
  by (simp add: trim_space_def)

lemma plain_decimal: "plain (decimal x)"
proof -
  have "bare (decimal x)" using decimal_codes [of _ x] by (fastforce simp: bare_def list_all_iff)
  moreover have "CHR '' '' \<notin> set (decimal x)" using decimal_codes [of "CHR '' ''" x] by auto
  ultimately show ?thesis using decimal_nonempty [of x] hd_in_set last_in_set by (fastforce simp: plain_def)
qed

text \<open>The lines of a text that does not end in a newline.\<close>

fun terminated :: "string list \<Rightarrow> string list" where
  "terminated [] = []"
| "terminated [l] = [l]"
| "terminated (l # m # ls) = (l @ [newline]) # terminated (m # ls)"

definition line_ok :: "string \<Rightarrow> bool" where
  "line_ok l \<longleftrightarrow> l \<noteq> [] \<and> newline \<notin> set l \<and> carriage \<notin> set l"

lemma raw_lines_append: "newline \<notin> set l \<Longrightarrow> raw_lines (l @ newline # s) = (l @ [newline]) # raw_lines s"
  by (induction l) auto

lemma raw_lines_last: "newline \<notin> set l \<Longrightarrow> l \<noteq> [] \<Longrightarrow> raw_lines l = [l]"
proof (induction l)
  case (Cons a l)
  then show ?case by (cases l) auto
qed simp

lemma normal_line_id:
  "line_ok l \<Longrightarrow> normal_line l = l" "line_ok l \<Longrightarrow> normal_line (l @ [newline]) = l @ [newline]"
proof -
  assume l: "line_ok l"
  obtain k c where k: "l = k @ [c]" using l by (cases l rule: rev_cases) (auto simp: line_ok_def)
  with l have "c \<noteq> newline" "c \<noteq> carriage" by (auto simp: line_ok_def)
  with k show "normal_line l = l" "normal_line (l @ [newline]) = l @ [newline]" by (simp_all add: normal_line_def)
qed

lemma csv_lines_join: "list_all line_ok ls \<Longrightarrow> csv_lines (join_with newline ls) = terminated ls"
proof (induction ls rule: terminated.induct)
  case (2 l)
  then show ?case by (simp add: csv_lines_def raw_lines_last line_ok_def normal_line_id)
next
  case (3 l m ls)
  then have l: "line_ok l" "newline \<notin> set l" by (simp_all add: line_ok_def)
  have "csv_lines (join_with newline (l # m # ls)) = normal_line (l @ [newline]) # csv_lines (join_with newline (m # ls))"
    using l(2) by (simp add: csv_lines_def raw_lines_append)
  then show ?case using 3 normal_line_id(2) [OF l(1)] by simp
qed (simp add: csv_lines_def)

lemma split_lines_append: "newline \<notin> set l \<Longrightarrow> split_lines (l @ newline # s) = l # split_lines s"
  by (induction l) auto

lemma split_lines_last: "newline \<notin> set l \<Longrightarrow> split_lines l = [l]"
  by (induction l) auto

lemma no_empty_rows_join: "list_all line_ok ls \<Longrightarrow> ls \<noteq> [] \<Longrightarrow> no_empty_rows n (split_lines (join_with newline ls)) = Inr ()"
proof (induction ls arbitrary: n rule: terminated.induct)
  case (3 l m ls)
  then show ?case by (auto simp: line_ok_def split_lines_append)
qed (auto simp: line_ok_def split_lines_last)

text \<open>A line of bare fields.\<close>

definition row_text :: "string list \<Rightarrow> string" where
  "row_text r = join_with (CHR '','') r"

lemma csv_record_row:
  "list_all bare r \<Longrightarrow> r \<noteq> [] \<Longrightarrow> nl \<in> {[], [newline]} \<Longrightarrow> csv_record (row_text r @ nl) ls fs = Inr (fs @ r, ls)"
proof (induction r arbitrary: fs rule: terminated.induct)
  case (2 f)
  have f: "quote_char \<notin> set f" "CHR '','' \<notin> set f" "newline \<notin> set f" using 2(1) bare_sets by auto
  have t: "dropWhile (\<lambda>c. c \<noteq> CHR '','') (f @ nl) = []" using f 2(3) by auto
  have "chomp (f @ [newline]) = f" by (simp add: chomp_def)
  moreover have "chomp f = f" using f by (cases f rule: rev_cases) (auto simp: chomp_def)
  ultimately have c: "chomp (f @ nl) = f" using 2(3) by auto
  have h: "\<not> (f @ nl \<noteq> [] \<and> hd (f @ nl) = quote_char)" using f 2(3) by (cases f) auto
  show ?case
    using f unfolding row_text_def join_with.simps
    by (subst csv_record.simps) (simp only: h if_False Let_def t c simp_thms)
next
  case (3 f g r)
  have f: "quote_char \<notin> set f" "CHR '','' \<notin> set f" "newline \<notin> set f" using 3(2) bare_sets by auto
  let ?rest = "row_text (g # r) @ nl"
  have e: "row_text (f # g # r) @ nl = f @ CHR '','' # ?rest" by (simp add: row_text_def)
  have t: "takeWhile (\<lambda>c. c \<noteq> CHR '','') (f @ CHR '','' # ?rest) = f"
    "dropWhile (\<lambda>c. c \<noteq> CHR '','') (f @ CHR '','' # ?rest) = CHR '','' # ?rest"
    using f by (auto simp: takeWhile_append dropWhile_append)
  have h: "hd (f @ CHR '','' # ?rest) \<noteq> quote_char" using f by (cases f) auto
  have "csv_record (row_text (f # g # r) @ nl) ls fs = csv_record ?rest ls (fs @ [f])"
    unfolding e using f by (subst csv_record.simps) (simp add: h t)
  with 3 show ?case by simp
qed simp

text \<open>Reading the records of such lines one by one.\<close>

definition row_ok :: "string list \<Rightarrow> bool" where
  "row_ok r \<longleftrightarrow> list_all bare r \<and> r \<noteq> [] \<and> hd r \<noteq> []"

lemma row_text_ok: "row_ok r \<Longrightarrow> line_ok (row_text r)"
proof -
  assume r: "row_ok r"
  have "set (row_text r) \<subseteq> insert (CHR '','') (\<Union> (set ` set r))" for r
    unfolding row_text_def by (induction r rule: terminated.induct) auto
  then have "c \<noteq> newline \<and> c \<noteq> carriage" if "c \<in> set (row_text r)" for c
    using that r bare_chars(3,4) by (fastforce simp: row_ok_def list_all_iff)
  moreover have "row_text r \<noteq> []" using r
    by (cases r rule: terminated.cases) (auto simp: row_ok_def row_text_def)
  ultimately show ?thesis by (auto simp: line_ok_def)
qed

lemma csv_read_row:
  assumes "row_ok r"
  shows "csv_read (terminated (map row_text (r # rs))) = Inr (Some (r, terminated (map row_text rs)))"
proof -
  have n: "row_text r \<noteq> []" "row_text r \<noteq> [newline]" using row_text_ok [OF assms] by (auto simp: line_ok_def)
  have r: "csv_record (row_text r @ nl) ls [] = Inr (r, ls)" if "nl \<in> {[], [newline]}" for nl ls
    using csv_record_row [of r nl ls "[]"] that assms by (simp add: row_ok_def)
  from r [of "[]"] r [of "[newline]"] n show ?thesis by (cases rs) simp_all
qed

lemma csv_read_end: "csv_read (terminated []) = Inr None"
  by simp

text \<open>The text of rows, and what is left of it after the padding at the end is cut.\<close>

definition rows_text :: "string list list \<Rightarrow> string" where
  "rows_text rs = concat (map (\<lambda>r. row_text r @ [newline]) rs)"

lemma rows_text_join: "rs \<noteq> [] \<Longrightarrow> rows_text rs = join_with newline (map row_text rs) @ [newline]"
proof (induction rs rule: induct_list012)
  case (3 r r1 rs)
  then show ?case by (simp add: rows_text_def)
qed (simp_all add: rows_text_def)

lemma join_with_last: "ls \<noteq> [] \<Longrightarrow> last ls \<noteq> [] \<Longrightarrow> last (join_with c ls) = last (last ls) \<and> join_with c ls \<noteq> []"
  by (induction ls rule: induct_list012) auto

lemma trim_right_last:
  assumes "s \<noteq> []" "last s \<notin> set cutset" "set pad \<subseteq> set cutset"
  shows "trim_right cutset (s @ pad) = s"
proof -
  have "dropWhile (\<lambda>c. c \<in> set cutset) (rev pad @ rev s) = dropWhile (\<lambda>c. c \<in> set cutset) (rev s)"
    using assms(3) by (intro dropWhile_append2) auto
  also have "\<dots> = rev s" using assms(1,2) by (cases s rule: rev_cases) auto
  finally show ?thesis by (simp add: trim_right_def)
qed

text \<open>The last character of rows is no padding when the last field does not end in a blank.\<close>

definition rows_ok :: "string list list \<Rightarrow> bool" where
  "rows_ok rs \<longleftrightarrow> rs \<noteq> [] \<and> list_all row_ok rs \<and> list_all (\<lambda>r. list_all plain r) rs"

lemma row_text_last: "r \<noteq> [] \<Longrightarrow> last r \<noteq> [] \<Longrightarrow> last (row_text r) = last (last r)"
  using join_with_last [of r "CHR '',''"] by (simp add: row_text_def)

lemma rows_trimmed:
  assumes "rows_ok rs" "set cutset \<subseteq> set sbat_padding" "newline \<in> set cutset" "set pad \<subseteq> set cutset"
  shows "trim_right cutset (rows_text rs @ pad) = join_with newline (map row_text rs)"
proof -
  have n: "rs \<noteq> []" and r: "row_ok (last rs)" "list_all plain (last rs)"
    using assms(1) by (auto simp: rows_ok_def list_all_iff)
  have p: "last rs \<noteq> []" "plain (last (last rs))" using r by (auto simp: row_ok_def list_all_iff)
  let ?s = "join_with newline (map row_text rs)"
  have t: "row_text (last rs) \<noteq> []" using row_text_ok [OF r(1)] by (simp add: line_ok_def)
  have l: "?s \<noteq> []" "last ?s = last (last (last rs))"
    using join_with_last [of "map row_text rs" newline] n t p row_text_last [OF p(1)]
    by (simp_all add: last_map plain_def)
  have m: "last (last (last rs)) \<in> set (last (last rs))" "last (last (last rs)) \<noteq> CHR '' ''"
    using p(2) by (simp_all add: plain_def)
  have "last ?s \<notin> set sbat_padding"
    using bare_chars [OF plain_bare(1) [OF p(2)] m(1)] m(2) by (simp add: l(2) sbat_padding_def)
  then have "trim_right cutset (?s @ newline # pad) = ?s"
    using assms l(1) by (intro trim_right_last) auto
  with rows_text_join [OF n] show ?thesis by simp
qed

lemma rows_lines:
  assumes "rows_ok rs"
  shows "csv_lines (join_with newline (map row_text rs)) = terminated (map row_text rs)"
    "no_empty_rows n (split_lines (join_with newline (map row_text rs))) = Inr ()"
proof -
  have l: "list_all line_ok (map row_text rs)" "map row_text rs \<noteq> []"
    using assms row_text_ok by (auto simp: rows_ok_def list_all_iff)
  then show "csv_lines (join_with newline (map row_text rs)) = terminated (map row_text rs)"
    "no_empty_rows n (split_lines (join_with newline (map row_text rs))) = Inr ()"
    by (intro csv_lines_join no_empty_rows_join; simp)+
qed

subsection \<open>The text of a level\<close>

definition entry_row :: "string \<times> u64 \<Rightarrow> string list" where
  "entry_row e = [fst e, decimal (snd e)]"

definition level_rows_of :: "u64 \<Rightarrow> string \<Rightarrow> (string \<times> u64) list \<Rightarrow> string list list" where
  "level_rows_of generation datestamp es = [''sbat'', decimal generation, datestamp] # map entry_row es"

definition level_text :: "u64 \<Rightarrow> string \<Rightarrow> (string \<times> u64) list \<Rightarrow> bytes" where
  "level_text generation datestamp es = string_bytes (rows_text (level_rows_of generation datestamp es))"

text \<open>A level: ten digits, generations that are not zero, and names that differ in lower case.\<close>

definition level_ok :: "u64 \<Rightarrow> string \<Rightarrow> (string \<times> u64) list \<Rightarrow> bool" where
  "level_ok generation datestamp es \<longleftrightarrow> generation \<noteq> 0 \<and> length datestamp = 10 \<and> decimalDigits datestamp
     \<and> list_all (\<lambda>(n, g). plain n \<and> g \<noteq> 0) es \<and> length es < maximumSBATRecords
     \<and> distinct (map to_lower (''sbat'' # map fst es))
     \<and> length (level_text generation datestamp es) \<le> maximumSBATLevelFileSize"

definition level_of :: "string \<Rightarrow> u64 \<Rightarrow> string \<Rightarrow> (string \<times> u64) list \<Rightarrow> SBATLevel" where
  "level_of source generation datestamp es = \<lparr> sv_Source = trim_space source, sv_FormatGeneration = generation,
     sv_Datestamp = datestamp,
     sv_Entries = \<lparr> se_Component = ''sbat'', se_Generation = generation, se_Datestamp = datestamp \<rparr>
       # map (\<lambda>(n, g). \<lparr> se_Component = n, se_Generation = g, se_Datestamp = [] \<rparr>) es,
     sv_minimums = Some (map_of ((''sbat'', generation) # es)) \<rparr>"

lemma level_rows_step:
  assumes "row_ok r" "level_row (row + 1) r seen level = Inr (seen1, level1)"
  shows "level_rows row (terminated (map row_text (r # rs))) seen level
    = level_rows (row + 1) (terminated (map row_text rs)) seen1 level1"
  by (subst level_rows.simps) (simp only: csv_read_row [OF assms(1)] sum.case option.case prod.case assms(2))

lemma level_rows_entries:
  assumes "list_all (\<lambda>(n, g). plain n \<and> g \<noteq> 0) es" "0 < row" "row + length es \<le> maximumSBATRecords"
    "distinct (map (to_lower \<circ> fst) es)" "set (map (to_lower \<circ> fst) es) \<inter> set seen = {}"
  shows "level_rows row (terminated (map row_text (map entry_row es))) seen level = Inr (row + length es,
     level\<lparr>sv_Entries := sv_Entries level @ map (\<lambda>(n, g). \<lparr> se_Component = n, se_Generation = g, se_Datestamp = [] \<rparr>) es,
           sv_minimums := map_option (\<lambda>m. foldl (\<lambda>m (n, g). m(n \<mapsto> g)) m es) (sv_minimums level)\<rparr>)"
  using assms
proof (induction es arbitrary: row seen level)
  case Nil
  then show ?case by (subst level_rows.simps) (simp add: option.map_ident)
next
  case (Cons e es)
  obtain n g where e: "e = (n, g)" by (cases e)
  have p: "plain n" "g \<noteq> 0" "plain (decimal g)" using Cons.prems(1) plain_decimal by (simp_all add: e)
  have ok: "row_ok (entry_row e)" using p by (simp add: row_ok_def entry_row_def e plain_bare)
  let ?level = "level\<lparr>sv_Entries := sv_Entries level @ [\<lparr> se_Component = n, se_Generation = g, se_Datestamp = [] \<rparr>],
     sv_minimums := map_option (\<lambda>m. m(n \<mapsto> g)) (sv_minimums level)\<rparr>"
  have fresh: "to_lower n \<notin> set seen" using Cons.prems(5) by (simp add: e)
  have "level_row (row + 1) (entry_row e) seen level = Inr (to_lower n # seen, ?level)"
    using Cons.prems(2,3) p fresh plain_bare(2)
    by (simp add: level_row_def entry_row_def e parse_decimal bindE_def Let_def plain_bare(2))
  then have "level_rows row (terminated (map row_text (map entry_row (e # es)))) seen level
      = level_rows (row + 1) (terminated (map row_text (map entry_row es))) (to_lower n # seen) ?level"
    unfolding list.map(2) [of entry_row] by (rule level_rows_step [OF ok])
  also have "\<dots> = Inr (row + 1 + length es,
     ?level\<lparr>sv_Entries := sv_Entries ?level @ map (\<lambda>(n, g). \<lparr> se_Component = n, se_Generation = g, se_Datestamp = [] \<rparr>) es,
           sv_minimums := map_option (\<lambda>m. foldl (\<lambda>m (n, g). m(n \<mapsto> g)) m es) (sv_minimums ?level)\<rparr>)"
    using Cons.prems by (intro Cons.IH) (auto simp: e)
  finally show ?case by (simp add: e option.map_comp comp_def del: fun_upd_apply)
qed

lemma foldl_map_of: "distinct (map fst es) \<Longrightarrow> foldl (\<lambda>m (n, g). m(n \<mapsto> g)) m es = m ++ map_of es"
proof (induction es arbitrary: m)
  case (Cons e es)
  obtain n g where e: "e = (n, g)" by (cases e)
  have "map_of es n = None" using Cons.prems by (auto simp: e map_of_eq_None_iff)
  then have "m(n \<mapsto> g) ++ map_of es = m ++ map_of (e # es)"
    by (auto simp: e map_add_def fun_eq_iff split: option.splits)
  with Cons show ?case by (simp add: e del: fun_upd_apply)
qed simp

lemma level_rows_ok:
  assumes "level_ok generation datestamp es"
  shows "rows_ok (level_rows_of generation datestamp es)" "plain datestamp"
proof -
  have d: "decimalDigits datestamp" "datestamp \<noteq> []" using assms by (auto simp: level_ok_def)
  have "bare datestamp" using d(1) by (fastforce simp: bare_def decimalDigits_def list_all_iff)
  moreover have "CHR '' '' \<notin> set datestamp" using d(1) by (auto simp: decimalDigits_def list_all_iff)
  ultimately show p: "plain datestamp" using d(2) hd_in_set last_in_set by (fastforce simp: plain_def)
  have s: "plain ''sbat''" by (simp add: plain_def bare_def)
  have "plain n" if "(n, g) \<in> set es" for n g using assms that by (auto simp: level_ok_def list_all_iff)
  then show "rows_ok (level_rows_of generation datestamp es)"
    using p s by (auto simp: rows_ok_def level_rows_of_def entry_row_def row_ok_def plain_decimal plain_bare list_all_iff)
qed

lemma rows_text_chars: "list_all row_ok rs \<Longrightarrow> c \<in> set (rows_text rs) \<Longrightarrow>
  c = newline \<or> 32 \<le> (of_char c :: nat) \<and> (of_char c :: nat) \<le> 126"
proof -
  assume r: "list_all row_ok rs" and c: "c \<in> set (rows_text rs)"
  have j: "set (row_text r) \<subseteq> insert (CHR '','') (\<Union> (set ` set r))" for r
    unfolding row_text_def by (induction r rule: terminated.induct) auto
  from c consider "c = newline" | r where "r \<in> set rs" "c \<in> set (row_text r)"
    by (fastforce simp: rows_text_def split: if_splits)
  then show ?thesis
  proof cases
    case 2
    with r j [of r] have "c = CHR '','' \<or> (\<exists>f. bare f \<and> c \<in> set f)" by (fastforce simp: row_ok_def list_all_iff)
    then show ?thesis by (auto simp: bare_def list_all_iff)
  qed simp
qed

lemma level_text_bytes: "list_all row_ok rs \<Longrightarrow> list_all level_byte (string_bytes (rows_text rs))"
proof -
  assume r: "list_all row_ok rs"
  have "level_byte (of_nat (of_char c :: nat))" if "c \<in> set (rows_text rs)" for c
  proof -
    have u: "unat (of_nat (of_char c) :: byte) = (of_char c :: nat)"
      using unat_of_nat [of "of_char c :: nat", where 'a = 8] of_char_mod_256 [of c] by (simp add: take_bit_eq_mod)
    from rows_text_chars [OF r that] show ?thesis
      by (auto simp: level_byte_def word_eq_unat word_le_unat u)
  qed
  then show ?thesis by (simp add: string_bytes_def list_all_iff)
qed

lemma level_parsed:
  assumes "level_ok generation datestamp es"
  shows "ParseSBATLevel (level_text generation datestamp es) source = Inr (level_of source generation datestamp es)"
proof -
  let ?rs = "level_rows_of generation datestamp es"
  let ?d = "join_with newline (map row_text ?rs)"
  note ok = level_rows_ok [OF assms]
  have L: "generation \<noteq> 0" "length datestamp = 10" "decimalDigits datestamp"
    "list_all (\<lambda>(n, g). plain n \<and> g \<noteq> 0) es" "length es < maximumSBATRecords"
    "distinct (map to_lower (''sbat'' # map fst es))"
    "length (level_text generation datestamp es) \<le> maximumSBATLevelFileSize"
    using assms by (auto simp: level_ok_def)
  have trim: "trim_right [carriage, newline] (bytes_string (level_text generation datestamp es)) = ?d"
    using rows_trimmed [OF ok(1), of "[carriage, newline]" "[]"] by (simp add: level_text_def sbat_padding_def)
  have r: "list_all row_ok ?rs" "?rs \<noteq> []" using ok(1) by (simp_all add: rows_ok_def)
  then have l: "line_ok (row_text (hd ?rs))" using row_text_ok by (cases ?rs) auto
  have d: "?d \<noteq> []"
    using l r(2) by (cases "map row_text ?rs" rule: terminated.cases) (auto simp: line_ok_def)
  have b: "level_text generation datestamp es \<noteq> []"
  proof
    assume "level_text generation datestamp es = []"
    with trim have "?d = []" by (simp add: trim_right_def bytes_string_def)
    with d show False by simp
  qed
  have all: "list_all level_byte (level_text generation datestamp es)"
    unfolding level_text_def by (rule level_text_bytes [OF r(1)])
  let ?first = "[''sbat'', decimal generation, datestamp]"
  have ps: "plain ''sbat''" by (simp add: plain_def bare_def)
  let ?l1 = "(level_start source)\<lparr>sv_Datestamp := datestamp, sv_FormatGeneration := generation,
     sv_Entries := [\<lparr> se_Component = ''sbat'', se_Generation = generation, se_Datestamp = datestamp \<rparr>],
     sv_minimums := Some (Map.empty(''sbat'' \<mapsto> generation))\<rparr>"
  have first: "level_row 1 ?first [] (level_start source) = Inr ([to_lower ''sbat''], ?l1)"
    using L ok(2) ps plain_decimal [of generation]
    by (simp add: level_row_def Let_def bindE_def parse_decimal maximumSBATRecords_def level_start_def plain_bare(2))
  have rf: "row_ok ?first" using r(1) by (simp add: level_rows_of_def)
  have "level_rows 0 (terminated (map row_text ?rs)) [] (level_start source)
      = level_rows (0 + 1) (terminated (map row_text (map entry_row es))) [to_lower ''sbat''] ?l1"
    unfolding level_rows_of_def by (rule level_rows_step [OF rf]) (use first in \<open>simp only: add_0\<close>)
  also have "\<dots> = Inr (1 + length es, level_of source generation datestamp es)"
  proof -
    have dn: "distinct (map fst ((''sbat'', generation) # es))"
      using L(6) distinct_map [of to_lower "''sbat'' # map fst es"] by simp
    have "foldl (\<lambda>m (n, g). m(n \<mapsto> g)) (Map.empty(''sbat'' \<mapsto> generation)) es = map_of ((''sbat'', generation) # es)"
      using foldl_map_of [OF dn, of Map.empty] by simp
    then show ?thesis
      using L by (subst level_rows_entries) (auto simp: level_of_def level_start_def comp_def)
  qed
  finally have rows: "level_rows 0 (terminated (map row_text ?rs)) [] (level_start source)
    = Inr (1 + length es, level_of source generation datestamp es)" .
  show ?thesis
    using b all L(7) trim d rows_lines [OF ok(1)] rows
    by (simp add: ParseSBATLevel_def Let_def bindE_def not_less)
qed

subsection \<open>The text of a section\<close>

definition component_row :: "SBATComponent \<Rightarrow> string list" where
  "component_row c = [sc_Component c, decimal (sc_Generation c), sc_Vendor c, sc_Package c, sc_Version c, sc_VendorURL c]"

text \<open>The section is padded with zeros.\<close>

definition section_text :: "SBATComponent list \<Rightarrow> nat \<Rightarrow> bytes" where
  "section_text cs n = string_bytes (rows_text (map component_row cs)) @ replicate n 0"

definition components_ok :: "SBATComponent list \<Rightarrow> bool" where
  "components_ok cs \<longleftrightarrow> cs \<noteq> [] \<and> length cs \<le> maximumSBATRecords
     \<and> list_all (\<lambda>c. plain (sc_Component c) \<and> sc_Generation c \<noteq> 0 \<and> plain (sc_Vendor c) \<and> plain (sc_Package c)
          \<and> plain (sc_Version c) \<and> plain (sc_VendorURL c)) cs
     \<and> distinct (map (to_lower \<circ> sc_Component) cs)"

lemma sbat_rows_step:
  assumes "row_ok r" "sbat_row r seen result = Inr (seen1, result1)"
  shows "sbat_rows (terminated (map row_text (r # rs))) seen result
    = sbat_rows (terminated (map row_text rs)) seen1 result1"
  by (subst sbat_rows.simps) (simp only: csv_read_row [OF assms(1)] sum.case option.case prod.case assms(2))

lemma sbat_rows_components:
  assumes "list_all (\<lambda>c. plain (sc_Component c) \<and> sc_Generation c \<noteq> 0 \<and> plain (sc_Vendor c) \<and> plain (sc_Package c)
      \<and> plain (sc_Version c) \<and> plain (sc_VendorURL c)) cs"
    "length result + length cs \<le> maximumSBATRecords"
    "distinct (map (to_lower \<circ> sc_Component) cs)" "set (map (to_lower \<circ> sc_Component) cs) \<inter> set seen = {}"
  shows "sbat_rows (terminated (map row_text (map component_row cs))) seen result = Inr (result @ cs)"
  using assms
proof (induction cs arbitrary: seen result)
  case Nil
  then show ?case by (subst sbat_rows.simps) simp
next
  case (Cons c cs)
  have p: "plain (sc_Component c)" "plain (sc_Vendor c)" "plain (sc_Package c)" "plain (sc_Version c)" "plain (sc_VendorURL c)"
    "sc_Generation c \<noteq> 0" using Cons.prems(1) by auto
  have ok: "row_ok (component_row c)"
    using p plain_decimal by (simp add: row_ok_def component_row_def plain_bare)
  have fresh: "to_lower (sc_Component c) \<notin> set seen" using Cons.prems(4) by simp
  have "sbat_row (component_row c) seen result = Inr (to_lower (sc_Component c) # seen, result @ [c])"
    using p fresh Cons.prems(2) plain_decimal
    by (simp add: sbat_row_def component_row_def Let_def parse_decimal plain_bare(2))
  then have "sbat_rows (terminated (map row_text (map component_row (c # cs)))) seen result
      = sbat_rows (terminated (map row_text (map component_row cs))) (to_lower (sc_Component c) # seen) (result @ [c])"
    unfolding list.map(2) [of component_row] by (rule sbat_rows_step [OF ok])
  also have "\<dots> = Inr ((result @ [c]) @ cs)"
    using Cons.prems by (intro Cons.IH) auto
  finally show ?case by simp
qed

lemma section_parsed:
  assumes "components_ok cs"
  shows "parseSBAT (section_text cs n) = Inr cs"
proof -
  let ?rs = "map component_row cs"
  let ?d = "join_with newline (map row_text ?rs)"
  have C: "cs \<noteq> []" "length cs \<le> maximumSBATRecords" "distinct (map (to_lower \<circ> sc_Component) cs)"
    "list_all (\<lambda>c. plain (sc_Component c) \<and> sc_Generation c \<noteq> 0 \<and> plain (sc_Vendor c) \<and> plain (sc_Package c)
      \<and> plain (sc_Version c) \<and> plain (sc_VendorURL c)) cs"
    using assms by (auto simp: components_ok_def)
  have ok: "rows_ok ?rs"
    using C plain_decimal by (auto simp: rows_ok_def row_ok_def component_row_def plain_bare list_all_iff)
  have pad: "bytes_string (section_text cs n) = rows_text ?rs @ replicate n (CHR 0x00)"
  proof -
    have zero: "char_of (0 :: nat) = CHR 0x00" by code_simp
    have "bytes_string (replicate n 0) = replicate n (CHR 0x00)" by (simp add: bytes_string_def zero)
    moreover have "bytes_string (xs @ ys) = bytes_string xs @ bytes_string ys" for xs ys by (simp add: bytes_string_def)
    ultimately show ?thesis by (simp add: section_text_def)
  qed
  have trim: "trim_right sbat_padding (bytes_string (section_text cs n)) = ?d"
    unfolding pad by (rule rows_trimmed [OF ok]) (auto simp: sbat_padding_def)
  have "line_ok (row_text (hd ?rs))" using ok C(1) row_text_ok by (cases cs) (auto simp: rows_ok_def)
  then have d: "?d \<noteq> []"
    using C(1) by (cases "map row_text ?rs" rule: terminated.cases) (auto simp: line_ok_def)
  have "sbat_rows (terminated (map row_text ?rs)) [] [] = Inr cs"
    using sbat_rows_components [of cs "[]" "[]"] C by simp
  then show ?thesis
    using trim d rows_lines(1) [OF ok] C(1) by (simp add: parseSBAT_def Let_def bindE_def)
qed

section \<open>What a level revokes\<close>

text \<open>The components below their minimum, each with that minimum.\<close>

definition below :: "(string \<rightharpoonup> u64) \<Rightarrow> SBATComponent \<Rightarrow> bool" where
  "below minimums c = (case minimums (sc_Component c) of None \<Rightarrow> False | Some m \<Rightarrow> sc_Generation c < m)"

definition revocation_of :: "(string \<rightharpoonup> u64) \<Rightarrow> SBATComponent \<Rightarrow> SBATRevocation" where
  "revocation_of minimums c = \<lparr> sr_Component = sc_Component c, sr_ImageGeneration = sc_Generation c,
     sr_MinimumGeneration = the (minimums (sc_Component c)) \<rparr>"

lemma revoked_components_filter:
  "revoked_components minimums cs = map (revocation_of minimums) (filter (below minimums) cs)"
  by (induction cs) (auto simp: below_def revocation_of_def split: option.splits)

lemma parsed_level_revokes:
  assumes "level_ok generation datestamp es" "components_ok cs"
    and "ParseSBATLevel (level_text generation datestamp es) source = Inr level" "parseSBAT (section_text cs n) = Inr found"
  shows "Revocations (Some level) found
    = map (revocation_of (map_of ((''sbat'', generation) # es))) (filter (below (map_of ((''sbat'', generation) # es))) cs)"
proof -
  have "level = level_of source generation datestamp es" "found = cs"
    using assms level_parsed [OF assms(1)] section_parsed [OF assms(2)] by auto
  then show ?thesis
    by (simp add: Revocations_def minimum_generations_def level_of_def revoked_components_filter)
qed

section \<open>Properties\<close>

text \<open>
  Writing a revocation level as the text of its rows and parsing it gives back the level:
  the format generation, the datestamp, every entry in order, and the map of minimum generations.
\<close>

theorem sbat_level_roundtrip:
  assumes "level_ok generation datestamp es"
  shows "ParseSBATLevel (level_text generation datestamp es) source = Inr (level_of source generation datestamp es)"
  by (rule level_parsed [OF assms])

text \<open>
  C40: A level and the metadata section of an image, both read from their texts, give exactly the
  revocations of the components whose generation is below the minimum the level's text states for
  that name; the section may be padded with any number of zeros.
\<close>

theorem sbat_texts_revoke:
  assumes "level_ok generation datestamp es" "components_ok cs"
  shows "\<exists>level found. ParseSBATLevel (level_text generation datestamp es) source = Inr level
    \<and> parseSBAT (section_text cs n) = Inr found
    \<and> Revocations (Some level) found
      = map (revocation_of (map_of ((''sbat'', generation) # es))) (filter (below (map_of ((''sbat'', generation) # es))) cs)"
  using level_parsed [OF assms(1)] section_parsed [OF assms(2)] parsed_level_revokes [OF assms] by blast

section \<open>Witnesses\<close>

definition sample_level :: "(string \<times> u64) list" where
  "sample_level = [(''shim'', 4), (''grub'', 3)]"

definition sample_components :: "SBATComponent list" where
  "sample_components =
     [\<lparr> sc_Component = ''sbat'', sc_Generation = 1, sc_Vendor = ''v'', sc_Package = ''sbat'', sc_Version = ''1'', sc_VendorURL = ''u'' \<rparr>,
      \<lparr> sc_Component = ''shim'', sc_Generation = 3, sc_Vendor = ''v'', sc_Package = ''shim'', sc_Version = ''15'', sc_VendorURL = ''u'' \<rparr>]"

lemma sample_level_ok: "level_ok 1 ''2024010900'' sample_level"
  using digits_length [of 20 1] digits_length [of 20 4] digits_length [of 20 3]
  by (simp add: level_ok_def sample_level_def decimalDigits_def plain_def bare_def maximumSBATRecords_def lower_char_def
    level_text_def rows_text_def level_rows_of_def entry_row_def row_text_def maximumSBATLevelFileSize_def decimal_def Let_def)

lemma sample_components_ok: "components_ok sample_components"
  by (simp add: components_ok_def sample_components_def plain_def bare_def maximumSBATRecords_def lower_char_def Let_def)

theorem sbat_level_roundtrip_witness:
  "ParseSBATLevel (level_text 1 ''2024010900'' sample_level) ''a'' = Inr (level_of ''a'' 1 ''2024010900'' sample_level)"
  by (rule sbat_level_roundtrip [OF sample_level_ok])

theorem sbat_texts_revoke_witness:
  "\<exists>level found. ParseSBATLevel (level_text 1 ''2024010900'' sample_level) ''a'' = Inr level
    \<and> parseSBAT (section_text sample_components 3) = Inr found
    \<and> Revocations (Some level) found = [\<lparr> sr_Component = ''shim'', sr_ImageGeneration = 3, sr_MinimumGeneration = 4 \<rparr>]"
  using sbat_texts_revoke [OF sample_level_ok sample_components_ok, of "''a''" 3]
  by (simp add: sample_level_def sample_components_def below_def revocation_of_def)

end
