(* ===== verification/SecureMedia.thy ===== *)
theory SecureMedia
  imports SecureLists SecurePe SecureSbat
begin

text \<open>
  \<open>internal/secureboot/uefi.go\<close>: the validation of the EFI executables of a media tree, their
  architecture and subsystem, their SBAT metadata and the revocations of the selected database and
  level, with the theorem that a tree is valid exactly when every file passes. The traversal of the
  tree (\<open>SecureTree\<close>) is a parameter here.
\<close>

section \<open>Machines and architectures\<close>

definition imageFileMachineI386 :: u16 where "imageFileMachineI386 = 0x014c"
definition imageFileMachineARM :: u16 where "imageFileMachineARM = 0x01c0"
definition imageFileMachineThumb :: u16 where "imageFileMachineThumb = 0x01c2"
definition imageFileMachineARMNT :: u16 where "imageFileMachineARMNT = 0x01c4"
definition imageFileMachineAMD64 :: u16 where "imageFileMachineAMD64 = 0x8664"
definition imageFileMachineARM64 :: u16 where "imageFileMachineARM64 = 0xaa64"
definition imageFileMachineRISCV64 :: u16 where "imageFileMachineRISCV64 = 0x5064"
definition imageFileMachineLOONG64 :: u16 where "imageFileMachineLOONG64 = 0x6264"
definition imageSubsystemEFIApp :: u16 where "imageSubsystemEFIApp = 10"
definition imageSubsystemEFIROM :: u16 where "imageSubsystemEFIROM = 13"

record uefiArchitecture =
  ar_name :: string
  ar_fallbackPath :: string
  ar_machines :: "u16 list"

definition normalizeUEFIArchitecture :: "string \<Rightarrow> uefiArchitecture res" where
  "normalizeUEFIArchitecture v =
     (let v = to_lower (trim_space v); v = (if v = [] then ''arm64'' else v);
          arch = (\<lambda>name path machines. Inr \<lparr> ar_name = name, ar_fallbackPath = path, ar_machines = machines \<rparr>) in
      if v \<in> {''arm64'', ''aarch64''} then arch ''arm64'' ''EFI/BOOT/BOOTAA64.EFI'' [imageFileMachineARM64]
      else if v \<in> {''amd64'', ''x86_64'', ''x64''} then arch ''amd64'' ''EFI/BOOT/BOOTX64.EFI'' [imageFileMachineAMD64]
      else if v \<in> {''386'', ''i386'', ''i686'', ''x86''} then arch ''386'' ''EFI/BOOT/BOOTIA32.EFI'' [imageFileMachineI386]
      else if v = ''arm''
      then arch ''arm'' ''EFI/BOOT/BOOTARM.EFI'' [imageFileMachineARM, imageFileMachineThumb, imageFileMachineARMNT]
      else if v = ''riscv64'' then arch ''riscv64'' ''EFI/BOOT/BOOTRISCV64.EFI'' [imageFileMachineRISCV64]
      else if v = ''loongarch64'' then arch ''loongarch64'' ''EFI/BOOT/BOOTLOONGARCH64.EFI'' [imageFileMachineLOONG64]
      else Inl (Errorf ''unsupported UEFI architecture %q'' [FS v]))"

definition isEFISubsystem :: "u16 \<Rightarrow> bool" where
  "isEFISubsystem v \<longleftrightarrow> imageSubsystemEFIApp \<le> v \<and> v \<le> imageSubsystemEFIROM"

text \<open>A name that is not in the table is a formatted text, kept as its template and arguments.\<close>

definition uefiMachineName :: "u16 \<Rightarrow> go_error" where
  "uefiMachineName v =
     (if v = imageFileMachineI386 then Msg ''x86''
      else if v = imageFileMachineARM then Msg ''ARM''
      else if v = imageFileMachineThumb then Msg ''ARM Thumb''
      else if v = imageFileMachineARMNT then Msg ''ARM Thumb-2''
      else if v = 0x0200 then Msg ''IA64''
      else if v = 0x0ebc then Msg ''EFI bytecode''
      else if v = imageFileMachineAMD64 then Msg ''x86-64''
      else if v = imageFileMachineARM64 then Msg ''ARM64''
      else if v = imageFileMachineRISCV64 then Msg ''RISC-V 64''
      else if v = imageFileMachineLOONG64 then Msg ''LoongArch 64''
      else Errorf ''unknown machine 0x%04x'' [FN (unat v)])"

definition uefiSubsystemName :: "u16 \<Rightarrow> go_error" where
  "uefiSubsystemName v =
     (if v = imageSubsystemEFIApp then Msg ''EFI application''
      else if v = 11 then Msg ''EFI boot-service driver''
      else if v = 12 then Msg ''EFI runtime driver''
      else if v = imageSubsystemEFIROM then Msg ''EFI ROM image''
      else Errorf ''subsystem %d'' [FN (unat v)])"

text \<open>
  \<open>strings.EqualFold\<close> with an ASCII text: besides the letters of both cases, U+017F folds to s and
  U+212A to k.
\<close>

fun fold_ascii :: "string \<Rightarrow> string" where
  "fold_ascii (a # b # c # cs) =
     (if a = CHR 0xC5 \<and> b = CHR 0xBF then CHR ''s'' # fold_ascii (c # cs)
      else if a = CHR 0xE2 \<and> b = CHR 0x84 \<and> c = CHR 0xAA then CHR ''k'' # fold_ascii cs
      else lower_char a # fold_ascii (b # c # cs))"
| "fold_ascii [a, b] = (if a = CHR 0xC5 \<and> b = CHR 0xBF then ''s'' else [lower_char a, lower_char b])"
| "fold_ascii [a] = [lower_char a]"
| "fold_ascii [] = []"

definition equal_fold :: "string \<Rightarrow> string \<Rightarrow> bool" where
  "equal_fold s ascii \<longleftrightarrow> fold_ascii s = fold_ascii ascii"

section \<open>One image\<close>

record parsedUEFIImage =
  pi_machine :: u16
  pi_subsystem :: u16
  pi_sbat :: "SBATComponent list"

definition maximumSBATSectionSize :: u32 where "maximumSBATSectionSize = 1048576"

text \<open>The loop over the section table; the metadata found so far is None when it is nil.\<close>

fun uefi_sections :: "bytes \<Rightarrow> nat \<Rightarrow> nat list \<Rightarrow> SBATComponent list option \<Rightarrow> SBATComponent list option res" where
  "uefi_sections bs sectionTable [] sbat = Inr sbat"
| "uefi_sections bs sectionTable (index # is) sbat =
     (let entry = sectionTable + index * 40;
          name = trim_right [CHR 0x00] (bytes_string (field bs entry 8)) in
      if name \<noteq> ''.sbat'' then uefi_sections bs sectionTable is sbat
      else if sbat \<noteq> None then Inl (Msg ''PE image contains multiple .sbat sections'')
      else
      let rawSize = u32_at bs (entry + 16); rawOffset = u32_at bs (entry + 20);
          stop = unat rawOffset + unat rawSize in
      if rawSize = 0 \<or> maximumSBATSectionSize < rawSize then Inl (Msg ''invalid or oversized .sbat section'')
      else if rawOffset = 0 \<or> length bs < stop then Inl (Msg ''invalid .sbat section extent'')
      else bindE (parseSBAT (slice bs (unat rawOffset) stop)) (\<lambda>parsed.
        uefi_sections bs sectionTable is (Some parsed)))"

definition parseUEFIImage :: "bytes \<Rightarrow> parsedUEFIImage res" where
  "parseUEFIImage bs =
     bindE (pe_offset bs) (\<lambda>peOffset.
     let coff = peOffset + 4; machine = u16_at bs coff; sectionCount = unat (u16_at bs (coff + 2));
         optionalSize = unat (u16_at bs (coff + 16)); optional = coff + 20 in
     if 4096 < sectionCount \<or> optionalSize < 70 \<or> length bs < optional + optionalSize
     then Inl (Msg ''invalid PE optional header or section count'')
     else
     let magic = u16_at bs optional in
     if magic \<noteq> 0x10b \<and> magic \<noteq> 0x20b
     then Inl (Errorf ''unsupported PE optional-header magic 0x%x'' [FN (unat magic)])
     else
     let subsystemOffset = optional + 68 in
     if optional + optionalSize < subsystemOffset + 2 then Inl (Msg ''truncated PE subsystem field'')
     else
     let subsystem = u16_at bs subsystemOffset; sectionTable = optional + optionalSize in
     if (length bs - sectionTable) div 40 < sectionCount then Inl (Msg ''truncated PE section table'')
     else bindE (uefi_sections bs sectionTable [0..<sectionCount] None) (\<lambda>sbat.
     Inr \<lparr> pi_machine = machine, pi_subsystem = subsystem, pi_sbat = (case sbat of None \<Rightarrow> [] | Some cs \<Rightarrow> cs) \<rparr>))"

section \<open>One file\<close>

text \<open>Warnings and errors are kept as the texts they format.\<close>

record UEFIFileValidation =
  uv_Path :: string
  uv_Machine :: u16
  uv_MachineName :: go_error
  uv_Subsystem :: u16
  uv_SubsystemName :: go_error
  uv_Fallback :: bool
  uv_AuthenticodeSHA256 :: string
  uv_DirectHashRevoked :: bool
  uv_X509CertificateRevoked :: bool
  uv_EmbeddedCertificates :: nat
  uv_SBAT :: "SBATComponent list"
  uv_SBATRevoked :: bool
  uv_SBATRevocations :: "SBATRevocation list"
  uv_Warnings :: "go_error list"
  uv_Error :: "go_error option"

definition new_validation :: "string \<Rightarrow> bool \<Rightarrow> UEFIFileValidation" where
  "new_validation relative fallback = \<lparr> uv_Path = relative, uv_Machine = 0, uv_MachineName = Msg [], uv_Subsystem = 0,
     uv_SubsystemName = Msg [], uv_Fallback = fallback, uv_AuthenticodeSHA256 = [], uv_DirectHashRevoked = False,
     uv_X509CertificateRevoked = False, uv_EmbeddedCertificates = 0, uv_SBAT = [], uv_SBATRevoked = False,
     uv_SBATRevocations = [], uv_Warnings = [], uv_Error = None \<rparr>"

definition sbat_check :: "bool \<Rightarrow> SBATLevel option \<Rightarrow> UEFIFileValidation \<Rightarrow> UEFIFileValidation" where
  "sbat_check fallback level r =
     (if uv_SBAT r = []
      then
        if fallback
        then r\<lparr>uv_Warnings := uv_Warnings r
               @ [Msg ''fallback loader has no .sbat metadata; generation-based revocation was not assessed'']\<rparr>
        else if level \<noteq> None
        then r\<lparr>uv_Warnings := uv_Warnings r
               @ [Msg ''EFI executable has no .sbat metadata; the selected SBAT level was not assessed'']\<rparr>
        else r
      else if level \<noteq> None
      then r\<lparr>uv_SBATRevocations := Revocations level (uv_SBAT r), uv_SBATRevoked := Revocations level (uv_SBAT r) \<noteq> []\<rparr>
      else r)"

definition dbx_check :: "pkcs7_decoder \<Rightarrow> string \<Rightarrow> bytes \<Rightarrow> Database option \<Rightarrow> UEFIFileValidation \<Rightarrow> UEFIFileValidation" where
  "dbx_check decoder relative bs dbx r =
     (if dbx = None then r
      else
      let checked = checkPEData decoder relative bs dbx;
          r = r\<lparr> uv_AuthenticodeSHA256 := cr_AuthenticodeSHA256 checked, uv_DirectHashRevoked := cr_DirectHashRevoked checked,
                 uv_X509CertificateRevoked := cr_X509CertificateRevoked checked,
                 uv_EmbeddedCertificates := cr_EmbeddedCertificates checked \<rparr> in
      if cr_Error checked \<noteq> None then r\<lparr>uv_Error := cr_Error checked\<rparr> else r)"

definition validateUEFIFile ::
  "pkcs7_decoder \<Rightarrow> bytes \<Rightarrow> string \<Rightarrow> bool \<Rightarrow> uefiArchitecture \<Rightarrow> Database option \<Rightarrow> SBATLevel option \<Rightarrow> UEFIFileValidation" where
  "validateUEFIFile decoder bs relative fallback architecture dbx sbatLevel =
     (let r = new_validation relative fallback in
      case parseUEFIImage bs of
        Inl err \<Rightarrow> r\<lparr>uv_Error := Some err\<rparr>
      | Inr parsed \<Rightarrow>
      let r = r\<lparr> uv_Machine := pi_machine parsed, uv_MachineName := uefiMachineName (pi_machine parsed),
                 uv_Subsystem := pi_subsystem parsed, uv_SubsystemName := uefiSubsystemName (pi_subsystem parsed),
                 uv_SBAT := pi_sbat parsed \<rparr>;
          expectedMachine = (pi_machine parsed \<in> set (ar_machines architecture)) in
      if fallback \<and> \<not> expectedMachine
      then r\<lparr>uv_Error := Some (Errorf ''fallback loader is %s, expected %s'' [FE (uv_MachineName r), FS (ar_name architecture)])\<rparr>
      else
      let r = (if \<not> fallback \<and> \<not> expectedMachine
               then r\<lparr>uv_Warnings := uv_Warnings r @ [Errorf ''foreign-architecture EFI executable (%s)'' [FE (uv_MachineName r)]]\<rparr>
               else r) in
      if \<not> isEFISubsystem (pi_subsystem parsed)
      then r\<lparr>uv_Error := Some (Errorf ''PE subsystem %d is not an EFI executable subsystem'' [FN (unat (pi_subsystem parsed))])\<rparr>
      else if fallback \<and> pi_subsystem parsed \<noteq> imageSubsystemEFIApp
      then r\<lparr>uv_Error := Some (Errorf ''fallback loader subsystem is %s, expected EFI application'' [FE (uv_SubsystemName r)])\<rparr>
      else dbx_check decoder relative bs dbx (sbat_check fallback sbatLevel r))"

section \<open>A media tree\<close>

record UEFIValidationOptions =
  vo_Architecture :: string
  vo_MaxFiles :: int
  vo_DBX :: "Database option"
  vo_SBATLevel :: "SBATLevel option"
  vo_RequireFallback :: bool

record UEFIMediaValidation =
  mv_Root :: string
  mv_Architecture :: string
  mv_FallbackPath :: string
  mv_FallbackFound :: bool
  mv_DBXChecked :: bool
  mv_SBATLevelChecked :: bool
  mv_SBATLevelSource :: string
  mv_SBATLevelDatestamp :: string
  mv_SBATRevoked :: bool
  mv_Valid :: bool
  mv_Revoked :: bool
  mv_Files :: "UEFIFileValidation list"
  mv_Warnings :: "string list"
  mv_Errors :: "go_error list"

record uefiMediaFile =
  uf_relative :: string
  uf_data :: bytes

type_synonym 'w media_tree = "string \<Rightarrow> int \<Rightarrow> ('w, string \<times> uefiMediaFile list \<times> string list) act"

definition media_start :: "string \<Rightarrow> uefiArchitecture \<Rightarrow> UEFIValidationOptions \<Rightarrow> string list \<Rightarrow> UEFIMediaValidation" where
  "media_start resolved architecture opts warnings =
     \<lparr> mv_Root = resolved, mv_Architecture = ar_name architecture, mv_FallbackPath = ar_fallbackPath architecture,
       mv_FallbackFound = False, mv_DBXChecked = (vo_DBX opts \<noteq> None), mv_SBATLevelChecked = (vo_SBATLevel opts \<noteq> None),
       mv_SBATLevelSource = (case vo_SBATLevel opts of None \<Rightarrow> [] | Some l \<Rightarrow> sv_Source l),
       mv_SBATLevelDatestamp = (case vo_SBATLevel opts of None \<Rightarrow> [] | Some l \<Rightarrow> sv_Datestamp l),
       mv_SBATRevoked = False, mv_Valid = False, mv_Revoked = False, mv_Files = [], mv_Warnings = warnings, mv_Errors = [] \<rparr>"

text \<open>One turn of the loop over the files; the flag is \<open>dbxRevoked\<close>.\<close>

definition media_file ::
  "pkcs7_decoder \<Rightarrow> uefiArchitecture \<Rightarrow> UEFIValidationOptions \<Rightarrow> uefiMediaFile \<Rightarrow> bool \<times> UEFIMediaValidation
     \<Rightarrow> bool \<times> UEFIMediaValidation" where
  "media_file decoder architecture opts f st =
     (case st of (dbxRevoked, result) \<Rightarrow>
      let relative = uf_relative f; isFallback = equal_fold relative (ar_fallbackPath architecture);
          r = validateUEFIFile decoder (uf_data f) relative isFallback architecture (vo_DBX opts) (vo_SBATLevel opts);
          result = (if isFallback then result\<lparr>mv_FallbackFound := True\<rparr> else result);
          revoked = (uv_DirectHashRevoked r \<or> uv_X509CertificateRevoked r);
          result = (if revoked then result\<lparr>mv_Revoked := True\<rparr> else result);
          result = (if uv_SBATRevoked r then result\<lparr>mv_SBATRevoked := True, mv_Revoked := True\<rparr> else result);
          result = (case uv_Error r of None \<Rightarrow> result
            | Some e \<Rightarrow> result\<lparr>mv_Errors := mv_Errors result @ [Errorf ''%s: %s'' [FS relative, FE e]]\<rparr>) in
      (dbxRevoked \<or> revoked, result\<lparr>mv_Files := mv_Files result @ [r]\<rparr>))"

fun media_files ::
  "'w poll \<Rightarrow> pkcs7_decoder \<Rightarrow> uefiArchitecture \<Rightarrow> UEFIValidationOptions \<Rightarrow> uefiMediaFile list
     \<Rightarrow> bool \<times> UEFIMediaValidation \<Rightarrow> ('w, bool \<times> UEFIMediaValidation) act" where
  "media_files ctx decoder architecture opts [] st w = (Inr st, w)"
| "media_files ctx decoder architecture opts (f # fs) st w =
     (case ctx w of
        (Some e, w1) \<Rightarrow> (Inl e, w1)
      | (None, w1) \<Rightarrow> media_files ctx decoder architecture opts fs (media_file decoder architecture opts f st) w1)"

definition add_error :: "bool \<Rightarrow> go_error \<Rightarrow> UEFIMediaValidation \<Rightarrow> UEFIMediaValidation" where
  "add_error c e r = (if c then r\<lparr>mv_Errors := mv_Errors r @ [e]\<rparr> else r)"

definition media_end :: "uefiArchitecture \<Rightarrow> UEFIValidationOptions \<Rightarrow> bool \<times> UEFIMediaValidation \<Rightarrow> UEFIMediaValidation" where
  "media_end architecture opts st =
     (case st of (dbxRevoked, result) \<Rightarrow>
      let result = add_error (vo_RequireFallback opts \<and> \<not> mv_FallbackFound result)
                     (Errorf ''missing architecture fallback loader %s'' [FS (ar_fallbackPath architecture)]) result;
          result = add_error dbxRevoked (Msg ''one or more EFI executables are revoked by the selected DBX'') result;
          result = add_error (mv_SBATRevoked result)
                     (Msg ''one or more EFI executables are revoked by the selected SBAT level'') result in
      result\<lparr>mv_Valid := (mv_Errors result = [])\<rparr>)"

definition validateUEFIMedia ::
  "'w media_tree \<Rightarrow> pkcs7_decoder \<Rightarrow> 'w poll option \<Rightarrow> string \<Rightarrow> UEFIValidationOptions \<Rightarrow> ('w, UEFIMediaValidation) act" where
  "validateUEFIMedia tree decoder ctx0 root opts =
     (case ctx0 of
        None \<Rightarrow> pure_act (Inl (Msg ''UEFI validation context is nil''))
      | Some ctx \<Rightarrow>
      bind_act (pure_act (normalizeUEFIArchitecture (vo_Architecture opts))) (\<lambda>architecture.
      let maxFiles = (if vo_MaxFiles opts \<le> 0 then 512 else vo_MaxFiles opts) in
      if 4096 < maxFiles
      then pure_act (Inl (Errorf ''UEFI file limit %d exceeds the %d-file safety maximum'' [FN (nat maxFiles), FN 4096]))
      else
      bind_act (wrap_act (\<lambda>e. Errorf ''scan UEFI media tree: %w'' [FE e]) (tree root maxFiles)) (\<lambda>(resolved, mediaFiles, warnings).
      let result = add_error (mediaFiles = []) (Msg ''media tree contains no EFI executables'')
                     (media_start resolved architecture opts warnings) in
      bind_act (media_files ctx decoder architecture opts mediaFiles (False, result)) (\<lambda>st.
      pure_act (Inr (media_end architecture opts st))))))"

section \<open>When a file passes\<close>

definition dbx_revoked :: "UEFIFileValidation \<Rightarrow> bool" where
  "dbx_revoked r \<longleftrightarrow> uv_DirectHashRevoked r \<or> uv_X509CertificateRevoked r"

definition passes :: "UEFIFileValidation \<Rightarrow> bool" where
  "passes r \<longleftrightarrow> uv_Error r = None \<and> \<not> dbx_revoked r \<and> \<not> uv_SBATRevoked r"

text \<open>What the database says of an image: neither its digest nor one of its certificates is revoked.\<close>

definition dbx_clean :: "pkcs7_decoder \<Rightarrow> Database option \<Rightarrow> bytes \<Rightarrow> bool" where
  "dbx_clean decoder dbx bs \<longleftrightarrow>
     (\<exists>h certs. AuthenticodeSHA256 bs = Inr h \<and> (\<exists>digest. hex_decode (ph_SHA256 h) = Some digest \<and> \<not> IsSHA256Revoked dbx digest)
        \<and> embeddedAuthenticodeCertificatesData decoder bs h = Inr certs
        \<and> list_all (\<lambda>c. \<not> IsX509Revoked dbx (ct_Raw c)) certs)"

definition image_clean ::
  "pkcs7_decoder \<Rightarrow> uefiArchitecture \<Rightarrow> Database option \<Rightarrow> SBATLevel option \<Rightarrow> bool \<Rightarrow> bytes \<Rightarrow> bool" where
  "image_clean decoder architecture dbx level fallback bs \<longleftrightarrow>
     (\<exists>parsed. parseUEFIImage bs = Inr parsed \<and> isEFISubsystem (pi_subsystem parsed)
        \<and> (fallback \<longrightarrow> pi_machine parsed \<in> set (ar_machines architecture) \<and> pi_subsystem parsed = imageSubsystemEFIApp)
        \<and> Revocations level (pi_sbat parsed) = []
        \<and> (dbx \<noteq> None \<longrightarrow> dbx_clean decoder dbx bs))"

lemma authenticode_digest:
  "AuthenticodeSHA256 bs = Inr h \<Longrightarrow> \<exists>digest. hex_decode (ph_SHA256 h) = Some digest \<and> length digest = 32"
  by (auto simp: AuthenticodeSHA256_def bindE_eq_Inr sha256_hex_def hex_decode_encode)

lemma check_clean:
  "cr_Error (checkPEData decoder path bs dbx) = None \<and> \<not> cr_DirectHashRevoked (checkPEData decoder path bs dbx)
     \<and> \<not> cr_X509CertificateRevoked (checkPEData decoder path bs dbx) \<longleftrightarrow> dbx_clean decoder dbx bs"
proof (cases "AuthenticodeSHA256 bs")
  case (Inr h)
  obtain digest where d: "hex_decode (ph_SHA256 h) = Some digest" "length digest = 32"
    using authenticode_digest [OF Inr] by blast
  show ?thesis
    by (auto simp: checkPEData_def dbx_clean_def Inr d Let_def check_certificates new_result_def list_ex_iff list_all_iff
      split: sum.splits)
qed (simp add: checkPEData_def dbx_clean_def Let_def)

lemma sbat_check_simps [simp]:
  "uv_Error (sbat_check fallback level r) = uv_Error r"
  "uv_DirectHashRevoked (sbat_check fallback level r) = uv_DirectHashRevoked r"
  "uv_X509CertificateRevoked (sbat_check fallback level r) = uv_X509CertificateRevoked r"
  "\<not> uv_SBATRevoked r \<Longrightarrow> uv_SBATRevoked (sbat_check fallback level r) \<longleftrightarrow> Revocations level (uv_SBAT r) \<noteq> []"
  by (simp_all add: sbat_check_def Revocations_def split: option.splits)

lemma dbx_check_simps [simp]:
  "uv_SBATRevoked (dbx_check decoder relative bs dbx r) = uv_SBATRevoked r"
  by (simp add: dbx_check_def Let_def)

lemma dbx_check_passes:
  assumes "uv_Error r = None" "\<not> dbx_revoked r"
  shows "uv_Error (dbx_check decoder relative bs dbx r) = None \<and> \<not> dbx_revoked (dbx_check decoder relative bs dbx r)
     \<longleftrightarrow> (dbx \<noteq> None \<longrightarrow> dbx_clean decoder dbx bs)"
  using assms check_clean [of decoder relative bs dbx] by (auto simp: dbx_check_def dbx_revoked_def Let_def)

lemma file_passes:
  "passes (validateUEFIFile decoder bs relative fallback architecture dbx level)
     \<longleftrightarrow> image_clean decoder architecture dbx level fallback bs"
proof (cases "parseUEFIImage bs")
  case (Inr parsed)
  have app: "isEFISubsystem imageSubsystemEFIApp" by (simp add: isEFISubsystem_def imageSubsystemEFIApp_def imageSubsystemEFIROM_def)
  let ?m = "pi_machine parsed \<in> set (ar_machines architecture)"
  show ?thesis
  proof (cases "(fallback \<longrightarrow> ?m \<and> pi_subsystem parsed = imageSubsystemEFIApp) \<and> isEFISubsystem (pi_subsystem parsed)")
    case True
    define r0 where "r0 = (new_validation relative fallback)\<lparr> uv_Machine := pi_machine parsed,
       uv_MachineName := uefiMachineName (pi_machine parsed), uv_Subsystem := pi_subsystem parsed,
       uv_SubsystemName := uefiSubsystemName (pi_subsystem parsed), uv_SBAT := pi_sbat parsed \<rparr>"
    define r where "r = (if \<not> fallback \<and> \<not> ?m
       then r0\<lparr>uv_Warnings := uv_Warnings r0 @ [Errorf ''foreign-architecture EFI executable (%s)'' [FE (uv_MachineName r0)]]\<rparr>
       else r0)"
    have "validateUEFIFile decoder bs relative fallback architecture dbx level
        = dbx_check decoder relative bs dbx (sbat_check fallback level r)"
      unfolding validateUEFIFile_def Let_def Inr sum.case r0_def [symmetric] r_def [symmetric] using True app by auto
    moreover have "uv_Error r = None" "\<not> dbx_revoked r" "\<not> uv_SBATRevoked r" "uv_SBAT r = pi_sbat parsed"
      by (simp_all add: r_def r0_def new_validation_def dbx_revoked_def)
    ultimately have r: "validateUEFIFile decoder bs relative fallback architecture dbx level
        = dbx_check decoder relative bs dbx (sbat_check fallback level r)"
      "uv_Error r = None" "\<not> dbx_revoked r" "\<not> uv_SBATRevoked r" "uv_SBAT r = pi_sbat parsed" by blast+
    have s: "uv_Error (sbat_check fallback level r) = None" "\<not> dbx_revoked (sbat_check fallback level r)"
      using r by (simp_all add: dbx_revoked_def)
    show ?thesis
      using True dbx_check_passes [OF s, of decoder relative bs dbx] r
      by (auto simp: passes_def image_clean_def Inr)
  next
    case False
    then show ?thesis
      by (auto simp: validateUEFIFile_def Inr Let_def passes_def image_clean_def new_validation_def)
  qed
qed (simp add: validateUEFIFile_def passes_def image_clean_def Let_def)

text \<open>An image that is refused earlier is never compared with the database.\<close>

lemma early_error_unchecked:
  assumes "\<not> isEFISubsystem (pi_subsystem parsed)" "parseUEFIImage bs = Inr parsed"
  shows "\<not> dbx_revoked (validateUEFIFile decoder bs relative fallback architecture dbx level)"
  using assms by (simp add: validateUEFIFile_def Let_def dbx_revoked_def new_validation_def)

section \<open>When a tree is valid\<close>

definition is_fallback :: "uefiArchitecture \<Rightarrow> uefiMediaFile \<Rightarrow> bool" where
  "is_fallback architecture f \<longleftrightarrow> equal_fold (uf_relative f) (ar_fallbackPath architecture)"

definition file_verdict ::
  "pkcs7_decoder \<Rightarrow> uefiArchitecture \<Rightarrow> UEFIValidationOptions \<Rightarrow> uefiMediaFile \<Rightarrow> UEFIFileValidation" where
  "file_verdict decoder architecture opts f =
     validateUEFIFile decoder (uf_data f) (uf_relative f) (is_fallback architecture f) architecture (vo_DBX opts) (vo_SBATLevel opts)"

definition file_errors :: "UEFIFileValidation \<Rightarrow> string \<Rightarrow> go_error list" where
  "file_errors r relative = (case uv_Error r of None \<Rightarrow> [] | Some e \<Rightarrow> [Errorf ''%s: %s'' [FS relative, FE e]])"

lemma media_file_step:
  "media_file decoder architecture opts f (d, r) =
     (d \<or> dbx_revoked (file_verdict decoder architecture opts f),
      r\<lparr> mv_FallbackFound := mv_FallbackFound r \<or> is_fallback architecture f,
         mv_Revoked := mv_Revoked r \<or> dbx_revoked (file_verdict decoder architecture opts f)
           \<or> uv_SBATRevoked (file_verdict decoder architecture opts f),
         mv_SBATRevoked := mv_SBATRevoked r \<or> uv_SBATRevoked (file_verdict decoder architecture opts f),
         mv_Errors := mv_Errors r @ file_errors (file_verdict decoder architecture opts f) (uf_relative f),
         mv_Files := mv_Files r @ [file_verdict decoder architecture opts f] \<rparr>)"
proof -
  define v where "v = file_verdict decoder architecture opts f"
  have "validateUEFIFile decoder (uf_data f) (uf_relative f) (equal_fold (uf_relative f) (ar_fallbackPath architecture))
      architecture (vo_DBX opts) (vo_SBATLevel opts) = v"
    by (simp add: v_def file_verdict_def is_fallback_def)
  then show ?thesis
    unfolding v_def [symmetric]
    by (cases "uv_Error v") (simp_all add: media_file_def Let_def dbx_revoked_def is_fallback_def file_errors_def)
qed

text \<open>The loop over all files.\<close>

lemma media_files_fold:
  "media_files ctx decoder architecture opts fs (d, r) w = (Inr (d1, r1), w1) \<Longrightarrow>
     let vs = map (file_verdict decoder architecture opts) fs in
     d1 = (d \<or> list_ex dbx_revoked vs)
     \<and> mv_FallbackFound r1 = (mv_FallbackFound r \<or> list_ex (is_fallback architecture) fs)
     \<and> mv_Revoked r1 = (mv_Revoked r \<or> list_ex dbx_revoked vs \<or> list_ex uv_SBATRevoked vs)
     \<and> mv_SBATRevoked r1 = (mv_SBATRevoked r \<or> list_ex uv_SBATRevoked vs)
     \<and> mv_Errors r1 = mv_Errors r
        @ concat (map (\<lambda>f. file_errors (file_verdict decoder architecture opts f) (uf_relative f)) fs)
     \<and> mv_Files r1 = mv_Files r @ vs"
proof (induction fs arbitrary: d r w)
  case (Cons f fs)
  from Cons.prems obtain w2 where "media_files ctx decoder architecture opts fs
      (media_file decoder architecture opts f (d, r)) w2 = (Inr (d1, r1), w1)"
    by (auto split: prod.splits option.splits)
  from Cons.IH [OF this [unfolded media_file_step]] show ?case by (auto simp: Let_def)
qed simp

lemma file_errors_empty: "file_errors r relative = [] \<longleftrightarrow> uv_Error r = None"
  by (simp add: file_errors_def split: option.splits)

lemma add_error_simps [simp]:
  "mv_Errors (add_error c e r) = mv_Errors r @ (if c then [e] else [])"
  "mv_FallbackFound (add_error c e r) = mv_FallbackFound r" "mv_SBATRevoked (add_error c e r) = mv_SBATRevoked r"
  "mv_Revoked (add_error c e r) = mv_Revoked r" "mv_Files (add_error c e r) = mv_Files r"
  by (simp_all add: add_error_def)

lemma media_start_simps [simp]:
  "mv_Errors (media_start resolved architecture opts warnings) = []"
  "mv_FallbackFound (media_start resolved architecture opts warnings) = False"
  "mv_SBATRevoked (media_start resolved architecture opts warnings) = False"
  "mv_Revoked (media_start resolved architecture opts warnings) = False"
  "mv_Files (media_start resolved architecture opts warnings) = []"
  by (simp_all add: media_start_def)

text \<open>What a tree must be to be valid.\<close>

definition tree_clean ::
  "pkcs7_decoder \<Rightarrow> uefiArchitecture \<Rightarrow> UEFIValidationOptions \<Rightarrow> uefiMediaFile list \<Rightarrow> bool" where
  "tree_clean decoder architecture opts fs \<longleftrightarrow> fs \<noteq> []
     \<and> (vo_RequireFallback opts \<longrightarrow> list_ex (is_fallback architecture) fs)
     \<and> list_all (\<lambda>f. image_clean decoder architecture (vo_DBX opts) (vo_SBATLevel opts) (is_fallback architecture f) (uf_data f)) fs"

lemma media_valid:
  assumes "validateUEFIMedia tree decoder ctx root opts w = (Inr r, w1)"
  shows "\<exists>architecture resolved fs warnings w2.
    normalizeUEFIArchitecture (vo_Architecture opts) = Inr architecture
    \<and> tree root (if vo_MaxFiles opts \<le> 0 then 512 else vo_MaxFiles opts) w = (Inr (resolved, fs, warnings), w2)
    \<and> mv_Files r = map (file_verdict decoder architecture opts) fs
    \<and> (mv_Revoked r \<longleftrightarrow> list_ex (\<lambda>v. dbx_revoked v \<or> uv_SBATRevoked v) (mv_Files r))
    \<and> (mv_Valid r \<longleftrightarrow> tree_clean decoder architecture opts fs)"
proof -
  obtain c architecture resolved fs warnings w2 d1 r1 where
    a: "normalizeUEFIArchitecture (vo_Architecture opts) = Inr architecture"
    and t: "tree root (if vo_MaxFiles opts \<le> 0 then 512 else vo_MaxFiles opts) w = (Inr (resolved, fs, warnings), w2)"
    and m: "media_files c decoder architecture opts fs (False, add_error (fs = [])
        (Msg ''media tree contains no EFI executables'') (media_start resolved architecture opts warnings)) w2 = (Inr (d1, r1), w1)"
    and r: "r = media_end architecture opts (d1, r1)"
    using assms by (fastforce simp: validateUEFIMedia_def Let_def result_simps split: option.splits if_splits)
  note f = media_files_fold [OF m, unfolded Let_def, simplified]
  have p: "list_all (\<lambda>f. image_clean decoder architecture (vo_DBX opts) (vo_SBATLevel opts) (is_fallback architecture f) (uf_data f)) fs
      \<longleftrightarrow> list_all (\<lambda>f. passes (file_verdict decoder architecture opts f)) fs"
    by (simp only: file_verdict_def file_passes)
  have e: "concat (map (\<lambda>f. file_errors (file_verdict decoder architecture opts f) (uf_relative f)) fs) = []
      \<longleftrightarrow> list_all (\<lambda>f. uv_Error (file_verdict decoder architecture opts f) = None) fs"
    by (auto simp: file_errors_empty list_all_iff)
  have files: "mv_Files r = map (file_verdict decoder architecture opts) fs"
    using f by (simp add: r media_end_def Let_def)
  have revoked: "mv_Revoked r \<longleftrightarrow> list_ex (\<lambda>v. dbx_revoked v \<or> uv_SBATRevoked v) (mv_Files r)"
    unfolding files using f by (auto simp: r media_end_def Let_def list_ex_iff)
  have "mv_Valid r \<longleftrightarrow> tree_clean decoder architecture opts fs"
    unfolding tree_clean_def p
    using f e by (auto simp: r media_end_def Let_def list_ex_iff list_all_iff passes_def)
  with a t files revoked show ?thesis by blast
qed

section \<open>Parsed updates against a tree\<close>

text \<open>A parsed database answers any reading of its data as signature lists.\<close>

lemma parsed_lists:
  assumes "Parse bs source = Inr db" "list_all list_ok ls" "k < 28"
    "payload_of bs = concat (map list_bytes ls) @ replicate k 0"
  shows "listed ls certSHA256GUID d \<Longrightarrow> length d = 32 \<Longrightarrow> IsSHA256Revoked (Some db) d"
    "listed ls certX509GUID c \<Longrightarrow> c \<noteq> [] \<Longrightarrow> IsX509Revoked (Some db) c"
proof -
  obtain db0 where p: "parseSignatureLists 0 (payload_of bs) db0 = Inr db" and e: "database_ok db0"
    "db_SHA256 db0 = {}" "db_X509Certificates db0 = []"
    using Parse_Inr [OF assms(1)] by blast
  have db: "db = fold add_list ls db0" using p parse_lists_encoded [OF assms(2,3)] by (simp add: assms(4))
  show "listed ls certSHA256GUID d \<Longrightarrow> length d = 32 \<Longrightarrow> IsSHA256Revoked (Some db) d"
    by (simp add: IsSHA256Revoked_def db add_lists_sets)
  have "database_ok db" unfolding db by (rule add_lists_ok [OF e(1)])
  then show "listed ls certX509GUID c \<Longrightarrow> c \<noteq> [] \<Longrightarrow> IsX509Revoked (Some db) c"
    using add_lists_sets(2) [of c ls db0] by (auto simp: IsX509Revoked_def database_ok_def db)
qed

text \<open>What the lists say against an image: its digest, or a certificate in its table.\<close>

definition lists_revoke :: "pkcs7_decoder \<Rightarrow> sig_list list \<Rightarrow> bytes \<Rightarrow> bool" where
  "lists_revoke decoder ls bs \<longleftrightarrow>
     (\<exists>h. AuthenticodeSHA256 bs = Inr h
        \<and> ((\<exists>digest. hex_decode (ph_SHA256 h) = Some digest \<and> listed ls certSHA256GUID digest)
           \<or> (\<exists>certs. embeddedAuthenticodeCertificatesData decoder bs h = Inr certs
                \<and> (\<exists>c \<in> set certs. ct_Raw c \<noteq> [] \<and> listed ls certX509GUID (ct_Raw c)))))"

lemma clean_not_revoked:
  assumes "dbx_clean decoder (Some (Merge (map Some dbs))) bs" "\<And>d. d \<in> set dbs \<Longrightarrow> database_ok d" "db \<in> set dbs"
    and p: "Parse update source = Inr db" "list_all list_ok ls" "k < 28"
      "payload_of update = concat (map list_bytes ls) @ replicate k 0"
  shows "\<not> lists_revoke decoder ls bs"
proof
  note merged = merged_answers(2,3) [of "map Some dbs"]
  assume "lists_revoke decoder ls bs"
  then obtain h where h: "AuthenticodeSHA256 bs = Inr h"
    and l: "(\<exists>digest. hex_decode (ph_SHA256 h) = Some digest \<and> listed ls certSHA256GUID digest)
           \<or> (\<exists>certs. embeddedAuthenticodeCertificatesData decoder bs h = Inr certs
                \<and> (\<exists>c \<in> set certs. ct_Raw c \<noteq> [] \<and> listed ls certX509GUID (ct_Raw c)))"
    by (auto simp: lists_revoke_def)
  obtain digest certs where c: "hex_decode (ph_SHA256 h) = Some digest" "length digest = 32"
    "\<not> IsSHA256Revoked (Some (Merge (map Some dbs))) digest"
    "embeddedAuthenticodeCertificatesData decoder bs h = Inr certs"
    "\<forall>c \<in> set certs. \<not> IsX509Revoked (Some (Merge (map Some dbs))) (ct_Raw c)"
    using assms(1) authenticode_digest [OF h] by (auto simp: dbx_clean_def h list_all_iff)
  have "\<not> IsSHA256Revoked (Some db) digest" using c(3) merged(1) assms(2,3) by auto
  moreover have "\<not> IsX509Revoked (Some db) (ct_Raw c)" if "c \<in> set certs" for c using that c(5) merged(2) assms(2,3) by auto
  ultimately show False using l c(1,2,4) parsed_lists [OF p] by auto
qed

section \<open>Properties\<close>

text \<open>
  C14: A validated tree: every file of the tree is reported, in order; the tree is revoked exactly
  when one of the reports says so; and it is valid exactly when it has executables, the required
  fallback loader is there, and every image parses, has an EFI subsystem (and as a fallback the
  machine and the application subsystem of the architecture), has no component below the level,
  and is not revoked, nor unreadable, under the database.
\<close>

theorem media_valid_iff_clean:
  assumes "validateUEFIMedia tree decoder ctx root opts w = (Inr r, w1)"
  shows "\<exists>architecture resolved fs warnings w2.
    normalizeUEFIArchitecture (vo_Architecture opts) = Inr architecture
    \<and> tree root (if vo_MaxFiles opts \<le> 0 then 512 else vo_MaxFiles opts) w = (Inr (resolved, fs, warnings), w2)
    \<and> mv_Files r = map (file_verdict decoder architecture opts) fs
    \<and> (mv_Revoked r \<longleftrightarrow> list_ex (\<lambda>v. dbx_revoked v \<or> uv_SBATRevoked v) (mv_Files r))
    \<and> (mv_Valid r \<longleftrightarrow> tree_clean decoder architecture opts fs)"
  by (rule media_valid [OF assms])

text \<open>
  C13: A tree that is valid under a merge of databases has no image that an update among them lists:
  however the data of that update reads as signature lists, no file's Authenticode digest is in
  its SHA-256 lists and no certificate embedded in a file is in its X.509 lists.
\<close>

theorem valid_media_is_not_listed:
  assumes "validateUEFIMedia tree decoder ctx root opts w = (Inr r, w1)" "mv_Valid r"
    and "vo_DBX opts = Some (Merge (map Some dbs))" "\<And>d. d \<in> set dbs \<Longrightarrow> database_ok d" "db \<in> set dbs"
    and "Parse update source = Inr db" "list_all list_ok ls" "k < 28"
    and "payload_of update = concat (map list_bytes ls) @ replicate k 0"
  shows "\<exists>resolved fs warnings w2.
    tree root (if vo_MaxFiles opts \<le> 0 then 512 else vo_MaxFiles opts) w = (Inr (resolved, fs, warnings), w2)
    \<and> list_all (\<lambda>f. \<not> lists_revoke decoder ls (uf_data f)) fs"
proof -
  obtain architecture resolved fs warnings w2 where
    t: "tree root (if vo_MaxFiles opts \<le> 0 then 512 else vo_MaxFiles opts) w = (Inr (resolved, fs, warnings), w2)"
    and c: "tree_clean decoder architecture opts fs"
    using media_valid [OF assms(1)] assms(2) by blast
  have "dbx_clean decoder (Some (Merge (map Some dbs))) (uf_data f)" if "f \<in> set fs" for f
    using c that by (auto simp: tree_clean_def image_clean_def list_all_iff assms(3))
  then have "list_all (\<lambda>f. \<not> lists_revoke decoder ls (uf_data f)) fs"
    using clean_not_revoked [OF _ assms(4-9)] by (auto simp: list_all_iff)
  with t show ?thesis by blast
qed

section \<open>Witnesses\<close>

definition boot_image :: bytes where
  "boot_image = put_fields
     [(0, [0x4d, 0x5a]), (60, [64]), (64, [0x50, 0x45]), (68, [0x64, 0xaa]), (70, [1]), (84, [240]),
      (88, [0x0b, 0x02]), (148, [112, 1]), (156, [10]), (196, [16]), (344, [16]), (348, [112, 1])]
     (replicate 384 0)"

definition boot_tree :: "unit media_tree" where
  "boot_tree root n w = (Inr (root, [\<lparr> uf_relative = ''EFI/BOOT/BOOTAA64.EFI'', uf_data = boot_image \<rparr>], []), w)"

definition boot_options :: "Database option \<Rightarrow> UEFIValidationOptions" where
  "boot_options dbx = \<lparr> vo_Architecture = [], vo_MaxFiles = 0, vo_DBX = dbx, vo_SBATLevel = None, vo_RequireFallback = True \<rparr>"

definition arm64_architecture :: uefiArchitecture where
  "arm64_architecture = \<lparr> ar_name = ''arm64'', ar_fallbackPath = ''EFI/BOOT/BOOTAA64.EFI'', ar_machines = [imageFileMachineARM64] \<rparr>"

definition sample_certificates :: sig_list where
  "sample_certificates = \<lparr> sl_Type = certX509GUID, sl_Header = [], sl_Size = 19, sl_Entries = [(certPKCS7GUID, [1, 2, 3])] \<rparr>"

lemma boot_parsed: "parseUEFIImage boot_image = Inr \<lparr> pi_machine = 0xaa64, pi_subsystem = 10, pi_sbat = [] \<rparr>"
  by code_simp

lemma boot_hashed: "\<exists>h. AuthenticodeSHA256 boot_image = Inr h \<and> ph_CertificateTableSize h = 0"
proof -
  have "(case pe_layout_of boot_image of Inr l \<Rightarrow> pl_certificateSize l = 0 \<and> is_ok (authenticode_preimage boot_image l) | Inl _ \<Rightarrow> False)"
    by code_simp
  then show ?thesis by (auto simp: AuthenticodeSHA256_def bindE_def is_ok_iff split: sum.splits)
qed

lemma boot_architecture: "normalizeUEFIArchitecture [] = Inr arm64_architecture"
  by (simp add: normalizeUEFIArchitecture_def arm64_architecture_def)

lemma boot_run: "\<exists>r. validateUEFIMedia boot_tree decoder (Some (\<lambda>w. (None, w))) ''/m'' (boot_options dbx) () = (Inr r, ())"
  by (simp add: validateUEFIMedia_def boot_options_def boot_architecture bind_act_def pure_act_def wrap_act_def boot_tree_def Let_def)

lemma boot_valid:
  assumes "validateUEFIMedia boot_tree decoder (Some (\<lambda>w. (None, w))) ''/m'' (boot_options dbx) () = (Inr r, ())"
    "dbx \<noteq> None \<Longrightarrow> dbx_clean decoder dbx boot_image"
  shows "mv_Valid r"
proof -
  have "image_clean decoder arm64_architecture dbx None True boot_image"
    using assms(2) by (simp add: image_clean_def boot_parsed arm64_architecture_def imageFileMachineARM64_def
      imageSubsystemEFIApp_def imageSubsystemEFIROM_def isEFISubsystem_def Revocations_def)
  then have "tree_clean decoder arm64_architecture (boot_options dbx)
      [\<lparr> uf_relative = ''EFI/BOOT/BOOTAA64.EFI'', uf_data = boot_image \<rparr>]"
    by (simp add: tree_clean_def boot_options_def is_fallback_def arm64_architecture_def equal_fold_def)
  with media_valid [OF assms(1)] show ?thesis
    by (auto simp: boot_tree_def boot_options_def boot_architecture)
qed

theorem media_valid_iff_clean_witness:
  "\<exists>r fs. validateUEFIMedia boot_tree (\<lambda>_. Inr []) (Some (\<lambda>w. (None, w))) ''/m'' (boot_options None) () = (Inr r, ())
     \<and> mv_Valid r \<and> tree_clean (\<lambda>_. Inr []) arm64_architecture (boot_options None) fs"
proof -
  obtain r where r: "validateUEFIMedia boot_tree (\<lambda>_. Inr []) (Some (\<lambda>w. (None, w))) ''/m'' (boot_options None) () = (Inr r, ())"
    using boot_run by blast
  have "mv_Valid r" by (rule boot_valid [OF r]) simp
  then show ?thesis using r media_valid_iff_clean [OF r] by (auto simp: boot_options_def boot_architecture)
qed

lemma sample_certificates_parsed:
  "list_ok sample_certificates" "payload_of (list_bytes sample_certificates) = list_bytes sample_certificates"
  "\<exists>db. Parse (list_bytes sample_certificates) ''dbx'' = Inr db \<and> db_SHA256 db = {}"
proof -
  show ok: "list_ok sample_certificates"
    by (simp add: list_ok_def sample_certificates_def guid_ok_def certX509GUID_def certPKCS7GUID_def list_length_def)
  have len: "length (list_bytes sample_certificates) = 47"
    by (simp add: length_list_bytes [OF ok]) (simp add: list_length_def sample_certificates_def)
  have t: "take 16 (list_bytes sample_certificates) = guid_bytes certX509GUID"
    using list_fields(1) [OF ok, of "[]"] by (simp add: field_def sample_certificates_def)
  have g: "guid_bytes certX509GUID = [0xa1, 0x59, 0xc0, 0xa5, 0xe4, 0x94, 0xa7, 0x4a, 0x87, 0xb5, 0xab, 0x15, 0x5c, 0x2b, 0xf0, 0x72]"
    by (simp add: guid_bytes_def certX509GUID_def put_u32_bytes put_u16_bytes)
  have a: "authenticated_end (list_bytes sample_certificates) = None"
    by (simp add: authenticated_end_def t g parseEFITime_def)
  then show "payload_of (list_bytes sample_certificates) = list_bytes sample_certificates" by (simp add: payload_of_def)
  have p: "parseSignatureLists 0 (list_bytes sample_certificates) db = Inr (add_list sample_certificates db)" for db
    using parse_lists_encoded [of "[sample_certificates]" 0 0 db] ok by simp
  have c: "db_SignatureCount (add_list sample_certificates db) = Suc (db_SignatureCount db)"
    "db_SHA256 (add_list sample_certificates db) = db_SHA256 db" for db
    by (simp_all add: add_list_def sample_certificates_def add_signature_def Let_def)
  show "\<exists>db. Parse (list_bytes sample_certificates) ''dbx'' = Inr db \<and> db_SHA256 db = {}"
    by (simp add: Parse_def len a p c) (simp add: empty_database_def)
qed

theorem valid_media_is_not_listed_witness:
  "\<exists>db r. Parse (list_bytes sample_certificates) ''dbx'' = Inr db
     \<and> validateUEFIMedia boot_tree (\<lambda>_. Inr []) (Some (\<lambda>w. (None, w))) ''/m'' (boot_options (Some (Merge [Some db]))) () = (Inr r, ())
     \<and> mv_Valid r \<and> \<not> lists_revoke (\<lambda>_. Inr []) [sample_certificates] boot_image"
proof -
  obtain db where db: "Parse (list_bytes sample_certificates) ''dbx'' = Inr db" "db_SHA256 db = {}"
    using sample_certificates_parsed(3) by blast
  have ok: "database_ok d" if "d \<in> set [db]" for d using that parsed_answers(1) [OF db(1)] by simp
  let ?opts = "boot_options (Some (Merge (map Some [db])))"
  obtain r where r: "validateUEFIMedia boot_tree (\<lambda>_. Inr []) (Some (\<lambda>w. (None, w))) ''/m'' ?opts () = (Inr r, ())"
    using boot_run by blast
  obtain h where h: "AuthenticodeSHA256 boot_image = Inr h" "ph_CertificateTableSize h = 0" using boot_hashed by blast
  have "\<not> IsSHA256Revoked (Some (Merge (map Some [db]))) d" for d
    using merged_answers(2) [of "map Some [db]" d] ok db(2) by (simp add: IsSHA256Revoked_def)
  then have "dbx_clean (\<lambda>_. Inr []) (Some (Merge (map Some [db]))) boot_image"
    using authenticode_digest [OF h(1)] h by (auto simp: dbx_clean_def embeddedAuthenticodeCertificatesData_def)
  then have v: "mv_Valid r" by (intro boot_valid [OF r])
  have o: "vo_DBX ?opts = Some (Merge (map Some [db]))" by (simp add: boot_options_def)
  have m: "db \<in> set [db]" by simp
  have l: "list_all list_ok [sample_certificates]" using sample_certificates_parsed(1) by simp
  have p: "payload_of (list_bytes sample_certificates) = concat (map list_bytes [sample_certificates]) @ replicate 0 0"
    using sample_certificates_parsed(2) by simp
  from valid_media_is_not_listed [OF r v o ok m db(1) l _ p] have "\<not> lists_revoke (\<lambda>_. Inr []) [sample_certificates] boot_image"
    by (auto simp: boot_tree_def)
  with db(1) r v show ?thesis by auto
qed

end
