(* ===== verification/SecureTree.thy ===== *)
theory SecureTree
  imports SecureMedia
begin

text \<open>
  \<open>internal/secureboot/uefi_descriptor_linux.go\<close>: the bounded traversal of a media tree that
  opens every EFI executable without following links. The system calls are the environment; the
  loop that reads a directory ends only if the system reports its end, so it is a partial function
  (None: it does not return), and the recursion over directories is total.
\<close>

unbundle bit_operations_syntax

section \<open>Files and their identities\<close>

record uefiFileIdentity =
  ui_device :: u64
  ui_inode :: u64
  ui_mode :: u32
  ui_size :: int
  ui_modifiedNS :: int
  ui_changedNS :: int

text \<open>An \<open>os.FileInfo\<close>: the mode, the size and the \<open>Stat_t\<close> behind it, if it has one.\<close>

record file_info =
  in_Mode :: u32
  in_Size :: int
  in_Stat :: "uefiFileIdentity option"

definition file_type :: "u32 \<Rightarrow> u32" where "file_type mode = mode AND 0xF000"

definition is_symlink :: "file_info \<Rightarrow> bool" where "is_symlink i \<longleftrightarrow> file_type (in_Mode i) = 0xA000"
definition is_dir :: "file_info \<Rightarrow> bool" where "is_dir i \<longleftrightarrow> file_type (in_Mode i) = 0x4000"

definition is_regular :: "file_info \<Rightarrow> bool" where
  "is_regular i \<longleftrightarrow> file_type (in_Mode i) \<notin> {0x6000, 0x2000, 0x4000, 0x1000, 0xA000, 0xC000}"

definition uefiIdentityFromInfo :: "file_info \<Rightarrow> uefiFileIdentity res" where
  "uefiIdentityFromInfo i =
     (case in_Stat i of None \<Rightarrow> Inl (Msg ''UEFI path has unsupported filesystem metadata'') | Some s \<Rightarrow> Inr s)"

definition sameUEFIKernelObject :: "uefiFileIdentity \<Rightarrow> uefiFileIdentity \<Rightarrow> bool" where
  "sameUEFIKernelObject left right \<longleftrightarrow> ui_device left = ui_device right \<and> ui_inode left = ui_inode right
     \<and> file_type (ui_mode left) = file_type (ui_mode right)"

definition sameStableUEFIFile :: "uefiFileIdentity \<Rightarrow> uefiFileIdentity \<Rightarrow> bool" where
  "sameStableUEFIFile left right \<longleftrightarrow> sameUEFIKernelObject left right \<and> ui_size left = ui_size right
     \<and> ui_modifiedNS left = ui_modifiedNS right \<and> ui_changedNS left = ui_changedNS right"

text \<open>
  The calls: path resolution, \<open>Lstat\<close>, opening the root, opening an entry of a directory (the flag
  asks for a directory), and the operations on a descriptor. An open file is its descriptor and name.
\<close>

record 'w media_fs =
  mf_Abs :: "string \<Rightarrow> ('w, string) act"
  mf_EvalSymlinks :: "string \<Rightarrow> ('w, string) act"
  mf_Lstat :: "string \<Rightarrow> ('w, file_info) act"
  mf_Open :: "string \<Rightarrow> ('w, nat) act"
  mf_Openat :: "nat \<Rightarrow> string \<Rightarrow> bool \<Rightarrow> ('w, nat) act"
  mf_ReadDir :: "nat \<Rightarrow> nat \<Rightarrow> 'w \<Rightarrow> (string list \<times> go_error option) \<times> 'w"
  mf_Fstat :: "nat \<Rightarrow> ('w, file_info) act"
  mf_ReadAll :: "nat \<Rightarrow> nat \<Rightarrow> ('w, bytes) act"
  mf_Close :: "nat \<Rightarrow> 'w poll"

record open_file =
  op_fd :: nat
  op_Name :: string

type_synonym 'w traversal_hook = "(string \<Rightarrow> string \<Rightarrow> 'w \<Rightarrow> 'w) option"

definition run_hook :: "'w traversal_hook \<Rightarrow> string \<Rightarrow> string \<Rightarrow> 'w \<Rightarrow> 'w" where
  "run_hook hook stage relative w = (case hook of None \<Rightarrow> w | Some f \<Rightarrow> f stage relative w)"

definition uefiIdentityFromOpenFile :: "'w media_fs \<Rightarrow> nat \<Rightarrow> ('w, uefiFileIdentity) act" where
  "uefiIdentityFromOpenFile fs fd = bind_act (mf_Fstat fs fd) (\<lambda>i. pure_act (uefiIdentityFromInfo i))"

text \<open>\<open>filepath.Join\<close> of two elements.\<close>

definition path_join :: "string \<Rightarrow> string \<Rightarrow> string" where
  "path_join a b = (if a = [] then if b = [] then [] else clean_path b else clean_path (a @ ''/'' @ b))"

text \<open>\<open>filepath.Ext\<close> of a name without slashes.\<close>

definition file_ext :: "string \<Rightarrow> string" where
  "file_ext name = (if CHR ''.'' \<in> set name then CHR ''.'' # rev (takeWhile (\<lambda>c. c \<noteq> CHR ''.'') (rev name)) else [])"

section \<open>Limits\<close>

record uefiTraversalLimits =
  lm_maxFiles :: int
  lm_maxEntries :: int
  lm_maxDepth :: int
  lm_maxTotalBytes :: int
  lm_entries :: int
  lm_totalBytes :: int

definition newUEFITraversalLimits :: "int \<Rightarrow> uefiTraversalLimits" where
  "newUEFITraversalLimits maxFiles = \<lparr> lm_maxFiles = maxFiles, lm_maxEntries = 32768, lm_maxDepth = 64,
     lm_maxTotalBytes = 536870912, lm_entries = 0, lm_totalBytes = 0 \<rparr>"

definition validate_limits :: "uefiTraversalLimits \<Rightarrow> unit res" where
  "validate_limits l =
     (if lm_maxFiles l \<le> 0 \<or> 4096 < lm_maxFiles l
      then Inl (Errorf ''UEFI executable limit must be between 1 and %d'' [FN 4096])
      else if lm_maxEntries l \<le> 0 \<or> 32768 < lm_maxEntries l
      then Inl (Errorf ''UEFI total-entry limit must be between 1 and %d'' [FN 32768])
      else if lm_maxDepth l \<le> 0 \<or> 64 < lm_maxDepth l
      then Inl (Errorf ''UEFI directory-depth limit must be between 1 and %d'' [FN 64])
      else if lm_maxTotalBytes l \<le> 0 \<or> 536870912 < lm_maxTotalBytes l
      then Inl (Errorf ''UEFI aggregate-byte limit must be between 1 and %d'' [FN 536870912])
      else if lm_entries l \<noteq> 0 \<or> lm_totalBytes l \<noteq> 0 then Inl (Msg ''UEFI traversal limits were already used'')
      else Inr ())"

section \<open>Reading a directory\<close>

text \<open>One batch of entries, counted against the limit; the pair is the counter and the entries.\<close>

fun add_batch :: "uefiTraversalLimits \<Rightarrow> string list \<Rightarrow> int \<times> string list \<Rightarrow> (int \<times> string list) res" where
  "add_batch l [] st = Inr st"
| "add_batch l (entry # batch) (entries, names) =
     (if lm_maxEntries l \<le> entries
      then Inl (Errorf ''more than %d total entries found; refusing an unbounded UEFI media scan'' [FN (nat (lm_maxEntries l))])
      else add_batch l batch (entries + 1, names @ [entry]))"

partial_function (option) readBoundedUEFIDirectory ::
  "'w poll \<Rightarrow> 'w media_fs \<Rightarrow> uefiTraversalLimits \<Rightarrow> nat \<Rightarrow> string \<Rightarrow> int \<times> string list \<Rightarrow> 'w
     \<Rightarrow> ((int \<times> string list) res \<times> 'w) option" where
  "readBoundedUEFIDirectory ctx fs l fd prefix st w =
     (case ctx w of
        (Some e, w1) \<Rightarrow> Some (Inl e, w1)
      | (None, w1) \<Rightarrow>
          (case mf_ReadDir fs fd 256 w1 of
             ((batch, readErr), w2) \<Rightarrow>
               (case add_batch l batch st of
                  Inl e \<Rightarrow> Some (Inl e, w2)
                | Inr st1 \<Rightarrow>
                    (case readErr of
                       None \<Rightarrow> readBoundedUEFIDirectory ctx fs l fd prefix st1 w2
                     | Some e \<Rightarrow>
                         if errors_is e EOF then Some (Inr (fst st1, sort_by (<) (snd st1)), w2)
                         else Some (Inl (Errorf ''read UEFI directory %q: %w'' [FS prefix, FE e]), w2)))))"

section \<open>Opening and reading an entry\<close>

definition close_on_error :: "'w media_fs \<Rightarrow> nat \<Rightarrow> ('w, 'a) act \<Rightarrow> ('w, 'a) act" where
  "close_on_error fs fd m w = (case m w of (Inl e, w1) \<Rightarrow> (Inl e, snd (mf_Close fs fd w1)) | (Inr x, w1) \<Rightarrow> (Inr x, w1))"

text \<open>A descriptor is not negative, so \<open>os.NewFile\<close> does not return nil.\<close>

definition openUEFIEntry :: "'w media_fs \<Rightarrow> open_file \<Rightarrow> string \<Rightarrow> file_info \<Rightarrow> bool \<Rightarrow> ('w, open_file) act" where
  "openUEFIEntry fs parent name expectedInfo directory =
     bind_act (pure_act (uefiIdentityFromInfo expectedInfo)) (\<lambda>expected.
     bind_act (wrap_act (\<lambda>e. Errorf ''open without following links: %w'' [FE e]) (mf_Openat fs (op_fd parent) name directory)) (\<lambda>fd.
     close_on_error fs fd
       (bind_act (uefiIdentityFromOpenFile fs fd) (\<lambda>actual.
        pure_act
          (if \<not> sameUEFIKernelObject expected actual then Inl (Msg ''entry changed during validation'')
           else if directory \<and> file_type (ui_mode actual) \<noteq> 0x4000 then Inl (Msg ''entry is no longer a directory'')
           else if \<not> directory \<and> file_type (ui_mode actual) \<noteq> 0x8000 then Inl (Msg ''entry is no longer a regular file'')
           else Inr \<lparr> op_fd = fd, op_Name = path_join (op_Name parent) name \<rparr>)))))"

definition maximumUEFIFileSize :: nat where "maximumUEFIFileSize = 268435456"

definition readStableUEFIFile :: "'w media_fs \<Rightarrow> nat \<Rightarrow> ('w, bytes) act" where
  "readStableUEFIFile fs fd =
     bind_act (uefiIdentityFromOpenFile fs fd) (\<lambda>before.
     if file_type (ui_mode before) \<noteq> 0x8000 \<or> ui_size before \<le> 0 \<or> int maximumUEFIFileSize < ui_size before
     then pure_act (Inl (Errorf ''EFI executable must be a non-empty regular file no larger than %d bytes'' [FN maximumUEFIFileSize]))
     else
     bind_act (mf_ReadAll fs fd (maximumUEFIFileSize + 1)) (\<lambda>d.
     bind_act (uefiIdentityFromOpenFile fs fd) (\<lambda>after.
     pure_act (if \<not> sameStableUEFIFile before after \<or> int (length d) \<noteq> ui_size before
               then Inl (Msg ''EFI executable changed while it was being read'') else Inr d))))"

section \<open>The walk\<close>

record walk_state =
  ws_entries :: int
  ws_totalBytes :: int
  ws_files :: "uefiMediaFile list"
  ws_warnings :: "string list"

text \<open>A regular file whose name ends in \<open>.efi\<close>.\<close>

definition walk_file ::
  "'w media_fs \<Rightarrow> 'w traversal_hook \<Rightarrow> uefiTraversalLimits \<Rightarrow> open_file \<Rightarrow> string \<Rightarrow> string \<Rightarrow> file_info
     \<Rightarrow> walk_state \<Rightarrow> ('w, walk_state) act" where
  "walk_file fs hook l directory name relative entryInfo st w =
     (if lm_maxFiles l \<le> int (length (ws_files st))
      then (Inl (Errorf ''more than %d EFI executables found; refusing an unbounded scan'' [FN (nat (lm_maxFiles l))]), w)
      else
      let remaining = lm_maxTotalBytes l - ws_totalBytes st;
          exceeded = Errorf ''EFI executable bytes exceed the %d-byte aggregate safety limit at %s''
                       [FN (nat (lm_maxTotalBytes l)), FS relative] in
      if in_Size entryInfo < 0 \<or> remaining < in_Size entryInfo then (Inl exceeded, w)
      else
      (case openUEFIEntry fs directory name entryInfo False (run_hook hook ''entry-before-open'' relative w) of
         (Inl e, w1) \<Rightarrow> (Inl (Errorf ''open EFI executable %s: %w'' [FS relative, FE e]), w1)
       | (Inr file, w1) \<Rightarrow>
           (case readStableUEFIFile fs (op_fd file) w1 of
              (r, w2) \<Rightarrow>
                (case mf_Close fs (op_fd file) w2 of
                   (closeErr, w3) \<Rightarrow>
                     (case r of
                        Inl e \<Rightarrow> (Inl (Errorf ''read EFI executable %s: %w'' [FS relative, FE e]), w3)
                      | Inr d \<Rightarrow>
                          (case closeErr of
                             Some e \<Rightarrow> (Inl (Errorf ''close EFI executable %s: %w'' [FS relative, FE e]), w3)
                           | None \<Rightarrow>
                               if remaining < int (length d) then (Inl exceeded, w3)
                               else (Inr (st\<lparr> ws_totalBytes := ws_totalBytes st + int (length d),
                                      ws_files := ws_files st @ [\<lparr> uf_relative = relative, uf_data = d \<rparr>] \<rparr>), w3)))))))"

definition add_warning :: "string \<Rightarrow> walk_state \<Rightarrow> walk_state" where
  "add_warning t st = st\<lparr>ws_warnings := ws_warnings st @ [t]\<rparr>"

function walkUEFIDirectory ::
  "'w poll \<Rightarrow> 'w media_fs \<Rightarrow> 'w traversal_hook \<Rightarrow> uefiTraversalLimits \<Rightarrow> open_file \<Rightarrow> string \<Rightarrow> nat \<Rightarrow> walk_state \<Rightarrow> 'w
     \<Rightarrow> (walk_state res \<times> 'w) option"
and walk_entries ::
  "'w poll \<Rightarrow> 'w media_fs \<Rightarrow> 'w traversal_hook \<Rightarrow> uefiTraversalLimits \<Rightarrow> open_file \<Rightarrow> string \<Rightarrow> nat \<Rightarrow> string list
     \<Rightarrow> walk_state \<Rightarrow> 'w \<Rightarrow> (walk_state res \<times> 'w) option" where
  "walkUEFIDirectory ctx fs hook l directory prefix depth st w =
     (case ctx w of
        (Some e, w1) \<Rightarrow> Some (Inl e, w1)
      | (None, w1) \<Rightarrow>
          (case readBoundedUEFIDirectory ctx fs l (op_fd directory) prefix (ws_entries st, []) w1 of
             None \<Rightarrow> None
           | Some (Inl e, w2) \<Rightarrow> Some (Inl e, w2)
           | Some (Inr (entries, names), w2) \<Rightarrow>
               walk_entries ctx fs hook l directory prefix depth names (st\<lparr>ws_entries := entries\<rparr>) w2))"
| "walk_entries ctx fs hook l directory prefix depth [] st w = Some (Inr st, w)"
| "walk_entries ctx fs hook l directory prefix depth (name # names) st w =
     (case ctx w of
        (Some e, w1) \<Rightarrow> Some (Inl e, w1)
      | (None, w1) \<Rightarrow>
          if name = [] \<or> name = ''.'' \<or> name = ''..'' \<or> CHR ''/'' \<in> set name
          then Some (Inl (Errorf ''unsafe UEFI directory entry name %q'' [FS name]), w1)
          else
          let relative = path_join prefix name in
          (case mf_Lstat fs (path_join (op_Name directory) name) w1 of
             (Inl e, w2) \<Rightarrow> Some (Inl (Errorf ''stat UEFI entry %s: %w'' [FS relative, FE e]), w2)
           | (Inr entryInfo, w2) \<Rightarrow>
               if is_symlink entryInfo
               then walk_entries ctx fs hook l directory prefix depth names
                      (add_warning (''ignored symbolic link '' @ relative) st) w2
               else if is_dir entryInfo
               then
                 if lm_maxDepth l \<le> int depth
                 then Some (Inl (Errorf ''UEFI media tree exceeds the %d-level directory-depth safety limit at %s''
                        [FN (nat (lm_maxDepth l)), FS relative]), w2)
                 else
                 (case openUEFIEntry fs directory name entryInfo True (run_hook hook ''entry-before-open'' relative w2) of
                    (Inl e, w3) \<Rightarrow> Some (Inl (Errorf ''open UEFI directory %s: %w'' [FS relative, FE e]), w3)
                  | (Inr child, w3) \<Rightarrow>
                      (case walkUEFIDirectory ctx fs hook l child relative (Suc depth) st w3 of
                         None \<Rightarrow> None
                       | Some (r, w4) \<Rightarrow>
                           (case mf_Close fs (op_fd child) w4 of
                              (closeErr, w5) \<Rightarrow>
                                (case r of
                                   Inl e \<Rightarrow> Some (Inl e, w5)
                                 | Inr st1 \<Rightarrow>
                                     (case closeErr of
                                        Some e \<Rightarrow> Some (Inl (Errorf ''close UEFI directory %s: %w'' [FS relative, FE e]), w5)
                                      | None \<Rightarrow> walk_entries ctx fs hook l directory prefix depth names st1 w5)))))
               else if \<not> equal_fold (file_ext name) ''.efi''
               then walk_entries ctx fs hook l directory prefix depth names st w2
               else if \<not> is_regular entryInfo
               then walk_entries ctx fs hook l directory prefix depth names
                      (add_warning (''ignored non-regular EFI path '' @ relative) st) w2
               else
               (case walk_file fs hook l directory name relative entryInfo st w2 of
                  (Inl e, w3) \<Rightarrow> Some (Inl e, w3)
                | (Inr st1, w3) \<Rightarrow> walk_entries ctx fs hook l directory prefix depth names st1 w3)))"
  by pat_completeness auto

termination
  by (relation "inv_image (less_than <*lex*> less_than <*lex*> less_than)
      (\<lambda>p. case p of Inl (ctx, fs, hook, l, directory, prefix, depth, st, w) \<Rightarrow> (nat (lm_maxDepth l - int depth), 1, 0)
         | Inr (ctx, fs, hook, l, directory, prefix, depth, names, st, w) \<Rightarrow> (nat (lm_maxDepth l - int depth), 0, length names))")
    auto

declare walkUEFIDirectory.simps [simp del] walk_entries.simps [simp del]

section \<open>The tree\<close>

definition openUEFIMediaTreeWithLimits ::
  "'w poll \<Rightarrow> 'w media_fs \<Rightarrow> 'w traversal_hook \<Rightarrow> uefiTraversalLimits \<Rightarrow> string \<Rightarrow> 'w
     \<Rightarrow> ((string \<times> uefiMediaFile list \<times> string list) res \<times> 'w) option" where
  "openUEFIMediaTreeWithLimits ctx fs hook l root w =
     (if trim_space root = [] then Some (Inl (Msg ''UEFI media root is required''), w)
      else
      case bind_act (pure_act (validate_limits l)) (\<lambda>_.
           bind_act (wrap_act (\<lambda>e. Errorf ''make UEFI media root absolute: %w'' [FE e]) (mf_Abs fs root)) (\<lambda>absolute.
           bind_act (wrap_act (\<lambda>e. Errorf ''resolve UEFI media root: %w'' [FE e]) (mf_EvalSymlinks fs absolute)) (\<lambda>resolved.
           bind_act (wrap_act (\<lambda>e. Errorf ''stat UEFI media root: %w'' [FE e]) (mf_Lstat fs resolved)) (\<lambda>expectedInfo.
           if \<not> is_dir expectedInfo then pure_act (Inl (Msg ''UEFI media root is not a directory''))
           else
           bind_act (wrap_act (\<lambda>e. Errorf ''identify UEFI media root: %w'' [FE e]) (pure_act (uefiIdentityFromInfo expectedInfo))) (\<lambda>expected w.
           bind_act (wrap_act (\<lambda>e. Errorf ''open UEFI media root without following links: %w'' [FE e]) (mf_Open fs resolved)) (\<lambda>fd.
           pure_act (Inr (resolved, expected, fd))) (run_hook hook ''root-before-open'' [] w)))))) w of
        (Inl e, w1) \<Rightarrow> Some (Inl e, w1)
      | (Inr (resolved, expected, fd), w1) \<Rightarrow>
          (case wrap_act (\<lambda>e. Errorf ''identify open UEFI media root: %w'' [FE e]) (uefiIdentityFromOpenFile fs fd) w1 of
             (Inl e, w2) \<Rightarrow> Some (Inl e, snd (mf_Close fs fd w2))
           | (Inr actual, w2) \<Rightarrow>
               if \<not> sameUEFIKernelObject expected actual
               then Some (Inl (Msg ''UEFI media root changed during validation''), snd (mf_Close fs fd w2))
               else
               (case walkUEFIDirectory ctx fs hook l \<lparr> op_fd = fd, op_Name = resolved \<rparr> [] 0
                       \<lparr> ws_entries = lm_entries l, ws_totalBytes = lm_totalBytes l, ws_files = [], ws_warnings = [] \<rparr> w2 of
                  None \<Rightarrow> None
                | Some (Inl e, w3) \<Rightarrow> Some (Inl e, snd (mf_Close fs fd w3))
                | Some (Inr st, w3) \<Rightarrow>
                    Some (Inr (resolved, sort_by (\<lambda>a b. uf_relative a < uf_relative b) (ws_files st), ws_warnings st),
                      snd (mf_Close fs fd w3)))))"

definition openUEFIMediaTree ::
  "'w poll \<Rightarrow> 'w media_fs \<Rightarrow> 'w traversal_hook \<Rightarrow> string \<Rightarrow> int \<Rightarrow> 'w
     \<Rightarrow> ((string \<times> uefiMediaFile list \<times> string list) res \<times> 'w) option" where
  "openUEFIMediaTree ctx fs hook root maxFiles = openUEFIMediaTreeWithLimits ctx fs hook (newUEFITraversalLimits maxFiles) root"

section \<open>Reading a directory ends\<close>

lemma add_batch_state: "add_batch l b st = Inr st1 \<Longrightarrow>
  fst st1 = fst st + int (length b) \<and> snd st1 = snd st @ b \<and> (b \<noteq> [] \<longrightarrow> fst st1 \<le> lm_maxEntries l)"
proof (induction l b st rule: add_batch.induct)
  case (2 l entry batch entries names)
  then show ?case by (cases batch) (auto split: if_splits)
qed simp

lemma read_directory_entries_aux:
  "readBoundedUEFIDirectory ctx fs l fd prefix st w = Some y \<Longrightarrow> fst st \<le> lm_maxEntries l \<Longrightarrow>
     fst y = Inr p \<Longrightarrow> fst st \<le> fst p \<and> fst p \<le> lm_maxEntries l"
proof (induction rule: readBoundedUEFIDirectory.raw_induct [rotated, consumes 1, case_names step])
  case (step rec ctx fs l fd prefix st w y)
  obtain e w1 where c: "ctx w = (e, w1)" by (cases "ctx w")
  obtain batch readErr w2 where r: "mf_ReadDir fs fd 256 w1 = ((batch, readErr), w2)" by (metis surj_pair)
  from step(2,4) c have e: "e = None" by (auto split: option.splits)
  from step(2,4) c e r obtain st1 where b: "add_batch l batch st = Inr st1" by (auto split: sum.splits)
  have le: "fst st \<le> fst st1" "fst st1 \<le> lm_maxEntries l"
    using add_batch_state [OF b] step(3) by (cases "batch = []"; simp)+
  show ?case
  proof (cases readErr)
    case None
    with step(2) c e r b have "rec ctx fs l fd prefix st1 w2 = Some y" by simp
    from step(1) [OF this le(2) step(4)] le(1) show ?thesis by linarith
  next
    case (Some er)
    with step(2,4) c e r b le show ?thesis by (auto split: if_splits)
  qed
qed

lemma read_directory_entries:
  "readBoundedUEFIDirectory ctx fs l fd prefix st w = Some (Inr (n, names), w1) \<Longrightarrow>
     fst st \<le> lm_maxEntries l \<Longrightarrow> fst st \<le> n \<and> n \<le> lm_maxEntries l"
  using read_directory_entries_aux [of ctx fs l fd prefix st w "(Inr (n, names), w1)" "(n, names)"] by simp

text \<open>The documented behaviour of \<open>ReadDir\<close>: an empty batch comes with an error.\<close>

definition reads_progress :: "'w media_fs \<Rightarrow> bool" where
  "reads_progress fs \<longleftrightarrow> (\<forall>fd w. fst (mf_ReadDir fs fd 256 w) \<noteq> ([], None))"

lemma read_directory_returns:
  assumes "reads_progress fs"
  shows "readBoundedUEFIDirectory ctx fs l fd prefix st w \<noteq> None"
proof (induction "nat (lm_maxEntries l - fst st)" arbitrary: st w rule: less_induct)
  case less
  show ?case
  proof (cases "\<exists>w1 batch w2 st1. ctx w = (None, w1) \<and> mf_ReadDir fs fd 256 w1 = ((batch, None), w2) \<and> add_batch l batch st = Inr st1")
    case True
    then obtain w1 batch w2 st1 where c: "ctx w = (None, w1)" "mf_ReadDir fs fd 256 w1 = ((batch, None), w2)"
      "add_batch l batch st = Inr st1" by blast
    have "fst (mf_ReadDir fs fd 256 w1) \<noteq> ([], None)" using assms by (simp add: reads_progress_def)
    with c(2) have "batch \<noteq> []" by auto
    then have "0 < length batch" by simp
    with add_batch_state [OF c(3)] \<open>batch \<noteq> []\<close>
    have "nat (lm_maxEntries l - fst st1) < nat (lm_maxEntries l - fst st)" by linarith
    from less [OF this] c show ?thesis by (subst readBoundedUEFIDirectory.simps) simp
  next
    case False
    then show ?thesis
      by (subst readBoundedUEFIDirectory.simps) (auto split: prod.splits option.splits sum.splits)
  qed
qed

lemma walk_step_returns:
  assumes "\<And>st2 w2. walk_entries ctx fs hook l directory prefix depth names st2 w2 \<noteq> None"
    and "\<And>child relative w2. int depth < lm_maxDepth l \<Longrightarrow>
      walkUEFIDirectory ctx fs hook l child relative (Suc depth) st w2 \<noteq> None"
  shows "walk_entries ctx fs hook l directory prefix depth (name # names) st w \<noteq> None"
proof -
  let ?relative = "path_join prefix name"
  obtain e w2 where c: "ctx w = (e, w2)" by (cases "ctx w")
  obtain r w3 where l: "mf_Lstat fs (path_join (op_Name directory) name) w2 = (r, w3)"
    by (cases "mf_Lstat fs (path_join (op_Name directory) name) w2")
  note u = walk_entries.simps c l Let_def
  consider (early) "e \<noteq> None \<or> (name = [] \<or> name = ''.'' \<or> name = ''..'' \<or> CHR ''/'' \<in> set name) \<or> (\<exists>er. r = Inl er)"
    | (late) info where "e = None" "\<not> (name = [] \<or> name = ''.'' \<or> name = ''..'' \<or> CHR ''/'' \<in> set name)" "r = Inr info"
    by (cases r) auto
  then show ?thesis
  proof cases
    case early
    then show ?thesis by (cases e) (auto simp: u split: sum.split)
  next
    case (late info)
    note u = u late if_not_P [OF late(2)] assms(1)
    consider (link) "is_symlink info" | (dir) "\<not> is_symlink info" "is_dir info"
      | (other) "\<not> is_symlink info" "\<not> is_dir info" by blast
    then show ?thesis
    proof cases
      case link
      then show ?thesis by (simp add: u del: not_None_eq)
    next
      case dir
      obtain r1 w4 where o1: "openUEFIEntry fs directory name info True (run_hook hook ''entry-before-open'' ?relative w3) = (r1, w4)"
        by (cases "openUEFIEntry fs directory name info True (run_hook hook ''entry-before-open'' ?relative w3)")
      show ?thesis
      proof (cases "int depth < lm_maxDepth l \<and> (\<exists>child. r1 = Inr child)")
        case True
        then obtain child where r1: "r1 = Inr child" and d: "int depth < lm_maxDepth l" by blast
        obtain r2 w5 where k: "walkUEFIDirectory ctx fs hook l child ?relative (Suc depth) st w4 = Some (r2, w5)"
          using assms(2) [OF d, of child ?relative w4] by (auto simp: not_None_eq)
        obtain ce w6 where "mf_Close fs (op_fd child) w5 = (ce, w6)" by (cases "mf_Close fs (op_fd child) w5")
        with dir o1 r1 d k show ?thesis by (cases r2; cases ce) (simp_all add: u del: not_None_eq)
      next
        case False
        with dir o1 show ?thesis by (cases r1) (auto simp: u simp del: not_None_eq)
      qed
    next
      case other
      obtain r1 w4 where "walk_file fs hook l directory name ?relative info st w3 = (r1, w4)"
        by (cases "walk_file fs hook l directory name ?relative info st w3")
      with other show ?thesis by (cases r1) (auto simp: u simp del: not_None_eq)
    qed
  qed
qed

lemma walk_returns:
  assumes "reads_progress fs"
  shows "walk_entries ctx fs hook l directory prefix depth names st w \<noteq> None"
    "walkUEFIDirectory ctx fs hook l directory prefix depth st w \<noteq> None"
proof -
  have step: "walkUEFIDirectory ctx fs hook l child relative d st w \<noteq> None"
    if "\<And>names st2 w2. walk_entries ctx fs hook l child relative d names st2 w2 \<noteq> None" for child relative d st w
    using read_directory_returns [OF assms, of ctx l "op_fd child" relative "(ws_entries st, [])"] that
    by (subst walkUEFIDirectory.simps) (auto simp del: not_None_eq split: prod.splits option.splits sum.splits)
  have e: "walk_entries ctx fs hook l directory prefix depth names st w \<noteq> None" for directory prefix depth names st w
  proof (induction "nat (lm_maxDepth l - int depth)" arbitrary: directory prefix depth names st w rule: less_induct)
    case less
    show ?case
    proof (induction names arbitrary: st w)
      case Nil
      then show ?case by (simp add: walk_entries.simps)
    next
      case (Cons name names)
      show ?case
      proof (rule walk_step_returns [OF Cons.IH])
        fix child relative w2 assume "int depth < lm_maxDepth l"
        then have "nat (lm_maxDepth l - int (Suc depth)) < nat (lm_maxDepth l - int depth)" by simp
        from step [OF less.hyps [OF this]]
        show "walkUEFIDirectory ctx fs hook l child relative (Suc depth) st w2 \<noteq> None" .
      qed
    qed
  qed
  then show "walk_entries ctx fs hook l directory prefix depth names st w \<noteq> None" .
  show "walkUEFIDirectory ctx fs hook l directory prefix depth st w \<noteq> None" by (rule step) (rule e)
qed

section \<open>What the walk keeps\<close>

lemma walk_step:
  assumes "walk_entries ctx fs hook l directory prefix depth (name # names) st w = Some (Inr st1, w1)"
  obtains
    (skip) st2 w2 where "st2 = st \<or> (\<exists>t. st2 = add_warning t st)"
      "walk_entries ctx fs hook l directory prefix depth names st2 w2 = Some (Inr st1, w1)"
  | (dir) child relative w2 st2 w3 w4 where "int depth < lm_maxDepth l"
      "walkUEFIDirectory ctx fs hook l child relative (Suc depth) st w2 = Some (Inr st2, w3)"
      "walk_entries ctx fs hook l directory prefix depth names st2 w4 = Some (Inr st1, w1)"
  | (efi) info w2 w3 st2 w4 where "mf_Lstat fs (path_join (op_Name directory) name) w2 = (Inr info, w3)"
      "is_regular info" "equal_fold (file_ext name) ''.efi''"
      "walk_file fs hook l directory name (path_join prefix name) info st w3 = (Inr st2, w4)"
      "walk_entries ctx fs hook l directory prefix depth names st2 w4 = Some (Inr st1, w1)"
proof -
  let ?relative = "path_join prefix name"
  obtain e w2 where "ctx w = (e, w2)" by (cases "ctx w")
  moreover from this assms have "e = None" by (cases e) (simp_all add: walk_entries.simps)
  ultimately have c: "ctx w = (None, w2)" by simp
  note u = assms [unfolded walk_entries.simps c prod.case option.case Let_def]
  have n: "\<not> (name = [] \<or> name = ''.'' \<or> name = ''..'' \<or> CHR ''/'' \<in> set name)" using u by (auto split: if_splits)
  note u = u [unfolded if_not_P [OF n]]
  obtain r w3 where l: "mf_Lstat fs (path_join (op_Name directory) name) w2 = (r, w3)"
    by (cases "mf_Lstat fs (path_join (op_Name directory) name) w2")
  with u obtain info where r: "r = Inr info" by (cases r) auto
  note u = u [unfolded l r prod.case sum.case]
  show thesis
  proof (cases "is_symlink info")
    case True
    with u skip show thesis by auto
  next
    case nl: False
    note u = u [unfolded if_not_P [OF nl]]
    show thesis
    proof (cases "is_dir info")
      case True
      note u = u [unfolded if_P [OF True]]
      have d: "int depth < lm_maxDepth l" using u by (auto split: if_splits)
      then have d': "\<not> lm_maxDepth l \<le> int depth" by simp
      note u = u [unfolded if_not_P [OF d']]
      obtain r1 w4 where o1: "openUEFIEntry fs directory name info True (run_hook hook ''entry-before-open'' ?relative w3) = (r1, w4)"
        by (cases "openUEFIEntry fs directory name info True (run_hook hook ''entry-before-open'' ?relative w3)")
      with u obtain child where r1: "r1 = Inr child" by (cases r1) auto
      note u = u [unfolded o1 r1 prod.case sum.case]
      obtain r2 w5 where k: "walkUEFIDirectory ctx fs hook l child ?relative (Suc depth) st w4 = Some (r2, w5)"
        using u by (auto split: option.splits)
      obtain closeErr w6 where cl: "mf_Close fs (op_fd child) w5 = (closeErr, w6)" by (cases "mf_Close fs (op_fd child) w5")
      note u = u [unfolded k option.case prod.case cl]
      obtain st2 where r2: "r2 = Inr st2" using u by (cases r2) auto
      have "closeErr = None" using u r2 by (cases closeErr) auto
      with u r2 dir [OF d] k show thesis by auto
    next
      case nd: False
      note u = u [unfolded if_not_P [OF nd]]
      show thesis
      proof (cases "equal_fold (file_ext name) ''.efi'' \<and> is_regular info")
        case True
        obtain r1 w4 where f: "walk_file fs hook l directory name ?relative info st w3 = (r1, w4)"
          by (cases "walk_file fs hook l directory name ?relative info st w3")
        from u True f obtain st2 where "r1 = Inr st2" by (cases r1) auto
        with u True f efi l r show thesis by auto
      next
        case False
        with u skip show thesis by (auto split: if_splits)
      qed
    qed
  qed
qed

lemma walk_directory_step:
  assumes "walkUEFIDirectory ctx fs hook l directory prefix depth st w = Some (Inr st1, w1)"
  obtains w2 n names w3 where
    "readBoundedUEFIDirectory ctx fs l (op_fd directory) prefix (ws_entries st, []) w2 = Some (Inr (n, names), w3)"
    "walk_entries ctx fs hook l directory prefix depth names (st\<lparr>ws_entries := n\<rparr>) w3 = Some (Inr st1, w1)"
  using assms by (subst (asm) walkUEFIDirectory.simps) (auto split: prod.splits option.splits sum.splits)

locale walk_invariant =
  fixes fs :: "'w media_fs" and hook :: "'w traversal_hook" and l :: uefiTraversalLimits and I :: "walk_state \<Rightarrow> bool"
  assumes warning: "I st \<Longrightarrow> I (add_warning t st)"
    and entries: "I st \<Longrightarrow> readBoundedUEFIDirectory ctx fs l fd prefix (ws_entries st, []) w = Some (Inr (n, names), w1)
      \<Longrightarrow> I (st\<lparr>ws_entries := n\<rparr>)"
    and efi_file: "I st \<Longrightarrow> mf_Lstat fs (path_join (op_Name directory) name) w0 = (Inr info, w1) \<Longrightarrow> is_regular info \<Longrightarrow>
      equal_fold (file_ext name) ''.efi'' \<Longrightarrow>
      walk_file fs hook l directory name (path_join prefix name) info st w1 = (Inr st1, w2) \<Longrightarrow> I st1"
begin

lemma walk_entries_keeps:
  "walk_entries ctx fs hook l directory prefix depth names st w = Some (Inr st1, w1) \<Longrightarrow> I st \<Longrightarrow> I st1"
proof (induction "nat (lm_maxDepth l - int depth)" arbitrary: directory prefix depth names st w st1 w1 rule: less_induct)
  case less
  from less.prems show ?case
  proof (induction names arbitrary: st w)
    case Nil
    then show ?case by (simp add: walk_entries.simps)
  next
    case (Cons name names)
    from Cons.prems(1) show ?case
    proof (cases rule: walk_step)
      case (skip st2 w2)
      with Cons.prems(2) have "I st2" using warning by auto
      with Cons.IH skip show ?thesis by blast
    next
      case (dir child relative w2 st2 w3 w4)
      from dir(2) have "I st2"
      proof (cases rule: walk_directory_step)
        case (1 w5 n names' w6)
        have "nat (lm_maxDepth l - int (Suc depth)) < nat (lm_maxDepth l - int depth)" using dir(1) by simp
        from less.hyps [OF this 1(2)] entries [OF Cons.prems(2) 1(1)] show ?thesis by blast
      qed
      with Cons.IH dir(3) show ?thesis by blast
    next
      case (efi info w2 w3 st2 w4)
      with Cons.IH efi_file [OF Cons.prems(2) efi(1-4)] show ?thesis by blast
    qed
  qed
qed

lemma tree_keeps:
  assumes "openUEFIMediaTreeWithLimits ctx fs hook l root w = Some (Inr (resolved, files, warnings), w1)"
    and "I \<lparr> ws_entries = lm_entries l, ws_totalBytes = lm_totalBytes l, ws_files = [], ws_warnings = [] \<rparr>"
  shows "\<exists>st. I st \<and> files = sort_by (\<lambda>a b. uf_relative a < uf_relative b) (ws_files st) \<and> warnings = ws_warnings st"
proof -
  obtain fd w2 st w3 where "walkUEFIDirectory ctx fs hook l \<lparr> op_fd = fd, op_Name = resolved \<rparr> [] 0
      \<lparr> ws_entries = lm_entries l, ws_totalBytes = lm_totalBytes l, ws_files = [], ws_warnings = [] \<rparr> w2 = Some (Inr st, w3)"
    and st: "files = sort_by (\<lambda>a b. uf_relative a < uf_relative b) (ws_files st)" "warnings = ws_warnings st"
    using assms(1) unfolding openUEFIMediaTreeWithLimits_def
    by (auto split: if_splits prod.splits sum.splits option.splits)
  from this(1) have "I st"
  proof (cases rule: walk_directory_step)
    case (1 w4 n names w5)
    from walk_entries_keeps [OF 1(2)] entries [OF assms(2)] 1(1) show ?thesis by simp
  qed
  with st show ?thesis by blast
qed

end

section \<open>Bounds\<close>

definition within :: "uefiTraversalLimits \<Rightarrow> walk_state \<Rightarrow> bool" where
  "within l st \<longleftrightarrow> ws_entries st \<le> lm_maxEntries l \<and> int (length (ws_files st)) \<le> lm_maxFiles l
     \<and> ws_totalBytes st = int (sum_list (map (\<lambda>f. length (uf_data f)) (ws_files st)))
     \<and> ws_totalBytes st \<le> lm_maxTotalBytes l
     \<and> list_all (\<lambda>f. 0 < length (uf_data f) \<and> length (uf_data f) \<le> maximumUEFIFileSize) (ws_files st)"

text \<open>
  Where a file comes from, as consecutive calls: the entry of a name ending in \<open>.efi\<close> was a regular
  file; the descriptor opened for it next was the same kernel object; and the data is all that was read
  from it between two states that agree in size and times.
\<close>

definition read_from :: "'w media_fs \<Rightarrow> 'w traversal_hook \<Rightarrow> uefiMediaFile \<Rightarrow> bool" where
  "read_from fs hook f \<longleftrightarrow>
     (\<exists>(directory :: open_file) name prefix info expected fd opened before after w1 w2 w3 w4 w5 w6 w7.
        uf_relative f = path_join prefix name \<and> equal_fold (file_ext name) ''.efi''
        \<and> mf_Lstat fs (path_join (op_Name directory) name) w1 = (Inr info, w2) \<and> is_regular info \<and> in_Stat info = Some expected
        \<and> mf_Openat fs (op_fd directory) name False (run_hook hook ''entry-before-open'' (uf_relative f) w2) = (Inr fd, w3)
        \<and> uefiIdentityFromOpenFile fs fd w3 = (Inr opened, w4) \<and> sameUEFIKernelObject expected opened
        \<and> uefiIdentityFromOpenFile fs fd w4 = (Inr before, w5) \<and> file_type (ui_mode before) = 0x8000
        \<and> mf_ReadAll fs fd (maximumUEFIFileSize + 1) w5 = (Inr (uf_data f), w6)
        \<and> uefiIdentityFromOpenFile fs fd w6 = (Inr after, w7) \<and> sameStableUEFIFile before after
        \<and> int (length (uf_data f)) = ui_size before)"

lemma walk_file_cases:
  assumes "walk_file fs hook l directory name relative info st w = (Inr st1, w1)"
  obtains opf d w3 w4 where "int (length (ws_files st)) < lm_maxFiles l"
    "openUEFIEntry fs directory name info False (run_hook hook ''entry-before-open'' relative w) = (Inr opf, w3)"
    "readStableUEFIFile fs (op_fd opf) w3 = (Inr d, w4)"
    "int (length d) \<le> lm_maxTotalBytes l - ws_totalBytes st"
    "st1 = st\<lparr> ws_totalBytes := ws_totalBytes st + int (length d),
       ws_files := ws_files st @ [\<lparr> uf_relative = relative, uf_data = d \<rparr>] \<rparr>"
  using assms unfolding walk_file_def Let_def
  by (auto simp: not_le not_less split: if_splits prod.splits sum.splits option.splits)

lemma readStable_Inr:
  assumes "readStableUEFIFile fs fd w = (Inr d, w1)"
  obtains before after w2 w3 w4 where "uefiIdentityFromOpenFile fs fd w = (Inr before, w2)"
    "file_type (ui_mode before) = 0x8000" "mf_ReadAll fs fd (maximumUEFIFileSize + 1) w2 = (Inr d, w3)"
    "uefiIdentityFromOpenFile fs fd w3 = (Inr after, w4)" "sameStableUEFIFile before after"
    "int (length d) = ui_size before" "0 < ui_size before" "ui_size before \<le> int maximumUEFIFileSize"
  using assms unfolding readStableUEFIFile_def
  by (auto simp: result_simps not_le not_less split: if_splits)

lemma readStable_size:
  "readStableUEFIFile fs fd w = (Inr d, w1) \<Longrightarrow> 0 < length d \<and> length d \<le> maximumUEFIFileSize"
  by (erule readStable_Inr) linarith

lemma close_on_error_Inr [result_simps]: "close_on_error fs fd m w = (Inr x, w1) \<longleftrightarrow> m w = (Inr x, w1)"
  by (auto simp: close_on_error_def split: prod.splits sum.splits)

lemma identity_Inr [result_simps]: "uefiIdentityFromInfo i = Inr s \<longleftrightarrow> in_Stat i = Some s"
  by (simp add: uefiIdentityFromInfo_def split: option.splits)

lemma openEntry_Inr:
  assumes "openUEFIEntry fs directory name info False w = (Inr opf, w1)"
  obtains expected actual w2 where "in_Stat info = Some expected" "mf_Openat fs (op_fd directory) name False w = (Inr (op_fd opf), w2)"
    "uefiIdentityFromOpenFile fs (op_fd opf) w2 = (Inr actual, w1)" "sameUEFIKernelObject expected actual"
  using assms unfolding openUEFIEntry_def
  by (auto simp: result_simps split: if_splits)

lemma walk_file_within:
  assumes "within l st" "walk_file fs hook l directory name relative info st w = (Inr st1, w1)"
  shows "within l st1"
  using assms(2)
proof (cases rule: walk_file_cases)
  case (1 opf d w3 w4)
  from readStable_size [OF 1(3)] 1(1,4) assms(1) show ?thesis unfolding 1(5) within_def by simp
qed

interpretation bounded: walk_invariant fs hook l "within l" for fs :: "'w media_fs" and hook l
proof (unfold_locales, goal_cases)
  case (1 st t)
  then show ?case by (simp add: within_def add_warning_def)
next
  case (2 st ctx fd prefix w n names w1)
  from 2(1) read_directory_entries [OF 2(2)] show ?case by (simp add: within_def)
next
  case (3 st directory name w0 info w1 prefix st1 w2)
  from walk_file_within [OF 3(1,5)] show ?case .
qed

interpretation sourced: walk_invariant fs hook l "\<lambda>st. list_all (read_from fs hook) (ws_files st)" for fs :: "'w media_fs" and hook l
proof (unfold_locales, goal_cases)
  case (3 st directory name w0 info w1 prefix st1 w2)
  from 3(5) show ?case
  proof (cases rule: walk_file_cases)
    case ov: (1 opf d v3 v4)
    from ov(2) show ?thesis
    proof (cases rule: openEntry_Inr)
      case e: (1 expected actual u2)
      from ov(3) show ?thesis
      proof (cases rule: readStable_Inr)
        case (1 before after t2 t3 t4)
        have "read_from fs hook \<lparr> uf_relative = path_join prefix name, uf_data = d \<rparr>"
          unfolding read_from_def uefiMediaFile.simps
          by (rule exI conjI refl 3(2-4) e 1(1-6))+
        with 3(1) ov(5) show ?thesis by simp
      qed
    qed
  qed
qed (simp_all add: add_warning_def)

interpretation by_relative: less_order "\<lambda>a b. uf_relative a < uf_relative b"
  by unfold_locales auto

lemma limits_ok:
  assumes "openUEFIMediaTreeWithLimits ctx fs hook l root w = Some (Inr r, w1)"
  shows "lm_maxFiles l \<le> 4096" "lm_maxTotalBytes l \<le> 536870912"
    "within l \<lparr> ws_entries = lm_entries l, ws_totalBytes = lm_totalBytes l, ws_files = [], ws_warnings = [] \<rparr>"
proof -
  have "validate_limits l = Inr ()"
    using assms unfolding openUEFIMediaTreeWithLimits_def
    by (auto simp: bind_act_def pure_act_def split: if_splits sum.splits prod.splits)
  then show "lm_maxFiles l \<le> 4096" "lm_maxTotalBytes l \<le> 536870912"
    "within l \<lparr> ws_entries = lm_entries l, ws_totalBytes = lm_totalBytes l, ws_files = [], ws_warnings = [] \<rparr>"
    by (auto simp: validate_limits_def within_def split: if_splits)
qed

text \<open>
  An opened tree: at most 4096 executables of at most 512 MiB together, none empty or over 256 MiB,
  within the limits given, in the order of their paths; and the data of each was read between two
  equal states of a regular file that was opened as the same kernel object that the directory
  entry named, whose name ends in \<open>.efi\<close>: no link was followed and no file swapped.
\<close>

lemma media_tree_facts:
  assumes "openUEFIMediaTreeWithLimits ctx fs hook l root w = Some (Inr (resolved, files, warnings), w1)"
  shows "int (length files) \<le> lm_maxFiles l \<and> lm_maxFiles l \<le> 4096
    \<and> int (sum_list (map (\<lambda>f. length (uf_data f)) files)) \<le> lm_maxTotalBytes l \<and> lm_maxTotalBytes l \<le> 536870912
    \<and> list_all (\<lambda>f. 0 < length (uf_data f) \<and> length (uf_data f) \<le> maximumUEFIFileSize) files
    \<and> sorted_wrt (\<lambda>f g. uf_relative f \<le> uf_relative g) files \<and> list_all (read_from fs hook) files"
proof -
  note ok = limits_ok [OF assms]
  let ?sort = "sort_by (\<lambda>a b. uf_relative a < uf_relative b)"
  obtain st where st: "within l st" "files = ?sort (ws_files st)" using bounded.tree_keeps [OF assms ok(3)] by blast
  have "\<exists>st :: walk_state. list_all (read_from fs hook) (ws_files st) \<and> files = ?sort (ws_files st) \<and> warnings = ws_warnings st"
    by (rule sourced.tree_keeps [OF assms]) simp
  then obtain st' :: walk_state where st': "list_all (read_from fs hook) (ws_files st')" "files = ?sort (ws_files st')" by blast
  have "sum_list (map (\<lambda>f. length (uf_data f)) files) = sum_list (map (\<lambda>f. length (uf_data f)) (ws_files st))"
    unfolding st(2) sum_mset_sum_list [symmetric] by (simp only: mset_map mset_sort_by)
  moreover have "sorted_wrt (\<lambda>f g. uf_relative f \<le> uf_relative g) files"
    unfolding st(2) by (rule sorted_wrt_mono_rel [OF _ by_relative.sorted_sort_by]) (simp add: not_less)
  moreover have "list_all (read_from fs hook) files" using st' by (simp add: list_all_iff)
  ultimately show ?thesis using st ok(1,2) by (auto simp: within_def list_all_iff)
qed

lemma media_tree_total:
  assumes "reads_progress fs"
  shows "\<exists>r w1. openUEFIMediaTreeWithLimits ctx fs hook l root w = Some (r, w1)"
proof -
  have "openUEFIMediaTreeWithLimits ctx fs hook l root w \<noteq> None"
    unfolding openUEFIMediaTreeWithLimits_def
    using walk_returns(2) [OF assms]
    by (auto simp del: not_None_eq split: prod.splits sum.splits option.splits)
  then show ?thesis by (metis not_None_eq surj_pair)
qed

lemma verdict_path [simp]: "uv_Path (file_verdict decoder architecture opts f) = uf_relative f"
  by (simp add: file_verdict_def validateUEFIFile_def new_validation_def dbx_check_def sbat_check_def Let_def split: sum.splits)

section \<open>The validation of an opened tree\<close>

text \<open>
  \<open>ValidateUEFIMedia\<close> validates the files the traversal returns. The traversal is used where it
  returns, which it does whenever \<open>reads_progress\<close> holds.
\<close>

definition media_tree_of :: "'w poll \<Rightarrow> 'w media_fs \<Rightarrow> 'w traversal_hook \<Rightarrow> 'w media_tree" where
  "media_tree_of ctx fs hook root maxFiles w = the (openUEFIMediaTree ctx fs hook root maxFiles w)"

definition ValidateUEFIMedia ::
  "'w media_fs \<Rightarrow> 'w traversal_hook \<Rightarrow> pkcs7_decoder \<Rightarrow> 'w poll option \<Rightarrow> string \<Rightarrow> UEFIValidationOptions
     \<Rightarrow> ('w, UEFIMediaValidation) act" where
  "ValidateUEFIMedia fs hook decoder ctx = validateUEFIMedia (media_tree_of (the ctx) fs hook) decoder ctx"

section \<open>Properties\<close>

text \<open>
  The traversal returns: if the system reports the end of a directory or an error instead of an
  endless run of empty batches, opening a tree always returns, however deep and wide the tree is.
\<close>

theorem media_tree_returns:
  assumes "reads_progress fs"
  shows "\<exists>r w1. openUEFIMediaTreeWithLimits ctx fs hook l root w = Some (r, w1)"
  by (rule media_tree_total [OF assms])

text \<open>
  C12: What a valid verdict on a directory means, from the system calls up: the reported files are the
  files of the tree, in the order of their paths, at most 4096 with at most 512 MiB; each of them was read as a regular file
  that no link and no concurrent change could have replaced; and those very bytes parse as an EFI image
  of the architecture, are not below the SBAT level and are not revoked by the database, with the
  required fallback loader among them.
\<close>

theorem valid_media_was_read_and_checked:
  assumes "reads_progress fs" "ValidateUEFIMedia fs hook decoder ctx root opts w = (Inr r, w1)" "mv_Valid r"
  shows "\<exists>architecture files. normalizeUEFIArchitecture (vo_Architecture opts) = Inr architecture
    \<and> map uv_Path (mv_Files r) = map uf_relative files \<and> length files \<le> 4096
    \<and> sum_list (map (\<lambda>f. length (uf_data f)) files) \<le> 536870912
    \<and> sorted_wrt (\<lambda>f g. uf_relative f \<le> uf_relative g) files
    \<and> list_all (read_from fs hook) files \<and> tree_clean decoder architecture opts files"
proof -
  obtain architecture resolved files warnings w2 where v: "normalizeUEFIArchitecture (vo_Architecture opts) = Inr architecture"
    "media_tree_of (the ctx) fs hook root (if vo_MaxFiles opts \<le> 0 then 512 else vo_MaxFiles opts) w
       = (Inr (resolved, files, warnings), w2)"
    "mv_Files r = map (file_verdict decoder architecture opts) files" "tree_clean decoder architecture opts files"
    using media_valid [OF assms(2) [unfolded ValidateUEFIMedia_def]] assms(3) by auto
  then have "openUEFIMediaTree (the ctx) fs hook root (if vo_MaxFiles opts \<le> 0 then 512 else vo_MaxFiles opts) w
      = Some (Inr (resolved, files, warnings), w2)"
    using media_tree_total [OF assms(1)] unfolding media_tree_of_def openUEFIMediaTree_def by (metis option.sel)
  note facts = media_tree_facts [OF this [unfolded openUEFIMediaTree_def]]
  have "map uv_Path (mv_Files r) = map uf_relative files" by (simp add: v(3))
  moreover have "length files \<le> 4096" "sum_list (map (\<lambda>f. length (uf_data f)) files) \<le> 536870912" using facts by linarith+
  ultimately show ?thesis using v(1,4) facts by blast
qed

section \<open>Witnesses\<close>

definition sample_info :: "bytes \<Rightarrow> u32 \<Rightarrow> file_info" where
  "sample_info d mode = \<lparr> in_Mode = mode, in_Size = int (length d), in_Stat = Some \<lparr> ui_device = 1, ui_inode = ucast mode, ui_mode = mode,
     ui_size = int (length d), ui_modifiedNS = 0, ui_changedNS = 0 \<rparr> \<rparr>"

definition sample_fs :: "bytes \<Rightarrow> unit media_fs" where
  "sample_fs d = \<lparr> mf_Abs = (\<lambda>p. ret_act p), mf_EvalSymlinks = (\<lambda>p. ret_act p),
     mf_Lstat = (\<lambda>p. ret_act (sample_info d (if p = ''/m'' then 0x41ED else 0x81A4))), mf_Open = (\<lambda>p. ret_act 1),
     mf_Openat = (\<lambda>fd name b. ret_act 2), mf_ReadDir = (\<lambda>fd n w. (([''a.efi''], Some EOF), w)),
     mf_Fstat = (\<lambda>fd. ret_act (sample_info d (if fd = 1 then 0x41ED else 0x81A4))), mf_ReadAll = (\<lambda>fd n. ret_act d),
     mf_Close = (\<lambda>fd w. (None, w)) \<rparr>"

lemma sample_progress: "reads_progress (sample_fs d)"
  by (simp add: reads_progress_def sample_fs_def)

lemma sample_directory:
  "readBoundedUEFIDirectory (Pair None) (sample_fs d) (newUEFITraversalLimits 512) fd prefix (0, []) w = Some (Inr (1, [''a.efi'']), ())"
  by (subst readBoundedUEFIDirectory.simps) (simp add: sample_fs_def newUEFITraversalLimits_def)

lemma sample_types [simp]: "file_type 0x41ED = 0x4000" "file_type 0x81A4 = 0x8000"
  by (simp_all add: file_type_def)

lemma sample_calls [simp]:
  "mf_Abs (sample_fs d) p w = (Inr p, w)" "mf_EvalSymlinks (sample_fs d) p w = (Inr p, w)"
  "mf_Lstat (sample_fs d) p w = (Inr (sample_info d (if p = ''/m'' then 0x41ED else 0x81A4)), w)"
  "mf_Open (sample_fs d) p w = (Inr 1, w)" "mf_Openat (sample_fs d) fd name b w = (Inr 2, w)"
  "mf_Fstat (sample_fs d) fd w = (Inr (sample_info d (if fd = 1 then 0x41ED else 0x81A4)), w)"
  "mf_ReadAll (sample_fs d) fd n w = (Inr d, w)" "mf_Close (sample_fs d) fd w = (None, w)"
  by (simp_all add: sample_fs_def ret_act_def)

lemma sample_info_sel [simp]: "in_Mode (sample_info d m) = m" "in_Size (sample_info d m) = int (length d)"
  "uefiIdentityFromInfo (sample_info d m) = Inr \<lparr> ui_device = 1, ui_inode = ucast m, ui_mode = m,
     ui_size = int (length d), ui_modifiedNS = 0, ui_changedNS = 0 \<rparr>"
  by (simp_all add: sample_info_def uefiIdentityFromInfo_def)

lemma sample_paths [simp]: "path_join ''/m'' ''a.efi'' = ''/m/a.efi''" "path_join [] ''a.efi'' = ''a.efi''"
  by code_simp+

lemma sample_ext [simp]: "equal_fold (file_ext ''a.efi'') ''.efi''"
  by code_simp

lemma sample_file:
  assumes "0 < length d" "length d \<le> 1000"
  shows
  "walk_file (sample_fs d) None (newUEFITraversalLimits 512) \<lparr> op_fd = 1, op_Name = ''/m'' \<rparr> ''a.efi'' ''a.efi'' (sample_info d 0x81A4)
     \<lparr> ws_entries = 1, ws_totalBytes = 0, ws_files = [], ws_warnings = [] \<rparr> w
   = (Inr \<lparr> ws_entries = 1, ws_totalBytes = int (length d), ws_files = [\<lparr> uf_relative = ''a.efi'', uf_data = d \<rparr>], ws_warnings = [] \<rparr>, w)"
  using assms unfolding walk_file_def openUEFIEntry_def readStableUEFIFile_def uefiIdentityFromOpenFile_def
  by (simp add: newUEFITraversalLimits_def bind_act_def pure_act_def wrap_act_def close_on_error_def run_hook_def
    sameUEFIKernelObject_def sameStableUEFIFile_def maximumUEFIFileSize_def)

lemma sample_walk:
  assumes "0 < length d" "length d \<le> 1000"
  shows
  "walkUEFIDirectory (Pair None) (sample_fs d) None (newUEFITraversalLimits 512) \<lparr> op_fd = 1, op_Name = ''/m'' \<rparr> [] 0
     \<lparr> ws_entries = 0, ws_totalBytes = 0, ws_files = [], ws_warnings = [] \<rparr> w
   = Some (Inr \<lparr> ws_entries = 1, ws_totalBytes = int (length d), ws_files = [\<lparr> uf_relative = ''a.efi'', uf_data = d \<rparr>], ws_warnings = [] \<rparr>, ())"
  by (subst walkUEFIDirectory.simps)
    (simp add: sample_directory walk_entries.simps sample_file [OF assms, simplified] is_symlink_def is_dir_def is_regular_def Let_def)

lemma sample_opened:
  assumes "0 < length d" "length d \<le> 1000"
  shows
  "openUEFIMediaTreeWithLimits (Pair None) (sample_fs d) None (newUEFITraversalLimits 512) ''/m'' ()
     = Some (Inr (''/m'', [\<lparr> uf_relative = ''a.efi'', uf_data = d \<rparr>], []), ())"
proof -
  have t: "trim_space ''/m'' = ''/m''" by (rule trim_space_id) simp_all
  have v: "validate_limits (newUEFITraversalLimits 512) = Inr ()" by (simp add: validate_limits_def newUEFITraversalLimits_def)
  have l: "lm_entries (newUEFITraversalLimits 512) = 0" "lm_totalBytes (newUEFITraversalLimits 512) = 0"
    by (simp_all add: newUEFITraversalLimits_def)
  show ?thesis
    unfolding openUEFIMediaTreeWithLimits_def uefiIdentityFromOpenFile_def
    by (simp add: t v l sample_walk [OF assms, simplified] bind_act_def pure_act_def wrap_act_def is_dir_def run_hook_def sameUEFIKernelObject_def)
qed

lemma sample_validated:
  "\<exists>r. ValidateUEFIMedia (sample_fs boot_image) None (\<lambda>_. Inr []) (Some (Pair None)) ''/m''
         ((boot_options None)\<lparr>vo_RequireFallback := False\<rparr>) () = (Inr r, ()) \<and> mv_Valid r"
proof -
  let ?opts = "(boot_options None)\<lparr>vo_RequireFallback := False\<rparr>"
  have "length boot_image = 384" by code_simp
  then have t: "media_tree_of (Pair None) (sample_fs boot_image) None ''/m'' 512 ()
      = (Inr (''/m'', [\<lparr> uf_relative = ''a.efi'', uf_data = boot_image \<rparr>], []), ())"
    using sample_opened [of boot_image] by (simp add: media_tree_of_def openUEFIMediaTree_def)
  obtain r where r: "ValidateUEFIMedia (sample_fs boot_image) None (\<lambda>_. Inr []) (Some (Pair None)) ''/m'' ?opts () = (Inr r, ())"
    by (simp add: ValidateUEFIMedia_def validateUEFIMedia_def boot_options_def boot_architecture bind_act_def pure_act_def
        wrap_act_def t Let_def)
  have "image_clean (\<lambda>_. Inr []) arm64_architecture None None False boot_image"
    by (simp add: image_clean_def boot_parsed isEFISubsystem_def imageSubsystemEFIApp_def imageSubsystemEFIROM_def Revocations_def)
  moreover have "\<not> is_fallback arm64_architecture \<lparr> uf_relative = ''a.efi'', uf_data = boot_image \<rparr>"
    unfolding is_fallback_def uefiMediaFile.simps arm64_architecture_def uefiArchitecture.simps by code_simp
  ultimately have "tree_clean (\<lambda>_. Inr []) arm64_architecture ?opts [\<lparr> uf_relative = ''a.efi'', uf_data = boot_image \<rparr>]"
    by (simp add: tree_clean_def boot_options_def)
  with media_valid [OF r [unfolded ValidateUEFIMedia_def]] t r show ?thesis
    by (auto simp: boot_options_def boot_architecture)
qed

theorem media_tree_returns_witness:
  "\<exists>r w1. openUEFIMediaTreeWithLimits (Pair None) (sample_fs [7]) None (newUEFITraversalLimits 512) ''/m'' () = Some (r, w1)"
  by (rule media_tree_returns [OF sample_progress])

theorem valid_media_was_read_and_checked_witness:
  "\<exists>r files. ValidateUEFIMedia (sample_fs boot_image) None (\<lambda>_. Inr []) (Some (Pair None)) ''/m''
         ((boot_options None)\<lparr>vo_RequireFallback := False\<rparr>) () = (Inr r, ()) \<and> mv_Valid r
     \<and> map uv_Path (mv_Files r) = map uf_relative files \<and> list_all (read_from (sample_fs boot_image) None) files \<and> files \<noteq> []"
proof -
  obtain r where r: "ValidateUEFIMedia (sample_fs boot_image) None (\<lambda>_. Inr []) (Some (Pair None)) ''/m''
         ((boot_options None)\<lparr>vo_RequireFallback := False\<rparr>) () = (Inr r, ())" "mv_Valid r"
    using sample_validated by blast
  from valid_media_was_read_and_checked [OF sample_progress r] r show ?thesis by (auto simp: tree_clean_def)
qed

end
