(* ===== verification/SecureSign.thy ===== *)
theory SecureSign
  imports SecurePe SecureLists
begin

text \<open>
  Signing a PE image and its Authenticode digest: the digest does not see the checksum, the
  certificate directory entry and the certificate table, and sees every other byte of a packed
  image; the table that signing appends is read back; what the check of a signed image answers.
\<close>

unbundle bit_operations_syntax

section \<open>Images that differ in the holes only\<close>

definition alike :: "nat \<Rightarrow> nat \<Rightarrow> bytes \<Rightarrow> bytes \<Rightarrow> bool" where
  "alike a b xs ys \<longleftrightarrow> length xs \<le> length ys
     \<and> (\<forall>i < length xs. (i < a \<or> a + 4 \<le> i) \<and> (i < b \<or> b + 8 \<le> i) \<longrightarrow> ys ! i = xs ! i)"

lemma alike_length: "alike a b xs ys \<Longrightarrow> length xs \<le> length ys"
  by (simp add: alike_def)

lemma alike_nth: "alike a b xs ys \<Longrightarrow> i < length xs \<Longrightarrow> i < a \<or> a + 4 \<le> i \<Longrightarrow> i < b \<or> b + 8 \<le> i \<Longrightarrow> ys ! i = xs ! i"
  by (simp add: alike_def)

lemma alike_field:
  assumes "alike a b xs ys" "i + n \<le> length xs" "i + n \<le> a \<or> a + 4 \<le> i" "i + n \<le> b \<or> b + 8 \<le> i"
  shows "field ys i n = field xs i n"
  using assms alike_length [OF assms(1)] by (intro field_eqI) (auto intro: alike_nth [OF assms(1)])

lemma alike_slice:
  assumes "alike a b xs ys" "j \<le> length xs" "j \<le> a \<or> a + 4 \<le> i" "j \<le> b \<or> b + 8 \<le> i"
  shows "slice ys i j = slice xs i j"
proof (cases "i \<le> j")
  case True
  then have "i + (j - i) \<le> length xs" "i + (j - i) \<le> a \<or> a + 4 \<le> i" "i + (j - i) \<le> b \<or> b + 8 \<le> i" using assms by auto
  then show ?thesis using alike_field [OF assms(1)] by (simp add: slice_def field_def)
qed (simp add: slice_def)

lemma alike_u16:
  "alike a b xs ys \<Longrightarrow> i + 2 \<le> length xs \<Longrightarrow> i + 2 \<le> a \<or> a + 4 \<le> i \<Longrightarrow> i + 2 \<le> b \<or> b + 8 \<le> i \<Longrightarrow> u16_at ys i = u16_at xs i"
  by (simp add: u16_at_def alike_field)

lemma alike_u32:
  "alike a b xs ys \<Longrightarrow> i + 4 \<le> length xs \<Longrightarrow> i + 4 \<le> a \<or> a + 4 \<le> i \<Longrightarrow> i + 4 \<le> b \<or> b + 8 \<le> i \<Longrightarrow> u32_at ys i = u32_at xs i"
  by (simp add: u32_at_def alike_field)

section \<open>The headers\<close>

text \<open>What the header checks establish.\<close>

definition header_ok :: "bytes \<Rightarrow> nat \<Rightarrow> bool" where
  "header_ok bs pe \<longleftrightarrow> 64 \<le> length bs \<and> bs ! 0 = 0x4d \<and> bs ! 1 = 0x5a \<and> pe = unat (u32_at bs 60)
     \<and> 64 \<le> pe \<and> pe + 24 \<le> length bs \<and> field bs pe 4 = [0x50, 0x45, 0, 0]"

definition optional_ok :: "bytes \<Rightarrow> nat \<Rightarrow> nat \<Rightarrow> nat \<Rightarrow> nat \<Rightarrow> bool" where
  "optional_ok bs pe optional optionalSize certDir \<longleftrightarrow>
     optional = pe + 24 \<and> optionalSize = unat (u16_at bs (pe + 20))
     \<and> optional + optionalSize \<le> length bs \<and> certDir + 8 \<le> optional + optionalSize
     \<and> (u16_at bs optional = 0x10b \<and> certDir = optional + 128 \<or> u16_at bs optional = 0x20b \<and> certDir = optional + 144)
     \<and> 4 < u32_at bs (certDir - 36)"

lemma pe_offset_Inr: "pe_offset bs = Inr pe \<longleftrightarrow> header_ok bs pe"
  by (auto simp: pe_offset_def header_ok_def Let_def)

lemma pe_optional_Inr:
  "pe_optional bs pe = Inr (optional, optionalSize, certDir) \<longleftrightarrow> optional_ok bs pe optional optionalSize certDir"
proof -
  have c: "pe + 20 = pe + 4 + 16" "pe + 24 = pe + 4 + 20" by simp_all
  have neq: "(0x20b :: u16) \<noteq> 0x10b" by simp
  consider "u16_at bs (pe + 24) = 0x10b" | "u16_at bs (pe + 24) = 0x20b"
    | "u16_at bs (pe + 24) \<noteq> 0x10b" "u16_at bs (pe + 24) \<noteq> 0x20b" by blast
  then show ?thesis
  proof cases
    case 1
    then show ?thesis using neq
      by (simp add: pe_optional_def optional_ok_def Let_def bindE_def not_less not_le if_Inl_eq_Inr c [symmetric]) auto
  next
    case 2
    then show ?thesis using neq
      by (simp add: pe_optional_def optional_ok_def Let_def bindE_def not_less not_le if_Inl_eq_Inr c [symmetric]) auto
  next
    case 3
    then show ?thesis
      by (simp add: pe_optional_def optional_ok_def Let_def bindE_def c [symmetric])
  qed
qed

definition layout_at :: "bytes \<Rightarrow> nat \<Rightarrow> nat \<Rightarrow> nat \<Rightarrow> nat \<Rightarrow> pe_layout" where
  "layout_at bs pe optional optionalSize certDir =
     \<lparr> pl_machine = u16_at bs (pe + 4), pl_sectionsCount = u16_at bs (pe + 6), pl_checksumOffset = optional + 64,
       pl_certDirectoryOffset = certDir, pl_certificateOffset = u32_at bs certDir,
       pl_certificateSize = u32_at bs (certDir + 4), pl_sizeOfHeaders = u32_at bs (optional + 60),
       pl_sectionTable = optional + optionalSize \<rparr>"

definition layout_ok :: "bytes \<Rightarrow> pe_layout \<Rightarrow> bool" where
  "layout_ok bs l \<longleftrightarrow>
     (pl_certificateSize l = 0 \<or> pl_certificateOffset l \<noteq> 0
        \<and> unat (pl_certificateOffset l) + unat (pl_certificateSize l) \<le> length bs)
     \<and> pl_sizeOfHeaders l \<noteq> 0 \<and> unat (pl_sizeOfHeaders l) \<le> length bs
     \<and> pl_certDirectoryOffset l + 8 \<le> unat (pl_sizeOfHeaders l)
     \<and> unat (pl_sectionsCount l) \<le> 4096 \<and> pl_sectionTable l + unat (pl_sectionsCount l) * 40 \<le> length bs"

lemma layout_at_simps [simp]:
  "pl_machine (layout_at bs pe optional optionalSize certDir) = u16_at bs (pe + 4)"
  "pl_sectionsCount (layout_at bs pe optional optionalSize certDir) = u16_at bs (pe + 6)"
  "pl_checksumOffset (layout_at bs pe optional optionalSize certDir) = optional + 64"
  "pl_certDirectoryOffset (layout_at bs pe optional optionalSize certDir) = certDir"
  "pl_certificateOffset (layout_at bs pe optional optionalSize certDir) = u32_at bs certDir"
  "pl_certificateSize (layout_at bs pe optional optionalSize certDir) = u32_at bs (certDir + 4)"
  "pl_sizeOfHeaders (layout_at bs pe optional optionalSize certDir) = u32_at bs (optional + 60)"
  "pl_sectionTable (layout_at bs pe optional optionalSize certDir) = optional + optionalSize"
  by (simp_all add: layout_at_def)

lemma pe_layout_Inr:
  "pe_layout_of bs = Inr l \<longleftrightarrow>
     (\<exists>pe optional optionalSize certDir. header_ok bs pe \<and> optional_ok bs pe optional optionalSize certDir
        \<and> l = layout_at bs pe optional optionalSize certDir \<and> layout_ok bs l)"
proof -
  have "pe_layout_of bs = Inr l \<longleftrightarrow>
     (\<exists>pe. header_ok bs pe \<and> (\<exists>optional optionalSize certDir. optional_ok bs pe optional optionalSize certDir
        \<and> (layout_ok bs (layout_at bs pe optional optionalSize certDir)
        \<and> l = layout_at bs pe optional optionalSize certDir)))"
    unfolding pe_layout_of_def bindE_eq_Inr Let_def split_paired_Ex prod.case if_Inl_eq_Inr pe_offset_Inr
      pe_optional_Inr layout_ok_def layout_at_simps
    by (rule iff_exI, rule conj_cong [OF refl], (rule iff_exI)+, rule conj_cong [OF refl])
      (auto simp: layout_at_def not_less not_le word_greater_zero_iff add.commute)
  then show ?thesis by blast
qed

lemma alike_header:
  assumes "alike a b xs ys" "header_ok xs pe" "pe + 24 \<le> a" "a \<le> b"
  shows "header_ok ys pe"
proof -
  have f: "field ys pe 4 = field xs pe 4" "u32_at ys 60 = u32_at xs 60"
    using assms by (auto simp: header_ok_def intro!: alike_field [OF assms(1)] alike_u32 [OF assms(1)])
  have n: "ys ! i = xs ! i" if "i < 64" for i
    by (rule alike_nth [OF assms(1)]) (use that assms in \<open>auto simp: header_ok_def\<close>)
  have e: "ys ! 0 = xs ! 0" "ys ! 1 = xs ! 1" by (rule n, simp)+
  show ?thesis
    using assms(2) alike_length [OF assms(1)] unfolding header_ok_def f e
    by (elim conjE, intro conjI) (assumption | linarith)+
qed

lemma alike_optional:
  assumes "alike a b xs ys" "optional_ok xs pe optional optionalSize b" "a = optional + 64"
  shows "optional_ok ys pe optional optionalSize b"
proof -
  have o: "optional + 128 \<le> b" "b + 8 \<le> length xs" "optional = pe + 24" using assms by (auto simp: optional_ok_def)
  have e: "u16_at ys (pe + 20) = u16_at xs (pe + 20)" "u16_at ys optional = u16_at xs optional"
    "u32_at ys (b - 36) = u32_at xs (b - 36)"
    using o assms(3) by (auto intro!: alike_u16 [OF assms(1)] alike_u32 [OF assms(1)])
  show ?thesis
    using assms(2) alike_length [OF assms(1)] unfolding optional_ok_def e
    by (elim conjE, intro conjI) (assumption | linarith)+
qed

lemma alike_layout:
  assumes l: "pe_layout_of xs = Inr l" and a: "alike (pl_checksumOffset l) (pl_certDirectoryOffset l) xs ys"
    and c: "u32_at ys (pl_certDirectoryOffset l) = start" "u32_at ys (pl_certDirectoryOffset l + 4) = n"
    and e: "start \<noteq> 0" "unat start + unat n \<le> length ys"
  shows "pe_layout_of ys = Inr (l\<lparr>pl_certificateOffset := start, pl_certificateSize := n\<rparr>)"
proof -
  obtain pe optional optionalSize certDir where h: "header_ok xs pe" "optional_ok xs pe optional optionalSize certDir"
    "l = layout_at xs pe optional optionalSize certDir" "layout_ok xs l"
    using l by (auto simp: pe_layout_Inr)
  have o: "optional + 128 \<le> certDir" "certDir + 8 \<le> length xs" "optional = pe + 24" using h(2) by (auto simp: optional_ok_def)
  have a': "alike (optional + 64) certDir xs ys" using a by (simp add: h(3))
  have "header_ok ys pe" using o by (intro alike_header [OF a' h(1)]) simp_all
  moreover have "optional_ok ys pe optional optionalSize certDir" by (rule alike_optional [OF a' h(2) refl])
  moreover have eq: "l\<lparr>pl_certificateOffset := start, pl_certificateSize := n\<rparr>
      = layout_at ys pe optional optionalSize certDir"
  proof -
    have "u16_at ys (pe + 4) = u16_at xs (pe + 4)" "u16_at ys (pe + 6) = u16_at xs (pe + 6)"
      "u32_at ys (optional + 60) = u32_at xs (optional + 60)"
      using o by (auto intro!: alike_u16 [OF a'] alike_u32 [OF a'])
    then show ?thesis using c by (simp add: h(3) layout_at_def)
  qed
  moreover have "layout_ok ys (l\<lparr>pl_certificateOffset := start, pl_certificateSize := n\<rparr>)"
    using h(4) e alike_length [OF a] by (simp add: layout_ok_def)
  ultimately show ?thesis by (auto simp: pe_layout_Inr)
qed

lemma layout_facts:
  assumes "pe_layout_of bs = Inr l"
  shows "pl_checksumOffset l + 64 \<le> pl_certDirectoryOffset l" "pl_certDirectoryOffset l + 8 \<le> pl_sectionTable l"
    "pl_certDirectoryOffset l + 8 \<le> unat (pl_sizeOfHeaders l)" "unat (pl_sizeOfHeaders l) \<le> length bs"
    "pl_sectionTable l + unat (pl_sectionsCount l) * 40 \<le> length bs"
    "pl_certificateSize l = 0 \<or> unat (pl_certificateOffset l) + unat (pl_certificateSize l) \<le> length bs"
  using assms by (auto simp: pe_layout_Inr optional_ok_def layout_ok_def)


section \<open>Sections and preimage\<close>

definition sections_in :: "bytes \<Rightarrow> peSection list \<Rightarrow> bool" where
  "sections_in bs ss \<longleftrightarrow> list_all (\<lambda>s. section_end s \<le> length bs) ss"

lemma pe_sections_in: "pe_sections bs tbl is = Inr ss \<Longrightarrow> sections_in bs ss"
  by (induction "is" arbitrary: ss)
    (auto simp: sections_in_def section_end_def Let_def bindE_eq_Inr not_less split: if_splits)

lemma sorted_sections_in: "sorted_sections bs l = Inr ss \<Longrightarrow> sections_in bs ss"
  using pe_sections_in
  by (fastforce simp: sorted_sections_def Let_def bindE_eq_Inr sections_in_def list_all_iff split: if_splits)

lemma alike_sections:
  assumes "alike a b xs ys" "pe_sections xs tbl is = Inr ss" "\<forall>i \<in> set is. tbl + i * 40 + 40 \<le> length xs"
    "a + 4 \<le> tbl" "b + 8 \<le> tbl"
  shows "pe_sections ys tbl is = Inr ss"
  using assms(2,3)
proof (induction "is" arbitrary: ss)
  case (Cons i "is")
  have f: "u32_at ys (tbl + i * 40 + 16) = u32_at xs (tbl + i * 40 + 16)"
    "u32_at ys (tbl + i * 40 + 20) = u32_at xs (tbl + i * 40 + 20)"
    using Cons.prems(2) assms(4,5) by (auto intro!: alike_u32 [OF assms(1)])
  show ?case
    using Cons alike_length [OF assms(1)]
    by (auto simp: f Let_def bindE_eq_Inr split: if_splits)
qed simp

text \<open>The sections lie behind the headers.\<close>

definition sections_behind :: "pe_layout \<Rightarrow> peSection list \<Rightarrow> bool" where
  "sections_behind l ss \<longleftrightarrow> list_all (\<lambda>s. pl_sizeOfHeaders l \<le> ps_offset s) ss"

lemma alike_sorted_sections:
  assumes "pe_layout_of xs = Inr l" "alike (pl_checksumOffset l) (pl_certDirectoryOffset l) xs ys"
    "sorted_sections xs l = Inr ss"
  shows "sorted_sections ys (l\<lparr>pl_certificateOffset := start, pl_certificateSize := n\<rparr>) = Inr ss"
proof -
  note f = layout_facts [OF assms(1)]
  obtain ss0 where "pe_sections xs (pl_sectionTable l) [0..<unat (pl_sectionsCount l)] = Inr ss0"
    using assms(3) by (auto simp: sorted_sections_def bindE_eq_Inr)
  moreover from this have "pe_sections ys (pl_sectionTable l) [0..<unat (pl_sectionsCount l)] = Inr ss0"
    using f by (intro alike_sections [OF assms(2)]) auto
  ultimately show ?thesis using assms(3) by (simp add: sorted_sections_def)
qed

lemma alike_section_bytes:
  assumes "pe_layout_of xs = Inr l" "alike (pl_checksumOffset l) (pl_certDirectoryOffset l) xs ys"
    "pl_sizeOfHeaders l \<le> ps_offset s" "section_end s \<le> length xs"
  shows "section_bytes ys s = section_bytes xs s"
  unfolding section_bytes_def
  using layout_facts [OF assms(1)] assms(3,4)
  by (intro alike_slice [OF assms(2)]) (auto simp: word_le_unat)

lemma alike_headers:
  assumes "pe_layout_of xs = Inr l" "alike (pl_checksumOffset l) (pl_certDirectoryOffset l) xs ys"
  shows "hashed_headers ys (l\<lparr>pl_certificateOffset := start, pl_certificateSize := n\<rparr>) = hashed_headers xs l"
proof -
  note f = layout_facts [OF assms(1)]
  have "slice ys 0 (pl_checksumOffset l) = slice xs 0 (pl_checksumOffset l)"
    "slice ys (pl_checksumOffset l + 4) (pl_certDirectoryOffset l) = slice xs (pl_checksumOffset l + 4) (pl_certDirectoryOffset l)"
    "slice ys (pl_certDirectoryOffset l + 8) (unat (pl_sizeOfHeaders l)) = slice xs (pl_certDirectoryOffset l + 8) (unat (pl_sizeOfHeaders l))"
    using f by (auto intro!: alike_slice [OF assms(2)])
  then show ?thesis by (simp add: hashed_headers_def slice_def)
qed

text \<open>The image after signing: the checksum, the directory entry and the table at the end.\<close>

definition signed_image :: "bytes \<Rightarrow> pe_layout \<Rightarrow> bytes \<Rightarrow> bytes \<Rightarrow> bytes" where
  "signed_image bs l checksum table =
     put_at (pl_checksumOffset l) checksum
       (put_at (pl_certDirectoryOffset l) (put_u32 (of_nat (length bs)) @ put_u32 (of_nat (length table))) bs) @ table"

lemma signed_image_facts:
  fixes table :: bytes
  assumes l: "pe_layout_of bs = Inr l" and c: "length checksum = 4"
  defines "ys \<equiv> signed_image bs l checksum table"
  shows "alike (pl_checksumOffset l) (pl_certDirectoryOffset l) bs ys" "length ys = length bs + length table"
    "u32_at ys (pl_certDirectoryOffset l) = of_nat (length bs)"
    "u32_at ys (pl_certDirectoryOffset l + 4) = of_nat (length table)"
    "drop (length bs) ys = table"
proof -
  note f = layout_facts [OF l]
  let ?d = "put_u32 (of_nat (length bs)) @ put_u32 (of_nat (length table))"
  let ?p = "put_at (pl_certDirectoryOffset l) ?d bs"
  let ?q = "put_at (pl_checksumOffset l) checksum ?p"
  have lp: "length ?p = length bs" "length ?q = length bs" using f c by simp_all
  have y: "ys = ?q @ table" by (simp add: ys_def signed_image_def)
  show "length ys = length bs + length table" "drop (length bs) ys = table" using lp by (simp_all add: y)
  show "alike (pl_checksumOffset l) (pl_certDirectoryOffset l) bs ys"
    using f c lp by (auto simp: alike_def y nth_append nth_put_at)
  have "field ys i 4 = field ?p i 4" if "pl_certDirectoryOffset l \<le> i" "i + 4 \<le> length bs" for i
    using that f c lp by (simp add: y field_append1 field_put_other)
  moreover have "field ?p (pl_certDirectoryOffset l) 4 = put_u32 (of_nat (length bs))"
    "field ?p (pl_certDirectoryOffset l + 4) 4 = put_u32 (of_nat (length table))"
    using f by (simp_all add: field_put_inside field_append1 field_append2)
  ultimately show "u32_at ys (pl_certDirectoryOffset l) = of_nat (length bs)"
    "u32_at ys (pl_certDirectoryOffset l + 4) = of_nat (length table)"
    using f by (simp_all add: u32_at_def)
qed

lemma hashed_total_update [simp]:
  "hashed_total (l\<lparr>pl_certificateOffset := start, pl_certificateSize := n\<rparr>) ss = hashed_total l ss"
  by (simp add: hashed_total_def)

lemma signed_preimage:
  assumes l: "pe_layout_of bs = Inr l" and ss: "sorted_sections bs l = Inr ss" "sections_behind l ss"
    and p: "authenticode_preimage bs l = Inr preimage" and n: "pl_certificateSize l = 0"
    and c: "length checksum = 4" and b: "length bs + length table < 2 ^ 32"
  defines "l1 \<equiv> l\<lparr>pl_certificateOffset := of_nat (length bs), pl_certificateSize := of_nat (length table)\<rparr>"
  shows "authenticode_preimage (signed_image bs l checksum table) l1 = Inr preimage"
proof -
  let ?ys = "signed_image bs l checksum table"
  note f = layout_facts [OF l] and y = signed_image_facts [OF l c, of table]
  have total: "hashed_total l ss \<le> length bs" "pl_certDirectoryOffset l + 8 \<le> hashed_total l ss"
    using p f by (auto simp: authenticode_preimage_def ss bindE_def Let_def hashed_total_def split: if_splits)
  have u: "unat (of_nat (length bs) :: u32) = length bs" "unat (of_nat (length table) :: u32) = length table"
    using b by (simp_all add: unat_of_nat_32)
  have "slice ?ys (hashed_total l ss) (length bs) = slice bs (hashed_total l ss) (length bs)"
    using total f by (intro alike_slice [OF y(1)]) auto
  moreover have "drop (hashed_total l ss) ?ys = slice ?ys (hashed_total l ss) (length bs)" if "table = []"
    using that y(2) by (simp add: slice_def)
  ultimately have o: "hashed_overlay ?ys l1 (hashed_total l ss) = Inr (drop (hashed_total l ss) bs)"
    using total y(2) b by (auto simp: hashed_overlay_def l1_def u Let_def slice_def word_eq_unat)
  have m: "map (section_bytes ?ys) ss = map (section_bytes bs) ss"
    using ss(2) sorted_sections_in [OF ss(1)]
    by (auto simp: sections_behind_def sections_in_def list_all_iff intro!: alike_section_bytes [OF l y(1)])
  have "preimage = hashed_headers bs l @ concat (map (section_bytes bs) ss) @ drop (hashed_total l ss) bs"
    using p n total by (simp add: authenticode_preimage_def ss bindE_def hashed_overlay_def Let_def)
  moreover have "authenticode_preimage ?ys l1
      = Inr (hashed_headers bs l @ concat (map (section_bytes ?ys) ss) @ drop (hashed_total l ss) bs)"
    using o total y(2) alike_sorted_sections [OF l y(1) ss(1)] alike_headers [OF l y(1)]
    by (simp add: authenticode_preimage_def l1_def bindE_def Let_def)
  ultimately show ?thesis by (simp add: m)
qed

lemma signed_digest:
  assumes l: "pe_layout_of bs = Inr l" and ss: "sorted_sections bs l = Inr ss" "sections_behind l ss"
    and h: "AuthenticodeSHA256 bs = Inr h" "ph_CertificateTableSize h = 0"
    and c: "length checksum = 4" and b: "length bs + length table < 2 ^ 32"
  shows "AuthenticodeSHA256 (signed_image bs l checksum table)
    = Inr (h\<lparr>ph_CertificateTableOffset := of_nat (length bs), ph_CertificateTableSize := of_nat (length table)\<rparr>)"
proof -
  note y = signed_image_facts [OF l c, of table]
  obtain preimage where p: "authenticode_preimage bs l = Inr preimage" and h': "h = \<lparr> ph_SHA256 = sha256_hex preimage,
      ph_Machine = pl_machine l, ph_NumberOfSections = pl_sectionsCount l,
      ph_CertificateTableOffset = pl_certificateOffset l, ph_CertificateTableSize = pl_certificateSize l \<rparr>"
    using h(1) by (auto simp: AuthenticodeSHA256_def l bindE_eq_Inr)
  have n: "pl_certificateSize l = 0" using h(2) by (simp add: h')
  have u: "unat (of_nat (length bs) :: u32) = length bs" "unat (of_nat (length table) :: u32) = length table"
    using b by (simp_all add: unat_of_nat_32)
  have "length bs \<noteq> 0" using layout_facts [OF l] by linarith
  then have "(of_nat (length bs) :: u32) \<noteq> 0" using u by (auto simp: word_eq_unat)
  then have "pe_layout_of (signed_image bs l checksum table)
      = Inr (l\<lparr>pl_certificateOffset := of_nat (length bs), pl_certificateSize := of_nat (length table)\<rparr>)"
    using y u by (intro alike_layout [OF l y(1)]) simp_all
  with signed_preimage [OF l ss p n c b] show ?thesis by (simp add: AuthenticodeSHA256_def h' bindE_def)
qed

section \<open>Packed images\<close>

fun packed_from :: "nat \<Rightarrow> peSection list \<Rightarrow> bool" where
  "packed_from p [] \<longleftrightarrow> True"
| "packed_from p (s # ss) \<longleftrightarrow> unat (ps_offset s) = p \<and> packed_from (section_end s) ss"

text \<open>The file without the checksum, the directory entry and the certificate table.\<close>

definition signed_bytes :: "bytes \<Rightarrow> pe_layout \<Rightarrow> bytes" where
  "signed_bytes bs l =
     take (pl_checksumOffset l) bs @ slice bs (pl_checksumOffset l + 4) (pl_certDirectoryOffset l)
     @ (if pl_certificateSize l = 0 then drop (pl_certDirectoryOffset l + 8) bs
        else slice bs (pl_certDirectoryOffset l + 8) (unat (pl_certificateOffset l))
             @ drop (unat (pl_certificateOffset l) + unat (pl_certificateSize l)) bs)"

lemma packed_bytes:
  "packed_from p ss \<Longrightarrow> concat (map (section_bytes bs) ss) = slice bs p (p + sum_list (map (\<lambda>s. unat (ps_size s)) ss))"
proof (induction ss arbitrary: p)
  case (Cons s ss)
  have e: "unat (ps_offset s) = p" "section_end s = p + unat (ps_size s)" using Cons.prems by (auto simp: section_end_def)
  have "concat (map (section_bytes bs) ss)
      = slice bs (section_end s) (section_end s + sum_list (map (\<lambda>s. unat (ps_size s)) ss))"
    using Cons by simp
  then have "concat (map (section_bytes bs) (s # ss)) = slice bs p (p + unat (ps_size s))
      @ slice bs (p + unat (ps_size s)) (p + unat (ps_size s) + sum_list (map (\<lambda>s. unat (ps_size s)) ss))"
    by (simp only: list.map concat.simps) (simp add: section_bytes_def e)
  then show ?case by (simp add: slice_append add.assoc del: concat.simps)
qed (simp add: slice_def)

lemma drop_slice: "i \<le> j \<Longrightarrow> slice bs i j @ drop j bs = drop i bs"
  using append_take_drop_id [of "j - i" "drop i bs"] by (simp add: slice_def)

lemma packed_preimage:
  assumes "pe_layout_of bs = Inr l" "sorted_sections bs l = Inr ss" "packed_from (unat (pl_sizeOfHeaders l)) ss"
    "authenticode_preimage bs l = Inr preimage"
  shows "preimage = signed_bytes bs l"
proof -
  note f = layout_facts [OF assms(1)]
  let ?h = "unat (pl_sizeOfHeaders l)" let ?t = "hashed_total l ss"
  have t: "?h \<le> ?t" by (simp add: hashed_total_def)
  have body: "slice bs (pl_certDirectoryOffset l + 8) ?h @ concat (map (section_bytes bs) ss) @ ys
      = slice bs (pl_certDirectoryOffset l + 8) ?t @ ys" for ys
    using f packed_bytes [OF assms(3)] by (simp add: slice_append hashed_total_def flip: append_assoc)
  obtain ov where o: "hashed_overlay bs l ?t = Inr ov"
    and p: "preimage = hashed_headers bs l @ concat (map (section_bytes bs) ss) @ ov"
    using assms(4) by (auto simp: authenticode_preimage_def assms(2) bindE_eq_Inr Let_def bindE_def split: if_splits sum.splits)
  have d: "pl_certDirectoryOffset l + 8 \<le> ?t" using f t by linarith
  show ?thesis
  proof (cases "pl_certificateSize l = 0")
    case True
    with o have "ov = drop ?t bs" by (simp add: hashed_overlay_def Let_def)
    with True d show ?thesis by (simp add: p signed_bytes_def hashed_headers_def body drop_slice)
  next
    case False
    let ?s = "unat (pl_certificateOffset l)" let ?e = "?s + unat (pl_certificateSize l)"
    have "?t \<le> ?s" "ov = slice bs ?t ?s @ drop ?e bs"
      using o False by (auto simp: hashed_overlay_def Let_def not_less split: if_splits)
    moreover from this d have "slice bs (pl_certDirectoryOffset l + 8) ?t @ ov
        = slice bs (pl_certDirectoryOffset l + 8) ?s @ drop ?e bs"
      by (simp add: slice_append flip: append_assoc)
    ultimately show ?thesis using False by (simp add: p signed_bytes_def hashed_headers_def body)
  qed
qed

section \<open>The certificate table\<close>

text \<open>A WIN_CERTIFICATE record of revision 2.0, padded to eight bytes.\<close>

definition win_certificate :: "u16 \<times> bytes \<Rightarrow> bytes" where
  "win_certificate r = put_u32 (of_nat (8 + length (snd r))) @ put_u16 0x0200 @ put_u16 (fst r) @ snd r
     @ replicate ((length (snd r) + 7) div 8 * 8 - length (snd r)) 0"

fun table_certificates :: "pkcs7_decoder \<Rightarrow> (u16 \<times> bytes) list \<Rightarrow> certificate list res" where
  "table_certificates decoder [] = Inr []"
| "table_certificates decoder (r # rs) =
     bindE (if fst r = 0x0002
            then mapE (\<lambda>e. Errorf ''parse Authenticode PKCS#7 certificates: %w'' [FE e]) (decoder (snd r))
            else Inr []) (\<lambda>certs.
     bindE (table_certificates decoder rs) (\<lambda>rest. Inr (certs @ rest)))"

lemma length_win_certificate: "length (win_certificate r) = (8 + length (snd r) + 7) div 8 * 8"
proof -
  have "8 + length (snd r) + 7 = length (snd r) + 7 + 8" by simp
  then have "(8 + length (snd r) + 7) div 8 = (length (snd r) + 7) div 8 + 1" by (simp only: div_add_self2)
  moreover have "length (snd r) \<le> (length (snd r) + 7) div 8 * 8" by simp
  ultimately show ?thesis by (simp add: win_certificate_def)
qed

lemma win_certificate_reads:
  assumes "drop offset bs = win_certificate r @ rest" "8 + length (snd r) < 2 ^ 32" "offset \<le> length bs"
  shows "unat (u32_at bs offset) = 8 + length (snd r)" "u16_at bs (offset + 6) = fst r"
    "slice bs (offset + 8) (offset + (8 + length (snd r))) = snd r"
    "offset + length (win_certificate r) \<le> length bs"
proof -
  have "length bs = offset + length (win_certificate r) + length rest"
    using arg_cong [OF assms(1), of length] assms(3) by simp
  then show "offset + length (win_certificate r) \<le> length bs" by simp
  have d: "drop (k + offset) bs = drop k (win_certificate r @ rest)" for k using assms(1) by (simp flip: drop_drop)
  have "take 4 (drop offset bs) = put_u32 (of_nat (8 + length (snd r)))"
    by (simp add: assms(1) win_certificate_def)
  then show "unat (u32_at bs offset) = 8 + length (snd r)"
    using assms(2) unat_of_nat_32 [of "8 + length (snd r)"] by (simp add: u32_at_def field_def)
  have "take 2 (drop (6 + offset) bs) = put_u16 (fst r)"
    by (simp add: d win_certificate_def)
  then show "u16_at bs (offset + 6) = fst r" by (simp add: u16_at_def field_def add.commute)
  have "take (length (snd r)) (drop (8 + offset) bs) = snd r"
    by (simp add: d win_certificate_def)
  then show "slice bs (offset + 8) (offset + (8 + length (snd r))) = snd r"
    by (simp add: slice_def add.commute)
qed

lemma certificate_records_table:
  assumes "list_all (\<lambda>r. 8 + length (snd r) < 2 ^ 32) rs"
    "drop offset bs = concat (map win_certificate rs)" "offset \<le> length bs"
  shows "certificate_records decoder bs offset (length bs) = table_certificates decoder rs"
  using assms
proof (induction rs arbitrary: offset)
  case Nil
  then show ?case by (simp add: certificate_records.simps)
next
  case (Cons r rs)
  let ?n = "8 + length (snd r)"
  have d: "drop offset bs = win_certificate r @ concat (map win_certificate rs)" using Cons.prems(2) by simp
  note w = win_certificate_reads [OF d _ Cons.prems(3)]
  have b: "?n < 2 ^ 32" using Cons.prems(1) by simp
  have l: "length (win_certificate r) = (?n + 7) div 8 * 8" by (rule length_win_certificate)
  have "?n \<le> (?n + 7) div 8 * 8" by simp
  then have le: "offset + ?n \<le> length bs" using w(4) [OF b] l by linarith
  let ?o = "offset + (?n + 7) div 8 * 8"
  have "drop ?o bs = drop (length (win_certificate r)) (drop offset bs)" by (simp only: l drop_drop add.commute)
  also have "\<dots> = concat (map win_certificate rs)" by (simp add: d)
  finally have rest: "drop ?o bs = concat (map win_certificate rs)" .
  have "certificate_records decoder bs ?o (length bs) = table_certificates decoder rs"
    using Cons.prems(1) rest w(4) [OF b] l by (intro Cons.IH) simp_all
  moreover have "\<not> length bs < offset + ?n" "offset < length bs" "\<not> length bs - offset < 8" using le by linarith+
  ultimately show ?case
    by (subst certificate_records.simps) (simp only: Let_def w(1-3) [OF b] table_certificates.simps if_True if_False
      not_less add_leD1, simp)
qed

section \<open>The check\<close>

text \<open>The answer for an image with this digest and these certificates.\<close>

definition image_verdict :: "string \<Rightarrow> Database option \<Rightarrow> pe_layout \<Rightarrow> bytes \<Rightarrow> certificate list res \<Rightarrow> CheckResult" where
  "image_verdict path db l preimage certs =
     (let r = (new_result path)\<lparr> cr_AuthenticodeSHA256 := sha256_hex preimage, cr_Machine := pl_machine l,
            cr_DirectHashRevoked := IsSHA256Revoked db (sha256 preimage) \<rparr> in
      case certs of
        Inl e \<Rightarrow> r\<lparr> cr_Error := Some e \<rparr>
      | Inr cs \<Rightarrow> r\<lparr> cr_X509RevocationChecked := True, cr_EmbeddedCertificates := length cs,
          cr_X509CertificateRevoked := list_ex (\<lambda>c. IsX509Revoked db (ct_Raw c)) cs,
          cr_RevokedCertificates := map certificate_name (filter (\<lambda>c. IsX509Revoked db (ct_Raw c)) cs) \<rparr>)"

lemma signed_digest':
  assumes "pe_layout_of bs = Inr l" "sorted_sections bs l = Inr ss" "sections_behind l ss"
    and "authenticode_preimage bs l = Inr preimage" "pl_certificateSize l = 0"
    and "length checksum = 4" "length bs + length table < 2 ^ 32"
  shows "AuthenticodeSHA256 (signed_image bs l checksum table)
    = Inr \<lparr> ph_SHA256 = sha256_hex preimage, ph_Machine = pl_machine l, ph_NumberOfSections = pl_sectionsCount l,
        ph_CertificateTableOffset = of_nat (length bs), ph_CertificateTableSize = of_nat (length table) \<rparr>"
proof -
  have "AuthenticodeSHA256 bs = Inr \<lparr> ph_SHA256 = sha256_hex preimage, ph_Machine = pl_machine l,
      ph_NumberOfSections = pl_sectionsCount l, ph_CertificateTableOffset = pl_certificateOffset l,
      ph_CertificateTableSize = pl_certificateSize l \<rparr>"
    using assms(1,4) by (simp add: AuthenticodeSHA256_def bindE_def)
  from signed_digest [OF assms(1-3) this _ assms(6,7)] assms(5) show ?thesis by simp
qed

lemma signed_certificates:
  assumes "pe_layout_of bs = Inr l" "length checksum = 4"
    and b: "length bs + length (concat (map win_certificate rs)) < 2 ^ 32"
    and h: "ph_CertificateTableOffset h = of_nat (length bs)"
      "ph_CertificateTableSize h = of_nat (length (concat (map win_certificate rs)))"
  shows "embeddedAuthenticodeCertificatesData decoder (signed_image bs l checksum (concat (map win_certificate rs))) h
    = table_certificates decoder rs"
proof -
  let ?t = "concat (map win_certificate rs)"
  let ?ys = "signed_image bs l checksum ?t"
  note y = signed_image_facts [OF assms(1,2), of ?t]
  have u: "unat (of_nat (length bs) :: u32) = length bs" "unat (of_nat (length ?t) :: u32) = length ?t"
    using b by (simp_all add: unat_of_nat_32)
  have small: "8 + length (snd r) < 2 ^ 32" if r: "r \<in> set rs" for r
  proof -
    have "8 + length (snd r) \<le> (8 + length (snd r) + 7) div 8 * 8" by simp
    also have "\<dots> = length (win_certificate r)" by (simp only: length_win_certificate)
    also have "\<dots> \<le> sum_list (map length (map win_certificate rs))"
      using r by (intro member_le_sum_list) simp_all
    also have "\<dots> = length ?t" by (simp only: length_concat)
    finally show ?thesis using b by linarith
  qed
  have "certificate_records decoder ?ys (length bs) (length ?ys) = table_certificates decoder rs"
    using small y(2,5) by (intro certificate_records_table) (simp_all add: list_all_iff)
  moreover have "table_certificates decoder rs = Inr []" if "length ?t = 0"
    using that length_win_certificate by (cases rs) auto
  moreover have "(of_nat (length ?t) :: u32) = 0 \<longleftrightarrow> length ?t = 0" using u by (auto simp: word_eq_unat)
  ultimately show ?thesis
    using y(2) u by (auto simp: embeddedAuthenticodeCertificatesData_def h Let_def simp del: length_concat)
qed

lemma signed_check:
  assumes "pe_layout_of bs = Inr l" "sorted_sections bs l = Inr ss" "sections_behind l ss"
    and "authenticode_preimage bs l = Inr preimage" "pl_certificateSize l = 0"
    and "length checksum = 4" "length bs + length (concat (map win_certificate rs)) < 2 ^ 32"
  shows "checkPEData decoder path (signed_image bs l checksum (concat (map win_certificate rs))) db
    = image_verdict path db l preimage (table_certificates decoder rs)"
proof -
  let ?h = "\<lparr> ph_SHA256 = sha256_hex preimage, ph_Machine = pl_machine l, ph_NumberOfSections = pl_sectionsCount l,
     ph_CertificateTableOffset = of_nat (length bs),
     ph_CertificateTableSize = of_nat (length (concat (map win_certificate rs))) \<rparr> :: PEHash"
  have c: "embeddedAuthenticodeCertificatesData decoder (signed_image bs l checksum (concat (map win_certificate rs))) ?h
    = table_certificates decoder rs"
    by (rule signed_certificates [OF assms(1,6,7)]) simp_all
  have d: "hex_decode (sha256_hex preimage) = Some (sha256 preimage)" by (simp add: sha256_hex_def hex_decode_encode)
  have i: "cr_X509CertificateRevoked (new_result path) = False" "cr_RevokedCertificates (new_result path) = []"
    by (simp_all add: new_result_def)
  show ?thesis
    by (simp add: checkPEData_def signed_digest' [OF assms] c d check_certificates image_verdict_def Let_def i
      split: sum.split)
qed

section \<open>An image\<close>

definition sample_image :: bytes where
  "sample_image = put_fields
     [(0, [0x4d, 0x5a]), (60, [64]), (64, [0x50, 0x45]), (68, [0x64, 0xaa]), (70, [1]), (84, [240]),
      (88, [0x0b, 0x02]), (148, [112, 1]), (196, [16]), (344, [16]), (348, [112, 1]), (368, [7, 7, 7, 7])]
     (replicate 384 0)"

lemma sample_layout: "pe_layout_of sample_image = Inr \<lparr> pl_machine = 0xaa64, pl_sectionsCount = 1,
   pl_checksumOffset = 152, pl_certDirectoryOffset = 232, pl_certificateOffset = 0, pl_certificateSize = 0,
   pl_sizeOfHeaders = 368, pl_sectionTable = 328 \<rparr>"
  by code_simp

lemma sample_sections: "pe_layout_of sample_image = Inr l \<Longrightarrow>
   sorted_sections sample_image l = Inr [\<lparr> ps_offset = 368, ps_size = 16 \<rparr>]"
proof -
  have "(case pe_layout_of sample_image of Inr l \<Rightarrow> sorted_sections sample_image l = Inr [\<lparr> ps_offset = 368, ps_size = 16 \<rparr>] | Inl _ \<Rightarrow> False)"
    by code_simp
  then show "pe_layout_of sample_image = Inr l \<Longrightarrow> ?thesis" by simp
qed

lemma sample_preimage: "pe_layout_of sample_image = Inr l \<Longrightarrow> \<exists>preimage. authenticode_preimage sample_image l = Inr preimage"
proof -
  have "(case pe_layout_of sample_image of Inr l \<Rightarrow> is_ok (authenticode_preimage sample_image l) | Inl _ \<Rightarrow> False)"
    by code_simp
  then show "pe_layout_of sample_image = Inr l \<Longrightarrow> ?thesis" by (simp add: is_ok_iff)
qed

section \<open>Properties\<close>

text \<open>
  C16: For an image whose sections follow the headers one after the other, the Authenticode digest
  is the SHA-256 of the whole file without its checksum, its certificate directory entry and its
  certificate table: every other byte is covered.
\<close>

theorem authenticode_of_packed_image:
  assumes "pe_layout_of bs = Inr l" "sorted_sections bs l = Inr ss" "packed_from (unat (pl_sizeOfHeaders l)) ss"
    and "AuthenticodeSHA256 bs = Inr h"
  shows "ph_SHA256 h = sha256_hex (signed_bytes bs l)"
  using assms packed_preimage by (auto simp: AuthenticodeSHA256_def bindE_def split: sum.splits)

text \<open>
  C15: Signing does not change the Authenticode digest: of an unsigned image whose sections lie
  behind its headers, the image with any checksum and any certificate table appended has the same
  digest, machine and sections, and announces the table at the end of the old file.
\<close>

theorem signing_keeps_digest:
  assumes "pe_layout_of bs = Inr l" "sorted_sections bs l = Inr ss" "sections_behind l ss"
    and "AuthenticodeSHA256 bs = Inr h" "ph_CertificateTableSize h = 0"
    and "length checksum = 4" "length bs + length table < 2 ^ 32"
  shows "AuthenticodeSHA256 (signed_image bs l checksum table)
    = Inr (h\<lparr>ph_CertificateTableOffset := of_nat (length bs), ph_CertificateTableSize := of_nat (length table)\<rparr>)"
  by (rule signed_digest [OF assms])

text \<open>
  The check of a signed image: its direct revocation is decided by the digest of the unsigned
  image, the records of the appended table are all read, and the image's certificate verdict
  names exactly the certificates in them that the database revokes.
\<close>

theorem signed_image_verdict:
  assumes "pe_layout_of bs = Inr l" "sorted_sections bs l = Inr ss" "sections_behind l ss"
    and "authenticode_preimage bs l = Inr preimage" "pl_certificateSize l = 0"
    and "length checksum = 4" "length bs + length (concat (map win_certificate rs)) < 2 ^ 32"
  shows "checkPEData decoder path (signed_image bs l checksum (concat (map win_certificate rs))) db
    = image_verdict path db l preimage (table_certificates decoder rs)"
  by (rule signed_check [OF assms])

section \<open>Witnesses\<close>

lemma sample_behind: "sections_behind l [\<lparr> ps_offset = 368, ps_size = 16 \<rparr>] \<longleftrightarrow> pl_sizeOfHeaders l \<le> 368"
  by (simp add: sections_behind_def)

theorem authenticode_of_packed_image_witness:
  "\<exists>l h. pe_layout_of sample_image = Inr l \<and> AuthenticodeSHA256 sample_image = Inr h
     \<and> ph_SHA256 h = sha256_hex (signed_bytes sample_image l)"
proof -
  obtain l where l: "pe_layout_of sample_image = Inr l" "pl_sizeOfHeaders l = 368" using sample_layout by auto
  obtain preimage where "authenticode_preimage sample_image l = Inr preimage" using sample_preimage [OF l(1)] by blast
  then obtain h where h: "AuthenticodeSHA256 sample_image = Inr h" using l by (simp add: AuthenticodeSHA256_def bindE_def)
  have "packed_from (unat (pl_sizeOfHeaders l)) [\<lparr> ps_offset = 368, ps_size = 16 \<rparr>]" by (simp add: l(2))
  from authenticode_of_packed_image [OF l(1) sample_sections [OF l(1)] this h] l(1) h show ?thesis by blast
qed

theorem signing_keeps_digest_witness:
  "\<exists>l h. pe_layout_of sample_image = Inr l \<and> AuthenticodeSHA256 sample_image = Inr h
     \<and> AuthenticodeSHA256 (signed_image sample_image l [1, 2, 3, 4] [16, 0, 0, 0, 0, 2, 2, 0, 1, 1, 1, 1, 1, 1, 1, 1])
       = Inr (h\<lparr>ph_CertificateTableOffset := 384, ph_CertificateTableSize := 16\<rparr>)"
proof -
  obtain l where l: "pe_layout_of sample_image = Inr l" "pl_sizeOfHeaders l = 368" "pl_certificateSize l = 0"
    using sample_layout by auto
  obtain preimage where "authenticode_preimage sample_image l = Inr preimage" using sample_preimage [OF l(1)] by blast
  then obtain h where h: "AuthenticodeSHA256 sample_image = Inr h" "ph_CertificateTableSize h = 0"
    using l by (simp add: AuthenticodeSHA256_def bindE_def)
  have n: "length sample_image = 384" by (simp add: sample_image_def)
  from signing_keeps_digest [OF l(1) sample_sections [OF l(1)] _ h, of "[1, 2, 3, 4]" "[16, 0, 0, 0, 0, 2, 2, 0, 1, 1, 1, 1, 1, 1, 1, 1]"]
  show ?thesis using l h by (simp add: sample_behind n)
qed

theorem signed_image_verdict_witness:
  "\<exists>l preimage. authenticode_preimage sample_image l = Inr preimage
     \<and> checkPEData (\<lambda>bs. Inr [\<lparr> ct_Raw = bs, ct_Subject = ''CN=a'', ct_SerialNumber = ''1'' \<rparr>]) ''a.efi''
         (signed_image sample_image l [1, 2, 3, 4] (concat (map win_certificate [(2, [48, 0])]))) None
       = image_verdict ''a.efi'' None l preimage (Inr [\<lparr> ct_Raw = [48, 0], ct_Subject = ''CN=a'', ct_SerialNumber = ''1'' \<rparr>])"
proof -
  obtain l where l: "pe_layout_of sample_image = Inr l" "pl_sizeOfHeaders l = 368" "pl_certificateSize l = 0"
    using sample_layout by auto
  obtain preimage where p: "authenticode_preimage sample_image l = Inr preimage" using sample_preimage [OF l(1)] by blast
  have n: "length sample_image = 384" by (simp add: sample_image_def)
  have b: "length sample_image + length (concat (map win_certificate [(2, [48, 0])])) < 2 ^ 32"
    by (simp add: n length_win_certificate)
  have s: "sections_behind l [\<lparr> ps_offset = 368, ps_size = 16 \<rparr>]" by (simp add: sample_behind l)
  have t: "table_certificates (\<lambda>bs. Inr [\<lparr> ct_Raw = bs, ct_Subject = ''CN=a'', ct_SerialNumber = ''1'' \<rparr>]) [(2, [48, 0])]
      = Inr [\<lparr> ct_Raw = [48, 0], ct_Subject = ''CN=a'', ct_SerialNumber = ''1'' \<rparr>]"
    by (simp add: bindE_def)
  have c: "length [1, 2, 3, 4 :: byte] = 4" by simp
  from signed_image_verdict [OF l(1) sample_sections [OF l(1)] s p l(3) c b] show ?thesis using p t by metis
qed

end
