(* ===== verification/BootConfig.thy ===== *)
theory BootConfig
  imports GptTable
begin

text \<open>
  \<open>internal/persistence/patch.go\<close> and \<open>detect.go\<close>: the detection of a live medium from its boot
  configurations and the edit that adds the persistence parameter to their kernel lines. A medium is
  an environment of calls; a text is its list of bytes. This theory has the definitions.
\<close>

section \<open>Texts\<close>

definition blank :: "char \<Rightarrow> bool" where "blank c \<longleftrightarrow> c = CHR '' '' \<or> c = CHR 0x09"

text \<open>\<open>strings.SplitAfter\<close> and \<open>strings.Split\<close> at one byte.\<close>

definition cons_head :: "'a \<Rightarrow> 'a list list \<Rightarrow> 'a list list" where
  "cons_head x ps = (case ps of [] \<Rightarrow> [[x]] | p # qs \<Rightarrow> (x # p) # qs)"

fun split_after :: "'a \<Rightarrow> 'a list \<Rightarrow> 'a list list" where
  "split_after c [] = [[]]"
| "split_after c (x # xs) = (if x = c then [x] # split_after c xs else cons_head x (split_after c xs))"

fun split_on :: "'a \<Rightarrow> 'a list \<Rightarrow> 'a list list" where
  "split_on c [] = [[]]"
| "split_on c (x # xs) = (if x = c then [] # split_on c xs else cons_head x (split_on c xs))"

text \<open>\<open>strings.TrimRight\<close> and \<open>strings.Trim\<close> with a set of ASCII characters.\<close>

definition trim_right_by :: "('a \<Rightarrow> bool) \<Rightarrow> 'a list \<Rightarrow> 'a list" where
  "trim_right_by P s = rev (dropWhile P (rev s))"

definition trim_by :: "('a \<Rightarrow> bool) \<Rightarrow> 'a list \<Rightarrow> 'a list" where
  "trim_by P s = trim_right_by P (dropWhile P s)"

definition has_suffix :: "string \<Rightarrow> string \<Rightarrow> bool" where
  "has_suffix s t \<longleftrightarrow> has_prefix (rev s) (rev t)"

text \<open>\<open>strings.Index\<close>.\<close>

fun index_of :: "string \<Rightarrow> string \<Rightarrow> nat option" where
  "index_of [] p = (if p = [] then Some 0 else None)"
| "index_of (c # s) p = (if has_prefix (c # s) p then Some 0 else map_option Suc (index_of s p))"

text \<open>\<open>strings.Fields\<close>: \<open>cur\<close> is the field being read.\<close>

fun end_field :: "string \<Rightarrow> string list" where
  "end_field [] = []"
| "end_field (c # cur) = [c # cur]"

function fields_from :: "string \<Rightarrow> string \<Rightarrow> string list" where
  "fields_from cur [] = end_field cur"
| "fields_from cur (c # s) =
     (case strip_one space_runes (c # s) of
        None \<Rightarrow> fields_from (cur @ [c]) s
      | Some rest \<Rightarrow> end_field cur @ (if length rest < length (c # s) then fields_from [] rest else []))"
  by pat_completeness auto
termination by (relation "measure (\<lambda>(cur, s). length s)") auto

definition text_fields :: "string \<Rightarrow> string list" where "text_fields s = fields_from [] s"

text \<open>\<open>utf8.ValidString\<close>.\<close>

function valid_utf8 :: "nat list \<Rightarrow> bool" where
  "valid_utf8 bs =
     (if bs = [] then True
      else if fst (decode_rune bs) = 0xFFFD \<and> snd (decode_rune bs) \<le> 1 \<or> snd (decode_rune bs) = 0 then False
      else valid_utf8 (drop (snd (decode_rune bs)) bs))"
  by pat_completeness auto
termination by (relation "measure length") auto

declare valid_utf8.simps [simp del]

definition valid_string :: "string \<Rightarrow> bool" where "valid_string s \<longleftrightarrow> valid_utf8 (map of_char s)"

section \<open>Kernel lines\<close>

definition FamilyUbuntuCasper :: string where "FamilyUbuntuCasper = ''ubuntu-casper''"
definition FamilyDebianLive :: string where "FamilyDebianLive = ''debian-live''"
definition maxInfoBytes :: nat where "maxInfoBytes = 16384"
definition maxConfigBytes :: nat where "maxConfigBytes = 1048576"

definition familyBootMarker :: "string \<Rightarrow> string option" where
  "familyBootMarker family =
     (if family = FamilyUbuntuCasper then Some ''boot=casper''
      else if family = FamilyDebianLive then Some ''boot=live'' else None)"

definition normalizeKernelToken :: "string \<Rightarrow> string" where
  "normalizeKernelToken token = trim_by (\<lambda>c. c \<in> set (CHR 0x22 # CHR 0x27 # '' ,;[]()'')) token"

definition kernelTokenMatches :: "string \<Rightarrow> string \<Rightarrow> bool" where
  "kernelTokenMatches token expected \<longleftrightarrow> token = expected \<or> has_prefix token (expected @ ''='')"

definition path_remainder :: "string \<Rightarrow> string \<Rightarrow> string option" where
  "path_remainder lower directory =
     (case index_of lower (''/'' @ directory @ ''/'') of
        Some i \<Rightarrow> Some (drop (i + length (''/'' @ directory @ ''/'')) lower)
      | None \<Rightarrow> if has_prefix lower (directory @ ''/'') then Some (drop (length (directory @ ''/'')) lower) else None)"

definition kernelPathMatchesFamily :: "string \<Rightarrow> string \<Rightarrow> bool" where
  "kernelPathMatchesFamily token family =
     (let lower = to_lower (map (\<lambda>c. if c = CHR 0x5C then CHR ''/'' else c) token) in
      case (if family = FamilyUbuntuCasper then Some ''casper''
            else if family = FamilyDebianLive then Some ''live'' else None) of
        None \<Rightarrow> False
      | Some directory \<Rightarrow>
          (case path_remainder lower directory of
             None \<Rightarrow> False
           | Some remainder \<Rightarrow> has_prefix (takeWhile (\<lambda>c. c \<noteq> CHR ''/'') remainder) ''vmlinuz''))"

definition isKernelArgumentCommand :: "string \<Rightarrow> bool" where
  "isKernelArgumentCommand command \<longleftrightarrow>
     to_lower (trim_space command) \<in> {''linux'', ''linuxefi'', ''linux16'', ''append'', ''options'', ''kernel''}"

definition commented :: "string \<Rightarrow> bool" where "commented s \<longleftrightarrow> has_prefix s ''#''"

definition kernelArgumentsSelectFamily :: "string list \<Rightarrow> string \<Rightarrow> bool" where
  "kernelArgumentsSelectFamily arguments family =
     (case familyBootMarker family of
        None \<Rightarrow> False
      | Some marker \<Rightarrow>
          list_ex (\<lambda>raw. kernelTokenMatches (normalizeKernelToken raw) marker
              \<or> family = FamilyUbuntuCasper \<and> kernelPathMatchesFamily (normalizeKernelToken raw) family)
            (takeWhile (\<lambda>raw. \<not> commented raw) arguments))"

definition kernelArgumentsContain :: "string list \<Rightarrow> string \<Rightarrow> bool" where
  "kernelArgumentsContain arguments expected =
     list_ex (\<lambda>raw. kernelTokenMatches (normalizeKernelToken raw) expected) (takeWhile (\<lambda>raw. \<not> commented raw) arguments)"

text \<open>The three counters of \<open>inspectFamilyKernelLines\<close>: family lines, those without and with the parameter.\<close>

definition inspect_line :: "string \<Rightarrow> string \<Rightarrow> string \<Rightarrow> nat \<times> nat \<times> nat \<Rightarrow> nat \<times> nat \<times> nat" where
  "inspect_line family parameter line n =
     (let trimmed = trim_space line; fields = text_fields trimmed in
      case n of (familyLines, missing, present) \<Rightarrow>
      if trimmed = [] \<or> commented trimmed then n
      else if length fields < 2 \<or> \<not> isKernelArgumentCommand (hd fields) then n
      else if \<not> kernelArgumentsSelectFamily (tl fields) family then n
      else if parameter \<noteq> [] \<and> kernelArgumentsContain (tl fields) parameter then (familyLines + 1, missing, present + 1)
      else (familyLines + 1, missing + 1, present))"

definition inspectFamilyKernelLines :: "string \<Rightarrow> string \<Rightarrow> string \<Rightarrow> nat \<times> nat \<times> nat" where
  "inspectFamilyKernelLines content family parameter =
     fold (inspect_line family parameter) (split_on (CHR 0x0A) content) (0, 0, 0)"

section \<open>The edit\<close>

record tokenSpan =
  ts_start :: nat
  ts_end :: nat
  ts_value :: string

function scan_spans :: "nat \<Rightarrow> string \<Rightarrow> tokenSpan list" where
  "scan_spans i s =
     (let start = i + length (takeWhile blank s); rest = dropWhile blank s; v = takeWhile (\<lambda>c. \<not> blank c) rest in
      if rest = [] then []
      else \<lparr> ts_start = start, ts_end = start + length v, ts_value = v \<rparr>
        # scan_spans (start + length v) (dropWhile (\<lambda>c. \<not> blank c) rest))"
  by pat_completeness auto
termination
proof (relation "measure (\<lambda>(i, s). length s)", goal_cases)
  case (2 i s x xa xb)
  then obtain c t where r: "dropWhile blank s = c # t" by (cases "dropWhile blank s") auto
  then have "\<not> blank c" by (metis hd_dropWhile list.discI list.sel(1))
  then have "length (dropWhile (\<lambda>c. \<not> blank c) (dropWhile blank s)) \<le> length t"
    by (simp add: r length_dropWhile_le)
  also have "length t < length s" using length_dropWhile_le [of blank s] by (simp add: r)
  finally show ?case using 2 by simp
qed simp

declare scan_spans.simps [simp del]

definition scanTokenSpans :: "string \<Rightarrow> tokenSpan list" where "scanTokenSpans line = scan_spans 0 line"

text \<open>
  The loop over the arguments of a kernel line: None when the parameter is there, and otherwise the
  arguments and the place to insert it, before the first comment or \<open>---\<close>.
\<close>

fun scan_arguments :: "string \<Rightarrow> tokenSpan list \<Rightarrow> string list \<Rightarrow> nat option \<Rightarrow> (string list \<times> nat option) option" where
  "scan_arguments parameter [] arguments insertAt = Some (arguments, insertAt)"
| "scan_arguments parameter (s # spans) arguments insertAt =
     (if commented (ts_value s)
      then Some (arguments, if insertAt = None then Some (ts_start s) else insertAt)
      else if kernelTokenMatches (normalizeKernelToken (ts_value s)) parameter then None
      else scan_arguments parameter spans (arguments @ [ts_value s])
        (if normalizeKernelToken (ts_value s) = ''---'' \<and> insertAt = None then Some (ts_start s) else insertAt))"

definition patchKernelLine :: "string \<Rightarrow> string \<Rightarrow> string \<Rightarrow> string \<times> bool" where
  "patchKernelLine line family parameter =
     (let spans = scanTokenSpans line in
      if length spans < 2 \<or> commented (trim_space line) \<or> \<not> isKernelArgumentCommand (ts_value (hd spans)) then (line, False)
      else
      case scan_arguments parameter (tl spans) [] None of
        None \<Rightarrow> (line, False)
      | Some (arguments, insertAt) \<Rightarrow>
          if \<not> kernelArgumentsSelectFamily arguments family then (line, False)
          else
          (case insertAt of
             Some i \<Rightarrow> (take i line @ parameter @ '' '' @ drop i line, True)
           | None \<Rightarrow> (let trimmed = trim_right_by blank line in (trimmed @ '' '' @ parameter @ drop (length trimmed) line, True))))"

definition splitLineEnding :: "string \<Rightarrow> string \<times> string" where
  "splitLineEnding line =
     (if has_suffix line [CHR 0x0D, CHR 0x0A] then (take (length line - 2) line, [CHR 0x0D, CHR 0x0A])
      else if has_suffix line [CHR 0x0A] then (take (length line - 1) line, [CHR 0x0A])
      else (line, []))"

definition patch_part :: "string \<Rightarrow> string \<Rightarrow> string \<Rightarrow> string \<times> bool" where
  "patch_part family parameter part =
     (case splitLineEnding part of (body, ending) \<Rightarrow>
        (case patchKernelLine body family parameter of (patched, changed) \<Rightarrow> (patched @ ending, changed)))"

definition PatchBootConfig :: "string \<Rightarrow> Detection \<Rightarrow> (string \<times> nat) res" where
  "PatchBootConfig content detection =
     (if \<not> Ready detection then Inl (Msg ''media does not have a complete supported persistence contract'')
      else if maxConfigBytes < length content
      then Inl (Errorf ''boot configuration exceeds the %d-byte patch limit'' [FN maxConfigBytes])
      else if CHR 0x00 \<in> set content \<or> \<not> valid_string content then Inl (Msg ''boot configuration is not valid UTF-8 text'')
      else if familyBootMarker (de_Family detection) = None
      then Inl (Errorf ''unsupported persistence family %q'' [FS (de_Family detection)])
      else
      let parts = map (patch_part (de_Family detection) (de_BootParameter detection)) (split_after (CHR 0x0A) content) in
      Inr (concat (map fst parts), length (filter snd parts)))"

end
