(* ===== verification/BootPatch.thy ===== *)
theory BootPatch
  imports BootConfig
begin

text \<open>
  What the edit of \<open>BootConfig\<close> does to a text: which lines it changes, how, and that a second run
  changes nothing.
\<close>

section \<open>Words of a line\<close>

fun split_by :: "('a \<Rightarrow> bool) \<Rightarrow> 'a list \<Rightarrow> 'a list list" where
  "split_by P [] = [[]]"
| "split_by P (x # xs) = (if P x then [] # split_by P xs else cons_head x (split_by P xs))"

definition line_words :: "string \<Rightarrow> string list" where
  "line_words s = filter (\<lambda>v. v \<noteq> []) (split_by blank s)"

lemma split_by_nonempty [simp]: "split_by P xs \<noteq> []"
  by (induction xs) (auto simp: cons_head_def split: list.splits)

lemma split_by_append: "P x \<Longrightarrow> split_by P (a @ x # b) = split_by P a @ split_by P b"
  by (induction a) (auto simp: cons_head_def neq_Nil_conv split: list.splits)

lemma split_by_none: "list_all (\<lambda>c. \<not> P c) v \<Longrightarrow> split_by P v = [v]"
  by (induction v) (simp_all add: cons_head_def)

lemma line_words_Nil [simp]: "line_words [] = []"
  by (simp add: line_words_def)

lemma line_words_blank [simp]: "blank c \<Longrightarrow> line_words (c # s) = line_words s"
  by (simp add: line_words_def)

lemma line_words_append: "blank c \<Longrightarrow> line_words (a @ c # b) = line_words a @ line_words b"
  by (simp add: line_words_def split_by_append)

lemma line_words_blanks: "list_all blank a \<Longrightarrow> line_words (a @ s) = line_words s"
  by (induction a) simp_all

lemma line_words_one: "list_all (\<lambda>c. \<not> blank c) v \<Longrightarrow> line_words v = (if v = [] then [] else [v])"
  by (simp add: line_words_def split_by_none)

lemma line_words_join:
  assumes "a = [] \<or> b = [] \<or> blank (last a) \<or> blank (hd b)"
  shows "line_words (a @ b) = line_words a @ line_words b"
proof (cases "a = [] \<or> b = []")
  case False
  with assms consider a' c where "a = a' @ [c]" "blank c" | c b' where "b = c # b'" "blank c"
    by (metis append_butlast_last_id list.exhaust_sel)
  then show ?thesis
  proof cases
    case 1
    then show ?thesis using line_words_append [of c a' b] line_words_append [of c a' "[]"] by simp
  qed (simp add: line_words_append)
qed auto

lemma line_words_token:
  assumes "list_all (\<lambda>c. \<not> blank c) v" "v \<noteq> []" "rest = [] \<or> blank (hd rest)"
  shows "line_words (v @ rest) = v # line_words rest"
proof -
  have "line_words (v @ rest) = line_words v @ line_words rest" using assms(3) by (intro line_words_join) auto
  then show ?thesis by (simp add: line_words_one [OF assms(1)] assms(2))
qed

text \<open>One step of the scanner: leading blanks, a token, and the rest.\<close>

lemma scan_step:
  obtains (none) "list_all blank s" "scan_spans i s = []"
  | (some) g v rest where "s = g @ v @ rest" "list_all blank g" "list_all (\<lambda>c. \<not> blank c) v" "v \<noteq> []"
      "rest = [] \<or> blank (hd rest)"
      "scan_spans i s = \<lparr> ts_start = i + length g, ts_end = i + length g + length v, ts_value = v \<rparr>
         # scan_spans (i + length g + length v) rest"
proof (cases "dropWhile blank s = []")
  case True
  then have "list_all blank s" by (simp add: list_all_iff)
  then show ?thesis by (rule none) (subst scan_spans.simps, simp add: True)
next
  case False
  let ?g = "takeWhile blank s" and ?r = "dropWhile blank s"
  let ?v = "takeWhile (\<lambda>c. \<not> blank c) ?r" and ?rest = "dropWhile (\<lambda>c. \<not> blank c) ?r"
  have s: "s = ?g @ ?v @ ?rest" by simp
  have "\<not> blank (hd ?r)" using False by (rule hd_dropWhile)
  then have v: "?v \<noteq> []" using False by (cases ?r) auto
  have g: "list_all blank ?g" "list_all (\<lambda>c. \<not> blank c) ?v" by (auto simp: list_all_iff dest: set_takeWhileD)
  have rest: "?rest = [] \<or> blank (hd ?rest)" using hd_dropWhile [of "\<lambda>c. \<not> blank c" ?r] by blast
  have "scan_spans i s = \<lparr> ts_start = i + length ?g, ts_end = i + length ?g + length ?v, ts_value = ?v \<rparr>
         # scan_spans (i + length ?g + length ?v) ?rest"
    by (subst scan_spans.simps, unfold Let_def if_not_P [OF False]) (rule refl)
  from some [OF s g v rest this] show ?thesis .
qed

lemma span_values: "map ts_value (scan_spans i s) = line_words s"
proof (induction "length s" arbitrary: i s rule: less_induct)
  case less
  show ?case
  proof (cases rule: scan_step [of s i])
    case none
    then show ?thesis using line_words_blanks [of s "[]"] by simp
  next
    case (some g v rest)
    have "length rest < length s" using some by simp
    from less [OF this] show ?thesis by (simp add: some(6)) (simp add: some(1-5) line_words_blanks line_words_token)
  qed
qed

text \<open>A span cuts the line in two.\<close>

lemma span_cut:
  assumes "scan_spans i s = xs @ sp # ys"
  shows "\<exists>a b. s = a @ b \<and> ts_start sp = i + length a \<and> (a = [] \<or> blank (last a)) \<and> b \<noteq> []
    \<and> line_words a = map ts_value xs \<and> line_words b = map ts_value (sp # ys)"
  using assms
proof (induction xs arbitrary: i s)
  case Nil
  then show ?case
  proof (cases rule: scan_step [of s i])
    case (some g v rest)
    have "line_words g = []" using line_words_blanks [OF some(2), of "[]"] by simp
    moreover have "line_words (v @ rest) = map ts_value (sp # ys)"
      using Nil some(6) span_values [of "i + length g + length v" rest] by (auto simp: line_words_token some(3-5))
    moreover have "g = [] \<or> blank (last g)" using some(2) last_in_set [of g] by (auto simp: list_all_iff simp del: last_in_set)
    moreover have "ts_start sp = i + length g" using Nil some(6) by auto
    ultimately show ?thesis using some(1,4) by (intro exI [of _ g] exI [of _ "v @ rest"]) simp
  qed simp
next
  case (Cons x xs)
  from Cons.prems show ?case
  proof (cases rule: scan_step [of s i])
    case (some g v rest)
    with Cons.prems have x: "ts_value x = v" and r: "scan_spans (i + length g + length v) rest = xs @ sp # ys" by auto
    from Cons.IH [OF r] obtain a b where ab: "rest = a @ b" "ts_start sp = i + length g + length v + length a"
      "a = [] \<or> blank (last a)" "b \<noteq> []" "line_words a = map ts_value xs" "line_words b = map ts_value (sp # ys)" by blast
    have "a \<noteq> []"
    proof
      assume a: "a = []"
      with ab some(5) have h: "blank (hd b)" by simp
      from r show False
      proof (cases rule: scan_step [of rest "i + length g + length v"])
        case (some g' v' rest')
        with h ab a have "g' \<noteq> []" by (cases g') (auto simp: list_all_iff neq_Nil_conv)
        moreover have "ts_start sp = i + length g + length v + length g' \<or> xs \<noteq> []" using r some(6) by (cases xs) auto
        moreover have "map ts_value xs = []" using ab(5) a by simp
        ultimately show False using ab(2) a by auto
      qed simp
    qed
    with ab some have "line_words (g @ v @ a) = v # line_words a"
      by (cases a) (simp_all add: line_words_blanks line_words_token)
    with ab x some \<open>a \<noteq> []\<close> show ?thesis by (intro exI [of _ "g @ v @ a"] exI [of _ b]) simp
  qed simp
qed

section \<open>The edit of a line\<close>

text \<open>A kernel line of the family, and whether it has the parameter, in terms of its words.\<close>

definition kernel_line :: "string \<Rightarrow> string \<Rightarrow> bool" where
  "kernel_line family line \<longleftrightarrow> 2 \<le> length (line_words line) \<and> \<not> commented (trim_space line)
     \<and> isKernelArgumentCommand (hd (line_words line)) \<and> kernelArgumentsSelectFamily (tl (line_words line)) family"

definition has_parameter :: "string \<Rightarrow> string \<Rightarrow> bool" where
  "has_parameter parameter line \<longleftrightarrow> kernelArgumentsContain (tl (line_words line)) parameter"

abbreviation active :: "string list \<Rightarrow> string list" where
  "active arguments \<equiv> takeWhile (\<lambda>raw. \<not> commented raw) arguments"

lemma scan_arguments_None:
  "scan_arguments parameter spans arguments pos = None \<longleftrightarrow> kernelArgumentsContain (map ts_value spans) parameter"
  by (induction spans arbitrary: arguments pos) (auto simp: kernelArgumentsContain_def)

lemma scan_arguments_Some:
  "scan_arguments parameter spans arguments pos = Some (as, pos1) \<Longrightarrow> as = arguments @ active (map ts_value spans)"
proof (induction spans arbitrary: arguments pos)
  case (Cons s spans)
  from Cons.prems show ?case by (auto split: if_splits dest: Cons.IH)
qed simp

lemma scan_arguments_keeps: "scan_arguments parameter spans arguments (Some i) = Some (as, pos1) \<Longrightarrow> pos1 = Some i"
  by (induction spans arbitrary: arguments) (auto split: if_splits)

lemma scan_arguments_pos:
  "scan_arguments parameter spans arguments None = Some (as, Some i) \<Longrightarrow>
     \<exists>xs sp ys. spans = xs @ sp # ys \<and> i = ts_start sp \<and> list_all (\<lambda>s. \<not> commented (ts_value s)) xs"
proof (induction spans arbitrary: arguments)
  case (Cons s spans)
  consider "i = ts_start s" | "scan_arguments parameter spans (arguments @ [ts_value s]) None = Some (as, Some i)"
      "\<not> commented (ts_value s)"
    using Cons.prems by (auto split: if_splits dest: scan_arguments_keeps)
  then show ?case
  proof cases
    case 1
    then show ?thesis by (intro exI [of _ "[]"]) simp
  next
    case 2
    from Cons.IH [OF 2(1)] obtain xs sp ys where "spans = xs @ sp # ys" "i = ts_start sp"
      "list_all (\<lambda>s. \<not> commented (ts_value s)) xs" by blast
    with 2(2) show ?thesis by (intro exI [of _ "s # xs"] exI [of _ sp] exI [of _ ys]) simp
  qed
qed simp

lemma scan_arguments_no_pos:
  "scan_arguments parameter spans arguments None = Some (as, None) \<Longrightarrow> list_all (\<lambda>s. \<not> commented (ts_value s)) spans"
  by (induction spans arbitrary: arguments) (auto split: if_splits dest: scan_arguments_keeps)

lemma select_active: "kernelArgumentsSelectFamily (active as) family = kernelArgumentsSelectFamily as family"
  by (simp add: kernelArgumentsSelectFamily_def takeWhile_idem split: option.splits)

lemma patched_iff: "snd (patchKernelLine line family parameter) \<longleftrightarrow> kernel_line family line \<and> \<not> has_parameter parameter line"
proof (cases "length (line_words line) < 2 \<or> commented (trim_space line) \<or> \<not> isKernelArgumentCommand (hd (line_words line))")
  case True
  have "length (scanTokenSpans line) = length (line_words line)"
    by (metis scanTokenSpans_def span_values length_map)
  moreover have "ts_value (hd (scanTokenSpans line)) = hd (line_words line)" if "scanTokenSpans line \<noteq> []"
    using that by (metis scanTokenSpans_def span_values hd_map)
  ultimately have "length (scanTokenSpans line) < 2 \<or> commented (trim_space line) \<or> \<not> isKernelArgumentCommand (ts_value (hd (scanTokenSpans line)))"
    using True by (cases "scanTokenSpans line") auto
  with True show ?thesis by (auto simp: patchKernelLine_def kernel_line_def)
next
  case False
  obtain sp spans where sp: "scanTokenSpans line = sp # spans"
    using False span_values [of 0 line] by (cases "scanTokenSpans line") (auto simp: scanTokenSpans_def)
  then have w: "line_words line = ts_value sp # map ts_value spans"
    by (metis scanTokenSpans_def span_values list.simps(9))
  have "snd (patchKernelLine line family parameter) \<longleftrightarrow> \<not> kernelArgumentsContain (map ts_value spans) parameter
      \<and> kernelArgumentsSelectFamily (map ts_value spans) family"
  proof (cases "scan_arguments parameter spans [] None")
    case None
    with False w sp show ?thesis by (simp add: patchKernelLine_def scan_arguments_None [symmetric, of _ _ "[]" None])
  next
    case (Some r)
    then obtain as pos where r: "scan_arguments parameter spans [] None = Some (as, pos)" by (cases r) auto
    then have "as = active (map ts_value spans)" using scan_arguments_Some by fastforce
    with False w sp r show ?thesis
      by (auto simp: patchKernelLine_def Let_def select_active scan_arguments_None [symmetric, of _ _ "[]" None] split: option.splits)
  qed
  with False w show ?thesis by (auto simp: kernel_line_def has_parameter_def Suc_le_eq)
qed

lemma unpatched: "\<not> snd (patchKernelLine line family parameter) \<Longrightarrow> patchKernelLine line family parameter = (line, False)"
  by (auto simp: patchKernelLine_def Let_def split: option.splits if_splits)

text \<open>The parameters the detection knows are single plain words.\<close>

definition plain_parameter :: "string \<Rightarrow> bool" where
  "plain_parameter p \<longleftrightarrow> p = ''persistent'' \<or> p = ''persistence''"

lemma plain_parameter_word:
  assumes "plain_parameter p"
  shows "p \<noteq> []" "list_all (\<lambda>c. \<not> blank c) p" "line_words p = [p]" "\<not> commented p"
    "kernelTokenMatches (normalizeKernelToken p) p"
    "list_all (\<lambda>c. (of_char c :: nat) < 128 \<and> c \<noteq> CHR 0x00 \<and> c \<noteq> CHR 0x0A \<and> c \<noteq> CHR 0x0D) p"
proof -
  show b: "list_all (\<lambda>c. \<not> blank c) p" "p \<noteq> []" using assms by (auto simp: plain_parameter_def blank_def)
  then show "line_words p = [p]" by (simp add: line_words_one)
  show "\<not> commented p" using assms by (auto simp: plain_parameter_def commented_def has_prefix_def)
  show "kernelTokenMatches (normalizeKernelToken p) p"
    using assms by (auto simp: plain_parameter_def kernelTokenMatches_def normalizeKernelToken_def trim_by_def trim_right_by_def)
  show "list_all (\<lambda>c. (of_char c :: nat) < 128 \<and> c \<noteq> CHR 0x00 \<and> c \<noteq> CHR 0x0A \<and> c \<noteq> CHR 0x0D) p"
    using assms by (auto simp: plain_parameter_def)
qed

text \<open>A line before and after: the parameter is one more word, before the first comment.\<close>

definition inserted :: "string \<Rightarrow> string \<Rightarrow> string \<Rightarrow> bool" where
  "inserted parameter line line1 \<longleftrightarrow>
     (\<exists>a b. line = a @ b \<and> (line1 = a @ parameter @ '' '' @ b \<or> line1 = a @ '' '' @ parameter @ b)
        \<and> a \<noteq> [] \<and> (a = [] \<or> b = [] \<or> blank (last a) \<or> blank (hd b))
        \<and> line_words line = line_words a @ line_words b \<and> line_words line1 = line_words a @ parameter # line_words b
        \<and> line_words a \<noteq> [] \<and> list_all (\<lambda>v. \<not> commented v) (tl (line_words a)))"

lemma blanks_suffix: "list_all blank b \<Longrightarrow> line_words b = []"
  using line_words_blanks [of b "[]"] by simp

lemma patched_inserted:
  assumes "snd (patchKernelLine line family p)" "plain_parameter p"
  shows "inserted p line (fst (patchKernelLine line family p))"
proof -
  note word = plain_parameter_word [OF assms(2)]
  obtain sp spans where sp: "scanTokenSpans line = sp # spans"
    using assms(1) by (cases "scanTokenSpans line") (auto simp: patchKernelLine_def)
  obtain as pos where r: "scan_arguments p spans [] None = Some (as, pos)"
    using assms(1) sp by (auto simp: patchKernelLine_def Let_def split: if_splits option.splits)
  have w: "line_words line = ts_value sp # map ts_value spans"
    using sp span_values [of 0 line] by (simp add: scanTokenSpans_def)
  show ?thesis
  proof (cases pos)
    case None
    define a b where "a = trim_right_by blank line" and "b = drop (length a) line"
    have l: "fst (patchKernelLine line family p) = a @ '' '' @ p @ b"
      using assms(1) sp r None by (auto simp: patchKernelLine_def Let_def a_def b_def split: if_splits)
    have split: "line = a @ rev (takeWhile blank (rev line))"
      unfolding a_def trim_right_by_def by (metis rev_append rev_rev_ident takeWhile_dropWhile_id)
    then have b: "b = rev (takeWhile blank (rev line))" unfolding b_def by (metis append_eq_conv_conj)
    have blanks: "list_all blank b" unfolding b by (auto simp: list_all_iff dest: set_takeWhileD)
    have ab: "line = a @ b" using split b by metis
    have h: "b = [] \<or> blank (hd b)" using blanks by (cases b) auto
    have wb: "line_words b = []" by (rule blanks_suffix [OF blanks])
    have wa: "line_words a = line_words line"
      using line_words_join [of a b] h wb ab by auto
    have ne: "a \<noteq> []" using wa w by auto
    have "line_words ((a @ '' '') @ p @ b) = line_words (a @ '' '') @ line_words (p @ b)"
      by (rule line_words_join) (simp add: blank_def)
    also have "line_words (a @ '' '') = line_words a" using line_words_append [of "CHR '' ''" a "[]"] by (simp add: blank_def)
    also have "line_words (p @ b) = [p]" using line_words_token [OF word(2,1) h] wb by simp
    finally have new: "line_words (a @ '' '' @ p @ b) = line_words a @ p # line_words b" using wb by simp
    have "list_all (\<lambda>v. \<not> commented v) (tl (line_words a))"
      using scan_arguments_no_pos [OF r [unfolded None]] by (simp add: wa w list_all_iff)
    moreover have "line_words a \<noteq> []" using wa w by simp
    moreover have "line_words line = line_words a @ line_words b" using wa wb by simp
    ultimately show ?thesis
      unfolding inserted_def l using ab h ne new by blast
  next
    case (Some i)
    have l: "fst (patchKernelLine line family p) = take i line @ p @ '' '' @ drop i line"
      using assms(1) sp r Some by (auto simp: patchKernelLine_def Let_def split: if_splits)
    obtain xs s1 ys where s1: "spans = xs @ s1 # ys" "i = ts_start s1" "list_all (\<lambda>s. \<not> commented (ts_value s)) xs"
      using scan_arguments_pos [OF r [unfolded Some]] by blast
    have "scan_spans 0 line = (sp # xs) @ s1 # ys" using sp s1(1) by (simp add: scanTokenSpans_def)
    from span_cut [OF this] obtain a b where ab: "line = a @ b" "i = length a" "a = [] \<or> blank (last a)" "b \<noteq> []"
      "line_words a = map ts_value (sp # xs)" "line_words b = map ts_value (s1 # ys)" using s1(2) by auto
    have ne: "a \<noteq> []" using ab(5) by auto
    have "line_words (a @ p @ '' '' @ b) = line_words a @ line_words (p @ '' '' @ b)"
      by (rule line_words_join) (use ab in auto)
    also have "line_words (p @ '' '' @ b) = p # line_words b"
      using line_words_token [OF word(2,1), of "'' '' @ b"] by (simp add: blank_def)
    finally show ?thesis
      unfolding inserted_def l using ab ne s1(3) w s1(1)
      by (intro exI [of _ a] exI [of _ b]) (auto simp: list_all_iff)
  qed
qed

lemma inserted_contains:
  assumes "inserted p line line1" "plain_parameter p"
  shows "has_parameter p line1"
proof -
  obtain a b where w: "line_words line1 = line_words a @ p # line_words b" "line_words a \<noteq> []"
    "list_all (\<lambda>v. \<not> commented v) (tl (line_words a))" using assms(1) by (auto simp: inserted_def)
  have "active (tl (line_words line1)) = tl (line_words a) @ p # active (line_words b)"
    using w plain_parameter_word(4) [OF assms(2)] by (simp add: list_all_iff takeWhile_append)
  then show ?thesis
    using plain_parameter_word(5) [OF assms(2)] by (simp add: has_parameter_def kernelArgumentsContain_def)
qed

lemma patch_line_idempotent:
  assumes "plain_parameter p"
  shows "patchKernelLine (fst (patchKernelLine line family p)) family p = (fst (patchKernelLine line family p), False)"
proof (cases "snd (patchKernelLine line family p)")
  case True
  from inserted_contains [OF patched_inserted [OF True assms] assms]
  have "\<not> snd (patchKernelLine (fst (patchKernelLine line family p)) family p)" by (simp add: patched_iff)
  then show ?thesis by (rule unpatched)
next
  case False
  from unpatched [OF this] show ?thesis by simp
qed

section \<open>Lines of a text\<close>

fun parts_ok :: "'a \<Rightarrow> 'a list list \<Rightarrow> bool" where
  "parts_ok c [] = False"
| "parts_ok c [y] = (c \<notin> set y)"
| "parts_ok c (p # q # ps) = ((\<exists>x. p = x @ [c] \<and> c \<notin> set x) \<and> parts_ok c (q # ps))"

lemma split_after_nonempty [simp]: "split_after c s \<noteq> []"
  by (cases s) (simp_all add: cons_head_def split: list.splits)

lemma concat_split_after [simp]: "concat (split_after c s) = s"
  by (induction s) (auto simp: cons_head_def split: list.splits)

lemma parts_ok_split_after: "parts_ok c (split_after c s)"
proof (induction s)
  case (Cons x s)
  obtain p ps where p: "split_after c s = p # ps" using split_after_nonempty by (metis list.exhaust)
  show ?case
  proof (cases ps)
    case Nil
    with Cons p show ?thesis by (auto simp: cons_head_def)
  next
    case (Cons q qs)
    with \<open>parts_ok c (split_after c s)\<close> p obtain y where "p = y @ [c]" "c \<notin> set y" "parts_ok c (q # qs)" by auto
    with p Cons show ?thesis
      by (cases "x = c") (auto simp: cons_head_def intro: exI [of _ "x # y"])
  qed
qed simp

lemma split_after_part: "c \<notin> set x \<Longrightarrow> split_after c (x @ c # s) = (x @ [c]) # split_after c s"
  by (induction x) (auto simp: cons_head_def)

lemma split_after_last: "c \<notin> set x \<Longrightarrow> split_after c x = [x]"
  by (induction x) (auto simp: cons_head_def)

lemma split_after_concat: "parts_ok c ps \<Longrightarrow> split_after c (concat ps) = ps"
  by (induction c ps rule: parts_ok.induct) (auto simp: split_after_last split_after_part)

text \<open>The end of a line.\<close>

definition ends_line :: "string \<Rightarrow> string \<Rightarrow> bool" where
  "ends_line body ending \<longleftrightarrow> ending = [CHR 0x0D, CHR 0x0A]
     \<or> ending = [CHR 0x0A] \<and> (body = [] \<or> last body \<noteq> CHR 0x0D)
     \<or> ending = [] \<and> (body = [] \<or> last body \<noteq> CHR 0x0A)"

lemma has_suffix_iff: "has_suffix s t \<longleftrightarrow> (\<exists>a. s = a @ t)"
proof
  assume "has_suffix s t"
  then have "take (length t) (rev s) = rev t" by (simp add: has_suffix_def has_prefix_def)
  then have "rev s = rev t @ drop (length t) (rev s)" by (metis append_take_drop_id)
  then show "\<exists>a. s = a @ t" by (metis rev_append rev_rev_ident)
qed (auto simp: has_suffix_def has_prefix_def)

lemma splitLineEnding_ends: "splitLineEnding part = (body, ending) \<Longrightarrow> part = body @ ending \<and> ends_line body ending"
  by (auto simp: splitLineEnding_def has_suffix_iff ends_line_def split: if_splits)
    (metis append_butlast_last_id append.assoc append_Cons append_Nil)+

lemma ends_splitLineEnding: "ends_line body ending \<Longrightarrow> splitLineEnding (body @ ending) = (body, ending)"
  by (auto simp: splitLineEnding_def has_suffix_iff ends_line_def)

lemma inserted_last:
  assumes "inserted p line line1" "plain_parameter p" "c = CHR 0x0D \<or> c = CHR 0x0A" "line = [] \<or> last line \<noteq> c"
  shows "line1 = [] \<or> last line1 \<noteq> c"
proof -
  obtain a b where ab: "line = a @ b" "line1 = a @ p @ '' '' @ b \<or> line1 = a @ '' '' @ p @ b" "a \<noteq> []"
    using assms(1) unfolding inserted_def by blast
  have "last p \<noteq> c" "p \<noteq> []" using assms(2,3) by (auto simp: plain_parameter_def)
  with ab assms(3,4) show ?thesis by (cases "b = []") auto
qed

lemma inserted_chars:
  "inserted p line line1 \<Longrightarrow> c \<in> set line1 \<Longrightarrow> c \<in> set line \<or> c \<in> set p \<or> c = CHR '' ''"
  by (auto simp: inserted_def)

lemma patched_line_chars:
  assumes "plain_parameter p" "c \<in> set (fst (patchKernelLine line family p))" "c \<notin> set line"
  shows "c \<noteq> CHR 0x0A \<and> c \<noteq> CHR 0x00"
proof -
  have "snd (patchKernelLine line family p)" using assms(2,3) unpatched [of line family p] by fastforce
  from inserted_chars [OF patched_inserted [OF this assms(1)] assms(2)] assms(1,3) plain_parameter_word(6) [OF assms(1)]
  show ?thesis by (auto simp: list_all_iff)
qed

lemma patched_ends:
  assumes "plain_parameter p" "ends_line body ending"
  shows "ends_line (fst (patchKernelLine body family p)) ending"
proof (cases "snd (patchKernelLine body family p)")
  case True
  from inserted_last [OF patched_inserted [OF True assms(1)] assms(1)] assms(2) show ?thesis
    by (auto simp: ends_line_def)
next
  case False
  from unpatched [OF this] assms(2) show ?thesis by simp
qed

lemma patch_part_body:
  assumes "plain_parameter p" "splitLineEnding part = (body, ending)"
  shows "patch_part family p part = (fst (patchKernelLine body family p) @ ending, snd (patchKernelLine body family p))"
    "splitLineEnding (fst (patch_part family p part)) = (fst (patchKernelLine body family p), ending)"
    "patch_part family p (fst (patch_part family p part)) = (fst (patch_part family p part), False)"
proof -
  have e: "ends_line body ending" using splitLineEnding_ends [OF assms(2)] by simp
  show a: "patch_part family p part = (fst (patchKernelLine body family p) @ ending, snd (patchKernelLine body family p))"
    by (simp add: patch_part_def assms(2) split: prod.splits)
  show b: "splitLineEnding (fst (patch_part family p part)) = (fst (patchKernelLine body family p), ending)"
    unfolding a fst_conv by (rule ends_splitLineEnding [OF patched_ends [OF assms(1) e]])
  show "patch_part family p (fst (patch_part family p part)) = (fst (patch_part family p part), False)"
    unfolding patch_part_def [of _ _ "fst (patch_part family p part)"] b
    by (simp add: patch_line_idempotent [OF assms(1)] a)
qed

lemma parts_ok_patched:
  assumes "plain_parameter p"
  shows "parts_ok (CHR 0x0A) ps \<Longrightarrow> parts_ok (CHR 0x0A) (map (\<lambda>q. fst (patch_part family p q)) ps)"
proof (induction "CHR 0x0A" ps rule: parts_ok.induct)
  case (2 y)
  obtain body ending where s: "splitLineEnding y = (body, ending)" by (cases "splitLineEnding y")
  have y: "y = body @ ending" "ends_line body ending" using splitLineEnding_ends [OF s] by auto
  with 2 have "ending = []" by (auto simp: ends_line_def)
  with 2 y patched_line_chars [OF assms, of "CHR 0x0A" body family] show ?case
    using patch_part_body(1) [OF assms s, of family] by auto
next
  case (3 q r ps)
  obtain body ending where s: "splitLineEnding q = (body, ending)" by (cases "splitLineEnding q")
  obtain x where x: "q = x @ [CHR 0x0A]" "CHR 0x0A \<notin> set x" using 3(2) by auto
  have y: "q = body @ ending" "ends_line body ending" using splitLineEnding_ends [OF s] by auto
  have "ending \<noteq> []" using x y by (auto simp: ends_line_def)
  with y(2) obtain e where e: "ending = e @ [CHR 0x0A]" "CHR 0x0A \<notin> set e" by (auto simp: ends_line_def)
  with x y have "CHR 0x0A \<notin> set body" by auto
  with patched_line_chars [OF assms, of "CHR 0x0A" body family]
  have "CHR 0x0A \<notin> set (fst (patchKernelLine body family p) @ e)" using e(2) by auto
  with 3 e show ?case
    by (auto simp: patch_part_body(1) [OF assms s] intro!: exI [of _ "fst (patchKernelLine body family p) @ e"])
qed simp

section \<open>Well-formed texts\<close>

lemma second_range_bounds: "second_range b = (lo, hi) \<Longrightarrow> 128 \<le> lo \<and> hi \<le> 191"
  by (auto simp: second_range_def split: if_splits)

lemma decode_width: "bs \<noteq> [] \<Longrightarrow> 1 \<le> snd (decode_rune bs) \<and> snd (decode_rune bs) \<le> length bs"
  by (auto simp: decode_rune_def Let_def neq_Nil_conv split: prod.splits list.splits)

text \<open>An ASCII byte ends whatever sequence comes before it.\<close>

lemma decode_before_ascii:
  assumes "a \<noteq> []" "x < 128"
  shows "decode_rune (a @ x # b) = decode_rune a"
proof -
  obtain a0 r where a: "a = a0 # r" using assms(1) by (cases a) auto
  obtain lo hi where lh: "second_range a0 = (lo, hi)" by (cases "second_range a0")
  note bounds = second_range_bounds [OF lh]
  consider "r = []" | b1 where "r = [b1]" | b1 b2 where "r = [b1, b2]" | b1 b2 b3 q where "r = b1 # b2 # b3 # q"
    by (metis list.exhaust)
  then show ?thesis
    using assms(2) bounds
    by cases (auto simp: a decode_rune_def Let_def lh continuation_def split: list.splits)
qed

lemma decode_append:
  assumes "a \<noteq> []" "\<not> (fst (decode_rune a) = 0xFFFD \<and> snd (decode_rune a) \<le> 1)"
  shows "decode_rune (a @ b) = decode_rune a"
proof -
  obtain a0 r where a: "a = a0 # r" using assms(1) by (cases a) auto
  obtain lo hi where lh: "second_range a0 = (lo, hi)" by (cases "second_range a0")
  consider "r = []" | b1 where "r = [b1]" | b1 b2 where "r = [b1, b2]" | b1 b2 b3 q where "r = b1 # b2 # b3 # q"
    by (metis list.exhaust)
  then show ?thesis
    using assms(2)
    by cases (auto simp: a decode_rune_def Let_def lh split: list.splits if_splits)
qed

lemma valid_utf8_Nil [simp]: "valid_utf8 []"
  by (simp add: valid_utf8.simps)

lemma valid_utf8_ascii: "x < 128 \<Longrightarrow> valid_utf8 (x # b) = valid_utf8 b"
  by (subst valid_utf8.simps) (auto simp: decode_rune_def Let_def split: prod.splits)

lemma valid_utf8_cut: "x < 128 \<Longrightarrow> valid_utf8 (a @ x # b) \<longleftrightarrow> valid_utf8 a \<and> valid_utf8 b"
proof (induction "length a" arbitrary: a rule: less_induct)
  case less
  show ?case
  proof (cases "a = []")
    case True
    then show ?thesis by (simp add: valid_utf8_ascii less.prems valid_utf8.simps [of "[]"])
  next
    case False
    let ?w = "snd (decode_rune a)"
    have w: "1 \<le> ?w" "?w \<le> length a" using decode_width [OF False] by auto
    have d: "decode_rune (a @ x # b) = decode_rune a" by (rule decode_before_ascii [OF False less.prems])
    have "drop ?w (a @ x # b) = drop ?w a @ x # b" using w by simp
    moreover have "valid_utf8 (drop ?w a @ x # b) \<longleftrightarrow> valid_utf8 (drop ?w a) \<and> valid_utf8 b"
      using w False by (intro less.hyps less.prems) simp
    ultimately show ?thesis
      using False by (subst (1 2) valid_utf8.simps) (simp add: d)
  qed
qed

lemma valid_utf8_append: "valid_utf8 a \<Longrightarrow> valid_utf8 b \<Longrightarrow> valid_utf8 (a @ b)"
proof (induction "length a" arbitrary: a rule: less_induct)
  case less
  show ?case
  proof (cases "a = []")
    case False
    let ?w = "snd (decode_rune a)"
    have w: "1 \<le> ?w" "?w \<le> length a" using decode_width [OF False] by auto
    have v: "\<not> (fst (decode_rune a) = 0xFFFD \<and> ?w \<le> 1)" "valid_utf8 (drop ?w a)"
      using less.prems(1) False by (subst (asm) valid_utf8.simps, simp split: if_splits)+
    have d: "decode_rune (a @ b) = decode_rune a" by (rule decode_append [OF False v(1)])
    have "valid_utf8 (drop ?w a @ b)" using w False v(2) less.prems(2) by (intro less.hyps) simp
    then show ?thesis
      using w v(1) by (subst valid_utf8.simps) (auto simp: d)
  qed (use less in simp)
qed

lemma valid_string_cut: "(of_char c :: nat) < 128 \<Longrightarrow> valid_string (a @ c # b) \<longleftrightarrow> valid_string a \<and> valid_string b"
  by (simp add: valid_string_def valid_utf8_cut)

lemma valid_string_append: "valid_string a \<Longrightarrow> valid_string b \<Longrightarrow> valid_string (a @ b)"
  by (simp add: valid_string_def valid_utf8_append)

lemma valid_string_Nil [simp]: "valid_string []"
  by (simp add: valid_string_def valid_utf8.simps)

lemma valid_string_ascii: "list_all (\<lambda>c. (of_char c :: nat) < 128) s \<Longrightarrow> valid_string s"
  by (induction s) (simp_all add: valid_string_def valid_utf8_ascii)

lemma valid_string_boundary:
  assumes "valid_string (a @ b)" "b = [] \<or> a = [] \<or> blank (last a) \<or> blank (hd b)"
  shows "valid_string a \<and> valid_string b"
proof (cases "a = [] \<or> b = []")
  case False
  with assms(2) consider a' c where "a = a' @ [c]" "blank c" | c b' where "b = c # b'" "blank c"
    by (metis append_butlast_last_id list.exhaust_sel)
  then show ?thesis
  proof cases
    case (1 a' c)
    then have "(of_char c :: nat) < 128" by (auto simp: blank_def)
    with 1 assms(1) valid_string_cut [of c a' b] valid_string_cut [of c a' "[]"] show ?thesis by simp
  next
    case (2 c b')
    then have "(of_char c :: nat) < 128" by (auto simp: blank_def)
    with 2 assms(1) valid_string_cut [of c a b'] valid_string_cut [of c "[]" b'] show ?thesis by simp
  qed
qed (use assms(1) in auto)

lemma patched_line_valid:
  assumes "valid_string line" "plain_parameter p"
  shows "valid_string (fst (patchKernelLine line family p))"
proof (cases "snd (patchKernelLine line family p)")
  case True
  obtain a b where ab: "line = a @ b" "fst (patchKernelLine line family p) = a @ p @ '' '' @ b
        \<or> fst (patchKernelLine line family p) = a @ '' '' @ p @ b"
    "a = [] \<or> b = [] \<or> blank (last a) \<or> blank (hd b)"
    using patched_inserted [OF True assms(2)] unfolding inserted_def by blast
  have v: "valid_string a" "valid_string b" using valid_string_boundary [of a b] ab(1,3) assms(1) by auto
  have p: "valid_string p"
    by (rule valid_string_ascii, rule list.pred_mono_strong [OF plain_parameter_word(6) [OF assms(2)]]) simp
  have blank: "valid_string '' ''" by (rule valid_string_ascii) simp
  have "valid_string (a @ p @ '' '' @ b)" "valid_string (a @ '' '' @ p @ b)" by (intro valid_string_append v p blank)+
  then show ?thesis using ab(2) by metis
next
  case False
  from unpatched [OF this] assms(1) show ?thesis by simp
qed

lemma patched_part_valid:
  assumes "valid_string part" "plain_parameter p"
  shows "valid_string (fst (patch_part family p part))"
proof -
  obtain body ending where s: "splitLineEnding part = (body, ending)" by (cases "splitLineEnding part")
  have e: "part = body @ ending" "ends_line body ending" using splitLineEnding_ends [OF s] by auto
  have "valid_string body"
  proof (cases ending)
    case Nil
    then show ?thesis using e(1) assms(1) by simp
  next
    case (Cons c cs)
    then have "(of_char c :: nat) < 128" using e(2) by (auto simp: ends_line_def)
    from valid_string_cut [OF this, of body cs] show ?thesis using e(1) Cons assms(1) by simp
  qed
  moreover have "valid_string ending" using e(2) by (intro valid_string_ascii) (auto simp: ends_line_def)
  ultimately show ?thesis
    by (simp add: patch_part_body(1) [OF assms(2) s] valid_string_append patched_line_valid [OF _ assms(2)])
qed

lemma valid_parts: "parts_ok (CHR 0x0A) ps \<Longrightarrow> valid_string (concat ps) \<longleftrightarrow> list_all valid_string ps"
proof (induction "CHR 0x0A" ps rule: parts_ok.induct)
  case (3 q r ps)
  then obtain x where x: "q = x @ [CHR 0x0A]" by auto
  with 3 valid_string_cut [of "CHR 0x0A" x "concat (r # ps)"] valid_string_cut [of "CHR 0x0A" x "[]"] show ?case by simp
qed simp_all

section \<open>The edit of a text\<close>

definition lacks_parameter :: "string \<Rightarrow> string \<Rightarrow> string \<Rightarrow> bool" where
  "lacks_parameter family p part \<longleftrightarrow>
     kernel_line family (fst (splitLineEnding part)) \<and> \<not> has_parameter p (fst (splitLineEnding part))"

definition edited :: "string \<Rightarrow> string \<Rightarrow> string \<Rightarrow> string \<Rightarrow> bool" where
  "edited family p part part1 \<longleftrightarrow>
     (case splitLineEnding part of (body, ending) \<Rightarrow>
        if lacks_parameter family p part
        then \<exists>body1. part1 = body1 @ ending \<and> inserted p body body1 \<and> has_parameter p body1
        else part1 = part)"

lemma patch_part_edited:
  assumes "plain_parameter p"
  shows "edited family p part (fst (patch_part family p part))" "snd (patch_part family p part) = lacks_parameter family p part"
proof -
  obtain body ending where s: "splitLineEnding part = (body, ending)" by (cases "splitLineEnding part")
  note e = patch_part_body(1) [OF assms s, of family]
  show l: "snd (patch_part family p part) = lacks_parameter family p part"
    by (simp add: e lacks_parameter_def s patched_iff)
  show "edited family p part (fst (patch_part family p part))"
  proof (cases "snd (patchKernelLine body family p)")
    case True
    note i = patched_inserted [OF True assms]
    from i inserted_contains [OF i assms] l True show ?thesis by (simp add: edited_def s e)
  next
    case False
    with l have "\<not> lacks_parameter family p part" by (simp add: e)
    moreover have "fst (patch_part family p part) = body @ ending" using unpatched [OF False] by (simp add: e)
    moreover have "body @ ending = part" using splitLineEnding_ends [OF s] by simp
    ultimately show ?thesis by (simp add: edited_def s)
  qed
qed

lemma boot_config_patched:
  assumes "PatchBootConfig content d = Inr (out, n)" "plain_parameter (de_BootParameter d)"
  shows "split_after (CHR 0x0A) out = map (\<lambda>q. fst (patch_part (de_Family d) (de_BootParameter d) q)) (split_after (CHR 0x0A) content)"
    "n = length (filter (lacks_parameter (de_Family d) (de_BootParameter d)) (split_after (CHR 0x0A) content))"
    "length out \<le> maxConfigBytes \<Longrightarrow> PatchBootConfig out d = Inr (out, 0)"
proof -
  let ?nl = "CHR 0x0A" and ?f = "patch_part (de_Family d) (de_BootParameter d)"
  have g: "Ready d" "CHR 0x00 \<notin> set content" "valid_string content" "familyBootMarker (de_Family d) \<noteq> None"
    and out: "out = concat (map (\<lambda>q. fst (?f q)) (split_after ?nl content))"
    and n: "n = length (filter snd (map ?f (split_after ?nl content)))"
    using assms(1) by (auto simp: PatchBootConfig_def Let_def comp_def split: if_splits)
  note ok = parts_ok_patched [OF assms(2) parts_ok_split_after, of "de_Family d" content]
  show parts: "split_after ?nl out = map (\<lambda>q. fst (?f q)) (split_after ?nl content)"
    unfolding out by (rule split_after_concat [OF ok])
  have "filter snd (map ?f ps) = map ?f (filter (lacks_parameter (de_Family d) (de_BootParameter d)) ps)" for ps
    by (simp add: filter_map comp_def patch_part_edited(2) [OF assms(2)])
  then show "n = length (filter (lacks_parameter (de_Family d) (de_BootParameter d)) (split_after ?nl content))"
    by (simp add: n)
  assume len: "length out \<le> maxConfigBytes"
  have again: "?f (fst (?f q)) = (fst (?f q), False)" for q
    using patch_part_body(3) [OF assms(2)] by (cases "splitLineEnding q") blast
  have valid: "valid_string out"
    unfolding out valid_parts [OF ok]
    using g(3) valid_parts [OF parts_ok_split_after, of content] patched_part_valid [OF _ assms(2)] by (auto simp: list_all_iff)
  have "c \<noteq> CHR 0x00" if "c \<in> set out" for c
  proof -
    obtain q where q: "q \<in> set (split_after ?nl content)" "c \<in> set (fst (?f q))" using \<open>c \<in> set out\<close> by (auto simp: out)
    obtain body ending where s: "splitLineEnding q = (body, ending)" by (cases "splitLineEnding q")
    have qb: "q = body @ ending" "ends_line body ending" using splitLineEnding_ends [OF s] by auto
    have "set q \<subseteq> set content" using q(1) concat_split_after [of ?nl content] by (metis UN_upper set_concat)
    then have "CHR 0x00 \<notin> set body" "CHR 0x00 \<notin> set ending" using g(2) qb(1) by auto
    with patched_line_chars [OF assms(2), of "CHR 0x00" body "de_Family d"] have "CHR 0x00 \<notin> set (fst (?f q))"
      by (auto simp: patch_part_body(1) [OF assms(2) s])
    with q(2) show ?thesis by metis
  qed
  then have nul: "CHR 0x00 \<notin> set out" by blast
  have "map ?f (split_after ?nl out) = map (\<lambda>q. (fst (?f q), False)) (split_after ?nl content)"
    by (simp add: parts again comp_def)
  then show "PatchBootConfig out d = Inr (out, 0)"
    using g(1,4) len valid nul by (simp add: PatchBootConfig_def Let_def comp_def out [symmetric] not_le [symmetric])
qed

section \<open>Properties\<close>


section \<open>Witnesses\<close>

definition casper_detection :: Detection where
  "casper_detection = \<lparr> de_Family = FamilyUbuntuCasper, de_DisplayName = ''Ubuntu casper'', de_Version = [],
     de_BootParameter = ''persistent'', de_Filesystem = ''ext4'', de_FilesystemLabel = ''casper-rw'', de_PersistenceConfig = [],
     de_PatchPaths = [''boot/grub/grub.cfg''], de_AlreadyEnabledPaths = [], de_Evidence = [] \<rparr>"

lemma sample_kernel_line:
  "patchKernelLine ''linux /casper/vmlinuz ---'' FamilyUbuntuCasper ''persistent'' = (''linux /casper/vmlinuz persistent ---'', True)"
proof -
  have t: "trim_space ''linux /casper/vmlinuz ---'' = ''linux /casper/vmlinuz ---''" "trim_space ''linux'' = ''linux''"
    by (rule trim_space_id; simp)+
  have s: "scanTokenSpans ''linux /casper/vmlinuz ---'' = [\<lparr> ts_start = 0, ts_end = 5, ts_value = ''linux'' \<rparr>,
      \<lparr> ts_start = 6, ts_end = 21, ts_value = ''/casper/vmlinuz'' \<rparr>, \<lparr> ts_start = 22, ts_end = 25, ts_value = ''---'' \<rparr>]"
    by code_simp
  have k: "isKernelArgumentCommand ''linux''" unfolding isKernelArgumentCommand_def t by code_simp
  have a: "scan_arguments ''persistent'' [\<lparr> ts_start = 6, ts_end = 21, ts_value = ''/casper/vmlinuz'' \<rparr>,
      \<lparr> ts_start = 22, ts_end = 25, ts_value = ''---'' \<rparr>] [] None = Some ([''/casper/vmlinuz'', ''---''], Some 22)"
    by code_simp
  have f: "kernelArgumentsSelectFamily [''/casper/vmlinuz'', ''---''] FamilyUbuntuCasper" by code_simp
  show ?thesis unfolding patchKernelLine_def s t Let_def by (simp add: k a f commented_def has_prefix_def del: scan_arguments.simps)
qed

lemma sample_patched:
  "PatchBootConfig (''linux /casper/vmlinuz ---'' @ [CHR 0x0A]) casper_detection
     = Inr (''linux /casper/vmlinuz persistent ---'' @ [CHR 0x0A], 1)"
proof -
  have r: "Ready casper_detection" by (simp add: Ready_def casper_detection_def FamilyUbuntuCasper_def)
  have v: "valid_string (''linux /casper/vmlinuz ---'' @ [CHR 0x0A])" by (rule valid_string_ascii) simp
  have f: "familyBootMarker FamilyUbuntuCasper \<noteq> None" by (simp add: familyBootMarker_def)
  have p: "split_after (CHR 0x0A) (''linux /casper/vmlinuz ---'' @ [CHR 0x0A]) = [''linux /casper/vmlinuz ---'' @ [CHR 0x0A], []]"
    by code_simp
  have e: "splitLineEnding (''linux /casper/vmlinuz ---'' @ [CHR 0x0A]) = (''linux /casper/vmlinuz ---'', [CHR 0x0A])"
    by (rule ends_splitLineEnding) (simp add: ends_line_def)
  have y: "patch_part FamilyUbuntuCasper ''persistent'' (''linux /casper/vmlinuz ---'' @ [CHR 0x0A])
      = (''linux /casper/vmlinuz persistent ---'' @ [CHR 0x0A], True)"
    unfolding patch_part_def e by (simp add: sample_kernel_line)
  have z: "patch_part FamilyUbuntuCasper ''persistent'' [] = ([], False)"
    by code_simp
  show ?thesis
    using r v f unfolding PatchBootConfig_def p
    by (simp add: y [simplified] z casper_detection_def maxConfigBytes_def p [simplified])
qed


end
