(* ===== verification/BootDetect.thy ===== *)
theory BootDetect
  imports BootPatch "HOL-Library.Sublist"
begin

text \<open>
  \<open>internal/persistence/detect.go\<close>: the detection of a live medium. The medium is an \<open>fs.FS\<close> whose
  calls are the environment. What the detection classifies is what the edit of \<open>BootPatch\<close> changes.
\<close>

section \<open>Reading a medium\<close>

definition ErrNotExist :: go_error where "ErrNotExist = Msg ''file does not exist''"

record fs_entry =
  fe_Name :: string
  fe_Regular :: bool

record fs_info =
  fi_Regular :: bool
  fi_Size :: int

text \<open>\<open>mf_Read\<close> is \<open>io.ReadAll\<close> of an \<open>io.LimitReader\<close>.\<close>

record 'w live_fs =
  lf_ReadDir :: "string \<Rightarrow> ('w, fs_entry list) act"
  lf_Open :: "string \<Rightarrow> ('w, nat) act"
  lf_Stat :: "nat \<Rightarrow> ('w, fs_info) act"
  lf_Read :: "nat \<Rightarrow> nat \<Rightarrow> ('w, string) act"
  lf_Close :: "nat \<Rightarrow> 'w poll"

text \<open>The deferred close of an opened file.\<close>

definition with_file :: "'w live_fs \<Rightarrow> string \<Rightarrow> (nat \<Rightarrow> ('w, 'a) act) \<Rightarrow> ('w, 'a) act" where
  "with_file fs name body =
     bind_act (lf_Open fs name) (\<lambda>fd w. case body fd w of (r, w1) \<Rightarrow> (r, snd (lf_Close fs fd w1)))"

definition readSmallRegular :: "'w live_fs \<Rightarrow> string \<Rightarrow> nat \<Rightarrow> ('w, string) act" where
  "readSmallRegular fs name limit =
     (let exceeds = Errorf ''%s exceeds the %d-byte inspection limit'' [FS name, FN limit] in
      with_file fs name (\<lambda>fd.
      bind_act (lf_Stat fs fd) (\<lambda>info.
      if \<not> fi_Regular info then pure_act (Inl (Errorf ''%s is not a regular file'' [FS name]))
      else if fi_Size info < 0 \<or> int limit < fi_Size info then pure_act (Inl exceeds)
      else
      bind_act (lf_Read fs fd (limit + 1)) (\<lambda>d.
      pure_act (if limit < length d then Inl exceeds else Inr d)))))"

definition hasRegular :: "'w live_fs \<Rightarrow> string \<Rightarrow> 'w \<Rightarrow> bool \<times> 'w" where
  "hasRegular fs name w =
     (case with_file fs name (lf_Stat fs) w of
        (Inl e, w1) \<Rightarrow> (False, w1)
      | (Inr info, w1) \<Rightarrow> (fi_Regular info, w1))"

definition hasPrefixedRegular :: "'w live_fs \<Rightarrow> string \<Rightarrow> string \<Rightarrow> 'w \<Rightarrow> bool \<times> 'w" where
  "hasPrefixedRegular fs directory wanted w =
     (case lf_ReadDir fs directory w of
        (Inl e, w1) \<Rightarrow> (False, w1)
      | (Inr entries, w1) \<Rightarrow>
          if 128 < length entries then (False, w1)
          else (list_ex (\<lambda>e. fe_Regular e \<and> has_prefix (to_lower (fe_Name e)) (to_lower wanted)) entries, w1))"

definition fixedConfigPaths :: "string list" where
  "fixedConfigPaths = [''boot/grub/grub.cfg'', ''boot/grub/loopback.cfg'', ''isolinux/isolinux.cfg'', ''isolinux/txt.cfg'',
     ''isolinux/live.cfg'', ''syslinux.cfg'', ''EFI/BOOT/grub.cfg'', ''efi/boot/grub.cfg'']"

text \<open>The entries of the two loader directories; \<open>path.Join\<close> cleans the name.\<close>

fun loader_paths :: "'w live_fs \<Rightarrow> string list \<Rightarrow> string list \<Rightarrow> ('w, string list) act" where
  "loader_paths fs [] paths w = (Inr paths, w)"
| "loader_paths fs (directory # directories) paths w =
     (case lf_ReadDir fs directory w of
        (Inl e, w1) \<Rightarrow>
          if errors_is e ErrNotExist then loader_paths fs directories paths w1
          else (Inl (Errorf ''read %s: %w'' [FS directory, FE e]), w1)
      | (Inr entries, w1) \<Rightarrow>
          if 64 < length entries then (Inl (Errorf ''%s contains too many boot entries'' [FS directory]), w1)
          else loader_paths fs directories
            (paths @ map (\<lambda>e. clean_path (directory @ ''/'' @ fe_Name e))
               (filter (\<lambda>e. fe_Regular e \<and> has_suffix (to_lower (fe_Name e)) ''.conf'') entries)) w1)"

text \<open>The map of configurations as an association list; a path that is read again replaces its content.\<close>

type_synonym configs = "(string \<times> string) list"

definition set_config :: "string \<Rightarrow> string \<Rightarrow> configs \<Rightarrow> configs" where
  "set_config name content cs = filter (\<lambda>c. fst c \<noteq> name) cs @ [(name, content)]"

fun read_configs :: "'w live_fs \<Rightarrow> string list \<Rightarrow> configs \<Rightarrow> ('w, configs) act" where
  "read_configs fs [] cs w = (Inr cs, w)"
| "read_configs fs (name # names) cs w =
     (case readSmallRegular fs name maxConfigBytes w of
        (Inl e, w1) \<Rightarrow>
          if errors_is e ErrNotExist then read_configs fs names cs w1
          else (Inl (Errorf ''read boot configuration %s: %w'' [FS name, FE e]), w1)
      | (Inr content, w1) \<Rightarrow> read_configs fs names (set_config name content cs) w1)"

definition readBootConfigs :: "'w live_fs \<Rightarrow> ('w, configs) act" where
  "readBootConfigs fs =
     bind_act (loader_paths fs [''loader/entries'', ''boot/loader/entries''] fixedConfigPaths) (\<lambda>paths.
     read_configs fs paths [])"

section \<open>Classification\<close>

definition matchingFamilyConfigs :: "configs \<Rightarrow> string \<Rightarrow> configs" where
  "matchingFamilyConfigs cs family = filter (\<lambda>(name, content). 0 < fst (inspectFamilyKernelLines content family [])) cs"

definition to_patch :: "string \<Rightarrow> string \<Rightarrow> string \<Rightarrow> bool" where
  "to_patch family parameter content =
     (case inspectFamilyKernelLines content family parameter of (lines, missing, present) \<Rightarrow> lines \<noteq> 0 \<and> 0 < missing)"

definition already_enabled :: "string \<Rightarrow> string \<Rightarrow> string \<Rightarrow> bool" where
  "already_enabled family parameter content =
     (case inspectFamilyKernelLines content family parameter of (lines, missing, present) \<Rightarrow>
        lines \<noteq> 0 \<and> missing = 0 \<and> 0 < present)"

definition classifyConfigs :: "configs \<Rightarrow> string \<Rightarrow> string \<Rightarrow> string list \<times> string list" where
  "classifyConfigs cs family parameter =
     (sort_by (<) (map fst (filter (\<lambda>(name, content). to_patch family parameter content) cs)),
      sort_by (<) (map fst (filter (\<lambda>(name, content). already_enabled family parameter content) cs)))"

section \<open>The release of an Ubuntu medium\<close>

text \<open>
  \<open>ubuntuVersionPattern\<close>: one of the names, at most 48 characters that are no digits, and a version
  \<open>dd.dd\<close>. The names match without regard to case (as \<open>(?i)\<close> folds U+212A to k and U+017F to s). As the characters
  between cannot be digits, there is one way to match them.
\<close>

definition digit_code_p :: "nat \<Rightarrow> bool" where "digit_code_p b \<longleftrightarrow> 48 \<le> b \<and> b \<le> 57"

fun fold_strip :: "nat list \<Rightarrow> nat list \<Rightarrow> nat list option" where
  "fold_strip [] bs = Some bs"
| "fold_strip (l # ls) bs =
     (case bs of
        [] \<Rightarrow> None
      | b # rest \<Rightarrow>
          if b = l \<or> 65 \<le> b \<and> b \<le> 90 \<and> b + 32 = l then fold_strip ls rest
          else if l = 107 \<and> take 3 bs = [226, 132, 170] then fold_strip ls (drop 3 bs)
          else if l = 115 \<and> take 2 bs = [197, 191] then fold_strip ls (drop 2 bs)
          else None)"

fun skip_other :: "nat \<Rightarrow> nat list \<Rightarrow> nat list option" where
  "skip_other n bs =
     (if bs = [] then None
      else if digit_code_p (hd bs) then Some bs
      else case n of 0 \<Rightarrow> None | Suc k \<Rightarrow> skip_other k (drop (snd (decode_rune bs)) bs))"

definition version_at :: "nat list \<Rightarrow> (string \<times> string) option" where
  "version_at bs =
     (case skip_other 48 bs of
        Some (a # b # c # d # e # rest) \<Rightarrow>
          if digit_code_p a \<and> digit_code_p b \<and> c = 46 \<and> digit_code_p d \<and> digit_code_p e
          then Some (map char_of [a, b], map char_of [d, e]) else None
      | _ \<Rightarrow> None)"

fun first_some :: "('a \<Rightarrow> 'b option) \<Rightarrow> 'a list \<Rightarrow> 'b option" where
  "first_some f [] = None"
| "first_some f (x # xs) = (case f x of None \<Rightarrow> first_some f xs | Some y \<Rightarrow> Some y)"

definition after_flavour :: "nat list \<Rightarrow> string \<Rightarrow> nat list option" where
  "after_flavour bs flavour =
     (case fold_strip (map of_char ''ubuntu'') bs of
        None \<Rightarrow> None
      | Some rest \<Rightarrow>
          let spaces = takeWhile (\<lambda>b. b \<in> {9, 10, 12, 13, 32}) rest in
          if spaces = [] then None else fold_strip (map of_char flavour) (drop (length spaces) rest))"

definition release_at :: "nat list \<Rightarrow> (string \<times> string) option" where
  "release_at bs =
     first_some (\<lambda>r. case r of None \<Rightarrow> None | Some rest \<Rightarrow> version_at rest)
       (map (\<lambda>name. fold_strip (map of_char name) bs) [''ubuntu'', ''kubuntu'', ''xubuntu'', ''lubuntu'']
        @ map (after_flavour bs) [''mate'', ''budgie'', ''studio'', ''unity'', ''cinnamon'', ''kylin''])"

fun find_release :: "nat list \<Rightarrow> (string \<times> string) option" where
  "find_release [] = release_at []"
| "find_release (b # bs) = (case release_at (b # bs) of None \<Rightarrow> find_release bs | Some v \<Rightarrow> Some v)"

text \<open>\<open>strconv.Atoi\<close> of two digits.\<close>

definition two_digits :: "string \<Rightarrow> nat" where
  "two_digits s = foldl (\<lambda>n c. 10 * n + (of_char c - 48)) 0 s"

section \<open>Detection\<close>

definition detectUbuntu :: "string \<Rightarrow> configs \<Rightarrow> bool \<Rightarrow> Detection" where
  "detectUbuntu info cs modernMetadata =
     (let trimmed = trim_space info;
          detection = \<lparr> de_Family = FamilyUbuntuCasper, de_DisplayName = (if trimmed = [] then ''Ubuntu casper'' else trimmed),
            de_Version = [], de_BootParameter = ''persistent'', de_Filesystem = ''ext4'', de_FilesystemLabel = ''casper-rw'',
            de_PersistenceConfig = [], de_PatchPaths = [], de_AlreadyEnabledPaths = [],
            de_Evidence = [''casper kernel/initrd'', ''casper kernel command''] \<rparr>;
          add = (\<lambda>d e. d\<lparr>de_Evidence := de_Evidence d @ [e]\<rparr>);
          classified = (\<lambda>d. d\<lparr> de_PatchPaths := fst (classifyConfigs cs (de_Family d) (de_BootParameter d)),
            de_AlreadyEnabledPaths := snd (classifyConfigs cs (de_Family d) (de_BootParameter d)) \<rparr>) in
      case find_release (map of_char info) of
        Some (major, minor) \<Rightarrow>
          let version = major @ ''.'' @ minor;
              detection = add (detection\<lparr>de_Version := version\<rparr>) (''.disk/info Ubuntu release '' @ version) in
          if two_digits major < 20 \<or> two_digits major = 20 \<and> two_digits minor < 4
          then add (detection\<lparr>de_FilesystemLabel := []\<rparr>)
                 ''Ubuntu releases older than 20.04 are outside the initial casper persistence compatibility scope''
          else classified detection
      | None \<Rightarrow>
          if modernMetadata then classified (add detection ''casper/install-sources.yaml modern live-media metadata'')
          else add (detection\<lparr>de_FilesystemLabel := []\<rparr>)
                 ''could not establish Ubuntu 20.04+ compatibility from .disk/info or modern casper metadata'')"

definition detectDebian :: "string \<Rightarrow> configs \<Rightarrow> Detection" where
  "detectDebian info cs =
     (let trimmed = trim_space info; paths = classifyConfigs cs FamilyDebianLive ''persistence'' in
      \<lparr> de_Family = FamilyDebianLive, de_DisplayName = (if trimmed = [] then ''Debian live-boot'' else trimmed),
        de_Version = [], de_BootParameter = ''persistence'', de_Filesystem = ''ext4'', de_FilesystemLabel = ''persistence'',
        de_PersistenceConfig = ''/ union'' @ [CHR 0x0A], de_PatchPaths = fst paths, de_AlreadyEnabledPaths = snd paths,
        de_Evidence = [''live kernel/initrd'', ''boot=live configuration''] \<rparr>)"

definition detect :: "'w live_fs option \<Rightarrow> ('w, Detection) act" where
  "detect root w =
     (case root of
        None \<Rightarrow> (Inl (Msg ''media filesystem is nil''), w)
      | Some fs \<Rightarrow>
      (case readSmallRegular fs ''.disk/info'' maxInfoBytes w of (read, w1) \<Rightarrow>
      let info = (case read of Inl e \<Rightarrow> [] | Inr s \<Rightarrow> s) in
      (case readBootConfigs fs w1 of
         (Inl e, w2) \<Rightarrow> (Inl e, w2)
       | (Inr configs, w2) \<Rightarrow>
      (case hasPrefixedRegular fs ''casper'' ''vmlinuz'' w2 of (casperKernel, w3) \<Rightarrow>
      (case hasPrefixedRegular fs ''casper'' ''initrd'' w3 of (casperInitrd, w4) \<Rightarrow>
      (case hasPrefixedRegular fs ''live'' ''vmlinuz'' w4 of (liveKernel, w5) \<Rightarrow>
      (case hasPrefixedRegular fs ''live'' ''initrd'' w5 of (liveInitrd, w6) \<Rightarrow>
      let casperConfigs = matchingFamilyConfigs configs FamilyUbuntuCasper;
          debianConfigs = matchingFamilyConfigs configs FamilyDebianLive;
          casper = (casperKernel \<and> casperInitrd \<and> 0 < length casperConfigs);
          debian = (liveKernel \<and> liveInitrd \<and> 0 < length debianConfigs) in
      if casper \<and> debian
      then (Inl (Msg ''media contains both casper and Debian live-boot layouts; persistence mode is ambiguous''), w6)
      else if casper
      then (case hasRegular fs ''casper/install-sources.yaml'' w6 of (modernMetadata, w7) \<Rightarrow>
              (Inr (detectUbuntu info casperConfigs modernMetadata), w7))
      else if debian then (Inr (detectDebian info debianConfigs), w6)
      else if casperKernel \<and> casperInitrd
      then (Inl (Msg ''ubuntu casper kernel and initrd were found, but no supported kernel command selects /casper/vmlinuz or boot=casper''), w6)
      else if liveKernel \<and> liveInitrd
      then (Inl (Msg ''debian live kernel and initrd were found, but no supported kernel command contains boot=live''), w6)
      else (Inl (Msg ''media is not a supported Ubuntu casper or Debian live-boot layout''), w6))))))))"

section \<open>Two ways to read a line\<close>

text \<open>
  The classification splits a line at every Unicode space, the edit at blanks and tabs. They agree on
  lines without other spaces but the carriage return of the line ending.
\<close>

definition plain_line :: "string \<Rightarrow> bool" where
  "plain_line body \<longleftrightarrow> list_all (\<lambda>p. p = '' '' \<or> p = [CHR 0x09] \<or> \<not> sublist p body) space_runes"

definition ws :: "char \<Rightarrow> bool" where "ws c \<longleftrightarrow> blank c \<or> c = CHR 0x0D"

definition spaced :: "string \<Rightarrow> bool" where
  "spaced s \<longleftrightarrow> list_all (\<lambda>p. sublist p s \<longrightarrow> p \<in> {'' '', [CHR 0x09], [CHR 0x0D]}) space_runes"

lemma runes_have_ws: "ws c \<Longrightarrow> [c] \<in> set space_runes"
proof -
  have "list_all (\<lambda>p. p \<in> set space_runes) ['' '', [CHR 0x09], [CHR 0x0D]]" by code_simp
  then show "ws c \<Longrightarrow> ?thesis" by (auto simp: ws_def blank_def)
qed

lemma spacedD: "spaced s \<Longrightarrow> p \<in> set space_runes \<Longrightarrow> sublist p s \<Longrightarrow> \<exists>c. p = [c] \<and> ws c"
  by (auto simp: spaced_def list_all_iff ws_def blank_def)

lemma spaced_sublist: "spaced s \<Longrightarrow> sublist t s \<Longrightarrow> spaced t"
  by (auto simp: spaced_def list_all_iff intro: sublist_order.order_trans)

lemma find_space:
  assumes "\<And>p. p \<in> set ps \<Longrightarrow> take (length p) (c # s) = p \<Longrightarrow> \<exists>d. p = [d] \<and> ws d" "ws c \<Longrightarrow> [c] \<in> set ps"
  shows "strip_one ps (c # s) = (if ws c then Some s else None)"
proof (cases "find (\<lambda>p. take (length p) (c # s) = p) ps")
  case None
  then have "\<not> ws c" using assms(2) by (auto simp: find_None_iff)
  with None show ?thesis by (simp add: strip_one_def)
next
  case (Some p)
  then have "p \<in> set ps" "take (length p) (c # s) = p" by (auto simp: find_Some_iff)
  with assms(1) obtain d where "p = [d]" "ws d" by blast
  with \<open>take (length p) (c # s) = p\<close> Some show ?thesis by (simp add: strip_one_def)
qed

lemma take_sublist: "take n s = p \<Longrightarrow> sublist p s"
  using sublist_take by blast

lemma strip_one_spaced: "spaced (c # s) \<Longrightarrow> strip_one space_runes (c # s) = (if ws c then Some s else None)"
  by (rule find_space) (blast intro: spacedD take_sublist runes_have_ws)+

lemma strip_one_spaced_rev:
  assumes "spaced (rev (c # s))"
  shows "strip_one (map rev space_runes) (c # s) = (if ws c then Some s else None)"
proof (rule find_space)
  fix p
  assume "p \<in> set (map rev space_runes)" and t: "take (length p) (c # s) = p"
  then obtain q where q: "p = rev q" "q \<in> set space_runes" by auto
  have "sublist (rev p) (rev (c # s))" using take_sublist [OF t] by (metis sublist_rev_left rev_rev_ident sublist_rev)
  with spacedD [OF assms q(2)] q(1) show "\<exists>d. p = [d] \<and> ws d" by auto
next
  assume "ws c"
  from imageI [OF runes_have_ws [OF this], of rev] show "[c] \<in> set (map rev space_runes)" by simp
qed

lemma strip_one_Nil: "strip_one space_runes [] = None" "strip_one (map rev space_runes) [] = None"
  by code_simp+

lemma strip_many_spaced: "spaced s \<Longrightarrow> length s \<le> n \<Longrightarrow> strip_many space_runes n s = dropWhile ws s"
proof (induction n arbitrary: s)
  case (Suc n)
  show ?case
  proof (cases s)
    case (Cons c t)
    with Suc.prems have "spaced t" using spaced_sublist by (metis sublist_Cons_right sublist_order.order_refl)
    with Suc Cons show ?thesis by (simp add: strip_one_spaced)
  qed (simp add: strip_one_Nil)
qed simp

lemma strip_many_spaced_rev: "spaced (rev s) \<Longrightarrow> length s \<le> n \<Longrightarrow> strip_many (map rev space_runes) n s = dropWhile ws s"
proof (induction n arbitrary: s)
  case (Suc n)
  show ?case
  proof (cases s)
    case (Cons c t)
    with Suc.prems have "spaced (rev t)" using spaced_sublist [of "rev (c # t)" "rev t"] by simp
    with Suc Cons show ?thesis by (simp add: strip_one_spaced_rev del: rev.simps)
  qed (simp add: strip_one_Nil)
qed simp

lemma trim_space_spaced: "spaced s \<Longrightarrow> trim_space s = trim_by ws s"
proof -
  assume s: "spaced s"
  then have t: "spaced (dropWhile ws s)" by (rule spaced_sublist) (rule sublist_dropWhile)
  show ?thesis
    unfolding trim_space_def Let_def strip_many_spaced [OF s order_refl]
    using strip_many_spaced_rev [of "rev (dropWhile ws s)" "length (dropWhile ws s)"] t
    by (simp add: trim_by_def trim_right_by_def)
qed

lemma end_field_words: "list_all (\<lambda>c. \<not> ws c) cur \<Longrightarrow> end_field cur = filter (\<lambda>v. v \<noteq> []) (split_by ws cur)"
  by (cases cur) (simp_all only: split_by_none end_field.simps, simp_all)

lemma fields_from_spaced:
  "spaced s \<Longrightarrow> list_all (\<lambda>c. \<not> ws c) cur \<Longrightarrow> fields_from cur s = filter (\<lambda>v. v \<noteq> []) (split_by ws (cur @ s))"
proof (induction s arbitrary: cur)
  case Nil
  then show ?case by (simp add: end_field_words)
next
  case (Cons c s)
  have t: "spaced s" using Cons.prems(1) by (rule spaced_sublist) (simp add: sublist_Cons_right)
  show ?case
  proof (cases "ws c")
    case True
    have "end_field cur = filter (\<lambda>v. v \<noteq> []) (split_by ws cur)"
      using Cons.prems(2) by (rule end_field_words)
    moreover have "fields_from [] s = filter (\<lambda>v. v \<noteq> []) (split_by ws s)" using Cons.IH [OF t, of "[]"] by simp
    ultimately show ?thesis
      using True by (simp add: strip_one_spaced [OF Cons.prems(1)] split_by_append)
  next
    case False
    then show ?thesis
      using Cons.IH [OF t, of "cur @ [c]"] Cons.prems(2) by (simp add: strip_one_spaced [OF Cons.prems(1)])
  qed
qed

text \<open>A plain line and the line of the split, which still has the carriage return.\<close>

lemma plain_spaced: "plain_line body \<Longrightarrow> spaced body"
  by (auto simp: plain_line_def spaced_def list_all_iff)

lemma plain_no_return: "plain_line body \<Longrightarrow> CHR 0x0D \<notin> set body"
proof
  assume p: "plain_line body" and "CHR 0x0D \<in> set body"
  then obtain u v where "body = u @ CHR 0x0D # v" by (auto dest: split_list)
  then have b: "sublist [CHR 0x0D] body" unfolding sublist_def by (intro exI [of _ u] exI [of _ v]) simp
  have r: "[CHR 0x0D] \<in> set space_runes" by (rule runes_have_ws) (simp add: ws_def)
  have "\<forall>q \<in> set space_runes. q = '' '' \<or> q = [CHR 0x09] \<or> \<not> sublist q body"
    using p by (simp only: plain_line_def list_all_iff)
  from bspec [OF this r] b show False by simp
qed

lemma plain_return_spaced:
  assumes "plain_line body"
  shows "spaced (body @ [CHR 0x0D])"
proof -
  have "p \<in> {'' '', [CHR 0x09], [CHR 0x0D]}" if p: "p \<in> set space_runes" "sublist p (body @ [CHR 0x0D])" for p
  proof (cases "sublist p body")
    case True
    with assms p(1) show ?thesis by (auto simp: plain_line_def list_all_iff)
  next
    case False
    have "list_all (\<lambda>p. CHR 0x0D \<in> set p \<longrightarrow> p = [CHR 0x0D]) space_runes" by code_simp
    then have "CHR 0x0D \<in> set p \<Longrightarrow> p = [CHR 0x0D]" using p(1) by (simp add: list_all_iff)
    moreover have "CHR 0x0D \<in> set p"
    proof (rule ccontr)
      assume c: "CHR 0x0D \<notin> set p"
      from p(2) obtain u v where uv: "body @ [CHR 0x0D] = u @ p @ v" by (auto simp: sublist_def)
      have "p \<noteq> []" using False by auto
      show False
      proof (cases v rule: rev_cases)
        case Nil
        with uv \<open>p \<noteq> []\<close> have "last p = CHR 0x0D" by (metis append.right_neutral last_appendR last_snoc)
        with c \<open>p \<noteq> []\<close> show False by (metis last_in_set)
      next
        case (snoc v' x)
        with uv have "body = u @ p @ v'" by simp
        with False show False by (auto simp: sublist_def)
      qed
    qed
    ultimately show ?thesis by simp
  qed
  then show ?thesis by (auto simp: spaced_def list_all_iff)
qed

lemma trim_by_cong: "(\<And>c. c \<in> set s \<Longrightarrow> P c = Q c) \<Longrightarrow> trim_by P s = trim_by Q s"
  unfolding trim_by_def trim_right_by_def
  by (metis (mono_tags, lifting) dropWhile_cong set_dropWhileD set_rev)

lemma trim_by_snoc: "P x \<Longrightarrow> trim_by P (s @ [x]) = trim_by P s"
proof (cases "\<forall>c \<in> set s. P c")
  case True
  assume "P x"
  with True have "dropWhile P (s @ [x]) = []" "dropWhile P s = []" by auto
  then show ?thesis by (simp only: trim_by_def)
next
  case False
  assume "P x"
  from False obtain c where "c \<in> set s" "\<not> P c" by blast
  from dropWhile_append1 [of c s P "[x]", OF this] \<open>P x\<close> show ?thesis by (simp add: trim_by_def trim_right_by_def)
qed

lemma trim_plain_line:
  assumes "plain_line body"
  shows "trim_space body = trim_by blank body" "trim_space (body @ [CHR 0x0D]) = trim_by blank body"
proof -
  have b: "trim_by ws body = trim_by blank body"
    using plain_no_return [OF assms] by (intro trim_by_cong) (auto simp: ws_def)
  then show "trim_space body = trim_by blank body" by (simp add: trim_space_spaced plain_spaced [OF assms])
  have "trim_space (body @ [CHR 0x0D]) = trim_by ws (body @ [CHR 0x0D])" by (rule trim_space_spaced [OF plain_return_spaced [OF assms]])
  also have "\<dots> = trim_by ws body" by (rule trim_by_snoc) (simp add: ws_def)
  finally show "trim_space (body @ [CHR 0x0D]) = trim_by blank body" using b by simp
qed

lemma words_dropWhile: "line_words (dropWhile blank s) = line_words s"
proof -
  have "list_all blank (takeWhile blank s)" by (auto simp: list_all_iff dest: set_takeWhileD)
  from line_words_blanks [OF this, of "dropWhile blank s"] show ?thesis by simp
qed

lemma words_trim_right: "line_words (trim_right_by blank s) = line_words s"
proof -
  let ?g = "rev (takeWhile blank (rev s))"
  have s: "s = trim_right_by blank s @ ?g" unfolding trim_right_by_def by (metis rev_append rev_rev_ident takeWhile_dropWhile_id)
  have g: "list_all blank ?g" by (auto simp: list_all_iff dest: set_takeWhileD)
  have "line_words (trim_right_by blank s @ ?g) = line_words (trim_right_by blank s) @ line_words ?g"
    using g by (intro line_words_join) (cases ?g; auto)
  then show ?thesis using s blanks_suffix [OF g] by simp
qed

lemma words_trim: "line_words (trim_by blank s) = line_words s"
  by (simp add: trim_by_def words_trim_right words_dropWhile)

lemma ws_split: "CHR 0x0D \<notin> set s \<Longrightarrow> split_by ws s = split_by blank s"
  by (induction s) (auto simp: ws_def)

lemma trim_by_set: "set (trim_by P s) \<subseteq> set s"
  unfolding trim_by_def trim_right_by_def set_rev
  by (rule subset_trans [of _ "set (rev (dropWhile P s))"]) (auto dest: set_dropWhileD)

lemma trim_by_sublist: "sublist (trim_by P s) s"
proof -
  have "sublist (trim_right_by P t) t" for t :: "'a list"
    unfolding trim_right_by_def by (metis sublist_dropWhile sublist_rev rev_rev_ident)
  then show ?thesis unfolding trim_by_def using sublist_dropWhile sublist_order.order_trans by metis
qed

lemma fields_plain:
  assumes "plain_line body"
  shows "text_fields (trim_by blank body) = line_words body"
proof -
  have sp: "spaced (trim_by blank body)" by (rule spaced_sublist [OF plain_spaced [OF assms] trim_by_sublist])
  have "CHR 0x0D \<notin> set (trim_by blank body)" using plain_no_return [OF assms] trim_by_set by fastforce
  then show ?thesis
    by (simp add: text_fields_def fields_from_spaced [OF sp] ws_split flip: line_words_def words_trim [of body])
qed

lemma commented_trim:
  "commented (trim_by blank body) \<longleftrightarrow> line_words body \<noteq> [] \<and> commented (hd (line_words body))"
proof (cases "dropWhile blank body = []")
  case True
  have "line_words body = line_words (dropWhile blank body)" by (rule words_dropWhile [symmetric])
  with True have "line_words body = []" by (simp only: line_words_Nil)
  moreover have "trim_by blank body = []" unfolding trim_by_def True by (simp add: trim_right_by_def)
  ultimately show ?thesis by (simp add: commented_def has_prefix_def)
next
  case False
  obtain c t where ct: "dropWhile blank body = c # t" "\<not> blank c" using False hd_dropWhile [of blank body] by (cases "dropWhile blank body") auto
  have "trim_by blank body = c # trim_right_by blank t"
    using ct by (simp add: trim_by_def trim_right_by_def dropWhile_append)
  moreover have "line_words body = (c # takeWhile (\<lambda>c. \<not> blank c) t) # line_words (dropWhile (\<lambda>c. \<not> blank c) t)"
  proof -
    have "line_words ((c # takeWhile (\<lambda>c. \<not> blank c) t) @ dropWhile (\<lambda>c. \<not> blank c) t)
        = (c # takeWhile (\<lambda>c. \<not> blank c) t) # line_words (dropWhile (\<lambda>c. \<not> blank c) t)"
      using ct(2) hd_dropWhile [of "\<lambda>c. \<not> blank c" t]
      by (intro line_words_token) (auto simp: list_all_iff dest: set_takeWhileD)
    then show ?thesis using ct(1) words_dropWhile [of body] by simp
  qed
  ultimately show ?thesis by (simp add: commented_def has_prefix_def)
qed

lemma kernel_line_plain:
  "plain_line body \<Longrightarrow> kernel_line family body \<longleftrightarrow> 2 \<le> length (line_words body) \<and> \<not> commented (hd (line_words body))
     \<and> isKernelArgumentCommand (hd (line_words body)) \<and> kernelArgumentsSelectFamily (tl (line_words body)) family"
  by (auto simp: kernel_line_def trim_plain_line commented_trim)

lemma inspect_line_plain:
  assumes "plain_line body" "line = body \<or> line = body @ [CHR 0x0D]" "p \<noteq> []"
  shows "inspect_line family p line (k, m, q) =
    (if kernel_line family body then if has_parameter p body then (k + 1, m, q + 1) else (k + 1, m + 1, q) else (k, m, q))"
proof -
  have t: "trim_space line = trim_by blank body" using assms(2) trim_plain_line [OF assms(1)] by auto
  have "line_words body = []" if "trim_by blank body = []" using words_trim [of body] that by simp
  then show ?thesis
    using assms(3) kernel_line_plain [OF assms(1), of family]
    unfolding inspect_line_def t fields_plain [OF assms(1)] commented_trim has_parameter_def Let_def
    by (cases "trim_by blank body = []") (simp_all add: not_less)
qed

section \<open>Counting the lines of a text\<close>

lemma split_on_parts:
  "split_on c s = map (\<lambda>q. if q \<noteq> [] \<and> last q = c then butlast q else q) (split_after c s)"
proof (induction s)
  case (Cons x s)
  obtain q qs where q: "split_after c s = q # qs" using split_after_nonempty by (metis list.exhaust)
  with Cons show ?case by (auto simp: cons_head_def)
qed simp

lemma line_of_part:
  assumes "splitLineEnding part = (body, ending)"
  shows "(if part \<noteq> [] \<and> last part = CHR 0x0A then butlast part else part)
      \<in> {body, body @ [CHR 0x0D]}"
  using splitLineEnding_ends [OF assms] by (auto simp: ends_line_def butlast_append)

definition part_body :: "string \<Rightarrow> string" where "part_body part = fst (splitLineEnding part)"

definition plain_text :: "string \<Rightarrow> bool" where
  "plain_text content \<longleftrightarrow> list_all (\<lambda>q. plain_line (part_body q)) (split_after (CHR 0x0A) content)"

definition sets_parameter :: "string \<Rightarrow> string \<Rightarrow> string \<Rightarrow> bool" where
  "sets_parameter family p part \<longleftrightarrow> kernel_line family (part_body part) \<and> has_parameter p (part_body part)"

lemma inspect_fold:
  "list_all (\<lambda>q. plain_line (part_body q)) parts \<Longrightarrow> p \<noteq> [] \<Longrightarrow>
   fold (inspect_line family p) (map (\<lambda>q. if q \<noteq> [] \<and> last q = CHR 0x0A then butlast q else q) parts) (k, m, n) =
     (k + length (filter (lacks_parameter family p) parts) + length (filter (sets_parameter family p) parts),
      m + length (filter (lacks_parameter family p) parts), n + length (filter (sets_parameter family p) parts))"
proof (induction parts arbitrary: k m n)
  case (Cons q parts)
  obtain body ending where s: "splitLineEnding q = (body, ending)" by (cases "splitLineEnding q")
  then have b: "part_body q = body" by (simp add: part_body_def)
  let ?line = "if q \<noteq> [] \<and> last q = CHR 0x0A then butlast q else q"
  have "inspect_line family p ?line (k, m, n) =
    (if kernel_line family body then if has_parameter p body then (k + 1, m, n + 1) else (k + 1, m + 1, n) else (k, m, n))"
    using line_of_part [OF s] Cons.prems b by (intro inspect_line_plain) auto
  with Cons show ?case by (simp add: lacks_parameter_def sets_parameter_def b s)
qed simp

lemma inspect_counts:
  assumes "plain_text content" "p \<noteq> []"
  shows "inspectFamilyKernelLines content family p =
     (length (filter (lacks_parameter family p) (split_after (CHR 0x0A) content))
        + length (filter (sets_parameter family p) (split_after (CHR 0x0A) content)),
      length (filter (lacks_parameter family p) (split_after (CHR 0x0A) content)),
      length (filter (sets_parameter family p) (split_after (CHR 0x0A) content)))"
  using inspect_fold [of "split_after (CHR 0x0A) content" p family 0 0 0] assms
  by (simp add: inspectFamilyKernelLines_def split_on_parts plain_text_def)

text \<open>An inserted parameter makes no new space.\<close>

lemma sublist_avoid: "x \<notin> set q \<Longrightarrow> sublist q (a @ x # b) \<Longrightarrow> sublist q a \<or> sublist q b"
  by (auto simp: sublist_append sublist_Cons_right prefix_Cons)

lemma sublist_avoid_all: "set m \<inter> set q = {} \<Longrightarrow> m \<noteq> [] \<Longrightarrow> sublist q (a @ m @ b) \<Longrightarrow> sublist q a \<or> sublist q b"
proof (induction m arbitrary: a)
  case (Cons x m)
  then consider "sublist q a" | "sublist q ([] @ m @ b)" using sublist_avoid [of x q a "m @ b"] by auto
  then show ?case
  proof cases
    case 2
    show ?thesis
    proof (cases "m = []")
      case False
      then have "sublist q [] \<or> sublist q b" using Cons.prems(1) by (intro Cons.IH [OF _ _ 2]) auto
      then show ?thesis by auto
    qed (use 2 in simp)
  qed simp
qed simp

lemma inserted_plain:
  assumes "inserted p line line1" "plain_line line" "plain_parameter p"
  shows "plain_line line1"
proof -
  obtain a b m where ab: "line = a @ b" "line1 = a @ m @ b" "m = p @ '' '' \<or> m = '' '' @ p"
    using assms(1) unfolding inserted_def by (metis append.assoc)
  have m: "m \<noteq> []" "set m \<subseteq> set ''persistence t''" using ab(3) assms(3) by (auto simp: plain_parameter_def)
  have avoid: "list_all (\<lambda>q. q = '' '' \<or> set ''persistence t'' \<inter> set q = {}) space_runes" by code_simp
  have "q = '' '' \<or> q = [CHR 0x09] \<or> \<not> sublist q line1" if q: "q \<in> set space_runes" for q
  proof (cases "q = '' ''")
    case False
    with avoid q have "set ''persistence t'' \<inter> set q = {}" unfolding list_all_iff by metis
    with m have d: "set m \<inter> set q = {}" by blast
    have "sublist q line" if "sublist q line1"
      using sublist_avoid_all [OF d m(1)] that ab(1,2) sublist_order.order_trans by (metis sublist_append_leftI sublist_append_rightI sublist_order.order_refl)
    then show ?thesis using assms(2) q unfolding plain_line_def list_all_iff by metis
  qed simp
  then show ?thesis unfolding plain_line_def list_all_iff by blast
qed

lemma inserted_kernel:
  assumes "inserted p line line1" "plain_line line" "plain_parameter p" "kernel_line family line"
  shows "kernel_line family line1"
proof -
  obtain a b where w: "line_words line = line_words a @ line_words b" "line_words line1 = line_words a @ p # line_words b"
    "line_words a \<noteq> []" "list_all (\<lambda>v. \<not> commented v) (tl (line_words a))"
    using assms(1) unfolding inserted_def by blast
  have "active (tl (line_words line1)) = tl (line_words a) @ p # active (line_words b)"
    "active (tl (line_words line)) = tl (line_words a) @ active (line_words b)"
    using w plain_parameter_word(4) [OF assms(3)] by (simp_all add: list_all_iff takeWhile_append)
  with assms(4) w(1-3) show ?thesis
    unfolding kernel_line_plain [OF assms(2)] kernel_line_plain [OF inserted_plain [OF assms(1-3)]]
    by (auto simp: kernelArgumentsSelectFamily_def split: option.splits)
qed

lemma patched_part_sets:
  assumes "plain_parameter p" "plain_line (part_body q)"
  shows "plain_line (part_body (fst (patch_part family p q)))"
    "\<not> lacks_parameter family p (fst (patch_part family p q))"
    "sets_parameter family p (fst (patch_part family p q)) \<longleftrightarrow> lacks_parameter family p q \<or> sets_parameter family p q"
proof -
  obtain body ending where s: "splitLineEnding q = (body, ending)" by (cases "splitLineEnding q")
  note b = patch_part_body [OF assms(1) s, of family]
  have pb: "part_body q = body" "part_body (fst (patch_part family p q)) = fst (patchKernelLine body family p)"
    by (simp_all add: part_body_def s b(2))
  have l: "lacks_parameter family p q = snd (patchKernelLine body family p)"
    using patch_part_edited(2) [OF assms(1), of family q] b(1) by simp
  show "\<not> lacks_parameter family p (fst (patch_part family p q))"
    using patch_part_edited(2) [OF assms(1), of family "fst (patch_part family p q)"] b(3) by simp
  show "plain_line (part_body (fst (patch_part family p q)))"
    "sets_parameter family p (fst (patch_part family p q)) \<longleftrightarrow> lacks_parameter family p q \<or> sets_parameter family p q"
  proof (atomize (full), cases "snd (patchKernelLine body family p)")
    case True
    note i = patched_inserted [OF True assms(1)]
    have "kernel_line family body" using True by (simp add: patched_iff)
    then show "plain_line (part_body (fst (patch_part family p q)))
      \<and> sets_parameter family p (fst (patch_part family p q)) = (lacks_parameter family p q \<or> sets_parameter family p q)"
      using inserted_plain [OF i] inserted_kernel [OF i] inserted_contains [OF i assms(1)] assms True l
      by (simp add: sets_parameter_def pb)
  next
    case False
    then show "plain_line (part_body (fst (patch_part family p q)))
      \<and> sets_parameter family p (fst (patch_part family p q)) = (lacks_parameter family p q \<or> sets_parameter family p q)"
      using unpatched [OF False] assms(2) l by (simp add: sets_parameter_def pb)
  qed
qed

lemma count_lines:
  "length (filter (\<lambda>q. lacks_parameter family p q \<or> sets_parameter family p q) qs)
     = length (filter (lacks_parameter family p) qs) + length (filter (sets_parameter family p) qs)"
  by (induction qs) (auto simp: lacks_parameter_def sets_parameter_def part_body_def)

lemma edited_text_enabled:
  assumes "PatchBootConfig content d = Inr (out, n)" "plain_parameter (de_BootParameter d)" "plain_text content"
  shows "n = fst (snd (inspectFamilyKernelLines content (de_Family d) (de_BootParameter d)))"
    "inspectFamilyKernelLines out (de_Family d) (de_BootParameter d)
       = (let k = fst (inspectFamilyKernelLines content (de_Family d) (de_BootParameter d)) in (k, 0, k))"
proof -
  let ?p = "de_BootParameter d" and ?f = "de_Family d" and ?parts = "split_after (CHR 0x0A) content"
  let ?out = "map (\<lambda>q. fst (patch_part ?f ?p q)) ?parts"
  have ne: "?p \<noteq> []" using assms(2) by (auto simp: plain_parameter_def)
  note parts = boot_config_patched(1) [OF assms(1,2)]
  have plain: "\<And>q. q \<in> set ?parts \<Longrightarrow> plain_line (part_body q)" using assms(3) by (simp add: plain_text_def list_all_iff)
  note ps = patched_part_sets [OF assms(2) plain, of _ ?f]
  have pl: "plain_text out" unfolding plain_text_def parts using ps(1) by (simp add: list_all_iff)
  have none: "filter (lacks_parameter ?f ?p) ?out = []" using ps(2) by (auto simp: filter_empty_conv)
  have "length (filter (sets_parameter ?f ?p) ?out) = length (filter (\<lambda>q. lacks_parameter ?f ?p q \<or> sets_parameter ?f ?p q) ?parts)"
    using ps(3) by (simp add: filter_map comp_def cong: filter_cong)
  also have "\<dots> = length (filter (lacks_parameter ?f ?p) ?parts) + length (filter (sets_parameter ?f ?p) ?parts)"
    by (rule count_lines)
  finally show "inspectFamilyKernelLines out ?f ?p = (let k = fst (inspectFamilyKernelLines content ?f ?p) in (k, 0, k))"
    unfolding inspect_counts [OF pl ne] inspect_counts [OF assms(3) ne] parts none by (simp add: Let_def)
  show "n = fst (snd (inspectFamilyKernelLines content ?f ?p))"
    using boot_config_patched(2) [OF assms(1,2)] by (simp add: inspect_counts [OF assms(3) ne])
qed

section \<open>What a detection says\<close>

lemma with_file_Inr:
  "with_file fs name body w = (Inr x, w1) \<Longrightarrow> \<exists>fd w2 w3. lf_Open fs name w = (Inr fd, w2) \<and> body fd w2 = (Inr x, w3)"
  by (auto simp: with_file_def bind_act_def split: prod.splits sum.splits)

lemma read_small_length: "readSmallRegular fs name limit w = (Inr s, w1) \<Longrightarrow> length s \<le> limit"
  unfolding readSmallRegular_def Let_def
  by (drule with_file_Inr) (auto simp: result_simps not_less split: if_splits)

lemma read_configs_bounded:
  "read_configs fs names cs w = (Inr cs1, w1) \<Longrightarrow> list_all (\<lambda>c. length (snd c) \<le> maxConfigBytes) cs
     \<Longrightarrow> distinct (map fst cs) \<Longrightarrow> list_all (\<lambda>c. length (snd c) \<le> maxConfigBytes) cs1 \<and> distinct (map fst cs1)"
proof (induction names arbitrary: cs w)
  case (Cons name names)
  have d: "distinct (map fst (set_config name content cs))" for content
    using Cons.prems(3) by (auto simp: set_config_def intro: distinct_map_filter)
  have b: "list_all (\<lambda>c. length (snd c) \<le> maxConfigBytes) (set_config name content cs)" if "length content \<le> maxConfigBytes" for content
    using Cons.prems(2) that by (auto simp: set_config_def list_all_iff)
  show ?case
  proof (cases "readSmallRegular fs name maxConfigBytes w")
    case (Pair r w2)
    show ?thesis
    proof (cases r)
      case (Inl e)
      with Pair Cons.prems(1) have "read_configs fs names cs w2 = (Inr cs1, w1)" by (simp split: if_splits)
      then show ?thesis by (rule Cons.IH [OF _ Cons.prems(2,3)])
    next
      case (Inr content)
      with Pair Cons.prems(1) have r: "read_configs fs names (set_config name content cs) w2 = (Inr cs1, w1)" by simp
      have "length content \<le> maxConfigBytes" using Pair Inr by (auto intro: read_small_length)
      from Cons.IH [OF r b [OF this] d] show ?thesis .
    qed
  qed
qed simp

definition gains_parameter :: "Detection \<Rightarrow> string \<Rightarrow> bool" where
  "gains_parameter d content \<longleftrightarrow>
     (\<exists>out n. PatchBootConfig content d = Inr (out, n) \<and> 0 < n \<and> already_enabled (de_Family d) (de_BootParameter d) out)"

text \<open>A text the edit accepts whose lines have no other spaces than blanks and tabs.\<close>

definition plain_config :: "string \<Rightarrow> bool" where
  "plain_config content \<longleftrightarrow> plain_text content \<and> CHR 0x00 \<notin> set content \<and> valid_string content"

definition classified_by :: "configs \<Rightarrow> Detection \<Rightarrow> bool" where
  "classified_by cs d \<longleftrightarrow> de_FilesystemLabel d \<noteq> []
     \<and> (de_PatchPaths d, de_AlreadyEnabledPaths d) = classifyConfigs cs (de_Family d) (de_BootParameter d)"

lemma detected_contract:
  assumes "detect root w = (Inr d, w1)"
  shows "(de_Family d = FamilyUbuntuCasper \<and> de_BootParameter d = ''persistent''
      \<or> de_Family d = FamilyDebianLive \<and> de_BootParameter d = ''persistence'') \<and> de_Filesystem d = ''ext4''"
    "\<exists>fs cs w2 w3. root = Some fs \<and> readBootConfigs fs w2 = (Inr cs, w3)
      \<and> (classified_by (matchingFamilyConfigs cs (de_Family d)) d
         \<or> de_FilesystemLabel d = [] \<and> de_PatchPaths d = [] \<and> de_AlreadyEnabledPaths d = [])"
proof -
  obtain fs where root: "root = Some fs" using assms by (cases root) (auto simp: detect_def)
  obtain read w2 where r: "readSmallRegular fs ''.disk/info'' maxInfoBytes w = (read, w2)" by fastforce
  obtain rc w3 where rc: "readBootConfigs fs w2 = (rc, w3)" by fastforce
  have "\<exists>cs. rc = Inr cs" using assms by (cases rc) (simp_all add: detect_def root r rc)
  then obtain cs where cs: "rc = Inr cs" ..
  note fs = root rc [unfolded cs]
  obtain a w4 where a: "hasPrefixedRegular fs ''casper'' ''vmlinuz'' w3 = (a, w4)" by fastforce
  obtain b w5 where b: "hasPrefixedRegular fs ''casper'' ''initrd'' w4 = (b, w5)" by fastforce
  obtain c w6 where c: "hasPrefixedRegular fs ''live'' ''vmlinuz'' w5 = (c, w6)" by fastforce
  obtain e w7 where e: "hasPrefixedRegular fs ''live'' ''initrd'' w6 = (e, w7)" by fastforce
  define info where "info = (case read of Inl e \<Rightarrow> [] | Inr s \<Rightarrow> s)"
  have d: "(\<exists>modern. d = detectUbuntu info (matchingFamilyConfigs cs FamilyUbuntuCasper) modern)
      \<or> d = detectDebian info (matchingFamilyConfigs cs FamilyDebianLive)"
    using assms unfolding detect_def root option.case r prod.case rc cs sum.case a b c e Let_def info_def [symmetric]
    by (cases "hasRegular fs ''casper/install-sources.yaml'' w7") (auto split: if_splits)
  have u: "de_Family e = FamilyUbuntuCasper \<and> de_BootParameter e = ''persistent'' \<and> de_Filesystem e = ''ext4''
      \<and> (classified_by c e \<or> de_FilesystemLabel e = [] \<and> de_PatchPaths e = [] \<and> de_AlreadyEnabledPaths e = [])"
    if "e = detectUbuntu info c modern" for e c modern
  proof (cases "find_release (map of_char info)")
    case None
    then show ?thesis unfolding that detectUbuntu_def Let_def by (cases modern) (simp_all add: classified_by_def)
  next
    case (Some v)
    obtain major minor where v: "v = (major, minor)" by (cases v)
    show ?thesis
    proof (cases "two_digits major < 20 \<or> two_digits major = 20 \<and> two_digits minor < 4")
      case True
      show ?thesis unfolding that detectUbuntu_def Let_def Some v option.case prod.case if_P [OF True] by simp
    next
      case False
      show ?thesis unfolding that detectUbuntu_def Let_def Some v option.case prod.case if_not_P [OF False]
        by (simp add: classified_by_def)
    qed
  qed
  have deb: "de_Family e = FamilyDebianLive \<and> de_BootParameter e = ''persistence'' \<and> de_Filesystem e = ''ext4'' \<and> classified_by c e"
    if "e = detectDebian info c" for e c
    unfolding that by (simp add: detectDebian_def Let_def classified_by_def)
  show "(de_Family d = FamilyUbuntuCasper \<and> de_BootParameter d = ''persistent''
      \<or> de_Family d = FamilyDebianLive \<and> de_BootParameter d = ''persistence'') \<and> de_Filesystem d = ''ext4''"
    using d u deb by metis
  have "classified_by (matchingFamilyConfigs cs (de_Family d)) d
         \<or> de_FilesystemLabel d = [] \<and> de_PatchPaths d = [] \<and> de_AlreadyEnabledPaths d = []"
    using d
  proof
    assume "\<exists>modern. d = detectUbuntu info (matchingFamilyConfigs cs FamilyUbuntuCasper) modern"
    then obtain modern where "d = detectUbuntu info (matchingFamilyConfigs cs FamilyUbuntuCasper) modern" ..
    from u [OF this] show ?thesis by metis
  next
    assume "d = detectDebian info (matchingFamilyConfigs cs FamilyDebianLive)"
    from deb [OF this] show ?thesis by metis
  qed
  with fs show "\<exists>fs cs w2 w3. root = Some fs \<and> readBootConfigs fs w2 = (Inr cs, w3)
      \<and> (classified_by (matchingFamilyConfigs cs (de_Family d)) d
         \<or> de_FilesystemLabel d = [] \<and> de_PatchPaths d = [] \<and> de_AlreadyEnabledPaths d = [])" by blast
qed

lemma patch_accepted:
  assumes "Ready d" "length content \<le> maxConfigBytes" "plain_config content" "familyBootMarker (de_Family d) \<noteq> None"
  shows "\<exists>out n. PatchBootConfig content d = Inr (out, n)"
  using assms by (simp add: PatchBootConfig_def plain_config_def Let_def)

lemma edit_of_enabled:
  assumes "PatchBootConfig content d = Inr (out, 0)" "plain_parameter (de_BootParameter d)"
  shows "out = content"
proof -
  let ?f = "patch_part (de_Family d) (de_BootParameter d)" and ?parts = "split_after (CHR 0x0A) content"
  have "fst (?f q) = q" if "q \<in> set ?parts" for q
  proof -
    have "\<not> lacks_parameter (de_Family d) (de_BootParameter d) q"
      using boot_config_patched(2) [OF assms] that by (auto simp: filter_empty_conv)
    with patch_part_edited(1) [OF assms(2), of "de_Family d" q] show ?thesis by (auto simp: edited_def split: prod.splits)
  qed
  then have "map (\<lambda>q. fst (?f q)) ?parts = ?parts" by (simp add: map_idI)
  with boot_config_patched(1) [OF assms] have "concat (split_after (CHR 0x0A) out) = concat ?parts" by simp
  then show ?thesis by simp
qed

lemma classified_edit:
  assumes "Ready d" "plain_parameter (de_BootParameter d)" "familyBootMarker (de_Family d) \<noteq> None"
    "length content \<le> maxConfigBytes" "plain_config content"
  shows "to_patch (de_Family d) (de_BootParameter d) content \<Longrightarrow> gains_parameter d content"
    "already_enabled (de_Family d) (de_BootParameter d) content \<Longrightarrow> PatchBootConfig content d = Inr (content, 0)"
proof -
  have plain: "plain_text content" using assms(5) by (simp add: plain_config_def)
  obtain out n where p: "PatchBootConfig content d = Inr (out, n)" using patch_accepted [OF assms(1,4,5,3)] by blast
  note n = edited_text_enabled(1) [OF p assms(2) plain] and out = edited_text_enabled(2) [OF p assms(2) plain]
  show "gains_parameter d content" if "to_patch (de_Family d) (de_BootParameter d) content"
    using that p n out by (auto simp: gains_parameter_def to_patch_def already_enabled_def Let_def split: prod.splits)
  show "PatchBootConfig content d = Inr (content, 0)" if "already_enabled (de_Family d) (de_BootParameter d) content"
  proof -
    have "n = 0" using that n by (auto simp: already_enabled_def split: prod.splits)
    with p edit_of_enabled [OF _ assms(2)] show ?thesis by simp
  qed
qed

section \<open>Properties\<close>

text \<open>
  C18: The detection and the edit agree. The paths a detection names are configurations it has read; for each of
  them that is plain text, one listed to be patched is changed by the edit, at least in one line, and a
  detection of the result would list it as already enabled; and one listed as already enabled is
  accepted and left as it is.
\<close>

theorem detection_matches_edit:
  assumes "detect root w = (Inr d, w1)"
  shows "\<exists>fs cs w2 w3. root = Some fs \<and> readBootConfigs fs w2 = (Inr cs, w3) \<and> distinct (map fst cs)
    \<and> set (de_PatchPaths d @ de_AlreadyEnabledPaths d) \<subseteq> fst ` set cs
    \<and> list_all (\<lambda>(name, content). plain_config content \<longrightarrow>
         (name \<in> set (de_PatchPaths d) \<longrightarrow> gains_parameter d content)
         \<and> (name \<in> set (de_AlreadyEnabledPaths d) \<longrightarrow> PatchBootConfig content d = Inr (content, 0))) cs"
proof -
  obtain fs cs w2 w3 where fs: "root = Some fs" "readBootConfigs fs w2 = (Inr cs, w3)"
    and cl: "classified_by (matchingFamilyConfigs cs (de_Family d)) d
      \<or> de_FilesystemLabel d = [] \<and> de_PatchPaths d = [] \<and> de_AlreadyEnabledPaths d = []"
    using detected_contract(2) [OF assms] by blast
  have cs: "list_all (\<lambda>c. length (snd c) \<le> maxConfigBytes) cs" "distinct (map fst cs)"
    using fs(2) read_configs_bounded [of fs _ "[]"] by (auto simp: readBootConfigs_def result_simps)
  have par: "plain_parameter (de_BootParameter d)" "familyBootMarker (de_Family d) \<noteq> None" "de_Family d \<noteq> []" "de_Filesystem d = ''ext4''"
    using detected_contract(1) [OF assms]
    by (auto simp: plain_parameter_def familyBootMarker_def FamilyUbuntuCasper_def FamilyDebianLive_def)
  have from_cs: "set (de_PatchPaths d @ de_AlreadyEnabledPaths d) \<subseteq> fst ` set cs"
    using cl by (auto simp: classified_by_def classifyConfigs_def matchingFamilyConfigs_def)
  have "(name \<in> set (de_PatchPaths d) \<longrightarrow> gains_parameter d content)
      \<and> (name \<in> set (de_AlreadyEnabledPaths d) \<longrightarrow> PatchBootConfig content d = Inr (content, 0))"
    if c: "(name, content) \<in> set cs" "plain_config content" for name content
  proof (cases "name \<in> set (de_PatchPaths d) \<or> name \<in> set (de_AlreadyEnabledPaths d)")
    case True
    then have k: "classified_by (matchingFamilyConfigs cs (de_Family d)) d" using cl by auto
    have "Ready d" using True k par by (auto simp: Ready_def classified_by_def length_greater_0_conv)
    note e = classified_edit [OF this par(1,2) _ c(2)]
    have len: "length content \<le> maxConfigBytes" using cs(1) c(1) by (auto simp: list_all_iff)
    have same: "content1 = content" if "(name, content1) \<in> set cs" for content1
      using that c(1) cs(2) by (metis eq_key_imp_eq_value)
    have "to_patch (de_Family d) (de_BootParameter d) content" if "name \<in> set (de_PatchPaths d)"
      using that k same by (auto simp: classified_by_def classifyConfigs_def matchingFamilyConfigs_def)
    moreover have "already_enabled (de_Family d) (de_BootParameter d) content" if "name \<in> set (de_AlreadyEnabledPaths d)"
      using that k same by (auto simp: classified_by_def classifyConfigs_def matchingFamilyConfigs_def)
    ultimately show ?thesis using e [OF len] by blast
  qed auto
  with fs cs(2) from_cs show ?thesis unfolding list_all_iff by blast
qed

section \<open>Witnesses\<close>

definition sample_config :: string where "sample_config = ''linux /casper/vmlinuz ---'' @ [CHR 0x0A]"

definition sample_live :: "unit live_fs" where
  "sample_live = \<lparr>
     lf_ReadDir = (\<lambda>dir. if dir = ''casper'' then ret_act [\<lparr> fe_Name = ''vmlinuz'', fe_Regular = True \<rparr>, \<lparr> fe_Name = ''initrd'', fe_Regular = True \<rparr>]
       else pure_act (Inl ErrNotExist)),
     lf_Open = (\<lambda>name. if name = ''boot/grub/grub.cfg'' then ret_act 1 else if name = ''casper/install-sources.yaml'' then ret_act 2
       else pure_act (Inl ErrNotExist)),
     lf_Stat = (\<lambda>fd. ret_act \<lparr> fi_Regular = True, fi_Size = 26 \<rparr>), lf_Read = (\<lambda>fd n. ret_act sample_config),
     lf_Close = (\<lambda>fd w. (None, w)) \<rparr>"

lemma sample_line: "plain_line ''linux /casper/vmlinuz ---''" "plain_line []" "line_words ''linux /casper/vmlinuz ---'' = [''linux'', ''/casper/vmlinuz'', ''---'']"
  by code_simp+

lemma sample_kernel: "kernel_line FamilyUbuntuCasper ''linux /casper/vmlinuz ---''" "\<not> has_parameter ''persistent'' ''linux /casper/vmlinuz ---''"
  using patched_iff [of "''linux /casper/vmlinuz ---''" FamilyUbuntuCasper "''persistent''"] by (simp_all add: sample_kernel_line)

lemma sample_inspected:
  "p = [] \<or> p = ''persistent'' \<Longrightarrow> inspectFamilyKernelLines sample_config FamilyUbuntuCasper p = (1, 1, 0)"
proof -
  assume p: "p = [] \<or> p = ''persistent''"
  have s: "split_on (CHR 0x0A) sample_config = [''linux /casper/vmlinuz ---'', []]" by code_simp
  have t: "trim_space ''linux /casper/vmlinuz ---'' = ''linux /casper/vmlinuz ---''" by (rule trim_space_id) simp_all
  have f: "text_fields ''linux /casper/vmlinuz ---'' = [''linux'', ''/casper/vmlinuz'', ''---'']"
    using fields_plain [OF sample_line(1)] trim_plain_line(1) [OF sample_line(1)] by (simp add: t sample_line(3))
  have k: "isKernelArgumentCommand ''linux''" "kernelArgumentsSelectFamily [''/casper/vmlinuz'', ''---''] FamilyUbuntuCasper"
    using sample_kernel(1) by (simp_all add: kernel_line_def sample_line(3))
  have c: "\<not> commented ''linux /casper/vmlinuz ---''" by (simp add: commented_def has_prefix_def)
  have h: "\<not> kernelArgumentsContain [''/casper/vmlinuz'', ''---''] ''persistent''"
    using sample_kernel(2) by (simp add: has_parameter_def sample_line(3))
  have a: "inspect_line FamilyUbuntuCasper p ''linux /casper/vmlinuz ---'' (0, 0, 0) = (1, 1, 0)"
    unfolding inspect_line_def t f Let_def using p k c h by auto
  have e: "inspect_line FamilyUbuntuCasper p [] (1, 1, 0) = (1, 1, 0)"
    by (simp add: inspect_line_def trim_space_def Let_def)
  show ?thesis unfolding inspectFamilyKernelLines_def s by (simp only: fold_simps a e)
qed

lemma sample_reads [simp]:
  "readSmallRegular sample_live name limit w =
     (if name = ''boot/grub/grub.cfg'' \<or> name = ''casper/install-sources.yaml''
      then (if limit < 26 then Inl (Errorf ''%s exceeds the %d-byte inspection limit'' [FS name, FN limit]) else Inr sample_config, w)
      else (Inl ErrNotExist, w))"
  by (auto simp: readSmallRegular_def with_file_def sample_live_def bind_act_def pure_act_def ret_act_def sample_config_def Let_def)

lemma sample_configs: "readBootConfigs sample_live w = (Inr [(''boot/grub/grub.cfg'', sample_config)], w)"
proof -
  have n: "errors_is ErrNotExist ErrNotExist" by (simp add: ErrNotExist_def)
  have l: "loader_paths sample_live [''loader/entries'', ''boot/loader/entries''] fixedConfigPaths w = (Inr fixedConfigPaths, w)"
    by (simp add: sample_live_def pure_act_def n)
  have r: "read_configs sample_live fixedConfigPaths [] w = (Inr [(''boot/grub/grub.cfg'', sample_config)], w)"
    by (simp add: fixedConfigPaths_def set_config_def maxConfigBytes_def n)
  show ?thesis by (simp only: readBootConfigs_def bind_act_def l r prod.case sum.case)
qed

lemma sample_prefixed:
  "hasPrefixedRegular sample_live ''casper'' ''vmlinuz'' w = (True, w)" "hasPrefixedRegular sample_live ''casper'' ''initrd'' w = (True, w)"
  "hasPrefixedRegular sample_live ''live'' wanted w = (False, w)"
proof -
  have v: "has_prefix (to_lower ''vmlinuz'') (to_lower ''vmlinuz'')" "has_prefix (to_lower ''initrd'') (to_lower ''initrd'')" by code_simp+
  then show "hasPrefixedRegular sample_live ''casper'' ''vmlinuz'' w = (True, w)" "hasPrefixedRegular sample_live ''casper'' ''initrd'' w = (True, w)"
    "hasPrefixedRegular sample_live ''live'' wanted w = (False, w)"
    by (simp_all add: hasPrefixedRegular_def sample_live_def ret_act_def pure_act_def del: to_lower.simps)
qed

lemma sample_detected:
  "\<exists>d. detect (Some sample_live) () = (Inr d, ()) \<and> de_PatchPaths d = [''boot/grub/grub.cfg''] \<and> de_AlreadyEnabledPaths d = []"
proof -
  let ?cs = "[(''boot/grub/grub.cfg'', sample_config)]"
  have c: "matchingFamilyConfigs ?cs FamilyUbuntuCasper = ?cs" by (simp add: matchingFamilyConfigs_def sample_inspected)
  have m: "hasRegular sample_live ''casper/install-sources.yaml'' w = (True, w)" for w
    by (simp add: hasRegular_def with_file_def sample_live_def bind_act_def ret_act_def)
  have v: "find_release [] = None" by code_simp
  have "detect (Some sample_live) () = (Inr (detectUbuntu [] ?cs True), ())"
    by (simp add: detect_def sample_configs sample_prefixed c m Let_def)
  moreover have "de_PatchPaths (detectUbuntu [] ?cs True) = [''boot/grub/grub.cfg''] \<and> de_AlreadyEnabledPaths (detectUbuntu [] ?cs True) = []"
    unfolding detectUbuntu_def Let_def list.map v option.case if_True
    by (simp add: classifyConfigs_def to_patch_def already_enabled_def sample_inspected FamilyUbuntuCasper_def [symmetric])
  ultimately show ?thesis by blast
qed

lemma sample_plain: "plain_config sample_config"
proof -
  have p: "split_after (CHR 0x0A) sample_config = [sample_config, []]" by code_simp
  have e: "splitLineEnding sample_config = (''linux /casper/vmlinuz ---'', [CHR 0x0A])" "splitLineEnding [] = ([], [])"
    by code_simp+
  have "valid_string sample_config" by (rule valid_string_ascii) (simp add: sample_config_def)
  moreover have "CHR 0x00 \<notin> set sample_config" by (simp add: sample_config_def)
  ultimately show ?thesis using sample_line(1,2) by (simp add: plain_config_def plain_text_def part_body_def p e)
qed

theorem detection_matches_edit_witness:
  "\<exists>d. detect (Some sample_live) () = (Inr d, ()) \<and> de_PatchPaths d = [''boot/grub/grub.cfg''] \<and> gains_parameter d sample_config"
proof -
  obtain d where d: "detect (Some sample_live) () = (Inr d, ())" "de_PatchPaths d = [''boot/grub/grub.cfg'']"
    using sample_detected by blast
  from detection_matches_edit [OF d(1)] d show ?thesis
    by (auto simp: sample_configs sample_plain)
qed

end
