(* ===== verification/BootTree.thy ===== *)
theory BootTree
  imports BootDetect
begin

text \<open>
  \<open>internal/persistence/patch.go\<close>: the replacement of the boot configurations of a medium. The file-system
  calls are the environment; each configuration is replaced by writing a temporary file, checking
  the original once more and renaming.
\<close>

unbundle bit_operations_syntax

section \<open>The environment\<close>

record file_stat =
  st_Dev :: u64
  st_Ino :: u64
  st_Mode :: u32
  st_Size :: int

text \<open>
  \<open>pe_OpenRoot\<close> opens a directory by \<open>O_PATH\<close>, \<open>pe_OpenDir\<close> a directory, \<open>pe_OpenFile\<close> a file for reading and
  \<open>pe_OpenPath\<close> one by \<open>O_PATH\<close>, none of them following a link; \<open>pe_Openat2\<close> opens a directory below another one without
  links or mounts; \<open>pe_Create\<close> creates a file exclusively. \<open>pe_Read\<close> reads up to a limit.
\<close>

record 'w patch_env =
  pe_Lstat :: "string \<Rightarrow> ('w, u32) act"
  pe_OpenRoot :: "string \<Rightarrow> ('w, nat) act"
  pe_OpenDir :: "nat \<Rightarrow> string \<Rightarrow> ('w, nat) act"
  pe_Openat2 :: "nat \<Rightarrow> string \<Rightarrow> ('w, nat) act"
  pe_OpenFile :: "nat \<Rightarrow> string \<Rightarrow> ('w, nat) act"
  pe_OpenPath :: "nat \<Rightarrow> string \<Rightarrow> ('w, nat) act"
  pe_Create :: "nat \<Rightarrow> string \<Rightarrow> ('w, nat) act"
  pe_Fstat :: "nat \<Rightarrow> ('w, file_stat) act"
  pe_Read :: "nat \<Rightarrow> nat \<Rightarrow> ('w, string) act"
  pe_Write :: "nat \<Rightarrow> string \<Rightarrow> ('w, nat) act"
  pe_Fchmod :: "nat \<Rightarrow> u32 \<Rightarrow> ('w, unit) act"
  pe_Fsync :: "nat \<Rightarrow> ('w, unit) act"
  pe_Renameat :: "nat \<Rightarrow> string \<Rightarrow> string \<Rightarrow> ('w, unit) act"
  pe_Unlinkat :: "nat \<Rightarrow> string \<Rightarrow> 'w poll"
  pe_Random :: "('w, bytes) act"
  pe_Close :: "nat \<Rightarrow> 'w poll"

definition ENOSYS :: go_error where "ENOSYS = External 38"
definition EINVAL :: go_error where "EINVAL = External 22"

definition mode_type :: "u32 \<Rightarrow> u32" where "mode_type mode = mode AND 0xF000"

definition closing :: "'w patch_env \<Rightarrow> nat \<Rightarrow> ('w, 'a) act \<Rightarrow> ('w, 'a) act" where
  "closing env fd m w = (case m w of (r, w1) \<Rightarrow> (r, snd (pe_Close env fd w1)))"

section \<open>Paths\<close>

text \<open>\<open>filepath.IsLocal\<close>, \<open>filepath.Dir\<close> and \<open>filepath.Join\<close> with a non-empty first element.\<close>

definition is_local :: "string \<Rightarrow> bool" where
  "is_local p \<longleftrightarrow> \<not> is_abs p \<and> p \<noteq> []
     \<and> (let q = (if list_ex (\<lambda>c. c = ''.'' \<or> c = ''..'') (split_on (CHR ''/'') p) then clean_path p else p) in
        q \<noteq> ''..'' \<and> \<not> has_prefix q ''../'')"

definition dir_name :: "string \<Rightarrow> string" where "dir_name p = clean_path (trim_right_by (\<lambda>c. c \<noteq> CHR ''/'') p)"

definition join_name :: "string \<Rightarrow> string \<Rightarrow> string" where "join_name a b = clean_path (a @ ''/'' @ b)"

definition unsafe_component :: "string \<Rightarrow> bool" where "unsafe_component c \<longleftrightarrow> c = [] \<or> c = ''.'' \<or> c = ''..''"

text \<open>The loop of \<open>validatePatchPath\<close> over the components.\<close>

fun validate_components :: "'w patch_env \<Rightarrow> string \<Rightarrow> string \<Rightarrow> string list \<Rightarrow> ('w, unit) act" where
  "validate_components env relative current [] w = (Inr (), w)"
| "validate_components env relative current (component # rest) w =
     (if unsafe_component component then (Inl (Errorf ''unsafe path component in %s'' [FS relative]), w)
      else
      let current = join_name current component in
      case pe_Lstat env current w of
        (Inl e, w1) \<Rightarrow> (Inl (Errorf ''inspect boot configuration path %s: %w'' [FS relative, FE e]), w1)
      | (Inr mode, w1) \<Rightarrow>
          if mode_type mode = 0xA000
          then (Inl (Errorf ''boot configuration path %s contains a symbolic link'' [FS relative]), w1)
          else if rest = [] \<and> mode_type mode \<in> {0x6000, 0x2000, 0x4000, 0x1000, 0xC000}
          then (Inl (Errorf ''boot configuration %s is not a regular file'' [FS relative]), w1)
          else if rest \<noteq> [] \<and> mode_type mode \<noteq> 0x4000
          then (Inl (Errorf ''boot configuration parent in %s is not a directory'' [FS relative]), w1)
          else validate_components env relative current rest w1)"

definition validatePatchPath :: "'w patch_env \<Rightarrow> string \<Rightarrow> string \<Rightarrow> ('w, unit) act" where
  "validatePatchPath env rootPath relative =
     validate_components env relative (clean_path rootPath) (split_on (CHR ''/'') (clean_path relative))"

definition openPatchRoot :: "'w patch_env \<Rightarrow> string \<Rightarrow> ('w, nat) act" where
  "openPatchRoot env path =
     bind_act (pe_OpenRoot env path) (\<lambda>fd w.
     case pe_Fstat env fd w of
       (Inl e, w1) \<Rightarrow> (Inl e, snd (pe_Close env fd w1))
     | (Inr stat, w1) \<Rightarrow>
         if mode_type (st_Mode stat) \<noteq> 0x4000
         then (Inl (Msg ''boot tree root is not a real directory''), snd (pe_Close env fd w1))
         else (Inr fd, w1))"

text \<open>The walk from directory to directory on kernels without \<open>openat2\<close>; \<open>owned\<close> is the descriptor to close.\<close>

definition close_owned :: "'w patch_env \<Rightarrow> nat option \<Rightarrow> 'w \<Rightarrow> 'w" where
  "close_owned env owned w = (case owned of None \<Rightarrow> w | Some fd \<Rightarrow> snd (pe_Close env fd w))"

fun walk_parent :: "'w patch_env \<Rightarrow> string \<Rightarrow> nat \<Rightarrow> nat option \<Rightarrow> string list \<Rightarrow> ('w, nat) act" where
  "walk_parent env relative current owned [] w = (Inr current, w)"
| "walk_parent env relative current owned (component # rest) w =
     (if unsafe_component component
      then (Inl (Errorf ''unsafe path component in %s'' [FS relative]), close_owned env owned w)
      else
      case pe_OpenDir env current component w of
        (Inl e, w1) \<Rightarrow> (Inl (Errorf ''open parent of %s safely: %w'' [FS relative, FE e]), close_owned env owned w1)
      | (Inr fd, w1) \<Rightarrow> walk_parent env relative fd (Some fd) rest (close_owned env owned w1))"

definition openPatchParent :: "'w patch_env \<Rightarrow> nat \<Rightarrow> string \<Rightarrow> ('w, nat \<times> string) act" where
  "openPatchParent env root relative w =
     (let clean = clean_path relative; base = base_name clean; parentPath = dir_name clean in
      if parentPath = ''.''
      then bind_act (pe_OpenDir env root ''.'') (\<lambda>fd. ret_act (fd, base)) w
      else if CHR 0x00 \<in> set parentPath then (Inl EINVAL, w)
      else
      case pe_Openat2 env root parentPath w of
        (Inr fd, w1) \<Rightarrow> (Inr (fd, base), w1)
      | (Inl e, w1) \<Rightarrow>
          if e \<noteq> ENOSYS \<and> e \<noteq> EINVAL
          then (Inl (Errorf ''open parent of %s safely: %w'' [FS relative, FE e]), w1)
          else bind_act (walk_parent env relative root None (split_on (CHR ''/'') parentPath)) (\<lambda>fd. ret_act (fd, base)) w1)"

section \<open>Replacing one file\<close>

definition patchTempName :: "'w patch_env \<Rightarrow> string \<Rightarrow> ('w, string) act" where
  "patchTempName env base =
     bind_act (wrap_act (\<lambda>e. Errorf ''generate temporary boot configuration name: %w'' [FE e]) (pe_Random env)) (\<lambda>random.
     ret_act (''.'' @ base @ ''.rufusarm64-'' @ hex_encode random))"

function writeFDAll :: "'w patch_env \<Rightarrow> nat \<Rightarrow> string \<Rightarrow> ('w, unit) act" where
  "writeFDAll env fd d w =
     (if d = [] then (Inr (), w)
      else
      case pe_Write env fd d w of
        (Inl e, w1) \<Rightarrow> (Inl e, w1)
      | (Inr written, w1) \<Rightarrow> if written = 0 then (Inl ErrShortWrite, w1) else writeFDAll env fd (drop written d) w1)"
  by pat_completeness auto
termination by (relation "measure (\<lambda>(env, fd, d, w). length d)") auto

declare writeFDAll.simps [simp del]

text \<open>
  The deferred clean-up: the temporary file is closed, and unlinked unless it was renamed. The body
  answers its result and whether the rename happened.
\<close>

definition with_temp :: "'w patch_env \<Rightarrow> nat \<Rightarrow> nat \<Rightarrow> string \<Rightarrow> ('w \<Rightarrow> (unit res \<times> bool) \<times> 'w) \<Rightarrow> ('w, unit) act" where
  "with_temp env parent fd name body w =
     (case body w of ((r, renamed), w1) \<Rightarrow>
        let w2 = snd (pe_Close env fd w1) in (r, if renamed then w2 else snd (pe_Unlinkat env parent name w2)))"

definition prepare_replacement :: "'w patch_env \<Rightarrow> nat \<Rightarrow> string \<Rightarrow> string \<Rightarrow> file_stat \<Rightarrow> string \<Rightarrow> nat \<Rightarrow> ('w, unit) act" where
  "prepare_replacement env parent base relative original patched tempFD =
     bind_act (wrap_act (\<lambda>e. Errorf ''write temporary boot configuration: %w'' [FE e]) (writeFDAll env tempFD patched)) (\<lambda>_.
     bind_act (wrap_act (\<lambda>e. Errorf ''preserve boot configuration mode: %w'' [FE e])
       (pe_Fchmod env tempFD (st_Mode original AND 0x1FF))) (\<lambda>_.
     bind_act (wrap_act (\<lambda>e. Errorf ''sync temporary boot configuration: %w'' [FE e]) (pe_Fsync env tempFD)) (\<lambda>_.
     bind_act (wrap_act (\<lambda>e. Errorf ''reopen boot configuration %s: %w'' [FS relative, FE e]) (pe_OpenPath env parent base)) (\<lambda>checkFD.
     bind_act (closing env checkFD (pe_Fstat env checkFD)) (\<lambda>current.
     pure_act
       (if st_Dev current \<noteq> st_Dev original \<or> st_Ino current \<noteq> st_Ino original \<or> mode_type (st_Mode current) \<noteq> 0x8000
        then Inl (Errorf ''boot configuration %s changed during patching'' [FS relative]) else Inr ()))))))"

definition replace_body ::
  "'w patch_env \<Rightarrow> nat \<Rightarrow> string \<Rightarrow> string \<Rightarrow> file_stat \<Rightarrow> string \<Rightarrow> string \<Rightarrow> nat \<Rightarrow> 'w \<Rightarrow> (unit res \<times> bool) \<times> 'w" where
  "replace_body env parent base relative original patched tempName tempFD w =
     (case prepare_replacement env parent base relative original patched tempFD w of
        (Inl e, w1) \<Rightarrow> ((Inl e, False), w1)
      | (Inr _, w1) \<Rightarrow>
          (case pe_Renameat env parent tempName base w1 of
             (Inl e, w2) \<Rightarrow> ((Inl (Errorf ''replace boot configuration %s: %w'' [FS relative, FE e]), False), w2)
           | (Inr _, w2) \<Rightarrow>
               (case wrap_act (\<lambda>e. Errorf ''sync boot configuration directory: %w'' [FE e]) (pe_Fsync env parent) w2 of
                  (r, w3) \<Rightarrow> ((r, True), w3))))"

definition replace_file :: "'w patch_env \<Rightarrow> nat \<Rightarrow> string \<Rightarrow> string \<Rightarrow> file_stat \<Rightarrow> string \<Rightarrow> ('w, unit) act" where
  "replace_file env parent base relative original patched =
     bind_act (patchTempName env base) (\<lambda>tempName.
     bind_act (wrap_act (\<lambda>e. Errorf ''create temporary boot configuration: %w'' [FE e]) (pe_Create env parent tempName)) (\<lambda>tempFD.
     with_temp env parent tempFD tempName (replace_body env parent base relative original patched tempName tempFD)))"

definition patchOneBootFile :: "'w patch_env \<Rightarrow> nat \<Rightarrow> string \<Rightarrow> string \<Rightarrow> Detection \<Rightarrow> ('w, unit) act" where
  "patchOneBootFile env parent base relative detection =
     bind_act (wrap_act (\<lambda>e. Errorf ''open boot configuration %s: %w'' [FS relative, FE e]) (pe_OpenFile env parent base)) (\<lambda>fd.
     closing env fd
       (bind_act (pe_Fstat env fd) (\<lambda>original.
        if mode_type (st_Mode original) \<noteq> 0x8000 \<or> st_Size original < 0 \<or> int maxConfigBytes < st_Size original
        then pure_act (Inl (Errorf ''boot configuration %s is not a bounded regular file'' [FS relative]))
        else
        bind_act (wrap_act (\<lambda>e. Errorf ''read boot configuration %s: %w'' [FS relative, FE e]) (pe_Read env fd (maxConfigBytes + 1))) (\<lambda>content.
        if maxConfigBytes < length content
        then pure_act (Inl (Errorf ''boot configuration %s exceeds the patch limit'' [FS relative]))
        else
        bind_act (wrap_act (\<lambda>e. Errorf ''patch boot configuration %s: %w'' [FS relative, FE e])
          (pure_act (PatchBootConfig content detection))) (\<lambda>(patched, changes).
        if changes = 0
        then pure_act (Inl (Errorf ''boot configuration %s no longer contains an unpatched matching kernel line'' [FS relative]))
        else replace_file env parent base relative original patched)))))"

fun patch_paths :: "'w patch_env \<Rightarrow> nat \<Rightarrow> string \<Rightarrow> Detection \<Rightarrow> string list \<Rightarrow> string list \<Rightarrow> ('w, string list) act" where
  "patch_paths env root rootPath detection [] patched w = (Inr patched, w)"
| "patch_paths env root rootPath detection (relative # rest) patched w =
     (if \<not> is_local relative \<or> relative = ''.''
      then (Inl (Errorf ''unsafe boot configuration path %q'' [FS relative]), w)
      else
      case bind_act (validatePatchPath env rootPath relative) (\<lambda>_.
           bind_act (openPatchParent env root relative) (\<lambda>(parent, base).
           closing env parent (patchOneBootFile env parent base relative detection))) w of
        (Inl e, w1) \<Rightarrow> (Inl e, w1)
      | (Inr _, w1) \<Rightarrow> patch_paths env root rootPath detection rest (patched @ [relative]) w1)"

definition PatchBootTree :: "'w patch_env \<Rightarrow> string \<Rightarrow> Detection \<Rightarrow> ('w, string list) act" where
  "PatchBootTree env rootPath detection =
     (if \<not> Ready detection then pure_act (Inl (Msg ''media does not have a complete supported persistence contract''))
      else
      bind_act (wrap_act (\<lambda>e. Errorf ''open boot tree: %w'' [FE e]) (openPatchRoot env rootPath)) (\<lambda>root.
      closing env root (patch_paths env root rootPath detection (de_PatchPaths detection) [])))"

section \<open>A directory\<close>

text \<open>The directory before and after: untouched but for a left-over temporary name, or replaced completely.\<close>

definition untouched ::
  "('w \<Rightarrow> string \<Rightarrow> nat option) \<Rightarrow> ('w \<Rightarrow> nat \<Rightarrow> string) \<Rightarrow> string \<Rightarrow> 'w \<Rightarrow> 'w \<Rightarrow> bool" where
  "untouched names file_text base w w1 \<longleftrightarrow>
     (names w1 = names w \<or> (\<exists>temp i. temp \<noteq> base \<and> names w temp = None \<and> i \<notin> ran (names w) \<and> names w1 = (names w)(temp \<mapsto> i)))
     \<and> (\<forall>i \<in> ran (names w). file_text w1 i = file_text w i)"

definition replaced ::
  "('w \<Rightarrow> string \<Rightarrow> nat option) \<Rightarrow> ('w \<Rightarrow> nat \<Rightarrow> string) \<Rightarrow> string \<Rightarrow> string \<Rightarrow> 'w \<Rightarrow> 'w \<Rightarrow> bool" where
  "replaced names file_text base patched w w1 \<longleftrightarrow>
     (\<exists>i. i \<notin> ran (names w) \<and> names w1 = (names w)(base \<mapsto> i) \<and> file_text w1 i = patched)
     \<and> (\<forall>i \<in> ran (names w). file_text w1 i = file_text w i)"

text \<open>
  What the replacement relies on, for one directory: its names, the text of each file, and the file
  behind a descriptor that was created there. Only creating, writing, renaming and unlinking change them, each the way
  the system calls document it; a failed call may have written part of its data.
\<close>

locale boot_directory =
  fixes env :: "'w patch_env" and parent :: nat
    and names :: "'w \<Rightarrow> string \<Rightarrow> nat option" and file_text :: "'w \<Rightarrow> nat \<Rightarrow> string" and created :: "'w \<Rightarrow> nat \<Rightarrow> nat"
  assumes quiet:
      "act_keeps (\<lambda>w. (names w, file_text w, created w)) (pe_OpenFile env fd n)"
      "act_keeps (\<lambda>w. (names w, file_text w, created w)) (pe_OpenPath env fd n)"
      "act_keeps (\<lambda>w. (names w, file_text w, created w)) (pe_Fstat env fd)"
      "act_keeps (\<lambda>w. (names w, file_text w, created w)) (pe_Read env fd k)"
      "act_keeps (\<lambda>w. (names w, file_text w, created w)) (pe_Fchmod env fd mode)"
      "act_keeps (\<lambda>w. (names w, file_text w, created w)) (pe_Fsync env fd)"
      "act_keeps (\<lambda>w. (names w, file_text w, created w)) (pe_Random env)"
      "act_keeps (\<lambda>w. (names w, file_text w, created w)) (pe_Close env fd)"
    and create_failed: "pe_Create env parent n w = (Inl e, w1) \<Longrightarrow> (names w1, file_text w1, created w1) = (names w, file_text w, created w)"
    and create_new: "pe_Create env parent n w = (Inr fd, w1) \<Longrightarrow>
      names w n = None \<and> created w1 fd \<notin> ran (names w) \<and> names w1 = (names w)(n \<mapsto> created w1 fd)
      \<and> file_text w1 = (file_text w)(created w1 fd := [])"
    and write_one: "pe_Write env fd d w = (r, w1) \<Longrightarrow>
      names w1 = names w \<and> created w1 = created w \<and> (\<forall>i. i \<noteq> created w fd \<longrightarrow> file_text w1 i = file_text w i)"
    and write_appends: "pe_Write env fd d w = (Inr k, w1) \<Longrightarrow>
      k \<le> length d \<and> file_text w1 (created w fd) = file_text w (created w fd) @ take k d"
    and rename_failed: "pe_Renameat env parent old new w = (Inl e, w1) \<Longrightarrow>
      (names w1, file_text w1, created w1) = (names w, file_text w, created w)"
    and rename_moves: "pe_Renameat env parent old new w = (Inr u, w1) \<Longrightarrow>
      names w1 = (names w)(old := None, new := names w old) \<and> file_text w1 = file_text w \<and> created w1 = created w"
    and unlink_removes: "pe_Unlinkat env parent n w = (err, w1) \<Longrightarrow>
      names w1 = (if err = None then (names w)(n := None) else names w) \<and> file_text w1 = file_text w \<and> created w1 = created w"
begin

definition view :: "'w \<Rightarrow> (string \<Rightarrow> nat option) \<times> (nat \<Rightarrow> string) \<times> (nat \<Rightarrow> nat)" where
  "view w = (names w, file_text w, created w)"

lemma quiet_view: "act_keeps view (pe_OpenFile env fd n)" "act_keeps view (pe_OpenPath env fd n)" "act_keeps view (pe_Fstat env fd)"
    "act_keeps view (pe_Read env fd k)" "act_keeps view (pe_Fchmod env fd mode)" "act_keeps view (pe_Fsync env fd)"
    "act_keeps view (pe_Random env)" "act_keeps view (pe_Close env fd)"
  using quiet unfolding view_def by blast+

lemma view_eq: "view w1 = view w \<longleftrightarrow> names w1 = names w \<and> file_text w1 = file_text w \<and> created w1 = created w"
  by (simp add: view_def)

lemma closing_keeps [intro]: "act_keeps view m \<Longrightarrow> act_keeps view (closing env fd m)"
  using quiet_view(8) [of fd] unfolding act_keeps_def closing_def by (auto split: prod.splits) (metis snd_conv)

lemma writes:
  "writeFDAll env fd d w = (r, w1) \<Longrightarrow>
     names w1 = names w \<and> created w1 = created w \<and> (\<forall>i. i \<noteq> created w fd \<longrightarrow> file_text w1 i = file_text w i)
     \<and> (\<forall>u. r = Inr u \<longrightarrow> file_text w1 (created w fd) = file_text w (created w fd) @ d)"
proof (induction "length d" arbitrary: d w r w1 rule: less_induct)
  case less
  show ?case
  proof (cases "d = []")
    case True
    with less.prems show ?thesis by (simp add: writeFDAll.simps)
  next
    case False
    obtain q w2 where q: "pe_Write env fd d w = (q, w2)" by fastforce
    note one = write_one [OF q]
    show ?thesis
    proof (cases q)
      case (Inl e)
      with less.prems False q one show ?thesis by (auto simp: writeFDAll.simps [of env fd d w])
    next
      case (Inr k)
      note ap = write_appends [OF q [unfolded Inr]]
      show ?thesis
      proof (cases "k = 0")
        case True
        with less.prems False q Inr one show ?thesis by (auto simp: writeFDAll.simps [of env fd d w])
      next
        case k: False
        with less.prems False q Inr have r: "writeFDAll env fd (drop k d) w2 = (r, w1)"
          by (simp add: writeFDAll.simps [of env fd d w])
        have "length (drop k d) < length d" using k False by simp
        from less.hyps [OF this r] one ap show ?thesis by simp
      qed
    qed
  qed
qed

lemma bind_cases:
  assumes "bind_act m f w = (q, w1)"
  obtains (fails) e where "m w = (Inl e, w1)" "q = Inl e" | (goes) x w2 where "m w = (Inr x, w2)" "f x w2 = (q, w1)"
  using assms by (auto simp: bind_act_def split: prod.splits sum.splits)

lemma wrap_cases:
  assumes "wrap_act g m w = (q, w1)"
  obtains q2 where "m w = (q2, w1)" "(\<exists>u. q = Inr u) \<longleftrightarrow> (\<exists>u. q2 = Inr u)" "\<And>u. q = Inr u \<Longrightarrow> q2 = Inr u"
  using assms by (auto simp: wrap_act_def mapE_def split: prod.splits sum.splits)

lemma prepare_outcome:
  assumes "prepare_replacement env p base relative original patched fd w = (q, w1)"
  shows "names w1 = names w \<and> created w1 = created w \<and> (\<forall>i. i \<noteq> created w fd \<longrightarrow> file_text w1 i = file_text w i)
     \<and> (\<forall>u. q = Inr u \<longrightarrow> file_text w1 (created w fd) = file_text w (created w fd) @ patched)"
  using assms unfolding prepare_replacement_def
proof (cases rule: bind_cases)
  case (fails e)
  from fails(1) show ?thesis by (cases rule: wrap_cases) (use writes fails(2) in blast)
next
  case (goes u w2)
  have "act_keeps view (\<lambda>w. bind_act (wrap_act (\<lambda>e. Errorf ''preserve boot configuration mode: %w'' [FE e])
       (pe_Fchmod env fd (st_Mode original AND 0x1FF))) (\<lambda>_.
     bind_act (wrap_act (\<lambda>e. Errorf ''sync temporary boot configuration: %w'' [FE e]) (pe_Fsync env fd)) (\<lambda>_.
     bind_act (wrap_act (\<lambda>e. Errorf ''reopen boot configuration %s: %w'' [FS relative, FE e]) (pe_OpenPath env p base)) (\<lambda>checkFD.
     bind_act (closing env checkFD (pe_Fstat env checkFD)) (\<lambda>current.
     pure_act
       (if st_Dev current \<noteq> st_Dev original \<or> st_Ino current \<noteq> st_Ino original \<or> mode_type (st_Mode current) \<noteq> 0x8000
        then Inl (Errorf ''boot configuration %s changed during patching'' [FS relative]) else Inr ()))))) w)"
    by (intro act_keeps_bind act_keeps_wrap quiet_view closing_keeps act_keeps_pure)
  from act_keepsD [OF this goes(2)] have v: "names w1 = names w2" "file_text w1 = file_text w2" "created w1 = created w2"
    by (simp_all add: view_eq)
  from goes(1) obtain u2 where "writeFDAll env fd patched w = (Inr u2, w2)" by (cases rule: wrap_cases) auto
  from writes [OF this] show ?thesis by (auto simp: v)
qed

lemma view_untouched: "view w1 = view w \<Longrightarrow> untouched names file_text base w w1"
  by (simp add: untouched_def view_eq)

lemma replace_outcome:
  assumes "replace_file env parent base relative original patched w = (q, w1)"
  shows "(\<exists>e. q = Inl e) \<and> untouched names file_text base w w1 \<or> replaced names file_text base patched w w1"
  using assms unfolding replace_file_def
proof (cases rule: bind_cases)
  case (fails e)
  have "act_keeps view (patchTempName env base)" unfolding patchTempName_def
    by (intro act_keeps_bind act_keeps_wrap quiet_view act_keeps_pure)
  from act_keepsD [OF this fails(1)] fails(2) view_untouched show ?thesis by blast
next
  case (goes temp w2)
  have "act_keeps view (patchTempName env base)" unfolding patchTempName_def
    by (intro act_keeps_bind act_keeps_wrap quiet_view act_keeps_pure)
  from act_keepsD [OF this goes(1)] have v2: "names w2 = names w" "file_text w2 = file_text w" by (simp_all add: view_eq)
  have "length base < length temp" using goes(1) by (auto simp: patchTempName_def result_simps)
  then have temp: "temp \<noteq> base" by auto
  from goes(2) show ?thesis
  proof (cases rule: bind_cases)
    case (fails e)
    from fails(1) obtain e2 where "pe_Create env parent temp w2 = (Inl e2, w1)"
      by (auto simp: wrap_act_def mapE_def split: prod.splits sum.splits)
    from create_failed [OF this] fails(2) v2 show ?thesis by (simp add: untouched_def)
  next
    case (goes fd w3)
    then have c: "pe_Create env parent temp w2 = (Inr fd, w3)" by (simp add: wrap_act_Inr)
    define i where "i = created w3 fd"
    from create_new [OF c] v2 have new: "names w temp = None" "i \<notin> ran (names w)" "names w3 = (names w)(temp \<mapsto> i)"
      "file_text w3 = (file_text w)(i := [])" by (simp_all add: i_def)
    obtain r renamed w4 where b: "replace_body env parent base relative original patched temp fd w3 = ((r, renamed), w4)"
      by (metis prod.exhaust)
    have w1: "q = r" "\<exists>w5. view w5 = view w4 \<and> (if renamed then w1 = w5 else (\<exists>err. pe_Unlinkat env parent temp w5 = (err, w1)))"
    proof -
      have "view (snd (pe_Close env fd w4)) = view w4" using quiet_view(8) unfolding act_keeps_def by blast
      then show "q = r" "\<exists>w5. view w5 = view w4 \<and> (if renamed then w1 = w5 else (\<exists>err. pe_Unlinkat env parent temp w5 = (err, w1)))"
        using goes(2) by (auto simp: with_temp_def b Let_def split: if_splits) (metis prod.collapse)
    qed
    obtain p w5 where p: "prepare_replacement env parent base relative original patched fd w3 = (p, w5)" by fastforce
    note prep = prepare_outcome [OF p, folded i_def]
    consider (kept) e where "\<not> renamed" "r = Inl e" "names w4 = names w5" "file_text w4 = file_text w5"
      | (moved) u where "renamed" "p = Inr u" "names w4 = (names w5)(temp := None, base := names w5 temp)" "file_text w4 = file_text w5"
    proof (cases p)
      case (Inl e)
      with b p kept show ?thesis by (auto simp: replace_body_def)
    next
      case (Inr u)
      obtain m w6 where m: "pe_Renameat env parent temp base w5 = (m, w6)" by fastforce
      show ?thesis
      proof (cases m)
        case (Inl e)
        from rename_failed [OF m [unfolded Inl]] b p Inr m Inl kept show ?thesis by (auto simp: replace_body_def)
      next
        case Inr2: (Inr u2)
        have k: "act_keeps view (wrap_act (\<lambda>e. Errorf ''sync boot configuration directory: %w'' [FE e]) (pe_Fsync env parent))"
          by (intro act_keeps_wrap quiet_view)
        obtain f w7 where f: "wrap_act (\<lambda>e. Errorf ''sync boot configuration directory: %w'' [FE e]) (pe_Fsync env parent) w6 = (f, w7)"
          by fastforce
        from act_keepsD [OF k f] have "names w7 = names w6" "file_text w7 = file_text w6" by (simp_all add: view_eq)
        moreover have "renamed" "w7 = w4" using b p Inr m Inr2 f by (auto simp: replace_body_def)
        ultimately show ?thesis using rename_moves [OF m [unfolded Inr2]] moved Inr by simp
      qed
    qed
    then show ?thesis
    proof cases
      case (kept e)
      obtain w6 err where w6: "view w6 = view w4" "pe_Unlinkat env parent temp w6 = (err, w1)" using w1(2) kept(1) by auto
      have n: "names w6 = (names w)(temp \<mapsto> i)" using w6(1) kept(3) prep new(3) by (simp add: view_eq)
      have "names w1 = names w \<or> names w1 = (names w)(temp \<mapsto> i)"
        using unlink_removes [OF w6(2)] n new(1) by (auto simp: fun_upd_idem)
      moreover have "file_text w1 j = file_text w j" if "j \<in> ran (names w)" for j
      proof -
        have "j \<noteq> i" using that new(2) by auto
        then show ?thesis using unlink_removes [OF w6(2)] w6(1) kept(4) prep new(4) by (simp add: view_eq)
      qed
      ultimately show ?thesis using w1(1) kept(2) temp new(1,2) unfolding untouched_def by blast
    next
      case (moved u)
      have v: "names w1 = names w4" "file_text w1 = file_text w4" using w1(2) moved(1) by (auto simp: view_eq)
      have "names w1 = (names w)(base \<mapsto> i)"
        using v(1) moved(3) prep new(1,3) by (auto simp: fun_eq_iff)
      moreover have "file_text w1 i = patched" using v(2) moved(2,4) prep new(4) by simp
      moreover have "file_text w1 j = file_text w j" if "j \<in> ran (names w)" for j
      proof -
        have "j \<noteq> i" using that new(2) by auto
        then show ?thesis using v(2) moved(4) prep new(4) by simp
      qed
      ultimately show ?thesis using new(2) unfolding replaced_def by blast
    qed
  qed
qed

lemma patch_outcome:
  assumes "patchOneBootFile env parent base relative d w = (r, w1)"
  shows "(\<exists>e. r = Inl e) \<and> untouched names file_text base w w1
    \<or> (\<exists>content patched n fd w2 w3. pe_Read env fd (maxConfigBytes + 1) w2 = (Inr content, w3)
         \<and> PatchBootConfig content d = Inr (patched, n) \<and> 0 < n \<and> replaced names file_text base patched w w1)"
  using assms unfolding patchOneBootFile_def
proof (cases rule: bind_cases)
  case (fails e)
  have "act_keeps view (wrap_act (\<lambda>e. Errorf ''open boot configuration %s: %w'' [FS relative, FE e]) (pe_OpenFile env parent base))"
    by (intro act_keeps_wrap quiet_view)
  from act_keepsD [OF this fails(1)] fails(2) view_untouched show ?thesis by blast
next
  case (goes fd w2)
  have "act_keeps view (wrap_act (\<lambda>e. Errorf ''open boot configuration %s: %w'' [FS relative, FE e]) (pe_OpenFile env parent base))"
    by (intro act_keeps_wrap quiet_view)
  from act_keepsD [OF this goes(1)] have v2: "view w2 = view w" .
  let ?m = "bind_act (pe_Fstat env fd) (\<lambda>original.
        if mode_type (st_Mode original) \<noteq> 0x8000 \<or> st_Size original < 0 \<or> int maxConfigBytes < st_Size original
        then pure_act (Inl (Errorf ''boot configuration %s is not a bounded regular file'' [FS relative]))
        else
        bind_act (wrap_act (\<lambda>e. Errorf ''read boot configuration %s: %w'' [FS relative, FE e]) (pe_Read env fd (maxConfigBytes + 1))) (\<lambda>content.
        if maxConfigBytes < length content
        then pure_act (Inl (Errorf ''boot configuration %s exceeds the patch limit'' [FS relative]))
        else
        bind_act (wrap_act (\<lambda>e. Errorf ''patch boot configuration %s: %w'' [FS relative, FE e])
          (pure_act (PatchBootConfig content d))) (\<lambda>(patched, changes).
        if changes = 0
        then pure_act (Inl (Errorf ''boot configuration %s no longer contains an unpatched matching kernel line'' [FS relative]))
        else replace_file env parent base relative original patched)))"
  obtain w3 where m: "?m w2 = (r, w3)" and c: "w1 = snd (pe_Close env fd w3)"
    using goes(2) by (auto simp: closing_def split: prod.splits)
  have v1: "view w1 = view w3" using quiet_view(8) [of fd] unfolding act_keeps_def c by blast
  have "(\<exists>e. r = Inl e) \<and> view w3 = view w2
    \<or> (\<exists>original content patched n w5 w6. pe_Read env fd (maxConfigBytes + 1) w5 = (Inr content, w6) \<and> view w6 = view w2
         \<and> PatchBootConfig content d = Inr (patched, n) \<and> 0 < n \<and> replace_file env parent base relative original patched w6 = (r, w3))"
    using m
  proof (cases rule: bind_cases)
    case (fails e)
    from act_keepsD [OF quiet_view(3) fails(1)] fails(2) show ?thesis by blast
  next
    case (goes original w5)
    from act_keepsD [OF quiet_view(3) goes(1)] have v5: "view w5 = view w2" .
    have k: "act_keeps view (wrap_act (\<lambda>e. Errorf ''read boot configuration %s: %w'' [FS relative, FE e]) (pe_Read env fd (maxConfigBytes + 1)))"
      by (intro act_keeps_wrap quiet_view)
    show ?thesis
    proof (cases "mode_type (st_Mode original) \<noteq> 0x8000 \<or> st_Size original < 0 \<or> int maxConfigBytes < st_Size original")
      case True
      have "pure_act (Inl (Errorf ''boot configuration %s is not a bounded regular file'' [FS relative])) w5 = (r, w3)"
        using goes(2) unfolding if_P [OF True] .
      with v5 show ?thesis by (auto simp: pure_act_def)
    next
      case False
      note body = goes(2) [unfolded if_not_P [OF False]]
      from body show ?thesis
      proof (cases rule: bind_cases)
        case (fails e)
        from act_keepsD [OF k fails(1)] fails(2) v5 show ?thesis by auto
      next
        case (goes content w6)
        from act_keepsD [OF k goes(1)] v5 have v6: "view w6 = view w2" by simp
        have rd: "pe_Read env fd (maxConfigBytes + 1) w5 = (Inr content, w6)" using goes(1) by (simp add: wrap_act_Inr)
        show ?thesis
        proof (cases "PatchBootConfig content d")
          case (Inl e)
          with goes(2) v6 show ?thesis by (auto simp: bind_act_def wrap_act_def pure_act_def split: if_splits)
        next
          case (Inr p)
          obtain patched n where p: "p = (patched, n)" by (cases p)
          show ?thesis
          proof (cases "maxConfigBytes < length content \<or> n = 0")
            case True
            with p goes(2) v6 Inr show ?thesis by (auto simp: bind_act_def wrap_act_def pure_act_def split: if_splits)
          next
            case False
            with p goes(2) Inr have "replace_file env parent base relative original patched w6 = (r, w3)"
              by (simp add: bind_act_def wrap_act_def pure_act_def)
            with rd v6 Inr [unfolded p] False show ?thesis by blast
          qed
        qed
      qed
    qed
  qed
  then show ?thesis
  proof
    assume "(\<exists>e. r = Inl e) \<and> view w3 = view w2"
    then show ?thesis using v1 v2 view_untouched by metis
  next
    assume "\<exists>original content patched n w5 w6. pe_Read env fd (maxConfigBytes + 1) w5 = (Inr content, w6) \<and> view w6 = view w2
         \<and> PatchBootConfig content d = Inr (patched, n) \<and> 0 < n \<and> replace_file env parent base relative original patched w6 = (r, w3)"
    then obtain original content patched n w5 w6 where x: "pe_Read env fd (maxConfigBytes + 1) w5 = (Inr content, w6)" "view w6 = view w2"
      "PatchBootConfig content d = Inr (patched, n)" "0 < n" "replace_file env parent base relative original patched w6 = (r, w3)" by blast
    have n: "names w6 = names w" "file_text w6 = file_text w" "names w1 = names w3" "file_text w1 = file_text w3"
      using x(2) v1 v2 by (simp_all add: view_eq)
    have "untouched names file_text base w w1 = untouched names file_text base w6 w3"
      "replaced names file_text base patched w w1 = replaced names file_text base patched w6 w3"
      by (simp_all add: untouched_def replaced_def n)
    with replace_outcome [OF x(5)] x(1,3,4) show ?thesis by blast
  qed
qed

end

section \<open>A directory in memory\<close>

text \<open>
  A directory of named files. A descriptor is the number of its file plus ten, a write takes at most sixteen
  characters, and every other number is a directory.
\<close>

record dir_world =
  dw_names :: "(string \<times> nat) list"
  dw_text :: "nat \<Rightarrow> string"
  dw_next :: nat

definition memory_dir :: "dir_world patch_env" where
  "memory_dir = \<lparr>
     pe_Lstat = (\<lambda>p. ret_act (if p = ''/m/grub.cfg'' then 0x81A4 else 0x41ED)), pe_OpenRoot = (\<lambda>p. ret_act 0),
     pe_OpenDir = (\<lambda>fd n. ret_act 1), pe_Openat2 = (\<lambda>fd n. ret_act 1),
     pe_OpenFile = (\<lambda>fd n w. (case map_of (dw_names w) n of None \<Rightarrow> Inl ErrNotExist | Some i \<Rightarrow> Inr (i + 10), w)),
     pe_OpenPath = (\<lambda>fd n w. (case map_of (dw_names w) n of None \<Rightarrow> Inl ErrNotExist | Some i \<Rightarrow> Inr (i + 10), w)),
     pe_Create = (\<lambda>fd n w. if n \<in> set (map fst (dw_names w)) \<or> dw_next w \<in> set (map snd (dw_names w)) then (Inl (External 17), w)
       else (Inr (dw_next w + 10), w\<lparr> dw_names := (n, dw_next w) # dw_names w, dw_text := (dw_text w)(dw_next w := []),
              dw_next := dw_next w + 1 \<rparr>)),
     pe_Fstat = (\<lambda>fd w. (Inr \<lparr> st_Dev = 1, st_Ino = of_nat fd, st_Mode = (if fd < 10 then 0x41ED else 0x81A4),
       st_Size = int (length (dw_text w (fd - 10))) \<rparr>, w)),
     pe_Read = (\<lambda>fd k w. (Inr (take k (dw_text w (fd - 10))), w)),
     pe_Write = (\<lambda>fd d w. (Inr (min 16 (length d)), w\<lparr>dw_text := (dw_text w)(fd - 10 := dw_text w (fd - 10) @ take (min 16 (length d)) d)\<rparr>)),
     pe_Fchmod = (\<lambda>fd mode. ret_act ()), pe_Fsync = (\<lambda>fd. ret_act ()),
     pe_Renameat = (\<lambda>fd old new w. case map_of (dw_names w) old of None \<Rightarrow> (Inl ErrNotExist, w)
       | Some i \<Rightarrow> (Inr (), w\<lparr>dw_names := (new, i) # filter (\<lambda>e. fst e \<noteq> old \<and> fst e \<noteq> new) (dw_names w)\<rparr>)),
     pe_Unlinkat = (\<lambda>fd n w. (None, w\<lparr>dw_names := filter (\<lambda>e. fst e \<noteq> n) (dw_names w)\<rparr>)),
     pe_Random = ret_act (replicate 8 0), pe_Close = (\<lambda>fd w. (None, w)) \<rparr>"

abbreviation dir_names :: "dir_world \<Rightarrow> string \<Rightarrow> nat option" where "dir_names w \<equiv> map_of (dw_names w)"

lemma ran_map_of: "ran (map_of xs) \<subseteq> set (map snd xs)"
  by (auto simp: ran_def dest!: map_of_SomeD intro: rev_image_eqI)

lemma map_of_filter_key: "map_of (filter (\<lambda>e. P (fst e)) xs) k = (if P k then map_of xs k else None)"
  by (induction xs) auto

interpretation directory: boot_directory memory_dir parent dir_names dw_text "\<lambda>w fd. fd - 10" for parent
proof (unfold_locales, goal_cases)
  case (10 n w fd w1)
  then show ?case
    using ran_map_of [of "dw_names w"] by (auto simp: memory_dir_def map_of_eq_None_iff split: if_splits)
next
  case (14 old new w u w1)
  then show ?case
    by (auto simp: memory_dir_def fun_eq_iff map_of_filter_key [where P = "\<lambda>k. k \<noteq> old \<and> k \<noteq> new"] split: option.splits)
next
  case (15 n w err w1)
  then show ?case by (auto simp: memory_dir_def fun_eq_iff map_of_filter_key [where P = "\<lambda>k. k \<noteq> n"])
qed (auto simp: memory_dir_def act_keeps_def ret_act_def split: option.splits if_splits)

section \<open>Properties\<close>

text \<open>
  C17: The replacement of a boot configuration is atomic: on every outcome, whatever call fails, either it
  reports an error and the directory is untouched, but for a temporary name when its removal fails too, with
  all its files as they were; or the name refers to a new file that holds the complete edit of the
  text that was read, with at least one line changed, and every other name and file is as it was.
\<close>

theorem boot_file_replaced_atomically:
  assumes "boot_directory env parent names file_text created" "patchOneBootFile env parent base relative d w = (r, w1)"
  shows "(\<exists>e. r = Inl e) \<and> untouched names file_text base w w1
    \<or> (\<exists>content patched n fd w2 w3. pe_Read env fd (maxConfigBytes + 1) w2 = (Inr content, w3)
         \<and> PatchBootConfig content d = Inr (patched, n) \<and> 0 < n \<and> replaced names file_text base patched w w1)"
  by (rule boot_directory.patch_outcome [OF assms])

section \<open>Witnesses\<close>

lemma memory_writes:
  "\<exists>w1. writeFDAll memory_dir fd d w = (Inr (), w1) \<and> dw_names w1 = dw_names w \<and> dw_next w1 = dw_next w"
proof (induction "length d" arbitrary: d w rule: less_induct)
  case less
  show ?case
  proof (cases "d = []")
    case False
    let ?w = "w\<lparr>dw_text := (dw_text w)(fd - 10 := dw_text w (fd - 10) @ take (min 16 (length d)) d)\<rparr>"
    have "pe_Write memory_dir fd d w = (Inr (min 16 (length d)), ?w)" by (simp add: memory_dir_def)
    then have "writeFDAll memory_dir fd d w = writeFDAll memory_dir fd (drop (min 16 (length d)) d) ?w"
      using False by (subst writeFDAll.simps) (simp add: min_def)
    moreover have "length (drop (min 16 (length d)) d) < length d" using False by (cases d) auto
    ultimately show ?thesis using less [of "drop (min 16 (length d)) d" ?w] by simp
  qed (simp add: writeFDAll.simps)
qed

definition sample_dir :: dir_world where
  "sample_dir = \<lparr> dw_names = [(''grub.cfg'', 0)], dw_text = (\<lambda>i. sample_config), dw_next = 1 \<rparr>"

lemma sample_replacement:
  "\<exists>w1. patchOneBootFile memory_dir 1 ''grub.cfg'' ''boot/grub/grub.cfg'' casper_detection sample_dir = (Inr (), w1)"
proof -
  define out where "out = ''linux /casper/vmlinuz persistent ---'' @ [CHR 0x0A]"
  have p: "PatchBootConfig sample_config casper_detection = Inr (out, 1)"
    using sample_patched by (simp add: sample_config_def out_def)
  define temp where "temp = ''.grub.cfg.rufusarm64-'' @ hex_encode (replicate 8 0)"
  have temp: "temp \<noteq> ''grub.cfg''" by (simp add: temp_def)
  define w0 where "w0 = \<lparr> dw_names = [(temp, 1), (''grub.cfg'', 0)], dw_text = (\<lambda>i. sample_config)(1 := []), dw_next = 2 \<rparr>"
  obtain w2 where w2: "writeFDAll memory_dir 11 out w0 = (Inr (), w2)" "dw_names w2 = [(temp, 1), (''grub.cfg'', 0)]"
    using memory_writes [of 11 out w0] by (auto simp: w0_def)
  have c: "length sample_config = 26" "maxConfigBytes = 1048576" by (simp_all add: sample_config_def maxConfigBytes_def)
  have t: "mode_type 0x81A4 = 0x8000" by (simp add: mode_type_def)
  have n: "patchTempName memory_dir ''grub.cfg'' w = (Inr temp, w)" for w
    by (simp add: patchTempName_def bind_act_def wrap_act_def memory_dir_def ret_act_def temp_def)
  have "\<exists>w1. replace_file memory_dir 1 ''grub.cfg'' ''boot/grub/grub.cfg''
      \<lparr> st_Dev = 1, st_Ino = 10, st_Mode = 0x81A4, st_Size = 26 \<rparr> out sample_dir = (Inr (), w1)"
  proof -
    have cr: "pe_Create memory_dir 1 temp sample_dir = (Inr 11, w0)"
      using temp by (simp add: memory_dir_def sample_dir_def w0_def)
    have calls: "pe_Fchmod memory_dir fd m w = (Inr (), w)" "pe_Fsync memory_dir fd w = (Inr (), w)" "pe_Close memory_dir fd w = (None, w)" for fd m w
      by (simp_all add: memory_dir_def ret_act_def)
    have op: "pe_OpenPath memory_dir 1 ''grub.cfg'' w2 = (Inr 10, w2)" using temp by (simp add: memory_dir_def w2)
    have st: "\<exists>k. pe_Fstat memory_dir 10 w2 = (Inr \<lparr> st_Dev = 1, st_Ino = 10, st_Mode = 0x81A4, st_Size = k \<rparr>, w2)"
      by (simp add: memory_dir_def)
    then obtain k where st: "pe_Fstat memory_dir 10 w2 = (Inr \<lparr> st_Dev = 1, st_Ino = 10, st_Mode = 0x81A4, st_Size = k \<rparr>, w2)" ..
    have rn: "\<exists>w3. pe_Renameat memory_dir 1 temp ''grub.cfg'' w2 = (Inr (), w3)" by (simp add: memory_dir_def w2)
    then obtain w3 where rn: "pe_Renameat memory_dir 1 temp ''grub.cfg'' w2 = (Inr (), w3)" ..
    have "prepare_replacement memory_dir 1 ''grub.cfg'' ''boot/grub/grub.cfg''
        \<lparr> st_Dev = 1, st_Ino = 10, st_Mode = 0x81A4, st_Size = 26 \<rparr> out 11 w0 = (Inr (), w2)"
      unfolding prepare_replacement_def by (simp add: bind_act_def wrap_act_def w2(1) calls op [unfolded One_nat_def] closing_def st pure_act_def t)
    then show ?thesis
      unfolding replace_file_def by (simp add: bind_act_def wrap_act_def n cr [unfolded One_nat_def] with_temp_def replace_body_def rn [unfolded One_nat_def] calls)
  qed
  then obtain w1 where r: "replace_file memory_dir 1 ''grub.cfg'' ''boot/grub/grub.cfg''
      \<lparr> st_Dev = 1, st_Ino = 10, st_Mode = 0x81A4, st_Size = 26 \<rparr> out sample_dir = (Inr (), w1)" ..
  have calls: "pe_OpenFile memory_dir 1 ''grub.cfg'' sample_dir = (Inr 10, sample_dir)"
    "pe_Fstat memory_dir 10 sample_dir = (Inr \<lparr> st_Dev = 1, st_Ino = 10, st_Mode = 0x81A4, st_Size = 26 \<rparr>, sample_dir)"
    "pe_Read memory_dir 10 1048577 sample_dir = (Inr sample_config, sample_dir)" "\<And>w. pe_Close memory_dir 10 w = (None, w)"
    by (simp_all add: memory_dir_def sample_dir_def c)
  show ?thesis
    unfolding patchOneBootFile_def
    by (simp add: bind_act_def wrap_act_def closing_def pure_act_def calls [simplified] t c p r [unfolded One_nat_def])
qed

theorem boot_file_replaced_atomically_witness:
  "\<exists>w1 patched. patchOneBootFile memory_dir 1 ''grub.cfg'' ''boot/grub/grub.cfg'' casper_detection sample_dir = (Inr (), w1)
     \<and> replaced dir_names dw_text ''grub.cfg'' patched sample_dir w1"
proof -
  obtain w1 where r: "patchOneBootFile memory_dir 1 ''grub.cfg'' ''boot/grub/grub.cfg'' casper_detection sample_dir = (Inr (), w1)"
    using sample_replacement by blast
  from boot_file_replaced_atomically [OF directory.boot_directory_axioms r] r show ?thesis by auto
qed

end
