(* ===== verification/IsoBoot.thy ===== *)
theory IsoBoot
  imports Buffers Sha256
begin

text \<open>
  \<open>internal/imaging/el_torito.go\<close>: the plan of the one EFI boot image of an El Torito catalog and its
  extraction. The source is an \<open>io.ReaderAt\<close>, the destination an \<open>io.Writer\<close>; both are calls of the environment.
\<close>

unbundle bit_operations_syntax

section \<open>Data\<close>

definition opticalSectorSize :: u64 where "opticalSectorSize = 2048"
definition elToritoAutoExpandMinimumLBAs :: u64 where "elToritoAutoExpandMinimumLBAs = 0x1000"
definition elToritoPlatformEFI :: byte where "elToritoPlatformEFI = 0xef"

definition elToritoSystemID :: bytes where
  "elToritoSystemID = string_bytes ''EL TORITO SPECIFICATION'' @ replicate 9 0"

record ElToritoUEFIImagePlan =
  et_Schema :: nat
  et_SourceSize :: u64
  et_VolumeSpaceSectors :: u32
  et_CatalogLBA :: u32
  et_CatalogSHA256 :: string
  et_EntryIndex :: nat
  et_PlatformID :: byte
  et_MediaType :: byte
  et_LoadSegment :: u16
  et_SystemType :: byte
  et_DeclaredVirtualSectors :: u16
  et_ImageLBA :: u32
  et_ImageOffset :: u64
  et_ImageLength :: u64
  et_AutoExpandedSmallSectorCount :: bool
  et_ExpansionEndLBA :: u32
  et_ImageSHA256 :: string
  et_PlanSHA256 :: string
  et_Limitations :: "string list"

record elToritoBootEntry =
  be_index :: nat
  be_platform :: byte
  be_mediaType :: byte
  be_loadSegment :: u16
  be_systemType :: byte
  be_sectorCount :: u16
  be_imageLBA :: u32

type_synonym 'w byte_writer = "bytes \<Rightarrow> 'w \<Rightarrow> (nat \<times> go_error option) \<times> 'w"

definition le16 :: "bytes \<Rightarrow> nat \<Rightarrow> u16" where "le16 d i = get_u16 (drop i d)"
definition le32 :: "bytes \<Rightarrow> nat \<Rightarrow> u32" where "le32 d i = get_u32 (drop i d)"

text \<open>\<open>binary.BigEndian.Uint32\<close>.\<close>

definition be32 :: "bytes \<Rightarrow> nat \<Rightarrow> u32" where "be32 d i = get_u32 (rev (take 4 (drop i d)))"

definition allZero :: "bytes \<Rightarrow> bool" where "allZero d \<longleftrightarrow> list_all (\<lambda>b. b = 0) d"

section \<open>Reading\<close>

definition readElToritoExact :: "'w read_at \<Rightarrow> nat \<Rightarrow> u64 \<Rightarrow> u64 \<Rightarrow> string \<Rightarrow> ('w, bytes) act" where
  "readElToritoExact reader len offset src_size label w =
     (let end = offset + of_nat len in
      if end < offset \<or> src_size < end then (Inl (Errorf ''el Torito %s extent is outside the source'' [FS label]), w)
      else
      case reader len offset w of
        ((d, err), w1) \<Rightarrow>
          (let failed = (\<lambda>e. Inl (Errorf ''read El Torito %s: %w'' [FS label, FE e])) in
           if length d \<noteq> len then (failed (case err of None \<Rightarrow> ErrUnexpectedEOF | Some e \<Rightarrow> e), w1)
           else
           case err of
             None \<Rightarrow> (Inr d, w1)
           | Some e \<Rightarrow> if \<not> errors_is e EOF then (failed e, w1) else (Inr d, w1)))"

section \<open>Locating the catalog\<close>

record catalog_search =
  cs_volumeSectors :: u32
  cs_catalogLBA :: u32
  cs_foundPVD :: bool
  cs_foundCatalog :: bool

text \<open>One volume descriptor; the flag says that it ends the set.\<close>

definition locate_descriptor :: "bytes \<Rightarrow> catalog_search \<Rightarrow> (catalog_search \<times> bool) res" where
  "locate_descriptor d st =
     (if slice d 1 6 \<noteq> string_bytes ''CD001'' \<or> d ! 6 \<noteq> 1 then Inr (st, False)
      else if d ! 0 = 1
      then
        if le32 d 80 = 0 \<or> le32 d 80 \<noteq> be32 d 84
        then Inl (Msg ''source ISO primary volume descriptor has inconsistent volume-space size'')
        else if cs_foundPVD st \<and> cs_volumeSectors st \<noteq> le32 d 80
        then Inl (Msg ''source ISO contains conflicting primary volume descriptors'')
        else Inr (st\<lparr> cs_volumeSectors := le32 d 80, cs_foundPVD := True \<rparr>, False)
      else if d ! 0 = 0
      then
        if slice d 7 39 \<noteq> elToritoSystemID then Inr (st, False)
        else if le32 d 71 = 0 then Inl (Msg ''el Torito boot record declares catalog LBA zero'')
        else if cs_foundCatalog st \<and> cs_catalogLBA st \<noteq> le32 d 71
        then Inl (Msg ''source ISO contains conflicting El Torito boot records'')
        else Inr (st\<lparr> cs_catalogLBA := le32 d 71, cs_foundCatalog := True \<rparr>, False)
      else Inr (st, d ! 0 = 255))"

fun locate_loop :: "'w read_at \<Rightarrow> u64 \<Rightarrow> nat list \<Rightarrow> catalog_search \<Rightarrow> ('w, catalog_search) act" where
  "locate_loop reader src_size [] st w = (Inr st, w)"
| "locate_loop reader src_size (sector # sectors) st w =
     (let offset = of_nat sector * opticalSectorSize in
      if src_size < offset + opticalSectorSize then (Inr st, w)
      else
      case readElToritoExact reader 2048 offset src_size (''volume descriptor '' @ decimal (of_nat sector)) w of
        (Inl e, w1) \<Rightarrow> (Inl e, w1)
      | (Inr d, w1) \<Rightarrow>
          (case locate_descriptor d st of
             Inl e \<Rightarrow> (Inl e, w1)
           | Inr (st1, ends) \<Rightarrow> if ends then (Inr st1, w1) else locate_loop reader src_size sectors st1 w1))"

definition locateElToritoCatalog :: "'w read_at \<Rightarrow> u64 \<Rightarrow> ('w, u32 \<times> u32) act" where
  "locateElToritoCatalog reader src_size =
     bind_act (locate_loop reader src_size [16 ..< 65]
       \<lparr> cs_volumeSectors = 0, cs_catalogLBA = 0, cs_foundPVD = False, cs_foundCatalog = False \<rparr>) (\<lambda>st.
     pure_act
       (if \<not> cs_foundPVD st then Inl (Msg ''source ISO primary volume descriptor was not found'')
        else if \<not> cs_foundCatalog st then Inl (Msg ''el Torito boot record was not found'')
        else if cs_volumeSectors st \<le> cs_catalogLBA st
        then Inl (Errorf ''el Torito catalog LBA %d is outside volume size %d'' [FN (unat (cs_catalogLBA st)), FN (unat (cs_volumeSectors st))])
        else Inr (cs_volumeSectors st, cs_catalogLBA st)))"

section \<open>The catalog\<close>

definition standardElToritoPlatform :: "byte \<Rightarrow> bool" where
  "standardElToritoPlatform v \<longleftrightarrow> v = 0 \<or> v = 1 \<or> v = 2 \<or> v = elToritoPlatformEFI"

fun sum_u16 :: "bytes \<Rightarrow> u16" where
  "sum_u16 (a # b # d) = get_u16 [a, b] + sum_u16 d"
| "sum_u16 d = 0"

definition validateElToritoCatalogHeader :: "bytes \<Rightarrow> unit res" where
  "validateElToritoCatalogHeader entry =
     (if length entry \<noteq> 32 then Inl (Msg ''el Torito validation entry has invalid length'')
      else if entry ! 0 \<noteq> 1 then Inl (Errorf ''el Torito validation header id is %#x, expected 0x1'' [FN (unat (entry ! 0))])
      else if \<not> standardElToritoPlatform (entry ! 1)
      then Inl (Errorf ''el Torito validation entry uses unsupported platform %#x'' [FN (unat (entry ! 1))])
      else if entry ! 30 \<noteq> 0x55 \<or> entry ! 31 \<noteq> 0xaa then Inl (Msg ''el Torito validation entry is missing 0x55AA key bytes'')
      else if sum_u16 entry \<noteq> 0 then Inl (Msg ''el Torito validation entry checksum is invalid'')
      else Inr ())"

text \<open>The candidates and the start addresses of all bootable entries found so far.\<close>

type_synonym entries = "elToritoBootEntry list \<times> u32 list"

definition boot_entry_of :: "bytes \<Rightarrow> nat \<Rightarrow> byte \<Rightarrow> elToritoBootEntry" where
  "boot_entry_of r index platform =
     \<lparr> be_index = index, be_platform = platform, be_mediaType = r ! 1 AND 0x0f, be_loadSegment = le16 r 2,
       be_systemType = r ! 4, be_sectorCount = le16 r 6, be_imageLBA = le32 r 8 \<rparr>"

definition collectElToritoEntry :: "bytes \<Rightarrow> nat \<Rightarrow> byte \<Rightarrow> entries \<Rightarrow> entries res" where
  "collectElToritoEntry r index platform st =
     (if length r \<noteq> 32 then Inl (Errorf ''el Torito entry %d has invalid length'' [FN index])
      else if r ! 0 = 0 then Inr st
      else if r ! 0 \<noteq> 0x88 then Inl (Errorf ''el Torito entry %d has invalid boot indicator %#x'' [FN index, FN (unat (r ! 0))])
      else if r ! 1 AND 0xf0 \<noteq> 0 \<or> 4 < r ! 1 AND 0x0f
      then Inl (Errorf ''el Torito entry %d has unsupported media type %#x'' [FN index, FN (unat (r ! 1))])
      else
      let entry = boot_entry_of r index platform in
      if be_imageLBA entry = 0 then Inl (Errorf ''el Torito entry %d has image LBA zero'' [FN index])
      else
      let lbas = snd st @ [be_imageLBA entry] in
      if platform \<noteq> elToritoPlatformEFI then Inr (fst st, lbas)
      else if be_mediaType entry \<noteq> 0
      then Inl (Errorf ''el Torito EFI entry %d uses unsupported emulation media type %d'' [FN index, FN (unat (be_mediaType entry))])
      else Inr (fst st @ [entry], lbas))"

definition catalog_record :: "bytes \<Rightarrow> nat \<Rightarrow> bytes" where "catalog_record catalog i = slice catalog (i * 32) ((i + 1) * 32)"

fun collect_section :: "bytes \<Rightarrow> byte \<Rightarrow> nat list \<Rightarrow> entries \<Rightarrow> entries res" where
  "collect_section catalog platform [] st = Inr st"
| "collect_section catalog platform (current # rest) st =
     (let entry = catalog_record catalog current in
      if entry ! 0 = 0x44 then Inl (Errorf ''el Torito section-entry extensions are unsupported at entry %d'' [FN current])
      else bindE (collectElToritoEntry entry current platform st) (collect_section catalog platform rest))"

function catalog_sections :: "bytes \<Rightarrow> nat \<Rightarrow> entries \<Rightarrow> entries res" where
  "catalog_sections catalog index st =
     (if 64 \<le> index then Inr st
      else
      let r = catalog_record catalog index; indicator = r ! 0; platform = r ! 1; count = unat (le16 r 2) in
      if allZero r then Inr st
      else if indicator \<noteq> 0x90 \<and> indicator \<noteq> 0x91
      then Inl (Errorf ''unsupported El Torito catalog record %#x at entry %d'' [FN (unat indicator), FN index])
      else if \<not> standardElToritoPlatform platform
      then Inl (Errorf ''el Torito section %d uses unsupported platform %#x'' [FN index, FN (unat platform)])
      else if count = 0 \<or> 64 \<le> index + count
      then Inl (Errorf ''el Torito section %d has invalid entry count %d'' [FN index, FN count])
      else
      case collect_section catalog platform [index + 1 ..< index + count + 1] st of
        Inl e \<Rightarrow> Inl e
      | Inr st1 \<Rightarrow>
          if indicator = 0x91
          then if list_all (\<lambda>i. allZero (catalog_record catalog i)) [index + count + 1 ..< 64] then Inr st1
               else Inl (Msg ''el Torito final section is followed by non-zero catalog data'')
          else catalog_sections catalog (index + count + 1) st1)"
  by pat_completeness auto
termination by (relation "measure (\<lambda>(catalog, index, st). 64 - index)") auto

declare catalog_sections.simps [simp del]

definition selectElToritoUEFIEntry :: "bytes \<Rightarrow> (elToritoBootEntry \<times> u32 list) res" where
  "selectElToritoUEFIEntry catalog =
     (if length catalog \<noteq> 2048 then Inl (Msg ''el Torito catalog must contain exactly one ISO sector'')
      else
      bindE (collectElToritoEntry (slice catalog 32 64) 1 (catalog ! 1) ([], [])) (\<lambda>st.
      bindE (catalog_sections catalog 2 st) (\<lambda>(candidates, lbas).
      case candidates of
        [] \<Rightarrow> Inl (Msg ''el Torito catalog contains no bootable EFI no-emulation image'')
      | [c] \<Rightarrow> Inr (c, lbas)
      | _ \<Rightarrow> Inl (Errorf ''el Torito catalog contains %d bootable EFI no-emulation images; selection is ambiguous'' [FN (length candidates)]))))"

section \<open>Copying a range\<close>

definition elToritoHashBufferSize :: nat where "elToritoHashBufferSize = 65536"

text \<open>The loop answers the bytes it has hashed.\<close>

function copy_range_loop ::
  "'w poll \<Rightarrow> 'w read_at \<Rightarrow> 'w byte_writer \<Rightarrow> u64 \<Rightarrow> nat \<Rightarrow> nat \<Rightarrow> bytes \<Rightarrow> ('w, bytes) act" where
  "copy_range_loop ctx reader writer offset len done acc w =
     (if len \<le> done then (Inr acc, w)
      else
      case ctx w of
        (Some e, w1) \<Rightarrow> (Inl e, w1)
      | (None, w1) \<Rightarrow>
          let chunk = min elToritoHashBufferSize (len - done);
              failed = (\<lambda>e. Inl (Errorf ''read El Torito EFI image at byte %d: %w'' [FN done, FE e])) in
          case reader chunk (offset + of_nat done) w1 of
            ((d, err), w2) \<Rightarrow>
              if length d \<noteq> chunk then (failed (case err of None \<Rightarrow> ErrUnexpectedEOF | Some e \<Rightarrow> e), w2)
              else if (case err of None \<Rightarrow> False | Some e \<Rightarrow> \<not> errors_is e EOF)
              then (failed (case err of None \<Rightarrow> ErrUnexpectedEOF | Some e \<Rightarrow> e), w2)
              else
              case writer d w2 of
                ((written, Some e), w3) \<Rightarrow> (Inl (Errorf ''write El Torito EFI image at byte %d: %w'' [FN done, FE e]), w3)
              | ((written, None), w3) \<Rightarrow>
                  if written \<noteq> length d then (Inl ErrShortWrite, w3)
                  else copy_range_loop ctx reader writer offset len (done + chunk) (acc @ d) w3)"
  by pat_completeness auto
termination
  by (relation "measure (\<lambda>(ctx, reader, writer, offset, len, done, acc, w). len - done)") (auto simp: elToritoHashBufferSize_def)

declare copy_range_loop.simps [simp del]

text \<open>The callers pass a context that is not nil.\<close>

definition copyElToritoRange ::
  "'w poll \<Rightarrow> 'w read_at \<Rightarrow> 'w byte_writer \<Rightarrow> u64 \<Rightarrow> u64 \<Rightarrow> ('w, bytes) act" where
  "copyElToritoRange ctx reader writer offset len =
     bind_act (try_call ctx) (\<lambda>_.
     bind_act (copy_range_loop ctx reader writer offset (unat len) 0 []) (\<lambda>d.
     ret_act (sha256 d)))"

text \<open>\<open>io.Discard\<close>.\<close>

definition discard :: "'w byte_writer" where "discard d w = ((length d, None), w)"

definition hashElToritoRange :: "'w poll \<Rightarrow> 'w read_at \<Rightarrow> u64 \<Rightarrow> u64 \<Rightarrow> ('w, bytes) act" where
  "hashElToritoRange ctx reader = copyElToritoRange ctx reader discard"

section \<open>The plan\<close>

definition writeElToritoUint64 :: "u64 \<Rightarrow> bytes" where "writeElToritoUint64 v = put_u64 v"

definition writeElToritoString :: "string \<Rightarrow> bytes" where
  "writeElToritoString v = writeElToritoUint64 (of_nat (length v)) @ string_bytes v"

definition writeElToritoBool :: "bool \<Rightarrow> bytes" where
  "writeElToritoBool v = (if v then writeElToritoUint64 1 else writeElToritoUint64 0)"

definition elToritoPlanDigest :: "ElToritoUEFIImagePlan \<Rightarrow> string" where
  "elToritoPlanDigest p = sha256_hex (
     writeElToritoUint64 (of_nat (et_Schema p)) @ writeElToritoUint64 (et_SourceSize p)
     @ writeElToritoUint64 (u64_of (et_VolumeSpaceSectors p)) @ writeElToritoUint64 (u64_of (et_CatalogLBA p))
     @ writeElToritoString (et_CatalogSHA256 p) @ writeElToritoUint64 (of_nat (et_EntryIndex p))
     @ writeElToritoUint64 (u64_of (et_PlatformID p)) @ writeElToritoUint64 (u64_of (et_MediaType p))
     @ writeElToritoUint64 (u64_of (et_LoadSegment p)) @ writeElToritoUint64 (u64_of (et_SystemType p))
     @ writeElToritoUint64 (u64_of (et_DeclaredVirtualSectors p)) @ writeElToritoUint64 (u64_of (et_ImageLBA p))
     @ writeElToritoUint64 (et_ImageOffset p) @ writeElToritoUint64 (et_ImageLength p)
     @ writeElToritoBool (et_AutoExpandedSmallSectorCount p) @ writeElToritoUint64 (u64_of (et_ExpansionEndLBA p))
     @ writeElToritoString (et_ImageSHA256 p))"

definition elToritoLimitations :: "string list" where
  "elToritoLimitations =
     [''only one unambiguous EFI no-emulation El Torito image is accepted'',
      ''catalog validation and content hashing do not prove firmware bootability or Secure Boot acceptance'',
      ''small declared sector counts are expanded only under the pinned Rufus/libcdio 8 MiB compatibility rule'',
      ''no path, mount, target, privileged operation, or automatic write-mode selection is performed'']"

text \<open>The next boot image behind the candidate, or the end of the volume.\<close>

definition next_lba :: "u32 \<Rightarrow> u32 \<Rightarrow> u32 list \<Rightarrow> u32" where
  "next_lba volumeSectors imageLBA lbas =
     foldl (\<lambda>next lba. if imageLBA < lba \<and> lba < next then lba else next) volumeSectors lbas"

text \<open>Length, end of the expansion and whether it was expanded.\<close>

definition image_extent :: "u32 \<Rightarrow> elToritoBootEntry \<Rightarrow> u32 list \<Rightarrow> (u64 \<times> u32 \<times> bool) res" where
  "image_extent volumeSectors candidate lbas =
     (let declared = u64_of (be_sectorCount candidate) * 512 in
      if be_sectorCount candidate \<le> 1
      then
        let next = next_lba volumeSectors (be_imageLBA candidate) lbas in
        if next \<le> be_imageLBA candidate then Inl (Msg ''el Torito EFI image has no bounded end LBA'')
        else
        let gap = u64_of (next - be_imageLBA candidate) in
        if elToritoAutoExpandMinimumLBAs \<le> gap then Inr (gap * opticalSectorSize, next, True) else Inr (declared, 0, False)
      else Inr (declared, 0, False))"

definition plan_extent :: "u32 \<Rightarrow> u64 \<Rightarrow> elToritoBootEntry \<Rightarrow> u32 list \<Rightarrow> (u64 \<times> u64 \<times> u32 \<times> bool) res" where
  "plan_extent volumeSectors src_size candidate lbas =
     (let volumeBytes = u64_of volumeSectors * opticalSectorSize; imageOffset = u64_of (be_imageLBA candidate) * opticalSectorSize in
      if src_size < volumeBytes
      then Inl (Errorf ''source ISO volume declares %d bytes but source contains %d'' [FN (unat volumeBytes), FN (unat src_size)])
      else if be_imageLBA candidate = 0 \<or> volumeBytes \<le> imageOffset
      then Inl (Errorf ''el Torito EFI image LBA %d is outside the ISO volume'' [FN (unat (be_imageLBA candidate))])
      else
      bindE (image_extent volumeSectors candidate lbas) (\<lambda>(imageLength, expansionEnd, autoExpanded).
      if imageLength = 0
      then Inl (Msg ''el Torito EFI image declares zero length and is too small for safe auto-expansion'')
      else
      let imageEnd = imageOffset + imageLength in
      if imageEnd < imageOffset \<or> volumeBytes < imageEnd \<or> src_size < imageEnd
      then Inl (Errorf ''el Torito EFI image extent [%d,%d) is outside the ISO volume'' [FN (unat imageOffset), FN (unat imageEnd)])
      else Inr (imageOffset, imageLength, expansionEnd, autoExpanded)))"

definition el_torito_plan ::
  "u64 \<Rightarrow> u32 \<Rightarrow> u32 \<Rightarrow> bytes \<Rightarrow> elToritoBootEntry \<Rightarrow> u64 \<times> u64 \<times> u32 \<times> bool \<Rightarrow> bytes \<Rightarrow> ElToritoUEFIImagePlan" where
  "el_torito_plan src_size volumeSectors catalogLBA catalog candidate extent imageDigest =
     (case extent of (imageOffset, imageLength, expansionEnd, autoExpanded) \<Rightarrow>
      let plan = \<lparr> et_Schema = 1, et_SourceSize = src_size, et_VolumeSpaceSectors = volumeSectors, et_CatalogLBA = catalogLBA,
            et_CatalogSHA256 = hex_encode (sha256 catalog), et_EntryIndex = be_index candidate,
            et_PlatformID = be_platform candidate, et_MediaType = be_mediaType candidate,
            et_LoadSegment = be_loadSegment candidate, et_SystemType = be_systemType candidate,
            et_DeclaredVirtualSectors = be_sectorCount candidate, et_ImageLBA = be_imageLBA candidate,
            et_ImageOffset = imageOffset, et_ImageLength = imageLength, et_AutoExpandedSmallSectorCount = autoExpanded,
            et_ExpansionEndLBA = expansionEnd, et_ImageSHA256 = hex_encode imageDigest, et_PlanSHA256 = [],
            et_Limitations = elToritoLimitations \<rparr> in
      plan\<lparr>et_PlanSHA256 := elToritoPlanDigest plan\<rparr>)"

definition read_catalog :: "'w read_at \<Rightarrow> u32 \<Rightarrow> u64 \<Rightarrow> string \<Rightarrow> ('w, bytes) act" where
  "read_catalog reader catalogLBA src_size label = readElToritoExact reader 2048 (u64_of catalogLBA * opticalSectorSize) src_size label"

definition PlanElToritoUEFIImage ::
  "'w poll option \<Rightarrow> 'w read_at option \<Rightarrow> int \<Rightarrow> ('w, ElToritoUEFIImagePlan) act" where
  "PlanElToritoUEFIImage ctx_opt reader_opt src_size =
     (case ctx_opt of
        None \<Rightarrow> pure_act (Inl (Msg ''el Torito planning context is nil''))
      | Some ctx \<Rightarrow>
      bind_act (try_call ctx) (\<lambda>_.
      case reader_opt of
        None \<Rightarrow> pure_act (Inl (Msg ''el Torito source must be a non-empty random-access image''))
      | Some reader \<Rightarrow>
      if src_size \<le> 0 then pure_act (Inl (Msg ''el Torito source must be a non-empty random-access image''))
      else
      bind_act (locateElToritoCatalog reader (of_int src_size)) (\<lambda>(volumeSectors, catalogLBA).
      bind_act (read_catalog reader catalogLBA (of_int src_size) ''boot catalog'') (\<lambda>catalog.
      bind_act (pure_act (validateElToritoCatalogHeader (take 32 catalog))) (\<lambda>_.
      bind_act (pure_act (selectElToritoUEFIEntry catalog)) (\<lambda>(candidate, lbas).
      bind_act (pure_act (plan_extent volumeSectors (of_int src_size) candidate lbas)) (\<lambda>extent.
      bind_act (hashElToritoRange ctx reader (fst extent) (fst (snd extent))) (\<lambda>imageDigest.
      ret_act (el_torito_plan (of_int src_size) volumeSectors catalogLBA catalog candidate extent imageDigest)))))))))"

text \<open>A failure after the planning also returns the plan; the model returns the error alone.\<close>

definition ExtractElToritoUEFIImage ::
  "'w poll option \<Rightarrow> 'w read_at option \<Rightarrow> int \<Rightarrow> 'w byte_writer option \<Rightarrow> ('w, ElToritoUEFIImagePlan) act" where
  "ExtractElToritoUEFIImage ctx_opt reader_opt src_size writer_opt =
     (case writer_opt of
        None \<Rightarrow> pure_act (Inl (Msg ''el Torito extraction writer is nil''))
      | Some writer \<Rightarrow>
      bind_act (PlanElToritoUEFIImage ctx_opt reader_opt src_size) (\<lambda>plan.
      bind_act (copyElToritoRange (the ctx_opt) (the reader_opt) writer (et_ImageOffset plan) (et_ImageLength plan)) (\<lambda>digest.
      if Some digest \<noteq> hex_decode (et_ImageSHA256 plan)
      then pure_act (Inl (Msg ''el Torito EFI image changed between planning and extraction''))
      else
      bind_act (read_catalog (the reader_opt) (et_CatalogLBA plan) (of_int src_size) ''boot catalog after extraction'') (\<lambda>catalog.
      if Some (sha256 catalog) \<noteq> hex_decode (et_CatalogSHA256 plan)
      then pure_act (Inl (Msg ''el Torito boot catalog changed between planning and extraction''))
      else ret_act plan))))"

end
