(* ===== verification/IsoPlan.thy ===== *)
theory IsoPlan
  imports IsoBoot
begin

text \<open>
  What an El Torito plan says: the catalog holds exactly one bootable EFI entry, its image lies in the
  volume, and the digests are those of the bytes read; and what an extraction leaves at the writer.
\<close>

section \<open>The selection\<close>

text \<open>The entries of a catalog from a record on, by the structure of its sections.\<close>

inductive catalog_layout :: "bytes \<Rightarrow> nat \<Rightarrow> (nat \<times> byte) list \<Rightarrow> bool" for catalog where
  full: "64 \<le> i \<Longrightarrow> catalog_layout catalog i []"
| blank: "i < 64 \<Longrightarrow> allZero (catalog_record catalog i) \<Longrightarrow> catalog_layout catalog i []"
| final: "i < 64 \<Longrightarrow> \<not> allZero (catalog_record catalog i) \<Longrightarrow> catalog_record catalog i ! 0 = 0x91
    \<Longrightarrow> standardElToritoPlatform (catalog_record catalog i ! 1)
    \<Longrightarrow> n = unat (le16 (catalog_record catalog i) 2) \<Longrightarrow> 0 < n \<Longrightarrow> i + n < 64
    \<Longrightarrow> list_all (\<lambda>k. allZero (catalog_record catalog k)) [i + n + 1 ..< 64]
    \<Longrightarrow> catalog_layout catalog i (map (\<lambda>k. (k, catalog_record catalog i ! 1)) [i + 1 ..< i + n + 1])"
| more: "i < 64 \<Longrightarrow> \<not> allZero (catalog_record catalog i) \<Longrightarrow> catalog_record catalog i ! 0 = 0x90
    \<Longrightarrow> standardElToritoPlatform (catalog_record catalog i ! 1)
    \<Longrightarrow> n = unat (le16 (catalog_record catalog i) 2) \<Longrightarrow> 0 < n \<Longrightarrow> i + n < 64
    \<Longrightarrow> catalog_layout catalog (i + n + 1) es
    \<Longrightarrow> catalog_layout catalog i (map (\<lambda>k. (k, catalog_record catalog i ! 1)) [i + 1 ..< i + n + 1] @ es)"

definition entry_at :: "bytes \<Rightarrow> nat \<times> byte \<Rightarrow> elToritoBootEntry" where
  "entry_at catalog e = boot_entry_of (catalog_record catalog (fst e)) (fst e) (snd e)"

definition bootable :: "bytes \<Rightarrow> nat \<times> byte \<Rightarrow> bool" where
  "bootable catalog e \<longleftrightarrow> catalog_record catalog (fst e) ! 0 = 0x88"

definition efi_bootable :: "bytes \<Rightarrow> nat \<times> byte \<Rightarrow> bool" where
  "efi_bootable catalog e \<longleftrightarrow> bootable catalog e \<and> snd e = elToritoPlatformEFI"

definition acceptable :: "bytes \<Rightarrow> nat \<times> byte \<Rightarrow> bool" where
  "acceptable catalog e \<longleftrightarrow> catalog_record catalog (fst e) ! 0 = 0
     \<or> bootable catalog e \<and> catalog_record catalog (fst e) ! 1 AND 0xf0 = 0 \<and> catalog_record catalog (fst e) ! 1 AND 0x0f \<le> 4
       \<and> be_imageLBA (entry_at catalog e) \<noteq> 0 \<and> (snd e = elToritoPlatformEFI \<longrightarrow> be_mediaType (entry_at catalog e) = 0)"

definition gathered :: "bytes \<Rightarrow> (nat \<times> byte) list \<Rightarrow> entries" where
  "gathered catalog es = (map (entry_at catalog) (filter (efi_bootable catalog) es),
     map (\<lambda>e. be_imageLBA (entry_at catalog e)) (filter (bootable catalog) es))"

definition joined :: "entries \<Rightarrow> entries \<Rightarrow> entries" where
  "joined a b = (fst a @ fst b, snd a @ snd b)"

lemma gathered_append: "gathered catalog (es @ fs) = joined (gathered catalog es) (gathered catalog fs)"
  by (simp add: gathered_def joined_def)

lemma joined_assoc: "joined (joined a b) c = joined a (joined b c)"
  by (simp add: joined_def)

lemma joined_Nil [simp]: "joined st (gathered catalog []) = st" "joined ([], []) st = st"
  by (simp_all add: joined_def gathered_def)

lemma record_length: "length catalog = 2048 \<Longrightarrow> i < 64 \<Longrightarrow> length (catalog_record catalog i) = 32"
  by (simp add: catalog_record_def)

lemma collect_entry:
  assumes "length catalog = 2048" "fst e < 64"
  shows "collectElToritoEntry (catalog_record catalog (fst e)) (fst e) (snd e) st = Inr st1
    \<longleftrightarrow> acceptable catalog e \<and> st1 = joined st (gathered catalog [e])"
  using record_length [OF assms]
  by (auto simp: collectElToritoEntry_def acceptable_def bootable_def efi_bootable_def gathered_def joined_def entry_at_def
    boot_entry_of_def Let_def not_less)

lemma collect_section_exact:
  assumes "length catalog = 2048" "list_all (\<lambda>k. k < 64) ks"
  shows "collect_section catalog platform ks st = Inr st1
    \<longleftrightarrow> list_all (acceptable catalog) (map (\<lambda>k. (k, platform)) ks) \<and> st1 = joined st (gathered catalog (map (\<lambda>k. (k, platform)) ks))"
  using assms(2)
proof (induction ks arbitrary: st)
  case (Cons k ks)
  have a: "acceptable catalog (k, platform) \<Longrightarrow> catalog_record catalog k ! 0 \<noteq> 0x44" by (auto simp: acceptable_def bootable_def)
  have j: "joined (joined st (gathered catalog [(k, platform)])) (gathered catalog (map (\<lambda>k. (k, platform)) ks))
      = joined st (gathered catalog ((k, platform) # map (\<lambda>k. (k, platform)) ks))"
    unfolding joined_assoc gathered_append [symmetric] by simp
  show ?case
    using Cons collect_entry [OF assms(1), of "(k, platform)" st] a j
    by (auto simp: Let_def bindE_eq_Inr)
qed auto

lemma layout_append: "(\<exists>es. (\<exists>fs. es = ds @ fs \<and> L fs) \<and> Q es) \<longleftrightarrow> (\<exists>fs. L fs \<and> Q (ds @ fs))"
  by blast

lemma layout_step: "(\<exists>s. (A \<and> s = t) \<and> (\<exists>fs. L fs \<and> B fs \<and> u = f s fs)) \<longleftrightarrow> (\<exists>fs. L fs \<and> (A \<and> B fs) \<and> u = f t fs)"
  by blast

lemma sections_exact:
  assumes "length catalog = 2048"
  shows "catalog_sections catalog i st = Inr st1
    \<longleftrightarrow> (\<exists>es. catalog_layout catalog i es \<and> list_all (acceptable catalog) es \<and> st1 = joined st (gathered catalog es))"
proof (induction "64 - i" arbitrary: i st rule: less_induct)
  case less
  let ?r = "catalog_record catalog i"
  define n where "n = unat (le16 ?r 2)"
  let ?es = "map (\<lambda>k. (k, ?r ! 1)) [i + 1 ..< i + n + 1]"
  show ?case
  proof (cases "64 \<le> i \<or> allZero ?r")
    case True
    then have l: "catalog_layout catalog i es \<longleftrightarrow> es = []" for es
      by (cases "64 \<le> i") (auto intro: full blank elim: catalog_layout.cases simp: not_le)
    have "catalog_sections catalog i st = Inr st" using True by (subst catalog_sections.simps) (auto simp: Let_def)
    then show ?thesis unfolding l by auto
  next
    case False
    show ?thesis
    proof (cases "(?r ! 0 = 0x90 \<or> ?r ! 0 = 0x91) \<and> standardElToritoPlatform (?r ! 1) \<and> 0 < n \<and> i + n < 64")
      case bad: False
      then show ?thesis using False
        by (subst catalog_sections.simps) (auto simp: Let_def n_def elim: catalog_layout.cases)
    next
      case good: True
      have ks: "list_all (\<lambda>k. k < 64) [i + 1 ..< i + n + 1]" using good by (auto simp: list_all_iff)
      note c = collect_section_exact [OF assms ks, of "?r ! 1" st]
      show ?thesis
      proof (cases "?r ! 0 = 0x91")
        case True
        have l: "catalog_layout catalog i es \<longleftrightarrow> es = ?es \<and> list_all (\<lambda>k. allZero (catalog_record catalog k)) [i + n + 1 ..< 64]" for es
          using False good True final [of i catalog n] by (auto simp: n_def simp del: upt_Suc elim: catalog_layout.cases)
        have "catalog_sections catalog i st = Inr st1 \<longleftrightarrow> collect_section catalog (?r ! 1) [i + 1 ..< i + n + 1] st = Inr st1
            \<and> list_all (\<lambda>k. allZero (catalog_record catalog k)) [i + n + 1 ..< 64]"
          using False good True by (subst catalog_sections.simps) (auto simp: Let_def n_def split: sum.splits)
        then show ?thesis unfolding l c by blast
      next
        case other: False
        have l: "catalog_layout catalog i es \<longleftrightarrow> (\<exists>fs. es = ?es @ fs \<and> catalog_layout catalog (i + n + 1) fs)" for es
          using False good other more [of i catalog n] by (auto simp: n_def simp del: upt_Suc elim: catalog_layout.cases)
        have u: "catalog_sections catalog i st = Inr st1 \<longleftrightarrow> (\<exists>st2. collect_section catalog (?r ! 1) [i + 1 ..< i + n + 1] st = Inr st2
            \<and> catalog_sections catalog (i + n + 1) st2 = Inr st1)"
          using False good other by (subst catalog_sections.simps) (auto simp: Let_def n_def split: sum.splits)
        have h: "catalog_sections catalog (i + n + 1) st2 = Inr st1 \<longleftrightarrow>
            (\<exists>fs. catalog_layout catalog (i + n + 1) fs \<and> list_all (acceptable catalog) fs \<and> st1 = joined st2 (gathered catalog fs))" for st2
          using False by (intro less.hyps) auto
        show ?thesis unfolding u c h l layout_append layout_step list_all_append gathered_append joined_assoc by (simp only: conj_assoc)
      qed
    qed
  qed
qed

text \<open>All entries of a catalog: the initial one, on the platform of the validation entry, and those of the sections.\<close>

definition catalog_entries :: "bytes \<Rightarrow> (nat \<times> byte) list \<Rightarrow> bool" where
  "catalog_entries catalog es \<longleftrightarrow> (\<exists>fs. es = (1, catalog ! 1) # fs \<and> catalog_layout catalog 2 fs)"

lemma selection_exact:
  assumes "length catalog = 2048"
  shows "selectElToritoUEFIEntry catalog = Inr (c, lbas) \<longleftrightarrow>
    (\<exists>es. catalog_entries catalog es \<and> list_all (acceptable catalog) es \<and> gathered catalog es = ([c], lbas))"
proof -
  have r: "slice catalog 32 64 = catalog_record catalog 1" by (simp add: catalog_record_def)
  have o: "(case x of (candidates, lbas) \<Rightarrow> (case candidates of [] \<Rightarrow> Inl e | [c] \<Rightarrow> Inr (c, lbas) | _ \<Rightarrow> f candidates)) = Inr (c, lbas)
      \<longleftrightarrow> x = ([c], lbas)" if "\<And>cs. \<exists>e. f cs = Inl e" for x e and f :: "elToritoBootEntry list \<Rightarrow> (elToritoBootEntry \<times> u32 list) res"
    using that by (cases x) (auto split: list.splits, metis Inl_Inr_False)
  have "selectElToritoUEFIEntry catalog = Inr (c, lbas) \<longleftrightarrow>
    (\<exists>st. collectElToritoEntry (catalog_record catalog 1) 1 (catalog ! 1) ([], []) = Inr st \<and> catalog_sections catalog 2 st = Inr ([c], lbas))"
    using assms unfolding selectElToritoUEFIEntry_def r
    by (auto simp: bindE_eq_Inr o)
  moreover have "collectElToritoEntry (catalog_record catalog 1) 1 (catalog ! 1) ([], []) = Inr st
      \<longleftrightarrow> acceptable catalog (1, catalog ! 1) \<and> st = gathered catalog [(1, catalog ! 1)]" for st
    using collect_entry [OF assms, of "(1, catalog ! 1)" "([], [])" st] by simp
  moreover have "gathered catalog ((1, catalog ! 1) # fs) = joined (gathered catalog [(1, catalog ! 1)]) (gathered catalog fs)" for fs
    using gathered_append [of catalog "[(1, catalog ! 1)]" fs] by simp
  ultimately show ?thesis
    unfolding catalog_entries_def sections_exact [OF assms] by (metis list.pred_inject(2))
qed

section \<open>The extent\<close>

lemma next_lba_bounds:
  "next_lba v l lbas \<le> v \<and> (next_lba v l lbas = v \<or> next_lba v l lbas \<in> set lbas)
   \<and> (l < v \<longrightarrow> l < next_lba v l lbas) \<and> (\<forall>x\<in>set lbas. l < x \<longrightarrow> next_lba v l lbas \<le> x)"
  unfolding next_lba_def
proof (induction lbas arbitrary: v)
  case (Cons x lbas)
  from Cons [of "if l < x \<and> x < v then x else v"] show ?case by (auto split: if_splits)
qed simp

lemma unat_sector_offset [nat_of_word]: "unat (u64_of (x :: u32) * opticalSectorSize) = unat x * 2048"
proof -
  have "unat x < 2 ^ 32" using unsigned_less [of x] by simp
  then have "unat (u64_of x) * unat opticalSectorSize < 2 ^ 64" by (simp add: opticalSectorSize_def)
  then show ?thesis by (subst unat_mult_lem [THEN iffD1]) (simp_all add: opticalSectorSize_def)
qed

lemma unat_virtual_sectors [nat_of_word]: "unat (u64_of (x :: u16) * 512) = unat x * 512"
proof -
  have "unat x < 2 ^ 16" using unsigned_less [of x] by simp
  then have "unat (u64_of x) * unat (512 :: u64) < 2 ^ 64" by simp
  then show ?thesis by (subst unat_mult_lem [THEN iffD1]) simp_all
qed

text \<open>
  The extent of an image at an address: a declared count of more than one sector is taken as it is; a
  smaller one grows to the next boot image or the end of the volume, where that is 8 MiB away.
\<close>

definition extent_rule :: "u32 \<Rightarrow> u32 list \<Rightarrow> u32 \<Rightarrow> u16 \<Rightarrow> nat \<Rightarrow> bool \<Rightarrow> u32 \<Rightarrow> bool" where
  "extent_rule volume starts lba sectors len expanded stop \<longleftrightarrow>
     (if expanded
      then unat sectors \<le> 1 \<and> len = (unat stop - unat lba) * 2048 \<and> unat lba + 0x1000 \<le> unat stop
        \<and> (stop = volume \<or> stop \<in> set starts) \<and> list_all (\<lambda>s. s \<le> lba \<or> stop \<le> s) starts
      else len = unat sectors * 512
        \<and> (unat sectors \<le> 1 \<longrightarrow> list_ex (\<lambda>s. lba < s \<and> unat s < unat lba + 0x1000) (volume # starts)))"

lemma image_extent_rule:
  assumes "image_extent volume c starts = Inr (len, stop, expanded)" "be_imageLBA c < volume"
  shows "extent_rule volume starts (be_imageLBA c) (be_sectorCount c) (unat len) expanded stop"
proof (cases "be_sectorCount c \<le> 1")
  case False
  then have "1 < unat (be_sectorCount c)" by (simp add: word_le_nat_alt)
  with False assms(1) show ?thesis by (auto simp: image_extent_def extent_rule_def unat_virtual_sectors)
next
  case True
  then have u: "unat (be_sectorCount c) \<le> 1" by (simp add: word_le_nat_alt)
  let ?n = "next_lba volume (be_imageLBA c) starts"
  note b = next_lba_bounds [of volume "be_imageLBA c" starts]
  then have l: "be_imageLBA c < ?n" using assms(2) by blast
  then have g: "unat (?n - be_imageLBA c) = unat ?n - unat (be_imageLBA c)" "unat (be_imageLBA c) < unat ?n"
    by (simp_all add: unat_sub [OF less_imp_le] word_less_nat_alt)
  have e: "image_extent volume c starts = (if elToritoAutoExpandMinimumLBAs \<le> u64_of (?n - be_imageLBA c)
      then Inr (u64_of (?n - be_imageLBA c) * opticalSectorSize, ?n, True) else Inr (u64_of (be_sectorCount c) * 512, 0, False))"
    using True l by (auto simp: image_extent_def Let_def)
  have m: "elToritoAutoExpandMinimumLBAs \<le> u64_of (?n - be_imageLBA c) \<longleftrightarrow> unat (be_imageLBA c) + 0x1000 \<le> unat ?n"
    using g by (simp add: elToritoAutoExpandMinimumLBAs_def word_le_nat_alt) linarith
  show ?thesis
  proof (cases "unat (be_imageLBA c) + 0x1000 \<le> unat ?n")
    case True
    then have "len = u64_of (?n - be_imageLBA c) * opticalSectorSize" "stop = ?n" expanded using assms(1) e m by auto
    moreover have "list_all (\<lambda>s. s \<le> be_imageLBA c \<or> ?n \<le> s) starts" using b by (auto simp: list_all_iff not_le)
    ultimately show ?thesis using True u g b by (simp add: extent_rule_def unat_sector_offset)
  next
    case False
    then have "len = u64_of (be_sectorCount c) * 512" "\<not> expanded" using assms(1) e m by auto
    then show ?thesis using False l b by (auto simp: extent_rule_def unat_virtual_sectors list_ex_iff not_le)
  qed
qed

text \<open>What the plan says of its image.\<close>

definition image_in_volume :: "ElToritoUEFIImagePlan \<Rightarrow> u32 list \<Rightarrow> int \<Rightarrow> bool" where
  "image_in_volume p starts src_size \<longleftrightarrow>
     0 < unat (et_ImageLBA p) \<and> unat (et_ImageOffset p) = unat (et_ImageLBA p) * 2048 \<and> 0 < unat (et_ImageLength p)
     \<and> unat (et_ImageOffset p) + unat (et_ImageLength p) \<le> unat (et_VolumeSpaceSectors p) * 2048
     \<and> unat (et_VolumeSpaceSectors p) * 2048 \<le> nat src_size
     \<and> extent_rule (et_VolumeSpaceSectors p) starts (et_ImageLBA p) (et_DeclaredVirtualSectors p) (unat (et_ImageLength p))
         (et_AutoExpandedSmallSectorCount p) (et_ExpansionEndLBA p)"

definition describes :: "ElToritoUEFIImagePlan \<Rightarrow> elToritoBootEntry \<Rightarrow> bool" where
  "describes p e \<longleftrightarrow> et_EntryIndex p = be_index e \<and> et_PlatformID p = be_platform e \<and> et_MediaType p = be_mediaType e
     \<and> et_LoadSegment p = be_loadSegment e \<and> et_SystemType p = be_systemType e
     \<and> et_DeclaredVirtualSectors p = be_sectorCount e \<and> et_ImageLBA p = be_imageLBA e"

lemma plan_extent_bounds:
  assumes "plan_extent volume src_size c starts = Inr (off, len, stop, expanded)"
  shows "0 < unat (be_imageLBA c)" "unat off = unat (be_imageLBA c) * 2048" "0 < unat len"
    "unat off + unat len \<le> unat volume * 2048" "unat volume * 2048 \<le> unat src_size"
    "extent_rule volume starts (be_imageLBA c) (be_sectorCount c) (unat len) expanded stop"
proof -
  let ?o = "u64_of (be_imageLBA c) * opticalSectorSize" and ?v = "u64_of volume * opticalSectorSize"
  from assms have a: "\<not> src_size < ?v" "be_imageLBA c \<noteq> 0" "\<not> ?v \<le> ?o" "off = ?o" "len \<noteq> 0" "\<not> ?o + len < ?o" "\<not> ?v < ?o + len"
      "image_extent volume c starts = Inr (len, stop, expanded)"
    by (auto simp: plan_extent_def Let_def bindE_eq_Inr split: if_splits)
  then show "0 < unat (be_imageLBA c)" "unat off = unat (be_imageLBA c) * 2048" "0 < unat len"
    by (simp_all add: unat_sector_offset unat_gt_0)
  have "unat (?o + len) = unat ?o + unat len" using a(6) by (simp add: not_less unat_plus_simple)
  then show "unat off + unat len \<le> unat volume * 2048" using a(4,7) by (simp add: word_less_nat_alt unat_sector_offset not_less)
  show "unat volume * 2048 \<le> unat src_size" using a(1) by (simp add: word_less_nat_alt unat_sector_offset not_less)
  have "be_imageLBA c < volume" using a(3) by (simp add: word_le_nat_alt word_less_nat_alt unat_sector_offset not_le)
  then show "extent_rule volume starts (be_imageLBA c) (be_sectorCount c) (unat len) expanded stop"
    by (rule image_extent_rule [OF a(8)])
qed

section \<open>The plan\<close>

lemma exact_read:
  assumes "readElToritoExact reader n off src_size label w = (Inr d, w1)"
  shows "length d = n \<and> (\<exists>err. reader n off w = ((d, err), w1))"
  using assms by (auto simp: readElToritoExact_def Let_def split: if_splits prod.splits option.splits)

lemma plan_inversion:
  assumes "PlanElToritoUEFIImage (Some ctx) (Some reader) src_size w = (Inr p, w1)"
  shows "\<exists>volume lba catalog c starts off len stop expanded digest w2 w3 w4. 0 < src_size
    \<and> ctx w = (None, w4) \<and> locateElToritoCatalog reader (of_int src_size) w4 = (Inr (volume, lba), w2)
    \<and> read_catalog reader lba (of_int src_size) ''boot catalog'' w2 = (Inr catalog, w3)
    \<and> selectElToritoUEFIEntry catalog = Inr (c, starts)
    \<and> plan_extent volume (of_int src_size) c starts = Inr (off, len, stop, expanded)
    \<and> hashElToritoRange ctx reader off len w3 = (Inr digest, w1)
    \<and> p = el_torito_plan (of_int src_size) volume lba catalog c (off, len, stop, expanded) digest"
  using assms
  by (auto simp: PlanElToritoUEFIImage_def result_simps split: if_splits prod.splits)

lemma el_torito_plan_sel:
  fixes src_size volume lba catalog c off len stop expanded digest
  defines "p \<equiv> el_torito_plan src_size volume lba catalog c (off, len, stop, expanded) digest"
  shows "et_VolumeSpaceSectors p = volume" "et_CatalogLBA p = lba" "et_CatalogSHA256 p = hex_encode (sha256 catalog)"
    "et_ImageOffset p = off" "et_ImageLength p = len" "et_AutoExpandedSmallSectorCount p = expanded" "et_ExpansionEndLBA p = stop"
    "et_ImageSHA256 p = hex_encode digest" "describes p c" "et_ImageLBA p = be_imageLBA c" "et_DeclaredVirtualSectors p = be_sectorCount c"
  by (simp_all add: p_def el_torito_plan_def Let_def describes_def)

definition source_length :: "int \<Rightarrow> bool" where "source_length n \<longleftrightarrow> n < 2 ^ 63"

lemma source_size:
  assumes "0 < n" "n < 2 ^ 63"
  shows "unat (of_int n :: u64) = nat n"
proof -
  have "uint (of_int n :: u64) = n" using assms by (simp add: uint_word_of_int_eq take_bit_int_eq_self)
  then show ?thesis by (simp add: unat_eq_nat_uint)
qed

lemma plan_sound:
  assumes "PlanElToritoUEFIImage (Some ctx) (Some reader) src_size w = (Inr p, w1)" "source_length src_size"
  shows "\<exists>catalog es e. length catalog = 2048 \<and> et_CatalogSHA256 p = hex_encode (sha256 catalog)
    \<and> (\<exists>w2 w3 err. reader 2048 (u64_of (et_CatalogLBA p) * opticalSectorSize) w2 = ((catalog, err), w3))
    \<and> catalog_entries catalog es \<and> list_all (acceptable catalog) es
    \<and> filter (efi_bootable catalog) es = [e] \<and> describes p (entry_at catalog e) \<and> et_PlatformID p = elToritoPlatformEFI \<and> et_MediaType p = 0
    \<and> image_in_volume p (map (\<lambda>e. be_imageLBA (entry_at catalog e)) (filter (bootable catalog) es)) src_size"
proof -
  obtain volume lba catalog c starts off len stop expanded digest w2 w3 where i: "0 < src_size"
      "read_catalog reader lba (of_int src_size) ''boot catalog'' w2 = (Inr catalog, w3)"
      "selectElToritoUEFIEntry catalog = Inr (c, starts)"
      "plan_extent volume (of_int src_size) c starts = Inr (off, len, stop, expanded)"
      and p: "p = el_torito_plan (of_int src_size) volume lba catalog c (off, len, stop, expanded) digest"
    using plan_inversion [OF assms(1)] by blast
  note sel = el_torito_plan_sel [of "of_int src_size" volume lba catalog c off len stop expanded digest, folded p]
  obtain err where r: "length catalog = 2048" "reader 2048 (u64_of lba * opticalSectorSize) w2 = ((catalog, err), w3)"
    using exact_read [OF i(2) [unfolded read_catalog_def]] by blast
  obtain es where es: "catalog_entries catalog es" "list_all (acceptable catalog) es" "gathered catalog es = ([c], starts)"
    using selection_exact [OF r(1)] i(3) by blast
  then obtain e where e: "filter (efi_bootable catalog) es = [e]" "entry_at catalog e = c"
    by (auto simp: gathered_def)
  have "e \<in> set es" "efi_bootable catalog e" using filter_eq_ConsD [OF e(1)] by auto
  then have m: "be_platform c = elToritoPlatformEFI" "be_mediaType c = 0"
    using es(2) e(2) by (auto simp: list_all_iff acceptable_def efi_bootable_def bootable_def entry_at_def boot_entry_of_def)
  have "unat (of_int src_size :: u64) = nat src_size"
    using assms(2) i(1) by (simp add: source_length_def source_size)
  then have "image_in_volume p starts src_size"
    using plan_extent_bounds [OF i(4)] by (simp add: image_in_volume_def sel)
  moreover have "starts = map (\<lambda>e. be_imageLBA (entry_at catalog e)) (filter (bootable catalog) es)" using es(3) by (simp add: gathered_def)
  ultimately have "image_in_volume p (map (\<lambda>e. be_imageLBA (entry_at catalog e)) (filter (bootable catalog) es)) src_size" by simp
  moreover have "et_PlatformID p = elToritoPlatformEFI" "et_MediaType p = 0" using sel(9) m by (simp_all add: describes_def)
  moreover have "\<exists>w2 w3 err. reader 2048 (u64_of (et_CatalogLBA p) * opticalSectorSize) w2 = ((catalog, err), w3)" using r(2) sel(2) by auto
  moreover have "describes p (entry_at catalog e)" using sel(9) e(2) by simp
  ultimately show ?thesis using r(1) es(1,2) e(1) sel(3) by blast
qed

end
