(* ===== verification/IsoCopy.thy ===== *)
theory IsoCopy
  imports IsoPlan
begin

text \<open>
  \<open>internal/imaging/el_torito.go\<close>: what an extraction leaves at its writer. A source may change while it is
  read; then an extraction that succeeds has still written the planned image. On a source
  that does not change and with a writer that works, every planned image is extracted.
\<close>

section \<open>The contracts\<close>

text \<open>A source that keeps its contents while it is read, with \<open>io.EOF\<close> at most beside a full read.\<close>

locale stable_image =
  fixes ctx :: "'w poll" and reader :: "'w read_at" and contents :: "'w \<Rightarrow> bytes"
  assumes ctx_contents: "act_keeps contents ctx" and reader_contents: "act_keeps contents (reader n off)"
    and reads: "unat off + n \<le> length (contents w) \<Longrightarrow> fst (reader n off w) = (d, err)
      \<Longrightarrow> d = take n (drop (unat off) (contents w)) \<and> (err = None \<or> err = Some EOF)"

text \<open>A destination that appends the bytes of a write that reports all of them.\<close>

locale byte_sink =
  fixes ctx :: "'w poll" and reader :: "'w read_at" and writer :: "'w byte_writer" and sink :: "'w \<Rightarrow> bytes"
  assumes ctx_sink: "act_keeps sink ctx" and reader_sink: "act_keeps sink (reader n off)"
    and writes: "writer d w = ((length d, None), w1) \<Longrightarrow> sink w1 = sink w @ d"

locale working_copy = stable_image ctx reader contents + byte_sink ctx reader writer sink
  for ctx :: "'w poll" and reader :: "'w read_at" and writer :: "'w byte_writer"
    and contents :: "'w \<Rightarrow> bytes" and sink :: "'w \<Rightarrow> bytes" +
  assumes not_cancelled: "fst (ctx w) = None" and writer_contents: "act_keeps contents (writer d)"
    and writer_full: "fst (writer d w) = (length d, None)"

section \<open>What the calls keep\<close>

lemma exact_keeps:
  assumes "\<And>n off. act_keeps v (reader n off)"
  shows "act_keeps v (readElToritoExact reader n off sz label)"
  unfolding act_keeps_def
proof
  fix w
  obtain d err w1 where r: "reader n off w = ((d, err), w1)" by (metis surj_pair)
  then have "v w1 = v w" by (rule act_keepsD [OF assms])
  then show "v (snd (readElToritoExact reader n off sz label w)) = v w"
    by (cases err) (auto simp: readElToritoExact_def Let_def r)
qed

lemma locate_keeps:
  assumes "\<And>n off. act_keeps v (reader n off)"
  shows "act_keeps v (locateElToritoCatalog reader sz)"
proof -
  have k: "v (snd (locate_loop reader sz sectors st w)) = v w" for sectors st w
  proof (induction sectors arbitrary: st w)
    case (Cons s sectors)
    let ?o = "of_nat s * opticalSectorSize" and ?l = "''volume descriptor '' @ decimal (of_nat s)"
    obtain r w1 where r: "readElToritoExact reader 2048 ?o sz ?l w = (r, w1)" by fastforce
    then have "v w1 = v w" by (rule act_keepsD [OF exact_keeps [OF assms]])
    then show ?case using Cons.IH
      by (auto simp: Let_def r [simplified] split: sum.splits)
  qed simp
  show ?thesis unfolding locateElToritoCatalog_def
    by (intro act_keeps_bind act_keeps_pure) (simp only: act_keeps_def k simp_thms)
qed

lemma copy_step:
  assumes "copy_range_loop ctx reader writer off len dn acc w = (Inr r, w1)"
  obtains "len \<le> dn" "r = acc" "w1 = w"
  | d err wa wb wc where "dn < len" "ctx w = (None, wa)"
    "reader (min elToritoHashBufferSize (len - dn)) (off + of_nat dn) wa = ((d, err), wb)"
    "length d = min elToritoHashBufferSize (len - dn)" "writer d wb = ((length d, None), wc)"
    "copy_range_loop ctx reader writer off len (dn + length d) (acc @ d) wc = (Inr r, w1)"
proof (cases "len \<le> dn")
  case True
  then show thesis using that(1) assms by (subst (asm) copy_range_loop.simps) simp
next
  case False
  then show thesis using that(2) assms
    by (subst (asm) copy_range_loop.simps) (auto simp: Let_def split: prod.splits option.splits if_splits)
qed

lemma copy_keeps:
  assumes "act_keeps v ctx" "\<And>n off. act_keeps v (reader n off)" "\<And>d. act_keeps v (writer d)"
  shows "copy_range_loop ctx reader writer off len dn acc w = (Inr r, w1) \<Longrightarrow> v w1 = v w"
proof (induction "len - dn" arbitrary: dn acc w rule: less_induct)
  case less
  from less.prems show ?case
  proof (cases rule: copy_step)
    case (2 d err wa wb wc)
    have "len - (dn + length d) < len - dn" using 2(1,4) by (simp add: elToritoHashBufferSize_def)
    from less.hyps [OF this 2(6)] show ?thesis
      using act_keepsD [OF assms(1) 2(2)] act_keepsD [OF assms(2) 2(3)] act_keepsD [OF assms(3) 2(5)] by simp
  qed simp
qed

context byte_sink
begin

lemma copy_written:
  "copy_range_loop ctx reader writer off len dn acc w = (Inr r, w1) \<Longrightarrow> dn \<le> len
   \<Longrightarrow> \<exists>d. r = acc @ d \<and> length d = len - dn \<and> sink w1 = sink w @ d"
proof (induction "len - dn" arbitrary: dn acc w rule: less_induct)
  case less
  from less.prems(1) show ?case
  proof (cases rule: copy_step)
    case (2 d err wa wb wc)
    have m: "len - (dn + length d) < len - dn" "dn + length d \<le> len" using 2(1,4) by (simp_all add: elToritoHashBufferSize_def)
    obtain x where "r = (acc @ d) @ x" "length x = len - (dn + length d)" "sink w1 = sink wc @ x"
      using less.hyps [OF m(1) 2(6) m(2)] by blast
    moreover have "sink wc = sink w @ d"
      using act_keepsD [OF ctx_sink 2(2)] act_keepsD [OF reader_sink 2(3)] writes [OF 2(5)] by simp
    ultimately have "r = acc @ d @ x \<and> length (d @ x) = len - dn \<and> sink w1 = sink w @ d @ x" using m by simp
    then show ?thesis by blast
  qed (use less.prems in auto)
qed

end

context stable_image
begin

lemma copy_contents:
  assumes "\<And>d. act_keeps contents (writer d)" "unat off + len \<le> length (contents w)" "length (contents w) < 2 ^ 63"
  shows "copy_range_loop ctx reader writer off len dn acc w = (Inr r, w1) \<Longrightarrow> dn \<le> len
    \<Longrightarrow> r = acc @ take (len - dn) (drop (unat off + dn) (contents w)) \<and> contents w1 = contents w"
  using assms(2,3)
proof (induction "len - dn" arbitrary: dn acc w rule: less_induct)
  case less
  from less.prems(1) show ?case
  proof (cases rule: copy_step)
    case (2 d err wa wb wc)
    have m: "len - (dn + length d) < len - dn" "dn + length d \<le> len" using 2(1,4) by (simp_all add: elToritoHashBufferSize_def)
    have a: "contents wa = contents w" "contents wb = contents w" "contents wc = contents w"
      using act_keepsD [OF ctx_contents 2(2)] act_keepsD [OF reader_contents 2(3)] act_keepsD [OF assms(1) 2(5)] by simp_all
    have o: "unat (off + of_nat dn) = unat off + dn"
      using less.prems(3,4) 2(1) by (simp add: unat_plus_64 unat_of_nat_64)
    have "unat (off + of_nat dn) + min elToritoHashBufferSize (len - dn) \<le> length (contents wa)"
      using less.prems(3) m 2(4) by (simp add: o a)
    from reads [OF this] 2(3,4) have d: "d = take (length d) (drop (unat off + dn) (contents w))" by (simp add: o a)
    have "r = (acc @ d) @ take (len - (dn + length d)) (drop (unat off + (dn + length d)) (contents wc)) \<and> contents w1 = contents wc"
      using less.hyps [OF m(1) 2(6) m(2)] less.prems(3,4) by (simp add: a)
    moreover have "take (len - dn) (drop (unat off + dn) (contents w))
        = d @ take (len - (dn + length d)) (drop (unat off + (dn + length d)) (contents w))"
      using m(2) d take_add [of "length d" "len - (dn + length d)" "drop (unat off + dn) (contents w)"]
      by (simp add: add.commute add.left_commute)
    ultimately show ?thesis by (simp add: a)
  qed (use less.prems in auto)
qed

end

section \<open>Extraction\<close>

lemma extraction_inversion:
  assumes "ExtractElToritoUEFIImage (Some ctx) (Some reader) src_size (Some writer) w = (Inr p, w1)"
  shows "\<exists>digest catalog w2 w3. PlanElToritoUEFIImage (Some ctx) (Some reader) src_size w = (Inr p, w2)
    \<and> copyElToritoRange ctx reader writer (et_ImageOffset p) (et_ImageLength p) w2 = (Inr digest, w3)
    \<and> Some digest = hex_decode (et_ImageSHA256 p)
    \<and> read_catalog reader (et_CatalogLBA p) (of_int src_size) ''boot catalog after extraction'' w3 = (Inr catalog, w1)
    \<and> Some (sha256 catalog) = hex_decode (et_CatalogSHA256 p)"
  using assms by (auto simp: ExtractElToritoUEFIImage_def result_simps split: if_splits)

lemma copy_inversion:
  "copyElToritoRange ctx reader writer off len w = (Inr digest, w1) \<longleftrightarrow>
    (\<exists>w2 d. ctx w = (None, w2) \<and> copy_range_loop ctx reader writer off (unat len) 0 [] w2 = (Inr d, w1) \<and> digest = sha256 d)"
  by (auto simp: copyElToritoRange_def result_simps)

lemma plan_keeps:
  assumes k: "act_keeps v ctx" "\<And>n off. act_keeps v (reader n off)"
    and p: "PlanElToritoUEFIImage (Some ctx) (Some reader) src_size w = (Inr p, w1)"
  shows "v w1 = v w"
proof -
  obtain volume lba catalog c starts off len stop expanded digest w2 w3 w4 where i: "ctx w = (None, w4)"
      "locateElToritoCatalog reader (of_int src_size) w4 = (Inr (volume, lba), w2)"
      "read_catalog reader lba (of_int src_size) ''boot catalog'' w2 = (Inr catalog, w3)"
      "hashElToritoRange ctx reader off len w3 = (Inr digest, w1)"
    using plan_inversion [OF p] by blast
  obtain w5 d where h: "ctx w3 = (None, w5)" "copy_range_loop ctx reader discard off (unat len) 0 [] w5 = (Inr d, w1)"
    using i(4) by (auto simp: hashElToritoRange_def copy_inversion)
  have "v w1 = v w5" by (rule copy_keeps [OF k _ h(2)]) (simp add: act_keeps_def discard_def)
  then show ?thesis
    using act_keepsD [OF k(1) i(1)] act_keepsD [OF locate_keeps [OF k(2)] i(2)] act_keepsD [OF exact_keeps [OF k(2)] i(3) [unfolded read_catalog_def]]
      act_keepsD [OF k(1) h(1)] by simp
qed

lemma plan_digests:
  assumes "PlanElToritoUEFIImage (Some ctx) (Some reader) src_size w = (Inr p, w1)"
  shows "\<exists>d c. hex_decode (et_ImageSHA256 p) = Some d \<and> hex_encode d = et_ImageSHA256 p
    \<and> hex_decode (et_CatalogSHA256 p) = Some c \<and> hex_encode c = et_CatalogSHA256 p"
  using plan_inversion [OF assms] by (auto simp: el_torito_plan_sel hex_decode_encode)

lemma exact_bound:
  assumes "readElToritoExact reader 2048 off sz label w = (Inr d, w1)"
  shows "unat off + 2048 \<le> unat sz"
proof -
  from assms have a: "\<not> off + 2048 < off" "\<not> sz < off + 2048" by (auto simp: readElToritoExact_def Let_def split: if_splits)
  then have "unat (off + 2048) = unat off + 2048" using unat_plus_simple [of off 2048] by (simp add: not_less)
  with a(2) show ?thesis by (simp add: word_less_nat_alt not_less)
qed

context byte_sink
begin

lemma extraction_written:
  assumes "ExtractElToritoUEFIImage (Some ctx) (Some reader) src_size (Some writer) w = (Inr p, w1)"
  shows "\<exists>image w2. PlanElToritoUEFIImage (Some ctx) (Some reader) src_size w = (Inr p, w2)
    \<and> sink w1 = sink w @ image \<and> length image = unat (et_ImageLength p) \<and> hex_encode (sha256 image) = et_ImageSHA256 p"
proof -
  obtain digest catalog w2 w3 where i: "PlanElToritoUEFIImage (Some ctx) (Some reader) src_size w = (Inr p, w2)"
      "copyElToritoRange ctx reader writer (et_ImageOffset p) (et_ImageLength p) w2 = (Inr digest, w3)"
      "Some digest = hex_decode (et_ImageSHA256 p)"
      "read_catalog reader (et_CatalogLBA p) (of_int src_size) ''boot catalog after extraction'' w3 = (Inr catalog, w1)"
    using extraction_inversion [OF assms] by blast
  obtain w4 d where c: "ctx w2 = (None, w4)" "digest = sha256 d"
      "copy_range_loop ctx reader writer (et_ImageOffset p) (unat (et_ImageLength p)) 0 [] w4 = (Inr d, w3)"
    using i(2) by (auto simp: copy_inversion)
  have d: "length d = unat (et_ImageLength p)" "sink w3 = sink w4 @ d" using copy_written [OF c(3)] by auto
  have "sink w1 = sink w @ d"
    using d(2) act_keepsD [OF ctx_sink c(1)] plan_keeps [OF ctx_sink reader_sink i(1)]
      act_keepsD [OF exact_keeps [OF reader_sink] i(4) [unfolded read_catalog_def]] by simp
  moreover have "hex_encode (sha256 d) = et_ImageSHA256 p" using plan_digests [OF i(1)] i(3) c(2) by auto
  ultimately show ?thesis using i(1) d(1) by blast
qed

end

context stable_image
begin

lemma exact_read_stable:
  assumes "unat off + n \<le> length (contents w)" "length (contents w) = unat sz"
  shows "fst (readElToritoExact reader n off sz label w) = Inr (take n (drop (unat off) (contents w)))"
proof -
  obtain d err w1 where r: "reader n off w = ((d, err), w1)" by (metis surj_pair)
  from reads [OF assms(1)] r have d: "d = take n (drop (unat off) (contents w))" "err = None \<or> err = Some EOF" by simp_all
  have b: "unat sz < 2 ^ 64" using unsigned_less [of sz] by simp
  then have "n < 2 ^ 64" using assms by simp
  then have "unat (off + of_nat n) = unat off + n" using assms b by (simp add: unat_plus_64 unat_of_nat_64)
  then have e: "\<not> off + of_nat n < off" "\<not> sz < off + of_nat n" using assms by (simp_all add: word_less_nat_alt)
  have "length d = n" using d(1) assms(1) by simp
  then show ?thesis unfolding readElToritoExact_def Let_def using e r d by auto
qed

lemma planned_contents:
  assumes p: "PlanElToritoUEFIImage (Some ctx) (Some reader) src_size w = (Inr p, w1)"
    and n: "int (length (contents w)) = src_size" "source_length src_size"
  shows "contents w1 = contents w" "unat (et_ImageOffset p) + unat (et_ImageLength p) \<le> length (contents w)"
    "et_ImageSHA256 p = hex_encode (sha256 (take (unat (et_ImageLength p)) (drop (unat (et_ImageOffset p)) (contents w))))"
    "unat (u64_of (et_CatalogLBA p) * opticalSectorSize) + 2048 \<le> length (contents w)"
    "et_CatalogSHA256 p = hex_encode (sha256 (take 2048 (drop (unat (u64_of (et_CatalogLBA p) * opticalSectorSize)) (contents w))))"
proof -
  obtain volume lba catalog c starts off len stop expanded digest w2 w3 w4 where i: "0 < src_size" "ctx w = (None, w4)"
      "locateElToritoCatalog reader (of_int src_size) w4 = (Inr (volume, lba), w2)"
      "read_catalog reader lba (of_int src_size) ''boot catalog'' w2 = (Inr catalog, w3)"
      "plan_extent volume (of_int src_size) c starts = Inr (off, len, stop, expanded)"
      "hashElToritoRange ctx reader off len w3 = (Inr digest, w1)"
      and p: "p = el_torito_plan (of_int src_size) volume lba catalog c (off, len, stop, expanded) digest"
    using plan_inversion [OF p] by blast
  note sel = el_torito_plan_sel [of "of_int src_size" volume lba catalog c off len stop expanded digest, folded p]
  have sz: "unat (of_int src_size :: u64) = nat src_size" "length (contents w) = nat src_size" "length (contents w) < 2 ^ 63"
    using i(1) n source_size [of src_size] by (auto simp: source_length_def)
  have k: "contents w2 = contents w" "contents w3 = contents w"
    using act_keepsD [OF ctx_contents i(2)] act_keepsD [OF locate_keeps [OF reader_contents] i(3)]
      act_keepsD [OF exact_keeps [OF reader_contents] i(4) [unfolded read_catalog_def]] by simp_all
  show o: "unat (et_ImageOffset p) + unat (et_ImageLength p) \<le> length (contents w)"
    using plan_extent_bounds [OF i(5)] by (simp add: sel sz)
  obtain w5 d where h: "ctx w3 = (None, w5)" "copy_range_loop ctx reader discard off (unat len) 0 [] w5 = (Inr d, w1)" "digest = sha256 d"
    using i(6) by (auto simp: hashElToritoRange_def copy_inversion)
  have "contents w5 = contents w" using act_keepsD [OF ctx_contents h(1)] k by simp
  moreover have "\<And>d. act_keeps contents (discard d)" by (simp add: act_keeps_def discard_def)
  ultimately have "d = take (unat len) (drop (unat off) (contents w)) \<and> contents w1 = contents w"
    using copy_contents [OF _ _ _ h(2)] o sz(3) by (simp add: sel)
  then show "contents w1 = contents w"
    "et_ImageSHA256 p = hex_encode (sha256 (take (unat (et_ImageLength p)) (drop (unat (et_ImageOffset p)) (contents w))))"
    using h(3) by (simp_all add: sel)
  show b: "unat (u64_of (et_CatalogLBA p) * opticalSectorSize) + 2048 \<le> length (contents w)"
    using exact_bound [OF i(4) [unfolded read_catalog_def]] by (simp add: sel sz)
  have "length (contents w2) = unat (of_int src_size :: u64)" using k sz by simp
  from exact_read_stable [OF _ this, of "u64_of lba * opticalSectorSize" 2048 "''boot catalog''"] b i(4)
  have "catalog = take 2048 (drop (unat (u64_of lba * opticalSectorSize)) (contents w))"
    by (simp add: sel k read_catalog_def)
  then show "et_CatalogSHA256 p = hex_encode (sha256 (take 2048 (drop (unat (u64_of (et_CatalogLBA p) * opticalSectorSize)) (contents w))))"
    by (simp add: sel)
qed

end

context working_copy
begin

lemma copy_completes:
  assumes "unat off + len \<le> length (contents w)" "length (contents w) < 2 ^ 63"
  shows "\<exists>r w1. copy_range_loop ctx reader writer off len dn acc w = (Inr r, w1)"
  using assms
proof (induction "len - dn" arbitrary: dn acc w rule: less_induct)
  case less
  show ?case
  proof (cases "len \<le> dn")
    case True
    then show ?thesis by (subst copy_range_loop.simps) simp
  next
    case False
    let ?k = "min elToritoHashBufferSize (len - dn)"
    obtain wa where a: "ctx w = (None, wa)" using not_cancelled [of w] by (metis prod.collapse)
    obtain d err wb where b: "reader ?k (off + of_nat dn) wa = ((d, err), wb)" by (metis surj_pair)
    obtain wc where c: "writer d wb = ((length d, None), wc)" using writer_full [of d wb] by (metis prod.collapse)
    have e: "contents wa = contents w" "contents wc = contents w"
      using act_keepsD [OF ctx_contents a] act_keepsD [OF reader_contents b] act_keepsD [OF writer_contents c] by simp_all
    have "unat (off + of_nat dn) = unat off + dn" using less.prems False by (simp add: unat_plus_64 unat_of_nat_64)
    then have "unat (off + of_nat dn) + ?k \<le> length (contents wa)" using less.prems(1) False by (simp add: e)
    from reads [OF this] b have d: "length d = ?k" "err = None \<or> err = Some EOF" 
      using \<open>unat (off + of_nat dn) + ?k \<le> length (contents wa)\<close> by simp_all
    have "len - (dn + ?k) < len - dn" using False by (simp add: elToritoHashBufferSize_def)
    from less.hyps [OF this, of wc "acc @ d"] less.prems d obtain r w1
      where "copy_range_loop ctx reader writer off len (dn + ?k) (acc @ d) wc = (Inr r, w1)" by (auto simp: e)
    then show ?thesis using False a b c d
      by (subst copy_range_loop.simps) (auto simp: Let_def)
  qed
qed

lemma extraction_succeeds:
  assumes p: "PlanElToritoUEFIImage (Some ctx) (Some reader) src_size w = (Inr p, w1)"
    and n: "int (length (contents w)) = src_size" "source_length src_size"
  shows "\<exists>w2. ExtractElToritoUEFIImage (Some ctx) (Some reader) src_size (Some writer) w = (Inr p, w2) \<and> contents w2 = contents w
    \<and> sink w2 = sink w @ take (unat (et_ImageLength p)) (drop (unat (et_ImageOffset p)) (contents w))"
proof -
  let ?image = "take (unat (et_ImageLength p)) (drop (unat (et_ImageOffset p)) (contents w))"
  note c = planned_contents [OF assms]
  have sz: "length (contents w) < 2 ^ 63" using n by (auto simp: source_length_def)
  obtain w2 where x: "ctx w1 = (None, w2)" using not_cancelled [of w1] by (metis prod.collapse)
  have k2: "contents w2 = contents w" using act_keepsD [OF ctx_contents x] c(1) by simp
  then obtain r w3 where r: "copy_range_loop ctx reader writer (et_ImageOffset p) (unat (et_ImageLength p)) 0 [] w2 = (Inr r, w3)"
    using copy_completes [of "et_ImageOffset p" "unat (et_ImageLength p)" w2 0 "[]"] c(2) sz by auto
  have r2: "r = ?image" "contents w3 = contents w"
    using copy_contents [OF writer_contents _ _ r] c(2) sz k2 by simp_all
  obtain t w4 where t: "readElToritoExact reader 2048 (u64_of (et_CatalogLBA p) * opticalSectorSize) (of_int src_size) ''boot catalog after extraction'' w3 = (t, w4)"
    by fastforce
  have "length (contents w3) = unat (of_int src_size :: u64)"
    using n r2 source_size [of src_size] c(4) by (auto simp: source_length_def)
  from exact_read_stable [OF _ this, of "u64_of (et_CatalogLBA p) * opticalSectorSize" 2048 "''boot catalog after extraction''"] c(4) t
  have t2: "t = Inr (take 2048 (drop (unat (u64_of (et_CatalogLBA p) * opticalSectorSize)) (contents w)))" by (simp add: r2)
  have k4: "contents w4 = contents w" using act_keepsD [OF exact_keeps [OF reader_contents] t] r2 by simp
  have e: "ExtractElToritoUEFIImage (Some ctx) (Some reader) src_size (Some writer) w = (Inr p, w4)"
    using p r t t2 r2 c(3,5) x
    by (simp add: ExtractElToritoUEFIImage_def bind_act_def copyElToritoRange_def try_call_def ret_act_def read_catalog_def hex_decode_encode)
  obtain image where "sink w4 = sink w @ image" "length image = unat (et_ImageLength p)" 
    using extraction_written [OF e] by blast
  have "sink w3 = sink w2 @ r" using copy_written [OF r] by auto
  then have "sink w4 = sink w @ ?image"
    using act_keepsD [OF ctx_sink x] plan_keeps [OF ctx_sink reader_sink p] act_keepsD [OF exact_keeps [OF reader_sink] t] r2(1) by simp
  with e k4 show ?thesis by blast
qed

end

end
