(* ===== verification/IsoMemory.thy ===== *)
theory IsoMemory
  imports IsoCopy
begin

text \<open>
  An El Torito source and a destination in memory, the contracts of \<open>IsoCopy\<close> on them, and the properties
  of the planning and the extraction with a sample volume.
\<close>

section \<open>A volume in memory\<close>

text \<open>The world is the contents of the source and the bytes written so far.\<close>

type_synonym iso_world = "bytes \<times> bytes"

definition iso_reader :: "iso_world read_at" where
  "iso_reader n off w = (let d = take n (drop (unat off) (fst w)) in ((d, if length d < n then Some EOF else None), w))"

definition iso_writer :: "iso_world byte_writer" where "iso_writer d w = ((length d, None), (fst w, snd w @ d))"

definition background :: "iso_world poll" where "background w = (None, w)"

interpretation memory_copy: working_copy background iso_reader iso_writer fst snd
  by unfold_locales (auto simp: background_def iso_reader_def iso_writer_def act_keeps_def Let_def)

section \<open>A sample volume\<close>

definition iso_sector :: "bytes \<Rightarrow> bytes" where "iso_sector d = d @ replicate (2048 - length d) 0"

definition volume_head :: "byte \<Rightarrow> bytes" where "volume_head t = [t, 0x43, 0x44, 0x30, 0x30, 0x31, 1]"

definition sample_pvd :: bytes where
  "sample_pvd = iso_sector (volume_head 1 @ replicate 73 0 @ [21, 0, 0, 0, 0, 0, 0, 21])"

definition sample_record :: bytes where
  "sample_record = iso_sector (volume_head 0 @ elToritoSystemID @ replicate 32 0 @ [19, 0, 0, 0])"

definition sample_terminator :: bytes where "sample_terminator = iso_sector (volume_head 255)"

text \<open>The validation entry for EFI and one bootable entry of four virtual sectors at address 20.\<close>

definition sample_catalog :: bytes where
  "sample_catalog = iso_sector ([1, 0xEF, 0, 0] @ replicate 24 0 @ [0xAA, 0x66, 0x55, 0xAA]
     @ [0x88, 0, 0, 0, 0, 0, 4, 0, 20, 0, 0, 0])"

definition iso_boot_image :: bytes where "iso_boot_image = iso_sector [0xEB, 0x58]"

definition sample_iso :: bytes where
  "sample_iso = replicate 32768 0 @ sample_pvd @ sample_record @ sample_terminator @ sample_catalog @ iso_boot_image"

lemma length_elToritoSystemID [simp]: "length elToritoSystemID = 32"
  by (simp add: elToritoSystemID_def string_bytes_def)

lemma iso_lengths [simp]:
  "length sample_pvd = 2048" "length sample_record = 2048" "length sample_terminator = 2048" "length sample_catalog = 2048"
  "length iso_boot_image = 2048" "length sample_iso = 43008"
  by (simp_all add: sample_pvd_def sample_record_def sample_terminator_def sample_catalog_def iso_boot_image_def iso_sector_def
    volume_head_def sample_iso_def)

lemma iso_sectors:
  "take 2048 (drop 32768 sample_iso) = sample_pvd" "take 2048 (drop 34816 sample_iso) = sample_record"
  "take 2048 (drop 36864 sample_iso) = sample_terminator" "take 2048 (drop 38912 sample_iso) = sample_catalog"
  "take 2048 (drop 40960 sample_iso) = iso_boot_image"
  by (simp_all add: sample_iso_def)

lemma iso_exact_read:
  assumes "unat off + n \<le> length c" "length c = unat sz"
  shows "readElToritoExact iso_reader n off sz label (c, s) = (Inr (take n (drop (unat off) c)), (c, s))"
proof -
  have "snd (readElToritoExact iso_reader n off sz label (c, s)) = (c, s)"
    by (simp add: readElToritoExact_def iso_reader_def Let_def)
  with memory_copy.exact_read_stable [of off n "(c, s)" sz label] assms show ?thesis by (simp add: prod_eq_iff)
qed

lemma sample_descriptors:
  "locate_descriptor sample_pvd st = (if cs_foundPVD st \<and> cs_volumeSectors st \<noteq> 21
     then Inl (Msg ''source ISO contains conflicting primary volume descriptors'')
     else Inr (st\<lparr> cs_volumeSectors := 21, cs_foundPVD := True \<rparr>, False))"
  "locate_descriptor sample_record st = (if cs_foundCatalog st \<and> cs_catalogLBA st \<noteq> 19
     then Inl (Msg ''source ISO contains conflicting El Torito boot records'')
     else Inr (st\<lparr> cs_catalogLBA := 19, cs_foundCatalog := True \<rparr>, False))"
  "locate_descriptor sample_terminator st = Inr (st, True)"
proof -
  have h: "string_bytes ''CD001'' = [0x43, 0x44, 0x30, 0x30, 0x31]" by code_simp
  have p: "slice sample_pvd 1 6 = [0x43, 0x44, 0x30, 0x30, 0x31]" "sample_pvd ! 6 = 1" "sample_pvd ! 0 = 1"
      "le32 sample_pvd 80 = 21" "be32 sample_pvd 84 = 21"
    by (simp_all add: sample_pvd_def iso_sector_def volume_head_def slice_def le32_def be32_def get_u32_def le_word.simps)
  show "locate_descriptor sample_pvd st = (if cs_foundPVD st \<and> cs_volumeSectors st \<noteq> 21
     then Inl (Msg ''source ISO contains conflicting primary volume descriptors'')
     else Inr (st\<lparr> cs_volumeSectors := 21, cs_foundPVD := True \<rparr>, False))"
    unfolding locate_descriptor_def h p by simp
  have r: "slice sample_record 1 6 = [0x43, 0x44, 0x30, 0x30, 0x31]" "sample_record ! 6 = 1" "sample_record ! 0 = 0"
      "slice sample_record 7 39 = elToritoSystemID" "le32 sample_record 71 = 19"
    by (simp_all add: sample_record_def iso_sector_def volume_head_def slice_def le32_def get_u32_def le_word.simps)
  show "locate_descriptor sample_record st = (if cs_foundCatalog st \<and> cs_catalogLBA st \<noteq> 19
     then Inl (Msg ''source ISO contains conflicting El Torito boot records'')
     else Inr (st\<lparr> cs_catalogLBA := 19, cs_foundCatalog := True \<rparr>, False))"
    unfolding locate_descriptor_def h r by simp
  have t: "slice sample_terminator 1 6 = [0x43, 0x44, 0x30, 0x30, 0x31]" "sample_terminator ! 6 = 1" "sample_terminator ! 0 = 255"
    by (simp_all add: sample_terminator_def iso_sector_def volume_head_def slice_def)
  show "locate_descriptor sample_terminator st = Inr (st, True)"
    unfolding locate_descriptor_def h t by simp
qed


lemma sample_located:
  "locateElToritoCatalog iso_reader 43008 (sample_iso, s) = (Inr (21, 19), (sample_iso, s))"
proof -
  have r: "readElToritoExact iso_reader 2048 32768 43008 label (sample_iso, s) = (Inr sample_pvd, (sample_iso, s))"
      "readElToritoExact iso_reader 2048 34816 43008 label (sample_iso, s) = (Inr sample_record, (sample_iso, s))"
      "readElToritoExact iso_reader 2048 36864 43008 label (sample_iso, s) = (Inr sample_terminator, (sample_iso, s))" for label
    by (subst iso_exact_read; simp add: iso_sectors)+
  have u: "[16 ..< 65] = 16 # 17 # 18 # [19 ..< 65]" by (simp add: upt_rec)
  show ?thesis
    unfolding locateElToritoCatalog_def u bind_act_def
    by (simp add: r sample_descriptors opticalSectorSize_def Let_def pure_act_def del: upt_Suc)
qed

definition sample_entry :: elToritoBootEntry where
  "sample_entry = \<lparr> be_index = 1, be_platform = 0xEF, be_mediaType = 0, be_loadSegment = 0, be_systemType = 0,
     be_sectorCount = 4, be_imageLBA = 20 \<rparr>"

lemma sample_selected:
  "validateElToritoCatalogHeader (take 32 sample_catalog) = Inr ()"
  "selectElToritoUEFIEntry sample_catalog = Inr (sample_entry, [20])"
proof -
  have h: "take 32 sample_catalog = [1, 0xEF, 0, 0] @ replicate 24 0 @ [0xAA, 0x66, 0x55, 0xAA]"
    by (simp add: sample_catalog_def iso_sector_def)
  show "validateElToritoCatalogHeader (take 32 sample_catalog) = Inr ()" unfolding h by code_simp
  have r: "slice sample_catalog 32 64 = [0x88, 0, 0, 0, 0, 0, 4, 0, 20, 0, 0, 0] @ replicate 20 0" "sample_catalog ! 1 = 0xEF"
    by (simp_all add: sample_catalog_def iso_sector_def slice_def)
  have e: "collectElToritoEntry ([0x88, 0, 0, 0, 0, 0, 4, 0, 20, 0, 0, 0] @ replicate 20 0) 1 0xEF ([], [])
      = Inr ([sample_entry], [20])" by code_simp
  have z: "allZero (catalog_record sample_catalog 2)"
    by (simp add: sample_catalog_def iso_sector_def catalog_record_def slice_def allZero_def list_all_iff)
  have "catalog_sections sample_catalog 2 st = Inr st" for st
    by (subst catalog_sections.simps) (simp add: Let_def z)
  then show "selectElToritoUEFIEntry sample_catalog = Inr (sample_entry, [20])"
    unfolding selectElToritoUEFIEntry_def r e by (simp add: bindE_def)
qed

lemma sample_hashed:
  "hashElToritoRange background iso_reader 40960 2048 (sample_iso, s) = (Inr (sha256 iso_boot_image), (sample_iso, s))"
proof -
  have "iso_reader 2048 40960 (sample_iso, s) = ((iso_boot_image, None), (sample_iso, s))"
    by (simp add: iso_reader_def iso_sectors)
  then have "copy_range_loop background iso_reader discard 40960 2048 0 [] (sample_iso, s) = (Inr iso_boot_image, (sample_iso, s))"
    by (subst copy_range_loop.simps) (simp add: Let_def background_def discard_def elToritoHashBufferSize_def copy_range_loop.simps)
  then show ?thesis by (simp add: hashElToritoRange_def copy_inversion background_def)
qed

definition sample_plan :: ElToritoUEFIImagePlan where
  "sample_plan = el_torito_plan 43008 21 19 sample_catalog sample_entry (40960, 2048, 0, False) (sha256 iso_boot_image)"

lemma sample_planned:
  "PlanElToritoUEFIImage (Some background) (Some iso_reader) 43008 (sample_iso, s) = (Inr sample_plan, (sample_iso, s))"
proof -
  have c: "read_catalog iso_reader 19 43008 label (sample_iso, s) = (Inr sample_catalog, (sample_iso, s))" for label
    unfolding read_catalog_def by (subst iso_exact_read; simp add: iso_sectors opticalSectorSize_def u64_of_def)
  have x: "plan_extent 21 43008 sample_entry [20] = Inr (40960, 2048, 0, False)" by code_simp
  show ?thesis
    using sample_selected sample_hashed
    by (simp add: PlanElToritoUEFIImage_def bind_act_def try_call_def pure_act_def ret_act_def background_def sample_located c x sample_plan_def)
qed

section \<open>Properties\<close>

text \<open>
  C36: A plan describes the one boot image the catalog offers to EFI firmware. The catalog sector it digests was
  read from the planned address, splits into a validation entry, the initial entry and sections whose
  entries are all well-formed, and has exactly one bootable entry for the EFI platform, without emulation, whose fields
  are those of the plan. The image is not empty and lies inside the volume, and the volume inside
  the source; its length is the declared one or, for at most one declared sector, reaches to
  the next boot image or the end of the volume, exactly if that is at least 8 MiB away.
\<close>

theorem el_torito_plan_sound:
  assumes "PlanElToritoUEFIImage (Some ctx) (Some reader) src_size w = (Inr p, w1)" "source_length src_size"
  shows "\<exists>catalog es e. length catalog = 2048 \<and> et_CatalogSHA256 p = hex_encode (sha256 catalog)
    \<and> (\<exists>w2 w3 err. reader 2048 (u64_of (et_CatalogLBA p) * opticalSectorSize) w2 = ((catalog, err), w3))
    \<and> catalog_entries catalog es \<and> list_all (acceptable catalog) es
    \<and> filter (efi_bootable catalog) es = [e] \<and> describes p (entry_at catalog e) \<and> et_PlatformID p = elToritoPlatformEFI \<and> et_MediaType p = 0
    \<and> image_in_volume p (map (\<lambda>e. be_imageLBA (entry_at catalog e)) (filter (bootable catalog) es)) src_size"
  by (rule plan_sound [OF assms])

text \<open>
  C37: An extraction that succeeds has appended to its writer exactly the planned image: as many bytes as
  the plan says, with the digest of the plan, and the plan is the one that planning returns there.
  The source may change at any time.
\<close>

theorem el_torito_extraction_exact:
  assumes "byte_sink ctx reader writer sink"
    and "ExtractElToritoUEFIImage (Some ctx) (Some reader) src_size (Some writer) w = (Inr p, w1)"
  shows "\<exists>image w2. PlanElToritoUEFIImage (Some ctx) (Some reader) src_size w = (Inr p, w2)
    \<and> sink w1 = sink w @ image \<and> length image = unat (et_ImageLength p) \<and> hex_encode (sha256 image) = et_ImageSHA256 p"
  by (rule byte_sink.extraction_written [OF assms])

text \<open>
  C38: On a source that does not change, with a writer that works and a context that is not cancelled,
  every image that can be planned is extracted: the extraction returns the same plan, and the writer
  has received the bytes of the source at the planned offset.
\<close>

theorem el_torito_extraction_succeeds:
  assumes "working_copy ctx reader writer contents sink"
    and "PlanElToritoUEFIImage (Some ctx) (Some reader) src_size w = (Inr p, w1)"
    and "int (length (contents w)) = src_size" "source_length src_size"
  shows "\<exists>w2. ExtractElToritoUEFIImage (Some ctx) (Some reader) src_size (Some writer) w = (Inr p, w2) \<and> contents w2 = contents w
    \<and> sink w2 = sink w @ take (unat (et_ImageLength p)) (drop (unat (et_ImageOffset p)) (contents w))"
  by (rule working_copy.extraction_succeeds [OF assms])

section \<open>Witnesses\<close>

lemma sample_plan_sel: "et_ImageOffset sample_plan = 40960" "et_ImageLength sample_plan = 2048"
    "et_ImageSHA256 sample_plan = hex_encode (sha256 iso_boot_image)" "et_EntryIndex sample_plan = 1" "source_length 43008"
  by (simp_all add: sample_plan_def el_torito_plan_def Let_def sample_entry_def source_length_def)

lemma sample_extracted:
  "\<exists>w2. ExtractElToritoUEFIImage (Some background) (Some iso_reader) 43008 (Some iso_writer) (sample_iso, s) = (Inr sample_plan, w2)"
  using memory_copy.extraction_succeeds [OF sample_planned _ sample_plan_sel(5)] by auto

theorem el_torito_plan_sound_witness:
  "PlanElToritoUEFIImage (Some background) (Some iso_reader) 43008 (sample_iso, []) = (Inr sample_plan, (sample_iso, []))
   \<and> (\<exists>starts. image_in_volume sample_plan starts 43008)"
  using el_torito_plan_sound [OF sample_planned sample_plan_sel(5)] sample_planned by blast

theorem el_torito_extraction_exact_witness:
  "\<exists>w2 image. ExtractElToritoUEFIImage (Some background) (Some iso_reader) 43008 (Some iso_writer) (sample_iso, []) = (Inr sample_plan, w2)
     \<and> snd w2 = image \<and> length image = 2048 \<and> hex_encode (sha256 image) = hex_encode (sha256 iso_boot_image)"
proof -
  obtain w2 where e: "ExtractElToritoUEFIImage (Some background) (Some iso_reader) 43008 (Some iso_writer) (sample_iso, []) = (Inr sample_plan, w2)"
    using sample_extracted by blast
  show ?thesis
    using el_torito_extraction_exact [OF memory_copy.byte_sink_axioms e] e sample_plan_sel by auto
qed

theorem el_torito_extraction_succeeds_witness:
  "\<exists>w2. ExtractElToritoUEFIImage (Some background) (Some iso_reader) 43008 (Some iso_writer) (sample_iso, []) = (Inr sample_plan, w2)
     \<and> snd w2 = iso_boot_image"
  using el_torito_extraction_succeeds [OF memory_copy.working_copy_axioms sample_planned _ sample_plan_sel(5)]
  by (auto simp: sample_plan_sel iso_sectors)

end
