(* ===== verification/Spec2Isabelle.thy ===== *)
theory Spec2Isabelle
  imports FfuOrder SourceFile FfuMemory GptMemory Persistence SecureTree SecureSign BootTree IsoMemory
begin

text \<open>
  A verification development for the Go sources of a tool that writes installation media on Linux:
  Full Flash Update (FFU) images, UEFI:NTFS media, persistence partitions, the qualification of
  USB devices, and the validation of UEFI media against Secure Boot revocations. All file names
  below are relative to \<open>src/internal\<close>.

  \<^bold>\<open>The program.\<close> The command-line programs find a target device (\<open>device\<close>, \<open>safety\<close>), pin a source
  image (\<open>sourcefile\<close>), plan what to write, ask for a confirmation and execute the plan while both the
  source and the target are held open. An FFU image is inspected, its descriptors, hash table and payload are
  planned and verified, the extents are bound to the target and ordered, and a chain of sealed
  capabilities (preflight, leased source, exclusive target, typed confirmation, one-shot mutation
  authorization) leads to the executor. Device qualification writes an address pattern over a
  device and reads it back. The other packages plan and write partition tables, read them back to place a
  persistence partition, edit the boot configurations of a medium, extract the boot
  image of an ISO volume, and check EFI executables.

  \<^bold>\<open>How the code is modelled.\<close> A Go struct is a record with its fields, a sized integer is a word of
  its width (so sums wrap where the code's sums wrap) and \<open>int64\<close>/\<open>int\<close> values are int where the code keeps them small,
  a byte slice is a list of bytes, a string is a char list whose characters are its bytes, an error is a
  value of \<open>go_error\<close> (format string and arguments, so that \<open>errors.Is\<close> is a function on it), and a
  fallible function returns \<open>'a res = go_error + 'a\<close>. Code that calls the system is a function
  on a world \<open>'w\<close>: the calls are the fields of an environment record that is an argument of the
  definitions, \<open>('w, 'a) act\<close> is a call that returns a result and the next world, and the
  contexts that the code polls are such calls as well. A deferred \<open>Close\<close> is written out on every
  path on which Go runs it. Loops whose end depends on the environment are \<open>partial_function (option)\<close>
  definitions, where None means that the loop does not return, and the properties then say that
  it returns; loops over data are total recursions, their termination is a measure on the
  bytes or entries that remain. Three helpers on texts recurse over a bound instead, which always
  suffices: \<open>strip_many\<close> and \<open>decode_runes\<close> over the length of the text, of which every step drops a byte, and
  \<open>digits_rev\<close> over 20, the decimal digits of a 64-bit number (\<open>parse_decimal\<close>).

  \<^bold>\<open>Theories and sources.\<close>
  \<^item> \<open>Prelude\<close>: Go errors, results, actions on a world, \<open>encoding/binary\<close>, \<open>encoding/hex\<close>, the parts of
    \<open>strings\<close> and \<open>path/filepath\<close> that the sources call, sorting, and the collections \<open>result_simps\<close>
    and others that the proofs share; \<open>Sha256\<close>: \<open>crypto/sha256\<close>; \<open>Buffers\<close>: fixed-size buffers
    filled field by field, and UTF-8 and UTF-16; \<open>Extents\<close>: the layout contract of extents on a target.
  \<^item> \<open>FfuInspect\<close>: \<open>ffu/inspect.go\<close>; \<open>FfuPlan\<close>: \<open>ffu/plan_v1.go\<close>; \<open>FfuVerify\<close>: \<open>ffu/hash_table.go\<close>,
    \<open>content_verify.go\<close>; \<open>FfuRestore\<close>: \<open>restore_target_plan_linux.go\<close>, \<open>restore_full_flash_validation_linux.go\<close>;
    \<open>FfuOrder\<close>: \<open>restore_write_order_linux.go\<close>.
  \<^item> \<open>FfuSession\<close>: preflight, source lease, target session, confirmation and mutation authorization
    (\<open>restore_*_linux.go\<close>), with what they guarantee in \<open>FfuCapability\<close>; \<open>FfuExec\<close>: \<open>restore_executor_linux.go\<close>,
    with its contracts and guarantees in \<open>FfuStore\<close> (safety) and \<open>FfuLive\<close> (an authorized run on a
    working device ends verified) and a concrete device in \<open>FfuMemory\<close>.
  \<^item> \<open>PathText\<close>: what trimming and cleaning a rooted path mean; \<open>Target\<close>: \<open>device/device.go\<close>, \<open>safety/safety_linux.go\<close>; \<open>SourceFile\<close>: \<open>sourcefile\<close>.
  \<^item> \<open>DevicePattern\<close>, \<open>DevicePlan\<close>, \<open>DeviceQual\<close>: \<open>devicequal/engine.go\<close>; \<open>DeviceVerify\<close> and \<open>DeviceLive\<close>: what a
    passed run proves, and that a working device passes; \<open>DeviceRun\<close>: \<open>executor_linux.go\<close> and \<open>finalization_linux.go\<close>;
    \<open>DeviceMemory\<close>: devices in memory, honest and aliasing.
  \<^item> \<open>GptLayout\<close>: \<open>uefintfs/layout.go\<close>; \<open>GptTable\<close> and \<open>Persistence\<close>: \<open>persistence/plan.go\<close>; \<open>GptRound\<close>, \<open>GptBack\<close>,
    \<open>GptDevice\<close>, \<open>GptMemory\<close>: the writer against the reader.
  \<^item> \<open>SecureDbx\<close>, \<open>SecureLists\<close>: \<open>secureboot/dbx.go\<close>, \<open>dbx_input_linux.go\<close>; \<open>SecurePe\<close>, \<open>SecureSign\<close>: \<open>pe.go\<close>;
    \<open>SecureSbat\<close>: \<open>sbat_level.go\<close>; \<open>SecureMedia\<close>: \<open>uefi.go\<close>; \<open>SecureTree\<close>: \<open>uefi_descriptor_linux.go\<close>.
  \<^item> \<open>BootConfig\<close>, \<open>BootPatch\<close>: the text part of \<open>persistence/patch.go\<close> and what the edit does to a boot configuration;
    \<open>BootDetect\<close>: \<open>persistence/detect.go\<close>; \<open>BootTree\<close>: the file replacement of \<open>patch.go\<close>.
  \<^item> \<open>IsoBoot\<close>: \<open>imaging/el_torito.go\<close>; \<open>IsoPlan\<close> and \<open>IsoCopy\<close>: what a plan says and what an extraction writes;
    \<open>IsoMemory\<close>: a volume in memory.
  \<^bold>\<open>Interfaces.\<close> Where a component relies on another, the contract is a locale, the client's lemmas are
  proved in it, and it is interpreted on the definitions of the model that provide it.
  \<^item> \<open>less_order\<close> (Prelude): a strict order to sort by; for overlap intervals, extents, mount depths and paths.
  \<^item> \<open>extent_layout\<close> (Extents): extents laid out one after the other; for the write extents of a restore.
  \<^item> \<open>source_file\<close> (FfuVerify): a reader of stable contents, as \<open>io.ReaderAt\<close> documents it.
  \<^item> \<open>descriptor_count\<close> (FfuCapability): calls that open and close one descriptor.
  \<^item> \<open>faithful_reader\<close>, \<open>quiet_store\<close>, \<open>target_store\<close>, \<open>confined_store\<close>, \<open>exact_store\<close> (FfuStore) and \<open>working_store\<close>
    (FfuLive): what the target of an execution does, from weak to strong, with sublocales between
    them; interpreted on the store of \<open>FfuMemory\<close>, whose reads and writes are cut at its end.
  \<^item> \<open>honest_reader\<close> (DeviceVerify), \<open>working_device\<close> (DeviceLive): a device that answers reads from its cells, and
    one that also keeps what is written; interpreted on the devices of \<open>DeviceMemory\<close>.
  \<^item> \<open>readable_target\<close>, \<open>working_target\<close> (GptDevice): the medium of a layout writer, and one that works inside its
    capacity; interpreted on the finite medium of \<open>GptMemory\<close>.
  \<^item> \<open>walk_invariant\<close> (SecureTree): a property every step of the traversal keeps; interpreted for the
    limits and for the origin of the files.
  \<^item> \<open>boot_directory\<close> (BootTree): the names and the files of a directory under the system calls;
    interpreted on the directory in memory \<open>memory_dir\<close>.
  \<^item> \<open>stable_image\<close>, \<open>byte_sink\<close> and \<open>working_copy\<close>, which extends both (IsoCopy): the source and the destination of
    an extraction; interpreted on the volume in memory.
  \<^bold>\<open>What is shown.\<close> The properties carry the ids C1 to C40, in the order of their importance.
  \<^item> Device qualification: on a device that reads honestly a passed run has found every planned byte
    under its own pattern, so a device that folds two addresses together never passes; the run
    returns, covers the device, reports failures where they are, and passes on a working device.
  \<^item> FFU restore: only the authorized bytes change, a verified run has put the authenticated contents on the target,
    an authorization works once, every outcome is classified, and an authorized run on a working
    device is verified; the plans are sound, the overlap sweep is complete, and the capabilities are
    held only on the reviewed source and target, with no descriptor leaked; the target policy is
    exact on the tree of the device and on its mount points.
  \<^item> Secure Boot: a valid medium was read without following a link or a swapped file, and its very bytes parse, and are
    not revoked, by digest, certificate or SBAT generation; merging databases revokes the union; the
    signature-list parser accepts exactly the encodings, SBAT texts are read back as they were written, and
    signing does not change the digest.
  \<^item> Partition tables: what the writer leaves on the medium is accepted by the reader, and the
    persistence partition lies in the free space behind the image.
  \<^item> Boot configurations: the edit changes exactly the kernel lines that lack the parameter and is idempotent,
    the detection lists the files the edit changes, and a file is replaced as a whole or not at all.
  \<^item> Boot images: a plan describes the only EFI entry of the catalog and an image inside the volume, and an
    extraction writes exactly that image, from a source that may change; it succeeds on a stable one.
  \<^bold>\<open>Assumptions on code outside the sources.\<close> \<open>encoding/asn1\<close> and \<open>crypto/x509\<close> (the PKCS#7 decoder of
  \<open>SecurePe\<close>, the catalog authentication of an FFU image), \<open>crypto/rand\<close>, the kernel and the device are parameters.
  The hypotheses on them are the contracts above and, for a directory, that a read reports entries, the
  end or an error (\<open>reads_progress\<close>). The strength of SHA-256 is not assumed: statements about
  authenticated contents speak of digests, except where the verified bytes themselves are compared.

  \<^bold>\<open>Not modelled.\<close> The packages that drive external tools or services and hold little logic of their own that
  a kernel could check: Windows media, Windows To Go and answer files (wimlib, mkfs, XML), Linux
  media, the recognition and decompression of image files (the rest of \<open>imaging\<close>), ISO capture, drive backup, FreeDOS and non-bootable media (file copies, mkfs, qemu-img, xorriso), the
  acquisition of releases and the FFU publisher trust store (HTTP, JSON, Ed25519, atomic file
  replacement), catalog signature chains (ASN.1, X.509), runtime integrity, qualification records, the creation of
  persistence file systems (mkfs, mounts), and the command-line programs. Of the modelled packages, the parsing of \<open>lsblk\<close> and \<open>findmnt\<close> output, the opening of paths and the
  JSON rendering of reports are left out, as the manifest says for each component.
\<close>

end
